(* ===== verification/Prelude.thy ===== *)
theory Prelude
  imports Main "HOL-Library.AList" "HOL-Library.Multiset"
begin

text \<open>
  What every component of the model shares: Python values and errors, the error monad in which
  a \<open>raise\<close> is the left injection of a sum, dictionaries as association lists in insertion
  order, and the iteration of Python sets, whose order the language leaves open and which is
  therefore a parameter of every definition that iterates over a set.
\<close>

named_theorems monad_simps \<open>equations of the error monad\<close>
named_theorems dict_simps \<open>lookups and key sets of dictionaries\<close>

section \<open>Python values\<close>

text \<open>
  A finite float is \<open>m * 2 ^ e\<close>. Strings are lists of bytes. \<open>PDateTime\<close> counts microseconds,
  \<open>PFile\<close> stands for an open file or an uploaded file, which the code only passes on,
  \<open>PFileTypeContent\<close> for the client's wrapper of a file's URL, and \<open>PMultiValueDict\<close> for
  Django's \<open>MultiValueDict\<close> (a \<open>dict\<close> from keys to lists of values, in which the data of forms
  arrives), given by the dictionary of lists that it extends.
\<close>

datatype pyfloat = Fin int int | Inf bool | NaN

datatype pyval =
    PNone
  | PBool bool
  | PInt int
  | PFloat pyfloat
  | PStr string
  | PList "pyval list"
  | PDict "(string \<times> pyval) list"
  | PDateTime int
  | PFile string
  | PFileTypeContent pyval
  | PMultiValueDict "(string \<times> pyval) list"

type_synonym pydict = "(string \<times> pyval) list"

text \<open>
  Python's \<open>==\<close>: numbers compare by value across \<open>bool\<close>, \<open>int\<close> and \<open>float\<close> (\<open>NaN\<close> differs from
  everything), dictionaries compare without regard to the order of their keys.
\<close>

definition fin_eq :: "int \<Rightarrow> int \<Rightarrow> int \<Rightarrow> int \<Rightarrow> bool" where
  "fin_eq m e m' e' \<longleftrightarrow>
     (if e \<le> e' then m = m' * 2 ^ nat (e' - e) else m * 2 ^ nat (e - e') = m')"

fun pyfloat_eq :: "pyfloat \<Rightarrow> pyfloat \<Rightarrow> bool" where
  "pyfloat_eq (Fin m e) (Fin m' e') = fin_eq m e m' e'"
| "pyfloat_eq (Inf s) (Inf s') = (s = s')"
| "pyfloat_eq _ _ = False"

fun as_number :: "pyval \<Rightarrow> pyfloat option" where
  "as_number (PBool b) = Some (Fin (if b then 1 else 0) 0)"
| "as_number (PInt n) = Some (Fin n 0)"
| "as_number (PFloat x) = Some x"
| "as_number _ = None"

function (sequential) py_eq :: "pyval \<Rightarrow> pyval \<Rightarrow> bool" where
  "py_eq (PList xs) (PList ys) = (length xs = length ys \<and> list_all (\<lambda>(x, y). py_eq x y) (zip xs ys))"
| "py_eq (PDict d) (PDict e) =
     (length d = length e \<and>
      list_all (\<lambda>(k, v). case map_of e k of None \<Rightarrow> False | Some w \<Rightarrow> py_eq v w) d)"
| "py_eq (PMultiValueDict d) (PMultiValueDict e) =
     (length d = length e \<and>
      list_all (\<lambda>(k, v). case map_of e k of None \<Rightarrow> False | Some w \<Rightarrow> py_eq v w) d)"
| "py_eq (PMultiValueDict d) (PDict e) =
     (length d = length e \<and>
      list_all (\<lambda>(k, v). case map_of e k of None \<Rightarrow> False | Some w \<Rightarrow> py_eq v w) d)"
| "py_eq (PDict d) (PMultiValueDict e) =
     (length d = length e \<and>
      list_all (\<lambda>(k, v). case map_of e k of None \<Rightarrow> False | Some w \<Rightarrow> py_eq v w) d)"
| "py_eq (PFileTypeContent x) (PFileTypeContent y) = False"
| "py_eq x y =
     (case (as_number x, as_number y) of
        (Some a, Some b) \<Rightarrow> pyfloat_eq a b
      | (None, None) \<Rightarrow> x = y
      | _ \<Rightarrow> False)"
  by pat_completeness auto
termination
  by (relation "measure (\<lambda>(x, y). size x)")
    (auto simp: less_Suc_eq_le intro!: size_list_estimation' dest: set_zip_leftD)

text \<open>
  A value is equal to itself unless it holds a \<open>NaN\<close> or a fresh object; dictionaries read from
  JSON have distinct keys.
\<close>

fun reflexive_value :: "pyval \<Rightarrow> bool" where
  "reflexive_value (PFloat x) = (x \<noteq> NaN)"
| "reflexive_value (PList xs) = list_all reflexive_value xs"
| "reflexive_value (PDict d) = (distinct (map fst d) \<and> list_all (\<lambda>(k, v). reflexive_value v) d)"
| "reflexive_value (PMultiValueDict d) = (distinct (map fst d) \<and> list_all (\<lambda>(k, v). reflexive_value v) d)"
| "reflexive_value (PFileTypeContent x) = False"
| "reflexive_value _ = True"

lemma pyfloat_eq_refl: "x \<noteq> NaN \<Longrightarrow> pyfloat_eq x x"
  by (cases x) (auto simp: fin_eq_def)

lemma py_eq_refl: "reflexive_value v \<Longrightarrow> py_eq v v"
proof (induction v rule: reflexive_value.induct)
  case (2 xs)
  then show ?case by (auto simp: list_all_iff zip_same)
next
  case (3 d)
  have "map_of d k = Some v" if "(k, v) \<in> set d" for k v
    using that 3 by simp
  with 3 show ?case by (force simp: list_all_iff)
next
  case (4 d)
  have "map_of d k = Some v" if "(k, v) \<in> set d" for k v
    using that 4 by simp
  with 4 show ?case by (force simp: list_all_iff)
qed (simp_all add: pyfloat_eq_refl fin_eq_def)

text \<open>The exceptions the code raises or lets through, with what the callers look at.\<close>

datatype py_error =
    AssertionError
  | KeyError string
  | IndexError
  | ValueError string
  | TypeError
  | OverflowError
  | NotImplementedError
  | ValidationError pyval
  | NotFound string
  | APIException string
  | HTTPError nat
  | ComposeClientException string
  | IntegrityError
  | ProgrammingError
  | AttributeError
  | DataError
  | PermissionDenied string
  | Http404
  | MultipleObjectsReturned
  | DoesNotExist
  | Retry nat
  | OutOfFuel

section \<open>The error monad\<close>

type_synonym 'a result = "py_error + 'a"

fun rbind :: "'a result \<Rightarrow> ('a \<Rightarrow> 'b result) \<Rightarrow> 'b result" where
  "rbind (Inl e) f = Inl e"
| "rbind (Inr x) f = f x"

fun rmap :: "('a \<Rightarrow> 'b result) \<Rightarrow> 'a list \<Rightarrow> 'b list result" where
  "rmap f [] = Inr []"
| "rmap f (x # xs) = rbind (f x) (\<lambda>y. rbind (rmap f xs) (\<lambda>ys. Inr (y # ys)))"

lemma rbind_Inr_iff [monad_simps]: "rbind m f = Inr y \<longleftrightarrow> (\<exists>x. m = Inr x \<and> f x = Inr y)"
  by (cases m) auto

lemma rbind_Inl_iff [monad_simps]:
  "rbind m f = Inl e \<longleftrightarrow> m = Inl e \<or> (\<exists>x. m = Inr x \<and> f x = Inl e)"
  by (cases m) auto

lemma rbind_assoc: "rbind (rbind m f) g = rbind m (\<lambda>x. rbind (f x) g)"
  by (cases m) auto

lemma rbind_return [simp]: "rbind m Inr = m"
  by (cases m) auto

lemma rmap_Inr_iff [monad_simps]: "rmap f xs = Inr ys \<longleftrightarrow> list_all2 (\<lambda>x y. f x = Inr y) xs ys"
  by (induction xs arbitrary: ys) (auto simp: monad_simps list_all2_Cons1)

lemma rmap_total [simp]: "rmap (\<lambda>x. Inr (f x)) xs = Inr (map f xs)"
  by (induction xs) auto

lemma rmap_cong [fundef_cong]:
  "xs = ys \<Longrightarrow> (\<And>x. x \<in> set ys \<Longrightarrow> f x = g x) \<Longrightarrow> rmap f xs = rmap g ys"
  by (induction ys arbitrary: xs) auto

lemma rmap_members: "rmap f xs = Inr ys \<Longrightarrow> y \<in> set ys \<Longrightarrow> \<exists>x. f x = Inr y"
  by (induction xs arbitrary: ys) (auto simp: rbind_Inr_iff)

section \<open>State and errors\<close>

type_synonym ('w, 'a) api = "'w \<Rightarrow> 'a result \<times> 'w"

definition api_return :: "'a \<Rightarrow> ('w, 'a) api" where
  "api_return x w = (Inr x, w)"

definition api_raise :: "py_error \<Rightarrow> ('w, 'a) api" where
  "api_raise e w = (Inl e, w)"

definition api_lift :: "'a result \<Rightarrow> ('w, 'a) api" where
  "api_lift r w = (r, w)"

definition api_bind :: "('w, 'a) api \<Rightarrow> ('a \<Rightarrow> ('w, 'b) api) \<Rightarrow> ('w, 'b) api" where
  "api_bind m f w = (case m w of (Inl e, w') \<Rightarrow> (Inl e, w') | (Inr x, w') \<Rightarrow> f x w')"

text \<open>\<open>for x in xs: f(x)\<close>, without and with a result per round.\<close>

fun api_for :: "('a \<Rightarrow> ('w, unit) api) \<Rightarrow> 'a list \<Rightarrow> ('w, unit) api" where
  "api_for f [] = api_return ()"
| "api_for f (x # xs) = api_bind (f x) (\<lambda>_. api_for f xs)"

fun api_map :: "('a \<Rightarrow> ('w, 'b) api) \<Rightarrow> 'a list \<Rightarrow> ('w, 'b list) api" where
  "api_map f [] = api_return []"
| "api_map f (x # xs) = api_bind (f x) (\<lambda>y. api_bind (api_map f xs) (\<lambda>ys. api_return (y # ys)))"

definition api_when :: "bool \<Rightarrow> ('w, unit) api \<Rightarrow> ('w, unit) api" where
  "api_when b m = (if b then m else api_return ())"

definition api_ignore :: "('w, 'a) api \<Rightarrow> ('w, unit) api" where
  "api_ignore m = api_bind m (\<lambda>_. api_return ())"

text \<open>\<open>f = x\<close> of an attribute, and reading it.\<close>

definition api_get :: "('w \<Rightarrow> 'a) \<Rightarrow> ('w, 'a) api" where
  "api_get f w = (Inr (f w), w)"

definition api_modify :: "('w \<Rightarrow> 'w) \<Rightarrow> ('w, unit) api" where
  "api_modify f w = (Inr (), f w)"

named_theorems api_simps \<open>running the monad\<close>

lemma api_return_run [api_simps]: "api_return x w = (Inr x, w)"
  by (simp add: api_return_def)

lemma api_raise_run [api_simps]: "api_raise e w = (Inl e, w)"
  by (simp add: api_raise_def)

lemma api_lift_run [api_simps]: "api_lift r w = (r, w)"
  by (simp add: api_lift_def)

lemma api_get_run [api_simps]: "api_get f w = (Inr (f w), w)"
  by (simp add: api_get_def)

lemma api_modify_run [api_simps]: "api_modify f w = (Inr (), f w)"
  by (simp add: api_modify_def)

lemma api_map_cong [fundef_cong]:
  "xs = ys \<Longrightarrow> (\<And>x. x \<in> set ys \<Longrightarrow> f x = g x) \<Longrightarrow> api_map f xs = api_map g ys"
  by (induction ys arbitrary: xs) auto

lemma api_bind_Inr [api_simps]: "m w = (Inr x, w') \<Longrightarrow> api_bind m f w = f x w'"
  by (simp add: api_bind_def)

lemma api_bind_Inl [api_simps]: "m w = (Inl e, w') \<Longrightarrow> api_bind m f w = (Inl e, w')"
  by (simp add: api_bind_def)

lemma api_bind_InrE:
  assumes "api_bind m f w = (Inr y, w')"
  obtains x w1 where "m w = (Inr x, w1)" and "f x w1 = (Inr y, w')"
  using assms by (auto simp: api_bind_def split: prod.splits sum.splits)

lemma lift_bind: "api_bind (api_lift (Inr x)) f = f x"
  by (rule ext) (simp add: api_bind_def api_lift_def)

section \<open>Dictionaries\<close>

text \<open>
  A dictionary keeps its keys in insertion order; storing under a present key changes the value
  in place. That is \<^const>\<open>AList.update\<close>; \<open>dict.pop\<close> is \<^const>\<open>AList.delete\<close>, \<open>d.update(e)\<close>
  is \<open>dict_update\<close> and \<open>{key(x): val(x) for x in xs}\<close> is \<open>dict_comp\<close>.
\<close>

definition dict_comp :: "('a \<Rightarrow> 'k) \<Rightarrow> ('a \<Rightarrow> 'v) \<Rightarrow> 'a list \<Rightarrow> ('k \<times> 'v) list" where
  "dict_comp key val xs = fold (\<lambda>x. AList.update (key x) (val x)) xs []"

definition dict_update :: "('k \<times> 'v) list \<Rightarrow> ('k \<times> 'v) list \<Rightarrow> ('k \<times> 'v) list" where
  "dict_update d e = fold (\<lambda>(k, v). AList.update k v) e d"

definition dict_index :: "(string \<times> 'v) list \<Rightarrow> string \<Rightarrow> 'v result" where
  "dict_index d k = (case map_of d k of None \<Rightarrow> Inl (KeyError k) | Some v \<Rightarrow> Inr v)"

abbreviation keys :: "('k \<times> 'v) list \<Rightarrow> 'k list" where
  "keys d \<equiv> map fst d"

lemma map_of_AList_update [dict_simps]: "map_of (AList.update k v d) = (map_of d)(k \<mapsto> v)"
  by (rule AList.update_conv')

lemma keys_AList_update [dict_simps]: "fst ` set (AList.update k v d) = insert k (fst ` set d)"
  by (simp add: AList.dom_update)

lemma dict_fold_keys:
  "set (keys (fold (\<lambda>x. AList.update (key x) (val x)) xs d)) = key ` set xs \<union> set (keys d)"
  by (induction xs arbitrary: d) (auto simp: AList.dom_update)

lemma dict_fold_distinct:
  "distinct (keys d) \<Longrightarrow> distinct (keys (fold (\<lambda>x. AList.update (key x) (val x)) xs d))"
  by (induction xs arbitrary: d) (auto simp: AList.distinct_update)

lemma dict_fold_map_of:
  "map_of (fold (\<lambda>x. AList.update (key x) (val x)) xs d) k =
     (case find (\<lambda>x. key x = k) (rev xs) of None \<Rightarrow> map_of d k | Some x \<Rightarrow> Some (val x))"
proof (induction xs rule: rev_induct)
  case Nil
  then show ?case by simp
next
  case (snoc x xs)
  then show ?case by (simp add: map_of_AList_update)
qed

lemma dict_comp_keys [dict_simps]: "fst ` set (dict_comp key val xs) = key ` set xs"
  using dict_fold_keys [of key val xs "[]"] by (simp add: dict_comp_def)

lemma dict_comp_distinct [simp]: "distinct (keys (dict_comp key val xs))"
  unfolding dict_comp_def by (rule dict_fold_distinct) simp

lemma update_new_key: "k \<notin> fst ` set d \<Longrightarrow> AList.update k v d = d @ [(k, v)]"
  by (induction d) auto

lemma dict_comp_distinct_eq:
  assumes "distinct (map key xs)"
  shows "dict_comp key val xs = map (\<lambda>x. (key x, val x)) xs"
  using assms
proof (induction xs rule: rev_induct)
  case Nil
  then show ?case by (simp add: dict_comp_def)
next
  case (snoc x xs)
  from snoc have "dict_comp key val xs = map (\<lambda>x. (key x, val x)) xs" by simp
  moreover have "dict_comp key val (xs @ [x]) = AList.update (key x) (val x) (dict_comp key val xs)"
    by (simp add: dict_comp_def)
  moreover have "key x \<notin> fst ` set (map (\<lambda>x. (key x, val x)) xs)"
    using snoc.prems by auto
  ultimately show ?case by (simp add: update_new_key del: set_map)
qed

lemma dict_comp_map_of [dict_simps]:
  "map_of (dict_comp key val xs) k = map_option val (find (\<lambda>x. key x = k) (rev xs))"
  by (simp add: dict_comp_def dict_fold_map_of split: option.split)

lemma dict_comp_Nil [simp]: "dict_comp key val [] = []"
  by (simp add: dict_comp_def)

text \<open>With distinct keys the dictionary holds each element under its key.\<close>

lemma find_SomeD: "find P xs = Some x \<Longrightarrow> x \<in> set xs \<and> P x"
  by (induction xs) (auto split: if_splits)

lemma same_key: "distinct (map f xs) \<Longrightarrow> x \<in> set xs \<Longrightarrow> y \<in> set xs \<Longrightarrow> f x = f y \<Longrightarrow> x = y"
  by (metis distinct_map inj_onD)

lemma find_unique:
  assumes "distinct (map key xs)" and "x \<in> set xs"
  shows "find (\<lambda>y. key y = key x) xs = Some x"
  using assms by (induction xs) force+

lemma dict_comp_unique:
  assumes "distinct (map key xs)" and "x \<in> set xs"
  shows "map_of (dict_comp key val xs) (key x) = Some (val x)"
proof -
  from assms have "distinct (map key (rev xs))" and "x \<in> set (rev xs)"
    by (simp_all add: rev_map [symmetric])
  then show ?thesis by (simp add: dict_simps find_unique)
qed

lemma dict_comp_Some_iff:
  assumes "distinct (map key xs)"
  shows "map_of (dict_comp key (\<lambda>x. x) xs) k = Some x \<longleftrightarrow> x \<in> set xs \<and> key x = k"
proof
  assume "map_of (dict_comp key (\<lambda>x. x) xs) k = Some x"
  then show "x \<in> set xs \<and> key x = k"
    by (auto simp: dict_simps dest!: find_SomeD)
next
  assume "x \<in> set xs \<and> key x = k"
  with assms show "map_of (dict_comp key (\<lambda>x. x) xs) k = Some x"
    using dict_comp_unique [of key xs x "\<lambda>x. x"] by auto
qed

lemma dict_comp_None_iff:
  "map_of (dict_comp key val xs) k = None \<longleftrightarrow> k \<notin> key ` set xs"
  using dict_comp_keys [of key val xs] by (simp add: map_of_eq_None_iff)

lemma dict_update_map_of [dict_simps]: "map_of (dict_update d e) = map_of d ++ map_of (rev e)"
  unfolding dict_update_def
  by (induction e arbitrary: d) (auto simp: map_of_AList_update fun_eq_iff map_add_def
      split: option.splits)

lemma dict_update_keys [dict_simps]: "fst ` set (dict_update d e) = fst ` set d \<union> fst ` set e"
  unfolding dict_update_def
  by (induction e arbitrary: d) (auto simp: AList.dom_update split: prod.splits)

lemma dict_update_Nil [simp]: "dict_update d [] = d"
  by (simp add: dict_update_def)

lemma dict_index_Inr [simp]: "dict_index d k = Inr v \<longleftrightarrow> map_of d k = Some v"
  by (simp add: dict_index_def split: option.split)

section \<open>Iterating over a set\<close>

text \<open>
  Python leaves the iteration order of a set open. What the code relies on is the contract of
  \<open>set_order\<close>: every element is visited, once. \<open>set_iter f xs\<close> iterates over the set of the
  elements of \<open>xs\<close> in the order \<open>f\<close> chooses (any permutation can be chosen; a choice that is no
  enumeration of the set falls back to insertion order), so a theorem for all \<open>f\<close> is a theorem
  for all iteration orders.
\<close>

definition set_iter :: "('a list \<Rightarrow> 'a list) \<Rightarrow> 'a list \<Rightarrow> 'a list" where
  "set_iter f xs = (let ys = f xs in if distinct ys \<and> set ys = set xs then ys else remdups xs)"

locale set_order =
  fixes iter :: "'a list \<Rightarrow> 'a list"
  assumes iter_set: "set (iter xs) = set xs"
    and iter_distinct: "distinct (iter xs)"
begin

lemma iter_Nil: "iter [] = []"
  using iter_set [of "[]"] by simp

lemma iter_mset: "mset (iter xs) = mset (remdups xs)"
  by (metis iter_set iter_distinct distinct_remdups set_remdups set_eq_iff_mset_eq_distinct)

lemma iter_length: "length (iter xs) = card (set xs)"
  by (metis iter_set iter_distinct distinct_card)

lemma iter_single: "set xs = {x} \<Longrightarrow> iter xs = [x]"
  by (metis iter_set iter_distinct distinct_card card_1_singleton_iff length_0_conv length_Suc_conv
      One_nat_def list.set_intros(1) singletonD)

lemma iter_filter_empty: "(\<And>x. x \<in> set xs \<Longrightarrow> \<not> P x) \<Longrightarrow> filter P (iter xs) = []"
  using iter_set by (auto simp: filter_empty_conv)

end

interpretation sorder: set_order "set_iter f" for f
  by unfold_locales (auto simp: set_iter_def Let_def)

lemmas set_iter_facts = sorder.iter_set sorder.iter_distinct

lemma set_iter_any_permutation:
  "distinct ys \<Longrightarrow> set ys = set xs \<Longrightarrow> set_iter (\<lambda>_. ys) xs = ys"
  by (simp add: set_iter_def)

section \<open>What a run adds to a trace\<close>

text \<open>\<open>emits trace A m\<close>: whatever \<open>m\<close> does, with or without an exception, its calls are in \<open>A\<close>.\<close>

definition emits :: "('w \<Rightarrow> 'c list) \<Rightarrow> 'c set \<Rightarrow> ('w, 'a) api \<Rightarrow> bool" where
  "emits trace A m \<longleftrightarrow>
     (\<forall>w r w'. m w = (r, w') \<longrightarrow> (\<exists>cs. trace w' = trace w @ cs \<and> set cs \<subseteq> A))"

named_theorems emits_intros \<open>which calls a run makes\<close>

lemma emits_mono: "emits trace A m \<Longrightarrow> A \<subseteq> B \<Longrightarrow> emits trace B m"
  unfolding emits_def by blast

lemma emits_return [emits_intros]: "emits trace A (api_return x)"
  by (auto simp: emits_def api_return_def)

lemma emits_raise [emits_intros]: "emits trace A (api_raise e)"
  by (auto simp: emits_def api_raise_def)

lemma emits_lift [emits_intros]: "emits trace A (api_lift r)"
  by (auto simp: emits_def api_lift_def)

lemma emitsD:
  "emits trace A m \<Longrightarrow> m w = (r, w') \<Longrightarrow> \<exists>cs. trace w' = trace w @ cs \<and> set cs \<subseteq> A"
  unfolding emits_def by blast

lemma emits_bind [emits_intros]:
  assumes "emits trace A m" and "\<And>x. emits trace A (f x)"
  shows "emits trace A (api_bind m f)"
  unfolding emits_def
proof (intro allI impI)
  fix w r w'
  assume run: "api_bind m f w = (r, w')"
  obtain r1 w1 where m: "m w = (r1, w1)" by fastforce
  from emitsD [OF assms(1) m] obtain cs1 where 1: "trace w1 = trace w @ cs1" "set cs1 \<subseteq> A"
    by blast
  show "\<exists>cs. trace w' = trace w @ cs \<and> set cs \<subseteq> A"
  proof (cases r1)
    case (Inl e)
    with run m 1 show ?thesis by (auto simp: api_bind_def)
  next
    case (Inr x)
    with run m have "f x w1 = (r, w')" by (simp add: api_bind_def)
    from emitsD [OF assms(2) this] 1 show ?thesis by fastforce
  qed
qed

lemma emits_for [emits_intros]:
  assumes "\<And>x. x \<in> set xs \<Longrightarrow> emits trace A (f x)"
  shows "emits trace A (api_for f xs)"
  using assms by (induction xs) (auto intro!: emits_intros)

lemma emits_map [emits_intros]:
  assumes "\<And>x. x \<in> set xs \<Longrightarrow> emits trace A (f x)"
  shows "emits trace A (api_map f xs)"
  using assms by (induction xs) (auto intro!: emits_intros)

lemma emits_when [emits_intros]: "(b \<Longrightarrow> emits trace A m) \<Longrightarrow> emits trace A (api_when b m)"
  by (auto simp: api_when_def emits_return)

lemma emits_ignore [emits_intros]: "emits trace A m \<Longrightarrow> emits trace A (api_ignore m)"
  unfolding api_ignore_def by (rule emits_bind) (auto intro: emits_intros)

lemma emits_if [emits_intros]:
  "(b \<Longrightarrow> emits trace A m) \<Longrightarrow> (\<not> b \<Longrightarrow> emits trace A m') \<Longrightarrow> emits trace A (if b then m else m')"
  by simp

lemma emits_prod [emits_intros]:
  "(\<And>x y. p = (x, y) \<Longrightarrow> emits trace A (f x y)) \<Longrightarrow> emits trace A (case p of (x, y) \<Rightarrow> f x y)"
  by (cases p) simp

lemma emits_option [emits_intros]:
  "(v = None \<Longrightarrow> emits trace A m) \<Longrightarrow> (\<And>x. v = Some x \<Longrightarrow> emits trace A (f x)) \<Longrightarrow>
    emits trace A (case v of None \<Rightarrow> m | Some x \<Rightarrow> f x)"
  by (cases v) simp_all

section \<open>Partial correctness of runs\<close>

text \<open>Every run from a state with \<open>P\<close> that raises nothing ends with \<open>Q\<close> for its result and state.\<close>

definition achieves :: "('w \<Rightarrow> bool) \<Rightarrow> ('w, 'a) api \<Rightarrow> ('a \<Rightarrow> 'w \<Rightarrow> bool) \<Rightarrow> bool" where
  "achieves P m Q \<longleftrightarrow> (\<forall>w x w'. P w \<longrightarrow> m w = (Inr x, w') \<longrightarrow> Q x w')"

lemma achievesI: "(\<And>w x w'. P w \<Longrightarrow> m w = (Inr x, w') \<Longrightarrow> Q x w') \<Longrightarrow> achieves P m Q"
  by (auto simp: achieves_def)

lemma achievesD: "achieves P m Q \<Longrightarrow> m w = (Inr x, w') \<Longrightarrow> P w \<Longrightarrow> Q x w'"
  by (auto simp: achieves_def)

lemma achieves_weaken: "achieves P' m Q' \<Longrightarrow> (\<And>w. P w \<Longrightarrow> P' w) \<Longrightarrow> (\<And>x w. Q' x w \<Longrightarrow> Q x w) \<Longrightarrow> achieves P m Q"
  unfolding achieves_def by meson

lemma achieves_return: "(\<And>w. P w \<Longrightarrow> Q x w) \<Longrightarrow> achieves P (api_return x) Q"
  by (auto simp: achieves_def api_return_def)

lemma achieves_raise: "achieves P (api_raise e) Q"
  by (auto simp: achieves_def api_raise_def)

lemma achieves_lift: "(\<And>x w. r = Inr x \<Longrightarrow> P w \<Longrightarrow> Q x w) \<Longrightarrow> achieves P (api_lift r) Q"
  by (auto simp: achieves_def api_lift_def)

lemma achieves_bind: "achieves P m R \<Longrightarrow> (\<And>x. achieves (R x) (f x) Q) \<Longrightarrow> achieves P (api_bind m f) Q"
  unfolding achieves_def api_bind_def by (force split: prod.splits sum.splits)

lemma achieves_when: "(b \<Longrightarrow> achieves P m Q) \<Longrightarrow> (\<And>w. \<not> b \<Longrightarrow> P w \<Longrightarrow> Q () w) \<Longrightarrow> achieves P (api_when b m) Q"
  by (auto simp: api_when_def intro: achieves_return)

lemma achieves_ignore: "achieves P m (\<lambda>_. Q ()) \<Longrightarrow> achieves P (api_ignore m) Q"
  unfolding api_ignore_def by (erule achieves_bind) (auto intro: achieves_return)

lemma achieves_for:
  "(\<And>x. x \<in> set xs \<Longrightarrow> achieves I (f x) (\<lambda>_. I)) \<Longrightarrow> achieves I (api_for f xs) (\<lambda>_. I)"
  by (induction xs) (auto intro!: achieves_return achieves_bind)

lemma achieves_map_collect:
  assumes "\<And>x. x \<in> set xs \<Longrightarrow> achieves I (f x) (\<lambda>y w. I w \<and> R x y w)"
    and "\<And>x x' y. x \<in> set xs \<Longrightarrow> x' \<in> set xs \<Longrightarrow> achieves (R x' y) (f x) (\<lambda>_. R x' y)"
  shows "achieves I (api_map f xs) (\<lambda>ys w. I w \<and> list_all2 (\<lambda>x y. R x y w) xs ys)"
  using assms
proof (induction xs)
  case (Cons x xs)
  have keep: "achieves (R x y) (api_map f zs) (\<lambda>_. R x y)" if "set zs \<subseteq> set xs" for y zs
    using that Cons.prems(2) by (induction zs) (auto intro!: achieves_return achieves_bind)
  have rest: "achieves I (api_map f xs) (\<lambda>ys w. I w \<and> list_all2 (\<lambda>x y. R x y w) xs ys)"
    using Cons by auto
  have "achieves (\<lambda>w. I w \<and> R x y w) (api_map f xs)
      (\<lambda>ys w. (I w \<and> list_all2 (\<lambda>x y. R x y w) xs ys) \<and> R x y w)" for y
    using rest keep [of xs y] by (auto simp: achieves_def)
  then show ?case
    unfolding api_map.simps
    by (intro achieves_bind [OF Cons.prems(1)] achieves_bind achieves_return) (auto simp: conj_ac)
qed (auto intro: achieves_return)

lemma achieves_conj: "achieves P m Q \<Longrightarrow> achieves P' m Q' \<Longrightarrow> achieves (\<lambda>w. P w \<and> P' w) m (\<lambda>x w. Q x w \<and> Q' x w)"
  by (auto simp: achieves_def)

lemma achieves_constant: "achieves (\<lambda>_. C) m (\<lambda>_ _. C)"
  by (auto simp: achieves_def)

lemma achieves_assume: "(C \<Longrightarrow> achieves P m Q) \<Longrightarrow> achieves (\<lambda>w. C \<and> P w) m Q"
  by (auto simp: achieves_def)

section \<open>Lists\<close>

lemma takeWhile_all_append:
  "list_all P xs \<Longrightarrow> (ys = [] \<or> \<not> P (hd ys)) \<Longrightarrow> takeWhile P (xs @ ys) = xs"
  by (cases ys) (auto simp: list_all_iff takeWhile_append)

lemma dropWhile_all_append:
  "list_all P xs \<Longrightarrow> (ys = [] \<or> \<not> P (hd ys)) \<Longrightarrow> dropWhile P (xs @ ys) = ys"
  by (cases ys) (auto simp: list_all_iff dropWhile_append)

end
