(* ===== verification/Client_Url.thy ===== *)
theory Client_Url
  imports Prelude
begin

text \<open>
  Domain aliases of the client: \<open>service/url.py\<close> and \<open>models/domain_aliases.py\<close>. \<open>urlparse\<close> and
  \<open>urlunparse\<close> are Python's (3.11) on ASCII URLs, written out as far as \<open>replace_domain\<close> uses
  them; the check of an IP literal in brackets is the only step of \<open>urlsplit\<close> that is left out.
\<close>

section \<open>The part of urllib.parse that is used\<close>

record ParseResult =
  pr_scheme :: string
  pr_netloc :: string
  pr_path :: string
  pr_params :: string
  pr_query :: string
  pr_fragment :: string

definition code :: "char \<Rightarrow> nat" where
  "code c = of_char c"

definition is_alpha :: "char \<Rightarrow> bool" where
  "is_alpha c \<longleftrightarrow> (65 \<le> code c \<and> code c \<le> 90) \<or> (97 \<le> code c \<and> code c \<le> 122)"

definition scheme_char :: "char \<Rightarrow> bool" where
  "scheme_char c \<longleftrightarrow> is_alpha c \<or> (48 \<le> code c \<and> code c \<le> 57) \<or> c \<in> set ''+-.''"

definition to_lower :: "char \<Rightarrow> char" where
  "to_lower c = (if 65 \<le> code c \<and> code c \<le> 90 then char_of (code c + 32) else c)"

definition control_or_space :: "char \<Rightarrow> bool" where
  "control_or_space c \<longleftrightarrow> code c \<le> 32"

definition unsafe_char :: "char \<Rightarrow> bool" where
  "unsafe_char c \<longleftrightarrow> code c \<in> {9, 10, 13}"

definition uses_netloc :: "string list" where
  "uses_netloc = ['''', ''ftp'', ''http'', ''gopher'', ''nntp'', ''telnet'', ''imap'', ''wais'',
     ''file'', ''mms'', ''https'', ''shttp'', ''snews'', ''prospero'', ''rtsp'', ''rtsps'',
     ''rtspu'', ''rsync'', ''svn'', ''svn+ssh'', ''sftp'', ''nfs'', ''git'', ''git+ssh'', ''ws'',
     ''wss'']"

definition uses_params :: "string list" where
  "uses_params = ['''', ''ftp'', ''hdl'', ''prospero'', ''http'', ''imap'', ''https'', ''shttp'',
     ''rtsp'', ''rtsps'', ''rtspu'', ''sip'', ''sips'', ''mms'', ''sftp'', ''tel'']"

text \<open>\<open>cut c s\<close> is \<open>s.split(c, 1)\<close> with an empty second half where \<open>c\<close> does not occur.\<close>

definition cut :: "char \<Rightarrow> string \<Rightarrow> string \<times> string" where
  "cut c s = (takeWhile (\<lambda>x. x \<noteq> c) s, tl (dropWhile (\<lambda>x. x \<noteq> c) s))"

definition is_delim :: "char \<Rightarrow> bool" where
  "is_delim c \<longleftrightarrow> c \<in> set ''/?#''"

definition urlsplit :: "string \<Rightarrow> (string \<times> string \<times> string \<times> string \<times> string) result" where
  "urlsplit s =
     (let u = filter (\<lambda>c. \<not> unsafe_char c) (dropWhile control_or_space s);
          cand = takeWhile (\<lambda>c. c \<noteq> CHR '':'') u;
          has_scheme = (CHR '':'' \<in> set u \<and> cand \<noteq> [] \<and> is_alpha (hd cand) \<and> list_all scheme_char cand);
          scheme = (if has_scheme then map to_lower cand else []);
          u1 = (if has_scheme then drop (Suc (length cand)) u else u);
          has_net = (take 2 u1 = ''//'');
          netloc = (if has_net then takeWhile (\<lambda>c. \<not> is_delim c) (drop 2 u1) else []);
          u2 = (if has_net then dropWhile (\<lambda>c. \<not> is_delim c) (drop 2 u1) else u1)
      in if (CHR ''['' \<in> set netloc) \<noteq> (CHR '']'' \<in> set netloc)
         then Inl (ValueError ''Invalid IPv6 URL'')
         else (let (u3, fragment) = cut CHR ''#'' u2; (path, query) = cut CHR ''?'' u3
               in Inr (scheme, netloc, path, query, fragment)))"

definition splitparams :: "string \<Rightarrow> string \<times> string" where
  "splitparams url =
     (let seg = rev (takeWhile (\<lambda>c. c \<noteq> CHR ''/'') (rev url));
          pre = take (length url - length seg) url
      in if CHR '';'' \<in> set seg
         then (let (p, q) = cut CHR '';'' seg in (pre @ p, q))
         else (url, []))"

definition urlparse :: "string \<Rightarrow> ParseResult result" where
  "urlparse s = rbind (urlsplit s) (\<lambda>(scheme, netloc, url, query, fragment).
     let (path, params) =
           (if scheme \<in> set uses_params \<and> CHR '';'' \<in> set url then splitparams url else (url, []))
     in Inr \<lparr>pr_scheme = scheme, pr_netloc = netloc, pr_path = path, pr_params = params,
             pr_query = query, pr_fragment = fragment\<rparr>)"

definition urlunparse :: "ParseResult \<Rightarrow> string" where
  "urlunparse p =
     (let url0 = (if pr_params p \<noteq> [] then pr_path p @ '';'' @ pr_params p else pr_path p);
          url1 = (if pr_netloc p \<noteq> [] \<or> (pr_scheme p \<noteq> [] \<and> pr_scheme p \<in> set uses_netloc)
                     \<or> take 2 url0 = ''//''
                  then ''//'' @ pr_netloc p @
                    (if url0 \<noteq> [] \<and> hd url0 \<noteq> CHR ''/'' then CHR ''/'' # url0 else url0)
                  else url0);
          url2 = (if pr_scheme p \<noteq> [] then pr_scheme p @ '':'' @ url1 else url1);
          url3 = (if pr_query p \<noteq> [] then url2 @ ''?'' @ pr_query p else url2)
      in if pr_fragment p \<noteq> [] then url3 @ ''#'' @ pr_fragment p else url3)"

section \<open>service/url.py\<close>

definition replace_domain :: "string \<Rightarrow> (string \<times> string) list \<Rightarrow> string result" where
  "replace_domain url domain_aliases =
     rbind (urlparse url) (\<lambda>parsed_upstream.
       case map_of domain_aliases (pr_netloc parsed_upstream) of
         Some alias \<Rightarrow> Inr (urlunparse (parsed_upstream\<lparr>pr_netloc := alias\<rparr>))
       | None \<Rightarrow> Inr url)"

section \<open>models/domain\_aliases.py\<close>

fun invert_loop ::
  "(string \<times> string) list \<Rightarrow> (string \<times> string) list \<Rightarrow> (string \<times> string) list option" where
  "invert_loop out [] = Some out"
| "invert_loop out ((k, v) # items) =
     (if v \<in> set (keys out) then None else invert_loop (AList.update v k out) items)"

definition invert_dict :: "(string \<times> string) list \<Rightarrow> (string \<times> string) list option" where
  "invert_dict d = invert_loop [] d"

fun is_PStr :: "pyval \<Rightarrow> bool" where
  "is_PStr (PStr s) = True"
| "is_PStr _ = False"

text \<open>\<open>json_loads\<close> is the JSON reader; the value it returns is checked to map strings to strings.\<close>

definition parse_domain_aliases :: "(string \<Rightarrow> pyval result) \<Rightarrow> string option \<Rightarrow> pydict result" where
  "parse_domain_aliases json_loads domain_aliases_str =
     (case domain_aliases_str of
        None \<Rightarrow> Inr []
      | Some s \<Rightarrow> rbind (json_loads s) (\<lambda>obj.
          case obj of
            PDict d \<Rightarrow> (if list_all (\<lambda>(_, v). is_PStr v) d then Inr d else Inl AssertionError)
          | _ \<Rightarrow> Inl AssertionError))"

section \<open>Lemmas\<close>

lemma replace_domain_Nil: "replace_domain url [] = Inr u \<Longrightarrow> u = url"
  by (auto simp: replace_domain_def monad_simps)

lemma invert_loop_Some:
  assumes "invert_loop out items = Some r" and "distinct (keys items)" and "distinct (map snd items)"
  shows "map_of r v = (case find (\<lambda>p. snd p = v) items of Some (k, _) \<Rightarrow> Some k | None \<Rightarrow> map_of out v)"
  using assms
proof (induction out items arbitrary: r rule: invert_loop.induct)
  case (1 out)
  then show ?case by simp
next
  case (2 out k w items)
  have none: "find (\<lambda>p. snd p = w) items = None"
    using "2.prems"(3) by (force simp: find_None_iff)
  from 2 none show ?case
    by (auto split: if_splits option.splits simp: map_of_AList_update)
qed

lemma invert_loop_distinct:
  "invert_loop out items = Some r \<Longrightarrow>
     distinct (map snd items) \<and> set (map snd items) \<inter> set (keys out) = {}"
  by (induction out items arbitrary: r rule: invert_loop.induct)
    (auto simp: AList.dom_update split: if_splits)

lemma invert_loop_total:
  "distinct (map snd items) \<Longrightarrow> set (map snd items) \<inter> set (keys out) = {} \<Longrightarrow>
     \<exists>r. invert_loop out items = Some r"
proof (induction out items rule: invert_loop.induct)
  case (1 out)
  then show ?case by simp
next
  case (2 out k v items)
  have v: "v \<notin> set (keys out)" using "2.prems" by simp
  have "set (map snd items) \<inter> set (keys (AList.update v k out)) = {}"
    using "2.prems" by (auto simp: dict_simps)
  with 2 v show ?case by simp
qed

lemma invert_dict_defined: "(\<exists>r. invert_dict d = Some r) \<longleftrightarrow> distinct (map snd d)"
  using invert_loop_distinct [of "[]" d] invert_loop_total [of d "[]"]
  by (auto simp: invert_dict_def)

lemma find_snd_Some:
  assumes "distinct (map snd d)"
  shows "find (\<lambda>p. snd p = v) d = Some (k, w) \<longleftrightarrow> w = v \<and> (k, v) \<in> set d"
proof
  assume "find (\<lambda>p. snd p = v) d = Some (k, w)"
  then show "w = v \<and> (k, v) \<in> set d"
    by (auto dest!: find_SomeD)
next
  assume "w = v \<and> (k, v) \<in> set d"
  then show "find (\<lambda>p. snd p = v) d = Some (k, w)"
    using find_unique [OF assms, of "(k, v)"] by simp
qed

lemma invert_dict_lookup:
  assumes "invert_dict d = Some r" and "distinct (keys d)"
  shows "map_of r v = Some k \<longleftrightarrow> map_of d k = Some v"
proof -
  from assms(1) have vs: "distinct (map snd d)" using invert_dict_defined by blast
  have "map_of r v = Some k \<longleftrightarrow> find (\<lambda>p. snd p = v) d = Some (k, v)"
    using invert_loop_Some [of "[]" d r v] assms vs
    by (auto simp: invert_dict_def split: option.splits dest: find_snd_Some [OF vs, THEN iffD1])
  also have "\<dots> \<longleftrightarrow> (k, v) \<in> set d" by (simp add: find_snd_Some [OF vs])
  also have "\<dots> \<longleftrightarrow> map_of d k = Some v" using assms(2) by (simp add: map_of_eq_Some_iff)
  finally show ?thesis .
qed

text \<open>
  A URL of the usual shape, \<open>scheme://host/path\<close>: its authority is found and only the authority
  is exchanged.
\<close>

definition host_char :: "char \<Rightarrow> bool" where
  "host_char c \<longleftrightarrow> 32 < code c \<and> c \<notin> set ''/?#[]''"

definition path_char :: "char \<Rightarrow> bool" where
  "path_char c \<longleftrightarrow> 32 < code c \<and> c \<notin> set ''?#;''"

definition plain_url_parts :: "string \<Rightarrow> string \<Rightarrow> string \<Rightarrow> bool" where
  "plain_url_parts scheme host path \<longleftrightarrow>
     scheme \<noteq> [] \<and> list_all (\<lambda>c. 97 \<le> code c \<and> code c \<le> 122) scheme \<and>
     host \<noteq> [] \<and> list_all host_char host \<and>
     (path = [] \<or> hd path = CHR ''/'') \<and> list_all path_char path"

lemma host_char_facts:
  "host_char c \<Longrightarrow> 32 < code c" "host_char c \<Longrightarrow> \<not> is_delim c"
  "\<not> host_char CHR ''[''" "\<not> host_char CHR '']''"
  by (simp_all add: host_char_def is_delim_def)

lemma path_char_facts:
  "path_char c \<Longrightarrow> 32 < code c"
  "\<not> path_char CHR ''#''" "\<not> path_char CHR ''?''" "\<not> path_char CHR '';''"
  by (simp_all add: path_char_def)

lemma list_all_notin: "list_all P xs \<Longrightarrow> \<not> P x \<Longrightarrow> x \<notin> set xs"
  by (auto simp: list_all_iff)

lemma cut_absent: "c \<notin> set s \<Longrightarrow> cut c s = (s, [])"
  by (induction s) (auto simp: cut_def)

lemma code_colon [simp]: "code CHR '':'' = 58"
  by (simp add: code_def)

lemma code_slash [simp]: "code CHR ''/'' = 47"
  by (simp add: code_def)

lemma urlsplit_plain:
  assumes "plain_url_parts scheme host path"
  shows "urlsplit (scheme @ CHR '':'' # CHR ''/'' # CHR ''/'' # host @ path)
    = Inr (scheme, host, path, [], [])" (is "urlsplit ?s = _")
proof -
  note A = assms [unfolded plain_url_parts_def]
  have ne: "scheme \<noteq> []" and low: "\<And>c. c \<in> set scheme \<Longrightarrow> 97 \<le> code c \<and> code c \<le> 122"
    and host: "list_all host_char host" and path: "list_all path_char path"
    and slash: "path = [] \<or> hd path = CHR ''/''"
    using A by (simp_all add: list_all_iff)
  have clean: "32 < code c" if "c \<in> set ?s" for c
    using that low [of c] host_char_facts(1) [of c] path_char_facts(1) [of c] host path
    by (fastforce simp: list_all_iff)
  have "\<not> control_or_space (hd ?s)"
    using clean [of "hd ?s"] ne by (simp add: control_or_space_def)
  then have drop: "dropWhile control_or_space ?s = ?s"
    using ne by (cases scheme) simp_all
  have filt: "filter (\<lambda>c. \<not> unsafe_char c) ?s = ?s"
    using clean by (subst filter_id_conv) (force simp: unsafe_char_def)
  have nocolon: "list_all (\<lambda>c. c \<noteq> CHR '':'') scheme"
    using low by (force simp: list_all_iff)
  have cand: "takeWhile (\<lambda>c. c \<noteq> CHR '':'') ?s = scheme"
    by (rule takeWhile_all_append [OF nocolon]) simp
  have lower: "map to_lower scheme = scheme"
    using low by (intro map_idI) (force simp: to_lower_def)
  have alpha: "\<And>c. c \<in> set scheme \<Longrightarrow> is_alpha c"
    using low by (simp add: is_alpha_def)
  have sch: "is_alpha (hd scheme)" "list_all scheme_char scheme"
    using ne alpha by (simp_all add: list_all_iff scheme_char_def)
  have nodelim: "list_all (\<lambda>c. \<not> is_delim c) host"
    using host host_char_facts(2) by (simp add: list_all_iff)
  have pathdelim: "path = [] \<or> \<not> \<not> is_delim (hd path)"
    using slash by (auto simp: is_delim_def)
  have cuts: "cut CHR ''#'' path = (path, [])" "cut CHR ''?'' path = (path, [])"
    using path path_char_facts by (auto intro!: cut_absent dest: list_all_notin)
  have brackets: "CHR ''['' \<notin> set host" "CHR '']'' \<notin> set host"
    using host host_char_facts(3,4) by (auto dest: list_all_notin)
  have colon: "CHR '':'' \<in> set ?s" by simp
  have rest: "drop (Suc (length scheme)) ?s = CHR ''/'' # CHR ''/'' # host @ path" by simp
  show ?thesis
    unfolding urlsplit_def drop filt Let_def cand
    by (simp only: rest colon ne sch lower simp_thms if_True if_False)
      (simp add: takeWhile_all_append [OF nodelim pathdelim]
        dropWhile_all_append [OF nodelim pathdelim] brackets cuts)
qed

lemma replace_domain_plain:
  assumes "plain_url_parts scheme host path" and "map_of aliases host = Some target"
    and "target \<noteq> []"
  shows "replace_domain (scheme @ ''://'' @ host @ path) aliases = Inr (scheme @ ''://'' @ target @ path)"
proof -
  have path: "CHR '';'' \<notin> set path" "path = [] \<or> hd path = CHR ''/''" and sch: "scheme \<noteq> []"
    using assms(1) path_char_facts(4) by (auto simp: plain_url_parts_def dest: list_all_notin)
  have "urlparse (scheme @ ''://'' @ host @ path) = Inr \<lparr>pr_scheme = scheme, pr_netloc = host,
      pr_path = path, pr_params = [], pr_query = [], pr_fragment = []\<rparr>"
    using path by (simp add: urlparse_def urlsplit_plain [OF assms(1)])
  then show ?thesis
    using path sch assms(2,3) by (auto simp: replace_domain_def urlunparse_def)
qed

end
