(* ===== verification/Client_Models.thy ===== *)
theory Client_Models
  imports Client_Url
begin

text \<open>
  The data model of the client: the raw REST objects of \<open>models/raw\<close>, the definitions of
  \<open>models/definition\<close> with their \<open>from_raw\<close> conversions, the operations of
  \<open>models/operation\<close> and the diffs of \<open>models/diff\<close> with their \<open>empty\<close> tests. A dataclass is a
  record; its generated equality compares the fields, dictionaries with \<^const>\<open>py_eq\<close>.
\<close>

type_synonym REST_URL = string
type_synonym EXTERNAL_ID = string

section \<open>models/raw: what the REST API returns\<close>

record RawConsumer =
  rc_external_id :: string
  rc_target :: REST_URL
  rc_name :: string
  rc_headers :: pydict
  rc_timeout :: pyfloat
  rc_retry_backoff_every :: int
  rc_retry_backoff_delay :: string
  rc_retry_max :: int
  rc_url :: REST_URL
  rc_id :: string
  rc_point_in_time :: string
  rc_last_modified_at :: string
  rc_health :: string
  rc_events :: REST_URL
  rc_mode :: string

record RawGroupPermissionsOnObject =
  rgp_url :: REST_URL
  rgp_name :: string
  rgp_fully_qualified :: string
  rgp_group_permissions :: "string list"

type_synonym RawDataSeriesGroupPermissions = RawGroupPermissionsOnObject
type_synonym RawEngineGroupPermissions = RawGroupPermissionsOnObject
type_synonym RawHttpEndpointGroupPermissions = RawGroupPermissionsOnObject

record RawDataSeries =
  rds_url :: string
  rds_id :: string
  rds_external_id :: string
  rds_point_in_time :: string
  rds_last_modified_at :: string
  rds_name :: string
  rds_locked :: bool
  rds_backend :: string
  rds_allow_extra_fields :: bool
  rds_dimensions :: REST_URL
  rds_float_facts :: REST_URL
  rds_string_facts :: REST_URL
  rds_text_facts :: REST_URL
  rds_timestamp_facts :: REST_URL
  rds_image_facts :: REST_URL
  rds_file_facts :: REST_URL
  rds_json_facts :: REST_URL
  rds_boolean_facts :: REST_URL
  rds_consumers :: REST_URL
  rds_data_points :: REST_URL
  rds_history_data_points :: REST_URL
  rds_data_points_bulk :: REST_URL
  rds_data_point_validate_external_ids :: REST_URL
  rds_cube_sql :: REST_URL
  rds_create_view :: REST_URL
  rds_prune_history :: REST_URL
  rds_truncate :: REST_URL
  rds_permission_user :: REST_URL
  rds_permission_group :: REST_URL
  rds_data_point_structure :: pydict
  rds_prune_meta_model :: "REST_URL option"
  rds_indexes :: "REST_URL option"
  rds_extra_config :: pydict

record RawDataPoint =
  rdp_url :: string
  rdp_history_url :: REST_URL
  rdp_id :: string
  rdp_external_id :: string
  rdp_point_in_time :: string
  rdp_payload :: pydict

record RawDimension =
  rdim_url :: REST_URL
  rdim_id :: string
  rdim_point_in_time :: string
  rdim_last_modified_at :: string
  rdim_name :: string
  rdim_optional :: bool
  rdim_external_id :: string
  rdim_reference :: REST_URL

record RawEngineSecret =
  res_secret :: string

record RawEngine =
  re_url :: REST_URL
  re_id :: string
  re_external_id :: string
  re_upstream :: REST_URL
  re_access :: REST_URL
  re_permission_user :: REST_URL
  re_permission_group :: REST_URL
  re_secret :: REST_URL

record RawFact =
  rf_url :: REST_URL
  rf_id :: string
  rf_point_in_time :: string
  rf_last_modified_at :: string
  rf_name :: string
  rf_optional :: bool
  rf_external_id :: string

record RawGroupPermissions =
  rg_group_permissions :: "string list"

record RawGroup =
  rg_url :: REST_URL
  rg_permissions :: REST_URL
  rg_name :: string
  rg_fully_qualified :: string
  rg_id :: "int option"

record RawHttpEndpoint =
  rhe_url :: REST_URL
  rhe_id :: string
  rhe_engine :: REST_URL
  rhe_external_id :: string
  rhe_path :: string
  rhe_method :: string
  rhe_public :: bool
  rhe_permission_user :: REST_URL
  rhe_permission_group :: REST_URL

record RawIndexTarget =
  rit_target_id :: string
  rit_target_external_id :: string
  rit_target_type :: string

record RawIndex =
  ri_external_id :: string
  ri_name :: string
  ri_url :: REST_URL
  ri_id :: string
  ri_point_in_time :: string
  ri_last_modified_at :: string
  ri_targets :: "RawIndexTarget list"

section \<open>models/definition: what a definition file and a diff speak about\<close>

record Consumer =
  co_external_id :: string
  co_target :: REST_URL
  co_name :: string
  co_headers :: pydict
  co_timeout :: pyfloat
  co_retry_backoff_every :: int
  co_retry_backoff_delay :: string
  co_retry_max :: int
  co_mode :: string

definition Consumer_eq :: "Consumer \<Rightarrow> Consumer \<Rightarrow> bool" where
  "Consumer_eq a b \<longleftrightarrow>
     co_external_id a = co_external_id b \<and> co_target a = co_target b \<and> co_name a = co_name b \<and>
     py_eq (PDict (co_headers a)) (PDict (co_headers b)) \<and>
     pyfloat_eq (co_timeout a) (co_timeout b) \<and>
     co_retry_backoff_every a = co_retry_backoff_every b \<and>
     co_retry_backoff_delay a = co_retry_backoff_delay b \<and>
     co_retry_max a = co_retry_max b \<and> co_mode a = co_mode b"

definition Consumer_from_raw :: "RawConsumer \<Rightarrow> (string \<times> string) list \<Rightarrow> Consumer result" where
  "Consumer_from_raw raw domain_aliases =
     rbind (replace_domain (rc_target raw) domain_aliases) (\<lambda>target.
     Inr \<lparr>co_external_id = rc_external_id raw, co_target = target, co_name = rc_name raw,
          co_headers = rc_headers raw, co_timeout = rc_timeout raw,
          co_retry_backoff_every = rc_retry_backoff_every raw,
          co_retry_backoff_delay = rc_retry_backoff_delay raw,
          co_retry_max = rc_retry_max raw, co_mode = rc_mode raw\<rparr>)"

record DataSeries =
  ds_external_id :: string
  ds_name :: string
  ds_backend :: string
  ds_extra_config :: pydict
  ds_allow_extra_fields :: bool

definition DataSeries_eq :: "DataSeries \<Rightarrow> DataSeries \<Rightarrow> bool" where
  "DataSeries_eq a b \<longleftrightarrow>
     ds_external_id a = ds_external_id b \<and> ds_name a = ds_name b \<and> ds_backend a = ds_backend b \<and>
     py_eq (PDict (ds_extra_config a)) (PDict (ds_extra_config b)) \<and>
     ds_allow_extra_fields a = ds_allow_extra_fields b"

definition DataSeries_from_raw :: "RawDataSeries \<Rightarrow> DataSeries" where
  "DataSeries_from_raw raw =
     \<lparr>ds_external_id = rds_external_id raw, ds_name = rds_name raw, ds_backend = rds_backend raw,
      ds_extra_config = rds_extra_config raw, ds_allow_extra_fields = rds_allow_extra_fields raw\<rparr>"

text \<open>
  The eight fact classes differ only in their class, which their equality compares as well;
  the record keeps it as the field \<open>f_class\<close>.
\<close>

datatype fact_class =
  FloatFact | StringFact | TextFact | TimestampFact | ImageFact | FileFact | JsonFact | BooleanFact

record Fact =
  f_class :: fact_class
  f_external_id :: string
  f_name :: string
  f_optional :: bool

definition FloatFact_from_raw :: "RawFact \<Rightarrow> Fact" where
  "FloatFact_from_raw raw = \<lparr>f_class = FloatFact, f_external_id = rf_external_id raw,
     f_name = rf_name raw, f_optional = rf_optional raw\<rparr>"

definition StringFact_from_raw :: "RawFact \<Rightarrow> Fact" where
  "StringFact_from_raw raw = \<lparr>f_class = StringFact, f_external_id = rf_external_id raw,
     f_name = rf_name raw, f_optional = rf_optional raw\<rparr>"

definition TextFact_from_raw :: "RawFact \<Rightarrow> Fact" where
  "TextFact_from_raw raw = \<lparr>f_class = TextFact, f_external_id = rf_external_id raw,
     f_name = rf_name raw, f_optional = rf_optional raw\<rparr>"

definition TimestampFact_from_raw :: "RawFact \<Rightarrow> Fact" where
  "TimestampFact_from_raw raw = \<lparr>f_class = TimestampFact, f_external_id = rf_external_id raw,
     f_name = rf_name raw, f_optional = rf_optional raw\<rparr>"

definition ImageFact_from_raw :: "RawFact \<Rightarrow> Fact" where
  "ImageFact_from_raw raw = \<lparr>f_class = ImageFact, f_external_id = rf_external_id raw,
     f_name = rf_name raw, f_optional = rf_optional raw\<rparr>"

definition FileFact_from_raw :: "RawFact \<Rightarrow> Fact" where
  "FileFact_from_raw raw = \<lparr>f_class = FileFact, f_external_id = rf_external_id raw,
     f_name = rf_name raw, f_optional = rf_optional raw\<rparr>"

definition JsonFact_from_raw :: "RawFact \<Rightarrow> Fact" where
  "JsonFact_from_raw raw = \<lparr>f_class = JsonFact, f_external_id = rf_external_id raw,
     f_name = rf_name raw, f_optional = rf_optional raw\<rparr>"

definition BooleanFact_from_raw :: "RawFact \<Rightarrow> Fact" where
  "BooleanFact_from_raw raw = \<lparr>f_class = BooleanFact, f_external_id = rf_external_id raw,
     f_name = rf_name raw, f_optional = rf_optional raw\<rparr>"

record Dimension =
  dim_external_id :: string
  dim_name :: string
  dim_optional :: bool
  dim_reference :: EXTERNAL_ID

definition Dimension_from_raw ::
  "RawDimension \<Rightarrow> (REST_URL \<times> EXTERNAL_ID) list \<Rightarrow> Dimension result" where
  "Dimension_from_raw raw ds_lookup =
     rbind (dict_index ds_lookup (rdim_reference raw)) (\<lambda>reference.
     Inr \<lparr>dim_external_id = rdim_external_id raw, dim_name = rdim_name raw,
          dim_optional = rdim_optional raw, dim_reference = reference\<rparr>)"

record IndexTarget =
  it_target_external_id :: string
  it_target_type :: string

record Index =
  ix_external_id :: string
  ix_name :: string
  ix_targets :: "IndexTarget list"

definition Index_from_raw :: "RawIndex \<Rightarrow> Index" where
  "Index_from_raw raw =
     \<lparr>ix_external_id = ri_external_id raw, ix_name = ri_name raw,
      ix_targets = map (\<lambda>raw_target.
        \<lparr>it_target_external_id = rit_target_external_id raw_target,
         it_target_type = rit_target_type raw_target\<rparr>) (ri_targets raw)\<rparr>"

text \<open>The permissions of a group on an object: three classes with the same two fields.\<close>

record GroupPermissionsOnObject =
  gp_name :: string
  gp_group_permissions :: "string list"

type_synonym DataSeriesGroupPermissions = GroupPermissionsOnObject
type_synonym EngineGroupPermissions = GroupPermissionsOnObject
type_synonym HttpEndpointGroupPermissions = GroupPermissionsOnObject

definition DataSeriesGroupPermissions_from_raw ::
  "RawDataSeriesGroupPermissions \<Rightarrow> DataSeriesGroupPermissions" where
  "DataSeriesGroupPermissions_from_raw raw =
     \<lparr>gp_name = rgp_name raw, gp_group_permissions = rgp_group_permissions raw\<rparr>"

definition EngineGroupPermissions_from_raw ::
  "RawEngineGroupPermissions \<Rightarrow> EngineGroupPermissions" where
  "EngineGroupPermissions_from_raw raw =
     \<lparr>gp_name = rgp_name raw, gp_group_permissions = rgp_group_permissions raw\<rparr>"

definition HttpEndpointGroupPermissions_from_raw ::
  "RawHttpEndpointGroupPermissions \<Rightarrow> HttpEndpointGroupPermissions" where
  "HttpEndpointGroupPermissions_from_raw raw =
     \<lparr>gp_name = rgp_name raw, gp_group_permissions = rgp_group_permissions raw\<rparr>"

record DataSeriesStructure =
  st_float_facts :: "Fact list"
  st_string_facts :: "Fact list"
  st_text_facts :: "Fact list"
  st_timestamp_facts :: "Fact list"
  st_image_facts :: "Fact list"
  st_file_facts :: "Fact list"
  st_json_facts :: "Fact list"
  st_boolean_facts :: "Fact list"
  st_dimensions :: "Dimension list"

record DataSeriesDefinition =
  dsd_data_series :: DataSeries
  dsd_structure :: DataSeriesStructure
  dsd_consumers :: "Consumer list"
  dsd_indexes :: "Index list"
  dsd_group_permissions :: "DataSeriesGroupPermissions list"

record Engine =
  en_external_id :: string
  en_upstream :: REST_URL

definition Engine_from_raw :: "RawEngine \<Rightarrow> (string \<times> string) list \<Rightarrow> Engine result" where
  "Engine_from_raw raw domain_aliases =
     rbind (replace_domain (re_upstream raw) domain_aliases) (\<lambda>upstream.
     Inr \<lparr>en_external_id = re_external_id raw, en_upstream = upstream\<rparr>)"

record EngineSecret =
  es_secret :: string

definition EngineSecret_from_raw :: "RawEngineSecret \<Rightarrow> EngineSecret" where
  "EngineSecret_from_raw raw = \<lparr>es_secret = res_secret raw\<rparr>"

record EngineDefinition =
  ed_engine :: Engine
  ed_secret :: EngineSecret
  ed_group_permissions :: "EngineGroupPermissions list"

record HttpEndpoint =
  he_engine :: EXTERNAL_ID
  he_external_id :: string
  he_path :: string
  he_method :: string
  he_public :: bool

definition HttpEndpoint_from_raw ::
  "RawHttpEndpoint \<Rightarrow> (REST_URL \<times> EXTERNAL_ID) list \<Rightarrow> HttpEndpoint result" where
  "HttpEndpoint_from_raw raw engine_lookup =
     rbind (dict_index engine_lookup (rhe_engine raw)) (\<lambda>engine.
     Inr \<lparr>he_engine = engine, he_external_id = rhe_external_id raw, he_path = rhe_path raw,
          he_method = rhe_method raw, he_public = rhe_public raw\<rparr>)"

record HttpEndpointDefinition =
  hd_http_endpoint :: HttpEndpoint
  hd_group_permissions :: "HttpEndpointGroupPermissions list"

record GroupPermissions =
  gps_group_permissions :: "string list"

definition GroupPermissions_from_raw :: "RawGroupPermissions \<Rightarrow> GroupPermissions" where
  "GroupPermissions_from_raw raw = \<lparr>gps_group_permissions = rg_group_permissions raw\<rparr>"

record Group =
  g_name :: string

definition Group_from_raw :: "RawGroup \<Rightarrow> Group" where
  "Group_from_raw raw = \<lparr>g_name = rg_name raw\<rparr>"

record GroupDefinition =
  gd_group :: Group
  gd_group_permissions :: GroupPermissions

record DataPoint =
  dp_external_id :: string
  dp_payload :: pydict
  dp_identify_dimensions_by_external_id :: bool

text \<open>The loop wraps the value of every file or image fact that the payload contains.\<close>

definition wrap_file :: "Fact \<Rightarrow> pydict \<Rightarrow> pydict" where
  "wrap_file file_like_fact payload =
     (case map_of payload (f_external_id file_like_fact) of
        None \<Rightarrow> payload
      | Some v \<Rightarrow> AList.update (f_external_id file_like_fact) (PFileTypeContent v) payload)"

definition DataPoint_from_raw :: "RawDataPoint \<Rightarrow> DataSeriesDefinition \<Rightarrow> DataPoint" where
  "DataPoint_from_raw raw def =
     \<lparr>dp_external_id = rdp_external_id raw,
      dp_payload = fold wrap_file
        (st_file_facts (dsd_structure def) @ st_image_facts (dsd_structure def)) (rdp_payload raw),
      dp_identify_dimensions_by_external_id = True\<rparr>"

definition DataPoint_eq :: "DataPoint \<Rightarrow> DataPoint \<Rightarrow> bool" where
  "DataPoint_eq a b \<longleftrightarrow>
     dp_external_id a = dp_external_id b \<and>
     py_eq (PDict (dp_payload a)) (PDict (dp_payload b)) \<and>
     dp_identify_dimensions_by_external_id a = dp_identify_dimensions_by_external_id b"

section \<open>models/operation and models/diff\<close>

datatype OperationType = CREATE | DELETE | UPDATE

record Operation =
  op_operation_type :: OperationType
  op_payload :: pydict

definition Operation_empty :: "Operation \<Rightarrow> bool" where
  "Operation_empty self = False"

record ExternalIdOperation =
  eio_operation_type :: OperationType
  eio_external_id :: string
  eio_payload :: pydict

definition ExternalIdOperation_empty :: "ExternalIdOperation \<Rightarrow> bool" where
  "ExternalIdOperation_empty self = False"

record NameOperation =
  no_operation_type :: OperationType
  no_name :: string
  no_payload :: pydict

definition NameOperation_empty :: "NameOperation \<Rightarrow> bool" where
  "NameOperation_empty self = False"

record DataPointOperation =
  dpo_operation_type :: OperationType
  dpo_datapoint :: DataPoint

record DataSeriesCreateViewSettings =
  cv_view_name :: string
  cv_overwrite :: bool
  cv_cascade_if_delete :: bool
  cv_identify_dimensions_by_external_id :: bool
  cv_full_history :: bool

record DataSeriesCreateViewOperation =
  cvo_data_series_external_id :: string
  cvo_settings :: DataSeriesCreateViewSettings

definition DataSeriesCreateViewOperation_empty :: "DataSeriesCreateViewOperation \<Rightarrow> bool" where
  "DataSeriesCreateViewOperation_empty self = False"

fun list_empty :: "('a \<Rightarrow> bool) \<Rightarrow> 'a list \<Rightarrow> bool" where
  "list_empty emp [] = True"
| "list_empty emp (elem # x) = (if \<not> emp elem then False else list_empty emp x)"

record DataSeriesStructureDiff =
  sd_float_facts :: "ExternalIdOperation list"
  sd_string_facts :: "ExternalIdOperation list"
  sd_text_facts :: "ExternalIdOperation list"
  sd_timestamp_facts :: "ExternalIdOperation list"
  sd_image_facts :: "ExternalIdOperation list"
  sd_file_facts :: "ExternalIdOperation list"
  sd_json_facts :: "ExternalIdOperation list"
  sd_boolean_facts :: "ExternalIdOperation list"
  sd_dimensions :: "ExternalIdOperation list"

text \<open>\<open>structure_diff.__dict__.items()\<close>, in the order of the fields.\<close>

definition structure_diff_items ::
  "DataSeriesStructureDiff \<Rightarrow> (string \<times> ExternalIdOperation list) list" where
  "structure_diff_items d =
     [(''float_facts'', sd_float_facts d), (''string_facts'', sd_string_facts d),
      (''text_facts'', sd_text_facts d), (''timestamp_facts'', sd_timestamp_facts d),
      (''image_facts'', sd_image_facts d), (''file_facts'', sd_file_facts d),
      (''json_facts'', sd_json_facts d), (''boolean_facts'', sd_boolean_facts d),
      (''dimensions'', sd_dimensions d)]"

definition DataSeriesStructureDiff_empty :: "DataSeriesStructureDiff \<Rightarrow> bool" where
  "DataSeriesStructureDiff_empty self =
     list_all (\<lambda>(key, value). list_empty ExternalIdOperation_empty value) (structure_diff_items self)"

record DataSeriesDefinitionDiff =
  dd_external_id :: string
  dd_data_series :: "ExternalIdOperation option"
  dd_structure :: DataSeriesStructureDiff
  dd_group_permissions :: "NameOperation list"
  dd_consumers :: "ExternalIdOperation list"
  dd_indexes :: "ExternalIdOperation list"

definition optional_empty :: "('a \<Rightarrow> bool) \<Rightarrow> 'a option \<Rightarrow> bool" where
  "optional_empty emp value = (case value of None \<Rightarrow> True | Some v \<Rightarrow> emp v)"

definition DataSeriesDefinitionDiff_empty :: "DataSeriesDefinitionDiff \<Rightarrow> bool" where
  "DataSeriesDefinitionDiff_empty self \<longleftrightarrow>
     optional_empty ExternalIdOperation_empty (dd_data_series self) \<and>
     DataSeriesStructureDiff_empty (dd_structure self) \<and>
     list_empty NameOperation_empty (dd_group_permissions self) \<and>
     list_empty ExternalIdOperation_empty (dd_consumers self) \<and>
     list_empty ExternalIdOperation_empty (dd_indexes self)"

record EngineDefinitionDiff =
  edd_external_id :: string
  edd_engine :: "ExternalIdOperation option"
  edd_secret :: "Operation option"
  edd_group_permissions :: "NameOperation list"

definition EngineDefinitionDiff_empty :: "EngineDefinitionDiff \<Rightarrow> bool" where
  "EngineDefinitionDiff_empty self \<longleftrightarrow>
     optional_empty ExternalIdOperation_empty (edd_engine self) \<and>
     optional_empty Operation_empty (edd_secret self) \<and>
     list_empty NameOperation_empty (edd_group_permissions self)"

record HttpEndpointDefinitionDiff =
  hdd_external_id :: string
  hdd_http_endpoint :: "ExternalIdOperation option"
  hdd_group_permissions :: "NameOperation list"

definition HttpEndpointDefinitionDiff_empty :: "HttpEndpointDefinitionDiff \<Rightarrow> bool" where
  "HttpEndpointDefinitionDiff_empty self \<longleftrightarrow>
     optional_empty ExternalIdOperation_empty (hdd_http_endpoint self) \<and>
     list_empty NameOperation_empty (hdd_group_permissions self)"

record GroupDefinitionDiff =
  gdd_name :: string
  gdd_group :: "NameOperation option"
  gdd_group_permissions :: "Operation option"

definition GroupDefinitionDiff_empty :: "GroupDefinitionDiff \<Rightarrow> bool" where
  "GroupDefinitionDiff_empty self \<longleftrightarrow>
     optional_empty NameOperation_empty (gdd_group self) \<and>
     optional_empty Operation_empty (gdd_group_permissions self)"

section \<open>Lemmas\<close>

named_theorems empty_simps \<open>when a diff is empty\<close>

lemma list_empty_iff [empty_simps]: "list_empty emp xs \<longleftrightarrow> list_all emp xs"
  by (induction xs) auto

lemma list_all_False [empty_simps]: "list_all (\<lambda>x. False) xs \<longleftrightarrow> xs = []"
  by (cases xs) auto

lemma optional_empty_iff [empty_simps]:
  "optional_empty (\<lambda>x. False) v \<longleftrightarrow> v = None"
  by (simp add: optional_empty_def split: option.split)

lemma operation_empty_fun [empty_simps]:
  "ExternalIdOperation_empty = (\<lambda>x. False)" "NameOperation_empty = (\<lambda>x. False)"
  "Operation_empty = (\<lambda>x. False)"
  by (simp_all add: fun_eq_iff ExternalIdOperation_empty_def NameOperation_empty_def
      Operation_empty_def)

lemma structure_diff_empty_iff [empty_simps]:
  "DataSeriesStructureDiff_empty d \<longleftrightarrow> (\<forall>(k, ops) \<in> set (structure_diff_items d). ops = [])"
  by (auto simp: DataSeriesStructureDiff_empty_def list_all_iff empty_simps)

lemma data_series_diff_empty_iff:
  "DataSeriesDefinitionDiff_empty d \<longleftrightarrow>
     dd_data_series d = None \<and> (\<forall>(k, ops) \<in> set (structure_diff_items (dd_structure d)). ops = []) \<and>
     dd_group_permissions d = [] \<and> dd_consumers d = [] \<and> dd_indexes d = []"
  by (simp add: DataSeriesDefinitionDiff_empty_def empty_simps)

lemma wrap_file_keys [simp]: "keys (wrap_file f payload) = keys payload"
  by (auto simp: wrap_file_def AList.update_keys map_of_eq_None_iff
      split: option.split dest: map_of_SomeD)

lemma wrap_file_other:
  "k \<noteq> f_external_id f \<Longrightarrow> map_of (wrap_file f payload) k = map_of payload k"
  by (simp add: wrap_file_def dict_simps split: option.split)

text \<open>Fetching a data point never adds or drops a payload key, and wraps only file-like facts.\<close>

lemma DataPoint_from_raw_keys: "keys (dp_payload (DataPoint_from_raw raw def)) = keys (rdp_payload raw)"
proof -
  have "keys (fold wrap_file fs p) = keys p" for fs p
    by (induction fs arbitrary: p) simp_all
  then show ?thesis by (simp add: DataPoint_from_raw_def)
qed

lemma DataPoint_from_raw_other:
  assumes "k \<notin> f_external_id ` set (st_file_facts (dsd_structure def) @ st_image_facts (dsd_structure def))"
  shows "map_of (dp_payload (DataPoint_from_raw raw def)) k = map_of (rdp_payload raw) k"
proof -
  have other: "k \<notin> f_external_id ` set fs \<Longrightarrow> map_of (fold wrap_file fs p) k = map_of p k" for fs p
    by (induction fs arbitrary: p) (simp_all add: wrap_file_other)
  show ?thesis using other [OF assms] by (simp add: DataPoint_from_raw_def)
qed

end
