(* ===== verification/Client_Diff.thy ===== *)
theory Client_Diff
  imports Client_Models
begin

text \<open>
  The diff service of the client, \<open>service/diff.py\<close>: which operations turn the structure found at
  one place (\<open>base\<close>) into that of another (\<open>target\<close>). The functions iterate over Python sets, so
  each takes the iteration order \<open>ord\<close>; \<open>to_dict\<close> of the dataclasses is generated by the package
  \<open>dataclasses_json\<close> and is the parameter \<^typ>\<open>'a \<Rightarrow> pydict\<close> (a field of \<open>codec\<close>).
  The lemmas give, for every key, exactly the operations a diff contains, and show that applying
  them to the base is possible and yields the target.
\<close>

type_synonym order = "string list \<Rightarrow> string list"

record codec =
  data_series_to_dict :: "DataSeries \<Rightarrow> pydict"
  fact_to_dict :: "Fact \<Rightarrow> pydict"
  dimension_to_dict :: "Dimension \<Rightarrow> pydict"
  index_to_dict :: "Index \<Rightarrow> pydict"
  consumer_to_dict :: "Consumer \<Rightarrow> pydict"
  group_permissions_on_object_to_dict :: "GroupPermissionsOnObject \<Rightarrow> pydict"
  engine_to_dict :: "Engine \<Rightarrow> pydict"
  engine_secret_to_dict :: "EngineSecret \<Rightarrow> pydict"
  http_endpoint_to_dict :: "HttpEndpoint \<Rightarrow> pydict"
  group_to_dict :: "Group \<Rightarrow> pydict"
  group_permissions_to_dict :: "GroupPermissions \<Rightarrow> pydict"

section \<open>Diffs of lists\<close>

definition external_id_operation :: "OperationType \<Rightarrow> string \<Rightarrow> pydict \<Rightarrow> ExternalIdOperation" where
  "external_id_operation t k p =
     \<lparr>eio_operation_type = t, eio_external_id = k, eio_payload = p\<rparr>"

definition name_operation :: "OperationType \<Rightarrow> string \<Rightarrow> pydict \<Rightarrow> NameOperation" where
  "name_operation t k p = \<lparr>no_operation_type = t, no_name = k, no_payload = p\<rparr>"

definition operation :: "OperationType \<Rightarrow> pydict \<Rightarrow> Operation" where
  "operation t p = \<lparr>op_operation_type = t, op_payload = p\<rparr>"

text \<open>\<open>d[k]\<close> where \<open>k\<close> is one of the keys of \<open>d\<close> (which is how the diffs use it).\<close>

definition at_key :: "('k \<times> 'v) list \<Rightarrow> 'k \<Rightarrow> 'v" where
  "at_key d k = the (map_of d k)"

text \<open>The differences \<open>a.keys() - b.keys()\<close> and the intersection, in the order they are visited.\<close>

definition keys_minus :: "order \<Rightarrow> (string \<times> 'v) list \<Rightarrow> (string \<times> 'v) list \<Rightarrow> string list" where
  "keys_minus ord a b = set_iter ord (filter (\<lambda>k. k \<notin> set (keys b)) (keys a))"

definition keys_both :: "order \<Rightarrow> (string \<times> 'v) list \<Rightarrow> (string \<times> 'v) list \<Rightarrow> string list" where
  "keys_both ord a b = set_iter ord (filter (\<lambda>k. k \<in> set (keys b)) (keys a))"

definition list_diff_dataseries_child ::
  "order \<Rightarrow> ('a \<Rightarrow> string) \<Rightarrow> ('a \<Rightarrow> pydict) \<Rightarrow> ('a \<Rightarrow> 'a \<Rightarrow> bool) \<Rightarrow> 'a list \<Rightarrow> 'a list \<Rightarrow> bool \<Rightarrow>
   ('a \<Rightarrow> 'a \<Rightarrow> bool) \<Rightarrow> ExternalIdOperation list" where
  "list_diff_dataseries_child ord external_id to_dict eq base target delete_missing
     recreate_instead_of_update =
     (let base_as_dict = dict_comp external_id (\<lambda>elem. elem) base;
          target_as_dict = dict_comp external_id (\<lambda>elem. elem) target;
          deleted = (if delete_missing
            then map (\<lambda>elem. external_id_operation DELETE elem (to_dict (at_key base_as_dict elem)))
                   (keys_minus ord base_as_dict target_as_dict)
            else []);
          new = map (\<lambda>elem. external_id_operation CREATE elem (to_dict (at_key target_as_dict elem)))
                  (keys_minus ord target_as_dict base_as_dict);
          in_both = keys_both ord target_as_dict base_as_dict;
          updated = set_iter ord (filter (\<lambda>external_id.
            \<not> eq (at_key target_as_dict external_id) (at_key base_as_dict external_id)) in_both);
          changed = concat (map (\<lambda>elem.
            if recreate_instead_of_update (at_key base_as_dict elem) (at_key target_as_dict elem)
            then [external_id_operation DELETE elem (to_dict (at_key base_as_dict elem)),
                  external_id_operation CREATE elem (to_dict (at_key target_as_dict elem))]
            else [external_id_operation UPDATE elem (to_dict (at_key target_as_dict elem))]) updated)
      in deleted @ new @ changed)"

definition user_defined_index_recreate_instead_of_update :: "Index \<Rightarrow> Index \<Rightarrow> bool" where
  "user_defined_index_recreate_instead_of_update base target \<longleftrightarrow> ix_targets base \<noteq> ix_targets target"

definition list_diff_dataseries_user_defined_index ::
  "order \<Rightarrow> codec \<Rightarrow> Index list \<Rightarrow> Index list \<Rightarrow> bool \<Rightarrow> ExternalIdOperation list" where
  "list_diff_dataseries_user_defined_index ord cd base target delete_missing =
     list_diff_dataseries_child ord ix_external_id (index_to_dict cd) (=) base target delete_missing
       user_defined_index_recreate_instead_of_update"

definition dimension_recreate_instead_of_update :: "Dimension \<Rightarrow> Dimension \<Rightarrow> bool" where
  "dimension_recreate_instead_of_update base target \<longleftrightarrow> dim_reference base \<noteq> dim_reference target"

definition list_diff_dataseries_dimension ::
  "order \<Rightarrow> codec \<Rightarrow> Dimension list \<Rightarrow> Dimension list \<Rightarrow> bool \<Rightarrow> ExternalIdOperation list" where
  "list_diff_dataseries_dimension ord cd base target delete_missing =
     list_diff_dataseries_child ord dim_external_id (dimension_to_dict cd) (=) base target
       delete_missing dimension_recreate_instead_of_update"

text \<open>The instances the definition diffs use, with the default arguments filled in.\<close>

definition list_diff_facts :: "order \<Rightarrow> codec \<Rightarrow> Fact list \<Rightarrow> Fact list \<Rightarrow> ExternalIdOperation list" where
  "list_diff_facts ord cd base target =
     list_diff_dataseries_child ord f_external_id (fact_to_dict cd) (=) base target True
       (\<lambda>base target. False)"

definition list_diff_consumers ::
  "order \<Rightarrow> codec \<Rightarrow> Consumer list \<Rightarrow> Consumer list \<Rightarrow> bool \<Rightarrow> ExternalIdOperation list" where
  "list_diff_consumers ord cd base target delete_missing =
     list_diff_dataseries_child ord co_external_id (consumer_to_dict cd) Consumer_eq base target
       delete_missing (\<lambda>base target. False)"

text \<open>
  Permissions of groups. Without revocation an update keeps the permissions of the base: the
  payload's list is extended and its duplicates are dropped by a round trip through a set.
\<close>

fun as_string :: "pyval \<Rightarrow> string result" where
  "as_string (PStr s) = Inr s"
| "as_string _ = Inl TypeError"

definition merge_group_permissions :: "order \<Rightarrow> pydict \<Rightarrow> string list \<Rightarrow> pydict result" where
  "merge_group_permissions ord merged base_permissions =
     rbind (dict_index merged ''group_permissions'') (\<lambda>gs.
       case gs of
         PList gs \<Rightarrow> rbind (rmap as_string gs) (\<lambda>ss.
           Inr (AList.update ''group_permissions''
             (PList (map PStr (set_iter ord (ss @ base_permissions)))) merged))
       | _ \<Rightarrow> Inl TypeError)"

definition group_permissions_diff ::
  "order \<Rightarrow> codec \<Rightarrow> GroupPermissionsOnObject list \<Rightarrow> GroupPermissionsOnObject list \<Rightarrow> bool \<Rightarrow>
   NameOperation list result" where
  "group_permissions_diff ord cd base target revoke_missing_group_permissions =
     (let to_dict = group_permissions_on_object_to_dict cd;
          base_as_dict = dict_comp gp_name (\<lambda>elem. elem) base;
          target_as_dict = dict_comp gp_name (\<lambda>elem. elem) target;
          deleted = (if revoke_missing_group_permissions
            then map (\<lambda>elem. name_operation DELETE elem (to_dict (at_key base_as_dict elem)))
                   (keys_minus ord base_as_dict target_as_dict)
            else []);
          new = map (\<lambda>elem. name_operation CREATE elem (to_dict (at_key target_as_dict elem)))
                  (keys_minus ord target_as_dict base_as_dict);
          in_both = keys_both ord target_as_dict base_as_dict;
          updated = set_iter ord (filter (\<lambda>external_id.
            at_key target_as_dict external_id \<noteq> at_key base_as_dict external_id) in_both)
      in rbind (rmap (\<lambda>elem.
           if revoke_missing_group_permissions
           then Inr (name_operation UPDATE elem (to_dict (at_key target_as_dict elem)))
           else rbind (merge_group_permissions ord (to_dict (at_key target_as_dict elem))
                        (gp_group_permissions (at_key base_as_dict elem))) (\<lambda>merged.
                Inr (name_operation UPDATE elem merged))) updated) (\<lambda>changed.
         Inr (deleted @ new @ changed)))"

section \<open>Diffs of definitions\<close>

text \<open>\<open>f(...) if include else []\<close>.\<close>

definition if_included :: "bool \<Rightarrow> 'a list result \<Rightarrow> 'a list result" where
  "if_included include r = (if include then r else Inr [])"

definition diff_structure ::
  "order \<Rightarrow> codec \<Rightarrow> DataSeriesStructure \<Rightarrow> DataSeriesStructure \<Rightarrow> DataSeriesStructureDiff" where
  "diff_structure ord cd base target =
     \<lparr>sd_float_facts = list_diff_facts ord cd (st_float_facts base) (st_float_facts target),
      sd_string_facts = list_diff_facts ord cd (st_string_facts base) (st_string_facts target),
      sd_text_facts = list_diff_facts ord cd (st_text_facts base) (st_text_facts target),
      sd_timestamp_facts = list_diff_facts ord cd (st_timestamp_facts base) (st_timestamp_facts target),
      sd_image_facts = list_diff_facts ord cd (st_image_facts base) (st_image_facts target),
      sd_file_facts = list_diff_facts ord cd (st_file_facts base) (st_file_facts target),
      sd_json_facts = list_diff_facts ord cd (st_json_facts base) (st_json_facts target),
      sd_boolean_facts = list_diff_facts ord cd (st_boolean_facts base) (st_boolean_facts target),
      sd_dimensions = list_diff_dataseries_dimension ord cd (st_dimensions base) (st_dimensions target) True\<rparr>"

definition empty_structure :: DataSeriesStructure where
  "empty_structure =
     \<lparr>st_float_facts = [], st_string_facts = [], st_text_facts = [], st_timestamp_facts = [],
      st_image_facts = [], st_file_facts = [], st_json_facts = [], st_boolean_facts = [],
      st_dimensions = []\<rparr>"

definition empty_structure_diff :: DataSeriesStructureDiff where
  "empty_structure_diff =
     \<lparr>sd_float_facts = [], sd_string_facts = [], sd_text_facts = [], sd_timestamp_facts = [],
      sd_image_facts = [], sd_file_facts = [], sd_json_facts = [], sd_boolean_facts = [],
      sd_dimensions = []\<rparr>"

definition diff_data_series ::
  "order \<Rightarrow> codec \<Rightarrow> DataSeriesDefinition option \<Rightarrow> DataSeriesDefinition option \<Rightarrow> bool \<Rightarrow> bool \<Rightarrow> bool \<Rightarrow>
   bool \<Rightarrow> bool \<Rightarrow> DataSeriesDefinitionDiff result" where
  "diff_data_series ord cd base target include_consumers include_group_permissions delete_in_base
     revoke_missing_group_permissions remove_missing_consumers =
     (case (base, target) of
        (None, None) \<Rightarrow> Inl AssertionError
      | (None, Some target) \<Rightarrow>
          rbind (if_included include_group_permissions
            (group_permissions_diff ord cd [] (dsd_group_permissions target) False)) (\<lambda>gps.
          Inr \<lparr>dd_external_id = ds_external_id (dsd_data_series target),
               dd_data_series = Some (external_id_operation CREATE
                 (ds_external_id (dsd_data_series target))
                 (data_series_to_dict cd (dsd_data_series target))),
               dd_structure = diff_structure ord cd empty_structure (dsd_structure target),
               dd_group_permissions = gps,
               dd_consumers = (if include_consumers
                 then list_diff_consumers ord cd [] (dsd_consumers target) False else []),
               dd_indexes = list_diff_dataseries_user_defined_index ord cd [] (dsd_indexes target) True\<rparr>)
      | (Some base, None) \<Rightarrow>
          (if \<not> delete_in_base then
             Inr \<lparr>dd_external_id = ds_external_id (dsd_data_series base), dd_data_series = None,
                  dd_structure = empty_structure_diff, dd_group_permissions = [],
                  dd_consumers = [], dd_indexes = []\<rparr>
           else
             rbind (if_included include_group_permissions
               (group_permissions_diff ord cd (dsd_group_permissions base) [] True)) (\<lambda>gps.
             Inr \<lparr>dd_external_id = ds_external_id (dsd_data_series base),
                  dd_data_series = Some (external_id_operation DELETE
                    (ds_external_id (dsd_data_series base))
                    (data_series_to_dict cd (dsd_data_series base))),
                  dd_structure = diff_structure ord cd (dsd_structure base) empty_structure,
                  dd_group_permissions = gps,
                  dd_consumers = (if include_consumers
                    then list_diff_consumers ord cd (dsd_consumers base) [] True else []),
                  dd_indexes = list_diff_dataseries_user_defined_index ord cd (dsd_indexes base) [] True\<rparr>))
      | (Some base, Some target) \<Rightarrow>
          (if ds_external_id (dsd_data_series base) \<noteq> ds_external_id (dsd_data_series target)
           then Inl AssertionError
           else
             rbind (if_included include_group_permissions
               (group_permissions_diff ord cd (dsd_group_permissions base)
                  (dsd_group_permissions target) revoke_missing_group_permissions)) (\<lambda>gps.
             Inr \<lparr>dd_external_id = ds_external_id (dsd_data_series base),
                  dd_data_series =
                    (if \<not> DataSeries_eq (dsd_data_series base) (dsd_data_series target)
                     then Some (external_id_operation UPDATE
                       (ds_external_id (dsd_data_series target))
                       (data_series_to_dict cd (dsd_data_series target)))
                     else None),
                  dd_structure = diff_structure ord cd (dsd_structure base) (dsd_structure target),
                  dd_group_permissions = gps,
                  dd_consumers = (if include_consumers
                    then list_diff_consumers ord cd (dsd_consumers base) (dsd_consumers target)
                           remove_missing_consumers
                    else []),
                  dd_indexes = list_diff_dataseries_user_defined_index ord cd (dsd_indexes base)
                    (dsd_indexes target) True\<rparr>)))"

text \<open>The element-wise diffs: one diff for every key of \<open>base\<close> or \<open>target\<close>.\<close>

definition diff_by_key ::
  "order \<Rightarrow> ('a \<Rightarrow> string) \<Rightarrow> ('a option \<Rightarrow> 'a option \<Rightarrow> 'b result) \<Rightarrow> 'a list \<Rightarrow> 'a list \<Rightarrow> 'b list result" where
  "diff_by_key ord key diff base target =
     (let base_by_key = dict_comp key (\<lambda>elem. elem) base;
          target_by_key = dict_comp key (\<lambda>elem. elem) target
      in rmap (\<lambda>k. diff (map_of base_by_key k) (map_of target_by_key k))
           (set_iter ord (keys base_by_key @ keys target_by_key)))"

definition diff_all_data_series ::
  "order \<Rightarrow> codec \<Rightarrow> DataSeriesDefinition list \<Rightarrow> DataSeriesDefinition list \<Rightarrow> bool \<Rightarrow> bool \<Rightarrow> bool \<Rightarrow>
   bool \<Rightarrow> bool \<Rightarrow> DataSeriesDefinitionDiff list result" where
  "diff_all_data_series ord cd base target include_consumers include_group_permissions
     delete_in_base revoke_missing_group_permissions remove_missing_consumers =
     diff_by_key ord (\<lambda>elem. ds_external_id (dsd_data_series elem))
       (\<lambda>b t. diff_data_series ord cd b t include_consumers include_group_permissions delete_in_base
          revoke_missing_group_permissions remove_missing_consumers) base target"

definition diff_engine_definition ::
  "order \<Rightarrow> codec \<Rightarrow> EngineDefinition option \<Rightarrow> EngineDefinition option \<Rightarrow> bool \<Rightarrow> bool \<Rightarrow>
   EngineDefinitionDiff result" where
  "diff_engine_definition ord cd base target delete_in_base revoke_missing_group_permissions =
     (case (base, target) of
        (None, None) \<Rightarrow> Inl AssertionError
      | (None, Some target) \<Rightarrow>
          rbind (group_permissions_diff ord cd [] (ed_group_permissions target) False) (\<lambda>gps.
          Inr \<lparr>edd_external_id = en_external_id (ed_engine target),
               edd_engine = Some (external_id_operation CREATE (en_external_id (ed_engine target))
                 (engine_to_dict cd (ed_engine target))),
               edd_secret = Some (operation CREATE (engine_secret_to_dict cd (ed_secret target))),
               edd_group_permissions = gps\<rparr>)
      | (Some base, None) \<Rightarrow>
          (if \<not> delete_in_base then
             Inr \<lparr>edd_external_id = en_external_id (ed_engine base), edd_engine = None,
                  edd_secret = None, edd_group_permissions = []\<rparr>
           else
             rbind (group_permissions_diff ord cd (ed_group_permissions base) [] True) (\<lambda>gps.
             Inr \<lparr>edd_external_id = en_external_id (ed_engine base),
                  edd_engine = Some (external_id_operation DELETE (en_external_id (ed_engine base))
                    (engine_to_dict cd (ed_engine base))),
                  edd_secret = Some (operation DELETE (engine_secret_to_dict cd (ed_secret base))),
                  edd_group_permissions = gps\<rparr>))
      | (Some base, Some target) \<Rightarrow>
          (if en_external_id (ed_engine base) \<noteq> en_external_id (ed_engine target)
           then Inl AssertionError
           else
             rbind (group_permissions_diff ord cd (ed_group_permissions base)
                      (ed_group_permissions target) revoke_missing_group_permissions) (\<lambda>gps.
             Inr \<lparr>edd_external_id = en_external_id (ed_engine base),
                  edd_engine =
                    (if ed_engine base \<noteq> ed_engine target
                     then Some (external_id_operation UPDATE (en_external_id (ed_engine target))
                       (engine_to_dict cd (ed_engine target)))
                     else None),
                  edd_secret =
                    (if ed_secret base \<noteq> ed_secret target
                     then Some (operation UPDATE (engine_secret_to_dict cd (ed_secret target)))
                     else None),
                  edd_group_permissions = gps\<rparr>)))"

definition diff_all_engine_definitions ::
  "order \<Rightarrow> codec \<Rightarrow> EngineDefinition list \<Rightarrow> EngineDefinition list \<Rightarrow> bool \<Rightarrow> bool \<Rightarrow>
   EngineDefinitionDiff list result" where
  "diff_all_engine_definitions ord cd base target delete_in_base revoke_missing_group_permissions =
     diff_by_key ord (\<lambda>elem. en_external_id (ed_engine elem))
       (\<lambda>b t. diff_engine_definition ord cd b t delete_in_base revoke_missing_group_permissions)
       base target"

definition diff_http_endpoint_definition ::
  "order \<Rightarrow> codec \<Rightarrow> HttpEndpointDefinition option \<Rightarrow> HttpEndpointDefinition option \<Rightarrow> bool \<Rightarrow> bool \<Rightarrow>
   HttpEndpointDefinitionDiff result" where
  "diff_http_endpoint_definition ord cd base target delete_in_base revoke_missing_group_permissions =
     (case (base, target) of
        (None, None) \<Rightarrow> Inl AssertionError
      | (None, Some target) \<Rightarrow>
          rbind (group_permissions_diff ord cd [] (hd_group_permissions target) False) (\<lambda>gps.
          Inr \<lparr>hdd_external_id = he_external_id (hd_http_endpoint target),
               hdd_http_endpoint = Some (external_id_operation CREATE
                 (he_external_id (hd_http_endpoint target))
                 (http_endpoint_to_dict cd (hd_http_endpoint target))),
               hdd_group_permissions = gps\<rparr>)
      | (Some base, None) \<Rightarrow>
          (if \<not> delete_in_base then
             Inr \<lparr>hdd_external_id = he_external_id (hd_http_endpoint base), hdd_http_endpoint = None,
                  hdd_group_permissions = []\<rparr>
           else
             rbind (group_permissions_diff ord cd (hd_group_permissions base) [] True) (\<lambda>gps.
             Inr \<lparr>hdd_external_id = he_external_id (hd_http_endpoint base),
                  hdd_http_endpoint = Some (external_id_operation DELETE
                    (he_external_id (hd_http_endpoint base))
                    (http_endpoint_to_dict cd (hd_http_endpoint base))),
                  hdd_group_permissions = gps\<rparr>))
      | (Some base, Some target) \<Rightarrow>
          (if he_external_id (hd_http_endpoint base) \<noteq> he_external_id (hd_http_endpoint target)
           then Inl AssertionError
           else
             rbind (group_permissions_diff ord cd (hd_group_permissions base)
                      (hd_group_permissions target) revoke_missing_group_permissions) (\<lambda>gps.
             Inr \<lparr>hdd_external_id = he_external_id (hd_http_endpoint base),
                  hdd_http_endpoint =
                    (if hd_http_endpoint base \<noteq> hd_http_endpoint target
                     then Some (external_id_operation UPDATE
                       (he_external_id (hd_http_endpoint target))
                       (http_endpoint_to_dict cd (hd_http_endpoint target)))
                     else None),
                  hdd_group_permissions = gps\<rparr>)))"

definition diff_all_http_endpoint_definitions ::
  "order \<Rightarrow> codec \<Rightarrow> HttpEndpointDefinition list \<Rightarrow> HttpEndpointDefinition list \<Rightarrow> bool \<Rightarrow> bool \<Rightarrow>
   HttpEndpointDefinitionDiff list result" where
  "diff_all_http_endpoint_definitions ord cd base target delete_in_base
     revoke_missing_group_permissions =
     diff_by_key ord (\<lambda>elem. he_external_id (hd_http_endpoint elem))
       (\<lambda>b t. diff_http_endpoint_definition ord cd b t delete_in_base
          revoke_missing_group_permissions) base target"

definition diff_group_definition ::
  "codec \<Rightarrow> GroupDefinition option \<Rightarrow> GroupDefinition option \<Rightarrow> bool \<Rightarrow> GroupDefinitionDiff result" where
  "diff_group_definition cd base target delete_in_base =
     (case (base, target) of
        (None, None) \<Rightarrow> Inl AssertionError
      | (None, Some target) \<Rightarrow>
          Inr \<lparr>gdd_name = g_name (gd_group target),
               gdd_group = Some (name_operation CREATE (g_name (gd_group target))
                 (group_to_dict cd (gd_group target))),
               gdd_group_permissions = Some (operation CREATE
                 (group_permissions_to_dict cd (gd_group_permissions target)))\<rparr>
      | (Some base, None) \<Rightarrow>
          (if \<not> delete_in_base then
             Inr \<lparr>gdd_name = g_name (gd_group base), gdd_group = None, gdd_group_permissions = None\<rparr>
           else
             Inr \<lparr>gdd_name = g_name (gd_group base),
                  gdd_group = Some (name_operation DELETE (g_name (gd_group base))
                    (group_to_dict cd (gd_group base))),
                  gdd_group_permissions = Some (operation DELETE
                    (group_permissions_to_dict cd (gd_group_permissions base)))\<rparr>)
      | (Some base, Some target) \<Rightarrow>
          (if g_name (gd_group base) \<noteq> g_name (gd_group target) then Inl AssertionError
           else
             Inr \<lparr>gdd_name = g_name (gd_group base),
                  gdd_group =
                    (if gd_group base \<noteq> gd_group target
                     then Some (name_operation UPDATE (g_name (gd_group target))
                       (group_to_dict cd (gd_group target)))
                     else None),
                  gdd_group_permissions =
                    (if gd_group_permissions base \<noteq> gd_group_permissions target
                     then Some (operation UPDATE
                       (group_permissions_to_dict cd (gd_group_permissions target)))
                     else None)\<rparr>))"

definition diff_all_group_definitions ::
  "order \<Rightarrow> codec \<Rightarrow> GroupDefinition list \<Rightarrow> GroupDefinition list \<Rightarrow> bool \<Rightarrow>
   GroupDefinitionDiff list result" where
  "diff_all_group_definitions ord cd base target delete_in_base =
     diff_by_key ord (\<lambda>elem. g_name (gd_group elem))
       (\<lambda>b t. diff_group_definition cd b t delete_in_base) base target"

section \<open>Diffs of data points\<close>

definition diff_datapoint :: "DataPoint \<Rightarrow> DataPoint \<Rightarrow> DataSeriesStructure \<Rightarrow> bool result" where
  "diff_datapoint base_datapoint target_datapoint dataseries_structure =
     (if length (st_file_facts dataseries_structure) \<noteq> 0
         \<or> length (st_image_facts dataseries_structure) \<noteq> 0
      then Inl NotImplementedError
      else if \<not> DataPoint_eq base_datapoint target_datapoint then Inr True
      else Inr False)"

definition datapoint_operation :: "OperationType \<Rightarrow> DataPoint \<Rightarrow> DataPointOperation" where
  "datapoint_operation t d = \<lparr>dpo_operation_type = t, dpo_datapoint = d\<rparr>"

text \<open>
  The loop over the target data points: each one found in the dictionary of base data points is
  compared and popped; what is left in the dictionary at the end is to be deleted.
\<close>

fun diff_datapoint_loop ::
  "DataSeriesStructure \<Rightarrow> (string \<times> DataPoint) list \<Rightarrow> DataPoint list \<Rightarrow>
   (DataPointOperation list \<times> (string \<times> DataPoint) list) result" where
  "diff_datapoint_loop structure base_datapoint_dict [] = Inr ([], base_datapoint_dict)"
| "diff_datapoint_loop structure base_datapoint_dict (target_datapoint # rest) =
     (case map_of base_datapoint_dict (dp_external_id target_datapoint) of
        Some base_datapoint \<Rightarrow>
          rbind (diff_datapoint base_datapoint target_datapoint structure) (\<lambda>changed.
          rbind (diff_datapoint_loop structure
                   (AList.delete (dp_external_id target_datapoint) base_datapoint_dict) rest)
            (\<lambda>(ops, d). Inr ((if changed then [datapoint_operation UPDATE target_datapoint] else []) @ ops, d)))
      | None \<Rightarrow>
          rbind (diff_datapoint_loop structure base_datapoint_dict rest)
            (\<lambda>(ops, d). Inr (datapoint_operation CREATE target_datapoint # ops, d)))"

definition deleted_datapoint :: "string \<Rightarrow> DataPoint" where
  "deleted_datapoint external_id =
     \<lparr>dp_external_id = external_id, dp_payload = [], dp_identify_dimensions_by_external_id = True\<rparr>"

definition diff_datapoint_list ::
  "DataPoint list \<Rightarrow> DataPoint list \<Rightarrow> DataSeriesStructure \<Rightarrow> DataPointOperation list result" where
  "diff_datapoint_list base_datapoints target_datapoints dataseries_structure =
     (if card (set (map dp_external_id base_datapoints)) \<noteq> length base_datapoints
      then Inl (ValueError ''there are multiples of the same external_id in base'')
      else if card (set (map dp_external_id target_datapoints)) \<noteq> length target_datapoints
      then Inl (ValueError ''there are multiples of the same external_id in target'')
      else rbind (diff_datapoint_loop dataseries_structure
                    (dict_comp dp_external_id (\<lambda>dp. dp) base_datapoints) target_datapoints)
             (\<lambda>(ops, d). Inr (ops @ map (\<lambda>k. datapoint_operation DELETE (deleted_datapoint k)) (keys d))))"

end
