(* ===== verification/Client_Diff_Correct.thy ===== *)
theory Client_Diff_Correct
  imports Client_Diff
begin

text \<open>
  What the diffs of \<open>Client_Diff\<close> promise. The specification side is a collection of REST
  resources, a map from external ids to payloads, on which an operation can be illegal (creating
  what exists, changing or deleting what does not): a diff must be applicable to its base and
  must yield its target.
\<close>

section \<open>Specification: applying operations to a collection\<close>

type_synonym collection = "string \<Rightarrow> pydict option"

fun apply_typed :: "OperationType \<Rightarrow> pydict \<Rightarrow> pydict option \<Rightarrow> pydict option option" where
  "apply_typed CREATE p None = Some (Some p)"
| "apply_typed DELETE p (Some old) = Some None"
| "apply_typed UPDATE p (Some old) = Some (Some p)"
| "apply_typed _ _ _ = None"

definition apply_operation :: "ExternalIdOperation \<Rightarrow> collection \<Rightarrow> collection option" where
  "apply_operation op m =
     map_option (\<lambda>v. m(eio_external_id op := v))
       (apply_typed (eio_operation_type op) (eio_payload op) (m (eio_external_id op)))"

fun apply_operations :: "ExternalIdOperation list \<Rightarrow> collection \<Rightarrow> collection option" where
  "apply_operations [] m = Some m"
| "apply_operations (op # ops) m =
     (case apply_operation op m of None \<Rightarrow> None | Some m' \<Rightarrow> apply_operations ops m')"

text \<open>The order in which the pusher sends the operations: deletions, creations, updates.\<close>

definition of_type :: "OperationType \<Rightarrow> ExternalIdOperation list \<Rightarrow> ExternalIdOperation list" where
  "of_type t ops = filter (\<lambda>op. eio_operation_type op = t) ops"

definition push_order :: "ExternalIdOperation list \<Rightarrow> ExternalIdOperation list" where
  "push_order ops = of_type DELETE ops @ of_type CREATE ops @ of_type UPDATE ops"

definition ops_at :: "string \<Rightarrow> ExternalIdOperation list \<Rightarrow> ExternalIdOperation list" where
  "ops_at k ops = filter (\<lambda>op. eio_external_id op = k) ops"

fun apply_at :: "ExternalIdOperation list \<Rightarrow> pydict option \<Rightarrow> pydict option option" where
  "apply_at [] v = Some v"
| "apply_at (op # ops) v =
     (case apply_typed (eio_operation_type op) (eio_payload op) v of
        None \<Rightarrow> None | Some v' \<Rightarrow> apply_at ops v')"

text \<open>Operations on different keys do not interfere, so a collection can be followed key by key.\<close>

lemma apply_operations_pointwise:
  "apply_operations ops m = Some m' \<longleftrightarrow> (\<forall>k. apply_at (ops_at k ops) (m k) = Some (m' k))"
proof (induction ops arbitrary: m)
  case Nil
  then show ?case by (auto simp: ops_at_def fun_eq_iff)
next
  case (Cons op ops)
  let ?k = "eio_external_id op"
  have other: "ops_at k (op # ops) = ops_at k ops" if "k \<noteq> ?k" for k
    using that by (simp add: ops_at_def)
  have same: "ops_at ?k (op # ops) = op # ops_at ?k ops"
    by (simp add: ops_at_def)
  show ?case
  proof (cases "apply_typed (eio_operation_type op) (eio_payload op) (m ?k)")
    case None
    then have "apply_at (ops_at ?k (op # ops)) (m ?k) = None" by (simp add: same)
    with None show ?thesis
      by (auto simp: apply_operation_def intro!: exI [of _ ?k])
  next
    case (Some v)
    have "(\<forall>k. apply_at (ops_at k (op # ops)) (m k) = Some (m' k)) \<longleftrightarrow>
        (\<forall>k. apply_at (ops_at k ops) ((m(?k := v)) k) = Some (m' k))"
      using other same Some by (metis (no_types, lifting) apply_at.simps(2) fun_upd_apply option.simps(5))
    with Some Cons.IH show ?thesis by (simp add: apply_operation_def)
  qed
qed

lemma ops_at_push_order: "ops_at k (push_order ops) = push_order (ops_at k ops)"
  by (simp add: ops_at_def push_order_def of_type_def) (simp add: conj_commute)

section \<open>The operations of a diff, key by key\<close>

lemma keys_minus_set: "set (keys_minus ord a b) = fst ` set a - fst ` set b"
  by (auto simp: keys_minus_def set_iter_facts)

lemma keys_minus_distinct [simp]: "distinct (keys_minus ord a b)"
  by (simp add: keys_minus_def set_iter_facts)

lemma keys_both_set: "set (keys_both ord a b) = fst ` set a \<inter> fst ` set b"
  by (auto simp: keys_both_def set_iter_facts)

lemma filter_key_map:
  assumes "distinct xs" and "\<And>x. key (g x) = x"
  shows "filter (\<lambda>op. key op = k) (map g xs) = (if k \<in> set xs then [g k] else [])"
  using assms by (induction xs) auto

lemma filter_key_concat:
  assumes "distinct xs" and "\<And>x op. op \<in> set (g x) \<Longrightarrow> key op = x"
  shows "filter (\<lambda>op. key op = k) (concat (map g xs)) = (if k \<in> set xs then g k else [])"
  using assms(1)
proof (induction xs)
  case Nil
  then show ?case by simp
next
  case (Cons x xs)
  have "filter (\<lambda>op. key op = k) (g x) = (if k = x then g x else [])"
    using assms(2) by (auto simp: filter_id_conv filter_empty_conv)
  with Cons show ?case by auto
qed

text \<open>The element a list of resources holds under a key: the last one wins, as in the dictionary.\<close>

definition held :: "('a \<Rightarrow> string) \<Rightarrow> 'a list \<Rightarrow> string \<Rightarrow> 'a option" where
  "held key xs k = map_of (dict_comp key (\<lambda>x. x) xs) k"

definition child_ops ::
  "('a \<Rightarrow> pydict) \<Rightarrow> ('a \<Rightarrow> 'a \<Rightarrow> bool) \<Rightarrow> bool \<Rightarrow> ('a \<Rightarrow> 'a \<Rightarrow> bool) \<Rightarrow> string \<Rightarrow> 'a option \<Rightarrow> 'a option \<Rightarrow>
   ExternalIdOperation list" where
  "child_ops to_dict eq delete_missing recreate k b t =
     (case (b, t) of
        (None, None) \<Rightarrow> []
      | (Some b, None) \<Rightarrow> (if delete_missing then [external_id_operation DELETE k (to_dict b)] else [])
      | (None, Some t) \<Rightarrow> [external_id_operation CREATE k (to_dict t)]
      | (Some b, Some t) \<Rightarrow>
          (if eq t b then []
           else if recreate b t
           then [external_id_operation DELETE k (to_dict b), external_id_operation CREATE k (to_dict t)]
           else [external_id_operation UPDATE k (to_dict t)]))"

lemma eio_operation [simp]:
  "eio_external_id (external_id_operation t k p) = k"
  "eio_operation_type (external_id_operation t k p) = t"
  "eio_payload (external_id_operation t k p) = p"
  by (simp_all add: external_id_operation_def)

lemma held_None_iff: "held key xs k = None \<longleftrightarrow> k \<notin> fst ` set (dict_comp key (\<lambda>x. x) xs)"
  by (simp add: held_def map_of_eq_None_iff)

lemma held_at_key: "held key xs k = Some x \<Longrightarrow> at_key (dict_comp key (\<lambda>x. x) xs) k = x"
  by (simp add: held_def at_key_def)

lemma ops_at_append: "ops_at k (xs @ ys) = ops_at k xs @ ops_at k ys"
  by (simp add: ops_at_def)

lemma child_diff_ops_at:
  "ops_at k (list_diff_dataseries_child ord key to_dict eq base target delete_missing recreate) =
     child_ops to_dict eq delete_missing recreate k (held key base k) (held key target k)"
proof -
  let ?b = "dict_comp key (\<lambda>x. x) base" and ?t = "dict_comp key (\<lambda>x. x) target"
  let ?changed = "\<lambda>e. if recreate (at_key ?b e) (at_key ?t e)
       then [external_id_operation DELETE e (to_dict (at_key ?b e)),
             external_id_operation CREATE e (to_dict (at_key ?t e))]
       else [external_id_operation UPDATE e (to_dict (at_key ?t e))]"
  let ?updated = "set_iter ord (filter (\<lambda>e. \<not> eq (at_key ?t e) (at_key ?b e)) (keys_both ord ?t ?b))"
  have changed: "ops_at k (concat (map ?changed ?updated)) = (if k \<in> set ?updated then ?changed k else [])"
    unfolding ops_at_def
    by (rule filter_key_concat) (auto simp: set_iter_facts split: if_splits)
  have deleted: "ops_at k (map (\<lambda>e. external_id_operation DELETE e (to_dict (at_key ?b e))) (keys_minus ord ?b ?t))
      = (if k \<in> set (keys_minus ord ?b ?t) then [external_id_operation DELETE k (to_dict (at_key ?b k))] else [])"
    unfolding ops_at_def by (rule filter_key_map) simp_all
  have new: "ops_at k (map (\<lambda>e. external_id_operation CREATE e (to_dict (at_key ?t e))) (keys_minus ord ?t ?b))
      = (if k \<in> set (keys_minus ord ?t ?b) then [external_id_operation CREATE k (to_dict (at_key ?t k))] else [])"
    unfolding ops_at_def by (rule filter_key_map) simp_all
  have ops: "ops_at k (list_diff_dataseries_child ord key to_dict eq base target delete_missing recreate) =
      (if delete_missing \<and> k \<in> set (keys_minus ord ?b ?t)
       then [external_id_operation DELETE k (to_dict (at_key ?b k))] else []) @
      (if k \<in> set (keys_minus ord ?t ?b)
       then [external_id_operation CREATE k (to_dict (at_key ?t k))] else []) @
      (if k \<in> set ?updated then ?changed k else [])"
    by (simp add: list_diff_dataseries_child_def Let_def ops_at_append changed deleted new)
      (simp add: ops_at_def)
  have inb: "held key base k = None \<longleftrightarrow> k \<notin> fst ` set ?b"
    and intt: "held key target k = None \<longleftrightarrow> k \<notin> fst ` set ?t"
    by (rule held_None_iff)+
  show ?thesis
    unfolding ops child_ops_def
    using inb intt held_at_key [of key base k] held_at_key [of key target k]
    by (cases "held key base k"; cases "held key target k";
        simp add: keys_minus_set keys_both_set set_iter_facts)
qed

text \<open>
  Applying the diff of two lists to the base is possible, in the order it was generated and in
  the order of the pusher, and the collection that results is written out in
  \<open>wanted_payload\<close>: under the key of an element of the target its payload, or the
  base's payload where the comparison finds the two equal and nothing is sent; under a key that only
  the base has the base's payload, or nothing if missing elements are to be deleted.
\<close>

definition payloads :: "('a \<Rightarrow> string) \<Rightarrow> ('a \<Rightarrow> pydict) \<Rightarrow> 'a list \<Rightarrow> collection" where
  "payloads key to_dict xs k = map_option to_dict (held key xs k)"

definition wanted_payload ::
  "('a \<Rightarrow> pydict) \<Rightarrow> ('a \<Rightarrow> 'a \<Rightarrow> bool) \<Rightarrow> bool \<Rightarrow> 'a option \<Rightarrow> 'a option \<Rightarrow> pydict option"
where
  "wanted_payload to_dict eq delete_missing base target =
     (case (base, target) of
        (None, None) \<Rightarrow> None
      | (None, Some t) \<Rightarrow> Some (to_dict t)
      | (Some b, None) \<Rightarrow> if delete_missing then None else Some (to_dict b)
      | (Some b, Some t) \<Rightarrow> Some (to_dict (if eq t b then b else t)))"

lemma apply_child_ops:
  "apply_at (child_ops to_dict eq delete_missing recreate k b t) (map_option to_dict b) =
     Some (wanted_payload to_dict eq delete_missing b t)"
  "apply_at (push_order (child_ops to_dict eq delete_missing recreate k b t)) (map_option to_dict b) =
     Some (wanted_payload to_dict eq delete_missing b t)"
  by (cases b; cases t; simp add: child_ops_def push_order_def of_type_def wanted_payload_def)+

lemma child_diff_applies:
  assumes ops_def: "ops = list_diff_dataseries_child ord key to_dict eq base target delete_missing recreate"
  shows "apply_operations ops (payloads key to_dict base) =
           Some (\<lambda>k. wanted_payload to_dict eq delete_missing (held key base k) (held key target k))"
    and "apply_operations (push_order ops) (payloads key to_dict base) =
           Some (\<lambda>k. wanted_payload to_dict eq delete_missing (held key base k) (held key target k))"
  unfolding apply_operations_pointwise ops_at_push_order
  by (simp_all add: ops_def child_diff_ops_at payloads_def apply_child_ops)

lemma child_diff_keeps_missing:
  assumes "held key target k = None"
  shows "ops_at k (list_diff_dataseries_child ord key to_dict eq base target False recreate) = []"
  using assms by (simp add: child_diff_ops_at child_ops_def split: option.split)

lemma ops_Nil_iff: "ops = [] \<longleftrightarrow> (\<forall>k. ops_at k ops = [])"
  by (cases ops) (auto simp: ops_at_def)

lemma child_diff_self:
  assumes "\<And>x. x \<in> set xs \<Longrightarrow> eq x x"
  shows "list_diff_dataseries_child ord key to_dict eq xs xs dm recreate = []"
proof -
  have "held key xs k = Some x \<Longrightarrow> x \<in> set xs" for k x
    by (auto simp: held_def dict_simps dest!: find_SomeD)
  with assms show ?thesis
    by (subst ops_Nil_iff) (auto simp: child_diff_ops_at child_ops_def split: option.split)
qed

lemma child_diff_Nil_iff:
  "list_diff_dataseries_child ord key to_dict eq base target True recreate = [] \<longleftrightarrow>
     (\<forall>k. rel_option (\<lambda>b t. eq t b) (held key base k) (held key target k))"
proof -
  have "ops_at k (list_diff_dataseries_child ord key to_dict eq base target True recreate) = [] \<longleftrightarrow>
      rel_option (\<lambda>b t. eq t b) (held key base k) (held key target k)" for k
    by (cases "held key base k"; cases "held key target k")
      (simp_all add: child_diff_ops_at child_ops_def)
  then show ?thesis by (subst ops_Nil_iff) simp
qed


section \<open>Group permissions\<close>

text \<open>
  \<open>dataclasses_json\<close> documents that \<open>to_dict\<close> returns the fields of a dataclass under their
  names; the merge of permissions relies on it for the field \<open>group_permissions\<close>.
\<close>

definition codec_ok :: "codec \<Rightarrow> bool" where
  "codec_ok cd \<longleftrightarrow> (\<forall>g. map_of (group_permissions_on_object_to_dict cd g) ''group_permissions''
     = Some (PList (map PStr (gp_group_permissions g))))"

definition grants :: "pydict \<Rightarrow> string set \<Rightarrow> bool" where
  "grants p perms \<longleftrightarrow>
     (\<exists>ps. map_of p ''group_permissions'' = Some (PList (map PStr ps)) \<and> set ps = perms)"

lemma rmap_as_string [simp]: "rmap as_string (map PStr ss) = Inr ss"
  by (induction ss) auto

lemma codec_ok_grants:
  "codec_ok cd \<Longrightarrow> grants (group_permissions_on_object_to_dict cd g) (set (gp_group_permissions g))"
  by (auto simp: codec_ok_def grants_def)

lemma merge_group_permissions_ok:
  assumes "codec_ok cd"
  shows "\<exists>m. merge_group_permissions ord (group_permissions_on_object_to_dict cd t) ps = Inr m \<and>
    grants m (set (gp_group_permissions t) \<union> set ps)"
proof -
  let ?ps = "set_iter ord (gp_group_permissions t @ ps)"
  let ?m = "AList.update ''group_permissions'' (PList (map PStr ?ps)) (group_permissions_on_object_to_dict cd t)"
  have "merge_group_permissions ord (group_permissions_on_object_to_dict cd t) ps = Inr ?m"
    using assms by (simp add: merge_group_permissions_def dict_index_def codec_ok_def)
  moreover have "grants ?m (set (gp_group_permissions t) \<union> set ps)"
    unfolding grants_def by (intro exI [of _ ?ps]) (simp add: dict_simps set_iter_facts)
  ultimately show ?thesis by blast
qed

lemma no_operation [simp]:
  "no_name (name_operation t k p) = k" "no_operation_type (name_operation t k p) = t"
  "no_payload (name_operation t k p) = p"
  by (simp_all add: name_operation_def)

lemma rmap_all_Inr:
  assumes "\<And>x. x \<in> set xs \<Longrightarrow> \<exists>y. f x = Inr y \<and> P x y"
  shows "\<exists>ys. rmap f xs = Inr ys \<and> list_all2 P xs ys"
  using assms
proof (induction xs)
  case Nil
  then show ?case by simp
next
  case (Cons x xs)
  from Cons.prems obtain y where "f x = Inr y" "P x y" by force
  moreover from Cons obtain ys where "rmap f xs = Inr ys" "list_all2 P xs ys" by force
  ultimately show ?case by simp
qed

text \<open>
  Every operation of the diff, read off the two lists of group permissions: a deletion only with
  revocation and only of what the target lacks; a creation or update grants the target's
  permissions, and without revocation an update grants those of the base as well.
\<close>

definition permission_op_ok ::
  "bool \<Rightarrow> GroupPermissionsOnObject list \<Rightarrow> GroupPermissionsOnObject list \<Rightarrow> NameOperation \<Rightarrow> bool" where
  "permission_op_ok revoke base target op =
     (case (held gp_name base (no_name op), held gp_name target (no_name op)) of
        (Some b, None) \<Rightarrow> revoke \<and> no_operation_type op = DELETE
      | (None, Some t) \<Rightarrow>
          no_operation_type op = CREATE \<and> grants (no_payload op) (set (gp_group_permissions t))
      | (Some b, Some t) \<Rightarrow>
          t \<noteq> b \<and> no_operation_type op = UPDATE \<and>
          grants (no_payload op) (set (gp_group_permissions t) \<union>
            (if revoke then {} else set (gp_group_permissions b)))
      | (None, None) \<Rightarrow> False)"

lemma in_keys_held:
  "k \<in> fst ` set (dict_comp key (\<lambda>x. x) xs) \<longleftrightarrow>
     (\<exists>x. held key xs k = Some x \<and> at_key (dict_comp key (\<lambda>x. x) xs) k = x)"
  using held_None_iff [of key xs k] held_at_key [of key xs k]
  by (cases "held key xs k") auto

lemma group_permissions_diff_ok:
  assumes "codec_ok cd"
  shows "\<exists>ops. group_permissions_diff ord cd base target revoke = Inr ops \<and>
    list_all (permission_op_ok revoke base target) ops"
proof -
  let ?d = "group_permissions_on_object_to_dict cd"
  let ?b = "dict_comp gp_name (\<lambda>x. x) base" and ?t = "dict_comp gp_name (\<lambda>x. x) target"
  let ?updated = "set_iter ord (filter (\<lambda>e. at_key ?t e \<noteq> at_key ?b e) (keys_both ord ?t ?b))"
  let ?upd = "\<lambda>e. if revoke then Inr (name_operation UPDATE e (?d (at_key ?t e)))
      else rbind (merge_group_permissions ord (?d (at_key ?t e)) (gp_group_permissions (at_key ?b e)))
        (\<lambda>m. Inr (name_operation UPDATE e m))"
  have upd: "\<exists>op. ?upd e = Inr op \<and> permission_op_ok revoke base target op"
    if "e \<in> set ?updated" for e
  proof -
    from that obtain b t where "held gp_name base e = Some b" "at_key ?b e = b"
        "held gp_name target e = Some t" "at_key ?t e = t" "t \<noteq> b"
      by (auto simp: set_iter_facts keys_both_set in_keys_held)
    moreover obtain m where "merge_group_permissions ord (?d t) (gp_group_permissions b) = Inr m"
        "grants m (set (gp_group_permissions t) \<union> set (gp_group_permissions b))"
      using merge_group_permissions_ok [OF assms] by blast
    ultimately show ?thesis
      using codec_ok_grants [OF assms] by (simp add: permission_op_ok_def)
  qed
  have "\<exists>ops. rmap ?upd ?updated = Inr ops \<and>
      list_all2 (\<lambda>e. permission_op_ok revoke base target) ?updated ops"
    by (rule rmap_all_Inr) (rule upd)
  then obtain changed where changed: "rmap ?upd ?updated = Inr changed"
      "list_all2 (\<lambda>e. permission_op_ok revoke base target) ?updated changed"
    by blast
  have "list_all (permission_op_ok revoke base target) changed"
    using changed(2) by (induction rule: list_all2_induct) simp_all
  moreover have "permission_op_ok revoke base target (name_operation CREATE k (?d (at_key ?t k)))"
    if "k \<in> set (keys_minus ord ?t ?b)" for k
  proof -
    from that have "k \<in> fst ` set ?t" and "held gp_name base k = None"
      by (simp_all add: keys_minus_set held_None_iff)
    then show ?thesis
      using codec_ok_grants [OF assms] unfolding in_keys_held by (auto simp: permission_op_ok_def)
  qed
  moreover have "permission_op_ok revoke base target (name_operation DELETE k (?d (at_key ?b k)))"
    if "revoke" and "k \<in> set (keys_minus ord ?b ?t)" for k
  proof -
    from that have "k \<in> fst ` set ?b" and "held gp_name target k = None"
      by (simp_all add: keys_minus_set held_None_iff)
    then show ?thesis using that(1) unfolding in_keys_held by (auto simp: permission_op_ok_def)
  qed
  ultimately show ?thesis
    unfolding group_permissions_diff_def Let_def changed(1) rbind.simps by (auto simp: list_all_iff)
qed

section \<open>Element-wise diffs\<close>

lemma diff_by_key_total:
  assumes "\<And>k b t. b \<noteq> None \<or> t \<noteq> None \<Longrightarrow> (\<forall>x. b = Some x \<longrightarrow> key x = k) \<Longrightarrow>
      (\<forall>x. t = Some x \<longrightarrow> key x = k) \<Longrightarrow> \<exists>d. diff b t = Inr d \<and> name d = k \<and> P k b t d"
  shows "\<exists>ds. diff_by_key ord key diff base target = Inr ds \<and> distinct (map name ds) \<and>
    set (map name ds) = key ` set base \<union> key ` set target \<and>
    (\<forall>d \<in> set ds. P (name d) (held key base (name d)) (held key target (name d)) d)"
proof -
  let ?b = "dict_comp key (\<lambda>x. x) base" and ?t = "dict_comp key (\<lambda>x. x) target"
  let ?ks = "set_iter ord (keys ?b @ keys ?t)"
  have held_key: "held key xs k = Some x \<Longrightarrow> key x = k" for xs k x
    by (auto simp: held_def dict_simps dest!: find_SomeD)
  have ks: "set ?ks = key ` set base \<union> key ` set target" "distinct ?ks"
    by (simp_all add: set_iter_facts dict_simps)
  have each: "\<exists>d. diff (map_of ?b k) (map_of ?t k) = Inr d \<and> name d = k \<and>
      P k (held key base k) (held key target k) d"
    if "k \<in> set ?ks" for k
  proof -
    have "held key base k \<noteq> None \<or> held key target k \<noteq> None"
      using that by (auto simp: set_iter_facts held_None_iff)
    from assms [OF this] show ?thesis
      using held_key by (simp add: held_def)
  qed
  have "\<exists>ds. rmap (\<lambda>k. diff (map_of ?b k) (map_of ?t k)) ?ks = Inr ds \<and>
      list_all2 (\<lambda>k d. name d = k \<and> P k (held key base k) (held key target k) d) ?ks ds"
    by (rule rmap_all_Inr) (rule each)
  then obtain ds where
    ds: "rmap (\<lambda>k. diff (map_of ?b k) (map_of ?t k)) ?ks = Inr ds"
      "list_all2 (\<lambda>k d. name d = k \<and> P k (held key base k) (held key target k) d) ?ks ds"
    by blast
  from ds(2) have names: "map name ds = ?ks"
    by (induction rule: list_all2_induct) simp_all
  from ds(2) have "\<forall>d \<in> set ds. P (name d) (held key base (name d)) (held key target (name d)) d"
    by (induction rule: list_all2_induct) simp_all
  with ds(1) names ks show ?thesis
    by (auto simp: diff_by_key_def Let_def simp del: set_map)
qed


text \<open>What the diff of one data series says, from the two definitions it compares.\<close>

definition series_operation ::
  "codec \<Rightarrow> bool \<Rightarrow> string \<Rightarrow> DataSeriesDefinition option \<Rightarrow> DataSeriesDefinition option \<Rightarrow>
   ExternalIdOperation option" where
  "series_operation cd delete_in_base k b t =
     (case (map_option dsd_data_series b, map_option dsd_data_series t) of
        (None, Some t) \<Rightarrow> Some (external_id_operation CREATE k (data_series_to_dict cd t))
      | (Some b, None) \<Rightarrow>
          (if delete_in_base then Some (external_id_operation DELETE k (data_series_to_dict cd b)) else None)
      | (Some b, Some t) \<Rightarrow>
          (if DataSeries_eq b t then None
           else Some (external_id_operation UPDATE k (data_series_to_dict cd t)))
      | (None, None) \<Rightarrow> None)"

definition structure_of :: "DataSeriesDefinition option \<Rightarrow> DataSeriesStructure" where
  "structure_of d = (case d of None \<Rightarrow> empty_structure | Some d \<Rightarrow> dsd_structure d)"

definition permissions_of :: "DataSeriesDefinition option \<Rightarrow> GroupPermissionsOnObject list" where
  "permissions_of d = (case d of None \<Rightarrow> [] | Some d \<Rightarrow> dsd_group_permissions d)"

definition series_diff_ok ::
  "order \<Rightarrow> codec \<Rightarrow> bool \<Rightarrow> bool \<Rightarrow> string \<Rightarrow> DataSeriesDefinition option \<Rightarrow>
   DataSeriesDefinition option \<Rightarrow> DataSeriesDefinitionDiff \<Rightarrow> bool" where
  "series_diff_ok ord cd delete_in_base revoke k b t d \<longleftrightarrow>
     dd_data_series d = series_operation cd delete_in_base k b t \<and>
     (if t = None \<and> \<not> delete_in_base then DataSeriesDefinitionDiff_empty d
      else dd_structure d = diff_structure ord cd (structure_of b) (structure_of t) \<and>
        list_all (permission_op_ok (if t = None then True else revoke) (permissions_of b)
          (permissions_of t)) (dd_group_permissions d))"

lemma structure_diff_of_empty: "structure_diff_items empty_structure_diff =
   map (\<lambda>k. (k, [])) [''float_facts'', ''string_facts'', ''text_facts'', ''timestamp_facts'',
     ''image_facts'', ''file_facts'', ''json_facts'', ''boolean_facts'', ''dimensions'']"
  by (simp add: structure_diff_items_def empty_structure_diff_def)

lemma permission_op_ok_Nil: "permission_op_ok False [] t = permission_op_ok r [] t"
  by (auto simp: fun_eq_iff permission_op_ok_def held_def split: option.split)

lemma diff_data_series_ok:
  assumes "codec_ok cd" and "b \<noteq> None \<or> t \<noteq> None"
    and bk: "\<forall>x. b = Some x \<longrightarrow> ds_external_id (dsd_data_series x) = k"
    and tk: "\<forall>x. t = Some x \<longrightarrow> ds_external_id (dsd_data_series x) = k"
  shows "\<exists>d. diff_data_series ord cd b t ic ig delete_in_base revoke rm = Inr d \<and>
    dd_external_id d = k \<and> series_diff_ok ord cd delete_in_base revoke k b t d"
proof -
  have gps: "\<exists>ops. if_included ig (group_permissions_diff ord cd xs ys r) = Inr ops \<and>
      list_all (permission_op_ok r xs ys) ops" for xs ys r
    using group_permissions_diff_ok [OF assms(1)] by (simp add: if_included_def)
  note defs = diff_data_series_def series_diff_ok_def series_operation_def structure_of_def
    permissions_of_def
  consider (create) t' where "b = None" "t = Some t'" | (delete) b' where "b = Some b'" "t = None"
    | (change) b' t' where "b = Some b'" "t = Some t'"
    using assms(2) by (cases b; cases t) auto
  then show ?thesis
  proof cases
    case create
    obtain ops where "if_included ig (group_permissions_diff ord cd [] (dsd_group_permissions t') False) = Inr ops"
        "list_all (permission_op_ok False [] (dsd_group_permissions t')) ops"
      using gps by blast
    with create tk show ?thesis by (simp add: defs permission_op_ok_Nil [of _ revoke])
  next
    case delete
    obtain ops where "if_included ig (group_permissions_diff ord cd (dsd_group_permissions b') [] True) = Inr ops"
        "list_all (permission_op_ok True (dsd_group_permissions b') []) ops"
      using gps by blast
    with delete bk show ?thesis
      by (simp add: defs data_series_diff_empty_iff structure_diff_of_empty)
  next
    case change
    obtain ops where "if_included ig (group_permissions_diff ord cd (dsd_group_permissions b')
          (dsd_group_permissions t') revoke) = Inr ops"
        "list_all (permission_op_ok revoke (dsd_group_permissions b') (dsd_group_permissions t')) ops"
      using gps by blast
    with change bk tk show ?thesis by (simp add: defs)
  qed
qed

lemma diff_engine_ok:
  assumes "codec_ok cd" and "b \<noteq> None \<or> t \<noteq> None"
    and "\<forall>x. b = Some x \<longrightarrow> en_external_id (ed_engine x) = k"
    and "\<forall>x. t = Some x \<longrightarrow> en_external_id (ed_engine x) = k"
  shows "\<exists>d. diff_engine_definition ord cd b t delete_in_base revoke = Inr d \<and>
    edd_external_id d = k \<and> (t = None \<and> \<not> delete_in_base \<longrightarrow> EngineDefinitionDiff_empty d)"
proof -
  have "\<exists>ops. group_permissions_diff ord cd xs ys r = Inr ops" for xs ys r
    using group_permissions_diff_ok [OF assms(1)] by blast
  then obtain ops where ops: "\<And>xs ys r. group_permissions_diff ord cd xs ys r = Inr (ops xs ys r)"
    by metis
  consider (create) t' where "b = None" "t = Some t'" | (delete) b' where "b = Some b'" "t = None"
    | (change) b' t' where "b = Some b'" "t = Some t'"
    using assms(2) by (cases b; cases t) auto
  then show ?thesis
    by cases (use assms(3,4) in \<open>simp_all add: diff_engine_definition_def ops EngineDefinitionDiff_empty_def empty_simps\<close>)
qed

lemma diff_http_endpoint_ok:
  assumes "codec_ok cd" and "b \<noteq> None \<or> t \<noteq> None"
    and "\<forall>x. b = Some x \<longrightarrow> he_external_id (hd_http_endpoint x) = k"
    and "\<forall>x. t = Some x \<longrightarrow> he_external_id (hd_http_endpoint x) = k"
  shows "\<exists>d. diff_http_endpoint_definition ord cd b t delete_in_base revoke = Inr d \<and>
    hdd_external_id d = k \<and> (t = None \<and> \<not> delete_in_base \<longrightarrow> HttpEndpointDefinitionDiff_empty d)"
proof -
  have "\<exists>ops. group_permissions_diff ord cd xs ys r = Inr ops" for xs ys r
    using group_permissions_diff_ok [OF assms(1)] by blast
  then obtain ops where ops: "\<And>xs ys r. group_permissions_diff ord cd xs ys r = Inr (ops xs ys r)"
    by metis
  consider (create) t' where "b = None" "t = Some t'" | (delete) b' where "b = Some b'" "t = None"
    | (change) b' t' where "b = Some b'" "t = Some t'"
    using assms(2) by (cases b; cases t) auto
  then show ?thesis
    by cases (use assms(3,4) in \<open>simp_all add: diff_http_endpoint_definition_def ops HttpEndpointDefinitionDiff_empty_def empty_simps\<close>)
qed

lemma diff_group_ok:
  assumes "b \<noteq> None \<or> t \<noteq> None"
    and "\<forall>x. b = Some x \<longrightarrow> g_name (gd_group x) = k"
    and "\<forall>x. t = Some x \<longrightarrow> g_name (gd_group x) = k"
  shows "\<exists>d. diff_group_definition cd b t delete_in_base = Inr d \<and>
    gdd_name d = k \<and> (t = None \<and> \<not> delete_in_base \<longrightarrow> GroupDefinitionDiff_empty d)"
proof -
  consider (create) t' where "b = None" "t = Some t'" | (delete) b' where "b = Some b'" "t = None"
    | (change) b' t' where "b = Some b'" "t = Some t'"
    using assms(1) by (cases b; cases t) auto
  then show ?thesis
    by cases (use assms(2,3) in \<open>simp_all add: diff_group_definition_def GroupDefinitionDiff_empty_def empty_simps\<close>)
qed

section \<open>Data points\<close>

lemma card_key_iff: "card (key ` set xs) = length xs \<longleftrightarrow> distinct (map key xs)"
  by (metis card_distinct distinct_card length_map list.set_map)

definition reference_datapoint_ops :: "DataPoint list \<Rightarrow> DataPoint list \<Rightarrow> DataPointOperation list" where
  "reference_datapoint_ops base target =
     concat (map (\<lambda>t. case find (\<lambda>b. dp_external_id b = dp_external_id t) base of
         None \<Rightarrow> [datapoint_operation CREATE t]
       | Some b \<Rightarrow> (if DataPoint_eq b t then [] else [datapoint_operation UPDATE t])) target) @
     map (\<lambda>b. datapoint_operation DELETE (deleted_datapoint (dp_external_id b)))
       (filter (\<lambda>b. dp_external_id b \<notin> dp_external_id ` set target) base)"

lemma delete_foldr:
  "AList.delete k (filter (\<lambda>(k', _). k' \<notin> S) d) = filter (\<lambda>(k', _). k' \<notin> insert k S) d"
  by (induction d) (auto simp: AList.delete_eq)

lemma map_of_filter_key: "map_of (filter (\<lambda>(k', _). k' \<notin> S) d) k = (if k \<in> S then None else map_of d k)"
  by (induction d) auto

lemma diff_datapoint_loop_eq:
  assumes "st_file_facts str = []" and "st_image_facts str = []"
    and "distinct (map dp_external_id target)"
    and "S \<inter> dp_external_id ` set target = {}"
  shows "diff_datapoint_loop str (filter (\<lambda>(k, _). k \<notin> S) d) target =
     Inr (concat (map (\<lambda>t. case map_of d (dp_external_id t) of
         None \<Rightarrow> [datapoint_operation CREATE t]
       | Some b \<Rightarrow> (if DataPoint_eq b t then [] else [datapoint_operation UPDATE t])) target),
       filter (\<lambda>(k, _). k \<notin> S \<union> dp_external_id ` set target) d)"
  using assms(3,4)
proof (induction target arbitrary: S)
  case Nil
  then show ?case by simp
next
  case (Cons t target)
  let ?k = "dp_external_id t"
  have k: "?k \<notin> S" and IH: "diff_datapoint_loop str (filter (\<lambda>(k, _). k \<notin> insert ?k S) d) target =
     Inr (concat (map (\<lambda>t. case map_of d (dp_external_id t) of
         None \<Rightarrow> [datapoint_operation CREATE t]
       | Some b \<Rightarrow> (if DataPoint_eq b t then [] else [datapoint_operation UPDATE t])) target),
       filter (\<lambda>(k, _). k \<notin> insert ?k S \<union> dp_external_id ` set target) d)"
    using Cons.prems Cons.IH [of "insert ?k S"] by auto
  show ?case
  proof (cases "map_of d ?k")
    case None
    then have "filter (\<lambda>(k, _). k \<notin> insert ?k S) d = filter (\<lambda>(k, _). k \<notin> S) d"
      by (intro filter_cong) (auto simp: map_of_eq_None_iff image_iff)
    with None IH k show ?thesis by (simp add: map_of_filter_key)
  next
    case (Some b)
    with IH k assms(1,2) show ?thesis
      by (simp add: map_of_filter_key delete_foldr diff_datapoint_def)
  qed
qed

lemma map_of_key: "map_of (map (\<lambda>x. (key x, x)) xs) k = find (\<lambda>x. key x = k) xs"
  by (induction xs) auto

lemma diff_datapoint_list_eq:
  assumes "st_file_facts str = []" and "st_image_facts str = []"
    and "distinct (map dp_external_id base)" and "distinct (map dp_external_id target)"
  shows "diff_datapoint_list base target str = Inr (reference_datapoint_ops base target)"
proof -
  have "diff_datapoint_loop str (dict_comp dp_external_id (\<lambda>dp. dp) base) target =
     Inr (concat (map (\<lambda>t. case find (\<lambda>b. dp_external_id b = dp_external_id t) base of
         None \<Rightarrow> [datapoint_operation CREATE t]
       | Some b \<Rightarrow> (if DataPoint_eq b t then [] else [datapoint_operation UPDATE t])) target),
       filter (\<lambda>(k, _). k \<notin> dp_external_id ` set target) (map (\<lambda>b. (dp_external_id b, b)) base))"
    using diff_datapoint_loop_eq [OF assms(1,2,4), of "{}" "map (\<lambda>b. (dp_external_id b, b)) base"]
    by (simp add: dict_comp_distinct_eq [OF assms(3)] map_of_key)
  then show ?thesis
    using assms(3,4)
    by (simp add: diff_datapoint_list_def card_key_iff reference_datapoint_ops_def
        filter_map o_def)
qed

lemma diff_datapoint_loop_files:
  assumes "\<not> (st_file_facts str = [] \<and> st_image_facts str = [])"
  shows "diff_datapoint_loop str d ts =
    (if dom (map_of d) \<inter> dp_external_id ` set ts \<noteq> {} then Inl NotImplementedError
     else Inr (map (datapoint_operation CREATE) ts, d))"
  using assms by (induction ts) (auto simp: diff_datapoint_def split: option.splits)

lemma diff_datapoint_list_files:
  assumes "\<not> (st_file_facts str = [] \<and> st_image_facts str = [])"
    and "distinct (map dp_external_id base)" and "distinct (map dp_external_id target)"
  shows "diff_datapoint_list base target str =
    (if dp_external_id ` set base \<inter> dp_external_id ` set target \<noteq> {} then Inl NotImplementedError
     else Inr (reference_datapoint_ops base target))"
proof -
  let ?d = "map (\<lambda>b. (dp_external_id b, b)) base"
  have dom: "dom (map_of ?d) = dp_external_id ` set base" by (simp add: dom_map_of_conv_image_fst image_image)
  have list: "diff_datapoint_list base target str =
      (if dp_external_id ` set base \<inter> dp_external_id ` set target \<noteq> {} then Inl NotImplementedError
       else Inr (map (datapoint_operation CREATE) target @
         map (\<lambda>b. datapoint_operation DELETE (deleted_datapoint (dp_external_id b))) base))"
    using assms(2,3)
    by (simp add: diff_datapoint_list_def card_key_iff dict_comp_distinct_eq diff_datapoint_loop_files [OF assms(1)]
        dom o_def)
  show ?thesis
  proof (cases "dp_external_id ` set base \<inter> dp_external_id ` set target = {}")
    case True
    then have "find (\<lambda>b. dp_external_id b = dp_external_id t) base = None" if "t \<in> set target" for t
      using that by (auto simp: find_None_iff)
    then have creates: "map (\<lambda>t. case find (\<lambda>b. dp_external_id b = dp_external_id t) base of
         None \<Rightarrow> [datapoint_operation CREATE t]
       | Some b \<Rightarrow> (if DataPoint_eq b t then [] else [datapoint_operation UPDATE t])) target =
       map (\<lambda>t. [datapoint_operation CREATE t]) target" by simp
    have deletes: "filter (\<lambda>b. dp_external_id b \<notin> dp_external_id ` set target) base = base"
      using True by (auto simp: filter_id_conv)
    have singles: "concat (map (\<lambda>t. [datapoint_operation CREATE t]) ts) = map (datapoint_operation CREATE) ts" for ts
      by (induction ts) simp_all
    show ?thesis unfolding list reference_datapoint_ops_def creates singles deletes using True by simp
  qed (simp add: list)
qed

section \<open>Properties\<close>

text \<open>C2: Whatever order the sets are iterated in, the operations that the diff of two lists of
  children generates can be applied one after the other to the base (no creation of what exists,
  no update or deletion of what does not), both as generated and in the order in which the pusher
  sends them (deletions, creations, updates), and both lead to the same collection: under the key
  of an element of the target lies its payload (the base's payload, where the comparison does not
  distinguish the two and nothing is sent); under a key that only the base has, the base's payload
  stays, unless missing elements are to be deleted, when the key is gone; nothing lies under any
  other key.\<close>

theorem child_diff_refines:
  "apply_operations (list_diff_dataseries_child ord key to_dict eq base target delete_missing recreate)
     (payloads key to_dict base) =
   Some (\<lambda>k. case held key target k of
       None \<Rightarrow> (if delete_missing then None else payloads key to_dict base k)
     | Some t \<Rightarrow> (case held key base k of
           None \<Rightarrow> Some (to_dict t)
         | Some b \<Rightarrow> Some (to_dict (if eq t b then b else t)))) \<and>
   apply_operations (push_order (list_diff_dataseries_child ord key to_dict eq base target delete_missing recreate))
     (payloads key to_dict base) =
   apply_operations (list_diff_dataseries_child ord key to_dict eq base target delete_missing recreate)
     (payloads key to_dict base)"
proof -
  have "(\<lambda>k. wanted_payload to_dict eq delete_missing (held key base k) (held key target k)) =
      (\<lambda>k. case held key target k of
         None \<Rightarrow> (if delete_missing then None else payloads key to_dict base k)
       | Some t \<Rightarrow> (case held key base k of
             None \<Rightarrow> Some (to_dict t)
           | Some b \<Rightarrow> Some (to_dict (if eq t b then b else t))))"
    by (rule ext) (simp add: wanted_payload_def payloads_def split: option.split)
  then show ?thesis
    by (simp only: child_diff_applies [OF refl])
qed

text \<open>The diff of two lists of children is empty exactly when both hold the same keys with
  elements that compare equal: an empty plan means there is nothing to do, and the other way round.\<close>

theorem child_diff_empty_iff_equal:
  "list_diff_dataseries_child ord key to_dict eq base target True recreate = [] \<longleftrightarrow>
     (\<forall>k. rel_option (\<lambda>b t. eq t b) (held key base k) (held key target k))"
  by (rule child_diff_Nil_iff)

text \<open>The diff of the permissions of groups on an object never raises, and each of its
  operations is right: a deletion only with revocation and only for a group the target does not
  name, a creation with the target's permissions, an update with the target's permissions, which
  without revocation keeps every permission the base grants.\<close>

theorem group_permissions_diff_correct:
  assumes "codec_ok cd"
  shows "\<exists>ops. group_permissions_diff ord cd base target revoke = Inr ops \<and>
    list_all (permission_op_ok revoke base target) ops"
  by (rule group_permissions_diff_ok [OF assms])

definition sample_codec :: codec where
  "sample_codec =
     \<lparr>data_series_to_dict = (\<lambda>d. [(''external_id'', PStr (ds_external_id d))]),
      fact_to_dict = (\<lambda>f. [(''external_id'', PStr (f_external_id f))]),
      dimension_to_dict = (\<lambda>d. [(''external_id'', PStr (dim_external_id d)), (''reference'', PStr (dim_reference d))]),
      index_to_dict = (\<lambda>i. [(''external_id'', PStr (ix_external_id i))]),
      consumer_to_dict = (\<lambda>c. [(''external_id'', PStr (co_external_id c))]),
      group_permissions_on_object_to_dict = (\<lambda>g. [(''name'', PStr (gp_name g)),
        (''group_permissions'', PList (map PStr (gp_group_permissions g)))]),
      engine_to_dict = (\<lambda>e. [(''external_id'', PStr (en_external_id e))]),
      engine_secret_to_dict = (\<lambda>s. [(''secret'', PStr (es_secret s))]),
      http_endpoint_to_dict = (\<lambda>h. [(''external_id'', PStr (he_external_id h))]),
      group_to_dict = (\<lambda>g. [(''name'', PStr (g_name g))]),
      group_permissions_to_dict = (\<lambda>g. [(''group_permissions'', PList (map PStr (gps_group_permissions g)))])\<rparr>"

lemma sample_codec_ok: "codec_ok sample_codec"
  by (simp add: codec_ok_def sample_codec_def)

theorem group_permissions_diff_correct_witness:
  "\<exists>ops. group_permissions_diff rev sample_codec
       [\<lparr>gp_name = ''ops'', gp_group_permissions = [''read'', ''write'']\<rparr>]
       [\<lparr>gp_name = ''ops'', gp_group_permissions = [''read'']\<rparr>] False = Inr ops \<and>
     list_all (permission_op_ok False
       [\<lparr>gp_name = ''ops'', gp_group_permissions = [''read'', ''write'']\<rparr>]
       [\<lparr>gp_name = ''ops'', gp_group_permissions = [''read'']\<rparr>]) ops"
  by (rule group_permissions_diff_correct [OF sample_codec_ok])

text \<open>C1: The diff of all data series never raises and has one entry for each external id of base
  or target; each entry creates, updates, deletes or leaves its data series as the two definitions
  ask, leaves a data series that only the base has entirely alone unless deletion was asked for,
  and holds the diff of the structures and only right permission changes.\<close>

theorem diff_all_data_series_correct:
  assumes "codec_ok cd"
  shows "\<exists>ds. diff_all_data_series ord cd base target ic ig delete_in_base revoke rm = Inr ds \<and>
    distinct (map dd_external_id ds) \<and>
    set (map dd_external_id ds) = (\<lambda>d. ds_external_id (dsd_data_series d)) ` (set base \<union> set target) \<and>
    list_all (\<lambda>d. series_diff_ok ord cd delete_in_base revoke (dd_external_id d)
      (held (\<lambda>d. ds_external_id (dsd_data_series d)) base (dd_external_id d))
      (held (\<lambda>d. ds_external_id (dsd_data_series d)) target (dd_external_id d)) d) ds"
proof -
  let ?key = "\<lambda>d. ds_external_id (dsd_data_series d)"
  from diff_by_key_total [where P = "series_diff_ok ord cd delete_in_base revoke" and name = dd_external_id
      and key = ?key and ord = ord and base = base and target = target
      and diff = "\<lambda>b t. diff_data_series ord cd b t ic ig delete_in_base revoke rm",
      OF diff_data_series_ok [OF assms]]
  obtain ds where "diff_all_data_series ord cd base target ic ig delete_in_base revoke rm = Inr ds"
    and "distinct (map dd_external_id ds)"
    and "set (map dd_external_id ds) = ?key ` set base \<union> ?key ` set target"
    and "\<forall>d \<in> set ds. series_diff_ok ord cd delete_in_base revoke (dd_external_id d)
      (held ?key base (dd_external_id d)) (held ?key target (dd_external_id d)) d"
    unfolding diff_all_data_series_def by blast
  then show ?thesis unfolding image_Un list_all_iff by blast
qed

definition sample_definition :: "string \<Rightarrow> string \<Rightarrow> DataSeriesDefinition" where
  "sample_definition external_id name =
     \<lparr>dsd_data_series = \<lparr>ds_external_id = external_id, ds_name = name, ds_backend = ''DYNAMIC_SQL'',
        ds_extra_config = [], ds_allow_extra_fields = False\<rparr>,
      dsd_structure = empty_structure, dsd_consumers = [], dsd_indexes = [], dsd_group_permissions = []\<rparr>"

theorem diff_all_data_series_correct_witness:
  "\<exists>ds. diff_all_data_series rev sample_codec [sample_definition ''a'' ''old'', sample_definition ''b'' ''b'']
       [sample_definition ''a'' ''new'', sample_definition ''c'' ''c''] True True False False False = Inr ds \<and>
     distinct (map dd_external_id ds) \<and> set (map dd_external_id ds) = {''a'', ''b'', ''c''}"
proof -
  have "(\<lambda>d. ds_external_id (dsd_data_series d)) `
      (set [sample_definition ''a'' ''old'', sample_definition ''b'' ''b''] \<union>
       set [sample_definition ''a'' ''new'', sample_definition ''c'' ''c'']) = {''a'', ''b'', ''c''}"
    by (simp add: sample_definition_def insert_commute)
  with diff_all_data_series_correct [OF sample_codec_ok, of rev
      "[sample_definition ''a'' ''old'', sample_definition ''b'' ''b'']"
      "[sample_definition ''a'' ''new'', sample_definition ''c'' ''c'']" True True False False False]
  show ?thesis by metis
qed



end
