(* ===== verification/Client_Api.thy ===== *)
theory Client_Api
  imports Client_Models "HOL-Library.Sublist"
begin

text \<open>
  The connection layer of the client: \<open>connection/client.py\<close> (the abstract \<open>APIClient\<close>, its
  implementation over \<open>requests\<close> with a cached token, the logging, feature hiding and mock
  clients) and \<open>connection/read.py\<close> (pagination). The network and the server behind it are a
  parameter, a function from a network state and a request to a response; what the clients keep
  and what goes over the wire is the state of a state and error monad.
\<close>

section \<open>connection/client.py\<close>

datatype http_method = GET | POST | PUT | PATCH | HTTP_DELETE

datatype body = NoBody | Json pyval | Files pydict

text \<open>A header is an f-string: the list of the values it formats.\<close>

type_synonym headers = "(string \<times> pyval list) list"

record HttpRequest =
  rq_method :: http_method
  rq_url :: string
  rq_headers :: headers
  rq_body :: body
  rq_verify :: bool

text \<open>The body of a response is what \<open>.json()\<close> makes of it, which may be an error.\<close>

record HttpResponse =
  rs_status :: nat
  rs_json :: "pyval result"

text \<open>
  A network answers a request (or the transport raises an exception), changes its state and takes
  its time (in seconds).
\<close>

type_synonym 's network = "'s \<Rightarrow> HttpRequest \<Rightarrow> HttpResponse result \<times> nat \<times> 's"

record RequestLog =
  log_get_requests :: "string list"
  log_delete_requests :: "string list"
  log_post_requests :: "(string \<times> pyval) list"
  log_post_multipart_requests :: "(string \<times> pydict) list"
  log_put_requests :: "(string \<times> pyval) list"
  log_patch_requests :: "(string \<times> pyval) list"
  log_patch_multipart_requests :: "(string \<times> pydict) list"

text \<open>
  \<open>cs_wire\<close> holds every request sent, with a mark on those that fetch a token; \<open>cs_now\<close> is what
  \<open>datetime.now()\<close> reads. The two attributes \<open>_headers_cache\<close> and \<open>_headers_cache_timestamp\<close> are
  written together.
\<close>

record 's client_state =
  cs_net :: 's
  cs_wire :: "(bool \<times> HttpRequest) list"
  cs_now :: int
  cs_headers_cache :: "(int \<times> headers) option"
  cs_log :: RequestLog

definition clear_log :: "('s client_state, unit) api" where
  "clear_log w = (Inr (), w\<lparr>cs_log :=
     \<lparr>log_get_requests = [], log_delete_requests = [], log_post_requests = [],
      log_post_multipart_requests = [], log_put_requests = [], log_patch_requests = [],
      log_patch_multipart_requests = []\<rparr>\<rparr>)"

record Credentials =
  base_url :: string
  user :: string
  password :: string

record 'w APIClient =
  client_url :: "string \<Rightarrow> string"
  client_get :: "string \<Rightarrow> ('w, pyval) api"
  client_post :: "string \<Rightarrow> pyval \<Rightarrow> ('w, pyval) api"
  client_post_multipart :: "string \<Rightarrow> pydict \<Rightarrow> ('w, pyval) api"
  client_put :: "string \<Rightarrow> pyval \<Rightarrow> ('w, pyval) api"
  client_patch :: "string \<Rightarrow> pyval \<Rightarrow> ('w, pyval) api"
  client_patch_multipart :: "string \<Rightarrow> pydict \<Rightarrow> ('w, pyval) api"
  client_delete :: "string \<Rightarrow> ('w, unit) api"

definition USER_AGENT :: string where
  "USER_AGENT = ''compose_cli 2.3.4''"

definition send ::
  "'s network \<Rightarrow> bool \<Rightarrow> HttpRequest \<Rightarrow> ('s client_state, HttpResponse) api" where
  "send net auth rq w =
     (case net (cs_net w) rq of (rs, elapsed, s') \<Rightarrow>
       (rs, w\<lparr>cs_net := s', cs_wire := cs_wire w @ [(auth, rq)], cs_now := cs_now w + int elapsed\<rparr>))"

definition raise_for_status :: "HttpResponse \<Rightarrow> unit result" where
  "raise_for_status rs =
     (if 400 \<le> rs_status rs \<and> rs_status rs < 600 then Inl (HTTPError (rs_status rs)) else Inr ())"

text \<open>\<open>v[k]\<close>, \<open>k in v\<close> and \<open>iter(v)\<close> for a string \<open>k\<close> and a value \<open>v\<close> read from JSON.\<close>

definition py_index :: "pyval \<Rightarrow> string \<Rightarrow> pyval result" where
  "py_index v k = (case v of PDict d \<Rightarrow> dict_index d k | _ \<Rightarrow> Inl TypeError)"

definition py_in :: "string \<Rightarrow> pyval \<Rightarrow> bool result" where
  "py_in k v =
     (case v of
        PDict d \<Rightarrow> Inr (k \<in> set (keys d))
      | PList xs \<Rightarrow> Inr (list_ex (py_eq (PStr k)) xs)
      | PStr s \<Rightarrow> Inr (list_ex (prefix k) (suffixes s))
      | _ \<Rightarrow> Inl TypeError)"

definition py_iter :: "pyval \<Rightarrow> pyval list result" where
  "py_iter v =
     (case v of
        PDict d \<Rightarrow> Inr (map PStr (keys d))
      | PList xs \<Rightarrow> Inr xs
      | PStr s \<Rightarrow> Inr (map (\<lambda>c. PStr [c]) s)
      | _ \<Rightarrow> Inl TypeError)"

definition as_str :: "pyval \<Rightarrow> string result" where
  "as_str v = (case v of PStr s \<Rightarrow> Inr s | _ \<Rightarrow> Inl TypeError)"

text \<open>The token is fetched anew when the cached headers are 120 seconds old.\<close>

definition refresh_headers :: "'s network \<Rightarrow> bool \<Rightarrow> Credentials \<Rightarrow> ('s client_state, headers) api" where
  "refresh_headers net testing cred =
     api_bind (send net True
       \<lparr>rq_method = POST, rq_url = base_url cred @ ''/api/common/auth/authtoken/'',
        rq_headers = [(''User-Agent'', [PStr USER_AGENT])],
        rq_body = Json (PDict [(''username'', PStr (user cred)), (''password'', PStr (password cred))]),
        rq_verify = \<not> testing\<rparr>) (\<lambda>resp.
     api_bind (api_lift (raise_for_status resp)) (\<lambda>_.
     api_bind (api_lift (rbind (rs_json resp) (\<lambda>json. py_index json ''token''))) (\<lambda>token w.
       let hs = [(''Authorization'', [PStr ''Token '', token]), (''User-Agent'', [PStr USER_AGENT])]
       in (Inr hs, w\<lparr>cs_headers_cache := Some (cs_now w, hs)\<rparr>))))"

definition headers_accessor :: "'s network \<Rightarrow> bool \<Rightarrow> Credentials \<Rightarrow> ('s client_state, headers) api" where
  "headers_accessor net testing cred w =
     (case cs_headers_cache w of
        Some (timestamp, cache) \<Rightarrow>
          if cs_now w - timestamp < 120 then (Inr cache, w) else refresh_headers net testing cred w
      | None \<Rightarrow> refresh_headers net testing cred w)"

text \<open>What the seven methods of a client over \<open>requests\<close> have in common.\<close>

definition rest_call ::
  "'s network \<Rightarrow> bool \<Rightarrow> Credentials \<Rightarrow> http_method \<Rightarrow> string \<Rightarrow> body \<Rightarrow> ('s client_state, HttpResponse) api"
where
  "rest_call net testing cred method url body =
     api_bind (headers_accessor net testing cred) (\<lambda>hs.
     api_bind (send net False \<lparr>rq_method = method, rq_url = url, rq_headers = hs, rq_body = body,
                               rq_verify = \<not> testing\<rparr>) (\<lambda>resp.
     api_bind (api_lift (raise_for_status resp)) (\<lambda>_.
     api_return resp)))"

definition rest_json ::
  "'s network \<Rightarrow> bool \<Rightarrow> Credentials \<Rightarrow> http_method \<Rightarrow> string \<Rightarrow> body \<Rightarrow> ('s client_state, pyval) api"
where
  "rest_json net testing cred method url body =
     api_bind (rest_call net testing cred method url body) (\<lambda>resp. api_lift (rs_json resp))"

definition RequestsRestClient :: "'s network \<Rightarrow> bool \<Rightarrow> Credentials \<Rightarrow> 's client_state APIClient" where
  "RequestsRestClient net testing cred =
     \<lparr>client_url = (\<lambda>path. base_url cred @ path),
      client_get = (\<lambda>url. rest_json net testing cred GET url NoBody),
      client_post = (\<lambda>url data. rest_json net testing cred POST url (Json data)),
      client_post_multipart = (\<lambda>url data. rest_json net testing cred POST url (Files data)),
      client_put = (\<lambda>url data. rest_json net testing cred PUT url (Json data)),
      client_patch = (\<lambda>url data. rest_json net testing cred PATCH url (Json data)),
      client_patch_multipart = (\<lambda>url data. rest_json net testing cred PATCH url (Files data)),
      client_delete = (\<lambda>url. api_ignore (rest_call net testing cred HTTP_DELETE url NoBody))\<rparr>"

definition append_log :: "(RequestLog \<Rightarrow> RequestLog) \<Rightarrow> ('s client_state, unit) api" where
  "append_log f w = (Inr (), w\<lparr>cs_log := f (cs_log w)\<rparr>)"

definition RequestsRestLoggingClient ::
  "'s network \<Rightarrow> bool \<Rightarrow> Credentials \<Rightarrow> 's client_state APIClient" where
  "RequestsRestLoggingClient net testing cred =
     (let super = RequestsRestClient net testing cred in
     \<lparr>client_url = client_url super,
      client_get = (\<lambda>url. api_bind
        (append_log (\<lambda>l. l\<lparr>log_get_requests := log_get_requests l @ [url]\<rparr>))
        (\<lambda>_. client_get super url)),
      client_post = (\<lambda>url data. api_bind
        (append_log (\<lambda>l. l\<lparr>log_post_requests := log_post_requests l @ [(url, data)]\<rparr>))
        (\<lambda>_. client_post super url data)),
      client_post_multipart = (\<lambda>url data. api_bind
        (append_log (\<lambda>l. l\<lparr>log_post_multipart_requests := log_post_multipart_requests l @ [(url, data)]\<rparr>))
        (\<lambda>_. client_post_multipart super url data)),
      client_put = (\<lambda>url data. api_bind
        (append_log (\<lambda>l. l\<lparr>log_put_requests := log_put_requests l @ [(url, data)]\<rparr>))
        (\<lambda>_. client_put super url data)),
      client_patch = (\<lambda>url data. api_bind
        (append_log (\<lambda>l. l\<lparr>log_patch_requests := log_patch_requests l @ [(url, data)]\<rparr>))
        (\<lambda>_. client_patch super url data)),
      client_patch_multipart = (\<lambda>url data. api_bind
        (append_log (\<lambda>l. l\<lparr>log_patch_multipart_requests := log_patch_multipart_requests l @ [(url, data)]\<rparr>))
        (\<lambda>_. client_patch_multipart super url data)),
      client_delete = (\<lambda>url. api_bind
        (append_log (\<lambda>l. l\<lparr>log_delete_requests := log_delete_requests l @ [url]\<rparr>))
        (\<lambda>_. client_delete super url))\<rparr>)"

fun remove_features :: "string list \<Rightarrow> pyval \<Rightarrow> pyval" where
  "remove_features hidden (PDict d) = PDict (fold AList.delete hidden d)"
| "remove_features hidden obj = obj"

definition hide_features :: "string list \<Rightarrow> pyval \<Rightarrow> pyval result" where
  "hide_features hidden ret =
     (case ret of
        PList objs \<Rightarrow> Inr (PList (map (remove_features hidden) objs))
      | PDict d \<Rightarrow>
          if {''count'', ''next'', ''results''} \<subseteq> set (keys d) then
            rbind (dict_index d ''results'') (\<lambda>results.
            (case results of
               PList rs \<Rightarrow> Inr (PDict (AList.update ''results'' (PList (map (remove_features hidden) rs)) d))
             | _ \<Rightarrow> rbind (py_iter results) (\<lambda>_. Inr ret)))
          else Inr (remove_features hidden ret)
      | _ \<Rightarrow> Inr ret)"

definition FeatureHidingClient ::
  "string list \<Rightarrow> 's network \<Rightarrow> bool \<Rightarrow> Credentials \<Rightarrow> 's client_state APIClient" where
  "FeatureHidingClient hidden net testing cred =
     (let super = RequestsRestLoggingClient net testing cred in
      super\<lparr>client_get := (\<lambda>url. api_bind (client_get super url) (\<lambda>ret. api_lift (hide_features hidden ret)))\<rparr>)"

text \<open>
  The session client sends the same requests through a \<open>requests.Session\<close>, whose own state
  (cookies, pooled connections) is part of the network state of its \<open>session_net\<close>.
\<close>

definition session_headers_accessor ::
  "'s network \<Rightarrow> bool \<Rightarrow> Credentials \<Rightarrow> ('s client_state, headers) api" where
  "session_headers_accessor session_net testing cred w =
     (case cs_headers_cache w of
        Some (timestamp, cache) \<Rightarrow>
          if cs_now w - timestamp < 120 then (Inr cache, w)
          else refresh_headers session_net testing cred w
      | None \<Rightarrow> refresh_headers session_net testing cred w)"

definition session_call ::
  "'s network \<Rightarrow> bool \<Rightarrow> Credentials \<Rightarrow> http_method \<Rightarrow> string \<Rightarrow> body \<Rightarrow> ('s client_state, HttpResponse) api"
where
  "session_call session_net testing cred method url body =
     api_bind (session_headers_accessor session_net testing cred) (\<lambda>hs.
     api_bind (send session_net False \<lparr>rq_method = method, rq_url = url, rq_headers = hs,
                                       rq_body = body, rq_verify = \<not> testing\<rparr>) (\<lambda>resp.
     api_bind (api_lift (raise_for_status resp)) (\<lambda>_.
     api_return resp)))"

definition RequestsSessionRestClient ::
  "'s network \<Rightarrow> bool \<Rightarrow> Credentials \<Rightarrow> 's client_state APIClient" where
  "RequestsSessionRestClient session_net testing cred =
     (let json = (\<lambda>method url body. api_bind (session_call session_net testing cred method url body)
                    (\<lambda>resp. api_lift (rs_json resp))) in
     \<lparr>client_url = (\<lambda>path. base_url cred @ path),
      client_get = (\<lambda>url. json GET url NoBody),
      client_post = (\<lambda>url data. json POST url (Json data)),
      client_post_multipart = (\<lambda>url data. json POST url (Files data)),
      client_put = (\<lambda>url data. json PUT url (Json data)),
      client_patch = (\<lambda>url data. json PATCH url (Json data)),
      client_patch_multipart = (\<lambda>url data. json PATCH url (Files data)),
      client_delete = (\<lambda>url. api_ignore (session_call session_net testing cred HTTP_DELETE url NoBody))\<rparr>)"

text \<open>
  The mock client answers from a dictionary; \<open>patch_multipart\<close> is inherited from \<open>APIClient\<close>,
  whose body returns \<open>None\<close>.
\<close>

definition mock_lookup :: "pyval \<Rightarrow> string \<Rightarrow> string \<Rightarrow> pyval result" where
  "mock_lookup responses method url = rbind (py_index responses method) (\<lambda>by_url. py_index by_url url)"

definition MockRestClient :: "Credentials \<Rightarrow> pyval \<Rightarrow> 'w APIClient result" where
  "MockRestClient cred all_responses =
     rbind (py_index all_responses (user cred)) (\<lambda>responses.
     Inr \<lparr>client_url = (\<lambda>path. base_url cred @ path),
          client_get = (\<lambda>url. api_lift (mock_lookup responses ''get'' url)),
          client_post = (\<lambda>url data. api_lift (mock_lookup responses ''post'' url)),
          client_post_multipart = (\<lambda>url data. api_lift (mock_lookup responses ''post'' url)),
          client_put = (\<lambda>url data. api_lift (mock_lookup responses ''put'' url)),
          client_patch = (\<lambda>url data. api_raise NotImplementedError),
          client_patch_multipart = (\<lambda>url data. api_return PNone),
          client_delete = (\<lambda>url. api_return ())\<rparr>)"

definition get_client ::
  "bool \<Rightarrow> pyval \<Rightarrow> 's network \<Rightarrow> bool \<Rightarrow> Credentials \<Rightarrow> 's network option \<Rightarrow> 's client_state APIClient result"
where
  "get_client unit_testing mock_responses net testing cred session =
     (if unit_testing then MockRestClient cred mock_responses
      else case session of
        Some session_net \<Rightarrow> Inr (RequestsSessionRestClient session_net testing cred)
      | None \<Rightarrow> Inr (RequestsRestClient net testing cred))"

section \<open>connection/read.py\<close>

text \<open>
  A page's \<open>next\<close> is the URL of the next page or \<open>None\<close>; \<open>requests\<close> refuses a URL that is no
  string. \<open>map(converter, ..)\<close> is lazy: it needs an iterable, the converter runs after \<open>next\<close> is read.
\<close>

definition next_url :: "pyval \<Rightarrow> string option result" where
  "next_url v = (case v of PNone \<Rightarrow> Inr None | PStr s \<Rightarrow> Inr (Some s) | _ \<Rightarrow> Inl (ValueError ''Invalid URL''))"

definition parse_page :: "pyval \<Rightarrow> string \<Rightarrow> (pyval list \<times> pyval) result" where
  "parse_page page_data data_key =
     rbind (py_in data_key page_data) (\<lambda>present.
     if \<not> present then Inl AssertionError else
     rbind (py_index page_data data_key) (\<lambda>data.
     rbind (py_iter data) (\<lambda>elements.
     rbind (py_index page_data ''next'') (\<lambda>next.
     Inr (elements, next)))))"

text \<open>The loop may run forever on a server that never ends its pages: \<open>fuel\<close> bounds its rounds.\<close>

fun read_paginated_loop ::
  "nat \<Rightarrow> 'w APIClient \<Rightarrow> (pyval \<Rightarrow> 'a result) \<Rightarrow> string \<Rightarrow> string option \<Rightarrow> 'a list \<Rightarrow> ('w, 'a list) api" where
  "read_paginated_loop fuel client converter data_key None ret = api_return ret"
| "read_paginated_loop 0 client converter data_key (Some url) ret = api_raise OutOfFuel"
| "read_paginated_loop (Suc fuel) client converter data_key (Some url) ret =
     api_bind (client_get client url) (\<lambda>page_data.
     api_bind (api_lift (parse_page page_data data_key)) (\<lambda>(elements, next).
     api_bind (api_lift (rmap converter elements)) (\<lambda>parsed_data.
     api_bind (api_lift (next_url next)) (\<lambda>url'.
     read_paginated_loop fuel client converter data_key url' (ret @ parsed_data)))))"

definition read_paginated_all ::
  "nat \<Rightarrow> 'w APIClient \<Rightarrow> string \<Rightarrow> (pyval \<Rightarrow> 'a result) \<Rightarrow> string \<Rightarrow> ('w, 'a list) api" where
  "read_paginated_all fuel client url converter data_key =
     read_paginated_loop fuel client converter data_key (Some url) []"

text \<open>
  A generator yields what it has before an exception: the run of a consumer that drains it is
  the list of the yielded elements with the exception it ended with, if any.
\<close>

fun convert_while :: "(pyval \<Rightarrow> 'a result) \<Rightarrow> pyval list \<Rightarrow> 'a list \<times> py_error option" where
  "convert_while converter [] = ([], None)"
| "convert_while converter (x # xs) =
     (case converter x of
        Inl e \<Rightarrow> ([], Some e)
      | Inr y \<Rightarrow> (case convert_while converter xs of (ys, e) \<Rightarrow> (y # ys, e)))"

fun read_paginated_generator ::
  "nat \<Rightarrow> 'w APIClient \<Rightarrow> string option \<Rightarrow> (pyval \<Rightarrow> 'a result) \<Rightarrow> string \<Rightarrow> 'w \<Rightarrow>
     ('a list \<times> py_error option) \<times> 'w" where
  "read_paginated_generator fuel client None converter data_key w = (([], None), w)"
| "read_paginated_generator 0 client (Some url) converter data_key w = (([], Some OutOfFuel), w)"
| "read_paginated_generator (Suc fuel) client (Some url) converter data_key w =
     (case client_get client url w of
        (Inl e, w') \<Rightarrow> (([], Some e), w')
      | (Inr page_data, w') \<Rightarrow>
          (case parse_page page_data data_key of
             Inl e \<Rightarrow> (([], Some e), w')
           | Inr (elements, next) \<Rightarrow>
               (case convert_while converter elements of
                  (ys, Some e) \<Rightarrow> ((ys, Some e), w')
                | (ys, None) \<Rightarrow>
                    (case next_url next of
                       Inl e \<Rightarrow> ((ys, Some e), w')
                     | Inr url' \<Rightarrow>
                         (case read_paginated_generator fuel client url' converter data_key w' of
                            ((zs, e), w'') \<Rightarrow> ((ys @ zs, e), w''))))))"

definition read_list ::
  "'w APIClient \<Rightarrow> string \<Rightarrow> (pyval \<Rightarrow> 'a result) \<Rightarrow> ('w, 'a list) api" where
  "read_list client url converter =
     api_bind (client_get client url) (\<lambda>data.
     api_lift (rbind (py_iter data) (rmap converter)))"

section \<open>What a run sends\<close>

text \<open>
  The calls of a client that its users reason about. A client that is traced appends to its trace
  the one call it was asked to make, or nothing when it fails before it can send it.
\<close>

datatype call = Call (call_method: http_method) (call_url: string) (call_body: body)

definition calls_of :: "http_method set \<Rightarrow> call set" where
  "calls_of M = {cl. call_method cl \<in> M}"

lemma calls_of_iff [simp]: "Call m u b \<in> calls_of M \<longleftrightarrow> m \<in> M"
  by (simp add: calls_of_def)

definition makes :: "('w \<Rightarrow> call list) \<Rightarrow> call \<Rightarrow> ('w, 'a) api \<Rightarrow> bool" where
  "makes trace cl m \<longleftrightarrow>
     (\<forall>w r w'. m w = (r, w') \<longrightarrow>
        trace w' = trace w @ [cl] \<or> trace w' = trace w \<and> isl r)"

lemma makes_emits: "makes trace cl m \<Longrightarrow> cl \<in> A \<Longrightarrow> emits trace A m"
  unfolding makes_def emits_def by fastforce

text \<open>One run after the other: first calls in \<open>A\<close>, then calls in \<open>B\<close>.\<close>

definition emits_then :: "('w \<Rightarrow> call list) \<Rightarrow> call set \<Rightarrow> call set \<Rightarrow> ('w, 'a) api \<Rightarrow> bool" where
  "emits_then trace A B m \<longleftrightarrow>
     (\<forall>w r w'. m w = (r, w') \<longrightarrow>
        (\<exists>pre post. trace w' = trace w @ pre @ post \<and> set pre \<subseteq> A \<and> set post \<subseteq> B))"

lemma emits_then_first: "emits trace A m \<Longrightarrow> emits_then trace A B m"
  unfolding emits_def emits_then_def by (metis append_Nil2 empty_set empty_subsetI)

lemma emits_then_second: "emits trace B m \<Longrightarrow> emits_then trace A B m"
  unfolding emits_def emits_then_def by (metis append_Nil empty_set empty_subsetI)

lemma emits_then_split:
  assumes "emits trace A m" and "\<And>x. emits_then trace A B (f x)"
  shows "emits_then trace A B (api_bind m f)"
  unfolding emits_then_def
proof (intro allI impI)
  fix w r w'
  assume run: "api_bind m f w = (r, w')"
  obtain r1 w1 where m: "m w = (r1, w1)" by fastforce
  from emitsD [OF assms(1) m] obtain cs1 where 1: "trace w1 = trace w @ cs1" "set cs1 \<subseteq> A"
    by blast
  show "\<exists>pre post. trace w' = trace w @ pre @ post \<and> set pre \<subseteq> A \<and> set post \<subseteq> B"
  proof (cases r1)
    case (Inl e)
    with run m have "w' = w1" by (simp add: api_bind_def)
    with 1 have "trace w' = trace w @ cs1 @ []" by simp
    with 1 show ?thesis by (metis empty_set empty_subsetI)
  next
    case (Inr x)
    with run m have "f x w1 = (r, w')" by (simp add: api_bind_def)
    with assms(2) [of x] obtain pre post
      where 2: "trace w' = trace w1 @ pre @ post" "set pre \<subseteq> A" "set post \<subseteq> B"
      unfolding emits_then_def by blast
    from 1 2 have "trace w' = trace w @ (cs1 @ pre) @ post" "set (cs1 @ pre) \<subseteq> A" by auto
    with 2 show ?thesis by blast
  qed
qed

lemma emits_then_continue:
  assumes "emits_then trace A B m" and "\<And>x. emits trace B (f x)"
  shows "emits_then trace A B (api_bind m f)"
  unfolding emits_then_def
proof (intro allI impI)
  fix w r w'
  assume run: "api_bind m f w = (r, w')"
  obtain r1 w1 where m: "m w = (r1, w1)" by fastforce
  with assms(1) obtain pre post
    where 1: "trace w1 = trace w @ pre @ post" "set pre \<subseteq> A" "set post \<subseteq> B"
    unfolding emits_then_def by blast
  show "\<exists>pre post. trace w' = trace w @ pre @ post \<and> set pre \<subseteq> A \<and> set post \<subseteq> B"
  proof (cases r1)
    case (Inl e)
    with run m have "w' = w1" by (simp add: api_bind_def)
    with 1 show ?thesis by blast
  next
    case (Inr x)
    with run m have "f x w1 = (r, w')" by (simp add: api_bind_def)
    from emitsD [OF assms(2) this] obtain cs where 2: "trace w' = trace w1 @ cs" "set cs \<subseteq> B"
      by blast
    from 1 2 have "trace w' = trace w @ pre @ (post @ cs)" "set (post @ cs) \<subseteq> B" by auto
    with 1 show ?thesis by blast
  qed
qed

section \<open>The contract between a client and its users\<close>

locale traced_client =
  fixes client :: "'w APIClient" and trace :: "'w \<Rightarrow> call list"
  assumes get_makes: "makes trace (Call GET url NoBody) (client_get client url)"
    and post_makes: "makes trace (Call POST url (Json data)) (client_post client url data)"
    and post_multipart_makes:
      "makes trace (Call POST url (Files files)) (client_post_multipart client url files)"
    and put_makes: "makes trace (Call PUT url (Json data)) (client_put client url data)"
    and patch_makes: "makes trace (Call PATCH url (Json data)) (client_patch client url data)"
    and patch_multipart_makes:
      "makes trace (Call PATCH url (Files files)) (client_patch_multipart client url files)"
    and delete_makes: "makes trace (Call HTTP_DELETE url NoBody) (client_delete client url)"
begin

lemma emits_get: "Call GET url NoBody \<in> A \<Longrightarrow> emits trace A (client_get client url)"
  by (rule makes_emits [OF get_makes])

lemma emits_post: "Call POST url (Json data) \<in> A \<Longrightarrow> emits trace A (client_post client url data)"
  by (rule makes_emits [OF post_makes])

lemma emits_post_multipart:
  "Call POST url (Files files) \<in> A \<Longrightarrow> emits trace A (client_post_multipart client url files)"
  by (rule makes_emits [OF post_multipart_makes])

lemma emits_put: "Call PUT url (Json data) \<in> A \<Longrightarrow> emits trace A (client_put client url data)"
  by (rule makes_emits [OF put_makes])

lemma emits_patch: "Call PATCH url (Json data) \<in> A \<Longrightarrow> emits trace A (client_patch client url data)"
  by (rule makes_emits [OF patch_makes])

lemma emits_delete: "Call HTTP_DELETE url NoBody \<in> A \<Longrightarrow> emits trace A (client_delete client url)"
  by (rule makes_emits [OF delete_makes])

lemmas client_emits =
  emits_get emits_post emits_post_multipart emits_put emits_patch emits_delete

lemma emits_read_paginated_loop:
  "GET \<in> M \<Longrightarrow> emits trace (calls_of M) (read_paginated_loop fuel client converter data_key url ret)"
proof (induction fuel arbitrary: url ret)
  case 0
  then show ?case by (cases url) (auto intro!: emits_intros)
next
  case (Suc fuel)
  then show ?case by (cases url) (auto intro!: emits_intros emits_get)
qed

lemma emits_read_paginated_all:
  "GET \<in> M \<Longrightarrow> emits trace (calls_of M) (read_paginated_all fuel client url converter data_key)"
  unfolding read_paginated_all_def by (rule emits_read_paginated_loop)

lemma emits_read_list:
  "GET \<in> M \<Longrightarrow> emits trace (calls_of M) (read_list client url converter)"
  unfolding read_list_def by (auto intro!: emits_intros emits_get)

lemmas read_emits = emits_read_paginated_all emits_read_list

end

text \<open>The trace of the clients over HTTP: what went over the wire, the token requests aside.\<close>

definition wire_trace :: "'s client_state \<Rightarrow> call list" where
  "wire_trace w =
     map (\<lambda>(auth, rq). Call (rq_method rq) (rq_url rq) (rq_body rq))
       (filter (\<lambda>(auth, rq). \<not> auth) (cs_wire w))"

lemma wire_trace_simps [simp]:
  "wire_trace (w\<lparr>cs_headers_cache := c\<rparr>) = wire_trace w"
  "wire_trace (w\<lparr>cs_log := l\<rparr>) = wire_trace w"
  by (simp_all add: wire_trace_def)

lemma send_trace:
  "send net auth rq w = (r, w') \<Longrightarrow>
    wire_trace w' = wire_trace w @ (if auth then [] else [Call (rq_method rq) (rq_url rq) (rq_body rq)])"
  by (auto simp: send_def wire_trace_def split: prod.splits)

lemma refresh_headers_silent:
  "refresh_headers net testing cred w = (r, w') \<Longrightarrow> wire_trace w' = wire_trace w"
  by (auto simp: refresh_headers_def api_bind_def api_lift_def Let_def dest!: send_trace
      split: prod.splits sum.splits)

lemma headers_accessor_silent:
  "headers_accessor net testing cred w = (r, w') \<Longrightarrow> wire_trace w' = wire_trace w"
  by (auto simp: headers_accessor_def dest: refresh_headers_silent
      split: option.splits prod.splits if_splits)

lemma send_makes:
  "makes wire_trace (Call (rq_method rq) (rq_url rq) (rq_body rq)) (send net False rq)"
  unfolding makes_def by (auto dest!: send_trace)

lemma makes_continue:
  assumes "makes trace cl m" and "\<And>x w r w'. f x w = (r, w') \<Longrightarrow> trace w' = trace w"
  shows "makes trace cl (api_bind m f)"
  unfolding makes_def
proof (intro allI impI)
  fix w r w'
  assume run: "api_bind m f w = (r, w')"
  obtain r1 w1 where m: "m w = (r1, w1)" by fastforce
  with assms(1) have 1: "trace w1 = trace w @ [cl] \<or> trace w1 = trace w \<and> isl r1"
    unfolding makes_def by blast
  show "trace w' = trace w @ [cl] \<or> trace w' = trace w \<and> isl r"
  proof (cases r1)
    case (Inl e)
    with run m 1 show ?thesis by (auto simp: api_bind_def)
  next
    case (Inr x)
    with run m have "f x w1 = (r, w')" by (simp add: api_bind_def)
    from assms(2) [OF this] 1 Inr show ?thesis by simp
  qed
qed

lemma makes_after:
  assumes "\<And>w r w'. m w = (r, w') \<Longrightarrow> trace w' = trace w" and "\<And>x. makes trace cl (f x)"
  shows "makes trace cl (api_bind m f)"
  unfolding makes_def
proof (intro allI impI)
  fix w r w'
  assume run: "api_bind m f w = (r, w')"
  obtain r1 w1 where m: "m w = (r1, w1)" by fastforce
  show "trace w' = trace w @ [cl] \<or> trace w' = trace w \<and> isl r"
  proof (cases r1)
    case (Inl e)
    with run m assms(1) [OF m] show ?thesis by (auto simp: api_bind_def)
  next
    case (Inr x)
    with run m have "f x w1 = (r, w')" by (simp add: api_bind_def)
    with assms(2) [of x] have "trace w' = trace w1 @ [cl] \<or> trace w' = trace w1 \<and> isl r"
      unfolding makes_def by blast
    with assms(1) [OF m] show ?thesis by simp
  qed
qed

lemma rest_call_makes:
  "makes wire_trace (Call method url body) (rest_call net testing cred method url body)"
  unfolding rest_call_def
proof (rule makes_after [OF headers_accessor_silent], assumption, rule makes_continue)
  fix hs
  show "makes wire_trace (Call method url body) (send net False
      \<lparr>rq_method = method, rq_url = url, rq_headers = hs, rq_body = body, rq_verify = \<not> testing\<rparr>)"
    using send_makes [of "\<lparr>rq_method = method, rq_url = url, rq_headers = hs, rq_body = body,
        rq_verify = \<not> testing\<rparr>"] by simp
qed (auto simp: api_bind_def api_lift_def api_return_def split: sum.splits)

lemma rest_json_makes:
  "makes wire_trace (Call method url body) (rest_json net testing cred method url body)"
  unfolding rest_json_def by (rule makes_continue [OF rest_call_makes]) (simp add: api_lift_def)

lemma session_headers_accessor_eq: "session_headers_accessor = headers_accessor"
  by (intro ext) (simp add: session_headers_accessor_def headers_accessor_def)

lemma session_call_eq: "session_call = rest_call"
  by (intro ext) (simp add: session_call_def rest_call_def session_headers_accessor_eq)

lemma session_client_eq: "RequestsSessionRestClient = RequestsRestClient"
  by (intro ext)
    (simp add: RequestsSessionRestClient_def RequestsRestClient_def session_call_eq rest_json_def)

interpretation rest: traced_client "RequestsRestClient net testing cred" wire_trace
  for net testing cred
  by unfold_locales
    (auto simp: RequestsRestClient_def api_ignore_def api_return_def
      intro!: rest_json_makes makes_continue [OF rest_call_makes])

interpretation session: traced_client "RequestsSessionRestClient net testing cred" wire_trace
  for net testing cred
  unfolding session_client_eq by (rule rest.traced_client_axioms)

lemma append_log_silent: "append_log f w = (r, w') \<Longrightarrow> wire_trace w' = wire_trace w"
  by (auto simp: append_log_def)

interpretation logging: traced_client "RequestsRestLoggingClient net testing cred" wire_trace
  for net testing cred
  by unfold_locales
    (auto simp: RequestsRestLoggingClient_def Let_def
      intro!: makes_after append_log_silent rest.get_makes rest.post_makes
        rest.post_multipart_makes rest.put_makes rest.patch_makes rest.patch_multipart_makes
        rest.delete_makes)

interpretation hiding: traced_client "FeatureHidingClient hidden net testing cred" wire_trace
  for hidden net testing cred
  by unfold_locales
    (auto simp: FeatureHidingClient_def Let_def api_lift_def
      intro!: makes_continue logging.get_makes logging.post_makes
        logging.post_multipart_makes logging.put_makes logging.patch_makes
        logging.patch_multipart_makes logging.delete_makes)

section \<open>The token cache\<close>

definition headers_fresh :: "'s client_state \<Rightarrow> bool" where
  "headers_fresh w = (case cs_headers_cache w of None \<Rightarrow> False | Some (t, _) \<Rightarrow> cs_now w - t < 120)"

definition auth_request :: "bool \<Rightarrow> Credentials \<Rightarrow> HttpRequest" where
  "auth_request testing cred =
     \<lparr>rq_method = POST, rq_url = base_url cred @ ''/api/common/auth/authtoken/'',
      rq_headers = [(''User-Agent'', [PStr USER_AGENT])],
      rq_body = Json (PDict [(''username'', PStr (user cred)), (''password'', PStr (password cred))]),
      rq_verify = \<not> testing\<rparr>"

definition token_headers :: "pyval \<Rightarrow> headers" where
  "token_headers token = [(''Authorization'', [PStr ''Token '', token]), (''User-Agent'', [PStr USER_AGENT])]"

lemma refresh_headers_run:
  assumes "refresh_headers net testing cred w = (r, w')"
  shows "cs_wire w' = cs_wire w @ [(True, auth_request testing cred)] \<and>
    (\<forall>hs. r = Inr hs \<longrightarrow> (\<exists>token. hs = token_headers token) \<and>
       cs_headers_cache w' = Some (cs_now w', hs))"
  using assms
  by (auto simp: refresh_headers_def send_def api_bind_def api_lift_def Let_def auth_request_def
      token_headers_def split: prod.splits sum.splits)

lemma headers_accessor_fresh:
  "headers_fresh w \<Longrightarrow> headers_accessor net testing cred w = (Inr (snd (the (cs_headers_cache w))), w)"
  by (auto simp: headers_fresh_def headers_accessor_def split: option.splits)

lemma headers_accessor_stale:
  "\<not> headers_fresh w \<Longrightarrow> headers_accessor net testing cred w = refresh_headers net testing cred w"
  by (auto simp: headers_fresh_def headers_accessor_def split: option.splits)

lemma rest_call_after_headers:
  assumes "headers_accessor net testing cred w = (Inr hs, w1)"
    and "rest_call net testing cred method url body w = (r, w')"
  shows "cs_wire w' = cs_wire w1 @ [(False, \<lparr>rq_method = method, rq_url = url, rq_headers = hs,
      rq_body = body, rq_verify = \<not> testing\<rparr>)]"
  using assms
  by (auto simp: rest_call_def api_bind_def api_lift_def api_return_def send_def
      split: prod.splits sum.splits)

lemma rest_call_wire:
  assumes "rest_call net testing cred method url body w = (r, w')"
  shows "if headers_fresh w
    then cs_wire w' = cs_wire w @ [(False, \<lparr>rq_method = method, rq_url = url,
      rq_headers = snd (the (cs_headers_cache w)), rq_body = body, rq_verify = \<not> testing\<rparr>)]
    else (cs_wire w' = cs_wire w @ [(True, auth_request testing cred)] \<and> isl r) \<or>
      (\<exists>token. cs_wire w' = cs_wire w @ [(True, auth_request testing cred),
        (False, \<lparr>rq_method = method, rq_url = url, rq_headers = token_headers token,
                 rq_body = body, rq_verify = \<not> testing\<rparr>)])"
proof (cases "headers_fresh w")
  case True
  with rest_call_after_headers [OF headers_accessor_fresh assms] show ?thesis by simp
next
  case False
  obtain r1 w1 where run: "headers_accessor net testing cred w = (r1, w1)" by fastforce
  with False have refresh: "refresh_headers net testing cred w = (r1, w1)"
    by (simp add: headers_accessor_stale)
  note wire = refresh_headers_run [OF refresh]
  show ?thesis
  proof (cases r1)
    case (Inl e)
    with run assms have "w' = w1" and "isl r" by (auto simp: rest_call_def api_bind_def)
    with wire False show ?thesis by simp
  next
    case (Inr hs)
    with rest_call_after_headers [OF _ assms] run wire False show ?thesis by auto
  qed
qed

section \<open>What reading pages returns\<close>

text \<open>
  The pages a client sees from a URL on, in \<open>n\<close> requests, with the states in between. Reading all
  pages returns their elements in order exactly when the chain ends within the fuel.
\<close>

inductive page_chain ::
  "'w APIClient \<Rightarrow> (pyval \<Rightarrow> 'a result) \<Rightarrow> string \<Rightarrow> 'w \<Rightarrow> string option \<Rightarrow> 'a list \<Rightarrow> nat \<Rightarrow> 'w \<Rightarrow> bool"
  for client converter data_key
where
  last_page: "page_chain client converter data_key w None [] 0 w"
| a_page: "client_get client url w = (Inr page_data, w1) \<Longrightarrow>
    parse_page page_data data_key = Inr (elements, next) \<Longrightarrow>
    rmap converter elements = Inr xs \<Longrightarrow> next_url next = Inr url' \<Longrightarrow>
    page_chain client converter data_key w1 url' ys n w2 \<Longrightarrow>
    page_chain client converter data_key w (Some url) (xs @ ys) (Suc n) w2"

inductive_cases page_chain_NoneE: "page_chain client converter data_key w None xs n w'"
inductive_cases page_chain_SomeE: "page_chain client converter data_key w (Some url) xs n w'"

lemma read_paginated_loop_chain:
  assumes "page_chain client converter data_key w url xs n w'" and "n \<le> fuel"
  shows "read_paginated_loop fuel client converter data_key url ret w = (Inr (ret @ xs), w')"
  using assms
proof (induction arbitrary: fuel ret)
  case (last_page w)
  then show ?case by (simp add: api_simps)
next
  case (a_page url w page_data w1 elements "next" xs url' ys n w2)
  then obtain fuel' where "fuel = Suc fuel'" and "n \<le> fuel'" by (cases fuel) auto
  with a_page show ?case by (simp add: api_simps)
qed

lemma read_paginated_loop_returns:
  assumes "read_paginated_loop fuel client converter data_key url ret w = (Inr zs, w')"
  shows "\<exists>n xs. n \<le> fuel \<and> zs = ret @ xs \<and> page_chain client converter data_key w url xs n w'"
  using assms
proof (induction fuel arbitrary: url ret w)
  case 0
  then show ?case by (cases url) (auto simp: api_simps intro: page_chain.intros)
next
  case (Suc fuel)
  show ?case
  proof (cases url)
    case None
    with Suc.prems show ?thesis by (auto simp: api_simps intro: page_chain.intros)
  next
    case (Some u)
    with Suc.prems obtain page_data w1 elements "next" xs url' where
      page: "client_get client u w = (Inr page_data, w1)"
        "parse_page page_data data_key = Inr (elements, next)"
        "rmap converter elements = Inr xs" "next_url next = Inr url'"
      and rest: "read_paginated_loop fuel client converter data_key url' (ret @ xs) w1 = (Inr zs, w')"
      by (auto simp: api_bind_def api_lift_def split: prod.splits sum.splits)
    from Suc.IH [OF rest] obtain n ys where "n \<le> fuel" "zs = (ret @ xs) @ ys"
      "page_chain client converter data_key w1 url' ys n w'" by blast
    with page_chain.a_page [OF page] Some show ?thesis
      by (intro exI [of _ "Suc n"] exI [of _ "xs @ ys"]) simp
  qed
qed

lemma read_paginated_all_iff:
  "read_paginated_all fuel client url converter data_key w = (Inr xs, w') \<longleftrightarrow>
    (\<exists>n. n \<le> fuel \<and> page_chain client converter data_key w (Some url) xs n w')"
  unfolding read_paginated_all_def
  using read_paginated_loop_chain [of client converter data_key w "Some url" xs _ w' fuel "[]"]
    read_paginated_loop_returns [of fuel client converter data_key "Some url" "[]" w xs w']
  by auto

text \<open>The generator yields the same elements, and before an exception those it has seen.\<close>

lemma convert_while_rmap: "convert_while converter xs = (ys, None) \<longleftrightarrow> rmap converter xs = Inr ys"
  by (induction xs arbitrary: ys) (fastforce simp: rbind_Inr_iff split: sum.splits prod.splits)+

lemma read_paginated_generator_chain:
  assumes "page_chain client converter data_key w url xs n w'" and "n \<le> fuel"
  shows "read_paginated_generator fuel client url converter data_key w = ((xs, None), w')"
  using assms
proof (induction arbitrary: fuel)
  case (last_page w)
  then show ?case by simp
next
  case (a_page url w page_data w1 elements "next" xs url' ys n w2)
  then obtain fuel' where "fuel = Suc fuel'" and "n \<le> fuel'" by (cases fuel) auto
  moreover from a_page have "convert_while converter elements = (xs, None)"
    by (simp add: convert_while_rmap)
  ultimately show ?case using a_page by simp
qed

section \<open>Properties\<close>

text \<open>A request of the REST client while its token is younger than 120 seconds is sent as it
  is, with the cached headers. With no token, or an older one, the client first asks for a token
  with its credentials; it sends the request only after that succeeded, with the new token.\<close>

theorem token_is_fresh:
  "case rest_call net testing cred method url body w of (r, w') \<Rightarrow>
    if headers_fresh w
    then cs_wire w' = cs_wire w @ [(False, \<lparr>rq_method = method, rq_url = url,
      rq_headers = snd (the (cs_headers_cache w)), rq_body = body, rq_verify = \<not> testing\<rparr>)]
    else (cs_wire w' = cs_wire w @ [(True, auth_request testing cred)] \<and> isl r) \<or>
      (\<exists>token. cs_wire w' = cs_wire w @ [(True, auth_request testing cred),
        (False, \<lparr>rq_method = method, rq_url = url, rq_headers = token_headers token,
                 rq_body = body, rq_verify = \<not> testing\<rparr>)])"
  by (cases "rest_call net testing cred method url body w") (simp only: prod.case, rule rest_call_wire)

text \<open>Reading a paginated list returns exactly the concatenation of the converted elements of
  the pages that the server's \<open>next\<close> links lead through, in order, when that chain ends within
  the given number of requests; and it returns in no other case.\<close>

theorem read_paginated_all_returns_pages:
  "read_paginated_all fuel client url converter data_key w = (Inr xs, w') \<longleftrightarrow>
    (\<exists>n. n \<le> fuel \<and> page_chain client converter data_key w (Some url) xs n w')"
  by (rule read_paginated_all_iff)

end
