(* ===== verification/Client_Fetcher.thy ===== *)
theory Client_Fetcher
  imports Client_Api
begin

text \<open>
  \<open>service/fetcher.py\<close>: reading definitions and data points from an instance or from files. The
  generated \<open>from_dict\<close> methods of \<open>dataclasses_json\<close> are the parameters of \<open>converters\<close>; the
  functions of the standard library that print floats, dates and JSON or match a regular
  expression are the parameters of \<open>pylib\<close>.
\<close>

record converters =
  RawDataSeries_from_dict :: "pyval \<Rightarrow> RawDataSeries result"
  RawFact_from_dict :: "fact_class \<Rightarrow> pyval \<Rightarrow> RawFact result"
  RawDimension_from_dict :: "pyval \<Rightarrow> RawDimension result"
  RawConsumer_from_dict :: "pyval \<Rightarrow> RawConsumer result"
  RawIndex_from_dict :: "pyval \<Rightarrow> RawIndex result"
  RawGroupPermissionsOnObject_from_dict :: "pyval \<Rightarrow> RawGroupPermissionsOnObject result"
  RawEngine_from_dict :: "pyval \<Rightarrow> RawEngine result"
  RawEngineSecret_from_dict :: "pyval \<Rightarrow> RawEngineSecret result"
  RawHttpEndpoint_from_dict :: "pyval \<Rightarrow> RawHttpEndpoint result"
  RawGroup_from_dict :: "pyval \<Rightarrow> RawGroup result"
  RawGroupPermissions_from_dict :: "pyval \<Rightarrow> RawGroupPermissions result"
  RawDataPoint_from_dict :: "pyval \<Rightarrow> RawDataPoint result"
  DataSeriesDefinition_from_dict :: "pyval \<Rightarrow> DataSeriesDefinition result"
  EngineDefinition_from_dict :: "pyval \<Rightarrow> EngineDefinition result"
  HttpEndpointDefinition_from_dict :: "pyval \<Rightarrow> HttpEndpointDefinition result"
  GroupDefinition_from_dict :: "pyval \<Rightarrow> GroupDefinition result"

record pylib =
  json_dumps :: "pyval \<Rightarrow> string result"
  py_str :: "pyval \<Rightarrow> string"
  isoformat :: "int \<Rightarrow> string"
  fullmatch :: "string \<Rightarrow> string \<Rightarrow> bool result"
  guess_type :: "string \<Rightarrow> string option result"

section \<open>Formatting\<close>

function nat_digits :: "nat \<Rightarrow> string" where
  "nat_digits n = (if n < 10 then [char_of (48 + n)] else nat_digits (n div 10) @ [char_of (48 + n mod 10)])"
  by auto
termination by (relation "measure id") auto

declare nat_digits.simps [simp del]

definition fmt_int :: "int \<Rightarrow> string" where
  "fmt_int i = (if i < 0 then ''-'' @ nat_digits (nat (- i)) else nat_digits (nat i))"

definition fmt_optional_int :: "int option \<Rightarrow> string" where
  "fmt_optional_int v = (case v of None \<Rightarrow> ''None'' | Some i \<Rightarrow> fmt_int i)"

text \<open>\<open>urllib.parse.quote(s, safe='')\<close>, \<open>quote_plus\<close> and \<open>urlencode\<close> of one parameter.\<close>

definition unreserved :: "char \<Rightarrow> bool" where
  "unreserved c =
     (let n = (of_char c :: nat) in
      48 \<le> n \<and> n \<le> 57 \<or> 65 \<le> n \<and> n \<le> 90 \<or> 97 \<le> n \<and> n \<le> 122 \<or> n = 45 \<or> n = 46 \<or> n = 95 \<or> n = 126)"

definition hex_digit :: "nat \<Rightarrow> char" where
  "hex_digit n = char_of (if n < 10 then 48 + n else 55 + n)"

definition quote_char :: "char \<Rightarrow> string" where
  "quote_char c =
     (if unreserved c then [c]
      else [CHR ''%'', hex_digit (of_char c div 16), hex_digit (of_char c mod 16)])"

definition quote :: "string \<Rightarrow> string" where
  "quote s = concat (map quote_char s)"

definition quote_plus :: "string \<Rightarrow> string" where
  "quote_plus s = concat (map (\<lambda>c. if c = CHR '' '' then ''+'' else quote_char c) s)"

definition urlencode :: "string \<Rightarrow> string \<Rightarrow> string" where
  "urlencode key v = quote_plus key @ ''='' @ quote_plus v"

section \<open>Data series\<close>

text \<open>The loop of a lookup-free call: one request per reference that is not yet known.\<close>

fun ds_by_url_loop ::
  "'w APIClient \<Rightarrow> converters \<Rightarrow> RawDimension list \<Rightarrow> (REST_URL \<times> EXTERNAL_ID) list \<Rightarrow>
     ('w, (REST_URL \<times> EXTERNAL_ID) list) api" where
  "ds_by_url_loop client cv [] ds_by_url = api_return ds_by_url"
| "ds_by_url_loop client cv (raw_dim # raw_dims) ds_by_url =
     (if rdim_reference raw_dim \<in> set (keys ds_by_url) then ds_by_url_loop client cv raw_dims ds_by_url
      else api_bind (client_get client (rdim_reference raw_dim)) (\<lambda>raw_ds_json.
           api_bind (api_lift (RawDataSeries_from_dict cv raw_ds_json)) (\<lambda>raw_ds.
           ds_by_url_loop client cv raw_dims
             (AList.update (rdim_reference raw_dim) (rds_external_id raw_ds) ds_by_url))))"

definition data_series_definition ::
  "nat \<Rightarrow> 'w APIClient \<Rightarrow> converters \<Rightarrow> (REST_URL \<times> EXTERNAL_ID) list option \<Rightarrow> RawDataSeries \<Rightarrow>
     (string \<times> string) list \<Rightarrow> bool \<Rightarrow> ('w, DataSeriesDefinition) api" where
  "data_series_definition fuel client cv raw_ds_by_url raw domain_aliases only_structure =
     api_bind (read_list client (rds_float_facts raw) (RawFact_from_dict cv FloatFact)) (\<lambda>raw_float_facts.
     api_bind (read_list client (rds_string_facts raw) (RawFact_from_dict cv StringFact)) (\<lambda>raw_string_facts.
     api_bind (read_list client (rds_text_facts raw) (RawFact_from_dict cv TextFact)) (\<lambda>raw_text_facts.
     api_bind (read_list client (rds_timestamp_facts raw) (RawFact_from_dict cv TimestampFact)) (\<lambda>raw_timestamp_facts.
     api_bind (read_list client (rds_image_facts raw) (RawFact_from_dict cv ImageFact)) (\<lambda>raw_image_facts.
     api_bind (read_list client (rds_file_facts raw) (RawFact_from_dict cv FileFact)) (\<lambda>raw_file_facts.
     api_bind (read_list client (rds_json_facts raw) (RawFact_from_dict cv JsonFact)) (\<lambda>raw_json_facts.
     api_bind (read_list client (rds_boolean_facts raw) (RawFact_from_dict cv BooleanFact)) (\<lambda>raw_boolean_facts.
     api_bind (read_list client (rds_dimensions raw) (RawDimension_from_dict cv)) (\<lambda>raw_dimensions.
     api_bind (if only_structure then api_return []
               else read_list client (rds_consumers raw) (RawConsumer_from_dict cv)) (\<lambda>raw_consumers.
     api_bind (case rds_indexes raw of None \<Rightarrow> api_return []
               | Some indexes \<Rightarrow> read_list client indexes (RawIndex_from_dict cv)) (\<lambda>raw_indexes.
     api_bind (case raw_ds_by_url of Some d \<Rightarrow> api_return d
               | None \<Rightarrow> ds_by_url_loop client cv raw_dimensions []) (\<lambda>ds_by_url.
     api_bind (if only_structure then api_return []
               else read_paginated_all fuel client (rds_permission_group raw)
                      (RawGroupPermissionsOnObject_from_dict cv) ''results'') (\<lambda>raw_group_permissions.
     api_lift
       (rbind (rmap (\<lambda>x. Dimension_from_raw x ds_by_url) raw_dimensions) (\<lambda>dimensions.
        rbind (rmap (\<lambda>x. Consumer_from_raw x domain_aliases) raw_consumers) (\<lambda>consumers.
        Inr \<lparr>dsd_data_series = DataSeries_from_raw raw,
             dsd_structure =
               \<lparr>st_float_facts = map FloatFact_from_raw raw_float_facts,
                st_string_facts = map StringFact_from_raw raw_string_facts,
                st_text_facts = map TextFact_from_raw raw_text_facts,
                st_timestamp_facts = map TimestampFact_from_raw raw_timestamp_facts,
                st_image_facts = map ImageFact_from_raw raw_image_facts,
                st_file_facts = map FileFact_from_raw raw_file_facts,
                st_json_facts = map JsonFact_from_raw raw_json_facts,
                st_boolean_facts = map BooleanFact_from_raw raw_boolean_facts,
                st_dimensions = dimensions\<rparr>,
             dsd_consumers = consumers,
             dsd_indexes = map Index_from_raw raw_indexes,
             dsd_group_permissions =
               map DataSeriesGroupPermissions_from_raw raw_group_permissions\<rparr>))))))))))))))))"

fun data_series_loop ::
  "nat \<Rightarrow> 'w APIClient \<Rightarrow> converters \<Rightarrow> pylib \<Rightarrow> (REST_URL \<times> EXTERNAL_ID) list \<Rightarrow>
     (string \<times> string) list \<Rightarrow> string option \<Rightarrow> RawDataSeries list \<Rightarrow> ('w, DataSeriesDefinition list) api"
where
  "data_series_loop fuel client cv lib raw_ds_by_url domain_aliases regex_filter [] = api_return []"
| "data_series_loop fuel client cv lib raw_ds_by_url domain_aliases regex_filter (raw # raws) =
     api_bind (api_lift (case regex_filter of None \<Rightarrow> Inr True
                         | Some regex \<Rightarrow> fullmatch lib regex (rds_external_id raw))) (\<lambda>matches.
     if matches then
       api_bind (data_series_definition fuel client cv (Some raw_ds_by_url) raw domain_aliases False) (\<lambda>def.
       api_bind (data_series_loop fuel client cv lib raw_ds_by_url domain_aliases regex_filter raws) (\<lambda>ret.
       api_return (def # ret)))
     else data_series_loop fuel client cv lib raw_ds_by_url domain_aliases regex_filter raws)"

definition fetch_raw_data_series ::
  "nat \<Rightarrow> 'w APIClient \<Rightarrow> converters \<Rightarrow> string list option \<Rightarrow> ('w, RawDataSeries list) api" where
  "fetch_raw_data_series fuel client cv external_ids =
     (case external_ids of
        Some ids \<Rightarrow>
          api_bind (api_map (\<lambda>external_id.
            if external_id \<noteq> '''' then
              read_paginated_all fuel client
                (client_url client (''/api/dataseries/dataseries/?external_id='' @ quote external_id))
                (RawDataSeries_from_dict cv) ''results''
            else api_return []) ids) (\<lambda>lists.
          api_return (concat lists))
      | None \<Rightarrow>
          read_paginated_all fuel client (client_url client ''/api/dataseries/dataseries/'')
            (RawDataSeries_from_dict cv) ''results'')"

definition fetch_data_series ::
  "nat \<Rightarrow> 'w APIClient \<Rightarrow> converters \<Rightarrow> pylib \<Rightarrow> (string \<times> string) list \<Rightarrow> string option \<Rightarrow>
     string list option \<Rightarrow> ('w, DataSeriesDefinition list) api" where
  "fetch_data_series fuel client cv lib domain_aliases regex_filter external_ids =
     api_bind (fetch_raw_data_series fuel client cv external_ids) (\<lambda>all_raw_data_series.
     data_series_loop fuel client cv lib (dict_comp rds_url rds_external_id all_raw_data_series)
       domain_aliases regex_filter all_raw_data_series)"

definition get_single_data_series_definition ::
  "nat \<Rightarrow> 'w APIClient \<Rightarrow> converters \<Rightarrow> string \<Rightarrow> (string \<times> string) list \<Rightarrow> bool \<Rightarrow>
     ('w, DataSeriesDefinition) api" where
  "get_single_data_series_definition fuel client cv data_series_external_id domain_aliases only_structure =
     api_bind (read_paginated_all fuel client
       (client_url client (''/api/dataseries/dataseries/?external_id='' @ data_series_external_id))
       (RawDataSeries_from_dict cv) ''results'') (\<lambda>all_raw_data_series.
     case fold (\<lambda>elem raw_ds. if data_series_external_id = rds_external_id elem then Some elem else raw_ds)
            all_raw_data_series None of
       None \<Rightarrow> api_raise (ComposeClientException data_series_external_id)
     | Some raw_ds \<Rightarrow> data_series_definition fuel client cv None raw_ds domain_aliases only_structure)"

section \<open>Engines, HTTP endpoints and groups\<close>

definition fetch_engine ::
  "nat \<Rightarrow> 'w APIClient \<Rightarrow> converters \<Rightarrow> (string \<times> string) list \<Rightarrow> RawEngine \<Rightarrow> ('w, EngineDefinition) api"
where
  "fetch_engine fuel client cv domain_aliases raw_engine =
     api_bind (client_get client (re_secret raw_engine)) (\<lambda>json.
     api_bind (api_lift (RawEngineSecret_from_dict cv json)) (\<lambda>raw_engine_secret.
     api_bind (read_paginated_all fuel client (re_permission_group raw_engine)
                 (RawGroupPermissionsOnObject_from_dict cv) ''results'') (\<lambda>raw_group_permissions.
     api_bind (api_lift (Engine_from_raw raw_engine domain_aliases)) (\<lambda>engine.
     api_return \<lparr>ed_engine = engine, ed_secret = EngineSecret_from_raw raw_engine_secret,
       ed_group_permissions = map EngineGroupPermissions_from_raw raw_group_permissions\<rparr>))))"

definition fetch_engines ::
  "nat \<Rightarrow> 'w APIClient \<Rightarrow> converters \<Rightarrow> (string \<times> string) list \<Rightarrow> ('w, EngineDefinition list) api" where
  "fetch_engines fuel client cv domain_aliases =
     api_bind (read_paginated_all fuel client (client_url client ''/api/flow/engine/'')
                 (RawEngine_from_dict cv) ''results'') (\<lambda>all_raw_engines.
     api_map (fetch_engine fuel client cv domain_aliases) all_raw_engines)"

definition fetch_http_endpoint ::
  "nat \<Rightarrow> 'w APIClient \<Rightarrow> converters \<Rightarrow> (REST_URL \<times> EXTERNAL_ID) list \<Rightarrow> RawHttpEndpoint \<Rightarrow>
     ('w, HttpEndpointDefinition) api" where
  "fetch_http_endpoint fuel client cv engine_lookup raw_endpoint =
     api_bind (read_paginated_all fuel client (rhe_permission_group raw_endpoint)
                 (RawGroupPermissionsOnObject_from_dict cv) ''results'') (\<lambda>raw_group_permissions.
     api_bind (api_lift (HttpEndpoint_from_raw raw_endpoint engine_lookup)) (\<lambda>endpoint.
     api_return \<lparr>hd_http_endpoint = endpoint,
       hd_group_permissions = map HttpEndpointGroupPermissions_from_raw raw_group_permissions\<rparr>))"

definition fetch_http_endpoints ::
  "nat \<Rightarrow> 'w APIClient \<Rightarrow> converters \<Rightarrow> ('w, HttpEndpointDefinition list) api" where
  "fetch_http_endpoints fuel client cv =
     api_bind (read_paginated_all fuel client (client_url client ''/api/flow/engine/'')
                 (RawEngine_from_dict cv) ''results'') (\<lambda>all_raw_engines.
     api_bind (read_paginated_all fuel client (client_url client ''/api/flow/httpendpoint/'')
                 (RawHttpEndpoint_from_dict cv) ''results'') (\<lambda>all_raw_endpoints.
     api_map (fetch_http_endpoint fuel client cv
       (dict_comp re_url re_external_id all_raw_engines)) all_raw_endpoints))"

definition fetch_groups :: "nat \<Rightarrow> 'w APIClient \<Rightarrow> converters \<Rightarrow> ('w, GroupDefinition list) api" where
  "fetch_groups fuel client cv =
     api_bind (read_paginated_all fuel client (client_url client ''/api/common/auth/group/'')
                 (RawGroup_from_dict cv) ''results'') (\<lambda>all_raw_groups.
     api_map (\<lambda>raw_group.
       api_bind (client_get client (rg_permissions raw_group)) (\<lambda>json.
       api_bind (api_lift (RawGroupPermissions_from_dict cv json)) (\<lambda>raw_group_permissions.
       api_return \<lparr>gd_group = Group_from_raw raw_group,
         gd_group_permissions = GroupPermissions_from_raw raw_group_permissions\<rparr>))) all_raw_groups)"

section \<open>Definitions from files\<close>

text \<open>\<open>json\<close> is what the storage adapter's \<open>read_json(path)\<close> returned.\<close>

definition alias_consumer :: "(string \<times> string) list \<Rightarrow> Consumer \<Rightarrow> Consumer result" where
  "alias_consumer domain_aliases consumer =
     rbind (replace_domain (co_target consumer) domain_aliases) (\<lambda>target.
     Inr (consumer\<lparr>co_target := target\<rparr>))"

fun file_data_series_loop ::
  "converters \<Rightarrow> pylib \<Rightarrow> (string \<times> string) list \<Rightarrow> string option \<Rightarrow> string list option \<Rightarrow>
     pyval list \<Rightarrow> DataSeriesDefinition list result" where
  "file_data_series_loop cv lib domain_aliases regex_filter external_ids [] = Inr []"
| "file_data_series_loop cv lib domain_aliases regex_filter external_ids (elem # elems) =
     rbind (DataSeriesDefinition_from_dict cv elem) (\<lambda>def.
     let external_id = ds_external_id (dsd_data_series def);
         rest = file_data_series_loop cv lib domain_aliases regex_filter external_ids elems in
     if (case external_ids of None \<Rightarrow> False | Some ids \<Rightarrow> external_id \<notin> set ids) then rest
     else
       rbind (case regex_filter of None \<Rightarrow> Inr True | Some regex \<Rightarrow> fullmatch lib regex external_id) (\<lambda>matches.
       if matches then
         rbind (rmap (alias_consumer domain_aliases) (dsd_consumers def)) (\<lambda>consumers.
         rbind rest (\<lambda>ret. Inr (def\<lparr>dsd_consumers := consumers\<rparr> # ret)))
       else rest))"

definition file_fetch_data_series ::
  "converters \<Rightarrow> pylib \<Rightarrow> pyval \<Rightarrow> (string \<times> string) list \<Rightarrow> string option \<Rightarrow> string list option \<Rightarrow>
     DataSeriesDefinition list result" where
  "file_fetch_data_series cv lib json domain_aliases regex_filter external_ids =
     rbind (py_iter json) (file_data_series_loop cv lib domain_aliases regex_filter external_ids)"

definition file_fetch_engines ::
  "converters \<Rightarrow> pyval \<Rightarrow> (string \<times> string) list \<Rightarrow> EngineDefinition list result" where
  "file_fetch_engines cv json domain_aliases =
     rbind (py_iter json) (rmap (\<lambda>elem.
       rbind (EngineDefinition_from_dict cv elem) (\<lambda>def.
       rbind (replace_domain (en_upstream (ed_engine def)) domain_aliases) (\<lambda>upstream.
       Inr (def\<lparr>ed_engine := (ed_engine def)\<lparr>en_upstream := upstream\<rparr>\<rparr>)))))"

definition file_fetch_http_endpoints :: "converters \<Rightarrow> pyval \<Rightarrow> HttpEndpointDefinition list result" where
  "file_fetch_http_endpoints cv json = rbind (py_iter json) (rmap (HttpEndpointDefinition_from_dict cv))"

definition file_fetch_groups :: "converters \<Rightarrow> pyval \<Rightarrow> GroupDefinition list result" where
  "file_fetch_groups cv json = rbind (py_iter json) (rmap (GroupDefinition_from_dict cv))"

section \<open>Data points\<close>

record ComposeDataPointFetcher =
  dpf_data_series_external_id :: string
  dpf_pagesize :: int
  dpf_filter :: "pydict option"
  dpf_external_ids :: "string list option"
  dpf_changes_since :: "int option"

fun join :: "string \<Rightarrow> string list \<Rightarrow> string" where
  "join sep [] = ''''"
| "join sep [s] = s"
| "join sep (s # ss) = s @ sep @ join sep ss"

text \<open>The extra query parameters; \<open>None\<close> when an empty list of external ids was passed.\<close>

definition extra_query_params :: "pylib \<Rightarrow> ComposeDataPointFetcher \<Rightarrow> string option result" where
  "extra_query_params lib self =
     rbind (case dpf_filter self of None \<Rightarrow> Inr ''''
            | Some f \<Rightarrow> rbind (json_dumps lib (PDict f)) (\<lambda>s. Inr (''&filter='' @ s))) (\<lambda>filter_str.
     let changes_str = (case dpf_changes_since self of None \<Rightarrow> filter_str
            | Some t \<Rightarrow> filter_str @ ''&changes_since='' @ isoformat lib t) in
     case dpf_external_ids self of
       None \<Rightarrow> Inr (Some changes_str)
     | Some ids \<Rightarrow>
         (let id_str = join ''&'' (map (\<lambda>x. ''external_id='' @ quote x) ids) in
          if id_str = '''' then Inr None else Inr (Some (changes_str @ ''&'' @ id_str))))"

definition fetch_data_points ::
  "nat \<Rightarrow> 'w APIClient \<Rightarrow> converters \<Rightarrow> pylib \<Rightarrow> ComposeDataPointFetcher \<Rightarrow> 'w \<Rightarrow>
     (DataPoint list \<times> py_error option) \<times> 'w" where
  "fetch_data_points fuel client cv lib self w =
     (case get_single_data_series_definition fuel client cv (dpf_data_series_external_id self) [] True w of
        (Inl e, w') \<Rightarrow> (([], Some e), w')
      | (Inr def, w') \<Rightarrow>
          (case extra_query_params lib self of
             Inl e \<Rightarrow> (([], Some e), w')
           | Inr None \<Rightarrow> (([], None), w')
           | Inr (Some params) \<Rightarrow>
               (case read_paginated_generator fuel client
                  (Some (client_url client
                    (''/api/dataseries/by-external-id/dataseries/'' @ dpf_data_series_external_id self @
                     ''/datapoint/?identify_dimensions_by_external_id&pagesize='' @
                     fmt_int (dpf_pagesize self) @ params)))
                  (RawDataPoint_from_dict cv) ''data'' w' of
                  ((raws, e), w'') \<Rightarrow> ((map (\<lambda>elem. DataPoint_from_raw elem def) raws, e), w''))))"

section \<open>Lemmas\<close>

text \<open>A quoted value cannot end its query parameter.\<close>

lemma hex_digit_code:
  "n < 16 \<Longrightarrow> of_char (hex_digit n) = (if n < 10 then 48 + n else 55 + n)"
  by (simp add: hex_digit_def)

lemma quote_char_plain:
  assumes "x \<in> set (quote_char c)"
  shows "x = CHR ''%'' \<or> unreserved x"
proof -
  have "(of_char c :: nat) div 16 < 16" and "(of_char c :: nat) mod 16 < 16"
    using nat_of_char_less_256 [of c] by (auto simp: div_less_iff_less_mult)
  then have "unreserved (hex_digit (of_char c div 16))" "unreserved (hex_digit (of_char c mod 16))"
    by (auto simp: unreserved_def Let_def hex_digit_code)
  with assms show ?thesis by (auto simp: quote_char_def split: if_splits)
qed

lemma quote_plain: "x \<in> set (quote s) \<Longrightarrow> x = CHR ''%'' \<or> unreserved x"
  by (auto simp: quote_def dest: quote_char_plain)

context traced_client begin

lemma emits_ds_by_url_loop:
  "GET \<in> M \<Longrightarrow> emits trace (calls_of M) (ds_by_url_loop client cv raw_dims ds_by_url)"
  by (induction raw_dims arbitrary: ds_by_url) (auto intro!: emits_intros emits_get)

lemma emits_data_series_definition:
  "GET \<in> M \<Longrightarrow> emits trace (calls_of M)
    (data_series_definition fuel client cv raw_ds_by_url raw domain_aliases only_structure)"
  unfolding data_series_definition_def
  by (intro emits_intros read_emits emits_ds_by_url_loop)

lemma emits_data_series_loop:
  "GET \<in> M \<Longrightarrow> emits trace (calls_of M)
    (data_series_loop fuel client cv lib raw_ds_by_url domain_aliases regex_filter raws)"
  by (induction raws) (auto intro!: emits_intros emits_data_series_definition)

lemma emits_fetch_data_series:
  "GET \<in> M \<Longrightarrow> emits trace (calls_of M)
    (fetch_data_series fuel client cv lib domain_aliases regex_filter external_ids)"
  unfolding fetch_data_series_def fetch_raw_data_series_def
  by (intro emits_intros read_emits emits_data_series_loop)

lemma emits_get_single:
  "GET \<in> M \<Longrightarrow> emits trace (calls_of M)
    (get_single_data_series_definition fuel client cv external_id domain_aliases only_structure)"
  unfolding get_single_data_series_definition_def
  by (intro emits_intros read_emits emits_data_series_definition)

lemma emits_fetch_engines: "GET \<in> M \<Longrightarrow> emits trace (calls_of M) (fetch_engines fuel client cv aliases)"
  unfolding fetch_engines_def fetch_engine_def
  by (intro emits_intros read_emits emits_get) simp_all

lemma emits_fetch_http_endpoints:
  "GET \<in> M \<Longrightarrow> emits trace (calls_of M) (fetch_http_endpoints fuel client cv)"
  unfolding fetch_http_endpoints_def fetch_http_endpoint_def
  by (intro emits_intros read_emits)

lemma emits_fetch_groups: "GET \<in> M \<Longrightarrow> emits trace (calls_of M) (fetch_groups fuel client cv)"
  unfolding fetch_groups_def by (intro emits_intros read_emits emits_get) simp_all

lemma read_paginated_generator_reads:
  "read_paginated_generator fuel client url converter data_key w = (res, w') \<Longrightarrow>
    \<exists>cs. trace w' = trace w @ cs \<and> set cs \<subseteq> calls_of {GET}"
proof (induction fuel arbitrary: url w res)
  case 0
  then show ?case by (cases url) auto
next
  case (Suc fuel)
  show ?case
  proof (cases url)
    case None
    with Suc.prems show ?thesis by auto
  next
    case (Some u)
    obtain r1 w1 where get: "client_get client u w = (r1, w1)" by fastforce
    have "emits trace (calls_of {GET}) (client_get client u)" by (rule emits_get) simp
    from emitsD [OF this get] obtain cs
      where 1: "trace w1 = trace w @ cs" "set cs \<subseteq> calls_of {GET}" by blast
    from Suc.prems Some get consider "w' = w1"
      | url' res' where "read_paginated_generator fuel client url' converter data_key w1 = (res', w')"
      by (auto split: sum.splits prod.splits option.splits)
    then show ?thesis
    proof cases
      case 2
      from Suc.IH [OF this] obtain cs' where "trace w' = trace w1 @ cs'" "set cs' \<subseteq> calls_of {GET}"
        by blast
      with 1 show ?thesis by (intro exI [of _ "cs @ cs'"]) simp
    qed (use 1 in auto)
  qed
qed

lemma fetch_data_points_reads:
  assumes "fetch_data_points fuel client cv lib self w = (res, w')"
  shows "\<exists>cs. trace w' = trace w @ cs \<and> set cs \<subseteq> calls_of {GET}"
proof -
  obtain r1 w1 where single: "get_single_data_series_definition fuel client cv
      (dpf_data_series_external_id self) [] True w = (r1, w1)" by fastforce
  have "emits trace (calls_of {GET}) (get_single_data_series_definition fuel client cv
      (dpf_data_series_external_id self) [] True)" by (rule emits_get_single) simp
  from emitsD [OF this single] obtain cs
    where 1: "trace w1 = trace w @ cs" "set cs \<subseteq> calls_of {GET}" by blast
  from assms single consider "w' = w1"
    | url key res' where "read_paginated_generator fuel client url (RawDataPoint_from_dict cv) key w1 = (res', w')"
    by (auto simp: fetch_data_points_def split: sum.splits prod.splits option.splits)
  then show ?thesis
  proof cases
    case 2
    from read_paginated_generator_reads [OF this] obtain cs'
      where "trace w' = trace w1 @ cs'" "set cs' \<subseteq> calls_of {GET}" by blast
    with 1 show ?thesis by (intro exI [of _ "cs @ cs'"]) simp
  qed (use 1 in auto)
qed

end

lemma data_series_definition_series:
  "data_series_definition fuel client cv raw_ds_by_url raw domain_aliases only_structure w = (Inr def, w') \<Longrightarrow>
    dsd_data_series def = DataSeries_from_raw raw"
  unfolding data_series_definition_def
  by (elim api_bind_InrE) (auto simp: api_lift_run rbind_Inr_iff)

lemma find_rev_fold:
  "fold (\<lambda>elem acc. if P elem then Some elem else acc) xs acc =
    (case find P (rev xs) of None \<Rightarrow> acc | Some x \<Rightarrow> Some x)"
  by (induction xs rule: rev_induct) auto

lemma get_single_run:
  assumes "read_paginated_all fuel client
      (client_url client (''/api/dataseries/dataseries/?external_id='' @ external_id))
      (RawDataSeries_from_dict cv) ''results'' w = (Inr raws, w1)"
  shows "get_single_data_series_definition fuel client cv external_id domain_aliases only_structure w =
    (case find (\<lambda>raw. external_id = rds_external_id raw) (rev raws) of
       None \<Rightarrow> (Inl (ComposeClientException external_id), w1)
     | Some raw \<Rightarrow> data_series_definition fuel client cv None raw domain_aliases only_structure w1)"
  using assms
  by (simp add: get_single_data_series_definition_def api_bind_def api_raise_def find_rev_fold
      split: option.splits)

lemma get_single_external_id:
  assumes "get_single_data_series_definition fuel client cv external_id domain_aliases only_structure w = (Inr def, w')"
  shows "ds_external_id (dsd_data_series def) = external_id"
  using assms unfolding get_single_data_series_definition_def
  by (elim api_bind_InrE)
    (auto simp: api_raise_run find_rev_fold DataSeries_from_raw_def split: option.splits
      dest!: data_series_definition_series find_SomeD)

section \<open>A steady server\<close>

text \<open>A program gives a result if it does so in every state.\<close>

definition gives :: "('w, 'a) api \<Rightarrow> 'a result \<Rightarrow> bool" where
  "gives m r \<longleftrightarrow> (\<forall>w. fst (m w) = r)"

lemma givesD: "gives m r \<Longrightarrow> \<exists>w'. m w = (r, w')"
  unfolding gives_def by (metis prod.collapse)

lemma gives_return: "gives (api_return x) (Inr x)"
  and gives_lift: "gives (api_lift r) r"
  by (simp_all add: gives_def api_simps)

lemma gives_bind:
  assumes "gives m r" and "\<And>x. gives (f x) (g x)"
  shows "gives (api_bind m f) (rbind r g)"
proof (unfold gives_def, intro allI)
  fix w
  from givesD [OF assms(1)] obtain w' where "m w = (r, w')" by blast
  with assms(2) show "fst (api_bind m f w) = rbind r g"
    by (cases r) (simp_all add: api_bind_def gives_def)
qed

lemma gives_map: "(\<And>x. gives (f x) (g x)) \<Longrightarrow> gives (api_map f xs) (rmap g xs)"
  by (induction xs) (auto intro!: gives_return gives_bind)

lemmas gives_intros = gives_return gives_lift gives_bind gives_map

text \<open>
  Reading a list, and a list cut into pages, from a server whose answers depend on the URL only:
  \<open>answer url\<close> is the answer, or the exception that the request ends with.
\<close>

definition listed :: "(string \<Rightarrow> pyval result) \<Rightarrow> string \<Rightarrow> (pyval \<Rightarrow> 'a result) \<Rightarrow> 'a list result" where
  "listed answer url converter = rbind (rbind (answer url) py_iter) (rmap converter)"

fun paged :: "nat \<Rightarrow> (string \<Rightarrow> pyval result) \<Rightarrow> string option \<Rightarrow> (pyval \<Rightarrow> 'a result) \<Rightarrow> 'a list result" where
  "paged fuel answer None converter = Inr []"
| "paged 0 answer (Some url) converter = Inl OutOfFuel"
| "paged (Suc fuel) answer (Some url) converter =
     rbind (answer url) (\<lambda>page.
     rbind (parse_page page ''results'') (\<lambda>(elements, next).
     rbind (rmap converter elements) (\<lambda>xs.
     rbind (next_url next) (\<lambda>url'.
     rbind (paged fuel answer url' converter) (\<lambda>ys. Inr (xs @ ys))))))"

text \<open>
  What a definition has to be, given the data series that were listed: \<open>reads_list\<close> says that the
  elements of one kind are the converted elements of the list at their URL, in its order.
  A URL that was listed twice stands for the data series listed last.
\<close>

definition reads_list ::
  "(string \<Rightarrow> pyval result) \<Rightarrow> string \<Rightarrow> (pyval \<Rightarrow> 'a result) \<Rightarrow> ('a \<Rightarrow> 'b) \<Rightarrow> 'b list \<Rightarrow> bool" where
  "reads_list answer url converter f ys \<longleftrightarrow> (\<exists>xs. listed answer url converter = Inr xs \<and> ys = map f xs)"

definition refers_to :: "RawDataSeries list \<Rightarrow> RawDimension \<Rightarrow> Dimension \<Rightarrow> bool" where
  "refers_to raws raw d \<longleftrightarrow>
     dim_external_id d = rdim_external_id raw \<and> dim_name d = rdim_name raw \<and>
     dim_optional d = rdim_optional raw \<and>
     (\<exists>r. find (\<lambda>r. rds_url r = rdim_reference raw) (rev raws) = Some r \<and>
        dim_reference d = rds_external_id r)"

definition describes_series ::
  "nat \<Rightarrow> (string \<Rightarrow> pyval result) \<Rightarrow> converters \<Rightarrow> (string \<times> string) list \<Rightarrow> RawDataSeries list \<Rightarrow>
     RawDataSeries \<Rightarrow> DataSeriesDefinition \<Rightarrow> bool" where
  "describes_series fuel answer cv domain_aliases raws raw def \<longleftrightarrow>
     dsd_data_series def = DataSeries_from_raw raw \<and>
     reads_list answer (rds_float_facts raw) (RawFact_from_dict cv FloatFact) FloatFact_from_raw
       (st_float_facts (dsd_structure def)) \<and>
     reads_list answer (rds_string_facts raw) (RawFact_from_dict cv StringFact) StringFact_from_raw
       (st_string_facts (dsd_structure def)) \<and>
     reads_list answer (rds_text_facts raw) (RawFact_from_dict cv TextFact) TextFact_from_raw
       (st_text_facts (dsd_structure def)) \<and>
     reads_list answer (rds_timestamp_facts raw) (RawFact_from_dict cv TimestampFact) TimestampFact_from_raw
       (st_timestamp_facts (dsd_structure def)) \<and>
     reads_list answer (rds_image_facts raw) (RawFact_from_dict cv ImageFact) ImageFact_from_raw
       (st_image_facts (dsd_structure def)) \<and>
     reads_list answer (rds_file_facts raw) (RawFact_from_dict cv FileFact) FileFact_from_raw
       (st_file_facts (dsd_structure def)) \<and>
     reads_list answer (rds_json_facts raw) (RawFact_from_dict cv JsonFact) JsonFact_from_raw
       (st_json_facts (dsd_structure def)) \<and>
     reads_list answer (rds_boolean_facts raw) (RawFact_from_dict cv BooleanFact) BooleanFact_from_raw
       (st_boolean_facts (dsd_structure def)) \<and>
     (\<exists>ds. listed answer (rds_dimensions raw) (RawDimension_from_dict cv) = Inr ds \<and>
       list_all2 (refers_to raws) ds (st_dimensions (dsd_structure def))) \<and>
     (\<exists>cs. listed answer (rds_consumers raw) (RawConsumer_from_dict cv) = Inr cs \<and>
       list_all2 (\<lambda>c consumer. Consumer_from_raw c domain_aliases = Inr consumer) cs (dsd_consumers def)) \<and>
     (case rds_indexes raw of None \<Rightarrow> dsd_indexes def = []
      | Some url \<Rightarrow> reads_list answer url (RawIndex_from_dict cv) Index_from_raw (dsd_indexes def)) \<and>
     (\<exists>ps. paged fuel answer (Some (rds_permission_group raw)) (RawGroupPermissionsOnObject_from_dict cv) = Inr ps \<and>
       dsd_group_permissions def = map DataSeriesGroupPermissions_from_raw ps)"

text \<open>The listed data series, all or those with the given external ids, and those that the filter picks.\<close>

definition listed_series ::
  "nat \<Rightarrow> 'w APIClient \<Rightarrow> (string \<Rightarrow> pyval result) \<Rightarrow> converters \<Rightarrow> string list option \<Rightarrow> RawDataSeries list result"
where
  "listed_series fuel client answer cv external_ids =
     (case external_ids of
        None \<Rightarrow> paged fuel answer (Some (client_url client ''/api/dataseries/dataseries/'')) (RawDataSeries_from_dict cv)
      | Some ids \<Rightarrow> rbind (rmap (\<lambda>external_id.
            paged fuel answer (Some (client_url client (''/api/dataseries/dataseries/?external_id='' @ quote external_id)))
              (RawDataSeries_from_dict cv)) (filter (\<lambda>external_id. external_id \<noteq> '''') ids)) (\<lambda>lists.
          Inr (concat lists)))"

definition picked :: "pylib \<Rightarrow> string option \<Rightarrow> RawDataSeries \<Rightarrow> bool result" where
  "picked lib regex_filter raw =
     (case regex_filter of None \<Rightarrow> Inr True | Some regex \<Rightarrow> fullmatch lib regex (rds_external_id raw))"

definition steady :: "'w APIClient \<Rightarrow> (string \<Rightarrow> pyval result) \<Rightarrow> bool" where
  "steady client answer \<longleftrightarrow> (\<forall>url. gives (client_get client url) (answer url))"

lemma steadyD: "steady client answer \<Longrightarrow> gives (client_get client url) (answer url)"
  by (simp add: steady_def)

lemma gives_read_list:
  assumes "steady client answer"
  shows "gives (read_list client url converter) (listed answer url converter)"
proof -
  have "gives (read_list client url converter)
      (rbind (answer url) (\<lambda>data. rbind (py_iter data) (rmap converter)))"
    unfolding read_list_def by (intro gives_intros steadyD [OF assms])
  then show ?thesis by (simp add: listed_def rbind_assoc)
qed

lemma gives_read_paginated_loop:
  assumes "steady client answer"
  shows "gives (read_paginated_loop fuel client converter ''results'' url ret)
     (rbind (paged fuel answer url converter) (\<lambda>xs. Inr (ret @ xs)))"
proof (induction fuel arbitrary: url ret)
  case 0
  show ?case by (cases url) (simp_all add: gives_def api_simps)
next
  case (Suc fuel)
  show ?case
  proof (cases url)
    case None
    then show ?thesis by (simp add: gives_def api_simps)
  next
    case (Some u)
    have "gives (read_paginated_loop (Suc fuel) client converter ''results'' (Some u) ret)
      (rbind (answer u) (\<lambda>page.
       rbind (parse_page page ''results'') (\<lambda>(elements, next).
       rbind (rmap converter elements) (\<lambda>xs.
       rbind (next_url next) (\<lambda>url'.
       rbind (paged fuel answer url' converter) (\<lambda>ys. Inr ((ret @ xs) @ ys)))))))"
      by (auto intro!: gives_bind gives_lift steadyD [OF assms] Suc.IH simp del: append_assoc split: prod.split)
    with Some show ?thesis
      by (simp add: rbind_assoc case_prod_unfold)
  qed
qed

lemma gives_read_paginated_all:
  assumes "steady client answer"
  shows "gives (read_paginated_all fuel client url converter ''results'') (paged fuel answer (Some url) converter)"
  using gives_read_paginated_loop [OF assms, of fuel converter "Some url" "[]"]
  by (simp add: read_paginated_all_def)

lemma gives_fetch_raw_data_series:
  assumes "steady client answer"
  shows "gives (fetch_raw_data_series fuel client cv external_ids) (listed_series fuel client answer cv external_ids)"
proof (cases external_ids)
  case None
  then show ?thesis
    by (simp add: fetch_raw_data_series_def listed_series_def gives_read_paginated_all [OF assms])
next
  case (Some ids)
  define query where "query = (\<lambda>external_id.
    Some (client_url client (''/api/dataseries/dataseries/?external_id='' @ quote external_id)))"
  have skip: "rbind (rmap (\<lambda>i. if i \<noteq> '''' then f i else Inr []) ids) (\<lambda>xss. Inr (ys @ concat xss)) =
      rbind (rmap f (filter (\<lambda>i. i \<noteq> '''') ids)) (\<lambda>xss. Inr (ys @ concat xss))" for f :: "string \<Rightarrow> 'x list result" and ys
  proof (induction ids arbitrary: ys)
    case (Cons i ids)
    have "rbind (rmap (\<lambda>i. if i \<noteq> '''' then f i else Inr []) ids) (\<lambda>xss. Inr (ys @ x @ concat xss)) =
        rbind (rmap f (filter (\<lambda>i. i \<noteq> '''') ids)) (\<lambda>xss. Inr (ys @ x @ concat xss))" for x
      using Cons [of "ys @ x"] by simp
    then show ?case using Cons [of ys] by (simp add: rbind_assoc)
  qed simp
  have "gives (fetch_raw_data_series fuel client cv (Some ids))
      (rbind (rmap (\<lambda>i. if i \<noteq> '''' then paged fuel answer (query i) (RawDataSeries_from_dict cv) else Inr []) ids)
        (\<lambda>lists. Inr (concat lists)))"
    unfolding fetch_raw_data_series_def option.case query_def
    by (auto intro!: gives_bind gives_map gives_return gives_read_paginated_all [OF assms])
  then show ?thesis
    unfolding Some listed_series_def option.case query_def
      skip [of "\<lambda>i. paged fuel answer (query i) (RawDataSeries_from_dict cv)" "[]", simplified append_Nil query_def] .
qed

lemma Dimension_from_raw_iff:
  "Dimension_from_raw raw (dict_comp rds_url rds_external_id raws) = Inr d \<longleftrightarrow> refers_to raws raw d"
  by (cases d) (auto simp: Dimension_from_raw_def refers_to_def rbind_Inr_iff dict_simps)

lemma data_series_definition_describes:
  assumes "steady client answer"
  shows "fst (data_series_definition fuel client cv (Some (dict_comp rds_url rds_external_id raws)) raw domain_aliases False w)
     = Inr def \<longleftrightarrow> describes_series fuel answer cv domain_aliases raws raw def"
proof -
  define idx where "idx = (case rds_indexes raw of None \<Rightarrow> Inr []
    | Some indexes \<Rightarrow> listed answer indexes (RawIndex_from_dict cv))"
  have indexes: "gives (case rds_indexes raw of None \<Rightarrow> api_return []
      | Some indexes \<Rightarrow> read_list client indexes (RawIndex_from_dict cv)) idx"
    by (simp add: idx_def gives_return gives_read_list [OF assms] split: option.split)
  have "\<exists>r. gives (data_series_definition fuel client cv (Some (dict_comp rds_url rds_external_id raws)) raw
      domain_aliases False) r \<and> (r = Inr def \<longleftrightarrow> describes_series fuel answer cv domain_aliases raws raw def)"
    unfolding data_series_definition_def if_False option.case
    apply (rule exI, rule conjI, (rule gives_bind gives_read_list [OF assms] indexes gives_read_paginated_all [OF assms] gives_return gives_lift)+)
    apply (cases def, rename_tac series st consumers idxs permissions, case_tac st)
    apply (auto simp: rbind_Inr_iff describes_series_def reads_list_def rmap_Inr_iff Dimension_from_raw_iff idx_def
        split: option.splits)
    done
  then show ?thesis by (auto simp: gives_def)
qed

lemma data_series_loop_describes:
  assumes "steady client answer"
  shows "fst (data_series_loop fuel client cv lib (dict_comp rds_url rds_external_id all) domain_aliases
      regex_filter raws w) = Inr defs \<longleftrightarrow>
    (\<forall>raw \<in> set raws. \<not> isl (picked lib regex_filter raw)) \<and>
    list_all2 (describes_series fuel answer cv domain_aliases all)
      (filter (\<lambda>raw. picked lib regex_filter raw = Inr True) raws) defs"
proof (induction raws arbitrary: w defs)
  case Nil
  show ?case by (auto simp: api_simps)
next
  case (Cons raw raws)
  let ?loop = "data_series_loop fuel client cv lib (dict_comp rds_url rds_external_id all) domain_aliases regex_filter"
  let ?def = "data_series_definition fuel client cv (Some (dict_comp rds_url rds_external_id all)) raw domain_aliases False"
  have step: "?loop (raw # raws) w = (case picked lib regex_filter raw of Inl e \<Rightarrow> (Inl e, w)
      | Inr matches \<Rightarrow> if matches then api_bind ?def (\<lambda>def. api_bind (?loop raws) (\<lambda>ret. api_return (def # ret))) w
          else ?loop raws w)"
    by (simp add: picked_def api_bind_def api_lift_def split: option.split sum.split)
  show ?case
  proof (cases "picked lib regex_filter raw = Inr True")
    case True
    obtain r w1 where def: "?def w = (r, w1)" by fastforce
    have "r = Inr d \<longleftrightarrow> describes_series fuel answer cv domain_aliases all raw d" for d
      using data_series_definition_describes [OF assms, of fuel cv all raw domain_aliases w d] def by simp
    moreover obtain r' w2 where rest: "?loop raws w1 = (r', w2)" by fastforce
    with Cons.IH [of w1] have "r' = Inr ds \<longleftrightarrow> (\<forall>raw \<in> set raws. \<not> isl (picked lib regex_filter raw)) \<and>
      list_all2 (describes_series fuel answer cv domain_aliases all)
        (filter (\<lambda>raw. picked lib regex_filter raw = Inr True) raws) ds" for ds by simp
    moreover have "fst (?loop (raw # raws) w) = rbind r (\<lambda>d. rbind r' (\<lambda>ds. Inr (d # ds)))"
      unfolding step using True def rest by (simp add: api_bind_def api_return_def split: sum.split)
    ultimately show ?thesis
      using True by (auto simp: rbind_Inr_iff list_all2_Cons1)
  next
    case False
    then show ?thesis
      unfolding step using Cons.IH [of w] by (auto split: sum.split)
  qed
qed

lemma fetch_data_series_describes:
  assumes "steady client answer"
  shows "fst (fetch_data_series fuel client cv lib domain_aliases regex_filter external_ids w) = Inr defs \<longleftrightarrow>
    (\<exists>raws. listed_series fuel client answer cv external_ids = Inr raws \<and>
      (\<forall>raw \<in> set raws. \<not> isl (picked lib regex_filter raw)) \<and>
      list_all2 (describes_series fuel answer cv domain_aliases raws)
        (filter (\<lambda>raw. picked lib regex_filter raw = Inr True) raws) defs)"
proof -
  from givesD [OF gives_fetch_raw_data_series [OF assms]] obtain w'
    where "fetch_raw_data_series fuel client cv external_ids w =
      (listed_series fuel client answer cv external_ids, w')" by blast
  then show ?thesis
    by (cases "listed_series fuel client answer cv external_ids")
      (simp_all add: fetch_data_series_def api_bind_def data_series_loop_describes [OF assms])
qed

text \<open>
  The client that the repository mocks an instance with is steady, and so is the client over
  \<open>requests\<close> as long as the instance hands out tokens and answers a \<open>GET\<close> by its URL alone.
\<close>

lemma MockRestClient_steady:
  assumes "MockRestClient cred all_responses = Inr client"
  shows "\<exists>responses. steady client (mock_lookup responses ''get'')"
  using assms unfolding MockRestClient_def rbind_Inr_iff steady_def by (fastforce intro: gives_lift)

lemma RequestsRestClient_steady:
  assumes auth: "\<And>s. \<exists>token. fst (net s (auth_request testing cred)) =
      Inr \<lparr>rs_status = 200, rs_json = Inr (PDict [(''token'', token)])\<rparr>"
    and page: "\<And>s rq. rq_method rq = GET \<Longrightarrow> fst (net s rq) = page (rq_url rq)"
  shows "steady (RequestsRestClient net testing cred)
    (\<lambda>url. rbind (page url) (\<lambda>resp. rbind (raise_for_status resp) (\<lambda>_. rs_json resp)))"
proof -
  have refresh: "\<exists>hs w'. refresh_headers net testing cred w = (Inr hs, w')" for w
  proof -
    obtain token elapsed s' where "net (cs_net w) (auth_request testing cred) =
        (Inr \<lparr>rs_status = 200, rs_json = Inr (PDict [(''token'', token)])\<rparr>, elapsed, s')"
      using auth [of "cs_net w"] by (metis prod.collapse)
    then show ?thesis
      by (simp add: refresh_headers_def auth_request_def api_bind_def send_def raise_for_status_def
          api_lift_def py_index_def dict_index_def Let_def)
  qed
  have "\<exists>hs w'. headers_accessor net testing cred w = (Inr hs, w')" for w
    using refresh by (auto simp: headers_accessor_def split: option.split)
  moreover have "\<exists>w'. send net False \<lparr>rq_method = GET, rq_url = url, rq_headers = hs, rq_body = NoBody,
      rq_verify = \<not> testing\<rparr> w = (page url, w')" for url hs w
    by (cases "net (cs_net w) \<lparr>rq_method = GET, rq_url = url, rq_headers = hs, rq_body = NoBody, rq_verify = \<not> testing\<rparr>")
      (use page [of "\<lparr>rq_method = GET, rq_url = url, rq_headers = hs, rq_body = NoBody, rq_verify = \<not> testing\<rparr>" "cs_net w"]
        in \<open>auto simp: send_def\<close>)
  ultimately show ?thesis
    unfolding steady_def gives_def
  proof (intro allI)
    fix url w
    assume "\<And>w. \<exists>hs w'. headers_accessor net testing cred w = (Inr hs, w')"
      and sent: "\<And>url hs w. \<exists>w'. send net False \<lparr>rq_method = GET, rq_url = url, rq_headers = hs, rq_body = NoBody,
        rq_verify = \<not> testing\<rparr> w = (page url, w')"
    then obtain hs w1 where 1: "headers_accessor net testing cred w = (Inr hs, w1)" by blast
    from sent obtain w2 where 2: "send net False \<lparr>rq_method = GET, rq_url = url, rq_headers = hs, rq_body = NoBody,
        rq_verify = \<not> testing\<rparr> w1 = (page url, w2)" by blast
    from 1 2 show "fst (client_get (RequestsRestClient net testing cred) url w) =
        rbind (page url) (\<lambda>resp. rbind (raise_for_status resp) (\<lambda>_. rs_json resp))"
      by (cases "page url")
        (auto simp: RequestsRestClient_def rest_json_def rest_call_def api_bind_def api_lift_def api_return_def
          split: sum.split)
  qed
qed

section \<open>Properties\<close>

text \<open>Fetching definitions or data points from an instance only reads: whatever the server
  answers, and also when the fetch fails half way, the client sends nothing but \<open>GET\<close> requests
  (and the request for its token).\<close>

theorem fetchers_only_read:
  "emits wire_trace (calls_of {GET}) (fetch_data_series fuel (RequestsRestClient net testing cred) cv lib aliases regex ids) \<and>
   emits wire_trace (calls_of {GET}) (get_single_data_series_definition fuel (RequestsRestClient net testing cred) cv external_id aliases only) \<and>
   emits wire_trace (calls_of {GET}) (fetch_engines fuel (RequestsRestClient net testing cred) cv aliases) \<and>
   emits wire_trace (calls_of {GET}) (fetch_http_endpoints fuel (RequestsRestClient net testing cred) cv) \<and>
   emits wire_trace (calls_of {GET}) (fetch_groups fuel (RequestsRestClient net testing cred) cv) \<and>
   (case fetch_data_points fuel (RequestsRestClient net testing cred) cv lib self w of (res, w') \<Rightarrow>
      \<exists>cs. wire_trace w' = wire_trace w @ cs \<and> set cs \<subseteq> calls_of {GET})"
proof -
  have "case fetch_data_points fuel (RequestsRestClient net testing cred) cv lib self w of (res, w') \<Rightarrow>
      \<exists>cs. wire_trace w' = wire_trace w @ cs \<and> set cs \<subseteq> calls_of {GET}"
    by (cases "fetch_data_points fuel (RequestsRestClient net testing cred) cv lib self w")
      (simp only: prod.case, rule rest.fetch_data_points_reads)
  then show ?thesis
    by (simp add: rest.emits_fetch_data_series rest.emits_get_single rest.emits_fetch_engines
        rest.emits_fetch_http_endpoints rest.emits_fetch_groups)
qed

text \<open>C7: While the answers of an instance depend on the URL only, fetching its data series
  succeeds with the definitions \<open>defs\<close> exactly if the list of data series can be read (all of it, or
  the data series with the given external ids), the filter can be matched against each of them, and
  \<open>defs\<close> are, one by one and in the order of the list, the definitions of the data series that the
  filter picks: the data series itself, for each kind of facts, the indexes and the consumers the
  elements of the list at their own URL, the permissions of groups on all pages, and for each
  dimension of the list one whose reference is the external id of the listed data series at the URL
  that the dimension refers to. (With a filter on external ids the list is the filtered one, so
  fetching a data series without the ones it refers to does not succeed.)\<close>

theorem fetch_describes_server:
  assumes "\<And>url w. fst (client_get client url w) = answer url"
  shows "fst (fetch_data_series fuel client cv lib domain_aliases regex_filter external_ids w) = Inr defs \<longleftrightarrow>
    (\<exists>raws. listed_series fuel client answer cv external_ids = Inr raws \<and>
      (\<forall>raw \<in> set raws. \<not> isl (picked lib regex_filter raw)) \<and>
      list_all2 (describes_series fuel answer cv domain_aliases raws)
        (filter (\<lambda>raw. picked lib regex_filter raw = Inr True) raws) defs)"
  by (rule fetch_data_series_describes) (simp add: steady_def gives_def assms)

definition sample_raw_series :: "string \<Rightarrow> RawDataSeries" where
  "sample_raw_series name =
     \<lparr>rds_url = ''/'' @ name, rds_id = name, rds_external_id = name, rds_point_in_time = [],
      rds_last_modified_at = [], rds_name = name, rds_locked = False, rds_backend = [],
      rds_allow_extra_fields = False, rds_dimensions = ''dims'', rds_float_facts = [],
      rds_string_facts = [], rds_text_facts = [], rds_timestamp_facts = [], rds_image_facts = [],
      rds_file_facts = [], rds_json_facts = [], rds_boolean_facts = [], rds_consumers = [],
      rds_data_points = [], rds_history_data_points = [], rds_data_points_bulk = [],
      rds_data_point_validate_external_ids = [], rds_cube_sql = [], rds_create_view = [],
      rds_prune_history = [], rds_truncate = [], rds_permission_user = [],
      rds_permission_group = ''groups'', rds_data_point_structure = [], rds_prune_meta_model = None,
      rds_indexes = None, rds_extra_config = []\<rparr>"

definition sample_converters :: converters where
  "sample_converters =
     \<lparr>RawDataSeries_from_dict = (\<lambda>v. rbind (as_str v) (\<lambda>s. Inr (sample_raw_series s))),
      RawFact_from_dict = (\<lambda>_ _. Inl TypeError),
      RawDimension_from_dict = (\<lambda>v. rbind (as_str v) (\<lambda>s. Inr
        \<lparr>rdim_url = [], rdim_id = [], rdim_point_in_time = [], rdim_last_modified_at = [],
         rdim_name = [], rdim_optional = False, rdim_external_id = ''to'', rdim_reference = s\<rparr>)),
      RawConsumer_from_dict = (\<lambda>_. Inl TypeError), RawIndex_from_dict = (\<lambda>_. Inl TypeError),
      RawGroupPermissionsOnObject_from_dict = (\<lambda>_. Inl TypeError),
      RawEngine_from_dict = (\<lambda>_. Inl TypeError), RawEngineSecret_from_dict = (\<lambda>_. Inl TypeError),
      RawHttpEndpoint_from_dict = (\<lambda>_. Inl TypeError), RawGroup_from_dict = (\<lambda>_. Inl TypeError),
      RawGroupPermissions_from_dict = (\<lambda>_. Inl TypeError), RawDataPoint_from_dict = (\<lambda>_. Inl TypeError),
      DataSeriesDefinition_from_dict = (\<lambda>_. Inl TypeError),
      EngineDefinition_from_dict = (\<lambda>_. Inl TypeError),
      HttpEndpointDefinition_from_dict = (\<lambda>_. Inl TypeError),
      GroupDefinition_from_dict = (\<lambda>_. Inl TypeError)\<rparr>"

definition sample_pylib :: pylib where
  "sample_pylib = \<lparr>json_dumps = (\<lambda>_. Inr []), py_str = (\<lambda>_. []), isoformat = (\<lambda>_. []),
     fullmatch = (\<lambda>_ _. Inr True), guess_type = (\<lambda>_. Inr None)\<rparr>"

text \<open>
  An instance, mocked as the repository's tests do, that lists two data series on two pages, both
  with a dimension that refers to the first.
\<close>

definition sample_responses :: pyval where
  "sample_responses = PDict [([], PDict [(''get'', PDict
     [(''/api/dataseries/dataseries/'', PDict [(''results'', PList [PStr ''a'']), (''next'', PStr ''/2'')]),
      (''/2'', PDict [(''results'', PList [PStr ''b'']), (''next'', PNone)]),
      (''groups'', PDict [(''results'', PList []), (''next'', PNone)]),
      (''dims'', PList [PStr ''/a'']), ([], PList [])])])]"

definition sample_client :: "unit APIClient" where
  "sample_client =
     (case MockRestClient \<lparr>base_url = [], user = [], password = []\<rparr> sample_responses of Inr client \<Rightarrow> client)"

lemma sample_client_mock:
  "MockRestClient \<lparr>base_url = [], user = [], password = []\<rparr> sample_responses = Inr sample_client"
  by (simp add: sample_client_def MockRestClient_def sample_responses_def py_index_def dict_index_def)

lemma sample_client_steady: "\<exists>answer. \<forall>url w. fst (client_get sample_client url w) = answer url"
  using MockRestClient_steady [OF sample_client_mock] by (auto simp: steady_def gives_def)

definition sample_fetch :: "DataSeriesDefinition list result" where
  "sample_fetch = fst (fetch_data_series 2 sample_client sample_converters sample_pylib [] None None ())"

lemma sample_fetch_returns:
  "(case sample_fetch of Inl _ \<Rightarrow> [] | Inr defs \<Rightarrow>
     map (\<lambda>d. (ds_external_id (dsd_data_series d), map dim_reference (st_dimensions (dsd_structure d)))) defs) =
   [(''a'', [''a'']), (''b'', [''a''])]"
  by code_simp

theorem fetch_describes_server_witness:
  "\<exists>defs answer raws. sample_fetch = Inr defs \<and> length defs = 2 \<and>
     listed_series 2 sample_client answer sample_converters None = Inr raws \<and>
     list_all2 (describes_series 2 answer sample_converters [] raws) raws defs"
proof -
  define found where "found = sample_fetch"
  from sample_fetch_returns obtain defs where "found = Inr defs" and "length defs = 2"
    unfolding found_def [symmetric] by (cases found) auto
  then have defs: "sample_fetch = Inr defs" and "length defs = 2" by (simp_all add: found_def)
  obtain answer where "\<And>url w. fst (client_get sample_client url w) = answer url"
    using sample_client_steady by blast
  from fetch_describes_server [OF this, of 2 sample_converters sample_pylib "[]" None None "()" defs] defs
  have "\<exists>raws. listed_series 2 sample_client answer sample_converters None = Inr raws \<and>
      list_all2 (describes_series 2 answer sample_converters [] raws) raws defs"
    by (simp add: sample_fetch_def picked_def)
  with defs \<open>length defs = 2\<close> show ?thesis by blast
qed

end
