(* ===== verification/Client_Pusher.thy ===== *)
theory Client_Pusher
  imports Client_Fetcher
begin

text \<open>
  \<open>service/pusher.py\<close>: applying diffs to an instance through an \<open>APIClient\<close>. The pushers send
  their requests in an order that lets the server check each of them: what is deleted goes first
  and from the leaves up, what is created goes from the data series down.
\<close>

definition base_path_data_series :: string where
  "base_path_data_series = ''/api/dataseries/by-external-id/dataseries/''"

definition structure_type_to_path_elem :: "(string \<times> string) list" where
  "structure_type_to_path_elem =
     [(''float_facts'', ''floatfact''), (''string_facts'', ''stringfact''),
      (''text_facts'', ''textfact''), (''timestamp_facts'', ''timestampfact''),
      (''image_facts'', ''imagefact''), (''file_facts'', ''filefact''),
      (''json_facts'', ''jsonfact''), (''boolean_facts'', ''booleanfact''),
      (''dimensions'', ''dimension'')]"

text \<open>\<open>structure_ops_by_operation_type[t]\<close> after the grouping loop.\<close>

definition structure_ops_by_operation_type ::
  "OperationType \<Rightarrow> DataSeriesStructureDiff \<Rightarrow> (string \<times> ExternalIdOperation) list" where
  "structure_ops_by_operation_type t structure_diff =
     concat (map (\<lambda>(key, elems). map (\<lambda>elem. (key, elem))
       (filter (\<lambda>elem. eio_operation_type elem = t) elems)) (structure_diff_items structure_diff))"

definition ops_by_operation_type :: "OperationType \<Rightarrow> ExternalIdOperation list \<Rightarrow> ExternalIdOperation list" where
  "ops_by_operation_type t data = filter (\<lambda>elem. eio_operation_type elem = t) data"

section \<open>DataSeriesDefinitionDiffPusher\<close>

definition delete_structure_elements ::
  "'w APIClient \<Rightarrow> DataSeriesStructureDiff \<Rightarrow> string \<Rightarrow> ('w, unit) api" where
  "delete_structure_elements client structure_diff ds_id =
     api_for (\<lambda>(type, del_op).
       api_bind (api_lift (dict_index structure_type_to_path_elem type)) (\<lambda>path_elem.
       client_delete client (client_url client (base_path_data_series @ ds_id @ ''/'' @
         path_elem @ ''/'' @ eio_external_id del_op @ ''/''))))
       (structure_ops_by_operation_type DELETE structure_diff)"

definition simple_child_migrate_delete ::
  "'w APIClient \<Rightarrow> string \<Rightarrow> string \<Rightarrow> ExternalIdOperation list \<Rightarrow> ('w, unit) api" where
  "simple_child_migrate_delete client ds_id child_type data =
     api_for (\<lambda>del_op.
       client_delete client (client_url client (base_path_data_series @ ds_id @ ''/'' @
         child_type @ ''/'' @ eio_external_id del_op @ ''/'')))
       (ops_by_operation_type DELETE data)"

definition simple_child_migrate_create_update ::
  "'w APIClient \<Rightarrow> string \<Rightarrow> string \<Rightarrow> ExternalIdOperation list \<Rightarrow> ('w, unit) api" where
  "simple_child_migrate_create_update client ds_id child_type data =
     api_bind (api_for (\<lambda>create_op.
       api_ignore (client_post client (client_url client (base_path_data_series @ ds_id @ ''/'' @
         child_type @ ''/'')) (PDict (eio_payload create_op))))
       (ops_by_operation_type CREATE data)) (\<lambda>_.
     api_for (\<lambda>update_op.
       api_ignore (client_patch client (client_url client (base_path_data_series @ ds_id @ ''/'' @
         child_type @ ''/'' @ eio_external_id update_op @ ''/'')) (PDict (eio_payload update_op))))
       (ops_by_operation_type UPDATE data))"

definition delete_consumers ::
  "'w APIClient \<Rightarrow> string \<Rightarrow> ExternalIdOperation list \<Rightarrow> ('w, unit) api" where
  "delete_consumers client ds_id data =
     simple_child_migrate_delete client ds_id ''consumer'' data"

definition create_update_consumers ::
  "'w APIClient \<Rightarrow> string \<Rightarrow> ExternalIdOperation list \<Rightarrow> ('w, unit) api" where
  "create_update_consumers client ds_id data =
     simple_child_migrate_create_update client ds_id ''consumer'' data"

text \<open>Indexes are only touched where the instance has an index endpoint.\<close>

definition delete_indexes ::
  "'w APIClient \<Rightarrow> string \<Rightarrow> ExternalIdOperation list \<Rightarrow> ('w, unit) api" where
  "delete_indexes client ds_id data =
     api_bind (client_get client (client_url client (base_path_data_series @ ds_id @ ''/''))) (\<lambda>ds_json.
     api_bind (api_lift (py_in ''indexes'' ds_json)) (\<lambda>present.
     if present then simple_child_migrate_delete client ds_id ''index'' data
     else api_return ()))"

definition create_update_indexes ::
  "'w APIClient \<Rightarrow> string \<Rightarrow> ExternalIdOperation list \<Rightarrow> ('w, unit) api" where
  "create_update_indexes client ds_id data =
     api_bind (client_get client (client_url client (base_path_data_series @ ds_id @ ''/''))) (\<lambda>ds_json.
     api_bind (api_lift (py_in ''indexes'' ds_json)) (\<lambda>present.
     if present then simple_child_migrate_create_update client ds_id ''index'' data
     else api_return ()))"

text \<open>
  \<open>d[v]\<close> for a dictionary with string keys and a value \<open>v\<close>, and the assignment
  \<open>_payload[key] = lookup[_payload[key]]\<close>.
\<close>

definition index_by_value :: "(string \<times> 'v) list \<Rightarrow> pyval \<Rightarrow> 'v result" where
  "index_by_value d v =
     (case v of
        PStr s \<Rightarrow> dict_index d s
      | PList _ \<Rightarrow> Inl TypeError
      | PDict _ \<Rightarrow> Inl TypeError
      | _ \<Rightarrow> Inl (KeyError ''''))"

definition resolve_reference :: "string \<Rightarrow> (EXTERNAL_ID \<times> REST_URL) list \<Rightarrow> pydict \<Rightarrow> pydict result" where
  "resolve_reference key lookup payload =
     rbind (dict_index payload key) (\<lambda>v.
     rbind (index_by_value lookup v) (\<lambda>url.
     Inr (AList.update key (PStr url) payload)))"

definition create_update_structure_elements ::
  "'w APIClient \<Rightarrow> DataSeriesStructureDiff \<Rightarrow> string \<Rightarrow> (EXTERNAL_ID \<times> REST_URL) list \<Rightarrow> ('w, unit) api" where
  "create_update_structure_elements client structure_diff ds_id ds_url_by_external_id =
     (let payload_of = (\<lambda>type operation.
            if type = ''dimensions''
            then resolve_reference ''reference'' ds_url_by_external_id (eio_payload operation)
            else Inr (eio_payload operation)) in
     api_bind (api_for (\<lambda>(type, create_op).
       api_bind (api_lift (dict_index structure_type_to_path_elem type)) (\<lambda>path_elem.
       api_bind (api_lift (payload_of type create_op)) (\<lambda>payload.
       api_ignore (client_post client (client_url client (base_path_data_series @ ds_id @ ''/'' @
         path_elem @ ''/'')) (PDict payload)))))
       (structure_ops_by_operation_type CREATE structure_diff)) (\<lambda>_.
     api_for (\<lambda>(type, update_op).
       api_bind (api_lift (dict_index structure_type_to_path_elem type)) (\<lambda>path_elem.
       api_bind (api_lift (payload_of type update_op)) (\<lambda>payload.
       api_ignore (client_patch client (client_url client (base_path_data_series @ ds_id @ ''/'' @
         path_elem @ ''/'' @ eio_external_id update_op @ ''/'')) (PDict payload)))))
       (structure_ops_by_operation_type UPDATE structure_diff)))"

definition delete_bare_data_series :: "'w APIClient \<Rightarrow> ExternalIdOperation list \<Rightarrow> ('w, unit) api" where
  "delete_bare_data_series client ops =
     api_for (\<lambda>del_op. client_delete client
       (client_url client (base_path_data_series @ eio_external_id del_op @ ''/'')))
       (ops_by_operation_type DELETE ops)"

definition upsert_bare_data_series ::
  "'w APIClient \<Rightarrow> converters \<Rightarrow> ExternalIdOperation list \<Rightarrow> ('w, (EXTERNAL_ID \<times> REST_URL) list) api" where
  "upsert_bare_data_series client cv ops =
     api_bind (api_map (\<lambda>create_op.
       api_bind (client_post client (client_url client ''/api/dataseries/dataseries/'')
         (PDict (eio_payload create_op))) (\<lambda>res_json.
       api_lift (RawDataSeries_from_dict cv res_json))) (ops_by_operation_type CREATE ops)) (\<lambda>created.
     api_bind (api_map (\<lambda>update_op.
       api_bind (client_patch client
         (client_url client (base_path_data_series @ eio_external_id update_op @ ''/''))
         (PDict (eio_payload update_op))) (\<lambda>res_json.
       api_lift (RawDataSeries_from_dict cv res_json))) (ops_by_operation_type UPDATE ops)) (\<lambda>updated.
     api_return (dict_comp rds_external_id rds_url (created @ updated))))"

definition migrate_bare_data_series ::
  "'w APIClient \<Rightarrow> converters \<Rightarrow> DataSeriesDefinitionDiff list \<Rightarrow> ('w, (EXTERNAL_ID \<times> REST_URL) list) api"
where
  "migrate_bare_data_series client cv diffs =
     (let ops = List.map_filter dd_data_series diffs in
      api_bind (delete_bare_data_series client ops) (\<lambda>_. upsert_bare_data_series client cv ops))"

definition has_operation :: "OperationType \<Rightarrow> DataSeriesDefinitionDiff \<Rightarrow> bool" where
  "has_operation t diff =
     (case dd_data_series diff of None \<Rightarrow> False | Some operation \<Rightarrow> eio_operation_type operation = t)"

definition push_deletions :: "'w APIClient \<Rightarrow> DataSeriesDefinitionDiff list \<Rightarrow> ('w, unit) api" where
  "push_deletions client data =
     api_for (\<lambda>diff. api_when (\<not> has_operation CREATE diff)
       (api_bind (delete_indexes client (dd_external_id diff) (dd_indexes diff)) (\<lambda>_.
        api_bind (delete_structure_elements client (dd_structure diff) (dd_external_id diff)) (\<lambda>_.
        delete_consumers client (dd_external_id diff) (dd_consumers diff))))) data"

definition push_children ::
  "'w APIClient \<Rightarrow> DataSeriesDefinitionDiff list \<Rightarrow> (EXTERNAL_ID \<times> REST_URL) list \<Rightarrow> ('w, unit) api" where
  "push_children client data ds_url_by_external_id =
     api_for (\<lambda>diff. api_when (\<not> has_operation DELETE diff)
       (api_bind (create_update_structure_elements client (dd_structure diff) (dd_external_id diff)
                    ds_url_by_external_id) (\<lambda>_.
        api_bind (create_update_consumers client (dd_external_id diff) (dd_consumers diff)) (\<lambda>_.
        create_update_indexes client (dd_external_id diff) (dd_indexes diff))))) data"

definition read_group_ids :: "nat \<Rightarrow> 'w APIClient \<Rightarrow> converters \<Rightarrow> ('w, (string \<times> int option) list) api" where
  "read_group_ids fuel client cv =
     api_bind (read_paginated_all fuel client (client_url client ''/api/common/auth/group/'')
       (RawGroup_from_dict cv) ''results'') (\<lambda>all_groups.
     api_return (dict_comp rg_name rg_id all_groups))"

text \<open>
  One permission change on the object at \<open>url\<close>: nothing for a deletion, a \<open>PUT\<close> otherwise. The
  data series pusher builds the URL with \<open>client.url\<close>, the other two from the object's own URL.
\<close>

definition push_permission ::
  "'w APIClient \<Rightarrow> string \<Rightarrow> (string \<times> int option) list \<Rightarrow> NameOperation \<Rightarrow> ('w, unit) api" where
  "push_permission client url group_id_by_name permission_change =
     (case no_operation_type permission_change of
        DELETE \<Rightarrow> api_return ()
      | _ \<Rightarrow>
        api_bind (api_lift (dict_index group_id_by_name (no_name permission_change))) (\<lambda>group_id.
        api_ignore (client_put client (url @ ''permission/group/'' @ fmt_optional_int group_id @ ''/'')
          (PDict (no_payload permission_change)))))"

definition push_group_permissions ::
  "'w APIClient \<Rightarrow> DataSeriesDefinitionDiff list \<Rightarrow> (string \<times> int option) list \<Rightarrow> ('w, unit) api" where
  "push_group_permissions client data group_id_by_name =
     api_for (\<lambda>diff. api_for (\<lambda>permission_change.
       case no_operation_type permission_change of
         DELETE \<Rightarrow> api_return ()
       | _ \<Rightarrow>
         api_bind (api_lift (dict_index group_id_by_name (no_name permission_change))) (\<lambda>group_id.
         api_ignore (client_put client (client_url client (base_path_data_series @ dd_external_id diff @
             ''/permission/group/'' @ fmt_optional_int group_id @ ''/''))
           (PDict (no_payload permission_change))))) (dd_group_permissions diff)) data"

definition push_data_series ::
  "nat \<Rightarrow> 'w APIClient \<Rightarrow> converters \<Rightarrow> DataSeriesDefinitionDiff list \<Rightarrow> ('w, unit) api" where
  "push_data_series fuel client cv data =
     api_bind (push_deletions client data) (\<lambda>_.
     api_bind (migrate_bare_data_series client cv data) (\<lambda>_.
     api_bind (read_paginated_all fuel client (client_url client ''/api/dataseries/dataseries/'')
                 (RawDataSeries_from_dict cv) ''results'') (\<lambda>all_raw_data_series.
     api_bind (push_children client data (dict_comp rds_external_id rds_url all_raw_data_series)) (\<lambda>_.
     api_bind (read_group_ids fuel client cv) (\<lambda>group_id_by_name.
     push_group_permissions client data group_id_by_name)))))"

section \<open>EngineDefinitionDiffPusher, HttpEndpointDefinitionDiffPusher, GroupDefinitionDiffPusher\<close>

text \<open>\<open>client.get(client.url(path))['results'][0]\<close>, then a key of it as a URL.\<close>

definition get_first :: "'w APIClient \<Rightarrow> string \<Rightarrow> ('w, pyval) api" where
  "get_first client path =
     api_bind (client_get client (client_url client path)) (\<lambda>json.
     api_lift (rbind (py_index json ''results'') (\<lambda>results.
       case results of
         PList (x # xs) \<Rightarrow> Inr x
       | PList [] \<Rightarrow> Inl IndexError
       | PStr (c # cs) \<Rightarrow> Inr (PStr [c])
       | PStr [] \<Rightarrow> Inl IndexError
       | PDict _ \<Rightarrow> Inl (KeyError ''0'')
       | _ \<Rightarrow> Inl TypeError)))"

definition url_at :: "('w, pyval) api \<Rightarrow> string \<Rightarrow> ('w, string) api" where
  "url_at m key = api_bind m (\<lambda>json. api_lift (rbind (py_index json key) as_str))"

definition get_engine :: "'w APIClient \<Rightarrow> string \<Rightarrow> ('w, pyval) api" where
  "get_engine client external_id =
     get_first client (''/api/flow/engine/?'' @ urlencode ''external_id'' external_id)"

definition when_op :: "('o \<Rightarrow> OperationType) \<Rightarrow> OperationType \<Rightarrow> 'o option \<Rightarrow> ('o \<Rightarrow> ('w, unit) api) \<Rightarrow> ('w, unit) api" where
  "when_op type_of t operation m =
     (case operation of None \<Rightarrow> api_return () | Some x \<Rightarrow> api_when (type_of x = t) (m x))"

definition push_engine ::
  "'w APIClient \<Rightarrow> (string \<times> int option) list \<Rightarrow> EngineDefinitionDiff \<Rightarrow> ('w, unit) api" where
  "push_engine client group_id_by_name elem =
     (let engine_url = url_at (get_engine client (edd_external_id elem)) ''url'';
          secret_url = url_at (get_engine client (edd_external_id elem)) ''secret'';
          engine_deleted = (\<exists>x \<in> set_option (edd_engine elem). eio_operation_type x = DELETE);
          put_secret = (\<lambda>x. api_bind secret_url (\<lambda>url.
            api_ignore (client_put client url (PDict (op_payload x))))) in
     api_bind (when_op op_operation_type DELETE (edd_secret elem) (\<lambda>_.
       api_bind secret_url (client_delete client))) (\<lambda>_.
     api_bind (when_op eio_operation_type DELETE (edd_engine elem) (\<lambda>_.
       api_bind engine_url (\<lambda>url. client_delete client (url @ ''?cascade_delete'')))) (\<lambda>_.
     api_bind (when_op eio_operation_type CREATE (edd_engine elem) (\<lambda>x.
       api_ignore (client_post client (client_url client ''/api/flow/engine/'') (PDict (eio_payload x))))) (\<lambda>_.
     api_bind (when_op eio_operation_type UPDATE (edd_engine elem) (\<lambda>x.
       api_bind engine_url (\<lambda>url. api_ignore (client_patch client url (PDict (eio_payload x)))))) (\<lambda>_.
     api_bind (when_op op_operation_type CREATE (edd_secret elem) put_secret) (\<lambda>_.
     api_bind (when_op op_operation_type UPDATE (edd_secret elem) put_secret) (\<lambda>_.
     api_when (\<not> engine_deleted)
       (api_bind engine_url (\<lambda>url.
        api_for (push_permission client url group_id_by_name) (edd_group_permissions elem))))))))))"

definition push_engines ::
  "nat \<Rightarrow> 'w APIClient \<Rightarrow> converters \<Rightarrow> EngineDefinitionDiff list \<Rightarrow> ('w, unit) api" where
  "push_engines fuel client cv data =
     api_bind (read_group_ids fuel client cv) (\<lambda>group_id_by_name.
     api_for (push_engine client group_id_by_name) data)"

definition get_http_endpoint :: "'w APIClient \<Rightarrow> string \<Rightarrow> ('w, pyval) api" where
  "get_http_endpoint client external_id =
     get_first client (''/api/flow/httpendpoint/?'' @ urlencode ''external_id'' external_id)"

definition push_http_endpoint ::
  "'w APIClient \<Rightarrow> (string \<times> int option) list \<Rightarrow> (EXTERNAL_ID \<times> REST_URL) list \<Rightarrow>
     HttpEndpointDefinitionDiff \<Rightarrow> ('w, unit) api" where
  "push_http_endpoint client group_id_by_name engine_url_by_external_id elem =
     (let endpoint_url = url_at (get_http_endpoint client (hdd_external_id elem)) ''url'';
          endpoint_deleted = (\<exists>x \<in> set_option (hdd_http_endpoint elem). eio_operation_type x = DELETE);
          payload_of = (\<lambda>x. api_lift (resolve_reference ''engine'' engine_url_by_external_id (eio_payload x))) in
     api_bind (when_op eio_operation_type DELETE (hdd_http_endpoint elem) (\<lambda>_.
       api_bind endpoint_url (client_delete client))) (\<lambda>_.
     api_bind (when_op eio_operation_type CREATE (hdd_http_endpoint elem) (\<lambda>x.
       api_bind (payload_of x) (\<lambda>payload.
       api_ignore (client_post client (client_url client ''/api/flow/httpendpoint/'') (PDict payload))))) (\<lambda>_.
     api_bind (when_op eio_operation_type UPDATE (hdd_http_endpoint elem) (\<lambda>x.
       api_bind (payload_of x) (\<lambda>payload.
       api_bind endpoint_url (\<lambda>url.
       api_ignore (client_patch client url (PDict payload)))))) (\<lambda>_.
     api_when (\<not> endpoint_deleted)
       (api_bind endpoint_url (\<lambda>url.
        api_for (push_permission client url group_id_by_name) (hdd_group_permissions elem)))))))"

definition push_http_endpoints ::
  "nat \<Rightarrow> 'w APIClient \<Rightarrow> converters \<Rightarrow> HttpEndpointDefinitionDiff list \<Rightarrow> ('w, unit) api" where
  "push_http_endpoints fuel client cv data =
     api_bind (read_group_ids fuel client cv) (\<lambda>group_id_by_name.
     api_bind (read_paginated_all fuel client (client_url client ''/api/flow/engine/'')
       (RawEngine_from_dict cv) ''results'') (\<lambda>all_raw_engines.
     api_for (push_http_endpoint client group_id_by_name
       (dict_comp re_external_id re_url all_raw_engines)) data))"

definition get_group :: "'w APIClient \<Rightarrow> string \<Rightarrow> ('w, pyval) api" where
  "get_group client name =
     get_first client (''/api/common/auth/group/?'' @ urlencode ''name'' name)"

definition push_group :: "'w APIClient \<Rightarrow> GroupDefinitionDiff \<Rightarrow> ('w, unit) api" where
  "push_group client elem =
     (let group_url = url_at (get_group client (gdd_name elem)) ''url'';
          permissions_url = url_at (get_group client (gdd_name elem)) ''permissions'';
          put_permissions = (\<lambda>payload. api_bind permissions_url (\<lambda>url.
            api_ignore (client_put client url (PDict payload)))) in
     api_bind (when_op op_operation_type DELETE (gdd_group_permissions elem) (\<lambda>_.
       put_permissions [(''group_permissions'', PList [])])) (\<lambda>_.
     api_bind (when_op no_operation_type DELETE (gdd_group elem) (\<lambda>_.
       api_bind group_url (client_delete client))) (\<lambda>_.
     api_bind (when_op no_operation_type CREATE (gdd_group elem) (\<lambda>x.
       api_ignore (client_post client (client_url client ''/api/common/auth/group/'') (PDict (no_payload x))))) (\<lambda>_.
     api_bind (when_op no_operation_type UPDATE (gdd_group elem) (\<lambda>x.
       api_bind group_url (\<lambda>url. api_ignore (client_put client url (PDict (no_payload x)))))) (\<lambda>_.
     api_bind (when_op op_operation_type CREATE (gdd_group_permissions elem)
       (\<lambda>x. put_permissions (op_payload x))) (\<lambda>_.
     when_op op_operation_type UPDATE (gdd_group_permissions elem)
       (\<lambda>x. put_permissions (op_payload x))))))))"

definition push_groups :: "'w APIClient \<Rightarrow> GroupDefinitionDiff list \<Rightarrow> ('w, unit) api" where
  "push_groups client data = api_for (push_group client) data"

definition push_create_views ::
  "'w APIClient \<Rightarrow> (DataSeriesCreateViewSettings \<Rightarrow> pydict) \<Rightarrow> DataSeriesCreateViewOperation list \<Rightarrow> ('w, unit) api"
where
  "push_create_views client settings_to_dict data =
     api_for (\<lambda>operation. api_ignore (client_post client
       (client_url client (base_path_data_series @ cvo_data_series_external_id operation @ ''/createview/''))
       (PDict (settings_to_dict (cvo_settings operation))))) data"

section \<open>DataPointPusher\<close>

text \<open>
  \<open>chunks\<close> as its consumer sees it: the elements of each chunk and the exception it ends with
  (\<open>islice\<close> refuses a negative count after the first element was yielded).
\<close>

function chunks :: "int \<Rightarrow> 'a list \<Rightarrow> ('a list \<times> py_error option) list" where
  "chunks chunk_size [] = []"
| "chunks chunk_size (first # iterator) =
     (if chunk_size < 1 then [([first], Some (ValueError ''islice''))]
      else (first # take (nat (chunk_size - 1)) iterator, None) # chunks chunk_size (drop (nat (chunk_size - 1)) iterator))"
  by pat_completeness auto
termination by (relation "measure (\<lambda>(chunk_size, xs). length xs)") auto

definition guess_mime_type :: "pylib \<Rightarrow> string \<Rightarrow> pyval" where
  "guess_mime_type lib path =
     (case guess_type lib path of Inr (Some mime_type) \<Rightarrow> PStr mime_type | _ \<Rightarrow> PNone)"

text \<open>A tuple is a list; \<open>open_rb\<close> stands for \<open>open(path, 'rb')\<close>.\<close>

definition multipart_value ::
  "pylib \<Rightarrow> (string \<Rightarrow> pyval result) \<Rightarrow> string set \<Rightarrow> string set \<Rightarrow> string \<Rightarrow> pyval \<Rightarrow> pyval result" where
  "multipart_value lib open_rb file_like_facts json_facts key v =
     (if key \<in> file_like_facts then
        (case v of
           PStr path \<Rightarrow> rbind (open_rb path) (\<lambda>f. Inr (PList [v, f, guess_mime_type lib path]))
         | _ \<Rightarrow> Inr v)
      else if key \<in> json_facts then rbind (json_dumps lib v) (\<lambda>s. Inr (PList [PNone, PStr s]))
      else Inr (PList [PNone, PStr (py_str lib v)]))"

fun multipart_payload ::
  "pylib \<Rightarrow> (string \<Rightarrow> pyval result) \<Rightarrow> string set \<Rightarrow> string set \<Rightarrow> nat \<Rightarrow> pydict \<Rightarrow> pydict \<Rightarrow> pydict result" where
  "multipart_payload lib open_rb file_like_facts json_facts i [] files = Inr files"
| "multipart_payload lib open_rb file_like_facts json_facts i ((key, v) # payload) files =
     rbind (multipart_value lib open_rb file_like_facts json_facts key v) (\<lambda>v'.
     multipart_payload lib open_rb file_like_facts json_facts i payload
       (AList.update (''batch-'' @ nat_digits i @ ''.payload.'' @ key) v' files))"

fun multipart_batch ::
  "pylib \<Rightarrow> (string \<Rightarrow> pyval result) \<Rightarrow> string set \<Rightarrow> string set \<Rightarrow> nat \<Rightarrow> DataPoint list \<Rightarrow> pydict \<Rightarrow> pydict result" where
  "multipart_batch lib open_rb file_like_facts json_facts i [] files = Inr files"
| "multipart_batch lib open_rb file_like_facts json_facts i (elem # chunk) files =
     rbind (multipart_payload lib open_rb file_like_facts json_facts i (dp_payload elem)
       (AList.update (''batch-'' @ nat_digits i @ ''.identify_dimensions_by_external_id'')
          (PList [PNone, PBool (dp_identify_dimensions_by_external_id elem)])
       (AList.update (''batch-'' @ nat_digits i @ ''.external_id'')
          (PList [PNone, PStr (dp_external_id elem)]) files))) (\<lambda>files'.
     multipart_batch lib open_rb file_like_facts json_facts (Suc i) chunk files')"

definition push_chunk ::
  "'w APIClient \<Rightarrow> pylib \<Rightarrow> (string \<Rightarrow> pyval result) \<Rightarrow> (DataPoint \<Rightarrow> pydict) \<Rightarrow> string \<Rightarrow> bool \<Rightarrow>
     DataSeriesDefinition \<Rightarrow> DataPoint list \<times> py_error option \<Rightarrow> ('w, unit) api" where
  "push_chunk client lib open_rb to_dict data_series_external_id asynchronous def chunk =
     (let structure = dsd_structure def;
          file_like_facts = f_external_id ` set (st_file_facts structure @ st_image_facts structure);
          json_facts = f_external_id ` set (st_json_facts structure);
          ended = (case snd chunk of None \<Rightarrow> Inr () | Some e \<Rightarrow> Inl e);
          url = client_url client (base_path_data_series @ data_series_external_id @ ''/bulk/datapoint/'') in
      if st_file_facts structure @ st_image_facts structure \<noteq> [] then
        api_bind (api_lift (rbind (multipart_batch lib open_rb file_like_facts json_facts 0 (fst chunk) [])
          (\<lambda>files. rbind ended (\<lambda>_. Inr files)))) (\<lambda>files.
        api_ignore (client_post_multipart client url files))
      else
        api_bind (api_lift ended) (\<lambda>_.
        api_ignore (client_post client url (PDict
          [(''batch'', PList (map (\<lambda>x. PDict (to_dict x)) (fst chunk))), (''async'', PBool asynchronous)]))))"

text \<open>\<open>_dataseries_definitions\<close> is a part of the pusher's state beside that of its client.\<close>

type_synonym 'w pusher_state = "'w \<times> (string \<times> DataSeriesDefinition) list"

definition on_client :: "('w, 'a) api \<Rightarrow> ('w pusher_state, 'a) api" where
  "on_client m s = (case m (fst s) of (r, w') \<Rightarrow> (r, (w', snd s)))"

definition reset_caches :: "('w pusher_state, unit) api" where
  "reset_caches s = (Inr (), (fst s, []))"

definition pusher_definition ::
  "nat \<Rightarrow> 'w APIClient \<Rightarrow> converters \<Rightarrow> string \<Rightarrow> bool \<Rightarrow> ('w pusher_state, DataSeriesDefinition) api" where
  "pusher_definition fuel client cv data_series_external_id use_dataseries_definition_cache s =
     (let fetch = on_client (get_single_data_series_definition fuel client cv data_series_external_id [] True) in
      if \<not> use_dataseries_definition_cache then fetch s
      else case map_of (snd s) data_series_external_id of
        Some def \<Rightarrow> (Inr def, s)
      | None \<Rightarrow> api_bind fetch (\<lambda>def s'.
          (Inr def, (fst s', AList.update data_series_external_id def (snd s')))) s)"

definition push_data_points ::
  "nat \<Rightarrow> 'w APIClient \<Rightarrow> converters \<Rightarrow> pylib \<Rightarrow> (string \<Rightarrow> pyval result) \<Rightarrow> (DataPoint \<Rightarrow> pydict) \<Rightarrow>
     int \<Rightarrow> DataPoint list \<Rightarrow> string \<Rightarrow> bool \<Rightarrow> bool \<Rightarrow> ('w pusher_state, unit) api" where
  "push_data_points fuel client cv lib open_rb to_dict batch_size data data_series_external_id
       asynchronous use_dataseries_definition_cache =
     api_bind (pusher_definition fuel client cv data_series_external_id use_dataseries_definition_cache) (\<lambda>def.
     api_for (\<lambda>chunk. on_client
       (push_chunk client lib open_rb to_dict data_series_external_id asynchronous def chunk))
       (chunks batch_size data))"

section \<open>The requests of a push, in order\<close>

text \<open>What a push of data series has to write, given the answers it depends on.\<close>

definition writes :: "call list \<Rightarrow> call list" where
  "writes cs = filter (\<lambda>cl. call_method cl \<noteq> GET) cs"

definition child_deletes :: "'w APIClient \<Rightarrow> string \<Rightarrow> string \<Rightarrow> ExternalIdOperation list \<Rightarrow> call list" where
  "child_deletes client ds_id child_type ops =
     map (\<lambda>operation. Call HTTP_DELETE (client_url client (base_path_data_series @ ds_id @ ''/'' @ child_type @
       ''/'' @ eio_external_id operation @ ''/'')) NoBody) (ops_by_operation_type DELETE ops)"

definition child_upserts :: "'w APIClient \<Rightarrow> string \<Rightarrow> string \<Rightarrow> ExternalIdOperation list \<Rightarrow> call list" where
  "child_upserts client ds_id child_type ops =
     map (\<lambda>operation. Call POST (client_url client (base_path_data_series @ ds_id @ ''/'' @ child_type @ ''/''))
       (Json (PDict (eio_payload operation)))) (ops_by_operation_type CREATE ops) @
     map (\<lambda>operation. Call PATCH (client_url client (base_path_data_series @ ds_id @ ''/'' @ child_type @
       ''/'' @ eio_external_id operation @ ''/'')) (Json (PDict (eio_payload operation))))
       (ops_by_operation_type UPDATE ops)"

definition path_elem :: "string \<Rightarrow> string" where
  "path_elem type = the (map_of structure_type_to_path_elem type)"

definition structure_deletes :: "'w APIClient \<Rightarrow> string \<Rightarrow> DataSeriesStructureDiff \<Rightarrow> call list" where
  "structure_deletes client ds_id structure_diff =
     map (\<lambda>(type, operation). Call HTTP_DELETE (client_url client (base_path_data_series @ ds_id @ ''/'' @
       path_elem type @ ''/'' @ eio_external_id operation @ ''/'')) NoBody)
       (structure_ops_by_operation_type DELETE structure_diff)"

definition resolved_payload ::
  "(EXTERNAL_ID \<times> REST_URL) list \<Rightarrow> string \<Rightarrow> ExternalIdOperation \<Rightarrow> pydict" where
  "resolved_payload lookup type operation =
     (if type = ''dimensions''
      then case resolve_reference ''reference'' lookup (eio_payload operation) of Inr p \<Rightarrow> p | Inl _ \<Rightarrow> []
      else eio_payload operation)"

definition structure_upserts ::
  "'w APIClient \<Rightarrow> (EXTERNAL_ID \<times> REST_URL) list \<Rightarrow> string \<Rightarrow> DataSeriesStructureDiff \<Rightarrow> call list" where
  "structure_upserts client lookup ds_id structure_diff =
     map (\<lambda>(type, operation). Call POST (client_url client (base_path_data_series @ ds_id @ ''/'' @
       path_elem type @ ''/'')) (Json (PDict (resolved_payload lookup type operation))))
       (structure_ops_by_operation_type CREATE structure_diff) @
     map (\<lambda>(type, operation). Call PATCH (client_url client (base_path_data_series @ ds_id @ ''/'' @
       path_elem type @ ''/'' @ eio_external_id operation @ ''/''))
       (Json (PDict (resolved_payload lookup type operation))))
       (structure_ops_by_operation_type UPDATE structure_diff)"

definition diff_deletes :: "'w APIClient \<Rightarrow> DataSeriesDefinitionDiff \<Rightarrow> bool \<Rightarrow> call list" where
  "diff_deletes client diff has_indexes =
     (if has_operation CREATE diff then []
      else (if has_indexes then child_deletes client (dd_external_id diff) ''index'' (dd_indexes diff) else []) @
        structure_deletes client (dd_external_id diff) (dd_structure diff) @
        child_deletes client (dd_external_id diff) ''consumer'' (dd_consumers diff))"

definition diff_upserts ::
  "'w APIClient \<Rightarrow> (EXTERNAL_ID \<times> REST_URL) list \<Rightarrow> DataSeriesDefinitionDiff \<Rightarrow> bool \<Rightarrow> call list" where
  "diff_upserts client lookup diff has_indexes =
     (if has_operation DELETE diff then []
      else structure_upserts client lookup (dd_external_id diff) (dd_structure diff) @
        child_upserts client (dd_external_id diff) ''consumer'' (dd_consumers diff) @
        (if has_indexes then child_upserts client (dd_external_id diff) ''index'' (dd_indexes diff) else []))"

definition bare_series_calls :: "'w APIClient \<Rightarrow> DataSeriesDefinitionDiff list \<Rightarrow> call list" where
  "bare_series_calls client data =
     (let ops = List.map_filter dd_data_series data in
      map (\<lambda>operation. Call HTTP_DELETE (client_url client (base_path_data_series @ eio_external_id operation @ ''/''))
        NoBody) (ops_by_operation_type DELETE ops) @
      map (\<lambda>operation. Call POST (client_url client ''/api/dataseries/dataseries/'')
        (Json (PDict (eio_payload operation)))) (ops_by_operation_type CREATE ops) @
      map (\<lambda>operation. Call PATCH (client_url client (base_path_data_series @ eio_external_id operation @ ''/''))
        (Json (PDict (eio_payload operation)))) (ops_by_operation_type UPDATE ops))"

definition permission_calls ::
  "'w APIClient \<Rightarrow> (string \<times> int option) list \<Rightarrow> DataSeriesDefinitionDiff \<Rightarrow> call list" where
  "permission_calls client group_ids diff =
     map (\<lambda>change. Call PUT (client_url client (base_path_data_series @ dd_external_id diff @
         ''/permission/group/'' @ fmt_optional_int (the (map_of group_ids (no_name change))) @ ''/''))
       (Json (PDict (no_payload change))))
     (filter (\<lambda>change. no_operation_type change \<noteq> DELETE) (dd_group_permissions diff))"

text \<open>\<open>wrote trace w w' cs\<close>: between two states exactly \<open>cs\<close> was written.\<close>

definition wrote :: "('w \<Rightarrow> call list) \<Rightarrow> 'w \<Rightarrow> 'w \<Rightarrow> call list \<Rightarrow> bool" where
  "wrote trace w w' cs \<longleftrightarrow> writes (trace w') = writes (trace w) @ cs"

lemma writes_append [simp]: "writes (xs @ ys) = writes xs @ writes ys"
  by (simp add: writes_def)

lemma wrote_refl: "wrote trace w w []"
  by (simp add: wrote_def)

lemma wrote_trans: "wrote trace w w1 cs \<Longrightarrow> wrote trace w1 w2 ds \<Longrightarrow> wrote trace w w2 (cs @ ds)"
  by (simp add: wrote_def)

lemma wrote_nothing: "emits trace (calls_of {GET}) m \<Longrightarrow> m w = (r, w') \<Longrightarrow> wrote trace w w' []"
  by (drule emitsD) (auto simp: wrote_def writes_def calls_of_def filter_empty_conv)

lemma wrote_call:
  assumes "makes trace cl m" and "call_method cl \<noteq> GET" and "m w = (Inr y, w')"
  shows "wrote trace w w' [cl]"
proof -
  from assms have "trace w' = trace w @ [cl]" unfolding makes_def by fastforce
  with assms(2) show ?thesis by (simp add: wrote_def writes_def)
qed

lemma api_ignore_InrE:
  assumes "api_ignore m w = (Inr u, w')"
  obtains y where "m w = (Inr y, w')"
  using assms unfolding api_ignore_def by (elim api_bind_InrE) (auto simp: api_return_run)

lemma api_for_wrote:
  assumes "api_for f xs w = (Inr u, w')"
    and "\<And>x w u w'. x \<in> set xs \<Longrightarrow> f x w = (Inr u, w') \<Longrightarrow> wrote trace w w' (g x)"
  shows "wrote trace w w' (concat (map g xs))"
  using assms
proof (induction xs arbitrary: w)
  case Nil
  then show ?case by (simp add: api_return_run wrote_refl)
next
  case (Cons x xs)
  from Cons.prems(1) obtain w1 where "f x w = (Inr (), w1)" "api_for f xs w1 = (Inr (), w')"
    by (auto elim: api_bind_InrE)
  with Cons.IH Cons.prems(2) show ?case by (auto intro!: wrote_trans)
qed

lemma api_map_wrote:
  assumes "api_map f xs w = (Inr ys, w')"
    and "\<And>x y w w'. x \<in> set xs \<Longrightarrow> f x w = (Inr y, w') \<Longrightarrow> wrote trace w w' (g x)"
  shows "wrote trace w w' (concat (map g xs))"
  using assms
proof (induction xs arbitrary: w ys)
  case Nil
  then show ?case by (simp add: api_return_run wrote_refl)
next
  case (Cons x xs)
  from Cons.prems(1) obtain y w1 zs where "f x w = (Inr y, w1)" "api_map f xs w1 = (Inr zs, w')"
    by (auto elim!: api_bind_InrE simp: api_return_run)
  with Cons.IH Cons.prems(2) show ?case by (auto intro!: wrote_trans)
qed

text \<open>As \<open>api_for_wrote\<close>, when what a round writes depends on an answer of the server.\<close>

lemma api_for_wrote_some:
  assumes "api_for f xs w = (Inr u, w')"
    and "\<And>x w u w'. x \<in> set xs \<Longrightarrow> f x w = (Inr u, w') \<Longrightarrow> \<exists>b. wrote trace w w' (g x b)"
  shows "\<exists>bs. length bs = length xs \<and> wrote trace w w' (concat (map2 g xs bs))"
  using assms
proof (induction xs arbitrary: w)
  case Nil
  then show ?case by (simp add: api_return_run wrote_refl)
next
  case (Cons x xs)
  from Cons.prems(1) obtain w1 where run: "f x w = (Inr (), w1)" "api_for f xs w1 = (Inr (), w')"
    by (auto elim: api_bind_InrE)
  have "\<exists>bs. length bs = length xs \<and> wrote trace w1 w' (concat (map2 g xs bs))"
    by (rule Cons.IH) (use run Cons.prems(2) in auto)
  then obtain bs where "length bs = length xs" "wrote trace w1 w' (concat (map2 g xs bs))" by blast
  moreover from Cons.prems(2) [OF _ run(1)] obtain b where "wrote trace w w1 (g x b)" by auto
  ultimately show ?case by (intro exI [of _ "b # bs"]) (auto intro!: wrote_trans)
qed

text \<open>The common case of one write per round.\<close>

lemma api_for_wrote_map:
  assumes "api_for f xs w = (Inr u, w')"
    and "\<And>x w u w'. x \<in> set xs \<Longrightarrow> f x w = (Inr u, w') \<Longrightarrow> wrote trace w w' [g x]"
  shows "wrote trace w w' (map g xs)"
proof -
  have "concat (map (\<lambda>x. [g x]) xs) = map g xs" by (induction xs) auto
  with api_for_wrote [OF assms(1), of trace "\<lambda>x. [g x]"] assms(2) show ?thesis by simp
qed

lemma api_map_wrote_map:
  assumes "api_map f xs w = (Inr ys, w')"
    and "\<And>x y w w'. x \<in> set xs \<Longrightarrow> f x w = (Inr y, w') \<Longrightarrow> wrote trace w w' [g x]"
  shows "wrote trace w w' (map g xs)"
proof -
  have "concat (map (\<lambda>x. [g x]) xs) = map g xs" by (induction xs) auto
  with api_map_wrote [OF assms(1), of trace "\<lambda>x. [g x]"] assms(2) show ?thesis by simp
qed

lemma api_when_True: "\<not> b \<Longrightarrow> api_when (\<not> b) m = m"
  by (simp add: api_when_def)

lemma concat_unless:
  "concat (map (\<lambda>x. if P x then [] else [g x]) xs) = map g (filter (\<lambda>x. \<not> P x) xs)"
  by (induction xs) auto

lemma structure_ops_path:
  "(type, operation) \<in> set (structure_ops_by_operation_type t d) \<Longrightarrow>
    dict_index structure_type_to_path_elem type = Inr (path_elem type)"
  by (auto simp: structure_ops_by_operation_type_def structure_diff_items_def
      structure_type_to_path_elem_def path_elem_def)

lemma structure_round:
  assumes "(type, operation) \<in> set (structure_ops_by_operation_type t d)"
    and "api_bind (api_lift (dict_index structure_type_to_path_elem type)) (\<lambda>path.
        api_bind (api_lift
          (if type = ''dimensions'' then resolve_reference ''reference'' lookup (eio_payload operation)
           else Inr (eio_payload operation))) (f path)) w = (Inr u, w')"
  shows "f (path_elem type) (resolved_payload lookup type operation) w = (Inr u, w')"
  using assms(2)
  by (auto simp: api_lift_run structure_ops_path [OF assms(1)] resolved_payload_def
      elim!: api_bind_InrE split: if_splits)

context traced_client begin

lemma wrote_get: "client_get client url w = (r, w') \<Longrightarrow> wrote trace w w' []"
  by (rule wrote_nothing [OF emits_get]) simp_all

lemma wrote_delete: "client_delete client url w = (Inr u, w') \<Longrightarrow> wrote trace w w' [Call HTTP_DELETE url NoBody]"
  by (rule wrote_call [OF delete_makes]) simp_all

lemma wrote_post: "client_post client url data w = (Inr y, w') \<Longrightarrow> wrote trace w w' [Call POST url (Json data)]"
  by (rule wrote_call [OF post_makes]) simp_all

lemma wrote_patch: "client_patch client url data w = (Inr y, w') \<Longrightarrow> wrote trace w w' [Call PATCH url (Json data)]"
  by (rule wrote_call [OF patch_makes]) simp_all

lemma wrote_put: "client_put client url data w = (Inr y, w') \<Longrightarrow> wrote trace w w' [Call PUT url (Json data)]"
  by (rule wrote_call [OF put_makes]) simp_all

lemma wrote_read_paginated_all:
  "read_paginated_all fuel client url converter key w = (r, w') \<Longrightarrow> wrote trace w w' []"
  by (rule wrote_nothing [OF emits_read_paginated_all]) simp_all

lemma simple_child_migrate_delete_wrote:
  assumes "simple_child_migrate_delete client ds_id child_type ops w = (Inr u, w')"
  shows "wrote trace w w' (child_deletes client ds_id child_type ops)"
  unfolding child_deletes_def
  by (rule api_for_wrote_map [OF assms [unfolded simple_child_migrate_delete_def] wrote_delete])

lemma simple_child_migrate_create_update_wrote:
  assumes "simple_child_migrate_create_update client ds_id child_type ops w = (Inr u, w')"
  shows "wrote trace w w' (child_upserts client ds_id child_type ops)"
  using assms unfolding simple_child_migrate_create_update_def child_upserts_def
  by (elim api_bind_InrE, intro wrote_trans)
    ((erule api_for_wrote_map, erule api_ignore_InrE, (erule wrote_post | erule wrote_patch))+)

lemma delete_indexes_wrote:
  assumes "delete_indexes client ds_id ops w = (Inr u, w')"
  shows "\<exists>b. wrote trace w w' (if b then child_deletes client ds_id ''index'' ops else [])"
proof -
  from assms obtain json w1 b where "client_get client (client_url client (base_path_data_series @ ds_id @ ''/'')) w = (Inr json, w1)"
    and "(if b then simple_child_migrate_delete client ds_id ''index'' ops else api_return ()) w1 = (Inr u, w')"
    unfolding delete_indexes_def by (elim api_bind_InrE) (auto simp: api_lift_run)
  from wrote_trans [OF wrote_get [OF this(1)]] this(2) show ?thesis
    by (intro exI [of _ b]) (auto simp: api_return_run wrote_refl split: if_splits
        dest: simple_child_migrate_delete_wrote)
qed

lemma create_update_indexes_wrote:
  assumes "create_update_indexes client ds_id ops w = (Inr u, w')"
  shows "\<exists>b. wrote trace w w' (if b then child_upserts client ds_id ''index'' ops else [])"
proof -
  from assms obtain json w1 b where "client_get client (client_url client (base_path_data_series @ ds_id @ ''/'')) w = (Inr json, w1)"
    and "(if b then simple_child_migrate_create_update client ds_id ''index'' ops else api_return ()) w1 = (Inr u, w')"
    unfolding create_update_indexes_def by (elim api_bind_InrE) (auto simp: api_lift_run)
  from wrote_trans [OF wrote_get [OF this(1)]] this(2) show ?thesis
    by (intro exI [of _ b]) (auto simp: api_return_run wrote_refl split: if_splits
        dest: simple_child_migrate_create_update_wrote)
qed

lemma delete_structure_elements_wrote:
  assumes "delete_structure_elements client d ds_id w = (Inr u, w')"
  shows "wrote trace w w' (structure_deletes client ds_id d)"
  unfolding structure_deletes_def
  by (rule api_for_wrote_map [OF assms [unfolded delete_structure_elements_def]])
    (auto simp: api_lift_run structure_ops_path elim!: api_bind_InrE intro: wrote_delete)

lemma create_update_structure_elements_wrote:
  assumes "create_update_structure_elements client d ds_id lookup w = (Inr u, w')"
  shows "wrote trace w w' (structure_upserts client lookup ds_id d)"
  using assms unfolding create_update_structure_elements_def structure_upserts_def Let_def
  by (elim api_bind_InrE, intro wrote_trans)
    ((erule api_for_wrote_map, clarify, drule (1) structure_round, erule api_ignore_InrE,
      (erule wrote_post | erule wrote_patch))+)

lemma migrate_bare_data_series_wrote:
  assumes "migrate_bare_data_series client cv data w = (Inr res, w')"
  shows "wrote trace w w' (bare_series_calls client data)"
  using assms
  unfolding migrate_bare_data_series_def delete_bare_data_series_def upsert_bare_data_series_def
    bare_series_calls_def Let_def
  by (elim api_bind_InrE, simp only: api_return_run prod.inject, elim conjE, hypsubst, intro wrote_trans)
    ((erule api_for_wrote_map | erule api_map_wrote_map),
      auto simp: api_lift_run elim!: api_bind_InrE intro: wrote_post wrote_patch wrote_delete)+

lemma push_deletions_wrote:
  assumes "push_deletions client data w = (Inr u, w')"
  shows "\<exists>bs. length bs = length data \<and> wrote trace w w' (concat (map2 (diff_deletes client) data bs))"
proof (rule api_for_wrote_some [OF assms [unfolded push_deletions_def]])
  fix diff :: DataSeriesDefinitionDiff and w w' u
  assume run: "api_when (\<not> has_operation CREATE diff)
       (api_bind (delete_indexes client (dd_external_id diff) (dd_indexes diff)) (\<lambda>_.
        api_bind (delete_structure_elements client (dd_structure diff) (dd_external_id diff)) (\<lambda>_.
        delete_consumers client (dd_external_id diff) (dd_consumers diff)))) w = (Inr u, w')"
  show "\<exists>b. wrote trace w w' (diff_deletes client diff b)"
  proof (cases "has_operation CREATE diff")
    case True
    with run show ?thesis by (auto simp: api_when_def diff_deletes_def api_return_run wrote_refl)
  next
    case False
    from run obtain u1 w1 u2 w2 where runs:
      "delete_indexes client (dd_external_id diff) (dd_indexes diff) w = (Inr u1, w1)"
      "delete_structure_elements client (dd_structure diff) (dd_external_id diff) w1 = (Inr u2, w2)"
      "delete_consumers client (dd_external_id diff) (dd_consumers diff) w2 = (Inr u, w')"
      unfolding api_when_True [OF False] by (elim api_bind_InrE)
    from delete_indexes_wrote [OF runs(1)] obtain b where
      "wrote trace w w1 (if b then child_deletes client (dd_external_id diff) ''index'' (dd_indexes diff) else [])" ..
    from wrote_trans [OF this wrote_trans [OF delete_structure_elements_wrote [OF runs(2)]
      simple_child_migrate_delete_wrote [OF runs(3) [unfolded delete_consumers_def]]]]
    show ?thesis by (intro exI [of _ b]) (simp only: diff_deletes_def False if_False)
  qed
qed

lemma push_children_wrote:
  assumes "push_children client data lookup w = (Inr u, w')"
  shows "\<exists>bs. length bs = length data \<and> wrote trace w w' (concat (map2 (diff_upserts client lookup) data bs))"
proof (rule api_for_wrote_some [OF assms [unfolded push_children_def]])
  fix diff :: DataSeriesDefinitionDiff and w w' u
  assume run: "api_when (\<not> has_operation DELETE diff)
       (api_bind (create_update_structure_elements client (dd_structure diff) (dd_external_id diff) lookup) (\<lambda>_.
        api_bind (create_update_consumers client (dd_external_id diff) (dd_consumers diff)) (\<lambda>_.
        create_update_indexes client (dd_external_id diff) (dd_indexes diff)))) w = (Inr u, w')"
  show "\<exists>b. wrote trace w w' (diff_upserts client lookup diff b)"
  proof (cases "has_operation DELETE diff")
    case True
    with run show ?thesis by (auto simp: api_when_def diff_upserts_def api_return_run wrote_refl)
  next
    case False
    from run obtain u1 w1 u2 w2 where runs:
      "create_update_structure_elements client (dd_structure diff) (dd_external_id diff) lookup w = (Inr u1, w1)"
      "create_update_consumers client (dd_external_id diff) (dd_consumers diff) w1 = (Inr u2, w2)"
      "create_update_indexes client (dd_external_id diff) (dd_indexes diff) w2 = (Inr u, w')"
      unfolding api_when_True [OF False] by (elim api_bind_InrE)
    from create_update_indexes_wrote [OF runs(3)] obtain b where
      "wrote trace w2 w' (if b then child_upserts client (dd_external_id diff) ''index'' (dd_indexes diff) else [])" ..
    from wrote_trans [OF create_update_structure_elements_wrote [OF runs(1)]
      wrote_trans [OF simple_child_migrate_create_update_wrote [OF runs(2) [unfolded create_update_consumers_def]] this]]
    show ?thesis by (intro exI [of _ b]) (simp only: diff_upserts_def False if_False)
  qed
qed

lemma push_group_permissions_wrote:
  assumes "push_group_permissions client data group_ids w = (Inr u, w')"
  shows "wrote trace w w' (concat (map (permission_calls client group_ids) data))"
proof (rule api_for_wrote [OF assms [unfolded push_group_permissions_def]])
  fix diff :: DataSeriesDefinitionDiff and w w' u
  let ?round = "\<lambda>change. case no_operation_type change of
         DELETE \<Rightarrow> api_return ()
       | _ \<Rightarrow>
         api_bind (api_lift (dict_index group_ids (no_name change))) (\<lambda>group_id.
         api_ignore (client_put client (client_url client (base_path_data_series @ dd_external_id diff @
             ''/permission/group/'' @ fmt_optional_int group_id @ ''/''))
           (PDict (no_payload change))))"
  let ?call = "\<lambda>change. Call PUT (client_url client (base_path_data_series @ dd_external_id diff @
         ''/permission/group/'' @ fmt_optional_int (the (map_of group_ids (no_name change))) @ ''/''))
       (Json (PDict (no_payload change)))"
  assume run: "api_for ?round (dd_group_permissions diff) w = (Inr u, w')"
  have "wrote trace w w' (concat (map (\<lambda>change. if no_operation_type change = DELETE then []
      else [?call change]) (dd_group_permissions diff)))"
    by (rule api_for_wrote [OF run])
      (auto simp: api_return_run api_lift_run wrote_refl split: OperationType.splits
        elim!: api_bind_InrE api_ignore_InrE dest: wrote_put)
  then show "wrote trace w w' (permission_calls client group_ids diff)"
    by (simp only: permission_calls_def concat_unless)
qed

lemma push_data_series_wrote:
  assumes "push_data_series fuel client cv data w = (Inr u, w')"
  shows "\<exists>bs bs' lookup group_ids. length bs = length data \<and> length bs' = length data \<and>
    wrote trace w w' (concat (map2 (diff_deletes client) data bs) @ bare_series_calls client data @
      concat (map2 (diff_upserts client lookup) data bs') @
      concat (map (permission_calls client group_ids) data))"
proof -
  from assms obtain w1 w2 w3 w4 w5 u1 u4 res raws group_ids where runs:
    "push_deletions client data w = (Inr u1, w1)"
    "migrate_bare_data_series client cv data w1 = (Inr res, w2)"
    "read_paginated_all fuel client (client_url client ''/api/dataseries/dataseries/'')
       (RawDataSeries_from_dict cv) ''results'' w2 = (Inr raws, w3)"
    "push_children client data (dict_comp rds_external_id rds_url raws) w3 = (Inr u4, w4)"
    "read_group_ids fuel client cv w4 = (Inr group_ids, w5)"
    "push_group_permissions client data group_ids w5 = (Inr u, w')"
    unfolding push_data_series_def by (elim api_bind_InrE, blast)
  have groups: "wrote trace w4 w5 []"
    using runs(5) unfolding read_group_ids_def
    by (auto elim!: api_bind_InrE dest: wrote_read_paginated_all simp: api_return_run)
  from push_deletions_wrote [OF runs(1)] push_children_wrote [OF runs(4)] obtain bs bs' where
    bs: "length bs = length data" "wrote trace w w1 (concat (map2 (diff_deletes client) data bs))"
      "length bs' = length data" "wrote trace w3 w4 (concat (map2 (diff_upserts client (dict_comp rds_external_id rds_url raws)) data bs'))"
    by blast
  from wrote_trans [OF bs(2) wrote_trans [OF migrate_bare_data_series_wrote [OF runs(2)]
      wrote_trans [OF wrote_read_paginated_all [OF runs(3)] wrote_trans [OF bs(4)
        wrote_trans [OF groups push_group_permissions_wrote [OF runs(6)]]]]]] bs
  show ?thesis by (metis append_Nil)
qed

text \<open>Even when a push fails half way, nothing is deleted after the first creation or update.\<close>

lemma emits_simple_child_migrate_delete:
  "emits trace (calls_of {GET, HTTP_DELETE}) (simple_child_migrate_delete client ds_id child_type ops)"
  unfolding simple_child_migrate_delete_def by (intro emits_intros client_emits) simp

lemma emits_simple_child_migrate_create_update:
  "emits trace (calls_of {GET, POST, PATCH, PUT})
    (simple_child_migrate_create_update client ds_id child_type ops)"
  unfolding simple_child_migrate_create_update_def by (intro emits_intros client_emits) simp_all

lemma emits_push_deletions: "emits trace (calls_of {GET, HTTP_DELETE}) (push_deletions client data)"
  unfolding push_deletions_def delete_indexes_def delete_structure_elements_def delete_consumers_def
  by (intro emits_intros client_emits emits_simple_child_migrate_delete) simp_all

lemma emits_push_children:
  "emits trace (calls_of {GET, POST, PATCH, PUT}) (push_children client data lookup)"
  unfolding push_children_def create_update_structure_elements_def create_update_consumers_def
    create_update_indexes_def Let_def
  by (intro emits_intros client_emits emits_simple_child_migrate_create_update) simp_all

lemma emits_read_group_ids: "GET \<in> M \<Longrightarrow> emits trace (calls_of M) (read_group_ids fuel client cv)"
  unfolding read_group_ids_def by (intro emits_intros read_emits)

lemma emits_push_group_permissions:
  "emits trace (calls_of {GET, POST, PATCH, PUT}) (push_group_permissions client data group_ids)"
  unfolding push_group_permissions_def
  by (intro emits_for) (auto intro!: emits_intros client_emits split: OperationType.split)

lemma emits_upsert_bare:
  "emits trace (calls_of {GET, POST, PATCH, PUT}) (upsert_bare_data_series client cv ops)"
  unfolding upsert_bare_data_series_def by (intro emits_intros client_emits) simp_all

lemma emits_delete_bare: "emits trace (calls_of {GET, HTTP_DELETE}) (delete_bare_data_series client ops)"
  unfolding delete_bare_data_series_def by (intro emits_intros client_emits) simp_all

lemma push_data_series_phases:
  "emits_then trace (calls_of {GET, HTTP_DELETE}) (calls_of {GET, POST, PATCH, PUT})
    (push_data_series fuel client cv data)"
  unfolding push_data_series_def migrate_bare_data_series_def Let_def
  by (intro emits_then_split [OF emits_push_deletions] emits_then_continue emits_intros
      emits_then_split [OF emits_delete_bare] emits_then_second emits_upsert_bare read_emits
      emits_push_children emits_read_group_ids emits_push_group_permissions) simp_all

text \<open>Without a deletion among the operations, the other pushers never delete.\<close>

lemma emits_get_first: "GET \<in> M \<Longrightarrow> emits trace (calls_of M) (get_first client path)"
  unfolding get_first_def by (intro emits_intros client_emits) simp_all

lemma emits_url_at: "emits trace A m \<Longrightarrow> emits trace A (url_at m key)"
  unfolding url_at_def by (intro emits_intros)

lemma emits_when_op:
  "(\<And>x. operation = Some x \<Longrightarrow> type_of x = t \<Longrightarrow> emits trace A (m x)) \<Longrightarrow>
    emits trace A (when_op type_of t operation m)"
  unfolding when_op_def by (intro emits_intros) auto

lemma emits_push_permission:
  "PUT \<in> M \<Longrightarrow> emits trace (calls_of M) (push_permission client url group_ids change)"
  unfolding push_permission_def
  by (auto intro!: emits_intros client_emits split: OperationType.split)

lemma emits_push_engine:
  assumes "\<And>x. edd_engine elem = Some x \<Longrightarrow> eio_operation_type x \<noteq> DELETE"
    and "\<And>x. edd_secret elem = Some x \<Longrightarrow> op_operation_type x \<noteq> DELETE"
  shows "emits trace (calls_of {GET, POST, PATCH, PUT}) (push_engine client group_ids elem)"
  unfolding push_engine_def Let_def get_engine_def
  by (intro emits_intros emits_when_op emits_url_at emits_get_first emits_push_permission client_emits)
    (use assms in auto)

lemma emits_push_engines:
  assumes "\<And>elem x. elem \<in> set data \<Longrightarrow> edd_engine elem = Some x \<Longrightarrow> eio_operation_type x \<noteq> DELETE"
    and "\<And>elem x. elem \<in> set data \<Longrightarrow> edd_secret elem = Some x \<Longrightarrow> op_operation_type x \<noteq> DELETE"
  shows "emits trace (calls_of {GET, POST, PATCH, PUT}) (push_engines fuel client cv data)"
  unfolding push_engines_def
  by (intro emits_intros emits_read_group_ids emits_push_engine) (use assms in auto)

lemma emits_push_http_endpoint:
  assumes "\<And>x. hdd_http_endpoint elem = Some x \<Longrightarrow> eio_operation_type x \<noteq> DELETE"
  shows "emits trace (calls_of {GET, POST, PATCH, PUT}) (push_http_endpoint client group_ids lookup elem)"
  unfolding push_http_endpoint_def Let_def get_http_endpoint_def
  by (intro emits_intros emits_when_op emits_url_at emits_get_first emits_push_permission client_emits)
    (use assms in auto)

lemma emits_push_http_endpoints:
  assumes "\<And>elem x. elem \<in> set data \<Longrightarrow> hdd_http_endpoint elem = Some x \<Longrightarrow> eio_operation_type x \<noteq> DELETE"
  shows "emits trace (calls_of {GET, POST, PATCH, PUT}) (push_http_endpoints fuel client cv data)"
  unfolding push_http_endpoints_def
  by (intro emits_intros emits_read_group_ids read_emits emits_push_http_endpoint) (use assms in auto)

lemma emits_push_group:
  assumes "\<And>x. gdd_group elem = Some x \<Longrightarrow> no_operation_type x \<noteq> DELETE"
  shows "emits trace (calls_of {GET, POST, PATCH, PUT}) (push_group client elem)"
  unfolding push_group_def Let_def get_group_def
  by (intro emits_intros emits_when_op emits_url_at emits_get_first client_emits) (use assms in auto)

lemma emits_push_groups:
  assumes "\<And>elem x. elem \<in> set data \<Longrightarrow> gdd_group elem = Some x \<Longrightarrow> no_operation_type x \<noteq> DELETE"
  shows "emits trace (calls_of {GET, POST, PATCH, PUT}) (push_groups client data)"
  unfolding push_groups_def by (intro emits_intros emits_push_group) (use assms in auto)

lemma wrote_post_multipart:
  "client_post_multipart client url files w = (Inr y, w') \<Longrightarrow> wrote trace w w' [Call POST url (Files files)]"
  by (rule wrote_call [OF post_multipart_makes]) simp_all

end

section \<open>Batches of data points\<close>

lemma chunks_concat: "1 \<le> n \<Longrightarrow> concat (map fst (chunks n xs)) = xs"
  by (induction n xs rule: chunks.induct) auto

lemma chunks_bounds:
  "1 \<le> n \<Longrightarrow> c \<in> set (chunks n xs) \<Longrightarrow> snd c = None \<and> fst c \<noteq> [] \<and> int (length (fst c)) \<le> n"
  by (induction n xs rule: chunks.induct) auto

lemma chunks_full:
  "1 \<le> n \<Longrightarrow> c \<in> set (butlast (chunks n xs)) \<Longrightarrow> int (length (fst c)) = n"
proof (induction n xs rule: chunks.induct)
  case (2 n x xs)
  show ?case
  proof (cases "drop (nat (n - 1)) xs = []")
    case True
    with 2 show ?thesis by simp
  next
    case False
    then have "chunks n (drop (nat (n - 1)) xs) \<noteq> []" by (cases "drop (nat (n - 1)) xs") auto
    with 2 False show ?thesis by (auto split: if_splits)
  qed
qed simp

definition bulk_call ::
  "'w APIClient \<Rightarrow> pylib \<Rightarrow> (string \<Rightarrow> pyval result) \<Rightarrow> (DataPoint \<Rightarrow> pydict) \<Rightarrow> string \<Rightarrow> bool \<Rightarrow>
     DataSeriesDefinition \<Rightarrow> DataPoint list \<Rightarrow> call" where
  "bulk_call client lib open_rb to_dict data_series_external_id asynchronous def points =
     (let structure = dsd_structure def;
          url = client_url client (base_path_data_series @ data_series_external_id @ ''/bulk/datapoint/'') in
      Call POST url
        (if st_file_facts structure @ st_image_facts structure \<noteq> [] then
           Files (projr (multipart_batch lib open_rb
             (f_external_id ` set (st_file_facts structure @ st_image_facts structure))
             (f_external_id ` set (st_json_facts structure)) 0 points []))
         else Json (PDict [(''batch'', PList (map (\<lambda>x. PDict (to_dict x)) points)),
                           (''async'', PBool asynchronous)])))"

lemma emits_on_client: "emits trace A m \<Longrightarrow> emits (trace \<circ> fst) A (on_client m)"
  by (fastforce simp: emits_def on_client_def split: prod.splits)

lemma wrote_on_client: "wrote (trace \<circ> fst) s s' cs \<longleftrightarrow> wrote trace (fst s) (fst s') cs"
  by (simp add: wrote_def)

text \<open>With a warm cache a push asks the server for nothing but the writes.\<close>

lemma pusher_definition_hit:
  "map_of (snd s) external_id = Some def \<Longrightarrow>
    pusher_definition fuel client cv external_id True s = (Inr def, s)"
  by (simp add: pusher_definition_def)

lemma pusher_definition_filled:
  "pusher_definition fuel client cv external_id True s = (Inr def, s') \<Longrightarrow>
    map_of (snd s') external_id = Some def"
  by (auto simp: pusher_definition_def api_bind_def dict_simps split: option.splits prod.splits sum.splits)

lemma push_chunk_multipart_async:
  "st_file_facts (dsd_structure def) @ st_image_facts (dsd_structure def) \<noteq> [] \<Longrightarrow>
    push_chunk client lib open_rb to_dict external_id True def chunk =
    push_chunk client lib open_rb to_dict external_id False def chunk"
  by (simp only: push_chunk_def Let_def if_True not_False_eq_True simp_thms)

context traced_client begin

lemma pusher_definition_wrote:
  "pusher_definition fuel client cv external_id use_cache s = (r, s') \<Longrightarrow> wrote trace (fst s) (fst s') []"
  by (auto simp: pusher_definition_def Let_def on_client_def api_bind_def wrote_refl
      intro: wrote_nothing [OF emits_get_single [of "{GET}" fuel cv external_id "[]" True]]
      split: if_splits option.splits prod.splits sum.splits)

lemma push_chunk_wrote:
  assumes "push_chunk client lib open_rb to_dict external_id asynchronous def chunk w = (Inr u, w')"
  shows "snd chunk = None \<and>
    wrote trace w w' [bulk_call client lib open_rb to_dict external_id asynchronous def (fst chunk)]"
proof (cases "st_file_facts (dsd_structure def) @ st_image_facts (dsd_structure def) = []")
  case True
  with assms obtain v w1 where ended: "(case snd chunk of None \<Rightarrow> Inr () | Some e \<Rightarrow> Inl e) = Inr v" "w1 = w"
    and "api_ignore (client_post client
        (client_url client (base_path_data_series @ external_id @ ''/bulk/datapoint/''))
        (PDict [(''batch'', PList (map (\<lambda>x. PDict (to_dict x)) (fst chunk))), (''async'', PBool asynchronous)]))
        w1 = (Inr u, w')"
    unfolding push_chunk_def Let_def
    by (simp only: if_False not_True_eq_False simp_thms) (elim api_bind_InrE, simp only: api_lift_run prod.inject)
  then show ?thesis
    unfolding bulk_call_def Let_def
    by (auto simp only: True simp_thms if_False elim!: api_ignore_InrE dest!: wrote_post split: option.splits)
next
  case False
  let ?files = "multipart_batch lib open_rb
     (f_external_id ` set (st_file_facts (dsd_structure def) @ st_image_facts (dsd_structure def)))
     (f_external_id ` set (st_json_facts (dsd_structure def))) 0 (fst chunk) []"
  from False assms obtain files w1 where
    ended: "rbind ?files (\<lambda>files. rbind (case snd chunk of None \<Rightarrow> Inr () | Some e \<Rightarrow> Inl e) (\<lambda>_. Inr files)) = Inr files" "w1 = w"
    and "api_ignore (client_post_multipart client
        (client_url client (base_path_data_series @ external_id @ ''/bulk/datapoint/'')) files) w1 = (Inr u, w')"
    unfolding push_chunk_def Let_def
    by (simp only: if_True not_False_eq_True simp_thms) (elim api_bind_InrE, simp only: api_lift_run prod.inject)
  moreover from ended have "?files = Inr files" "snd chunk = None"
    by (auto simp: rbind_Inr_iff split: option.splits)
  ultimately show ?thesis
    unfolding bulk_call_def Let_def
    by (auto simp only: False simp_thms if_True not_False_eq_True sum.sel elim!: api_ignore_InrE
        dest!: wrote_post_multipart)
qed

lemma push_data_points_wrote:
  assumes "push_data_points fuel client cv lib open_rb to_dict n data external_id asynchronous use_cache s = (Inr u, s')"
  shows "\<exists>def s1. pusher_definition fuel client cv external_id use_cache s = (Inr def, s1) \<and>
    wrote trace (fst s) (fst s') (map (\<lambda>c.
      bulk_call client lib open_rb to_dict external_id asynchronous def (fst c)) (chunks n data))"
proof -
  from assms obtain def s1 where def: "pusher_definition fuel client cv external_id use_cache s = (Inr def, s1)"
    and rest: "api_for (\<lambda>chunk. on_client (push_chunk client lib open_rb to_dict external_id asynchronous def chunk))
      (chunks n data) s1 = (Inr u, s')"
    unfolding push_data_points_def by (elim api_bind_InrE)
  have "wrote (trace \<circ> fst) s1 s' (map (\<lambda>c.
      bulk_call client lib open_rb to_dict external_id asynchronous def (fst c)) (chunks n data))"
    by (rule api_for_wrote_map [OF rest])
      (auto simp: on_client_def wrote_on_client dest!: push_chunk_wrote split: prod.splits)
  with wrote_trans [OF pusher_definition_wrote [OF def]] def show ?thesis
    by (fastforce simp: wrote_on_client)
qed

end

section \<open>Properties\<close>

text \<open>A push of data series works in two phases, whatever the server answers and also when it
  fails half way: first it reads and deletes, then it reads, creates, updates and sets
  permissions. Nothing is ever deleted after the first creation or update.\<close>

theorem push_deletes_first:
  "case push_data_series fuel (RequestsRestClient net testing cred) cv data w of (r, w') \<Rightarrow>
    \<exists>pre post. wire_trace w' = wire_trace w @ pre @ post \<and>
      set pre \<subseteq> calls_of {GET, HTTP_DELETE} \<and> set post \<subseteq> calls_of {GET, POST, PATCH, PUT}"
  using rest.push_data_series_phases [where net = net and testing = testing and cred = cred and fuel = fuel
      and cv = cv and data = data]
  unfolding emits_then_def by (cases "push_data_series fuel (RequestsRestClient net testing cred) cv data w") blast

text \<open>C3: A push of data series that succeeds has written exactly what the diffs ask for, in an
  order that the server can check: for each diff that does not create its data series the deleted
  indexes (where the server has indexes), structure elements and consumers; then the data series
  themselves, deletions, creations, updates; then for each diff that does not delete its data
  series the structure elements, with dimension references replaced by the URLs the server gave,
  the consumers and last the indexes; then the permissions. A deleted data series gets no
  creation or update of a child, a created one no deletion.\<close>

theorem push_data_series_writes:
  assumes "push_data_series fuel (RequestsRestClient net testing cred) cv data w = (Inr u, w')"
  shows "\<exists>bs bs' lookup group_ids. length bs = length data \<and> length bs' = length data \<and>
    wrote wire_trace w w'
     (concat (map2 (diff_deletes (RequestsRestClient net testing cred)) data bs) @
      bare_series_calls (RequestsRestClient net testing cred) data @
      concat (map2 (diff_upserts (RequestsRestClient net testing cred) lookup) data bs') @
      concat (map (permission_calls (RequestsRestClient net testing cred) group_ids) data))"
  by (rule rest.push_data_series_wrote [OF assms])

text \<open>A server that answers every request in the same way, and a client state with a fresh token.\<close>

definition constant_net :: "unit network" where
  "constant_net s rq = (Inr \<lparr>rs_status = 200, rs_json = Inr (PDict
     [(''results'', PList []), (''next'', PNone), (''indexes'', PNone)])\<rparr>, 0, ())"

definition sample_credentials :: Credentials where
  "sample_credentials = \<lparr>base_url = ''http://c'', user = ''u'', password = ''p''\<rparr>"

definition sample_state :: "unit client_state" where
  "sample_state = \<lparr>cs_net = (), cs_wire = [], cs_now = 0, cs_headers_cache = Some (0, []),
     cs_log = \<lparr>log_get_requests = [], log_delete_requests = [], log_post_requests = [],
       log_post_multipart_requests = [], log_put_requests = [], log_patch_requests = [],
       log_patch_multipart_requests = []\<rparr>\<rparr>"

definition sample_diff :: DataSeriesDefinitionDiff where
  "sample_diff =
     \<lparr>dd_external_id = ''a'', dd_data_series = None,
      dd_structure =
        \<lparr>sd_float_facts = [], sd_string_facts =
           [\<lparr>eio_operation_type = CREATE, eio_external_id = ''n'', eio_payload = []\<rparr>,
            \<lparr>eio_operation_type = DELETE, eio_external_id = ''o'', eio_payload = []\<rparr>],
         sd_text_facts = [], sd_timestamp_facts = [], sd_image_facts = [], sd_file_facts = [],
         sd_json_facts = [], sd_boolean_facts = [], sd_dimensions = []\<rparr>,
      dd_group_permissions = [], dd_consumers = [], dd_indexes = []\<rparr>"

lemma sample_push_succeeds:
  "(case push_data_series 1 (RequestsRestClient constant_net False sample_credentials) sample_converters
      [sample_diff] sample_state of (Inl _, _) \<Rightarrow> False | (Inr _, _) \<Rightarrow> True)"
  by code_simp

theorem push_data_series_writes_witness:
  "\<exists>w' bs bs' lookup group_ids.
     push_data_series 1 (RequestsRestClient constant_net False sample_credentials) sample_converters
       [sample_diff] sample_state = (Inr (), w') \<and>
     wrote wire_trace sample_state w'
      (concat (map2 (diff_deletes (RequestsRestClient constant_net False sample_credentials)) [sample_diff] bs) @
       bare_series_calls (RequestsRestClient constant_net False sample_credentials) [sample_diff] @
       concat (map2 (diff_upserts (RequestsRestClient constant_net False sample_credentials) lookup) [sample_diff] bs') @
       concat (map (permission_calls (RequestsRestClient constant_net False sample_credentials) group_ids) [sample_diff]))"
proof -
  from sample_push_succeeds obtain w' where run:
    "push_data_series 1 (RequestsRestClient constant_net False sample_credentials) sample_converters
       [sample_diff] sample_state = (Inr (), w')"
    by (auto split: prod.splits sum.splits)
  from push_data_series_writes [OF run] run show ?thesis by blast
qed

text \<open>C5: A push of data points that succeeds has sent them all, in order, in one request per
  batch: every batch but the last has exactly the batch size, none is empty or larger, and the
  batches put together are the data.\<close>

theorem push_data_points_batches:
  assumes "1 \<le> batch_size"
    and "push_data_points fuel (RequestsRestClient net testing cred) cv lib open_rb to_dict batch_size data
      external_id asynchronous use_cache s = (Inr u, s')"
  shows "\<exists>def batches. concat batches = data \<and>
    list_all (\<lambda>b. b \<noteq> [] \<and> int (length b) \<le> batch_size) batches \<and>
    list_all (\<lambda>b. int (length b) = batch_size) (butlast batches) \<and>
    wrote wire_trace (fst s) (fst s')
      (map (bulk_call (RequestsRestClient net testing cred) lib open_rb to_dict external_id asynchronous def) batches)"
proof -
  from rest.push_data_points_wrote [OF assms(2)] obtain def where
    "wrote wire_trace (fst s) (fst s') (map (\<lambda>c. bulk_call (RequestsRestClient net testing cred) lib open_rb
      to_dict external_id asynchronous def (fst c)) (chunks batch_size data))" by blast
  with assms(1) show ?thesis
    by (intro exI [of _ def] exI [of _ "map fst (chunks batch_size data)"])
      (auto simp: chunks_concat list_all_iff comp_def map_butlast [symmetric] dest: chunks_bounds chunks_full)
qed

text \<open>The definition of the data series of the example comes from a warm cache.\<close>

definition sample_points :: "DataPoint list" where
  "sample_points = map (\<lambda>k. \<lparr>dp_external_id = k, dp_payload = [], dp_identify_dimensions_by_external_id = True\<rparr>)
     [''1'', ''2'', ''3'']"

definition sample_cache :: "(string \<times> DataSeriesDefinition) list" where
  "sample_cache = [(''a'', \<lparr>dsd_data_series = \<lparr>ds_external_id = ''a'', ds_name = [], ds_backend = [],
       ds_extra_config = [], ds_allow_extra_fields = False\<rparr>,
     dsd_structure = \<lparr>st_float_facts = [], st_string_facts = [], st_text_facts = [],
       st_timestamp_facts = [], st_image_facts = [], st_file_facts = [], st_json_facts = [],
       st_boolean_facts = [], st_dimensions = []\<rparr>,
     dsd_consumers = [], dsd_indexes = [], dsd_group_permissions = []\<rparr>)]"

lemma sample_points_pushed:
  "(case push_data_points 1 (RequestsRestClient constant_net False sample_credentials) sample_converters
      sample_pylib (\<lambda>_. Inr PNone) (\<lambda>_. []) 2 sample_points ''a'' False True (sample_state, sample_cache)
    of (Inl _, _) \<Rightarrow> False | (Inr _, _) \<Rightarrow> True)"
  by code_simp

theorem push_data_points_batches_witness:
  "\<exists>s' def batches. push_data_points 1 (RequestsRestClient constant_net False sample_credentials)
       sample_converters sample_pylib (\<lambda>_. Inr PNone) (\<lambda>_. []) 2 sample_points ''a'' False True
       (sample_state, sample_cache) = (Inr (), s') \<and> concat batches = sample_points \<and>
     wrote wire_trace sample_state (fst s')
       (map (bulk_call (RequestsRestClient constant_net False sample_credentials) sample_pylib
          (\<lambda>_. Inr PNone) (\<lambda>_. []) ''a'' False def) batches)"
proof -
  from sample_points_pushed obtain s' where run:
    "push_data_points 1 (RequestsRestClient constant_net False sample_credentials)
       sample_converters sample_pylib (\<lambda>_. Inr PNone) (\<lambda>_. []) 2 sample_points ''a'' False True
       (sample_state, sample_cache) = (Inr (), s')"
    by (auto split: prod.splits sum.splits)
  from push_data_points_batches [OF _ run] run show ?thesis by auto
qed

end
