(* ===== verification/Client_Cli.thy ===== *)
theory Client_Cli
  imports Client_Diff_Correct Client_Pusher "HOL-Library.List_Lexorder" "HOL-Library.Char_ord"
begin

text \<open>
  The commands of the client, \<open>cli/commands\<close>, with \<open>storage/file.py\<close>: what \<open>diff\<close>, \<open>apply\<close>, \<open>dump\<close> and
  \<open>push\<close> do once click has read the options. A command has the clients it makes (each with its own
  token cache, all over one network), the files, what is read from standard input and what is
  printed. Reading and printing JSON and the generated conversions are parameters.
\<close>

section \<open>Environment and state\<close>

text \<open>
  \<open>env_dump sort_keys indent v\<close> is what the JSON encoder writes, up to an error; \<open>env_open_rb\<close> stands
  for \<open>open(path, 'rb')\<close>.
\<close>

record 's cli_env =
  env_fuel :: nat
  env_net :: "'s network"
  env_testing :: bool
  env_unit_testing :: bool
  env_mock_responses :: pyval
  env_converters :: converters
  env_pylib :: pylib
  env_codec :: codec
  env_order :: order
  env_loads :: "string \<Rightarrow> pyval result"
  env_dump :: "bool \<Rightarrow> bool \<Rightarrow> pyval \<Rightarrow> string \<times> py_error option"
  env_open_rb :: "string \<Rightarrow> pyval result"

text \<open>The conversions of diffs, of definitions and of data points.\<close>

record cli_codec =
  DataSeriesDefinitionDiff_to_dict :: "DataSeriesDefinitionDiff \<Rightarrow> pydict"
  EngineDefinitionDiff_to_dict :: "EngineDefinitionDiff \<Rightarrow> pydict"
  HttpEndpointDefinitionDiff_to_dict :: "HttpEndpointDefinitionDiff \<Rightarrow> pydict"
  GroupDefinitionDiff_to_dict :: "GroupDefinitionDiff \<Rightarrow> pydict"
  DataSeriesDefinitionDiff_from_dict :: "pyval \<Rightarrow> DataSeriesDefinitionDiff result"
  EngineDefinitionDiff_from_dict :: "pyval \<Rightarrow> EngineDefinitionDiff result"
  HttpEndpointDefinitionDiff_from_dict :: "pyval \<Rightarrow> HttpEndpointDefinitionDiff result"
  GroupDefinitionDiff_from_dict :: "pyval \<Rightarrow> GroupDefinitionDiff result"
  DataSeriesCreateViewOperation_from_dict :: "pyval \<Rightarrow> DataSeriesCreateViewOperation result"
  DataSeriesCreateViewSettings_to_dict :: "DataSeriesCreateViewSettings \<Rightarrow> pydict"
  DataSeriesDefinition_to_dict :: "DataSeriesDefinition \<Rightarrow> pydict"
  EngineDefinition_to_dict :: "EngineDefinition \<Rightarrow> pydict"
  HttpEndpointDefinition_to_dict :: "HttpEndpointDefinition \<Rightarrow> pydict"
  GroupDefinition_to_dict :: "GroupDefinition \<Rightarrow> pydict"
  DataPoint_from_dict :: "pyval \<Rightarrow> DataPoint result"
  DataPoint_to_dict :: "DataPoint \<Rightarrow> pydict"

record 's cli_world =
  cw_client :: "'s client_state"
  cw_files :: "string \<Rightarrow> string option"
  cw_stdin :: string
  cw_stdout :: string

type_synonym ('s, 'a) cli = "('s cli_world, 'a) api"

text \<open>What is done with one new client.\<close>

definition with_new_client :: "('s client_state, 'a) api \<Rightarrow> ('s, 'a) cli" where
  "with_new_client m w =
     (case m ((cw_client w)\<lparr>cs_headers_cache := None\<rparr>) of (r, c) \<Rightarrow> (r, w\<lparr>cw_client := c\<rparr>))"

definition print_text :: "string \<Rightarrow> ('s, unit) cli" where
  "print_text text = api_modify (\<lambda>w. w\<lparr>cw_stdout := cw_stdout w @ text @ ''\<newline>''\<rparr>)"

section \<open>storage/file.py\<close>

definition read_file :: "string \<Rightarrow> ('s, string) cli" where
  "read_file path w = (case cw_files w path of None \<Rightarrow> (Inl (NotFound path), w) | Some text \<Rightarrow> (Inr text, w))"

definition read_json :: "'s cli_env \<Rightarrow> string \<Rightarrow> ('s, pyval) cli" where
  "read_json env path = api_bind (read_file path) (\<lambda>text. api_lift (env_loads env text))"

text \<open>The file is opened, and emptied, before the encoder starts.\<close>

definition write_json :: "'s cli_env \<Rightarrow> string \<Rightarrow> pyval \<Rightarrow> ('s, unit) cli" where
  "write_json env path data w =
     (case env_dump env True True data of (text, err) \<Rightarrow>
        ((case err of None \<Rightarrow> Inr () | Some e \<Rightarrow> Inl e), w\<lparr>cw_files := (cw_files w)(path \<mapsto> text)\<rparr>))"

text \<open>Lines as a text file has them: every kind of line end is one newline character, which is kept.\<close>

fun universal_newlines :: "string \<Rightarrow> string" where
  "universal_newlines [] = []"
| "universal_newlines [c] = (if c = CHR 13 then ''\<newline>'' else [c])"
| "universal_newlines (c # d # s) =
     (if c = CHR 13 then (if d = CHR 10 then CHR 10 # universal_newlines s else CHR 10 # universal_newlines (d # s))
      else c # universal_newlines (d # s))"

fun readlines :: "string \<Rightarrow> string list" where
  "readlines [] = []"
| "readlines (c # s) =
     (if c = CHR 10 then [c] # readlines s
      else (case readlines s of [] \<Rightarrow> [[c]] | line # lines \<Rightarrow> (c # line) # lines))"

definition read_json_lines_from_stream :: "string \<Rightarrow> string list" where
  "read_json_lines_from_stream text = readlines (universal_newlines text)"

section \<open>commands/diff.py\<close>

record diff_options =
  do_base :: string
  do_target :: string
  do_outfile :: "string option"
  do_base_type :: string
  do_target_type :: string
  do_base_compose_user :: string
  do_base_compose_password :: string
  do_target_compose_user :: string
  do_target_compose_password :: string
  do_delete_in_base :: bool

text \<open>A fetcher is made before any of the two fetches.\<close>

definition make_fetcher ::
  "'s cli_env \<Rightarrow> ('s client_state APIClient \<Rightarrow> ('s client_state, 'a list) api) \<Rightarrow> (pyval \<Rightarrow> 'a list result) \<Rightarrow>
     string \<Rightarrow> string \<Rightarrow> string \<Rightarrow> string \<Rightarrow> ('s, 'a list) cli result" where
  "make_fetcher env compose_fetch file_fetch source_type source compose_user compose_password =
     (if source_type = ''compose'' then
        rbind (get_client (env_unit_testing env) (env_mock_responses env) (env_net env) (env_testing env)
            \<lparr>base_url = source, user = compose_user, password = compose_password\<rparr> None) (\<lambda>client.
          Inr (with_new_client (compose_fetch client)))
      else if source_type = ''file'' then
        Inr (api_bind (read_json env source) (\<lambda>json. api_lift (file_fetch json)))
      else Inl AssertionError)"

definition write_output :: "'s cli_env \<Rightarrow> string option \<Rightarrow> pyval \<Rightarrow> ('s, unit) cli" where
  "write_output env outfile data =
     (case outfile of
        Some (c # path) \<Rightarrow> write_json env (c # path) data
      | _ \<Rightarrow> (case env_dump env False True data of
                (text, None) \<Rightarrow> print_text text
              | (_, Some e) \<Rightarrow> api_raise e))"

text \<open>\<open>_diff\<close>; the options of a command that its algorithm and its fetchers know are part of these.\<close>

definition diff_skeleton ::
  "'s cli_env \<Rightarrow> diff_options \<Rightarrow>
     ('s client_state APIClient \<Rightarrow> ('s client_state, 'a list) api) \<times> (pyval \<Rightarrow> 'a list result) \<Rightarrow>
     ('s client_state APIClient \<Rightarrow> ('s client_state, 'a list) api) \<times> (pyval \<Rightarrow> 'a list result) \<Rightarrow>
     ('a list \<Rightarrow> 'a list \<Rightarrow> bool \<Rightarrow> 'd list result) \<Rightarrow> ('d \<Rightarrow> bool) \<Rightarrow> ('d \<Rightarrow> pydict) \<Rightarrow> ('s, unit) cli" where
  "diff_skeleton env opts base_fetch target_fetch diff_algorithm is_empty to_dict =
     api_bind (api_lift (make_fetcher env (fst base_fetch) (snd base_fetch) (do_base_type opts) (do_base opts)
       (do_base_compose_user opts) (do_base_compose_password opts))) (\<lambda>base_fetcher.
     api_bind (api_lift (make_fetcher env (fst target_fetch) (snd target_fetch) (do_target_type opts) (do_target opts)
       (do_target_compose_user opts) (do_target_compose_password opts))) (\<lambda>target_fetcher.
     api_bind base_fetcher (\<lambda>base_definitions.
     api_bind target_fetcher (\<lambda>target_definitions.
     api_bind (api_lift (diff_algorithm base_definitions target_definitions (do_delete_in_base opts))) (\<lambda>diffs.
     write_output env (do_outfile opts) (PList (map (\<lambda>d. PDict (to_dict d)) (filter (\<lambda>d. \<not> is_empty d) diffs))))))))"

text \<open>The aliases and their inversion, without which the commands do not start.\<close>

definition alias_strings :: "pydict \<Rightarrow> (string \<times> string) list" where
  "alias_strings d = map (\<lambda>(k, v). (k, case v of PStr s \<Rightarrow> s | _ \<Rightarrow> '''')) d"

definition domain_aliases_option :: "'s cli_env \<Rightarrow> string option \<Rightarrow> ((string \<times> string) list \<times> (string \<times> string) list) result" where
  "domain_aliases_option env domain_aliases =
     rbind (parse_domain_aliases (env_loads env) domain_aliases) (\<lambda>obj.
       case invert_dict (alias_strings obj) of
         None \<Rightarrow> Inl AssertionError
       | Some inverted \<Rightarrow> Inr (alias_strings obj, inverted))"

definition external_id_option :: "string list \<Rightarrow> string list option" where
  "external_id_option external_id = (if external_id = [] then None else Some external_id)"

text \<open>The base is fetched without aliases, from an instance as well as from a file.\<close>

definition diff_data_series_definition ::
  "'s cli_env \<Rightarrow> cli_codec \<Rightarrow> diff_options \<Rightarrow> string option \<Rightarrow> string option \<Rightarrow> string list \<Rightarrow> bool \<Rightarrow> bool \<Rightarrow> bool \<Rightarrow> bool \<Rightarrow>
     ('s, unit) cli" where
  "diff_data_series_definition env cc opts domain_aliases regex_filter external_id consumers group_permissions
       revoke_missing_group_permissions remove_missing_consumers =
     api_bind (api_lift (domain_aliases_option env domain_aliases)) (\<lambda>(domain_aliases_obj, _).
     let cv = env_converters env; lib = env_pylib env; ids = external_id_option external_id;
         fetch = (\<lambda>aliases. (\<lambda>client. fetch_data_series (env_fuel env) client cv lib aliases regex_filter ids,
            \<lambda>json. file_fetch_data_series cv lib json aliases regex_filter ids)) in
     diff_skeleton env opts (fetch []) (fetch domain_aliases_obj)
       (\<lambda>x y delete_in_base. diff_all_data_series (env_order env) (env_codec env) x y consumers group_permissions
          delete_in_base revoke_missing_group_permissions remove_missing_consumers)
       DataSeriesDefinitionDiff_empty (DataSeriesDefinitionDiff_to_dict cc))"

definition diff_engine_definition_command ::
  "'s cli_env \<Rightarrow> cli_codec \<Rightarrow> diff_options \<Rightarrow> string option \<Rightarrow> bool \<Rightarrow> ('s, unit) cli" where
  "diff_engine_definition_command env cc opts domain_aliases revoke_missing_group_permissions =
     api_bind (api_lift (domain_aliases_option env domain_aliases)) (\<lambda>(domain_aliases_obj, _).
     let cv = env_converters env;
         fetch = (\<lambda>aliases. (\<lambda>client. fetch_engines (env_fuel env) client cv aliases,
            \<lambda>json. file_fetch_engines cv json aliases)) in
     diff_skeleton env opts (fetch []) (fetch domain_aliases_obj)
       (\<lambda>x y delete_in_base. diff_all_engine_definitions (env_order env) (env_codec env) x y delete_in_base
          revoke_missing_group_permissions)
       EngineDefinitionDiff_empty (EngineDefinitionDiff_to_dict cc))"

definition diff_http_endpoint_definition_command ::
  "'s cli_env \<Rightarrow> cli_codec \<Rightarrow> diff_options \<Rightarrow> bool \<Rightarrow> ('s, unit) cli" where
  "diff_http_endpoint_definition_command env cc opts revoke_missing_group_permissions =
     (let cv = env_converters env;
          fetch = (\<lambda>client. fetch_http_endpoints (env_fuel env) client cv, file_fetch_http_endpoints cv) in
      diff_skeleton env opts fetch fetch
        (\<lambda>x y delete_in_base. diff_all_http_endpoint_definitions (env_order env) (env_codec env) x y delete_in_base
           revoke_missing_group_permissions)
        HttpEndpointDefinitionDiff_empty (HttpEndpointDefinitionDiff_to_dict cc))"

definition diff_group_definition_command :: "'s cli_env \<Rightarrow> cli_codec \<Rightarrow> diff_options \<Rightarrow> ('s, unit) cli" where
  "diff_group_definition_command env cc opts =
     (let cv = env_converters env;
          fetch = (\<lambda>client. fetch_groups (env_fuel env) client cv, file_fetch_groups cv) in
      diff_skeleton env opts fetch fetch (diff_all_group_definitions (env_order env) (env_codec env))
        GroupDefinitionDiff_empty (GroupDefinitionDiff_to_dict cc))"

section \<open>commands/apply.py\<close>

record apply_options =
  ao_file :: "string option"
  ao_target :: string
  ao_compose_user :: string
  ao_compose_password :: string
  ao_verbose :: nat

definition read_input :: "'s cli_env \<Rightarrow> string option \<Rightarrow> ('s, pyval) cli" where
  "read_input env path =
     (case path of
        Some (c # cs) \<Rightarrow> read_json env (c # cs)
      | _ \<Rightarrow> api_bind (api_get cw_stdin) (\<lambda>text. api_lift (env_loads env text)))"

text \<open>What the five commands share; \<open>message\<close> is the text of \<open>--verbose\<close> for a number of diffs.\<close>

definition apply_skeleton ::
  "'s cli_env \<Rightarrow> apply_options \<Rightarrow> (pyval \<Rightarrow> 'd result) \<Rightarrow> (string \<Rightarrow> string) \<Rightarrow>
     ('s client_state APIClient \<Rightarrow> 'd list \<Rightarrow> ('s client_state, unit) api) \<Rightarrow> ('s, unit) cli" where
  "apply_skeleton env opts from_dict message push =
     api_bind (read_input env (ao_file opts)) (\<lambda>data.
     api_bind (api_lift (rbind (py_iter data) (rmap from_dict))) (\<lambda>diffs.
     api_bind (api_when (0 < ao_verbose opts)
       (print_text (message (nat_digits (length diffs)) @ '' as user '' @ ao_compose_user opts @ '' on '' @ ao_target opts))) (\<lambda>_.
     api_bind (api_when (1 < ao_verbose opts)
       (case env_dump env False True data of
          (text, None) \<Rightarrow> print_text (''diffs: '' @ text)
        | (_, Some e) \<Rightarrow> api_raise e)) (\<lambda>_.
     with_new_client (push (RequestsRestClient (env_net env) (env_testing env)
       \<lparr>base_url = ao_target opts, user = ao_compose_user opts, password = ao_compose_password opts\<rparr>) diffs)))))"

definition apply_data_series_definition_diff :: "'s cli_env \<Rightarrow> cli_codec \<Rightarrow> apply_options \<Rightarrow> ('s, unit) cli" where
  "apply_data_series_definition_diff env cc opts =
     apply_skeleton env opts (DataSeriesDefinitionDiff_from_dict cc) (\<lambda>n. ''applying diffs to '' @ n @ '' dataseries'')
       (\<lambda>client. push_data_series (env_fuel env) client (env_converters env))"

definition apply_engines_definition_diff :: "'s cli_env \<Rightarrow> cli_codec \<Rightarrow> apply_options \<Rightarrow> ('s, unit) cli" where
  "apply_engines_definition_diff env cc opts =
     apply_skeleton env opts (EngineDefinitionDiff_from_dict cc) (\<lambda>n. ''applying diffs to '' @ n @ '' engines'')
       (\<lambda>client. push_engines (env_fuel env) client (env_converters env))"

definition apply_httpendpoints_definition_diff :: "'s cli_env \<Rightarrow> cli_codec \<Rightarrow> apply_options \<Rightarrow> ('s, unit) cli" where
  "apply_httpendpoints_definition_diff env cc opts =
     apply_skeleton env opts (HttpEndpointDefinitionDiff_from_dict cc) (\<lambda>n. ''applying diffs to '' @ n @ '' httpendpoints'')
       (\<lambda>client. push_http_endpoints (env_fuel env) client (env_converters env))"

definition apply_groups_definition_diff :: "'s cli_env \<Rightarrow> cli_codec \<Rightarrow> apply_options \<Rightarrow> ('s, unit) cli" where
  "apply_groups_definition_diff env cc opts =
     apply_skeleton env opts (GroupDefinitionDiff_from_dict cc) (\<lambda>n. ''applying diffs to '' @ n @ '' groups'') push_groups"

definition apply_data_series_create_view :: "'s cli_env \<Rightarrow> cli_codec \<Rightarrow> apply_options \<Rightarrow> ('s, unit) cli" where
  "apply_data_series_create_view env cc opts =
     apply_skeleton env opts (DataSeriesCreateViewOperation_from_dict cc)
       (\<lambda>n. ''applying '' @ n @ '' dataseries-create-view operations'')
       (\<lambda>client. push_create_views client (DataSeriesCreateViewSettings_to_dict cc))"

section \<open>commands/dump.py\<close>

record dump_options =
  po_src :: string
  po_outfile :: "string option"
  po_compose_user :: string
  po_compose_password :: string

text \<open>\<open>sorted\<close> with a key that reads two dictionaries; it is stable and compares strings.\<close>

definition sorted_by :: "('a \<Rightarrow> string result) \<Rightarrow> 'a list \<Rightarrow> 'a list result" where
  "sorted_by key xs =
     rbind (rmap (\<lambda>x. rbind (key x) (\<lambda>k. Inr (k, x))) xs) (\<lambda>keyed. Inr (map snd (sort_key fst keyed)))"

definition order_by :: "string \<Rightarrow> string \<Rightarrow> pyval \<Rightarrow> string result" where
  "order_by outer inner x = rbind (py_index x outer) (\<lambda>v. rbind (py_index v inner) as_str)"

definition dump_skeleton ::
  "'s cli_env \<Rightarrow> dump_options \<Rightarrow> ('s client_state APIClient \<Rightarrow> ('s client_state, 'a list) api) \<Rightarrow>
     ('a \<Rightarrow> pydict) \<Rightarrow> (pyval \<Rightarrow> string result) \<Rightarrow> ('s, unit) cli" where
  "dump_skeleton env opts fetch to_dict key =
     api_bind (api_lift (get_client (env_unit_testing env) (env_mock_responses env) (env_net env) (env_testing env)
       \<lparr>base_url = po_src opts, user = po_compose_user opts, password = po_compose_password opts\<rparr> None)) (\<lambda>client.
     api_bind (with_new_client (fetch client)) (\<lambda>definitions.
     api_bind (api_lift (sorted_by key (map (\<lambda>x. PDict (to_dict x)) definitions))) (\<lambda>defs_as_dicts.
     write_output env (po_outfile opts) (PList defs_as_dicts))))"

definition dump_data_series_definitions ::
  "'s cli_env \<Rightarrow> cli_codec \<Rightarrow> dump_options \<Rightarrow> string option \<Rightarrow> string option \<Rightarrow> string list \<Rightarrow> ('s, unit) cli" where
  "dump_data_series_definitions env cc opts domain_aliases regex_filter external_id =
     api_bind (api_lift (domain_aliases_option env domain_aliases)) (\<lambda>(_, inverted_domain_aliases_obj).
     dump_skeleton env opts (\<lambda>client. fetch_data_series (env_fuel env) client (env_converters env) (env_pylib env)
         inverted_domain_aliases_obj regex_filter (external_id_option external_id))
       (DataSeriesDefinition_to_dict cc) (order_by ''data_series'' ''external_id''))"

definition dump_engine_definitions :: "'s cli_env \<Rightarrow> cli_codec \<Rightarrow> dump_options \<Rightarrow> string option \<Rightarrow> ('s, unit) cli" where
  "dump_engine_definitions env cc opts domain_aliases =
     api_bind (api_lift (domain_aliases_option env domain_aliases)) (\<lambda>(_, inverted_domain_aliases_obj).
     dump_skeleton env opts (\<lambda>client. fetch_engines (env_fuel env) client (env_converters env) inverted_domain_aliases_obj)
       (EngineDefinition_to_dict cc) (order_by ''engine'' ''external_id''))"

definition dump_http_endpoint_definitions :: "'s cli_env \<Rightarrow> cli_codec \<Rightarrow> dump_options \<Rightarrow> ('s, unit) cli" where
  "dump_http_endpoint_definitions env cc opts =
     dump_skeleton env opts (\<lambda>client. fetch_http_endpoints (env_fuel env) client (env_converters env))
       (HttpEndpointDefinition_to_dict cc) (order_by ''http_endpoint'' ''external_id'')"

definition dump_group_definitions :: "'s cli_env \<Rightarrow> cli_codec \<Rightarrow> dump_options \<Rightarrow> ('s, unit) cli" where
  "dump_group_definitions env cc opts =
     dump_skeleton env opts (\<lambda>client. fetch_groups (env_fuel env) client (env_converters env))
       (GroupDefinition_to_dict cc) (order_by ''group'' ''name'')"

section \<open>commands/push.py\<close>

text \<open>
  The data points are a stream: its elements up to the exception it ends with. \<open>stream_chunks\<close> are
  the chunks that the pusher makes of it.
\<close>

fun stream_of :: "('b \<Rightarrow> 'a result) \<Rightarrow> 'b list \<Rightarrow> 'a list \<times> py_error option" where
  "stream_of f [] = ([], None)"
| "stream_of f (x # xs) =
     (case f x of Inl e \<Rightarrow> ([], Some e) | Inr y \<Rightarrow> (case stream_of f xs of (ys, e) \<Rightarrow> (y # ys, e)))"

function stream_chunks :: "int \<Rightarrow> 'a list \<Rightarrow> py_error option \<Rightarrow> ('a list \<times> py_error option) list" where
  "stream_chunks chunk_size [] ended = (case ended of None \<Rightarrow> [] | Some e \<Rightarrow> [([], Some e)])"
| "stream_chunks chunk_size (first # iterator) ended =
     (if chunk_size < 1 then [([first], Some (ValueError ''islice''))]
      else if ended \<noteq> None \<and> length iterator < nat (chunk_size - 1) then [(first # iterator, ended)]
      else (first # take (nat (chunk_size - 1)) iterator, None) #
        stream_chunks chunk_size (drop (nat (chunk_size - 1)) iterator) ended)"
  by pat_completeness auto
termination by (relation "measure (\<lambda>(chunk_size, xs, ended). length xs)") auto

record push_options =
  ho_file :: "string option"
  ho_target :: string
  ho_data_series_external_id :: string
  ho_compose_user :: string
  ho_compose_password :: string
  ho_lines :: bool
  ho_asynchronous :: bool
  ho_batchsize :: int

text \<open>
  With \<open>--lines\<close> a file is opened when the first element is asked for; a document is read at once and
  converted element by element.
\<close>

definition push_input :: "'s cli_env \<Rightarrow> cli_codec \<Rightarrow> push_options \<Rightarrow> ('s, DataPoint list \<times> py_error option) cli" where
  "push_input env cc opts =
     (if ho_lines opts then
        (let of_lines = (\<lambda>text. stream_of (\<lambda>line. rbind (env_loads env line) (DataPoint_from_dict cc))
               (read_json_lines_from_stream text)) in
         case ho_file opts of
           Some (c # path) \<Rightarrow> api_get (\<lambda>w. case cw_files w (c # path) of
               None \<Rightarrow> ([], Some (NotFound (c # path))) | Some text \<Rightarrow> of_lines text)
         | _ \<Rightarrow> api_get (\<lambda>w. of_lines (cw_stdin w)))
      else api_bind (read_input env (ho_file opts)) (\<lambda>data.
           api_bind (api_lift (py_iter data)) (\<lambda>elems. api_return (stream_of (DataPoint_from_dict cc) elems))))"

definition push_datapoint_definitions :: "'s cli_env \<Rightarrow> cli_codec \<Rightarrow> push_options \<Rightarrow> ('s, unit) cli" where
  "push_datapoint_definitions env cc opts =
     api_bind (push_input env cc opts) (\<lambda>(dps, ended).
     let client = RequestsRestClient (env_net env) (env_testing env)
           \<lparr>base_url = ho_target opts, user = ho_compose_user opts, password = ho_compose_password opts\<rparr> in
     with_new_client
       (api_bind (get_single_data_series_definition (env_fuel env) client (env_converters env)
          (ho_data_series_external_id opts) [] True) (\<lambda>def.
        api_for (push_chunk client (env_pylib env) (env_open_rb env) (DataPoint_to_dict cc)
            (ho_data_series_external_id opts) (ho_asynchronous opts) def)
          (stream_chunks (ho_batchsize opts) dps ended))))"

end
