(* ===== verification/Server_Text.thy ===== *)
theory Server_Text
  imports Prelude
begin

text \<open>
  The string functions of Python and its standard library that the server uses: character
  classes, \<open>int\<close> of a string, the parts of a URL, base64 and decimal numbers.
\<close>

section \<open>Strings\<close>

definition char_code :: "char \<Rightarrow> nat" where
  "char_code c = of_char c"

definition is_digit :: "char \<Rightarrow> bool" where
  "is_digit c \<longleftrightarrow> 48 \<le> char_code c \<and> char_code c \<le> 57"

definition is_alpha :: "char \<Rightarrow> bool" where
  "is_alpha c \<longleftrightarrow> 65 \<le> char_code c \<and> char_code c \<le> 90 \<or> 97 \<le> char_code c \<and> char_code c \<le> 122"

definition lower :: "string \<Rightarrow> string" where
  "lower s = map (\<lambda>c. if 65 \<le> char_code c \<and> char_code c \<le> 90 then char_of (char_code c + 32) else c) s"

definition is_space :: "char \<Rightarrow> bool" where
  "is_space c \<longleftrightarrow> 9 \<le> char_code c \<and> char_code c \<le> 13 \<or> 28 \<le> char_code c \<and> char_code c \<le> 32"

definition strip :: "string \<Rightarrow> string" where
  "strip s = rev (dropWhile is_space (rev (dropWhile is_space s)))"

text \<open>\<open>int(s)\<close>: an optional sign, then at most 4300 digits, which may be
  separated by single underscores.\<close>

fun parse_digits :: "int \<Rightarrow> string \<Rightarrow> int option" where
  "parse_digits n [] = Some n"
| "parse_digits n (c # cs) =
     (if is_digit c then parse_digits (10 * n + int (char_code c - 48)) cs
      else if c = CHR ''_'' \<and> cs \<noteq> [] \<and> is_digit (hd cs) then parse_digits n cs
      else None)"

definition parse_nat :: "string \<Rightarrow> int option" where
  "parse_nat s =
     (if s \<noteq> [] \<and> is_digit (hd s) \<and> length (filter is_digit s) \<le> 4300 then parse_digits 0 s else None)"

definition parse_int :: "string \<Rightarrow> int option" where
  "parse_int s =
     (case strip s of
        [] \<Rightarrow> None
      | c # cs \<Rightarrow>
          if c = CHR ''-'' then map_option uminus (parse_nat cs)
          else if c = CHR ''+'' then parse_nat cs else parse_nat (c # cs))"

text \<open>\<open>urlsplit\<close>: \<open>netloc\<close> and \<open>hostname\<close>. (The check of internationalised names is left out.)\<close>

definition scheme_char :: "char \<Rightarrow> bool" where
  "scheme_char c \<longleftrightarrow> is_alpha c \<or> is_digit c \<or> c \<in> set ''+-.''"

definition after_scheme :: "string \<Rightarrow> string" where
  "after_scheme url =
     (let scheme = takeWhile (\<lambda>c. c \<noteq> CHR '':'') url; rest = dropWhile (\<lambda>c. c \<noteq> CHR '':'') url in
      if scheme \<noteq> [] \<and> rest \<noteq> [] \<and> is_alpha (hd scheme) \<and> list_all scheme_char scheme then tl rest else url)"

definition urlsplit_netloc :: "string \<Rightarrow> string result" where
  "urlsplit_netloc url =
     (let url1 = filter (\<lambda>c. char_code c \<notin> {9, 10, 13}) (dropWhile (\<lambda>c. char_code c \<le> 32) url);
          rest = after_scheme url1;
          netloc = (if take 2 rest = ''//'' then takeWhile (\<lambda>c. c \<notin> set ''/?#'') (drop 2 rest) else []) in
      if (CHR ''['' \<in> set netloc) \<noteq> (CHR '']'' \<in> set netloc) then Inl (ValueError ''Invalid IPv6 URL'')
      else Inr netloc)"

definition urlsplit_hostname :: "string \<Rightarrow> string option" where
  "urlsplit_hostname netloc =
     (let hostinfo = rev (takeWhile (\<lambda>c. c \<noteq> CHR ''@'') (rev netloc));
          bracketed = dropWhile (\<lambda>c. c \<noteq> CHR ''['') hostinfo;
          hostname = (if bracketed \<noteq> [] then takeWhile (\<lambda>c. c \<noteq> CHR '']'') (tl bracketed)
                      else takeWhile (\<lambda>c. c \<noteq> CHR '':'') hostinfo) in
      if hostname = [] then None
      else Some (lower (takeWhile (\<lambda>c. c \<noteq> CHR ''%'') hostname) @ dropWhile (\<lambda>c. c \<noteq> CHR ''%'') hostname))"

section \<open>Numbers in decimal\<close>

definition digit :: "nat \<Rightarrow> char" where
  "digit d = char_of (48 + d)"

fun nat_str :: "nat \<Rightarrow> string" where
  "nat_str n = (if n < 10 then [digit n] else nat_str (n div 10) @ [digit (n mod 10)])"

declare nat_str.simps [simp del]

definition int_str :: "int \<Rightarrow> string" where
  "int_str i = (if i < 0 then CHR ''-'' # nat_str (nat (- i)) else nat_str (nat i))"

definition digits_value :: "string \<Rightarrow> nat" where
  "digits_value = foldl (\<lambda>n c. 10 * n + (char_code c - 48)) 0"

lemma char_code_digit: "d < 10 \<Longrightarrow> char_code (digit d) = 48 + d"
  by (simp add: char_code_def digit_def)

lemma is_digit_digit: "d < 10 \<Longrightarrow> is_digit (digit d)"
  by (simp add: is_digit_def char_code_digit)

lemma digits_value_nat_str [simp]: "digits_value (nat_str n) = n"
proof (induction n rule: nat_str.induct)
  case (1 n)
  then show ?case
    by (subst nat_str.simps) (auto simp: digits_value_def char_code_digit)
qed

lemma nat_str_eq_iff [simp]: "nat_str m = nat_str n \<longleftrightarrow> m = n"
  by (metis digits_value_nat_str)

lemma is_digit_nat_str: "list_all is_digit (nat_str n)"
proof (induction n rule: nat_str.induct)
  case (1 n)
  then show ?case
    by (subst nat_str.simps) (auto simp: is_digit_digit)
qed

end
