(* ===== verification/Server_Encoding.thy ===== *)
theory Server_Encoding
  imports Server_Text "HOL-Library.List_Lexorder" "HOL-Library.Char_ord"
begin

text \<open>
  The two encodings of Python's standard library that a page's cursor goes through: base64 (with
  \<open>validate=True\<close>, as Python 3.11 decodes it) and JSON. \<open>json.dumps\<close> is written out for strings of
  ASCII characters; how a float is read and printed are the parameters \<open>parse_float\<close> and \<open>float_repr\<close>.
\<close>

section \<open>Base64\<close>

definition b64_char :: "nat \<Rightarrow> char" where
  "b64_char v = char_of (if v < 26 then v + 65 else if v < 52 then v + 71 else if v < 62 then v - 4 else if v = 62 then 43 else 47)"

definition b64_value :: "char \<Rightarrow> nat option" where
  "b64_value c =
     (let n = char_code c in
      if 65 \<le> n \<and> n \<le> 90 then Some (n - 65) else if 97 \<le> n \<and> n \<le> 122 then Some (n - 71)
      else if 48 \<le> n \<and> n \<le> 57 then Some (n + 4) else if n = 43 then Some 62 else if n = 47 then Some 63 else None)"

fun b64encode :: "string \<Rightarrow> string" where
  "b64encode [] = []"
| "b64encode [a] =
     (let x = char_code a in [b64_char (x div 4), b64_char (x mod 4 * 16), CHR ''='', CHR ''=''])"
| "b64encode [a, b] =
     (let x = char_code a; y = char_code b in
      [b64_char (x div 4), b64_char (x mod 4 * 16 + y div 16), b64_char (y mod 16 * 4), CHR ''=''])"
| "b64encode (a # b # c # s) =
     (let x = char_code a; y = char_code b; z = char_code c in
      [b64_char (x div 4), b64_char (x mod 4 * 16 + y div 16), b64_char (y mod 16 * 4 + z div 64), b64_char (z mod 64)]
        @ b64encode s)"

text \<open>The bytes of the data characters; the last group may have two or three.\<close>

fun b64_bytes :: "nat list \<Rightarrow> string" where
  "b64_bytes (p # q # r # t # vs) =
     [char_of (p * 4 + q div 16), char_of (q mod 16 * 16 + r div 4), char_of (r mod 4 * 64 + t)] @ b64_bytes vs"
| "b64_bytes [p, q, r] = [char_of (p * 4 + q div 16), char_of (q mod 16 * 16 + r div 4)]"
| "b64_bytes [p, q] = [char_of (p * 4 + q div 16)]"
| "b64_bytes _ = []"

definition b64decode :: "string \<Rightarrow> string option" where
  "b64decode s =
     (let data = takeWhile (\<lambda>c. b64_value c \<noteq> None) s; pad = dropWhile (\<lambda>c. b64_value c \<noteq> None) s;
          n = length data mod 4 in
      if list_all (\<lambda>c. c = CHR ''='') pad \<and>
         (n = 0 \<and> (data = [] \<longrightarrow> pad = []) \<or> n = 2 \<and> length pad = 2 \<or> n = 3 \<and> length pad = 1)
      then Some (b64_bytes (map (\<lambda>c. the (b64_value c)) data)) else None)"

definition ascii :: "string \<Rightarrow> bool" where
  "ascii s \<longleftrightarrow> list_all (\<lambda>c. char_code c < 128) s"

lemma char_code_less: "char_code c < 256"
  by (simp add: char_code_def)

lemma char_of_char_code [simp]: "char_of (char_code c) = c"
  by (simp add: char_code_def)

lemma b64_value_char: "v < 64 \<Longrightarrow> b64_value (b64_char v) = Some v"
  by (auto simp: b64_value_def b64_char_def char_code_def Let_def)

lemma b64_value_pad: "b64_value (CHR ''='') = None"
  by code_simp

text \<open>What encoding gives: data characters and their padding.\<close>

definition b64_shape :: "string \<Rightarrow> nat list \<Rightarrow> string \<Rightarrow> bool" where
  "b64_shape s vs pad \<longleftrightarrow> b64encode s = map b64_char vs @ pad \<and> list_all (\<lambda>v. v < 64) vs \<and> b64_bytes vs = s \<and>
     list_all (\<lambda>c. c = CHR ''='') pad \<and>
     (length vs mod 4 = 0 \<and> pad = [] \<or> length vs mod 4 = 2 \<and> length pad = 2 \<or> length vs mod 4 = 3 \<and> length pad = 1)"

lemma b64encode_shape: "\<exists>vs pad. b64_shape s vs pad"
proof (induction s rule: b64encode.induct)
  case 1
  show ?case by (intro exI [of _ "[]"]) (simp add: b64_shape_def)
next
  case (2 a)
  have "char_code a div 4 * 4 + char_code a mod 4 * 16 div 16 = char_code a" by simp
  moreover have "char_code a div 4 < 64" using char_code_less [of a] by simp
  ultimately show ?case
    by (intro exI [of _ "[char_code a div 4, char_code a mod 4 * 16]"] exI [of _ "''==''"])
      (simp add: b64_shape_def Let_def)
next
  case (3 a b)
  have "char_code a div 4 * 4 + (char_code a mod 4 * 16 + char_code b div 16) div 16 = char_code a"
    using char_code_less [of b] by simp
  moreover have "(char_code a mod 4 * 16 + char_code b div 16) mod 16 * 16 + char_code b mod 16 * 4 div 4 = char_code b"
    using char_code_less [of b] by (simp add: mod_add_eq [symmetric])
  moreover have "char_code a div 4 < 64" "char_code a mod 4 * 16 + char_code b div 16 < 64" "char_code b mod 16 * 4 < 64"
    using char_code_less [of a] char_code_less [of b] by linarith+
  ultimately show ?case
    by (intro exI [of _ "[char_code a div 4, char_code a mod 4 * 16 + char_code b div 16, char_code b mod 16 * 4]"]
        exI [of _ "''=''"]) (simp add: b64_shape_def Let_def)
next
  case (4 a b c s)
  obtain vs pad where rest: "b64_shape s vs pad" using 4 [OF refl refl refl] by (elim exE)
  let ?vs = "[char_code a div 4, char_code a mod 4 * 16 + char_code b div 16,
      char_code b mod 16 * 4 + char_code c div 64, char_code c mod 64]"
  have "char_code a div 4 * 4 + (char_code a mod 4 * 16 + char_code b div 16) div 16 = char_code a"
    using char_code_less [of b] by simp
  moreover have "(char_code a mod 4 * 16 + char_code b div 16) mod 16 * 16 +
      (char_code b mod 16 * 4 + char_code c div 64) div 4 = char_code b"
    using char_code_less [of b] char_code_less [of c] by (simp add: mod_add_eq [symmetric])
  moreover have "(char_code b mod 16 * 4 + char_code c div 64) mod 4 * 64 + char_code c mod 64 = char_code c"
    using char_code_less [of c] by (simp add: mod_add_eq [symmetric])
  moreover have "list_all (\<lambda>v. v < 64) ?vs"
    using char_code_less [of a] char_code_less [of b] char_code_less [of c] by (simp, linarith)
  ultimately show ?case
    using rest by (intro exI [of _ "?vs @ vs"] exI [of _ pad]) (simp add: b64_shape_def Let_def)
qed

lemma b64decode_encode [simp]: "b64decode (b64encode s) = Some s"
proof -
  obtain vs pad where "b64_shape s vs pad" using b64encode_shape [of s] by (elim exE)
  note shape = this [unfolded b64_shape_def, THEN conjunct1] this [unfolded b64_shape_def, THEN conjunct2, THEN conjunct1]
    this [unfolded b64_shape_def, THEN conjunct2, THEN conjunct2]
  have data: "list_all (\<lambda>c. b64_value c \<noteq> None) (map b64_char vs)"
    using shape(2) by (auto simp: list_all_iff b64_value_char)
  have stop: "pad = [] \<or> \<not> b64_value (hd pad) \<noteq> None"
    using shape(3) by (cases pad) (auto simp: b64_value_pad)
  have "map (\<lambda>c. the (b64_value c)) (map b64_char vs) = vs"
    using shape(2) by (auto simp: list_all_iff b64_value_char intro!: map_idI)
  then show ?thesis
    unfolding b64decode_def shape(1) takeWhile_all_append [OF data stop] dropWhile_all_append [OF data stop]
    using shape by (auto simp: Let_def)
qed

section \<open>Writing JSON\<close>

text \<open>
  What is written was read from JSON or built by the code: it holds no \<open>MultiValueDict\<close>
  (which \<open>json.dumps\<close> would write) and no dates, files or other objects, on which it raises.
\<close>

definition hex_digit :: "nat \<Rightarrow> char" where
  "hex_digit d = (if d < 10 then char_of (48 + d) else char_of (87 + d))"

definition json_escape :: "char \<Rightarrow> string" where
  "json_escape c =
     (let n = char_code c; esc = (\<lambda>e. [CHR 0x5C, e]) in
      if n = 34 then esc (CHR 0x22) else if n = 92 then esc (CHR 0x5C) else if n = 10 then esc (CHR ''n'')
      else if n = 13 then esc (CHR ''r'') else if n = 9 then esc (CHR ''t'') else if n = 12 then esc (CHR ''f'')
      else if n = 8 then esc (CHR ''b'')
      else if n < 32 \<or> 127 \<le> n then CHR 0x5C # ''u00'' @ [hex_digit (n div 16), hex_digit (n mod 16)]
      else [c])"

definition json_string :: "string \<Rightarrow> string" where
  "json_string s = CHR 0x22 # concat (map json_escape s) @ [CHR 0x22]"

fun join :: "string \<Rightarrow> string list \<Rightarrow> string" where
  "join sep [] = []"
| "join sep [s] = s"
| "join sep (s # t # ts) = s @ sep @ join sep (t # ts)"

function json_dumps :: "bool \<Rightarrow> (pyfloat \<Rightarrow> string) \<Rightarrow> pyval \<Rightarrow> string result" where
  "json_dumps sort_keys float_repr v =
     (case v of
        PNone \<Rightarrow> Inr ''null''
      | PBool b \<Rightarrow> Inr (if b then ''true'' else ''false'')
      | PInt i \<Rightarrow> Inr (int_str i)
      | PFloat x \<Rightarrow> Inr (float_repr x)
      | PStr s \<Rightarrow> Inr (json_string s)
      | PList vs \<Rightarrow>
          rbind (rmap (json_dumps sort_keys float_repr) vs) (\<lambda>ss. Inr (''['' @ join '', '' ss @ '']''))
      | PDict d \<Rightarrow>
          rbind (rmap (\<lambda>item. rbind (json_dumps sort_keys float_repr (snd item))
              (\<lambda>s. Inr (json_string (fst item) @ '': '' @ s))) (if sort_keys then sort_key fst d else d))
            (\<lambda>ss. Inr (''{'' @ join '', '' ss @ ''}''))
      | _ \<Rightarrow> Inl TypeError)"
  by pat_completeness auto
termination
proof (relation "measure (\<lambda>(sort_keys, float_repr, v). size v)", goal_cases)
  case (2 sort_keys float_repr v vs x)
  then show ?case using size_list_estimation' [of x vs "size x" size] by (simp add: less_Suc_eq_le)
next
  case (3 sort_keys float_repr v d item)
  then have "item \<in> set d" by (simp split: if_splits)
  then have "size (snd item) \<le> size_list (size_prod (\<lambda>_. 0) size) d"
    by (intro size_list_estimation') (auto simp: size_prod_simp)
  with 3 show ?case by (simp add: less_Suc_eq_le)
qed simp

declare json_dumps.simps [simp del]

section \<open>Reading JSON\<close>

text \<open>\<open>None\<close> is a \<open>ValueError\<close>. The fuel is twice the length of the text, more than the calls that read it.\<close>

definition skip_ws :: "string \<Rightarrow> string" where
  "skip_ws s = dropWhile (\<lambda>c. char_code c \<in> {32, 9, 10, 13}) s"

definition hex_value :: "char \<Rightarrow> nat option" where
  "hex_value c =
     (let n = char_code c in
      if 48 \<le> n \<and> n \<le> 57 then Some (n - 48) else if 97 \<le> n \<and> n \<le> 102 then Some (n - 87)
      else if 65 \<le> n \<and> n \<le> 70 then Some (n - 55) else None)"

fun hex4 :: "string \<Rightarrow> (nat \<times> string) option" where
  "hex4 (a # b # c # d # s) =
     (case (hex_value a, hex_value b, hex_value c, hex_value d) of
        (Some w, Some x, Some y, Some z) \<Rightarrow> Some (((w * 16 + x) * 16 + y) * 16 + z, s)
      | _ \<Rightarrow> None)"
| "hex4 _ = None"

definition utf8 :: "nat \<Rightarrow> string" where
  "utf8 u = map char_of
     (if u < 0x80 then [u] else if u < 0x800 then [0xC0 + u div 64, 0x80 + u mod 64]
      else if u < 0x10000 then [0xE0 + u div 4096, 0x80 + u div 64 mod 64, 0x80 + u mod 64]
      else [0xF0 + u div 262144, 0x80 + u div 4096 mod 64, 0x80 + u div 64 mod 64, 0x80 + u mod 64])"

definition json_escapes :: "(char \<times> char) list" where
  "json_escapes =
     [(CHR 0x22, CHR 0x22), (CHR 0x5C, CHR 0x5C), (CHR ''/'', CHR ''/''), (CHR ''b'', CHR 0x08), (CHR ''f'', CHR 0x0C),
      (CHR ''n'', CHR 0x0A), (CHR ''r'', CHR 0x0D), (CHR ''t'', CHR 0x09)]"

definition prefix_chars :: "string \<Rightarrow> (string \<times> 'a) option \<Rightarrow> (string \<times> 'a) option" where
  "prefix_chars p = map_option (apfst ((@) p))"

text \<open>The second half of a surrogate pair, if it is there.\<close>

definition low_surrogate :: "string \<Rightarrow> (nat \<times> string) option" where
  "low_surrogate s =
     (case s of
        a # b # r \<Rightarrow>
          if a = CHR 0x5C \<and> b = CHR ''u'' then
            (case hex4 r of Some (u, r2) \<Rightarrow> if 0xDC00 \<le> u \<and> u \<le> 0xDFFF then Some (u, r2) else None | None \<Rightarrow> None)
          else None
      | _ \<Rightarrow> None)"

fun json_chars :: "nat \<Rightarrow> string \<Rightarrow> (string \<times> string) option" where
  "json_chars (Suc n) (c # s) =
     (if c = CHR 0x22 then Some ([], s)
      else if c = CHR 0x5C then
        (case s of
           [] \<Rightarrow> None
         | e # s' \<Rightarrow>
             if e = CHR ''u'' then
               (case hex4 s' of
                  None \<Rightarrow> None
                | Some (u, r) \<Rightarrow>
                    if 0xD800 \<le> u \<and> u \<le> 0xDBFF then
                      (case low_surrogate r of
                         None \<Rightarrow> prefix_chars (utf8 u) (json_chars n r)
                       | Some (u2, r2) \<Rightarrow> prefix_chars (utf8 (0x10000 + (u - 0xD800) * 1024 + (u2 - 0xDC00))) (json_chars n r2))
                    else prefix_chars (utf8 u) (json_chars n r))
             else (case map_of json_escapes e of None \<Rightarrow> None | Some x \<Rightarrow> prefix_chars [x] (json_chars n s')))
      else if char_code c < 32 then None else prefix_chars [c] (json_chars n s))"
| "json_chars _ _ = None"

definition after_digits :: "string \<Rightarrow> string \<times> string" where
  "after_digits s = (takeWhile is_digit s, dropWhile is_digit s)"

text \<open>\<open>(-?(?:0|[1-9]\d*))(\.\d+)?([eE][-+]?\d+)?\<close>\<close>

definition json_number :: "(string \<Rightarrow> pyfloat) \<Rightarrow> string \<Rightarrow> (pyval \<times> string) option" where
  "json_number parse_float s =
     (let sign = takeWhile (\<lambda>c. c = CHR ''-'') (take 1 s); s1 = drop (length sign) s;
          ds = (if take 1 s1 = ''0'' then ''0'' else takeWhile is_digit s1); s2 = drop (length ds) s1;
          fd = (if take 1 s2 = ''.'' then takeWhile is_digit (drop 1 s2) else []);
          frac = (if fd = [] then [] else CHR ''.'' # fd); s3 = drop (length frac) s2;
          e = takeWhile (\<lambda>c. c \<in> {CHR ''e'', CHR ''E''}) (take 1 s3);
          es = takeWhile (\<lambda>c. c \<in> {CHR ''-'', CHR ''+''}) (take 1 (drop (length e) s3));
          ed = (if e = [] then [] else takeWhile is_digit (drop (length (e @ es)) s3));
          expo = (if ed = [] then [] else e @ es @ ed); s4 = drop (length expo) s3 in
      if ds = [] then None
      else if frac = [] \<and> expo = [] then map_option (\<lambda>i. (PInt i, s4)) (parse_int (sign @ ds))
      else Some (PFloat (parse_float (sign @ ds @ frac @ expo)), s4))"

definition starts :: "string \<Rightarrow> string \<Rightarrow> bool" where
  "starts w s \<longleftrightarrow> take (length w) s = w"

text \<open>A value; the elements of an array after their first value's start; the members of an object at a key.\<close>

fun json_value :: "(string \<Rightarrow> pyfloat) \<Rightarrow> nat \<Rightarrow> string \<Rightarrow> (pyval \<times> string) option"
  and json_elems :: "(string \<Rightarrow> pyfloat) \<Rightarrow> nat \<Rightarrow> string \<Rightarrow> (pyval list \<times> string) option"
  and json_members :: "(string \<Rightarrow> pyfloat) \<Rightarrow> nat \<Rightarrow> string \<Rightarrow> (pydict \<times> string) option" where
  "json_value pf 0 s = None"
| "json_value pf (Suc n) s =
     (if take 1 s = [CHR 0x22] then map_option (apfst PStr) (json_chars n (drop 1 s))
      else if take 1 s = ''{'' then
        (let r = skip_ws (drop 1 s) in
         if take 1 r = ''}'' then Some (PDict [], drop 1 r)
         else map_option (apfst (\<lambda>d. PDict (dict_comp fst snd d))) (json_members pf n r))
      else if take 1 s = ''['' then
        (let r = skip_ws (drop 1 s) in
         if take 1 r = '']'' then Some (PList [], drop 1 r) else map_option (apfst PList) (json_elems pf n r))
      else if starts ''null'' s then Some (PNone, drop 4 s)
      else if starts ''true'' s then Some (PBool True, drop 4 s)
      else if starts ''false'' s then Some (PBool False, drop 5 s)
      else if starts ''NaN'' s then Some (PFloat NaN, drop 3 s)
      else if starts ''Infinity'' s then Some (PFloat (Inf False), drop 8 s)
      else if starts ''-Infinity'' s then Some (PFloat (Inf True), drop 9 s)
      else json_number pf s)"
| "json_elems pf 0 s = None"
| "json_elems pf (Suc n) s =
     (case json_value pf n s of
        None \<Rightarrow> None
      | Some (v, r) \<Rightarrow>
          (let r1 = skip_ws r in
           if take 1 r1 = '']'' then Some ([v], drop 1 r1)
           else if take 1 r1 = '','' then map_option (apfst ((#) v)) (json_elems pf n (skip_ws (drop 1 r1)))
           else None))"
| "json_members pf 0 s = None"
| "json_members pf (Suc n) s =
     (if take 1 s \<noteq> [CHR 0x22] then None
      else case json_chars n (drop 1 s) of
        None \<Rightarrow> None
      | Some (k, r) \<Rightarrow>
          (let r0 = skip_ws r in
           if take 1 r0 \<noteq> '':'' then None
           else case json_value pf n (skip_ws (drop 1 r0)) of
             None \<Rightarrow> None
           | Some (v, r2) \<Rightarrow>
               (let r1 = skip_ws r2 in
                if take 1 r1 = ''}'' then Some ([(k, v)], drop 1 r1)
                else if take 1 r1 = '','' then map_option (apfst ((#) (k, v))) (json_members pf n (skip_ws (drop 1 r1)))
                else None)))"

definition json_loads :: "(string \<Rightarrow> pyfloat) \<Rightarrow> string \<Rightarrow> pyval option" where
  "json_loads parse_float s =
     (case json_value parse_float (2 * length s + 2) (skip_ws s) of
        Some (v, r) \<Rightarrow> if skip_ws r = [] then Some v else None
      | None \<Rightarrow> None)"

section \<open>Reading what was written\<close>

lemma hex4_escape:
  assumes "u < 128"
  shows "hex4 (''00'' @ [hex_digit (u div 16), hex_digit (u mod 16)] @ s) = Some (u, s)"
proof -
  have hex: "hex_value (hex_digit d) = Some d" if "d < 16" for d
    using that by (auto simp: hex_value_def hex_digit_def char_code_def Let_def)
  have "hex_value (CHR ''0'') = Some 0" by code_simp
  moreover have "hex_value (hex_digit (u div 16)) = Some (u div 16)" "hex_value (hex_digit (u mod 16)) = Some (u mod 16)"
    using assms by (auto intro!: hex)
  ultimately show ?thesis by simp
qed

lemma char_code_eq: "char_code c = char_code d \<longleftrightarrow> c = d"
  by (metis char_of_char_code)

lemma char_code_eqD:
  "char_code c = 34 \<Longrightarrow> c = CHR 0x22" "char_code c = 92 \<Longrightarrow> c = CHR 0x5C" "char_code c = 10 \<Longrightarrow> c = CHR 0x0A"
  "char_code c = 13 \<Longrightarrow> c = CHR 0x0D" "char_code c = 9 \<Longrightarrow> c = CHR 0x09" "char_code c = 12 \<Longrightarrow> c = CHR 0x0C"
  "char_code c = 8 \<Longrightarrow> c = CHR 0x08"
  by (rule char_code_eq [THEN iffD1], simp add: char_code_def)+

lemma json_chars_escape:
  assumes "char_code c < 128"
  shows "json_chars (Suc n) (json_escape c @ t) = prefix_chars [c] (json_chars n t)"
proof -
  consider "char_code c = 34" | "char_code c = 92" | "char_code c = 10" | "char_code c = 13" | "char_code c = 9"
    | "char_code c = 12" | "char_code c = 8"
    | "char_code c \<notin> {34, 92, 10, 13, 9, 12, 8}" "char_code c < 32 \<or> 127 \<le> char_code c"
    | "char_code c \<notin> {34, 92, 10, 13, 9, 12, 8}" "32 \<le> char_code c" "char_code c < 127"
    by force
  then show ?thesis
  proof cases
    case 8
    have "json_escape c = CHR 0x5C # CHR ''u'' # ''00'' @ [hex_digit (char_code c div 16), hex_digit (char_code c mod 16)]"
      using 8 by (auto simp: json_escape_def Let_def)
    moreover have "utf8 (char_code c) = [c]" using assms by (simp add: utf8_def)
    ultimately show ?thesis
      using hex4_escape [OF assms, of t] assms by simp
  next
    case 9
    have "json_escape c = [c]" using 9 by (auto simp: json_escape_def Let_def)
    moreover have "c \<noteq> CHR 0x22" "c \<noteq> CHR 0x5C" using 9 by (auto simp: char_code_def)
    ultimately show ?thesis using 9 by simp
  qed (drule char_code_eqD, simp add: json_escape_def Let_def char_code_def json_escapes_def)+
qed

lemma json_chars_escapes:
  "ascii s \<Longrightarrow> length s < n \<Longrightarrow> json_chars n (concat (map json_escape s) @ CHR 0x22 # r) = Some (s, r)"
proof (induction s arbitrary: n)
  case Nil
  then show ?case by (cases n) auto
next
  case (Cons c s)
  then obtain m where "n = Suc m" "length s < m" by (cases n) auto
  then show ?case using Cons by (simp add: ascii_def json_chars_escape prefix_chars_def del: json_chars.simps)
qed

lemma json_value_string:
  "ascii s \<Longrightarrow> length s < n \<Longrightarrow> json_value pf (Suc n) (json_string s @ r) = Some (PStr s, r)"
  by (simp add: json_string_def json_chars_escapes)

lemma skip_ws_quote [simp]: "skip_ws (CHR 0x22 # s) = CHR 0x22 # s"
  by (simp add: skip_ws_def char_code_def)

lemma skip_ws_json_string: "skip_ws (json_string s @ r) = json_string s @ r"
  by (simp add: json_string_def)

lemma skip_ws_space: "skip_ws (CHR '' '' # s) = skip_ws s"
  by (simp add: skip_ws_def char_code_def)

lemma json_string_length: "length s < length (json_string s)"
proof -
  have "length s \<le> length (concat (map json_escape s))"
    by (induction s) (auto simp: json_escape_def Let_def)
  then show ?thesis by (simp add: json_string_def)
qed

text \<open>The text of an object whose values are strings.\<close>

definition string_member :: "string \<times> string \<Rightarrow> string" where
  "string_member kv = json_string (fst kv) @ '': '' @ json_string (snd kv)"

lemma json_member_last:
  assumes "ascii k" "ascii v" "length k < n" "length v < n"
  shows "json_members pf (Suc (Suc n)) (string_member (k, v) @ CHR ''}'' # r) = Some ([(k, PStr v)], r)"
proof -
  have "json_value pf (Suc n) (json_string v @ CHR ''}'' # r) = Some (PStr v, CHR ''}'' # r)"
    using assms by (intro json_value_string) auto
  moreover have "json_chars (Suc n) (concat (map json_escape k) @ CHR 0x22 # t) = Some (k, t)" for t
    using assms by (intro json_chars_escapes) auto
  ultimately show ?thesis
    by (simp add: string_member_def json_string_def [of k] skip_ws_def char_code_def json_string_def [of v])
qed

lemma json_member_next:
  assumes "ascii k" "ascii v" "length k < n" "length v < n"
  shows "json_members pf (Suc (Suc n)) (string_member (k, v) @ '', '' @ string_member kv @ r) =
    map_option (apfst ((#) (k, PStr v))) (json_members pf (Suc n) (string_member kv @ r))"
proof -
  have "json_value pf (Suc n) (json_string v @ CHR '','' # t) = Some (PStr v, CHR '','' # t)" for t
    using assms by (intro json_value_string) auto
  moreover have "json_chars (Suc n) (concat (map json_escape k) @ CHR 0x22 # t) = Some (k, t)" for t
    using assms by (intro json_chars_escapes) auto
  ultimately show ?thesis
    by (simp add: string_member_def json_string_def [of k] json_string_def [of "fst kv"] skip_ws_def char_code_def
        json_string_def [of v])
qed

lemma string_member_length: "length (fst kv) + length (snd kv) + 4 \<le> length (string_member kv)"
  using json_string_length [of "fst kv"] json_string_length [of "snd kv"] by (simp add: string_member_def)

lemma json_value_object:
  "json_value pf (Suc n) (CHR ''{'' # string_member kv @ r) =
    map_option (apfst (\<lambda>d. PDict (dict_comp fst snd d))) (json_members pf n (string_member kv @ r))"
  by (simp add: string_member_def json_string_def)

lemma json_loads_one:
  assumes "ascii k" "ascii v"
  shows "json_loads pf (CHR ''{'' # string_member (k, v) @ ''}'') = Some (PDict [(k, PStr v)])"
proof -
  let ?s = "CHR ''{'' # string_member (k, v) @ ''}''"
  define n where "n = 2 * length ?s - 1"
  have fuel: "2 * length ?s + 2 = Suc (Suc (Suc n))" and n: "length k < n" "length v < n"
    using string_member_length [of "(k, v)"] by (simp_all add: n_def)
  have "skip_ws ?s = ?s" by (simp add: skip_ws_def char_code_def)
  moreover have "json_value pf (2 * length ?s + 2) ?s = Some (PDict [(k, PStr v)], [])"
    unfolding fuel json_value_object json_member_last [OF assms n] by (simp add: dict_comp_def)
  ultimately show ?thesis by (simp only: json_loads_def) (simp add: skip_ws_def)
qed

lemma json_loads_two:
  assumes "ascii k" "ascii v" "ascii k2" "ascii v2" "k \<noteq> k2"
  shows "json_loads pf (CHR ''{'' # string_member (k, v) @ '', '' @ string_member (k2, v2) @ ''}'') =
    Some (PDict [(k, PStr v), (k2, PStr v2)])"
proof -
  let ?s = "CHR ''{'' # string_member (k, v) @ '', '' @ string_member (k2, v2) @ ''}''"
  define n where "n = 2 * length ?s - 2"
  have fuel: "2 * length ?s + 2 = Suc (Suc (Suc (Suc n)))"
    and n: "length k < Suc n" "length v < Suc n" "length k2 < n" "length v2 < n"
    using string_member_length [of "(k, v)"] string_member_length [of "(k2, v2)"] by (simp_all add: n_def)
  have "skip_ws ?s = ?s" by (simp add: skip_ws_def char_code_def)
  moreover have "json_value pf (2 * length ?s + 2) ?s = Some (PDict [(k, PStr v), (k2, PStr v2)], [])"
    unfolding fuel json_value_object json_member_next [OF assms(1,2) n(1,2)] json_member_last [OF assms(3,4) n(3,4)]
    using assms(5) by (simp add: dict_comp_def)
  ultimately show ?thesis by (simp only: json_loads_def) (simp add: skip_ws_def)
qed

end
