(* ===== verification/Json_Roundtrip.thy ===== *)
theory Json_Roundtrip
  imports Server_Encoding
begin

text \<open>
  Reading back what \<open>json.dumps\<close> wrote, for documents of nested lists and dictionaries with ASCII
  strings, integers, booleans and \<open>None\<close>: the encoder and the decoder of \<open>Server_Encoding\<close> are
  those of Python's standard library, which the client's files go through as well.
\<close>

section \<open>Documents\<close>

text \<open>A dictionary has its keys once; \<open>int\<close> reads at most 4300 digits.\<close>

fun json_document :: "pyval \<Rightarrow> bool" where
  "json_document PNone = True"
| "json_document (PBool b) = True"
| "json_document (PInt i) = (length (nat_str (nat \<bar>i\<bar>)) \<le> 4300)"
| "json_document (PStr s) = ascii s"
| "json_document (PList vs) = list_all json_document vs"
| "json_document (PDict d) = (distinct (keys d) \<and> list_all (\<lambda>(k, v). ascii k \<and> json_document v) d)"
| "json_document _ = False"

text \<open>What comes back: the same document, its dictionaries in the order of their keys if they were sorted.\<close>

fun json_image :: "bool \<Rightarrow> pyval \<Rightarrow> pyval" where
  "json_image sort_keys (PList vs) = PList (map (json_image sort_keys) vs)"
| "json_image sort_keys (PDict d) =
     (let d' = map (\<lambda>(k, v). (k, json_image sort_keys v)) d in
      PDict (if sort_keys then sort_key fst d' else d'))"
| "json_image sort_keys v = v"

section \<open>Numbers\<close>

lemma nat_str_first: "nat_str n \<noteq> [] \<and> (hd (nat_str n) = CHR ''0'' \<longrightarrow> n = 0)"
proof (induction n rule: nat_str.induct)
  case (1 n)
  have "digit n = CHR ''0'' \<Longrightarrow> n = 0" if "n < 10"
    using char_code_digit [OF that] by (auto simp: char_code_def)
  with 1 show ?case
    by (subst (1 2) nat_str.simps) auto
qed

lemma nat_str_zero: "nat_str 0 = ''0''"
  by code_simp

lemma parse_digits_value:
  "list_all is_digit s \<Longrightarrow> parse_digits (int n) s = Some (int (foldl (\<lambda>n c. 10 * n + (char_code c - 48)) n s))"
proof (induction s arbitrary: n)
  case (Cons c s)
  with Cons.IH [of "10 * n + (char_code c - 48)"] show ?case by simp
qed simp

lemma parse_nat_str:
  assumes "length (nat_str n) \<le> 4300"
  shows "parse_nat (nat_str n) = Some (int n)"
proof -
  have "length (filter is_digit (nat_str n)) \<le> 4300"
    by (rule order_trans [OF length_filter_le assms])
  moreover have "is_digit (hd (nat_str n))"
    using is_digit_nat_str [of n] nat_str_first [of n] by (cases "nat_str n") auto
  ultimately show ?thesis
    using nat_str_first [of n] parse_digits_value [OF is_digit_nat_str, of 0 n] digits_value_nat_str [of n]
    by (simp add: parse_nat_def digits_value_def)
qed

lemma digit_no_space: "is_digit c \<Longrightarrow> \<not> is_space c"
  by (auto simp: is_digit_def is_space_def)

lemma strip_id: "s \<noteq> [] \<Longrightarrow> \<not> is_space (hd s) \<Longrightarrow> \<not> is_space (last s) \<Longrightarrow> strip s = s"
  by (simp add: strip_def dropWhile_eq_self_iff [THEN iffD2] hd_rev)

lemma parse_int_str:
  assumes "length (nat_str (nat \<bar>i\<bar>)) \<le> 4300"
  shows "parse_int (int_str i) = Some i"
proof -
  have ds: "nat_str n \<noteq> []" "\<not> is_space (hd (nat_str n))" "\<not> is_space (last (nat_str n))"
      "is_digit (hd (nat_str n))" for n
    using is_digit_nat_str [of n] nat_str_first [of n]
    by (auto simp: list_all_iff intro!: digit_no_space)
  show ?thesis
  proof (cases "i < 0")
    case True
    have "strip (CHR ''-'' # nat_str (nat (- i))) = CHR ''-'' # nat_str (nat (- i))"
      using ds [of "nat (- i)"] by (intro strip_id) (auto simp: is_space_def char_code_def)
    with True parse_nat_str [of "nat (- i)"] assms show ?thesis
      by (simp add: int_str_def parse_int_def)
  next
    case False
    obtain c cs where s: "nat_str (nat i) = c # cs" using ds(1) [of "nat i"] by (cases "nat_str (nat i)") auto
    with ds(4) [of "nat i"] have "is_digit c" by simp
    then have "c \<noteq> CHR ''-''" "c \<noteq> CHR ''+''" by (auto simp: is_digit_def char_code_def)
    moreover have "strip (nat_str (nat i)) = nat_str (nat i)" by (rule strip_id [OF ds(1-3)])
    ultimately show ?thesis
      using False parse_nat_str [of "nat i"] assms by (simp add: int_str_def parse_int_def s)
  qed
qed

text \<open>What ends a number: nothing more, or the end of an element or of its list or dictionary.\<close>

definition closes :: "string \<Rightarrow> bool" where
  "closes r \<longleftrightarrow> r = [] \<or> hd r \<in> {CHR '','', CHR '']'', CHR ''}''}"

lemma takeWhile_digits:
  assumes "closes r"
  shows "takeWhile is_digit (nat_str n @ r) = nat_str n"
proof -
  have "\<not> is_digit (hd r)" if "r \<noteq> []"
    using assms that by (auto simp: closes_def is_digit_def char_code_def)
  with is_digit_nat_str [of n] show ?thesis
    by (cases r) (auto simp: list_all_iff takeWhile_append)
qed

lemma json_number_parts:
  assumes sign: "takeWhile (\<lambda>c. c = CHR ''-'') (take 1 (sign @ ds @ r)) = sign"
    and ds: "(if take 1 (ds @ r) = ''0'' then ''0'' else takeWhile is_digit (ds @ r)) = ds" "ds \<noteq> []"
    and r: "take 1 r \<noteq> ''.''" "takeWhile (\<lambda>c. c \<in> {CHR ''e'', CHR ''E''}) (take 1 r) = []"
  shows "json_number pf (sign @ ds @ r) = map_option (\<lambda>i. (PInt i, r)) (parse_int (sign @ ds))"
proof -
  have drops: "drop (length sign) (sign @ ds @ r) = ds @ r" "drop (length ds) (ds @ r) = r" "drop (length []) r = r"
    by simp_all
  show ?thesis
    unfolding json_number_def sign
    unfolding Let_def [of sign] drops(1) Let_def [of "ds @ r"] ds(1)
    unfolding Let_def [of ds] drops(2) Let_def [of r] if_not_P [OF r(1)]
    unfolding Let_def [of "[]"] simp_thms if_True drops(3) Let_def [of r] r(2)
    unfolding Let_def [of "[]"] simp_thms if_True drops(3) Let_def [of r]
    by (simp add: ds(2) Let_def)
qed

lemma json_number_str:
  assumes "closes r" and "length (nat_str (nat \<bar>i\<bar>)) \<le> 4300"
  shows "json_number pf (int_str i @ r) = Some (PInt i, r)"
proof -
  define n where "n = nat \<bar>i\<bar>"
  define sign where "sign = (if i < 0 then ''-'' else [])"
  have s: "int_str i = sign @ nat_str n" by (auto simp: int_str_def sign_def n_def)
  obtain c cs where ds: "nat_str n = c # cs" using nat_str_first [of n] by (cases "nat_str n") auto
  have "is_digit c" using is_digit_nat_str [of n] by (simp add: ds)
  then have c: "c \<noteq> CHR ''-''" by (auto simp: is_digit_def char_code_def)
  have "json_number pf (sign @ nat_str n @ r) = map_option (\<lambda>i. (PInt i, r)) (parse_int (sign @ nat_str n))"
  proof (rule json_number_parts)
    show "takeWhile (\<lambda>c. c = CHR ''-'') (take 1 (sign @ nat_str n @ r)) = sign"
      using c by (simp add: sign_def ds)
    show "(if take 1 (nat_str n @ r) = ''0'' then ''0'' else takeWhile is_digit (nat_str n @ r)) = nat_str n"
      using takeWhile_digits [OF assms(1), of n] nat_str_first [of n] by (cases "n = 0") (auto simp: ds nat_str_zero)
    show "take 1 r \<noteq> ''.''" "takeWhile (\<lambda>c. c \<in> {CHR ''e'', CHR ''E''}) (take 1 r) = []"
      using assms(1) by (cases r; auto simp: closes_def)+
  qed (simp add: ds)
  then show ?thesis using parse_int_str [OF assms(2)] by (simp add: s)
qed

section \<open>Elements and members\<close>

text \<open>Texts that start with a value, and what reading one from them gives.\<close>

definition starts_value :: "string \<Rightarrow> bool" where
  "starts_value s \<longleftrightarrow> s \<noteq> [] \<and> char_code (hd s) \<notin> {32, 9, 10, 13} \<and> hd s \<notin> {CHR '']'', CHR ''}''}"

definition value_text :: "(string \<Rightarrow> pyfloat) \<Rightarrow> pyval \<Rightarrow> string \<Rightarrow> bool" where
  "value_text pf v s \<longleftrightarrow> starts_value s \<and>
     (\<forall>n r. closes r \<longrightarrow> 2 * length s \<le> n \<longrightarrow> json_value pf n (s @ r) = Some (v, r))"

lemma value_textD:
  "value_text pf v s \<Longrightarrow> closes r \<Longrightarrow> 2 * length s \<le> n \<Longrightarrow> json_value pf n (s @ r) = Some (v, r)"
  by (simp add: value_text_def)

lemma skip_ws_starts: "starts_value s \<Longrightarrow> skip_ws (s @ r) = s @ r"
  by (cases s) (auto simp: starts_value_def skip_ws_def)

lemma skip_ws_closes: "closes r \<Longrightarrow> skip_ws r = r"
  by (cases r) (auto simp: closes_def skip_ws_def char_code_def)

lemma closes_intros: "closes []" "closes (CHR '','' # r)" "closes (CHR '']'' # r)" "closes (CHR ''}'' # r)"
  by (simp_all add: closes_def)

lemma starts_join: "ss \<noteq> [] \<Longrightarrow> list_all starts_value ss \<Longrightarrow> starts_value (join sep ss)"
  by (cases "(sep, ss)" rule: join.cases) (auto simp: starts_value_def)

lemma starts_value_take: "starts_value s \<Longrightarrow> take 1 (s @ r) \<noteq> '']'' \<and> take 1 (s @ r) \<noteq> ''}''"
  by (cases s) (auto simp: starts_value_def)

lemma json_elems_join:
  assumes "list_all2 (value_text pf) vs ss" and "vs \<noteq> []" and "2 * length (join '', '' ss) + 1 \<le> n"
  shows "json_elems pf n (join '', '' ss @ CHR '']'' # r) = Some (vs, r)"
  using assms
proof (induction vs ss arbitrary: n rule: list_all2_induct)
  case (Cons v vs s ss)
  from Cons.prems(2) obtain m where n: "n = Suc m" by (cases n) auto
  show ?case
  proof (cases vs)
    case Nil
    then have "ss = []" using Cons.hyps(2) by simp
    with Nil n Cons.prems(2) value_textD [OF Cons.hyps(1), of "CHR '']'' # r" m] show ?thesis
      by (simp add: closes_intros skip_ws_closes)
  next
    case (Cons v' vs')
    with Cons.hyps(2) obtain s' ss' where ss: "ss = s' # ss'" by (cases ss) auto
    have "list_all starts_value ss"
      using Cons.hyps(2) by (auto simp: list_all2_conv_all_nth list_all_length value_text_def)
    then have start: "skip_ws (join '', '' ss @ t) = join '', '' ss @ t" for t
      using ss by (intro skip_ws_starts starts_join) auto
    have "json_value pf m (s @ '', '' @ join '', '' ss @ CHR '']'' # r) = Some (v, '', '' @ join '', '' ss @ CHR '']'' # r)"
      using n Cons.prems(2) by (intro value_textD [OF Cons.hyps(1)]) (auto simp: closes_def ss)
    moreover have "json_elems pf m (join '', '' ss @ CHR '']'' # r) = Some (vs, r)"
      using n Cons.prems(2) Cons by (intro Cons.IH) (auto simp: ss)
    ultimately show ?thesis
      by (simp add: n ss skip_ws_space start [unfolded ss] skip_ws_closes [unfolded closes_def])
  qed
qed simp

definition member_text :: "(string \<Rightarrow> pyfloat) \<Rightarrow> string \<times> pyval \<Rightarrow> string \<Rightarrow> bool" where
  "member_text pf kv s \<longleftrightarrow> ascii (fst kv) \<and>
     (\<exists>t. s = json_string (fst kv) @ '': '' @ t \<and> value_text pf (snd kv) t)"

lemma json_member_key:
  assumes "ascii k" and "value_text pf v t" and "closes r" and "2 * length (json_string k @ '': '' @ t) \<le> n"
  shows "json_members pf (Suc n) ((json_string k @ '': '' @ t) @ r) =
    (if take 1 r = ''}'' then Some ([(k, v)], drop 1 r)
     else if take 1 r = '','' then map_option (apfst ((#) (k, v))) (json_members pf n (skip_ws (drop 1 r)))
     else None)"
proof -
  have "json_chars n (concat (map json_escape k) @ CHR 0x22 # '': '' @ t @ r) = Some (k, '': '' @ t @ r)"
    using assms(4) json_string_length [of k] by (intro json_chars_escapes [OF assms(1)]) auto
  moreover have "skip_ws ('' '' @ t @ r) = t @ r"
    using assms(2) by (simp add: skip_ws_space skip_ws_starts value_text_def)
  moreover have "json_value pf n (t @ r) = Some (v, r)"
    using assms(4) by (intro value_textD [OF assms(2,3)]) simp
  moreover have "skip_ws ('': '' @ t @ r) = '': '' @ t @ r"
    by (simp add: skip_ws_def char_code_def)
  ultimately show ?thesis
    by (simp add: json_string_def skip_ws_closes [OF assms(3)])
qed

lemma starts_member: "starts_value (json_string k @ s)"
  by (simp add: starts_value_def json_string_def char_code_def)

lemma json_members_join:
  assumes "list_all2 (member_text pf) d ss" and "d \<noteq> []" and "2 * length (join '', '' ss) + 1 \<le> n"
  shows "json_members pf n (join '', '' ss @ CHR ''}'' # r) = Some (d, r)"
  using assms
proof (induction d ss arbitrary: n rule: list_all2_induct)
  case (Cons kv d s ss)
  from Cons.prems(2) obtain m where n: "n = Suc m" by (cases n) auto
  obtain k v where kv: "kv = (k, v)" by fastforce
  from Cons.hyps(1) obtain t where k: "ascii k" and s: "s = json_string k @ '': '' @ t" and t: "value_text pf v t"
    by (auto simp: member_text_def kv)
  show ?case
  proof (cases d)
    case Nil
    then have "ss = []" using Cons.hyps(2) by simp
    with Nil n Cons.prems(2) json_member_key [OF k t, of "CHR ''}'' # r" m] show ?thesis
      by (simp add: closes_intros s kv)
  next
    case (Cons kv' d')
    with Cons.hyps(2) obtain s' ss' where ss: "ss = s' # ss'" by (cases ss) auto
    have "list_all starts_value ss"
      using Cons.hyps(2) by (auto simp: list_all2_conv_all_nth list_all_length member_text_def starts_member)
    then have start: "skip_ws (join '', '' ss @ t) = join '', '' ss @ t" for t
      using ss by (intro skip_ws_starts starts_join) auto
    have "json_members pf m (join '', '' ss @ CHR ''}'' # r) = Some (d, r)"
      using n Cons.prems(2) Cons by (intro Cons.IH) (auto simp: ss)
    with json_member_key [OF k t, of "'', '' @ join '', '' ss @ CHR ''}'' # r" m] n Cons.prems(2) show ?thesis
      by (simp add: s kv ss skip_ws_space start [unfolded ss] closes_intros)
  qed
qed simp

section \<open>Values\<close>

lemma sort_key_map: "sort_key fst (map (\<lambda>(k, v). (k, f v)) d) = map (\<lambda>(k, v). (k, f v)) (sort_key fst d)"
proof (induction d)
  case (Cons x d)
  have "insort_key fst ((\<lambda>(k, v). (k, f v)) x) (map (\<lambda>(k, v). (k, f v)) ys) =
      map (\<lambda>(k, v). (k, f v)) (insort_key fst x ys)" for ys
    by (induction ys) (auto simp: case_prod_unfold)
  with Cons show ?case by simp
qed simp

lemma not_digit:
  "is_digit c \<Longrightarrow> c \<notin> {CHR 0x22, CHR ''{'', CHR ''['', CHR ''n'', CHR ''t'', CHR ''f'', CHR ''N'', CHR ''I'', CHR ''-'',
     CHR '']'', CHR ''}''} \<and> char_code c \<notin> {32, 9, 10, 13}"
  by (auto simp: is_digit_def char_code_def)

lemma int_text:
  assumes "length (nat_str (nat \<bar>i\<bar>)) \<le> 4300"
  shows "value_text pf (PInt i) (int_str i)"
proof -
  have ds: "\<exists>d ds. nat_str n = d # ds \<and> is_digit d" for n
    using nat_str_first [of n] is_digit_nat_str [of n] by (cases "nat_str n") auto
  have shape: "(\<exists>d ds. int_str i = d # ds \<and> is_digit d) \<or> (\<exists>d ds. int_str i = CHR ''-'' # d # ds \<and> is_digit d)"
    using ds [of "nat i"] ds [of "nat (- i)"] by (auto simp: int_str_def)
  have "json_value pf (Suc n) (int_str i @ r) = json_number pf (int_str i @ r)" for n r
    using shape
  proof (elim disjE exE conjE)
    fix d ds
    assume "int_str i = d # ds" and "is_digit d"
    with not_digit [of d] show ?thesis by (simp add: starts_def)
  next
    fix d ds
    assume "int_str i = CHR ''-'' # d # ds" and "is_digit d"
    with not_digit [of d] show ?thesis by (simp add: starts_def)
  qed
  note val = this
  have "json_value pf n (int_str i @ r) = Some (PInt i, r)" if "closes r" "2 * length (int_str i) \<le> n" for n r
  proof -
    from that(2) shape obtain m where "n = Suc m" by (cases n) auto
    then show ?thesis by (simp only: val json_number_str [OF that(1) assms])
  qed
  moreover have "starts_value (int_str i)"
    using shape by (auto simp: starts_value_def char_code_def dest!: not_digit)
  ultimately show ?thesis by (simp add: value_text_def)
qed

lemma string_text:
  assumes "ascii s"
  shows "value_text pf (PStr s) (json_string s)"
proof -
  have "json_value pf n (json_string s @ r) = Some (PStr s, r)" if "2 * length (json_string s) \<le> n" for n r
    using that json_string_length [of s] json_value_string [OF assms, of "n - 1" pf r]
    by (cases n) (auto simp del: json_value.simps)
  then show ?thesis
    using starts_member [of s "[]"] by (simp add: value_text_def)
qed

lemma word_text:
  "value_text pf PNone ''null''" "value_text pf (PBool True) ''true''" "value_text pf (PBool False) ''false''"
proof -
  have "json_value pf (Suc n) (''null'' @ r) = Some (PNone, r)"
    "json_value pf (Suc n) (''true'' @ r) = Some (PBool True, r)"
    "json_value pf (Suc n) (''false'' @ r) = Some (PBool False, r)" for n r
    by (simp_all add: starts_def)
  then have "2 \<le> n \<longrightarrow> json_value pf n (''null'' @ r) = Some (PNone, r) \<and>
      json_value pf n (''true'' @ r) = Some (PBool True, r) \<and> json_value pf n (''false'' @ r) = Some (PBool False, r)" for n r
    by (cases n) (simp_all only: append.simps, simp_all)
  then show "value_text pf PNone ''null''" "value_text pf (PBool True) ''true''" "value_text pf (PBool False) ''false''"
    by (simp_all add: value_text_def starts_value_def char_code_def)
qed

lemma list_text:
  assumes "list_all2 (value_text pf) vs ss"
  shows "value_text pf (PList vs) (''['' @ join '', '' ss @ '']'')"
  unfolding value_text_def
proof (intro conjI allI impI)
  fix n r
  assume n: "2 * length (''['' @ join '', '' ss @ '']'') \<le> n"
  then obtain m where m: "n = Suc m" by (cases n) auto
  show "json_value pf n ((''['' @ join '', '' ss @ '']'') @ r) = Some (PList vs, r)"
  proof (cases "vs = []")
    case True
    then show ?thesis using assms by (simp add: m skip_ws_closes closes_intros)
  next
    case False
    have "list_all starts_value ss" and "ss \<noteq> []"
      using assms False by (auto simp: list_all2_conv_all_nth list_all_length value_text_def)
    then have "starts_value (join '', '' ss)" by (intro starts_join)
    with json_elems_join [OF assms False, of m r] n show ?thesis
      by (simp add: m skip_ws_starts starts_value_take [of _ "CHR '']'' # r", simplified])
  qed
qed (simp add: starts_value_def char_code_def)

lemma dict_text:
  assumes "list_all2 (member_text pf) d ss" and "distinct (keys d)"
  shows "value_text pf (PDict d) (''{'' @ join '', '' ss @ ''}'')"
  unfolding value_text_def
proof (intro conjI allI impI)
  fix n r
  assume n: "2 * length (''{'' @ join '', '' ss @ ''}'') \<le> n"
  then obtain m where m: "n = Suc m" by (cases n) auto
  show "json_value pf n ((''{'' @ join '', '' ss @ ''}'') @ r) = Some (PDict d, r)"
  proof (cases "d = []")
    case True
    then show ?thesis using assms by (simp add: m skip_ws_closes closes_intros)
  next
    case False
    have "list_all starts_value ss" and "ss \<noteq> []"
      using assms(1) False by (auto simp: list_all2_conv_all_nth list_all_length member_text_def starts_member)
    then have "starts_value (join '', '' ss)" by (intro starts_join)
    moreover have "dict_comp fst snd d = d"
      using dict_comp_distinct_eq [OF assms(2), of snd] by simp
    ultimately show ?thesis
      using json_members_join [OF assms(1) False, of m r] n
      by (simp add: m skip_ws_starts starts_value_take [of _ "CHR ''}'' # r", simplified])
  qed
qed (simp add: starts_value_def char_code_def)

lemma json_dumps_text:
  "json_document v \<Longrightarrow> \<exists>s. json_dumps sk fr v = Inr s \<and> value_text pf (json_image sk v) s"
proof (induction sk fr v rule: json_dumps.induct)
  case (1 sk fr v)
  note unfold = json_dumps.simps [of sk fr v]
  show ?case
  proof (cases v)
    case (PInt i)
    then show ?thesis using 1(3) unfold by (simp add: int_text)
  next
    case (PStr s)
    then show ?thesis using 1(3) unfold by (simp add: string_text)
  next
    case (PList vs)
    then have "\<forall>x \<in> set vs. \<exists>s. json_dumps sk fr x = Inr s \<and> value_text pf (json_image sk x) s"
      using 1(1) [OF PList] 1(3) by (simp add: list_all_iff)
    then obtain f where f: "\<forall>x \<in> set vs. json_dumps sk fr x = Inr (f x) \<and> value_text pf (json_image sk x) (f x)"
      by metis
    then have "rmap (json_dumps sk fr) vs = Inr (map f vs)"
      by (simp add: rmap_Inr_iff list_all2_conv_all_nth)
    moreover have "list_all2 (value_text pf) (map (json_image sk) vs) (map f vs)"
      using f by (simp add: list_all2_conv_all_nth)
    ultimately show ?thesis
      using list_text [of pf "map (json_image sk) vs" "map f vs"]
      by (simp add: PList json_dumps.simps [of sk fr "PList vs"])
  next
    case (PDict d)
    define d' where "d' = (if sk then sort_key fst d else d)"
    have d': "set d' = set d" "distinct (keys d')"
      using 1(3) by (simp_all add: d'_def PDict distinct_map distinct_sort)
    have "\<forall>x \<in> set d'. \<exists>s. json_dumps sk fr (snd x) = Inr s \<and> value_text pf (json_image sk (snd x)) s"
      using 1(2) [OF PDict] 1(3) d'(1) by (fastforce simp: PDict list_all_iff d'_def)
    then obtain f where f: "\<forall>x \<in> set d'. json_dumps sk fr (snd x) = Inr (f x) \<and> value_text pf (json_image sk (snd x)) (f x)"
      by metis
    define member where "member = (\<lambda>x. json_string (fst x) @ '': '' @ f x)"
    have "rmap (\<lambda>item. rbind (json_dumps sk fr (snd item)) (\<lambda>s. Inr (json_string (fst item) @ '': '' @ s))) d' =
        Inr (map member d')"
      using f by (simp add: rmap_Inr_iff list_all2_conv_all_nth member_def)
    moreover have "list_all2 (member_text pf) (map (\<lambda>(k, v). (k, json_image sk v)) d') (map member d')"
      using f 1(3) d'(1)
      by (auto simp: list.rel_map list_all2_same member_text_def member_def PDict list_all_iff case_prod_unfold)
    moreover have "json_image sk (PDict d) = PDict (map (\<lambda>(k, v). (k, json_image sk v)) d')"
      by (simp add: Let_def d'_def sort_key_map)
    moreover have "distinct (keys (map (\<lambda>(k, v). (k, json_image sk v)) d'))"
      using d'(2) by (simp add: comp_def case_prod_unfold)
    ultimately show ?thesis
      using dict_text [of pf "map (\<lambda>(k, v). (k, json_image sk v)) d'" "map member d'"]
      by (simp add: PDict json_dumps.simps [of sk fr "PDict d"] d'_def [symmetric])
  next
    case PNone
    then show ?thesis using unfold word_text by simp
  next
    case (PBool b)
    then show ?thesis using unfold word_text by simp
  qed (use 1 in simp_all)
qed

text \<open>Every document is written, and reading the text gives the document back.\<close>

lemma json_round_trip:
  assumes "json_document v"
  shows "\<exists>s. json_dumps sk fr v = Inr s \<and> json_loads pf s = Some (json_image sk v)"
proof -
  obtain s where s: "json_dumps sk fr v = Inr s" "value_text pf (json_image sk v) s"
    using json_dumps_text [OF assms] by blast
  then have "skip_ws s = s" "json_value pf (2 * length s + 2) s = Some (json_image sk v, [])"
    using skip_ws_starts [of s "[]"] value_textD [OF s(2), of "[]" "2 * length s + 2"]
    by (simp_all add: value_text_def closes_intros del: json_value.simps)
  then have "json_loads pf s = Some (json_image sk v)"
    by (simp only: json_loads_def option.case prod.case) (simp add: skip_ws_def)
  with s(1) show ?thesis by blast
qed

end
