(* ===== verification/Client_Cli_Correct.thy ===== *)
theory Client_Cli_Correct
  imports Client_Cli Json_Roundtrip
begin

text \<open>
  What the commands of the client promise: \<open>diff\<close> and \<open>dump\<close> only read (they send \<open>GET\<close> requests and fetch
  tokens) and write at most their output file; applying the file that \<open>diff\<close> wrote pushes exactly
  the diffs that are not empty; \<open>push\<close> sends a stream of data points in full batches, up to the
  first element that cannot be read.
\<close>

section \<open>Commands that only read\<close>

definition cli_trace :: "'s cli_world \<Rightarrow> call list" where
  "cli_trace w = wire_trace (cw_client w)"

text \<open>Only \<open>GET\<close> requests (and those for a token) are sent, and only the given file may change.\<close>

definition only_reads :: "string option \<Rightarrow> ('s, 'a) cli \<Rightarrow> bool" where
  "only_reads out m \<longleftrightarrow>
     (\<forall>w. case m w of (r, w') \<Rightarrow>
        (\<exists>cs. cli_trace w' = cli_trace w @ cs \<and> set cs \<subseteq> calls_of {GET}) \<and>
        (\<forall>path. Some path \<noteq> out \<longrightarrow> cw_files w' path = cw_files w path))"

text \<open>The environment variable for unit tests replaces the client by a mock.\<close>

definition in_production :: "'s cli_env \<Rightarrow> 's cli_env" where
  "in_production env = env\<lparr>env_unit_testing := False\<rparr>"

named_theorems reads \<open>what only reads\<close>

lemma only_readsI:
  assumes "\<And>w r w'. m w = (r, w') \<Longrightarrow> \<exists>cs. cli_trace w' = cli_trace w @ cs \<and> set cs \<subseteq> calls_of {GET}"
    and "\<And>w r w' path. m w = (r, w') \<Longrightarrow> Some path \<noteq> out \<Longrightarrow> cw_files w' path = cw_files w path"
  shows "only_reads out m"
  using assms unfolding only_reads_def by (auto split: prod.splits)

lemma only_readsD:
  assumes "only_reads out m" and "m w = (r, w')"
  shows "\<exists>cs. cli_trace w' = cli_trace w @ cs \<and> set cs \<subseteq> calls_of {GET}"
    and "Some path \<noteq> out \<Longrightarrow> cw_files w' path = cw_files w path"
  using spec [OF assms(1) [unfolded only_reads_def], of w] by (simp_all add: assms(2))

lemma only_reads_silent:
  "(\<And>w r w'. m w = (r, w') \<Longrightarrow> cw_client w' = cw_client w \<and> (\<forall>path. Some path \<noteq> out \<longrightarrow> cw_files w' path = cw_files w path)) \<Longrightarrow>
    only_reads out m"
  by (rule only_readsI) (force simp: cli_trace_def intro: exI [of _ "[]"])+

lemma only_reads_bind [reads]:
  assumes m: "only_reads out m" and f: "\<And>x. only_reads out (f x)"
  shows "only_reads out (api_bind m f)"
proof (rule only_readsI)
  fix w r w'
  assume run: "api_bind m f w = (r, w')"
  obtain r1 w1 where m1: "m w = (r1, w1)" by fastforce
  from only_readsD(1) [OF m m1] obtain cs where cs: "cli_trace w1 = cli_trace w @ cs" "set cs \<subseteq> calls_of {GET}" by blast
  show "\<exists>cs. cli_trace w' = cli_trace w @ cs \<and> set cs \<subseteq> calls_of {GET}"
  proof (cases r1)
    case (Inl e)
    then show ?thesis using run m1 cs by (auto simp: api_bind_def)
  next
    case (Inr x)
    then have "f x w1 = (r, w')" using run m1 by (simp add: api_bind_def)
    from only_readsD(1) [OF f this] obtain cs' where "cli_trace w' = cli_trace w1 @ cs'" "set cs' \<subseteq> calls_of {GET}" by blast
    with cs show ?thesis by (intro exI [of _ "cs @ cs'"]) simp
  qed
  fix path
  assume "Some path \<noteq> out"
  with only_readsD(2) [OF m m1] only_readsD(2) [OF f] run m1 show "cw_files w' path = cw_files w path"
    by (cases r1) (auto simp: api_bind_def)
qed

lemma only_reads_basic [reads]:
  "only_reads out (api_lift r)" "only_reads out (api_raise e)" "only_reads out (api_return x)"
  "only_reads out (print_text text)" "only_reads out (read_json env path)"
  by (rule only_reads_silent; auto simp: api_simps print_text_def read_json_def read_file_def api_bind_def split: option.splits)+

lemma only_reads_client [reads]:
  assumes "emits wire_trace (calls_of {GET}) m"
  shows "only_reads out (with_new_client m)"
proof (rule only_readsI)
  fix w r w'
  assume "with_new_client m w = (r, w')"
  then obtain c where c: "m ((cw_client w)\<lparr>cs_headers_cache := None\<rparr>) = (r, c)" "w' = w\<lparr>cw_client := c\<rparr>"
    by (auto simp: with_new_client_def split: prod.splits)
  have "wire_trace ((cw_client w)\<lparr>cs_headers_cache := None\<rparr>) = wire_trace (cw_client w)" by (simp add: wire_trace_def)
  with emitsD [OF assms c(1)] c(2) show "\<exists>cs. cli_trace w' = cli_trace w @ cs \<and> set cs \<subseteq> calls_of {GET}"
    by (simp add: cli_trace_def)
qed (auto simp: with_new_client_def split: prod.splits)

lemma only_reads_output [reads]: "only_reads outfile (write_output env outfile data)"
proof -
  have "only_reads (Some path) (write_json env path data)" for path
    by (rule only_reads_silent) (auto simp: write_json_def split: prod.splits)
  moreover have "only_reads out (case env_dump env False True data of
      (text, None) \<Rightarrow> print_text text | (_, Some e) \<Rightarrow> api_raise e)" for out
    by (auto split: prod.splits option.splits intro: reads)
  ultimately show ?thesis by (auto simp: write_output_def split: option.splits list.splits)
qed

lemma make_fetcher_reads:
  assumes "make_fetcher (in_production env) compose file source_type source name pw = Inr fetcher"
    and "\<And>cred. emits wire_trace (calls_of {GET}) (compose (RequestsRestClient (env_net env) (env_testing env) cred))"
  shows "only_reads out fetcher"
  using assms by (auto simp: make_fetcher_def get_client_def in_production_def split: if_splits intro!: reads)

lemma only_reads_lift_bind: "(\<And>x. r = Inr x \<Longrightarrow> only_reads out (f x)) \<Longrightarrow> only_reads out (api_bind (api_lift r) f)"
  by (cases r) (auto simp: lift_bind intro: only_reads_silent simp: api_bind_def api_lift_def)

lemma diff_skeleton_reads:
  assumes "\<And>cred. emits wire_trace (calls_of {GET}) (fst base_fetch (RequestsRestClient (env_net env) (env_testing env) cred))"
    and "\<And>cred. emits wire_trace (calls_of {GET}) (fst target_fetch (RequestsRestClient (env_net env) (env_testing env) cred))"
  shows "only_reads (do_outfile opts)
    (diff_skeleton (in_production env) opts base_fetch target_fetch algorithm is_empty to_dict)"
  unfolding diff_skeleton_def
  by (intro only_reads_lift_bind only_reads_bind only_reads_output; rule make_fetcher_reads, assumption, rule assms)

lemma dump_skeleton_reads:
  assumes "\<And>cred. emits wire_trace (calls_of {GET}) (fetch (RequestsRestClient (env_net env) (env_testing env) cred))"
  shows "only_reads (po_outfile opts) (dump_skeleton (in_production env) opts fetch to_dict key)"
  unfolding dump_skeleton_def
  by (intro only_reads_lift_bind only_reads_bind only_reads_output only_reads_client)
    (auto simp: get_client_def in_production_def intro: assms)

section \<open>Streams of data points\<close>

lemma stream_chunks_chunks: "stream_chunks n xs None = chunks n xs"
  by (induction n xs rule: chunks.induct) simp_all

lemma stream_of_complete: "rmap f xs = Inr ys \<Longrightarrow> stream_of f xs = (ys, None)"
  by (induction xs arbitrary: ys) (auto simp: monad_simps list_all2_Cons1)

text \<open>The full batches before the exception, then what is left of the stream and the exception.\<close>

lemma stream_chunks_broken:
  assumes "0 < n"
  shows "\<exists>full rest. stream_chunks n xs (Some e) = map (\<lambda>c. (c, None)) full @ [(rest, Some e)] \<and>
    concat full @ rest = xs \<and> (\<forall>c \<in> set full. length c = nat n) \<and> length rest < nat n"
  using assms
proof (induction n xs "Some e" rule: stream_chunks.induct)
  case (1 n)
  then show ?case by (intro exI [of _ "[]"]) simp
next
  case (2 n first iterator)
  show ?case
  proof (cases "length iterator < nat (n - 1)")
    case True
    then show ?thesis using 2 by (intro exI [of _ "[]"] exI [of _ "first # iterator"]) auto
  next
    case False
    then obtain full rest where "stream_chunks n (drop (nat (n - 1)) iterator) (Some e) = map (\<lambda>c. (c, None)) full @ [(rest, Some e)]"
        "concat full @ rest = drop (nat (n - 1)) iterator" "\<forall>c \<in> set full. length c = nat n" "length rest < nat n"
      using 2 by auto
    moreover have "length (first # take (nat (n - 1)) iterator) = nat n" using False 2 by (simp add: min_def)
    ultimately show ?thesis using False 2
      by (intro exI [of _ "(first # take (nat (n - 1)) iterator) # full"] exI [of _ rest])
        (simp add: append.assoc [symmetric])
  qed
qed

section \<open>Files and inputs\<close>

text \<open>
  The file that \<open>diff\<close> writes: a list of the dictionaries of the diffs that are not empty. JSON gives
  a document back as it was written, with the keys of its dictionaries sorted (\<open>sort_keys=True\<close>).
\<close>

definition diff_document :: "('d \<Rightarrow> pydict) \<Rightarrow> 'd list \<Rightarrow> pyval" where
  "diff_document to_dict ds = PList (map (\<lambda>d. PDict (to_dict d)) ds)"

definition json_gives_back :: "'s cli_env \<Rightarrow> pyval \<Rightarrow> bool" where
  "json_gives_back env v \<longleftrightarrow>
     (\<forall>text. env_dump env True True v = (text, None) \<longrightarrow> env_loads env text = Inr (json_image True v))"

text \<open>The encoder and the decoder of the standard library (without its line breaks) do.\<close>

definition std_dump :: "(pyfloat \<Rightarrow> string) \<Rightarrow> bool \<Rightarrow> bool \<Rightarrow> pyval \<Rightarrow> string \<times> py_error option" where
  "std_dump float_repr sort_keys indent v =
     (case Server_Encoding.json_dumps sort_keys float_repr v of Inl e \<Rightarrow> ('''', Some e) | Inr s \<Rightarrow> (s, None))"

definition std_loads :: "(string \<Rightarrow> pyfloat) \<Rightarrow> string \<Rightarrow> pyval result" where
  "std_loads parse_float s =
     (case json_loads parse_float s of None \<Rightarrow> Inl (ValueError ''JSONDecodeError'') | Some v \<Rightarrow> Inr v)"

lemma std_json_gives_back:
  assumes "env_dump env = std_dump float_repr" and "env_loads env = std_loads parse_float" and "json_document v"
  shows "json_gives_back env v"
  using json_round_trip [OF assms(3), of True float_repr parse_float]
  by (auto simp: json_gives_back_def assms(1,2) std_dump_def std_loads_def)

lemma read_diff_document:
  "rbind (py_iter (json_image True (diff_document to_dict ds))) (rmap from_dict) =
     rmap (\<lambda>d. from_dict (json_image True (PDict (to_dict d)))) ds"
proof -
  have "rmap f (map g xs) = rmap (\<lambda>x. f (g x)) xs" for f :: "'x \<Rightarrow> 'y result" and g :: "'z \<Rightarrow> 'x" and xs
    by (induction xs) auto
  then show ?thesis
    by (simp add: diff_document_def py_iter_def comp_def del: json_image.simps(2))
qed

lemma api_bind_split:
  "api_bind m f w = (Inr y, w') \<Longrightarrow> \<exists>x w1. m w = (Inr x, w1) \<and> f x w1 = (Inr y, w')"
  by (auto simp: api_bind_def split: prod.splits sum.splits)

section \<open>Properties\<close>

text \<open>C35: The commands \<open>diff\<close> and \<open>dump\<close> of definitions (of data series, engines, HTTP endpoints and groups;
  \<open>dump datapoints\<close>, which downloads files too, is not one of them) only read: whatever the servers answer, and also when
  they fail half way, they send nothing but \<open>GET\<close> requests and requests for a token, to either
  instance, and leave every file alone but the one given as output.\<close>

theorem diff_and_dump_only_read:
  "only_reads (do_outfile opts) (diff_data_series_definition (in_production env) cc opts aliases regex ids
      consumers permissions revoke remove) \<and>
   only_reads (do_outfile opts) (diff_engine_definition_command (in_production env) cc opts aliases revoke) \<and>
   only_reads (do_outfile opts) (diff_http_endpoint_definition_command (in_production env) cc opts revoke) \<and>
   only_reads (do_outfile opts) (diff_group_definition_command (in_production env) cc opts) \<and>
   only_reads (po_outfile popts) (dump_data_series_definitions (in_production env) cc popts aliases regex ids) \<and>
   only_reads (po_outfile popts) (dump_engine_definitions (in_production env) cc popts aliases) \<and>
   only_reads (po_outfile popts) (dump_http_endpoint_definitions (in_production env) cc popts) \<and>
   only_reads (po_outfile popts) (dump_group_definitions (in_production env) cc popts)"
  unfolding diff_data_series_definition_def diff_engine_definition_command_def diff_http_endpoint_definition_command_def
    diff_group_definition_command_def dump_data_series_definitions_def dump_engine_definitions_def
    dump_http_endpoint_definitions_def dump_group_definitions_def Let_def
  by (intro conjI only_reads_lift_bind; (simp only: split_beta)?; (rule diff_skeleton_reads dump_skeleton_reads);
      simp add: rest.emits_fetch_data_series rest.emits_fetch_engines rest.emits_fetch_http_endpoints rest.emits_fetch_groups)

text \<open>C34: Once \<open>diff\<close> has written its file, applying the file pushes what the diff of the fetched base and
  target found: of its diffs exactly those that are not empty, in order, each as \<open>from_dict\<close> reads it
  from the JSON that \<open>to_dict\<close> and the encoder made of it; if \<open>from_dict\<close> refuses one of them, nothing
  is pushed and its exception is the result. All that is assumed of JSON is that the written
  document comes back with its keys sorted.\<close>

theorem apply_pushes_what_diff_found:
  assumes "\<And>ds. json_gives_back env (diff_document to_dict ds)"
    and "diff_skeleton env opts base_fetch target_fetch algorithm is_empty to_dict w = (Inr u, w1)"
    and "do_outfile opts = Some (c # path)" and "cw_files w2 (c # path) = cw_files w1 (c # path)"
    and "ao_file aopts = Some (c # path)" and "ao_verbose aopts = 0"
  shows "\<exists>base_fetcher target_fetcher base target w3 w4 diffs.
    make_fetcher env (fst base_fetch) (snd base_fetch) (do_base_type opts) (do_base opts) (do_base_compose_user opts)
      (do_base_compose_password opts) = Inr base_fetcher \<and>
    make_fetcher env (fst target_fetch) (snd target_fetch) (do_target_type opts) (do_target opts) (do_target_compose_user opts)
      (do_target_compose_password opts) = Inr target_fetcher \<and>
    base_fetcher w = (Inr base, w3) \<and> target_fetcher w3 = (Inr target, w4) \<and>
    algorithm base target (do_delete_in_base opts) = Inr diffs \<and>
    apply_skeleton env aopts from_dict message push w2 =
      (case rmap (\<lambda>d. from_dict (json_image True (PDict (to_dict d)))) (filter (\<lambda>d. \<not> is_empty d) diffs) of
         Inl e \<Rightarrow> (Inl e, w2)
       | Inr ds \<Rightarrow> with_new_client (push (RequestsRestClient (env_net env) (env_testing env)
           \<lparr>base_url = ao_target aopts, user = ao_compose_user aopts, password = ao_compose_password aopts\<rparr>) ds) w2)"
proof -
  from assms(2) obtain base_fetcher target_fetcher base target w3 w4 diffs where
      run: "make_fetcher env (fst base_fetch) (snd base_fetch) (do_base_type opts) (do_base opts) (do_base_compose_user opts)
        (do_base_compose_password opts) = Inr base_fetcher"
      "make_fetcher env (fst target_fetch) (snd target_fetch) (do_target_type opts) (do_target opts) (do_target_compose_user opts)
        (do_target_compose_password opts) = Inr target_fetcher"
      "base_fetcher w = (Inr base, w3)" "target_fetcher w3 = (Inr target, w4)"
      "algorithm base target (do_delete_in_base opts) = Inr diffs"
    and out: "write_output env (do_outfile opts) (diff_document to_dict (filter (\<lambda>d. \<not> is_empty d) diffs)) w4 = (Inr u, w1)"
    unfolding diff_skeleton_def diff_document_def by (auto simp: api_lift_def dest!: api_bind_split)
  let ?doc = "diff_document to_dict (filter (\<lambda>d. \<not> is_empty d) diffs)"
  from out obtain enc where enc: "env_dump env True True ?doc = (enc, None)" and written: "cw_files w1 (c # path) = Some enc"
    by (auto simp: write_output_def assms(3) write_json_def split: prod.splits option.splits)
  from assms(1) enc have v: "env_loads env enc = Inr (json_image True ?doc)"
    unfolding json_gives_back_def by blast
  from written assms(4) have "cw_files w2 (c # path) = Some enc" by simp
  then have "apply_skeleton env aopts from_dict message push w2 =
      (case rmap (\<lambda>d. from_dict (json_image True (PDict (to_dict d)))) (filter (\<lambda>d. \<not> is_empty d) diffs) of
         Inl e \<Rightarrow> (Inl e, w2)
       | Inr ds \<Rightarrow> with_new_client (push (RequestsRestClient (env_net env) (env_testing env)
           \<lparr>base_url = ao_target aopts, user = ao_compose_user aopts, password = ao_compose_password aopts\<rparr>) ds) w2)"
    unfolding read_diff_document [symmetric]
    by (simp add: apply_skeleton_def read_input_def assms(5,6) read_json_def read_file_def api_bind_def api_lift_def v api_when_def
        api_return_def split: sum.split)
  with run show ?thesis by blast
qed

text \<open>
  A witness over the encoder and decoder of the standard library, with diffs that are just a flag: the
  base is a document with one element, the target one with two, and a diff that is not set is empty.
\<close>

definition flag_to_dict :: "bool \<Rightarrow> pydict" where
  "flag_to_dict b = [(''kind'', PStr ''flag''), (''changed'', PBool b)]"

definition flag_from_dict :: "pyval \<Rightarrow> bool result" where
  "flag_from_dict v = rbind (py_index v ''changed'') (\<lambda>b. case b of PBool b \<Rightarrow> Inr b | _ \<Rightarrow> Inl TypeError)"

definition sample_env :: "unit cli_env" where
  "sample_env =
     \<lparr>env_fuel = 10, env_net = (\<lambda>s rq. (Inl TypeError, 0, s)), env_testing = True, env_unit_testing = False,
      env_mock_responses = PNone, env_converters = sample_converters, env_pylib = sample_pylib, env_codec = sample_codec,
      env_order = (\<lambda>xs. xs), env_loads = std_loads (\<lambda>_. NaN), env_dump = std_dump (\<lambda>_. ''NaN''),
      env_open_rb = (\<lambda>_. Inl TypeError)\<rparr>"

definition sample_options :: diff_options where
  "sample_options =
     \<lparr>do_base = ''base.json'', do_target = ''target.json'', do_outfile = Some ''diff.json'', do_base_type = ''file'',
      do_target_type = ''file'', do_base_compose_user = '''', do_base_compose_password = '''', do_target_compose_user = '''',
      do_target_compose_password = '''', do_delete_in_base = False\<rparr>"

definition sample_apply_options :: apply_options where
  "sample_apply_options =
     \<lparr>ao_file = Some ''diff.json'', ao_target = ''http://a'', ao_compose_user = ''u'', ao_compose_password = ''p'', ao_verbose = 0\<rparr>"

definition sample_files :: "unit cli_world" where
  "sample_files =
     \<lparr>cw_client = sample_state, cw_files =
        [''base.json'' \<mapsto> fst (std_dump (\<lambda>_. ''NaN'') True True (diff_document flag_to_dict [False])),
         ''target.json'' \<mapsto> fst (std_dump (\<lambda>_. ''NaN'') True True (diff_document flag_to_dict [False, True]))],
      cw_stdin = '''', cw_stdout = ''''\<rparr>"

definition flag_fetch :: "(unit client_state APIClient \<Rightarrow> (unit client_state, bool list) api) \<times> (pyval \<Rightarrow> bool list result)" where
  "flag_fetch = (\<lambda>client. api_return [], \<lambda>json. rbind (py_iter json) (rmap flag_from_dict))"

lemma flag_documents: "json_gives_back sample_env (diff_document flag_to_dict ds)"
proof (rule std_json_gives_back)
  have "ascii ''kind'' \<and> ascii ''flag'' \<and> ascii ''changed''" by code_simp
  then show "json_document (diff_document flag_to_dict ds)"
    by (simp add: diff_document_def flag_to_dict_def list_all_iff)
qed (simp_all add: sample_env_def)

definition flag_diff :: "(unit, unit) cli" where
  "flag_diff = diff_skeleton sample_env sample_options flag_fetch flag_fetch
     (\<lambda>base target _. Inr (map (\<lambda>x. x \<notin> set base) target)) (\<lambda>d. \<not> d) flag_to_dict"

lemma flag_diff_run:
  "fst (flag_diff sample_files) = Inr ()"
  "cw_files (snd (flag_diff sample_files)) ''diff.json'' = Some (fst (std_dump (\<lambda>_. ''NaN'') True True (diff_document flag_to_dict [True])))"
  by code_simp+

definition count_push :: "unit client_state APIClient \<Rightarrow> bool list \<Rightarrow> (unit client_state, unit) api" where
  "count_push client ds = api_modify (\<lambda>w. w\<lparr>cs_now := cs_now w + int (length ds)\<rparr>)"

theorem apply_pushes_what_diff_found_witness:
  "\<exists>base target.
     apply_skeleton sample_env sample_apply_options flag_from_dict (\<lambda>n. n) count_push (snd (flag_diff sample_files)) =
       (case rmap (\<lambda>d. flag_from_dict (json_image True (PDict (flag_to_dict d))))
           (filter (\<lambda>d. \<not> \<not> d) (map (\<lambda>x :: bool. x \<notin> set base) target)) of
          Inl e \<Rightarrow> (Inl e, snd (flag_diff sample_files))
        | Inr ds \<Rightarrow> with_new_client (count_push (RequestsRestClient (env_net sample_env) (env_testing sample_env)
            \<lparr>base_url = ''http://a'', user = ''u'', password = ''p''\<rparr>) ds) (snd (flag_diff sample_files)))"
proof -
  have run: "diff_skeleton sample_env sample_options flag_fetch flag_fetch
      (\<lambda>base target _. Inr (map (\<lambda>x. x \<notin> set base) target)) (\<lambda>d. \<not> d) flag_to_dict sample_files =
    (Inr (), snd (flag_diff sample_files))"
    using flag_diff_run(1) unfolding flag_diff_def by (metis prod.collapse)
  have opts: "do_outfile sample_options = Some (CHR ''d'' # ''iff.json'')"
      "ao_file sample_apply_options = Some (CHR ''d'' # ''iff.json'')" "ao_verbose sample_apply_options = 0"
      "ao_target sample_apply_options = ''http://a''" "ao_compose_user sample_apply_options = ''u''"
      "ao_compose_password sample_apply_options = ''p''"
    by (simp_all add: sample_options_def sample_apply_options_def)
  obtain base target diffs where diffs: "Inr (map (\<lambda>x :: bool. x \<notin> set base) target) = (Inr diffs :: bool list result)"
    and applied: "apply_skeleton sample_env sample_apply_options flag_from_dict (\<lambda>n. n) count_push (snd (flag_diff sample_files)) =
       (case rmap (\<lambda>d. flag_from_dict (json_image True (PDict (flag_to_dict d)))) (filter (\<lambda>d. \<not> \<not> d) diffs) of
          Inl e \<Rightarrow> (Inl e, snd (flag_diff sample_files))
        | Inr ds \<Rightarrow> with_new_client (count_push (RequestsRestClient (env_net sample_env) (env_testing sample_env)
            \<lparr>base_url = ''http://a'', user = ''u'', password = ''p''\<rparr>) ds) (snd (flag_diff sample_files)))"
    using apply_pushes_what_diff_found [OF flag_documents run opts(1) refl opts(2,3), of flag_from_dict "\<lambda>n. n" count_push]
    unfolding opts(4-6) by (elim exE conjE) (rule that; assumption)
  from diffs have "diffs = map (\<lambda>x. x \<notin> set base) target" by simp
  with applied show ?thesis by (intro exI [of _ base] exI [of _ target]) (simp only:)
qed

end
