(* ===== verification/Server_Validate.thy ===== *)
theory Server_Validate
  imports Prelude
begin

text \<open>
  Validation of data points on the server: \<open>dataseries/storage/validate\<close>, with the read-only
  descriptions of a data series from \<open>static_ds_information.py\<close> that it consults and the ids of
  \<open>storage/uuid.py\<close>. The payload is validated in place: each validator reads and rewrites the one
  dictionary, which the model passes from one to the next. SHA-256 is the parameter \<open>sha256_hex\<close>.
\<close>

section \<open>What is known of a data series\<close>

record ReadOnlyFact =
  rof_id :: string
  rof_name :: string
  rof_optional :: bool

record ReadOnlyBaseDataSeriesFactRelation =
  rofr_id :: string
  rofr_external_id :: string

record DataSeriesFactQueryInfo =
  fqi_fact :: ReadOnlyFact
  fqi_dataseries_fact :: ReadOnlyBaseDataSeriesFactRelation

record ReadOnlyDataSeries =
  rods_id :: string

record ReadOnlyDimension =
  rod_id :: string
  rod_name :: string
  rod_optional :: bool
  rod_reference :: ReadOnlyDataSeries

record ReadOnlyDataSeries_Dimension =
  rodd_id :: string
  rodd_external_id :: string

record DataSeriesDimensionQueryInfo =
  dqi_dimension :: ReadOnlyDimension
  dqi_dataseries_dimension :: ReadOnlyDataSeries_Dimension

record DataSeriesQueryInfo =
  qi_data_series_id :: string
  qi_float_facts :: "(string \<times> DataSeriesFactQueryInfo) list"
  qi_string_facts :: "(string \<times> DataSeriesFactQueryInfo) list"
  qi_text_facts :: "(string \<times> DataSeriesFactQueryInfo) list"
  qi_timestamp_facts :: "(string \<times> DataSeriesFactQueryInfo) list"
  qi_image_facts :: "(string \<times> DataSeriesFactQueryInfo) list"
  qi_json_facts :: "(string \<times> DataSeriesFactQueryInfo) list"
  qi_boolean_facts :: "(string \<times> DataSeriesFactQueryInfo) list"
  qi_file_facts :: "(string \<times> DataSeriesFactQueryInfo) list"
  qi_dimensions :: "(string \<times> DataSeriesDimensionQueryInfo) list"

record ReadOnlyDataPoint =
  rodp_id :: string
  rodp_data_series_id :: string
  rodp_external_id :: string

type_synonym DataPointAccessor = "string \<Rightarrow> string \<Rightarrow> ReadOnlyDataPoint option"

record ValidationRequest =
  vr_data_point_id :: "string option"
  vr_info :: DataSeriesQueryInfo
  vr_partial :: bool
  vr_bulk_insert :: bool
  vr_external_id_as_dimension_identifier :: bool
  vr_data_point_accessor :: DataPointAccessor

definition gen_uuid :: "(string \<Rightarrow> string) \<Rightarrow> string \<Rightarrow> string \<Rightarrow> string" where
  "gen_uuid sha256_hex data_series_id external_id = data_series_id @ ''-'' @ sha256_hex external_id"

section \<open>Errors\<close>

text \<open>
  An error message is the list of the values that its f-string formats; the texts are kept as far
  as they tell messages apart.
\<close>

type_synonym messages = "pyval list list"
type_synonym errors = "(string \<times> messages) list"

definition append_error :: "errors \<Rightarrow> string \<Rightarrow> pyval list \<Rightarrow> errors" where
  "append_error errors key error =
     AList.update key ((case map_of errors key of None \<Rightarrow> [] | Some es \<Rightarrow> es) @ [error]) errors"

definition errors_value :: "errors \<Rightarrow> pyval" where
  "errors_value errors = PDict (map (\<lambda>(k, ms). (k, PList (map PList ms))) errors)"

definition ensure_payload :: "pydict \<Rightarrow> pydict result" where
  "ensure_payload data =
     (case map_of data ''payload'' of
        None \<Rightarrow> Inl (ValidationError (PStr ''payload is expected to be set''))
      | Some (PDict payload) \<Rightarrow> Inr payload
      | Some (PMultiValueDict _) \<Rightarrow> Inl (APIException ''payload should not be a multi-value dict'')
      | Some _ \<Rightarrow> Inl (ValidationError (PStr ''payload is expected to be an object/dictionary'')))"

section \<open>Dimensions\<close>

definition dimension_external_id :: "DataSeriesDimensionQueryInfo \<Rightarrow> string" where
  "dimension_external_id elem = rodd_external_id (dqi_dataseries_dimension elem)"

definition dimension_series :: "DataSeriesDimensionQueryInfo \<Rightarrow> string" where
  "dimension_series elem = rods_id (rod_reference (dqi_dimension elem))"

definition validate_dim_ids ::
  "(string list \<Rightarrow> string list) \<Rightarrow> pydict \<Rightarrow> errors \<Rightarrow> DataSeriesQueryInfo \<Rightarrow> bool \<Rightarrow> errors" where
  "validate_dim_ids ord attrs errors info partial =
     (let required_dimension_ids = map dimension_external_id (filter (\<lambda>elem.
            dimension_series elem \<noteq> qi_data_series_id info \<and>
            \<not> rod_optional (dqi_dimension elem)) (map snd (qi_dimensions info)));
          difference = set_iter ord (filter (\<lambda>k. k \<notin> set (keys attrs)) required_dimension_ids) in
      if \<not> partial then
        fold (\<lambda>element errors. append_error errors element
          [PStr ''dimension '', PStr element, PStr '' was not set, but is required'']) difference errors
      else errors)"

text \<open>One round of the loop over the dimensions.\<close>

definition validate_dimension ::
  "(string \<Rightarrow> string) \<Rightarrow> bool \<Rightarrow> DataPointAccessor \<Rightarrow> DataSeriesDimensionQueryInfo \<Rightarrow>
     errors \<times> pydict \<Rightarrow> errors \<times> pydict" where
  "validate_dimension sha256_hex use_external_id accessor elem state =
     (let errors = fst state; attrs = snd state; k = dimension_external_id elem;
          series = dimension_series elem in
      case map_of attrs k of
        None \<Rightarrow> state
      | Some PNone \<Rightarrow> state
      | Some (PStr s) \<Rightarrow>
          if s = '''' then (errors, AList.update k PNone attrs)
          else
            (let dp_id = (if use_external_id then gen_uuid sha256_hex series s else s);
                 attrs' = (if use_external_id then AList.update k (PStr dp_id) attrs else attrs);
                 described = (if use_external_id then [PStr ''external id '', PStr s] else [PStr ''id '', PStr s]) in
             case accessor series dp_id of
               None \<Rightarrow> (append_error errors k ([PStr ''DataPoint with ''] @ described @
                 [PStr '' used in dimension '', PStr k, PStr '' does not exist'']), attrs')
             | Some datapoint \<Rightarrow>
                 if rodp_data_series_id datapoint \<noteq> series then
                   (append_error errors k ([PStr ''DataPoint with ''] @ described @
                     [PStr '' used in dimension '', PStr k,
                      PStr ''does not belong to the expected DataSeries '', PStr series]), attrs')
                 else (errors, attrs'))
      | Some v \<Rightarrow>
          (append_error errors k ([PStr ''DataPoint with ''] @
             (if use_external_id then [PStr ''external id '', v] else [PStr ''id '', v]) @
             [PStr '' used in dimension '', PStr k, PStr '' was no string'']), attrs))"

definition validate_dimensions ::
  "(string list \<Rightarrow> string list) \<Rightarrow> (string \<Rightarrow> string) \<Rightarrow> pydict \<Rightarrow> DataSeriesQueryInfo \<Rightarrow> bool \<Rightarrow> bool \<Rightarrow>
     DataPointAccessor \<Rightarrow> errors \<times> pydict" where
  "validate_dimensions ord sha256_hex attrs info partial use_external_id accessor =
     fold (validate_dimension sha256_hex use_external_id accessor) (map snd (qi_dimensions info))
       (validate_dim_ids ord attrs [] info partial, attrs)"

section \<open>Facts\<close>

definition fact_external_id :: "DataSeriesFactQueryInfo \<Rightarrow> string" where
  "fact_external_id elem = rofr_external_id (fqi_dataseries_fact elem)"

definition fact_optional :: "DataSeriesFactQueryInfo \<Rightarrow> bool" where
  "fact_optional elem = rof_optional (fqi_fact elem)"

definition validate_fact_ids ::
  "(string list \<Rightarrow> string list) \<Rightarrow> bool \<Rightarrow> pydict \<Rightarrow> string \<Rightarrow> DataSeriesFactQueryInfo list \<Rightarrow> errors" where
  "validate_fact_ids ord partial attrs name facts =
     (let facts_with_wrong_null = map fact_external_id (filter (\<lambda>elem.
            map_of attrs (fact_external_id elem) = Some PNone \<and> \<not> fact_optional elem) facts);
          required_fact_ids = map fact_external_id (filter (\<lambda>elem. \<not> fact_optional elem) facts);
          difference = set_iter ord (filter (\<lambda>k. k \<notin> set (keys attrs)) required_fact_ids);
          errors = (if \<not> partial then
            fold (\<lambda>element errors. append_error errors element
              [PStr name, PStr '' '', PStr element, PStr '' was not set, but is required'']) difference []
            else []) in
      fold (\<lambda>element errors. append_error errors element
        [PStr name, PStr '' '', PStr element, PStr '' was set to null, but is required''])
        facts_with_wrong_null errors)"

text \<open>A type validation returns an error message or the value to store; it may raise.\<close>

type_synonym fact_type_validation = "pyval \<Rightarrow> (string + pyval) result"

definition validate_fact_value ::
  "fact_type_validation \<Rightarrow> DataSeriesFactQueryInfo \<Rightarrow> errors \<times> pydict \<Rightarrow> (errors \<times> pydict) result" where
  "validate_fact_value validation elem state =
     (let k = fact_external_id elem in
      case map_of (snd state) k of
        None \<Rightarrow> Inr state
      | Some v \<Rightarrow>
          if v = PNone then Inr state
          else rbind (validation v) (\<lambda>res.
            case res of
              Inl error \<Rightarrow> Inr (append_error (fst state) k [PStr error], snd state)
            | Inr v' \<Rightarrow> Inr (fst state, AList.update k v' (snd state))))"

fun validate_fact_values ::
  "fact_type_validation \<Rightarrow> DataSeriesFactQueryInfo list \<Rightarrow> errors \<times> pydict \<Rightarrow> (errors \<times> pydict) result" where
  "validate_fact_values validation [] state = Inr state"
| "validate_fact_values validation (elem # facts) state =
     rbind (validate_fact_value validation elem state) (validate_fact_values validation facts)"

definition validate_fact ::
  "(string list \<Rightarrow> string list) \<Rightarrow> (string \<times> DataSeriesFactQueryInfo) list \<Rightarrow> fact_type_validation \<Rightarrow>
     string \<Rightarrow> bool \<Rightarrow> pydict \<Rightarrow> (errors \<times> pydict) result" where
  "validate_fact ord facts validation name partial attrs =
     validate_fact_values validation (map snd facts)
       (validate_fact_ids ord partial attrs name (map snd facts), attrs)"

text \<open>
  \<open>float(n)\<close> for an integer: exact below \<open>2 ^ 53\<close>, else rounded to 53 bits, half to even; too
  large a result raises.
\<close>

fun bit_length :: "nat \<Rightarrow> nat" where
  "bit_length n = (if n = 0 then 0 else Suc (bit_length (n div 2)))"

declare bit_length.simps [simp del]

definition round_half_even :: "nat \<Rightarrow> nat \<Rightarrow> nat" where
  "round_half_even a e =
     (let q = a div 2 ^ e; r = a mod 2 ^ e in
      if 2 * r < 2 ^ e \<or> 2 * r = 2 ^ e \<and> even q then q else Suc q)"

definition float_limit :: nat where
  "float_limit = 2 ^ 1024"

definition int_to_float :: "int \<Rightarrow> pyfloat result" where
  "int_to_float n =
     (let a = nat \<bar>n\<bar>; e = bit_length a - 53; m = (if e = 0 then a else round_half_even a e) in
      if float_limit \<le> m * 2 ^ e then Inl OverflowError
      else Inr (Fin (sgn n * int m) (int e)))"

fun is_float :: fact_type_validation where
  "is_float (PBool b) = Inr (Inl ''value is no float'')"
| "is_float (PFloat x) = Inr (Inr (PFloat x))"
| "is_float (PInt n) = rbind (int_to_float n) (\<lambda>x. Inr (Inr (PFloat x)))"
| "is_float _ = Inr (Inl ''value is no float'')"

fun is_string :: fact_type_validation where
  "is_string (PStr s) = Inr (Inr (PStr s))"
| "is_string _ = Inr (Inl ''value is no string'')"

fun is_text :: fact_type_validation where
  "is_text (PStr s) = Inr (Inr (PStr s))"
| "is_text _ = Inr (Inl ''value is no text'')"

fun is_timestamp :: fact_type_validation where
  "is_timestamp (PDateTime t) = Inr (Inr (PDateTime t))"
| "is_timestamp _ = Inr (Inl ''value is no timestamp'')"

fun is_json :: fact_type_validation where
  "is_json (PBool b) = Inr (Inr (PBool b))"
| "is_json (PInt n) = Inr (Inr (PInt n))"
| "is_json (PFloat x) = Inr (Inr (PFloat x))"
| "is_json (PList xs) = Inr (Inr (PList xs))"
| "is_json (PDict d) = Inr (Inr (PDict d))"
| "is_json (PStr s) = Inr (Inr (PStr s))"
| "is_json _ = Inr (Inl ''value is no json'')"

fun is_image :: fact_type_validation where
  "is_image (PBool b) = Inr (Inl ''value is no image'')"
| "is_image (PInt n) = Inr (Inl ''value is no image'')"
| "is_image (PFloat x) = Inr (Inl ''value is no image'')"
| "is_image (PList xs) = Inr (Inl ''value is no image'')"
| "is_image (PDict d) = Inr (Inl ''value is no image'')"
| "is_image (PStr s) = Inr (Inl ''value is no image'')"
| "is_image v = Inr (Inr v)"

fun is_file :: fact_type_validation where
  "is_file (PBool b) = Inr (Inl ''value is no file'')"
| "is_file (PInt n) = Inr (Inl ''value is no file'')"
| "is_file (PFloat x) = Inr (Inl ''value is no file'')"
| "is_file (PList xs) = Inr (Inl ''value is no file'')"
| "is_file (PDict d) = Inr (Inl ''value is no file'')"
| "is_file (PStr s) = Inr (Inl ''value is no file'')"
| "is_file v = Inr (Inr v)"

fun is_boolean :: fact_type_validation where
  "is_boolean (PBool b) = Inr (Inr (PBool b))"
| "is_boolean _ = Inr (Inl ''value is no bool'')"

type_synonym fact_validation =
  "(string list \<Rightarrow> string list) \<Rightarrow> DataSeriesQueryInfo \<Rightarrow> bool \<Rightarrow> pydict \<Rightarrow> (errors \<times> pydict) result"

definition validate_float_facts :: fact_validation where
  "validate_float_facts ord info = validate_fact ord (qi_float_facts info) is_float ''float fact''"

definition validate_string_facts :: fact_validation where
  "validate_string_facts ord info = validate_fact ord (qi_string_facts info) is_string ''string fact''"

definition validate_text_facts :: fact_validation where
  "validate_text_facts ord info = validate_fact ord (qi_text_facts info) is_text ''text fact''"

definition validate_timestamp_facts :: fact_validation where
  "validate_timestamp_facts ord info =
     validate_fact ord (qi_timestamp_facts info) is_timestamp ''timestamp fact''"

definition validate_json_facts :: fact_validation where
  "validate_json_facts ord info = validate_fact ord (qi_json_facts info) is_json ''json fact''"

definition validate_image_facts :: fact_validation where
  "validate_image_facts ord info = validate_fact ord (qi_image_facts info) is_image ''image fact''"

definition validate_file_facts :: fact_validation where
  "validate_file_facts ord info = validate_fact ord (qi_file_facts info) is_file ''file fact''"

definition validate_boolean_facts :: fact_validation where
  "validate_boolean_facts ord info = validate_fact ord (qi_boolean_facts info) is_boolean ''boolean fact''"

section \<open>The external id\<close>

definition validate_external_id ::
  "(string \<Rightarrow> string) \<Rightarrow> pydict \<Rightarrow> bool \<Rightarrow> string \<Rightarrow> string option \<Rightarrow> DataPointAccessor \<Rightarrow> string result" where
  "validate_external_id sha256_hex data bulk_insert data_series_id data_point_id accessor =
     (case map_of data ''external_id'' of
        None \<Rightarrow> Inl (ValidationError (PStr ''external_id is not set''))
      | Some (PStr external_id) \<Rightarrow>
          (case data_point_id of
             None \<Rightarrow>
               if \<not> bulk_insert \<and>
                  accessor data_series_id (gen_uuid sha256_hex data_series_id external_id) \<noteq> None
               then Inl (ValidationError (PStr ''external id is already in use''))
               else Inr external_id
           | Some identifier \<Rightarrow>
               (case accessor data_series_id identifier of
                  None \<Rightarrow> Inl (NotFound ''did not find datapoint'')
                | Some data_point \<Rightarrow>
                    if external_id \<noteq> rodp_external_id data_point
                    then Inl (ValidationError (PStr ''changing of external_id for DataPoints is not supported!''))
                    else Inr external_id))
      | Some _ \<Rightarrow> Inl (ValidationError (PStr ''external_id is no string'')))"

section \<open>validate\<close>

text \<open>The validators of the facts in the order of their calls; \<open>all_errors\<close> collects by \<open>update\<close>.\<close>

definition fact_validations :: "fact_validation list" where
  "fact_validations =
     [validate_float_facts, validate_string_facts, validate_text_facts, validate_timestamp_facts,
      validate_json_facts, validate_image_facts, validate_file_facts, validate_boolean_facts]"

fun run_sub_validations ::
  "(string list \<Rightarrow> string list) \<Rightarrow> DataSeriesQueryInfo \<Rightarrow> bool \<Rightarrow> fact_validation list \<Rightarrow>
     errors \<times> pydict \<Rightarrow> (errors \<times> pydict) result" where
  "run_sub_validations ord info partial [] state = Inr state"
| "run_sub_validations ord info partial (validation # validations) state =
     rbind (validation ord info partial (snd state)) (\<lambda>(errors, attrs).
     run_sub_validations ord info partial validations (dict_update (fst state) errors, attrs))"

definition validate_payload ::
  "(string list \<Rightarrow> string list) \<Rightarrow> (string \<Rightarrow> string) \<Rightarrow> ValidationRequest \<Rightarrow> pydict \<Rightarrow> (errors \<times> pydict) result" where
  "validate_payload ord sha256_hex request payload =
     run_sub_validations ord (vr_info request) (vr_partial request) fact_validations
       (validate_dimensions ord sha256_hex payload (vr_info request) (vr_partial request)
          (vr_external_id_as_dimension_identifier request) (vr_data_point_accessor request))"

text \<open>Patches may leave out the external id.\<close>

definition checked_external_id ::
  "(string \<Rightarrow> string) \<Rightarrow> ValidationRequest \<Rightarrow> pydict \<Rightarrow> string option result" where
  "checked_external_id sha256_hex request data =
     (if vr_partial request \<and> ''external_id'' \<notin> set (keys data) then Inr None
      else rbind (validate_external_id sha256_hex data (vr_bulk_insert request)
             (qi_data_series_id (vr_info request)) (vr_data_point_id request) (vr_data_point_accessor request))
           (\<lambda>external_id. Inr (Some external_id)))"

text \<open>A \<open>ValidationError\<close> of the external id is collected; any other exception passes through.\<close>

definition raise_errors :: "errors \<Rightarrow> string option result \<Rightarrow> string option result" where
  "raise_errors payload_errors checked =
     (let payload_part = (if payload_errors = [] then [] else [(''payload'', errors_value payload_errors)]) in
      case checked of
        Inl (ValidationError e) \<Rightarrow> Inl (ValidationError (PDict (payload_part @ [(''external_id'', PList [e])])))
      | Inl e \<Rightarrow> Inl e
      | Inr external_id \<Rightarrow>
          if payload_errors \<noteq> [] then Inl (ValidationError (PDict payload_part)) else Inr external_id)"

definition assign_id ::
  "(string \<Rightarrow> string) \<Rightarrow> ValidationRequest \<Rightarrow> pydict \<Rightarrow> pydict \<Rightarrow> string option \<Rightarrow> pydict result" where
  "assign_id sha256_hex request data attrs external_id =
     (let data1 = AList.update ''payload'' (PDict attrs) data;
          data2 = (case external_id of None \<Rightarrow> data1
                   | Some s \<Rightarrow> AList.update ''external_id'' (PStr s) data1) in
      case vr_data_point_id request of
        Some dp_id \<Rightarrow> Inr (AList.update ''id'' (PStr dp_id) data2)
      | None \<Rightarrow>
          (case map_of data2 ''external_id'' of
             Some (PStr s) \<Rightarrow>
               Inr (AList.update ''id'' (PStr (gen_uuid sha256_hex (qi_data_series_id (vr_info request)) s)) data2)
           | _ \<Rightarrow> Inl AssertionError))"

definition validate ::
  "(string list \<Rightarrow> string list) \<Rightarrow> (string \<Rightarrow> string) \<Rightarrow> pydict \<Rightarrow> ValidationRequest \<Rightarrow> pydict result" where
  "validate ord sha256_hex data request =
     rbind (ensure_payload data) (\<lambda>payload.
     rbind (validate_payload ord sha256_hex request payload) (\<lambda>(payload_errors, attrs).
     rbind (raise_errors payload_errors (checked_external_id sha256_hex request data)) (\<lambda>external_id.
     assign_id sha256_hex request data attrs external_id)))"

end
