(* ===== verification/Server_Validate_Correct.thy ===== *)
theory Server_Validate_Correct
  imports Server_Validate
begin

text \<open>
  The specification of data point validation (\<open>payload_ok\<close>, \<open>external_id_ok\<close>, \<open>stored_payload\<close>) and
  the proof that \<open>validate\<close> accepts exactly the valid requests and stores exactly the specified
  values. The validators of facts and of dimensions are two instances of one contract, the locale
  \<open>field_validation\<close>.
\<close>

section \<open>Validating one field after the other\<close>

text \<open>
  The contract of a validator of single fields: it looks only at its own key of the payload; a
  good value is replaced by its output and adds no error, a bad one adds an error or raises.
\<close>

fun run_steps :: "('f \<Rightarrow> errors \<times> pydict \<Rightarrow> (errors \<times> pydict) result) \<Rightarrow> 'f list \<Rightarrow>
    errors \<times> pydict \<Rightarrow> (errors \<times> pydict) result" where
  "run_steps step [] state = Inr state"
| "run_steps step (f # fs) state = rbind (step f state) (run_steps step fs)"

definition outputs :: "('f \<Rightarrow> string) \<Rightarrow> ('f \<Rightarrow> pyval \<Rightarrow> pyval) \<Rightarrow> 'f list \<Rightarrow> pydict \<Rightarrow> pydict \<Rightarrow> bool" where
  "outputs key out fs attrs attrs' \<longleftrightarrow> keys attrs' = keys attrs \<and>
     (\<forall>k. map_of attrs' k = (case find (\<lambda>f. key f = k) fs of
        None \<Rightarrow> map_of attrs k | Some f \<Rightarrow> map_option (out f) (map_of attrs k)))"

locale field_validation =
  fixes key :: "'f \<Rightarrow> string" and good :: "'f \<Rightarrow> pyval option \<Rightarrow> bool"
    and out :: "'f \<Rightarrow> pyval \<Rightarrow> pyval"
    and step :: "'f \<Rightarrow> errors \<times> pydict \<Rightarrow> (errors \<times> pydict) result"
  assumes step_good: "good f (map_of attrs (key f)) \<Longrightarrow>
      \<exists>attrs'. step f (errs, attrs) = Inr (errs, attrs') \<and> outputs key out [f] attrs attrs'"
    and step_bad: "\<not> good f (map_of attrs (key f)) \<Longrightarrow> step f (errs, attrs) = Inr (errs', attrs') \<Longrightarrow> errs' \<noteq> []"
begin

lemma step_keeps_errors: "step f (errs, attrs) = Inr (errs', attrs') \<Longrightarrow> errs \<noteq> [] \<Longrightarrow> errs' \<noteq> []"
  using step_good [of f attrs errs] step_bad [of f attrs errs errs' attrs'] by fastforce

lemma steps_keep_errors:
  "run_steps step fs (errs, attrs) = Inr (errs', attrs') \<Longrightarrow> errs \<noteq> [] \<Longrightarrow> errs' \<noteq> []"
proof (induction fs arbitrary: errs attrs)
  case (Cons f fs)
  then show ?case by (auto simp: rbind_Inr_iff dest: step_keeps_errors)
qed simp

lemma steps_good:
  assumes "distinct (map key fs)" and "\<And>f. f \<in> set fs \<Longrightarrow> good f (map_of attrs (key f))"
  shows "\<exists>attrs'. run_steps step fs (errs, attrs) = Inr (errs, attrs') \<and> outputs key out fs attrs attrs'"
  using assms
proof (induction fs arbitrary: attrs)
  case Nil
  then show ?case by (simp add: outputs_def)
next
  case (Cons f fs)
  from Cons.prems(2) [of f] step_good [of f attrs errs] obtain attrs1
    where 1: "step f (errs, attrs) = Inr (errs, attrs1)" "outputs key out [f] attrs attrs1" by auto
  have other: "map_of attrs1 k = map_of attrs k" if "k \<noteq> key f" for k
    using 1(2) that by (auto simp: outputs_def)
  have "good g (map_of attrs1 (key g))" if "g \<in> set fs" for g
    using Cons.prems that other [of "key g"] by (metis distinct.simps(2) image_eqI list.set_intros(2) list.simps(9) set_map)
  with Cons.IH [of attrs1] Cons.prems(1) obtain attrs' where
    2: "run_steps step fs (errs, attrs1) = Inr (errs, attrs')" "outputs key out fs attrs1 attrs'" by auto
  have "find (\<lambda>g. key g = key f) fs = None"
    using Cons.prems(1) by (simp add: find_None_iff) (metis image_eqI)
  with 1 2 other show ?case
    by (intro exI [of _ attrs']) (auto simp: outputs_def split: option.splits)
qed

lemma steps_bad:
  assumes "distinct (map key fs)" and "f \<in> set fs" and "\<not> good f (map_of attrs (key f))"
    and "run_steps step fs (errs, attrs) = Inr (errs', attrs')"
  shows "errs' \<noteq> []"
  using assms
proof (induction fs arbitrary: errs attrs)
  case (Cons g gs)
  from Cons.prems(4) obtain errs1 attrs1 where 1: "step g (errs, attrs) = Inr (errs1, attrs1)"
    and 2: "run_steps step gs (errs1, attrs1) = Inr (errs', attrs')"
    by (auto simp: rbind_Inr_iff)
  show ?case
  proof (cases "good g (map_of attrs (key g))")
    case False
    with step_bad [OF this 1] 2 show ?thesis by (auto dest: steps_keep_errors)
  next
    case True
    with Cons.prems have f: "f \<in> set gs" by auto
    from Cons.prems(1) have "key g \<notin> key ` set gs" by simp
    with f have "key f \<noteq> key g" by (metis image_eqI)
    with step_good [OF True, of errs] 1 have "map_of attrs1 (key f) = map_of attrs (key f)"
      by (auto simp: outputs_def)
    with Cons.IH [OF _ f _ 2] Cons.prems show ?thesis by simp
  qed
qed simp

end

section \<open>Facts\<close>

definition fact_typed :: "fact_type_validation \<Rightarrow> pyval \<Rightarrow> bool" where
  "fact_typed validation v = (case validation v of Inr (Inr _) \<Rightarrow> True | _ \<Rightarrow> False)"

definition fact_good :: "fact_type_validation \<Rightarrow> DataSeriesFactQueryInfo \<Rightarrow> pyval option \<Rightarrow> bool" where
  "fact_good validation f v = (case v of None \<Rightarrow> True | Some v \<Rightarrow> v = PNone \<or> fact_typed validation v)"

definition fact_out :: "fact_type_validation \<Rightarrow> DataSeriesFactQueryInfo \<Rightarrow> pyval \<Rightarrow> pyval" where
  "fact_out validation f v = (if v = PNone then PNone else case validation v of Inr (Inr v') \<Rightarrow> v' | _ \<Rightarrow> v)"

definition fact_set :: "bool \<Rightarrow> DataSeriesFactQueryInfo \<Rightarrow> pyval option \<Rightarrow> bool" where
  "fact_set partial f v =
     (case v of None \<Rightarrow> partial \<or> fact_optional f | Some v \<Rightarrow> v = PNone \<longrightarrow> fact_optional f)"

lemma append_error_not_Nil [simp]: "append_error errs k e \<noteq> []"
proof -
  have "k \<in> fst ` set (append_error errs k e)" by (simp add: append_error_def dict_simps)
  then show ?thesis by force
qed

lemma keys_update_present: "k \<in> set (keys d) \<Longrightarrow> keys (AList.update k v d) = keys d"
  by (induction d) auto

lemma outputs_update:
  assumes "map_of attrs (key f) = Some v" and "v' = out f v"
  shows "outputs key out [f] attrs (AList.update (key f) v' attrs)"
proof -
  from assms(1) have "key f \<in> set (keys attrs)" by (auto dest!: map_of_SomeD intro: rev_image_eqI)
  with assms show ?thesis by (auto simp: outputs_def keys_update_present dict_simps)
qed

lemma outputs_same:
  "map_of attrs (key f) = None \<or> (\<exists>v. map_of attrs (key f) = Some v \<and> out f v = v) \<Longrightarrow> outputs key out [f] attrs attrs"
  by (auto simp: outputs_def)

interpretation fact: field_validation fact_external_id "fact_good validation" "fact_out validation"
  "validate_fact_value validation" for validation
proof unfold_locales
  fix f attrs and errs :: errors
  assume good: "fact_good validation f (map_of attrs (fact_external_id f))"
  show "\<exists>attrs'. validate_fact_value validation f (errs, attrs) = Inr (errs, attrs') \<and>
      outputs fact_external_id (fact_out validation) [f] attrs attrs'"
  proof (cases "map_of attrs (fact_external_id f)")
    case None
    then show ?thesis by (auto simp: validate_fact_value_def Let_def intro: outputs_same)
  next
    case (Some v)
    show ?thesis
    proof (cases "v = PNone")
      case True
      with Some show ?thesis
        by (auto simp: validate_fact_value_def Let_def fact_out_def intro!: outputs_same)
    next
      case False
      with good Some obtain v' where "validation v = Inr (Inr v')"
        by (auto simp: fact_good_def fact_typed_def split: sum.splits)
      with Some False show ?thesis
        by (auto simp: validate_fact_value_def Let_def fact_out_def intro!: outputs_update)
    qed
  qed
next
  fix f attrs attrs' and errs errs' :: errors
  assume "\<not> fact_good validation f (map_of attrs (fact_external_id f))"
    and "validate_fact_value validation f (errs, attrs) = Inr (errs', attrs')"
  then show "errs' \<noteq> []"
    by (auto simp: fact_good_def fact_typed_def validate_fact_value_def Let_def rbind_Inr_iff
        split: option.splits sum.splits) (metis old.sum.exhaust)+
qed

lemma validate_fact_values_steps:
  "validate_fact_values validation fs s = run_steps (validate_fact_value validation) fs s"
  by (induction fs arbitrary: s) (auto intro!: arg_cong [where f = "rbind _"])

lemma fold_append_error_Nil: "fold (\<lambda>e errs. append_error errs (k e) (m e)) es errs = [] \<longleftrightarrow> es = [] \<and> errs = []"
  by (induction es arbitrary: errs) auto

lemma set_iter_Nil_iff: "set_iter ord xs = [] \<longleftrightarrow> xs = []"
  using set_iter_facts(1) [of ord xs] by (metis set_empty)

lemma validate_fact_ids_Nil:
  "validate_fact_ids ord partial attrs name fs = [] \<longleftrightarrow>
    (\<forall>f \<in> set fs. fact_set partial f (map_of attrs (fact_external_id f)))"
  by (auto simp: validate_fact_ids_def Let_def fold_append_error_Nil set_iter_Nil_iff filter_empty_conv
      fact_set_def map_of_eq_None_iff split: option.splits)

definition fact_ok ::
  "fact_type_validation \<Rightarrow> bool \<Rightarrow> DataSeriesFactQueryInfo \<Rightarrow> pyval option \<Rightarrow> bool" where
  "fact_ok validation partial f v \<longleftrightarrow> fact_set partial f v \<and> fact_good validation f v"

lemma validate_fact_ok:
  assumes "distinct (map (fact_external_id \<circ> snd) fs)"
    and "\<And>f. f \<in> snd ` set fs \<Longrightarrow> fact_ok validation partial f (map_of attrs (fact_external_id f))"
  shows "\<exists>attrs'. validate_fact ord fs validation name partial attrs = Inr ([], attrs') \<and>
    outputs fact_external_id (fact_out validation) (map snd fs) attrs attrs'"
proof -
  from assms have "validate_fact_ids ord partial attrs name (map snd fs) = []"
    by (simp add: validate_fact_ids_Nil fact_ok_def)
  with fact.steps_good [of "map snd fs" validation attrs "[]"] assms show ?thesis
    by (simp add: validate_fact_def validate_fact_values_steps fact_ok_def)
qed

lemma validate_fact_bad:
  assumes "distinct (map (fact_external_id \<circ> snd) fs)" and "f \<in> snd ` set fs"
    and bad: "\<not> fact_ok validation partial f (map_of attrs (fact_external_id f))"
    and run: "validate_fact ord fs validation name partial attrs = Inr (errs, attrs')"
  shows "errs \<noteq> []"
proof (cases "fact_good validation f (map_of attrs (fact_external_id f))")
  case False
  with fact.steps_bad [of "map snd fs" f validation attrs] assms show ?thesis
    by (simp add: validate_fact_def validate_fact_values_steps)
next
  case True
  with bad assms(2) have "validate_fact_ids ord partial attrs name (map snd fs) \<noteq> []"
    by (auto simp: fact_ok_def validate_fact_ids_Nil)
  with run show ?thesis
    by (auto simp: validate_fact_def validate_fact_values_steps dest: fact.steps_keep_errors)
qed

section \<open>Dimensions\<close>

definition dimension_target :: "(string \<Rightarrow> string) \<Rightarrow> bool \<Rightarrow> DataSeriesDimensionQueryInfo \<Rightarrow> string \<Rightarrow> string" where
  "dimension_target sha256_hex use_external_id f s =
     (if use_external_id then gen_uuid sha256_hex (dimension_series f) s else s)"

definition dimension_good ::
  "(string \<Rightarrow> string) \<Rightarrow> bool \<Rightarrow> DataPointAccessor \<Rightarrow> DataSeriesDimensionQueryInfo \<Rightarrow> pyval option \<Rightarrow> bool" where
  "dimension_good sha256_hex use_external_id accessor f v =
     (case v of
        None \<Rightarrow> True
      | Some PNone \<Rightarrow> True
      | Some (PStr s) \<Rightarrow> s = '''' \<or>
          (case accessor (dimension_series f) (dimension_target sha256_hex use_external_id f s) of
             None \<Rightarrow> False
           | Some datapoint \<Rightarrow> rodp_data_series_id datapoint = dimension_series f)
      | Some _ \<Rightarrow> False)"

definition dimension_out ::
  "(string \<Rightarrow> string) \<Rightarrow> bool \<Rightarrow> DataSeriesDimensionQueryInfo \<Rightarrow> pyval \<Rightarrow> pyval" where
  "dimension_out sha256_hex use_external_id f v =
     (case v of
        PStr s \<Rightarrow> if s = '''' then PNone else PStr (dimension_target sha256_hex use_external_id f s)
      | _ \<Rightarrow> v)"

definition dimension_set :: "DataSeriesQueryInfo \<Rightarrow> bool \<Rightarrow> DataSeriesDimensionQueryInfo \<Rightarrow> pyval option \<Rightarrow> bool" where
  "dimension_set info partial f v \<longleftrightarrow>
     (v = None \<longrightarrow> partial \<or> rod_optional (dqi_dimension f) \<or> dimension_series f = qi_data_series_id info)"

interpretation dimension: field_validation dimension_external_id
  "dimension_good sha256_hex use_external_id accessor" "dimension_out sha256_hex use_external_id"
  "\<lambda>f s. Inr (validate_dimension sha256_hex use_external_id accessor f s)"
  for sha256_hex use_external_id accessor
proof unfold_locales
  fix f attrs and errs :: errors
  assume good: "dimension_good sha256_hex use_external_id accessor f (map_of attrs (dimension_external_id f))"
  consider "map_of attrs (dimension_external_id f) = None"
    | "map_of attrs (dimension_external_id f) = Some PNone"
    | s where "map_of attrs (dimension_external_id f) = Some (PStr s)"
    using good by (auto simp: dimension_good_def split: option.splits pyval.splits)
  then show "\<exists>attrs'. Inr (validate_dimension sha256_hex use_external_id accessor f (errs, attrs)) =
      Inr (errs, attrs') \<and>
      outputs dimension_external_id (dimension_out sha256_hex use_external_id) [f] attrs attrs'"
  proof cases
    case (3 s)
    then show ?thesis
    proof (cases "use_external_id \<or> s = ''''")
      case True
      with 3 good show ?thesis
        by (auto simp: validate_dimension_def Let_def dimension_good_def dimension_out_def
            dimension_target_def split: option.splits intro!: outputs_update)
    next
      case False
      with 3 good show ?thesis
        by (auto simp: validate_dimension_def Let_def dimension_good_def dimension_out_def
            dimension_target_def split: option.splits intro!: outputs_same)
    qed
  qed (auto simp: validate_dimension_def Let_def dimension_out_def intro!: outputs_same)
next
  fix f attrs attrs' and errs errs' :: errors
  assume "\<not> dimension_good sha256_hex use_external_id accessor f (map_of attrs (dimension_external_id f))"
    and "Inr (validate_dimension sha256_hex use_external_id accessor f (errs, attrs)) = Inr (errs', attrs')"
  then show "errs' \<noteq> []"
    by (auto simp: validate_dimension_def Let_def dimension_good_def dimension_target_def
        split: option.splits pyval.splits if_splits)
qed


section \<open>The whole payload\<close>

text \<open>The groups of facts, each with its validation, in the order of the calls.\<close>

definition fact_groups ::
  "((DataSeriesQueryInfo \<Rightarrow> (string \<times> DataSeriesFactQueryInfo) list) \<times> fact_type_validation \<times> string) list" where
  "fact_groups =
     [(qi_float_facts, is_float, ''float fact''), (qi_string_facts, is_string, ''string fact''),
      (qi_text_facts, is_text, ''text fact''), (qi_timestamp_facts, is_timestamp, ''timestamp fact''),
      (qi_json_facts, is_json, ''json fact''), (qi_image_facts, is_image, ''image fact''),
      (qi_file_facts, is_file, ''file fact''), (qi_boolean_facts, is_boolean, ''boolean fact'')]"

definition group_facts ::
  "DataSeriesQueryInfo \<Rightarrow> ((DataSeriesQueryInfo \<Rightarrow> (string \<times> DataSeriesFactQueryInfo) list) \<times> fact_type_validation \<times> string) list \<Rightarrow>
     (fact_type_validation \<times> DataSeriesFactQueryInfo) list" where
  "group_facts info gs = concat (map (\<lambda>(facts, validation, name). map (\<lambda>(k, f). (validation, f)) (facts info)) gs)"

definition info_facts :: "DataSeriesQueryInfo \<Rightarrow> (fact_type_validation \<times> DataSeriesFactQueryInfo) list" where
  "info_facts info = group_facts info fact_groups"

definition info_dimensions :: "DataSeriesQueryInfo \<Rightarrow> DataSeriesDimensionQueryInfo list" where
  "info_dimensions info = map snd (qi_dimensions info)"

abbreviation fact_key :: "fact_type_validation \<times> DataSeriesFactQueryInfo \<Rightarrow> string" where
  "fact_key p \<equiv> fact_external_id (snd p)"

text \<open>External ids are unique among the facts and dimensions of a data series.\<close>

definition info_ids :: "DataSeriesQueryInfo \<Rightarrow> string list" where
  "info_ids info = map dimension_external_id (info_dimensions info) @
     map fact_key (info_facts info)"

definition all_facts_ok :: "bool \<Rightarrow> pydict \<Rightarrow> (fact_type_validation \<times> DataSeriesFactQueryInfo) list \<Rightarrow> bool" where
  "all_facts_ok partial attrs fs \<longleftrightarrow>
     list_all (\<lambda>(validation, f). fact_ok validation partial f (map_of attrs (fact_external_id f))) fs"

abbreviation fact_output :: "fact_type_validation \<times> DataSeriesFactQueryInfo \<Rightarrow> pyval \<Rightarrow> pyval" where
  "fact_output p \<equiv> fact_out (fst p) (snd p)"

lemma find_key_None: "find (\<lambda>x. key x = k) xs = None \<longleftrightarrow> k \<notin> key ` set xs"
  by (induction xs) auto

lemma outputs_at:
  "outputs key out fs attrs attrs' \<Longrightarrow> map_of attrs' k = (case find (\<lambda>f. key f = k) fs of
        None \<Rightarrow> map_of attrs k | Some f \<Rightarrow> map_option (out f) (map_of attrs k))"
  unfolding outputs_def by blast

lemma outputs_append:
  assumes "outputs key out fs attrs attrs1" and "outputs key out gs attrs1 attrs2"
    and "key ` set fs \<inter> key ` set gs = {}"
  shows "outputs key out (fs @ gs) attrs attrs2"
  unfolding outputs_def
proof (intro conjI allI)
  show "keys attrs2 = keys attrs" using assms by (simp add: outputs_def)
  fix k
  have split: "find (\<lambda>f. key f = k) (fs @ gs) =
      (case find (\<lambda>f. key f = k) fs of None \<Rightarrow> find (\<lambda>f. key f = k) gs | Some f \<Rightarrow> Some f)"
    by (induction fs) auto
  show "map_of attrs2 k = (case find (\<lambda>f. key f = k) (fs @ gs) of
        None \<Rightarrow> map_of attrs k | Some f \<Rightarrow> map_option (out f) (map_of attrs k))"
  proof (cases "find (\<lambda>f. key f = k) fs")
    case None
    with assms split show ?thesis by (simp add: outputs_def split: option.split)
  next
    case (Some f)
    then have "k \<in> key ` set fs" by (auto dest!: find_SomeD)
    with assms(3) have "find (\<lambda>f. key f = k) gs = None" by (auto simp: find_None_iff)
    with Some assms split show ?thesis by (simp add: outputs_def)
  qed
qed

lemma outputs_group:
  assumes "outputs fact_external_id (fact_out validation) (map snd fs) attrs attrs'"
  shows "outputs fact_key fact_output (map (\<lambda>(k, f). (validation, f)) fs) attrs attrs'"
proof -
  have "find (\<lambda>p. fact_key p = k) (map (\<lambda>(k, f). (validation, f)) fs) =
      map_option (Pair validation) (find (\<lambda>f. fact_external_id f = k) (map snd fs))" for k
    by (induction fs) auto
  with assms show ?thesis by (auto simp: outputs_def split: option.splits)
qed

lemma outputs_elsewhere:
  "outputs key out fs attrs attrs' \<Longrightarrow> k \<notin> key ` set fs \<Longrightarrow> map_of attrs' k = map_of attrs k"
  by (auto simp: outputs_def find_None_iff split: option.splits dest!: find_SomeD)

lemma dict_update_not_Nil: "d \<noteq> [] \<or> e \<noteq> [] \<Longrightarrow> dict_update d e \<noteq> []"
  using dict_update_keys [of d e] by force

lemma run_sub_keeps_errors:
  "run_sub_validations ord info partial vs (errs, attrs) = Inr (errs', attrs') \<Longrightarrow> errs \<noteq> [] \<Longrightarrow> errs' \<noteq> []"
proof (induction vs arbitrary: errs attrs)
  case (Cons v vs)
  from Cons.prems(1) obtain errs1 attrs1 where
    "run_sub_validations ord info partial vs (dict_update errs errs1, attrs1) = Inr (errs', attrs')"
    by (auto simp: rbind_Inr_iff)
  from Cons.IH [OF this] Cons.prems(2) show ?case by (simp add: dict_update_not_Nil)
qed simp

definition group_validation where
  "group_validation = (\<lambda>(facts, validation, name) ord info. validate_fact ord (facts info) validation name)"

lemma fact_validations_groups: "fact_validations = map group_validation fact_groups"
  by (simp add: fact_validations_def fact_groups_def group_validation_def fun_eq_iff
      validate_float_facts_def validate_string_facts_def validate_text_facts_def
      validate_timestamp_facts_def validate_json_facts_def validate_image_facts_def
      validate_file_facts_def validate_boolean_facts_def)

lemma group_facts_Cons:
  "group_facts info ((facts, validation, name) # gs) = map (\<lambda>(k, f). (validation, f)) (facts info) @ group_facts info gs"
  by (simp add: group_facts_def)

lemma all_facts_ok_cong:
  assumes "\<And>p. p \<in> set fs \<Longrightarrow> map_of attrs' (fact_key p) = map_of attrs (fact_key p)"
  shows "all_facts_ok partial attrs' fs = all_facts_ok partial attrs fs"
  using assms unfolding all_facts_ok_def list_all_iff by (force split: prod.splits)

lemma run_sub_validations_ok:
  assumes "distinct (map fact_key (group_facts info gs))" and "all_facts_ok partial attrs (group_facts info gs)"
  shows "\<exists>attrs'. run_sub_validations ord info partial (map group_validation gs) ([], attrs) = Inr ([], attrs') \<and>
    outputs fact_key fact_output (group_facts info gs) attrs attrs'"
  using assms
proof (induction gs arbitrary: attrs)
  case Nil
  then show ?case by (simp add: group_facts_def outputs_def)
next
  case (Cons g gs)
  obtain facts validation name where g: "g = (facts, validation, name)" by (cases g)
  let ?here = "map (\<lambda>(k, f). (validation, f)) (facts info)"
  have ids: "map fact_key ?here = map (fact_external_id \<circ> snd) (facts info)"
    by (simp add: comp_def split_beta)
  from Cons.prems g have d: "distinct (map fact_key ?here)" "distinct (map fact_key (group_facts info gs))"
    "fact_key ` set ?here \<inter> fact_key ` set (group_facts info gs) = {}"
    by (auto simp: group_facts_Cons simp del: map_map)
  have here: "all_facts_ok partial attrs ?here" and there: "all_facts_ok partial attrs (group_facts info gs)"
    using Cons.prems(2) g by (auto simp: group_facts_Cons all_facts_ok_def)
  have ok: "f \<in> snd ` set (facts info) \<Longrightarrow> fact_ok validation partial f (map_of attrs (fact_external_id f))" for f
    using here by (auto simp: all_facts_ok_def list_all_iff)
  from validate_fact_ok [OF d(1) [unfolded ids] ok] obtain attrs1 where
    1: "validate_fact ord (facts info) validation name partial attrs = Inr ([], attrs1)"
      "outputs fact_external_id (fact_out validation) (map snd (facts info)) attrs attrs1" by blast
  note out1 = outputs_group [OF 1(2)]
  have "all_facts_ok partial attrs1 (group_facts info gs)"
    using there all_facts_ok_cong [of "group_facts info gs" attrs1 attrs] outputs_elsewhere [OF out1] d(3) by blast
  from Cons.IH [OF d(2) this] obtain attrs' where
    2: "run_sub_validations ord info partial (map group_validation gs) ([], attrs1) = Inr ([], attrs')"
      "outputs fact_key fact_output (group_facts info gs) attrs1 attrs'" by blast
  from 1 2 have "run_sub_validations ord info partial (map group_validation (g # gs)) ([], attrs) = Inr ([], attrs')"
    by (simp add: g group_validation_def)
  with outputs_append [OF out1 2(2) d(3)] g show ?case by (auto simp: group_facts_Cons)
qed

lemma run_sub_validations_bad:
  assumes "distinct (map fact_key (group_facts info gs))" and "\<not> all_facts_ok partial attrs (group_facts info gs)"
    and "run_sub_validations ord info partial (map group_validation gs) (errs, attrs) = Inr (errs', attrs')"
  shows "errs' \<noteq> []"
  using assms
proof (induction gs arbitrary: attrs errs)
  case Nil
  then show ?case by (simp add: group_facts_def all_facts_ok_def)
next
  case (Cons g gs)
  obtain facts validation name where g: "g = (facts, validation, name)" by (cases g)
  let ?here = "map (\<lambda>(k, f). (validation, f)) (facts info)"
  have ids: "map fact_key ?here = map (fact_external_id \<circ> snd) (facts info)"
    by (simp add: comp_def split_beta)
  from Cons.prems(1) g have d: "distinct (map fact_key ?here)" "distinct (map fact_key (group_facts info gs))"
    "fact_key ` set ?here \<inter> fact_key ` set (group_facts info gs) = {}"
    by (auto simp: group_facts_Cons simp del: map_map)
  from Cons.prems(3) g obtain errs1 attrs1 where
    1: "validate_fact ord (facts info) validation name partial attrs = Inr (errs1, attrs1)"
    and rest: "run_sub_validations ord info partial (map group_validation gs) (dict_update errs errs1, attrs1) = Inr (errs', attrs')"
    by (auto simp: rbind_Inr_iff group_validation_def)
  show ?case
  proof (cases "all_facts_ok partial attrs ?here")
    case False
    then obtain f where "f \<in> snd ` set (facts info)" "\<not> fact_ok validation partial f (map_of attrs (fact_external_id f))"
      by (force simp: all_facts_ok_def list_all_iff)
    from validate_fact_bad [OF d(1) [unfolded ids] this 1] have "errs1 \<noteq> []" .
    with rest show ?thesis using run_sub_keeps_errors dict_update_not_Nil by blast
  next
    case True
    then have ok: "f \<in> snd ` set (facts info) \<Longrightarrow> fact_ok validation partial f (map_of attrs (fact_external_id f))" for f
      by (auto simp: all_facts_ok_def list_all_iff)
    from validate_fact_ok [OF d(1) [unfolded ids] ok, of ord name] 1
    have "outputs fact_external_id (fact_out validation) (map snd (facts info)) attrs attrs1" by auto
    note out1 = outputs_group [OF this]
    have "\<not> all_facts_ok partial attrs (group_facts info gs)"
      using Cons.prems(2) True g by (auto simp: group_facts_Cons all_facts_ok_def)
    then have "\<not> all_facts_ok partial attrs1 (group_facts info gs)"
      using all_facts_ok_cong [of "group_facts info gs" attrs1 attrs] outputs_elsewhere [OF out1] d(3) by blast
    from Cons.IH [OF d(2) this rest] show ?thesis .
  qed
qed

lemma validate_dimensions_steps:
  "run_steps (\<lambda>f s. Inr (validate_dimension h ext accessor f s)) fs s = Inr (fold (validate_dimension h ext accessor) fs s)"
  by (induction fs arbitrary: s) simp_all

lemma validate_dim_ids_Nil:
  "validate_dim_ids ord attrs [] info partial = [] \<longleftrightarrow>
    (\<forall>f \<in> set (info_dimensions info). dimension_set info partial f (map_of attrs (dimension_external_id f)))"
  by (auto simp: validate_dim_ids_def Let_def fold_append_error_Nil set_iter_Nil_iff filter_empty_conv
      dimension_set_def map_of_eq_None_iff info_dimensions_def)

definition all_dimensions_ok ::
  "(string \<Rightarrow> string) \<Rightarrow> DataSeriesQueryInfo \<Rightarrow> bool \<Rightarrow> bool \<Rightarrow> DataPointAccessor \<Rightarrow> pydict \<Rightarrow> bool" where
  "all_dimensions_ok h info partial ext accessor attrs \<longleftrightarrow>
     list_all (\<lambda>f. dimension_set info partial f (map_of attrs (dimension_external_id f)) \<and>
       dimension_good h ext accessor f (map_of attrs (dimension_external_id f))) (info_dimensions info)"

lemma validate_dimensions_ok:
  assumes "distinct (map dimension_external_id (info_dimensions info))"
    and "all_dimensions_ok h info partial ext accessor attrs"
  shows "\<exists>attrs'. validate_dimensions ord h attrs info partial ext accessor = ([], attrs') \<and>
    outputs dimension_external_id (dimension_out h ext) (info_dimensions info) attrs attrs'"
proof -
  from assms(2) have ids: "validate_dim_ids ord attrs [] info partial = []"
    by (simp add: validate_dim_ids_Nil all_dimensions_ok_def list_all_iff)
  have "dimension_good h ext accessor f (map_of attrs (dimension_external_id f))" if "f \<in> set (info_dimensions info)" for f
    using assms(2) that by (simp add: all_dimensions_ok_def list_all_iff)
  from dimension.steps_good [OF assms(1) this, of "[]"] show ?thesis
    unfolding validate_dimensions_steps validate_dimensions_def ids info_dimensions_def by simp
qed

lemma validate_dimensions_bad:
  assumes "distinct (map dimension_external_id (info_dimensions info))"
    and bad: "\<not> all_dimensions_ok h info partial ext accessor attrs"
    and run: "validate_dimensions ord h attrs info partial ext accessor = (errs, attrs')"
  shows "errs \<noteq> []"
proof -
  have steps: "run_steps (\<lambda>f s. Inr (validate_dimension h ext accessor f s)) (info_dimensions info)
      (validate_dim_ids ord attrs [] info partial, attrs) = Inr (errs, attrs')"
    using run by (simp add: validate_dimensions_steps validate_dimensions_def info_dimensions_def)
  from bad obtain f where f: "f \<in> set (info_dimensions info)"
    and "\<not> dimension_set info partial f (map_of attrs (dimension_external_id f)) \<or>
       \<not> dimension_good h ext accessor f (map_of attrs (dimension_external_id f))"
    by (auto simp: all_dimensions_ok_def list_all_iff)
  from this(2) show ?thesis
  proof
    assume "\<not> dimension_set info partial f (map_of attrs (dimension_external_id f))"
    with f have "validate_dim_ids ord attrs [] info partial \<noteq> []" by (auto simp: validate_dim_ids_Nil)
    with dimension.steps_keep_errors [OF steps] show ?thesis by simp
  qed (rule dimension.steps_bad [OF assms(1) f _ steps])
qed

text \<open>The specification: when a request is valid, and what is stored of it.\<close>

definition payload_ok :: "(string \<Rightarrow> string) \<Rightarrow> ValidationRequest \<Rightarrow> pydict \<Rightarrow> bool" where
  "payload_ok h request payload \<longleftrightarrow>
     all_dimensions_ok h (vr_info request) (vr_partial request)
       (vr_external_id_as_dimension_identifier request) (vr_data_point_accessor request) payload \<and>
     all_facts_ok (vr_partial request) payload (info_facts (vr_info request))"

definition external_id_ok :: "(string \<Rightarrow> string) \<Rightarrow> ValidationRequest \<Rightarrow> pydict \<Rightarrow> bool" where
  "external_id_ok h request data \<longleftrightarrow>
     (case map_of data ''external_id'' of
        Some (PStr s) \<Rightarrow>
          (case vr_data_point_id request of
             None \<Rightarrow> vr_bulk_insert request \<or>
               vr_data_point_accessor request (qi_data_series_id (vr_info request))
                 (gen_uuid h (qi_data_series_id (vr_info request)) s) = None
           | Some identifier \<Rightarrow>
               (case vr_data_point_accessor request (qi_data_series_id (vr_info request)) identifier of
                  None \<Rightarrow> False | Some data_point \<Rightarrow> rodp_external_id data_point = s))
      | None \<Rightarrow> vr_partial request \<and> vr_data_point_id request \<noteq> None
      | Some _ \<Rightarrow> False)"

definition stored_id :: "(string \<Rightarrow> string) \<Rightarrow> ValidationRequest \<Rightarrow> pydict \<Rightarrow> string" where
  "stored_id h request data =
     (case vr_data_point_id request of Some identifier \<Rightarrow> identifier
      | None \<Rightarrow> (case map_of data ''external_id'' of
          Some (PStr s) \<Rightarrow> gen_uuid h (qi_data_series_id (vr_info request)) s | _ \<Rightarrow> []))"

definition stored_value :: "(string \<Rightarrow> string) \<Rightarrow> ValidationRequest \<Rightarrow> string \<Rightarrow> pyval \<Rightarrow> pyval" where
  "stored_value h request k v =
     (case find (\<lambda>f. dimension_external_id f = k) (info_dimensions (vr_info request)) of
        Some f \<Rightarrow> dimension_out h (vr_external_id_as_dimension_identifier request) f v
      | None \<Rightarrow> (case find (\<lambda>p. fact_key p = k) (info_facts (vr_info request)) of
          Some p \<Rightarrow> fact_output p v | None \<Rightarrow> v))"

definition stored_payload :: "(string \<Rightarrow> string) \<Rightarrow> ValidationRequest \<Rightarrow> pydict \<Rightarrow> pydict \<Rightarrow> bool" where
  "stored_payload h request payload payload' \<longleftrightarrow> keys payload' = keys payload \<and>
     (\<forall>k. map_of payload' k = map_option (stored_value h request k) (map_of payload k))"

lemma info_ids_distinct:
  assumes "distinct (info_ids info)"
  shows "distinct (map dimension_external_id (info_dimensions info))"
    and "distinct (map fact_key (group_facts info fact_groups))"
    and "dimension_external_id ` set (info_dimensions info) \<inter> fact_key ` set (info_facts info) = {}"
  using assms by (auto simp: info_ids_def info_facts_def split_beta)

lemma validate_payload_ok:
  assumes "distinct (info_ids (vr_info request))" and "payload_ok h request payload"
  shows "\<exists>payload'. validate_payload ord h request payload = Inr ([], payload') \<and>
    stored_payload h request payload payload'"
proof -
  note d = info_ids_distinct [OF assms(1)]
  from assms(2) have ok: "all_dimensions_ok h (vr_info request) (vr_partial request)
       (vr_external_id_as_dimension_identifier request) (vr_data_point_accessor request) payload"
    "all_facts_ok (vr_partial request) payload (group_facts (vr_info request) fact_groups)"
    by (simp_all add: payload_ok_def info_facts_def)
  from validate_dimensions_ok [OF d(1) ok(1)] obtain attrs where
    1: "validate_dimensions ord h payload (vr_info request) (vr_partial request)
       (vr_external_id_as_dimension_identifier request) (vr_data_point_accessor request) = ([], attrs)"
    "outputs dimension_external_id (dimension_out h (vr_external_id_as_dimension_identifier request))
       (info_dimensions (vr_info request)) payload attrs" by blast
  have "all_facts_ok (vr_partial request) attrs (group_facts (vr_info request) fact_groups)"
    using ok(2) all_facts_ok_cong [of "group_facts (vr_info request) fact_groups" attrs payload]
      outputs_elsewhere [OF 1(2)] d(3) unfolding info_facts_def by blast
  from run_sub_validations_ok [OF d(2) this] obtain payload' where
    2: "run_sub_validations ord (vr_info request) (vr_partial request) fact_validations ([], attrs) = Inr ([], payload')"
    "outputs fact_key fact_output (info_facts (vr_info request)) attrs payload'"
    unfolding fact_validations_groups info_facts_def by blast
  have "map_of payload' k = map_option (stored_value h request k) (map_of payload k)" for k
  proof (cases "find (\<lambda>f. dimension_external_id f = k) (info_dimensions (vr_info request))")
    case None
    with outputs_at [OF 1(2), of k] outputs_at [OF 2(2), of k] show ?thesis
      by (cases "map_of payload k") (simp_all add: stored_value_def None split: option.split)
  next
    case (Some f)
    then have "k \<in> dimension_external_id ` set (info_dimensions (vr_info request))" by (auto dest!: find_SomeD)
    with d(3) have "k \<notin> fact_key ` set (info_facts (vr_info request))" by blast
    then have "find (\<lambda>p. fact_key p = k) (info_facts (vr_info request)) = None"
      by (simp add: find_key_None)
    with Some outputs_at [OF 1(2), of k] outputs_at [OF 2(2), of k] show ?thesis
      by (cases "map_of payload k") (simp_all add: stored_value_def)
  qed
  moreover have "keys payload' = keys payload" using 1(2) 2(2) by (simp add: outputs_def)
  ultimately show ?thesis using 1(1) 2(1) by (simp add: validate_payload_def stored_payload_def)
qed

lemma validate_payload_bad:
  assumes "distinct (info_ids (vr_info request))" and "\<not> payload_ok h request payload"
    and run: "validate_payload ord h request payload = Inr (errs, payload')"
  shows "errs \<noteq> []"
proof -
  note d = info_ids_distinct [OF assms(1)]
  obtain errs1 attrs where
    1: "validate_dimensions ord h payload (vr_info request) (vr_partial request)
       (vr_external_id_as_dimension_identifier request) (vr_data_point_accessor request) = (errs1, attrs)"
    by fastforce
  with run have rest: "run_sub_validations ord (vr_info request) (vr_partial request)
      (map group_validation fact_groups) (errs1, attrs) = Inr (errs, payload')"
    by (simp add: validate_payload_def fact_validations_groups)
  show ?thesis
  proof (cases "all_dimensions_ok h (vr_info request) (vr_partial request)
       (vr_external_id_as_dimension_identifier request) (vr_data_point_accessor request) payload")
    case False
    from validate_dimensions_bad [OF d(1) False 1] run_sub_keeps_errors [OF rest] show ?thesis by simp
  next
    case True
    from validate_dimensions_ok [OF d(1) True, of ord] 1 have out:
      "outputs dimension_external_id (dimension_out h (vr_external_id_as_dimension_identifier request))
       (info_dimensions (vr_info request)) payload attrs" by auto
    from True assms(2) have "\<not> all_facts_ok (vr_partial request) payload (group_facts (vr_info request) fact_groups)"
      by (simp add: payload_ok_def info_facts_def)
    then have "\<not> all_facts_ok (vr_partial request) attrs (group_facts (vr_info request) fact_groups)"
      using all_facts_ok_cong [of "group_facts (vr_info request) fact_groups" attrs payload]
        outputs_elsewhere [OF out] d(3) unfolding info_facts_def by blast
    from run_sub_validations_bad [OF d(2) this rest] show ?thesis .
  qed
qed

section \<open>validate against its specification\<close>

lemma validate_external_id_iff:
  "validate_external_id h data (vr_bulk_insert request) (qi_data_series_id (vr_info request))
      (vr_data_point_id request) (vr_data_point_accessor request) = Inr s \<longleftrightarrow>
    map_of data ''external_id'' = Some (PStr s) \<and> external_id_ok h request data"
  by (auto simp: validate_external_id_def external_id_ok_def split: option.splits pyval.splits)

definition validated ::
  "(string \<Rightarrow> string) \<Rightarrow> ValidationRequest \<Rightarrow> pydict \<Rightarrow> pydict \<Rightarrow> pydict" where
  "validated h request data payload' =
     AList.update ''id'' (PStr (stored_id h request data))
       (AList.update ''payload'' (PDict payload') data)"

lemma update_same: "map_of d k = Some v \<Longrightarrow> AList.update k v d = d"
  by (induction d) auto

lemma rbind_InrE:
  assumes "rbind m f = Inr y"
  obtains x where "m = Inr x" and "f x = Inr y"
  using assms by (auto simp: rbind_Inr_iff)

lemma raise_errors_Inr [simp]: "raise_errors errs checked = Inr x \<longleftrightarrow> errs = [] \<and> checked = Inr x"
  by (auto simp: raise_errors_def Let_def split: sum.splits py_error.splits)

lemma checked_external_id_Inr:
  "checked_external_id h request data = Inr x \<longleftrightarrow>
    (if x = None then vr_partial request \<and> map_of data ''external_id'' = None
     else \<exists>s. x = Some s \<and> map_of data ''external_id'' = Some (PStr s) \<and> external_id_ok h request data)"
proof -
  have "''external_id'' \<notin> set (keys data) \<longleftrightarrow> map_of data ''external_id'' = None"
    by (simp add: map_of_eq_None_iff)
  then show ?thesis
    unfolding checked_external_id_def by (auto simp only: rbind_Inr_iff validate_external_id_iff split: if_splits)
qed

lemma assign_id_None:
  "map_of data ''external_id'' = None \<Longrightarrow>
    assign_id h request data attrs None =
      (case vr_data_point_id request of
         Some dp_id \<Rightarrow> Inr (validated h request data attrs) | None \<Rightarrow> Inl AssertionError)"
  by (simp add: assign_id_def Let_def validated_def stored_id_def dict_simps split: option.split)

lemma assign_id_Some:
  assumes "map_of data ''external_id'' = Some (PStr s)"
  shows "assign_id h request data attrs (Some s) = Inr (validated h request data attrs)"
proof -
  from assms have "AList.update ''external_id'' (PStr s) (AList.update ''payload'' (PDict attrs) data) =
      AList.update ''payload'' (PDict attrs) data"
    by (intro update_same) (simp add: dict_simps)
  with assms show ?thesis
    by (simp add: assign_id_def Let_def validated_def stored_id_def dict_simps split: option.split)
qed

lemma external_id_stage:
  "(\<exists>x. checked_external_id h request data = Inr x \<and> assign_id h request data attrs x = Inr data') \<longleftrightarrow>
    external_id_ok h request data \<and> data' = validated h request data attrs"
proof (cases "map_of data ''external_id''")
  case None
  then have "checked_external_id h request data = Inr x \<longleftrightarrow> x = None \<and> vr_partial request" for x
    by (auto simp: checked_external_id_Inr)
  with None show ?thesis
    by (auto simp: assign_id_None external_id_ok_def split: option.splits)
next
  case (Some v)
  have "checked_external_id h request data = Inr x \<longleftrightarrow> external_id_ok h request data \<and>
      (\<exists>s. v = PStr s \<and> x = Some s)" for x
    using Some by (auto simp: checked_external_id_Inr)
  moreover have "external_id_ok h request data \<Longrightarrow> \<exists>s. v = PStr s"
    using Some by (auto simp: external_id_ok_def split: pyval.splits)
  ultimately show ?thesis using Some by (auto simp: assign_id_Some)
qed

lemma validate_Inr_iff:
  "validate ord h data request = Inr data' \<longleftrightarrow>
    (\<exists>payload payload'. map_of data ''payload'' = Some (PDict payload) \<and>
      validate_payload ord h request payload = Inr ([], payload') \<and>
      external_id_ok h request data \<and> data' = validated h request data payload')"
proof -
  have "ensure_payload data = Inr payload \<longleftrightarrow> map_of data ''payload'' = Some (PDict payload)" for payload
    by (auto simp: ensure_payload_def split: option.splits pyval.splits)
  then show ?thesis
    using external_id_stage [of h request data]
    by (auto simp: validate_def rbind_Inr_iff)
qed

text \<open>
  The theorem in both directions: valid requests are accepted, and what is accepted is valid. A
  Python dictionary has every key once, so its keys and their values are all of it.
\<close>

definition stored :: "(string \<Rightarrow> string) \<Rightarrow> ValidationRequest \<Rightarrow> pydict \<Rightarrow> pydict" where
  "stored h request payload = map (\<lambda>(k, v). (k, stored_value h request k v)) payload"

lemma dict_values: "distinct (keys d) \<Longrightarrow> map (\<lambda>k. (k, the (map_of d k))) (keys d) = d"
  by (rule trans [OF map_map map_idI]) (auto simp: comp_def)

lemma stored_payload_unique:
  assumes "stored_payload h request payload payload'" and d: "distinct (keys payload)"
  shows "payload' = stored h request payload"
proof -
  from assms(1) have same: "keys payload' = keys payload"
    and at: "map_of payload' k = map_option (stored_value h request k) (map_of payload k)" for k
    by (simp_all add: stored_payload_def)
  from d have "map_of payload k = Some v" if "(k, v) \<in> set payload" for k v using that by simp
  then have "map (\<lambda>k. (k, the (map_of payload' k))) (keys payload) = stored h request payload"
    by (auto simp: stored_def at)
  with dict_values [of payload'] d same show ?thesis by simp
qed

lemma validate_sound_complete:
  assumes "distinct (info_ids (vr_info request))"
    and d: "case map_of data ''payload'' of Some (PDict payload) \<Rightarrow> distinct (keys payload) | _ \<Rightarrow> True"
  shows "validate ord h data request = Inr data' \<longleftrightarrow>
    (\<exists>payload. map_of data ''payload'' = Some (PDict payload) \<and> payload_ok h request payload \<and>
       external_id_ok h request data \<and> data' = validated h request data (stored h request payload))"
    (is "_ \<longleftrightarrow> (\<exists>payload. ?accepted payload)")
proof
  assume "validate ord h data request = Inr data'"
  then obtain payload payload' where p: "map_of data ''payload'' = Some (PDict payload)"
    "validate_payload ord h request payload = Inr ([], payload')"
    "external_id_ok h request data" "data' = validated h request data payload'"
    unfolding validate_Inr_iff by blast
  from p(2) validate_payload_bad [OF assms(1), of h payload ord "[]"] have ok: "payload_ok h request payload" by blast
  from validate_payload_ok [OF assms(1) ok, of ord] p(2) have "stored_payload h request payload payload'" by auto
  from stored_payload_unique [OF this] d p(1) have "payload' = stored h request payload" by simp
  with p ok have "?accepted payload" by simp
  then show "\<exists>payload. ?accepted payload" ..
next
  assume "\<exists>payload. ?accepted payload"
  then obtain payload where p: "?accepted payload" ..
  with validate_payload_ok [OF assms(1), of h payload ord] obtain payload' where
    v: "validate_payload ord h request payload = Inr ([], payload')" "stored_payload h request payload payload'" by blast
  from stored_payload_unique [OF v(2)] d p have "payload' = stored h request payload" by simp
  with p v(1) show "validate ord h data request = Inr data'" unfolding validate_Inr_iff by blast
qed

text \<open>Facts about single values.\<close>

lemma bit_length_bound: "n < 2 ^ bit_length n"
proof (induction n rule: bit_length.induct)
  case (1 n)
  show ?case
  proof (cases "n = 0")
    case False
    with 1 have "n div 2 < 2 ^ bit_length (n div 2)" by simp
    then have "n < 2 * 2 ^ bit_length (n div 2)" by simp
    with False show ?thesis by (subst bit_length.simps) simp
  qed (subst bit_length.simps, simp)
qed

lemma bit_length_le: "n < 2 ^ k \<Longrightarrow> bit_length n \<le> k"
proof (induction k arbitrary: n)
  case 0
  then show ?case by (subst bit_length.simps) simp
next
  case (Suc k)
  then have "bit_length (n div 2) \<le> k" by simp
  then show ?case by (subst bit_length.simps) simp
qed

lemma bit_length_lower: "0 < n \<Longrightarrow> 2 ^ (bit_length n - 1) \<le> n"
proof (induction n rule: bit_length.induct)
  case (1 n)
  show ?case
  proof (cases "n div 2 = 0")
    case True
    with 1(2) have "bit_length n = 1" by (subst bit_length.simps) (simp add: bit_length.simps)
    with 1(2) show ?thesis by simp
  next
    case False
    with 1 have "2 ^ (bit_length (n div 2) - 1) \<le> n div 2" by simp
    moreover from False have "0 < bit_length (n div 2)" by (subst bit_length.simps) simp
    ultimately have "2 ^ bit_length (n div 2) \<le> 2 * (n div 2)"
      by (cases "bit_length (n div 2)") auto
    with 1(2) show ?thesis by (subst bit_length.simps) simp
  qed
qed

lemma round_half_even_close:
  "2 * \<bar>int a - int (round_half_even a e) * 2 ^ e\<bar> \<le> 2 ^ e"
proof -
  define q r where "q = a div 2 ^ e" and "r = a mod 2 ^ e"
  have "a = q * 2 ^ e + r" unfolding q_def r_def by (rule div_mult_mod_eq [symmetric])
  then have a: "int a = int q * 2 ^ e + int r" by (metis of_nat_add of_nat_mult of_nat_numeral of_nat_power)
  have "r < 2 ^ e" by (simp add: r_def)
  then have r: "int r < 2 ^ e" by (simp flip: of_nat_power)
  show ?thesis
  proof (cases "round_half_even a e = q")
    case True
    then have "2 * r \<le> 2 ^ e"
      by (auto simp: round_half_even_def Let_def q_def r_def split: if_splits)
    then have "int (2 * r) \<le> int (2 ^ e)" by (simp only: of_nat_le_iff)
    with a True show ?thesis by simp
  next
    case False
    then have q: "round_half_even a e = Suc q" and "2 ^ e \<le> 2 * r"
      by (auto simp: round_half_even_def Let_def q_def r_def split: if_splits)
    from this(2) have "int (2 ^ e) \<le> int (2 * r)" by (simp only: of_nat_le_iff)
    with a q r show ?thesis by (simp add: algebra_simps)
  qed
qed

lemma float_limit_exponent:
  assumes "2 ^ k \<le> (a :: nat)" and "a < 2 ^ j"
  shows "k < j"
proof -
  from assms have "(2::nat) ^ k < 2 ^ j" by (rule order_le_less_trans)
  then show ?thesis by (rule power_less_imp_less_exp [rotated]) simp
qed

lemma int_to_float_exact:
  assumes "\<bar>n\<bar> < 2 ^ 53"
  shows "int_to_float n = Inr (Fin n 0)"
proof -
  from assms have a: "nat \<bar>n\<bar> < 2 ^ 53" by (simp add: nat_less_iff)
  then have "bit_length (nat \<bar>n\<bar>) - 53 = 0" using bit_length_le by simp
  moreover have "\<not> float_limit \<le> nat \<bar>n\<bar>"
    using float_limit_exponent [OF _ a, of 1024] by (auto simp only: float_limit_def) simp
  ultimately show ?thesis by (simp add: int_to_float_def Let_def sgn_mult_abs)
qed

text \<open>A number that is not exact has at least 53 significant bits.\<close>

lemma bit_length_large:
  assumes "bit_length a - 53 \<noteq> 0"
  shows "2 ^ 52 * 2 ^ (bit_length a - 53) \<le> a"
proof -
  have "bit_length 0 = 0" by (subst bit_length.simps) simp
  with assms have "0 < a" by (cases "a = 0") auto
  from bit_length_lower [OF this] have "2 ^ (bit_length a - 1) \<le> a" .
  moreover from assms have "bit_length a - 1 = 52 + (bit_length a - 53)" by simp
  ultimately show ?thesis by (simp only: power_add)
qed

lemma int_to_float_unfold:
  fixes n :: int
  defines "a \<equiv> nat \<bar>n\<bar>"
  defines "e \<equiv> bit_length a - 53"
  defines "m \<equiv> if e = 0 then a else round_half_even a e"
  shows "int_to_float n = (if float_limit \<le> m * 2 ^ e then Inl OverflowError else Inr (Fin (sgn n * int m) (int e)))"
    and "n = sgn n * int a" and "2 * \<bar>int a - int m * 2 ^ e\<bar> \<le> 2 ^ e"
    and "e \<noteq> 0 \<Longrightarrow> 2 ^ 52 * 2 ^ e \<le> a" and "e \<noteq> 0 \<Longrightarrow> a div 2 ^ e \<le> m"
proof -
  show "int_to_float n = (if float_limit \<le> m * 2 ^ e then Inl OverflowError else Inr (Fin (sgn n * int m) (int e)))"
    by (simp add: int_to_float_def Let_def a_def e_def m_def)
  show "n = sgn n * int a" by (simp add: a_def sgn_mult_abs)
  show "2 * \<bar>int a - int m * 2 ^ e\<bar> \<le> 2 ^ e" using round_half_even_close [of a e] by (simp add: m_def)
  show "e \<noteq> 0 \<Longrightarrow> 2 ^ 52 * 2 ^ e \<le> a" unfolding e_def by (rule bit_length_large)
  show "e \<noteq> 0 \<Longrightarrow> a div 2 ^ e \<le> m" by (simp add: m_def round_half_even_def Let_def)
qed

lemma int_to_float_cases:
  "case int_to_float n of
     Inl err \<Rightarrow> err = OverflowError \<and> float_limit \<le> 2 * nat \<bar>n\<bar>
   | Inr x \<Rightarrow> \<exists>m. x = Fin m (int (bit_length (nat \<bar>n\<bar>) - 53)) \<and>
       2 * \<bar>n - m * 2 ^ (bit_length (nat \<bar>n\<bar>) - 53)\<bar> \<le> 2 ^ (bit_length (nat \<bar>n\<bar>) - 53)"
proof -
  define a e where "a = nat \<bar>n\<bar>" and "e = bit_length a - 53"
  define m where "m = (if e = 0 then a else round_half_even a e)"
  note facts = int_to_float_unfold [of n, folded a_def, folded e_def, folded m_def]
  show ?thesis
  proof (cases "float_limit \<le> m * 2 ^ e")
    case True
    have "m * 2 ^ e \<le> 2 * a"
    proof (cases "e = 0")
      case False
      define p q where "p = int m * 2 ^ e" and "q = (2 :: int) ^ e"
      have "2 * \<bar>int a - p\<bar> \<le> q" using facts(3) by (simp only: p_def q_def)
      then have "2 * p \<le> 2 * int a + q" by presburger
      then have "2 * (int m * 2 ^ e) \<le> 2 * int a + 2 ^ e" by (simp only: p_def q_def)
      then have "int (2 * (m * 2 ^ e)) \<le> int (2 * a + 2 ^ e)" by simp
      then have "2 * (m * 2 ^ e) \<le> 2 * a + 2 ^ e" by (simp only: of_nat_le_iff)
      moreover have "2 ^ e \<le> 2 ^ 52 * (2 :: nat) ^ e" by simp
      then have "2 ^ e \<le> a" using facts(4) [OF False] by (rule order_trans)
      ultimately show ?thesis by linarith
    qed (simp add: m_def)
    with True facts(1) show ?thesis by (simp add: a_def)
  next
    case False
    have "n - sgn n * int m * 2 ^ e = sgn n * int a - sgn n * int m * 2 ^ e" using facts(2) by simp
    also have "\<dots> = sgn n * (int a - int m * 2 ^ e)" by (simp add: algebra_simps)
    finally have "\<bar>n - sgn n * int m * 2 ^ e\<bar> \<le> \<bar>int a - int m * 2 ^ e\<bar>"
      by (simp add: abs_mult abs_sgn_eq)
    then have "2 * \<bar>n - sgn n * int m * 2 ^ e\<bar> \<le> 2 * \<bar>int a - int m * 2 ^ e\<bar>" by simp
    with facts(3) have "2 * \<bar>n - sgn n * int m * 2 ^ e\<bar> \<le> 2 ^ e" by (rule order_trans [rotated])
    with facts(1) False show ?thesis by (simp add: e_def a_def)
  qed
qed

lemma int_to_float_overflow:
  assumes "float_limit \<le> nat \<bar>n\<bar>"
  shows "int_to_float n = Inl OverflowError"
proof -
  define a e where "a = nat \<bar>n\<bar>" and "e = bit_length a - 53"
  define m where "m = (if e = 0 then a else round_half_even a e)"
  note facts = int_to_float_unfold [of n, folded a_def, folded e_def, folded m_def]
  from assms have "1024 < bit_length a"
    using float_limit_exponent [OF _ bit_length_bound] by (simp only: float_limit_def a_def)
  then have e: "1024 \<le> 52 + e" "e \<noteq> 0" by (simp_all add: e_def)
  from facts(4) [OF e(2)] have "(2 ^ 52 * 2 ^ e) div 2 ^ e \<le> a div 2 ^ e" by (rule div_le_mono)
  then have "2 ^ 52 \<le> a div 2 ^ e" by simp
  with facts(5) [OF e(2)] have "2 ^ 52 \<le> m" by (rule order_trans [rotated])
  then have "2 ^ 52 * 2 ^ e \<le> m * 2 ^ e" by (rule mult_le_mono1)
  moreover have "float_limit \<le> 2 ^ (52 + e)" unfolding float_limit_def by (rule power_increasing [OF e(1)]) simp
  ultimately have "float_limit \<le> m * 2 ^ e" by (simp only: power_add)
  with facts(1) show ?thesis by simp
qed

section \<open>Properties\<close>


text \<open>A data series with a required float fact and a required dimension to another data series.\<close>

definition sample_info :: DataSeriesQueryInfo where
  "sample_info =
     \<lparr>qi_data_series_id = ''s'',
      qi_float_facts = [(''t'', \<lparr>fqi_fact = \<lparr>rof_id = ''f'', rof_name = [], rof_optional = False\<rparr>,
        fqi_dataseries_fact = \<lparr>rofr_id = [], rofr_external_id = ''t''\<rparr>\<rparr>)],
      qi_string_facts = [], qi_text_facts = [], qi_timestamp_facts = [], qi_image_facts = [],
      qi_json_facts = [], qi_boolean_facts = [], qi_file_facts = [],
      qi_dimensions = [(''d'', \<lparr>dqi_dimension = \<lparr>rod_id = [], rod_name = [], rod_optional = False,
        rod_reference = \<lparr>rods_id = ''r''\<rparr>\<rparr>,
        dqi_dataseries_dimension = \<lparr>rodd_id = [], rodd_external_id = ''d''\<rparr>\<rparr>)]\<rparr>"

definition sample_request :: ValidationRequest where
  "sample_request =
     \<lparr>vr_data_point_id = None, vr_info = sample_info, vr_partial = False, vr_bulk_insert = True,
      vr_external_id_as_dimension_identifier = True,
      vr_data_point_accessor = (\<lambda>series dp_id. if series = ''r'' \<and> dp_id = ''r-x''
        then Some \<lparr>rodp_id = dp_id, rodp_data_series_id = ''r'', rodp_external_id = ''x''\<rparr> else None)\<rparr>"

text \<open>The definitions that a validation of a concrete request evaluates.\<close>

lemmas validate_eval =
  validate_def ensure_payload_def validate_payload_def sample_request_def sample_info_def
  validate_dimensions_def validate_dim_ids_def dimension_external_id_def dimension_series_def
  validate_dimension_def gen_uuid_def set_iter_def fact_validations_def validate_float_facts_def
  validate_string_facts_def validate_text_facts_def validate_timestamp_facts_def
  validate_json_facts_def validate_image_facts_def validate_file_facts_def
  validate_boolean_facts_def validate_fact_def validate_fact_ids_def validate_fact_value_def
  fact_external_id_def fact_optional_def checked_external_id_def validate_external_id_def
  raise_errors_def assign_id_def Let_def dict_update_def

lemma sample_validated:
  "validate rev (\<lambda>s. s) [(''external_id'', PStr ''e''), (''payload'', PDict [(''t'', PInt 3), (''d'', PStr ''x'')])]
     sample_request =
   Inr [(''external_id'', PStr ''e''), (''payload'', PDict [(''t'', PFloat (Fin 3 0)), (''d'', PStr ''r-x'')]),
     (''id'', PStr ''s-e'')]"
  by (simp add: validate_eval int_to_float_exact)

lemma sample_ids: "distinct (info_ids (vr_info sample_request))"
  by code_simp


text \<open>An integer in a float fact becomes the nearest float: it has at most half a unit in the
  last place of error. The conversion can only raise an overflow, and only for a number of at
  least half of \<open>2 ^ 1024\<close>.\<close>

theorem int_to_float_rounds:
  "case int_to_float n of
     Inl err \<Rightarrow> err = OverflowError \<and> float_limit \<le> 2 * nat \<bar>n\<bar>
   | Inr x \<Rightarrow> \<exists>m. x = Fin m (int (bit_length (nat \<bar>n\<bar>) - 53)) \<and>
       2 * \<bar>n - m * 2 ^ (bit_length (nat \<bar>n\<bar>) - 53)\<bar> \<le> 2 ^ (bit_length (nat \<bar>n\<bar>) - 53)"
  by (rule int_to_float_cases)

text \<open>
  A number beyond the range of floats is no validation error: the exception leaves \<open>validate\<close>
  (first lemma). And a required dimension may be set to null (second lemma).
\<close>

lemma validate_overflow_raises:
  assumes "float_limit \<le> nat \<bar>n\<bar>" and "map_of attrs (fact_external_id f) = Some (PInt n)"
  shows "validate_fact ord [(k, f)] is_float name partial attrs = Inl OverflowError"
  using assms(2) by (simp add: validate_fact_def validate_fact_value_def Let_def int_to_float_overflow [OF assms(1)])

lemma required_dimension_may_be_null:
  "validate rev (\<lambda>s. s) [(''external_id'', PStr ''e''), (''payload'', PDict [(''t'', PInt 3), (''d'', PNone)])]
     sample_request =
   Inr [(''external_id'', PStr ''e''), (''payload'', PDict [(''t'', PFloat (Fin 3 0)), (''d'', PNone)]),
     (''id'', PStr ''s-e'')]"
  by (simp add: validate_eval int_to_float_exact)

end
