(* ===== verification/Server_Files.thy ===== *)
theory Server_Files
  imports Prelude "HOL-Library.Product_Lexorder"
begin

text \<open>
  The registry of files, \<open>dataseries/storage/contract/file_registry.py\<close>: the rows of
  \<open>_3_file_lookup\<close> and the calls to the file storage. An SQL statement is a function on the rows;
  what \<open>dbtime.now()\<close> returns is an argument \<open>now\<close>.
\<close>

section \<open>Rows\<close>

record FileLookup =
  fl_id :: int
  fl_tenant_id :: string
  fl_data_series_id :: string
  fl_fact_id :: string
  fl_data_point_id :: string
  fl_point_in_time :: int
  fl_sub_clock :: int
  fl_file_name :: string
  fl_deleted_at :: "int option"

text \<open>The columns of the constraint \<open>file_lookup_unique_file_lookup\<close>, and the version of a row.\<close>

definition fl_key :: "FileLookup \<Rightarrow> string \<times> string \<times> string \<times> string \<times> int \<times> int" where
  "fl_key l = (fl_tenant_id l, fl_data_series_id l, fl_fact_id l, fl_data_point_id l, fl_point_in_time l, fl_sub_clock l)"

definition fl_version :: "FileLookup \<Rightarrow> int \<times> int" where
  "fl_version l = (fl_point_in_time l, fl_sub_clock l)"

record HistoryDataPointIdentifier =
  hi_data_point_id :: string
  hi_point_in_time :: int
  hi_sub_clock :: int

record HistoryDataPointIdentifierBulkElem =
  be_fact_id :: string
  be_identifier :: HistoryDataPointIdentifier
  be_file_name :: string

text \<open>The calls that a storage (\<open>SaveStorage\<close> and \<open>DeleteStorage\<close>) carried out, the oldest first.\<close>

datatype storage_call = SaveFile string | DeleteFile string

record file_registry =
  fr_next_id :: int
  fr_lookups :: "FileLookup list"
  fr_storage :: "storage_call list"

type_synonym 'a registry_run = "(file_registry, 'a) api"

text \<open>A storage carries out a call or raises.\<close>

type_synonym file_storage = "storage_call list \<Rightarrow> storage_call \<Rightarrow> unit result"

definition call_storage :: "file_storage \<Rightarrow> storage_call \<Rightarrow> unit registry_run" where
  "call_storage storage c r =
     (case storage (fr_storage r) c of
        Inl e \<Rightarrow> (Inl e, r)
      | Inr _ \<Rightarrow> (Inr (), r\<lparr>fr_storage := fr_storage r @ [c]\<rparr>))"

section \<open>Registering files\<close>

definition insert_lookup :: "FileLookup \<Rightarrow> unit registry_run" where
  "insert_lookup l r =
     (if fl_key l \<in> fl_key ` set (fr_lookups r) then (Inl IntegrityError, r)
      else (Inr (), r\<lparr>fr_next_id := fr_next_id r + 1, fr_lookups := fr_lookups r @ [l\<lparr>fl_id := fr_next_id r\<rparr>]\<rparr>))"

definition new_lookup ::
  "string \<Rightarrow> string \<Rightarrow> string \<Rightarrow> HistoryDataPointIdentifier \<Rightarrow> string \<Rightarrow> FileLookup" where
  "new_lookup tenant_id data_series_id fact_id ident file_name =
     \<lparr>fl_id = 0, fl_tenant_id = tenant_id, fl_data_series_id = data_series_id, fl_fact_id = fact_id,
      fl_data_point_id = hi_data_point_id ident, fl_point_in_time = hi_point_in_time ident,
      fl_sub_clock = hi_sub_clock ident, fl_file_name = file_name, fl_deleted_at = None\<rparr>"

definition register ::
  "string \<Rightarrow> string \<Rightarrow> string \<Rightarrow> HistoryDataPointIdentifier \<Rightarrow> string \<Rightarrow> unit registry_run" where
  "register tenant_id data_series_id fact_id ident file_name =
     insert_lookup (new_lookup tenant_id data_series_id fact_id ident file_name)"

text \<open>\<open>bulk_create\<close> is a single statement: it inserts all rows or none.\<close>

definition register_bulk ::
  "string \<Rightarrow> string \<Rightarrow> HistoryDataPointIdentifierBulkElem list \<Rightarrow> unit registry_run" where
  "register_bulk tenant_id data_series_id bulk r =
     (case api_for (\<lambda>elem. register tenant_id data_series_id (be_fact_id elem) (be_identifier elem) (be_file_name elem)) bulk r of
        (Inl e, _) \<Rightarrow> (Inl e, r)
      | (Inr _, r1) \<Rightarrow> (Inr (), r1))"

definition save ::
  "file_storage \<Rightarrow> string \<Rightarrow> string \<Rightarrow> string \<Rightarrow> HistoryDataPointIdentifier \<Rightarrow> string \<Rightarrow> unit registry_run" where
  "save storage tenant_id data_series_id fact_id ident file =
     api_bind (register tenant_id data_series_id fact_id ident file) (\<lambda>_. call_storage storage (SaveFile file))"

text \<open>The manager \<open>objects\<close> sees only the rows that are not deleted.\<close>

definition file_exists :: "string option \<Rightarrow> string \<Rightarrow> file_registry \<Rightarrow> bool" where
  "file_exists tenant_id file_name r \<longleftrightarrow>
     (\<exists>l \<in> set (fr_lookups r). fl_deleted_at l = None \<and> fl_file_name l = file_name \<and>
        (case tenant_id of None \<Rightarrow> True | Some t \<Rightarrow> fl_tenant_id l = t))"

section \<open>Marking rows as deleted\<close>

text \<open>\<open>UPDATE "_3_file_lookup" SET "deleted_at" = now WHERE ... AND "deleted_at" IS NULL\<close>\<close>

definition mark_deleted :: "int \<Rightarrow> (FileLookup \<Rightarrow> bool) \<Rightarrow> file_registry \<Rightarrow> file_registry" where
  "mark_deleted now p r =
     r\<lparr>fr_lookups := map (\<lambda>l. if fl_deleted_at l = None \<and> p l then l\<lparr>fl_deleted_at := Some now\<rparr> else l) (fr_lookups r)\<rparr>"

definition truncate_data_series_data :: "int \<Rightarrow> string \<Rightarrow> string \<Rightarrow> file_registry \<Rightarrow> file_registry" where
  "truncate_data_series_data now tenant_id data_series_id =
     mark_deleted now (\<lambda>l. fl_tenant_id l = tenant_id \<and> fl_data_series_id l = data_series_id)"

definition truncate_fact_data :: "int \<Rightarrow> string \<Rightarrow> string \<Rightarrow> string \<Rightarrow> file_registry \<Rightarrow> file_registry" where
  "truncate_fact_data now tenant_id data_series_id fact_id =
     mark_deleted now (\<lambda>l. fl_tenant_id l = tenant_id \<and> fl_data_series_id l = data_series_id \<and> fl_fact_id l = fact_id)"

definition delete_all_for_datapoint ::
  "int \<Rightarrow> string \<Rightarrow> string \<Rightarrow> string \<Rightarrow> string \<Rightarrow> file_registry \<Rightarrow> file_registry" where
  "delete_all_for_datapoint now tenant_id data_series_id fact_id data_point_id =
     mark_deleted now (\<lambda>l. fl_tenant_id l = tenant_id \<and> fl_data_series_id l = data_series_id \<and>
       fl_fact_id l = fact_id \<and> fl_data_point_id l = data_point_id)"

text \<open>The condition of the self join: the other row is of the same fact and data point, and newer.\<close>

definition newer_lookup :: "FileLookup \<Rightarrow> FileLookup \<Rightarrow> bool" where
  "newer_lookup tbl tbl2 \<longleftrightarrow>
     fl_tenant_id tbl = fl_tenant_id tbl2 \<and> fl_data_series_id tbl = fl_data_series_id tbl2 \<and>
     fl_fact_id tbl = fl_fact_id tbl2 \<and> fl_data_point_id tbl = fl_data_point_id tbl2 \<and>
     fl_version tbl < fl_version tbl2"

definition to_mark :: "string \<Rightarrow> string \<Rightarrow> string list \<Rightarrow> FileLookup list \<Rightarrow> int list" where
  "to_mark tenant_id data_series_id data_point_ids rows =
     map fl_id (filter (\<lambda>tbl. fl_data_point_id tbl \<in> set data_point_ids \<and> fl_deleted_at tbl = None \<and>
       fl_tenant_id tbl = tenant_id \<and> fl_data_series_id tbl = data_series_id \<and>
       list_ex (newer_lookup tbl) rows) rows)"

text \<open>This statement has no \<open>deleted_at IS NULL\<close> of its own; the common table expression has it.\<close>

definition delete_all_but_latest_for_datapoints ::
  "string \<Rightarrow> string \<Rightarrow> string list \<Rightarrow> int \<Rightarrow> file_registry \<Rightarrow> file_registry" where
  "delete_all_but_latest_for_datapoints tenant_id data_series_id data_point_ids point_in_time r =
     (let ids = to_mark tenant_id data_series_id data_point_ids (fr_lookups r) in
      r\<lparr>fr_lookups := map (\<lambda>l. if fl_id l \<in> set ids then l\<lparr>fl_deleted_at := Some point_in_time\<rparr> else l) (fr_lookups r)\<rparr>)"

text \<open>\<open>IN ()\<close> is no valid SQL: an empty list of identifiers is an error.\<close>

definition delete_all_matching ::
  "int \<Rightarrow> string \<Rightarrow> string \<Rightarrow> string \<Rightarrow> HistoryDataPointIdentifier list \<Rightarrow> unit registry_run" where
  "delete_all_matching now tenant_id data_series_id fact_id idents r =
     (if idents = [] then (Inl ProgrammingError, r)
      else (Inr (), mark_deleted now (\<lambda>l. fl_tenant_id l = tenant_id \<and> fl_data_series_id l = data_series_id \<and>
        fl_fact_id l = fact_id \<and> (fl_data_point_id l, fl_point_in_time l, fl_sub_clock l) \<in>
          (\<lambda>i. (hi_data_point_id i, hi_point_in_time i, hi_sub_clock i)) ` set idents) r))"

section \<open>Garbage collection\<close>

text \<open>
  The rows marked before \<open>older_than\<close> are removed first; then every file that they name and no row
  in use names is deleted from the storage, in the order of a Python set.
\<close>

definition older_deleted :: "int \<Rightarrow> FileLookup \<Rightarrow> bool" where
  "older_deleted older_than l = (case fl_deleted_at l of None \<Rightarrow> False | Some d \<Rightarrow> d < older_than)"

definition garbage_files :: "int \<Rightarrow> file_registry \<Rightarrow> string list" where
  "garbage_files older_than r =
     (let r1 = r\<lparr>fr_lookups := filter (\<lambda>l. \<not> older_deleted older_than l) (fr_lookups r)\<rparr> in
      filter (\<lambda>file_name. \<not> file_exists None file_name r1)
        (map fl_file_name (filter (older_deleted older_than) (fr_lookups r))))"

definition garbage_collect ::
  "(string list \<Rightarrow> string list) \<Rightarrow> file_storage \<Rightarrow> int \<Rightarrow> unit registry_run" where
  "garbage_collect ord storage older_than r =
     api_for (\<lambda>file_name. call_storage storage (DeleteFile file_name))
       (set_iter ord (garbage_files older_than r))
       (r\<lparr>fr_lookups := filter (\<lambda>l. \<not> older_deleted older_than l) (fr_lookups r)\<rparr>)"

text \<open>The task of \<open>dataseries/tasks/file_registry.py\<close>.\<close>

definition actual_file_registry_cleanup ::
  "(string list \<Rightarrow> string list) \<Rightarrow> file_storage \<Rightarrow> int \<Rightarrow> int \<Rightarrow> unit registry_run" where
  "actual_file_registry_cleanup ord storage now max_age_hours =
     garbage_collect ord storage (now - max_age_hours * 3600000000)"

end
