(* ===== verification/Server_Events.thy ===== *)
theory Server_Events
  imports Server_Text "HOL-Library.Product_Lexorder"
begin

text \<open>
  Events of data points and their delivery to consumers: \<open>dataseries/models/event.py\<close> with the
  consumers of \<open>dataseries/models/metamodel/consumer.py\<close> and the task \<open>consumer_heartbeat\<close> of
  \<open>dataseries/tasks/event.py\<close>. The two database tables are lists of rows in the state; times are
  microseconds since the epoch. What lies outside (the consumer behind its URL, how much time
  passes, random agent names, the texts of tracebacks and of times) is the parameter \<open>outside\<close>.
\<close>

section \<open>Rows\<close>

datatype ConsumerEventState = NEW | RETRY | FAILED | SUCCESS

datatype ConsumerEventType = DATA_POINT_CHANGED | DATA_POINT_DELETED | DATA_SERIES_TRUNCATED

datatype ConsumerHealthState = UNKNOWN | UNHEALTHY | HEALTHY | RATE_LIMIT

datatype ConsumerMode = IN_ORDER | IN_ORDER_NON_BLOCKING

record EventConsumer =
  con_id :: string
  con_tenant :: string
  con_tenant_name :: string
  con_deleted_at :: "int option"
  con_target :: string
  con_headers :: "(string \<times> string) list option"
  con_timeout :: pyfloat
  con_health :: ConsumerHealthState
  con_mode :: ConsumerMode
  con_retry_backoff_every :: int
  con_retry_backoff_delay :: int
  con_retry_max :: int

record ConsumerEvent =
  ev_id :: int
  ev_tenant :: string
  ev_point_in_time :: int
  ev_sub_clock :: "int option"
  ev_last_updated_at :: int
  ev_backoff_cycles :: int
  ev_retries_in_cycle :: int
  ev_handle_at :: "int option"
  ev_retries :: int
  ev_consumer :: string
  ev_payload :: pydict
  ev_state :: ConsumerEventState
  ev_event_type :: ConsumerEventType
  ev_response :: "string option"
  ev_response_headers :: "(string \<times> string) list option"
  ev_status_code :: "int option"
  ev_exception :: "string option"

section \<open>What is outside\<close>

text \<open>
  A request of \<open>requests.post\<close> (redirects are never followed) and its response. A header without
  a value stands for \<open>None\<close>.
\<close>

record PostRequest =
  pr_url :: string
  pr_headers :: "(string \<times> string option) list"
  pr_json :: pydict
  pr_timeout :: pyfloat

record PostResponse =
  re_text :: string
  re_status_code :: int
  re_headers :: "(string \<times> string) list"

text \<open>
  \<open>out_elapsed\<close>: the time that passes until the clock is read again; \<open>out_post\<close>: the answer (or
  the traceback of the exception) and the time it takes; \<open>out_http_error\<close>: the traceback of
  \<open>raise_for_status\<close>.
\<close>

record 's outside =
  out_elapsed :: "'s \<Rightarrow> nat \<times> 's"
  out_agent :: "'s \<Rightarrow> string \<times> 's"
  out_post :: "'s \<Rightarrow> PostRequest \<Rightarrow> (string + PostResponse) \<times> nat \<times> 's"
  out_http_error :: "PostResponse \<Rightarrow> string"
  out_isoformat :: "int \<Rightarrow> string"

text \<open>
  \<open>ew_links\<close> holds data series and consumer of each row of \<open>DataSeries_Consumer\<close>, \<open>ew_posts\<close> the
  requests sent with the time they were sent at, \<open>ew_tasks\<close> the heartbeat tasks given to Celery.
\<close>

record 's event_world =
  ew_outside :: 's
  ew_now :: int
  ew_next_id :: int
  ew_events :: "ConsumerEvent list"
  ew_consumers :: "EventConsumer list"
  ew_links :: "(string \<times> string) list"
  ew_posts :: "(int \<times> PostRequest) list"
  ew_tasks :: "(string \<times> string) list"

definition timezone_now :: "'s outside \<Rightarrow> 's event_world \<Rightarrow> int \<times> 's event_world" where
  "timezone_now out w =
     (case out_elapsed out (ew_outside w) of (elapsed, s) \<Rightarrow>
        (ew_now w + int elapsed, w\<lparr>ew_outside := s, ew_now := ew_now w + int elapsed\<rparr>))"

text \<open>A datetime lies in the years 1 to 9999; arithmetic that leaves them raises.\<close>

definition datetime_min :: int where "datetime_min = - 62135596800000000"
definition datetime_max :: int where "datetime_max = 253402300799999999"

definition datetime_add :: "int \<Rightarrow> int \<Rightarrow> int result" where
  "datetime_add t d = (if datetime_min \<le> t + d \<and> t + d \<le> datetime_max then Inr (t + d) else Inl OverflowError)"

section \<open>Sanitizing what a consumer answers\<close>

definition RESPONSE_HEADERS_ALLOW_LIST :: "string list" where
  "RESPONSE_HEADERS_ALLOW_LIST =
     [''Content-Disposition'', ''Content-Encoding'', ''Content-Language'', ''Content-Length'',
      ''Content-Location'', ''Content-Range'', ''Content-Type'', ''Retry-After'']"

definition MAX_RESPONSE_LENGTH :: nat where "MAX_RESPONSE_LENGTH = 1024"

text \<open>
  The regular expression \<open>.*.local:[0-9]+\<close>, matched against the whole string from its end: digits,
  then \<open>local:\<close>, then at least one character, none of them a line break.
\<close>

definition is_trusted_consumer_target :: "string \<Rightarrow> bool" where
  "is_trusted_consumer_target target =
     (let port = takeWhile is_digit (rev target); rest = dropWhile is_digit (rev target) in
      port \<noteq> [] \<and> take 6 rest = rev ''local:'' \<and> drop 6 rest \<noteq> [] \<and>
      list_all (\<lambda>c. char_code c \<noteq> 10) (drop 6 rest))"

definition sanitize_response_untrusted :: "string \<Rightarrow> string" where
  "sanitize_response_untrusted x =
     (if MAX_RESPONSE_LENGTH < length x then take MAX_RESPONSE_LENGTH x @ ''...'' else x)"

definition sanitize_headers_untrusted :: "(string \<times> string) list \<Rightarrow> (string \<times> string) list" where
  "sanitize_headers_untrusted x = filter (\<lambda>(k, v). k \<in> set RESPONSE_HEADERS_ALLOW_LIST) x"

definition sanitize_response :: "string \<Rightarrow> string \<Rightarrow> string" where
  "sanitize_response netloc =
     (if is_trusted_consumer_target netloc then (\<lambda>x. x) else sanitize_response_untrusted)"

definition sanitize_headers :: "string \<Rightarrow> (string \<times> string) list \<Rightarrow> (string \<times> string) list" where
  "sanitize_headers netloc =
     (if is_trusted_consumer_target netloc then (\<lambda>x. x) else sanitize_headers_untrusted)"

section \<open>try_send_events\<close>

text \<open>The events to send, in the order of the query; \<open>NULL\<close> sorts last.\<close>

definition null_last :: "int option \<Rightarrow> int \<times> int" where
  "null_last x = (case x of Some n \<Rightarrow> (0, n) | None \<Rightarrow> (1, 0))"

definition order_key :: "ConsumerMode \<Rightarrow> ConsumerEvent \<Rightarrow> int \<times> int \<times> int \<times> int \<times> int" where
  "order_key mode e =
     ((case mode of IN_ORDER \<Rightarrow> 0 | IN_ORDER_NON_BLOCKING \<Rightarrow> ev_retries e),
      ev_point_in_time e, ev_id e, null_last (ev_sub_clock e))"

definition pending_events :: "EventConsumer \<Rightarrow> ConsumerEvent list \<Rightarrow> ConsumerEvent list" where
  "pending_events consumer events =
     sort_key (order_key (con_mode consumer))
       (filter (\<lambda>e. ev_state e \<notin> {FAILED, SUCCESS} \<and> ev_consumer e = con_id consumer) events)"

text \<open>None if the event must not be handled yet; at the start of a new cycle its counters change.\<close>

definition check_handle_at ::
  "'s outside \<Rightarrow> EventConsumer \<Rightarrow> ConsumerEvent \<Rightarrow> 's event_world \<Rightarrow> ConsumerEvent option \<times> 's event_world" where
  "check_handle_at out consumer event w =
     (case ev_handle_at event of
        None \<Rightarrow> (Some event, w)
      | Some handle_at \<Rightarrow>
          (case timezone_now out w of (now, w1) \<Rightarrow>
             if now < handle_at then (None, w1)
             else if con_retry_backoff_every consumer \<le> ev_retries_in_cycle event
             then (Some (event\<lparr>ev_backoff_cycles := ev_backoff_cycles event + 1, ev_retries_in_cycle := 0\<rparr>), w1)
             else (Some event, w1)))"

fun event_type_value :: "ConsumerEventType \<Rightarrow> string" where
  "event_type_value DATA_POINT_CHANGED = ''DATA_POINT_CHANGED''"
| "event_type_value DATA_POINT_DELETED = ''DATA_POINT_DELETED''"
| "event_type_value DATA_SERIES_TRUNCATED = ''DATA_SERIES_TRUNCATED''"

definition event_body :: "'s outside \<Rightarrow> EventConsumer \<Rightarrow> ConsumerEvent \<Rightarrow> pydict" where
  "event_body out consumer event =
     [(''point_in_time'', PStr (out_isoformat out (ev_point_in_time event))),
      (''event_type'', PStr (event_type_value (ev_event_type event))),
      (''tenant'', PStr (con_tenant_name consumer)),
      (''payload'', PDict (ev_payload event))] @
     (case ev_sub_clock event of
        Some n \<Rightarrow> if n \<noteq> 0 then [(''sub_clock'', PInt n)] else []
      | None \<Rightarrow> [])"

text \<open>The dictionary of headers is the consumer's own, unless that is null: an agent stays in it.\<close>

definition consumer_headers ::
  "'s outside \<Rightarrow> EventConsumer \<Rightarrow> 's event_world \<Rightarrow> (string \<times> string) list \<times> EventConsumer \<times> 's event_world" where
  "consumer_headers out consumer w =
     (let headers = (case con_headers consumer of None \<Rightarrow> [] | Some headers \<Rightarrow> headers) in
      if ''User-Agent'' \<in> set (keys headers) then (headers, consumer, w)
      else (case out_agent out (ew_outside w) of (agent, s) \<Rightarrow>
        (let headers' = AList.update ''User-Agent'' agent headers in
         (headers',
          (if con_headers consumer = None then consumer else consumer\<lparr>con_headers := Some headers'\<rparr>),
          w\<lparr>ew_outside := s\<rparr>))))"

definition post_request ::
  "'s outside \<Rightarrow> string option \<Rightarrow> string \<Rightarrow> EventConsumer \<Rightarrow> (string \<times> string) list \<Rightarrow> ConsumerEvent \<Rightarrow> PostRequest" where
  "post_request out proxy_url netloc consumer headers event =
     (let hs = map (\<lambda>(k, v). (k, Some v)) headers; body = event_body out consumer event in
      case proxy_url of
        Some (c # cs) \<Rightarrow>
          \<lparr>pr_url = c # cs,
           pr_headers = AList.update ''x-skipper-proxied-url'' (Some (con_target consumer))
             (AList.update ''x-skipper-proxied-host'' (urlsplit_hostname netloc) hs),
           pr_json = body, pr_timeout = con_timeout consumer\<rparr>
      | _ \<Rightarrow> \<lparr>pr_url = con_target consumer, pr_headers = hs, pr_json = body, pr_timeout = con_timeout consumer\<rparr>)"

definition requests_post ::
  "'s outside \<Rightarrow> PostRequest \<Rightarrow> 's event_world \<Rightarrow> (string + PostResponse) \<times> 's event_world" where
  "requests_post out rq w =
     (case out_post out (ew_outside w) rq of (answer, elapsed, s) \<Rightarrow>
        (answer, w\<lparr>ew_outside := s, ew_now := ew_now w + int elapsed, ew_posts := ew_posts w @ [(ew_now w, rq)]\<rparr>))"

text \<open>The headers of a response are looked up without regard to case; only seconds are supported.\<close>

definition retry_at_from_response ::
  "'s outside \<Rightarrow> PostResponse \<Rightarrow> 's event_world \<Rightarrow> int option \<times> 's event_world" where
  "retry_at_from_response out response w =
     (case find (\<lambda>(k, v). lower k = lower ''Retry-After'') (rev (re_headers response)) of
        None \<Rightarrow> (None, w)
      | Some (_, v) \<Rightarrow>
          (case timezone_now out w of (now, w1) \<Rightarrow>
             (case parse_int v of
                None \<Rightarrow> (None, w1)
              | Some seconds \<Rightarrow>
                  (case datetime_add now (1000000 * seconds) of Inl _ \<Rightarrow> (None, w1) | Inr t \<Rightarrow> (Some t, w1)))))"

definition backoff_at :: "'s outside \<Rightarrow> EventConsumer \<Rightarrow> 's event_world \<Rightarrow> int result \<times> 's event_world" where
  "backoff_at out consumer w =
     (case timezone_now out w of (now, w1) \<Rightarrow> (datetime_add now (con_retry_backoff_delay consumer), w1))"

text \<open>What the \<open>except\<close> branch sets; the answer is None when \<open>requests.post\<close> itself raised.\<close>

definition rate_limited :: "PostResponse option \<Rightarrow> bool" where
  "rate_limited resp = (case resp of None \<Rightarrow> False | Some response \<Rightarrow> re_status_code response = 429)"

definition next_handle_at ::
  "'s outside \<Rightarrow> EventConsumer \<Rightarrow> PostResponse option \<Rightarrow> ConsumerEvent \<Rightarrow> 's event_world \<Rightarrow>
     int option result \<times> 's event_world" where
  "next_handle_at out consumer resp event w =
     (let backoff = (\<lambda>w. case backoff_at out consumer w of
            (Inl err, w1) \<Rightarrow> (Inl err, w1) | (Inr t, w1) \<Rightarrow> (Inr (Some t), w1)) in
      if rate_limited resp then
        (case retry_at_from_response out (the resp) w of
           (Some t, w1) \<Rightarrow> (Inr (Some t), w1)
         | (None, w1) \<Rightarrow> backoff w1)
      else if con_retry_backoff_every consumer \<le> ev_retries_in_cycle event then backoff w
      else (Inr (ev_handle_at event), w))"

definition failed_state :: "EventConsumer \<Rightarrow> ConsumerEvent \<Rightarrow> ConsumerEventState" where
  "failed_state consumer event =
     (if 0 < con_retry_max consumer \<and> con_retry_max consumer < ev_retries event then FAILED else RETRY)"

definition handle_failure ::
  "'s outside \<Rightarrow> EventConsumer \<Rightarrow> PostResponse option \<Rightarrow> string \<Rightarrow> ConsumerEvent \<Rightarrow> 's event_world \<Rightarrow>
     (ConsumerEvent \<times> ConsumerHealthState) result \<times> 's event_world" where
  "handle_failure out consumer resp exc event w =
     (let event1 = (if resp = None
            then event\<lparr>ev_response := None, ev_status_code := None, ev_response_headers := None\<rparr> else event);
          event2 = event1\<lparr>ev_exception := Some exc, ev_retries := ev_retries event1 + 1,
                          ev_retries_in_cycle := ev_retries_in_cycle event1 + 1\<rparr> in
      case next_handle_at out consumer resp event2 w of
        (Inl err, w1) \<Rightarrow> (Inl err, w1)
      | (Inr handle_at, w1) \<Rightarrow>
          (Inr (event2\<lparr>ev_handle_at := handle_at, ev_state := failed_state consumer event2\<rparr>,
                if rate_limited resp then RATE_LIMIT else UNHEALTHY), w1))"

definition record_response :: "string \<Rightarrow> PostResponse \<Rightarrow> ConsumerEvent \<Rightarrow> ConsumerEvent" where
  "record_response netloc response event =
     event\<lparr>ev_response := Some (sanitize_response netloc (re_text response)),
           ev_status_code := Some (re_status_code response),
           ev_response_headers := Some (sanitize_headers netloc (re_headers response))\<rparr>"

text \<open>\<open>raise_for_status\<close> raises for the statuses from 400 to 599.\<close>

definition error_status :: "PostResponse \<Rightarrow> bool" where
  "error_status response \<longleftrightarrow> 400 \<le> re_status_code response \<and> re_status_code response < 600"

definition handle_answer ::
  "'s outside \<Rightarrow> EventConsumer \<Rightarrow> string \<Rightarrow> (string + PostResponse) \<Rightarrow> ConsumerEvent \<Rightarrow> 's event_world \<Rightarrow>
     (ConsumerEvent \<times> ConsumerHealthState) result \<times> 's event_world" where
  "handle_answer out consumer netloc answer event w =
     (case answer of
        Inl exc \<Rightarrow> handle_failure out consumer None exc event w
      | Inr response \<Rightarrow>
          (let event1 = record_response netloc response event in
           if error_status response
           then handle_failure out consumer (Some response) (out_http_error out response) event1 w
           else (Inr (event1\<lparr>ev_exception := None, ev_state := SUCCESS\<rparr>, HEALTHY), w)))"

text \<open>\<open>event.save()\<close> writes the row and sets \<open>last_updated_at\<close>.\<close>

definition save_event :: "'s outside \<Rightarrow> ConsumerEvent \<Rightarrow> 's event_world \<Rightarrow> 's event_world" where
  "save_event out event w =
     (case timezone_now out w of (now, w1) \<Rightarrow>
        w1\<lparr>ew_events := map (\<lambda>e. if ev_id e = ev_id event then event\<lparr>ev_last_updated_at := now\<rparr> else e) (ew_events w1)\<rparr>)"

text \<open>One event that may be handled now: the answer, with whether it failed.\<close>

definition send_event ::
  "'s outside \<Rightarrow> string option \<Rightarrow> string \<Rightarrow> EventConsumer \<Rightarrow> ConsumerEvent \<Rightarrow> 's event_world \<Rightarrow>
     (bool \<times> ConsumerHealthState) result \<times> EventConsumer \<times> 's event_world" where
  "send_event out proxy_url netloc consumer event w =
     (case consumer_headers out consumer w of (headers, consumer1, w1) \<Rightarrow>
      case requests_post out (post_request out proxy_url netloc consumer1 headers event) w1 of (answer, w2) \<Rightarrow>
      case handle_answer out consumer1 netloc answer event w2 of
        (Inl err, w3) \<Rightarrow> (Inl err, consumer1, w3)
      | (Inr (event1, health), w3) \<Rightarrow>
          (Inr (ev_state event1 \<noteq> SUCCESS, health), consumer1, save_event out event1 w3))"

text \<open>The loop: whether more events are left, and how many were looked at.\<close>

fun send_loop ::
  "'s outside \<Rightarrow> string option \<Rightarrow> nat option \<Rightarrow> string \<Rightarrow> EventConsumer \<Rightarrow> ConsumerHealthState \<Rightarrow> nat \<Rightarrow>
     ConsumerEvent list \<Rightarrow> 's event_world \<Rightarrow>
     (bool \<times> nat \<times> ConsumerHealthState) result \<times> EventConsumer \<times> 's event_world" where
  "send_loop out proxy_url max_events netloc consumer health cnt [] w = (Inr (False, cnt, health), consumer, w)"
| "send_loop out proxy_url max_events netloc consumer health cnt (event # events) w =
     (if (case max_events of Some m \<Rightarrow> m \<le> cnt | None \<Rightarrow> False) then (Inr (True, cnt, health), consumer, w)
      else case check_handle_at out consumer event w of
        (None, w1) \<Rightarrow> (Inr (False, cnt + 1, health), consumer, w1)
      | (Some event1, w1) \<Rightarrow>
          (case send_event out proxy_url netloc consumer event1 w1 of
             (Inl err, consumer1, w2) \<Rightarrow> (Inl err, consumer1, w2)
           | (Inr (failed, health1), consumer1, w2) \<Rightarrow>
               if failed then (Inr (False, cnt + 1, health1), consumer1, w2)
               else send_loop out proxy_url max_events netloc consumer1 health1 (cnt + 1) events w2))"

definition save_health :: "EventConsumer \<Rightarrow> 's event_world \<Rightarrow> 's event_world" where
  "save_health consumer w =
     w\<lparr>ew_consumers := map (\<lambda>c. if con_id c = con_id consumer then c\<lparr>con_health := con_health consumer\<rparr> else c)
         (ew_consumers w)\<rparr>"

definition try_send_events ::
  "'s outside \<Rightarrow> EventConsumer \<Rightarrow> string option \<Rightarrow> nat option \<Rightarrow> 's event_world \<Rightarrow>
     (bool \<times> nat) result \<times> EventConsumer \<times> 's event_world" where
  "try_send_events out consumer proxy_url max_events w =
     (case urlsplit_netloc (con_target consumer) of
        Inl err \<Rightarrow> (Inl err, consumer, w)
      | Inr netloc \<Rightarrow>
          (let pending = pending_events consumer (ew_events w);
               events = (case max_events of None \<Rightarrow> pending | Some m \<Rightarrow> take (m + 1) pending) in
           case send_loop out proxy_url max_events netloc consumer (con_health consumer) 0 events w of
             (Inl err, consumer1, w1) \<Rightarrow> (Inl err, consumer1, w1)
           | (Inr (more_events, cnt, health), consumer1, w1) \<Rightarrow>
               if con_health consumer1 \<noteq> health
               then (let consumer2 = consumer1\<lparr>con_health := health\<rparr> in
                     (Inr (more_events, cnt), consumer2, save_health consumer2 w1))
               else (Inr (more_events, cnt), consumer1, w1)))"

section \<open>consumer_heartbeat\<close>

text \<open>
  Each round is a transaction of its own: an exception undoes what the round wrote to the tables.
  After the round that passes the limit a new task is enqueued; the loop goes on.
\<close>

fun heartbeat_loop ::
  "nat \<Rightarrow> 's outside \<Rightarrow> string option \<Rightarrow> nat \<Rightarrow> EventConsumer \<Rightarrow> nat \<Rightarrow> 's event_world \<Rightarrow> unit result \<times> 's event_world" where
  "heartbeat_loop 0 out proxy_url limit consumer total_sent w = (Inl OutOfFuel, w)"
| "heartbeat_loop (Suc fuel) out proxy_url limit consumer total_sent w =
     (case try_send_events out consumer proxy_url (Some 100) w of
        (Inl err, _, w1) \<Rightarrow> (Inl err, w1\<lparr>ew_events := ew_events w, ew_consumers := ew_consumers w\<rparr>)
      | (Inr (more_events, sent), consumer1, w1) \<Rightarrow>
          (let total1 = total_sent + sent in
           if \<not> more_events then (Inr (), w1)
           else heartbeat_loop fuel out proxy_url limit consumer1 total1
             (if limit < total1
              then w1\<lparr>ew_tasks := ew_tasks w1 @ [(con_tenant consumer1, con_id consumer1)]\<rparr> else w1)))"

definition consumer_heartbeat ::
  "nat \<Rightarrow> 's outside \<Rightarrow> string option \<Rightarrow> nat \<Rightarrow> string \<Rightarrow> 's event_world \<Rightarrow> unit result \<times> 's event_world" where
  "consumer_heartbeat fuel out proxy_url limit consumer_id w =
     (case filter (\<lambda>c. con_id c = consumer_id \<and> con_deleted_at c = None) (ew_consumers w) of
        [consumer] \<Rightarrow> heartbeat_loop fuel out proxy_url limit consumer 0 w
      | _ \<Rightarrow> (Inr (), w))"

section \<open>Creating and deleting events\<close>

text \<open>The consumers of a data series, in any order that the database chooses.\<close>

definition consumers_of ::
  "(EventConsumer list \<Rightarrow> EventConsumer list) \<Rightarrow> string \<Rightarrow> string \<Rightarrow> 's event_world \<Rightarrow> EventConsumer list" where
  "consumers_of ord tenant data_series_id w =
     set_iter ord (filter (\<lambda>c. con_deleted_at c = None \<and> con_tenant c = tenant \<and>
       (data_series_id, con_id c) \<in> set (ew_links w)) (ew_consumers w))"

definition create_event :: "'s outside \<Rightarrow> ConsumerEvent \<Rightarrow> 's event_world \<Rightarrow> 's event_world" where
  "create_event out event w =
     (case timezone_now out w of (now, w1) \<Rightarrow>
        w1\<lparr>ew_events := ew_events w1 @ [event\<lparr>ev_id := ew_next_id w1, ev_last_updated_at := now\<rparr>],
           ew_next_id := ew_next_id w1 + 1\<rparr>)"

definition data_point_event ::
  "'s outside \<Rightarrow> (EventConsumer list \<Rightarrow> EventConsumer list) \<Rightarrow> string \<Rightarrow> string \<Rightarrow> int \<Rightarrow> int \<Rightarrow> pydict \<Rightarrow>
     ConsumerEventType \<Rightarrow> 's event_world \<Rightarrow> 's event_world" where
  "data_point_event out ord tenant data_series_id point_in_time sub_clock payload event_type w =
     fold (\<lambda>consumer. create_event out
       \<lparr>ev_id = 0, ev_tenant = tenant, ev_point_in_time = point_in_time, ev_sub_clock = Some sub_clock,
        ev_last_updated_at = 0, ev_backoff_cycles = 0, ev_retries_in_cycle = 0, ev_handle_at = None,
        ev_retries = 0, ev_consumer = con_id consumer, ev_payload = payload, ev_state = NEW,
        ev_event_type = event_type, ev_response = None, ev_response_headers = None,
        ev_status_code = None, ev_exception = None\<rparr>) (consumers_of ord tenant data_series_id w) w"

definition truncate_events ::
  "(EventConsumer list \<Rightarrow> EventConsumer list) \<Rightarrow> string \<Rightarrow> string \<Rightarrow> 's event_world \<Rightarrow> 's event_world" where
  "truncate_events ord tenant data_series_id w =
     fold (\<lambda>consumer w. w\<lparr>ew_events := filter (\<lambda>e. \<not> (ev_tenant e = tenant \<and> ev_consumer e = con_id consumer)) (ew_events w)\<rparr>)
       (consumers_of ord tenant data_series_id w) w"

definition delete_old_events :: "'s outside \<Rightarrow> EventConsumer \<Rightarrow> 's event_world \<Rightarrow> 's event_world" where
  "delete_old_events out consumer w =
     (case timezone_now out w of (now, w1) \<Rightarrow>
        w1\<lparr>ew_events := filter (\<lambda>e. \<not> (ev_state e \<in> {FAILED, SUCCESS} \<and> ev_consumer e = con_id consumer \<and>
             ev_point_in_time e \<le> now - 30 * 86400000000)) (ew_events w1)\<rparr>)"

definition delete_all_events_for_consumer :: "EventConsumer \<Rightarrow> 's event_world \<Rightarrow> 's event_world" where
  "delete_all_events_for_consumer consumer w =
     w\<lparr>ew_events := filter (\<lambda>e. ev_consumer e \<noteq> con_id consumer) (ew_events w)\<rparr>"

definition hard_delete_consumer :: "EventConsumer \<Rightarrow> 's event_world \<Rightarrow> 's event_world" where
  "hard_delete_consumer consumer w =
     (let w1 = delete_all_events_for_consumer consumer w in
      w1\<lparr>ew_consumers := filter (\<lambda>c. con_id c \<noteq> con_id consumer) (ew_consumers w1)\<rparr>)"

end
