(* ===== verification/Server_Storage.thy ===== *)
theory Server_Storage
  imports Server_Files Server_Events
begin

text \<open>
  The dynamic SQL storage backend: the table of current versions (\<open>_mat_...\<close>) and the flat history
  (\<open>_mfhist_...\<close>) of a data series and what writes to them:
  \<open>storage/dynamic_sql/queries/modification_materialized/\<close>, \<open>tasks/persist_data_point.py\<close>,
  \<open>tasks/truncate.py\<close> and \<open>tasks/prune.py\<close>. An SQL statement is what PostgreSQL does with the rows
  of the tables it names. Times (microseconds) and values of the sequence \<open>_3_dp_sub_clock_seq\<close> are
  arguments, as in the code. The split tables of the deprecated backends are not modelled.
\<close>

section \<open>Data series and their tables\<close>

datatype StorageBackendType =
  DYNAMIC_SQL_MATERIALIZED_FLAT_HISTORY | DYNAMIC_SQL_NO_HISTORY | DYNAMIC_SQL_MATERIALIZED | DYNAMIC_SQL_V1

datatype child_kind =
  image_facts | file_facts | float_facts | string_facts | json_facts | dimensions | text_facts | boolean_facts | timestamp_facts

type_synonym DataPointSerializationKeys = "child_kind \<Rightarrow> (string \<times> string) list"

record DataSeries =
  ds_id :: string
  ds_external_id :: string
  ds_backend :: StorageBackendType
  ds_tenant_id :: string
  ds_keys :: DataPointSerializationKeys

definition materialized_column_name :: "string \<Rightarrow> string \<Rightarrow> string" where
  "materialized_column_name object_id external_id = take 60 (object_id @ ''_'' @ external_id)"

definition materialized_table_name :: "string \<Rightarrow> string \<Rightarrow> string" where
  "materialized_table_name object_id external_id = take 60 (''_mat_'' @ object_id @ ''_'' @ external_id)"

definition materialized_flat_history_table_name :: "string \<Rightarrow> string \<Rightarrow> string" where
  "materialized_flat_history_table_name object_id external_id = take 60 (''_mfhist_'' @ object_id @ ''_'' @ external_id)"

definition FACT_DIM_ORDER_IN_SQL :: "child_kind list" where
  "FACT_DIM_ORDER_IN_SQL =
     [image_facts, file_facts, float_facts, string_facts, json_facts, dimensions, text_facts, boolean_facts, timestamp_facts]"

definition data_keys :: "DataPointSerializationKeys \<Rightarrow> (child_kind \<times> string \<times> string) list" where
  "data_keys skeys = concat (map (\<lambda>kind. map (Pair kind) (skeys kind)) FACT_DIM_ORDER_IN_SQL)"

definition key_column :: "child_kind \<times> string \<times> string \<Rightarrow> string" where
  "key_column k = (case k of (kind, external_id, uuid) \<Rightarrow> materialized_column_name uuid external_id)"

text \<open>The value of a column; a JSON column tells the JSON value \<open>null\<close> from \<open>NULL\<close>.\<close>

datatype sql_value = SqlNull | Sql pyval | SqlJson pyval

record mat_row =
  mr_id :: string
  mr_external_id :: string
  mr_point_in_time :: int
  mr_inserted_at :: int
  mr_deleted_at :: "int option"
  mr_sub_clock :: "int option"
  mr_columns :: "string \<Rightarrow> sql_value"

record hist_row =
  hr_id :: string
  hr_external_id :: string
  hr_point_in_time :: int
  hr_deleted :: bool
  hr_user_id :: "string option"
  hr_record_source :: string
  hr_sub_clock :: int
  hr_columns :: "string \<Rightarrow> sql_value"

record 's storage_world =
  sw_registry :: file_registry
  sw_mat :: "string \<Rightarrow> mat_row list"
  sw_hist :: "string \<Rightarrow> hist_row list"
  sw_events :: "'s event_world"

type_synonym ('s, 'a) storage_run = "('s storage_world, 'a) api"

definition mat_table :: "DataSeries \<Rightarrow> string" where
  "mat_table ds = materialized_table_name (ds_id ds) (ds_external_id ds)"

definition hist_table :: "DataSeries \<Rightarrow> string" where
  "hist_table ds = materialized_flat_history_table_name (ds_id ds) (ds_external_id ds)"

definition on_registry :: "'a registry_run \<Rightarrow> ('s, 'a) storage_run" where
  "on_registry m w = (case m (sw_registry w) of (r, reg) \<Rightarrow> (r, w\<lparr>sw_registry := reg\<rparr>))"

definition registry_update :: "(file_registry \<Rightarrow> file_registry) \<Rightarrow> ('s, unit) storage_run" where
  "registry_update f = on_registry (\<lambda>r. (Inr (), f r))"

text \<open>
  \<open>transaction.atomic()\<close>: an exception undoes what was written to tables, not the calls to the file
  storage, the numbers taken from sequences or the time that has passed.
\<close>

definition atomic :: "('s, 'a) storage_run \<Rightarrow> ('s, 'a) storage_run" where
  "atomic m w =
     (case m w of
        (Inl e, w1) \<Rightarrow>
          (Inl e, w\<lparr>sw_registry := (sw_registry w1)\<lparr>fr_lookups := fr_lookups (sw_registry w)\<rparr>,
                    sw_events := (sw_events w1)\<lparr>ew_events := ew_events (sw_events w), ew_consumers := ew_consumers (sw_events w)\<rparr>\<rparr>)
      | (Inr x, w1) \<Rightarrow> (Inr x, w1))"

section \<open>modification_materialized/insert.py\<close>

record ValidatedData =
  vd_id :: string
  vd_external_id :: string
  vd_payload :: pydict

text \<open>The version that a write carries, and who writes.\<close>

record stamp =
  st_point_in_time :: int
  st_sub_clock :: int
  st_user_id :: string
  st_record_source :: string

definition version :: "stamp \<Rightarrow> int \<times> int" where
  "version st = (st_point_in_time st, st_sub_clock st)"

text \<open>The value of one column; a file is registered and saved on the way.\<close>

definition file_value ::
  "file_storage \<Rightarrow> DataSeries \<Rightarrow> stamp \<Rightarrow> ValidatedData \<Rightarrow> string \<Rightarrow> pyval \<Rightarrow> sql_value registry_run" where
  "file_value storage ds st vd uuid v =
     (case v of
        PNone \<Rightarrow> api_return SqlNull
      | PFile file_name \<Rightarrow>
          api_bind (api_when (ds_backend ds \<in> {DYNAMIC_SQL_NO_HISTORY, DYNAMIC_SQL_MATERIALIZED_FLAT_HISTORY})
            (save storage (ds_tenant_id ds) (ds_id ds) uuid
              \<lparr>hi_data_point_id = vd_id vd, hi_point_in_time = st_point_in_time st, hi_sub_clock = st_sub_clock st\<rparr> file_name))
            (\<lambda>_. api_return (Sql (PStr file_name)))
      | _ \<Rightarrow> api_raise AttributeError)"

definition plain_value :: "child_kind \<Rightarrow> pyval \<Rightarrow> sql_value" where
  "plain_value kind v = (if kind = json_facts then SqlJson v else if v = PNone then SqlNull else Sql v)"

definition column_value ::
  "file_storage \<Rightarrow> DataSeries \<Rightarrow> stamp \<Rightarrow> ValidatedData \<Rightarrow> child_kind \<times> string \<times> string \<Rightarrow> sql_value registry_run" where
  "column_value storage ds st vd k =
     (case k of (kind, external_id, uuid) \<Rightarrow>
        (case map_of (vd_payload vd) external_id of
           None \<Rightarrow> api_return SqlNull
         | Some v \<Rightarrow>
             if kind \<in> {image_facts, file_facts} then file_value storage ds st vd uuid v
             else api_return (plain_value kind v)))"

text \<open>The data columns of \<open>values_to_insert\<close> for one data point.\<close>

definition row_values ::
  "file_storage \<Rightarrow> DataSeries \<Rightarrow> stamp \<Rightarrow> ValidatedData \<Rightarrow> (string \<times> sql_value) list registry_run" where
  "row_values storage ds st vd =
     api_map (\<lambda>k. api_bind (column_value storage ds st vd k) (\<lambda>v. api_return (key_column k, v)))
       (data_keys (ds_keys ds))"

definition columns_of :: "(string \<times> sql_value) list \<Rightarrow> string \<Rightarrow> sql_value" where
  "columns_of vals c = (case map_of vals c of None \<Rightarrow> SqlNull | Some v \<Rightarrow> v)"

definition values_to_insert :: "stamp \<Rightarrow> ValidatedData \<Rightarrow> (string \<times> sql_value) list \<Rightarrow> mat_row" where
  "values_to_insert st vd vals =
     \<lparr>mr_id = vd_id vd, mr_external_id = vd_external_id vd, mr_point_in_time = st_point_in_time st,
      mr_inserted_at = st_point_in_time st, mr_deleted_at = None, mr_sub_clock = Some (st_sub_clock st),
      mr_columns = columns_of vals\<rparr>"

text \<open>The columns that are set: all of them, or for a patch those in the payload.\<close>

definition set_columns :: "bool \<Rightarrow> DataSeries \<Rightarrow> ValidatedData \<Rightarrow> string list" where
  "set_columns partial ds vd =
     map key_column (filter (\<lambda>(kind, external_id, uuid). \<not> partial \<or> external_id \<in> fst ` set (vd_payload vd))
       (data_keys (ds_keys ds)))"

text \<open>The \<open>WHERE\<close> of \<open>ON CONFLICT (id) DO UPDATE\<close>.\<close>

definition upsert_applies :: "mat_row \<Rightarrow> stamp \<Rightarrow> bool" where
  "upsert_applies target_tbl st \<longleftrightarrow>
     (let since = (case mr_deleted_at target_tbl of None \<Rightarrow> mr_point_in_time target_tbl | Some d \<Rightarrow> d) in
      case mr_sub_clock target_tbl of
        None \<Rightarrow> since < st_point_in_time st
      | Some s \<Rightarrow> (since, s) < version st)"

definition upsert_row :: "string list \<Rightarrow> mat_row \<Rightarrow> mat_row \<Rightarrow> mat_row" where
  "upsert_row set_cols excluded target_tbl =
     target_tbl\<lparr>mr_inserted_at := (if mr_deleted_at target_tbl = None then mr_inserted_at target_tbl else mr_inserted_at excluded),
       mr_deleted_at := mr_deleted_at excluded, mr_point_in_time := mr_point_in_time excluded,
       mr_sub_clock := mr_sub_clock excluded,
       mr_columns := (\<lambda>c. if c \<in> set set_cols then mr_columns excluded c else mr_columns target_tbl c)\<rparr>"

text \<open>The row returned by \<open>RETURNING *\<close>, if one was written, and the rows of the table.\<close>

definition put_row :: "mat_row \<Rightarrow> mat_row list \<Rightarrow> mat_row list" where
  "put_row row rows = map (\<lambda>r. if mr_id r = mr_id row then row else r) rows"

definition central_insert :: "string list \<Rightarrow> stamp \<Rightarrow> mat_row \<Rightarrow> mat_row list \<Rightarrow> mat_row option \<times> mat_row list" where
  "central_insert set_cols st row rows =
     (case find (\<lambda>r. mr_id r = mr_id row) rows of
        None \<Rightarrow> (Some row, rows @ [row])
      | Some target_tbl \<Rightarrow>
          if upsert_applies target_tbl st
          then (let row1 = upsert_row set_cols row target_tbl in (Some row1, put_row row1 rows))
          else (None, rows))"

text \<open>The primary key of the history is \<open>(id, point_in_time, sub_clock)\<close>.\<close>

definition hr_key :: "hist_row \<Rightarrow> string \<times> int \<times> int" where
  "hr_key h = (hr_id h, hr_point_in_time h, hr_sub_clock h)"

definition insert_history :: "hist_row option \<Rightarrow> hist_row list \<Rightarrow> hist_row list result" where
  "insert_history row rows =
     (case row of
        None \<Rightarrow> Inr rows
      | Some h \<Rightarrow> if hr_key h \<in> hr_key ` set rows then Inl IntegrityError else Inr (rows @ [h]))"

text \<open>\<open>insert_to_flat_history_query\<close>: the history row of a row of the source query.\<close>

definition insert_to_flat_history_query ::
  "stamp \<Rightarrow> string \<Rightarrow> string \<Rightarrow> int \<Rightarrow> int option \<Rightarrow> int \<Rightarrow> (string \<Rightarrow> sql_value) \<Rightarrow> hist_row" where
  "insert_to_flat_history_query st object_id external_id point_in_time deleted_at sub_clock columns =
     \<lparr>hr_id = object_id, hr_external_id = external_id,
      hr_point_in_time = (case deleted_at of None \<Rightarrow> point_in_time | Some d \<Rightarrow> d),
      hr_deleted = (case deleted_at of None \<Rightarrow> False | Some _ \<Rightarrow> True),
      hr_user_id = Some (st_user_id st), hr_record_source = st_record_source st, hr_sub_clock = sub_clock,
      hr_columns = columns\<rparr>"

text \<open>The source query joins \<open>values_to_insert\<close> and \<open>inserted\<close>; a patch takes what it does not set from the latter.\<close>

definition history_of_insert :: "string list \<Rightarrow> stamp \<Rightarrow> mat_row \<Rightarrow> mat_row \<Rightarrow> hist_row" where
  "history_of_insert set_cols st row inserted =
     insert_to_flat_history_query st (mr_id row) (mr_external_id row) (mr_point_in_time row) (mr_deleted_at row)
       (st_sub_clock st) (\<lambda>c. if c \<in> set set_cols then mr_columns row c else mr_columns inserted c)"

text \<open>One execution of the statement.\<close>

definition write_row ::
  "bool \<Rightarrow> DataSeries \<Rightarrow> stamp \<Rightarrow> ValidatedData \<times> (string \<times> sql_value) list \<Rightarrow> ('s, unit) storage_run" where
  "write_row partial ds st data w =
     (let vd = fst data; row = values_to_insert st vd (snd data); set_cols = set_columns partial ds vd in
      case central_insert set_cols st row (sw_mat w (mat_table ds)) of (inserted, rows) \<Rightarrow>
        (let w1 = w\<lparr>sw_mat := (sw_mat w)(mat_table ds := rows)\<rparr> in
         if ds_backend ds = DYNAMIC_SQL_MATERIALIZED_FLAT_HISTORY then
           (case insert_history (map_option (history_of_insert set_cols st row) inserted) (sw_hist w (hist_table ds)) of
              Inl e \<Rightarrow> (Inl e, w)
            | Inr hist \<Rightarrow> (Inr (), w1\<lparr>sw_hist := (sw_hist w)(hist_table ds := hist)\<rparr>))
         else (Inr (), w1)))"

text \<open>
  \<open>repeated\<close>: the lists of columns still hold those of an earlier data point, which makes the
  statement invalid.
\<close>

definition insert_or_update_data_points_impl ::
  "file_storage \<Rightarrow> bool \<Rightarrow> bool \<Rightarrow> DataSeries \<Rightarrow> stamp \<Rightarrow> ValidatedData list \<Rightarrow> ('s, unit) storage_run" where
  "insert_or_update_data_points_impl storage partial repeated ds st validated_datas =
     api_bind (on_registry (api_map (row_values storage ds st) validated_datas)) (\<lambda>all_values.
     api_bind (api_when (ds_backend ds = DYNAMIC_SQL_NO_HISTORY)
       (registry_update (delete_all_but_latest_for_datapoints (ds_tenant_id ds) (ds_id ds)
         (map vd_id validated_datas) (st_point_in_time st)))) (\<lambda>_.
     if repeated \<and> data_keys (ds_keys ds) \<noteq> [] then api_raise ProgrammingError
     else api_for (write_row partial ds st) (zip validated_datas all_values)))"

fun patch_data_points ::
  "file_storage \<Rightarrow> bool \<Rightarrow> DataSeries \<Rightarrow> stamp \<Rightarrow> ValidatedData list \<Rightarrow> ('s, unit) storage_run" where
  "patch_data_points storage repeated ds st [] = api_return ()"
| "patch_data_points storage repeated ds st (vd # vds) =
     api_bind (insert_or_update_data_points_impl storage True repeated ds st [vd]) (\<lambda>_.
       patch_data_points storage True ds st vds)"

definition insert_or_update_data_points ::
  "file_storage \<Rightarrow> bool \<Rightarrow> DataSeries \<Rightarrow> stamp \<Rightarrow> ValidatedData list \<Rightarrow> ('s, unit) storage_run" where
  "insert_or_update_data_points storage partial ds st validated_datas =
     (if partial then patch_data_points storage False ds st validated_datas
      else insert_or_update_data_points_impl storage False False ds st validated_datas)"

section \<open>modification_materialized/delete.py\<close>

text \<open>The \<open>WHERE\<close> of the delete looks at \<open>point_in_time\<close> also where the row is deleted already.\<close>

definition delete_applies :: "mat_row \<Rightarrow> stamp \<Rightarrow> bool" where
  "delete_applies target_tbl st \<longleftrightarrow>
     (case mr_sub_clock target_tbl of
        None \<Rightarrow> mr_point_in_time target_tbl < st_point_in_time st
      | Some s \<Rightarrow> (mr_point_in_time target_tbl, s) < version st)"

definition central_update_query :: "stamp \<Rightarrow> string \<Rightarrow> string \<Rightarrow> mat_row list \<Rightarrow> mat_row option \<times> mat_row list" where
  "central_update_query st datapoint_id datapoint_external_id rows =
     (case find (\<lambda>r. mr_id r = datapoint_id) rows of
        None \<Rightarrow>
          (let row = \<lparr>mr_id = datapoint_id, mr_external_id = datapoint_external_id,
                      mr_point_in_time = st_point_in_time st, mr_inserted_at = st_point_in_time st,
                      mr_deleted_at = Some (st_point_in_time st), mr_sub_clock = Some (st_sub_clock st),
                      mr_columns = (\<lambda>_. SqlNull)\<rparr> in
           (Some row, rows @ [row]))
      | Some target_tbl \<Rightarrow>
          if delete_applies target_tbl st
          then (let row = target_tbl\<lparr>mr_deleted_at := Some (st_point_in_time st), mr_sub_clock := Some (st_sub_clock st)\<rparr> in
                (Some row, put_row row rows))
          else (None, rows))"

definition history_of_delete :: "stamp \<Rightarrow> mat_row \<Rightarrow> hist_row" where
  "history_of_delete st deleted =
     insert_to_flat_history_query st (mr_id deleted) (mr_external_id deleted) (mr_point_in_time deleted)
       (Some (st_point_in_time st)) (st_sub_clock st) (mr_columns deleted)"

definition delete_datapoint :: "DataSeries \<Rightarrow> stamp \<Rightarrow> string \<Rightarrow> string \<Rightarrow> ('s, unit) storage_run" where
  "delete_datapoint ds st datapoint_id datapoint_external_id w =
     (case central_update_query st datapoint_id datapoint_external_id (sw_mat w (mat_table ds)) of (deleted, rows) \<Rightarrow>
        (let w1 = w\<lparr>sw_mat := (sw_mat w)(mat_table ds := rows)\<rparr> in
         if ds_backend ds = DYNAMIC_SQL_MATERIALIZED_FLAT_HISTORY then
           (case insert_history (map_option (history_of_delete st) deleted) (sw_hist w (hist_table ds)) of
              Inl e \<Rightarrow> (Inl e, w)
            | Inr hist \<Rightarrow> (Inr (), w1\<lparr>sw_hist := (sw_hist w)(hist_table ds := hist)\<rparr>))
         else (Inr (), w1)))"

section \<open>tasks/persist_data_point.py\<close>

text \<open>The events for the consumers of the data series (\<open>data_point_event\<close> of the events component).\<close>

type_synonym 's publisher = "'s outside \<times> (EventConsumer list \<Rightarrow> EventConsumer list)"

definition publish ::
  "'s publisher \<Rightarrow> DataSeries \<Rightarrow> stamp \<Rightarrow> pydict \<Rightarrow> ConsumerEventType \<Rightarrow> ('s, unit) storage_run" where
  "publish pub ds st payload event_type w =
     (Inr (), w\<lparr>sw_events := data_point_event (fst pub) (snd pub) (ds_tenant_id ds) (ds_id ds)
        (st_point_in_time st) (st_sub_clock st) payload event_type (sw_events w)\<rparr>)"

definition data_series_payload :: "DataSeries \<Rightarrow> string \<times> pyval" where
  "data_series_payload ds =
     (''data_series'', PDict [(''id'', PStr (ds_id ds)), (''external_id'', PStr (ds_external_id ds))])"

definition data_points_payload :: "(string \<times> string) list \<Rightarrow> string \<times> pyval" where
  "data_points_payload dps =
     (''data_points'', PList (map (\<lambda>(i, e). PDict [(''id'', PStr i), (''external_id'', PStr e)]) dps))"

definition create_data_points ::
  "'s publisher \<Rightarrow> file_storage \<Rightarrow> bool \<Rightarrow> DataSeries \<Rightarrow> stamp \<Rightarrow> ValidatedData list \<Rightarrow>
     ('s, (string \<times> string) list) storage_run" where
  "create_data_points pub storage partial ds st validated_datas =
     (let data_points = map (\<lambda>vd. (vd_id vd, vd_external_id vd)) validated_datas in
      if ds_backend ds \<notin> {DYNAMIC_SQL_NO_HISTORY, DYNAMIC_SQL_MATERIALIZED_FLAT_HISTORY} then api_raise AssertionError
      else api_bind (insert_or_update_data_points storage partial ds st validated_datas) (\<lambda>_.
           api_bind (publish pub ds st [data_series_payload ds, data_points_payload data_points] DATA_POINT_CHANGED) (\<lambda>_.
           api_return data_points)))"

definition flatten_serialization_keys :: "DataPointSerializationKeys \<Rightarrow> (string \<times> string) list" where
  "flatten_serialization_keys skeys =
     skeys float_facts @ skeys string_facts @ skeys text_facts @ skeys timestamp_facts @
     skeys json_facts @ skeys image_facts @ skeys boolean_facts @ skeys file_facts @ skeys dimensions"

definition set_missing_structure_elements_to_none_with_flattened_keys ::
  "(string \<times> string) list \<Rightarrow> ValidatedData \<Rightarrow> ValidatedData" where
  "set_missing_structure_elements_to_none_with_flattened_keys flattened_keys validated_data =
     validated_data\<lparr>vd_payload := fold (\<lambda>(external_id, uuid) payload.
       if external_id \<in> fst ` set payload then payload else payload @ [(external_id, PNone)])
       flattened_keys (vd_payload validated_data)\<rparr>"

definition set_missing_structure_elements_to_none ::
  "DataPointSerializationKeys \<Rightarrow> ValidatedData \<Rightarrow> ValidatedData" where
  "set_missing_structure_elements_to_none skeys =
     set_missing_structure_elements_to_none_with_flattened_keys (flatten_serialization_keys skeys)"

text \<open>The lists that \<open>list(chunk)\<close> makes of \<open>chunks\<close>; \<open>islice\<close> refuses a negative count.\<close>

function data_chunks :: "int \<Rightarrow> 'a list \<Rightarrow> ('a list) result list" where
  "data_chunks chunk_size [] = []"
| "data_chunks chunk_size (first # iterator) =
     (if chunk_size < 1 then [Inl (ValueError ''islice'')]
      else Inr (first # take (nat (chunk_size - 1)) iterator) # data_chunks chunk_size (drop (nat (chunk_size - 1)) iterator))"
  by pat_completeness auto
termination by (relation "measure (\<lambda>(chunk_size, xs). length xs)") auto

definition persist_data_point_chunk ::
  "'s publisher \<Rightarrow> file_storage \<Rightarrow> int \<Rightarrow> DataSeries \<Rightarrow> stamp \<Rightarrow> ValidatedData list \<Rightarrow> ('s, unit) storage_run" where
  "persist_data_point_chunk pub storage batch_size ds st validated_datas =
     (let flattened_keys = flatten_serialization_keys (ds_keys ds) in
      api_for (\<lambda>chunk. api_bind (api_lift chunk) (\<lambda>chunk_list.
          api_ignore (create_data_points pub storage False ds st chunk_list)))
        (data_chunks batch_size
          (map (set_missing_structure_elements_to_none_with_flattened_keys flattened_keys) validated_datas)))"

section \<open>serializers/modification.py and the deletion of the view\<close>

definition impl_create ::
  "'s publisher \<Rightarrow> file_storage \<Rightarrow> DataSeries \<Rightarrow> stamp \<Rightarrow> ValidatedData \<Rightarrow> ('s, (string \<times> string) list) storage_run" where
  "impl_create pub storage ds st validated_data =
     atomic (create_data_points pub storage False ds st [validated_data])"

definition impl_update ::
  "'s publisher \<Rightarrow> file_storage \<Rightarrow> bool \<Rightarrow> DataSeries \<Rightarrow> stamp \<Rightarrow> ValidatedData \<Rightarrow> ('s, (string \<times> string) list) storage_run" where
  "impl_update pub storage patch ds st validated_data =
     (let validated_data1 = (if patch then validated_data
            else set_missing_structure_elements_to_none (ds_keys ds) validated_data) in
      atomic (create_data_points pub storage patch ds st [validated_data1]))"

definition destroy_object ::
  "'s publisher \<Rightarrow> DataSeries \<Rightarrow> stamp \<Rightarrow> string \<Rightarrow> string \<Rightarrow> ('s, unit) storage_run" where
  "destroy_object pub ds st datapoint_id datapoint_external_id =
     api_bind (api_when (ds_backend ds \<in> {DYNAMIC_SQL_NO_HISTORY, DYNAMIC_SQL_MATERIALIZED_FLAT_HISTORY})
       (delete_datapoint ds st datapoint_id datapoint_external_id)) (\<lambda>_.
     publish pub ds st [data_series_payload ds, data_points_payload [(datapoint_id, datapoint_external_id)]]
       DATA_POINT_DELETED)"

section \<open>tasks/truncate.py\<close>

definition truncate_data_series ::
  "'s publisher \<Rightarrow> DataSeries \<Rightarrow> stamp \<Rightarrow> ('s, unit) storage_run" where
  "truncate_data_series pub ds st w =
     (let mat = (if ds_backend ds \<in> {DYNAMIC_SQL_NO_HISTORY, DYNAMIC_SQL_MATERIALIZED_FLAT_HISTORY}
                 then (sw_mat w)(mat_table ds := []) else sw_mat w);
          hist = (if ds_backend ds = DYNAMIC_SQL_MATERIALIZED_FLAT_HISTORY
                  then (sw_hist w)(hist_table ds := []) else sw_hist w);
          w1 = w\<lparr>sw_mat := mat, sw_hist := hist,
                 sw_events := truncate_events (snd pub) (ds_tenant_id ds) (ds_id ds) (sw_events w),
                 sw_registry := truncate_data_series_data (st_point_in_time st) (ds_tenant_id ds) (ds_id ds) (sw_registry w)\<rparr> in
      publish pub ds st [data_series_payload ds] DATA_SERIES_TRUNCATED w1)"

section \<open>tasks/prune.py\<close>

text \<open>A row comparison of SQL whose second operand has no \<open>sub_clock\<close> is decided by the first or \<open>NULL\<close>.\<close>

definition sql_row_less :: "int \<times> int \<Rightarrow> int \<times> int option \<Rightarrow> bool" where
  "sql_row_less a b \<longleftrightarrow> (case snd b of None \<Rightarrow> fst a < fst b | Some s \<Rightarrow> a < (fst b, s))"

definition prune_flat_history :: "int \<Rightarrow> mat_row list \<Rightarrow> hist_row \<Rightarrow> bool" where
  "prune_flat_history older_than mat h \<longleftrightarrow>
     hr_point_in_time h < older_than \<and>
     (case find (\<lambda>data. mr_id data = hr_id h) mat of
        None \<Rightarrow> True
      | Some data \<Rightarrow> sql_row_less (hr_point_in_time h, hr_sub_clock h) (mr_point_in_time data, mr_sub_clock data))"

definition prune_materialized :: "int \<Rightarrow> mat_row \<Rightarrow> bool" where
  "prune_materialized older_than r \<longleftrightarrow> (case mr_deleted_at r of None \<Rightarrow> False | Some d \<Rightarrow> d < older_than)"

text \<open>The image and file facts of the data series, deleted ones included.\<close>

definition minio_fact_ids :: "(child_kind \<Rightarrow> string list) \<Rightarrow> string list" where
  "minio_fact_ids all_fact_ids = all_fact_ids image_facts @ all_fact_ids file_facts"

definition mark_pruned_data_points ::
  "int \<Rightarrow> string list \<Rightarrow> DataSeries \<Rightarrow> mat_row list \<Rightarrow> ('s, unit) storage_run" where
  "mark_pruned_data_points now facts ds pruned =
     api_for (\<lambda>r. api_for (\<lambda>fact_id. registry_update
       (delete_all_for_datapoint now (ds_tenant_id ds) (ds_id ds) fact_id (mr_id r))) facts) pruned"

definition mark_pruned_versions ::
  "int \<Rightarrow> string list \<Rightarrow> DataSeries \<Rightarrow> hist_row list \<Rightarrow> ('s, unit) storage_run" where
  "mark_pruned_versions now facts ds pruned =
     api_for (\<lambda>h. api_for (\<lambda>fact_id. on_registry
       (delete_all_matching now (ds_tenant_id ds) (ds_id ds) fact_id
         [\<lparr>hi_data_point_id = hr_id h, hi_point_in_time = hr_point_in_time h, hi_sub_clock = hr_sub_clock h\<rparr>])) facts) pruned"

text \<open>
  First the deleted data points go, then what is older in the history; \<open>now\<close> is what
  \<open>dbtime.now()\<close> returns while the task runs.
\<close>

definition prune_deleted_data_points ::
  "int \<Rightarrow> int \<Rightarrow> string list \<Rightarrow> DataSeries \<Rightarrow> ('s, unit) storage_run" where
  "prune_deleted_data_points now older_than facts ds w =
     (if ds_backend ds \<in> {DYNAMIC_SQL_NO_HISTORY, DYNAMIC_SQL_MATERIALIZED_FLAT_HISTORY} then
        (let mat = sw_mat w (mat_table ds) in
         api_when (ds_backend ds = DYNAMIC_SQL_NO_HISTORY)
           (mark_pruned_data_points now facts ds (filter (prune_materialized older_than) mat))
           (w\<lparr>sw_mat := (sw_mat w)(mat_table ds := filter (\<lambda>r. \<not> prune_materialized older_than r) mat)\<rparr>))
      else (Inr (), w))"

definition prune_old_versions ::
  "int \<Rightarrow> int \<Rightarrow> string list \<Rightarrow> DataSeries \<Rightarrow> ('s, unit) storage_run" where
  "prune_old_versions now older_than facts ds w =
     (if ds_backend ds = DYNAMIC_SQL_MATERIALIZED_FLAT_HISTORY then
        (let old = prune_flat_history older_than (sw_mat w (mat_table ds)); hist = sw_hist w (hist_table ds) in
         mark_pruned_versions now facts ds (filter old hist)
           (w\<lparr>sw_hist := (sw_hist w)(hist_table ds := filter (\<lambda>h. \<not> old h) hist)\<rparr>))
      else (Inr (), w))"

definition prune_history ::
  "int \<Rightarrow> int \<Rightarrow> (child_kind \<Rightarrow> string list) \<Rightarrow> DataSeries \<Rightarrow> ('s, unit) storage_run" where
  "prune_history now older_than all_fact_ids ds =
     (let facts = minio_fact_ids all_fact_ids in
      atomic (api_bind (prune_deleted_data_points now older_than facts ds)
        (\<lambda>_. prune_old_versions now older_than facts ds)))"

end
