(* ===== verification/Server_Filter.thy ===== *)
theory Server_Filter
  imports Server_Storage
begin

text \<open>
  Filters of the user: \<open>queries/user_defined_filter.py\<close> turns the JSON of the query parameter
  \<open>filter\<close> into a condition of the \<open>WHERE\<close> clause with named placeholders. The condition is kept as
  a tree (every part of the text is in parentheses, so the tree is what PostgreSQL parses), and what
  it selects is its value in SQL's logic of three values. What PostgreSQL compares with which
  result, and what its driver accepts, are parameters.
\<close>

section \<open>PostgreSQL\<close>

text \<open>
  \<open>pg_accepts\<close>: the driver and the server take the value where one of this kind is expected.
  \<open>pg_compare\<close>: the operator on a column's value and a parameter, neither of them \<open>NULL\<close>.
  \<open>pg_expands_tuples\<close>: a tuple becomes a list of values in parentheses (psycopg 2 does so, psycopg 3
  does not). \<open>pg_timestamp\<close> reads the text of a time; \<open>pg_timestamp_text\<close> is the text of a time in
  JSON. \<open>pg_collate\<close> is the sort key of a string in the default collation.
\<close>

record 'c postgres =
  pg_accepts :: "child_kind \<Rightarrow> pyval \<Rightarrow> bool"
  pg_compare :: "string \<Rightarrow> pyval \<Rightarrow> pyval \<Rightarrow> bool"
  pg_expands_tuples :: bool
  pg_timestamp :: "string \<Rightarrow> int option"
  pg_timestamp_text :: "int \<Rightarrow> string"
  pg_collate :: "string \<Rightarrow> 'c"

text \<open>\<open>LIKE\<close>: a percent sign stands for any string, an underscore for one character.\<close>

fun sql_like :: "string \<Rightarrow> string \<Rightarrow> bool" where
  "sql_like s [] = (s = [])"
| "sql_like s (p # ps) =
     (if p = CHR ''%'' then sql_like s ps \<or> (case s of [] \<Rightarrow> False | _ # s' \<Rightarrow> sql_like s' (p # ps))
      else if p = CHR ''_'' then (case s of [] \<Rightarrow> False | _ # s' \<Rightarrow> sql_like s' ps)
      else if p = CHR 0x5C then
        (case ps of [] \<Rightarrow> False | q # qs \<Rightarrow> (case s of [] \<Rightarrow> False | c # s' \<Rightarrow> c = q \<and> sql_like s' qs))
      else (case s of [] \<Rightarrow> False | c # s' \<Rightarrow> c = p \<and> sql_like s' ps))"

section \<open>Conditions\<close>

text \<open>A column of \<open>ds_dp\<close>, or the value of a joined table of the deprecated backends.\<close>

datatype sql_lhs = ValueColumn string | RelationValue string

datatype sql_condition =
    TrueCond
  | NullTest sql_lhs bool
  | Comparison child_kind sql_lhs string string
  | Membership child_kind sql_lhs bool string
  | PrefixLike sql_lhs string
  | BrokenLike sql_lhs string
  | Conj "sql_condition list"
  | Disj "sql_condition list"
  | Neg sql_condition

type_synonym query_params = "(string \<times> pyval) list"

definition and3 :: "bool option list \<Rightarrow> bool option" where
  "and3 xs = (if Some False \<in> set xs then Some False else if None \<in> set xs then None else Some True)"

definition or3 :: "bool option list \<Rightarrow> bool option" where
  "or3 xs = (if Some True \<in> set xs then Some True else if None \<in> set xs then None else Some False)"

definition lhs_value :: "(string \<Rightarrow> sql_value) \<Rightarrow> sql_lhs \<Rightarrow> pyval option" where
  "lhs_value columns lhs =
     (case lhs of
        ValueColumn c \<Rightarrow> (case columns c of SqlNull \<Rightarrow> None | Sql v \<Rightarrow> Some v | SqlJson v \<Rightarrow> Some v)
      | RelationValue _ \<Rightarrow> None)"

definition param :: "query_params \<Rightarrow> string \<Rightarrow> pyval" where
  "param params name = (case map_of params name of None \<Rightarrow> PNone | Some v \<Rightarrow> v)"

fun tuple_elems :: "pyval \<Rightarrow> pyval list" where
  "tuple_elems (PList vs) = vs"
| "tuple_elems _ = []"

definition like_value :: "pyval \<Rightarrow> pyval \<Rightarrow> bool" where
  "like_value v p = (case (v, p) of (PStr s, PStr q) \<Rightarrow> sql_like s (q @ ''%'') | _ \<Rightarrow> False)"

definition member3 :: "'c postgres \<Rightarrow> pyval \<Rightarrow> pyval list \<Rightarrow> bool option" where
  "member3 pg v vs = or3 (map (\<lambda>x. Some (pg_compare pg ''='' v x)) vs)"

fun cond_value :: "'c postgres \<Rightarrow> query_params \<Rightarrow> (string \<Rightarrow> sql_value) \<Rightarrow> sql_condition \<Rightarrow> bool option" where
  "cond_value pg params cols TrueCond = Some True"
| "cond_value pg params cols (NullTest lhs b) = Some ((lhs_value cols lhs = None) = b)"
| "cond_value pg params cols (Comparison kind lhs symb p) =
     map_option (\<lambda>v. pg_compare pg symb v (param params p)) (lhs_value cols lhs)"
| "cond_value pg params cols (Membership kind lhs neg p) =
     (case lhs_value cols lhs of
        None \<Rightarrow> None
      | Some v \<Rightarrow> map_option (\<lambda>b. b \<noteq> neg) (member3 pg v (tuple_elems (param params p))))"
| "cond_value pg params cols (PrefixLike lhs p) =
     map_option (\<lambda>v. like_value v (param params p)) (lhs_value cols lhs)"
| "cond_value pg params cols (BrokenLike lhs p) = None"
| "cond_value pg params cols (Conj cs) = and3 (map (cond_value pg params cols) cs)"
| "cond_value pg params cols (Disj cs) = or3 (map (cond_value pg params cols) cs)"
| "cond_value pg params cols (Neg c) = map_option Not (cond_value pg params cols c)"

text \<open>
  What makes a statement fail: a table that is not joined, a placeholder without its \<open>s\<close>, an empty
  or unexpanded tuple, a value of the wrong type and, in an empty conjunction, empty parentheses.
\<close>

fun lhs_ok :: "sql_lhs \<Rightarrow> bool" where
  "lhs_ok (ValueColumn _) = True"
| "lhs_ok (RelationValue _) = False"

fun cond_ok :: "'c postgres \<Rightarrow> query_params \<Rightarrow> sql_condition \<Rightarrow> bool" where
  "cond_ok pg params TrueCond = True"
| "cond_ok pg params (NullTest lhs b) = lhs_ok lhs"
| "cond_ok pg params (Comparison kind lhs symb p) = (lhs_ok lhs \<and> pg_accepts pg kind (param params p))"
| "cond_ok pg params (Membership kind lhs neg p) =
     (let vs = tuple_elems (param params p) in
      lhs_ok lhs \<and> pg_expands_tuples pg \<and> vs \<noteq> [] \<and> list_all (pg_accepts pg kind) vs)"
| "cond_ok pg params (PrefixLike lhs p) = (lhs_ok lhs \<and> pg_accepts pg text_facts (param params p))"
| "cond_ok pg params (BrokenLike lhs p) = False"
| "cond_ok pg params (Conj cs) = (cs \<noteq> [] \<and> list_all (cond_ok pg params) cs)"
| "cond_ok pg params (Disj cs) = list_all (cond_ok pg params) cs"
| "cond_ok pg params (Neg c) = cond_ok pg params c"

section \<open>Translating one comparison\<close>

text \<open>The variables that \<open>primitive_filter\<close> and the six \<open>_handle_if_...\<close> share.\<close>

record filter_state =
  fs_idx :: nat
  fs_params :: query_params
  fs_handled :: "string list"
  fs_overall :: "string list"
  fs_used :: "(child_kind \<times> string) list"

type_synonym 'a filter_run = "(filter_state, 'a) api"

definition single_valued_sql_operators :: "(string \<times> string) list" where
  "single_valued_sql_operators =
     [(''$eq'', ''=''), (''$lt'', ''<''), (''$lte'', ''<=''), (''$ne'', ''!=''), (''$gte'', ''>=''), (''$gt'', ''>'')]"

text \<open>\<open>IN\<close> and \<open>NOT IN\<close>: whether the test is negated.\<close>

definition multi_valued_sql_operators :: "(string \<times> bool) list" where
  "multi_valued_sql_operators = [(''$in'', False), (''$nin'', True)]"

fun is_str :: "pyval \<Rightarrow> bool" where
  "is_str (PStr _) = True"
| "is_str _ = False"

fun is_bool :: "pyval \<Rightarrow> bool" where
  "is_bool (PBool _) = True"
| "is_bool _ = False"

text \<open>\<open>isinstance(value, float) or isinstance(value, int)\<close>; \<open>bool\<close> is a subclass of \<open>int\<close>.\<close>

fun is_numeric :: "pyval \<Rightarrow> bool" where
  "is_numeric (PFloat _) = True"
| "is_numeric (PInt _) = True"
| "is_numeric (PBool _) = True"
| "is_numeric _ = False"

fun list_of :: "(pyval \<Rightarrow> bool) \<Rightarrow> pyval \<Rightarrow> bool" where
  "list_of p (PList vs) = list_all p vs"
| "list_of p _ = False"

definition set_param :: "string \<Rightarrow> pyval \<Rightarrow> unit filter_run" where
  "set_param name v = api_modify (\<lambda>s. s\<lparr>fs_params := AList.update name v (fs_params s)\<rparr>)"

definition unsupported :: "string \<Rightarrow> string \<Rightarrow> 'a filter_run" where
  "unsupported operator key =
     api_raise (ValidationError (PList [PStr ''unsupported operator '', PStr operator, PStr '' for field '', PStr key]))"

definition expected :: "string \<Rightarrow> string \<Rightarrow> 'a filter_run" where
  "expected what key = api_raise (ValidationError (PList [PStr ''expected '', PStr what, PStr key]))"

text \<open>The end of every handler: the tests for \<open>null\<close>, and that the key was used.\<close>

definition field_condition ::
  "child_kind \<Rightarrow> bool \<Rightarrow> DataSeries \<Rightarrow> string \<Rightarrow> pyval \<Rightarrow> string \<Rightarrow> (sql_lhs \<Rightarrow> sql_condition filter_run) \<Rightarrow>
     sql_condition list filter_run" where
  "field_condition kind use_materialized_table ds key v operator condition =
     (case map_of (ds_keys ds kind) key of
        None \<Rightarrow> api_return []
      | Some uuid \<Rightarrow>
          (let lhs = (if use_materialized_table then ValueColumn (key_column (kind, key, uuid)) else RelationValue key) in
           api_bind (if operator = ''$eq'' \<and> v = PNone then api_return (NullTest lhs True)
                     else if operator = ''$ne'' \<and> v = PNone then api_return (NullTest lhs False)
                     else condition lhs) (\<lambda>part.
           api_bind (api_modify (\<lambda>s. s\<lparr>fs_used := List.insert (kind, key) (fs_used s), fs_handled := key # fs_handled s\<rparr>))
             (\<lambda>_. api_return [part]))))"

definition compare_one ::
  "child_kind \<Rightarrow> string \<Rightarrow> string \<Rightarrow> pyval \<Rightarrow> string \<Rightarrow> sql_lhs \<Rightarrow> sql_condition filter_run" where
  "compare_one kind name key v operator lhs =
     api_bind (set_param name v) (\<lambda>_.
       api_return (Comparison kind lhs (the (map_of single_valued_sql_operators operator)) name))"

definition compare_many ::
  "child_kind \<Rightarrow> string \<Rightarrow> pyval \<Rightarrow> string \<Rightarrow> sql_lhs \<Rightarrow> sql_condition filter_run" where
  "compare_many kind name v operator lhs =
     api_bind (set_param name v) (\<lambda>_.
       api_return (Membership kind lhs (the (map_of multi_valued_sql_operators operator)) name))"

text \<open>The middle of the handlers, with the test of the value's type and the texts of the errors.\<close>

definition typed_condition ::
  "child_kind \<Rightarrow> (pyval \<Rightarrow> bool) \<Rightarrow> string \<Rightarrow> string \<Rightarrow> string \<Rightarrow> string \<Rightarrow> pyval \<Rightarrow> string \<Rightarrow> sql_lhs \<Rightarrow> sql_condition filter_run" where
  "typed_condition kind ok one many name key v operator lhs =
     (if operator \<in> fst ` set single_valued_sql_operators then
        (if \<not> ok v then expected one key else compare_one kind name key v operator lhs)
      else if operator \<in> fst ` set multi_valued_sql_operators then
        (if \<not> list_of ok v then expected many key else compare_many kind name v operator lhs)
      else unsupported operator key)"

definition handle_if_dimension ::
  "bool \<Rightarrow> DataSeries \<Rightarrow> string \<Rightarrow> string \<Rightarrow> pyval \<Rightarrow> string \<Rightarrow> sql_condition list filter_run" where
  "handle_if_dimension use_materialized_table ds name key v operator =
     field_condition dimensions use_materialized_table ds key v operator
       (typed_condition dimensions is_str ''string value for field '' ''list of strings for operator on field '' name key v operator)"

definition handle_if_float_fact ::
  "bool \<Rightarrow> DataSeries \<Rightarrow> string \<Rightarrow> string \<Rightarrow> pyval \<Rightarrow> string \<Rightarrow> sql_condition list filter_run" where
  "handle_if_float_fact use_materialized_table ds name key v operator =
     field_condition float_facts use_materialized_table ds key v operator
       (typed_condition float_facts is_numeric ''numeric value for field '' ''list of numeric values for operator on field '' name key v operator)"

definition handle_if_boolean_fact ::
  "bool \<Rightarrow> DataSeries \<Rightarrow> string \<Rightarrow> string \<Rightarrow> pyval \<Rightarrow> string \<Rightarrow> sql_condition list filter_run" where
  "handle_if_boolean_fact use_materialized_table ds name key v operator =
     field_condition boolean_facts use_materialized_table ds key v operator
       (typed_condition boolean_facts is_bool ''boolean value for field '' ''list of boolean values for operator on field '' name key v operator)"

text \<open>Texts and strings also know \<open>$prefix\<close>; the placeholder of the one for strings has lost its \<open>s\<close>.\<close>

definition handle_if_text_fact ::
  "bool \<Rightarrow> DataSeries \<Rightarrow> string \<Rightarrow> string \<Rightarrow> pyval \<Rightarrow> string \<Rightarrow> sql_condition list filter_run" where
  "handle_if_text_fact use_materialized_table ds name key v operator =
     field_condition text_facts use_materialized_table ds key v operator (\<lambda>lhs.
       if operator = ''$prefix'' then
         (if \<not> is_str v then expected ''string value for field '' key
          else api_bind (set_param name v) (\<lambda>_. api_return (PrefixLike lhs name)))
       else typed_condition text_facts is_str ''string value for field '' ''list of strings for operator on field '' name key v operator lhs)"

definition handle_if_string_fact ::
  "bool \<Rightarrow> DataSeries \<Rightarrow> string \<Rightarrow> string \<Rightarrow> pyval \<Rightarrow> string \<Rightarrow> sql_condition list filter_run" where
  "handle_if_string_fact use_materialized_table ds name key v operator =
     field_condition string_facts use_materialized_table ds key v operator (\<lambda>lhs.
       if operator = ''$prefix'' then
         (if \<not> is_str v then expected ''string value for field '' key
          else api_bind (set_param name v) (\<lambda>_. api_return (BrokenLike lhs name)))
       else typed_condition string_facts is_str ''string value for field '' ''list of strings for operator on field '' name key v operator lhs)"

text \<open>\<open>parse_datetime (str value)\<close> of Django: the time, or \<open>None\<close> where it returns that or raises \<open>ValueError\<close>.\<close>

definition handle_if_timestamp_fact ::
  "(pyval \<Rightarrow> int option) \<Rightarrow> bool \<Rightarrow> DataSeries \<Rightarrow> string \<Rightarrow> string \<Rightarrow> pyval \<Rightarrow> string \<Rightarrow> sql_condition list filter_run" where
  "handle_if_timestamp_fact parse_datetime use_materialized_table ds name key v operator =
     field_condition timestamp_facts use_materialized_table ds key v operator (\<lambda>lhs.
       if operator \<in> fst ` set single_valued_sql_operators then
         (case parse_datetime v of
            None \<Rightarrow> api_raise (ValidationError (PList [v, PStr '' is no valid datetime'']))
          | Some t \<Rightarrow> compare_one timestamp_facts name key (PDateTime t) operator lhs)
       else if operator \<in> fst ` set multi_valued_sql_operators then
         (case v of
            PList elems \<Rightarrow>
              (if list_all (\<lambda>elem. parse_datetime elem \<noteq> None) elems
               then compare_many timestamp_facts name (PList (map (\<lambda>elem. PDateTime (the (parse_datetime elem))) elems)) operator lhs
               else expected ''list of timestamps for operator on field '' key)
          | _ \<Rightarrow> expected ''list of timestamps for operator on field '' key)
       else unsupported operator key)"

section \<open>Translating a filter\<close>

definition primitive_filter ::
  "(pyval \<Rightarrow> int option) \<Rightarrow> bool \<Rightarrow> DataSeries \<Rightarrow> string \<Rightarrow> pyval \<Rightarrow> string \<Rightarrow> sql_condition filter_run" where
  "primitive_filter parse_datetime use_materialized_table ds key v operator =
     api_bind (api_modify (\<lambda>s. s\<lparr>fs_overall := key # fs_overall s\<rparr>)) (\<lambda>_.
     api_bind (api_get (\<lambda>s. ''filter_'' @ nat_str (fs_idx s))) (\<lambda>query_param_name.
     api_bind (api_modify (\<lambda>s. s\<lparr>fs_idx := fs_idx s + 1\<rparr>)) (\<lambda>_.
     api_bind (handle_if_float_fact use_materialized_table ds query_param_name key v operator) (\<lambda>p1.
     api_bind (handle_if_string_fact use_materialized_table ds query_param_name key v operator) (\<lambda>p2.
     api_bind (handle_if_text_fact use_materialized_table ds query_param_name key v operator) (\<lambda>p3.
     api_bind (handle_if_timestamp_fact parse_datetime use_materialized_table ds query_param_name key v operator) (\<lambda>p4.
     api_bind (handle_if_boolean_fact use_materialized_table ds query_param_name key v operator) (\<lambda>p5.
     api_bind (handle_if_dimension use_materialized_table ds query_param_name key v operator) (\<lambda>p6.
     api_return (Conj (p1 @ p2 @ p3 @ p4 @ p5 @ p6)))))))))))"

lemma size_dict_member: "item \<in> set items \<Longrightarrow> size (snd item) < size (PDict items)"
  by (induction items) auto

lemma size_list_member: "v \<in> set vs \<Longrightarrow> size v < size (PList vs)"
  by (induction vs) auto

function handle_column ::
  "(string \<Rightarrow> pyval \<Rightarrow> string \<Rightarrow> sql_condition filter_run) \<Rightarrow> string \<Rightarrow> pyval \<Rightarrow> string \<Rightarrow> sql_condition filter_run" where
  "handle_column primitive column f operator =
     (case f of
        PDict items \<Rightarrow>
          (if items = [] then api_return TrueCond
           else api_bind (api_map (\<lambda>item. handle_column primitive column (snd item) (fst item)) items)
             (\<lambda>and_clauses. api_return (Conj and_clauses)))
      | _ \<Rightarrow> primitive column f operator)"
  by pat_completeness auto
termination
  by (relation "measure (\<lambda>(primitive, column, f, operator). size f)") (auto dest: size_dict_member)

declare handle_column.simps [simp del]

definition MAX_DEPTH :: nat where
  "MAX_DEPTH = 10"

definition filter_error :: "string \<Rightarrow> 'a filter_run" where
  "filter_error text = api_raise (ValidationError (PStr text))"

function complex_filter_to_sql_filter ::
  "(string \<Rightarrow> pyval \<Rightarrow> sql_condition filter_run) \<Rightarrow> nat \<Rightarrow> pyval \<Rightarrow> sql_condition filter_run" where
  "complex_filter_to_sql_filter column_filter depth filter_dict =
     (if MAX_DEPTH < depth then filter_error ''Maximum nesting complexity of query reached''
      else case filter_dict of
        PDict items \<Rightarrow>
          (if items = [] then api_return TrueCond
           else api_bind (api_map (\<lambda>item.
             if fst item = ''$and'' then
               (case snd item of
                  PList vs \<Rightarrow>
                    (if vs = [] then filter_error ''argument to $and must be a non empty array''
                     else api_bind (api_map (complex_filter_to_sql_filter column_filter (depth + 1)) vs)
                       (\<lambda>clauses. api_return (Conj clauses)))
                | _ \<Rightarrow> filter_error ''$and operator requires a list as argument'')
             else if fst item = ''$or'' then
               (case snd item of
                  PList vs \<Rightarrow>
                    (if vs = [] then filter_error ''argument to $or must be a non empty array''
                     else api_bind (api_map (complex_filter_to_sql_filter column_filter (depth + 1)) vs)
                       (\<lambda>clauses. api_return (Disj clauses)))
                | _ \<Rightarrow> filter_error ''$or operator requires a list as argument'')
             else if fst item = ''$not'' then
               (case snd item of
                  PDict d \<Rightarrow>
                    (if d = [] then filter_error ''argument to $not must be a non empty dictionary''
                     else api_bind (complex_filter_to_sql_filter column_filter (depth + 1) (snd item))
                       (\<lambda>clause. api_return (Neg clause)))
                | _ \<Rightarrow> filter_error ''$not operator requires a dictionary as argument'')
             else if take 1 (fst item) = ''$'' then api_raise (ValueError (''Unsupported operator: '' @ fst item))
             else column_filter (fst item) (snd item)) items) (\<lambda>clauses. api_return (Conj clauses)))
      | PList vs \<Rightarrow> if vs = [] then api_return TrueCond else api_raise AttributeError
      | PStr s \<Rightarrow> if s = [] then api_return TrueCond else api_raise AttributeError
      | _ \<Rightarrow> api_raise TypeError)"
  by pat_completeness auto
termination
proof (relation "measure (\<lambda>(column_filter, depth, f). size f)", goal_cases)
  case (2 column_filter depth f items item vs v)
  then show ?case using size_dict_member [of item items] size_list_member [of v vs] by simp
next
  case (3 column_filter depth f items item vs v)
  then show ?case using size_dict_member [of item items] size_list_member [of v vs] by simp
next
  case (4 column_filter depth f items item d)
  then show ?case using size_dict_member [of item items] by simp
qed simp

declare complex_filter_to_sql_filter.simps [simp del]

record UserDefinedFilter =
  udf_condition :: sql_condition
  udf_query_params :: query_params
  udf_used_data_series_children :: "(child_kind \<times> string) list"

definition compute_user_defined_filter_for_raw_query ::
  "(pyval \<Rightarrow> int option) \<Rightarrow> DataSeries \<Rightarrow> pydict \<Rightarrow> bool \<Rightarrow> UserDefinedFilter result" where
  "compute_user_defined_filter_for_raw_query parse_datetime ds filter_params use_materialized_table =
     (case complex_filter_to_sql_filter
         (\<lambda>column f. handle_column (primitive_filter parse_datetime use_materialized_table ds) column f ''$eq'')
         0 (PDict filter_params) \<lparr>fs_idx = 0, fs_params = [], fs_handled = [], fs_overall = [], fs_used = []\<rparr> of
        (Inl e, _) \<Rightarrow> Inl e
      | (Inr c, s) \<Rightarrow>
          (let not_found = filter (\<lambda>k. k \<notin> set (fs_handled s)) (fs_overall s) in
           if not_found \<noteq> [] then Inl (ValidationError (PStr ''unrecognized fields in filter query parameter''))
           else Inr \<lparr>udf_condition = c, udf_query_params = fs_params s, udf_used_data_series_children = fs_used s\<rparr>))"

end
