(* ===== verification/Server_Query.thy ===== *)
theory Server_Query
  imports Server_Filter Server_Encoding
begin

text \<open>
  What reads the data points of a data series: the queries of
  \<open>storage/dynamic_sql/queries/\<close> (\<open>common.py\<close>, \<open>single_data_series.py\<close>, \<open>count.py\<close>,
  \<open>check_external_ids.py\<close>, \<open>repository.py\<close>) and the part of \<open>storage_view_adapter.py\<close> that reads:
  a query with the filters, the start of the page, the order and the limit; counting; one object.
  A query that Django only runs when its rows are asked for is a result (the errors of building it)
  of a result (the errors of running it). Which columns the payload shows, the versions of a data
  point, the resolution of dimensions and the text of the SQL are not modelled.
\<close>

section \<open>Rows that a query shows\<close>

text \<open>\<open>dr_inserted_at\<close> is there when the table of current versions is read (it is part of the pagination data).\<close>

record display_row =
  dr_id :: string
  dr_external_id :: string
  dr_point_in_time :: int
  dr_inserted_at :: "int option"
  dr_columns :: "string \<Rightarrow> sql_value"

definition has_history :: "StorageBackendType \<Rightarrow> bool" where
  "has_history backend \<longleftrightarrow> backend \<noteq> DYNAMIC_SQL_NO_HISTORY"

definition can_use_materialized_table :: "StorageBackendType \<Rightarrow> bool \<Rightarrow> bool \<Rightarrow> bool" where
  "can_use_materialized_table backend locked point_in_time \<longleftrightarrow>
     backend = DYNAMIC_SQL_NO_HISTORY \<or>
     (backend = DYNAMIC_SQL_MATERIALIZED_FLAT_HISTORY \<and> \<not> point_in_time) \<or>
     (backend = DYNAMIC_SQL_MATERIALIZED \<and> \<not> locked \<and> \<not> point_in_time)"

definition since_ok :: "int option \<Rightarrow> int \<Rightarrow> bool" where
  "since_ok changes_since t \<longleftrightarrow> (case changes_since of None \<Rightarrow> True | Some c \<Rightarrow> c < t)"

definition until_ok :: "int option \<Rightarrow> int \<Rightarrow> bool" where
  "until_ok point_in_time t \<longleftrightarrow> (case point_in_time of None \<Rightarrow> True | Some p \<Rightarrow> t \<le> p)"

definition display_mat :: "mat_row \<Rightarrow> display_row" where
  "display_mat r =
     \<lparr>dr_id = mr_id r, dr_external_id = mr_external_id r, dr_point_in_time = mr_point_in_time r,
      dr_inserted_at = Some (mr_inserted_at r), dr_columns = mr_columns r\<rparr>"

definition display_hist :: "hist_row \<Rightarrow> display_row" where
  "display_hist h =
     \<lparr>dr_id = hr_id h, dr_external_id = hr_external_id h, dr_point_in_time = hr_point_in_time h,
      dr_inserted_at = None, dr_columns = hr_columns h\<rparr>"

definition materialized_rows :: "int option \<Rightarrow> mat_row list \<Rightarrow> display_row list" where
  "materialized_rows changes_since mat =
     map display_mat (filter (\<lambda>ds_dp. mr_deleted_at ds_dp = None \<and> since_ok changes_since (mr_point_in_time ds_dp)) mat)"

text \<open>The left outer join with the same table: a row is shown if it has no partner \<open>ds_dp2\<close>.\<close>

definition hr_version :: "hist_row \<Rightarrow> int \<times> int" where
  "hr_version h = (hr_point_in_time h, hr_sub_clock h)"

definition newer_version :: "int option \<Rightarrow> int option \<Rightarrow> hist_row \<Rightarrow> hist_row \<Rightarrow> bool" where
  "newer_version point_in_time changes_since ds_dp ds_dp2 \<longleftrightarrow>
     hr_id ds_dp = hr_id ds_dp2 \<and> hr_version ds_dp < hr_version ds_dp2 \<and>
     until_ok point_in_time (hr_point_in_time ds_dp2) \<and> since_ok changes_since (hr_point_in_time ds_dp2)"

definition flat_history_rows :: "int option \<Rightarrow> int option \<Rightarrow> hist_row list \<Rightarrow> display_row list" where
  "flat_history_rows point_in_time changes_since hist =
     map display_hist (filter (\<lambda>ds_dp. \<not> list_ex (newer_version point_in_time changes_since ds_dp) hist \<and>
       \<not> hr_deleted ds_dp \<and> until_ok point_in_time (hr_point_in_time ds_dp) \<and>
       since_ok changes_since (hr_point_in_time ds_dp)) hist)"

text \<open>The rows of \<open>data_series_as_sql_table\<close>, for the backends a data series can be created with.\<close>

definition data_series_rows ::
  "DataSeries \<Rightarrow> int option \<Rightarrow> int option \<Rightarrow> 's storage_world \<Rightarrow> display_row list result" where
  "data_series_rows ds point_in_time changes_since w =
     (if can_use_materialized_table (ds_backend ds) False (point_in_time \<noteq> None) then
        (if point_in_time \<noteq> None
         then Inl (APIException ''materialized table is not allowed to be queried for historical data directly!'')
         else Inr (materialized_rows changes_since (sw_mat w (mat_table ds))))
      else Inr (flat_history_rows point_in_time changes_since (sw_hist w (hist_table ds))))"

section \<open>Queries of a request\<close>

text \<open>
  What a request needs from outside: PostgreSQL, \<open>dateparse.parse_datetime\<close> of \<open>str(value)\<close> (\<open>None\<close>
  if it gives that or raises a \<open>ValueError\<close>) and reading a float.
\<close>

record 'c reading =
  rd_postgres :: "'c postgres"
  rd_parse_datetime :: "pyval \<Rightarrow> int option"
  rd_parse_float :: "string \<Rightarrow> pyfloat"

text \<open>\<open>precompute_filter_part\<close>: the external ids (none, or an empty list, is no condition) and the filter of the user.\<close>

record filter_part =
  fp_external_ids :: "string list"
  fp_user_filter :: UserDefinedFilter

definition precompute_filter_part ::
  "'c reading \<Rightarrow> string list option \<Rightarrow> pydict \<Rightarrow> DataSeries \<Rightarrow> bool \<Rightarrow> filter_part result" where
  "precompute_filter_part rd external_ids filter_value ds use_materialized_table =
     rbind (compute_user_defined_filter_for_raw_query (rd_parse_datetime rd) ds filter_value use_materialized_table)
       (\<lambda>udf. Inr \<lparr>fp_external_ids = (case external_ids of None \<Rightarrow> [] | Some xs \<Rightarrow> xs), fp_user_filter = udf\<rparr>)"

definition part_selects :: "'c postgres \<Rightarrow> filter_part \<Rightarrow> display_row \<Rightarrow> bool" where
  "part_selects pg part row \<longleftrightarrow>
     (fp_external_ids part = [] \<or> dr_external_id row \<in> set (fp_external_ids part)) \<and>
     cond_value pg (udf_query_params (fp_user_filter part)) (dr_columns row) (udf_condition (fp_user_filter part)) = Some True"

definition part_runs :: "'c postgres \<Rightarrow> filter_part \<Rightarrow> unit result" where
  "part_runs pg part =
     (if cond_ok pg (udf_query_params (fp_user_filter part)) (udf_condition (fp_user_filter part))
      then Inr () else Inl ProgrammingError)"

text \<open>
  The start of a page: \<open>json.loads\<close> of the cursor, \<open>x in page_start\<close> and \<open>page_start[x]\<close>, which
  Python also answers for lists and strings.
\<close>

fun substring :: "string \<Rightarrow> string \<Rightarrow> bool" where
  "substring w [] = (w = [])"
| "substring w (c # s) = (starts w (c # s) \<or> substring w s)"

fun py_contains :: "string \<Rightarrow> pyval \<Rightarrow> bool result" where
  "py_contains k (PDict d) = Inr (k \<in> fst ` set d)"
| "py_contains k (PList vs) = Inr (PStr k \<in> set vs)"
| "py_contains k (PStr s) = Inr (substring k s)"
| "py_contains k _ = Inl TypeError"

fun py_item :: "string \<Rightarrow> pyval \<Rightarrow> pyval result" where
  "py_item k (PDict d) = dict_index d k"
| "py_item k _ = Inl TypeError"

text \<open>The value of \<open>inserted_at\<close>, if the query compares it, and of \<open>id\<close>.\<close>

definition page_start_item :: "string \<Rightarrow> pyval \<Rightarrow> pyval result" where
  "page_start_item k page_start =
     rbind (py_contains k page_start) (\<lambda>there.
       if \<not> there then Inl (ValidationError (PStr (k @ '' was not part of last query parameter!''))) else py_item k page_start)"

definition parse_page_start :: "(string \<Rightarrow> pyfloat) \<Rightarrow> bool \<Rightarrow> string \<Rightarrow> (pyval option \<times> pyval) result" where
  "parse_page_start parse_float use_materialized_table start_object =
     (case json_loads parse_float start_object of
        None \<Rightarrow> Inl (ValidationError (PStr ''could not parse last query parameter. Is it valid json?''))
      | Some page_start \<Rightarrow>
          rbind (py_contains ''id'' page_start) (\<lambda>there.
            if \<not> there then Inl (ValidationError (PStr ''id was not part of last query parameter!''))
            else rbind (if use_materialized_table
                        then rbind (page_start_item ''inserted_at'' page_start) (\<lambda>t. Inr (Some t)) else Inr None)
              (\<lambda>inserted_at. rbind (py_item ''id'' page_start) (\<lambda>start_id. Inr (inserted_at, start_id)))))"

text \<open>How the driver hands the two over: a text, \<open>NULL\<close>, or something that cannot be compared with the column.\<close>

fun text_param :: "pyval \<Rightarrow> string option result" where
  "text_param (PStr s) = Inr (Some s)"
| "text_param PNone = Inr None"
| "text_param _ = Inl ProgrammingError"

definition time_param :: "'c postgres \<Rightarrow> pyval \<Rightarrow> int option result" where
  "time_param pg v =
     rbind (text_param v) (\<lambda>text.
       case text of
         None \<Rightarrow> Inr None
       | Some s \<Rightarrow> (case pg_timestamp pg s of None \<Rightarrow> Inl DataError | Some t \<Rightarrow> Inr (Some t)))"

definition start_params :: "'c postgres \<Rightarrow> pyval option \<times> pyval \<Rightarrow> (int option option \<times> string option) result" where
  "start_params pg start =
     rbind (case fst start of None \<Rightarrow> Inr None | Some v \<Rightarrow> rbind (time_param pg v) (\<lambda>t. Inr (Some t))) (\<lambda>inserted_at.
     rbind (text_param (snd start)) (\<lambda>start_id. Inr (inserted_at, start_id)))"

text \<open>The columns of \<open>ORDER BY\<close>.\<close>

definition row_key :: "'c::linorder postgres \<Rightarrow> display_row \<Rightarrow> int \<times> 'c" where
  "row_key pg row = (case dr_inserted_at row of None \<Rightarrow> 0 | Some t \<Rightarrow> t, pg_collate pg (dr_id row))"

definition from_key :: "bool \<Rightarrow> 'k::linorder \<Rightarrow> 'k \<Rightarrow> bool" where
  "from_key reverse start k \<longleftrightarrow> (if reverse then k \<le> start else start \<le> k)"

text \<open>Comparing a row with \<open>NULL\<close> gives \<open>NULL\<close>, unless an earlier column has decided.\<close>

definition at_start ::
  "'c::linorder postgres \<Rightarrow> bool \<Rightarrow> int option option \<times> string option \<Rightarrow> display_row \<Rightarrow> bool" where
  "at_start pg reverse start row =
     (case start of
        (_, None) \<Rightarrow>
          (case fst start of
             Some (Some t) \<Rightarrow> fst (row_key pg row) \<noteq> t \<and> from_key reverse t (fst (row_key pg row))
           | _ \<Rightarrow> False)
      | (None, Some i) \<Rightarrow> from_key reverse (pg_collate pg i) (snd (row_key pg row))
      | (Some None, Some i) \<Rightarrow> False
      | (Some (Some t), Some i) \<Rightarrow> from_key reverse (t, pg_collate pg i) (row_key pg row))"

record data_point_query =
  dq_filter_value :: pydict
  dq_external_ids :: "string list option"
  dq_point_in_time :: "int option"
  dq_changes_since :: "int option"

definition use_materialized :: "DataSeries \<Rightarrow> int option \<Rightarrow> bool" where
  "use_materialized ds point_in_time = can_use_materialized_table (ds_backend ds) False (point_in_time \<noteq> None)"

text \<open>\<open>ORDER BY\<close> and \<open>LIMIT\<close>.\<close>

definition ordered_rows ::
  "'c::linorder postgres \<Rightarrow> bool \<Rightarrow> nat option \<Rightarrow> display_row list \<Rightarrow> display_row list" where
  "ordered_rows pg reverse limit rows =
     (let ordered = (if reverse then rev (sort_key (row_key pg) rows) else sort_key (row_key pg) rows) in
      case limit of None \<Rightarrow> ordered | Some n \<Rightarrow> take n ordered)"

definition raw_display_data_point_query ::
  "'c::linorder reading \<Rightarrow> DataSeries \<Rightarrow> data_point_query \<Rightarrow> string option \<Rightarrow> string option \<Rightarrow> bool \<Rightarrow> nat option \<Rightarrow>
     's storage_world \<Rightarrow> display_row list result result" where
  "raw_display_data_point_query rd ds q data_point_id start_object reverse limit w =
     (let pg = rd_postgres rd; use_materialized_table = use_materialized ds (dq_point_in_time q) in
      rbind (case start_object of
               None \<Rightarrow> Inr None
             | Some s \<Rightarrow> rbind (parse_page_start (rd_parse_float rd) use_materialized_table s) (\<lambda>x. Inr (Some x))) (\<lambda>page_start.
      rbind (precompute_filter_part rd (dq_external_ids q) (dq_filter_value q) ds use_materialized_table) (\<lambda>part.
      rbind (data_series_rows ds (dq_point_in_time q) (dq_changes_since q) w) (\<lambda>rows.
      Inr
        (rbind (case page_start of None \<Rightarrow> Inr None | Some s \<Rightarrow> rbind (start_params pg s) (\<lambda>x. Inr (Some x))) (\<lambda>start.
         rbind (part_runs pg part) (\<lambda>_.
         Inr (ordered_rows pg reverse limit
           (filter (\<lambda>row. (case data_point_id of None \<Rightarrow> True | Some i \<Rightarrow> dr_id row = i) \<and>
                (case start of None \<Rightarrow> True | Some s \<Rightarrow> at_start pg reverse s row) \<and> part_selects pg part row) rows)))))))))"

section \<open>The storage view adapter\<close>

text \<open>The reading methods of \<open>DynamicStorageViewAdapter\<close>; \<open>q\<close> is what they ask the view for.\<close>

definition access_object ::
  "'c::linorder reading \<Rightarrow> DataSeries \<Rightarrow> data_point_query \<Rightarrow> string \<Rightarrow> 's storage_world \<Rightarrow> display_row result" where
  "access_object rd ds q data_point_id w =
     rbind (raw_display_data_point_query rd ds q (Some data_point_id) None False None w) (\<lambda>raw_query.
     rbind raw_query (\<lambda>rows. case rows of [] \<Rightarrow> Inl (NotFound []) | obj # _ \<Rightarrow> Inr obj))"

definition get_next_page_query_for_pagination ::
  "'c::linorder reading \<Rightarrow> DataSeries \<Rightarrow> data_point_query \<Rightarrow> 's storage_world \<Rightarrow> string option \<Rightarrow> nat \<Rightarrow>
     display_row list result result" where
  "get_next_page_query_for_pagination rd ds q w last_query limit =
     raw_display_data_point_query rd ds q None last_query False (Some limit) w"

definition get_prev_page_query_for_pagination ::
  "'c::linorder reading \<Rightarrow> DataSeries \<Rightarrow> data_point_query \<Rightarrow> 's storage_world \<Rightarrow> string \<Rightarrow> nat \<Rightarrow>
     display_row list result result" where
  "get_prev_page_query_for_pagination rd ds q w last_query limit =
     raw_display_data_point_query rd ds q None (Some last_query) True (Some limit) w"

definition data_point_count ::
  "'c reading \<Rightarrow> DataSeries \<Rightarrow> data_point_query \<Rightarrow> 's storage_world \<Rightarrow> nat result" where
  "data_point_count rd ds q w =
     rbind (precompute_filter_part rd (dq_external_ids q) (dq_filter_value q) ds (use_materialized ds (dq_point_in_time q))) (\<lambda>part.
     rbind (data_series_rows ds (dq_point_in_time q) (dq_changes_since q) w) (\<lambda>rows.
     rbind (part_runs (rd_postgres rd) part) (\<lambda>_. Inr (length (filter (part_selects (rd_postgres rd) part) rows)))))"

text \<open>The cursor of a row: its \<open>pagination_data\<close>, which PostgreSQL has made a JSON object, as text.\<close>

definition pagination_data :: "'c postgres \<Rightarrow> display_row \<Rightarrow> pyval" where
  "pagination_data pg row =
     PDict ((''id'', PStr (dr_id row)) #
       (case dr_inserted_at row of None \<Rightarrow> [] | Some t \<Rightarrow> [(''inserted_at'', PStr (pg_timestamp_text pg t))]))"

definition encode_last_id_for_pagination :: "'c postgres \<Rightarrow> display_row \<Rightarrow> string result" where
  "encode_last_id_for_pagination pg db_object = json_dumps True (\<lambda>_. []) (pagination_data pg db_object)"

text \<open>\<open>queries/check_external_ids.py\<close> and \<open>repository.py\<close>, which look at the table of current versions.\<close>

definition check_chunk :: "DataSeries \<Rightarrow> 's storage_world \<Rightarrow> string list \<Rightarrow> string list" where
  "check_chunk ds w ids =
     map mr_external_id (filter (\<lambda>ds_dp. mr_external_id ds_dp \<in> set ids \<and> mr_deleted_at ds_dp = None) (sw_mat w (mat_table ds)))"

definition check_external_ids :: "DataSeries \<Rightarrow> 's storage_world \<Rightarrow> string list \<Rightarrow> string list" where
  "check_external_ids ds w external_ids =
     concat (map (\<lambda>chunk. case chunk of Inl _ \<Rightarrow> [] | Inr ids \<Rightarrow> check_chunk ds w ids) (data_chunks 250 external_ids))"

definition get_data_point :: "DataSeries \<Rightarrow> 's storage_world \<Rightarrow> string \<Rightarrow> (string \<times> string) option" where
  "get_data_point ds w data_point_id =
     map_option (\<lambda>ds_dp. (mr_id ds_dp, mr_external_id ds_dp))
       (find (\<lambda>ds_dp. mr_deleted_at ds_dp = None \<and> mr_id ds_dp = data_point_id) (sw_mat w (mat_table ds)))"

end
