(* ===== verification/Server_Storage_Correct.thy ===== *)
theory Server_Storage_Correct
  imports Server_Query
begin

text \<open>
  The history of a data series agrees with its current versions: every write changes the two tables
  by a step that puts a newer version into one and appends it to the other. What the history shows
  at a time is what the table of current versions showed then; pruning changes neither.
\<close>

section \<open>What a write does to the two tables\<close>

definition row_version :: "mat_row \<Rightarrow> int \<times> int" where
  "row_version r =
     (case mr_deleted_at r of None \<Rightarrow> mr_point_in_time r | Some d \<Rightarrow> d,
      case mr_sub_clock r of None \<Rightarrow> 0 | Some s \<Rightarrow> s)"

text \<open>A row of the history that holds what a row of the other table holds.\<close>

definition same_content :: "mat_row \<Rightarrow> hist_row \<Rightarrow> bool" where
  "same_content r h \<longleftrightarrow>
     hr_id h = mr_id r \<and> hr_external_id h = mr_external_id r \<and> hr_columns h = mr_columns r \<and>
     hr_deleted h = (mr_deleted_at r \<noteq> None) \<and> hr_version h = row_version r"

definition recorded :: "bool \<Rightarrow> mat_row \<Rightarrow> hist_row list \<Rightarrow> hist_row list \<Rightarrow> bool" where
  "recorded flat row hist hist' \<longleftrightarrow>
     (if flat then \<exists>h. same_content row h \<and> hr_key h \<notin> hr_key ` set hist \<and> hist' = hist @ [h] else hist' = hist)"

inductive table_step ::
  "bool \<Rightarrow> (string \<Rightarrow> string) \<Rightarrow> stamp \<Rightarrow> mat_row list \<times> hist_row list \<Rightarrow> mat_row list \<times> hist_row list \<Rightarrow> bool"
  for flat ext st
  where
    same: "table_step flat ext st (mat, hist) (mat, hist)"
  | insert: "mr_id row \<notin> mr_id ` set mat \<Longrightarrow> row_version row = version st \<Longrightarrow> mr_sub_clock row \<noteq> None \<Longrightarrow>
      mr_external_id row = ext (mr_id row) \<Longrightarrow> recorded flat row hist hist' \<Longrightarrow>
      table_step flat ext st (mat, hist) (mat @ [row], hist')"
  | update: "tgt \<in> set mat \<Longrightarrow> mr_id row = mr_id tgt \<Longrightarrow> row_version tgt < row_version row \<Longrightarrow>
      row_version row = version st \<Longrightarrow> mr_sub_clock row \<noteq> None \<Longrightarrow> mr_external_id row = ext (mr_id row) \<Longrightarrow>
      recorded flat row hist hist' \<Longrightarrow> table_step flat ext st (mat, hist) (put_row row mat, hist')"

inductive_cases table_stepE: "table_step flat ext st (mat, hist) (mat', hist')"

definition tables :: "DataSeries \<Rightarrow> 's storage_world \<Rightarrow> mat_row list \<times> hist_row list" where
  "tables ds w = (sw_mat w (mat_table ds), sw_hist w (hist_table ds))"

abbreviation is_flat :: "DataSeries \<Rightarrow> bool" where
  "is_flat ds \<equiv> ds_backend ds = DYNAMIC_SQL_MATERIALIZED_FLAT_HISTORY"

text \<open>Every row has a \<open>sub_clock\<close> and the external id that belongs to its id.\<close>

definition rows_ok :: "(string \<Rightarrow> string) \<Rightarrow> mat_row list \<Rightarrow> bool" where
  "rows_ok ext mat \<longleftrightarrow> distinct (map mr_id mat) \<and>
     (\<forall>r \<in> set mat. mr_sub_clock r \<noteq> None \<and> mr_external_id r = ext (mr_id r))"

lemma put_row_ids: "map mr_id (put_row row mat) = map mr_id mat"
  by (induction mat) (auto simp: put_row_def)

lemma put_row_member:
  "mr_id row \<in> mr_id ` set mat \<Longrightarrow>
    x \<in> set (put_row row mat) \<longleftrightarrow> x = row \<or> (x \<in> set mat \<and> mr_id x \<noteq> mr_id row)"
  by (auto simp: put_row_def)

lemma upsert_applies_newer:
  "mr_sub_clock r \<noteq> None \<Longrightarrow> upsert_applies r st \<longleftrightarrow> row_version r < version st"
  by (auto simp: upsert_applies_def row_version_def Let_def split: option.splits)

lemma delete_applies_newer:
  "mr_sub_clock r \<noteq> None \<Longrightarrow> mr_deleted_at r = None \<Longrightarrow> delete_applies r st \<longleftrightarrow> row_version r < version st"
  by (auto simp: delete_applies_def row_version_def split: option.splits)

lemma find_id_SomeD: "find (\<lambda>r. mr_id r = i) rows = Some r \<Longrightarrow> r \<in> set rows \<and> mr_id r = i"
  by (auto simp: find_Some_iff)

lemma find_id_NoneD: "find (\<lambda>r. mr_id r = i) rows = None \<Longrightarrow> i \<notin> mr_id ` set rows"
  by (auto simp: find_None_iff)

lemma insert_history_recorded:
  "insert_history (Some h) hist = Inr hist' \<Longrightarrow> same_content row h \<Longrightarrow> recorded True row hist hist'"
  by (auto simp: insert_history_def recorded_def split: if_splits)

text \<open>The two statements, as steps on the tables.\<close>

lemma central_insert_step:
  assumes ok: "rows_ok ext mat" and vd: "vd_external_id vd = ext (vd_id vd)"
    and row: "row = values_to_insert st vd vals"
    and run: "central_insert cols st row mat = (inserted, mat')"
    and hist: "if flat then insert_history (map_option (history_of_insert cols st row) inserted) hist = Inr hist' else hist' = hist"
  shows "table_step flat ext st (mat, hist) (mat', hist')"
proof (cases "find (\<lambda>r. mr_id r = mr_id row) mat")
  case None
  then have ins: "inserted = Some row" "mat' = mat @ [row]" using run by (auto simp: central_insert_def)
  have "same_content row (history_of_insert cols st row row)"
    by (simp add: same_content_def history_of_insert_def insert_to_flat_history_query_def row values_to_insert_def
        hr_version_def row_version_def)
  then have "recorded flat row hist hist'"
    using hist ins by (auto simp: insert_history_recorded recorded_def split: if_splits dest: insert_history_recorded)
  then show ?thesis
    unfolding ins using find_id_NoneD [OF None] vd
    by (intro table_step.insert) (auto simp: row values_to_insert_def row_version_def version_def)
next
  case (Some tgt)
  then have tgt: "tgt \<in> set mat" "mr_id tgt = mr_id row" by (auto dest: find_id_SomeD)
  have tgt_ok: "mr_sub_clock tgt \<noteq> None" "mr_external_id tgt = ext (mr_id tgt)"
    using ok tgt by (auto simp: rows_ok_def)
  show ?thesis
  proof (cases "upsert_applies tgt st")
    case False
    then show ?thesis using run hist Some
      by (auto simp: central_insert_def insert_history_def split: if_splits intro: table_step.same)
  next
    case True
    let ?r = "upsert_row cols row tgt"
    have ins: "inserted = Some ?r" "mat' = put_row ?r mat"
      using run Some True by (auto simp: central_insert_def Let_def)
    have r: "mr_id ?r = mr_id tgt" "row_version ?r = version st" "mr_sub_clock ?r \<noteq> None"
        "mr_external_id ?r = ext (mr_id ?r)" "mr_deleted_at ?r = None"
      using tgt_ok by (simp_all add: upsert_row_def row values_to_insert_def row_version_def version_def)
    have "same_content ?r (history_of_insert cols st row ?r)"
      using tgt(2) tgt_ok vd
      by (auto simp: same_content_def history_of_insert_def insert_to_flat_history_query_def row values_to_insert_def
          upsert_row_def hr_version_def row_version_def)
    then have rec: "recorded flat ?r hist hist'"
      using hist ins by (auto simp: recorded_def split: if_splits dest: insert_history_recorded)
    have newer: "row_version tgt < row_version ?r" using True upsert_applies_newer [OF tgt_ok(1)] r(2) by simp
    show ?thesis unfolding ins(2) by (rule table_step.update) (rule tgt(1) r(1) newer r(2) r(3) r(4) rec)+
  qed
qed

lemma delete_step:
  assumes ok: "rows_ok ext mat" and alive: "r \<in> set mat" "mr_deleted_at r = None"
    and run: "central_update_query st (mr_id r) e mat = (deleted, mat')"
    and hist: "if flat then insert_history (map_option (history_of_delete st) deleted) hist = Inr hist' else hist' = hist"
  shows "table_step flat ext st (mat, hist) (mat', hist')"
proof -
  have found: "find (\<lambda>x. mr_id x = mr_id r) mat = Some r"
    using ok alive(1) by (intro find_unique) (auto simp: rows_ok_def)
  have ok_r: "mr_sub_clock r \<noteq> None" "mr_external_id r = ext (mr_id r)"
    using ok alive by (auto simp: rows_ok_def)
  show ?thesis
  proof (cases "delete_applies r st")
    case False
    then show ?thesis using run hist found
      by (auto simp: central_update_query_def insert_history_def split: if_splits intro: table_step.same)
  next
    case True
    let ?r = "r\<lparr>mr_deleted_at := Some (st_point_in_time st), mr_sub_clock := Some (st_sub_clock st)\<rparr>"
    have del: "deleted = Some ?r" "mat' = put_row ?r mat"
      using run found True by (auto simp: central_update_query_def Let_def)
    have r: "mr_id ?r = mr_id r" "row_version ?r = version st" "mr_sub_clock ?r \<noteq> None"
        "mr_external_id ?r = ext (mr_id ?r)"
      using ok_r by (simp_all add: row_version_def version_def)
    have "same_content ?r (history_of_delete st ?r)"
      by (simp add: same_content_def history_of_delete_def insert_to_flat_history_query_def hr_version_def row_version_def)
    then have rec: "recorded flat ?r hist hist'"
      using hist del by (auto simp: recorded_def split: if_splits dest: insert_history_recorded)
    have newer: "row_version r < row_version ?r"
      using True delete_applies_newer [OF ok_r(1) alive(2)] r(2) by simp
    show ?thesis unfolding del(2) by (rule table_step.update) (rule alive(1) r(1) newer r(2) r(3) r(4) rec)+
  qed
qed

lemma table_step_rows_ok:
  assumes "table_step flat ext st t t'" and "rows_ok ext (fst t)"
  shows "rows_ok ext (fst t')"
  using assms(1)
proof (cases rule: table_step.cases)
  case (insert row mat hist hist')
  then show ?thesis using assms(2) by (auto simp: rows_ok_def)
next
  case (update tgt mat row hist hist')
  then have "mr_id row \<in> mr_id ` set mat" by auto
  with update show ?thesis using assms(2) by (auto simp: rows_ok_def put_row_ids put_row_member)
qed (use assms(2) in simp)

lemma write_row_step:
  assumes "rows_ok ext (sw_mat w (mat_table ds))" and "vd_external_id (fst data) = ext (vd_id (fst data))"
    and "write_row partial ds st data w = (Inr u, w')"
  shows "table_step (is_flat ds) ext st (tables ds w) (tables ds w')"
proof -
  let ?cols = "set_columns partial ds (fst data)" and ?row = "values_to_insert st (fst data) (snd data)"
  obtain inserted rows where c: "central_insert ?cols st ?row (sw_mat w (mat_table ds)) = (inserted, rows)"
    by fastforce
  have t: "tables ds w' = (rows, sw_hist w' (hist_table ds))"
    using assms(3) c by (auto simp: write_row_def Let_def tables_def split: if_splits sum.splits)
  have h: "if is_flat ds then insert_history (map_option (history_of_insert ?cols st ?row) inserted)
        (sw_hist w (hist_table ds)) = Inr (sw_hist w' (hist_table ds))
      else sw_hist w' (hist_table ds) = sw_hist w (hist_table ds)"
    using assms(3) c by (auto simp: write_row_def Let_def split: if_splits sum.splits)
  show ?thesis unfolding t unfolding tables_def
    by (rule central_insert_step [OF assms(1,2) refl c h])
qed

lemma delete_datapoint_step:
  assumes "rows_ok ext (sw_mat w (mat_table ds))" and "r \<in> set (sw_mat w (mat_table ds))" and "mr_deleted_at r = None"
    and "delete_datapoint ds st (mr_id r) e w = (Inr u, w')"
  shows "table_step (is_flat ds) ext st (tables ds w) (tables ds w')"
proof -
  obtain deleted rows where c: "central_update_query st (mr_id r) e (sw_mat w (mat_table ds)) = (deleted, rows)"
    by fastforce
  have t: "tables ds w' = (rows, sw_hist w' (hist_table ds))"
    using assms(4) c by (auto simp: delete_datapoint_def Let_def tables_def split: if_splits sum.splits)
  have h: "if is_flat ds then insert_history (map_option (history_of_delete st) deleted)
        (sw_hist w (hist_table ds)) = Inr (sw_hist w' (hist_table ds))
      else sw_hist w' (hist_table ds) = sw_hist w (hist_table ds)"
    using assms(4) c by (auto simp: delete_datapoint_def Let_def split: if_splits sum.splits)
  show ?thesis unfolding t unfolding tables_def
    by (rule delete_step [OF assms(1-3) c h])
qed

lemma achieves_atomic: "achieves P m Q \<Longrightarrow> achieves P (atomic m) Q"
  by (auto simp: achieves_def atomic_def split: prod.splits sum.splits)

lemma set_missing_ids [simp]:
  "vd_id (set_missing_structure_elements_to_none_with_flattened_keys ks vd) = vd_id vd"
  "vd_external_id (set_missing_structure_elements_to_none_with_flattened_keys ks vd) = vd_external_id vd"
  by (simp_all add: set_missing_structure_elements_to_none_with_flattened_keys_def)

lemma data_chunks_members:
  "Inr chunk \<in> set (data_chunks n xs) \<Longrightarrow> x \<in> set chunk \<Longrightarrow> x \<in> set xs"
  by (induction n xs rule: data_chunks.induct) (auto split: if_splits dest: in_set_takeD in_set_dropD)

section \<open>Invariants of the tables\<close>

text \<open>
  What every step on the tables keeps, every operation keeps that writes data points. The rows are
  in order (\<open>rows_ok\<close>) besides.
\<close>

locale table_invariant =
  fixes flat :: bool and ext :: "string \<Rightarrow> string" and allowed :: "stamp \<Rightarrow> bool"
    and I :: "mat_row list \<times> hist_row list \<Rightarrow> bool"
  assumes step: "table_step flat ext st t t' \<Longrightarrow> allowed st \<Longrightarrow> rows_ok ext (fst t) \<Longrightarrow> I t \<Longrightarrow> I t'"
begin

definition holds :: "DataSeries \<Rightarrow> 's storage_world \<Rightarrow> bool" where
  "holds ds w \<longleftrightarrow> (is_flat ds = flat) \<and> rows_ok ext (sw_mat w (mat_table ds)) \<and> I (tables ds w)"

lemma on_registry_keeps: "achieves (holds ds) (on_registry m) (\<lambda>_. holds ds)"
  by (rule achievesI) (auto simp: on_registry_def holds_def tables_def split: prod.splits)

lemma publish_keeps: "achieves (holds ds) (publish pub ds st payload event_type) (\<lambda>_. holds ds)"
  by (rule achievesI) (auto simp: publish_def holds_def tables_def)

lemma write_row_keeps:
  "allowed st \<Longrightarrow> vd_external_id (fst data) = ext (vd_id (fst data)) \<Longrightarrow>
    achieves (holds ds) (write_row partial ds st data) (\<lambda>_. holds ds)"
proof (rule achievesI)
  fix w x w'
  assume a: "allowed st" "vd_external_id (fst data) = ext (vd_id (fst data))" "holds ds w"
    and run: "write_row partial ds st data w = (Inr x, w')"
  have ok: "rows_ok ext (sw_mat w (mat_table ds))" using a(3) by (simp add: holds_def)
  have st: "table_step flat ext st (tables ds w) (tables ds w')"
    using write_row_step [OF ok a(2) run] a(3) by (simp add: holds_def)
  show "holds ds w'"
    using table_step_rows_ok [OF st] step [OF st a(1)] a(3) by (simp add: holds_def tables_def)
qed

lemma impl_keeps:
  assumes "allowed st" and "\<And>vd. vd \<in> set vds \<Longrightarrow> vd_external_id vd = ext (vd_id vd)"
  shows "achieves (holds ds) (insert_or_update_data_points_impl storage partial repeated ds st vds) (\<lambda>_. holds ds)"
  unfolding insert_or_update_data_points_impl_def registry_update_def
  by (intro achieves_bind [OF on_registry_keeps] achieves_bind [OF achieves_when [OF on_registry_keeps]])
    (auto intro!: achieves_raise achieves_for write_row_keeps assms dest: set_zip_leftD)

lemma patch_keeps:
  assumes "allowed st" and "\<And>vd. vd \<in> set vds \<Longrightarrow> vd_external_id vd = ext (vd_id vd)"
  shows "achieves (holds ds) (patch_data_points storage repeated ds st vds) (\<lambda>_. holds ds)"
  using assms(2)
  by (induction vds arbitrary: repeated)
    (auto intro!: achieves_return achieves_bind impl_keeps assms(1))

lemma create_keeps:
  assumes "allowed st" and "\<And>vd. vd \<in> set vds \<Longrightarrow> vd_external_id vd = ext (vd_id vd)"
  shows "achieves (holds ds) (create_data_points pub storage partial ds st vds) (\<lambda>_. holds ds)"
  unfolding create_data_points_def insert_or_update_data_points_def Let_def
  by (auto intro!: achieves_raise achieves_return achieves_bind [OF publish_keeps] achieves_bind
      [where m = "patch_data_points _ _ _ _ _", OF patch_keeps] achieves_bind
      [where m = "insert_or_update_data_points_impl _ _ _ _ _ _", OF impl_keeps] assms)

lemma persist_keeps:
  assumes "allowed st" and "\<And>vd. vd \<in> set vds \<Longrightarrow> vd_external_id vd = ext (vd_id vd)"
  shows "achieves (holds ds) (persist_data_point_chunk pub storage n ds st vds) (\<lambda>_. holds ds)"
  unfolding persist_data_point_chunk_def Let_def
proof (rule achieves_for)
  fix chunk
  assume c: "chunk \<in> set (data_chunks n (map (set_missing_structure_elements_to_none_with_flattened_keys
    (flatten_serialization_keys (ds_keys ds))) vds))"
  show "achieves (holds ds) (api_bind (api_lift chunk) (\<lambda>chunk_list.
      api_ignore (create_data_points pub storage False ds st chunk_list))) (\<lambda>_. holds ds)"
  proof (cases chunk)
    case (Inr xs)
    have "vd_external_id vd = ext (vd_id vd)" if "vd \<in> set xs" for vd
      using data_chunks_members [OF c [unfolded Inr] that] assms(2) by auto
    then show ?thesis unfolding Inr lift_bind by (intro achieves_ignore create_keeps assms(1))
  qed (auto simp: achieves_def api_bind_def api_lift_def)
qed

lemma impl_create_keeps:
  "allowed st \<Longrightarrow> vd_external_id vd = ext (vd_id vd) \<Longrightarrow>
    achieves (holds ds) (impl_create pub storage ds st vd) (\<lambda>_. holds ds)"
  unfolding impl_create_def by (intro achieves_atomic create_keeps) auto

lemma impl_update_keeps:
  "allowed st \<Longrightarrow> vd_external_id vd = ext (vd_id vd) \<Longrightarrow>
    achieves (holds ds) (impl_update pub storage patch ds st vd) (\<lambda>_. holds ds)"
  unfolding impl_update_def Let_def
  by (intro achieves_atomic create_keeps) (auto simp: set_missing_structure_elements_to_none_def)

lemma destroy_keeps:
  "allowed st \<Longrightarrow> achieves (\<lambda>w. holds ds w \<and> r \<in> set (sw_mat w (mat_table ds)) \<and> mr_deleted_at r = None)
    (destroy_object pub ds st (mr_id r) e) (\<lambda>_. holds ds)"
  unfolding destroy_object_def
proof (intro achieves_bind [OF _ publish_keeps] achieves_when achievesI)
  fix w x w'
  assume a: "allowed st" "holds ds w \<and> r \<in> set (sw_mat w (mat_table ds)) \<and> mr_deleted_at r = None"
    and run: "delete_datapoint ds st (mr_id r) e w = (Inr x, w')"
  have ok: "rows_ok ext (sw_mat w (mat_table ds))" using a(2) by (simp add: holds_def)
  have st: "table_step flat ext st (tables ds w) (tables ds w')"
    using delete_datapoint_step [OF ok _ _ run] a(2) by (simp add: holds_def)
  show "holds ds w'"
    using table_step_rows_ok [OF st] step [OF st a(1)] a(2) by (simp add: holds_def tables_def)
qed auto

end

section \<open>The history holds every current version\<close>

definition newest :: "hist_row \<Rightarrow> hist_row list \<Rightarrow> bool" where
  "newest h hist \<longleftrightarrow> h \<in> set hist \<and> (\<forall>h2 \<in> set hist. hr_id h2 = hr_id h \<longrightarrow> hr_version h2 \<le> hr_version h)"

definition reflects :: "mat_row list \<times> hist_row list \<Rightarrow> bool" where
  "reflects t \<longleftrightarrow> (case t of (mat, hist) \<Rightarrow>
     distinct (map hr_key hist) \<and> hr_id ` set hist \<subseteq> mr_id ` set mat \<and>
     (\<forall>r \<in> set mat. \<exists>h. same_content r h \<and> newest h hist))"

lemma reflectsD: "reflects (mat, hist) \<Longrightarrow> r \<in> set mat \<Longrightarrow> \<exists>h. same_content r h \<and> newest h hist"
  by (simp add: reflects_def)

lemma recorded_key: "hr_key h = (hr_id h, hr_version h)"
  by (simp add: hr_key_def hr_version_def)

lemma reflects_append:
  assumes old: "reflects (mat, hist)" and new: "same_content row h" "hr_key h \<notin> hr_key ` set hist"
    and rows: "set mat' \<subseteq> insert row {r \<in> set mat. mr_id r \<noteq> mr_id row}" "mr_id ` set mat' = insert (mr_id row) (mr_id ` set mat)"
    and newer: "\<And>r. r \<in> set mat \<Longrightarrow> mr_id r = mr_id row \<Longrightarrow> row_version r < row_version row"
  shows "reflects (mat', hist @ [h])"
proof -
  have h: "hr_id h = mr_id row" "hr_version h = row_version row" using new(1) by (auto simp: same_content_def)
  have "hr_version h2 \<le> hr_version h" if h2: "h2 \<in> set hist" "hr_id h2 = hr_id h" for h2
  proof -
    obtain r where r: "r \<in> set mat" "mr_id r = hr_id h2" using old h2(1) by (auto simp: reflects_def)
    then obtain h3 where "same_content r h3" "newest h3 hist" using old by (auto simp: reflects_def)
    then have "hr_version h2 \<le> row_version r" using r h2 by (auto simp: newest_def same_content_def)
    also have "\<dots> < hr_version h" using newer [OF r(1)] r h h2 by simp
    finally show ?thesis by simp
  qed
  then have "newest h (hist @ [h])" by (auto simp: newest_def)
  moreover have "\<exists>h'. same_content r h' \<and> newest h' (hist @ [h])" if r: "r \<in> set mat" "mr_id r \<noteq> mr_id row" for r
  proof -
    obtain h' where "same_content r h'" "newest h' hist" using old r by (auto simp: reflects_def)
    then have "same_content r h' \<and> newest h' (hist @ [h])" using r h by (auto simp: newest_def same_content_def)
    then show ?thesis by blast
  qed
  moreover have "distinct (map hr_key (hist @ [h]))" using old new(2) by (auto simp: reflects_def)
  moreover have "hr_id ` set (hist @ [h]) \<subseteq> mr_id ` set mat'" using old h rows(2) by (auto simp: reflects_def)
  ultimately show ?thesis using new(1) rows(1) unfolding reflects_def by blast
qed

lemma reflects_step:
  assumes step: "table_step True ext st t t'" and ok: "rows_ok ext (fst t)" and I: "reflects t"
  shows "reflects t'"
  using step
proof (cases rule: table_step.cases)
  case (insert row mat hist hist')
  then obtain h where h: "same_content row h" "hr_key h \<notin> hr_key ` set hist" "hist' = hist @ [h]"
    by (auto simp: recorded_def)
  show ?thesis
    unfolding insert(2) h(3)
  proof (rule reflects_append [OF _ h(1,2)])
    have fresh: "mr_id r \<noteq> mr_id row" if "r \<in> set mat" for r using insert(3) that by (metis imageI)
    show "set (mat @ [row]) \<subseteq> insert row {r \<in> set mat. mr_id r \<noteq> mr_id row}" using fresh by auto
    show "row_version r < row_version row" if "r \<in> set mat" "mr_id r = mr_id row" for r using fresh that by blast
    show "reflects (mat, hist)" using I insert by simp
  qed simp
next
  case (update tgt mat row hist hist')
  then obtain h where h: "same_content row h" "hr_key h \<notin> hr_key ` set hist" "hist' = hist @ [h]"
    by (auto simp: recorded_def)
  have mem: "mr_id row \<in> mr_id ` set mat" using update by auto
  have uniq: "r = tgt" if "r \<in> set mat" "mr_id r = mr_id row" for r
    using that update ok by (auto simp: rows_ok_def distinct_map inj_on_def)
  have ids: "mr_id ` set (put_row row mat) = mr_id ` set mat" using put_row_ids [of row mat] by (metis list.set_map)
  show ?thesis
    unfolding update(2) h(3)
  proof (rule reflects_append [OF _ h(1,2)])
    show "reflects (mat, hist)" using I update by simp
    show "set (put_row row mat) \<subseteq> insert row {r \<in> set mat. mr_id r \<noteq> mr_id row}" using put_row_member [OF mem] by auto
    show "mr_id ` set (put_row row mat) = insert (mr_id row) (mr_id ` set mat)" using ids mem by auto
    show "row_version r < row_version row" if "r \<in> set mat" "mr_id r = mr_id row" for r
      using uniq [OF that] update by simp
  qed
qed (use I in simp)

interpretation reflecting: table_invariant True ext "\<lambda>_. True" reflects for ext
  by unfold_locales (rule reflects_step)

interpretation later: table_invariant True ext "\<lambda>st. t < st_point_in_time st"
    "\<lambda>tb. \<exists>new. snd tb = h0 @ new \<and> (\<forall>h \<in> set new. t < hr_point_in_time h)" for ext t h0
proof
  fix st :: stamp and tb tb' :: "mat_row list \<times> hist_row list"
  assume step: "table_step True ext st tb tb'" and st: "t < st_point_in_time st"
    and I: "\<exists>new. snd tb = h0 @ new \<and> (\<forall>h \<in> set new. t < hr_point_in_time h)"
  show "\<exists>new. snd tb' = h0 @ new \<and> (\<forall>h \<in> set new. t < hr_point_in_time h)"
    using step st I
    by (cases rule: table_step.cases) (fastforce simp: recorded_def same_content_def version_def hr_version_def)+
qed

interpretation earlier: table_invariant True ext "\<lambda>st. st_point_in_time st \<le> t"
    "\<lambda>tb. \<forall>h \<in> set (snd tb). hr_point_in_time h \<le> t" for ext t
proof
  fix st :: stamp and tb tb' :: "mat_row list \<times> hist_row list"
  assume step: "table_step True ext st tb tb'" and st: "st_point_in_time st \<le> t"
    and I: "\<forall>h \<in> set (snd tb). hr_point_in_time h \<le> t"
  show "\<forall>h \<in> set (snd tb'). hr_point_in_time h \<le> t"
    using step st I
    by (cases rule: table_step.cases) (fastforce simp: recorded_def same_content_def version_def hr_version_def)+
qed

section \<open>What the two tables show\<close>

text \<open>What a row shows of a data point (when it was inserted, only the current versions tell).\<close>

definition shown :: "display_row \<Rightarrow> string \<times> string \<times> int \<times> (string \<Rightarrow> sql_value)" where
  "shown d = (dr_id d, dr_external_id d, dr_point_in_time d, dr_columns d)"

lemma newest_iff:
  "\<not> list_ex (newer_version None None h) hist \<longleftrightarrow> (\<forall>h2 \<in> set hist. hr_id h2 = hr_id h \<longrightarrow> hr_version h2 \<le> hr_version h)"
  by (auto simp: newer_version_def until_ok_def since_ok_def list_ex_iff not_less)

lemma shown_same_content:
  "same_content r h \<Longrightarrow> mr_deleted_at r = None \<Longrightarrow> shown (display_hist h) = shown (display_mat r)"
  by (auto simp: shown_def display_hist_def display_mat_def same_content_def hr_version_def row_version_def)

lemma newest_unique:
  assumes "distinct (map hr_key hist)" and "newest h hist" and "newest h2 hist" and "hr_id h = hr_id h2"
  shows "h = h2"
proof -
  have "hr_version h = hr_version h2" using assms by (auto simp: newest_def intro: antisym)
  then have "hr_key h = hr_key h2" using assms(4) by (simp add: recorded_key)
  then show ?thesis using assms by (auto simp: distinct_map newest_def dest: inj_onD)
qed

lemma flat_history_shows_current:
  assumes "reflects (mat, hist)" and "distinct (map mr_id mat)"
  shows "shown ` set (flat_history_rows None None hist) = shown ` set (materialized_rows None mat)"
    and "distinct (map dr_id (flat_history_rows None None hist))"
proof -
  let ?H = "{h \<in> set hist. \<not> list_ex (newer_version None None h) hist \<and> \<not> hr_deleted h}"
  have H: "?H = {h. newest h hist \<and> \<not> hr_deleted h}" by (auto simp: newest_iff newest_def)
  have key: "distinct (map hr_key hist)" using assms by (simp add: reflects_def)
  have left: "set (flat_history_rows None None hist) = display_hist ` ?H"
    by (auto simp: flat_history_rows_def until_ok_def since_ok_def)
  have right: "set (materialized_rows None mat) = display_mat ` {r \<in> set mat. mr_deleted_at r = None}"
    by (auto simp: materialized_rows_def since_ok_def)
  have to_mat: "\<exists>r \<in> set mat. mr_deleted_at r = None \<and> shown (display_hist h) = shown (display_mat r)" if "h \<in> ?H" for h
  proof -
    have h: "newest h hist" "\<not> hr_deleted h" using that H by auto
    obtain r where r: "r \<in> set mat" "mr_id r = hr_id h" using assms(1) h by (auto simp: reflects_def newest_def)
    then obtain h2 where h2: "same_content r h2" "newest h2 hist" using assms(1) by (auto simp: reflects_def)
    then have "h2 = h" using newest_unique [OF key h2(2) h(1)] r by (simp add: same_content_def)
    then show ?thesis using r h h2 shown_same_content [OF h2(1)] by (auto simp: same_content_def)
  qed
  have to_hist: "\<exists>h \<in> ?H. shown (display_hist h) = shown (display_mat r)" if rr: "r \<in> set mat" "mr_deleted_at r = None" for r
  proof -
    obtain h where h: "same_content r h" "newest h hist" using reflectsD [OF assms(1) rr(1)] by blast
    then show ?thesis using shown_same_content [OF h(1) rr(2)] rr(2) unfolding H
      by (intro bexI [of _ h]) (auto simp: same_content_def)
  qed
  show "shown ` set (flat_history_rows None None hist) = shown ` set (materialized_rows None mat)"
    unfolding left right image_image using to_mat to_hist by (fastforce simp: image_iff)
  have "h = h2" if "h \<in> ?H" "h2 \<in> ?H" "hr_id h = hr_id h2" for h h2
    using that H newest_unique [OF key] by blast
  then have "inj_on hr_id ?H" by (auto simp: inj_on_def)
  moreover have "distinct hist" using key by (simp add: distinct_map)
  ultimately show "distinct (map dr_id (flat_history_rows None None hist))"
    by (auto simp: flat_history_rows_def distinct_map until_ok_def since_ok_def inj_on_def display_hist_def)
qed

text \<open>Versions after a time do not change what the history shows at that time.\<close>

lemma flat_history_ignores_later:
  assumes "\<forall>h \<in> set hist. hr_point_in_time h \<le> t" and "\<forall>h \<in> set new. t < hr_point_in_time h"
  shows "flat_history_rows (Some t) None (hist @ new) = flat_history_rows None None hist"
proof -
  have "newer_version (Some t) None h h2 \<longleftrightarrow> newer_version None None h h2" if "h2 \<in> set hist" for h h2
    using assms that by (auto simp: newer_version_def until_ok_def)
  then have ex: "list_ex (newer_version (Some t) None h) hist \<longleftrightarrow> list_ex (newer_version None None h) hist" for h
    by (auto simp: list_ex_iff)
  have none: "\<not> list_ex (newer_version (Some t) None h) new" for h
    using assms by (auto simp: newer_version_def until_ok_def list_ex_iff)
  have "filter (\<lambda>h. \<not> list_ex (newer_version (Some t) None h) (hist @ new) \<and> \<not> hr_deleted h \<and>
      until_ok (Some t) (hr_point_in_time h) \<and> since_ok None (hr_point_in_time h)) new = []"
    using assms by (auto simp: filter_empty_conv until_ok_def)
  moreover have "filter (\<lambda>h. \<not> list_ex (newer_version (Some t) None h) (hist @ new) \<and> \<not> hr_deleted h \<and>
      until_ok (Some t) (hr_point_in_time h) \<and> since_ok None (hr_point_in_time h)) hist =
    filter (\<lambda>h. \<not> list_ex (newer_version None None h) hist \<and> \<not> hr_deleted h \<and>
      until_ok None (hr_point_in_time h) \<and> since_ok None (hr_point_in_time h)) hist"
    using assms none by (intro filter_cong) (auto simp: ex until_ok_def)
  ultimately show ?thesis unfolding flat_history_rows_def filter_append by simp
qed

section \<open>The operations of a data series, in any sequence\<close>

text \<open>
  The requests that write data points, whether they succeed or not: each runs in a transaction.
  A delete finds its data point before (the view raises \<open>NotFound\<close> otherwise).
\<close>

inductive storage_step ::
  "'s publisher \<Rightarrow> file_storage \<Rightarrow> (string \<Rightarrow> string) \<Rightarrow> (int \<Rightarrow> bool) \<Rightarrow> DataSeries \<Rightarrow>
     's storage_world \<Rightarrow> 's storage_world \<Rightarrow> bool"
  for pub storage ext allowed ds
  where
    create: "impl_create pub storage ds st vd w = (res, w') \<Longrightarrow> vd_external_id vd = ext (vd_id vd) \<Longrightarrow>
      allowed (st_point_in_time st) \<Longrightarrow> storage_step pub storage ext allowed ds w w'"
  | update: "impl_update pub storage patch ds st vd w = (res, w') \<Longrightarrow> vd_external_id vd = ext (vd_id vd) \<Longrightarrow>
      allowed (st_point_in_time st) \<Longrightarrow> storage_step pub storage ext allowed ds w w'"
  | bulk: "atomic (persist_data_point_chunk pub storage batch_size ds st vds) w = (res', w') \<Longrightarrow>
      (\<And>vd. vd \<in> set vds \<Longrightarrow> vd_external_id vd = ext (vd_id vd)) \<Longrightarrow>
      allowed (st_point_in_time st) \<Longrightarrow> storage_step pub storage ext allowed ds w w'"
  | delete: "r \<in> set (sw_mat w (mat_table ds)) \<Longrightarrow> mr_deleted_at r = None \<Longrightarrow>
      atomic (destroy_object pub ds st (mr_id r) (mr_external_id r)) w = (res', w') \<Longrightarrow>
      allowed (st_point_in_time st) \<Longrightarrow> storage_step pub storage ext allowed ds w w'"

inductive maintenance_step :: "'s publisher \<Rightarrow> file_storage \<Rightarrow> DataSeries \<Rightarrow> 's storage_world \<Rightarrow> 's storage_world \<Rightarrow> bool"
  for pub storage ds
  where
    prune: "prune_history now older_than all_fact_ids ds w = (res, w') \<Longrightarrow> maintenance_step pub storage ds w w'"
  | truncate: "atomic (truncate_data_series pub ds st) w = (res, w') \<Longrightarrow> maintenance_step pub storage ds w w'"
  | collect: "on_registry (garbage_collect ord storage older_than) w = (res, w') \<Longrightarrow> maintenance_step pub storage ds w w'"

lemma atomic_run:
  "atomic m w = (res, w') \<Longrightarrow>
    (\<exists>x. m w = (Inr x, w')) \<or> (sw_mat w' = sw_mat w \<and> sw_hist w' = sw_hist w)"
  by (auto simp: atomic_def split: prod.splits sum.splits)

lemma atomic_error: "atomic m w = (Inl e, w') \<Longrightarrow> sw_mat w' = sw_mat w \<and> sw_hist w' = sw_hist w"
  by (auto simp: atomic_def split: prod.splits sum.splits)

context table_invariant
begin

lemma achieves_atomic_result:
  assumes "achieves (\<lambda>w. holds ds w \<and> P w) m (\<lambda>_. holds ds)" and "atomic m w = (res, w')" and "holds ds w" and "P w"
  shows "holds ds w'"
  using atomic_run [OF assms(2)]
proof
  assume "\<exists>x. m w = (Inr x, w')"
  then show ?thesis using assms by (blast dest: achievesD)
next
  assume "sw_mat w' = sw_mat w \<and> sw_hist w' = sw_hist w"
  then show ?thesis using assms(3) by (simp add: holds_def tables_def)
qed

lemma storage_step_keeps:
  assumes "storage_step pub storage ext P ds w w'" and "\<And>st. P (st_point_in_time st) \<Longrightarrow> allowed st" and "holds ds w"
  shows "holds ds w'"
  using assms(1)
proof cases
  case (create st vd res)
  then show ?thesis using assms(2,3) create_keeps [of st "[vd]" ds pub storage False]
    unfolding impl_create_def by (auto intro: achieves_atomic_result [where P = "\<lambda>_. True"])
next
  case (update patch st vd res)
  let ?vd = "if patch then vd else set_missing_structure_elements_to_none (ds_keys ds) vd"
  have "vd_external_id ?vd = ext (vd_id ?vd)" using update by (simp add: set_missing_structure_elements_to_none_def)
  then show ?thesis using update assms(2,3) create_keeps [of st "[?vd]" ds pub storage patch]
    unfolding impl_update_def Let_def by (auto intro: achieves_atomic_result [where P = "\<lambda>_. True"])
next
  case (bulk batch_size st vds res')
  then show ?thesis using assms(2,3) persist_keeps [of st vds ds pub storage batch_size]
    by (auto intro: achieves_atomic_result [where P = "\<lambda>_. True"])
next
  case (delete r st res')
  then show ?thesis using assms(2,3) achieves_atomic_result [OF destroy_keeps [of st ds r pub "mr_external_id r"]]
    by blast
qed

lemma storage_steps_keep:
  assumes "(storage_step pub storage ext P ds)\<^sup>*\<^sup>* w w'" and "\<And>st. P (st_point_in_time st) \<Longrightarrow> allowed st" and "holds ds w"
  shows "holds ds w'"
  using assms(1,3) by (induction rule: rtranclp_induct) (auto intro: storage_step_keeps assms(2))

end

section \<open>Pruning and truncating\<close>

definition pruned_tables :: "int \<Rightarrow> mat_row list \<times> hist_row list \<Rightarrow> mat_row list \<times> hist_row list" where
  "pruned_tables older_than t = (case t of (mat, hist) \<Rightarrow>
     (let mat1 = filter (\<lambda>r. \<not> prune_materialized older_than r) mat in
      (mat1, filter (\<lambda>h. \<not> prune_flat_history older_than mat1 h) hist)))"

lemma on_registry_tables: "achieves (\<lambda>w. Q (sw_mat w) (sw_hist w)) (on_registry m) (\<lambda>_ w. Q (sw_mat w) (sw_hist w))"
  by (rule achievesI) (auto simp: on_registry_def split: prod.splits)

lemma mark_pruned_tables:
  "achieves (\<lambda>w. Q (sw_mat w) (sw_hist w)) (mark_pruned_versions now facts ds pruned) (\<lambda>_ w. Q (sw_mat w) (sw_hist w))"
  "achieves (\<lambda>w. Q (sw_mat w) (sw_hist w)) (mark_pruned_data_points now facts ds pruned') (\<lambda>_ w. Q (sw_mat w) (sw_hist w))"
  unfolding mark_pruned_versions_def mark_pruned_data_points_def registry_update_def
  by (intro achieves_for on_registry_tables)+

lemma atomic_Inr: "atomic m w = (Inr x, w') \<longleftrightarrow> m w = (Inr x, w')"
  by (auto simp: atomic_def split: prod.splits sum.splits)

lemma api_bind_Inr_split:
  "api_bind m f w = (Inr y, w') \<Longrightarrow> \<exists>x w1. m w = (Inr x, w1) \<and> f x w1 = (Inr y, w')"
  by (auto simp: api_bind_def split: prod.splits sum.splits)

lemma prune_history_run:
  assumes run: "prune_history now older_than all_fact_ids ds w = (Inr u, w')" and flat: "is_flat ds"
  shows "mark_pruned_versions now (minio_fact_ids all_fact_ids) ds
      (filter (prune_flat_history older_than (fst (pruned_tables older_than (tables ds w)))) (sw_hist w (hist_table ds)))
      (w\<lparr>sw_mat := (sw_mat w)(mat_table ds := fst (pruned_tables older_than (tables ds w))),
         sw_hist := (sw_hist w)(hist_table ds := snd (pruned_tables older_than (tables ds w)))\<rparr>) = (Inr u, w')"
proof -
  let ?facts = "minio_fact_ids all_fact_ids" and ?mat = "sw_mat w (mat_table ds)"
  obtain x w1 where w1: "prune_deleted_data_points now older_than ?facts ds w = (Inr x, w1)"
    and w2: "prune_old_versions now older_than ?facts ds w1 = (Inr u, w')"
    using api_bind_Inr_split [OF run [unfolded prune_history_def Let_def atomic_Inr]] by blast
  have "w1 = w\<lparr>sw_mat := (sw_mat w)(mat_table ds := filter (\<lambda>r. \<not> prune_materialized older_than r) ?mat)\<rparr>"
    using w1 flat by (auto simp: prune_deleted_data_points_def api_when_def api_return_def Let_def)
  then show ?thesis
    using w2 flat by (simp add: prune_old_versions_def Let_def pruned_tables_def tables_def)
qed

lemma prune_history_tables:
  assumes run: "prune_history now older_than all_fact_ids ds w = (Inr u, w')" and flat: "is_flat ds"
  shows "tables ds w' = pruned_tables older_than (tables ds w)"
proof -
  let ?p = "pruned_tables older_than (tables ds w)"
  have "sw_mat w' = (sw_mat w)(mat_table ds := fst ?p) \<and> sw_hist w' = (sw_hist w)(hist_table ds := snd ?p)"
    by (rule achievesD [OF mark_pruned_tables(1) [where Q = "\<lambda>m h. m = (sw_mat w)(mat_table ds := fst ?p) \<and>
        h = (sw_hist w)(hist_table ds := snd ?p)"] prune_history_run [OF assms]]) simp
  then show ?thesis by (simp add: tables_def)
qed

lemma current_version_kept:
  assumes "rows_ok ext mat" and "r \<in> set mat" and "\<not> prune_materialized older_than r" and "same_content r h"
  shows "\<not> prune_flat_history older_than (filter (\<lambda>r. \<not> prune_materialized older_than r) mat) h"
proof -
  have "distinct (map mr_id (filter (\<lambda>r. \<not> prune_materialized older_than r) mat))"
    using assms(1) by (simp add: rows_ok_def distinct_map_filter)
  then have f: "find (\<lambda>d. mr_id d = mr_id r) (filter (\<lambda>r. \<not> prune_materialized older_than r) mat) = Some r"
    using assms(2,3) by (intro find_unique) auto
  obtain s where s: "mr_sub_clock r = Some s" using assms(1,2) by (auto simp: rows_ok_def)
  show ?thesis
    using assms(3,4) f s
    by (auto simp: prune_flat_history_def prune_materialized_def same_content_def hr_version_def row_version_def
        sql_row_less_def split: option.splits)
qed

lemma reflects_pruned:
  assumes ok: "rows_ok ext mat" and I: "reflects (mat, hist)"
  shows "rows_ok ext (fst (pruned_tables older_than (mat, hist)))" and "reflects (pruned_tables older_than (mat, hist))"
proof -
  let ?mat1 = "filter (\<lambda>r. \<not> prune_materialized older_than r) mat"
  let ?hist1 = "filter (\<lambda>h. \<not> prune_flat_history older_than ?mat1 h) hist"
  have t: "pruned_tables older_than (mat, hist) = (?mat1, ?hist1)" by (simp add: pruned_tables_def Let_def)
  show "rows_ok ext (fst (pruned_tables older_than (mat, hist)))"
    using ok by (auto simp: t rows_ok_def distinct_map_filter)
  have "\<exists>h. same_content r h \<and> newest h ?hist1" if r: "r \<in> set ?mat1" for r
  proof -
    obtain h where h: "same_content r h" "newest h hist" using reflectsD [OF I] r by auto
    then have "newest h ?hist1" using current_version_kept [OF ok _ _ h(1)] r by (auto simp: newest_def)
    with h show ?thesis by blast
  qed
  moreover have "hr_id h2 \<in> mr_id ` set ?mat1" if h2: "h2 \<in> set ?hist1" for h2
  proof (rule ccontr)
    assume gone: "hr_id h2 \<notin> mr_id ` set ?mat1"
    obtain r where r: "r \<in> set mat" "mr_id r = hr_id h2" using I h2 by (auto simp: reflects_def)
    then have dead: "prune_materialized older_than r" using gone by force
    obtain h where h: "same_content r h" "newest h hist" using reflectsD [OF I r(1)] by blast
    then have "hr_version h2 \<le> row_version r" using h2 r by (auto simp: newest_def same_content_def)
    then have "hr_point_in_time h2 < older_than"
      using dead by (auto simp: prune_materialized_def row_version_def hr_version_def split: option.splits)
    moreover have "find (\<lambda>d. mr_id d = hr_id h2) ?mat1 = None"
      unfolding find_None_iff using gone by (metis imageI)
    ultimately show False using h2 by (simp add: prune_flat_history_def)
  qed
  moreover have "distinct (map hr_key ?hist1)" using I by (simp add: reflects_def distinct_map_filter)
  ultimately show "reflects (pruned_tables older_than (mat, hist))" unfolding t reflects_def by auto
qed

lemma truncate_tables:
  "truncate_data_series pub ds st w = (Inr u, w') \<Longrightarrow> is_flat ds \<Longrightarrow> tables ds w' = ([], [])"
  by (auto simp: truncate_data_series_def publish_def tables_def Let_def)

lemma collect_tables: "on_registry m w = (res, w') \<Longrightarrow> tables ds w' = tables ds w"
  by (auto simp: on_registry_def tables_def split: prod.splits)

lemma maintenance_tables:
  assumes "maintenance_step pub storage ds w w'" and "is_flat ds"
  shows "tables ds w' \<in> {tables ds w, ([], [])} \<union> range (\<lambda>older_than. pruned_tables older_than (tables ds w))"
  using assms(1)
proof cases
  case (prune now older_than all_fact_ids res)
  show ?thesis
  proof (cases res)
    case Inl
    then have "sw_mat w' = sw_mat w \<and> sw_hist w' = sw_hist w"
      using prune atomic_error unfolding prune_history_def Let_def by blast
    then show ?thesis by (simp add: tables_def)
  next
    case Inr
    then have "tables ds w' = pruned_tables older_than (tables ds w)"
      using prune prune_history_tables [OF _ assms(2)] by blast
    then show ?thesis by blast
  qed
next
  case (truncate st res)
  have "tables ds w' = ([], []) \<or> tables ds w' = tables ds w"
    using atomic_run [OF truncate] truncate_tables [OF _ assms(2)] unfolding tables_def by fastforce
  then show ?thesis by blast
next
  case (collect ord older_than res)
  show ?thesis using collect_tables [OF collect] by blast
qed

text \<open>What every sequence of operations keeps.\<close>

lemma maintenance_reflects:
  assumes "maintenance_step pub storage ds w w'" and "reflecting.holds ext ds w"
  shows "reflecting.holds ext ds w'"
proof -
  have flat: "is_flat ds" using assms(2) by (simp add: reflecting.holds_def)
  have "rows_ok ext (fst (tables ds w))" "reflects (tables ds w)"
    using assms(2) by (simp_all add: reflecting.holds_def tables_def)
  then have pruned: "rows_ok ext (fst (pruned_tables p (tables ds w)))" "reflects (pruned_tables p (tables ds w))" for p
    using reflects_pruned [of ext "fst (tables ds w)" "snd (tables ds w)"] by simp_all
  have none: "rows_ok ext []" "reflects ([], [])" by (simp_all add: rows_ok_def reflects_def)
  have "rows_ok ext (fst (tables ds w')) \<and> reflects (tables ds w')"
    using maintenance_tables [OF assms(1) flat] pruned none \<open>rows_ok ext (fst (tables ds w))\<close> \<open>reflects (tables ds w)\<close>
    by (elim UnE insertE rangeE emptyE) (metis fst_conv)+
  then show ?thesis using flat by (simp add: reflecting.holds_def tables_def)
qed

lemma maintenance_earlier:
  assumes "maintenance_step pub storage ds w w'" and "earlier.holds ext t ds w" and "reflecting.holds ext ds w"
  shows "earlier.holds ext t ds w'"
proof -
  have flat: "is_flat ds" using assms(2) by (simp add: reflecting.holds_def earlier.holds_def)
  have "\<forall>h \<in> set (snd (tables ds w')). hr_point_in_time h \<le> t"
    using maintenance_tables [OF assms(1) flat] assms(2)
    by (auto simp: earlier.holds_def pruned_tables_def Let_def tables_def)
  then show ?thesis using maintenance_reflects [OF assms(1,3)] flat
    by (simp add: earlier.holds_def reflecting.holds_def)
qed

section \<open>Properties\<close>

definition empty_tables :: "DataSeries \<Rightarrow> 's storage_world \<Rightarrow> bool" where
  "empty_tables ds w \<longleftrightarrow> is_flat ds \<and> sw_mat w (mat_table ds) = [] \<and> sw_hist w (hist_table ds) = []"

lemma empty_holds:
  "empty_tables ds w \<Longrightarrow> reflecting.holds ext ds w" "empty_tables ds w \<Longrightarrow> earlier.holds ext t ds w"
  by (simp_all add: empty_tables_def reflecting.holds_def earlier.holds_def rows_ok_def reflects_def tables_def)

lemma reachable_reflects:
  assumes "(\<lambda>w w'. storage_step pub storage ext P ds w w' \<or> maintenance_step pub storage ds w w')\<^sup>*\<^sup>* w0 w" and "empty_tables ds w0"
  shows "reflecting.holds ext ds w"
  using assms(1)
  by (induction rule: rtranclp_induct)
    (auto intro: empty_holds assms(2) maintenance_reflects reflecting.storage_step_keeps)

lemma reachable_earlier:
  assumes "(\<lambda>w w'. storage_step pub storage ext (\<lambda>p. p \<le> t) ds w w' \<or> maintenance_step pub storage ds w w')\<^sup>*\<^sup>* w0 w"
    and "empty_tables ds w0"
  shows "reflecting.holds ext ds w \<and> earlier.holds ext t ds w"
  using assms(1)
  by (induction rule: rtranclp_induct)
    (auto intro: empty_holds assms(2) maintenance_reflects maintenance_earlier reflecting.storage_step_keeps
      earlier.storage_step_keeps)

text \<open>C8: The history and the table of current versions never disagree: after any sequence of
  creates, updates, patches, bulk writes and deletes (with any times), prunes, truncations and
  garbage collections, successful or not, the newest versions of the history are exactly the
  current data points, each once.\<close>

theorem history_shows_current_versions:
  assumes "empty_tables ds w0"
    and "(\<lambda>w w'. storage_step pub storage ext (\<lambda>_. True) ds w w' \<or> maintenance_step pub storage ds w w')\<^sup>*\<^sup>* w0 w"
  shows "shown ` set (flat_history_rows None None (sw_hist w (hist_table ds))) =
      shown ` set (materialized_rows None (sw_mat w (mat_table ds))) \<and>
    distinct (map dr_id (flat_history_rows None None (sw_hist w (hist_table ds)))) \<and>
    distinct (map dr_id (materialized_rows None (sw_mat w (mat_table ds))))"
proof -
  have h: "reflecting.holds ext ds w" by (rule reachable_reflects [OF assms(2,1)])
  then have r: "reflects (sw_mat w (mat_table ds), sw_hist w (hist_table ds))"
    and d: "distinct (map mr_id (sw_mat w (mat_table ds)))"
    by (simp_all add: reflecting.holds_def tables_def rows_ok_def)
  have "distinct (map dr_id (materialized_rows None (sw_mat w (mat_table ds))))"
    using d by (auto simp: materialized_rows_def display_mat_def comp_def distinct_map_filter)
  then show ?thesis using flat_history_shows_current [OF r d] by blast
qed

text \<open>C11: Time travel: whatever is written after the time \<open>t\<close>, the history read at \<open>t\<close> shows the data
  points that the table of current versions held then, each once, with their values of that time.\<close>

theorem time_travel_shows_the_past:
  assumes "empty_tables ds w0"
    and "(\<lambda>w w'. storage_step pub storage ext (\<lambda>p. p \<le> t) ds w w' \<or> maintenance_step pub storage ds w w')\<^sup>*\<^sup>* w0 w1"
    and "(storage_step pub storage ext (\<lambda>p. t < p) ds)\<^sup>*\<^sup>* w1 w2"
  shows "\<exists>past now. data_series_rows ds (Some t) None w2 = Inr past \<and> data_series_rows ds None None w1 = Inr now \<and>
    shown ` set past = shown ` set now \<and> distinct (map dr_id past)"
proof -
  have flat: "is_flat ds" using assms(1) by (simp add: empty_tables_def)
  have h: "reflecting.holds ext ds w1" "earlier.holds ext t ds w1" using reachable_earlier [OF assms(2,1)] by auto
  then have "later.holds ext (sw_hist w1 (hist_table ds)) t ds w1"
    by (simp add: later.holds_def reflecting.holds_def tables_def)
  then have "later.holds ext (sw_hist w1 (hist_table ds)) t ds w2"
    by (auto intro: later.storage_steps_keep [OF assms(3)])
  then obtain new where new: "sw_hist w2 (hist_table ds) = sw_hist w1 (hist_table ds) @ new"
      "\<forall>h \<in> set new. t < hr_point_in_time h" by (auto simp: later.holds_def tables_def)
  have old: "\<forall>h \<in> set (sw_hist w1 (hist_table ds)). hr_point_in_time h \<le> t"
    using h(2) by (simp add: earlier.holds_def tables_def)
  have r: "reflects (sw_mat w1 (mat_table ds), sw_hist w1 (hist_table ds))"
    and d: "distinct (map mr_id (sw_mat w1 (mat_table ds)))"
    using h(1) by (simp_all add: reflecting.holds_def tables_def rows_ok_def)
  show ?thesis
    using flat_history_shows_current [OF r d] flat_history_ignores_later [OF old new(2)] flat new(1)
    by (simp add: data_series_rows_def can_use_materialized_table_def)
qed

section \<open>Samples\<close>

definition demo_publisher :: "unit publisher" where
  "demo_publisher =
     (\<lparr>out_elapsed = (\<lambda>s. (1, s)), out_agent = (\<lambda>s. (''agent'', s)),
       out_post = (\<lambda>s rq. (Inl ''unreachable'', 5, s)),
       out_http_error = (\<lambda>_. ''error''), out_isoformat = (\<lambda>_. ''time'')\<rparr>, \<lambda>cs. cs)"

definition demo_storage :: file_storage where
  "demo_storage = (\<lambda>_ _. Inr ())"

definition demo_series :: DataSeries where
  "demo_series =
     \<lparr>ds_id = ''s'', ds_external_id = ''e'', ds_backend = DYNAMIC_SQL_MATERIALIZED_FLAT_HISTORY, ds_tenant_id = ''t'',
      ds_keys = (\<lambda>kind. if kind = string_facts then [(''name'', ''f1'')]
                        else if kind = file_facts then [(''doc'', ''f2'')] else [])\<rparr>"

definition demo_start :: "unit storage_world" where
  "demo_start =
     \<lparr>sw_registry = \<lparr>fr_next_id = 1, fr_lookups = [], fr_storage = []\<rparr>, sw_mat = (\<lambda>_. []), sw_hist = (\<lambda>_. []),
      sw_events = \<lparr>ew_outside = (), ew_now = 0, ew_next_id = 1, ew_events = [], ew_consumers = [], ew_links = [],
        ew_posts = [], ew_tasks = []\<rparr>\<rparr>"

definition demo_stamp :: "int \<Rightarrow> stamp" where
  "demo_stamp n = \<lparr>st_point_in_time = 10 * n, st_sub_clock = n, st_user_id = ''u'', st_record_source = ''REST API''\<rparr>"

definition demo_point :: "pydict \<Rightarrow> ValidatedData" where
  "demo_point payload = \<lparr>vd_id = ''i'', vd_external_id = ''x'', vd_payload = payload\<rparr>"

definition demo_create :: "pydict \<Rightarrow> int \<Rightarrow> unit storage_world \<Rightarrow> unit storage_world" where
  "demo_create payload n w =
     snd (impl_create demo_publisher demo_storage demo_series (demo_stamp n) (demo_point payload) w)"

definition demo_update :: "bool \<Rightarrow> pydict \<Rightarrow> int \<Rightarrow> unit storage_world \<Rightarrow> unit storage_world" where
  "demo_update patch payload n w =
     snd (impl_update demo_publisher demo_storage patch demo_series (demo_stamp n) (demo_point payload) w)"

abbreviation demo_step :: "(int \<Rightarrow> bool) \<Rightarrow> unit storage_world \<Rightarrow> unit storage_world \<Rightarrow> bool" where
  "demo_step P \<equiv> storage_step demo_publisher demo_storage (\<lambda>_. ''x'') P demo_series"

lemma demo_steps:
  "P (10 * n) \<Longrightarrow> demo_step P w (demo_create payload n w)"
  "P (10 * n) \<Longrightarrow> demo_step P w (demo_update patch payload n w)"
proof -
  show "demo_step P w (demo_create payload n w)" if "P (10 * n)"
    using that unfolding demo_create_def
    by (intro storage_step.create [OF surjective_pairing]) (auto simp: demo_point_def demo_stamp_def)
  show "demo_step P w (demo_update patch payload n w)" if "P (10 * n)"
    using that unfolding demo_update_def
    by (intro storage_step.update [OF surjective_pairing]) (auto simp: demo_point_def demo_stamp_def)
qed

lemma demo_empty: "empty_tables demo_series demo_start"
  by (simp add: empty_tables_def demo_series_def demo_start_def)

definition demo_first :: "unit storage_world" where
  "demo_first = demo_create [(''name'', PStr ''old'')] 1 demo_start"

definition demo_second :: "unit storage_world" where
  "demo_second = demo_update False [(''name'', PStr ''new'')] 2 demo_first"

definition demo_names :: "int option \<Rightarrow> unit storage_world \<Rightarrow> (string \<times> sql_value) list" where
  "demo_names t w =
     (case data_series_rows demo_series t None w of
        Inl _ \<Rightarrow> [] | Inr rows \<Rightarrow> map (\<lambda>d. (dr_external_id d, dr_columns d ''f1_name'')) rows)"

lemma demo_reads:
  "demo_names (Some 10) demo_second = [(''x'', Sql (PStr ''old''))]"
  "demo_names None demo_second = [(''x'', Sql (PStr ''new''))]"
  by code_simp+

theorem history_shows_current_versions_witness:
  "(let w = demo_second in
    shown ` set (flat_history_rows None None (sw_hist w (hist_table demo_series))) =
      shown ` set (materialized_rows None (sw_mat w (mat_table demo_series)))) \<and>
    demo_names None demo_second = [(''x'', Sql (PStr ''new''))]"
proof -
  let ?R = "\<lambda>w w'. demo_step (\<lambda>_. True) w w' \<or> maintenance_step demo_publisher demo_storage demo_series w w'"
  have "?R demo_start demo_first" unfolding demo_first_def by (intro disjI1 demo_steps) simp
  moreover have "?R demo_first demo_second" unfolding demo_second_def by (intro disjI1 demo_steps) simp
  ultimately have "?R\<^sup>*\<^sup>* demo_start demo_second" by (rule converse_rtranclp_into_rtranclp [OF _ r_into_rtranclp])
  from history_shows_current_versions [OF demo_empty this] show ?thesis
    using demo_reads by (simp add: Let_def)
qed

theorem time_travel_shows_the_past_witness:
  "(\<exists>past now. data_series_rows demo_series (Some 10) None demo_second = Inr past \<and>
      data_series_rows demo_series None None demo_first = Inr now \<and> shown ` set past = shown ` set now) \<and>
    demo_names (Some 10) demo_second = [(''x'', Sql (PStr ''old''))]"
proof -
  have first: "(\<lambda>w w'. demo_step (\<lambda>p. p \<le> 10) w w' \<or> maintenance_step demo_publisher demo_storage demo_series w w')\<^sup>*\<^sup>* demo_start demo_first"
    unfolding demo_first_def by (intro r_into_rtranclp) (auto intro: demo_steps)
  have second: "(demo_step (\<lambda>p. 10 < p))\<^sup>*\<^sup>* demo_first demo_second"
    unfolding demo_second_def by (intro r_into_rtranclp) (auto intro: demo_steps)
  from time_travel_shows_the_past [OF demo_empty first second] show ?thesis using demo_reads by blast
qed

end
