(* ===== verification/Server_Storage_Files.thy ===== *)
theory Server_Storage_Files
  imports Server_Storage_Correct
begin

text \<open>
  The files of data points: as long as a data point or a version of it names a file, its row in the
  registry stays and the garbage collection leaves the file in the storage. This holds for the data
  series with a flat history, for every write that sets all columns and for the patches that send the
  files of their data point again; a patch that leaves a file out breaks it (\<open>patch_loses_file\<close>).
\<close>

section \<open>What the storage holds\<close>

definition stored :: "storage_call list \<Rightarrow> string \<Rightarrow> bool" where
  "stored log name \<longleftrightarrow> find (\<lambda>c. c = SaveFile name \<or> c = DeleteFile name) (rev log) = Some (SaveFile name)"

lemma stored_save: "stored (log @ [SaveFile name]) n \<longleftrightarrow> n = name \<or> stored log n"
  by (auto simp: stored_def)

lemma stored_saves: "set cs \<subseteq> range SaveFile \<Longrightarrow> stored log n \<Longrightarrow> stored (log @ cs) n"
proof (induction cs rule: rev_induct)
  case (snoc c cs)
  then obtain name where "c = SaveFile name" by auto
  with snoc show ?case by (simp add: stored_save flip: append_assoc)
qed simp

lemma stored_deletes: "set cs \<subseteq> DeleteFile ` (- {n}) \<Longrightarrow> stored log n \<Longrightarrow> stored (log @ cs) n"
proof (induction cs rule: rev_induct)
  case (snoc c cs)
  then show ?case by (auto simp: stored_def)
qed simp

text \<open>Every row in use names a stored file.\<close>

definition files_stored :: "file_registry \<Rightarrow> bool" where
  "files_stored reg \<longleftrightarrow>
     (\<forall>l \<in> set (fr_lookups reg). fl_deleted_at l = None \<longrightarrow> stored (fr_storage reg) (fl_file_name l))"

lemma call_storage_emits [emits_intros]: "c \<in> A \<Longrightarrow> emits fr_storage A (call_storage storage c)"
  by (auto simp: emits_def call_storage_def split: sum.splits)

lemma insert_lookup_emits [emits_intros]: "emits fr_storage A (insert_lookup l)"
  by (auto simp: emits_def insert_lookup_def)

lemma save_emits [emits_intros]: "SaveFile file \<in> A \<Longrightarrow> emits fr_storage A (save storage tenant ds fact_id ident file)"
  unfolding save_def register_def by (intro emits_intros)

lemma save_files_stored:
  "achieves files_stored (save storage tenant ds fact_id ident file) (\<lambda>_. files_stored)"
  by (rule achievesI)
    (auto simp: save_def register_def insert_lookup_def call_storage_def api_bind_def new_lookup_def files_stored_def stored_save
      split: if_splits sum.splits)

lemma marked_rows_stored:
  "files_stored reg \<Longrightarrow>
    files_stored (reg\<lparr>fr_lookups := map (\<lambda>l. if c l then l\<lparr>fl_deleted_at := Some t\<rparr> else l) (fr_lookups reg)\<rparr>)"
  by (auto simp: files_stored_def)

lemma mark_deleted_stored: "files_stored reg \<Longrightarrow> files_stored (mark_deleted now p reg)"
  unfolding mark_deleted_def by (rule marked_rows_stored)

lemma delete_all_but_latest_stored:
  "files_stored reg \<Longrightarrow> files_stored (delete_all_but_latest_for_datapoints tenant ds ids t reg)"
  unfolding delete_all_but_latest_for_datapoints_def Let_def by (rule marked_rows_stored)

lemma garbage_collect_emits:
  "emits fr_storage (DeleteFile ` set (garbage_files older_than reg))
     (api_for (\<lambda>file_name. call_storage storage (DeleteFile file_name)) (set_iter ord (garbage_files older_than reg)))"
  by (intro emits_intros) (auto simp: set_iter_facts)

lemma api_for_storage_lookups:
  "api_for (\<lambda>file_name. call_storage storage (DeleteFile file_name)) names r = (res, r') \<Longrightarrow> fr_lookups r' = fr_lookups r"
proof (induction names arbitrary: r)
  case (Cons name names)
  obtain res1 r1 where c: "call_storage storage (DeleteFile name) r = (res1, r1)" by fastforce
  then have "fr_lookups r1 = fr_lookups r" by (auto simp: call_storage_def split: sum.splits)
  then show ?case using Cons.prems Cons.IH [of r1] c by (cases res1) (simp_all add: api_bind_def)
qed (simp add: api_return_def)

lemma garbage_collect_stored:
  assumes run: "garbage_collect ord storage older_than reg = (res, reg')" and I: "files_stored reg"
  shows "files_stored reg'" and "fr_lookups reg' = filter (\<lambda>l. \<not> older_deleted older_than l) (fr_lookups reg)"
proof -
  let ?r1 = "reg\<lparr>fr_lookups := filter (\<lambda>l. \<not> older_deleted older_than l) (fr_lookups reg)\<rparr>"
  show rows: "fr_lookups reg' = filter (\<lambda>l. \<not> older_deleted older_than l) (fr_lookups reg)"
    using run by (auto simp: garbage_collect_def dest!: api_for_storage_lookups)
  obtain cs where cs: "fr_storage reg' = fr_storage ?r1 @ cs" "set cs \<subseteq> DeleteFile ` set (garbage_files older_than reg)"
    using emitsD [OF garbage_collect_emits run [unfolded garbage_collect_def]] by blast
  have "stored (fr_storage reg') (fl_file_name l)"
    if l: "l \<in> set (fr_lookups reg')" "fl_deleted_at l = None" for l
  proof -
    have "fl_file_name l \<notin> set (garbage_files older_than reg)"
      using l by (auto simp: rows garbage_files_def Let_def file_exists_def)
    then have "set cs \<subseteq> DeleteFile ` (- {fl_file_name l})" using cs(2) by auto
    then show ?thesis
      using I l by (auto simp: cs(1) rows files_stored_def intro: stored_deletes)
  qed
  then show "files_stored reg'" by (auto simp: files_stored_def)
qed

section \<open>What the tables name, the registry holds\<close>

type_synonym data_key = "child_kind \<times> string \<times> string"

definition names_file :: "DataSeries \<Rightarrow> (string \<Rightarrow> sql_value) \<Rightarrow> data_key \<Rightarrow> string \<Rightarrow> bool" where
  "names_file ds columns k name \<longleftrightarrow>
     k \<in> set (data_keys (ds_keys ds)) \<and> fst k \<in> {image_facts, file_facts} \<and> columns (key_column k) = Sql (PStr name)"

definition in_registry :: "DataSeries \<Rightarrow> data_key \<Rightarrow> string \<Rightarrow> int \<times> int \<Rightarrow> string \<Rightarrow> file_registry \<Rightarrow> bool" where
  "in_registry ds k data_point_id v name reg \<longleftrightarrow>
     (\<exists>l \<in> set (fr_lookups reg). fl_deleted_at l = None \<and> fl_file_name l = name \<and> fl_tenant_id l = ds_tenant_id ds \<and>
        fl_data_series_id l = ds_id ds \<and> fl_fact_id l = snd (snd k) \<and> fl_data_point_id l = data_point_id \<and>
        fl_version l = v)"

definition versions_registered :: "DataSeries \<Rightarrow> hist_row list \<Rightarrow> file_registry \<Rightarrow> bool" where
  "versions_registered ds hist reg \<longleftrightarrow>
     (\<forall>h \<in> set hist. \<not> hr_deleted h \<longrightarrow> (\<forall>k name. names_file ds (hr_columns h) k name \<longrightarrow>
        in_registry ds k (hr_id h) (hr_version h) name reg))"

definition files_ok :: "DataSeries \<Rightarrow> 's storage_world \<Rightarrow> bool" where
  "files_ok ds w \<longleftrightarrow> files_stored (sw_registry w) \<and> versions_registered ds (sw_hist w (hist_table ds)) (sw_registry w)"

text \<open>The values of a data point whose files are registered.\<close>

definition values_registered :: "DataSeries \<Rightarrow> stamp \<Rightarrow> ValidatedData \<times> (string \<times> sql_value) list \<Rightarrow> file_registry \<Rightarrow> bool" where
  "values_registered ds st data reg \<longleftrightarrow>
     (\<forall>k name. names_file ds (columns_of (snd data)) k name \<longrightarrow> in_registry ds k (vd_id (fst data)) (version st) name reg)"

definition distinct_columns :: "DataSeries \<Rightarrow> bool" where
  "distinct_columns ds \<longleftrightarrow> distinct (map key_column (data_keys (ds_keys ds)))"

lemma in_registry_grows:
  "set (fr_lookups reg) \<subseteq> set (fr_lookups reg') \<Longrightarrow> in_registry ds k i v name reg \<Longrightarrow> in_registry ds k i v name reg'"
  by (auto simp: in_registry_def)

lemma save_grows:
  "achieves (\<lambda>reg. ls \<subseteq> set (fr_lookups reg)) (save storage tenant ds fact_id ident file) (\<lambda>_ reg. ls \<subseteq> set (fr_lookups reg))"
  by (rule achievesI)
    (auto simp: save_def register_def insert_lookup_def call_storage_def api_bind_def split: if_splits sum.splits)

lemma column_value_grows:
  "achieves (\<lambda>reg. ls \<subseteq> set (fr_lookups reg)) (column_value storage ds st vd k) (\<lambda>_ reg. ls \<subseteq> set (fr_lookups reg))"
  unfolding column_value_def file_value_def
  by (auto intro!: achieves_return achieves_raise achieves_bind [OF achieves_when [OF save_grows]]
      split: prod.splits option.splits pyval.splits)

lemma save_registers:
  assumes "snd (snd k) = uuid"
  shows "achieves files_stored
    (save storage (ds_tenant_id ds) (ds_id ds) uuid \<lparr>hi_data_point_id = i, hi_point_in_time = t, hi_sub_clock = s\<rparr> file)
    (\<lambda>_ reg. files_stored reg \<and> in_registry ds k i (t, s) file reg)"
proof (rule achievesI)
  fix reg x reg'
  assume I: "files_stored reg"
    and run: "save storage (ds_tenant_id ds) (ds_id ds) uuid
      \<lparr>hi_data_point_id = i, hi_point_in_time = t, hi_sub_clock = s\<rparr> file reg = (Inr x, reg')"
  then have "in_registry ds k i (t, s) file reg'" using assms
    by (auto simp: save_def register_def insert_lookup_def call_storage_def api_bind_def new_lookup_def in_registry_def
        fl_version_def split: if_splits sum.splits)
  then show "files_stored reg' \<and> in_registry ds k i (t, s) file reg'"
    using achievesD [OF save_files_stored run I] by simp
qed

lemma column_value_registers:
  assumes "is_flat ds"
  shows "achieves files_stored (column_value storage ds st vd k)
    (\<lambda>v reg. files_stored reg \<and> (fst k \<in> {image_facts, file_facts} \<longrightarrow> (\<forall>name. v = Sql (PStr name) \<longrightarrow>
       in_registry ds k (vd_id vd) (version st) name reg)))"
proof -
  obtain kind external_id uuid where k: "k = (kind, external_id, uuid)" by (cases k)
  show ?thesis
  proof (cases "map_of (vd_payload vd) external_id")
    case None
    then show ?thesis by (auto simp: k column_value_def intro: achieves_return)
  next
    case (Some v)
    show ?thesis
    proof (cases "kind \<in> {image_facts, file_facts}")
      case False
      then show ?thesis by (auto simp: k column_value_def Some intro: achieves_return)
    next
      case True
      have "achieves files_stored (file_value storage ds st vd uuid v)
        (\<lambda>v reg. files_stored reg \<and> (\<forall>name. v = Sql (PStr name) \<longrightarrow> in_registry ds k (vd_id vd) (version st) name reg))"
      proof (cases v)
        case (PFile file_name)
        show ?thesis
          unfolding PFile file_value_def pyval.case version_def
          by (intro achieves_bind [OF achieves_when [OF save_registers [where k = k]]] achieves_return)
            (auto simp: k assms)
      qed (auto simp: file_value_def intro: achieves_return achieves_raise)
      with True Some show ?thesis by (simp add: k column_value_def)
    qed
  qed
qed

lemma row_values_registers:
  assumes flat: "is_flat ds" and cols: "distinct_columns ds"
  shows "achieves files_stored (row_values storage ds st vd)
    (\<lambda>vals reg. files_stored reg \<and> values_registered ds st (vd, vals) reg)"
proof -
  let ?R = "\<lambda>k (c, v) reg. c = key_column k \<and> (fst k \<in> {image_facts, file_facts} \<longrightarrow> (\<forall>name. v = Sql (PStr name) \<longrightarrow>
       in_registry ds k (vd_id vd) (version st) name reg))"
  let ?f = "\<lambda>k. api_bind (column_value storage ds st vd k) (\<lambda>v. api_return (key_column k, v))"
  have "achieves files_stored (row_values storage ds st vd)
      (\<lambda>vals reg. files_stored reg \<and> list_all2 (\<lambda>k cv. ?R k cv reg) (data_keys (ds_keys ds)) vals)"
    unfolding row_values_def
  proof (rule achieves_map_collect)
    fix k
    show "achieves files_stored (?f k) (\<lambda>cv reg. files_stored reg \<and> ?R k cv reg)"
      by (rule achieves_bind [OF column_value_registers [OF flat]]) (auto intro: achieves_return)
    fix k' cv
    have keep: "achieves (\<lambda>reg. ls \<subseteq> set (fr_lookups reg)) (?f k) (\<lambda>_ reg. ls \<subseteq> set (fr_lookups reg))" for ls
      by (rule achieves_bind [OF column_value_grows]) (auto intro: achieves_return)
    have grows: "set (fr_lookups w) \<subseteq> set (fr_lookups w')" if "?f k w = (Inr x, w')" for w x w'
      using keep [of "set (fr_lookups w)"] that unfolding achieves_def by blast
    show "achieves (?R k' cv) (?f k) (\<lambda>_. ?R k' cv)"
    proof (rule achievesI)
      fix w x w'
      assume "?R k' cv w" and "?f k w = (Inr x, w')"
      then show "?R k' cv w'" using in_registry_grows [OF grows] by (cases cv) auto
    qed
  qed
  then show ?thesis
  proof (rule achieves_weaken)
    fix vals reg
    assume a: "files_stored reg \<and> list_all2 (\<lambda>k cv. ?R k cv reg) (data_keys (ds_keys ds)) vals"
    have "in_registry ds k (vd_id vd) (version st) name reg" if "names_file ds (columns_of vals) k name" for k name
    proof -
      have k: "k \<in> set (data_keys (ds_keys ds))" "fst k \<in> {image_facts, file_facts}"
        "columns_of vals (key_column k) = Sql (PStr name)" using that by (auto simp: names_file_def)
      then have "(key_column k, Sql (PStr name)) \<in> set vals"
        by (auto simp: columns_of_def dest: map_of_SomeD split: option.splits)
      then obtain j where j: "j < length vals" "vals ! j = (key_column k, Sql (PStr name))" by (auto simp: in_set_conv_nth)
      then have R: "?R (data_keys (ds_keys ds) ! j) (vals ! j) reg" and len: "j < length (data_keys (ds_keys ds))"
        using a by (auto simp: list_all2_conv_all_nth)
      then have "data_keys (ds_keys ds) ! j = k"
        using cols k(1) j(2) by (auto simp: distinct_columns_def distinct_map inj_on_def)
      with R j(2) k(2) show ?thesis by auto
    qed
    with a show "files_stored reg \<and> values_registered ds st (vd, vals) reg" by (simp add: values_registered_def)
  qed simp
qed

section \<open>Every full write keeps the files\<close>

lemma on_registry_achieves:
  "(\<And>mat hist. achieves (P mat hist) m (\<lambda>x. Q x mat hist)) \<Longrightarrow>
    achieves (\<lambda>w. P (sw_mat w) (sw_hist w) (sw_registry w)) (on_registry m) (\<lambda>x w. Q x (sw_mat w) (sw_hist w) (sw_registry w))"
  unfolding achieves_def on_registry_def by (auto split: prod.splits)

lemma versions_registered_grows:
  "set (fr_lookups reg) \<subseteq> set (fr_lookups reg') \<Longrightarrow> versions_registered ds hist reg \<Longrightarrow> versions_registered ds hist reg'"
  unfolding versions_registered_def by (blast intro: in_registry_grows)

lemma versions_registeredD:
  "versions_registered ds hist reg \<Longrightarrow> h \<in> set hist \<Longrightarrow> \<not> hr_deleted h \<Longrightarrow> names_file ds (hr_columns h) k name \<Longrightarrow>
    in_registry ds k (hr_id h) (hr_version h) name reg"
  unfolding versions_registered_def by blast

lemma row_values_grows:
  "achieves (\<lambda>reg. ls \<subseteq> set (fr_lookups reg)) (row_values storage ds st vd) (\<lambda>_ reg. ls \<subseteq> set (fr_lookups reg))"
  unfolding row_values_def
proof (rule achieves_weaken [OF achieves_map_collect [where R = "\<lambda>_ _ _. True"]])
  show "achieves (\<lambda>reg. ls \<subseteq> set (fr_lookups reg))
      (api_bind (column_value storage ds st vd k) (\<lambda>v. api_return (key_column k, v)))
      (\<lambda>y reg. ls \<subseteq> set (fr_lookups reg) \<and> True)" for k
    by (rule achieves_bind [OF column_value_grows]) (auto intro: achieves_return)
qed (auto simp: achieves_constant)

text \<open>All values of a batch are registered before the first row is written.\<close>

lemma all_values_register:
  assumes "is_flat ds" and "distinct_columns ds"
  shows "achieves (files_ok ds) (on_registry (api_map (row_values storage ds st) vds))
    (\<lambda>all_values w. files_ok ds w \<and>
      (\<forall>data \<in> set (zip vds all_values). values_registered ds st data (sw_registry w)))"
proof -
  have grows: "achieves (\<lambda>reg. ls \<subseteq> set (fr_lookups reg)) (row_values storage ds st vd) (\<lambda>_ reg. ls \<subseteq> set (fr_lookups reg))" for ls vd
    by (rule row_values_grows)
  have map_grows: "achieves (versions_registered ds hist) (row_values storage ds st vd) (\<lambda>_. versions_registered ds hist)" for hist vd
  proof (rule achievesI)
    fix w x w'
    assume "versions_registered ds hist w" and run: "row_values storage ds st vd w = (Inr x, w')"
    then show "versions_registered ds hist w'"
      using grows [of "set (fr_lookups w)" vd] unfolding achieves_def by (blast intro: versions_registered_grows)
  qed
  have keep: "achieves (values_registered ds st d) (row_values storage ds st vd) (\<lambda>_. values_registered ds st d)" for d vd
  proof (rule achievesI)
    fix w x w'
    assume "values_registered ds st d w" and "row_values storage ds st vd w = (Inr x, w')"
    moreover from this have "set (fr_lookups w) \<subseteq> set (fr_lookups w')"
      using grows [of "set (fr_lookups w)" vd] unfolding achieves_def by blast
    ultimately show "values_registered ds st d w'" unfolding values_registered_def by (blast intro: in_registry_grows)
  qed
  have "achieves (\<lambda>reg. files_stored reg \<and> versions_registered ds hist reg) (api_map (row_values storage ds st) vds)
      (\<lambda>ys reg. (files_stored reg \<and> versions_registered ds hist reg) \<and>
        list_all2 (\<lambda>vd vals. values_registered ds st (vd, vals) reg) vds ys)" for hist
  proof (rule achieves_map_collect)
    show "achieves (\<lambda>reg. files_stored reg \<and> versions_registered ds hist reg) (row_values storage ds st vd)
      (\<lambda>y reg. (files_stored reg \<and> versions_registered ds hist reg) \<and> values_registered ds st (vd, y) reg)" for vd
      by (rule achieves_weaken [OF achieves_conj [OF row_values_registers [OF assms] map_grows]]) auto
  qed (rule keep)
  then have "achieves (\<lambda>w. files_stored (sw_registry w) \<and> versions_registered ds (sw_hist w (hist_table ds)) (sw_registry w))
     (on_registry (api_map (row_values storage ds st) vds))
     (\<lambda>ys w. (files_stored (sw_registry w) \<and> versions_registered ds (sw_hist w (hist_table ds)) (sw_registry w)) \<and>
        list_all2 (\<lambda>vd vals. values_registered ds st (vd, vals) (sw_registry w)) vds ys)"
    by (rule on_registry_achieves [where P = "\<lambda>mat hist reg. files_stored reg \<and> versions_registered ds (hist (hist_table ds)) reg"
      and Q = "\<lambda>ys mat hist reg. (files_stored reg \<and> versions_registered ds (hist (hist_table ds)) reg) \<and>
        list_all2 (\<lambda>vd vals. values_registered ds st (vd, vals) reg) vds ys"])
  then show ?thesis
    unfolding files_ok_def [abs_def] by (rule achieves_weaken) (auto simp: list_all2_iff)
qed

text \<open>
  A patch keeps the files of its data point if its payload has every fact that has a file now: a column
  that it does not set keeps its value, but the file is not registered for the new version.
\<close>

definition patch_keeps_files :: "DataSeries \<Rightarrow> ValidatedData \<Rightarrow> mat_row list \<Rightarrow> bool" where
  "patch_keeps_files ds vd rows \<longleftrightarrow>
     (\<forall>r \<in> set rows. mr_id r = vd_id vd \<longrightarrow> (\<forall>k name. names_file ds (mr_columns r) k name \<longrightarrow>
        fst (snd k) \<in> fst ` set (vd_payload vd)))"

lemma set_columns_member:
  assumes "k \<in> set (data_keys (ds_keys ds))" and "\<not> partial \<or> fst (snd k) \<in> fst ` set (vd_payload vd)"
  shows "key_column k \<in> set (set_columns partial ds vd)"
  using assms by (force simp: set_columns_def)

lemma written_files:
  assumes "central_insert (set_columns partial ds vd) st (values_to_insert st vd vals) rows = (Some r, rows')"
    and "partial \<Longrightarrow> patch_keeps_files ds vd rows"
    and "names_file ds (hr_columns (history_of_insert (set_columns partial ds vd) st (values_to_insert st vd vals) r)) k name"
  shows "names_file ds (columns_of vals) k name"
proof (cases "key_column k \<in> set (set_columns partial ds vd)")
  case True
  then show ?thesis using assms(3)
    by (auto simp: names_file_def history_of_insert_def insert_to_flat_history_query_def values_to_insert_def)
next
  case False
  with assms(3) have r: "names_file ds (mr_columns r) k name"
    by (auto simp: names_file_def history_of_insert_def insert_to_flat_history_query_def)
  show ?thesis
  proof (cases "find (\<lambda>r. mr_id r = vd_id vd) rows")
    case None
    then show ?thesis using assms(1) r by (auto simp: central_insert_def values_to_insert_def)
  next
    case (Some target)
    then have t: "target \<in> set rows" "mr_id target = vd_id vd" by (auto dest: find_SomeD)
    have "names_file ds (mr_columns target) k name"
      using Some assms(1) r False
      by (auto simp: central_insert_def values_to_insert_def upsert_row_def names_file_def Let_def split: if_splits)
    then have "\<not> partial \<or> fst (snd k) \<in> fst ` set (vd_payload vd)"
      using assms(2) t unfolding patch_keeps_files_def by blast
    then show ?thesis using False r by (auto simp: names_file_def dest: set_columns_member)
  qed
qed

lemma write_row_files:
  assumes "is_flat ds" and reg: "values_registered ds st data (sw_registry w)" and I: "files_ok ds w"
    and keeps: "partial \<Longrightarrow> patch_keeps_files ds (fst data) (sw_mat w (mat_table ds))"
    and run: "write_row partial ds st data w = (Inr u, w')"
  shows "files_ok ds w' \<and> sw_registry w' = sw_registry w"
proof -
  let ?cols = "set_columns partial ds (fst data)" and ?row = "values_to_insert st (fst data) (snd data)"
  obtain inserted rows where c: "central_insert ?cols st ?row (sw_mat w (mat_table ds)) = (inserted, rows)" by fastforce
  have same: "sw_registry w' = sw_registry w"
    using run c by (auto simp: write_row_def Let_def split: if_splits sum.splits)
  have h: "insert_history (map_option (history_of_insert ?cols st ?row) inserted) (sw_hist w (hist_table ds)) =
      Inr (sw_hist w' (hist_table ds))"
    using run c assms(1) by (auto simp: write_row_def Let_def split: if_splits sum.splits)
  have "hr_id (history_of_insert ?cols st ?row r) = vd_id (fst data)"
    "hr_version (history_of_insert ?cols st ?row r) = version st" for r
    by (simp_all add: history_of_insert_def insert_to_flat_history_query_def values_to_insert_def hr_version_def version_def)
  note row = this
  have "versions_registered ds (sw_hist w' (hist_table ds)) (sw_registry w)"
  proof (cases inserted)
    case None
    then show ?thesis using h I by (simp add: insert_history_def files_ok_def)
  next
    case (Some r)
    then have new: "sw_hist w' (hist_table ds) = sw_hist w (hist_table ds) @ [history_of_insert ?cols st ?row r]"
      using h by (auto simp: insert_history_def split: if_splits)
    have "in_registry ds k (vd_id (fst data)) (version st) name (sw_registry w)"
      if "names_file ds (hr_columns (history_of_insert ?cols st ?row r)) k name" for k name
      using written_files [OF c [unfolded Some] keeps that] reg unfolding values_registered_def by blast
    then show ?thesis using I unfolding new versions_registered_def files_ok_def by (simp add: row ball_Un)
  qed
  then show ?thesis using I by (simp add: files_ok_def same)
qed

lemma publish_files: "achieves (files_ok ds) (publish pub ds st payload event_type) (\<lambda>_. files_ok ds)"
  by (rule achievesI) (auto simp: publish_def files_ok_def)

lemma create_files:
  assumes "is_flat ds" and "distinct_columns ds"
  shows "achieves (files_ok ds) (create_data_points pub storage False ds st vds) (\<lambda>_. files_ok ds)"
proof -
  have write1: "achieves (\<lambda>w. files_ok ds w \<and> (\<forall>data \<in> D. values_registered ds st data (sw_registry w)))
      (write_row False ds st data) (\<lambda>_ w. files_ok ds w \<and> (\<forall>data \<in> D. values_registered ds st data (sw_registry w)))"
    if "data \<in> D" for data D
  proof (rule achievesI)
    fix w x w'
    assume I: "files_ok ds w \<and> (\<forall>data \<in> D. values_registered ds st data (sw_registry w))"
      and run: "write_row False ds st data w = (Inr x, w')"
    then have "files_ok ds w' \<and> sw_registry w' = sw_registry w"
      using that by (intro write_row_files [OF assms(1) _ _ _ run]) auto
    with I show "files_ok ds w' \<and> (\<forall>data \<in> D. values_registered ds st data (sw_registry w'))" by simp
  qed
  have "achieves (files_ok ds) (insert_or_update_data_points_impl storage False False ds st vds) (\<lambda>_. files_ok ds)"
    unfolding insert_or_update_data_points_impl_def
  proof (rule achieves_bind [OF all_values_register [OF assms]])
    fix all_values :: "(string \<times> sql_value) list list"
    let ?D = "set (zip vds all_values)"
    let ?I = "\<lambda>w. files_ok ds w \<and> (\<forall>data \<in> ?D. values_registered ds st data (sw_registry w))"
    have "achieves ?I (api_for (write_row False ds st) (zip vds all_values)) (\<lambda>_. ?I)"
      by (rule achieves_for) (rule write1)
    then show "achieves ?I (api_bind (api_when (ds_backend ds = DYNAMIC_SQL_NO_HISTORY)
          (registry_update (delete_all_but_latest_for_datapoints (ds_tenant_id ds) (ds_id ds)
            (map vd_id vds) (st_point_in_time st))))
        (\<lambda>_. if False \<and> data_keys (ds_keys ds) \<noteq> [] then api_raise ProgrammingError
             else api_for (write_row False ds st) (zip vds all_values))) (\<lambda>_. files_ok ds)"
      using assms(1) by (auto simp: achieves_def api_bind_def api_when_def api_return_def)
  qed
  note impl = this
  show ?thesis
    unfolding create_data_points_def insert_or_update_data_points_def Let_def
    by (simp add: assms(1), rule achieves_bind [OF impl], rule achieves_bind [OF publish_files])
      (rule achieves_return)
qed

text \<open>A patch writes one row, into the table that it found.\<close>

lemma all_values_keep_rows:
  "achieves (\<lambda>w. R (sw_mat w)) (on_registry m) (\<lambda>_ w. R (sw_mat w))"
  by (rule achievesI) (auto simp: on_registry_def split: prod.splits)

lemma patch_files:
  assumes "is_flat ds" and "distinct_columns ds"
  shows "achieves (\<lambda>w. files_ok ds w \<and> patch_keeps_files ds vd (sw_mat w (mat_table ds)))
    (create_data_points pub storage True ds st [vd]) (\<lambda>_. files_ok ds)"
proof -
  let ?K = "\<lambda>w. patch_keeps_files ds vd (sw_mat w (mat_table ds))"
  have "achieves (\<lambda>w. files_ok ds w \<and> ?K w) (insert_or_update_data_points_impl storage True False ds st [vd]) (\<lambda>_. files_ok ds)"
    unfolding insert_or_update_data_points_impl_def
  proof (rule achieves_bind [OF achieves_conj [OF all_values_register [OF assms]
        all_values_keep_rows [where R = "\<lambda>mat. patch_keeps_files ds vd (mat (mat_table ds))"]]])
    fix all_values :: "(string \<times> sql_value) list list"
    let ?I = "\<lambda>w. (files_ok ds w \<and> (\<forall>data \<in> set (zip [vd] all_values). values_registered ds st data (sw_registry w))) \<and> ?K w"
    have "achieves ?I (api_for (write_row True ds st) (zip [vd] all_values)) (\<lambda>_. files_ok ds)"
    proof (cases all_values)
      case (Cons vals rest)
      have "achieves ?I (write_row True ds st (vd, vals)) (\<lambda>_. files_ok ds)"
        by (rule achievesI) (use write_row_files [OF assms(1)] in \<open>force simp: Cons\<close>)
      then show ?thesis by (auto simp: Cons intro!: achieves_bind achieves_return)
    qed (auto intro: achieves_return)
    then show "achieves ?I (api_bind (api_when (ds_backend ds = DYNAMIC_SQL_NO_HISTORY)
          (registry_update (delete_all_but_latest_for_datapoints (ds_tenant_id ds) (ds_id ds)
            (map vd_id [vd]) (st_point_in_time st))))
        (\<lambda>_. if False \<and> data_keys (ds_keys ds) \<noteq> [] then api_raise ProgrammingError
             else api_for (write_row True ds st) (zip [vd] all_values))) (\<lambda>_. files_ok ds)"
      using assms(1) by (auto simp: achieves_def api_bind_def api_when_def api_return_def)
  qed
  note impl = this
  show ?thesis
    unfolding create_data_points_def insert_or_update_data_points_def Let_def
    by (simp add: assms(1), rule achieves_bind [OF achieves_bind [OF impl achieves_return]], assumption,
        rule achieves_bind [OF publish_files]) (rule achieves_return)
qed

lemma persist_files:
  assumes "is_flat ds" and "distinct_columns ds"
  shows "achieves (files_ok ds) (persist_data_point_chunk pub storage n ds st vds) (\<lambda>_. files_ok ds)"
  unfolding persist_data_point_chunk_def Let_def
proof (rule achieves_for)
  fix chunk
  show "achieves (files_ok ds) (api_bind (api_lift chunk) (\<lambda>chunk_list.
      api_ignore (create_data_points pub storage False ds st chunk_list))) (\<lambda>_. files_ok ds)"
    by (cases chunk) (auto simp: achieves_def api_bind_def api_lift_def lift_bind intro!: achieves_ignore create_files [OF assms]
      elim!: achievesD [OF achieves_ignore [OF create_files [OF assms]]])
qed

lemma delete_files:
  assumes "is_flat ds"
  shows "achieves (files_ok ds) (destroy_object pub ds st i e) (\<lambda>_. files_ok ds)"
proof -
  have "achieves (files_ok ds) (delete_datapoint ds st i e) (\<lambda>_. files_ok ds)"
  proof (rule achievesI)
    fix w x w'
    assume I: "files_ok ds w" and run: "delete_datapoint ds st i e w = (Inr x, w')"
    obtain deleted rows where c: "central_update_query st i e (sw_mat w (mat_table ds)) = (deleted, rows)" by fastforce
    have same: "sw_registry w' = sw_registry w"
      using run c by (auto simp: delete_datapoint_def Let_def split: if_splits sum.splits)
    have h: "insert_history (map_option (history_of_delete st) deleted) (sw_hist w (hist_table ds)) =
        Inr (sw_hist w' (hist_table ds))"
      using run c assms by (auto simp: delete_datapoint_def Let_def split: if_splits sum.splits)
    have dead: "hr_deleted (history_of_delete st r)" for r
      by (simp add: history_of_delete_def insert_to_flat_history_query_def)
    have "sw_hist w' (hist_table ds) = sw_hist w (hist_table ds) @
        (case deleted of None \<Rightarrow> [] | Some r \<Rightarrow> [history_of_delete st r])"
      using h by (auto simp: insert_history_def split: if_splits option.splits)
    with I show "files_ok ds w'"
      by (auto simp: files_ok_def versions_registered_def same dead split: option.splits)
  qed
  then show ?thesis unfolding destroy_object_def
    by (intro achieves_bind [OF achieves_when publish_files]) auto
qed

section \<open>Maintenance\<close>

lemma matching_keeps:
  "(i, v) \<noteq> (hr_id h, hr_version h) \<Longrightarrow>
    achieves (\<lambda>w. in_registry ds k i v name (sw_registry w))
      (on_registry (delete_all_matching now tenant d fact_id
        [\<lparr>hi_data_point_id = hr_id h, hi_point_in_time = hr_point_in_time h, hi_sub_clock = hr_sub_clock h\<rparr>]))
      (\<lambda>_ w. in_registry ds k i v name (sw_registry w))"
  by (rule achievesI)
    (fastforce simp: on_registry_def delete_all_matching_def mark_deleted_def in_registry_def fl_version_def hr_version_def)

lemma matching_stored:
  "achieves (\<lambda>w. files_stored (sw_registry w)) (on_registry (delete_all_matching now tenant d fact_id idents))
     (\<lambda>_ w. files_stored (sw_registry w))"
  by (rule achievesI) (auto simp: on_registry_def delete_all_matching_def mark_deleted_stored split: if_splits)

lemma prune_files:
  assumes flat: "is_flat ds" and keys: "distinct (map hr_key (sw_hist w (hist_table ds)))" and I: "files_ok ds w"
    and run: "prune_history now older_than all_fact_ids ds w = (Inr u, w')"
  shows "files_ok ds w'"
proof -
  let ?hist = "sw_hist w (hist_table ds)" and ?p = "pruned_tables older_than (tables ds w)"
  let ?old = "prune_flat_history older_than (fst ?p)"
  let ?w = "w\<lparr>sw_mat := (sw_mat w)(mat_table ds := fst ?p), sw_hist := (sw_hist w)(hist_table ds := snd ?p)\<rparr>"
  note marks = prune_history_run [OF run flat]
  have hist: "sw_hist w' (hist_table ds) = filter (\<lambda>h. \<not> ?old h) ?hist"
    using prune_history_tables [OF run flat] by (simp add: tables_def pruned_tables_def Let_def)
  have "achieves (\<lambda>w. files_stored (sw_registry w))
      (mark_pruned_versions now (minio_fact_ids all_fact_ids) ds (filter ?old ?hist)) (\<lambda>_ w. files_stored (sw_registry w))"
    unfolding mark_pruned_versions_def by (intro achieves_for matching_stored)
  from achievesD [OF this marks] have "files_stored (sw_registry w')" using I by (simp add: files_ok_def)
  moreover have "in_registry ds k (hr_id h) (hr_version h) name (sw_registry w')"
    if h: "h \<in> set ?hist" "\<not> ?old h" "\<not> hr_deleted h" "names_file ds (hr_columns h) k name" for h k name
  proof -
    have other: "(hr_id h, hr_version h) \<noteq> (hr_id h2, hr_version h2)" if "h2 \<in> set (filter ?old ?hist)" for h2
      using that h keys by (auto simp: distinct_map recorded_key [symmetric] dest: inj_onD)
    have keeps: "achieves (\<lambda>w. in_registry ds k (hr_id h) (hr_version h) name (sw_registry w))
        (mark_pruned_versions now (minio_fact_ids all_fact_ids) ds (filter ?old ?hist))
        (\<lambda>_ w. in_registry ds k (hr_id h) (hr_version h) name (sw_registry w))"
      unfolding mark_pruned_versions_def by (intro achieves_for matching_keeps other)
    have start: "in_registry ds k (hr_id h) (hr_version h) name (sw_registry ?w)"
      using versions_registeredD [OF _ h(1,3,4)] I by (simp add: files_ok_def)
    show ?thesis by (rule achievesD [OF keeps marks start])
  qed
  ultimately show ?thesis unfolding files_ok_def versions_registered_def hist by auto
qed

lemma truncate_files:
  "truncate_data_series pub ds st w = (Inr u, w') \<Longrightarrow> is_flat ds \<Longrightarrow> files_ok ds w \<Longrightarrow> files_ok ds w'"
  by (auto simp: truncate_data_series_def publish_def files_ok_def versions_registered_def Let_def truncate_data_series_data_def
      mark_deleted_stored)

lemma collect_files:
  assumes "on_registry (garbage_collect ord storage older_than) w = (res, w')" and "files_ok ds w"
  shows "files_ok ds w'"
proof -
  obtain reg' where run: "garbage_collect ord storage older_than (sw_registry w) = (res, reg')"
    and w': "w' = w\<lparr>sw_registry := reg'\<rparr>"
    using assms(1) by (auto simp: on_registry_def split: prod.splits)
  have I: "files_stored (sw_registry w)" using assms(2) by (simp add: files_ok_def)
  note rows = garbage_collect_stored(2) [OF run I]
  have alive: "fl_deleted_at l = None \<Longrightarrow> \<not> older_deleted older_than l" for l by (simp add: older_deleted_def)
  have "in_registry ds k i v name (sw_registry w) \<Longrightarrow> in_registry ds k i v name reg'" for k i v name
    using alive unfolding in_registry_def rows set_filter by blast
  then show ?thesis
    using garbage_collect_stored(1) [OF run I] assms(2) unfolding files_ok_def versions_registered_def by (simp add: w')
qed

section \<open>Requests that fail\<close>

definition storage_log :: "'s storage_world \<Rightarrow> storage_call list" where
  "storage_log w = fr_storage (sw_registry w)"

lemma on_registry_emits [emits_intros]: "emits fr_storage A m \<Longrightarrow> emits storage_log A (on_registry m)"
  unfolding emits_def on_registry_def storage_log_def by (auto split: prod.splits)

lemma registry_update_emits:
  "(\<And>r. fr_storage (f r) = fr_storage r) \<Longrightarrow> emits storage_log A (registry_update f)"
  by (auto simp: registry_update_def on_registry_def emits_def storage_log_def)

lemma write_row_emits [emits_intros]: "emits storage_log A (write_row partial ds st data)"
  by (auto simp: emits_def storage_log_def write_row_def Let_def split: prod.splits sum.splits)

lemma delete_datapoint_emits [emits_intros]: "emits storage_log A (delete_datapoint ds st i e)"
  by (auto simp: emits_def storage_log_def delete_datapoint_def Let_def split: prod.splits sum.splits)

lemma publish_emits [emits_intros]: "emits storage_log A (publish pub ds st payload event_type)"
  by (auto simp: emits_def storage_log_def publish_def)

lemma row_values_emits [emits_intros]: "emits fr_storage (range SaveFile) (row_values storage ds st vd)"
  unfolding row_values_def column_value_def file_value_def
  by (intro emits_intros) (auto split: prod.splits option.splits pyval.splits intro!: emits_intros)

lemma impl_emits [emits_intros]:
  "emits storage_log (range SaveFile) (insert_or_update_data_points_impl storage partial repeated ds st vds)"
  unfolding insert_or_update_data_points_impl_def
  by (intro emits_intros registry_update_emits)
    (auto simp: delete_all_but_latest_for_datapoints_def Let_def intro!: emits_intros)

lemma create_emits: "emits storage_log (range SaveFile) (create_data_points pub storage partial ds st vds)"
proof -
  have patches: "emits storage_log (range SaveFile) (patch_data_points storage repeated ds st vds)" for repeated
    by (induction vds arbitrary: repeated) (auto intro!: emits_intros)
  show ?thesis
    unfolding create_data_points_def insert_or_update_data_points_def Let_def
    by (intro emits_intros patches)
qed

lemma persist_emits: "emits storage_log (range SaveFile) (persist_data_point_chunk pub storage n ds st vds)"
  unfolding persist_data_point_chunk_def Let_def by (intro emits_intros create_emits)

lemma prune_emits:
  "emits storage_log A (prune_deleted_data_points now older_than facts ds)"
  "emits storage_log A (prune_old_versions now older_than facts ds)"
proof -
  have mark: "fr_storage (delete_all_for_datapoint now t d f i r) = fr_storage r" for t d f i r
    by (simp add: delete_all_for_datapoint_def mark_deleted_def)
  have matching: "emits fr_storage A (delete_all_matching now t d f idents)" for t d f idents
    by (auto simp: emits_def delete_all_matching_def mark_deleted_def)
  have 1: "emits storage_log A (api_when b (mark_pruned_data_points now facts ds rows))" for b rows
    unfolding mark_pruned_data_points_def by (intro emits_intros registry_update_emits mark)
  have 2: "emits storage_log A (mark_pruned_versions now facts ds rows)" for rows
    unfolding mark_pruned_versions_def by (intro emits_intros matching)
  show "emits storage_log A (prune_deleted_data_points now older_than facts ds)"
    using 1 by (fastforce simp: emits_def prune_deleted_data_points_def Let_def storage_log_def)
  show "emits storage_log A (prune_old_versions now older_than facts ds)"
    using 2 by (fastforce simp: emits_def prune_old_versions_def Let_def storage_log_def)
qed

lemma destroy_emits: "emits storage_log (range SaveFile) (destroy_object pub ds st i e)"
  unfolding destroy_object_def by (intro emits_intros)

lemma atomic_error_files:
  assumes "atomic m w = (Inl e, w')" and "emits storage_log (range SaveFile) m" and "files_ok ds w"
  shows "files_ok ds w'"
proof -
  obtain w1 where m: "m w = (Inl e, w1)" and reg: "fr_lookups (sw_registry w') = fr_lookups (sw_registry w)"
      "fr_storage (sw_registry w') = fr_storage (sw_registry w1)" and hist: "sw_hist w' = sw_hist w"
    using assms(1) by (auto simp: atomic_def split: prod.splits sum.splits)
  obtain cs where "fr_storage (sw_registry w') = fr_storage (sw_registry w) @ cs" "set cs \<subseteq> range SaveFile"
    using emitsD [OF assms(2) m] reg by (auto simp: storage_log_def)
  then show ?thesis
    using assms(3) by (auto simp: files_ok_def files_stored_def versions_registered_def in_registry_def reg(1) hist
        intro: stored_saves)
qed

lemma atomic_files:
  assumes "atomic m w = (res, w')" and "achieves (files_ok ds) m (\<lambda>_. files_ok ds)"
    and "emits storage_log (range SaveFile) m" and "files_ok ds w"
  shows "files_ok ds w'"
proof (cases res)
  case (Inl e)
  then show ?thesis using assms(1,3,4) by (blast intro: atomic_error_files)
next
  case (Inr x)
  then show ?thesis using assms(1,2,4) by (auto simp: atomic_Inr dest: achievesD)
qed

section \<open>Properties\<close>

text \<open>
  The operations of a data series with a flat history: creating, replacing and deleting data points, bulk
  writes, patches that leave no file of their data point out, the maintenance, and what other data series do
  to the registry.
\<close>

inductive file_step ::
  "'s publisher \<Rightarrow> file_storage \<Rightarrow> (string \<Rightarrow> string) \<Rightarrow> DataSeries \<Rightarrow> 's storage_world \<Rightarrow> 's storage_world \<Rightarrow> bool"
  for pub storage ext ds
  where
    create: "impl_create pub storage ds st vd w = (res, w') \<Longrightarrow> vd_external_id vd = ext (vd_id vd) \<Longrightarrow>
      file_step pub storage ext ds w w'"
  | update: "impl_update pub storage False ds st vd w = (res, w') \<Longrightarrow> vd_external_id vd = ext (vd_id vd) \<Longrightarrow>
      file_step pub storage ext ds w w'"
  | patch: "impl_update pub storage True ds st vd w = (res, w') \<Longrightarrow> vd_external_id vd = ext (vd_id vd) \<Longrightarrow>
      patch_keeps_files ds vd (sw_mat w (mat_table ds)) \<Longrightarrow> file_step pub storage ext ds w w'"
  | bulk: "atomic (persist_data_point_chunk pub storage batch_size ds st vds) w = (res', w') \<Longrightarrow>
      (\<And>vd. vd \<in> set vds \<Longrightarrow> vd_external_id vd = ext (vd_id vd)) \<Longrightarrow> file_step pub storage ext ds w w'"
  | delete: "r \<in> set (sw_mat w (mat_table ds)) \<Longrightarrow> mr_deleted_at r = None \<Longrightarrow>
      atomic (destroy_object pub ds st (mr_id r) (mr_external_id r)) w = (res', w') \<Longrightarrow>
      file_step pub storage ext ds w w'"
  | maintain: "maintenance_step pub storage ds w w' \<Longrightarrow> file_step pub storage ext ds w w'"
  | other_save: "atomic (on_registry (save storage tenant other fact_id ident file_name)) w = (res', w') \<Longrightarrow>
      other \<noteq> ds_id ds \<Longrightarrow> file_step pub storage ext ds w w'"
  | other_marks: "w' = w\<lparr>sw_registry := mark_deleted now (\<lambda>l. fl_data_series_id l \<noteq> ds_id ds \<and> p l) (sw_registry w)\<rparr> \<Longrightarrow>
      file_step pub storage ext ds w w'"

lemma file_step_reflects:
  assumes "file_step pub storage ext ds w w'" and "reflecting.holds ext ds w"
  shows "reflecting.holds ext ds w'"
  using assms(1)
proof cases
  case (create st vd res)
  then have "storage_step pub storage ext (\<lambda>_. True) ds w w'" using storage_step.create [where allowed = "\<lambda>_. True"] by blast
  then show ?thesis using assms(2) by (auto intro: reflecting.storage_step_keeps)
next
  case (update st vd res)
  then have "storage_step pub storage ext (\<lambda>_. True) ds w w'" using storage_step.update [where allowed = "\<lambda>_. True"] by blast
  then show ?thesis using assms(2) by (auto intro: reflecting.storage_step_keeps)
next
  case (patch st vd res)
  then have "storage_step pub storage ext (\<lambda>_. True) ds w w'" using storage_step.update [where allowed = "\<lambda>_. True"] by blast
  then show ?thesis using assms(2) by (auto intro: reflecting.storage_step_keeps)
next
  case (bulk batch_size st vds res')
  then have "storage_step pub storage ext (\<lambda>_. True) ds w w'" using storage_step.bulk [where allowed = "\<lambda>_. True"] by blast
  then show ?thesis using assms(2) by (auto intro: reflecting.storage_step_keeps)
next
  case (delete r st res')
  then have "storage_step pub storage ext (\<lambda>_. True) ds w w'" using storage_step.delete [where allowed = "\<lambda>_. True"] by blast
  then show ?thesis using assms(2) by (auto intro: reflecting.storage_step_keeps)
next
  case maintain
  then show ?thesis using assms(2) by (rule maintenance_reflects)
next
  case (other_save tenant other fact_id ident file_name res')
  from atomic_run [OF this(1)] have "sw_mat w' = sw_mat w \<and> sw_hist w' = sw_hist w"
    by (auto simp: on_registry_def split: prod.splits)
  then show ?thesis using assms(2) by (simp add: reflecting.holds_def tables_def)
next
  case (other_marks now p)
  then show ?thesis using assms(2) by (simp add: reflecting.holds_def tables_def)
qed

lemma maintenance_files:
  assumes "maintenance_step pub storage ds w w'" and "is_flat ds" and "reflects (tables ds w)" and "files_ok ds w"
  shows "files_ok ds w'"
  using assms(1)
proof cases
  case (prune now older_than all_fact_ids res)
  show ?thesis
  proof (cases res)
    case (Inl e)
    have "emits storage_log (range SaveFile) (api_bind (prune_deleted_data_points now older_than (minio_fact_ids all_fact_ids) ds)
        (\<lambda>_. prune_old_versions now older_than (minio_fact_ids all_fact_ids) ds))"
      by (intro emits_intros prune_emits)
    with prune Inl assms(4) show ?thesis unfolding prune_history_def Let_def by (blast intro: atomic_error_files)
  next
    case (Inr u)
    have "distinct (map hr_key (sw_hist w (hist_table ds)))" using assms(3) by (simp add: reflects_def tables_def)
    with prune Inr assms(2,4) show ?thesis by (blast intro: prune_files)
  qed
next
  case (truncate st res)
  have "achieves (files_ok ds) (truncate_data_series pub ds st) (\<lambda>_. files_ok ds)"
    by (rule achievesI) (rule truncate_files [OF _ assms(2)])
  moreover have "emits storage_log (range SaveFile) (truncate_data_series pub ds st)"
    by (auto simp: emits_def storage_log_def truncate_data_series_def publish_def truncate_data_series_data_def mark_deleted_def)
  ultimately show ?thesis using truncate assms(4) by (blast intro: atomic_files)
next
  case (collect ord older_than res)
  then show ?thesis using assms(4) by (rule collect_files)
qed

lemma other_files:
  fixes w w' :: "'s storage_world"
  assumes "atomic (on_registry (save storage tenant other fact_id ident file_name)) w = (res, w')" and "files_ok ds w"
  shows "files_ok ds w'"
proof (rule atomic_files [OF assms(1) _ _ assms(2)])
  show "achieves (files_ok ds :: 's storage_world \<Rightarrow> bool)
      (on_registry (save storage tenant other fact_id ident file_name)) (\<lambda>_. files_ok ds)"
  proof (rule achievesI)
    fix w w' :: "'s storage_world" and x
    assume I: "files_ok ds w" and "on_registry (save storage tenant other fact_id ident file_name) w = (Inr x, w')"
    then obtain reg' where run: "save storage tenant other fact_id ident file_name (sw_registry w) = (Inr x, reg')"
      and w': "w' = w\<lparr>sw_registry := reg'\<rparr>" by (auto simp: on_registry_def split: prod.splits)
    have "set (fr_lookups (sw_registry w)) \<subseteq> set (fr_lookups reg')"
      using achievesD [OF save_grows run] by blast
    then show "files_ok ds w'"
      using I achievesD [OF save_files_stored run] by (auto simp: w' files_ok_def intro: versions_registered_grows)
  qed
  show "emits (storage_log :: 's storage_world \<Rightarrow> _) (range SaveFile)
      (on_registry (save storage tenant other fact_id ident file_name))"
    by (intro emits_intros) simp
qed

lemma file_step_files:
  assumes "file_step pub storage ext ds w w'" and "reflecting.holds ext ds w" and "distinct_columns ds" and "files_ok ds w"
  shows "files_ok ds w'"
  using assms(1)
proof cases
  case (create st vd res)
  have flat: "is_flat ds" using assms(2) by (simp add: reflecting.holds_def)
  show ?thesis
    using create atomic_files [OF _ create_files [OF flat assms(3)] create_emits assms(4)] by (simp add: impl_create_def)
next
  case (update st vd res)
  have flat: "is_flat ds" using assms(2) by (simp add: reflecting.holds_def)
  show ?thesis
    using update atomic_files [OF _ create_files [OF flat assms(3)] create_emits assms(4)]
    by (simp add: impl_update_def Let_def)
next
  case (patch st vd res)
  have flat: "is_flat ds" using assms(2) by (simp add: reflecting.holds_def)
  have run: "atomic (create_data_points pub storage True ds st [vd]) w = (res, w')"
    using patch(1) by (simp add: impl_update_def)
  show ?thesis
  proof (cases res)
    case (Inl e)
    then show ?thesis using atomic_error_files [OF run [unfolded Inl] create_emits assms(4)] by simp
  next
    case (Inr x)
    then show ?thesis
      using run achievesD [OF patch_files [OF flat assms(3)] _ conjI [OF assms(4) patch(3)], of pub storage st x w']
      by (simp add: atomic_Inr)
  qed
next
  case (bulk batch_size st vds res')
  have flat: "is_flat ds" using assms(2) by (simp add: reflecting.holds_def)
  show ?thesis
    using atomic_files [OF bulk(1) persist_files [OF flat assms(3)] persist_emits assms(4)] .
next
  case (delete r st res')
  have flat: "is_flat ds" using assms(2) by (simp add: reflecting.holds_def)
  show ?thesis
    using atomic_files [OF delete(3) delete_files [OF flat] destroy_emits assms(4)] .
next
  case maintain
  have "is_flat ds" "reflects (tables ds w)" using assms(2) by (simp_all add: reflecting.holds_def tables_def)
  then show ?thesis using maintenance_files [OF maintain] assms(4) by blast
next
  case (other_save tenant other fact_id ident file_name res')
  show ?thesis using other_files [OF other_save(1) assms(4)] .
next
  case (other_marks now p)
  have "in_registry ds k i v name (sw_registry w) \<Longrightarrow> in_registry ds k i v name (sw_registry w')" for k i v name
    by (force simp: other_marks mark_deleted_def in_registry_def)
  then show ?thesis
    using assms(4) unfolding files_ok_def versions_registered_def by (simp add: other_marks mark_deleted_stored)
qed

text \<open>C9: In a data series with a flat history no file that is still needed is collected: after any sequence
  of writes, deletes, prunes, truncations and garbage collections, of patches that send every file again
  that their data point has, and of what other data series do to the registry, whether the operations
  succeed or not, every file that a current data point or a version in the history names is still in the
  storage.\<close>

theorem files_of_data_points_stay:
  assumes "empty_tables ds w0" and "distinct_columns ds" and "files_stored (sw_registry w0)"
    and "(file_step pub storage ext ds)\<^sup>*\<^sup>* w0 w"
  shows "(\<forall>r \<in> set (sw_mat w (mat_table ds)). mr_deleted_at r = None \<longrightarrow>
      (\<forall>k name. names_file ds (mr_columns r) k name \<longrightarrow> stored (storage_log w) name)) \<and>
    (\<forall>h \<in> set (sw_hist w (hist_table ds)). \<not> hr_deleted h \<longrightarrow>
      (\<forall>k name. names_file ds (hr_columns h) k name \<longrightarrow> stored (storage_log w) name))"
proof -
  have start: "reflecting.holds ext ds w0 \<and> files_ok ds w0"
    using assms(1,3) empty_holds(1) by (auto simp: files_ok_def versions_registered_def empty_tables_def)
  have inv: "reflecting.holds ext ds w \<and> files_ok ds w"
    using assms(4) start by (induction rule: rtranclp_induct) (auto intro: file_step_reflects file_step_files assms(2))
  have versions: "stored (storage_log w) name"
    if "h \<in> set (sw_hist w (hist_table ds))" "\<not> hr_deleted h" "names_file ds (hr_columns h) k name" for h k name
    using inv versions_registeredD [OF _ that] by (auto simp: files_ok_def in_registry_def files_stored_def storage_log_def)
  have "stored (storage_log w) name"
    if r: "r \<in> set (sw_mat w (mat_table ds))" "mr_deleted_at r = None" "names_file ds (mr_columns r) k name" for r k name
  proof -
    have "reflects (sw_mat w (mat_table ds), sw_hist w (hist_table ds))"
      using inv by (simp add: reflecting.holds_def tables_def)
    then obtain h where "same_content r h" "newest h (sw_hist w (hist_table ds))" using reflectsD r(1) by blast
    then show ?thesis using versions [of h k name] r by (simp add: same_content_def newest_def)
  qed
  with versions show ?thesis by blast
qed

definition demo_maintain :: "int \<Rightarrow> int \<Rightarrow> unit storage_world \<Rightarrow> unit storage_world" where
  "demo_maintain older_than now w =
     snd (on_registry (garbage_collect (\<lambda>xs. xs) demo_storage (now + 1))
       (snd (prune_history now older_than (\<lambda>kind. if kind = file_facts then [''f2''] else []) demo_series w)))"

definition demo_replaced :: "unit storage_world" where
  "demo_replaced = demo_maintain 25 40 (demo_update True [(''doc'', PFile ''c.pdf'')] 3
     (demo_update False [(''doc'', PFile ''b.pdf'')] 2 (demo_create [(''doc'', PFile ''a.pdf'')] 1 demo_start)))"

lemma demo_replaced_files:
  "storage_log demo_replaced = [SaveFile ''a.pdf'', SaveFile ''b.pdf'', SaveFile ''c.pdf'', DeleteFile ''a.pdf'', DeleteFile ''b.pdf'']"
  "map (\<lambda>r. mr_columns r ''f2_doc'') (sw_mat demo_replaced (mat_table demo_series)) = [Sql (PStr ''c.pdf'')]"
  by code_simp+

lemma demo_replaced_row:
  "\<exists>r. sw_mat demo_replaced (mat_table demo_series) = [r] \<and> mr_deleted_at r = None \<and>
     names_file demo_series (mr_columns r) (file_facts, ''doc'', ''f2'') ''c.pdf''"
proof -
  have rows: "map (\<lambda>r. (mr_deleted_at r, names_file demo_series (mr_columns r) (file_facts, ''doc'', ''f2'') ''c.pdf''))
      (sw_mat demo_replaced (mat_table demo_series)) = [(None, True)]"
    by code_simp
  then obtain r where "sw_mat demo_replaced (mat_table demo_series) = [r]" by (auto simp: map_eq_Cons_conv)
  with rows show ?thesis by simp
qed

lemma demo_file_keys:
  "list_all (\<lambda>k. fst k \<in> {image_facts, file_facts} \<longrightarrow> fst (snd k) = ''doc'') (data_keys (ds_keys demo_series))"
  by code_simp

theorem files_of_data_points_stay_witness:
  "stored (storage_log demo_replaced) ''c.pdf'' \<and> \<not> stored (storage_log demo_replaced) ''a.pdf''"
proof -
  let ?R = "file_step demo_publisher demo_storage (\<lambda>_. ''x'') demo_series"
  have create: "?R w (demo_create payload n w)" and update: "?R w (demo_update False payload n w)" for payload n w
    unfolding demo_create_def demo_update_def
    by (rule file_step.create [OF surjective_pairing] file_step.update [OF surjective_pairing],
        simp add: demo_point_def)+
  have maintain: "?R\<^sup>*\<^sup>* w (demo_maintain a b w)" for a b w
  proof -
    let ?w = "snd (prune_history b a (\<lambda>kind. if kind = file_facts then [''f2''] else []) demo_series w)"
    have "?R w ?w" by (rule file_step.maintain [OF maintenance_step.prune [OF surjective_pairing]])
    moreover have "?R ?w (demo_maintain a b w)" unfolding demo_maintain_def
      by (rule file_step.maintain [OF maintenance_step.collect [OF surjective_pairing]])
    ultimately show ?thesis by (rule converse_rtranclp_into_rtranclp [OF _ r_into_rtranclp])
  qed
  have "fst (snd k) = ''doc''" if "names_file demo_series columns k name" for columns k name
    using that demo_file_keys by (auto simp: names_file_def list_all_iff)
  then have patch: "?R w (demo_update True [(''doc'', PFile doc)] n w)" for n doc w
    unfolding demo_update_def
    by (intro file_step.patch [OF surjective_pairing]) (auto simp: demo_point_def patch_keeps_files_def)
  have "?R\<^sup>*\<^sup>* demo_start demo_replaced"
    unfolding demo_replaced_def
    by (rule converse_rtranclp_into_rtranclp [OF create converse_rtranclp_into_rtranclp [OF update
          converse_rtranclp_into_rtranclp [OF patch maintain]]])
  moreover have "distinct_columns demo_series" by code_simp
  moreover have "files_stored (sw_registry demo_start)" by (simp add: files_stored_def demo_start_def)
  ultimately have "\<forall>r \<in> set (sw_mat demo_replaced (mat_table demo_series)). mr_deleted_at r = None \<longrightarrow>
      (\<forall>k name. names_file demo_series (mr_columns r) k name \<longrightarrow> stored (storage_log demo_replaced) name)"
    using files_of_data_points_stay [OF demo_empty] by blast
  then have "stored (storage_log demo_replaced) ''c.pdf''" using demo_replaced_row by auto
  moreover have "\<not> stored (storage_log demo_replaced) ''a.pdf''" by (simp add: demo_replaced_files(1) stored_def)
  ultimately show ?thesis ..
qed

definition demo_patched :: "unit storage_world" where
  "demo_patched = demo_maintain 15 30 (demo_update True [(''name'', PStr ''new'')] 2
     (demo_create [(''doc'', PFile ''a.pdf'')] 1 demo_start))"

text \<open>A patch that leaves a file out loses it: in this run the version that registered the file is pruned, and the
  garbage collection deletes the file, although the current data point still names it.\<close>

theorem patch_loses_file:
  "map (\<lambda>r. (mr_deleted_at r, mr_columns r ''f2_doc'')) (sw_mat demo_patched (mat_table demo_series)) =
      [(None, Sql (PStr ''a.pdf''))] \<and>
    storage_log demo_patched = [SaveFile ''a.pdf'', DeleteFile ''a.pdf''] \<and> \<not> stored (storage_log demo_patched) ''a.pdf''"
  by code_simp

end
