(* ===== verification/Server_Storage_Order.thy ===== *)
theory Server_Storage_Order
  imports Server_Storage_Files
begin

text \<open>
  What a write leaves in the table of current versions: full writes may arrive in any order, the
  one with the greatest version wins; a patch sets its columns and keeps the others; the rows of
  all three tables keep their keys.
\<close>

section \<open>The values of a data point\<close>

definition sql_of :: "child_kind \<times> string \<times> string \<Rightarrow> pydict \<Rightarrow> sql_value" where
  "sql_of k payload =
     (case k of (kind, external_id, uuid) \<Rightarrow>
        (case map_of payload external_id of
           None \<Rightarrow> SqlNull
         | Some v \<Rightarrow>
             if kind \<in> {image_facts, file_facts}
             then (case v of PFile file_name \<Rightarrow> Sql (PStr file_name) | _ \<Rightarrow> SqlNull)
             else plain_value kind v))"

definition stored_values :: "DataSeries \<Rightarrow> ValidatedData \<Rightarrow> (string \<times> sql_value) list" where
  "stored_values ds vd = map (\<lambda>k. (key_column k, sql_of k (vd_payload vd))) (data_keys (ds_keys ds))"

definition stored_row :: "DataSeries \<Rightarrow> stamp \<Rightarrow> ValidatedData \<Rightarrow> mat_row" where
  "stored_row ds st vd = values_to_insert st vd (stored_values ds vd)"

lemma column_value_sql:
  "achieves (\<lambda>_. True) (column_value storage ds st vd k) (\<lambda>v _. v = sql_of k (vd_payload vd))"
proof -
  obtain kind external_id uuid where k: "k = (kind, external_id, uuid)" by (cases k)
  have files: "achieves (\<lambda>_. True) (file_value storage ds st vd uuid v)
      (\<lambda>x _. x = (case v of PFile file_name \<Rightarrow> Sql (PStr file_name) | _ \<Rightarrow> SqlNull))" for v
  proof (cases v)
    case (PFile file_name)
    show ?thesis unfolding PFile file_value_def pyval.case
      by (rule achieves_bind [where R = "\<lambda>_ _. True"]) (auto simp: achieves_constant intro: achieves_return)
  qed (auto simp: file_value_def intro: achieves_return achieves_raise)
  show ?thesis
    using files by (auto simp: k column_value_def sql_of_def intro: achieves_return split: option.splits)
qed

lemma row_values_sql:
  "achieves (\<lambda>_. True) (row_values storage ds st vd) (\<lambda>vals _. vals = stored_values ds vd)"
proof -
  have "achieves (\<lambda>_. True) (api_bind (column_value storage ds st vd k) (\<lambda>v. api_return (key_column k, v)))
      (\<lambda>cv _. True \<and> cv = (key_column k, sql_of k (vd_payload vd)))" for k
    by (rule achieves_bind [OF column_value_sql]) (auto intro: achieves_return)
  then have "achieves (\<lambda>_. True) (row_values storage ds st vd)
      (\<lambda>vals _. True \<and> list_all2 (\<lambda>k cv. cv = (key_column k, sql_of k (vd_payload vd))) (data_keys (ds_keys ds)) vals)"
    unfolding row_values_def by (rule achieves_map_collect) (rule achieves_constant)
  then show ?thesis
    by (rule achieves_weaken) (auto simp: stored_values_def list_all2_conv_all_nth intro: nth_equalityI)
qed

text \<open>A write of one data point is one statement on the table of current versions.\<close>

lemma on_registry_result:
  "achieves (\<lambda>_. True) m (\<lambda>x _. x = y) \<Longrightarrow>
    achieves (\<lambda>w. sw_mat w = mat) (on_registry m) (\<lambda>x w. x = y \<and> sw_mat w = mat)"
  by (auto simp: achieves_def on_registry_def split: prod.splits)

lemma write_row_mat:
  "write_row partial ds st data w = (Inr u, w') \<Longrightarrow>
    sw_mat w' (mat_table ds) = snd (central_insert (set_columns partial ds (fst data)) st
      (values_to_insert st (fst data) (snd data)) (sw_mat w (mat_table ds)))"
  by (auto simp: write_row_def Let_def split: prod.splits sum.splits if_splits)

lemma write_one_mat:
  "achieves (\<lambda>w. sw_mat w = mat) (insert_or_update_data_points_impl storage partial False ds st [vd])
    (\<lambda>_ w. sw_mat w (mat_table ds) =
      snd (central_insert (set_columns partial ds vd) st (stored_row ds st vd) (mat (mat_table ds))))"
proof -
  have vals: "achieves (\<lambda>_. True) (api_map (row_values storage ds st) [vd]) (\<lambda>x _. x = [stored_values ds vd])"
    unfolding api_map.simps
    by (rule achieves_bind [OF row_values_sql]) (auto simp: achieves_def api_bind_def api_return_def)
  have mark: "achieves (\<lambda>w. x = y \<and> sw_mat w = mat) (api_when b (registry_update f)) (\<lambda>_ w. x = y \<and> sw_mat w = mat)"
    for b f and x y :: "(string \<times> sql_value) list list"
    by (auto simp: achieves_def api_when_def registry_update_def on_registry_def api_return_def)
  have row: "achieves (\<lambda>w. x = [stored_values ds vd] \<and> sw_mat w = mat) (api_for (write_row partial ds st) (zip [vd] x))
    (\<lambda>_ w. sw_mat w (mat_table ds) =
      snd (central_insert (set_columns partial ds vd) st (stored_row ds st vd) (mat (mat_table ds))))" for x
    by (rule achieves_assume)
      (auto simp: achieves_def api_bind_def api_return_def stored_row_def dest!: write_row_mat split: prod.splits sum.splits)
  show ?thesis
    unfolding insert_or_update_data_points_impl_def simp_thms if_False
    by (rule achieves_bind [OF on_registry_result [OF vals]], rule achieves_bind [OF mark], rule row)
qed

lemma create_one_mat:
  assumes "create_data_points pub storage partial ds st [vd] w = (Inr x, w')"
  shows "sw_mat w' (mat_table ds) =
    snd (central_insert (set_columns partial ds vd) st (stored_row ds st vd) (sw_mat w (mat_table ds)))"
proof -
  let ?Q = "\<lambda>w'. sw_mat w' (mat_table ds) =
    snd (central_insert (set_columns partial ds vd) st (stored_row ds st vd) (sw_mat w (mat_table ds)))"
  have one: "achieves (\<lambda>w1. sw_mat w1 = sw_mat w) (insert_or_update_data_points storage partial ds st [vd]) (\<lambda>_. ?Q)"
    unfolding insert_or_update_data_points_def patch_data_points.simps
    by (cases partial) (auto intro: write_one_mat achieves_bind [OF write_one_mat] achieves_return)
  have pub: "achieves ?Q (publish pub ds st payload event_type) (\<lambda>_. ?Q)" for payload event_type
    by (auto simp: achieves_def publish_def)
  have "achieves (\<lambda>w1. sw_mat w1 = sw_mat w) (create_data_points pub storage partial ds st [vd]) (\<lambda>_. ?Q)"
    unfolding create_data_points_def Let_def
    by (cases "ds_backend ds \<in> {DYNAMIC_SQL_NO_HISTORY, DYNAMIC_SQL_MATERIALIZED_FLAT_HISTORY}";
        simp only: if_True if_False not_True_eq_False not_False_eq_True;
        (rule achieves_raise achieves_bind [OF one achieves_bind [OF pub achieves_return]])) auto
  from achievesD [OF this assms] show ?thesis by simp
qed

lemma set_columns_iff:
  assumes "distinct_columns ds" and "k \<in> set (data_keys (ds_keys ds))"
  shows "key_column k \<in> set (set_columns partial ds vd) \<longleftrightarrow> \<not> partial \<or> fst (snd k) \<in> fst ` set (vd_payload vd)"
proof -
  let ?P = "\<lambda>(kind, external_id, uuid). \<not> partial \<or> external_id \<in> fst ` set (vd_payload vd)"
  have "inj_on key_column (set (data_keys (ds_keys ds)))" using assms(1) by (simp add: distinct_columns_def distinct_map)
  then have "key_column k \<in> key_column ` {k \<in> set (data_keys (ds_keys ds)). ?P k} \<longleftrightarrow> k \<in> {k \<in> set (data_keys (ds_keys ds)). ?P k}"
    using assms(2) by (intro inj_on_image_mem_iff) auto
  then show ?thesis using assms(2) by (auto simp: set_columns_def split: prod.splits)
qed

section \<open>The greatest version wins\<close>

type_synonym stamped_write = "stamp \<times> ValidatedData"

definition newest_write :: "stamped_write set \<Rightarrow> stamped_write \<Rightarrow> bool" where
  "newest_write W x \<longleftrightarrow> x \<in> W \<and>
     (\<forall>y \<in> W. vd_id (snd y) = vd_id (snd x) \<longrightarrow> version (fst y) \<le> version (fst x))"

definition shown_write :: "DataSeries \<Rightarrow> stamped_write \<Rightarrow> string \<times> string \<times> int \<times> (string \<Rightarrow> sql_value)" where
  "shown_write ds x =
     (vd_id (snd x), vd_external_id (snd x), st_point_in_time (fst x), columns_of (stored_values ds (snd x)))"

definition put_write :: "DataSeries \<Rightarrow> stamped_write \<Rightarrow> mat_row list \<Rightarrow> mat_row list" where
  "put_write ds x mat =
     snd (central_insert (set_columns False ds (snd x)) (fst x) (stored_row ds (fst x) (snd x)) mat)"

definition holds_write :: "DataSeries \<Rightarrow> mat_row \<Rightarrow> stamped_write \<Rightarrow> bool" where
  "holds_write ds r x \<longleftrightarrow>
     mr_id r = vd_id (snd x) \<and> mr_external_id r = vd_external_id (snd x) \<and> mr_deleted_at r = None \<and>
     mr_point_in_time r = st_point_in_time (fst x) \<and> mr_sub_clock r = Some (st_sub_clock (fst x)) \<and>
     mr_columns r = columns_of (stored_values ds (snd x))"

lemma full_write_sets_all: "c \<notin> set (set_columns False ds vd) \<Longrightarrow> columns_of (stored_values ds vd') c = SqlNull"
  by (force simp: set_columns_def columns_of_def stored_values_def dest: map_of_SomeD split: option.splits)

lemma holds_write_version: "holds_write ds r x \<Longrightarrow> row_version r = version (fst x)"
  by (simp add: holds_write_def row_version_def version_def)

definition won_by :: "DataSeries \<Rightarrow> stamped_write set \<Rightarrow> mat_row list \<Rightarrow> bool" where
  "won_by ds W mat \<longleftrightarrow> distinct (map mr_id mat) \<and> mr_id ` set mat = (\<lambda>x. vd_id (snd x)) ` W \<and>
     (\<forall>r \<in> set mat. \<exists>x. newest_write W x \<and> holds_write ds r x)"

lemma newest_write_other:
  "newest_write W x \<Longrightarrow> vd_id (snd y) \<noteq> vd_id (snd x) \<or> version (fst y) \<le> version (fst x) \<Longrightarrow> newest_write (insert y W) x"
  by (auto simp: newest_write_def)

lemma put_write_won_by:
  assumes I: "won_by ds W mat" and ext: "\<And>y. y \<in> W \<Longrightarrow> vd_id (snd y) = vd_id (snd x) \<Longrightarrow> vd_external_id (snd y) = vd_external_id (snd x)"
  shows "won_by ds (insert x W) (put_write ds x mat)"
proof (cases "find (\<lambda>r. mr_id r = vd_id (snd x)) mat")
  case None
  let ?row = "stored_row ds (fst x) (snd x)"
  have mat: "put_write ds x mat = mat @ [?row]"
    using None by (simp add: put_write_def central_insert_def stored_row_def values_to_insert_def)
  have fresh: "vd_id (snd x) \<notin> mr_id ` set mat" using find_id_NoneD [OF None] .
  have row: "holds_write ds ?row x" by (simp add: holds_write_def stored_row_def values_to_insert_def)
  have "vd_id (snd y) \<noteq> vd_id (snd x)" if "y \<in> W" for y
    using fresh I that unfolding won_by_def by (metis imageI)
  then have "newest_write (insert x W) x" by (auto simp: newest_write_def)
  moreover have "\<exists>y. newest_write (insert x W) y \<and> holds_write ds r y" if r: "r \<in> set mat" for r
  proof -
    obtain y where y: "newest_write W y" "holds_write ds r y" using I r by (auto simp: won_by_def)
    then have "vd_id (snd x) \<noteq> vd_id (snd y)" using fresh r unfolding holds_write_def by (metis imageI)
    with y newest_write_other show ?thesis by blast
  qed
  moreover have "mr_id ?row = vd_id (snd x)" using row by (simp add: holds_write_def)
  ultimately show ?thesis using I fresh row unfolding won_by_def mat by (auto simp del: split_paired_Ex split_paired_All)
next
  case (Some tgt)
  then have tgt: "tgt \<in> set mat" "mr_id tgt = vd_id (snd x)" by (auto dest: find_id_SomeD)
  obtain y where y: "newest_write W y" "holds_write ds tgt y" using I tgt by (auto simp: won_by_def)
  have ids: "vd_id (snd y) = vd_id (snd x)" using y tgt by (simp add: holds_write_def)
  have xid: "vd_id (snd x) \<in> (\<lambda>x. vd_id (snd x)) ` W" using y ids by (metis newest_write_def imageI)
  have applies: "upsert_applies tgt (fst x) \<longleftrightarrow> version (fst y) < version (fst x)"
    using upsert_applies_newer [of tgt] holds_write_version [OF y(2)] y(2) by (simp add: holds_write_def)
  have rest: "\<exists>y. newest_write (insert x W) y \<and> holds_write ds r y" if r: "r \<in> set mat" "mr_id r \<noteq> vd_id (snd x)" for r
  proof -
    obtain z where z: "newest_write W z" "holds_write ds r z" using I r by (auto simp: won_by_def)
    then have "vd_id (snd x) \<noteq> vd_id (snd z)" using r by (simp add: holds_write_def)
    with z newest_write_other show ?thesis by blast
  qed
  show ?thesis
  proof (cases "upsert_applies tgt (fst x)")
    case False
    then have mat: "put_write ds x mat = mat"
      using Some by (simp add: put_write_def central_insert_def stored_row_def values_to_insert_def)
    have "version (fst x) \<le> version (fst y)" using False applies by (simp add: not_less)
    then have "newest_write (insert x W) y" using newest_write_other [OF y(1)] by blast
    moreover have "r = tgt" if "r \<in> set mat" "mr_id r = vd_id (snd x)" for r
    proof -
      have "inj_on mr_id (set mat)" using I by (simp add: won_by_def distinct_map)
      then show ?thesis using that tgt by (simp add: inj_on_def)
    qed
    ultimately have "\<exists>y. newest_write (insert x W) y \<and> holds_write ds r y" if "r \<in> set mat" for r
      using rest [OF that] y(2) that by blast
    then show ?thesis using I xid unfolding won_by_def mat by (auto simp del: split_paired_Ex split_paired_All)
  next
    case True
    let ?row = "upsert_row (set_columns False ds (snd x)) (stored_row ds (fst x) (snd x)) tgt"
    have mat: "put_write ds x mat = put_row ?row mat"
      using Some True by (simp add: put_write_def central_insert_def stored_row_def values_to_insert_def Let_def)
    have "mr_columns ?row = columns_of (stored_values ds (snd x))"
      using y(2) full_write_sets_all
      by (auto simp: upsert_row_def stored_row_def values_to_insert_def holds_write_def fun_eq_iff)
    moreover have "mr_external_id tgt = vd_external_id (snd x)"
      using ext [of y] ids y by (simp add: newest_write_def holds_write_def)
    ultimately have row: "holds_write ds ?row x"
      using tgt by (simp add: holds_write_def upsert_row_def stored_row_def values_to_insert_def)
    have new: "newest_write (insert x W) x"
      using y(1) True ids unfolding applies newest_write_def by fastforce
    have rid: "mr_id ?row = vd_id (snd x)" using row by (simp add: holds_write_def)
    have mem: "mr_id ?row \<in> mr_id ` set mat" using tgt rid by (metis imageI)
    have eqs: "map mr_id (put_row ?row mat) = map mr_id mat" by (rule put_row_ids)
    have "mr_id ` set (put_row ?row mat) = mr_id ` set mat" using eqs by (metis list.set_map)
    moreover have "\<exists>y. newest_write (insert x W) y \<and> holds_write ds r y" if "r \<in> set (put_row ?row mat)" for r
      using that rest [of r] new row unfolding put_row_member [OF mem] rid by blast
    moreover have "insert (vd_id (snd x)) ((\<lambda>x. vd_id (snd x)) ` W) = (\<lambda>x. vd_id (snd x)) ` W" using xid by (rule insert_absorb)
    ultimately show ?thesis using I unfolding won_by_def mat eqs image_insert by simp
  qed
qed

text \<open>The writes of a list, one request after the other.\<close>

definition create_all ::
  "'s publisher \<Rightarrow> file_storage \<Rightarrow> DataSeries \<Rightarrow> stamped_write list \<Rightarrow> ('s, unit) storage_run" where
  "create_all pub storage ds = api_for (\<lambda>x. api_ignore (impl_create pub storage ds (fst x) (snd x)))"

lemma impl_create_put:
  "api_ignore (impl_create pub storage ds st vd) w = (Inr u, w') \<Longrightarrow>
    sw_mat w' (mat_table ds) = put_write ds (st, vd) (sw_mat w (mat_table ds))"
  by (auto simp: api_ignore_def api_bind_def api_return_def impl_create_def atomic_Inr put_write_def
      dest!: create_one_mat split: prod.splits sum.splits)

lemma create_all_won_by:
  assumes "create_all pub storage ds ops w = (Inr u, w')" and "won_by ds W (sw_mat w (mat_table ds))"
    and "\<And>x. x \<in> W \<union> set ops \<Longrightarrow> vd_external_id (snd x) = ext (vd_id (snd x))"
  shows "won_by ds (W \<union> set ops) (sw_mat w' (mat_table ds))"
  using assms
proof (induction ops arbitrary: w W)
  case (Cons x ops)
  obtain v w1 where w1: "api_ignore (impl_create pub storage ds (fst x) (snd x)) w = (Inr v, w1)"
    and rest: "create_all pub storage ds ops w1 = (Inr u, w')"
    using api_bind_Inr_split [OF Cons.prems(1) [unfolded create_all_def api_for.simps]] by (auto simp: create_all_def)
  have "won_by ds (insert x W) (sw_mat w1 (mat_table ds))"
    using impl_create_put [OF w1] put_write_won_by [OF Cons.prems(2), of x] Cons.prems(3) by simp
  from Cons.IH [OF rest this] Cons.prems(3) show ?case by simp
qed (simp add: create_all_def api_return_def)

lemma won_by_shown:
  assumes "won_by ds W mat" and "inj_on (\<lambda>x. (vd_id (snd x), version (fst x))) W"
  shows "shown ` set (materialized_rows None mat) = shown_write ds ` {x. newest_write W x}"
proof -
  have sh: "shown (display_mat r) = shown_write ds x" if "holds_write ds r x" for r x
    using that by (simp add: shown_def display_mat_def shown_write_def holds_write_def)
  have one: "x = y" if "newest_write W x" "newest_write W y" "vd_id (snd x) = vd_id (snd y)" for x y
  proof -
    have "version (fst y) \<le> version (fst x)" "version (fst x) \<le> version (fst y)"
      using that unfolding newest_write_def by metis+
    then have "version (fst x) = version (fst y)" by (rule antisym [rotated])
    then show ?thesis using that inj_onD [OF assms(2), of x y] by (simp add: newest_write_def)
  qed
  have all: "materialized_rows None mat = map display_mat mat"
  proof -
    have "filter (\<lambda>r. mr_deleted_at r = None) mat = mat"
      using assms(1) by (intro filter_True) (auto simp: won_by_def holds_write_def)
    then show ?thesis by (simp add: materialized_rows_def since_ok_def)
  qed
  show ?thesis
  proof (intro equalityI subsetI)
    fix s assume "s \<in> shown ` set (materialized_rows None mat)"
    then obtain r where "r \<in> set mat" "s = shown (display_mat r)" by (auto simp: all)
    then show "s \<in> shown_write ds ` {x. newest_write W x}" using assms(1) sh by (fastforce simp: won_by_def)
  next
    fix s assume "s \<in> shown_write ds ` {x. newest_write W x}"
    then obtain x where x: "newest_write W x" "s = shown_write ds x" by auto
    then have "vd_id (snd x) \<in> mr_id ` set mat" using assms(1) by (simp add: won_by_def newest_write_def)
    then obtain r where r: "r \<in> set mat" "mr_id r = vd_id (snd x)" by (metis imageE)
    then obtain y where y: "newest_write W y" "holds_write ds r y" using assms(1) unfolding won_by_def by blast
    have "vd_id (snd y) = vd_id (snd x)" using y(2) r(2) unfolding holds_write_def by metis
    then have "y = x" by (rule one [OF y(1) x(1)])
    then have "s = shown (display_mat r)" using sh [OF y(2)] x by simp
    then show "s \<in> shown ` set (materialized_rows None mat)" using r(1) by (simp add: all)
  qed
qed

section \<open>Properties\<close>

text \<open>C10: The last writer wins, whatever the order of arrival: after full writes of any data points with
  different versions, executed in any order, the current data points are exactly, for each data
  point, the write with the greatest point in time and sub clock.\<close>

theorem last_writer_wins:
  assumes "sw_mat w (mat_table ds) = []"
    and "create_all pub storage ds ops w = (Inr u, w')"
    and "\<And>x. x \<in> set ops \<Longrightarrow> vd_external_id (snd x) = ext (vd_id (snd x))"
    and "inj_on (\<lambda>x. (vd_id (snd x), version (fst x))) (set ops)"
  shows "shown ` set (materialized_rows None (sw_mat w' (mat_table ds))) =
    shown_write ds ` {x. newest_write (set ops) x}"
proof -
  have "won_by ds {} (sw_mat w (mat_table ds))" by (simp add: assms(1) won_by_def)
  from create_all_won_by [OF assms(2) this, of ext] assms(3) have "won_by ds (set ops) (sw_mat w' (mat_table ds))" by simp
  then show ?thesis by (rule won_by_shown [OF _ assms(4)])
qed

definition demo_writes :: "stamped_write list" where
  "demo_writes =
     [(demo_stamp 2, demo_point [(''name'', PStr ''new'')]), (demo_stamp 1, demo_point [(''name'', PStr ''old'')])]"

definition demo_written :: "unit storage_world" where
  "demo_written = snd (create_all demo_publisher demo_storage demo_series demo_writes demo_start)"

lemma demo_written_run: "create_all demo_publisher demo_storage demo_series demo_writes demo_start = (Inr (), demo_written)"
proof -
  have "fst (create_all demo_publisher demo_storage demo_series demo_writes demo_start) = Inr ()" by code_simp
  then show ?thesis unfolding demo_written_def by (metis prod.collapse)
qed

lemma demo_written_names: "demo_names None demo_written = [(''x'', Sql (PStr ''new''))]"
  by code_simp

theorem last_writer_wins_witness:
  "shown ` set (materialized_rows None (sw_mat demo_written (mat_table demo_series))) =
      shown_write demo_series ` {x. newest_write (set demo_writes) x} \<and>
    demo_names None demo_written = [(''x'', Sql (PStr ''new''))]"
proof -
  have "sw_mat demo_start (mat_table demo_series) = []" by (simp add: demo_start_def)
  moreover have "vd_external_id (snd x) = ''x''" if "x \<in> set demo_writes" for x
    using that by (auto simp: demo_writes_def demo_point_def)
  moreover have "inj_on (\<lambda>x. (vd_id (snd x), version (fst x))) (set demo_writes)"
    by (auto simp: demo_writes_def inj_on_def version_def demo_stamp_def)
  ultimately show ?thesis
    using last_writer_wins [OF _ demo_written_run, of "\<lambda>_. ''x''"] demo_written_names by blast
qed

text \<open>What an update of an existing data point leaves: a patch sets the columns of its payload and keeps the
  others, a full update sets every column (to \<open>NULL\<close> where the payload has no value); the data point
  keeps the time it was inserted at, other data points are untouched, and an update that comes too
  late (its version is not newer) changes nothing.\<close>

theorem update_sets_its_columns:
  assumes "distinct (map mr_id (sw_mat w (mat_table ds)))" and "distinct_columns ds"
    and "tgt \<in> set (sw_mat w (mat_table ds))" and "mr_id tgt = vd_id vd" and "mr_deleted_at tgt = None"
    and "impl_update pub storage patch ds st vd w = (Inr x, w')"
  shows "if upsert_applies tgt st then
      \<exists>r. set (sw_mat w' (mat_table ds)) = insert r {r' \<in> set (sw_mat w (mat_table ds)). mr_id r' \<noteq> vd_id vd} \<and>
        mr_id r = vd_id vd \<and> mr_inserted_at r = mr_inserted_at tgt \<and> mr_deleted_at r = None \<and>
        mr_point_in_time r = st_point_in_time st \<and> mr_sub_clock r = Some (st_sub_clock st) \<and>
        (\<forall>k \<in> set (data_keys (ds_keys ds)). mr_columns r (key_column k) =
          (if patch \<and> fst (snd k) \<notin> fst ` set (vd_payload vd) then mr_columns tgt (key_column k)
           else sql_of k (if patch then vd_payload vd
             else vd_payload (set_missing_structure_elements_to_none (ds_keys ds) vd))))
    else sw_mat w' (mat_table ds) = sw_mat w (mat_table ds)"
proof -
  let ?vd = "if patch then vd else set_missing_structure_elements_to_none (ds_keys ds) vd"
  let ?mat = "sw_mat w (mat_table ds)" and ?cols = "set_columns patch ds ?vd" and ?row = "stored_row ds st ?vd"
  have ids: "vd_id ?vd = vd_id vd" by (simp add: set_missing_structure_elements_to_none_def)
  have "create_data_points pub storage patch ds st [?vd] w = (Inr x, w')"
    using assms(6) by (simp add: impl_update_def Let_def atomic_Inr)
  from create_one_mat [OF this] have mat: "sw_mat w' (mat_table ds) = snd (central_insert ?cols st ?row ?mat)" .
  have found: "find (\<lambda>r. mr_id r = mr_id ?row) ?mat = Some tgt"
    using find_unique [OF assms(1,3)] assms(4) ids by (simp add: stored_row_def values_to_insert_def)
  show ?thesis
  proof (cases "upsert_applies tgt st")
    case True
    let ?r = "upsert_row ?cols ?row tgt"
    have new: "sw_mat w' (mat_table ds) = put_row ?r ?mat"
      using mat found True by (simp add: central_insert_def Let_def)
    have rid: "mr_id ?r = vd_id vd" using assms(4) by (simp add: upsert_row_def)
    then have "mr_id ?r \<in> mr_id ` set ?mat" using assms(3,4) by (metis imageI)
    from put_row_member [OF this] have "set (sw_mat w' (mat_table ds)) = insert ?r {r' \<in> set ?mat. mr_id r' \<noteq> vd_id vd}"
      unfolding new rid by auto
    moreover have "mr_columns ?r (key_column k) =
        (if patch \<and> fst (snd k) \<notin> fst ` set (vd_payload vd) then mr_columns tgt (key_column k)
         else sql_of k (vd_payload ?vd))" if k: "k \<in> set (data_keys (ds_keys ds))" for k
    proof -
      have val: "columns_of (stored_values ds ?vd) (key_column k) = sql_of k (vd_payload ?vd)"
      proof -
        have "map_of (stored_values ds ?vd) (key_column k) = Some (sql_of k (vd_payload ?vd))"
          using k assms(2) by (intro map_of_is_SomeI) (auto simp: stored_values_def distinct_columns_def comp_def)
        then show ?thesis by (simp add: columns_of_def)
      qed
      have "key_column k \<in> set ?cols \<longleftrightarrow> \<not> patch \<or> fst (snd k) \<in> fst ` set (vd_payload vd)"
        using set_columns_iff [OF assms(2) k, of patch ?vd] by (cases patch) simp_all
      then show ?thesis
        using val by (simp add: upsert_row_def stored_row_def values_to_insert_def)
    qed
    moreover have "mr_inserted_at ?r = mr_inserted_at tgt \<and> mr_deleted_at ?r = None \<and>
        mr_point_in_time ?r = st_point_in_time st \<and> mr_sub_clock ?r = Some (st_sub_clock st)"
      using assms(5) by (simp add: upsert_row_def stored_row_def values_to_insert_def)
    moreover have "sql_of k (vd_payload ?vd) = sql_of k (if patch then vd_payload vd
        else vd_payload (set_missing_structure_elements_to_none (ds_keys ds) vd))" for k by simp
    ultimately show ?thesis unfolding if_P [OF True] using rid by (intro exI [of _ ?r]) auto
  next
    case False
    then show ?thesis using mat found by (simp add: central_insert_def)
  qed
qed

definition demo_with_file :: "unit storage_world" where
  "demo_with_file = demo_create [(''name'', PStr ''old''), (''doc'', PFile ''a.pdf'')] 1 demo_start"

definition demo_target :: mat_row where
  "demo_target = hd (sw_mat demo_with_file (mat_table demo_series))"

lemma demo_target_facts:
  "map mr_id (sw_mat demo_with_file (mat_table demo_series)) = [''i'']"
  "mr_id demo_target = ''i''" "mr_deleted_at demo_target = None" "mr_inserted_at demo_target = 10"
  "upsert_applies demo_target (demo_stamp 2)" "mr_columns demo_target ''f2_doc'' = Sql (PStr ''a.pdf'')"
  "fst (impl_update demo_publisher demo_storage True demo_series (demo_stamp 2) (demo_point [(''name'', PStr ''new'')])
      demo_with_file) = Inr [(''i'', ''x'')]"
  "data_keys (ds_keys demo_series) = [(file_facts, ''doc'', ''f2''), (string_facts, ''name'', ''f1'')]"
  "key_column (file_facts, ''doc'', ''f2'') = ''f2_doc''" "key_column (string_facts, ''name'', ''f1'') = ''f1_name''"
  by code_simp+

theorem update_sets_its_columns_witness:
  "\<exists>r \<in> set (sw_mat (demo_update True [(''name'', PStr ''new'')] 2 demo_with_file) (mat_table demo_series)).
     mr_inserted_at r = 10 \<and> mr_point_in_time r = 20 \<and>
     mr_columns r ''f1_name'' = Sql (PStr ''new'') \<and> mr_columns r ''f2_doc'' = Sql (PStr ''a.pdf'')"
proof -
  let ?T = "mat_table demo_series" and ?vd = "demo_point [(''name'', PStr ''new'')]"
  let ?w' = "demo_update True [(''name'', PStr ''new'')] 2 demo_with_file"
  have run: "impl_update demo_publisher demo_storage True demo_series (demo_stamp 2) ?vd demo_with_file =
      (Inr [(''i'', ''x'')], ?w')"
    using demo_target_facts(7) unfolding demo_update_def by (metis prod.collapse)
  have dist: "distinct (map mr_id (sw_mat demo_with_file ?T))" using demo_target_facts(1) by simp
  have cols: "distinct_columns demo_series" by code_simp
  have mem: "demo_target \<in> set (sw_mat demo_with_file ?T)"
    using demo_target_facts(1) unfolding demo_target_def by (cases "sw_mat demo_with_file ?T") auto
  have vid: "mr_id demo_target = vd_id ?vd" using demo_target_facts(2) by (simp add: demo_point_def)
  note updated = update_sets_its_columns [OF dist cols mem vid demo_target_facts(3) run, unfolded if_P [OF demo_target_facts(5)]
      simp_thms if_True]
  from updated obtain r where "set (sw_mat ?w' ?T) = insert r {r' \<in> set (sw_mat demo_with_file ?T). mr_id r' \<noteq> vd_id ?vd}"
      "mr_inserted_at r = mr_inserted_at demo_target"
      "mr_point_in_time r = st_point_in_time (demo_stamp 2)"
      "\<forall>k \<in> set (data_keys (ds_keys demo_series)). mr_columns r (key_column k) =
          (if fst (snd k) \<notin> fst ` set (vd_payload ?vd) then mr_columns demo_target (key_column k)
           else sql_of k (vd_payload ?vd))"
    by blast
  then show ?thesis
    using demo_target_facts(4,6,8,9,10)
    by (intro bexI [of _ r]) (auto simp: demo_point_def demo_stamp_def sql_of_def plain_value_def)
qed

end
