(* ===== verification/Server_Types.thy ===== *)
theory Server_Types
  imports Server_Validate_Correct Server_Storage_Order
begin

text \<open>
  Validation and storage together: what validation accepts is stored with the types of the columns,
  and writes, deletions and maintenance keep every column of both tables of its type.
\<close>

section \<open>The types of the columns\<close>

definition column_typed :: "child_kind \<Rightarrow> sql_value \<Rightarrow> bool" where
  "column_typed kind v =
     (case v of
        SqlNull \<Rightarrow> True
      | SqlJson _ \<Rightarrow> kind = json_facts
      | Sql (PFloat _) \<Rightarrow> kind = float_facts
      | Sql (PStr _) \<Rightarrow> kind \<in> {string_facts, text_facts, dimensions, image_facts, file_facts}
      | Sql (PDateTime _) \<Rightarrow> kind = timestamp_facts
      | Sql (PBool _) \<Rightarrow> kind = boolean_facts
      | Sql _ \<Rightarrow> False)"

definition columns_typed :: "DataSeries \<Rightarrow> (string \<Rightarrow> sql_value) \<Rightarrow> bool" where
  "columns_typed ds columns \<longleftrightarrow> (\<forall>k \<in> set (data_keys (ds_keys ds)). column_typed (fst k) (columns (key_column k)))"

definition payload_typed :: "DataSeries \<Rightarrow> pydict \<Rightarrow> bool" where
  "payload_typed ds payload \<longleftrightarrow> (\<forall>k \<in> set (data_keys (ds_keys ds)). column_typed (fst k) (sql_of k payload))"

text \<open>The facts of the data series that validation checks for the columns of a kind, and how.\<close>

definition kind_facts :: "DataSeriesQueryInfo \<Rightarrow> child_kind \<Rightarrow> (string \<times> DataSeriesFactQueryInfo) list" where
  "kind_facts info kind =
     (case kind of
        image_facts \<Rightarrow> qi_image_facts info | file_facts \<Rightarrow> qi_file_facts info | float_facts \<Rightarrow> qi_float_facts info
      | string_facts \<Rightarrow> qi_string_facts info | json_facts \<Rightarrow> qi_json_facts info | dimensions \<Rightarrow> []
      | text_facts \<Rightarrow> qi_text_facts info | boolean_facts \<Rightarrow> qi_boolean_facts info
      | timestamp_facts \<Rightarrow> qi_timestamp_facts info)"

definition kind_validation :: "child_kind \<Rightarrow> fact_type_validation" where
  "kind_validation kind =
     (case kind of
        image_facts \<Rightarrow> is_image | file_facts \<Rightarrow> is_file | float_facts \<Rightarrow> is_float
      | string_facts \<Rightarrow> is_string | json_facts \<Rightarrow> is_json | dimensions \<Rightarrow> is_string
      | text_facts \<Rightarrow> is_text | boolean_facts \<Rightarrow> is_boolean | timestamp_facts \<Rightarrow> is_timestamp)"

text \<open>The keys of the table are fields that validation knows.\<close>

definition field_ids :: "DataSeriesQueryInfo \<Rightarrow> child_kind \<Rightarrow> string list" where
  "field_ids info kind =
     (if kind = dimensions then map dimension_external_id (info_dimensions info)
      else map (fact_external_id \<circ> snd) (kind_facts info kind))"

definition describes :: "DataSeriesQueryInfo \<Rightarrow> DataSeries \<Rightarrow> bool" where
  "describes info ds \<longleftrightarrow>
     list_all (\<lambda>(kind, external_id, uuid). external_id \<in> set (field_ids info kind)) (data_keys (ds_keys ds))"

section \<open>Validation stores typed values\<close>

lemma kind_fact_validated:
  "f \<in> snd ` set (kind_facts info kind) \<Longrightarrow> (kind_validation kind, f) \<in> set (info_facts info)"
  by (cases kind) (force simp: kind_facts_def kind_validation_def info_facts_def group_facts_def fact_groups_def)+

lemma stored_fact:
  assumes "distinct (info_ids (vr_info request))" and p: "p \<in> set (info_facts (vr_info request))"
  shows "stored_value h request (fact_key p) v = fact_out (fst p) (snd p) v"
proof -
  have "fact_key p \<notin> dimension_external_id ` set (info_dimensions (vr_info request))"
    and "distinct (map fact_key (info_facts (vr_info request)))"
    using assms by (auto simp: info_ids_def)
  then show ?thesis
    using find_unique [OF _ p, of fact_key]
    by (cases p) (simp add: stored_value_def find_key_None [THEN iffD2])
qed

lemma stored_dimension:
  assumes "distinct (info_ids (vr_info request))" and f: "f \<in> set (info_dimensions (vr_info request))"
  shows "stored_value h request (dimension_external_id f) v =
    dimension_out h (vr_external_id_as_dimension_identifier request) f v"
proof -
  have "distinct (map dimension_external_id (info_dimensions (vr_info request)))"
    using assms by (simp add: info_ids_def)
  from find_unique [OF this f] show ?thesis by (simp add: stored_value_def)
qed

lemma map_of_stored: "map_of (Server_Validate_Correct.stored h request payload) k =
    map_option (stored_value h request k) (map_of payload k)"
  by (induction payload) (auto simp: Server_Validate_Correct.stored_def)

lemma fact_typed_value:
  assumes "fact_typed (kind_validation kind) v \<or> v = PNone" and "kind \<noteq> dimensions"
  shows "column_typed kind (sql_of (kind, external_id, uuid) [(external_id, fact_out (kind_validation kind) f v)])"
  using assms
  by (cases kind; cases v)
    (auto simp: kind_validation_def fact_typed_def fact_out_def sql_of_def plain_value_def column_typed_def rbind_Inr_iff
      split: sum.splits)

lemma dimension_typed_value:
  assumes "dimension_good h ext accessor f (Some v)"
  shows "column_typed dimensions (sql_of (dimensions, external_id, uuid) [(external_id, dimension_out h ext f v)])"
  using assms
  by (cases v) (auto simp: dimension_good_def dimension_out_def sql_of_def plain_value_def column_typed_def)

lemma sql_of_single: "map_of payload external_id = Some v \<Longrightarrow>
    sql_of (kind, external_id, uuid) payload = sql_of (kind, external_id, uuid) [(external_id, v)]"
  by (simp add: sql_of_def)

lemma stored_typed:
  assumes ids: "distinct (info_ids (vr_info request))" and ok: "payload_ok h request payload"
    and ds: "describes (vr_info request) ds"
  shows "payload_typed ds (Server_Validate_Correct.stored h request payload)"
  unfolding payload_typed_def
proof
  fix k
  assume k: "k \<in> set (data_keys (ds_keys ds))"
  obtain kind external_id uuid where kk: "k = (kind, external_id, uuid)" by (cases k)
  have field: "external_id \<in> set (field_ids (vr_info request) kind)"
    using ds k unfolding describes_def kk list_all_iff by auto
  let ?payload' = "Server_Validate_Correct.stored h request payload"
  show "column_typed (fst k) (sql_of k ?payload')"
  proof (cases "map_of payload external_id")
    case None
    then have "sql_of k ?payload' = SqlNull" by (simp add: kk sql_of_def map_of_stored)
    then show ?thesis by (simp add: column_typed_def)
  next
    case (Some v)
    have stored: "sql_of k ?payload' = sql_of k [(external_id, stored_value h request external_id v)]"
      unfolding kk by (rule sql_of_single) (simp add: Some map_of_stored)
    show ?thesis
    proof (cases "kind = dimensions")
      case True
      then obtain f where f: "f \<in> set (info_dimensions (vr_info request))" "dimension_external_id f = external_id"
        using field by (auto simp: field_ids_def)
      have "dimension_good h (vr_external_id_as_dimension_identifier request) (vr_data_point_accessor request) f (Some v)"
        using ok f Some by (auto simp: payload_ok_def all_dimensions_ok_def list_all_iff)
      from dimension_typed_value [OF this] show ?thesis
        using stored stored_dimension [OF ids f(1)] f(2) True kk by simp
    next
      case False
      then obtain f where f: "f \<in> snd ` set (kind_facts (vr_info request) kind)" "fact_external_id f = external_id"
        using field by (auto simp: field_ids_def)
      note p = kind_fact_validated [OF f(1)]
      have "fact_typed (kind_validation kind) v \<or> v = PNone"
        using ok p f(2) Some by (auto simp: payload_ok_def all_facts_ok_def list_all_iff fact_ok_def fact_good_def)
      from fact_typed_value [OF this False] show ?thesis
        using stored stored_fact [OF ids p] f(2) kk by simp
    qed
  qed
qed


section \<open>Writes keep the types\<close>

definition tables_typed :: "DataSeries \<Rightarrow> mat_row list \<times> hist_row list \<Rightarrow> bool" where
  "tables_typed ds t \<longleftrightarrow>
     list_all (\<lambda>r. columns_typed ds (mr_columns r)) (fst t) \<and> list_all (\<lambda>h. columns_typed ds (hr_columns h)) (snd t)"

abbreviation keeps_types :: "DataSeries \<Rightarrow> ('s, 'a) storage_run \<Rightarrow> bool" where
  "keeps_types ds m \<equiv> achieves (\<lambda>w. tables_typed ds (tables ds w)) m (\<lambda>_ w. tables_typed ds (tables ds w))"

lemma stored_values_typed:
  assumes "distinct_columns ds" and "payload_typed ds payload"
  shows "columns_typed ds (columns_of (map (\<lambda>k. (key_column k, sql_of k payload)) (data_keys (ds_keys ds))))"
  unfolding columns_typed_def
proof
  fix k
  assume k: "k \<in> set (data_keys (ds_keys ds))"
  then have "map_of (map (\<lambda>k. (key_column k, sql_of k payload)) (data_keys (ds_keys ds))) (key_column k) = Some (sql_of k payload)"
    using assms(1) by (intro map_of_is_SomeI) (auto simp: distinct_columns_def comp_def)
  then show "column_typed (fst k) (columns_of (map (\<lambda>k. (key_column k, sql_of k payload)) (data_keys (ds_keys ds))) (key_column k))"
    using assms(2) k by (simp add: columns_of_def payload_typed_def)
qed

lemma columns_typed_mix:
  "columns_typed ds cs \<Longrightarrow> columns_typed ds cs' \<Longrightarrow> columns_typed ds (\<lambda>c. if c \<in> A then cs c else cs' c)"
  by (auto simp: columns_typed_def)

lemma central_insert_typed:
  assumes "central_insert cols st row rows = (inserted, rows')" and "columns_typed ds (mr_columns row)"
    and "list_all (\<lambda>r. columns_typed ds (mr_columns r)) rows"
  shows "list_all (\<lambda>r. columns_typed ds (mr_columns r)) rows' \<and>
    (case inserted of None \<Rightarrow> True | Some r \<Rightarrow> columns_typed ds (mr_columns r))"
proof (cases "find (\<lambda>r. mr_id r = mr_id row) rows")
  case None
  then show ?thesis using assms by (auto simp: central_insert_def)
next
  case (Some tgt)
  then have "columns_typed ds (mr_columns tgt)"
    using assms(3) find_id_SomeD by (fastforce simp: list_all_iff)
  then have "columns_typed ds (mr_columns (upsert_row cols row tgt))"
    using columns_typed_mix [OF assms(2)] by (simp add: upsert_row_def)
  then show ?thesis
    using assms(1,3) Some by (auto simp: central_insert_def Let_def put_row_def list_all_iff split: if_splits)
qed

lemma insert_history_Inr:
  "insert_history h hist = Inr hist' \<longleftrightarrow>
    (case h of None \<Rightarrow> hist' = hist | Some x \<Rightarrow> hr_key x \<notin> hr_key ` set hist \<and> hist' = hist @ [x])"
  by (auto simp: insert_history_def split: option.splits)

lemma write_row_typed:
  assumes "columns_typed ds (columns_of (snd data))"
  shows "keeps_types ds (write_row partial ds st data)"
proof (rule achievesI)
  fix w x w'
  let ?row = "values_to_insert st (fst data) (snd data)" and ?cols = "set_columns partial ds (fst data)"
  assume typed: "tables_typed ds (tables ds w)" and run: "write_row partial ds st data w = (Inr x, w')"
  obtain inserted rows where ins: "central_insert ?cols st ?row (sw_mat w (mat_table ds)) = (inserted, rows)" by fastforce
  have row: "columns_typed ds (mr_columns ?row)" using assms by (simp add: values_to_insert_def)
  have new: "list_all (\<lambda>r. columns_typed ds (mr_columns r)) rows \<and>
      (case inserted of None \<Rightarrow> True | Some r \<Rightarrow> columns_typed ds (mr_columns r))"
    using central_insert_typed [OF ins row] typed by (simp add: tables_typed_def tables_def)
  have hist: "columns_typed ds (hr_columns (history_of_insert ?cols st ?row r))" if "columns_typed ds (mr_columns r)" for r
    using columns_typed_mix [OF row that] by (simp add: history_of_insert_def insert_to_flat_history_query_def)
  show "tables_typed ds (tables ds w')"
    using run ins new typed hist
    by (auto simp: write_row_def Let_def insert_history_Inr tables_typed_def tables_def split: if_splits sum.splits option.splits)
qed

lemma delete_datapoint_typed: "keeps_types ds (delete_datapoint ds st i e)"
proof (rule achievesI)
  fix w x w'
  let ?ok = "\<lambda>r. columns_typed ds (mr_columns r)"
  assume typed: "tables_typed ds (tables ds w)" and run: "delete_datapoint ds st i e w = (Inr x, w')"
  obtain deleted rows where del: "central_update_query st i e (sw_mat w (mat_table ds)) = (deleted, rows)" by fastforce
  have none: "columns_typed ds (\<lambda>_. SqlNull)" by (simp add: columns_typed_def column_typed_def)
  have new: "list_all ?ok rows \<and> (case deleted of None \<Rightarrow> True | Some r \<Rightarrow> ?ok r)"
  proof (cases "find (\<lambda>r. mr_id r = i) (sw_mat w (mat_table ds))")
    case None
    then show ?thesis using del typed none by (auto simp: central_update_query_def Let_def tables_typed_def tables_def)
  next
    case (Some tgt)
    then have "?ok tgt" using typed find_id_SomeD by (fastforce simp: list_all_iff tables_typed_def tables_def)
    then show ?thesis
      using del typed Some
      by (auto simp: central_update_query_def Let_def tables_typed_def tables_def put_row_def list_all_iff split: if_splits)
  qed
  show "tables_typed ds (tables ds w')"
    using run del new typed
    by (auto simp: delete_datapoint_def insert_history_Inr Let_def tables_typed_def tables_def history_of_delete_def
        insert_to_flat_history_query_def split: if_splits sum.splits option.splits)
qed

lemma on_registry_typed: "keeps_types ds (on_registry m)"
  unfolding tables_def by (rule on_registry_tables [where Q = "\<lambda>m h. tables_typed ds (m (mat_table ds), h (hist_table ds))"])

lemma publish_typed: "keeps_types ds (publish pub ds st payload event_type)"
  by (rule achievesI) (auto simp: publish_def tables_def)

lemma all_row_values:
  "achieves (\<lambda>_. True) (api_map (row_values storage ds st) vds)
    (\<lambda>vals _. vals = map (\<lambda>vd. stored_values ds vd) vds)"
proof (induction vds)
  case (Cons vd vds)
  show ?case
    unfolding api_map.simps
    by (rule achieves_bind [OF row_values_sql], rule achievesI)
      (auto dest!: api_bind_Inr_split achievesD [OF Cons.IH] simp: api_return_def)
qed (auto intro: achieves_return)

lemma impl_typed:
  assumes "distinct_columns ds" and "\<And>vd. vd \<in> set vds \<Longrightarrow> payload_typed ds (vd_payload vd)"
  shows "keeps_types ds (insert_or_update_data_points_impl storage partial repeated ds st vds :: ('s, unit) storage_run)"
proof -
  let ?T = "\<lambda>w :: 's storage_world. tables_typed ds (tables ds w)"
  have vals: "achieves ?T (on_registry (api_map (row_values storage ds st) vds)) (\<lambda>vals w. vals = map (stored_values ds) vds \<and> ?T w)"
    by (rule achievesI) (auto simp: on_registry_def tables_def split: prod.splits dest!: achievesD [OF all_row_values])
  have row: "keeps_types ds (write_row partial ds st (vd, stored_values ds vd) :: ('s, unit) storage_run)" if "vd \<in> set vds" for vd
    using stored_values_typed [OF assms(1) assms(2) [OF that]] by (intro write_row_typed) (simp add: stored_values_def)
  have rows: "keeps_types ds (api_for (write_row partial ds st) (zip vds (map (stored_values ds) vds)) :: ('s, unit) storage_run)"
    by (rule achieves_for) (auto simp: zip_map2 zip_same_conv_map row)
  have mark: "keeps_types ds (api_when b (registry_update f) :: ('s, unit) storage_run)" for b f
    unfolding registry_update_def by (rule achieves_when [OF on_registry_typed]) simp
  show ?thesis
    unfolding insert_or_update_data_points_impl_def
  proof (rule achieves_bind [OF vals], rule achieves_assume, goal_cases)
    case (1 vals)
    show ?case unfolding 1
      by (rule achieves_bind [OF mark]) (auto intro: achieves_raise rows)
  qed
qed

lemma patch_typed:
  assumes "distinct_columns ds" and "\<And>vd. vd \<in> set vds \<Longrightarrow> payload_typed ds (vd_payload vd)"
  shows "keeps_types ds (patch_data_points storage repeated ds st vds)"
  using assms(2)
  by (induction vds arbitrary: repeated) (auto intro!: achieves_return achieves_bind impl_typed assms(1))

lemma create_typed:
  assumes "distinct_columns ds" and "\<And>vd. vd \<in> set vds \<Longrightarrow> payload_typed ds (vd_payload vd)"
  shows "keeps_types ds (create_data_points pub storage partial ds st vds)"
  unfolding create_data_points_def insert_or_update_data_points_def Let_def
  by (auto intro!: achieves_raise achieves_return achieves_bind [OF publish_typed] achieves_bind
      [where m = "patch_data_points _ _ _ _ _", OF patch_typed] achieves_bind
      [where m = "insert_or_update_data_points_impl _ _ _ _ _ _", OF impl_typed] assms)

lemma set_missing_value:
  "map_of (vd_payload (set_missing_structure_elements_to_none_with_flattened_keys fs vd)) k =
    (case map_of (vd_payload vd) k of None \<Rightarrow> if k \<in> fst ` set fs then Some PNone else None | v \<Rightarrow> v)"
proof -
  let ?add = "\<lambda>(external_id, uuid) payload.
      if external_id \<in> fst ` set payload then payload else payload @ [(external_id, PNone)]"
  have mem: "x \<in> fst ` set p \<longleftrightarrow> map_of p x \<noteq> None" for x and p :: pydict by (simp add: map_of_eq_None_iff)
  have step: "map_of (?add f p) k = (if map_of p k = None \<and> k = fst f then Some PNone else map_of p k)"
    for f :: "string \<times> string" and p :: pydict
    by (cases f) (auto simp: map_add_def mem split: option.splits)
  have "map_of (fold ?add fs p) k =
      (case map_of p k of None \<Rightarrow> if k \<in> fst ` set fs then Some PNone else None | v \<Rightarrow> v)" for p :: pydict
  proof (induction fs arbitrary: p)
    case (Cons f fs)
    show ?case unfolding fold_simps comp_apply Cons.IH step by (auto split: option.splits)
  qed (simp split: option.split)
  then show ?thesis by (simp add: set_missing_structure_elements_to_none_with_flattened_keys_def)
qed

lemma set_missing_typed:
  assumes "payload_typed ds (vd_payload vd)"
  shows "payload_typed ds (vd_payload (set_missing_structure_elements_to_none_with_flattened_keys fs vd))"
  unfolding payload_typed_def
proof
  fix k
  assume k: "k \<in> set (data_keys (ds_keys ds))"
  obtain kind external_id uuid where kk: "k = (kind, external_id, uuid)" by (cases k)
  have "column_typed kind (sql_of k (vd_payload vd))" using assms k kk by (auto simp: payload_typed_def)
  then show "column_typed (fst k) (sql_of k (vd_payload (set_missing_structure_elements_to_none_with_flattened_keys fs vd)))"
    by (auto simp: kk sql_of_def set_missing_value plain_value_def column_typed_def split: option.splits)
qed

lemma persist_typed:
  assumes "distinct_columns ds" and "\<And>vd. vd \<in> set vds \<Longrightarrow> payload_typed ds (vd_payload vd)"
  shows "keeps_types ds (persist_data_point_chunk pub storage n ds st vds)"
  unfolding persist_data_point_chunk_def Let_def
proof (rule achieves_for)
  fix chunk
  assume c: "chunk \<in> set (data_chunks n (map (set_missing_structure_elements_to_none_with_flattened_keys
    (flatten_serialization_keys (ds_keys ds))) vds))"
  show "keeps_types ds (api_bind (api_lift chunk) (\<lambda>chunk_list.
      api_ignore (create_data_points pub storage False ds st chunk_list)))"
  proof (cases chunk)
    case (Inr xs)
    have "payload_typed ds (vd_payload vd)" if "vd \<in> set xs" for vd
      using data_chunks_members [OF c [unfolded Inr] that] assms(2) by (auto intro: set_missing_typed)
    then show ?thesis unfolding Inr lift_bind by (intro achieves_ignore create_typed assms(1))
  qed (auto simp: achieves_def api_bind_def api_lift_def)
qed

lemma update_data_typed:
  "payload_typed ds (vd_payload vd) \<Longrightarrow>
    payload_typed ds (vd_payload (if patch then vd else set_missing_structure_elements_to_none (ds_keys ds) vd))"
  by (simp add: set_missing_structure_elements_to_none_def set_missing_typed)

lemma destroy_typed: "keeps_types ds (destroy_object pub ds st i e)"
  unfolding destroy_object_def by (intro achieves_bind [OF _ publish_typed] achieves_when delete_datapoint_typed)

lemma pruned_typed: "tables_typed ds t \<Longrightarrow> tables_typed ds (pruned_tables older_than t)"
  by (cases t) (auto simp: tables_typed_def pruned_tables_def Let_def list_all_iff)

section \<open>Properties\<close>

text \<open>Data that validation has accepted, for a data series whose table has columns for the fields it knows.\<close>

definition accepted_data :: "DataSeries \<Rightarrow> ValidatedData \<Rightarrow> bool" where
  "accepted_data ds vd \<longleftrightarrow>
     (\<exists>ord h request data data'. validate ord h data request = Inr data' \<and>
        map_of data' ''payload'' = Some (PDict (vd_payload vd)) \<and>
        (case map_of data ''payload'' of Some (PDict payload) \<Rightarrow> distinct (keys payload) | _ \<Rightarrow> True) \<and>
        distinct (info_ids (vr_info request)) \<and> describes (vr_info request) ds)"

lemma accepted_typed:
  assumes "accepted_data ds vd"
  shows "payload_typed ds (vd_payload vd)"
proof -
  from assms obtain ord h request data data' where v: "validate ord h data request = Inr data'"
    and p: "map_of data' ''payload'' = Some (PDict (vd_payload vd))"
    and d: "case map_of data ''payload'' of Some (PDict payload) \<Rightarrow> distinct (keys payload) | _ \<Rightarrow> True"
    and ids: "distinct (info_ids (vr_info request))" and ds: "describes (vr_info request) ds"
    unfolding accepted_data_def by blast
  from validate_sound_complete [OF ids d, THEN iffD1, OF v] obtain payload where ok: "payload_ok h request payload"
    and data': "data' = validated h request data (Server_Validate_Correct.stored h request payload)" by blast
  have "vd_payload vd = Server_Validate_Correct.stored h request payload"
    using p by (simp add: data' validated_def dict_simps)
  then show ?thesis using stored_typed [OF ids ok ds] by simp
qed

inductive validated_step :: "'s publisher \<Rightarrow> file_storage \<Rightarrow> DataSeries \<Rightarrow> 's storage_world \<Rightarrow> 's storage_world \<Rightarrow> bool"
  for pub storage ds
  where
    create: "impl_create pub storage ds st vd w = (res, w') \<Longrightarrow> accepted_data ds vd \<Longrightarrow> validated_step pub storage ds w w'"
  | update: "impl_update pub storage patch ds st vd w = (res, w') \<Longrightarrow> accepted_data ds vd \<Longrightarrow> validated_step pub storage ds w w'"
  | bulk: "atomic (persist_data_point_chunk pub storage batch_size ds st vds) w = (res', w') \<Longrightarrow>
      (\<And>vd. vd \<in> set vds \<Longrightarrow> accepted_data ds vd) \<Longrightarrow> validated_step pub storage ds w w'"
  | delete: "atomic (destroy_object pub ds st i e) w = (res', w') \<Longrightarrow> validated_step pub storage ds w w'"
  | maintain: "maintenance_step pub storage ds w w' \<Longrightarrow> validated_step pub storage ds w w'"

lemma atomic_typed:
  assumes "keeps_types ds m" and "atomic m w = (res, w')" and "tables_typed ds (tables ds w)"
  shows "tables_typed ds (tables ds w')"
  using atomic_run [OF assms(2)] achievesD [OF assms(1) _ assms(3)] assms(3) by (auto simp: tables_def)

lemma validated_step_typed:
  assumes "validated_step pub storage ds w w'" and "distinct_columns ds" and "is_flat ds"
    and "tables_typed ds (tables ds w)"
  shows "tables_typed ds (tables ds w')"
  using assms(1)
proof cases
  case (create st vd res)
  have "keeps_types ds (create_data_points pub storage False ds st [vd])"
    by (intro create_typed assms(2)) (simp add: accepted_typed [OF create(2)])
  from atomic_typed [OF this create(1) [unfolded impl_create_def] assms(4)] show ?thesis .
next
  case (update patch st vd res)
  have "keeps_types ds (create_data_points pub storage patch ds st
      [if patch then vd else set_missing_structure_elements_to_none (ds_keys ds) vd])"
    by (intro create_typed assms(2)) (use update_data_typed [OF accepted_typed [OF update(2)]] in auto)
  from atomic_typed [OF this update(1) [unfolded impl_update_def Let_def] assms(4)] show ?thesis .
next
  case (bulk batch_size st vds res)
  have "keeps_types ds (persist_data_point_chunk pub storage batch_size ds st vds)"
    using bulk(2) by (intro persist_typed assms(2) accepted_typed)
  from atomic_typed [OF this bulk(1) assms(4)] show ?thesis .
next
  case (delete st i e res)
  from atomic_typed [OF destroy_typed delete assms(4)] show ?thesis .
next
  case maintain
  have "tables_typed ds ([], [])" by (simp add: tables_typed_def)
  then show ?thesis
    using maintenance_tables [OF maintain assms(3)] pruned_typed [OF assms(4)] assms(4) by auto
qed

lemma validated_steps_typed:
  "(validated_step pub storage ds)\<^sup>*\<^sup>* w0 w \<Longrightarrow> empty_tables ds w0 \<Longrightarrow> distinct_columns ds \<Longrightarrow>
    tables_typed ds (tables ds w)"
  by (induction rule: rtranclp_induct)
    (auto simp: empty_tables_def tables_def tables_typed_def dest: validated_step_typed)

text \<open>C12: Whatever requests create, update, patch, write in bulk and delete data points, and whenever
  pruning, truncation and garbage collection run in between: as long as validation has accepted the data, every column
  of the table of current versions and of the history holds \<open>NULL\<close> or a value of the type of its
  fact or dimension.\<close>

theorem stored_columns_are_typed:
  assumes "empty_tables ds w0" and "distinct_columns ds" and "(validated_step pub storage ds)\<^sup>*\<^sup>* w0 w"
    and "k \<in> set (data_keys (ds_keys ds))"
  shows "list_all (\<lambda>r. column_typed (fst k) (mr_columns r (key_column k))) (sw_mat w (mat_table ds)) \<and>
    list_all (\<lambda>h. column_typed (fst k) (hr_columns h (key_column k))) (sw_hist w (hist_table ds))"
  using validated_steps_typed [OF assms(3,1,2)] assms(4)
  by (auto simp: tables_typed_def tables_def columns_typed_def list_all_iff)

text \<open>A data series with a float fact and a dimension: the integer of the request is stored as a float.\<close>

definition typed_series :: DataSeries where
  "typed_series = demo_series\<lparr>ds_keys := (\<lambda>kind. if kind = float_facts then [(''t'', ''f1'')]
     else if kind = dimensions then [(''d'', ''f2'')] else [])\<rparr>"

definition typed_point :: ValidatedData where
  "typed_point = \<lparr>vd_id = ''s-e'', vd_external_id = ''e'', vd_payload = [(''t'', PFloat (Fin 3 0)), (''d'', PStr ''r-x'')]\<rparr>"

lemma typed_point_accepted: "accepted_data typed_series typed_point"
  unfolding accepted_data_def
proof (intro exI conjI)
  show "validate rev (\<lambda>s. s) [(''external_id'', PStr ''e''), (''payload'', PDict [(''t'', PInt 3), (''d'', PStr ''x'')])]
      sample_request = Inr [(''external_id'', PStr ''e''), (''payload'', PDict [(''t'', PFloat (Fin 3 0)), (''d'', PStr ''r-x'')]),
     (''id'', PStr ''s-e'')]" by (rule sample_validated)
  show "describes (vr_info sample_request) typed_series" by code_simp
qed (auto simp: sample_ids typed_point_def)

definition typed_world :: "unit storage_world" where
  "typed_world = snd (impl_create demo_publisher demo_storage typed_series (demo_stamp 1) typed_point demo_start)"

theorem stored_columns_are_typed_witness:
  "list_all (\<lambda>r. column_typed float_facts (mr_columns r ''f1_t'')) (sw_mat typed_world (mat_table typed_series)) \<and>
    map (\<lambda>r. mr_columns r ''f1_t'') (sw_mat typed_world (mat_table typed_series)) = [Sql (PFloat (Fin 3 0))]"
proof
  have start: "empty_tables typed_series demo_start" by (simp add: empty_tables_def typed_series_def demo_series_def demo_start_def)
  have cols: "distinct_columns typed_series" by code_simp
  have "validated_step demo_publisher demo_storage typed_series demo_start typed_world"
    unfolding typed_world_def by (rule validated_step.create [OF surjective_pairing typed_point_accepted])
  then have steps: "(validated_step demo_publisher demo_storage typed_series)\<^sup>*\<^sup>* demo_start typed_world" by blast
  have k: "(float_facts, ''t'', ''f1'') \<in> set (data_keys (ds_keys typed_series))"
    and "key_column (float_facts, ''t'', ''f1'') = ''f1_t''" by code_simp+
  with stored_columns_are_typed [OF start cols steps k]
  show "list_all (\<lambda>r. column_typed float_facts (mr_columns r ''f1_t'')) (sw_mat typed_world (mat_table typed_series))" by simp
  show "map (\<lambda>r. mr_columns r ''f1_t'') (sw_mat typed_world (mat_table typed_series)) = [Sql (PFloat (Fin 3 0))]" by code_simp
qed

end
