(* ===== verification/Server_Events_Correct.thy ===== *)
theory Server_Events_Correct
  imports Server_Events
begin

text \<open>
  The delivery of events against an abstract queue: \<open>delivery\<close> says which event may be attempted
  (the head of the pending ones) and what becomes of it, and \<open>try_send_events\<close> performs nothing
  but such steps. A relation that holds of every attempt (\<open>attempt_relation\<close>) holds of every
  heartbeat: so the order of delivery and the bound of the retries carry over from one attempt to
  the steps of the whole event system. A heartbeat ends, and with a consumer that answers it delivers
  all that is pending.
\<close>

section \<open>What the operations leave alone\<close>

text \<open>Only the outside and the clock, which does not run backwards.\<close>

definition clock_only :: "'s event_world \<Rightarrow> 's event_world \<Rightarrow> bool" where
  "clock_only w w' \<longleftrightarrow> ew_now w \<le> ew_now w' \<and> ew_next_id w' = ew_next_id w \<and> ew_events w' = ew_events w \<and>
     ew_consumers w' = ew_consumers w \<and> ew_links w' = ew_links w \<and> ew_posts w' = ew_posts w \<and>
     ew_tasks w' = ew_tasks w"

lemma clock_only_refl [simp, intro]: "clock_only w w"
  by (simp add: clock_only_def)

lemma clock_only_trans [trans]: "clock_only w w' \<Longrightarrow> clock_only w' w'' \<Longrightarrow> clock_only w w''"
  by (simp add: clock_only_def)

lemma clock_only_fields:
  assumes "clock_only w w'"
  shows "ew_events w' = ew_events w" and "ew_posts w' = ew_posts w" and "ew_consumers w' = ew_consumers w"
    and "ew_links w' = ew_links w" and "ew_next_id w' = ew_next_id w" and "ew_tasks w' = ew_tasks w"
    and "ew_now w \<le> ew_now w'"
  using assms by (auto simp: clock_only_def)

lemma clock_only_outside [simp, intro]: "clock_only w (w\<lparr>ew_outside := s\<rparr>)"
  by (simp add: clock_only_def)

lemma timezone_now_run: "timezone_now out w = (now, w') \<Longrightarrow> clock_only w w' \<and> now = ew_now w'"
  by (auto simp: timezone_now_def clock_only_def split: prod.splits)

lemma check_handle_at_run:
  assumes "check_handle_at out c e w = (r, w')"
  shows "clock_only w w'"
    and "r = Some e' \<Longrightarrow> (\<forall>t. ev_handle_at e = Some t \<longrightarrow> t \<le> ew_now w') \<and>
      (e' = e \<or> e' = e\<lparr>ev_backoff_cycles := ev_backoff_cycles e + 1, ev_retries_in_cycle := 0\<rparr>)"
    and "r = None \<Longrightarrow> \<exists>t. ev_handle_at e = Some t \<and> ew_now w' < t"
  using assms
  by (auto simp: check_handle_at_def dest!: timezone_now_run split: option.splits prod.splits if_splits)

lemma consumer_headers_run:
  assumes "consumer_headers out c w = (hs, c', w')"
  shows "clock_only w w' \<and> (\<exists>h. c' = c\<lparr>con_headers := h\<rparr>)"
proof -
  have "\<exists>h. c = c\<lparr>con_headers := h\<rparr>" by (rule exI [of _ "con_headers c"]) simp
  with assms show ?thesis
    by (auto simp: consumer_headers_def Let_def split: prod.splits if_splits option.splits)
qed

lemma backoff_at_run:
  "backoff_at out c w = (r, w') \<Longrightarrow> clock_only w w' \<and> r = datetime_add (ew_now w') (con_retry_backoff_delay c)"
  using timezone_now_run by (fastforce simp: backoff_at_def split: prod.splits)

lemma retry_at_run: "retry_at_from_response out rs w = (r, w') \<Longrightarrow> clock_only w w'"
  using timezone_now_run
  by (fastforce simp: retry_at_from_response_def split: option.splits prod.splits sum.splits)

lemma next_handle_at_run:
  assumes "next_handle_at out c resp e w = (r, w')"
  shows "clock_only w w' \<and> (\<forall>err. r = Inl err \<longrightarrow> err = OverflowError)"
proof -
  have delay: "clock_only w w2 \<and> (\<forall>err. r2 = Inl err \<longrightarrow> err = OverflowError)"
    if "clock_only w w1" and "(case backoff_at out c w1 of (Inl err, w1) \<Rightarrow> (Inl err, w1) | (Inr t, w1) \<Rightarrow> (Inr (Some t), w1)) = (r2, w2)"
    for w1 w2 and r2 :: "int option result"
    using that backoff_at_run [of out c w1] clock_only_trans [OF that(1)]
    by (auto simp: datetime_add_def split: prod.splits sum.splits if_splits)
  show ?thesis
    using assms delay [OF clock_only_refl] delay [OF retry_at_run] retry_at_run [of out "the resp" w]
    unfolding next_handle_at_def Let_def
    by (auto split: prod.splits option.splits if_splits)
qed

section \<open>One attempt\<close>

definition same_event :: "ConsumerEvent \<Rightarrow> ConsumerEvent \<Rightarrow> bool" where
  "same_event e e' \<longleftrightarrow> ev_id e' = ev_id e \<and> ev_tenant e' = ev_tenant e \<and>
     ev_point_in_time e' = ev_point_in_time e \<and> ev_sub_clock e' = ev_sub_clock e \<and>
     ev_consumer e' = ev_consumer e \<and> ev_payload e' = ev_payload e \<and> ev_event_type e' = ev_event_type e"

text \<open>What a delivery and a failed attempt make of an event.\<close>

definition delivered :: "ConsumerEvent \<Rightarrow> ConsumerEvent \<Rightarrow> bool" where
  "delivered e e' \<longleftrightarrow> same_event e e' \<and> ev_state e' = SUCCESS \<and> ev_retries e' = ev_retries e \<and>
     ev_exception e' = None"

definition failed_attempt :: "EventConsumer \<Rightarrow> ConsumerEvent \<Rightarrow> ConsumerEvent \<Rightarrow> bool" where
  "failed_attempt c e e' \<longleftrightarrow> same_event e e' \<and> ev_retries e' = ev_retries e + 1 \<and>
     ev_state e' = failed_state c e' \<and> ev_exception e' \<noteq> None"

definition like :: "EventConsumer \<Rightarrow> EventConsumer \<Rightarrow> bool" where
  "like c c' \<longleftrightarrow> con_id c' = con_id c \<and> con_tenant c' = con_tenant c \<and> con_tenant_name c' = con_tenant_name c \<and>
     con_target c' = con_target c \<and> con_mode c' = con_mode c \<and> con_timeout c' = con_timeout c \<and>
     con_retry_backoff_every c' = con_retry_backoff_every c \<and>
     con_retry_backoff_delay c' = con_retry_backoff_delay c \<and> con_retry_max c' = con_retry_max c"

lemma like_refl [simp, intro]: "like c c"
  by (simp add: like_def)

lemma like_trans [trans]: "like c c' \<Longrightarrow> like c' c'' \<Longrightarrow> like c c''"
  by (simp add: like_def)

lemma like_headers [simp]: "like c (c\<lparr>con_headers := h\<rparr>)"
  by (simp add: like_def)

lemma failed_state_not_success [simp]: "failed_state c e \<noteq> SUCCESS" "SUCCESS \<noteq> failed_state c e"
  by (simp_all add: failed_state_def)

lemma failed_state_cong: "like c c' \<Longrightarrow> ev_retries e' = ev_retries e \<Longrightarrow> failed_state c' e' = failed_state c e"
  by (simp add: failed_state_def like_def)

lemma event_body_cong:
  "like c c' \<Longrightarrow> same_event e e' \<Longrightarrow> event_body out c' e' = event_body out c e"
  by (simp add: event_body_def like_def same_event_def)

lemma handle_failure_run:
  assumes "handle_failure out c resp exc e w = (r, w')"
  shows "clock_only w w' \<and> (case r of Inl err \<Rightarrow> err = OverflowError | Inr (e', h) \<Rightarrow> failed_attempt c e e')"
proof -
  let ?e = "(if resp = None then e\<lparr>ev_response := None, ev_status_code := None, ev_response_headers := None\<rparr> else e)
    \<lparr>ev_exception := Some exc, ev_retries := ev_retries e + 1, ev_retries_in_cycle := ev_retries_in_cycle e + 1\<rparr>"
  obtain r1 w1 where next': "next_handle_at out c resp ?e w = (r1, w1)" by fastforce
  have "same_event e ?e" "ev_retries ?e = ev_retries e + 1" "ev_exception ?e = Some exc"
    by (simp_all add: same_event_def)
  with assms next_handle_at_run [OF next'] next' show ?thesis
    by (auto simp: handle_failure_def Let_def failed_attempt_def same_event_def failed_state_def
        split: sum.splits if_splits)
qed

lemma record_response_same: "same_event e (record_response netloc rs e)" "ev_retries (record_response netloc rs e) = ev_retries e"
  by (simp_all add: record_response_def same_event_def)

lemma same_event_trans: "same_event e e' \<Longrightarrow> same_event e' e'' \<Longrightarrow> same_event e e''"
  by (simp add: same_event_def)

lemma handle_answer_run:
  assumes "handle_answer out c netloc answer e w = (r, w')"
  shows "clock_only w w' \<and> (case r of Inl err \<Rightarrow> err = OverflowError
    | Inr (e', h) \<Rightarrow> (if ev_state e' = SUCCESS then delivered e e' else failed_attempt c e e'))"
proof (cases answer)
  case (Inl exc)
  with assms handle_failure_run [of out c None exc e w] show ?thesis
    by (auto simp: handle_answer_def failed_attempt_def split: sum.splits prod.splits)
next
  case (Inr rs)
  let ?e = "record_response netloc rs e"
  from assms Inr handle_failure_run [of out c "Some rs" "out_http_error out rs" ?e w r w'] show ?thesis
    using record_response_same [where e = e and netloc = netloc and rs = rs]
    by (auto simp: handle_answer_def Let_def delivered_def failed_attempt_def same_event_def
        split: sum.splits prod.splits if_splits)
qed

text \<open>Writing a row.\<close>

definition store_event :: "ConsumerEvent \<Rightarrow> ConsumerEvent list \<Rightarrow> ConsumerEvent list" where
  "store_event e events = map (\<lambda>x. if ev_id x = ev_id e then e else x) events"

lemma store_event_ids [simp]: "map ev_id (store_event e events) = map ev_id events"
  by (simp add: store_event_def comp_def)

lemma save_event_run:
  "\<exists>t. ew_events (save_event out e w) = store_event (e\<lparr>ev_last_updated_at := t\<rparr>) (ew_events w) \<and>
    clock_only w ((save_event out e w)\<lparr>ew_events := ew_events w\<rparr>)"
proof -
  obtain now w1 where now: "timezone_now out w = (now, w1)" by fastforce
  from timezone_now_run [OF this] have "clock_only w w1" by simp
  with now show ?thesis
    by (auto simp: save_event_def store_event_def clock_only_def intro!: exI [of _ now])
qed

lemma post_request_json: "pr_json (post_request out proxy_url netloc c hs e) = event_body out c e"
  by (simp add: post_request_def Let_def split: option.split list.split)

text \<open>
  One round of the loop: one request with the body of the event; then the row is written as
  delivered or failed, unless the backoff time cannot be computed.
\<close>

lemma send_event_run:
  assumes "send_event out proxy_url netloc c e w = (r, c', w')"
  shows "like c c'"
    and "\<exists>t rq. ew_posts w' = ew_posts w @ [(t, rq)] \<and> pr_json rq = event_body out c e \<and>
      ew_now w \<le> t \<and> t \<le> ew_now w'"
    and "ew_consumers w' = ew_consumers w \<and> ew_links w' = ew_links w \<and> ew_next_id w' = ew_next_id w \<and>
      ew_tasks w' = ew_tasks w"
    and "case r of Inl err \<Rightarrow> err = OverflowError \<and> ew_events w' = ew_events w
      | Inr (failed, h) \<Rightarrow> \<exists>e'. ew_events w' = store_event e' (ew_events w) \<and>
          (if failed then failed_attempt c e e' else delivered e e')"
proof -
  obtain hs c1 w1 where 1: "consumer_headers out c w = (hs, c1, w1)" by (metis prod_cases3)
  let ?rq = "post_request out proxy_url netloc c1 hs e"
  obtain answer w2 where 2: "requests_post out ?rq w1 = (answer, w2)" by fastforce
  obtain r3 w3 where 3: "handle_answer out c1 netloc answer e w2 = (r3, w3)" by fastforce
  from consumer_headers_run [OF 1] have c1: "like c c1" and w1: "clock_only w w1" by auto
  from 2 have w2: "ew_posts w2 = ew_posts w1 @ [(ew_now w1, ?rq)]" "ew_now w1 \<le> ew_now w2"
    "ew_events w2 = ew_events w1" "ew_consumers w2 = ew_consumers w1" "ew_links w2 = ew_links w1"
    "ew_next_id w2 = ew_next_id w1" "ew_tasks w2 = ew_tasks w1"
    by (auto simp: requests_post_def split: prod.splits)
  note w3 = handle_answer_run [OF 3]
  have body: "pr_json ?rq = event_body out c e"
    using event_body_cong [OF c1, of e e] by (simp add: post_request_json same_event_def)
  have fail: "failed_attempt c1 e e' \<longleftrightarrow> failed_attempt c e e'" for e'
    using failed_state_cong [OF c1] by (simp add: failed_attempt_def)
  from assms have run: "(r, c', w') = (case r3 of Inl err \<Rightarrow> (Inl err, c1, w3)
      | Inr (e1, h) \<Rightarrow> (Inr (ev_state e1 \<noteq> SUCCESS, h), c1, save_event out e1 w3))"
    by (simp add: send_event_def 1 2 3 split: sum.splits prod.splits)
  then show "like c c'" using c1 by (auto split: sum.splits)
  have after: "ew_posts w' = ew_posts w3 \<and> ew_now w3 \<le> ew_now w' \<and> ew_consumers w' = ew_consumers w3 \<and>
      ew_links w' = ew_links w3 \<and> ew_next_id w' = ew_next_id w3 \<and> ew_tasks w' = ew_tasks w3"
    using run save_event_run [of out _ w3] by (auto simp: clock_only_def split: sum.splits)
  with w1 w2 w3 show "ew_consumers w' = ew_consumers w \<and> ew_links w' = ew_links w \<and>
      ew_next_id w' = ew_next_id w \<and> ew_tasks w' = ew_tasks w"
    by (simp add: clock_only_def)
  show "\<exists>t rq. ew_posts w' = ew_posts w @ [(t, rq)] \<and> pr_json rq = event_body out c e \<and>
      ew_now w \<le> t \<and> t \<le> ew_now w'"
    using w1 w2 w3 after body by (intro exI [of _ "ew_now w1"] exI [of _ ?rq]) (auto simp: clock_only_def)
  show "case r of Inl err \<Rightarrow> err = OverflowError \<and> ew_events w' = ew_events w
      | Inr (failed, h) \<Rightarrow> \<exists>e'. ew_events w' = store_event e' (ew_events w) \<and>
          (if failed then failed_attempt c e e' else delivered e e')"
  proof (cases r3)
    case (Inl err)
    with run w1 w2 w3 show ?thesis by (simp add: clock_only_def)
  next
    case (Inr p)
    obtain e1 h where p: "p = (e1, h)" by (cases p)
    from save_event_run [of out e1 w3] obtain t where
      t: "ew_events (save_event out e1 w3) = store_event (e1\<lparr>ev_last_updated_at := t\<rparr>) (ew_events w3)" by blast
    from Inr p run have r: "r = Inr (ev_state e1 \<noteq> SUCCESS, h)" "w' = save_event out e1 w3" by simp_all
    from w3 Inr p have "if ev_state e1 = SUCCESS then delivered e e1 else failed_attempt c e e1"
      by (simp add: fail split: if_splits)
    then have "if ev_state e1 \<noteq> SUCCESS then failed_attempt c e (e1\<lparr>ev_last_updated_at := t\<rparr>)
        else delivered e (e1\<lparr>ev_last_updated_at := t\<rparr>)"
      by (simp add: delivered_def failed_attempt_def same_event_def failed_state_def split: if_splits)
    moreover have "ew_events w3 = ew_events w" using w1 w2 w3 by (simp add: clock_only_def)
    ultimately show ?thesis unfolding r using t by auto
  qed
qed

section \<open>The abstract queue\<close>

text \<open>
  The pending events are a queue. Its head is delivered and leaves it, or the attempt fails, which
  ends the run; nothing but the head is ever attempted. The trace tells the attempts, with whether
  they succeeded.
\<close>

inductive delivery ::
  "EventConsumer \<Rightarrow> ConsumerEvent list \<Rightarrow> (ConsumerEvent \<times> bool) list \<Rightarrow> ConsumerEvent list \<Rightarrow> bool" for c where
  stop: "delivery c T [] T"
| deliver: "pending_events c T = e # es \<Longrightarrow> delivered e e' \<Longrightarrow> delivery c (store_event e' T) tr T' \<Longrightarrow>
    delivery c T ((e, True) # tr) T'"
| fail: "pending_events c T = e # es \<Longrightarrow> failed_attempt c e e' \<Longrightarrow>
    delivery c T [(e, False)] (store_event e' T)"

lemma pending_events_cong: "like c c' \<Longrightarrow> pending_events c' T = pending_events c T"
  by (simp add: pending_events_def like_def)

lemma failed_attempt_cong: "like c c' \<Longrightarrow> failed_attempt c' e e' = failed_attempt c e e'"
  using failed_state_cong by (auto simp: failed_attempt_def)

lemma delivery_cong: "delivery c T tr T' \<Longrightarrow> like c c' \<Longrightarrow> delivery c' T tr T'"
  by (induction rule: delivery.induct)
    (auto intro: delivery.intros simp: pending_events_cong failed_attempt_cong)

lemma pending_events_set:
  "set (pending_events c T) = {e \<in> set T. ev_state e \<notin> {FAILED, SUCCESS} \<and> ev_consumer e = con_id c}"
  by (auto simp: pending_events_def)

lemma pending_events_ids: "distinct (map ev_id T) \<Longrightarrow> distinct (map ev_id (pending_events c T))"
proof -
  assume d: "distinct (map ev_id T)"
  let ?P = "filter (\<lambda>e. ev_state e \<notin> {FAILED, SUCCESS} \<and> ev_consumer e = con_id c) T"
  from d have "distinct (map ev_id ?P)" by (rule distinct_map_filter)
  then have "distinct ?P" and "inj_on ev_id (set ?P)" unfolding distinct_map by blast+
  then show ?thesis unfolding pending_events_def distinct_map by simp
qed

lemma pending_after_delivery:
  assumes "distinct (map ev_id T)" and head: "pending_events c T = e # es" and "same_event e e'"
    and "ev_state e' = SUCCESS"
  shows "pending_events c (store_event e' T) = es"
proof -
  let ?P = "\<lambda>x. ev_state x \<notin> {FAILED, SUCCESS} \<and> ev_consumer x = con_id c"
  have e': "ev_id e' = ev_id e" using assms(3) by (simp add: same_event_def)
  have rest: "filter ?P (store_event e' T) = filter (\<lambda>x. ev_id x \<noteq> ev_id e) (filter ?P T)"
    unfolding store_event_def e' using assms(4) by (induction T) auto
  have "filter (\<lambda>x. ev_id x \<noteq> ev_id e) (e # es) = es"
    using pending_events_ids [OF assms(1), of c] unfolding head by (auto simp: filter_id_conv image_iff)
  moreover have "pending_events c (store_event e' T) = filter (\<lambda>x. ev_id x \<noteq> ev_id e) (pending_events c T)"
    unfolding pending_events_def rest filter_sort ..
  ultimately show ?thesis by (simp add: head)
qed

text \<open>A request for an event, sent no earlier than the event may be handled.\<close>

definition sent :: "'s outside \<Rightarrow> EventConsumer \<Rightarrow> ConsumerEvent \<Rightarrow> int \<times> PostRequest \<Rightarrow> bool" where
  "sent out c e p \<longleftrightarrow> pr_json (snd p) = event_body out c e \<and>
     (case ev_handle_at e of None \<Rightarrow> True | Some t \<Rightarrow> t \<le> fst p)"

lemma sent_cong: "like c c' \<Longrightarrow> sent out c' e p = sent out c e p"
  by (simp add: sent_def event_body_cong same_event_def)

definition others_unchanged :: "'s event_world \<Rightarrow> 's event_world \<Rightarrow> bool" where
  "others_unchanged w w' \<longleftrightarrow> ew_consumers w' = ew_consumers w \<and> ew_links w' = ew_links w \<and>
     ew_next_id w' = ew_next_id w \<and> ew_tasks w' = ew_tasks w"

lemma delivery_step_facts:
  assumes "check_handle_at out c e w = (Some e1, w1)" and "send_event out proxy_url netloc c e1 w1 = (r, c2, w2)"
  shows "like c c2" and "others_unchanged w w2"
    and "\<exists>p. ew_posts w2 = ew_posts w @ [p] \<and> sent out c e p"
    and "case r of Inl err \<Rightarrow> err = OverflowError \<and> ew_events w2 = ew_events w
      | Inr (failed, h) \<Rightarrow> \<exists>e'. ew_events w2 = store_event e' (ew_events w) \<and>
          (if failed then failed_attempt c e e' else delivered e e')"
proof -
  note check = check_handle_at_run [OF assms(1)] and send = send_event_run [OF assms(2)]
  from check(2) [OF refl] have e1: "same_event e e1" "ev_retries e1 = ev_retries e"
    and due: "\<forall>t. ev_handle_at e = Some t \<longrightarrow> t \<le> ew_now w1"
    by (auto simp: same_event_def)
  show "like c c2" by (rule send(1))
  show "others_unchanged w w2" using check(1) send(3) by (simp add: others_unchanged_def clock_only_def)
  from send(2) obtain t rq where p: "ew_posts w2 = ew_posts w1 @ [(t, rq)]" "pr_json rq = event_body out c e1"
    "ew_now w1 \<le> t" by blast
  have "sent out c e (t, rq)"
    using p due event_body_cong [OF like_refl e1(1)] by (auto simp: sent_def split: option.split)
  with p check(1) show "\<exists>p. ew_posts w2 = ew_posts w @ [p] \<and> sent out c e p" by (auto simp: clock_only_def)
  have "delivered e1 e' \<Longrightarrow> delivered e e'" "failed_attempt c e1 e' \<Longrightarrow> failed_attempt c e e'" for e'
    using e1 by (auto simp: delivered_def failed_attempt_def same_event_def)
  with send(4) check(1) show "case r of Inl err \<Rightarrow> err = OverflowError \<and> ew_events w2 = ew_events w
      | Inr (failed, h) \<Rightarrow> \<exists>e'. ew_events w2 = store_event e' (ew_events w) \<and>
          (if failed then failed_attempt c e e' else delivered e e')"
    by (auto simp: clock_only_def split: sum.splits if_splits)
qed

definition loop_result ::
  "nat option \<Rightarrow> nat \<Rightarrow> nat \<Rightarrow> (ConsumerEvent \<times> bool) list \<Rightarrow> ConsumerEvent list \<Rightarrow>
     (bool \<times> nat \<times> ConsumerHealthState) result \<Rightarrow> bool" where
  "loop_result max_events cnt len tr extra r \<longleftrightarrow>
     (\<forall>m. max_events = Some m \<and> cnt \<le> m \<longrightarrow> cnt + length tr + length extra \<le> m) \<and>
     (case r of Inl err \<Rightarrow> err = OverflowError \<and> length extra = 1
      | Inr (more_events, cnt', h) \<Rightarrow> extra = [] \<and> cnt' \<le> cnt + len \<and>
          (more_events \<longrightarrow> (\<exists>m. max_events = Some m \<and> m \<le> cnt') \<and> cnt' = cnt + length tr \<and> length tr < len \<and>
             list_all snd tr))"

lemma send_loop_run:
  assumes "send_loop out proxy_url max_events netloc c h cnt es w = (r, c', w')"
    and "distinct (map ev_id (ew_events w))" and "es = take n (pending_events c (ew_events w))"
  shows "\<exists>tr extra ps. delivery c (ew_events w) tr (ew_events w') \<and> ew_posts w' = ew_posts w @ ps \<and>
      list_all2 (sent out c) (map fst tr @ extra) ps \<and> loop_result max_events cnt (length es) tr extra r \<and>
      like c c' \<and> others_unchanged w w'"
  using assms
proof (induction es arbitrary: c h cnt w n)
  case Nil
  then show ?case by (auto simp: loop_result_def others_unchanged_def intro!: exI [of _ "[]"] delivery.stop)
next
  case (Cons e es)
  note run = Cons.prems(1)
  from Cons.prems(3) obtain es' k where pend: "pending_events c (ew_events w) = e # es'" and es: "es = take k es'"
    by (cases "pending_events c (ew_events w)"; cases n) auto
  have idle: ?case if "ew_events w' = ew_events w" "ew_posts w' = ew_posts w" "others_unchanged w w'" "like c c'"
      "loop_result max_events cnt (length (e # es)) [] [] r"
    using that delivery.stop [of c "ew_events w"] by (intro exI [of _ "[]"]) simp
  show ?case
  proof (cases "case max_events of Some m \<Rightarrow> m \<le> cnt | None \<Rightarrow> False")
    case True
    with run show ?thesis
      by (intro idle) (auto simp: loop_result_def others_unchanged_def split: option.splits)
  next
    case False
    note guard = False
    obtain c1 w1 where check: "check_handle_at out c e w = (c1, w1)" by fastforce
    show ?thesis
    proof (cases c1)
      case None
      with run False check check_handle_at_run(1) [OF check] show ?thesis
        by (intro idle) (auto simp: loop_result_def others_unchanged_def clock_only_def)
    next
      case (Some e1)
      obtain r2 c2 w2 where send: "send_event out proxy_url netloc c e1 w1 = (r2, c2, w2)" by (metis prod_cases3)
      note facts = delivery_step_facts [OF check [unfolded Some] send]
      from facts(3) obtain p where p: "ew_posts w2 = ew_posts w @ [p]" "sent out c e p" by blast
      have run': "(r, c', w') = (case r2 of Inl err \<Rightarrow> (Inl err, c2, w2)
          | Inr (failed, h1) \<Rightarrow> if failed then (Inr (False, cnt + 1, h1), c2, w2)
              else send_loop out proxy_url max_events netloc c2 h1 (cnt + 1) es w2)"
        using run False check Some send by (auto split: sum.splits prod.splits)
      show ?thesis
      proof (cases r2)
        case (Inl err)
        with run' facts p have "r = Inl err" "ew_events w' = ew_events w" "c' = c2" "w' = w2" "err = OverflowError"
          by auto
        with facts p guard show ?thesis
          by (intro exI [of _ "[]"] exI [of _ "[e]"] exI [of _ "[p]"])
            (auto simp add: loop_result_def delivery.stop split: option.splits)
      next
        case (Inr q)
        obtain failed h1 where q: "q = (failed, h1)" by (cases q)
        from facts(4) Inr q obtain e' where e': "ew_events w2 = store_event e' (ew_events w)"
          "if failed then failed_attempt c e e' else delivered e e'" by auto
        show ?thesis
        proof (cases failed)
          case True
          with run' Inr q have "r = Inr (False, cnt + 1, h1)" "c' = c2" "w' = w2" by simp_all
          with True e' facts p guard delivery.fail [OF pend, of e'] show ?thesis
            by (intro exI [of _ "[(e, False)]"] exI [of _ "[]"] exI [of _ "[p]"])
              (auto simp: loop_result_def split: option.splits)
        next
          case False
          with e' have d: "delivered e e'" by simp
          with run' Inr q False have run2: "send_loop out proxy_url max_events netloc c2 h1 (cnt + 1) es w2 = (r, c', w')"
            by simp
          have ids: "distinct (map ev_id (ew_events w2))" using Cons.prems(2) e'(1) by simp
          have "pending_events c (ew_events w2) = es'"
            unfolding e'(1) using d by (intro pending_after_delivery [OF Cons.prems(2) pend]) (auto simp: delivered_def)
          then have "es = take k (pending_events c2 (ew_events w2))"
            using es pending_events_cong [OF facts(1)] by simp
          from Cons.IH [OF run2 ids this] obtain tr extra ps where
            IH: "delivery c2 (ew_events w2) tr (ew_events w')" "ew_posts w' = ew_posts w2 @ ps"
              "list_all2 (sent out c2) (map fst tr @ extra) ps" "loop_result max_events (cnt + 1) (length es) tr extra r"
              "like c2 c'" "others_unchanged w2 w'" by blast
          have "like c2 c" using facts(1) by (simp add: like_def)
          from delivery_cong [OF IH(1) this] have "delivery c (ew_events w) ((e, True) # tr) (ew_events w')"
            unfolding e'(1) by (rule delivery.deliver [OF pend d])
          moreover have "list_all2 (sent out c) (map fst ((e, True) # tr) @ extra) (p # ps)"
            using IH(3) p(2) unfolding sent_cong [OF facts(1)] by simp
          moreover have "loop_result max_events cnt (length (e # es)) ((e, True) # tr) extra r"
            using IH(4) guard by (auto simp: loop_result_def split: sum.splits)
          moreover have "others_unchanged w w'" using facts(2) IH(6) by (simp add: others_unchanged_def)
          ultimately show ?thesis using IH(2,5) p(1) like_trans [OF facts(1)]
            by (intro exI [of _ "(e, True) # tr"] exI [of _ extra] exI [of _ "p # ps"]) simp
        qed
      qed
    qed
  qed
qed

lemma save_health_fields: "ew_events (save_health c w) = ew_events w" "ew_posts (save_health c w) = ew_posts w"
  "ew_next_id (save_health c w) = ew_next_id w" "ew_links (save_health c w) = ew_links w"
  "ew_tasks (save_health c w) = ew_tasks w"
  by (simp_all add: save_health_def)

text \<open>What \<open>try_send_events\<close> does to the table of consumers: at most the health of one changes.\<close>

definition health_changed :: "string \<Rightarrow> EventConsumer list \<Rightarrow> EventConsumer list \<Rightarrow> bool" where
  "health_changed k cs cs' \<longleftrightarrow>
     cs' = cs \<or> (\<exists>h. cs' = map (\<lambda>c. if con_id c = k then c\<lparr>con_health := h\<rparr> else c) cs)"

lemma save_health_changed: "health_changed (con_id c) (ew_consumers w) (ew_consumers (save_health c w))"
  unfolding health_changed_def save_health_def by (rule disjI2, rule exI [of _ "con_health c"]) simp

lemma health_changed_refl [simp]: "health_changed k cs cs"
  by (simp add: health_changed_def)

definition run_result ::
  "nat option \<Rightarrow> (ConsumerEvent \<times> bool) list \<Rightarrow> ConsumerEvent list \<Rightarrow> (bool \<times> nat) result \<Rightarrow> bool" where
  "run_result max_events tr extra r \<longleftrightarrow>
     (\<forall>m. max_events = Some m \<longrightarrow> length tr + length extra \<le> m) \<and>
     (case r of Inl err \<Rightarrow> length extra \<le> 1
      | Inr (more_events, cnt) \<Rightarrow> extra = [] \<and>
          (more_events \<longrightarrow> max_events = Some cnt \<and> length tr = cnt \<and> list_all snd tr))"

lemma try_send_events_run:
  assumes run: "try_send_events out c proxy_url max_events w = (r, c', w')" and ids: "distinct (map ev_id (ew_events w))"
  shows "\<exists>tr extra ps. delivery c (ew_events w) tr (ew_events w') \<and> ew_posts w' = ew_posts w @ ps \<and>
      list_all2 (sent out c) (map fst tr @ extra) ps \<and> run_result max_events tr extra r \<and>
      (r = Inr (True, n) \<longrightarrow> n < length (pending_events c (ew_events w)))"
    and "like c c'" and "health_changed (con_id c) (ew_consumers w) (ew_consumers w')"
    and "ew_links w' = ew_links w \<and> ew_next_id w' = ew_next_id w \<and> ew_tasks w' = ew_tasks w"
proof -
  let ?pending = "pending_events c (ew_events w)"
  let ?es = "case max_events of None \<Rightarrow> ?pending | Some m \<Rightarrow> take (m + 1) ?pending"
  have goal: "(\<exists>tr extra ps. delivery c (ew_events w) tr (ew_events w') \<and> ew_posts w' = ew_posts w @ ps \<and>
      list_all2 (sent out c) (map fst tr @ extra) ps \<and> run_result max_events tr extra r \<and>
      (r = Inr (True, n) \<longrightarrow> n < length (pending_events c (ew_events w)))) \<and> like c c' \<and>
      health_changed (con_id c) (ew_consumers w) (ew_consumers w') \<and>
      (ew_links w' = ew_links w \<and> ew_next_id w' = ew_next_id w \<and> ew_tasks w' = ew_tasks w)"
  proof (cases "urlsplit_netloc (con_target c)")
    case (Inl err)
    with run have "r = Inl err" "c' = c" "w' = w" by (simp_all add: try_send_events_def)
    then show ?thesis
      by (auto simp: run_result_def health_changed_def intro!: exI [of _ "[]"] delivery.stop)
  next
    case (Inr netloc)
    obtain r1 c1 w1 where loop: "send_loop out proxy_url max_events netloc c (con_health c) 0 ?es w = (r1, c1, w1)"
      by (metis prod_cases3)
    have "?es = take (case max_events of None \<Rightarrow> length ?pending | Some m \<Rightarrow> m + 1) ?pending"
      by (simp split: option.split)
    from send_loop_run [OF loop ids this] obtain tr extra ps where
      L: "delivery c (ew_events w) tr (ew_events w1)" "ew_posts w1 = ew_posts w @ ps"
        "list_all2 (sent out c) (map fst tr @ extra) ps" "loop_result max_events 0 (length ?es) tr extra r1"
        "like c c1" "others_unchanged w w1" by blast
    have w': "ew_events w' = ew_events w1 \<and> ew_posts w' = ew_posts w1 \<and> like c1 c' \<and>
        ew_links w' = ew_links w1 \<and> ew_next_id w' = ew_next_id w1 \<and> ew_tasks w' = ew_tasks w1 \<and>
        health_changed (con_id c1) (ew_consumers w1) (ew_consumers w') \<and>
        r = (case r1 of Inl err \<Rightarrow> Inl err | Inr (more_events, cnt, h) \<Rightarrow> Inr (more_events, cnt))"
      using run unfolding try_send_events_def Inr sum.case Let_def loop
      using save_health_changed [where w = w1 and c = "c1\<lparr>con_health := h\<rparr>" for h]
      by (auto simp: save_health_fields like_def Let_def split: sum.splits if_splits)
    have "run_result max_events tr extra r"
      using L(4) w' by (auto simp: loop_result_def run_result_def split: sum.splits)
    moreover have "n < length ?pending" if "r = Inr (True, n)"
    proof -
      from that w' L(4) have "length tr = n" "length tr < length ?es"
        by (auto simp: loop_result_def split: sum.splits)
      then show ?thesis by (auto split: option.splits)
    qed
    moreover have "con_id c1 = con_id c" "ew_consumers w1 = ew_consumers w"
      using L(5,6) by (simp_all add: like_def others_unchanged_def)
    ultimately show ?thesis
      using L w' by (auto simp: others_unchanged_def intro: like_trans)
  qed
  from goal show "\<exists>tr extra ps. delivery c (ew_events w) tr (ew_events w') \<and> ew_posts w' = ew_posts w @ ps \<and>
      list_all2 (sent out c) (map fst tr @ extra) ps \<and> run_result max_events tr extra r \<and>
      (r = Inr (True, n) \<longrightarrow> n < length (pending_events c (ew_events w)))" by blast
  from goal show "like c c'" "health_changed (con_id c) (ew_consumers w) (ew_consumers w')"
    "ew_links w' = ew_links w \<and> ew_next_id w' = ew_next_id w \<and> ew_tasks w' = ew_tasks w" by blast+
qed

lemma delivery_ids: "delivery c T tr T' \<Longrightarrow> map ev_id T' = map ev_id T"
  by (induction rule: delivery.induct) simp_all

lemma delivery_all_pending:
  assumes "delivery c T tr T'" and "list_all snd tr" and "distinct (map ev_id T)"
  shows "pending_events c T' = drop (length tr) (pending_events c T)"
  using assms
proof (induction rule: delivery.induct)
  case (deliver T e es e' tr T')
  then have "pending_events c (store_event e' T) = es"
    by (intro pending_after_delivery) (auto simp: delivered_def)
  with deliver show ?case by simp
qed simp_all

section \<open>What heartbeats do to the events\<close>

lemma like_sym: "like c c' \<Longrightarrow> like c' c"
  by (simp add: like_def)

lemma health_changed_ids: "health_changed k cs cs' \<Longrightarrow> map con_id cs' = map con_id cs"
  by (auto simp: health_changed_def)

text \<open>
  A relation between the events before and after. If every attempt on the head of a queue is in
  it, so is every run of the queue, every round of a heartbeat and every heartbeat; \<open>C\<close> is what
  has to be known of the consumer.
\<close>

locale attempt_relation =
  fixes Q :: "ConsumerEvent list \<Rightarrow> ConsumerEvent list \<Rightarrow> bool" and C :: "EventConsumer \<Rightarrow> bool"
  assumes refl: "distinct (map ev_id T) \<Longrightarrow> Q T T"
    and trans: "Q T T' \<Longrightarrow> Q T' T'' \<Longrightarrow> Q T T''"
    and alike: "C c \<Longrightarrow> like c c' \<Longrightarrow> C c'"
    and attempt: "distinct (map ev_id T) \<Longrightarrow> C c \<Longrightarrow> pending_events c T = e # es \<Longrightarrow>
      delivered e e' \<or> failed_attempt c e e' \<Longrightarrow> Q T (store_event e' T)"
begin

lemma delivery_related: "delivery c T tr T' \<Longrightarrow> distinct (map ev_id T) \<Longrightarrow> C c \<Longrightarrow> Q T T'"
proof (induction rule: delivery.induct)
  case (deliver T e es e' tr T')
  then have "Q T (store_event e' T)" by (intro attempt) auto
  moreover have "Q (store_event e' T) T'" using deliver by simp
  ultimately show ?case by (rule trans)
qed (auto intro: refl attempt)

lemma round_related:
  assumes "try_send_events out c proxy_url max_events w = (r, c', w')" and "distinct (map ev_id (ew_events w))" and "C c"
  shows "Q (ew_events w) (ew_events w')"
  using try_send_events_run(1) [OF assms(1,2)] delivery_related [OF _ assms(2,3)] by blast

lemma heartbeat_loop_related:
  "heartbeat_loop fuel out proxy_url limit c total_sent w = (r, w') \<Longrightarrow> distinct (map ev_id (ew_events w)) \<Longrightarrow>
    C c \<Longrightarrow> Q (ew_events w) (ew_events w')"
proof (induction fuel arbitrary: c total_sent w)
  case (Suc fuel)
  obtain r1 c1 w1 where run: "try_send_events out c proxy_url (Some 100) w = (r1, c1, w1)" by (metis prod_cases3)
  note related = round_related [OF run Suc.prems(2,3)]
  show ?case
  proof (cases r1)
    case (Inl err)
    with Suc.prems(1) run show ?thesis by (auto intro: refl [OF Suc.prems(2)])
  next
    case (Inr q)
    obtain more_events n where q: "q = (more_events, n)" by (cases q)
    let ?w = "if limit < total_sent + n then w1\<lparr>ew_tasks := ew_tasks w1 @ [(con_tenant c1, con_id c1)]\<rparr> else w1"
    from try_send_events_run(1) [OF run Suc.prems(2)] have "distinct (map ev_id (ew_events w1))"
      using delivery_ids Suc.prems(2) by metis
    then have ids: "distinct (map ev_id (ew_events ?w))" by simp
    have c1: "C c1" by (rule alike [OF Suc.prems(3) try_send_events_run(2) [OF run Suc.prems(2)]])
    have "Q (ew_events w1) (ew_events w')" if more_events
      using Suc.IH [OF _ ids c1, of "total_sent + n"] Suc.prems(1) that run Inr q by (simp add: Let_def split: if_splits)
    moreover have "w' = w1" if "\<not> more_events"
      using Suc.prems(1) that run Inr q by (simp add: Let_def)
    ultimately show ?thesis using related trans by blast
  qed
qed (simp add: refl)

lemma heartbeat_related:
  assumes "consumer_heartbeat fuel out proxy_url limit k w = (r, w')" and "distinct (map ev_id (ew_events w))"
    and "\<forall>c \<in> set (ew_consumers w). C c"
  shows "Q (ew_events w) (ew_events w')"
proof (cases "\<exists>c. filter (\<lambda>c. con_id c = k \<and> con_deleted_at c = None) (ew_consumers w) = [c]")
  case True
  then obtain c where c: "filter (\<lambda>c. con_id c = k \<and> con_deleted_at c = None) (ew_consumers w) = [c]" ..
  have "c \<in> set (filter (\<lambda>c. con_id c = k \<and> con_deleted_at c = None) (ew_consumers w))" by (simp add: c)
  with assms(3) have "C c" by simp
  from heartbeat_loop_related [OF _ assms(2) this] c assms(1) show ?thesis
    by (auto simp: consumer_heartbeat_def)
next
  case False
  with assms(1,2) show ?thesis by (auto simp: consumer_heartbeat_def refl split: list.splits)
qed

end

text \<open>No row appears, disappears or gets another id.\<close>

interpretation rows: attempt_relation "\<lambda>T T'. map ev_id T' = map ev_id T" "\<lambda>_. True"
  by unfold_locales simp_all

text \<open>
  The tables have keys: the ids of consumers and of events are distinct, and the sequence of event
  ids is ahead of those that were given out.
\<close>

definition keyed :: "'s event_world \<Rightarrow> bool" where
  "keyed w \<longleftrightarrow> distinct (map con_id (ew_consumers w)) \<and> distinct (map ev_id (ew_events w)) \<and>
     (\<forall>e \<in> set (ew_events w). ev_id e < ew_next_id w)"

lemma keyed_facts:
  assumes "keyed w"
  shows "distinct (map con_id (ew_consumers w))" and "distinct (map ev_id (ew_events w))"
    and "e \<in> set (ew_events w) \<Longrightarrow> ev_id e < ew_next_id w"
  using assms by (simp_all add: keyed_def)

lemma keyed_same_ids:
  assumes "keyed w" and "map ev_id (ew_events w') = map ev_id (ew_events w)"
    and "map con_id (ew_consumers w') = map con_id (ew_consumers w)" and "ew_next_id w' = ew_next_id w"
  shows "keyed w'"
proof -
  have "ev_id ` set (ew_events w') = ev_id ` set (ew_events w)" using assms(2) by (metis list.set_map)
  moreover have "\<forall>i \<in> ev_id ` set (ew_events w). i < ew_next_id w" using assms(1) by (simp add: keyed_def)
  ultimately have "\<forall>e \<in> set (ew_events w'). ev_id e < ew_next_id w'" using assms(4) by (metis imageI)
  with assms show ?thesis by (simp add: keyed_def)
qed

lemma keyed_filter:
  assumes "keyed w" and "ew_events w' = filter Q (ew_events w)" and "ew_consumers w' = filter R (ew_consumers w)"
    and "ew_next_id w' = ew_next_id w"
  shows "keyed w'"
  using assms by (simp add: keyed_def distinct_map_filter)

lemma heartbeat_loop_rest:
  "heartbeat_loop fuel out proxy_url limit c total_sent w = (r, w') \<Longrightarrow> distinct (map ev_id (ew_events w)) \<Longrightarrow>
    map con_id (ew_consumers w') = map con_id (ew_consumers w) \<and> ew_next_id w' = ew_next_id w"
proof (induction fuel arbitrary: c total_sent w)
  case (Suc fuel)
  obtain r1 c1 w1 where run: "try_send_events out c proxy_url (Some 100) w = (r1, c1, w1)" by (metis prod_cases3)
  note round = try_send_events_run(3,4) [OF run Suc.prems(2)] rows.round_related [OF run Suc.prems(2) TrueI]
  show ?case
  proof (cases r1)
    case (Inl err)
    with Suc.prems(1) run round show ?thesis by auto
  next
    case (Inr q)
    obtain more_events n where q: "q = (more_events, n)" by (cases q)
    let ?w = "if limit < total_sent + n then w1\<lparr>ew_tasks := ew_tasks w1 @ [(con_tenant c1, con_id c1)]\<rparr> else w1"
    have "distinct (map ev_id (ew_events ?w))" using round(3) Suc.prems(2) by simp
    from Suc.IH [OF _ this, of c1 "total_sent + n"] Suc.prems(1) run Inr q round health_changed_ids [OF round(1)]
    show ?thesis by (simp add: Let_def split: if_splits)
  qed
qed simp

lemma heartbeat_keyed:
  assumes "consumer_heartbeat fuel out proxy_url limit k w = (r, w')" and "keyed w"
  shows "keyed w'"
proof -
  have "map con_id (ew_consumers w') = map con_id (ew_consumers w) \<and> ew_next_id w' = ew_next_id w"
    using assms(1) heartbeat_loop_rest [OF _ keyed_facts(2) [OF assms(2)]]
    by (auto simp: consumer_heartbeat_def split: list.splits)
  with rows.heartbeat_related [OF assms(1) keyed_facts(2) [OF assms(2)]] show ?thesis
    by (intro keyed_same_ids [OF assms(2)]) simp_all
qed

lemma round_keyed:
  assumes "try_send_events out c proxy_url max_events w = (r, c', w')" and "keyed w"
  shows "keyed w'"
  using rows.round_related [OF assms(1) keyed_facts(2) [OF assms(2)] TrueI]
    try_send_events_run(3,4) [OF assms(1) keyed_facts(2) [OF assms(2)]] health_changed_ids
  by (intro keyed_same_ids [OF assms(2)]) simp_all

text \<open>New events: they come after all rows, with new ids, and have not been attempted.\<close>

definition fresh_events :: "'s event_world \<Rightarrow> ConsumerEvent list \<Rightarrow> bool" where
  "fresh_events w es \<longleftrightarrow> (\<forall>e \<in> set es. ew_next_id w \<le> ev_id e \<and> ev_state e = NEW \<and> ev_retries e = 0)"

definition events_added :: "'s event_world \<Rightarrow> 's event_world \<Rightarrow> bool" where
  "events_added w w' \<longleftrightarrow> (\<exists>es. ew_events w' = ew_events w @ es \<and> fresh_events w es) \<and>
     ew_consumers w' = ew_consumers w \<and> ew_next_id w \<le> ew_next_id w' \<and> (keyed w \<longrightarrow> keyed w')"

lemma events_added_trans: "events_added w w' \<Longrightarrow> events_added w' w'' \<Longrightarrow> events_added w w''"
  by (fastforce simp: events_added_def fresh_events_def)

lemma create_event_added:
  assumes "ev_state e = NEW" and "ev_retries e = 0"
  shows "events_added w (create_event out e w)"
proof -
  obtain now w1 where now: "timezone_now out w = (now, w1)" by fastforce
  note w1 = clock_only_fields [OF conjunct1 [OF timezone_now_run [OF now]]]
  from now assms show ?thesis
    by (auto simp: create_event_def events_added_def fresh_events_def keyed_def w1)
qed

lemma data_point_event_added: "events_added w (data_point_event out ord tenant ds t sub_clock payload ty w)"
proof -
  have "events_added w w" by (simp add: events_added_def fresh_events_def)
  then have "events_added w (fold (\<lambda>c. create_event out (e c)) cs w)"
    if "\<And>c. ev_state (e c) = NEW \<and> ev_retries (e c) = 0" for e and cs :: "EventConsumer list"
    by - (rule fold_invariant [where Q = "\<lambda>_. True" and P = "events_added w"],
        auto intro: events_added_trans [OF _ create_event_added] simp: that)
  then show ?thesis unfolding data_point_event_def by simp
qed

section \<open>Steps of the event system\<close>

text \<open>
  What happens to the tables, in any order: heartbeats and single rounds of them (other steps may
  come between two rounds); new events with any point in time, also one before those of events that
  were delivered (the worker of asynchronous requests publishes with the time of the request); all
  ways of removing events and consumers; consumers that are created, changed in any field but their
  id (paused, given another mode or another limit of retries, deleted softly) or linked to data
  series; and time that passes.
\<close>

inductive event_step :: "'s outside \<Rightarrow> 's event_world \<Rightarrow> 's event_world \<Rightarrow> bool" for out where
  heartbeat: "consumer_heartbeat fuel out proxy_url limit k w = (r, w') \<Longrightarrow> event_step out w w'"
| round: "c0 \<in> set (ew_consumers w) \<Longrightarrow> like c0 c \<Longrightarrow>
    try_send_events out c proxy_url max_events w = (Inr x, c', w') \<Longrightarrow> event_step out w w'"
| new_event: "event_step out w (data_point_event out ord tenant ds t sub_clock payload ty w)"
| truncate: "event_step out w (truncate_events ord tenant ds w)"
| cleanup: "event_step out w (delete_old_events out c w)"
| hard_delete: "event_step out w (hard_delete_consumer c w)"
| new_consumer: "con_id c \<notin> con_id ` set (ew_consumers w) \<Longrightarrow>
    event_step out w (w\<lparr>ew_consumers := ew_consumers w @ [c]\<rparr>)"
| changed_consumer: "event_step out w
    (w\<lparr>ew_consumers := map (\<lambda>x. if con_id x = con_id c then c else x) (ew_consumers w)\<rparr>)"
| changed_links: "event_step out w (w\<lparr>ew_links := links\<rparr>)"
| time_passes: "clock_only w w' \<Longrightarrow> event_step out w w'"

inductive_cases event_stepE: "event_step out w w'"

lemma truncate_events_filter: "\<exists>Q. truncate_events ord tenant ds w = w\<lparr>ew_events := filter Q (ew_events w)\<rparr>"
proof -
  have "\<exists>Q. w = w\<lparr>ew_events := filter Q (ew_events w)\<rparr>" by (rule exI [of _ "\<lambda>_. True"]) simp
  then show ?thesis unfolding truncate_events_def
    by - (rule fold_invariant [where Q = "\<lambda>_. True" and P = "\<lambda>w'. \<exists>Q. w' = w\<lparr>ew_events := filter Q (ew_events w)\<rparr>"],
        auto simp: filter_filter)
qed

text \<open>A step runs a queue, or it adds unattempted events, or it only removes events.\<close>

lemma event_step_cases [consumes 2, case_names heartbeat round added removed]:
  assumes "event_step out w w'" and "keyed w"
  obtains fuel proxy_url limit k r where "consumer_heartbeat fuel out proxy_url limit k w = (r, w')"
  | c0 c proxy_url max_events x c' where "c0 \<in> set (ew_consumers w)" and "like c0 c"
      and "try_send_events out c proxy_url max_events w = (x, c', w')"
  | "events_added w w'"
  | Q where "ew_events w' = filter Q (ew_events w)"
  using assms(1)
proof (cases rule: event_step.cases)
  case (truncate ord tenant ds)
  obtain Q where "truncate_events ord tenant ds w = w\<lparr>ew_events := filter Q (ew_events w)\<rparr>"
    using truncate_events_filter by blast
  with truncate that(4) [of Q] show ?thesis by simp
next
  case (cleanup c)
  obtain now w1 where now: "timezone_now out w = (now, w1)" by fastforce
  note w1 = clock_only_fields [OF conjunct1 [OF timezone_now_run [OF now]]]
  from cleanup now w1(1) show ?thesis by (intro that(4)) (simp add: delete_old_events_def)
next
  case (hard_delete c)
  then show ?thesis
    by (intro that(4)) (simp add: hard_delete_consumer_def delete_all_events_for_consumer_def Let_def)
next
  case new_event
  then show ?thesis using that(3) data_point_event_added by blast
next
  case time_passes
  then show ?thesis using that(4) [of "\<lambda>_. True"] by (simp add: clock_only_def)
qed (use that(1,2) that(4) [of "\<lambda>_. True"] in auto)

lemma event_step_keyed:
  assumes "event_step out w w'" and "keyed w"
  shows "keyed w'"
  using assms(1)
proof (cases rule: event_step.cases)
  case (truncate ord tenant ds)
  obtain Q where "truncate_events ord tenant ds w = w\<lparr>ew_events := filter Q (ew_events w)\<rparr>"
    using truncate_events_filter by blast
  with truncate assms(2) show ?thesis by (simp add: keyed_def distinct_map_filter)
next
  case (cleanup c)
  obtain now w1 where now: "timezone_now out w = (now, w1)" by fastforce
  note w1 = clock_only_fields [OF conjunct1 [OF timezone_now_run [OF now]]]
  from cleanup now w1 assms(2) show ?thesis by (simp add: delete_old_events_def keyed_def distinct_map_filter)
next
  case (hard_delete c)
  with assms(2) show ?thesis
    by (simp add: hard_delete_consumer_def delete_all_events_for_consumer_def Let_def keyed_def distinct_map_filter)
next
  case (changed_consumer c)
  have "map con_id (map (\<lambda>x. if con_id x = con_id c then c else x) cs) = map con_id cs" for cs
    by (induction cs) auto
  then have "map con_id (ew_consumers w') = map con_id (ew_consumers w)" unfolding changed_consumer by simp
  then show ?thesis by (rule keyed_same_ids [OF assms(2), rotated]) (simp_all add: changed_consumer)
next
  case new_event
  then have "events_added w w'" using data_point_event_added by simp
  with assms(2) show ?thesis by (simp add: events_added_def)
next
  case heartbeat
  then show ?thesis using heartbeat_keyed assms(2) by blast
next
  case round
  then show ?thesis using round_keyed assms(2) by blast
qed (use assms(2) in \<open>auto simp: keyed_def clock_only_def\<close>)

lemma event_steps_keyed: "(event_step out)\<^sup>*\<^sup>* w w' \<Longrightarrow> keyed w \<Longrightarrow> keyed w'"
  by (induction rule: rtranclp_induct) (simp_all add: event_step_keyed)

section \<open>The order of delivery\<close>

definition earlier :: "ConsumerEvent \<Rightarrow> ConsumerEvent \<Rightarrow> bool" where
  "earlier a b \<longleftrightarrow> (ev_point_in_time a, ev_id a) < (ev_point_in_time b, ev_id b)"

definition finished :: "ConsumerEvent \<Rightarrow> bool" where
  "finished e \<longleftrightarrow> ev_state e \<in> {FAILED, SUCCESS}"

text \<open>Between the two versions of an event it was attempted: delivered, or a failure was counted.\<close>

definition attempted :: "ConsumerEvent \<Rightarrow> ConsumerEvent \<Rightarrow> bool" where
  "attempted e e' \<longleftrightarrow> ev_id e' = ev_id e \<and> (ev_state e' \<noteq> ev_state e \<or> ev_retries e' \<noteq> ev_retries e)"

lemma store_event_set:
  assumes "distinct (map ev_id T)" and "e \<in> set T" and "ev_id e' = ev_id e"
  shows "set (store_event e' T) = insert e' (set T - {e})"
proof -
  have "x = e" if "x \<in> set T" "ev_id x = ev_id e" for x
    using assms(1,2) that by (simp add: distinct_map inj_on_def)
  then show ?thesis using assms(2,3) unfolding store_event_def by (auto simp: image_iff)
qed

lemma pending_head:
  assumes "pending_events c T = e # es"
  shows "e \<in> set T" and "\<not> finished e" and "ev_consumer e = con_id c"
    and "con_mode c = IN_ORDER \<Longrightarrow> a \<in> set T \<Longrightarrow> ev_consumer a = con_id c \<Longrightarrow> earlier a e \<Longrightarrow> finished a"
proof -
  have "e \<in> set (pending_events c T)" by (simp add: assms)
  then show "e \<in> set T" "\<not> finished e" "ev_consumer e = con_id c" by (simp_all add: pending_events_set finished_def)
  assume a: "con_mode c = IN_ORDER" "a \<in> set T" "ev_consumer a = con_id c" "earlier a e"
  show "finished a"
  proof (rule ccontr)
    assume "\<not> finished a"
    with a have "a \<in> set (pending_events c T)" by (simp add: pending_events_set finished_def)
    with assms have "a = e \<or> a \<in> set es" by simp
    moreover have "sorted (map (order_key (con_mode c)) (e # es))"
      unfolding assms [symmetric] pending_events_def by simp
    ultimately have "order_key (con_mode c) e \<le> order_key (con_mode c) a" by auto
    with a(1,4) show False by (auto simp: order_key_def earlier_def)
  qed
qed

text \<open>
  The rows stay what they are but for attempts; what is finished is not attempted again, and of
  consumer \<open>k\<close> an event is attempted only when all earlier ones are finished.
\<close>

definition in_order :: "string \<Rightarrow> ConsumerEvent list \<Rightarrow> ConsumerEvent list \<Rightarrow> bool" where
  "in_order k T T' \<longleftrightarrow> map ev_id T' = map ev_id T \<and>
     (\<forall>b \<in> set T. \<forall>b' \<in> set T'. ev_id b' = ev_id b \<longrightarrow> same_event b b' \<and>
        (attempted b b' \<longrightarrow> \<not> finished b \<and>
           (ev_consumer b = k \<longrightarrow> (\<forall>a \<in> set T'. ev_consumer a = k \<and> earlier a b \<longrightarrow> finished a))))"

lemma same_row: "distinct (map ev_id T) \<Longrightarrow> b \<in> set T \<Longrightarrow> b' \<in> set T \<Longrightarrow> ev_id b' = ev_id b \<Longrightarrow> b' = b"
  by (simp add: distinct_map inj_on_def)

lemma row_with_id: "map ev_id T' = map ev_id T \<Longrightarrow> b \<in> set T' \<Longrightarrow> \<exists>b' \<in> set T. ev_id b' = ev_id b"
  by (metis (mono_tags, lifting) imageE imageI list.set_map)

lemma in_order_later:
  assumes "in_order k T T'" and "b \<in> set T" and "b' \<in> set T'" and "ev_id b' = ev_id b"
  shows "same_event b b'" and "finished b \<Longrightarrow> finished b'" and "attempted b b' \<Longrightarrow> \<not> finished b"
    and "attempted b b' \<Longrightarrow> ev_consumer b = k \<Longrightarrow> a \<in> set T' \<Longrightarrow> ev_consumer a = k \<Longrightarrow> earlier a b \<Longrightarrow> finished a"
  using assms unfolding in_order_def by (auto simp: attempted_def finished_def)

lemma in_order_trans:
  assumes 1: "in_order k T T'" and 2: "in_order k T' T''"
  shows "in_order k T T''"
  unfolding in_order_def
proof (intro conjI ballI impI)
  from 1 2 show ids: "map ev_id T'' = map ev_id T" by (simp add: in_order_def)
  have ids2: "map ev_id T' = map ev_id T''" using 2 by (simp add: in_order_def)
  fix b b'' assume b: "b \<in> set T" "b'' \<in> set T''" "ev_id b'' = ev_id b"
  obtain b' where b': "b' \<in> set T'" "ev_id b' = ev_id b''" using row_with_id [OF ids2 [symmetric] b(2)] by blast
  note step1 = in_order_later [OF 1 b(1) b'(1)] and step2 = in_order_later [OF 2 b'(1) b(2)]
  from step1(1) step2(1) b b' show "same_event b b''" by (simp add: same_event_def)
  assume att: "attempted b b''"
  then have some: "attempted b b' \<or> attempted b' b''" using b b' by (auto simp: attempted_def)
  with step1(2,3) step2(3) b b' show "\<not> finished b" by auto
  fix a'' assume k: "ev_consumer b = k" and a'': "a'' \<in> set T''" "ev_consumer a'' = k \<and> earlier a'' b"
  obtain a' where a': "a' \<in> set T'" "ev_id a' = ev_id a''" using row_with_id [OF ids2 [symmetric] a''(1)] by blast
  note astep = in_order_later [OF 2 a'(1) a''(1)]
  from some show "finished a''"
  proof
    assume "attempted b b'"
    moreover have "ev_consumer a' = k" "earlier a' b"
      using a'' astep(1) a'(2) by (simp_all add: same_event_def earlier_def)
    ultimately have "finished a'" using step1(4) k a'(1) b b' by simp
    then show ?thesis using astep(2) a'(2) by simp
  next
    assume "attempted b' b''"
    moreover have "ev_consumer b' = k" "earlier a'' b'"
      using step1(1) b b' k a'' by (simp_all add: same_event_def earlier_def)
    ultimately show ?thesis using step2(4) a'' b b' by simp
  qed
qed

text \<open>An attempt on the head of a queue is in order.\<close>

lemma attempt_in_order:
  assumes d: "distinct (map ev_id T)" and mode: "con_id c = k \<longrightarrow> con_mode c = IN_ORDER"
    and head: "pending_events c T = e # es" and same: "same_event e e'"
  shows "in_order k T (store_event e' T)"
  unfolding in_order_def
proof (intro conjI ballI impI)
  have rows: "set (store_event e' T) = insert e' (set T - {e})"
    using pending_head(1) [OF head] same by (intro store_event_set [OF d]) (auto simp: same_event_def)
  fix b b' assume b: "b \<in> set T" "b' \<in> set (store_event e' T)" "ev_id b' = ev_id b"
  consider "b = e" "b' = e'" | "b' = b" "b \<noteq> e"
    using b same_row [OF d b(1)] same_row [OF d b(1) pending_head(1) [OF head]] same
    unfolding rows by (auto simp: same_event_def)
  then have cases: "b = e \<and> b' = e' \<or> b' = b" by blast
  then show "same_event b b'" using same by (auto simp: same_event_def)
  assume "attempted b b'"
  with cases have be: "b = e" "b' = e'" by (auto simp: attempted_def)
  then show "\<not> finished b" using pending_head(2) [OF head] by simp
  fix a assume k: "ev_consumer b = k" and a: "a \<in> set (store_event e' T)" "ev_consumer a = k \<and> earlier a b"
  from k be have "con_id c = k" using pending_head(3) [OF head] by simp
  moreover have "a \<in> set T" using a be same unfolding rows by (auto simp: earlier_def same_event_def)
  ultimately show "finished a" using pending_head(4) [OF head] mode a be by simp
qed simp

interpretation ordered: attempt_relation "in_order k" "\<lambda>c. con_id c = k \<longrightarrow> con_mode c = IN_ORDER" for k
proof
  show "in_order k T T" if "distinct (map ev_id T)" for T
    using same_row [OF that] by (auto simp: in_order_def attempted_def same_event_def)
  show "in_order k T T''" if "in_order k T T'" "in_order k T' T''" for T T' T''
    by (rule in_order_trans [OF that])
  show "con_id c' = k \<longrightarrow> con_mode c' = IN_ORDER" if "con_id c = k \<longrightarrow> con_mode c = IN_ORDER" "like c c'" for c c'
    using that by (simp add: like_def)
  show "in_order k T (store_event e' T)"
    if "distinct (map ev_id T)" "con_id c = k \<longrightarrow> con_mode c = IN_ORDER" "pending_events c T = e # es"
      "delivered e e' \<or> failed_attempt c e e'" for T c e es e'
    using that by (intro attempt_in_order) (auto simp: delivered_def failed_attempt_def)
qed

text \<open>Outside heartbeats no event that was there is changed.\<close>

lemma added_or_removed_unchanged:
  assumes "keyed w" and "events_added w w' \<or> ew_events w' = filter Q (ew_events w)"
    and "b \<in> set (ew_events w)" and "b' \<in> set (ew_events w')" and "ev_id b' = ev_id b"
  shows "b' = b"
proof -
  have "b' \<in> set (ew_events w)"
    using assms(2-5) keyed_facts(3) [OF assms(1,3)] by (force simp: events_added_def fresh_events_def)
  then show ?thesis by (rule same_row [OF keyed_facts(2) [OF assms(1)] assms(3) _ assms(5)])
qed

section \<open>The number of retries\<close>

text \<open>Of consumer \<open>k\<close>, whose limit is never below \<open>M\<close> and never above \<open>N\<close>.\<close>

definition retries_within :: "string \<Rightarrow> int \<Rightarrow> int \<Rightarrow> ConsumerEvent list \<Rightarrow> bool" where
  "retries_within k M N T \<longleftrightarrow> (\<forall>e \<in> set T. ev_consumer e = k \<longrightarrow> 0 \<le> ev_retries e \<and>
     (if ev_state e = FAILED then M < ev_retries e \<and> ev_retries e \<le> N + 1 else ev_retries e \<le> N))"

definition limit_within :: "string \<Rightarrow> int \<Rightarrow> int \<Rightarrow> EventConsumer \<Rightarrow> bool" where
  "limit_within k M N c \<longleftrightarrow> con_id c = k \<longrightarrow> 0 < M \<and> M \<le> con_retry_max c \<and> con_retry_max c \<le> N"

lemma attempt_within:
  assumes d: "distinct (map ev_id T)" and limit: "limit_within k M N c" and head: "pending_events c T = e # es"
    and result: "delivered e e' \<or> failed_attempt c e e'" and within: "retries_within k M N T"
  shows "retries_within k M N (store_event e' T)"
proof -
  have same: "ev_id e' = ev_id e" "ev_consumer e' = ev_consumer e"
    using result by (auto simp: delivered_def failed_attempt_def same_event_def)
  note facts = pending_head [OF head]
  have rows: "set (store_event e' T) = insert e' (set T - {e})"
    by (rule store_event_set [OF d facts(1) same(1)])
  have new: "0 \<le> ev_retries e' \<and> (if ev_state e' = FAILED then M < ev_retries e' \<and> ev_retries e' \<le> N + 1
      else ev_retries e' \<le> N)" if "ev_consumer e' = k"
  proof -
    from that same facts(1) within have "0 \<le> ev_retries e" "ev_state e \<noteq> FAILED \<longrightarrow> ev_retries e \<le> N"
      by (auto simp: retries_within_def)
    moreover have "ev_state e \<noteq> FAILED" using facts(2) by (simp add: finished_def)
    moreover have "0 < M \<and> M \<le> con_retry_max c \<and> con_retry_max c \<le> N"
      using limit facts(3) same that by (simp add: limit_within_def)
    ultimately show ?thesis using result
      by (auto simp: delivered_def failed_attempt_def failed_state_def split: if_splits)
  qed
  show ?thesis unfolding retries_within_def rows
  proof (intro ballI impI)
    fix x assume x: "x \<in> insert e' (set T - {e})" and k: "ev_consumer x = k"
    show "0 \<le> ev_retries x \<and> (if ev_state x = FAILED then M < ev_retries x \<and> ev_retries x \<le> N + 1
        else ev_retries x \<le> N)"
    proof (cases "x = e'")
      case True
      then show ?thesis using new k by simp
    next
      case False
      then have "x \<in> set T" using x by simp
      then show ?thesis using within k unfolding retries_within_def by blast
    qed
  qed
qed

interpretation bounded: attempt_relation "\<lambda>T T'. retries_within k M N T \<longrightarrow> retries_within k M N T'"
  "limit_within k M N" for k M N
proof
  show "limit_within k M N c'" if "limit_within k M N c" "like c c'" for c c'
    using that by (simp add: limit_within_def like_def)
  show "retries_within k M N T \<longrightarrow> retries_within k M N (store_event e' T)"
    if "distinct (map ev_id T)" "limit_within k M N c" "pending_events c T = e # es"
      "delivered e e' \<or> failed_attempt c e e'" for T c e es e'
    using attempt_within [OF that] by blast
qed auto

lemma step_keeps_bound:
  assumes "event_step out w w'" and "keyed w" and "\<forall>c \<in> set (ew_consumers w). limit_within k M N c"
    and "retries_within k M N (ew_events w)" and "0 \<le> N"
  shows "retries_within k M N (ew_events w')"
  using assms(1,2)
proof (cases rule: event_step_cases)
  case heartbeat
  then show ?thesis using bounded.heartbeat_related keyed_facts(2) [OF assms(2)] assms(3,4) by blast
next
  case (round c0 c)
  have "limit_within k M N c" by (rule bounded.alike [OF _ round(2)]) (use assms(3) round(1) in blast)
  then show ?thesis using bounded.round_related [OF round(3) keyed_facts(2) [OF assms(2)]] assms(4) by blast
next
  case added
  then obtain es where es: "ew_events w' = ew_events w @ es" "fresh_events w es" by (auto simp: events_added_def)
  then show ?thesis using assms(4,5) by (auto simp: retries_within_def fresh_events_def)
next
  case (removed Q)
  then show ?thesis using assms(4) by (auto simp: retries_within_def)
qed

text \<open>A run during which the limit of consumer \<open>k\<close> stays in the range.\<close>

definition limited_step :: "'s outside \<Rightarrow> string \<Rightarrow> int \<Rightarrow> int \<Rightarrow> 's event_world \<Rightarrow> 's event_world \<Rightarrow> bool" where
  "limited_step out k M N w w' \<longleftrightarrow> event_step out w w' \<and>
     (\<forall>c \<in> set (ew_consumers w). con_id c = k \<longrightarrow> M \<le> con_retry_max c \<and> con_retry_max c \<le> N)"

lemma limited_steps_bounded:
  assumes "(limited_step out k M N)\<^sup>*\<^sup>* w w'" and "keyed w" and "retries_within k M N (ew_events w)" and "0 < M" and "M \<le> N"
  shows "keyed w' \<and> retries_within k M N (ew_events w')"
  using assms(1)
proof (induction rule: rtranclp_induct)
  case base
  from assms(2,3) show ?case by simp
next
  case (step w1 w2)
  then have s: "event_step out w1 w2" and l: "\<forall>c \<in> set (ew_consumers w1). limit_within k M N c"
    using assms(4) by (auto simp: limited_step_def limit_within_def)
  show ?case using event_step_keyed [OF s] step_keeps_bound [OF s _ l] step.IH assms(4,5) by auto
qed


section \<open>Heartbeats end, and deliver\<close>

lemma try_send_events_error:
  assumes "try_send_events out c proxy_url max_events w = (Inl err, c', w')" and "distinct (map ev_id (ew_events w))"
  shows "err \<noteq> OutOfFuel"
proof (cases "urlsplit_netloc (con_target c)")
  case (Inl e)
  then have "\<exists>m. e = ValueError m" by (auto simp: urlsplit_netloc_def Let_def split: if_splits)
  with Inl assms show ?thesis by (auto simp: try_send_events_def)
next
  case (Inr netloc)
  let ?pending = "pending_events c (ew_events w)"
  let ?es = "case max_events of None \<Rightarrow> ?pending | Some m \<Rightarrow> take (m + 1) ?pending"
  obtain r1 c1 w1 where loop: "send_loop out proxy_url max_events netloc c (con_health c) 0 ?es w = (r1, c1, w1)"
    by (metis prod_cases3)
  have "?es = take (case max_events of None \<Rightarrow> length ?pending | Some m \<Rightarrow> m + 1) ?pending"
    by (simp split: option.split)
  from send_loop_run [OF loop assms(2) this] obtain tr extra where
    "loop_result max_events 0 (length ?es) tr extra r1" by blast
  moreover from assms(1) have "r1 = Inl err"
    unfolding try_send_events_def Inr sum.case Let_def loop
    by (auto split: sum.splits prod.splits if_splits)
  ultimately show ?thesis by (simp add: loop_result_def)
qed

text \<open>A round that leaves more events has delivered a hundred.\<close>

lemma round_progress:
  assumes attempt: "try_send_events out c proxy_url (Some m) w = (Inr (True, n), c', w')"
    and ids: "distinct (map ev_id (ew_events w))"
  shows "n = m" and "m < length (pending_events c (ew_events w))"
    and "pending_events c' (ew_events w') = drop m (pending_events c (ew_events w))"
    and "map ev_id (ew_events w') = map ev_id (ew_events w)"
proof -
  from try_send_events_run(1) [OF attempt ids, of n] obtain tr extra where
    tr: "delivery c (ew_events w) tr (ew_events w')" "run_result (Some m) tr extra (Inr (True, n))"
    and less: "n < length (pending_events c (ew_events w))" by blast
  from tr(2) show n: "n = m" by (simp add: run_result_def)
  with less show "m < length (pending_events c (ew_events w))" by simp
  from tr n have "pending_events c (ew_events w') = drop m (pending_events c (ew_events w))"
    using delivery_all_pending [OF tr(1) _ ids] by (simp add: run_result_def)
  then show "pending_events c' (ew_events w') = drop m (pending_events c (ew_events w))"
    using pending_events_cong [OF try_send_events_run(2) [OF attempt ids]] by simp
  show "map ev_id (ew_events w') = map ev_id (ew_events w)" by (rule delivery_ids [OF tr(1)])
qed

lemma heartbeat_round:
  assumes "try_send_events out c proxy_url (Some 100) w = (Inr (True, n), c1, w1)"
  shows "heartbeat_loop (Suc fuel) out proxy_url limit c total_sent w =
    heartbeat_loop fuel out proxy_url limit c1 (total_sent + n)
      (if limit < total_sent + n then w1\<lparr>ew_tasks := ew_tasks w1 @ [(con_tenant c1, con_id c1)]\<rparr> else w1)"
  by (simp add: assms Let_def)

lemma heartbeat_loop_ends:
  assumes "distinct (map ev_id (ew_events w))" and "length (pending_events c (ew_events w)) < fuel * 100"
  shows "fst (heartbeat_loop fuel out proxy_url limit c total_sent w) \<noteq> Inl OutOfFuel"
  using assms
proof (induction fuel arbitrary: c total_sent w)
  case (Suc fuel)
  obtain r c1 w1 where attempt: "try_send_events out c proxy_url (Some 100) w = (r, c1, w1)" by (metis prod_cases3)
  show ?case
  proof (cases r)
    case (Inl err)
    with attempt try_send_events_error [of out c proxy_url "Some 100" w err c1 w1] Suc.prems(1) show ?thesis by simp
  next
    case (Inr q)
    obtain more_events n where q: "q = (more_events, n)" by (cases q)
    show ?thesis
    proof (cases more_events)
      case True
      from attempt Inr q True have attempt': "try_send_events out c proxy_url (Some 100) w = (Inr (True, n), c1, w1)"
        by simp
      note progress = round_progress [OF this Suc.prems(1)]
      let ?w = "if limit < total_sent + n then w1\<lparr>ew_tasks := ew_tasks w1 @ [(con_tenant c1, con_id c1)]\<rparr> else w1"
      have "distinct (map ev_id (ew_events ?w))" "length (pending_events c1 (ew_events ?w)) < fuel * 100"
        using progress Suc.prems by simp_all
      from Suc.IH [OF this, of "total_sent + n"] show ?thesis unfolding heartbeat_round [OF attempt'] .
    qed (simp add: attempt Inr q Let_def)
  qed
qed simp

text \<open>A consumer that accepts every request, and events that may be handled now.\<close>

definition responsive :: "'s outside \<Rightarrow> bool" where
  "responsive out \<longleftrightarrow> (\<forall>s rq. case out_post out s rq of
     (Inl exc, _) \<Rightarrow> False | (Inr rs, _) \<Rightarrow> \<not> error_status rs)"

definition due :: "'s event_world \<Rightarrow> ConsumerEvent \<Rightarrow> bool" where
  "due w e \<longleftrightarrow> (case ev_handle_at e of None \<Rightarrow> True | Some t \<Rightarrow> t \<le> ew_now w)"

lemma due_later: "due w e \<Longrightarrow> ew_now w \<le> ew_now w' \<Longrightarrow> due w' e"
  by (auto simp: due_def split: option.splits)

lemma check_handle_at_due:
  assumes "due w e"
  shows "\<exists>e1 w1. check_handle_at out c e w = (Some e1, w1)"
proof -
  obtain r w1 where run: "check_handle_at out c e w = (r, w1)" by fastforce
  with check_handle_at_run(1) [OF run] check_handle_at_run(3) [OF run] assms show ?thesis
    by (cases r) (auto simp: due_def clock_only_def)
qed

lemma send_event_responsive:
  assumes "responsive out" and "send_event out proxy_url netloc c e w = (r, c', w')"
  shows "r = Inr (False, HEALTHY)"
proof -
  obtain hs c1 w1 where 1: "consumer_headers out c w = (hs, c1, w1)" by (metis prod_cases3)
  let ?rq = "post_request out proxy_url netloc c1 hs e"
  obtain answer n s where 2: "out_post out (ew_outside w1) ?rq = (answer, n, s)" by (metis prod_cases3)
  from assms(1) [unfolded responsive_def, rule_format, of "ew_outside w1" ?rq] 2
  obtain rs where "answer = Inr rs" "\<not> error_status rs" by (cases answer) auto
  with assms(2) show ?thesis
    by (simp add: send_event_def 1 requests_post_def 2 handle_answer_def Let_def)
qed

lemma send_event_clock: "send_event out proxy_url netloc c e w = (r, c', w') \<Longrightarrow> ew_now w \<le> ew_now w'"
  by (drule send_event_run(2)) auto

lemma send_loop_clock:
  "send_loop out proxy_url max_events netloc c h cnt es w = (r, c', w') \<Longrightarrow> ew_now w \<le> ew_now w'"
proof (induction es arbitrary: c h cnt w)
  case (Cons e es)
  obtain o1 w1 where check: "check_handle_at out c e w = (o1, w1)" by fastforce
  from check_handle_at_run(1) [OF check] have w1: "ew_now w \<le> ew_now w1" by (simp add: clock_only_def)
  show ?case
  proof (cases o1)
    case None
    with Cons.prems check w1 show ?thesis by (auto split: if_splits option.splits)
  next
    case (Some e1)
    obtain r2 c2 w2 where send: "send_event out proxy_url netloc c e1 w1 = (r2, c2, w2)" by (metis prod_cases3)
    from send_event_clock [OF send] w1 have w2: "ew_now w \<le> ew_now w2" by simp
    then show ?thesis using Cons.prems check Some send Cons.IH [of c2 _ "cnt + 1" w2]
      by (fastforce split: if_splits sum.splits prod.splits option.splits)
  qed
qed simp

lemma try_send_events_clock:
  "try_send_events out c proxy_url max_events w = (r, c', w') \<Longrightarrow> ew_now w \<le> ew_now w'"
  by (auto simp: try_send_events_def save_health_def Let_def dest: send_loop_clock split: sum.splits prod.splits if_splits)

lemma send_loop_responsive:
  assumes "responsive out" and "send_loop out proxy_url max_events netloc c h cnt es w = (r, c', w')"
    and "distinct (map ev_id (ew_events w))" and "es = take n (pending_events c (ew_events w))"
    and "\<forall>e \<in> set es. due w e"
  shows "\<exists>more_events cnt' h'. r = Inr (more_events, cnt', h') \<and>
    (more_events \<or> pending_events c (ew_events w') = drop (length es) (pending_events c (ew_events w)) \<and>
      (\<forall>m. max_events = Some m \<and> cnt \<le> m \<longrightarrow> cnt + length es \<le> m))"
  using assms(2-5)
proof (induction es arbitrary: c h cnt w n)
  case (Cons e es)
  show ?case
  proof (cases "case max_events of Some m \<Rightarrow> m \<le> cnt | None \<Rightarrow> False")
    case False
    from Cons.prems(3) obtain es' k where pend: "pending_events c (ew_events w) = e # es'" and es: "es = take k es'"
      by (cases "pending_events c (ew_events w)"; cases n) auto
    from Cons.prems(4) obtain e1 w1 where check: "check_handle_at out c e w = (Some e1, w1)"
      using check_handle_at_due [of w e out c] by auto
    obtain r2 c2 w2 where send: "send_event out proxy_url netloc c e1 w1 = (r2, c2, w2)" by (metis prod_cases3)
    from send_event_responsive [OF assms(1) send] have r2: "r2 = Inr (False, HEALTHY)" .
    note facts = delivery_step_facts [OF check send]
    from facts(4) r2 obtain e' where e': "ew_events w2 = store_event e' (ew_events w)" "delivered e e'" by auto
    from e' have pend2: "pending_events c (ew_events w2) = es'"
      unfolding e'(1) by (intro pending_after_delivery [OF Cons.prems(2) pend]) (auto simp: delivered_def)
    then have pend2': "pending_events c2 (ew_events w2) = es'" using pending_events_cong [OF facts(1)] by simp
    from send_event_run(2) [OF send] check_handle_at_run(1) [OF check] have "ew_now w \<le> ew_now w2"
      by (auto simp: clock_only_def)
    then have due: "\<forall>e \<in> set es. due w2 e" using Cons.prems(4) due_later by auto
    have run: "send_loop out proxy_url max_events netloc c2 HEALTHY (cnt + 1) es w2 = (r, c', w')"
      using Cons.prems(1) False check send r2 by (simp split: option.splits)
    from Cons.IH [OF run _ es [folded pend2'] due] e'(1) Cons.prems(2) obtain more_events cnt' h' where
      "r = Inr (more_events, cnt', h')"
      "more_events \<or> pending_events c2 (ew_events w') = drop (length es) (pending_events c2 (ew_events w2)) \<and>
        (\<forall>m. max_events = Some m \<and> cnt + 1 \<le> m \<longrightarrow> cnt + 1 + length es \<le> m)" by auto
    then show ?thesis using pend pend2' False pending_events_cong [OF facts(1)] by auto
  qed (use Cons.prems(1) in \<open>auto split: option.splits\<close>)
qed auto

lemma try_send_events_responsive:
  assumes "responsive out" and run: "try_send_events out c proxy_url (Some m) w = (r, c', w')"
    and ids: "distinct (map ev_id (ew_events w))" and url: "urlsplit_netloc (con_target c) = Inr netloc"
    and due: "\<forall>e \<in> set (pending_events c (ew_events w)). due w e"
  shows "\<exists>more_events n. r = Inr (more_events, n) \<and>
    (more_events \<or> pending_events c (ew_events w') = [] \<and> length (pending_events c (ew_events w)) \<le> m)"
proof -
  let ?pending = "pending_events c (ew_events w)"
  let ?es = "take (m + 1) ?pending"
  obtain r1 c1 w1 where loop: "send_loop out proxy_url (Some m) netloc c (con_health c) 0 ?es w = (r1, c1, w1)"
    by (metis prod_cases3)
  have "\<forall>e \<in> set ?es. due w e" using due by (meson in_set_takeD)
  from send_loop_responsive [OF assms(1) loop ids refl this] obtain more_events n h where
    r1: "r1 = Inr (more_events, n, h)" and rest: "more_events \<or>
      pending_events c (ew_events w1) = drop (length ?es) ?pending \<and> length ?es \<le> m" by auto
  from run have r: "r = Inr (more_events, n)" and w': "ew_events w' = ew_events w1"
    unfolding try_send_events_def url sum.case Let_def option.case loop r1
    by (auto simp: save_health_fields Let_def split: if_splits)
  show ?thesis
  proof (cases more_events)
    case False
    with rest have "pending_events c (ew_events w') = drop (length ?es) ?pending" "length ?es \<le> m"
      by (simp_all add: w')
    then have "pending_events c (ew_events w') = [] \<and> length ?pending \<le> m" by (cases "length ?pending \<le> m") auto
    with r show ?thesis by simp
  qed (use r in auto)
qed

text \<open>The rounds after which more than \<open>limit\<close> events were looked at and more are pending.\<close>

definition rounds_past :: "nat \<Rightarrow> nat \<Rightarrow> nat \<Rightarrow> nat set" where
  "rounds_past limit t n = {i. 0 < i \<and> limit < t + 100 * i \<and> 100 * i < n}"

lemma rounds_past_finite [simp]: "finite (rounds_past limit t n)"
  by (rule finite_subset [of _ "{..<n}"]) (auto simp: rounds_past_def)

lemma rounds_past_last: "n \<le> 100 \<Longrightarrow> rounds_past limit t n = {}"
  by (auto simp: rounds_past_def)

lemma rounds_past_step:
  assumes "100 < n"
  shows "card (rounds_past limit t n) =
    (if limit < t + 100 then 1 else 0) + card (rounds_past limit (t + 100) (n - 100))"
proof -
  have rest: "i \<in> rounds_past limit t n \<longleftrightarrow>
      (i = 1 \<and> limit < t + 100) \<or> (\<exists>j. i = Suc j \<and> j \<in> rounds_past limit (t + 100) (n - 100))" for i
    using assms by (cases i) (auto simp: rounds_past_def)
  have "rounds_past limit t n =
      (if limit < t + 100 then {1} else {}) \<union> Suc ` rounds_past limit (t + 100) (n - 100)"
    using rest by (auto simp: image_iff)
  moreover have "card (Suc ` X) = card X" for X by (rule card_image) simp
  moreover have "1 \<notin> Suc ` rounds_past limit (t + 100) (n - 100)" by (auto simp: rounds_past_def)
  ultimately show ?thesis by simp
qed

lemma heartbeat_loop_delivers:
  assumes "responsive out" and "distinct (map ev_id (ew_events w))"
    and "length (pending_events c (ew_events w)) < fuel * 100"
    and "urlsplit_netloc (con_target c) = Inr netloc" and "\<forall>e \<in> set (pending_events c (ew_events w)). due w e"
  shows "case heartbeat_loop fuel out proxy_url limit c total_sent w of (r, w') \<Rightarrow>
    r = Inr () \<and> pending_events c (ew_events w') = [] \<and>
    ew_tasks w' = ew_tasks w @ replicate
      (card (rounds_past limit total_sent (length (pending_events c (ew_events w))))) (con_tenant c, con_id c)"
  using assms(2-5)
proof (induction fuel arbitrary: c total_sent w)
  case (Suc fuel)
  obtain r c1 w1 where attempt: "try_send_events out c proxy_url (Some 100) w = (r, c1, w1)" by (metis prod_cases3)
  note like = try_send_events_run(2) [OF attempt Suc.prems(1)]
  have same: "con_tenant c1 = con_tenant c" "con_id c1 = con_id c" using like by (simp_all add: like_def)
  have tasks: "ew_tasks w1 = ew_tasks w" using try_send_events_run(4) [OF attempt Suc.prems(1)] by simp
  let ?n = "length (pending_events c (ew_events w))"
  from try_send_events_responsive [OF assms(1) attempt Suc.prems(1,3,4)] obtain more_events n where
    r: "r = Inr (more_events, n)" and rest: "more_events \<or> pending_events c (ew_events w1) = [] \<and> ?n \<le> 100" by blast
  show ?case
  proof (cases more_events)
    case True
    from attempt r True have attempt': "try_send_events out c proxy_url (Some 100) w = (Inr (True, n), c1, w1)" by simp
    note progress = round_progress [OF this Suc.prems(1)]
    let ?w = "if limit < total_sent + n then w1\<lparr>ew_tasks := ew_tasks w1 @ [(con_tenant c1, con_id c1)]\<rparr> else w1"
    have ids: "distinct (map ev_id (ew_events ?w))" and less: "length (pending_events c1 (ew_events ?w)) < fuel * 100"
      using progress Suc.prems by simp_all
    have "ew_now w \<le> ew_now ?w" using try_send_events_clock [OF attempt] by simp
    then have later: "due ?w e" if "e \<in> set (pending_events c (ew_events w))" for e
      using Suc.prems(4) that due_later [of w e ?w] by blast
    have pend: "pending_events c1 (ew_events ?w) = drop 100 (pending_events c (ew_events w))" using progress(3) by simp
    then have left: "length (pending_events c1 (ew_events ?w)) = ?n - 100" by simp
    have "\<forall>e \<in> set (pending_events c1 (ew_events ?w)). due ?w e"
      using later in_set_dropD unfolding pend by fastforce
    moreover have "urlsplit_netloc (con_target c1) = Inr netloc" using like Suc.prems(3) by (simp add: like_def)
    ultimately have IH: "case heartbeat_loop fuel out proxy_url limit c1 (total_sent + n) ?w of (r, w') \<Rightarrow>
        r = Inr () \<and> pending_events c1 (ew_events w') = [] \<and> ew_tasks w' = ew_tasks ?w @ replicate
          (card (rounds_past limit (total_sent + n) (length (pending_events c1 (ew_events ?w))))) (con_tenant c1, con_id c1)"
      by (intro Suc.IH ids less)
    obtain r2 w2 where run: "heartbeat_loop fuel out proxy_url limit c1 (total_sent + n) ?w = (r2, w2)" by fastforce
    have "r2 = Inr ()" "pending_events c (ew_events w2) = []" "ew_tasks w2 = ew_tasks ?w @ replicate
        (card (rounds_past limit (total_sent + 100) (?n - 100))) (con_tenant c, con_id c)"
      using IH [unfolded run left prod.case] unfolding pending_events_cong [OF like] progress(1) same by simp_all
    moreover have "ew_tasks ?w = ew_tasks w @ replicate (if limit < total_sent + 100 then 1 else 0) (con_tenant c, con_id c)"
      by (simp add: tasks same progress(1))
    ultimately show ?thesis
      unfolding heartbeat_round [OF attempt'] run rounds_past_step [OF progress(2)] replicate_add by simp
  qed (use attempt r rest tasks in \<open>simp add: Let_def rounds_past_last\<close>)
qed simp

section \<open>Single operations\<close>

lemma backoff_at_time: "backoff_at out c w = (Inr t, w') \<Longrightarrow> t = ew_now w' + con_retry_backoff_delay c"
  by (drule backoff_at_run) (simp add: datetime_add_def split: if_splits)

lemma failure_backoff:
  assumes "handle_failure out c resp exc e w = (Inr (e', h), w')"
  shows "ev_handle_at e' =
    (case (if rate_limited resp then fst (retry_at_from_response out (the resp) w) else None) of
       Some t \<Rightarrow> Some t
     | None \<Rightarrow> if rate_limited resp \<or> con_retry_backoff_every c \<le> ev_retries_in_cycle e + 1
         then Some (ew_now w' + con_retry_backoff_delay c) else ev_handle_at e)"
    and "h = (if rate_limited resp then RATE_LIMIT else UNHEALTHY)"
    and "ev_retries_in_cycle e' = ev_retries_in_cycle e + 1" and "failed_attempt c e e'"
proof -
  from handle_failure_run [OF assms] show "failed_attempt c e e'" by simp
  let ?e = "(if resp = None then e\<lparr>ev_response := None, ev_status_code := None, ev_response_headers := None\<rparr> else e)
    \<lparr>ev_exception := Some exc, ev_retries := ev_retries e + 1, ev_retries_in_cycle := ev_retries_in_cycle e + 1\<rparr>"
  obtain r1 w1 where next': "next_handle_at out c resp ?e w = (r1, w1)" by fastforce
  from assms next' obtain t where t: "r1 = Inr t" "w' = w1" "e' = ?e\<lparr>ev_handle_at := t, ev_state := failed_state c ?e\<rparr>"
    and h: "h = (if rate_limited resp then RATE_LIMIT else UNHEALTHY)"
    by (auto simp: handle_failure_def Let_def split: sum.splits if_splits)
  from h show "h = (if rate_limited resp then RATE_LIMIT else UNHEALTHY)" .
  from t show "ev_retries_in_cycle e' = ev_retries_in_cycle e + 1" by simp
  have "t = (case (if rate_limited resp then fst (retry_at_from_response out (the resp) w) else None) of
       Some t \<Rightarrow> Some t
     | None \<Rightarrow> if rate_limited resp \<or> con_retry_backoff_every c \<le> ev_retries_in_cycle e + 1
         then Some (ew_now w1 + con_retry_backoff_delay c) else ev_handle_at e)"
    using next' t(1)
    by (auto simp: next_handle_at_def Let_def dest!: backoff_at_time split: prod.splits sum.splits option.splits if_splits)
  moreover have "ev_handle_at e' = t" using t(3) by simp
  ultimately show "ev_handle_at e' =
    (case (if rate_limited resp then fst (retry_at_from_response out (the resp) w) else None) of
       Some t \<Rightarrow> Some t
     | None \<Rightarrow> if rate_limited resp \<or> con_retry_backoff_every c \<le> ev_retries_in_cycle e + 1
         then Some (ew_now w' + con_retry_backoff_delay c) else ev_handle_at e)" by (simp only: t(2))
qed

text \<open>What the regular expression accepts: any characters, one more, \<open>local:\<close>, a port.\<close>

lemma trusted_iff:
  "is_trusted_consumer_target s \<longleftrightarrow>
    (\<exists>front port. s = front @ ''local:'' @ port \<and> front \<noteq> [] \<and> list_all (\<lambda>c. char_code c \<noteq> 10) front \<and>
      port \<noteq> [] \<and> list_all is_digit port)" (is "?code \<longleftrightarrow> ?regex")
proof
  assume ?code
  then have p: "takeWhile is_digit (rev s) \<noteq> []" "take 6 (dropWhile is_digit (rev s)) = rev ''local:''"
    "drop 6 (dropWhile is_digit (rev s)) \<noteq> []" "list_all (\<lambda>c. char_code c \<noteq> 10) (drop 6 (dropWhile is_digit (rev s)))"
    by (simp_all add: is_trusted_consumer_target_def Let_def)
  define port front where "port = rev (takeWhile is_digit (rev s))" and "front = rev (drop 6 (dropWhile is_digit (rev s)))"
  have "rev s = takeWhile is_digit (rev s) @ take 6 (dropWhile is_digit (rev s)) @ drop 6 (dropWhile is_digit (rev s))"
    by simp
  then have "rev s = rev port @ rev ''local:'' @ rev front" unfolding p(2) by (simp add: port_def front_def)
  then have "rev s = rev (front @ ''local:'' @ port)" by simp
  then have "s = front @ ''local:'' @ port" by (simp only: rev_is_rev_conv)
  moreover have "list_all is_digit port" by (auto simp: port_def list_all_iff dest: set_takeWhileD)
  ultimately show ?regex using p by (intro exI [of _ front] exI [of _ port]) (auto simp: port_def front_def list_all_iff)
next
  assume ?regex
  then obtain front port where s: "s = front @ ''local:'' @ port" "front \<noteq> []"
    "list_all (\<lambda>c. char_code c \<noteq> 10) front" "port \<noteq> []" "list_all is_digit port" by blast
  have colon: "\<not> is_digit (CHR '':'')" by (simp add: is_digit_def char_code_def)
  have port: "list_all is_digit (rev port)" using s(5) by (simp add: list_all_iff)
  have rev: "rev s = rev port @ CHR '':'' # rev ''local'' @ rev front" by (simp add: s(1))
  have "takeWhile is_digit (rev s) = rev port" unfolding rev by (rule takeWhile_all_append [OF port]) (simp add: colon)
  moreover have "dropWhile is_digit (rev s) = CHR '':'' # rev ''local'' @ rev front"
    unfolding rev by (rule dropWhile_all_append [OF port]) (simp add: colon)
  ultimately show ?code using s by (simp add: is_trusted_consumer_target_def Let_def list_all_iff)
qed

section \<open>Properties\<close>

text \<open>C32: Sending events follows the queue: \<open>try_send_events\<close> attempts the pending events from
  the head of the queue on, in the order of the consumer's mode, one request each with the body of
  that event and not before the event may be handled; each success removes the head, the first
  failure ends the run, and never more than \<open>max_events\<close> are attempted. When it reports more
  events, exactly \<open>max_events\<close> were delivered. (When the end of a back off lies beyond the range
  of dates, it raises after one more request whose failure is not recorded.)\<close>

theorem try_send_events_refines_queue:
  assumes "distinct (map ev_id (ew_events w))"
  shows "case try_send_events out c proxy_url max_events w of (r, c', w') \<Rightarrow>
    \<exists>tr extra ps. delivery c (ew_events w) tr (ew_events w') \<and> ew_posts w' = ew_posts w @ ps \<and>
      list_all2 (sent out c) (map fst tr @ extra) ps \<and> run_result max_events tr extra r"
proof -
  obtain r c' w' where run: "try_send_events out c proxy_url max_events w = (r, c', w')" by (metis prod_cases3)
  from try_send_events_run(1) [OF run assms] show ?thesis unfolding run by fastforce
qed

definition sample_outside :: "int \<Rightarrow> unit outside" where
  "sample_outside status =
     \<lparr>out_elapsed = (\<lambda>s. (1, s)), out_agent = (\<lambda>s. (''agent'', s)),
      out_post = (\<lambda>s rq. (Inr \<lparr>re_text = ''ok'', re_status_code = status, re_headers = []\<rparr>, 5, s)),
      out_http_error = (\<lambda>_. ''error''), out_isoformat = (\<lambda>_. ''time'')\<rparr>"

definition sample_consumer :: EventConsumer where
  "sample_consumer =
     \<lparr>con_id = ''c'', con_tenant = ''t'', con_tenant_name = ''T'', con_deleted_at = None,
      con_target = ''https://x.org/hook'', con_headers = None, con_timeout = Fin 60 0, con_health = UNKNOWN,
      con_mode = IN_ORDER, con_retry_backoff_every = 1, con_retry_backoff_delay = 30000000,
      con_retry_max = 1\<rparr>"

definition sample_world :: "unit event_world" where
  "sample_world =
     \<lparr>ew_outside = (), ew_now = 1000, ew_next_id = 1, ew_events = [], ew_consumers = [sample_consumer],
      ew_links = [(''s'', ''c'')], ew_posts = [], ew_tasks = []\<rparr>"

definition sample_first :: "int \<Rightarrow> unit event_world" where
  "sample_first status =
     data_point_event (sample_outside status) (\<lambda>cs. cs) ''t'' ''s'' 101 2 [] DATA_POINT_DELETED sample_world"

definition sample_events :: "int \<Rightarrow> unit event_world" where
  "sample_events status =
     data_point_event (sample_outside status) (\<lambda>cs. cs) ''t'' ''s'' 100 1 [] DATA_POINT_CHANGED (sample_first status)"

lemma sample_events_ids: "map ev_id (ew_events (sample_events 200)) = [1, 2]"
  by code_simp

lemma sample_delivered:
  "case consumer_heartbeat 1 (sample_outside 200) None 200 ''c'' (sample_events 200) of (r, w') \<Rightarrow>
    map ev_state (ew_events w') = [SUCCESS, SUCCESS]"
  by code_simp

lemma sample_pending: "length (pending_events sample_consumer (ew_events (sample_events 200))) = 2"
  "map con_id (ew_consumers (sample_events 200)) = [''c'']"
  "ew_consumers (sample_events 200) = [sample_consumer]"
  "map ev_handle_at (ew_events (sample_events 200)) = [None, None]"
  by code_simp+

theorem try_send_events_refines_queue_witness:
  "case try_send_events (sample_outside 200) sample_consumer None None (sample_events 200) of (r, c', w') \<Rightarrow>
    \<exists>tr extra ps. delivery sample_consumer (ew_events (sample_events 200)) tr (ew_events w') \<and>
      ew_posts w' = ew_posts (sample_events 200) @ ps \<and>
      list_all2 (sent (sample_outside 200) sample_consumer) (map fst tr @ extra) ps \<and> run_result None tr extra r"
  by (rule try_send_events_refines_queue) (simp add: sample_events_ids)

text \<open>C31: Events are delivered in order. Start with no events and let anything happen, in any order
  (\<open>event_step\<close>). Whenever a step attempts an event \<open>b\<close> of a consumer in the mode
  \<open>IN_ORDER\<close>, that event was neither delivered nor given up before, and all earlier events of that
  consumer that are there are delivered or given up after the step. (An event may still be
  published with a point in time before those of delivered events: it is the next one to be
  attempted, and everything after it waits.)\<close>

theorem events_delivered_in_order:
  assumes "(event_step out)\<^sup>*\<^sup>* v w" and "ew_events v = []" and "distinct (map con_id (ew_consumers v))"
    and "event_step out w w'"
    and "c \<in> set (ew_consumers w)" and "con_mode c = IN_ORDER"
    and "b \<in> set (ew_events w)" and "b' \<in> set (ew_events w')" and "ev_consumer b = con_id c" and "attempted b b'"
  shows "\<not> finished b \<and>
    (\<forall>a \<in> set (ew_events w'). ev_consumer a = con_id c \<and> earlier a b \<longrightarrow> finished a)"
proof -
  have "keyed v" using assms(2,3) by (simp add: keyed_def)
  with assms(1) have w: "keyed w" by (rule event_steps_keyed)
  have mode: "con_id x = con_id c \<longrightarrow> con_mode x = IN_ORDER" if "x \<in> set (ew_consumers w)" for x
    using keyed_facts(1) [OF w] that assms(5,6) by (auto simp: distinct_map dest: inj_onD)
  have "in_order (con_id c) (ew_events w) (ew_events w') \<or> b' = b"
    using assms(4) w
  proof (cases rule: event_step_cases)
    case heartbeat
    then show ?thesis using ordered.heartbeat_related keyed_facts(2) [OF w] mode by blast
  next
    case (round c0 x)
    from mode [OF round(1)] ordered.alike [OF _ round(2)] show ?thesis
      using ordered.round_related [OF round(3) keyed_facts(2) [OF w]] by blast
  next
    case added
    then show ?thesis using added_or_removed_unchanged [OF w _ assms(7,8)] assms(10) by (auto simp: attempted_def)
  next
    case (removed Q)
    then show ?thesis using added_or_removed_unchanged [OF w _ assms(7,8)] assms(10) by (auto simp: attempted_def)
  qed
  with in_order_later(3,4) [OF _ assms(7,8)] assms(9,10) show ?thesis
    by (auto simp: attempted_def)
qed

text \<open>A run: two events, the later one published first, and a heartbeat during which the consumer
  answers with \<open>status\<close>.\<close>

definition sample_run :: "int \<Rightarrow> unit event_world" where
  "sample_run status = snd (consumer_heartbeat 1 (sample_outside status) None 200 ''c'' (sample_events status))"

lemma sample_event_steps:
  "event_step (sample_outside status) sample_world (sample_first status)"
  "event_step (sample_outside status) (sample_first status) (sample_events status)"
  "event_step (sample_outside status) (sample_events status) (sample_run status)"
  unfolding sample_first_def sample_events_def
    apply (rule event_step.new_event)
   apply (rule event_step.new_event)
  apply (rule event_step.heartbeat [where r = "fst (consumer_heartbeat 1 (sample_outside status) None 200 ''c'' (sample_events status))"])
  apply (simp add: sample_run_def sample_events_def sample_first_def)
  done

lemma sample_run_rows:
  "map (\<lambda>e. (ev_point_in_time e, ev_id e, ev_consumer e, ev_state e, ev_retries e)) (ew_events (sample_events 200)) =
    [(101, 1, ''c'', NEW, 0), (100, 2, ''c'', NEW, 0)]"
  "map (\<lambda>e. (ev_point_in_time e, ev_id e, ev_consumer e, ev_state e, ev_retries e)) (ew_events (sample_run 200)) =
    [(101, 1, ''c'', SUCCESS, 0), (100, 2, ''c'', SUCCESS, 0)]"
  "map (\<lambda>e. (ev_point_in_time e, ev_id e, ev_consumer e, ev_state e, ev_retries e)) (ew_events (sample_run 500)) =
    [(101, 1, ''c'', NEW, 0), (100, 2, ''c'', RETRY, 1)]"
  "ew_consumers (sample_first 500) = [sample_consumer]"
  "ew_consumers (sample_events 500) = [sample_consumer]"
  by code_simp+

theorem events_delivered_in_order_witness:
  "ev_point_in_time (ew_events (sample_run 200) ! 1) < ev_point_in_time (ew_events (sample_run 200) ! 0) \<and>
   finished (ew_events (sample_run 200) ! 1)"
proof -
  obtain a0 b0 where old: "ew_events (sample_events 200) = [b0, a0]" "ev_point_in_time b0 = 101" "ev_id b0 = 1"
    "ev_consumer b0 = ''c''" "ev_state b0 = NEW" using sample_run_rows(1) by auto
  obtain a b where ab: "ew_events (sample_run 200) = [b, a]" "ev_point_in_time a = 100" "ev_consumer a = ''c''"
    "ev_id b = 1" "ev_state b = SUCCESS" "ev_point_in_time b = 101" using sample_run_rows(2) by auto
  have "(event_step (sample_outside 200))\<^sup>*\<^sup>* sample_world (sample_events 200)"
    using sample_event_steps(1,2) by (meson rtranclp.rtrancl_into_rtrancl rtranclp.rtrancl_refl)
  then have "\<not> finished b0 \<and>
      (\<forall>a \<in> set (ew_events (sample_run 200)). ev_consumer a = con_id sample_consumer \<and> earlier a b0 \<longrightarrow> finished a)"
  proof (rule events_delivered_in_order [OF _ _ _ sample_event_steps(3)])
    show "attempted b0 b" by (simp add: attempted_def old ab)
    show "sample_consumer \<in> set (ew_consumers (sample_events 200))" by (simp add: sample_pending)
  qed (simp_all add: old ab, simp_all add: sample_world_def sample_consumer_def)
  with ab old show ?thesis by (simp add: earlier_def sample_consumer_def)
qed

text \<open>C39: A consumer's limit of retries holds. From no events on, whatever happens, and however
  the consumer's limit is changed between \<open>M\<close> and \<open>N\<close> (greater than zero): an event of the
  consumer has at most \<open>N\<close> retries while it is not given up, and once it is given up, more than
  \<open>M\<close> and at most \<open>N + 1\<close>. With a limit \<open>m\<close> that is never changed that is: at most \<open>m\<close> while
  not given up, exactly \<open>m + 1\<close> after.\<close>

theorem retries_bounded:
  assumes "(limited_step out k M N)\<^sup>*\<^sup>* w w'" and "ew_events w = []" and "distinct (map con_id (ew_consumers w))"
    and "0 < M" and "M \<le> N" and "e \<in> set (ew_events w')" and "ev_consumer e = k"
  shows "0 \<le> ev_retries e \<and>
    (if ev_state e = FAILED then M < ev_retries e \<and> ev_retries e \<le> N + 1 else ev_retries e \<le> N)"
proof -
  have "keyed w" "retries_within k M N (ew_events w)" using assms(2,3) by (simp_all add: keyed_def retries_within_def)
  with limited_steps_bounded [OF assms(1) _ _ assms(4,5)] have "retries_within k M N (ew_events w')" by blast
  with assms(6,7) show ?thesis unfolding retries_within_def by blast
qed

theorem retries_bounded_witness: "0 \<le> ev_retries (ew_events (sample_run 500) ! 1) \<and>
  ev_retries (ew_events (sample_run 500) ! 1) \<le> 1"
proof -
  obtain a b where ab: "ew_events (sample_run 500) = [b, a]" "ev_consumer a = ''c''" "ev_state a = RETRY"
    using sample_run_rows(3) by auto
  let ?step = "limited_step (sample_outside 500) ''c'' 1 1"
  have "?step sample_world (sample_first 500)" "?step (sample_first 500) (sample_events 500)"
    "?step (sample_events 500) (sample_run 500)"
    using sample_event_steps [of 500] sample_run_rows(4,5)
    by (simp_all add: limited_step_def sample_world_def sample_consumer_def)
  then have "?step\<^sup>*\<^sup>* sample_world (sample_run 500)"
    by (meson rtranclp.rtrancl_into_rtrancl rtranclp.rtrancl_refl)
  then have "0 \<le> ev_retries a \<and>
    (if ev_state a = FAILED then 1 < ev_retries a \<and> ev_retries a \<le> 1 + 1 else ev_retries a \<le> 1)"
    by (rule retries_bounded) (simp_all add: ab, simp_all add: sample_world_def sample_consumer_def)
  with ab show ?thesis by simp
qed

text \<open>C40: A heartbeat ends: whatever the consumers answer, as many rounds as there are hundreds of
  pending events, and one more, are enough.\<close>

theorem heartbeat_ends:
  assumes "distinct (map ev_id (ew_events w))"
    and "\<forall>c \<in> set (ew_consumers w). length (pending_events c (ew_events w)) < fuel * 100"
  shows "fst (consumer_heartbeat fuel out proxy_url limit k w) \<noteq> Inl OutOfFuel"
proof (cases "\<exists>c. filter (\<lambda>c. con_id c = k \<and> con_deleted_at c = None) (ew_consumers w) = [c]")
  case True
  then obtain c where c: "filter (\<lambda>c. con_id c = k \<and> con_deleted_at c = None) (ew_consumers w) = [c]" ..
  have "c \<in> set (filter (\<lambda>c. con_id c = k \<and> con_deleted_at c = None) (ew_consumers w))" by (simp add: c)
  then have "length (pending_events c (ew_events w)) < fuel * 100" using assms(2) by simp
  from heartbeat_loop_ends [OF assms(1) this] show ?thesis
    unfolding consumer_heartbeat_def c list.case .
qed (auto simp: consumer_heartbeat_def split: list.splits)

theorem heartbeat_ends_witness:
  "fst (consumer_heartbeat 1 (sample_outside 500) None 200 ''c'' (sample_events 200)) \<noteq> Inl OutOfFuel"
  by (rule heartbeat_ends) (simp_all add: sample_events_ids sample_pending)



text \<open>A failed attempt: the retries are counted; a consumer that answers 429 is put off until
  the time it asked for, or by its own delay if it named none that can be read; any other failure
  puts the event off by the delay once the retries of the cycle reach the number after which to
  back off, and otherwise leaves its time alone. Only an overflow of the date raises.\<close>

theorem failed_attempt_backs_off:
  "case handle_failure out c resp exc e w of
     (Inl err, w') \<Rightarrow> err = OverflowError
   | (Inr (e', h), w') \<Rightarrow> failed_attempt c e e' \<and> ev_retries_in_cycle e' = ev_retries_in_cycle e + 1 \<and>
       h = (if rate_limited resp then RATE_LIMIT else UNHEALTHY) \<and>
       ev_handle_at e' =
         (case (if rate_limited resp then fst (retry_at_from_response out (the resp) w) else None) of
            Some t \<Rightarrow> Some t
          | None \<Rightarrow> if rate_limited resp \<or> con_retry_backoff_every c \<le> ev_retries_in_cycle e + 1
              then Some (ew_now w' + con_retry_backoff_delay c) else ev_handle_at e)"
proof (cases "handle_failure out c resp exc e w")
  case (Pair r w')
  show ?thesis
  proof (cases r)
    case (Inl err)
    with Pair handle_failure_run [of out c resp exc e w r w'] show ?thesis by simp
  next
    case (Inr p)
    obtain e' h where p: "p = (e', h)" by (cases p)
    note facts = failure_backoff [of out c resp exc e w e' h w', OF Pair [unfolded Inr p]]
    show ?thesis unfolding Pair Inr p prod.case sum.case
      by (intro conjI facts)
  qed
qed

text \<open>What is stored of an answer is bounded: unless the host is trusted, at most 1027
  characters of text and headers from the allow list. A host is trusted exactly if it matches the
  regular expression; its first dot is not escaped, so any character may stand before \<open>local\<close>.\<close>

theorem stored_responses_sanitized:
  "(is_trusted_consumer_target netloc \<longleftrightarrow>
      (\<exists>front port. netloc = front @ ''local:'' @ port \<and> front \<noteq> [] \<and>
        list_all (\<lambda>c. char_code c \<noteq> 10) front \<and> port \<noteq> [] \<and> list_all is_digit port)) \<and>
   (is_trusted_consumer_target netloc \<or>
      length (sanitize_response netloc text) \<le> 1027 \<and>
      set (keys (sanitize_headers netloc hs)) \<subseteq> set RESPONSE_HEADERS_ALLOW_LIST)"
  using trusted_iff [of netloc]
  by (auto simp: sanitize_response_def sanitize_response_untrusted_def MAX_RESPONSE_LENGTH_def
      sanitize_headers_def sanitize_headers_untrusted_def)

end
