(* ===== verification/Server_Filter_Correct.thy ===== *)
theory Server_Filter_Correct
  imports Server_Filter
begin

text \<open>
  What a filter of the user means, apart from SQL: the JSON is read as a formula over comparisons of
  fields, and the formula has a value in the logic of three values for every row. The translation
  accepts exactly the formulas whose comparisons are well typed and name known fields, and the
  condition it makes has the value of the formula; its placeholders never clash.
\<close>

section \<open>The abstract syntax of filters\<close>

datatype user_filter = AllOf "user_filter list" | AnyOf "user_filter list" | NotF user_filter | OnField string string pyval

function read_column :: "string \<Rightarrow> pyval \<Rightarrow> string \<Rightarrow> user_filter" where
  "read_column column f operator =
     (case f of
        PDict items \<Rightarrow> AllOf (map (\<lambda>item. read_column column (snd item) (fst item)) items)
      | _ \<Rightarrow> OnField column operator f)"
  by pat_completeness auto
termination
  by (relation "measure (\<lambda>(column, f, operator). size f)") (auto dest: size_dict_member)

declare read_column.simps [simp del]

definition list_option :: "'a option list \<Rightarrow> 'a list option" where
  "list_option xs = (if None \<in> set xs then None else Some (map the xs))"

function read_filter :: "nat \<Rightarrow> pyval \<Rightarrow> user_filter option" where
  "read_filter depth f =
     (if MAX_DEPTH < depth then None
      else case f of
        PDict items \<Rightarrow> map_option AllOf (list_option (map (\<lambda>item.
          if fst item = ''$and'' then
            (case snd item of
               PList vs \<Rightarrow> if vs = [] then None else map_option AllOf (list_option (map (read_filter (depth + 1)) vs))
             | _ \<Rightarrow> None)
          else if fst item = ''$or'' then
            (case snd item of
               PList vs \<Rightarrow> if vs = [] then None else map_option AnyOf (list_option (map (read_filter (depth + 1)) vs))
             | _ \<Rightarrow> None)
          else if fst item = ''$not'' then
            (case snd item of
               PDict d \<Rightarrow> if d = [] then None else map_option NotF (read_filter (depth + 1) (snd item))
             | _ \<Rightarrow> None)
          else if take 1 (fst item) = ''$'' then None
          else Some (read_column (fst item) (snd item) ''$eq'')) items))
      | PList vs \<Rightarrow> if vs = [] then Some (AllOf []) else None
      | PStr s \<Rightarrow> if s = [] then Some (AllOf []) else None
      | _ \<Rightarrow> None)"
  by pat_completeness auto
termination
proof (relation "measure (\<lambda>(depth, f). size f)", goal_cases)
  case (2 depth f items item vs v)
  then show ?case using size_dict_member [of item items] size_list_member [of v vs] by simp
next
  case (3 depth f items item vs v)
  then show ?case using size_dict_member [of item items] size_list_member [of v vs] by simp
next
  case (4 depth f items item d)
  then show ?case using size_dict_member [of item items] by simp
qed simp

declare read_filter.simps [simp del]

section \<open>What a formula means\<close>

definition filterable_kinds :: "child_kind list" where
  "filterable_kinds = [float_facts, string_facts, text_facts, timestamp_facts, boolean_facts, dimensions]"

definition field_kind :: "DataSeries \<Rightarrow> string \<Rightarrow> child_kind option" where
  "field_kind ds key = find (\<lambda>kind. key \<in> fst ` set (ds_keys ds kind)) filterable_kinds"

definition field_column :: "DataSeries \<Rightarrow> child_kind \<Rightarrow> string \<Rightarrow> string" where
  "field_column ds kind key = key_column (kind, key, the (map_of (ds_keys ds kind) key))"

text \<open>A key names at most one field that can be filtered.\<close>

definition fields_distinct :: "DataSeries \<Rightarrow> bool" where
  "fields_distinct ds \<longleftrightarrow> (\<forall>key. \<forall>k \<in> set filterable_kinds. \<forall>k' \<in> set filterable_kinds.
     key \<in> fst ` set (ds_keys ds k) \<longrightarrow> key \<in> fst ` set (ds_keys ds k') \<longrightarrow> k = k')"

definition operand_ok :: "(pyval \<Rightarrow> int option) \<Rightarrow> child_kind \<Rightarrow> pyval \<Rightarrow> bool" where
  "operand_ok parse_datetime kind v \<longleftrightarrow>
     (if kind = float_facts then is_numeric v else if kind = boolean_facts then is_bool v
      else if kind = timestamp_facts then parse_datetime v \<noteq> None else is_str v)"

definition operand :: "(pyval \<Rightarrow> int option) \<Rightarrow> child_kind \<Rightarrow> pyval \<Rightarrow> pyval" where
  "operand parse_datetime kind v =
     (if kind = timestamp_facts then PDateTime (the (parse_datetime v)) else v)"

definition null_test :: "string \<Rightarrow> pyval \<Rightarrow> bool" where
  "null_test operator v \<longleftrightarrow> operator \<in> {''$eq'', ''$ne''} \<and> v = PNone"

definition field_ok :: "(pyval \<Rightarrow> int option) \<Rightarrow> child_kind \<Rightarrow> string \<Rightarrow> pyval \<Rightarrow> bool" where
  "field_ok parse_datetime kind operator v \<longleftrightarrow>
     null_test operator v \<or>
     operator \<in> fst ` set single_valued_sql_operators \<and> operand_ok parse_datetime kind v \<or>
     operator \<in> fst ` set multi_valued_sql_operators \<and> list_of (operand_ok parse_datetime kind) v \<or>
     operator = ''$prefix'' \<and> kind \<in> {text_facts, string_facts} \<and> is_str v"

definition field_holds ::
  "'c postgres \<Rightarrow> (pyval \<Rightarrow> int option) \<Rightarrow> child_kind \<Rightarrow> string \<Rightarrow> pyval \<Rightarrow> pyval option \<Rightarrow> bool option" where
  "field_holds pg parse_datetime kind operator v x =
     (if null_test operator v then Some ((x = None) = (operator = ''$eq''))
      else case x of
        None \<Rightarrow> None
      | Some a \<Rightarrow>
          (case map_of single_valued_sql_operators operator of
             Some symb \<Rightarrow> Some (pg_compare pg symb a (operand parse_datetime kind v))
           | None \<Rightarrow>
               (case map_of multi_valued_sql_operators operator of
                  Some neg \<Rightarrow> Some (list_ex (pg_compare pg ''='' a) (map (operand parse_datetime kind) (tuple_elems v)) \<noteq> neg)
                | None \<Rightarrow> if kind = text_facts then Some (like_value a v) else None)))"

text \<open>What the server refuses to run: a prefix of a string fact, an empty list, a value it cannot cast.\<close>

definition field_runs :: "'c postgres \<Rightarrow> (pyval \<Rightarrow> int option) \<Rightarrow> child_kind \<Rightarrow> string \<Rightarrow> pyval \<Rightarrow> bool" where
  "field_runs pg parse_datetime kind operator v \<longleftrightarrow>
     null_test operator v \<or>
     operator \<in> fst ` set single_valued_sql_operators \<and> pg_accepts pg kind (operand parse_datetime kind v) \<or>
     operator \<in> fst ` set multi_valued_sql_operators \<and> pg_expands_tuples pg \<and> tuple_elems v \<noteq> [] \<and>
       list_all (\<lambda>e. pg_accepts pg kind (operand parse_datetime kind e)) (tuple_elems v) \<or>
     operator = ''$prefix'' \<and> kind = text_facts \<and> pg_accepts pg text_facts v"

fun compared_fields :: "user_filter \<Rightarrow> string set" where
  "compared_fields (AllOf ts) = (\<Union>t \<in> set ts. compared_fields t)"
| "compared_fields (AnyOf ts) = (\<Union>t \<in> set ts. compared_fields t)"
| "compared_fields (NotF t) = compared_fields t"
| "compared_fields (OnField key operator v) = {key}"

fun well_typed :: "(pyval \<Rightarrow> int option) \<Rightarrow> DataSeries \<Rightarrow> user_filter \<Rightarrow> bool" where
  "well_typed parse_datetime ds (AllOf ts) = list_all (well_typed parse_datetime ds) ts"
| "well_typed parse_datetime ds (AnyOf ts) = list_all (well_typed parse_datetime ds) ts"
| "well_typed parse_datetime ds (NotF t) = well_typed parse_datetime ds t"
| "well_typed parse_datetime ds (OnField key operator v) =
     (case field_kind ds key of None \<Rightarrow> True | Some kind \<Rightarrow> field_ok parse_datetime kind operator v)"

fun holds :: "'c postgres \<Rightarrow> (pyval \<Rightarrow> int option) \<Rightarrow> DataSeries \<Rightarrow> (string \<Rightarrow> sql_value) \<Rightarrow> user_filter \<Rightarrow> bool option" where
  "holds pg parse_datetime ds cols (AllOf ts) = and3 (map (holds pg parse_datetime ds cols) ts)"
| "holds pg parse_datetime ds cols (AnyOf ts) = or3 (map (holds pg parse_datetime ds cols) ts)"
| "holds pg parse_datetime ds cols (NotF t) = map_option Not (holds pg parse_datetime ds cols t)"
| "holds pg parse_datetime ds cols (OnField key operator v) =
     (case field_kind ds key of
        None \<Rightarrow> Some True
      | Some kind \<Rightarrow> field_holds pg parse_datetime kind operator v
          (lhs_value cols (ValueColumn (field_column ds kind key))))"

fun runs :: "'c postgres \<Rightarrow> (pyval \<Rightarrow> int option) \<Rightarrow> DataSeries \<Rightarrow> user_filter \<Rightarrow> bool" where
  "runs pg parse_datetime ds (AllOf ts) = list_all (runs pg parse_datetime ds) ts"
| "runs pg parse_datetime ds (AnyOf ts) = list_all (runs pg parse_datetime ds) ts"
| "runs pg parse_datetime ds (NotF t) = runs pg parse_datetime ds t"
| "runs pg parse_datetime ds (OnField key operator v) =
     (case field_kind ds key of None \<Rightarrow> False | Some kind \<Rightarrow> field_runs pg parse_datetime kind operator v)"

section \<open>One comparison\<close>

definition handler ::
  "(pyval \<Rightarrow> int option) \<Rightarrow> child_kind \<Rightarrow> DataSeries \<Rightarrow> string \<Rightarrow> string \<Rightarrow> pyval \<Rightarrow> string \<Rightarrow> sql_condition list filter_run" where
  "handler parse_datetime kind ds name key v operator =
     (if kind = float_facts then handle_if_float_fact True ds name key v operator
      else if kind = string_facts then handle_if_string_fact True ds name key v operator
      else if kind = text_facts then handle_if_text_fact True ds name key v operator
      else if kind = timestamp_facts then handle_if_timestamp_fact parse_datetime True ds name key v operator
      else if kind = boolean_facts then handle_if_boolean_fact True ds name key v operator
      else handle_if_dimension True ds name key v operator)"

lemma operator_cases:
  obtains (single) symb where "map_of single_valued_sql_operators operator = Some symb"
      "operator \<in> fst ` set single_valued_sql_operators" "map_of multi_valued_sql_operators operator = None"
      "operator \<notin> fst ` set multi_valued_sql_operators" "operator \<noteq> ''$prefix''"
  | (multi) neg where "map_of multi_valued_sql_operators operator = Some neg"
      "operator \<in> fst ` set multi_valued_sql_operators" "map_of single_valued_sql_operators operator = None"
      "operator \<notin> fst ` set single_valued_sql_operators" "operator \<noteq> ''$prefix''" "operator \<notin> {''$eq'', ''$ne''}"
  | (prefix) "operator = ''$prefix''" "map_of single_valued_sql_operators operator = None"
      "operator \<notin> fst ` set single_valued_sql_operators" "map_of multi_valued_sql_operators operator = None"
      "operator \<notin> fst ` set multi_valued_sql_operators"
  | (other) "operator \<noteq> ''$prefix''" "map_of single_valued_sql_operators operator = None"
      "operator \<notin> fst ` set single_valued_sql_operators" "map_of multi_valued_sql_operators operator = None"
      "operator \<notin> fst ` set multi_valued_sql_operators"  "operator \<notin> {''$eq'', ''$ne''}"
proof -
  consider "operator \<in> fst ` set single_valued_sql_operators" | "operator \<in> fst ` set multi_valued_sql_operators"
    | "operator = ''$prefix''" | "operator \<notin> fst ` set single_valued_sql_operators"
      "operator \<notin> fst ` set multi_valued_sql_operators" "operator \<noteq> ''$prefix''"
    by blast
  then show thesis
  proof cases
    case 1
    then have "operator \<notin> fst ` set multi_valued_sql_operators" "operator \<noteq> ''$prefix''"
      by (auto simp: single_valued_sql_operators_def multi_valued_sql_operators_def)
    moreover obtain symb where "map_of single_valued_sql_operators operator = Some symb"
      using 1 by (metis map_of_eq_None_iff option.exhaust)
    ultimately show ?thesis using single 1 by (simp add: map_of_eq_None_iff)
  next
    case 2
    then have "operator \<notin> fst ` set single_valued_sql_operators" "operator \<noteq> ''$prefix''" "operator \<notin> {''$eq'', ''$ne''}"
      by (auto simp: single_valued_sql_operators_def multi_valued_sql_operators_def)
    moreover obtain neg where "map_of multi_valued_sql_operators operator = Some neg"
      using 2 by (metis map_of_eq_None_iff option.exhaust)
    ultimately show ?thesis using multi 2 by (simp add: map_of_eq_None_iff)
  next
    case 3
    then have "operator \<notin> fst ` set single_valued_sql_operators" "operator \<notin> fst ` set multi_valued_sql_operators"
      by (auto simp: single_valued_sql_operators_def multi_valued_sql_operators_def)
    then show ?thesis using prefix 3 by (simp add: map_of_eq_None_iff)
  next
    case 4
    then have "operator \<notin> {''$eq'', ''$ne''}" by (auto simp: single_valued_sql_operators_def)
    then show ?thesis using other 4 by (simp add: map_of_eq_None_iff)
  qed
qed

lemma member3_list_ex: "member3 pg v vs = Some (list_ex (pg_compare pg ''='' v) vs)"
  by (auto simp: member3_def or3_def list_ex_iff)

lemma list_of_iff: "list_of p v \<longleftrightarrow> (\<exists>vs. v = PList vs \<and> list_all p vs)"
  by (cases v) auto

text \<open>What running one handler gives, for any handler of the type of \<open>typed_condition\<close>.\<close>

definition comparison_made ::
  "'c postgres \<Rightarrow> (string \<Rightarrow> sql_value) \<Rightarrow> string \<Rightarrow> bool \<Rightarrow> bool option \<Rightarrow> bool \<Rightarrow> sql_condition filter_run \<Rightarrow> bool" where
  "comparison_made pg cols name ok val good m \<longleftrightarrow>
     (\<forall>s. case m s of
        (Inl _, _) \<Rightarrow> \<not> ok
      | (Inr c, s') \<Rightarrow> ok \<and> fs_idx s' = fs_idx s \<and> fs_overall s' = fs_overall s \<and> fs_handled s' = fs_handled s \<and>
          (\<forall>n. n \<noteq> name \<longrightarrow> map_of (fs_params s') n = map_of (fs_params s) n) \<and>
          (\<forall>params. map_of params name = map_of (fs_params s') name \<longrightarrow>
             cond_value pg params cols c = val \<and> cond_ok pg params c = good))"

lemma made_raise: "\<not> ok \<Longrightarrow> comparison_made pg cols name ok val good (api_raise e)"
  by (simp add: comparison_made_def api_simps)

lemma made_return:
  "ok \<Longrightarrow> (\<And>params. cond_value pg params cols c = val \<and> cond_ok pg params c = good) \<Longrightarrow>
    comparison_made pg cols name ok val good (api_return c)"
  by (simp add: comparison_made_def api_simps)

lemma made_param:
  "ok \<Longrightarrow> (\<And>params. param params name = v \<Longrightarrow> cond_value pg params cols c = val \<and> cond_ok pg params c = good) \<Longrightarrow>
    comparison_made pg cols name ok val good (api_bind (set_param name v) (\<lambda>_. api_return c))"
  by (simp add: comparison_made_def api_simps set_param_def api_bind_def param_def map_of_AList_update)

lemma made_typed:
  assumes "\<not> null_test operator v" and "kind \<noteq> timestamp_facts"
    and "operator = ''$prefix'' \<Longrightarrow> kind \<notin> {text_facts, string_facts}"
    and "\<And>w. ok w = operand_ok parse_datetime kind w"
  shows "comparison_made pg cols name (field_ok parse_datetime kind operator v)
     (field_holds pg parse_datetime kind operator v (lhs_value cols (ValueColumn c)))
     (field_runs pg parse_datetime kind operator v)
     (typed_condition kind ok one many name key v operator (ValueColumn c))"
proof -
  have op: "operand parse_datetime kind = (\<lambda>x. x)" using assms(2) by (simp add: operand_def fun_eq_iff)
  have ok: "ok = operand_ok parse_datetime kind" using assms(4) by auto
  show ?thesis
proof (cases operator rule: operator_cases)
  case (single symb)
  then show ?thesis
    using assms by (cases "ok v")
      (auto simp: typed_condition_def compare_one_def expected_def field_ok_def field_holds_def field_runs_def operand_def
        split: option.split intro!: made_raise made_param)
next
  case (multi neg)
  then show ?thesis
    using assms(1-3) by (cases "list_of ok v")
      (auto simp: typed_condition_def compare_many_def expected_def field_ok_def field_holds_def field_runs_def op ok
          member3_list_ex Let_def
        split: option.split intro!: made_raise made_param)
next
  case prefix
  have "\<not> field_ok parse_datetime kind operator v"
    using prefix assms(1,3) by (auto simp: field_ok_def)
  moreover have "typed_condition kind ok one many name key v operator (ValueColumn c) = unsupported operator key"
    using prefix by (simp add: typed_condition_def)
  ultimately show ?thesis unfolding unsupported_def by (simp add: made_raise)
next
  case other
  have "\<not> field_ok parse_datetime kind operator v"
    using other assms(1) by (auto simp: field_ok_def)
  moreover have "typed_condition kind ok one many name key v operator (ValueColumn c) = unsupported operator key"
    using other by (simp add: typed_condition_def)
  ultimately show ?thesis unfolding unsupported_def by (simp add: made_raise)
qed
qed

lemma made_prefix_case:
  assumes "\<not> null_test operator v" and "kind \<in> {text_facts, string_facts}"
    and "\<And>params. param params name = v \<Longrightarrow> cond_value pg params cols (c name) =
        (if kind = text_facts then map_option (\<lambda>x. like_value x v) (lhs_value cols (ValueColumn col)) else None) \<and>
      cond_ok pg params (c name) = (kind = text_facts \<and> pg_accepts pg text_facts v)"
  shows "comparison_made pg cols name (field_ok parse_datetime kind operator v)
     (field_holds pg parse_datetime kind operator v (lhs_value cols (ValueColumn col)))
     (field_runs pg parse_datetime kind operator v)
     (if operator = ''$prefix'' then
        (if \<not> is_str v then expected e key else api_bind (set_param name v) (\<lambda>_. api_return (c name)))
      else typed_condition kind is_str one many name key v operator (ValueColumn col))"
proof (cases "operator = ''$prefix''")
  case True
  then have ops: "map_of single_valued_sql_operators operator = None" "operator \<notin> fst ` set single_valued_sql_operators"
    "map_of multi_valued_sql_operators operator = None" "operator \<notin> fst ` set multi_valued_sql_operators"
    by (auto simp: single_valued_sql_operators_def multi_valued_sql_operators_def)
  have ok: "field_ok parse_datetime kind operator v \<longleftrightarrow> is_str v"
    using True ops assms(1,2) by (auto simp: field_ok_def)
  have val: "field_holds pg parse_datetime kind operator v (lhs_value cols (ValueColumn col)) =
      (if kind = text_facts then map_option (\<lambda>x. like_value x v) (lhs_value cols (ValueColumn col)) else None)"
    using ops assms(1) by (simp add: field_holds_def split: option.split)
  have good: "field_runs pg parse_datetime kind operator v \<longleftrightarrow> kind = text_facts \<and> pg_accepts pg text_facts v"
    using True ops assms(1) by (auto simp: field_runs_def)
  show ?thesis
  proof (cases "is_str v")
    case True
    then show ?thesis
      unfolding if_P [OF \<open>operator = ''$prefix''\<close>] ok val good using assms(3) by (auto intro!: made_param)
  next
    case False
    then show ?thesis
      unfolding if_P [OF \<open>operator = ''$prefix''\<close>] ok expected_def by (simp add: made_raise)
  qed
next
  case False
  have "comparison_made pg cols name (field_ok parse_datetime kind operator v)
     (field_holds pg parse_datetime kind operator v (lhs_value cols (ValueColumn col)))
     (field_runs pg parse_datetime kind operator v)
     (typed_condition kind is_str one many name key v operator (ValueColumn col))"
    using False assms(1,2) by (intro made_typed) (auto simp: operand_ok_def)
  then show ?thesis using False by simp
qed

lemma made_timestamp:
  assumes "\<not> null_test operator v"
  shows "comparison_made pg cols name (field_ok parse_datetime timestamp_facts operator v)
     (field_holds pg parse_datetime timestamp_facts operator v (lhs_value cols (ValueColumn col)))
     (field_runs pg parse_datetime timestamp_facts operator v)
     (if operator \<in> fst ` set single_valued_sql_operators then
         (case parse_datetime v of
            None \<Rightarrow> api_raise (ValidationError (PList [v, PStr '' is no valid datetime'']))
          | Some t \<Rightarrow> compare_one timestamp_facts name key (PDateTime t) operator (ValueColumn col))
       else if operator \<in> fst ` set multi_valued_sql_operators then
         (case v of
            PList elems \<Rightarrow>
              (if list_all (\<lambda>elem. parse_datetime elem \<noteq> None) elems
               then compare_many timestamp_facts name (PList (map (\<lambda>elem. PDateTime (the (parse_datetime elem))) elems)) operator (ValueColumn col)
               else expected ''list of timestamps for operator on field '' key)
          | _ \<Rightarrow> expected ''list of timestamps for operator on field '' key)
       else unsupported operator key)"
proof (cases operator rule: operator_cases)
  case (single symb)
  then show ?thesis
    using assms by (cases "parse_datetime v")
      (auto simp: compare_one_def field_ok_def operand_ok_def field_holds_def field_runs_def operand_def
        split: option.split intro!: made_raise made_param)
next
  case (multi neg)
  show ?thesis
  proof (cases "\<exists>elems. v = PList elems \<and> list_all (\<lambda>elem. parse_datetime elem \<noteq> None) elems")
    case True
    then obtain elems where v: "v = PList elems" "list_all (\<lambda>elem. parse_datetime elem \<noteq> None) elems" by blast
    then have ok: "field_ok parse_datetime timestamp_facts operator v"
      using multi by (simp add: field_ok_def operand_ok_def list_all_iff)
    have op: "map (operand parse_datetime timestamp_facts) elems = map (\<lambda>elem. PDateTime (the (parse_datetime elem))) elems"
      by (simp add: operand_def)
    show ?thesis
      using multi v ok assms
      by (simp add: compare_many_def)
        (auto simp: field_holds_def field_runs_def member3_list_ex operand_def op Let_def list_all_iff
          split: option.split intro!: made_param)
  next
    case False
    then have "\<not> list_of (operand_ok parse_datetime timestamp_facts) v"
      by (auto simp: list_of_iff operand_ok_def list_all_iff)
    then have "\<not> field_ok parse_datetime timestamp_facts operator v"
      using multi assms by (auto simp: field_ok_def)
    then show ?thesis
      using multi False by (cases v) (auto simp: expected_def intro!: made_raise)
  qed
next
  case prefix
  have "\<not> field_ok parse_datetime timestamp_facts operator v"
    using prefix assms by (auto simp: field_ok_def)
  with prefix show ?thesis unfolding unsupported_def by (simp add: made_raise)
next
  case other
  have "\<not> field_ok parse_datetime timestamp_facts operator v"
    using other assms by (auto simp: field_ok_def)
  with other show ?thesis unfolding unsupported_def by (simp add: made_raise)
qed

lemma field_kind_Some:
  "field_kind ds key = Some kind \<Longrightarrow> kind \<in> set filterable_kinds \<and> (\<exists>uuid. map_of (ds_keys ds kind) key = Some uuid)"
  unfolding field_kind_def by (drule find_SomeD) (metis map_of_eq_None_iff not_None_eq)

lemma field_kind_None: "field_kind ds key = None \<Longrightarrow> kind \<in> set filterable_kinds \<Longrightarrow> map_of (ds_keys ds kind) key = None"
  unfolding field_kind_def by (auto simp: find_None_iff map_of_eq_None_iff)

lemma handler_condition:
  assumes "kind \<in> set filterable_kinds"
  shows "\<exists>m. handler parse_datetime kind ds name key v operator = field_condition kind True ds key v operator m \<and>
    (\<not> null_test operator v \<longrightarrow> (\<forall>col. comparison_made pg cols name (field_ok parse_datetime kind operator v)
       (field_holds pg parse_datetime kind operator v (lhs_value cols (ValueColumn col)))
       (field_runs pg parse_datetime kind operator v) (m (ValueColumn col))))"
proof -
  consider "kind = float_facts" | "kind = string_facts" | "kind = text_facts" | "kind = timestamp_facts"
    | "kind = boolean_facts" | "kind = dimensions"
    using assms by (auto simp: filterable_kinds_def)
  then show ?thesis
  proof cases
    case 1
    show ?thesis unfolding 1 handler_def handle_if_float_fact_def
      by (simp only: child_kind.distinct if_True if_False simp_thms, rule exI, rule conjI, rule refl, intro allI impI, rule made_typed) (simp_all add: operand_ok_def)
  next
    case 2
    show ?thesis unfolding 2 handler_def handle_if_string_fact_def
      by (simp only: child_kind.distinct if_True if_False simp_thms, rule exI, rule conjI, rule refl, intro allI impI, rule made_prefix_case) simp_all
  next
    case 3
    show ?thesis unfolding 3 handler_def handle_if_text_fact_def
      by (simp only: child_kind.distinct if_True if_False simp_thms, rule exI, rule conjI, rule refl, intro allI impI, rule made_prefix_case) simp_all
  next
    case 4
    show ?thesis unfolding 4 handler_def handle_if_timestamp_fact_def
      by (simp only: child_kind.distinct if_True if_False simp_thms, rule exI, rule conjI, rule refl, intro allI impI, rule made_timestamp) simp
  next
    case 5
    show ?thesis unfolding 5 handler_def handle_if_boolean_fact_def
      by (simp only: child_kind.distinct if_True if_False simp_thms, rule exI, rule conjI, rule refl, intro allI impI, rule made_typed) (simp_all add: operand_ok_def)
  next
    case 6
    show ?thesis unfolding 6 handler_def handle_if_dimension_def
      by (simp only: child_kind.distinct if_True if_False simp_thms, rule exI, rule conjI, rule refl, intro allI impI, rule made_typed) (simp_all add: operand_ok_def)
  qed
qed

text \<open>The handler of a key's kind; the others see that the key is not theirs.\<close>

lemma handler_run:
  assumes "field_kind ds key = Some kind"
  shows "case handler parse_datetime kind ds name key v operator s of
       (Inl _, _) \<Rightarrow> \<not> field_ok parse_datetime kind operator v
     | (Inr cs, s') \<Rightarrow> field_ok parse_datetime kind operator v \<and> fs_idx s' = fs_idx s \<and> fs_overall s' = fs_overall s \<and>
         fs_handled s' = key # fs_handled s \<and> (\<forall>n. n \<noteq> name \<longrightarrow> map_of (fs_params s') n = map_of (fs_params s) n) \<and>
         (\<exists>c. cs = [c] \<and> (\<forall>params. map_of params name = map_of (fs_params s') name \<longrightarrow>
           cond_value pg params cols c = field_holds pg parse_datetime kind operator v
             (lhs_value cols (ValueColumn (field_column ds kind key))) \<and>
           cond_ok pg params c = field_runs pg parse_datetime kind operator v))"
proof -
  obtain uuid where kind: "kind \<in> set filterable_kinds" and uuid: "map_of (ds_keys ds kind) key = Some uuid"
    using field_kind_Some [OF assms] by blast
  let ?lhs = "ValueColumn (key_column (kind, key, uuid))"
  let ?val = "field_holds pg parse_datetime kind operator v (lhs_value cols ?lhs)"
  have col: "field_column ds kind key = key_column (kind, key, uuid)" by (simp add: field_column_def uuid)
  have finish: "case field_condition kind True ds key v operator m s of
       (Inl _, _) \<Rightarrow> \<not> field_ok parse_datetime kind operator v
     | (Inr cs, s') \<Rightarrow> field_ok parse_datetime kind operator v \<and> fs_idx s' = fs_idx s \<and> fs_overall s' = fs_overall s \<and>
         fs_handled s' = key # fs_handled s \<and> (\<forall>n. n \<noteq> name \<longrightarrow> map_of (fs_params s') n = map_of (fs_params s) n) \<and>
         (\<exists>c. cs = [c] \<and> (\<forall>params. map_of params name = map_of (fs_params s') name \<longrightarrow>
           cond_value pg params cols c = ?val \<and> cond_ok pg params c = field_runs pg parse_datetime kind operator v))"
    if m: "\<not> null_test operator v \<Longrightarrow> comparison_made pg cols name (field_ok parse_datetime kind operator v) ?val
        (field_runs pg parse_datetime kind operator v) (m ?lhs)" for m
  proof (cases "null_test operator v")
    case True
    then show ?thesis
      by (auto simp: field_condition_def uuid Let_def null_test_def api_bind_def api_return_def api_modify_def
          field_ok_def field_holds_def field_runs_def)
  next
    case False
    then have "(if operator = ''$eq'' \<and> v = PNone then api_return (NullTest ?lhs True)
        else if operator = ''$ne'' \<and> v = PNone then api_return (NullTest ?lhs False) else m ?lhs) = m ?lhs"
      by (auto simp: null_test_def)
    then have run: "field_condition kind True ds key v operator m s =
        api_bind (m ?lhs) (\<lambda>part. api_bind (api_modify (\<lambda>s. s\<lparr>fs_used := List.insert (kind, key) (fs_used s),
          fs_handled := key # fs_handled s\<rparr>)) (\<lambda>_. api_return [part])) s"
      by (simp add: field_condition_def uuid Let_def)
    show ?thesis
    proof (cases "m ?lhs s")
      case (Pair r s1)
      then show ?thesis
        unfolding run using m [OF False, unfolded comparison_made_def, rule_format, of s]
        by (cases r) (simp_all add: api_bind_def api_modify_def api_return_def)
    qed
  qed
  show ?thesis using handler_condition [OF kind, of parse_datetime ds name key v operator pg cols] unfolding col
    by (elim exE conjE) (simp add: finish)
qed

section \<open>A whole filter\<close>

definition param_name :: "nat \<Rightarrow> string" where
  "param_name i = ''filter_'' @ nat_str i"

lemma param_name_eq [simp]: "param_name i = param_name j \<longleftrightarrow> i = j"
  by (simp add: param_name_def)

text \<open>Later parts of a filter leave the placeholders of earlier parts alone.\<close>

definition extends :: "filter_state \<Rightarrow> filter_state \<Rightarrow> bool" where
  "extends s s' \<longleftrightarrow> fs_idx s \<le> fs_idx s' \<and>
     (\<forall>i < fs_idx s. map_of (fs_params s') (param_name i) = map_of (fs_params s) (param_name i))"

lemma extends_refl [simp]: "extends s s"
  by (simp add: extends_def)

lemma extends_trans: "extends s s' \<Longrightarrow> extends s' s'' \<Longrightarrow> extends s s''"
  by (auto simp: extends_def)

definition translates ::
  "'c postgres \<Rightarrow> (pyval \<Rightarrow> int option) \<Rightarrow> DataSeries \<Rightarrow> (string \<Rightarrow> sql_value) \<Rightarrow> sql_condition filter_run \<Rightarrow> user_filter \<Rightarrow> bool" where
  "translates pg parse_datetime ds cols m t \<longleftrightarrow>
     (\<forall>s. case m s of
        (Inl _, _) \<Rightarrow> \<not> well_typed parse_datetime ds t
      | (Inr c, s') \<Rightarrow> well_typed parse_datetime ds t \<and> extends s s' \<and>
          set (fs_overall s') = set (fs_overall s) \<union> compared_fields t \<and>
          set (fs_handled s') = set (fs_handled s) \<union> {key \<in> compared_fields t. field_kind ds key \<noteq> None} \<and>
          (\<forall>s''. extends s' s'' \<longrightarrow> cond_value pg (fs_params s'') cols c = holds pg parse_datetime ds cols t \<and>
             cond_ok pg (fs_params s'') c = runs pg parse_datetime ds t))"

lemma primitive_unknown:
  assumes "field_kind ds key = None"
  shows "primitive_filter parse_datetime True ds key v operator s =
    (Inr (Conj []), s\<lparr>fs_overall := key # fs_overall s, fs_idx := fs_idx s + 1\<rparr>)"
proof -
  have "map_of (ds_keys ds kind) key = None" if "kind \<in> set filterable_kinds" for kind
    using assms that by (rule field_kind_None)
  then show ?thesis
    by (simp add: primitive_filter_def handle_if_float_fact_def handle_if_string_fact_def handle_if_text_fact_def
        handle_if_timestamp_fact_def handle_if_boolean_fact_def handle_if_dimension_def field_condition_def
        filterable_kinds_def api_bind_def api_return_def api_modify_def api_get_def)
qed

lemma primitive_known:
  assumes "field_kind ds key = Some kind" and "fields_distinct ds"
  shows "primitive_filter parse_datetime True ds key v operator s =
    api_bind (handler parse_datetime kind ds (param_name (fs_idx s)) key v operator) (\<lambda>cs. api_return (Conj cs))
      (s\<lparr>fs_overall := key # fs_overall s, fs_idx := fs_idx s + 1\<rparr>)"
proof -
  have kind: "kind \<in> set filterable_kinds" "key \<in> fst ` set (ds_keys ds kind)"
    using field_kind_Some [OF assms(1)] by (auto dest: map_of_SomeD intro: image_eqI [rotated])
  have other: "map_of (ds_keys ds k) key = None" if "k \<in> set filterable_kinds" "k \<noteq> kind" for k
    using assms(2) kind that unfolding fields_distinct_def map_of_eq_None_iff by blast
  have bind: "api_bind (api_return x) f = f x" "api_bind (api_modify g) f' w = f' () (g w)"
    "api_bind (api_get h) f'' w = f'' (h w) w" for x f g f' h f'' and w :: filter_state
    by (simp_all add: fun_eq_iff api_bind_def api_return_def api_modify_def api_get_def)
  have skip: "kind \<noteq> float_facts \<Longrightarrow> handle_if_float_fact True ds name key v operator = api_return []"
    "kind \<noteq> string_facts \<Longrightarrow> handle_if_string_fact True ds name key v operator = api_return []"
    "kind \<noteq> text_facts \<Longrightarrow> handle_if_text_fact True ds name key v operator = api_return []"
    "kind \<noteq> timestamp_facts \<Longrightarrow> handle_if_timestamp_fact parse_datetime True ds name key v operator = api_return []"
    "kind \<noteq> boolean_facts \<Longrightarrow> handle_if_boolean_fact True ds name key v operator = api_return []"
    "kind \<noteq> dimensions \<Longrightarrow> handle_if_dimension True ds name key v operator = api_return []" for name
    using other by (simp_all add: handle_if_float_fact_def handle_if_string_fact_def handle_if_text_fact_def
        handle_if_timestamp_fact_def handle_if_boolean_fact_def handle_if_dimension_def field_condition_def filterable_kinds_def)
  consider "kind = float_facts" | "kind = string_facts" | "kind = text_facts" | "kind = timestamp_facts"
    | "kind = boolean_facts" | "kind = dimensions"
    using kind by (auto simp: filterable_kinds_def)
  then show ?thesis
    by cases (simp_all add: primitive_filter_def bind skip handler_def param_name_def)
qed

lemma translates_primitive:
  assumes "fields_distinct ds"
  shows "translates pg parse_datetime ds cols (primitive_filter parse_datetime True ds key v operator) (OnField key operator v)"
proof (cases "field_kind ds key")
  case None
  then show ?thesis
    by (auto simp: translates_def primitive_unknown extends_def and3_def)
next
  case (Some kind)
  show ?thesis
    unfolding translates_def
  proof
    fix s :: filter_state
    let ?name = "param_name (fs_idx s)"
    obtain r s' where run: "handler parse_datetime kind ds ?name key v operator
        (s\<lparr>fs_overall := key # fs_overall s, fs_idx := fs_idx s + 1\<rparr>) = (r, s')" by (rule prod.exhaust)
    note made = handler_run [OF Some, where parse_datetime = parse_datetime and name = ?name and v = v and operator = operator
        and s = "s\<lparr>fs_overall := key # fs_overall s, fs_idx := fs_idx s + 1\<rparr>" and pg = pg and cols = cols, unfolded run]
    show "case primitive_filter parse_datetime True ds key v operator s of
        (Inl _, _) \<Rightarrow> \<not> well_typed parse_datetime ds (OnField key operator v)
      | (Inr c, s') \<Rightarrow> well_typed parse_datetime ds (OnField key operator v) \<and> extends s s' \<and>
          set (fs_overall s') = set (fs_overall s) \<union> compared_fields (OnField key operator v) \<and>
          set (fs_handled s') = set (fs_handled s) \<union> {key' \<in> compared_fields (OnField key operator v). field_kind ds key' \<noteq> None} \<and>
          (\<forall>s''. extends s' s'' \<longrightarrow> cond_value pg (fs_params s'') cols c = holds pg parse_datetime ds cols (OnField key operator v) \<and>
             cond_ok pg (fs_params s'') c = runs pg parse_datetime ds (OnField key operator v))"
    proof (cases r)
      case (Inl e)
      then show ?thesis using made run Some by (simp add: primitive_known [OF Some assms] api_bind_def)
    next
      case (Inr cs)
      then obtain c where c: "cs = [c]" "\<And>params. map_of params ?name = map_of (fs_params s') ?name \<Longrightarrow>
          cond_value pg params cols c = field_holds pg parse_datetime kind operator v
             (lhs_value cols (ValueColumn (field_column ds kind key))) \<and>
          cond_ok pg params c = field_runs pg parse_datetime kind operator v"
        using made by auto
      have single: "and3 [x] = x" for x by (cases x) (auto simp: and3_def)
      have "cond_value pg (fs_params s'') cols c = field_holds pg parse_datetime kind operator v
             (lhs_value cols (ValueColumn (field_column ds kind key))) \<and>
          cond_ok pg (fs_params s'') c = field_runs pg parse_datetime kind operator v" if "extends s' s''" for s''
        using that made Inr by (intro c(2)) (simp add: extends_def)
      then show ?thesis
        using made run Some Inr c(1) by (auto simp: primitive_known [OF Some assms] api_bind_def api_return_def single extends_def)
    qed
  qed
qed

lemma map_translates:
  assumes "\<And>x. x \<in> set xs \<Longrightarrow> translates pg parse_datetime ds cols (m x) (t x)"
  shows "case api_map m xs s of
       (Inl _, _) \<Rightarrow> \<not> list_all (\<lambda>x. well_typed parse_datetime ds (t x)) xs
     | (Inr cs, s') \<Rightarrow> list_all (\<lambda>x. well_typed parse_datetime ds (t x)) xs \<and> extends s s' \<and>
         set (fs_overall s') = set (fs_overall s) \<union> (\<Union>x \<in> set xs. compared_fields (t x)) \<and>
         set (fs_handled s') = set (fs_handled s) \<union> {key \<in> (\<Union>x \<in> set xs. compared_fields (t x)). field_kind ds key \<noteq> None} \<and>
         length cs = length xs \<and>
         (\<forall>s''. extends s' s'' \<longrightarrow> map (cond_value pg (fs_params s'') cols) cs = map (\<lambda>x. holds pg parse_datetime ds cols (t x)) xs \<and>
            list_all (cond_ok pg (fs_params s'')) cs = list_all (\<lambda>x. runs pg parse_datetime ds (t x)) xs)"
  using assms
proof (induction xs arbitrary: s)
  case Nil
  then show ?case by (simp add: api_return_def)
next
  case (Cons x xs)
  obtain r s1 where run: "m x s = (r, s1)" by (rule prod.exhaust)
  note head = Cons.prems [of x, simplified, unfolded translates_def, rule_format, of s, unfolded run]
  show ?case
  proof (cases r)
    case (Inl e)
    then show ?thesis using head by (simp add: api_bind_def run)
  next
    case (Inr c)
    obtain r2 s2 where run2: "api_map m xs s1 = (r2, s2)" by (rule prod.exhaust)
    have tail: "x \<in> set xs \<Longrightarrow> translates pg parse_datetime ds cols (m x) (t x)" for x
      using Cons.prems by simp
    note tail = Cons.IH [of s1, OF tail, unfolded run2]
    show ?thesis
    proof (cases r2)
      case (Inl e)
      then show ?thesis using head tail Inr by (simp add: api_bind_def run run2)
    next
      case (Inr cs)
      have "extends s1 s''" if "extends s2 s''" for s''
        using tail Inr that extends_trans by fastforce
      then show ?thesis using head tail Inr \<open>r = Inr c\<close>
        by (auto simp: api_bind_def api_return_def run run2 intro: extends_trans)
    qed
  qed
qed

text \<open>What has no abstract syntax is refused.\<close>

definition refuses :: "'a filter_run \<Rightarrow> bool" where
  "refuses m \<longleftrightarrow> (\<forall>s. \<exists>e s'. m s = (Inl e, s'))"

definition reads_as ::
  "'c postgres \<Rightarrow> (pyval \<Rightarrow> int option) \<Rightarrow> DataSeries \<Rightarrow> (string \<Rightarrow> sql_value) \<Rightarrow> sql_condition filter_run \<Rightarrow> user_filter option \<Rightarrow> bool" where
  "reads_as pg parse_datetime ds cols m t \<longleftrightarrow>
     (case t of None \<Rightarrow> refuses m | Some t \<Rightarrow> translates pg parse_datetime ds cols m t)"

lemma refuses_raise [simp]: "refuses (api_raise e)" "refuses (filter_error text)"
  by (simp_all add: refuses_def api_raise_def filter_error_def)

lemma refuses_bind: "refuses m \<Longrightarrow> refuses (api_bind m f)"
  unfolding refuses_def api_bind_def by (auto split: prod.split sum.split) (metis Inl_Inr_False prod.inject sum.sel(1))+

lemma refuses_map: "x \<in> set xs \<Longrightarrow> refuses (m x) \<Longrightarrow> refuses (api_map m xs)"
proof (induction xs)
  case (Cons y ys)
  show ?case
  proof (cases "refuses (m y)")
    case False
    with Cons have rest: "refuses (api_map m ys)" by auto
    show ?thesis
      unfolding refuses_def
    proof
      fix s
      obtain r s1 where "m y s = (r, s1)" by (rule prod.exhaust)
      with rest [unfolded refuses_def, rule_format, of s1] show "\<exists>e s'. api_map m (y # ys) s = (Inl e, s')"
        by (cases r) (auto simp: api_bind_def)
    qed
  qed (simp add: refuses_bind)
qed simp

lemma list_option_map:
  "list_option (map f xs) = (if \<exists>x \<in> set xs. f x = None then None else Some (map (\<lambda>x. the (f x)) xs))"
  by (auto simp: list_option_def image_iff) (metis not_None_eq)+

lemma reads_map:
  assumes "\<And>x. x \<in> set xs \<Longrightarrow> reads_as pg parse_datetime ds cols (m x) (t x)" and "xs \<noteq> []"
  shows "reads_as pg parse_datetime ds cols (api_bind (api_map m xs) (\<lambda>cs. api_return (Conj cs))) (map_option AllOf (list_option (map t xs)))"
    and "reads_as pg parse_datetime ds cols (api_bind (api_map m xs) (\<lambda>cs. api_return (Disj cs))) (map_option AnyOf (list_option (map t xs)))"
proof -
  consider x where "x \<in> set xs" "refuses (m x)" "t x = None" | "\<forall>x \<in> set xs. \<exists>y. t x = Some y"
    using assms(1) unfolding reads_as_def by (metis option.exhaust option.simps(4))
  then have "reads_as pg parse_datetime ds cols (api_bind (api_map m xs) (\<lambda>cs. api_return (Conj cs))) (map_option AllOf (list_option (map t xs))) \<and>
    reads_as pg parse_datetime ds cols (api_bind (api_map m xs) (\<lambda>cs. api_return (Disj cs))) (map_option AnyOf (list_option (map t xs)))"
  proof cases
    case 1
    then show ?thesis by (auto simp: list_option_map reads_as_def intro!: refuses_bind refuses_map)
  next
    case 2
    then have "translates pg parse_datetime ds cols (m x) (the (t x))" if "x \<in> set xs" for x
      using assms(1) [OF that] that by (auto simp: reads_as_def split: option.splits)
    note all = map_translates [of xs pg parse_datetime ds cols m "\<lambda>x. the (t x)", OF this]
    have read: "list_option (map t xs) = Some (map (\<lambda>x. the (t x)) xs)"
      using 2 by (auto simp: list_option_map)
    have nonempty: "cs \<noteq> []" if "length cs = length xs" for cs :: "sql_condition list"
      using that assms(2) by auto
    have fold: "map (cond_value pg p cols) cs = map h xs \<Longrightarrow>
        and3 (map (cond_value pg p cols) cs) = and3 (map h xs) \<and> or3 (map (cond_value pg p cols) cs) = or3 (map h xs)" for p cs h
      by simp
    show ?thesis
      unfolding read reads_as_def option.case map_option_case translates_def
    proof (intro conjI allI; rename_tac s)
      fix s :: filter_state
      show "case api_bind (api_map m xs) (\<lambda>cs. api_return (Conj cs)) s of
          (Inl _, _) \<Rightarrow> \<not> well_typed parse_datetime ds (AllOf (map (\<lambda>x. the (t x)) xs))
        | (Inr c, s') \<Rightarrow> well_typed parse_datetime ds (AllOf (map (\<lambda>x. the (t x)) xs)) \<and> extends s s' \<and>
            set (fs_overall s') = set (fs_overall s) \<union> compared_fields (AllOf (map (\<lambda>x. the (t x)) xs)) \<and>
            set (fs_handled s') = set (fs_handled s) \<union>
              {key \<in> compared_fields (AllOf (map (\<lambda>x. the (t x)) xs)). field_kind ds key \<noteq> None} \<and>
            (\<forall>s''. extends s' s'' \<longrightarrow>
               cond_value pg (fs_params s'') cols c = holds pg parse_datetime ds cols (AllOf (map (\<lambda>x. the (t x)) xs)) \<and>
               cond_ok pg (fs_params s'') c = runs pg parse_datetime ds (AllOf (map (\<lambda>x. the (t x)) xs)))"
        using all [of s] by (cases "api_map m xs s"; cases "fst (api_map m xs s)")
          (auto simp: api_bind_def api_return_def list_all_iff nonempty comp_def)
    next
      fix s :: filter_state
      show "case api_bind (api_map m xs) (\<lambda>cs. api_return (Disj cs)) s of
          (Inl _, _) \<Rightarrow> \<not> well_typed parse_datetime ds (AnyOf (map (\<lambda>x. the (t x)) xs))
        | (Inr c, s') \<Rightarrow> well_typed parse_datetime ds (AnyOf (map (\<lambda>x. the (t x)) xs)) \<and> extends s s' \<and>
            set (fs_overall s') = set (fs_overall s) \<union> compared_fields (AnyOf (map (\<lambda>x. the (t x)) xs)) \<and>
            set (fs_handled s') = set (fs_handled s) \<union>
              {key \<in> compared_fields (AnyOf (map (\<lambda>x. the (t x)) xs)). field_kind ds key \<noteq> None} \<and>
            (\<forall>s''. extends s' s'' \<longrightarrow>
               cond_value pg (fs_params s'') cols c = holds pg parse_datetime ds cols (AnyOf (map (\<lambda>x. the (t x)) xs)) \<and>
               cond_ok pg (fs_params s'') c = runs pg parse_datetime ds (AnyOf (map (\<lambda>x. the (t x)) xs)))"
        using all [of s] by (cases "api_map m xs s"; cases "fst (api_map m xs s)")
          (auto simp: api_bind_def api_return_def list_all_iff nonempty comp_def)
    qed
  qed
  then show "reads_as pg parse_datetime ds cols (api_bind (api_map m xs) (\<lambda>cs. api_return (Conj cs))) (map_option AllOf (list_option (map t xs)))"
    and "reads_as pg parse_datetime ds cols (api_bind (api_map m xs) (\<lambda>cs. api_return (Disj cs))) (map_option AnyOf (list_option (map t xs)))"
    by blast+
qed

lemma translates_true: "translates pg parse_datetime ds cols (api_return TrueCond) (AllOf [])"
  by (simp add: translates_def api_return_def and3_def)

lemma read_all:
  assumes "\<And>x. x \<in> set xs \<Longrightarrow> translates pg parse_datetime ds cols (m x) (t x)" and "xs \<noteq> []"
  shows "translates pg parse_datetime ds cols (api_bind (api_map m xs) (\<lambda>cs. api_return (Conj cs))) (AllOf (map t xs))"
proof -
  have "reads_as pg parse_datetime ds cols (m x) (Some (t x))" if "x \<in> set xs" for x
    using assms(1) [OF that] by (simp add: reads_as_def)
  from reads_map(1) [of xs, OF this assms(2)] show ?thesis
    by (simp add: reads_as_def list_option_map)
qed

lemma handle_column_translates:
  assumes "fields_distinct ds"
  shows "translates pg parse_datetime ds cols
    (handle_column (primitive_filter parse_datetime True ds) column f operator) (read_column column f operator)"
proof (induction column f operator rule: read_column.induct)
  case (1 column f operator)
  show ?case
  proof (cases "\<exists>items. f = PDict items")
    case True
    then obtain items where f: "f = PDict items" by blast
    show ?thesis
    proof (cases "items = []")
      case True
      then show ?thesis
        by (simp add: f handle_column.simps [of _ _ "PDict []"] read_column.simps [of _ "PDict []"] translates_true)
    next
      case False
      have "translates pg parse_datetime ds cols
          (handle_column (primitive_filter parse_datetime True ds) column (snd item) (fst item))
          (read_column column (snd item) (fst item))" if "item \<in> set items" for item
        using 1 [OF f that] .
      from read_all [of items, OF this False] show ?thesis
        using False by (simp add: f handle_column.simps [of _ _ "PDict items"] read_column.simps [of _ "PDict items"])
    qed
  next
    case False
    have "read_column column f operator = OnField column operator f"
      using False by (subst read_column.simps) (simp split: pyval.split)
    moreover have "handle_column (primitive_filter parse_datetime True ds) column f operator =
        primitive_filter parse_datetime True ds column f operator"
      using False by (subst handle_column.simps) (simp split: pyval.split)
    ultimately show ?thesis by (simp add: translates_primitive [OF assms])
  qed
qed

lemma translates_not:
  assumes "translates pg parse_datetime ds cols m t"
  shows "translates pg parse_datetime ds cols (api_bind m (\<lambda>c. api_return (Neg c))) (NotF t)"
  unfolding translates_def
proof
  fix s
  show "case api_bind m (\<lambda>c. api_return (Neg c)) s of
      (Inl _, _) \<Rightarrow> \<not> well_typed parse_datetime ds (NotF t)
    | (Inr c, s') \<Rightarrow> well_typed parse_datetime ds (NotF t) \<and> extends s s' \<and>
        set (fs_overall s') = set (fs_overall s) \<union> compared_fields (NotF t) \<and>
        set (fs_handled s') = set (fs_handled s) \<union> {key \<in> compared_fields (NotF t). field_kind ds key \<noteq> None} \<and>
        (\<forall>s''. extends s' s'' \<longrightarrow> cond_value pg (fs_params s'') cols c = holds pg parse_datetime ds cols (NotF t) \<and>
           cond_ok pg (fs_params s'') c = runs pg parse_datetime ds (NotF t))"
    using assms [unfolded translates_def, rule_format, of s]
    by (cases "m s"; cases "fst (m s)") (simp_all add: api_bind_def api_return_def)
qed

lemma complex_filter_reads:
  assumes column: "\<And>column f. translates pg parse_datetime ds cols (column_filter column f) (read_column column f ''$eq'')"
  shows "reads_as pg parse_datetime ds cols (complex_filter_to_sql_filter column_filter depth f) (read_filter depth f)"
proof (induction depth f rule: read_filter.induct)
  case (1 depth f)
  show ?case
  proof (cases "depth \<le> MAX_DEPTH \<and> (\<exists>items. f = PDict items \<and> items \<noteq> [])")
    case True
    then obtain items where f: "f = PDict items" "items \<noteq> []" and depth: "\<not> MAX_DEPTH < depth" by auto
    let ?m = "\<lambda>item. if fst item = ''$and'' then
        (case snd item of
           PList vs \<Rightarrow> (if vs = [] then filter_error ''argument to $and must be a non empty array''
             else api_bind (api_map (complex_filter_to_sql_filter column_filter (depth + 1)) vs) (\<lambda>clauses. api_return (Conj clauses)))
         | _ \<Rightarrow> filter_error ''$and operator requires a list as argument'')
      else if fst item = ''$or'' then
        (case snd item of
           PList vs \<Rightarrow> (if vs = [] then filter_error ''argument to $or must be a non empty array''
             else api_bind (api_map (complex_filter_to_sql_filter column_filter (depth + 1)) vs) (\<lambda>clauses. api_return (Disj clauses)))
         | _ \<Rightarrow> filter_error ''$or operator requires a list as argument'')
      else if fst item = ''$not'' then
        (case snd item of
           PDict d \<Rightarrow> (if d = [] then filter_error ''argument to $not must be a non empty dictionary''
             else api_bind (complex_filter_to_sql_filter column_filter (depth + 1) (snd item)) (\<lambda>clause. api_return (Neg clause)))
         | _ \<Rightarrow> filter_error ''$not operator requires a dictionary as argument'')
      else if take 1 (fst item) = ''$'' then api_raise (ValueError (''Unsupported operator: '' @ fst item))
      else column_filter (fst item) (snd item)"
    let ?t = "\<lambda>item. if fst item = ''$and'' then
        (case snd item of
           PList vs \<Rightarrow> if vs = [] then None else map_option AllOf (list_option (map (read_filter (depth + 1)) vs))
         | _ \<Rightarrow> None)
      else if fst item = ''$or'' then
        (case snd item of
           PList vs \<Rightarrow> if vs = [] then None else map_option AnyOf (list_option (map (read_filter (depth + 1)) vs))
         | _ \<Rightarrow> None)
      else if fst item = ''$not'' then
        (case snd item of
           PDict d \<Rightarrow> if d = [] then None else map_option NotF (read_filter (depth + 1) (snd item))
         | _ \<Rightarrow> None)
      else if take 1 (fst item) = ''$'' then None
      else Some (read_column (fst item) (snd item) ''$eq'')"
    have reads: "reads_as pg parse_datetime ds cols (?m item) (?t item)" if item: "item \<in> set items" for item
    proof -
      consider "fst item = ''$and''" | "fst item = ''$or''" | "fst item = ''$not''"
        | "fst item \<notin> {''$and'', ''$or'', ''$not''}" by blast
      then show ?thesis
      proof cases
        case op: 1
        show ?thesis
          using op reads_map(1) [of _ pg parse_datetime ds cols "complex_filter_to_sql_filter column_filter (depth + 1)"
              "read_filter (depth + 1)"] 1(1) [OF depth f(1) item op]
          by (cases "snd item") (auto simp: reads_as_def [of _ _ _ _ _ None])
      next
        case op: 2
        show ?thesis
          using op reads_map(2) [of _ pg parse_datetime ds cols "complex_filter_to_sql_filter column_filter (depth + 1)"
              "read_filter (depth + 1)"] 1(2) [OF depth f(1) item _ op]
          by (cases "snd item") (auto simp: reads_as_def [of _ _ _ _ _ None])
      next
        case op: 3
        show ?thesis
          using op 1(3) [OF depth f(1) item _ _ op]
          by (cases "snd item") (auto simp: reads_as_def translates_not intro: refuses_bind split: option.splits)
      next
        case op: 4
        then show ?thesis using column by (auto simp: reads_as_def)
      qed
    qed
    have "complex_filter_to_sql_filter column_filter depth f = api_bind (api_map ?m items) (\<lambda>clauses. api_return (Conj clauses))"
      unfolding f(1) complex_filter_to_sql_filter.simps [of _ _ "PDict items"] using f(2) depth by simp
    moreover have "read_filter depth f = map_option AllOf (list_option (map ?t items))"
      unfolding f(1) read_filter.simps [of _ "PDict items"] using depth by simp
    ultimately show ?thesis
      using reads_map(1) [of items pg parse_datetime ds cols ?m ?t, OF reads f(2)] by (simp only:)
  next
    case False
    then consider "MAX_DEPTH < depth" | "f = PDict []" "\<not> MAX_DEPTH < depth" | "\<not> MAX_DEPTH < depth" "\<nexists>d. f = PDict d" by force
    then show ?thesis
    proof cases
      case 2
      then show ?thesis
        by (simp add: complex_filter_to_sql_filter.simps [of _ _ "PDict []"] read_filter.simps [of _ "PDict []"] reads_as_def
          list_option_def translates_true)
    next
      case 1
      then show ?thesis
        by (subst complex_filter_to_sql_filter.simps, subst read_filter.simps) (simp add: reads_as_def)
    next
      case 3
      then show ?thesis
        by (subst complex_filter_to_sql_filter.simps, subst read_filter.simps)
          (auto simp: reads_as_def translates_true split: pyval.split)
    qed
  qed
qed

section \<open>The filter of a request\<close>

definition acceptable :: "(pyval \<Rightarrow> int option) \<Rightarrow> DataSeries \<Rightarrow> user_filter \<Rightarrow> bool" where
  "acceptable parse_datetime ds t \<longleftrightarrow>
     well_typed parse_datetime ds t \<and> (\<forall>key \<in> compared_fields t. field_kind ds key \<noteq> None)"

lemma compute_filter:
  assumes "fields_distinct ds"
  shows "case compute_user_defined_filter_for_raw_query parse_datetime ds f True of
      Inl _ \<Rightarrow> \<not> (\<exists>t. read_filter 0 (PDict f) = Some t \<and> acceptable parse_datetime ds t)
    | Inr u \<Rightarrow> \<exists>t. read_filter 0 (PDict f) = Some t \<and> acceptable parse_datetime ds t \<and>
        cond_ok pg (udf_query_params u) (udf_condition u) = runs pg parse_datetime ds t \<and>
        cond_value pg (udf_query_params u) cols (udf_condition u) = holds pg parse_datetime ds cols t"
proof -
  let ?s = "\<lparr>fs_idx = 0, fs_params = [], fs_handled = [], fs_overall = [], fs_used = []\<rparr>"
  let ?m = "complex_filter_to_sql_filter
      (\<lambda>column f. handle_column (primitive_filter parse_datetime True ds) column f ''$eq'') 0 (PDict f)"
  have reads: "reads_as pg parse_datetime ds cols ?m (read_filter 0 (PDict f))"
    by (rule complex_filter_reads) (rule handle_column_translates [OF assms])
  obtain r s where run: "?m ?s = (r, s)" by (rule prod.exhaust)
  show ?thesis
  proof (cases "read_filter 0 (PDict f)")
    case None
    then have "refuses ?m" using reads by (simp add: reads_as_def)
    then obtain e s' where "?m ?s = (Inl e, s')" unfolding refuses_def by blast
    then have "\<exists>e. r = Inl e" using run by simp
    then show ?thesis using None run by (auto simp: compute_user_defined_filter_for_raw_query_def)
  next
    case (Some t)
    then have "translates pg parse_datetime ds cols ?m t" using reads by (simp add: reads_as_def)
    note made = this [unfolded translates_def, rule_format, of ?s, unfolded run]
    show ?thesis
    proof (cases r)
      case (Inl e)
      then show ?thesis using made Some run by (simp add: compute_user_defined_filter_for_raw_query_def acceptable_def)
    next
      case (Inr c)
      have "filter (\<lambda>k. k \<notin> set (fs_handled s)) (fs_overall s) = [] \<longleftrightarrow> (\<forall>key \<in> compared_fields t. field_kind ds key \<noteq> None)"
        using made Inr by (auto simp: filter_empty_conv)
      then show ?thesis
        using made Some run Inr by (auto simp: compute_user_defined_filter_for_raw_query_def acceptable_def Let_def)
    qed
  qed
qed

text \<open>C27: In queries on the table of current versions (\<open>use_materialized_table=True\<close>: no point in time
  is asked for) a filter of the user is accepted exactly if it is a well formed formula (nested at most
  ten deep) whose comparisons are well typed and name fields of the data series. The condition it is
  translated to has, for every row, the value of the formula in the logic of three values, whatever
  the number and order of its comparisons, and the database runs it unless it asks for the prefix of
  a string fact, an empty list or a value that cannot be cast. (For a point in time on the history the
  conditions name tables that the query does not join: there no filter on a field works.)\<close>

theorem user_filter_means_formula:
  assumes "fields_distinct ds"
  shows "case compute_user_defined_filter_for_raw_query parse_datetime ds f True of
      Inl _ \<Rightarrow> \<not> (\<exists>t. read_filter 0 (PDict f) = Some t \<and> acceptable parse_datetime ds t)
    | Inr u \<Rightarrow> \<exists>t. read_filter 0 (PDict f) = Some t \<and> acceptable parse_datetime ds t \<and>
        cond_ok pg (udf_query_params u) (udf_condition u) = runs pg parse_datetime ds t \<and>
        (\<forall>cols. cond_value pg (udf_query_params u) cols (udf_condition u) = holds pg parse_datetime ds cols t)"
proof -
  note made = compute_filter [OF assms, where parse_datetime = parse_datetime and f = f and pg = pg]
  show ?thesis
  proof (cases "compute_user_defined_filter_for_raw_query parse_datetime ds f True")
    case (Inr u)
    with made [of "\<lambda>_. SqlNull"] obtain t where t: "read_filter 0 (PDict f) = Some t" "acceptable parse_datetime ds t"
      "cond_ok pg (udf_query_params u) (udf_condition u) = runs pg parse_datetime ds t" by auto
    have "cond_value pg (udf_query_params u) cols (udf_condition u) = holds pg parse_datetime ds cols t" for cols
      using made [of cols] Inr t(1) by auto
    with t Inr show ?thesis by auto
  qed (use made in simp)
qed

definition sample_fields :: DataSeries where
  "sample_fields = \<lparr>ds_id = ''d'', ds_external_id = ''e'', ds_backend = DYNAMIC_SQL_NO_HISTORY, ds_tenant_id = ''t'',
     ds_keys = (\<lambda>kind. if kind = string_facts then [(''name'', ''f1'')] else if kind = float_facts then [(''age'', ''f2'')] else [])\<rparr>"

definition sample_pg :: "string postgres" where
  "sample_pg = \<lparr>pg_accepts = (\<lambda>kind v. v \<noteq> PNone),
     pg_compare = (\<lambda>operator x y. if operator = ''='' then x = y else if operator = ''!='' then x \<noteq> y else
       (case (x, y) of (PInt i, PInt j) \<Rightarrow> (if operator = ''<'' then i < j else if operator = ''<='' then i \<le> j
          else if operator = ''>='' then j \<le> i else j < i) | _ \<Rightarrow> False)),
     pg_expands_tuples = False, pg_timestamp = (\<lambda>_. None), pg_timestamp_text = (\<lambda>_. []), pg_collate = (\<lambda>s. s)\<rparr>"

definition sample_filter :: pydict where
  "sample_filter = [(''name'', PStr ''x''), (''$or'', PList
     [PDict [(''age'', PDict [(''$gt'', PInt 3)])], PDict [(''$not'', PDict [(''age'', PDict [(''$ne'', PNone)])])]])]"

definition sample_row :: "string \<Rightarrow> int option \<Rightarrow> string \<Rightarrow> sql_value" where
  "sample_row name age c =
     (if c = ''f1_name'' then Sql (PStr name)
      else if c = ''f2_age'' then (case age of None \<Rightarrow> SqlNull | Some n \<Rightarrow> Sql (PInt n)) else SqlNull)"

definition sample_selects :: "pydict \<Rightarrow> string \<Rightarrow> int option \<Rightarrow> bool option option" where
  "sample_selects f name age =
     (case compute_user_defined_filter_for_raw_query (\<lambda>_. None) sample_fields f True of
        Inl _ \<Rightarrow> None
      | Inr u \<Rightarrow> Some (cond_value sample_pg (udf_query_params u) (sample_row name age) (udf_condition u)))"

lemma sample_filter_accepted: "\<exists>t. read_filter 0 (PDict sample_filter) = Some t \<and> acceptable (\<lambda>_. None) sample_fields t"
proof -
  have "read_filter 0 (PDict sample_filter) = Some (AllOf [OnField ''name'' ''$eq'' (PStr ''x''),
      AnyOf [AllOf [AllOf [OnField ''age'' ''$gt'' (PInt 3)]], AllOf [NotF (AllOf [AllOf [OnField ''age'' ''$ne'' PNone]])]]])"
    by code_simp
  moreover have "acceptable (\<lambda>_. None) sample_fields (AllOf [OnField ''name'' ''$eq'' (PStr ''x''),
      AnyOf [AllOf [AllOf [OnField ''age'' ''$gt'' (PInt 3)]], AllOf [NotF (AllOf [AllOf [OnField ''age'' ''$ne'' PNone]])]]])"
    by code_simp
  ultimately show ?thesis by blast
qed

lemma sample_fields_distinct: "fields_distinct sample_fields"
  by (auto simp: fields_distinct_def sample_fields_def)

theorem user_filter_means_formula_witness:
  "(\<exists>u t. compute_user_defined_filter_for_raw_query (\<lambda>_. None) sample_fields sample_filter True = Inr u \<and>
      read_filter 0 (PDict sample_filter) = Some t \<and>
      cond_value sample_pg (udf_query_params u) (sample_row ''x'' (Some 5)) (udf_condition u) =
        holds sample_pg (\<lambda>_. None) sample_fields (sample_row ''x'' (Some 5)) t) \<and>
    sample_selects sample_filter ''x'' (Some 5) = Some (Some True) \<and>
    sample_selects sample_filter ''x'' (Some 2) = Some (Some False) \<and>
    sample_selects sample_filter ''x'' None = Some (Some True)"
proof (intro conjI)
  note means = user_filter_means_formula [OF sample_fields_distinct, where parse_datetime = "\<lambda>_. None"
      and f = sample_filter and pg = sample_pg]
  show "\<exists>u t. compute_user_defined_filter_for_raw_query (\<lambda>_. None) sample_fields sample_filter True = Inr u \<and>
      read_filter 0 (PDict sample_filter) = Some t \<and>
      cond_value sample_pg (udf_query_params u) (sample_row ''x'' (Some 5)) (udf_condition u) =
        holds sample_pg (\<lambda>_. None) sample_fields (sample_row ''x'' (Some 5)) t"
  proof (cases "compute_user_defined_filter_for_raw_query (\<lambda>_. None) sample_fields sample_filter True")
    case (Inl e)
    then show ?thesis using means sample_filter_accepted by simp
  next
    case (Inr u)
    then show ?thesis using means by auto
  qed
qed code_simp+

text \<open>What stands in the object of a field counts, not the operator that the object is the argument of:
  \<open>{"name": {"$not": {"$eq": "x"}}}\<close> selects the rows whose name is \<open>x\<close>.\<close>

theorem operator_of_object_ignored:
  "handle_column primitive column (PDict [(operator1, PDict items)]) outer =
     handle_column primitive column (PDict [(operator2, PDict items)]) outer' \<and>
   sample_selects [(''name'', PDict [(''$not'', PDict [(''$eq'', PStr ''x'')])])] ''x'' None = Some (Some True) \<and>
   sample_selects [(''name'', PDict [(''$not'', PDict [(''$eq'', PStr ''x'')])])] ''y'' None = Some (Some False)"
proof (intro conjI)
  have "handle_column primitive column (PDict items) operator1 = handle_column primitive column (PDict items) operator2"
    by (simp add: handle_column.simps [of _ _ "PDict items"])
  then show "handle_column primitive column (PDict [(operator1, PDict items)]) outer =
     handle_column primitive column (PDict [(operator2, PDict items)]) outer'"
    by (simp add: handle_column.simps [of _ _ "PDict [(operator1, PDict items)]"] handle_column.simps [of _ _ "PDict [(operator2, PDict items)]"])
qed code_simp+

end
