(* ===== verification/Server_Pagination.thy ===== *)
theory Server_Pagination
  imports Server_Query
begin

text \<open>
  Reading the data points of a data series in pages: \<open>IdBasedPagination\<close> of \<open>pagination.py\<close>, the
  methods of the view of data points that it asks (\<open>views/datapoint/crud.py\<close>, \<open>point_in_time.py\<close>) and
  the view's \<open>list\<close>. URLs are a parameter: the query parameters that Django reads from them and the two
  functions of the REST framework that change them.
\<close>

section \<open>Query parameters\<close>

record 'u url_functions =
  url_query :: "'u \<Rightarrow> string \<Rightarrow> string list"
  url_replace :: "'u \<Rightarrow> string \<Rightarrow> string \<Rightarrow> 'u"
  url_remove :: "'u \<Rightarrow> string \<Rightarrow> 'u"

text \<open>\<open>request.GET[key]\<close>: the last value.\<close>

definition get_param :: "'u url_functions \<Rightarrow> 'u \<Rightarrow> string \<Rightarrow> string option" where
  "get_param urls request key = (case rev (url_query urls request key) of [] \<Rightarrow> None | v # _ \<Rightarrow> Some v)"

definition flag_param :: "'u url_functions \<Rightarrow> 'u \<Rightarrow> string \<Rightarrow> bool" where
  "flag_param urls request key =
     (case get_param urls request key of None \<Rightarrow> False | Some v \<Rightarrow> v = [] \<or> v = ''true'')"

definition time_query ::
  "'c reading \<Rightarrow> 'u url_functions \<Rightarrow> 'u \<Rightarrow> string \<Rightarrow> int option" where
  "time_query rd urls request key =
     (case get_param urls request key of None \<Rightarrow> None | Some v \<Rightarrow> rd_parse_datetime rd (PStr v))"

definition get_point_in_time :: "'c reading \<Rightarrow> 'u url_functions \<Rightarrow> bool \<Rightarrow> 'u \<Rightarrow> int option" where
  "get_point_in_time rd urls history request = (if history then time_query rd urls request ''point_in_time'' else None)"

definition get_changes_since :: "'c reading \<Rightarrow> 'u url_functions \<Rightarrow> 'u \<Rightarrow> int option" where
  "get_changes_since rd urls request = time_query rd urls request ''changes_since''"

definition get_filter_value :: "'c reading \<Rightarrow> 'u url_functions \<Rightarrow> 'u \<Rightarrow> pydict result" where
  "get_filter_value rd urls request =
     (case get_param urls request ''filter'' of
        None \<Rightarrow> Inr []
      | Some filter_str \<Rightarrow>
          if filter_str = [] then Inr []
          else case json_loads (rd_parse_float rd) filter_str of
            None \<Rightarrow> Inl (ValidationError (PStr (''filter '' @ filter_str @ '' could not be parsed as valid json'')))
          | Some (PDict d) \<Rightarrow> Inr d
          | Some _ \<Rightarrow> Inl (ValidationError (PStr ''filter in url parameters was no json object/dictionary'')))"

definition get_external_ids :: "'u url_functions \<Rightarrow> 'u \<Rightarrow> string list option" where
  "get_external_ids urls request =
     (case url_query urls request ''external_id'' of [] \<Rightarrow> None | ids \<Rightarrow> Some ids)"

definition should_include_prev_page_for_pagination :: "'u url_functions \<Rightarrow> 'u \<Rightarrow> bool" where
  "should_include_prev_page_for_pagination urls request = flag_param urls request ''include_prev''"

definition view_query :: "'c reading \<Rightarrow> 'u url_functions \<Rightarrow> bool \<Rightarrow> 'u \<Rightarrow> data_point_query result" where
  "view_query rd urls history request =
     rbind (get_filter_value rd urls request) (\<lambda>filter_value.
       Inr \<lparr>dq_filter_value = filter_value, dq_external_ids = get_external_ids urls request,
            dq_point_in_time = get_point_in_time rd urls history request,
            dq_changes_since = get_changes_since rd urls request\<rparr>)"

section \<open>IdBasedPagination\<close>

definition DEFAULT_PAGE_SIZE :: int where
  "DEFAULT_PAGE_SIZE = 10"

definition MAX_PAGE_SIZE :: int where
  "MAX_PAGE_SIZE = 1000"

definition positive_int :: "string \<Rightarrow> bool \<Rightarrow> int option \<Rightarrow> int result" where
  "positive_int integer_string strict cutoff =
     (case parse_int integer_string of
        None \<Rightarrow> Inl (ValueError integer_string)
      | Some ret \<Rightarrow>
          if ret < 0 \<or> (ret = 0 \<and> strict) then Inl (ValueError [])
          else case cutoff of None \<Rightarrow> Inr ret | Some c \<Rightarrow> if c = 0 then Inr ret else Inr (min ret c))"

definition get_page_size :: "'u url_functions \<Rightarrow> 'u \<Rightarrow> nat" where
  "get_page_size urls request =
     (case get_param urls request ''pagesize'' of
        None \<Rightarrow> nat DEFAULT_PAGE_SIZE
      | Some s \<Rightarrow>
          (case positive_int s True (Some MAX_PAGE_SIZE) of Inl _ \<Rightarrow> nat DEFAULT_PAGE_SIZE | Inr n \<Rightarrow> nat n))"

text \<open>
  What the paginator asks the view. The next page's query is run when its rows are needed; the one of
  the previous page is \<open>None\<close> if the view does not show it.
\<close>

record ('u, 'o) paginated_view =
  pv_include_prev :: "'u \<Rightarrow> bool"
  pv_encode_last_id :: "'o \<Rightarrow> string result"
  pv_next_page_query :: "'u \<Rightarrow> string option \<Rightarrow> nat \<Rightarrow> 'o list result result"
  pv_prev_page_query :: "'u \<Rightarrow> string \<Rightarrow> nat \<Rightarrow> 'o list result option result"
  pv_total_count :: "'u \<Rightarrow> nat option result"

text \<open>The attributes of the paginator after \<open>paginate_queryset\<close>, with what it returns.\<close>

record 'o paginator =
  pn_page_size :: nat
  pn_display_prev_page :: bool
  pn_prev_page :: "'o list option"
  pn_total_count :: "nat option"
  pn_next_last_id_object :: "'o option"
  pn_page :: "'o list"

definition decode_last_id :: "string \<Rightarrow> string result" where
  "decode_last_id x =
     (if \<not> ascii x then Inl (ValueError ''string argument should contain only ASCII characters'')
      else case b64decode x of
        Some s \<Rightarrow>
          if ascii s then Inr s
          else Inl (ValidationError (PStr ''failed to base64 decode query parameter last''))
      | None \<Rightarrow> Inl (ValidationError (PStr ''failed to base64 decode query parameter last'')))"

definition encode_last_id :: "('u, 'o) paginated_view \<Rightarrow> 'o \<Rightarrow> string result" where
  "encode_last_id view x =
     rbind (pv_encode_last_id view x) (\<lambda>s. if ascii s then Inr (b64encode s) else Inl (ValueError ''ascii''))"

text \<open>The queries, and the previous page, which is read at once.\<close>

definition page_queries ::
  "('u, 'o) paginated_view \<Rightarrow> 'u \<Rightarrow> nat \<Rightarrow> string option \<Rightarrow> ('o list result \<times> 'o list option) result" where
  "page_queries view request page_size last_id_query =
     (case last_id_query of
        None \<Rightarrow> rbind (pv_next_page_query view request None (page_size + 1)) (\<lambda>qs. Inr (qs, None))
      | Some last_id \<Rightarrow>
          rbind (pv_next_page_query view request (Some last_id) (page_size + 2)) (\<lambda>qs.
          rbind (pv_prev_page_query view request last_id (page_size + 1)) (\<lambda>rev_query.
            case rev_query of
              None \<Rightarrow> Inr (qs, None)
            | Some rows \<Rightarrow> rbind rows (\<lambda>prev_page. Inr (qs, Some (take (page_size + 1) prev_page))))))"

text \<open>Which of the rows are the page, and the row that the next page starts after.\<close>

definition cut_page :: "nat \<Rightarrow> bool \<Rightarrow> 'o list \<Rightarrow> 'o option \<times> 'o list" where
  "cut_page page_size last_id_in_list qs_as_list =
     (let n = length qs_as_list; additional_minus = (if n = page_size + 2 then 1 else 0) in
      if last_id_in_list then
        (if page_size + 1 < n then Some (qs_as_list ! (n - 1 - additional_minus)) else None,
         if 0 < additional_minus then drop 1 (take (n - additional_minus) qs_as_list) else drop 1 qs_as_list)
      else
        (if page_size < n then Some (qs_as_list ! (n - 2 - additional_minus)) else None,
         if page_size < n then take (n - (1 + additional_minus)) qs_as_list else qs_as_list))"

definition paginate_queryset ::
  "('u, 'o) paginated_view \<Rightarrow> 'u url_functions \<Rightarrow> 'u \<Rightarrow> 'o paginator option result" where
  "paginate_queryset view urls request =
     (let page_size = get_page_size urls request; raw_last_id_query = get_param urls request ''last'' in
      if page_size = 0 then Inr None
      else
        rbind (case raw_last_id_query of None \<Rightarrow> Inr None | Some x \<Rightarrow> rbind (decode_last_id x) (\<lambda>s. Inr (Some s))) (\<lambda>last_id_query.
        rbind (page_queries view request page_size last_id_query) (\<lambda>(qs, prev_page).
        rbind (pv_total_count view request) (\<lambda>total_count.
        rbind qs (\<lambda>rows.
          let qs_as_list = take (page_size + 2) rows in
          rbind (case qs_as_list of
                   [] \<Rightarrow> Inr False
                 | first # _ \<Rightarrow> rbind (encode_last_id view first) (\<lambda>first_id. Inr (raw_last_id_query = Some first_id)))
            (\<lambda>last_id_in_list.
              let cut = cut_page page_size last_id_in_list qs_as_list in
              Inr (Some \<lparr>pn_page_size = page_size, pn_display_prev_page = pv_include_prev view request,
                         pn_prev_page = prev_page, pn_total_count = total_count,
                         pn_next_last_id_object = fst cut, pn_page = snd cut\<rparr>)))))))"

definition get_prev_link ::
  "('u, 'o) paginated_view \<Rightarrow> 'u url_functions \<Rightarrow> 'u \<Rightarrow> 'o paginator \<Rightarrow> 'u option result" where
  "get_prev_link view urls request pn =
     (case pn_prev_page pn of
        None \<Rightarrow> Inr None
      | Some prev_page \<Rightarrow>
          if prev_page = [] then Inr (Some (url_remove urls request ''last''))
          else if pn_page_size pn < length prev_page then
            rbind (encode_last_id view (last prev_page)) (\<lambda>prev_page_last_id.
              Inr (Some (url_replace urls request ''last'' prev_page_last_id)))
          else Inr (Some (url_remove urls request ''last'')))"

definition get_next_link ::
  "('u, 'o) paginated_view \<Rightarrow> 'u url_functions \<Rightarrow> 'u \<Rightarrow> 'o paginator \<Rightarrow> 'u option result" where
  "get_next_link view urls request pn =
     (case pn_next_last_id_object pn of
        None \<Rightarrow> Inr None
      | Some x \<Rightarrow> rbind (encode_last_id view x) (\<lambda>last_id. Inr (Some (url_replace urls request ''last'' last_id))))"

text \<open>The answer; \<open>previous\<close> and \<open>count\<close> are left out if they are not asked for.\<close>

record ('u, 'o) page_response =
  pr_next :: "'u option"
  pr_previous :: "'u option option"
  pr_count :: "nat option"
  pr_data :: "'o list"

definition get_paginated_response ::
  "('u, 'o) paginated_view \<Rightarrow> 'u url_functions \<Rightarrow> 'u \<Rightarrow> 'o paginator \<Rightarrow> 'o list \<Rightarrow> ('u, 'o) page_response result" where
  "get_paginated_response view urls request pn data =
     rbind (get_next_link view urls request pn) (\<lambda>next_link.
     rbind (if pn_display_prev_page pn then rbind (get_prev_link view urls request pn) (\<lambda>p. Inr (Some p)) else Inr None) (\<lambda>previous.
     Inr \<lparr>pr_next = next_link, pr_previous = previous, pr_count = pn_total_count pn, pr_data = data\<rparr>))"

section \<open>The view of data points\<close>

definition get_total_count_for_pagination ::
  "'c reading \<Rightarrow> 'u url_functions \<Rightarrow> bool \<Rightarrow> DataSeries \<Rightarrow> 's storage_world \<Rightarrow> 'u \<Rightarrow> nat option result" where
  "get_total_count_for_pagination rd urls history ds w request =
     (if flag_param urls request ''count''
      then rbind (view_query rd urls history request) (\<lambda>q. rbind (data_point_count rd ds q w) (\<lambda>n. Inr (Some n)))
      else Inr None)"

definition data_point_view ::
  "'c::linorder reading \<Rightarrow> 'u url_functions \<Rightarrow> bool \<Rightarrow> DataSeries \<Rightarrow> 's storage_world \<Rightarrow> ('u, display_row) paginated_view" where
  "data_point_view rd urls history ds w =
     \<lparr>pv_include_prev = should_include_prev_page_for_pagination urls,
      pv_encode_last_id = encode_last_id_for_pagination (rd_postgres rd),
      pv_next_page_query = (\<lambda>request last_query limit.
        rbind (view_query rd urls history request) (\<lambda>q. get_next_page_query_for_pagination rd ds q w last_query limit)),
      pv_prev_page_query = (\<lambda>request last_query limit.
        if should_include_prev_page_for_pagination urls request
        then rbind (view_query rd urls history request) (\<lambda>q.
          rbind (get_prev_page_query_for_pagination rd ds q w last_query limit) (\<lambda>rows. Inr (Some rows)))
        else Inr None),
      pv_total_count = get_total_count_for_pagination rd urls history ds w\<rparr>"

text \<open>\<open>list\<close>; the serialization of the rows is left out.\<close>

definition list_data_points ::
  "'c::linorder reading \<Rightarrow> 'u url_functions \<Rightarrow> bool \<Rightarrow> DataSeries \<Rightarrow> 's storage_world \<Rightarrow> 'u \<Rightarrow> ('u, display_row) page_response result" where
  "list_data_points rd urls history ds w request =
     (let view = data_point_view rd urls history ds w in
      if \<not> has_history (ds_backend ds) \<and> history
      then Inl (ValidationError (PStr ''data_series backend does not support history''))
      else rbind (paginate_queryset view urls request) (\<lambda>page.
        case page of None \<Rightarrow> Inl AssertionError | Some pn \<Rightarrow> get_paginated_response view urls request pn (pn_page pn)))"

end
