(* ===== verification/Server_Pagination_Correct.thy ===== *)
theory Server_Pagination_Correct
  imports Server_Pagination
begin

text \<open>
  What pages are: the pages that the \<open>next\<close> links reach are the rows of the query, in order, none left
  out and none twice; a page can be asked for by the cursor of a row that is gone; \<open>previous\<close> leads back
  to the page that \<open>next\<close> was taken from. First for any view that serves rows in the order of a key
  (\<open>serves\<close>), then for the view of data points, with cursors that go through JSON and base64.
\<close>

section \<open>Cutting a page\<close>

definition page_cut :: "nat \<Rightarrow> 'o list \<Rightarrow> 'o option \<times> 'o list" where
  "page_cut p rows = (if p < length rows then Some (rows ! (p - 1)) else None, take p rows)"

lemma cut_page_first:
  assumes "0 < p"
  shows "cut_page p False (take (p + 1) rows) = page_cut p rows"
proof -
  consider "length rows \<le> p" | "length rows = Suc p" | "Suc p < length rows" by linarith
  then show ?thesis using assms by cases (auto simp: cut_page_def page_cut_def Let_def min_def)
qed

lemma cut_page_gone:
  assumes "0 < p"
  shows "cut_page p False (take (p + 2) rows) = page_cut p rows"
proof -
  consider "length rows \<le> p" | "length rows = Suc p" | "length rows = Suc (Suc p)" | "Suc (Suc p) < length rows" by linarith
  then show ?thesis using assms by cases (auto simp: cut_page_def page_cut_def Let_def min_def)
qed

lemma cut_page_there:
  assumes "0 < p"
  shows "cut_page p True (take (p + 2) (row # rows)) = page_cut p rows"
proof -
  obtain m where "p = Suc m" using assms by (cases p) auto
  moreover consider "length rows \<le> p" | "length rows = Suc p" | "Suc p < length rows" by linarith
  ultimately show ?thesis by cases (auto simp: cut_page_def page_cut_def Let_def min_def)
qed

text \<open>What the view promises: the rows in the order of a key, from a cursor on in either direction.\<close>

definition serves ::
  "('u, 'o) paginated_view \<Rightarrow> 'u \<Rightarrow> ('o \<Rightarrow> 'k::linorder) \<Rightarrow> ('o \<Rightarrow> string) \<Rightarrow> 'o set \<Rightarrow> 'o list \<Rightarrow> nat option \<Rightarrow> bool" where
  "serves view request key cursor V rows cnt \<longleftrightarrow>
     sorted_wrt (\<lambda>x y. key x < key y) rows \<and> set rows \<subseteq> V \<and>
     (\<forall>x\<in>V. pv_encode_last_id view x = Inr (cursor x) \<and> ascii (cursor x)) \<and>
     (\<forall>x\<in>V. \<forall>y\<in>V. cursor x = cursor y \<longleftrightarrow> key x = key y) \<and>
     (\<forall>n. pv_next_page_query view request None n = Inr (Inr (take n rows))) \<and>
     (\<forall>x\<in>V. \<forall>n. pv_next_page_query view request (Some (cursor x)) n =
        Inr (Inr (take n (filter (\<lambda>y. key x \<le> key y) rows)))) \<and>
     (\<forall>x\<in>V. \<forall>n. pv_prev_page_query view request (cursor x) n =
        Inr (if pv_include_prev view request then Some (Inr (take n (rev (filter (\<lambda>y. key y \<le> key x) rows)))) else None)) \<and>
     pv_total_count view request = Inr cnt"

definition rows_after :: "('o \<Rightarrow> 'k::linorder) \<Rightarrow> 'o \<Rightarrow> 'o list \<Rightarrow> 'o list" where
  "rows_after key x rows = filter (\<lambda>y. key x < key y) rows"

definition rows_upto :: "('o \<Rightarrow> 'k::linorder) \<Rightarrow> 'o \<Rightarrow> 'o list \<Rightarrow> 'o list" where
  "rows_upto key x rows = filter (\<lambda>y. key y \<le> key x) rows"

lemma servesD:
  assumes "serves view request key cursor V rows cnt"
  shows "sorted_wrt (\<lambda>x y. key x < key y) rows" "set rows \<subseteq> V"
    "x \<in> V \<Longrightarrow> encode_last_id view x = Inr (b64encode (cursor x))" "x \<in> V \<Longrightarrow> ascii (cursor x)"
    "x \<in> V \<Longrightarrow> y \<in> V \<Longrightarrow> cursor x = cursor y \<longleftrightarrow> key x = key y"
    "pv_next_page_query view request None n = Inr (Inr (take n rows))"
    "x \<in> V \<Longrightarrow> pv_next_page_query view request (Some (cursor x)) n =
        Inr (Inr (take n (filter (\<lambda>y. key x \<le> key y) rows)))"
    "x \<in> V \<Longrightarrow> pv_prev_page_query view request (cursor x) n =
        Inr (if pv_include_prev view request then Some (Inr (take n (rev (rows_upto key x rows)))) else None)"
    "pv_total_count view request = Inr cnt"
  using assms by (auto simp: serves_def encode_last_id_def rows_upto_def)

lemma from_cursor:
  assumes "sorted_wrt (\<lambda>x y. key x < key y) rows"
  shows "filter (\<lambda>y. key x \<le> key y) rows = rows_after key x rows \<and> (\<forall>y\<in>set (rows_after key x rows). key y \<noteq> key x) \<or>
    (\<exists>z. filter (\<lambda>y. key x \<le> key y) rows = z # rows_after key x rows \<and> key z = key x)"
  using assms
proof (induction rows)
  case (Cons r rows)
  consider "key r < key x" | "key r = key x" | "key x < key r" by fastforce
  then show ?case
  proof cases
    case 1
    then have "\<not> key x \<le> key r" "\<not> key x < key r" by auto
    then show ?thesis using Cons by (simp add: rows_after_def)
  next
    case 2
    then have "filter (\<lambda>y. key x \<le> key y) rows = rows" "filter (\<lambda>y. key x < key y) rows = rows"
      using Cons.prems by (auto simp: filter_id_conv intro: less_imp_le)
    then show ?thesis using 2 by (simp add: rows_after_def)
  next
    case 3
    then have "filter (\<lambda>y. key x \<le> key y) rows = rows" "filter (\<lambda>y. key x < key y) rows = rows"
      using Cons.prems by (auto simp: filter_id_conv intro: less_imp_le less_trans)
    then show ?thesis using 3 Cons.prems by (auto simp: rows_after_def)
  qed
qed (simp add: rows_after_def)

lemma decode_encode_last_id: "ascii s \<Longrightarrow> ascii (b64encode s) \<Longrightarrow> decode_last_id (b64encode s) = Inr s"
  by (simp add: decode_last_id_def)

lemma ascii_b64encode: "ascii (b64encode s)"
proof -
  obtain vs pad where "b64_shape s vs pad" using b64encode_shape [of s] by (elim exE)
  note shape = this [unfolded b64_shape_def, THEN conjunct1] this [unfolded b64_shape_def, THEN conjunct2, THEN conjunct1]
    this [unfolded b64_shape_def, THEN conjunct2, THEN conjunct2, THEN conjunct2, THEN conjunct1]
  have "char_code (b64_char v) < 128" if "v < 64" for v
    using that by (auto simp: b64_char_def char_code_def)
  moreover have "char_code (CHR ''='') < 128" by (simp add: char_code_def)
  ultimately show ?thesis
    using shape(2,3) by (auto simp: ascii_def shape(1) list_all_iff)
qed

lemma first_page:
  assumes "serves view request key cursor V rows cnt" and "get_param urls request ''last'' = None"
    and p: "get_page_size urls request = p" "0 < p"
  shows "paginate_queryset view urls request = Inr (Some
    \<lparr>pn_page_size = p, pn_display_prev_page = pv_include_prev view request, pn_prev_page = None, pn_total_count = cnt,
     pn_next_last_id_object = fst (page_cut p rows), pn_page = snd (page_cut p rows)\<rparr>)"
proof -
  note laws = servesD [OF assms(1)]
  have take: "take (p + 2) (take (p + 1) rows) = take (p + 1) rows" by simp
  have "(case take (p + 1) rows of [] \<Rightarrow> Inr False
      | first # _ \<Rightarrow> rbind (encode_last_id view first) (\<lambda>first_id. Inr (None = Some first_id))) = Inr False"
    using laws(2) by (cases rows) (auto simp: laws(3))
  then show ?thesis
    using p by (simp add: paginate_queryset_def assms(2) page_queries_def laws(6,9) take Let_def cut_page_first [OF p(2), simplified]
        del: take_take)
qed

lemma later_page:
  assumes "serves view request key cursor V rows cnt" and last: "get_param urls request ''last'' = Some (b64encode (cursor x))"
    and p: "get_page_size urls request = p" "0 < p" and x: "x \<in> V"
  shows "paginate_queryset view urls request = Inr (Some
    \<lparr>pn_page_size = p, pn_display_prev_page = pv_include_prev view request,
     pn_prev_page = (if pv_include_prev view request then Some (take (p + 1) (rev (rows_upto key x rows))) else None),
     pn_total_count = cnt, pn_next_last_id_object = fst (page_cut p (rows_after key x rows)),
     pn_page = snd (page_cut p (rows_after key x rows))\<rparr>)"
proof -
  note laws = servesD [OF assms(1)]
  let ?from = "filter (\<lambda>y. key x \<le> key y) rows"
  have decoded: "decode_last_id (b64encode (cursor x)) = Inr (cursor x)"
    using laws(4) [OF x] by (simp add: decode_encode_last_id ascii_b64encode)
  have same: "b64encode (cursor x) = b64encode (cursor y) \<longleftrightarrow> key x = key y" if "y \<in> V" for y
    using laws(5) [OF x that] by (metis b64decode_encode option.inject)
  have "\<exists>there. (case take (p + 2) ?from of [] \<Rightarrow> Inr False
      | first # _ \<Rightarrow> rbind (encode_last_id view first) (\<lambda>first_id. Inr (Some (b64encode (cursor x)) = Some first_id))) = Inr there \<and>
      cut_page p there (take (p + 2) ?from) = page_cut p (rows_after key x rows)"
    using from_cursor [OF laws(1), of x]
  proof (elim disjE conjE exE)
    assume start: "?from = rows_after key x rows" and away: "\<forall>y\<in>set (rows_after key x rows). key y \<noteq> key x"
    show ?thesis
    proof (cases "rows_after key x rows")
      case Nil
      then show ?thesis using cut_page_gone [OF p(2), of "[]"] by (intro exI [of _ False]) (simp add: start)
    next
      case (Cons y ys)
      then have "y \<in> V" "key y \<noteq> key x" using laws(2) away by (auto simp: rows_after_def filter_eq_Cons_iff)
      then show ?thesis
        using cut_page_gone [OF p(2), of "y # ys"] same [of y]
        by (intro exI [of _ False]) (simp add: start Cons laws(3))
    qed
  next
    fix z
    assume start: "?from = z # rows_after key x rows" and z: "key z = key x"
    then have "z \<in> V" using laws(2) by (auto simp: filter_eq_Cons_iff)
    then show ?thesis
      using cut_page_there [OF p(2), of z "rows_after key x rows"] same [of z] z
      by (intro exI [of _ True]) (simp add: start laws(3))
  qed
  then obtain there where there: "(case take (p + 2) ?from of [] \<Rightarrow> Inr False
      | first # _ \<Rightarrow> rbind (encode_last_id view first) (\<lambda>first_id. Inr (Some (b64encode (cursor x)) = Some first_id))) = Inr there"
      "cut_page p there (take (p + 2) ?from) = page_cut p (rows_after key x rows)"
    by blast
  show ?thesis
    using p by (simp add: paginate_queryset_def last decoded page_queries_def laws(7) [OF x] laws(8) [OF x] laws(9) there [unfolded add_2_eq_Suc'] Let_def
        del: Option.option.inject)
qed


section \<open>Following the links\<close>

definition url_laws :: "'u url_functions \<Rightarrow> bool" where
  "url_laws urls \<longleftrightarrow>
     (\<forall>u k v k'. url_query urls (url_replace urls u k v) k' = (if k' = k then [v] else url_query urls u k')) \<and>
     (\<forall>u k k'. url_query urls (url_remove urls u k) k' = (if k' = k then [] else url_query urls u k'))"

definition same_params :: "'u url_functions \<Rightarrow> 'u \<Rightarrow> 'u \<Rightarrow> bool" where
  "same_params urls u u' \<longleftrightarrow> (\<forall>k. k \<noteq> ''last'' \<longrightarrow> url_query urls u k = url_query urls u' k)"

lemma same_params_refl: "same_params urls u u"
  by (simp add: same_params_def)

lemma same_params_replace: "url_laws urls \<Longrightarrow> same_params urls u u' \<Longrightarrow> same_params urls u (url_replace urls u' ''last'' v)"
  by (simp add: same_params_def url_laws_def)

lemma same_params_remove: "url_laws urls \<Longrightarrow> same_params urls u u' \<Longrightarrow> same_params urls u (url_remove urls u' ''last'')"
  by (simp add: same_params_def url_laws_def)

lemma last_param:
  "url_laws urls \<Longrightarrow> get_param urls (url_replace urls u ''last'' v) ''last'' = Some v"
  "url_laws urls \<Longrightarrow> get_param urls (url_remove urls u ''last'') ''last'' = None"
  by (simp_all add: get_param_def url_laws_def)

definition page_response :: "('u, 'o) paginated_view \<Rightarrow> 'u url_functions \<Rightarrow> 'u \<Rightarrow> ('u, 'o) page_response result" where
  "page_response view urls request =
     rbind (paginate_queryset view urls request) (\<lambda>page.
       case page of None \<Rightarrow> Inl AssertionError | Some pn \<Rightarrow> get_paginated_response view urls request pn (pn_page pn))"

lemma upto_after:
  assumes "sorted_wrt (\<lambda>x y. key x < key y) rows"
  shows "rows = rows_upto key x rows @ rows_after key x rows"
  using assms
proof (induction rows)
  case (Cons r rows)
  show ?case
  proof (cases "key r \<le> key x")
    case False
    then have "rows_upto key x rows = []" "rows_after key x rows = rows"
      using Cons.prems by (auto simp: rows_upto_def rows_after_def filter_empty_conv filter_id_conv)
    then show ?thesis using False by (simp add: rows_upto_def rows_after_def)
  qed (use Cons in \<open>simp add: rows_upto_def rows_after_def\<close>)
qed (simp add: rows_upto_def rows_after_def)

lemma after_nth:
  assumes "sorted_wrt (\<lambda>x y. key x < key y) rows" and "i < length rows"
  shows "rows_after key (rows ! i) rows = drop (Suc i) rows" "rows_upto key (rows ! i) rows = take (Suc i) rows"
proof -
  have split: "rows = take (Suc i) rows @ drop (Suc i) rows" by simp
  have less: "key (rows ! j) < key (rows ! i)" if "j < i" for j
    using that assms by (auto intro: sorted_wrt_nth_less)
  have before: "key x \<le> key (rows ! i)" if x: "x \<in> set (take (Suc i) rows)" for x
  proof -
    obtain j where "j < length (take (Suc i) rows)" "take (Suc i) rows ! j = x"
      using x by (auto simp only: in_set_conv_nth)
    then have "j \<le> i" "x = rows ! j" by auto
    then show ?thesis using less [of j] by (cases "j = i") auto
  qed
  have later: "key (rows ! i) < key x" if "x \<in> set (drop (Suc i) rows)" for x
    using that assms sorted_wrt_nth_less [OF assms(1), of i] by (auto simp: in_set_conv_nth)
  show "rows_after key (rows ! i) rows = drop (Suc i) rows"
    unfolding rows_after_def by (subst (2) split, subst filter_append)
      (use before later in \<open>auto simp: filter_empty_conv filter_id_conv not_less\<close>)
  show "rows_upto key (rows ! i) rows = take (Suc i) rows"
    unfolding rows_upto_def by (subst (2) split, subst filter_append)
      (use before later in \<open>auto simp: filter_empty_conv filter_id_conv not_le\<close>)
qed

definition next_of :: "('u, 'o) paginated_view \<Rightarrow> 'u url_functions \<Rightarrow> 'u \<Rightarrow> ('o \<Rightarrow> string) \<Rightarrow> nat \<Rightarrow> 'o list \<Rightarrow> 'u option" where
  "next_of view urls request cursor p rows =
     (if p < length rows then Some (url_replace urls request ''last'' (b64encode (cursor (rows ! (p - 1))))) else None)"

lemma first_response:
  assumes serves: "serves view request key cursor V rows cnt" and "get_param urls request ''last'' = None"
    and p: "get_page_size urls request = p" "0 < p"
  shows "page_response view urls request = Inr
    \<lparr>pr_next = next_of view urls request cursor p rows,
     pr_previous = (if pv_include_prev view request then Some None else None), pr_count = cnt, pr_data = take p rows\<rparr>"
proof -
  note laws = servesD [OF serves]
  have "rows ! (p - 1) \<in> V" if "p < length rows" using that laws(2) by (auto simp: subset_iff)
  then show ?thesis
    by (simp add: page_response_def first_page [OF assms] get_paginated_response_def get_next_link_def get_prev_link_def
        page_cut_def next_of_def laws(3))
qed

lemma later_response:
  assumes serves: "serves view request key cursor V rows cnt" and "get_param urls request ''last'' = Some (b64encode (cursor x))"
    and p: "get_page_size urls request = p" "0 < p" and "x \<in> V"
  shows "page_response view urls request = Inr
    \<lparr>pr_next = next_of view urls request cursor p (rows_after key x rows),
     pr_previous = (if pv_include_prev view request
       then Some (Some (if p < length (rows_upto key x rows)
         then url_replace urls request ''last'' (b64encode (cursor (rev (rows_upto key x rows) ! p)))
         else url_remove urls request ''last'')) else None),
     pr_count = cnt, pr_data = take p (rows_after key x rows)\<rparr>"
proof -
  note laws = servesD [OF serves]
  have next_there: "rows_after key x rows ! (p - 1) \<in> V" if "p < length (rows_after key x rows)"
    using that laws(2) nth_mem [of "p - 1" "rows_after key x rows"] by (auto simp: rows_after_def)
  have prev_there: "last (take (Suc p) (rev (rows_upto key x rows))) = rev (rows_upto key x rows) ! p \<and>
      rev (rows_upto key x rows) ! p \<in> V" if "p < length (rows_upto key x rows)"
    using that laws(2) nth_mem [of p "rev (rows_upto key x rows)"]
    by (auto simp: take_Suc_conv_app_nth rows_upto_def)
  show ?thesis
    using next_there prev_there
    by (auto simp: page_response_def later_page [OF assms] get_paginated_response_def get_next_link_def get_prev_link_def
        page_cut_def next_of_def laws(3) min_def)
qed

fun pages_of :: "nat \<Rightarrow> 'o list \<Rightarrow> 'o list list" where
  "pages_of p rows = (if p = 0 \<or> length rows \<le> p then [rows] else take p rows # pages_of p (drop p rows))"

declare pages_of.simps [simp del]

fun follow_next :: "('u \<Rightarrow> ('u, 'o) page_response result) \<Rightarrow> nat \<Rightarrow> 'u \<Rightarrow> 'o list list result" where
  "follow_next get 0 request = Inl AssertionError"
| "follow_next get (Suc n) request =
     rbind (get request) (\<lambda>r. case pr_next r of
         None \<Rightarrow> Inr [pr_data r]
       | Some next_request \<Rightarrow> rbind (follow_next get n next_request) (\<lambda>pages. Inr (pr_data r # pages)))"

lemma follow_next_later:
  assumes urls: "url_laws urls" and p: "0 < p"
    and serves: "\<And>u. same_params urls u0 u \<Longrightarrow> serves view u key cursor V rows cnt \<and> get_page_size urls u = p"
  shows "same_params urls u0 u \<Longrightarrow> i < length rows \<Longrightarrow> get_param urls u ''last'' = Some (b64encode (cursor (rows ! i))) \<Longrightarrow>
    length rows - Suc i < n \<Longrightarrow> follow_next (page_response view urls) n u = Inr (pages_of p (drop (Suc i) rows))"
proof (induction n arbitrary: u i)
  case (Suc n)
  have at: "serves view u key cursor V rows cnt" "get_page_size urls u = p" using serves [OF Suc.prems(1)] by auto
  have there: "rows ! i \<in> V" using servesD(2) [OF at(1)] Suc.prems(2) by (auto simp: subset_iff)
  note after = after_nth [OF servesD(1) [OF at(1)] Suc.prems(2)]
  note resp = later_response [OF at(1) Suc.prems(3) at(2) p there, unfolded after]
  show ?case
  proof (cases "p < length (drop (Suc i) rows)")
    case True
    let ?u = "url_replace urls u ''last'' (b64encode (cursor (rows ! (i + p))))"
    have idx: "Suc i + (p - 1) = i + p" using p by simp
    have "follow_next (page_response view urls) n ?u = Inr (pages_of p (drop (Suc (i + p)) rows))"
      using True Suc.prems(4) p
      by (intro Suc.IH same_params_replace [OF urls Suc.prems(1)] last_param [OF urls]) auto
    then show ?thesis
      using True p by (simp add: resp next_of_def idx pages_of.simps [of p "drop (Suc i) rows"] add.commute
          nth_drop del: drop_Suc_Cons)
  next
    case False
    then show ?thesis by (simp add: resp next_of_def pages_of.simps [of p "drop (Suc i) rows"])
  qed
qed simp

lemma follow_next_first:
  assumes urls: "url_laws urls" and p: "0 < p"
    and serves: "\<And>u. same_params urls u0 u \<Longrightarrow> serves view u key cursor V rows cnt \<and> get_page_size urls u = p"
    and first: "get_param urls u0 ''last'' = None"
  shows "follow_next (page_response view urls) (Suc (length rows)) u0 = Inr (pages_of p rows)"
proof -
  have at: "serves view u0 key cursor V rows cnt" "get_page_size urls u0 = p"
    using serves [OF same_params_refl] by auto
  note resp = first_response [OF at(1) first at(2) p]
  show ?thesis
  proof (cases "p < length rows")
    case True
    let ?u = "url_replace urls u0 ''last'' (b64encode (cursor (rows ! (p - 1))))"
    have "follow_next (page_response view urls) (length rows) ?u = Inr (pages_of p (drop (Suc (p - 1)) rows))"
      by (rule follow_next_later [OF urls p serves same_params_replace [OF urls same_params_refl] _ last_param(1) [OF urls]])
        (use True p in auto)
    then show ?thesis using True p by (simp add: resp next_of_def pages_of.simps [of p rows])
  next
    case False
    then show ?thesis by (simp add: resp next_of_def pages_of.simps [of p rows])
  qed
qed

definition starts_at :: "'u url_functions \<Rightarrow> 'u \<Rightarrow> ('o \<Rightarrow> string) \<Rightarrow> 'o option \<Rightarrow> bool" where
  "starts_at urls request cursor x \<longleftrightarrow>
     get_param urls request ''last'' = map_option (\<lambda>y. b64encode (cursor y)) x"

definition rows_from :: "('o \<Rightarrow> 'k::linorder) \<Rightarrow> 'o option \<Rightarrow> 'o list \<Rightarrow> 'o list" where
  "rows_from key x rows = (case x of None \<Rightarrow> rows | Some y \<Rightarrow> rows_after key y rows)"

lemma response_data:
  assumes "serves view u key cursor V rows cnt" "get_page_size urls u = p" "0 < p"
    and "starts_at urls u cursor x" "set_option x \<subseteq> V"
  shows "\<exists>r. page_response view urls u = Inr r \<and> pr_data r = take p (rows_from key x rows) \<and>
    pr_next r = next_of view urls u cursor p (rows_from key x rows) \<and> pr_count r = cnt"
  using assms first_response [OF assms(1) _ assms(2,3)] later_response [OF assms(1) _ assms(2,3)]
  by (cases x) (auto simp: starts_at_def rows_from_def)

lemma rows_from_drop:
  assumes "sorted_wrt (\<lambda>x y. key x < key y) rows"
  shows "\<exists>k \<le> length rows. rows_from key x rows = drop k rows"
proof (cases x)
  case (Some y)
  let ?k = "length (rows_upto key y rows)"
  have "drop ?k rows = drop ?k (rows_upto key y rows @ rows_after key y rows)"
    using upto_after [OF assms, of y] by simp
  moreover have "?k \<le> length rows" by (simp add: rows_upto_def)
  ultimately show ?thesis using Some by (auto simp: rows_from_def)
qed (auto simp: rows_from_def intro: exI [of _ 0])

lemma back_to_page:
  assumes urls: "url_laws urls" and p: "0 < p"
    and serves: "\<And>u. same_params urls u0 u \<Longrightarrow> serves view u key cursor V rows cnt \<and> get_page_size urls u = p \<and> pv_include_prev view u"
    and u0: "starts_at urls u0 cursor x" "set_option x \<subseteq> V"
    and r: "page_response view urls u0 = Inr r" "pr_next r = Some u1"
  shows "\<exists>r1 u2 r2. page_response view urls u1 = Inr r1 \<and> pr_previous r1 = Some (Some u2) \<and>
    page_response view urls u2 = Inr r2 \<and> pr_data r2 = pr_data r"
proof -
  have at: "serves view u0 key cursor V rows cnt" "get_page_size urls u0 = p"
    using serves [OF same_params_refl] by auto
  note sorted = servesD(1) [OF at(1)]
  obtain k where k: "rows_from key x rows = drop k rows" using rows_from_drop [OF sorted] by blast
  have data: "pr_data r = take p (drop k rows)" "pr_next r = next_of view urls u0 cursor p (drop k rows)"
    using response_data [OF at p u0] r(1) k by auto
  then have enough: "k + p < length rows" using r(2) by (auto simp: next_of_def split: if_splits)
  have idx: "k + (p - Suc 0) = k + p - Suc 0" using p by simp
  let ?z = "rows ! (k + p - 1)"
  have u1: "u1 = url_replace urls u0 ''last'' (b64encode (cursor ?z))"
    using data(2) r(2) enough by (simp add: next_of_def idx split: if_splits)
  have same1: "same_params urls u0 u1" unfolding u1 by (rule same_params_replace [OF urls same_params_refl])
  note at1 = serves [OF same1, THEN conjunct1] serves [OF same1, THEN conjunct2]
  have z: "?z \<in> V" using servesD(2) [OF at(1)] enough by (auto simp: subset_iff)
  have upto: "rows_upto key ?z rows = take (k + p) rows" using after_nth(2) [OF sorted, of "k + p - 1"] enough p by simp
  have last1: "get_param urls u1 ''last'' = Some (b64encode (cursor ?z))" unfolding u1 by (rule last_param(1) [OF urls])
  obtain r1 where r1: "page_response view urls u1 = Inr r1"
    and prev: "pr_previous r1 = Some (Some (if p < length (take (k + p) rows)
         then url_replace urls u1 ''last'' (b64encode (cursor (rev (take (k + p) rows) ! p))) else url_remove urls u1 ''last''))"
    using later_response [OF at1(1) last1 at1(2) [THEN conjunct1] p z] at1(2) upto by auto
  show ?thesis
  proof (cases "k = 0")
    case True
    let ?u2 = "url_remove urls u1 ''last''"
    have same2: "same_params urls u0 ?u2" by (rule same_params_remove [OF urls same1])
    have "starts_at urls ?u2 cursor None" by (simp add: starts_at_def last_param [OF urls])
    from response_data [OF serves [OF same2, THEN conjunct1] serves [OF same2, THEN conjunct2, THEN conjunct1] p this]
    have "\<exists>r2. page_response view urls ?u2 = Inr r2 \<and> pr_data r2 = take p rows" by (auto simp: rows_from_def)
    moreover have "pr_previous r1 = Some (Some ?u2)" using prev True enough by simp
    ultimately show ?thesis using r1 data(1) True by auto
  next
    case False
    let ?y = "rows ! (k - 1)"
    let ?u2 = "url_replace urls u1 ''last'' (b64encode (cursor ?y))"
    have "rev (take (k + p) rows) ! p = ?y" using enough False by (simp add: rev_nth)
    then have prev2: "pr_previous r1 = Some (Some ?u2)" using prev False enough by simp
    have same2: "same_params urls u0 ?u2" by (rule same_params_replace [OF urls same1])
    have y: "?y \<in> V" using servesD(2) [OF at(1)] enough by (auto simp: subset_iff)
    have "rows_after key ?y rows = drop k rows" using after_nth(1) [OF sorted, of "k - 1"] enough False by simp
    moreover have "starts_at urls ?u2 cursor (Some ?y)" by (simp add: starts_at_def last_param [OF urls])
    from response_data [OF serves [OF same2, THEN conjunct1] serves [OF same2, THEN conjunct2, THEN conjunct1] p this]
    have "\<exists>r2. page_response view urls ?u2 = Inr r2 \<and> pr_data r2 = take p (rows_after key ?y rows)"
      using y by (auto simp: rows_from_def)
    ultimately show ?thesis using r1 prev2 data(1) by auto
  qed
qed

section \<open>Cursors of data points\<close>

definition cursor_text :: "'c postgres \<Rightarrow> display_row \<Rightarrow> string" where
  "cursor_text pg row =
     (case dr_inserted_at row of
        None \<Rightarrow> CHR ''{'' # string_member (''id'', dr_id row) @ ''}''
      | Some t \<Rightarrow> CHR ''{'' # string_member (''id'', dr_id row) @ '', '' @
          string_member (''inserted_at'', pg_timestamp_text pg t) @ ''}'')"

lemma encode_cursor: "encode_last_id_for_pagination pg row = Inr (cursor_text pg row)"
proof -
  have "sort_key fst [(''id'', a), (''inserted_at'', b)] = [(''id'', a), (''inserted_at'', b)]" for a b :: pyval
    by (simp add: less_char_def less_eq_char_def)
  moreover have "json_dumps True rep (PStr s) = Inr (json_string s)" for rep s
    by (simp add: json_dumps.simps [of _ _ "PStr s"])
  ultimately show ?thesis
    by (simp add: encode_last_id_for_pagination_def pagination_data_def json_dumps.simps [of _ _ "PDict d" for d]
        cursor_text_def string_member_def split: option.split)
qed

definition postgres_ok :: "'c postgres \<Rightarrow> bool" where
  "postgres_ok pg \<longleftrightarrow> inj (pg_collate pg) \<and>
     (\<forall>t. ascii (pg_timestamp_text pg t) \<and> pg_timestamp pg (pg_timestamp_text pg t) = Some t)"

definition cursor_rows :: "bool \<Rightarrow> display_row set" where
  "cursor_rows mat = {row. ascii (dr_id row) \<and> (dr_inserted_at row \<noteq> None) = mat}"

lemma ascii_literals: "ascii ''id''" "ascii ''inserted_at''"
  by (simp_all add: ascii_def char_code_def)

lemma parse_cursor:
  assumes "postgres_ok pg" "row \<in> cursor_rows mat"
  shows "parse_page_start pf mat (cursor_text pg row) =
    Inr (map_option (\<lambda>t. PStr (pg_timestamp_text pg t)) (dr_inserted_at row), PStr (dr_id row))"
proof (cases "dr_inserted_at row")
  case None
  then have "json_loads pf (cursor_text pg row) = Some (PDict [(''id'', PStr (dr_id row))])"
    using assms by (simp add: cursor_text_def json_loads_one ascii_literals cursor_rows_def)
  then show ?thesis
    using assms None by (simp add: parse_page_start_def cursor_rows_def dict_index_def)
next
  case (Some t)
  have "ascii (pg_timestamp_text pg t)" using assms(1) by (simp add: postgres_ok_def)
  then have "json_loads pf (cursor_text pg row) =
      Some (PDict [(''id'', PStr (dr_id row)), (''inserted_at'', PStr (pg_timestamp_text pg t))])"
    unfolding cursor_text_def Some option.case using assms(2)
    by (intro json_loads_two ascii_literals) (auto simp: cursor_rows_def)
  then show ?thesis
    using assms Some by (simp add: parse_page_start_def cursor_rows_def dict_index_def page_start_item_def)
qed

lemma start_cursor:
  "postgres_ok pg \<Longrightarrow>
    start_params pg (map_option (\<lambda>t. PStr (pg_timestamp_text pg t)) t, PStr i) = Inr (map_option Some t, Some i)"
  by (cases t) (auto simp: start_params_def time_param_def postgres_ok_def)

lemma at_start_cursor:
  assumes "row \<in> cursor_rows mat" "r \<in> cursor_rows mat"
  shows "at_start pg backwards (map_option Some (dr_inserted_at row), Some (dr_id row)) r \<longleftrightarrow>
    from_key backwards (row_key pg row) (row_key pg r)"
  using assms by (auto simp: at_start_def cursor_rows_def row_key_def from_key_def)

lemma cursor_text_ascii: "ascii (cursor_text pg row)"
proof -
  have escape: "list_all (\<lambda>c. char_code c < 128) (json_escape c)" for c
  proof -
    have hex: "char_code (hex_digit d) < 128" if "d < 16" for d
      using that by (auto simp: hex_digit_def char_code_def)
    show ?thesis
      using hex [of "char_code c mod 16"] hex [of "char_code c div 16", OF less_mult_imp_div_less] char_code_less [of c]
      by (auto simp: json_escape_def Let_def char_code_def)
  qed
  have "ascii (json_string s)" for s
    using escape by (auto simp: json_string_def ascii_def char_code_def list_all_iff)
  then show ?thesis
    by (auto simp: cursor_text_def string_member_def ascii_def char_code_def split: option.split)
qed

lemma cursor_text_eq:
  assumes "postgres_ok pg" "x \<in> cursor_rows mat" "y \<in> cursor_rows mat"
  shows "cursor_text pg x = cursor_text pg y \<longleftrightarrow> row_key pg x = row_key pg y"
proof
  assume "cursor_text pg x = cursor_text pg y"
  then have "start_params pg (map_option (\<lambda>t. PStr (pg_timestamp_text pg t)) (dr_inserted_at x), PStr (dr_id x)) =
      start_params pg (map_option (\<lambda>t. PStr (pg_timestamp_text pg t)) (dr_inserted_at y), PStr (dr_id y))"
    using parse_cursor [OF assms(1,2), of "\<lambda>_. NaN"] parse_cursor [OF assms(1,3), of "\<lambda>_. NaN"] by simp
  then have "dr_inserted_at x = dr_inserted_at y" "dr_id x = dr_id y"
    by (auto simp: start_cursor [OF assms(1)] option.inj_map_strong inj_def
        dest!: injD [OF option.inj_map, rotated])
  then show "row_key pg x = row_key pg y" by (simp add: row_key_def)
next
  assume key: "row_key pg x = row_key pg y"
  then have "dr_id x = dr_id y" using assms(1) by (auto simp: row_key_def postgres_ok_def inj_def)
  moreover have "dr_inserted_at x = dr_inserted_at y"
    using key assms(2,3) by (auto simp: row_key_def cursor_rows_def split: option.splits)
  ultimately show "cursor_text pg x = cursor_text pg y" by (simp add: cursor_text_def split: option.split)
qed

section \<open>The view of data points serves its rows\<close>

text \<open>The rows of the query of a request, without a page.\<close>

definition selects ::
  "'c::linorder reading \<Rightarrow> 'u url_functions \<Rightarrow> bool \<Rightarrow> DataSeries \<Rightarrow> 's storage_world \<Rightarrow> 'u \<Rightarrow> display_row list \<Rightarrow> bool" where
  "selects rd urls history ds w request rows \<longleftrightarrow>
     (case view_query rd urls history request of
        Inl _ \<Rightarrow> False
      | Inr q \<Rightarrow> raw_display_data_point_query rd ds q None None False None w = Inr (Inr rows))"

lemma data_series_rows_kind:
  "data_series_rows ds pit since w = Inr rows \<Longrightarrow> r \<in> set rows \<Longrightarrow> (dr_inserted_at r \<noteq> None) = use_materialized ds pit"
  by (auto simp: data_series_rows_def use_materialized_def materialized_rows_def flat_history_rows_def
      display_mat_def display_hist_def split: if_splits)

lemma sorted_rows:
  assumes "postgres_ok pg" "distinct (map dr_id rows)"
  shows "sorted_wrt (\<lambda>x y. row_key pg x < row_key pg y) (sort_key (row_key pg) rows)"
proof -
  have "distinct (map dr_id (sort_key (row_key pg) rows))" using assms(2) by (metis distinct_map distinct_sort set_sort)
  then have "distinct (map (row_key pg) (sort_key (row_key pg) rows))"
    using assms(1) by (auto simp: distinct_map inj_on_def row_key_def postgres_ok_def inj_def)
  then have "sorted_wrt (<) (map (row_key pg) (sort_key (row_key pg) rows))"
    by (simp add: strict_sorted_iff)
  then show ?thesis by (simp add: sorted_wrt_map)
qed

lemma same_param: "same_params urls u u' \<Longrightarrow> k \<noteq> ''last'' \<Longrightarrow> get_param urls u' k = get_param urls u k"
  by (simp add: same_params_def get_param_def)

lemma same_view_query:
  assumes "same_params urls u u'"
  shows "view_query rd urls history u' = view_query rd urls history u" "get_page_size urls u' = get_page_size urls u"
    "flag_param urls u' ''count'' = flag_param urls u ''count''" "flag_param urls u' ''include_prev'' = flag_param urls u ''include_prev''"
proof -
  note params = same_param [OF assms]
  have "get_external_ids urls u' = get_external_ids urls u" using assms by (simp add: same_params_def get_external_ids_def)
  then show "view_query rd urls history u' = view_query rd urls history u"
    by (simp add: view_query_def get_filter_value_def get_point_in_time_def get_changes_since_def time_query_def params)
  show "get_page_size urls u' = get_page_size urls u" by (simp add: get_page_size_def params)
  show "flag_param urls u' ''count'' = flag_param urls u ''count''" by (simp add: flag_param_def params)
  show "flag_param urls u' ''include_prev'' = flag_param urls u ''include_prev''" by (simp add: flag_param_def params)
qed

lemma page_size_bounds: "0 < get_page_size urls u" "get_page_size urls u \<le> 1000"
  by (auto simp: get_page_size_def positive_int_def DEFAULT_PAGE_SIZE_def MAX_PAGE_SIZE_def split: option.splits)

definition readable :: "'c::linorder postgres \<Rightarrow> display_row list \<Rightarrow> bool" where
  "readable pg rows \<longleftrightarrow> postgres_ok pg \<and> distinct (map dr_id rows) \<and> list_all (\<lambda>r. ascii (dr_id r)) rows"

text \<open>The parts of a query that succeeds.\<close>

lemma raw_query_parts:
  assumes "raw_display_data_point_query rd ds q None None False None w = Inr (Inr rows)"
  obtains part found where
    "precompute_filter_part rd (dq_external_ids q) (dq_filter_value q) ds (use_materialized ds (dq_point_in_time q)) = Inr part"
    "data_series_rows ds (dq_point_in_time q) (dq_changes_since q) w = Inr found" "part_runs (rd_postgres rd) part = Inr ()"
    "rows = sort_key (row_key (rd_postgres rd)) (filter (part_selects (rd_postgres rd) part) found)"
  using assms by (auto simp: raw_display_data_point_query_def Let_def rbind_Inr_iff ordered_rows_def)

lemma raw_query_first:
  assumes "raw_display_data_point_query rd ds q None None False None w = Inr (Inr rows)"
  shows "raw_display_data_point_query rd ds q None None False (Some n) w = Inr (Inr (take n rows))"
  using assms by (elim raw_query_parts) (simp add: raw_display_data_point_query_def ordered_rows_def Let_def)

lemma raw_query_from:
  assumes raw: "raw_display_data_point_query rd ds q None None False None w = Inr (Inr rows)"
    and pg: "postgres_ok (rd_postgres rd)" and rows: "set rows \<subseteq> cursor_rows (use_materialized ds (dq_point_in_time q))"
    and x: "x \<in> cursor_rows (use_materialized ds (dq_point_in_time q))"
  shows "raw_display_data_point_query rd ds q None (Some (cursor_text (rd_postgres rd) x)) backwards (Some n) w =
    Inr (Inr (take n (if backwards then rev (rows_upto (row_key (rd_postgres rd)) x rows)
      else filter (\<lambda>y. row_key (rd_postgres rd) x \<le> row_key (rd_postgres rd) y) rows)))"
proof -
  let ?pg = "rd_postgres rd"
  let ?start = "(map_option Some (dr_inserted_at x), Some (dr_id x))"
  obtain part found where parts:
    "precompute_filter_part rd (dq_external_ids q) (dq_filter_value q) ds (use_materialized ds (dq_point_in_time q)) = Inr part"
    "data_series_rows ds (dq_point_in_time q) (dq_changes_since q) w = Inr found" "part_runs ?pg part = Inr ()"
    "rows = sort_key (row_key ?pg) (filter (part_selects ?pg part) found)"
    using raw by (elim raw_query_parts)
  have "filter (\<lambda>r. at_start ?pg backwards ?start r \<and> part_selects ?pg part r) found =
      filter (\<lambda>r. from_key backwards (row_key ?pg x) (row_key ?pg r)) (filter (part_selects ?pg part) found)"
    using at_start_cursor [OF x] rows unfolding filter_filter parts(4) by (intro filter_cong) auto
  then have "sort_key (row_key ?pg) (filter (\<lambda>r. at_start ?pg backwards ?start r \<and> part_selects ?pg part r) found) =
      filter (\<lambda>r. from_key backwards (row_key ?pg x) (row_key ?pg r)) rows"
    by (simp only: parts(4) filter_sort)
  then show ?thesis
    by (cases backwards) (simp_all add: raw_display_data_point_query_def parts(1-3) parse_cursor [OF pg x]
        start_cursor [OF pg] ordered_rows_def from_key_def [abs_def] rows_upto_def Let_def)
qed

lemma view_serves:
  assumes rows: "selects rd urls history ds w u rows" "readable (rd_postgres rd) rows" and same: "same_params urls u u'"
  shows "serves (data_point_view rd urls history ds w) u' (row_key (rd_postgres rd)) (cursor_text (rd_postgres rd))
    (cursor_rows (use_materialized ds (get_point_in_time rd urls history u))) rows
    (if flag_param urls u ''count'' then Some (length rows) else None)"
proof -
  let ?pg = "rd_postgres rd" and ?V = "cursor_rows (use_materialized ds (get_point_in_time rd urls history u))"
  obtain q where q: "view_query rd urls history u = Inr q"
    and raw: "raw_display_data_point_query rd ds q None None False None w = Inr (Inr rows)"
    using rows(1) by (auto simp: selects_def split: sum.splits)
  have pit: "dq_point_in_time q = get_point_in_time rd urls history u" using q by (auto simp: view_query_def rbind_Inr_iff)
  obtain part found where parts:
    "precompute_filter_part rd (dq_external_ids q) (dq_filter_value q) ds (use_materialized ds (dq_point_in_time q)) = Inr part"
    "data_series_rows ds (dq_point_in_time q) (dq_changes_since q) w = Inr found" "part_runs ?pg part = Inr ()"
    "rows = sort_key (row_key ?pg) (filter (part_selects ?pg part) found)"
    using raw by (elim raw_query_parts)
  have pg: "postgres_ok ?pg" using rows(2) by (simp add: readable_def)
  have V: "set rows \<subseteq> ?V"
    using rows(2) data_series_rows_kind [OF parts(2)] by (auto simp: readable_def cursor_rows_def parts(4) pit list_all_iff)
  have "distinct (map dr_id (filter (part_selects ?pg part) found))"
    using rows(2) by (simp add: readable_def parts(4) distinct_map)
  then have sorted: "sorted_wrt (\<lambda>x y. row_key ?pg x < row_key ?pg y) rows"
    unfolding parts(4) by (rule sorted_rows [OF pg])
  note paged = raw_query_from [OF raw pg, unfolded pit, OF V]
  note view = same_view_query [OF same]
  show ?thesis
    unfolding serves_def
  proof (intro conjI ballI allI)
    fix x y
    assume "x \<in> ?V" "y \<in> ?V"
    then show "cursor_text ?pg x = cursor_text ?pg y \<longleftrightarrow> row_key ?pg x = row_key ?pg y" by (rule cursor_text_eq [OF pg])
  next
    show "pv_total_count (data_point_view rd urls history ds w) u' = Inr (if flag_param urls u ''count'' then Some (length rows) else None)"
      by (simp add: data_point_view_def get_total_count_for_pagination_def view q data_point_count_def parts)
  qed (simp_all add: sorted V encode_cursor cursor_text_ascii data_point_view_def view q get_next_page_query_for_pagination_def
      get_prev_page_query_for_pagination_def raw_query_first [OF raw] paged rows_upto_def should_include_prev_page_for_pagination_def)
qed

lemma list_is_page_response:
  "has_history (ds_backend ds) \<or> \<not> history \<Longrightarrow>
    list_data_points rd urls history ds w request = page_response (data_point_view rd urls history ds w) urls request"
  by (auto simp: list_data_points_def page_response_def Let_def)

lemma view_serves_all:
  assumes "selects rd urls history ds w u rows" "readable (rd_postgres rd) rows" "same_params urls u u'"
  shows "serves (data_point_view rd urls history ds w) u' (row_key (rd_postgres rd)) (cursor_text (rd_postgres rd))
      (cursor_rows (use_materialized ds (get_point_in_time rd urls history u))) rows
      (if flag_param urls u ''count'' then Some (length rows) else None) \<and> get_page_size urls u' = get_page_size urls u"
  using view_serves [OF assms] same_view_query(2) [OF assms(3)] by blast

lemma pages_of_facts:
  assumes "0 < p"
  shows "concat (pages_of p rows) = rows" "list_all (\<lambda>page. length page = p) (butlast (pages_of p rows))"
    "length (last (pages_of p rows)) \<le> p" "pages_of p rows \<noteq> []"
  using assms
proof (induction p rows rule: pages_of.induct)
  case (1 p rows)
  {
    case 1
    then show ?case using "1.IH" by (subst pages_of.simps) auto
  next
    case 2
    then show ?case using "1.IH" by (subst pages_of.simps) auto
  next
    case 3
    then show ?case using "1.IH" by (subst pages_of.simps) auto
  next
    case 4
    show ?case by (subst pages_of.simps) auto
  }
qed

section \<open>Samples\<close>

text \<open>Three data points, in pages of two; a URL is its query parameters.\<close>

definition sample_reading :: "string reading" where
  "sample_reading =
     \<lparr>rd_postgres = \<lparr>pg_accepts = (\<lambda>_ _. True), pg_compare = (\<lambda>_ _ _. True), pg_expands_tuples = False,
        pg_timestamp = (\<lambda>s. Some (if take 1 s = ''-'' then - int (digits_value (drop 1 s)) else int (digits_value s))),
        pg_timestamp_text = int_str, pg_collate = (\<lambda>s. s)\<rparr>,
      rd_parse_datetime = (\<lambda>_. None), rd_parse_float = (\<lambda>_. NaN)\<rparr>"

definition sample_urls :: "(string \<Rightarrow> string list) url_functions" where
  "sample_urls = \<lparr>url_query = (\<lambda>u. u), url_replace = (\<lambda>u k v. u(k := [v])), url_remove = (\<lambda>u k. u(k := []))\<rparr>"

definition sample_request :: "string \<Rightarrow> string list" where
  "sample_request = (\<lambda>_. [])(''pagesize'' := [''2''], ''include_prev'' := [''true''])"

definition sample_series :: DataSeries where
  "sample_series =
     \<lparr>ds_id = ''s'', ds_external_id = ''e'', ds_backend = DYNAMIC_SQL_MATERIALIZED_FLAT_HISTORY, ds_tenant_id = ''t'',
      ds_keys = (\<lambda>_. [])\<rparr>"

definition sample_row :: "string \<Rightarrow> int \<Rightarrow> mat_row" where
  "sample_row i t =
     \<lparr>mr_id = i, mr_external_id = ''x'' @ i, mr_point_in_time = t, mr_inserted_at = t, mr_deleted_at = None,
      mr_sub_clock = Some 1, mr_columns = (\<lambda>_. SqlNull)\<rparr>"

definition sample_tables :: "unit storage_world" where
  "sample_tables =
     \<lparr>sw_registry = \<lparr>fr_next_id = 1, fr_lookups = [], fr_storage = []\<rparr>,
      sw_mat = (\<lambda>_. [sample_row ''c'' 20, sample_row ''b'' 10, sample_row ''a'' 20]), sw_hist = (\<lambda>_. []),
      sw_events = \<lparr>ew_outside = (), ew_now = 0, ew_next_id = 1, ew_events = [], ew_consumers = [], ew_links = [],
        ew_posts = [], ew_tasks = []\<rparr>\<rparr>"

definition sample_shown :: "display_row list" where
  "sample_shown = map display_mat [sample_row ''b'' 10, sample_row ''a'' 20, sample_row ''c'' 20]"

lemma sample_postgres_ok: "postgres_ok (rd_postgres sample_reading)"
proof -
  have digits: "list_all is_digit (nat_str n)" for n by (rule is_digit_nat_str)
  have not_minus: "take 1 (nat_str n) \<noteq> ''-''" for n
  proof -
    have "\<not> is_digit (CHR ''-'')" by (simp add: is_digit_def char_code_def)
    then show ?thesis using digits [of n] by (cases "nat_str n") auto
  qed
  have "ascii (nat_str n)" for n
    using digits [of n] by (auto simp: ascii_def is_digit_def list_all_iff)
  then have "ascii (int_str t)" for t by (simp add: int_str_def ascii_def char_code_def)
  then show ?thesis using not_minus by (auto simp: postgres_ok_def sample_reading_def int_str_def inj_def)
qed

lemma sample_url_laws: "url_laws sample_urls"
  by (simp add: url_laws_def sample_urls_def)

lemma sample_readable: "readable (rd_postgres sample_reading) sample_shown"
  using sample_postgres_ok
  by (simp add: readable_def sample_shown_def display_mat_def sample_row_def ascii_def char_code_def)

lemma sample_selects: "selects sample_reading sample_urls False sample_series sample_tables sample_request sample_shown"
proof -
  have "view_query sample_reading sample_urls False sample_request =
      Inr \<lparr>dq_filter_value = [], dq_external_ids = None, dq_point_in_time = None, dq_changes_since = None\<rparr>"
    by (simp add: view_query_def get_filter_value_def get_param_def sample_urls_def sample_request_def get_external_ids_def
        get_point_in_time_def get_changes_since_def time_query_def)
  moreover have "precompute_filter_part sample_reading None [] sample_series True = Inr
      \<lparr>fp_external_ids = [], fp_user_filter =
        \<lparr>udf_condition = TrueCond, udf_query_params = [], udf_used_data_series_children = []\<rparr>\<rparr>"
    by (simp add: precompute_filter_part_def compute_user_defined_filter_for_raw_query_def MAX_DEPTH_def
        complex_filter_to_sql_filter.simps [of _ _ "PDict []"] api_return_def)
  moreover have "use_materialized sample_series None"
    by (simp add: use_materialized_def can_use_materialized_table_def sample_series_def)
  moreover have "data_series_rows sample_series None None sample_tables =
      Inr (map display_mat [sample_row ''c'' 20, sample_row ''b'' 10, sample_row ''a'' 20])"
    by (simp add: data_series_rows_def can_use_materialized_table_def sample_series_def materialized_rows_def
        sample_tables_def sample_row_def since_ok_def)
  moreover have "sort_key (row_key (rd_postgres sample_reading)) (map display_mat [sample_row ''c'' 20, sample_row ''b'' 10, sample_row ''a'' 20]) =
      sample_shown"
    by (simp add: sample_shown_def row_key_def display_mat_def sample_row_def sample_reading_def less_char_def less_eq_char_def)
  ultimately show ?thesis
    by (simp add: selects_def raw_display_data_point_query_def part_runs_def part_selects_def ordered_rows_def Let_def)
qed

section \<open>Pages\<close>

text \<open>C25: Following the \<open>next\<close> links from the first page on, a client gets all rows of the query, in
  order, each once, in full pages (of 1 to 1000 rows) except for the last one; this ends after at
  most as many requests as there are rows, and one.\<close>

theorem next_links_enumerate:
  assumes "has_history (ds_backend ds) \<or> \<not> history" and "url_laws urls"
    and "selects rd urls history ds w request rows" and "readable (rd_postgres rd) rows"
    and "get_param urls request ''last'' = None"
  shows "\<exists>pages. follow_next (list_data_points rd urls history ds w) (Suc (length rows)) request = Inr pages \<and>
    concat pages = rows \<and> sorted_wrt (\<lambda>x y. row_key (rd_postgres rd) x < row_key (rd_postgres rd) y) (concat pages) \<and>
    list_all (\<lambda>page. length page = get_page_size urls request) (butlast pages) \<and>
    length (last pages) \<le> get_page_size urls request \<and> get_page_size urls request \<in> {1..1000}"
proof -
  let ?view = "data_point_view rd urls history ds w"
  note p = page_size_bounds [of urls request]
  have "list_data_points rd urls history ds w = page_response ?view urls"
    by (rule ext) (rule list_is_page_response [OF assms(1)])
  then have "follow_next (list_data_points rd urls history ds w) (Suc (length rows)) request =
      Inr (pages_of (get_page_size urls request) rows)"
    using follow_next_first [OF assms(2) p(1) view_serves_all [OF assms(3,4)] assms(5)] by simp
  then show ?thesis
    using pages_of_facts [OF p(1), of rows] servesD(1) [OF view_serves [OF assms(3,4) same_params_refl]] p
    by (auto simp: list_all_iff)
qed

theorem next_links_enumerate_witness:
  "\<exists>pages. follow_next (list_data_points sample_reading sample_urls False sample_series sample_tables) 4 sample_request = Inr pages \<and>
    concat pages = sample_shown \<and>
    sorted_wrt (\<lambda>x y. row_key (rd_postgres sample_reading) x < row_key (rd_postgres sample_reading) y) (concat pages) \<and>
    list_all (\<lambda>page. length page = 2) (butlast pages) \<and> length (last pages) \<le> 2 \<and> (2::nat) \<in> {1..1000}"
proof -
  have "get_page_size sample_urls sample_request = 2" by code_simp
  moreover have "Suc (length sample_shown) = 4" by (simp add: sample_shown_def)
  ultimately show ?thesis
    using next_links_enumerate [OF _ sample_url_laws sample_selects sample_readable]
    by (simp add: sample_request_def sample_urls_def get_param_def)
qed

text \<open>The page of a cursor holds the first rows after the row that the cursor was made of, whether or not
  that row is still there, with a link to the next page exactly if there are more.\<close>

theorem page_of_cursor:
  assumes "has_history (ds_backend ds) \<or> \<not> history" and "selects rd urls history ds w request rows"
    and "readable (rd_postgres rd) rows" and "x \<in> cursor_rows (use_materialized ds (get_point_in_time rd urls history request))"
    and "get_param urls request ''last'' = Some (b64encode (cursor_text (rd_postgres rd) x))"
  shows "\<exists>r. list_data_points rd urls history ds w request = Inr r \<and>
    (let later = filter (\<lambda>y. row_key (rd_postgres rd) x < row_key (rd_postgres rd) y) rows; p = get_page_size urls request in
     pr_data r = take p later \<and> (pr_next r \<noteq> None) = (p < length later)) \<and>
    pr_count r = (if flag_param urls request ''count'' then Some (length rows) else None)"
  using response_data [OF view_serves [OF assms(2,3) same_params_refl] refl page_size_bounds(1), where x = "Some x" and urls = urls] assms(4,5)
  by (auto simp: list_is_page_response [OF assms(1)] starts_at_def rows_from_def rows_after_def Let_def next_of_def)

theorem page_of_cursor_witness:
  "\<exists>r. list_data_points sample_reading sample_urls False sample_series sample_tables
      (sample_request(''last'' := [b64encode (cursor_text (rd_postgres sample_reading) (display_mat (sample_row ''gone'' 15)))])) = Inr r \<and>
    map dr_id (pr_data r) = [''a'', ''c''] \<and> pr_next r = None"
proof -
  let ?request = "sample_request(''last'' := [b64encode (cursor_text (rd_postgres sample_reading) (display_mat (sample_row ''gone'' 15)))])"
  have "same_params sample_urls sample_request ?request" by (simp add: same_params_def sample_urls_def)
  then have "selects sample_reading sample_urls False sample_series sample_tables ?request sample_shown"
    using sample_selects by (simp add: selects_def same_view_query)
  moreover have "display_mat (sample_row ''gone'' 15) \<in> cursor_rows (use_materialized sample_series
      (get_point_in_time sample_reading sample_urls False ?request))"
    by (simp add: cursor_rows_def display_mat_def sample_row_def ascii_def char_code_def use_materialized_def
        can_use_materialized_table_def sample_series_def get_point_in_time_def)
  ultimately have "\<exists>r. list_data_points sample_reading sample_urls False sample_series sample_tables ?request = Inr r \<and>
    (let later = filter (\<lambda>y. row_key (rd_postgres sample_reading) (display_mat (sample_row ''gone'' 15)) <
        row_key (rd_postgres sample_reading) y) sample_shown; p = get_page_size sample_urls ?request in
     pr_data r = take p later \<and> (pr_next r \<noteq> None) = (p < length later)) \<and>
    pr_count r = (if flag_param sample_urls ?request ''count'' then Some (length sample_shown) else None)"
    by (intro page_of_cursor sample_readable) (simp_all add: get_param_def sample_urls_def)
  moreover have "get_page_size sample_urls ?request = 2" by code_simp
  moreover have "filter (\<lambda>y. row_key (rd_postgres sample_reading) (display_mat (sample_row ''gone'' 15)) <
        row_key (rd_postgres sample_reading) y) sample_shown = map display_mat [sample_row ''a'' 20, sample_row ''c'' 20]"
    by (simp add: sample_shown_def row_key_def display_mat_def sample_row_def)
  ultimately show ?thesis by (auto simp: Let_def display_mat_def sample_row_def)
qed

text \<open>C26: Going to the next page and following its \<open>previous\<close> link leads back to the same rows, wherever the
  page began.\<close>

theorem previous_undoes_next:
  assumes "has_history (ds_backend ds) \<or> \<not> history" and "url_laws urls"
    and "selects rd urls history ds w request rows" and "readable (rd_postgres rd) rows"
    and "should_include_prev_page_for_pagination urls request"
    and "starts_at urls request (cursor_text (rd_postgres rd)) x"
    and "set_option x \<subseteq> cursor_rows (use_materialized ds (get_point_in_time rd urls history request))"
    and "list_data_points rd urls history ds w request = Inr r" and "pr_next r = Some next_request"
  shows "\<exists>r1 previous r2. list_data_points rd urls history ds w next_request = Inr r1 \<and> pr_previous r1 = Some (Some previous) \<and>
    list_data_points rd urls history ds w previous = Inr r2 \<and> pr_data r2 = pr_data r"
proof -
  let ?view = "data_point_view rd urls history ds w"
  have "pv_include_prev ?view u" if "same_params urls request u" for u
    using assms(5) same_view_query(4) [OF that]
    by (simp add: data_point_view_def should_include_prev_page_for_pagination_def)
  then have served: "serves ?view u (row_key (rd_postgres rd)) (cursor_text (rd_postgres rd))
      (cursor_rows (use_materialized ds (get_point_in_time rd urls history request))) rows
      (if flag_param urls request ''count'' then Some (length rows) else None) \<and>
      get_page_size urls u = get_page_size urls request \<and> pv_include_prev ?view u" if "same_params urls request u" for u
    using view_serves_all [OF assms(3,4) that] that by simp
  show ?thesis
    using back_to_page [OF assms(2) page_size_bounds(1) served assms(6,7)] assms(8,9)
    unfolding list_is_page_response [OF assms(1)] by blast
qed

definition sample_first_response :: "(string \<Rightarrow> string list, display_row) page_response" where
  "sample_first_response =
     (case list_data_points sample_reading sample_urls False sample_series sample_tables sample_request of Inr r \<Rightarrow> r)"

theorem previous_undoes_next_witness:
  "\<exists>u r1 previous r2. pr_next sample_first_response = Some u \<and> map dr_id (pr_data sample_first_response) = [''b'', ''a''] \<and>
    list_data_points sample_reading sample_urls False sample_series sample_tables u = Inr r1 \<and> pr_previous r1 = Some (Some previous) \<and>
    list_data_points sample_reading sample_urls False sample_series sample_tables previous = Inr r2 \<and>
    pr_data r2 = pr_data sample_first_response"
proof -
  have start: "get_param sample_urls sample_request ''last'' = None"
    by (simp add: sample_request_def sample_urls_def get_param_def)
  have two: "get_page_size sample_urls sample_request = 2" by code_simp
  have serves: "serves (data_point_view sample_reading sample_urls False sample_series sample_tables) sample_request
      (row_key (rd_postgres sample_reading)) (cursor_text (rd_postgres sample_reading))
      (cursor_rows (use_materialized sample_series (get_point_in_time sample_reading sample_urls False sample_request)))
      sample_shown (if flag_param sample_urls sample_request ''count'' then Some (length sample_shown) else None)"
    by (rule view_serves [OF sample_selects sample_readable same_params_refl])
  have history: "has_history (ds_backend sample_series) \<or> \<not> False" by simp
  obtain r where r: "list_data_points sample_reading sample_urls False sample_series sample_tables sample_request = Inr r"
      "pr_data r = take 2 sample_shown" "pr_next r \<noteq> None"
    using first_response [OF serves start two]
    by (auto simp: list_is_page_response [OF history] next_of_def sample_shown_def)
  then obtain u where u: "pr_next r = Some u" by auto
  have "should_include_prev_page_for_pagination sample_urls sample_request" by code_simp
  from previous_undoes_next [OF history sample_url_laws sample_selects sample_readable this, of None, OF _ _ r(1) u]
  show ?thesis
    using r u start by (auto simp: sample_first_response_def starts_at_def sample_shown_def display_mat_def sample_row_def)
qed

end
