(* ===== verification/Server_Semaphore.thy ===== *)
theory Server_Semaphore
  imports Prelude
begin

text \<open>
  The semaphores of \<open>core/celery.py\<close>, which limit how many tasks run at a time: counters in Redis
  with an expiry. The two functions first as they run undisturbed, then as the sequence of their
  commands, which the commands of other workers may come between. Time is in seconds.
\<close>

section \<open>Redis\<close>

text \<open>A key's value and when it expires, if it does.\<close>

type_synonym redis = "string \<Rightarrow> (int \<times> int option) option"

definition redis_live :: "int \<Rightarrow> redis \<Rightarrow> string \<Rightarrow> (int \<times> int option) option" where
  "redis_live now r key =
     (case r key of
        Some (v, Some expires) \<Rightarrow> if now < expires then Some (v, Some expires) else None
      | entry \<Rightarrow> entry)"

definition redis_get :: "int \<Rightarrow> redis \<Rightarrow> string \<Rightarrow> int option" where
  "redis_get now r key = map_option fst (redis_live now r key)"

text \<open>\<open>SET key v NX EX timeout\<close>; \<open>INCR\<close> and \<open>DECR\<close> keep the expiry and start from zero, without one.\<close>

definition redis_set_nx_ex :: "int \<Rightarrow> string \<Rightarrow> int \<Rightarrow> int \<Rightarrow> redis \<Rightarrow> redis" where
  "redis_set_nx_ex now key v timeout r =
     (if redis_live now r key = None then r(key \<mapsto> (v, Some (now + timeout))) else r)"

definition redis_add :: "int \<Rightarrow> string \<Rightarrow> int \<Rightarrow> redis \<Rightarrow> int \<times> redis" where
  "redis_add now key d r =
     (case redis_live now r key of
        None \<Rightarrow> (d, r(key \<mapsto> (d, None)))
      | Some (v, expires) \<Rightarrow> (v + d, r(key \<mapsto> (v + d, expires))))"

definition redis_delete :: "string \<Rightarrow> redis \<Rightarrow> redis" where
  "redis_delete key r = r(key := None)"

section \<open>acquire_semaphore and release_semaphore\<close>

definition redis_key :: "string \<Rightarrow> string" where
  "redis_key semaphore_key = ''semaphore:'' @ semaphore_key"

definition acquire_semaphore :: "int \<Rightarrow> string \<Rightarrow> int \<Rightarrow> int \<Rightarrow> redis \<Rightarrow> bool \<times> redis" where
  "acquire_semaphore now semaphore_key concurrency_limit lock_timeout r =
     (let key = redis_key semaphore_key;
          r1 = (if redis_get now r key = None then redis_set_nx_ex now key 0 lock_timeout r else r) in
      case redis_add now key 1 r1 of (count0, r2) \<Rightarrow>
        if concurrency_limit < count0 then (False, snd (redis_add now key (- 1) r2)) else (True, r2))"

definition release_semaphore :: "int \<Rightarrow> string \<Rightarrow> redis \<Rightarrow> redis" where
  "release_semaphore now semaphore_key r =
     (let key = redis_key semaphore_key; r1 = snd (redis_add now key (- 1) r) in
      case redis_get now r1 key of
        None \<Rightarrow> r1
      | Some redis_val \<Rightarrow> if redis_val \<le> 0 then redis_delete key r1 else r1)"

section \<open>Command by command\<close>

text \<open>
  Where a worker is: it acquires from \<open>AcquireGet\<close> on and ends as \<open>Denied\<close> or \<open>Holding\<close>; the next
  step of a worker that holds a permit is the first command of the release.
\<close>

datatype semaphore_pc =
  AcquireGet | AcquireSet | AcquireIncr | AcquireDecr | Denied | Holding | ReleaseGet | ReleaseDelete | Released

definition semaphore_command :: "int \<Rightarrow> string \<Rightarrow> int \<Rightarrow> int \<Rightarrow> redis \<times> semaphore_pc \<Rightarrow> redis \<times> semaphore_pc" where
  "semaphore_command now semaphore_key concurrency_limit lock_timeout s =
     (let key = redis_key semaphore_key; r = fst s in
      case snd s of
        AcquireGet \<Rightarrow> (r, if redis_get now r key = None then AcquireSet else AcquireIncr)
      | AcquireSet \<Rightarrow> (redis_set_nx_ex now key 0 lock_timeout r, AcquireIncr)
      | AcquireIncr \<Rightarrow>
          (case redis_add now key 1 r of (count0, r1) \<Rightarrow> (r1, if concurrency_limit < count0 then AcquireDecr else Holding))
      | AcquireDecr \<Rightarrow> (snd (redis_add now key (- 1) r), Denied)
      | Holding \<Rightarrow> (snd (redis_add now key (- 1) r), ReleaseGet)
      | ReleaseGet \<Rightarrow>
          (r, case redis_get now r key of None \<Rightarrow> Released | Some redis_val \<Rightarrow> if redis_val \<le> 0 then ReleaseDelete else Released)
      | ReleaseDelete \<Rightarrow> (redis_delete key r, Released)
      | pc \<Rightarrow> (r, pc))"

type_synonym semaphore_state = "redis \<times> (nat \<Rightarrow> semaphore_pc)"

definition worker_step :: "int \<Rightarrow> string \<Rightarrow> int \<Rightarrow> int \<Rightarrow> nat \<Rightarrow> semaphore_state \<Rightarrow> semaphore_state" where
  "worker_step now semaphore_key concurrency_limit lock_timeout i s =
     (case semaphore_command now semaphore_key concurrency_limit lock_timeout (fst s, snd s i) of
        (r, pc) \<Rightarrow> (r, (snd s)(i := pc)))"

text \<open>The workers that take a step, in this order.\<close>

definition run_schedule :: "int \<Rightarrow> string \<Rightarrow> int \<Rightarrow> int \<Rightarrow> nat list \<Rightarrow> semaphore_state \<Rightarrow> semaphore_state" where
  "run_schedule now semaphore_key concurrency_limit lock_timeout schedule s =
     fold (worker_step now semaphore_key concurrency_limit lock_timeout) schedule s"

definition nothing_acquired :: semaphore_state where
  "nothing_acquired = (\<lambda>_. None, \<lambda>_. AcquireGet)"

section \<open>Undisturbed workers\<close>

text \<open>
  Acquiring and releasing undisturbed; \<open>holders\<close> are the permits given and not yet released. Time
  may pass, but not beyond the expiry of the key while permits are held.
\<close>

inductive semaphore_run :: "string \<Rightarrow> int \<Rightarrow> int \<Rightarrow> redis \<Rightarrow> int \<Rightarrow> int \<Rightarrow> bool"
  for semaphore_key :: string and concurrency_limit :: int and lock_timeout :: int where
  start: "semaphore_run semaphore_key concurrency_limit lock_timeout (\<lambda>_. None) 0 now"
| acquired: "semaphore_run semaphore_key concurrency_limit lock_timeout r holders now \<Longrightarrow>
    acquire_semaphore now semaphore_key concurrency_limit lock_timeout r = (True, r') \<Longrightarrow>
    semaphore_run semaphore_key concurrency_limit lock_timeout r' (holders + 1) now"
| denied: "semaphore_run semaphore_key concurrency_limit lock_timeout r holders now \<Longrightarrow>
    acquire_semaphore now semaphore_key concurrency_limit lock_timeout r = (False, r') \<Longrightarrow>
    semaphore_run semaphore_key concurrency_limit lock_timeout r' holders now"
| released: "semaphore_run semaphore_key concurrency_limit lock_timeout r holders now \<Longrightarrow> 0 < holders \<Longrightarrow>
    semaphore_run semaphore_key concurrency_limit lock_timeout (release_semaphore now semaphore_key r) (holders - 1) now"
| time: "semaphore_run semaphore_key concurrency_limit lock_timeout r holders now \<Longrightarrow> now \<le> later \<Longrightarrow>
    0 < holders \<longrightarrow> redis_live later r (redis_key semaphore_key) \<noteq> None \<Longrightarrow>
    semaphore_run semaphore_key concurrency_limit lock_timeout r holders later"

text \<open>The counter is the number of permits that are held; without any, it may be gone or zero.\<close>

definition counts_holders :: "redis \<Rightarrow> string \<Rightarrow> int \<Rightarrow> int \<Rightarrow> bool" where
  "counts_holders r key holders now \<longleftrightarrow>
     0 \<le> holders \<and> (case redis_get now r key of None \<Rightarrow> holders = 0 | Some v \<Rightarrow> v = holders)"

lemma live_after_add:
  "redis_live now r key = None \<Longrightarrow> redis_add now key d r = (d, r(key \<mapsto> (d, None)))"
  "redis_live now r key = Some (v, e) \<Longrightarrow> redis_add now key d r = (v + d, r(key \<mapsto> (v + d, e)))"
  by (simp_all add: redis_add_def)

lemma live_expiry: "redis_live now r key = Some (v, Some e) \<Longrightarrow> now < e"
  by (auto simp: redis_live_def split: option.splits if_splits)

lemma acquire_counts:
  assumes "counts_holders r (redis_key k) holders now" and "0 < timeout"
    and "acquire_semaphore now k limit timeout r = (ok, r')"
  shows "counts_holders r' (redis_key k) (if ok then holders + 1 else holders) now \<and> ok = (holders < limit)"
proof (cases "redis_live now r (redis_key k)")
  case None
  then have "holders = 0" using assms(1) by (simp add: counts_holders_def redis_get_def)
  moreover have "redis_live now (r(redis_key k \<mapsto> (v, Some (now + timeout)))) (redis_key k) = Some (v, Some (now + timeout))" for v
    using assms(2) by (simp add: redis_live_def)
  ultimately show ?thesis
    using assms(3) None assms(2)
    by (auto simp: acquire_semaphore_def redis_get_def redis_set_nx_ex_def redis_add_def counts_holders_def Let_def
        redis_live_def split: if_splits)
next
  case (Some entry)
  obtain v e where entry: "entry = (v, e)" by (cases entry)
  have v: "v = holders" "0 \<le> holders" using assms(1) Some by (simp_all add: counts_holders_def redis_get_def entry)
  have live: "redis_live now (r(redis_key k \<mapsto> (u, e))) (redis_key k) = Some (u, e)" for u
    using Some live_expiry [of now r _ v] by (cases e) (auto simp: redis_live_def entry)
  show ?thesis
    using assms(3) v
    by (auto simp: acquire_semaphore_def redis_get_def live_after_add(2) [OF Some [unfolded entry]] Some [unfolded entry]
        live live_after_add(2) [OF live] counts_holders_def Let_def split: if_splits)
qed

lemma release_counts:
  assumes "counts_holders r (redis_key k) holders now" and "0 < holders"
  shows "counts_holders (release_semaphore now k r) (redis_key k) (holders - 1) now"
proof -
  obtain e where live: "redis_live now r (redis_key k) = Some (holders, e)"
    using assms by (auto simp: counts_holders_def redis_get_def split: option.splits)
  have live1: "redis_live now (r(redis_key k \<mapsto> (u, e))) (redis_key k) = Some (u, e)" for u
    using live live_expiry [of now r _ holders] by (cases e) (auto simp: redis_live_def)
  have gone: "redis_live now (redis_delete key r1) key = None" for key r1 by (simp add: redis_live_def redis_delete_def)
  show ?thesis
    using assms(2)
    by (auto simp: release_semaphore_def live_after_add(2) [OF live] redis_get_def live1 gone counts_holders_def Let_def)
qed

section \<open>Properties\<close>

text \<open>C38: As long as workers do not come between the commands of each other and no key expires while
  permits are held, at most \<open>concurrency_limit\<close> tasks hold a permit at any time; a permit is refused
  only if that many are held.\<close>

theorem semaphore_limits_holders:
  assumes "semaphore_run k limit timeout r holders now" and "0 < timeout" and "0 \<le> limit"
  shows "0 \<le> holders \<and> holders \<le> limit \<and> fst (acquire_semaphore now k limit timeout r) = (holders < limit)"
proof -
  have "counts_holders r (redis_key k) holders now \<and> holders \<le> limit"
    using assms(1)
  proof induction
    case (start now)
    then show ?case using assms(3) by (simp add: counts_holders_def redis_get_def redis_live_def)
  next
    case (acquired r holders now r')
    then show ?case using acquire_counts [of r k holders now timeout limit True r'] assms(2) by auto
  next
    case (denied r holders now r')
    then show ?case using acquire_counts [of r k holders now timeout limit False r'] assms(2) by auto
  next
    case (released r holders now)
    then show ?case using release_counts [of r k holders now] by auto
  next
    case (time r holders now later)
    have "redis_live later r (redis_key k) \<noteq> None \<Longrightarrow>
        redis_live later r (redis_key k) = redis_live now r (redis_key k)"
      using time(2) by (auto simp: redis_live_def split: option.splits if_splits)
    then show ?case using time by (cases "redis_live later r (redis_key k)") (auto simp: counts_holders_def redis_get_def)
  qed
  moreover obtain ok r' where "acquire_semaphore now k limit timeout r = (ok, r')" by fastforce
  ultimately show ?thesis using acquire_counts [OF _ assms(2), of r k holders now limit ok r'] by (auto simp: counts_holders_def)
qed

theorem semaphore_limits_holders_witness:
  "\<exists>r. 0 \<le> (1::int) \<and> (1::int) \<le> 1 \<and> \<not> fst (acquire_semaphore 0 ''x'' 1 60 r)"
proof -
  obtain r where "acquire_semaphore 0 ''x'' 1 60 (\<lambda>_. None) = (True, r)"
    by (simp add: acquire_semaphore_def redis_get_def redis_live_def redis_set_nx_ex_def redis_add_def)
  then have "semaphore_run ''x'' 1 60 r (0 + 1) 0" by (rule semaphore_run.acquired [OF semaphore_run.start])
  from semaphore_limits_holders [OF this] show ?thesis by auto
qed

lemma undisturbed_acquire:
  assumes "pcs i = AcquireGet"
  shows "\<exists>n. case run_schedule now k limit timeout (replicate n i) (r, pcs) of (r', pcs') \<Rightarrow>
    acquire_semaphore now k limit timeout r = (pcs' i = Holding, r') \<and> pcs' i \<in> {Holding, Denied}"
proof -
  let ?key = "redis_key k"
  let ?r1 = "if redis_get now r ?key = None then redis_set_nx_ex now ?key 0 timeout r else r"
  let ?m = "if redis_get now r ?key = None then 3 else 2 :: nat"
  let ?n = "if limit < fst (redis_add now ?key 1 ?r1) then ?m + 1 else ?m"
  show ?thesis
    using assms
    by (intro exI [of _ ?n]) (auto simp: run_schedule_def worker_step_def semaphore_command_def acquire_semaphore_def Let_def
        eval_nat_numeral split: prod.splits)
qed

text \<open>The commands of other workers may come between those of a release, and then the limit does not
  hold, though nothing expires: with one permit, a worker that releases it has read a zero, a second
  one acquires, the first one deletes the counter, a third one acquires too. Undisturbed, the same
  commands do what \<open>acquire_semaphore\<close> does.\<close>

theorem semaphore_race:
  "(case run_schedule 0 ''x'' 1 60 [1, 1, 1, 1, 1, 2, 2, 1, 3, 3, 3] nothing_acquired of (r, pcs) \<Rightarrow>
      pcs 2 = Holding \<and> pcs 3 = Holding) \<and>
   (\<forall>now k limit timeout r pcs. \<exists>n. case run_schedule now k limit timeout (replicate n i) (r, pcs(i := AcquireGet)) of (r', pcs') \<Rightarrow>
      acquire_semaphore now k limit timeout r = (pcs' i = Holding, r'))"
proof (intro conjI allI)
  show "case run_schedule 0 ''x'' 1 60 [1, 1, 1, 1, 1, 2, 2, 1, 3, 3, 3] nothing_acquired of (r, pcs) \<Rightarrow>
      pcs 2 = Holding \<and> pcs 3 = Holding"
    by code_simp
next
  fix now k limit timeout r pcs
  show "\<exists>n. case run_schedule now k limit timeout (replicate n i) (r, pcs(i := AcquireGet)) of (r', pcs') \<Rightarrow>
      acquire_semaphore now k limit timeout r = (pcs' i = Holding, r')"
    using undisturbed_acquire [of "pcs(i := AcquireGet)" i now k limit timeout r] by (auto split: prod.splits)
qed

end
