(* ===== verification/Server_Bulk.thy ===== *)
theory Server_Bulk
  imports Server_Storage Server_Encoding Server_Semaphore
begin

text \<open>
  Writing data points in bulk: \<open>create_bulk\<close> of \<open>storage_view_adapter.py\<close>, the request of
  \<open>views/datapoint/bulk.py\<close> and the asynchronous tasks of \<open>tasks/persist_data_point.py\<close>. A request is
  written at once or kept as a row of \<open>BulkInsertTaskData\<close>, which a worker writes later; workers are
  told of it by messages, which may get lost or come twice, so old rows are announced again. The
  validation of a data point and what comes back from a JSON column are parameters.
\<close>

section \<open>Configuration and state\<close>

text \<open>The settings of \<open>environment.py\<close> that the code reads; ages and timeouts in seconds.\<close>

record bulk_config =
  BULK_TASK_SIZE :: nat
  BULK_BATCH_SIZE :: int
  ASYNC_CONCURRENCY_PER_DATA_SERIES :: int
  ASYNC_CONCURRENCY_LOCK_TIMEOUT :: int
  ASYNC_CONCURRENCY_MAX_RETRY_DELAY :: nat
  REQUEUE_AGE :: int
  REQUEUE_COOLDOWN :: int

record BulkInsertTaskData =
  bt_id :: nat
  bt_data_series :: string
  bt_stamp :: stamp
  bt_validated_datas :: "ValidatedData list"
  bt_serialization_keys :: DataPointSerializationKeys

text \<open>
  \<open>bw_series\<close> finds a data series by its id, \<open>bw_messages\<close> are the ids of the task data that workers have
  been sent. \<open>bw_now\<close> is the time in microseconds.
\<close>

record 's bulk_world =
  bw_store :: "'s storage_world"
  bw_series :: "string \<Rightarrow> DataSeries"
  bw_tasks :: "BulkInsertTaskData list"
  bw_next_task :: nat
  bw_redis :: redis
  bw_messages :: "nat list"
  bw_now :: int

type_synonym ('s, 'a) bulk_run = "('s bulk_world, 'a) api"

definition on_store :: "('s, 'a) storage_run \<Rightarrow> ('s, 'a) bulk_run" where
  "on_store m w = (case m (bw_store w) of (r, s) \<Rightarrow> (r, w\<lparr>bw_store := s\<rparr>))"

definition on_redis :: "(int \<Rightarrow> redis \<Rightarrow> 'a \<times> redis) \<Rightarrow> ('s, 'a) bulk_run" where
  "on_redis f w = (case f (bw_now w div 1000000) (bw_redis w) of (x, r) \<Rightarrow> (Inr x, w\<lparr>bw_redis := r\<rparr>))"

text \<open>\<open>transaction.atomic()\<close>: Redis, the messages and the sequence of ids are not part of it.\<close>

definition bulk_atomic :: "('s, 'a) bulk_run \<Rightarrow> ('s, 'a) bulk_run" where
  "bulk_atomic m w =
     (case m w of
        (Inl e, w1) \<Rightarrow>
          (Inl e, w1\<lparr>bw_store := snd (atomic (\<lambda>_. (Inl e :: unit result, bw_store w1)) (bw_store w)), bw_tasks := bw_tasks w\<rparr>)
      | (Inr x, w1) \<Rightarrow> (Inr x, w1))"

text \<open>\<open>try: m finally: cleanup\<close>; what the cleanup does may depend on how \<open>m\<close> has ended.\<close>

definition try_finally :: "('s, 'a) bulk_run \<Rightarrow> ('a result \<Rightarrow> ('s, unit) bulk_run) \<Rightarrow> ('s, 'a) bulk_run" where
  "try_finally m cleanup w = (case m w of (r, w1) \<Rightarrow> (case cleanup r w1 of (Inl e, w2) \<Rightarrow> (Inl e, w2) | (Inr _, w2) \<Rightarrow> (r, w2)))"

section \<open>create_bulk\<close>

text \<open>
  \<open>is_valid\<close> of the serializer with \<open>many=True\<close>: validation errors are collected, any other exception
  gets out at once.
\<close>

fun validate_batch :: "(pyval \<Rightarrow> ValidatedData result) \<Rightarrow> pyval list \<Rightarrow> (pyval list \<times> bool \<times> ValidatedData list) result" where
  "validate_batch validate_one [] = Inr ([], True, [])"
| "validate_batch validate_one (d # batch) =
     (case validate_one d of
        Inr vd \<Rightarrow>
          rbind (validate_batch validate_one batch) (\<lambda>(errors, valid, vds). Inr (PDict [] # errors, valid, vd # vds))
      | Inl (ValidationError e) \<Rightarrow>
          rbind (validate_batch validate_one batch) (\<lambda>(errors, valid, vds). Inr (e # errors, False, vds))
      | Inl e \<Rightarrow> Inl e)"

definition serializer_validated :: "(pyval \<Rightarrow> ValidatedData result) \<Rightarrow> pyval list \<Rightarrow> ValidatedData list result" where
  "serializer_validated validate_one batch =
     rbind (validate_batch validate_one batch) (\<lambda>(errors, valid, vds).
       if valid then Inr vds else Inl (ValidationError (PList errors)))"

text \<open>The keys of \<open>Counter\<close> are in the order of their first occurrence.\<close>

definition duplicated :: "'a list \<Rightarrow> 'a list" where
  "duplicated xs = filter (\<lambda>x. 1 < count_list xs x) (rev (remdups (rev xs)))"

definition check_bulk :: "bulk_config \<Rightarrow> ValidatedData list \<Rightarrow> unit result" where
  "check_bulk cfg validated_datas =
     (let duplicated_external_ids = duplicated (map vd_external_id validated_datas) in
      if duplicated_external_ids \<noteq> [] then
        Inl (ValidationError (PStr (''the following external_ids were duplicated in this batch: ['' @
          join '','' duplicated_external_ids @ '']'')))
      else if BULK_TASK_SIZE cfg < length validated_datas then
        
        Inl (ValidationError (PStr (''number of datapoints in request exceed limit of '' @ nat_str (BULK_TASK_SIZE cfg))))
      else Inr ())"

definition json_field :: "(pyval \<Rightarrow> pyval) \<Rightarrow> ValidatedData \<Rightarrow> ValidatedData" where
  "json_field json vd = vd\<lparr>vd_payload := map (\<lambda>(k, v). (k, json v)) (vd_payload vd)\<rparr>"

definition create_task_data ::
  "(pyval \<Rightarrow> pyval) \<Rightarrow> DataSeries \<Rightarrow> stamp \<Rightarrow> ValidatedData list \<Rightarrow> ('s, nat) bulk_run" where
  "create_task_data json ds st list_chunk w =
     (let task_data = \<lparr>bt_id = bw_next_task w, bt_data_series = ds_id ds, bt_stamp = st,
            bt_validated_datas = map (json_field json) list_chunk, bt_serialization_keys = ds_keys ds\<rparr> in
      (Inr (bw_next_task w), w\<lparr>bw_tasks := bw_tasks w @ [task_data], bw_next_task := bw_next_task w + 1\<rparr>))"

definition delay :: "nat list \<Rightarrow> ('s, unit) bulk_run" where
  "delay task_data_ids = api_modify (\<lambda>w. w\<lparr>bw_messages := bw_messages w @ task_data_ids\<rparr>)"

text \<open>The callback of \<open>on_commit\<close> runs after the transaction, and only if it succeeds.\<close>

definition create_bulk ::
  "bulk_config \<Rightarrow> 's publisher \<Rightarrow> file_storage \<Rightarrow> (pyval \<Rightarrow> pyval) \<Rightarrow> (pyval \<Rightarrow> ValidatedData result) \<Rightarrow>
     DataSeries \<Rightarrow> stamp \<Rightarrow> pyval list \<Rightarrow> bool \<Rightarrow> ('s, string list) bulk_run" where
  "create_bulk cfg pub storage json validate_one ds st batch asynchronous =
     api_bind (bulk_atomic
       (api_bind (api_lift (serializer_validated validate_one batch)) (\<lambda>validated_datas.
        api_bind (api_lift (check_bulk cfg validated_datas)) (\<lambda>_.
        api_bind
          (if asynchronous then api_bind (create_task_data json ds st validated_datas) (\<lambda>i. api_return [i])
           else api_bind (on_store (persist_data_point_chunk pub storage (BULK_BATCH_SIZE cfg) ds st validated_datas))
             (\<lambda>_. api_return []))
          (\<lambda>task_data_ids. api_return (task_data_ids, map vd_external_id validated_datas))))))
       (\<lambda>(task_data_ids, created_external_ids).
     api_bind (delay task_data_ids) (\<lambda>_. api_return created_external_ids))"

section \<open>The request\<close>

text \<open>
  \<open>post\<close> of the bulk view: \<open>async_header\<close> is the header \<open>X-BULK-DATA-POINT-ASYNC\<close>, \<open>had_files\<close> that the
  request came with files; \<open>truth\<close> is Python's \<open>bool\<close>.
\<close>

definition post_bulk ::
  "bulk_config \<Rightarrow> 's publisher \<Rightarrow> file_storage \<Rightarrow> (pyval \<Rightarrow> pyval) \<Rightarrow> (pyval \<Rightarrow> ValidatedData result) \<Rightarrow> (pyval \<Rightarrow> bool) \<Rightarrow>
     DataSeries \<Rightarrow> stamp \<Rightarrow> pydict \<Rightarrow> string option \<Rightarrow> bool \<Rightarrow> ('s, string list) bulk_run" where
  "post_bulk cfg pub storage json validate_one truth ds st data async_header had_files =
     (case map_of data ''batch'' of
        None \<Rightarrow> 
          api_raise (ValidationError (PStr ''batch was not in request data. If you are using CSV,check if it is formatted correctly''))
      | Some (PList items) \<Rightarrow>
          (let async_in_request = (case map_of data ''async'' of
               Some v \<Rightarrow> truth v | None \<Rightarrow> async_header = Some ''true'') in
           create_bulk cfg pub storage json validate_one ds st items (async_in_request \<and> \<not> had_files))
      | Some _ \<Rightarrow> api_raise (ValidationError (PStr ''expected batch to be a list'')))"

section \<open>async_persist_data_point_chunk\<close>

definition requeue_semaphore :: "nat option \<Rightarrow> string" where
  "requeue_semaphore task_data_id =
     ''bulk-requeue-taskdata-id:task_data:'' @ (case task_data_id of None \<Rightarrow> ''None'' | Some i \<Rightarrow> nat_str i)"

definition series_semaphore :: "string \<Rightarrow> string" where
  "series_semaphore data_series_id = ''async_persist_data_point_chunk:dataseries:'' @ data_series_id"

definition acquire :: "string \<Rightarrow> int \<Rightarrow> int \<Rightarrow> ('s, bool) bulk_run" where
  "acquire semaphore_key limit timeout = on_redis (\<lambda>now. acquire_semaphore now semaphore_key limit timeout)"

definition release :: "string \<Rightarrow> ('s, unit) bulk_run" where
  "release semaphore_key = on_redis (\<lambda>now r. ((), release_semaphore now semaphore_key r))"

definition delete_task_data :: "nat \<Rightarrow> ('s, unit) bulk_run" where
  "delete_task_data task_data_id =
     api_modify (\<lambda>w. w\<lparr>bw_tasks := filter (\<lambda>t. bt_id t \<noteq> task_data_id) (bw_tasks w)\<rparr>)"

text \<open>
  The row is locked while the transaction runs and a second worker skips it, so a row that another
  worker is at is like one that is not there (\<open>claimed\<close>). Django's \<open>delete\<close> sets the id of the deleted
  instance to \<open>None\<close>, which is the id that the cleanup then finds. \<open>self.retry\<close> raises an exception and sends the
  message again.
\<close>

definition async_persist_data_point_chunk ::
  "bulk_config \<Rightarrow> 's publisher \<Rightarrow> file_storage \<Rightarrow> bool \<Rightarrow> nat \<Rightarrow> nat \<Rightarrow> ('s, unit) bulk_run" where
  "async_persist_data_point_chunk cfg pub storage claimed task_data_reference_id retries =
     bulk_atomic
       (api_bind (api_get (\<lambda>w. (find (\<lambda>t. bt_id t = task_data_reference_id) (bw_tasks w), bw_series w))) (\<lambda>(found, series).
          case (if claimed then None else found) of
            None \<Rightarrow> api_return ()
          | Some task_data \<Rightarrow>
              api_bind (acquire (requeue_semaphore (Some (bt_id task_data))) 1 (REQUEUE_COOLDOWN cfg)) (\<lambda>_.
              api_bind (acquire (series_semaphore (bt_data_series task_data)) (ASYNC_CONCURRENCY_PER_DATA_SERIES cfg)
                  (ASYNC_CONCURRENCY_LOCK_TIMEOUT cfg)) (\<lambda>ok.
                if \<not> ok then
                  api_bind (delay [task_data_reference_id]) (\<lambda>_.
                    api_raise (Retry (min (2 ^ retries) (ASYNC_CONCURRENCY_MAX_RETRY_DELAY cfg))))
                else try_finally
                  (api_bind (on_store (persist_data_point_chunk pub storage (BULK_BATCH_SIZE cfg)
                       ((series (bt_data_series task_data))\<lparr>ds_keys := bt_serialization_keys task_data\<rparr>)
                       (bt_stamp task_data) (bt_validated_datas task_data))) (\<lambda>_.
                     delete_task_data (bt_id task_data)))
                  (\<lambda>ended. api_bind (release (series_semaphore (bt_data_series task_data))) (\<lambda>_.
                     release (requeue_semaphore (case ended of Inr _ \<Rightarrow> None | Inl _ \<Rightarrow> Some (bt_id task_data)))))))))"

definition wake_up_requeue_persist_data_point_chunk :: "bulk_config \<Rightarrow> ('s, unit) bulk_run" where
  "wake_up_requeue_persist_data_point_chunk cfg =
     api_bind (api_get (\<lambda>w. map bt_id (sort_key bt_id
         (filter (\<lambda>t. st_point_in_time (bt_stamp t) < bw_now w - REQUEUE_AGE cfg * 1000000) (bw_tasks w))))) (\<lambda>ids.
     api_for (\<lambda>task_data_id.
       api_bind (acquire (requeue_semaphore (Some task_data_id)) 1 (REQUEUE_COOLDOWN cfg)) (\<lambda>ok.
         api_when ok (delay [task_data_id]))) ids)"

end
