(* ===== verification/Server_Bulk_Correct.thy ===== *)
theory Server_Bulk_Correct
  imports Server_Bulk Server_Storage_Order
begin

text \<open>
  Bulk writes are not lost: whatever happens to messages, semaphores and workers, each accepted
  data point is either in the table or in a row of \<open>BulkInsertTaskData\<close>, and the table shows the newest
  of what was written. A request that is refused leaves nothing behind, and old rows are announced
  to the workers again.
\<close>

section \<open>Writing a chunk\<close>

definition filled :: "DataSeries \<Rightarrow> ValidatedData \<Rightarrow> ValidatedData" where
  "filled ds = set_missing_structure_elements_to_none_with_flattened_keys (flatten_serialization_keys (ds_keys ds))"

lemma all_values_sql:
  "achieves (\<lambda>_. True) (api_map (row_values storage ds st) vds) (\<lambda>vals _. vals = map (stored_values ds) vds)"
proof -
  have "achieves (\<lambda>_. True) (row_values storage ds st vd) (\<lambda>vals _. True \<and> vals = stored_values ds vd)" for vd
    using row_values_sql by simp
  then have "achieves (\<lambda>_. True) (api_map (row_values storage ds st) vds)
      (\<lambda>vals _. True \<and> list_all2 (\<lambda>vd v. v = stored_values ds vd) vds vals)"
    by (rule achieves_map_collect) (rule achieves_constant)
  then show ?thesis
    by (rule achieves_weaken) (auto simp: list_all2_conv_all_nth intro: nth_equalityI)
qed

lemma write_rows_mat:
  "api_for (write_row False ds st) (zip vds (map (stored_values ds) vds)) w = (Inr u, w') \<Longrightarrow>
    sw_mat w' (mat_table ds) = fold (\<lambda>vd. put_write ds (st, vd)) vds (sw_mat w (mat_table ds))"
proof (induction vds arbitrary: w)
  case (Cons vd vds)
  then obtain v w1 where run: "write_row False ds st (vd, stored_values ds vd) w = (Inr v, w1)"
      "api_for (write_row False ds st) (zip vds (map (stored_values ds) vds)) w1 = (Inr u, w')"
    by (auto dest: api_bind_Inr_split)
  show ?case
    using write_row_mat [OF run(1)] Cons.IH [OF run(2)] by (simp add: put_write_def stored_row_def)
qed (simp add: api_return_def)

lemma write_all_mat:
  "achieves (\<lambda>w. sw_mat w = mat) (insert_or_update_data_points_impl storage False False ds st vds)
    (\<lambda>_ w. sw_mat w (mat_table ds) = fold (\<lambda>vd. put_write ds (st, vd)) vds (mat (mat_table ds)))"
proof -
  have mark: "achieves (\<lambda>w. x = y \<and> sw_mat w = mat) (api_when b (registry_update f)) (\<lambda>_ w. x = y \<and> sw_mat w = mat)"
    for b f and x y :: "(string \<times> sql_value) list list"
    by (auto simp: achieves_def api_when_def registry_update_def on_registry_def api_return_def)
  have rows: "achieves (\<lambda>w. x = map (stored_values ds) vds \<and> sw_mat w = mat) (api_for (write_row False ds st) (zip vds x))
      (\<lambda>_ w. sw_mat w (mat_table ds) = fold (\<lambda>vd. put_write ds (st, vd)) vds (mat (mat_table ds)))" for x
    by (rule achieves_assume) (auto simp: achieves_def dest: write_rows_mat)
  show ?thesis
    unfolding insert_or_update_data_points_impl_def simp_thms if_False
    by (rule achieves_bind [OF on_registry_result [OF all_values_sql]], rule achieves_bind [OF mark], rule rows)
qed

lemma create_all_mat:
  assumes "create_data_points pub storage False ds st vds w = (Inr x, w')"
  shows "sw_mat w' (mat_table ds) = fold (\<lambda>vd. put_write ds (st, vd)) vds (sw_mat w (mat_table ds))"
proof -
  let ?Q = "\<lambda>w'. sw_mat w' (mat_table ds) = fold (\<lambda>vd. put_write ds (st, vd)) vds (sw_mat w (mat_table ds))"
  have all: "achieves (\<lambda>w1. sw_mat w1 = sw_mat w) (insert_or_update_data_points_impl storage False False ds st vds) (\<lambda>_. ?Q)"
    by (rule write_all_mat)
  have pub: "achieves ?Q (publish pub ds st payload event_type) (\<lambda>_. ?Q)" for payload event_type
    by (auto simp: achieves_def publish_def)
  have "achieves (\<lambda>w1. sw_mat w1 = sw_mat w) (create_data_points pub storage False ds st vds) (\<lambda>_. ?Q)"
    unfolding create_data_points_def Let_def insert_or_update_data_points_def if_False
    by (cases "ds_backend ds \<in> {DYNAMIC_SQL_NO_HISTORY, DYNAMIC_SQL_MATERIALIZED_FLAT_HISTORY}";
        simp only: if_True if_False not_True_eq_False not_False_eq_True;
        (rule achieves_raise achieves_bind [OF all achieves_bind [OF pub achieves_return]])) auto
  from achievesD [OF this assms] show ?thesis by simp
qed

lemma chunks_mat:
  "api_for (\<lambda>chunk. api_bind (api_lift chunk) (\<lambda>chunk_list. api_ignore (create_data_points pub storage False ds st chunk_list)))
      (data_chunks n vds) w = (Inr u, w') \<Longrightarrow>
    sw_mat w' (mat_table ds) = fold (\<lambda>vd. put_write ds (st, vd)) vds (sw_mat w (mat_table ds))"
proof (induction n vds arbitrary: w rule: data_chunks.induct)
  case (1 n)
  then show ?case by (simp add: api_return_def)
next
  case (2 n vd vds)
  show ?case
  proof (cases "n < 1")
    case True
    with 2 show ?thesis by (simp add: api_bind_def api_lift_def)
  next
    case False
    let ?first = "vd # take (nat (n - 1)) vds" and ?rest = "drop (nat (n - 1)) vds"
    obtain v w1 where run: "api_ignore (create_data_points pub storage False ds st ?first) w = (Inr v, w1)"
        "api_for (\<lambda>chunk. api_bind (api_lift chunk) (\<lambda>chunk_list. api_ignore (create_data_points pub storage False ds st chunk_list)))
          (data_chunks n ?rest) w1 = (Inr u, w')"
      using "2.prems" False by (auto simp: lift_bind dest: api_bind_Inr_split)
    from run(1) obtain x where "create_data_points pub storage False ds st ?first w = (Inr x, w1)"
      by (auto simp: api_ignore_def api_return_def dest!: api_bind_Inr_split)
    from create_all_mat [OF this] "2.IH" [OF False run(2)]
    have "sw_mat w' (mat_table ds) = fold (\<lambda>vd. put_write ds (st, vd)) (?first @ ?rest) (sw_mat w (mat_table ds))"
      by (simp only: fold_append comp_apply)
    then show ?thesis by (simp only: append_Cons append_take_drop_id)
  qed
qed

lemma persist_mat:
  "persist_data_point_chunk pub storage n ds st vds w = (Inr u, w') \<Longrightarrow>
    sw_mat w' (mat_table ds) = fold (put_write ds) (map (\<lambda>vd. (st, filled ds vd)) vds) (sw_mat w (mat_table ds))"
  using chunks_mat [of pub storage ds st n "map (filled ds) vds" w u w']
  by (simp add: persist_data_point_chunk_def filled_def fold_map comp_def)

lemma fold_put_write_won_by:
  assumes "won_by ds W mat" and "\<And>x. x \<in> W \<union> set xs \<Longrightarrow> vd_external_id (snd x) = ext (vd_id (snd x))"
  shows "won_by ds (W \<union> set xs) (fold (put_write ds) xs mat)"
  using assms
proof (induction xs arbitrary: W mat)
  case (Cons x xs)
  have "won_by ds (insert x W) (put_write ds x mat)"
    using put_write_won_by [OF Cons.prems(1), of x] Cons.prems(2) by simp
  from Cons.IH [OF this] Cons.prems(2) show ?case by simp
qed simp

section \<open>What no operation changes\<close>

text \<open>Data series stay as they are and ids of task data are not given twice.\<close>

definition frame :: "('s bulk_world, 'a) api \<Rightarrow> bool" where
  "frame m \<longleftrightarrow> (\<forall>w r w'. m w = (r, w') \<longrightarrow> bw_series w' = bw_series w \<and> bw_next_task w \<le> bw_next_task w')"

named_theorems frames \<open>operations that keep the frame\<close>

lemma frameI: "(\<And>w r w'. m w = (r, w') \<Longrightarrow> bw_series w' = bw_series w \<and> bw_next_task w \<le> bw_next_task w') \<Longrightarrow> frame m"
  unfolding frame_def by blast

lemma frameD: "frame m \<Longrightarrow> m w = (r, w') \<Longrightarrow> bw_series w' = bw_series w \<and> bw_next_task w \<le> bw_next_task w'"
  unfolding frame_def by blast

lemma frame_bind [frames]: "frame m \<Longrightarrow> (\<And>x. frame (f x)) \<Longrightarrow> frame (api_bind m f)"
  by (rule frameI) (fastforce simp: api_bind_def dest: frameD split: prod.splits sum.splits)

lemma frame_basic [frames]: "frame (api_return x)" "frame (api_raise e)" "frame (api_lift r)" "frame (api_get f)"
  by (auto simp: frame_def api_simps)

lemma frame_for [frames]: "(\<And>x. frame (f x)) \<Longrightarrow> frame (api_for f xs)"
  by (induction xs) (auto intro: frames)

lemma frame_when [frames]: "frame m \<Longrightarrow> frame (api_when b m)"
  by (simp add: api_when_def frame_basic)

lemma frame_atomic [frames]: "frame m \<Longrightarrow> frame (bulk_atomic m)"
  by (rule frameI) (fastforce simp: bulk_atomic_def dest: frameD split: prod.splits sum.splits)

lemma frame_finally [frames]: "frame m \<Longrightarrow> (\<And>r. frame (cleanup r)) \<Longrightarrow> frame (try_finally m cleanup)"
  by (rule frameI) (fastforce simp: try_finally_def dest: frameD split: prod.splits sum.splits)

lemma frame_operations [frames]:
  "frame (on_store s)" "frame (acquire k limit timeout)" "frame (release k)" "frame (delete_task_data i)" "frame (delay ids)"
  "frame (create_task_data json ds st chunk)"
  by (auto simp: frame_def on_store_def acquire_def release_def on_redis_def delete_task_data_def delay_def create_task_data_def
      api_simps Let_def split: prod.splits)

lemma frame_create_bulk: "frame (create_bulk cfg pub storage json validate_one ds st batch asynchronous)"
proof -
  have "frame (case y of (task_data_ids, created_external_ids) \<Rightarrow>
      api_bind (delay task_data_ids) (\<lambda>_. api_return created_external_ids))" for y :: "nat list \<times> string list"
    by (cases y) (auto intro: frames)
  note pairs = this
  show ?thesis
    unfolding create_bulk_def by (cases asynchronous; simp only: if_True if_False; intro pairs frames)
qed

lemma frame_worker:
  fixes pub :: "'s publisher"
  shows "frame (async_persist_data_point_chunk cfg pub storage claimed i retries)"
proof -
  have option: "(\<And>x. frame (f x)) \<Longrightarrow> frame (case z of None \<Rightarrow> api_return () | Some x \<Rightarrow> f x)" 
    for z and f :: "BulkInsertTaskData \<Rightarrow> ('s bulk_world, unit) api"
    by (cases z) (auto intro: frames)
  have choice: "frame m \<Longrightarrow> frame m' \<Longrightarrow> frame (if b then m else m')" for b and m m' :: "('s bulk_world, unit) api" by simp
  have pair: "(\<And>x y. frame (f x y)) \<Longrightarrow> frame (case z of (x, y) \<Rightarrow> f x y)"
    for z :: "BulkInsertTaskData option \<times> (string \<Rightarrow> DataSeries)" and f :: "BulkInsertTaskData option \<Rightarrow> (string \<Rightarrow> DataSeries) \<Rightarrow> ('s bulk_world, unit) api"
    by (cases z) simp
  show ?thesis
    unfolding async_persist_data_point_chunk_def by (intro frame_atomic frame_bind pair frame_basic) (intro option choice frames)
qed

lemma frame_announce: "frame (wake_up_requeue_persist_data_point_chunk cfg)"
  unfolding wake_up_requeue_persist_data_point_chunk_def by (intro frames)

section \<open>What the operations do to the tables and to the task data\<close>

lemma bulk_atomic_error:
  "bulk_atomic m w = (Inl e, w') \<Longrightarrow> bw_tasks w' = bw_tasks w \<and> sw_mat (bw_store w') = sw_mat (bw_store w)"
  by (auto simp: bulk_atomic_def atomic_def split: prod.splits sum.splits)

lemma bulk_atomic_Inr: "bulk_atomic m w = (Inr x, w') \<longleftrightarrow> m w = (Inr x, w')"
  by (auto simp: bulk_atomic_def split: prod.splits sum.splits)

text \<open>The data points of an accepted request, as they are written.\<close>

definition request_writes ::
  "(pyval \<Rightarrow> pyval) \<Rightarrow> (pyval \<Rightarrow> ValidatedData result) \<Rightarrow> DataSeries \<Rightarrow> stamp \<Rightarrow> pyval list \<Rightarrow> bool \<Rightarrow> stamped_write list" where
  "request_writes json validate_one ds st batch asynchronous =
     (case serializer_validated validate_one batch of
        Inl _ \<Rightarrow> []
      | Inr vds \<Rightarrow> map (\<lambda>vd. (st, filled ds (if asynchronous then json_field json vd else vd))) vds)"

definition task_writes :: "DataSeries \<Rightarrow> BulkInsertTaskData \<Rightarrow> stamped_write list" where
  "task_writes ds t = map (\<lambda>vd. (bt_stamp t, filled ds vd)) (bt_validated_datas t)"

definition pending :: "DataSeries \<Rightarrow> 's bulk_world \<Rightarrow> stamped_write list" where
  "pending ds w = concat (map (task_writes ds) (bw_tasks w))"

definition current_rows :: "DataSeries \<Rightarrow> 's bulk_world \<Rightarrow> mat_row list" where
  "current_rows ds w = sw_mat (bw_store w) (mat_table ds)"

lemma delay_run: "delay ids w = (Inr (), w\<lparr>bw_messages := bw_messages w @ ids\<rparr>)"
  by (simp add: delay_def api_modify_def)

lemma create_bulk_accepted:
  assumes "create_bulk cfg pub storage json validate_one ds st batch asynchronous w = (Inr x, w')"
  obtains vds where "serializer_validated validate_one batch = Inr vds" and "check_bulk cfg vds = Inr ()"
    and "if asynchronous then current_rows ds w' = current_rows ds w \<and>
        bw_tasks w' = bw_tasks w @ [\<lparr>bt_id = bw_next_task w, bt_data_series = ds_id ds, bt_stamp = st,
          bt_validated_datas = map (json_field json) vds, bt_serialization_keys = ds_keys ds\<rparr>] \<and>
        bw_next_task w' = bw_next_task w + 1
      else bw_tasks w' = bw_tasks w \<and> current_rows ds w' =
        fold (put_write ds) (map (\<lambda>vd. (st, filled ds vd)) vds) (current_rows ds w)"
proof -
  from assms obtain y w1 where y: "bulk_atomic
       (api_bind (api_lift (serializer_validated validate_one batch)) (\<lambda>validated_datas.
        api_bind (api_lift (check_bulk cfg validated_datas)) (\<lambda>_.
        api_bind
          (if asynchronous then api_bind (create_task_data json ds st validated_datas) (\<lambda>i. api_return [i])
           else api_bind (on_store (persist_data_point_chunk pub storage (BULK_BATCH_SIZE cfg) ds st validated_datas))
             (\<lambda>_. api_return []))
          (\<lambda>task_data_ids. api_return (task_data_ids, map vd_external_id validated_datas))))) w = (Inr y, w1)"
    and w': "bw_tasks w' = bw_tasks w1" "bw_store w' = bw_store w1" "bw_next_task w' = bw_next_task w1"
    unfolding create_bulk_def
    by (auto simp: delay_run api_return_def dest!: api_bind_Inr_split split: prod.splits elim!: api_bind_Inr_split)
  from y obtain vds where vds: "serializer_validated validate_one batch = Inr vds" "check_bulk cfg vds = Inr ()"
    and run: "(if asynchronous then api_bind (create_task_data json ds st vds) (\<lambda>i. api_return [i])
           else api_bind (on_store (persist_data_point_chunk pub storage (BULK_BATCH_SIZE cfg) ds st vds))
             (\<lambda>_. api_return [])) w = (Inr (fst y), w1)"
    unfolding bulk_atomic_Inr
    by (auto simp: api_lift_def api_return_def dest!: api_bind_Inr_split)
  show thesis
  proof (rule that [OF vds])
    show "if asynchronous then current_rows ds w' = current_rows ds w \<and>
        bw_tasks w' = bw_tasks w @ [\<lparr>bt_id = bw_next_task w, bt_data_series = ds_id ds, bt_stamp = st,
          bt_validated_datas = map (json_field json) vds, bt_serialization_keys = ds_keys ds\<rparr>] \<and>
        bw_next_task w' = bw_next_task w + 1
      else bw_tasks w' = bw_tasks w \<and> current_rows ds w' =
        fold (put_write ds) (map (\<lambda>vd. (st, filled ds vd)) vds) (current_rows ds w)"
      using run persist_mat [of pub storage "BULK_BATCH_SIZE cfg" ds st vds "bw_store w" "()"]
      by (auto simp: w' current_rows_def create_task_data_def Let_def on_store_def api_return_def
          split: if_splits prod.splits sum.splits dest!: api_bind_Inr_split)
  qed
qed

text \<open>What a worker has done when it returns: nothing, or it has written the row and deleted it.\<close>

lemma on_redis_Inr:
  "on_redis f w = (r, w') \<Longrightarrow> bw_store w' = bw_store w \<and> bw_tasks w' = bw_tasks w \<and> (\<exists>x. r = Inr x)"
  by (auto simp: on_redis_def split: prod.splits)

lemma try_finally_Inr:
  "try_finally m cleanup w = (Inr x, w') \<Longrightarrow> \<exists>w1 u. m w = (Inr x, w1) \<and> cleanup (Inr x) w1 = (Inr u, w')"
  by (auto simp: try_finally_def split: prod.splits sum.splits)

lemma release_tables:
  "release k w = (r, w') \<Longrightarrow> bw_store w' = bw_store w \<and> bw_tasks w' = bw_tasks w"
  "acquire k limit timeout w = (b, w') \<Longrightarrow> bw_store w' = bw_store w \<and> bw_tasks w' = bw_tasks w"
  unfolding release_def acquire_def by (auto dest: on_redis_Inr)

lemma worker_done:
  assumes "async_persist_data_point_chunk cfg pub storage claimed i retries w = (Inr u, w')"
    and none: "\<not> (bw_tasks w' = bw_tasks w \<and> current_rows ds w' = current_rows ds w)"
  obtains t where "t \<in> set (bw_tasks w)" and "bw_tasks w' = filter (\<lambda>x. bt_id x \<noteq> bt_id t) (bw_tasks w)"
    and "ds = (bw_series w (bt_data_series t))\<lparr>ds_keys := bt_serialization_keys t\<rparr> \<Longrightarrow>
      current_rows ds w' = fold (put_write ds) (task_writes ds t) (current_rows ds w)"
proof -
  let ?found = "find (\<lambda>t. bt_id t = i) (bw_tasks w)"
  from assms obtain t where t: "?found = Some t"
    by (cases "if claimed then None else ?found")
      (auto simp: async_persist_data_point_chunk_def bulk_atomic_Inr api_bind_def api_get_def api_return_def split: if_splits)
  with assms have "\<not> claimed"
    by (auto simp: async_persist_data_point_chunk_def bulk_atomic_Inr api_bind_def api_get_def api_return_def)
  let ?ds = "(bw_series w (bt_data_series t))\<lparr>ds_keys := bt_serialization_keys t\<rparr>"
  let ?body = "api_bind (on_store (persist_data_point_chunk pub storage (BULK_BATCH_SIZE cfg) ?ds (bt_stamp t) (bt_validated_datas t)))
      (\<lambda>_. delete_task_data (bt_id t))"
  let ?cleanup = "\<lambda>ended :: unit result. api_bind (release (series_semaphore (bt_data_series t))) (\<lambda>_.
      release (requeue_semaphore (case ended of Inr _ \<Rightarrow> None | Inl _ \<Rightarrow> Some (bt_id t))))"
  obtain w1 w2 ok where
      "acquire (requeue_semaphore (Some (bt_id t))) 1 (REQUEUE_COOLDOWN cfg) w = (ok, w1)"
    and "\<exists>ok'. acquire (series_semaphore (bt_data_series t)) (ASYNC_CONCURRENCY_PER_DATA_SERIES cfg)
        (ASYNC_CONCURRENCY_LOCK_TIMEOUT cfg) w1 = (ok', w2)"
    and body: "try_finally ?body ?cleanup w2 = (Inr u, w')"
    using assms(1) \<open>\<not> claimed\<close>
    by (auto simp: async_persist_data_point_chunk_def bulk_atomic_Inr api_get_def delay_run api_raise_def t
        split: if_splits dest!: api_bind_Inr_split)
  then have same: "bw_store w2 = bw_store w" "bw_tasks w2 = bw_tasks w" by (metis release_tables(2))+
  obtain w3 v where w3: "?body w2 = (Inr u, w3)" and clean: "?cleanup (Inr u) w3 = (Inr v, w')"
    using try_finally_Inr [OF body] by blast
  have kept: "bw_store w' = bw_store w3" "bw_tasks w' = bw_tasks w3"
    using clean by (auto dest!: api_bind_Inr_split release_tables)
  obtain s where s: "persist_data_point_chunk pub storage (BULK_BATCH_SIZE cfg) ?ds (bt_stamp t) (bt_validated_datas t) (bw_store w) =
      (Inr (), s)" and done_: "bw_store w3 = s" "bw_tasks w3 = filter (\<lambda>x. bt_id x \<noteq> bt_id t) (bw_tasks w)"
    using w3 by (auto simp: on_store_def delete_task_data_def api_modify_def same split: prod.splits dest!: api_bind_Inr_split)
  show thesis
  proof (rule that [of t])
    show "t \<in> set (bw_tasks w)" using t by (auto simp: find_Some_iff)
    show "bw_tasks w' = filter (\<lambda>x. bt_id x \<noteq> bt_id t) (bw_tasks w)" using kept done_ by simp
    assume ds: "ds = ?ds"
    from persist_mat [OF s] show "current_rows ds w' = fold (put_write ds) (task_writes ds t) (current_rows ds w)"
      unfolding ds [symmetric] current_rows_def kept done_ task_writes_def .
  qed
qed

lemma announce_tables:
  assumes run: "wake_up_requeue_persist_data_point_chunk cfg w = (r, w')"
  shows "bw_tasks w' = bw_tasks w \<and> bw_store w' = bw_store w"
proof -
  let ?f = "\<lambda>task_data_id. api_bind (acquire (requeue_semaphore (Some task_data_id)) 1 (REQUEUE_COOLDOWN cfg)) (\<lambda>ok.
         api_when ok (delay [task_data_id]))"
  have one: "?f i v = (r, v') \<Longrightarrow> bw_tasks v' = bw_tasks v \<and> bw_store v' = bw_store v" for i r and v v' :: "'a bulk_world"
    by (auto simp: api_bind_def api_when_def delay_run api_return_def split: prod.splits sum.splits if_splits dest!: release_tables)
  have "api_for ?f ids v = (r, v') \<Longrightarrow> bw_tasks v' = bw_tasks v \<and> bw_store v' = bw_store v" for ids r and v v' :: "'a bulk_world"
  proof (induction ids arbitrary: v)
    case (Cons i ids)
    obtain x v1 where "?f i v = (x, v1)" by fastforce
    with Cons one [OF this] show ?case by (cases x) (auto simp: api_bind_Inr api_bind_Inl)
  qed (simp add: api_return_def)
  then show ?thesis
    using run unfolding wake_up_requeue_persist_data_point_chunk_def by (auto simp: api_bind_def api_get_def)
qed

section \<open>Runs\<close>

text \<open>
  Requests for one data series, workers and the periodic task, in any order. Messages may get lost
  or come again, Redis may forget or invent entries and time passes: all three are replaced at will.
\<close>

inductive bulk_history ::
  "bulk_config \<Rightarrow> 's publisher \<Rightarrow> file_storage \<Rightarrow> (pyval \<Rightarrow> pyval) \<Rightarrow> (pyval \<Rightarrow> ValidatedData result) \<Rightarrow> DataSeries \<Rightarrow>
     stamped_write list \<Rightarrow> 's bulk_world \<Rightarrow> bool"
  for cfg :: bulk_config and pub :: "'s publisher" and storage :: file_storage and json :: "pyval \<Rightarrow> pyval"
    and validate_one :: "pyval \<Rightarrow> ValidatedData result" and ds :: DataSeries where
  start: "current_rows ds w = [] \<Longrightarrow> bw_tasks w = [] \<Longrightarrow> bw_series w (ds_id ds) = ds \<Longrightarrow>
    bulk_history cfg pub storage json validate_one ds [] w"
| refused: "bulk_history cfg pub storage json validate_one ds accepted w \<Longrightarrow>
    create_bulk cfg pub storage json validate_one ds st batch asynchronous w = (Inl e, w') \<Longrightarrow>
    bulk_history cfg pub storage json validate_one ds accepted w'"
| accepted: "bulk_history cfg pub storage json validate_one ds accepted w \<Longrightarrow>
    create_bulk cfg pub storage json validate_one ds st batch asynchronous w = (Inr ids, w') \<Longrightarrow>
    bulk_history cfg pub storage json validate_one ds
      (accepted @ request_writes json validate_one ds st batch asynchronous) w'"
| worker: "bulk_history cfg pub storage json validate_one ds accepted w \<Longrightarrow>
    async_persist_data_point_chunk cfg pub storage claimed i retries w = (r, w') \<Longrightarrow>
    bulk_history cfg pub storage json validate_one ds accepted w'"
| announce: "bulk_history cfg pub storage json validate_one ds accepted w \<Longrightarrow>
    wake_up_requeue_persist_data_point_chunk cfg w = (r, w') \<Longrightarrow>
    bulk_history cfg pub storage json validate_one ds accepted w'"
| outside: "bulk_history cfg pub storage json validate_one ds accepted w \<Longrightarrow>
    bulk_history cfg pub storage json validate_one ds accepted
      (w\<lparr>bw_messages := messages, bw_redis := redis, bw_now := now\<rparr>)"

text \<open>The accepted writes are those in the table and those that wait.\<close>

definition accounted :: "DataSeries \<Rightarrow> stamped_write list \<Rightarrow> 's bulk_world \<Rightarrow> bool" where
  "accounted ds acc w \<longleftrightarrow>
     (\<exists>written. mset written + mset (pending ds w) = mset acc \<and> won_by ds (set written) (current_rows ds w))"

definition tasks_of_series :: "DataSeries \<Rightarrow> 's bulk_world \<Rightarrow> bool" where
  "tasks_of_series ds w \<longleftrightarrow>
     bw_series w (ds_id ds) = ds \<and> distinct (map bt_id (bw_tasks w)) \<and>
     (\<forall>t \<in> set (bw_tasks w). bt_data_series t = ds_id ds \<and> bt_serialization_keys t = ds_keys ds \<and> bt_id t < bw_next_task w)"

definition external_ids_fit :: "(string \<Rightarrow> string) \<Rightarrow> stamped_write list \<Rightarrow> bool" where
  "external_ids_fit ext acc \<longleftrightarrow> (\<forall>x \<in> set acc. vd_external_id (snd x) = ext (vd_id (snd x)))"

lemma tasks_of_series_frame:
  "tasks_of_series ds w \<Longrightarrow> bw_tasks w' = bw_tasks w \<Longrightarrow> bw_series w' = bw_series w \<and> bw_next_task w \<le> bw_next_task w' \<Longrightarrow>
    tasks_of_series ds w'"
  by (auto simp: tasks_of_series_def)

lemma accounted_same:
  "accounted ds acc w \<Longrightarrow> bw_tasks w' = bw_tasks w \<Longrightarrow> current_rows ds w' = current_rows ds w \<Longrightarrow> accounted ds acc w'"
  by (simp add: accounted_def pending_def)

lemma accounted_accepted:
  assumes acc: "accounted ds acc w" and ext: "external_ids_fit ext (acc @ new)"
    and step: "pending ds w' = pending ds w \<and> current_rows ds w' = fold (put_write ds) new (current_rows ds w) \<or>
      pending ds w' = pending ds w @ new \<and> current_rows ds w' = current_rows ds w"
  shows "accounted ds (acc @ new) w'"
  using step
proof
  assume s: "pending ds w' = pending ds w \<and> current_rows ds w' = fold (put_write ds) new (current_rows ds w)"
  from acc obtain written where w: "mset written + mset (pending ds w) = mset acc" "won_by ds (set written) (current_rows ds w)"
    by (auto simp: accounted_def)
  have "set written \<subseteq> set acc" using w(1) by (metis mset_subset_eq_add_left set_mset_mono set_mset_mset)
  then have "won_by ds (set written \<union> set new) (fold (put_write ds) new (current_rows ds w))"
    using ext by (intro fold_put_write_won_by [OF w(2)]) (auto simp: external_ids_fit_def)
  then show ?thesis using w(1) s unfolding accounted_def by (intro exI [of _ "written @ new"]) (auto simp: ac_simps)
qed (use acc in \<open>auto simp: accounted_def ac_simps\<close>)

lemma pending_without:
  assumes "distinct (map bt_id ts)" and "t \<in> set ts"
  shows "mset (concat (map (task_writes ds) ts)) =
    mset (task_writes ds t) + mset (concat (map (task_writes ds) (filter (\<lambda>x. bt_id x \<noteq> bt_id t) ts)))"
  using assms
proof (induction ts)
  case (Cons x ts)
  show ?case
  proof (cases "x = t")
    case True
    then have "filter (\<lambda>x. bt_id x \<noteq> bt_id t) ts = ts" using Cons.prems by (intro filter_True) (auto simp: image_iff)
    with True show ?thesis by simp
  next
    case False
    then have "t \<in> set ts" using Cons.prems by auto
    then have "bt_id x \<noteq> bt_id t" using Cons.prems by auto
    with Cons.IH Cons.prems \<open>t \<in> set ts\<close> show ?thesis by (simp add: ac_simps)
  qed
qed simp

lemma accounted_worked:
  assumes acc: "accounted ds acc w" and ext: "external_ids_fit ext acc" and dist: "distinct (map bt_id (bw_tasks w))"
    and t: "t \<in> set (bw_tasks w)" "bw_tasks w' = filter (\<lambda>x. bt_id x \<noteq> bt_id t) (bw_tasks w)"
    and rows: "current_rows ds w' = fold (put_write ds) (task_writes ds t) (current_rows ds w)"
  shows "accounted ds acc w'"
proof -
  from acc obtain written where w: "mset written + mset (pending ds w) = mset acc" "won_by ds (set written) (current_rows ds w)"
    by (auto simp: accounted_def)
  have part: "mset (pending ds w) = mset (task_writes ds t) + mset (pending ds w')"
    using pending_without [OF dist t(1)] by (simp add: pending_def t(2))
  then have all: "mset (written @ task_writes ds t) + mset (pending ds w') = mset acc" using w(1) by (simp add: ac_simps)
  then have "set (written @ task_writes ds t) \<subseteq> set acc" by (metis mset_subset_eq_add_left set_mset_mono set_mset_mset)
  then have "won_by ds (set written \<union> set (task_writes ds t)) (current_rows ds w')"
    unfolding rows using ext by (intro fold_put_write_won_by [OF w(2)]) (auto simp: external_ids_fit_def)
  then show ?thesis using all unfolding accounted_def by (metis set_append)
qed

lemma bulk_history_invariant:
  assumes "bulk_history cfg pub storage json validate_one ds acc w"
  shows "tasks_of_series ds w \<and> (external_ids_fit ext acc \<longrightarrow> accounted ds acc w)"
  using assms
proof induction
  case (start w)
  then show ?case by (simp add: tasks_of_series_def accounted_def pending_def won_by_def)
next
  case (refused acc w st batch asynchronous e w')
  have "bw_tasks w' = bw_tasks w \<and> sw_mat (bw_store w') = sw_mat (bw_store w)"
    using refused(2) unfolding create_bulk_def
    by (auto simp: api_bind_def delay_run api_return_def split: prod.splits sum.splits dest: bulk_atomic_error)
  with refused.IH frameD [OF frame_create_bulk refused(2)] show ?case
    by (auto intro: tasks_of_series_frame accounted_same simp: current_rows_def)
next
  case (accepted acc w st batch asynchronous ids w')
  let ?new = "request_writes json validate_one ds st batch asynchronous"
  note kept = frameD [OF frame_create_bulk accepted(2)]
  from accepted(2) show ?case
  proof (rule create_bulk_accepted)
    fix vds
    assume vds: "serializer_validated validate_one batch = Inr vds"
      and step: "if asynchronous then current_rows ds w' = current_rows ds w \<and>
          bw_tasks w' = bw_tasks w @ [\<lparr>bt_id = bw_next_task w, bt_data_series = ds_id ds, bt_stamp = st,
            bt_validated_datas = map (json_field json) vds, bt_serialization_keys = ds_keys ds\<rparr>] \<and>
          bw_next_task w' = bw_next_task w + 1
        else bw_tasks w' = bw_tasks w \<and> current_rows ds w' =
          fold (put_write ds) (map (\<lambda>vd. (st, filled ds vd)) vds) (current_rows ds w)"
    have "tasks_of_series ds w'"
      using step accepted.IH kept by (auto simp: tasks_of_series_def split: if_splits)
    moreover have "pending ds w' = pending ds w \<and> current_rows ds w' = fold (put_write ds) ?new (current_rows ds w) \<or>
        pending ds w' = pending ds w @ ?new \<and> current_rows ds w' = current_rows ds w"
      using step by (auto simp: request_writes_def vds pending_def task_writes_def split: if_splits)
    ultimately show ?thesis
      using accepted.IH accounted_accepted [of ds acc w ext ?new w'] by (auto simp: external_ids_fit_def)
  qed
next
  case (worker acc w claimed i retries r w')
  note kept = frameD [OF frame_worker worker(2)]
  show ?case
  proof (cases "bw_tasks w' = bw_tasks w \<and> current_rows ds w' = current_rows ds w")
    case True
    with worker.IH kept show ?thesis by (auto intro: tasks_of_series_frame accounted_same)
  next
    case False
    then have "\<exists>u. r = Inr u"
      using worker(2) by (cases r) (auto simp: async_persist_data_point_chunk_def current_rows_def dest!: bulk_atomic_error)
    then obtain u where "async_persist_data_point_chunk cfg pub storage claimed i retries w = (Inr u, w')" using worker(2) by blast
    then show ?thesis using False
    proof (rule worker_done)
      fix t
      assume t: "t \<in> set (bw_tasks w)" "bw_tasks w' = filter (\<lambda>x. bt_id x \<noteq> bt_id t) (bw_tasks w)"
        and rows: "ds = (bw_series w (bt_data_series t))\<lparr>ds_keys := bt_serialization_keys t\<rparr> \<Longrightarrow>
          current_rows ds w' = fold (put_write ds) (task_writes ds t) (current_rows ds w)"
      have "ds = (bw_series w (bt_data_series t))\<lparr>ds_keys := bt_serialization_keys t\<rparr>"
        using worker.IH t(1) by (simp add: tasks_of_series_def)
      from rows [OF this] have "external_ids_fit ext acc \<longrightarrow> accounted ds acc w'"
        using worker.IH accounted_worked [of ds acc w ext t w'] t by (simp add: tasks_of_series_def)
      moreover have "tasks_of_series ds w'"
        using worker.IH t kept by (auto simp: tasks_of_series_def distinct_map_filter)
      ultimately show ?thesis by blast
    qed
  qed
next
  case (announce acc w r w')
  with announce_tables [OF announce(2)] frameD [OF frame_announce announce(2)] show ?case
    by (auto intro: tasks_of_series_frame accounted_same simp: current_rows_def)
next
  case (outside acc w messages redis now)
  then show ?case
    by (auto intro!: tasks_of_series_frame [of ds w] accounted_same [of ds acc w] simp: current_rows_def)
qed

section \<open>Properties\<close>

text \<open>C28: No accepted bulk write is lost and none is made up: whatever the order of requests, workers, repeated
  or lost messages and expired semaphores, the accepted data points are, as a multiset, those that
  have been written and those that wait in \<open>BulkInsertTaskData\<close>; and the table shows, of those
  written, the one with the greatest version of each data point.\<close>

theorem bulk_writes_are_kept:
  assumes "bulk_history cfg pub storage json validate_one ds accepted w"
    and "\<And>x. x \<in> set accepted \<Longrightarrow> vd_external_id (snd x) = ext (vd_id (snd x))"
    and "inj_on (\<lambda>x. (vd_id (snd x), version (fst x))) (set accepted)"
  shows "\<exists>written. mset written + mset (pending ds w) = mset accepted \<and>
    shown ` set (materialized_rows None (current_rows ds w)) = shown_write ds ` {x. newest_write (set written) x}"
proof -
  have "external_ids_fit ext accepted" using assms(2) by (simp add: external_ids_fit_def)
  with bulk_history_invariant [OF assms(1)] obtain written where
      w: "mset written + mset (pending ds w) = mset accepted" "won_by ds (set written) (current_rows ds w)"
    by (auto simp: accounted_def)
  have "set written \<subseteq> set accepted" using w(1) by (metis mset_subset_eq_add_left set_mset_mono set_mset_mset)
  from won_by_shown [OF w(2) inj_on_subset [OF assms(3) this]] w(1) show ?thesis by blast
qed

definition demo_bulk_config :: bulk_config where
  "demo_bulk_config =
     \<lparr>BULK_TASK_SIZE = 10, BULK_BATCH_SIZE = 2, ASYNC_CONCURRENCY_PER_DATA_SERIES = 1, ASYNC_CONCURRENCY_LOCK_TIMEOUT = 60,
      ASYNC_CONCURRENCY_MAX_RETRY_DELAY = 30, REQUEUE_AGE = 60, REQUEUE_COOLDOWN = 60\<rparr>"

definition demo_validate :: "pyval \<Rightarrow> ValidatedData result" where
  "demo_validate v = (case v of PDict d \<Rightarrow> Inr (demo_point d) | _ \<Rightarrow> Inl (ValidationError (PStr ''Invalid data'')))"

definition demo_bulk_start :: "unit bulk_world" where
  "demo_bulk_start =
     \<lparr>bw_store = demo_start, bw_series = (\<lambda>_. demo_series), bw_tasks = [], bw_next_task = 1, bw_redis = (\<lambda>_. None),
      bw_messages = [], bw_now = 0\<rparr>"

definition demo_bulk_create :: "string \<Rightarrow> int \<Rightarrow> bool \<Rightarrow> unit bulk_world \<Rightarrow> string list result \<times> unit bulk_world" where
  "demo_bulk_create text n = create_bulk demo_bulk_config demo_publisher demo_storage (\<lambda>v. v) demo_validate demo_series
     (demo_stamp n) [PDict [(''name'', PStr text)]]"

text \<open>The newer request is written first, the older one waits.\<close>

definition demo_bulk_waiting :: "unit bulk_world" where
  "demo_bulk_waiting = snd (demo_bulk_create ''new'' 2 False (snd (demo_bulk_create ''old'' 1 True demo_bulk_start)))"

definition demo_bulk_worked :: "unit bulk_world" where
  "demo_bulk_worked = snd (async_persist_data_point_chunk demo_bulk_config demo_publisher demo_storage False 1 0 demo_bulk_waiting)"

definition demo_accepted :: "stamped_write list" where
  "demo_accepted =
     request_writes (\<lambda>v. v) demo_validate demo_series (demo_stamp 1) [PDict [(''name'', PStr ''old'')]] True @
     request_writes (\<lambda>v. v) demo_validate demo_series (demo_stamp 2) [PDict [(''name'', PStr ''new'')]] False"

lemma demo_bulk_facts:
  "fst (demo_bulk_create ''old'' 1 True demo_bulk_start) = Inr [''x'']"
  "fst (demo_bulk_create ''new'' 2 False (snd (demo_bulk_create ''old'' 1 True demo_bulk_start))) = Inr [''x'']"
  "map (\<lambda>x. (vd_id (snd x), vd_external_id (snd x), version (fst x))) demo_accepted =
    [(''i'', ''x'', 10, 1), (''i'', ''x'', 20, 2)]"
  "length (pending demo_series demo_bulk_waiting) = 1" "pending demo_series demo_bulk_worked = []"
  "map (\<lambda>r. mr_columns r ''f1_name'') (current_rows demo_series demo_bulk_worked) = [Sql (PStr ''new'')]"
  by code_simp+

lemma demo_bulk_history:
  "bulk_history demo_bulk_config demo_publisher demo_storage (\<lambda>v. v) demo_validate demo_series demo_accepted demo_bulk_worked"
proof -
  have first: "demo_bulk_create ''old'' 1 True demo_bulk_start = (Inr [''x''], snd (demo_bulk_create ''old'' 1 True demo_bulk_start))"
    and second: "demo_bulk_create ''new'' 2 False (snd (demo_bulk_create ''old'' 1 True demo_bulk_start)) = (Inr [''x''], demo_bulk_waiting)"
    using demo_bulk_facts(1,2) unfolding demo_bulk_waiting_def by (metis prod.collapse)+
  have "bulk_history demo_bulk_config demo_publisher demo_storage (\<lambda>v. v) demo_validate demo_series [] demo_bulk_start"
    by (rule bulk_history.start) (simp_all add: demo_bulk_start_def current_rows_def demo_start_def)
  from bulk_history.accepted [OF this first [unfolded demo_bulk_create_def]]
  have "bulk_history demo_bulk_config demo_publisher demo_storage (\<lambda>v. v) demo_validate demo_series
      (request_writes (\<lambda>v. v) demo_validate demo_series (demo_stamp 1) [PDict [(''name'', PStr ''old'')]] True)
      (snd (demo_bulk_create ''old'' 1 True demo_bulk_start))" unfolding demo_bulk_create_def by simp
  from bulk_history.accepted [OF this second [unfolded demo_bulk_create_def [of "''new''"]]]
  have "bulk_history demo_bulk_config demo_publisher demo_storage (\<lambda>v. v) demo_validate demo_series demo_accepted demo_bulk_waiting"
    unfolding demo_accepted_def .
  then show ?thesis unfolding demo_bulk_worked_def by (rule bulk_history.worker) (rule prod.collapse [symmetric])
qed

theorem bulk_writes_are_kept_witness:
  "\<exists>written. mset written = mset demo_accepted \<and>
    shown ` set (materialized_rows None (current_rows demo_series demo_bulk_worked)) =
      shown_write demo_series ` {x. newest_write (set written) x}"
proof -
  have "vd_external_id (snd x) = ''x''" if "x \<in> set demo_accepted" for x
  proof -
    have "(vd_id (snd x), vd_external_id (snd x), version (fst x)) \<in>
        set (map (\<lambda>x. (vd_id (snd x), vd_external_id (snd x), version (fst x))) demo_accepted)"
      using that by (rule image_eqI [OF refl, THEN set_map [THEN equalityD2, THEN subsetD]])
    then show ?thesis unfolding demo_bulk_facts(3) by auto
  qed
  moreover have "inj_on (\<lambda>x. (vd_id (snd x), version (fst x))) (set demo_accepted)"
  proof -
    obtain a b where ab: "demo_accepted = [a, b]" using demo_bulk_facts(3) by (auto simp: map_eq_Cons_conv)
    have "version (fst a) \<noteq> version (fst b)" using demo_bulk_facts(3) unfolding ab by auto
    then show ?thesis unfolding ab by (auto simp: inj_on_def)
  qed
  ultimately obtain written where "mset written + mset (pending demo_series demo_bulk_worked) = mset demo_accepted"
      "shown ` set (materialized_rows None (current_rows demo_series demo_bulk_worked)) =
        shown_write demo_series ` {x. newest_write (set written) x}"
    using bulk_writes_are_kept [OF demo_bulk_history, of "\<lambda>_. ''x''"] by blast
  then show ?thesis using demo_bulk_facts(5) by auto
qed

lemma duplicated_distinct: "duplicated xs = [] \<longleftrightarrow> distinct xs"
proof -
  have "duplicated xs = [] \<longleftrightarrow> (\<forall>x \<in> set xs. count_list xs x \<le> 1)"
    by (auto simp: duplicated_def filter_empty_conv not_less)
  also have "\<dots> \<longleftrightarrow> distinct xs"
    by (induction xs) (auto simp: count_list_0_iff le_Suc_eq split: if_splits)
  finally show ?thesis .
qed

text \<open>C29: A bulk request is kept for later exactly if every data point of it is valid, no external id
  comes twice and it is not longer than allowed; otherwise it fails and leaves tables, waiting
  rows, messages and semaphores as they were.\<close>

theorem bulk_request_all_or_nothing:
  "case create_bulk cfg pub storage json validate_one ds st batch True w of
     (Inr external_ids, w') \<Rightarrow>
       \<exists>vds. serializer_validated validate_one batch = Inr vds \<and> external_ids = map vd_external_id vds \<and>
         distinct external_ids \<and> length vds \<le> BULK_TASK_SIZE cfg \<and>
         pending ds w' = pending ds w @ request_writes json validate_one ds st batch True \<and>
         bw_messages w' = bw_messages w @ [bw_next_task w]
   | (Inl e, w') \<Rightarrow>
       bw_tasks w' = bw_tasks w \<and> current_rows ds w' = current_rows ds w \<and> bw_messages w' = bw_messages w \<and>
       bw_redis w' = bw_redis w \<and>
       (case serializer_validated validate_one batch of
          Inl e' \<Rightarrow> e = e'
        | Inr vds \<Rightarrow> \<not> (distinct (map vd_external_id vds) \<and> length vds \<le> BULK_TASK_SIZE cfg))"
proof (cases "serializer_validated validate_one batch")
  case (Inl e)
  then show ?thesis
    by (simp add: create_bulk_def bulk_atomic_def api_bind_def api_lift_def atomic_def current_rows_def)
next
  case (Inr vds)
  note valid = this
  show ?thesis
  proof (cases "check_bulk cfg vds")
    case (Inl e)
    then have "\<not> (distinct (map vd_external_id vds) \<and> length vds \<le> BULK_TASK_SIZE cfg)"
      by (auto simp: check_bulk_def Let_def duplicated_distinct split: if_splits)
    with valid Inl show ?thesis
      by (simp add: create_bulk_def bulk_atomic_def api_bind_def api_lift_def atomic_def current_rows_def)
  next
    case (Inr u)
    then have "distinct (map vd_external_id vds) \<and> length vds \<le> BULK_TASK_SIZE cfg"
      by (simp add: check_bulk_def Let_def duplicated_distinct split: if_splits)
    with valid Inr show ?thesis
      by (simp add: create_bulk_def bulk_atomic_def api_bind_def api_lift_def api_return_def create_task_data_def Let_def delay_run
          pending_def task_writes_def request_writes_def)
  qed
qed

end
