(* ===== verification/Server_Jobs.thy ===== *)
theory Server_Jobs
  imports Server_Events
begin

text \<open>
  Jobs in PostgreSQL: \<open>core/models/postgres_jobs.py\<close> and \<open>dataseries/tasks/pgq.py\<close> over the package
  \<open>pgq\<close>, the heartbeat jobs of \<open>dataseries/tasks/event.py\<close>, and the tasks on the metamodel of
  \<open>dataseries/tasks/metamodel.py\<close>. The rows of a table are a list in the order of their creation; what
  tasks act upon is the component \<open>jw_env\<close> of the state, and \<open>undo\<close> says what of it a transaction that
  is rolled back restores.
\<close>

section \<open>core/models/postgres\_jobs.py\<close>

record TenantPostgresQueueJob =
  job_id :: nat
  job_tenant :: string
  job_queue :: string
  job_task :: string
  job_args :: pydict
  job_priority :: int
  job_created_at :: int
  job_execute_at :: int
  job_globally_unique_identifier :: "string option"

text \<open>
  \<open>jw_locked\<close> are the ids of the rows that other transactions have locked; \<open>jw_in_atomic_block\<close> is what
  the connection says.
\<close>

record 'e jobs_world =
  jw_jobs :: "TenantPostgresQueueJob list"
  jw_next_id :: nat
  jw_now :: int
  jw_locked :: "nat list"
  jw_in_atomic_block :: bool
  jw_env :: 'e

type_synonym ('e, 'a) jobs_run = "('e jobs_world, 'a) api"

type_synonym 'e task_functions = "(string \<times> (TenantPostgresQueueJob \<Rightarrow> ('e, unit) jobs_run)) list"

record BaseTenantQueue =
  bq_queue :: string
  bq_tenant :: string
  bq_heartbeat :: bool
  bq_at_most_once :: bool

text \<open>The \<open>WHERE\<close> of the query; \<open>SKIP LOCKED\<close> leaves out the rows that are locked.\<close>

definition claimable :: "'e jobs_world \<Rightarrow> nat list \<Rightarrow> string list \<Rightarrow> string \<Rightarrow> string \<Rightarrow> TenantPostgresQueueJob \<Rightarrow> bool" where
  "claimable w exclude_ids tasks queue tenant job \<longleftrightarrow>
     job_execute_at job \<le> jw_now w \<and> job_id job \<notin> set exclude_ids \<and> job_queue job = queue \<and>
     job_tenant job = tenant \<and> job_task job \<in> set tasks \<and> job_id job \<notin> set (jw_locked w)"

text \<open>\<open>ORDER BY priority DESC, created_at\<close>.\<close>

definition claim_order :: "TenantPostgresQueueJob \<Rightarrow> int \<times> int" where
  "claim_order job = (- job_priority job, job_created_at job)"

definition dequeue_tenant ::
  "nat list \<Rightarrow> string list \<Rightarrow> string \<Rightarrow> string \<Rightarrow> 'e jobs_world \<Rightarrow> TenantPostgresQueueJob option \<times> 'e jobs_world" where
  "dequeue_tenant exclude_ids tasks queue tenant w =
     (case sort_key claim_order (filter (claimable w exclude_ids tasks queue tenant) (jw_jobs w)) of
        [] \<Rightarrow> (None, w)
      | job # _ \<Rightarrow> (Some job, w\<lparr>jw_jobs := filter (\<lambda>j. job_id j \<noteq> job_id job) (jw_jobs w)\<rparr>))"

definition run_job :: "'e task_functions \<Rightarrow> TenantPostgresQueueJob \<Rightarrow> ('e, unit) jobs_run" where
  "run_job tasks job =
     (case map_of tasks (job_task job) of None \<Rightarrow> api_raise (KeyError (job_task job)) | Some f \<Rightarrow> f job)"

text \<open>What \<open>run_once\<close> ends with; \<open>Failed\<close> is the exception \<open>PgqException\<close>, which holds the job.\<close>

datatype run_outcome = NoJob | Ran TenantPostgresQueueJob | Failed TenantPostgresQueueJob

definition run_claimed :: "BaseTenantQueue \<Rightarrow> 'e task_functions \<Rightarrow> nat list \<Rightarrow> ('e, run_outcome) jobs_run" where
  "run_claimed self tasks exclude_ids w =
     (case dequeue_tenant exclude_ids (map fst tasks) (bq_queue self) (bq_tenant self) w of
        (None, w1) \<Rightarrow> (Inr NoJob, w1)
      | (Some job, w1) \<Rightarrow>
          (case run_job tasks job w1 of
             (Inl e, w2) \<Rightarrow> (Inr (Failed job), w2)
           | (Inr _, w2) \<Rightarrow> (Inr (Ran job), w2)))"

text \<open>
  \<open>TenantAtMostOnceQueue\<close> deletes the row before the task runs; \<open>TenantAtLeastOnceQueue\<close> does both in one
  transaction, which an exception rolls back.
\<close>

definition run_once ::
  "('e \<Rightarrow> 'e \<Rightarrow> 'e) \<Rightarrow> BaseTenantQueue \<Rightarrow> 'e task_functions \<Rightarrow> nat list \<Rightarrow> ('e, run_outcome) jobs_run" where
  "run_once undo self tasks exclude_ids w =
     (if bq_at_most_once self then
        (if jw_in_atomic_block w then (Inl AssertionError, w) else run_claimed self tasks exclude_ids w)
      else
        (case run_claimed self tasks exclude_ids w of
           (Inr (Failed job), w1) \<Rightarrow> (Inr (Failed job), w1\<lparr>jw_jobs := jw_jobs w, jw_env := undo (jw_env w) (jw_env w1)\<rparr>)
         | (r, w1) \<Rightarrow> (r, w1)))"

text \<open>The result is \<open>None\<close> where the code returns \<open>None\<close>: the job is there already.\<close>

definition create_job ::
  "BaseTenantQueue \<Rightarrow> string \<Rightarrow> pydict \<Rightarrow> int option \<Rightarrow> int option \<Rightarrow> string option \<Rightarrow> ('e, TenantPostgresQueueJob) jobs_run" where
  "create_job self task args execute_at priority identifier_value w =
     (if identifier_value \<noteq> None \<and> identifier_value \<in> job_globally_unique_identifier ` set (jw_jobs w)
      then (Inl IntegrityError, w)
      else
        (let job = \<lparr>job_id = jw_next_id w, job_tenant = bq_tenant self, job_queue = bq_queue self, job_task = task,
               job_args = args, job_priority = (case priority of None \<Rightarrow> 0 | Some p \<Rightarrow> p), job_created_at = jw_now w,
               job_execute_at = (case execute_at of None \<Rightarrow> jw_now w | Some t \<Rightarrow> t),
               job_globally_unique_identifier = identifier_value\<rparr> in
         (Inr job, w\<lparr>jw_jobs := jw_jobs w @ [job], jw_next_id := jw_next_id w + 1\<rparr>)))"

definition enqueue ::
  "BaseTenantQueue \<Rightarrow> 'e task_functions \<Rightarrow> string \<Rightarrow> pydict option \<Rightarrow> int option \<Rightarrow> int option \<Rightarrow>
     ('e, TenantPostgresQueueJob option) jobs_run" where
  "enqueue self tasks task args execute_at priority w =
     (let args1 = (case args of None \<Rightarrow> [] | Some a \<Rightarrow> a); unique = bq_queue self @ ''_'' @ task in
      if task \<notin> set (map fst tasks) then (Inl AssertionError, w)
      else if \<not> bq_heartbeat self then
        (case create_job self task args1 execute_at priority None w of
           (Inl e, w1) \<Rightarrow> (Inl e, w1) | (Inr job, w1) \<Rightarrow> (Inr (Some job), w1))
      else if list_ex (\<lambda>j. job_globally_unique_identifier j = Some unique \<and> job_tenant j = bq_tenant self) (jw_jobs w)
      then (Inr None, w)
      else
        (case create_job self task args1 execute_at priority (Some unique) w of
           (Inl _, w1) \<Rightarrow> (Inr None, w1) | (Inr job, w1) \<Rightarrow> (Inr (Some job), w1)))"

section \<open>tasks/pgq.py\<close>

definition get_queue_name :: "string \<Rightarrow> string \<Rightarrow> string result" where
  "get_queue_name var_key queue_base_name =
     (let queue_name = var_key @ ''_'' @ queue_base_name in
      if length queue_name \<le> 1024 then Inr queue_name else Inl AssertionError)"

definition get_queue :: "string \<Rightarrow> string \<Rightarrow> string \<Rightarrow> bool \<Rightarrow> bool \<Rightarrow> BaseTenantQueue result" where
  "get_queue tenant var_key queue_base_name heartbeat at_most_once =
     rbind (get_queue_name var_key queue_base_name) (\<lambda>queue_name.
       Inr \<lparr>bq_queue = queue_name, bq_tenant = tenant, bq_heartbeat = heartbeat, bq_at_most_once = at_most_once\<rparr>)"

text \<open>
  \<open>try_run\<close> returns \<open>None\<close> for a job that failed as it does when there is no job. The loop need not
  end, since tasks may add jobs: \<open>fuel\<close> bounds its rounds.
\<close>

definition try_run ::
  "('e \<Rightarrow> 'e \<Rightarrow> 'e) \<Rightarrow> BaseTenantQueue \<Rightarrow> 'e task_functions \<Rightarrow> nat list \<Rightarrow>
     ('e, nat list \<times> TenantPostgresQueueJob option) jobs_run" where
  "try_run undo queue tasks failed_ids w =
     (case run_once undo queue tasks failed_ids w of
        (Inl e, w1) \<Rightarrow> (Inl e, w1)
      | (Inr (Failed job), w1) \<Rightarrow> (Inr (job_id job # failed_ids, None), w1)
      | (Inr (Ran job), w1) \<Rightarrow> (Inr (failed_ids, Some job), w1)
      | (Inr NoJob, w1) \<Rightarrow> (Inr (failed_ids, None), w1))"

fun try_run_loop ::
  "nat \<Rightarrow> ('e \<Rightarrow> 'e \<Rightarrow> 'e) \<Rightarrow> BaseTenantQueue \<Rightarrow> 'e task_functions \<Rightarrow> nat list \<Rightarrow> ('e, unit) jobs_run" where
  "try_run_loop 0 undo queue tasks failed_ids w = (Inl OutOfFuel, w)"
| "try_run_loop (Suc fuel) undo queue tasks failed_ids w =
     (case try_run undo queue tasks failed_ids w of
        (Inl e, w1) \<Rightarrow> (Inl e, w1)
      | (Inr (failed_ids1, None), w1) \<Rightarrow> (Inr (), w1)
      | (Inr (failed_ids1, Some job), w1) \<Rightarrow> try_run_loop fuel undo queue tasks failed_ids1 w1)"

definition try_run_all ::
  "nat \<Rightarrow> ('e \<Rightarrow> 'e \<Rightarrow> 'e) \<Rightarrow> BaseTenantQueue \<Rightarrow> 'e task_functions \<Rightarrow> ('e, unit) jobs_run" where
  "try_run_all fuel undo queue tasks = try_run_loop fuel undo queue tasks []"

section \<open>Heartbeats of consumers\<close>

text \<open>A job whose arguments name no consumer does nothing.\<close>

definition heartbeat_task ::
  "nat \<Rightarrow> 's outside \<Rightarrow> string option \<Rightarrow> nat \<Rightarrow> TenantPostgresQueueJob \<Rightarrow> ('s event_world, unit) jobs_run" where
  "heartbeat_task fuel out proxy_url limit job w =
     (case map_of (job_args job) ''consumer_id'' of
        Some (PStr consumer_id) \<Rightarrow>
          (case consumer_heartbeat fuel out proxy_url limit consumer_id (jw_env w) of
             (r, ew) \<Rightarrow> (r, w\<lparr>jw_env := ew\<rparr>))
      | _ \<Rightarrow> (Inr (), w))"

definition heartbeat_queue :: "string \<Rightarrow> string \<Rightarrow> string \<Rightarrow> BaseTenantQueue result" where
  "heartbeat_queue tenant_id tenant_name consumer_id =
     get_queue tenant_id (tenant_id @ ''_'' @ tenant_name @ ''_'' @ consumer_id) ''consumer'' True True"

text \<open>\<open>tenants\<close> are the ids and names of the tenants; queue and heartbeat loop have fuel of their own.\<close>

definition actual_run_heartbeat_consumers ::
  "nat \<Rightarrow> nat \<Rightarrow> 's outside \<Rightarrow> string option \<Rightarrow> nat \<Rightarrow> (string \<times> string) list \<Rightarrow> string \<Rightarrow> string \<Rightarrow>
     ('s event_world, unit) jobs_run" where
  "actual_run_heartbeat_consumers queue_fuel fuel out proxy_url limit tenants tenant_id consumer_id =
     (case filter (\<lambda>t. fst t = tenant_id) tenants of
        [tenant] \<Rightarrow>
          (let tasks = [(''consumer_heartbeat'', heartbeat_task fuel out proxy_url limit)] in
           api_bind (api_lift (heartbeat_queue tenant_id (snd tenant) consumer_id)) (\<lambda>queue.
           api_bind (enqueue queue tasks ''consumer_heartbeat'' (Some [(''consumer_id'', PStr consumer_id)]) None None) (\<lambda>_.
           try_run_all queue_fuel (\<lambda>before after. before) queue tasks)))
      | _ \<Rightarrow> api_return ())"

section \<open>tasks/metamodel.py\<close>

record MetaModelTaskData =
  mt_id :: string
  mt_task :: string
  mt_data_series :: string

record 'e meta_model_world =
  mw_tasks :: "MetaModelTaskData list"
  mw_env :: 'e

text \<open>
  \<open>claimed\<close>: another worker has locked the row. A task that is not registered raises, because the
  message for the log reads an attribute that the row does not have.
\<close>

definition run_meta_model_task ::
  "('e \<Rightarrow> 'e \<Rightarrow> 'e) \<Rightarrow> (string \<times> (MetaModelTaskData \<Rightarrow> ('e, unit) api)) list \<Rightarrow> bool \<Rightarrow> string \<Rightarrow>
     ('e meta_model_world, unit) api" where
  "run_meta_model_task undo meta_model_task_registry claimed meta_model_task_data_id w =
     (case (if claimed then None else find (\<lambda>t. mt_id t = meta_model_task_data_id) (mw_tasks w)) of
        None \<Rightarrow> (Inr (), w)
      | Some task_data \<Rightarrow>
          (case map_of meta_model_task_registry (mt_task task_data) of
             None \<Rightarrow> (Inl AttributeError, w)
           | Some func \<Rightarrow>
               (case func task_data (mw_env w) of
                  (Inl e, env1) \<Rightarrow> (Inl e, w\<lparr>mw_env := undo (mw_env w) env1\<rparr>)
                | (Inr _, env1) \<Rightarrow>
                    (Inr (), w\<lparr>mw_tasks := filter (\<lambda>t. mt_id t \<noteq> mt_id task_data) (mw_tasks w), mw_env := env1\<rparr>))))"

end
