(* ===== verification/Server_Jobs_Correct.thy ===== *)
theory Server_Jobs_Correct
  imports Server_Jobs Server_Events_Correct
begin

text \<open>
  What the queue of jobs does: \<open>try_run_all\<close> runs the jobs that can be claimed in the order of their
  priorities and ages, and stops at the first one that fails; a queue of heartbeats never has two
  jobs of a kind; and one round of the heartbeat task of a consumer delivers all its events.
\<close>

section \<open>Running a queue\<close>

definition queue_order :: "BaseTenantQueue \<Rightarrow> 'e task_functions \<Rightarrow> 'e jobs_world \<Rightarrow> TenantPostgresQueueJob list" where
  "queue_order q tasks w =
     sort_key claim_order (filter (claimable w [] (map fst tasks) (bq_queue q) (bq_tenant q)) (jw_jobs w))"

text \<open>The specification: one job after the other; the first failure ends it.\<close>

fun run_until_failure ::
  "('e \<Rightarrow> 'e \<Rightarrow> 'e) \<Rightarrow> BaseTenantQueue \<Rightarrow> 'e task_functions \<Rightarrow> TenantPostgresQueueJob list \<Rightarrow> 'e jobs_world \<Rightarrow> 'e jobs_world"
where
  "run_until_failure undo q tasks [] w = w"
| "run_until_failure undo q tasks (job # jobs) w =
     (case run_job tasks job (w\<lparr>jw_jobs := filter (\<lambda>j. job_id j \<noteq> job_id job) (jw_jobs w)\<rparr>) of
        (Inr _, w1) \<Rightarrow> run_until_failure undo q tasks jobs w1
      | (Inl _, w1) \<Rightarrow>
          if bq_at_most_once q then w1
          else w1\<lparr>jw_jobs := jw_jobs w, jw_env := undo (jw_env w) (jw_env w1)\<rparr>)"

text \<open>The tasks work on \<open>jw_env\<close> only.\<close>

definition leaves_queue_alone :: "'e task_functions \<Rightarrow> bool" where
  "leaves_queue_alone tasks \<longleftrightarrow>
     (\<forall>(name, f) \<in> set tasks. \<forall>job w. jobs_world.truncate (snd (f job w)) = jobs_world.truncate (w\<lparr>jw_env := jw_env (snd (f job w))\<rparr>))"

lemma run_job_alone:
  assumes "leaves_queue_alone tasks" and "run_job tasks job w = (r, w')"
  shows "w' = w\<lparr>jw_env := jw_env w'\<rparr>"
proof (cases "map_of tasks (job_task job)")
  case None
  then show ?thesis using assms(2) by (simp add: run_job_def api_raise_def)
next
  case (Some f)
  then have "jobs_world.truncate (snd (f job w)) = jobs_world.truncate (w\<lparr>jw_env := jw_env (snd (f job w))\<rparr>)"
    using assms(1) map_of_SomeD [OF Some] by (auto simp: leaves_queue_alone_def)
  moreover have "f job w = (r, w')" using assms(2) Some by (simp add: run_job_def)
  ultimately show ?thesis by (cases w, cases w') (simp add: jobs_world.truncate_def)
qed

lemma dequeue_queue_order:
  "dequeue_tenant [] (map fst tasks) (bq_queue q) (bq_tenant q) w =
     (case queue_order q tasks w of
        [] \<Rightarrow> (None, w)
      | job # jobs \<Rightarrow> (Some job, w\<lparr>jw_jobs := filter (\<lambda>j. job_id j \<noteq> job_id job) (jw_jobs w)\<rparr>))"
  by (simp add: dequeue_tenant_def queue_order_def)

lemma queue_order_rest:
  assumes "queue_order q tasks w = job # jobs" and "distinct (map job_id (jw_jobs w))"
  shows "queue_order q tasks (w\<lparr>jw_jobs := filter (\<lambda>j. job_id j \<noteq> job_id job) (jw_jobs w), jw_env := e\<rparr>) = jobs"
proof -
  let ?c = "claimable w [] (map fst tasks) (bq_queue q) (bq_tenant q)"
  have "distinct (map job_id (filter ?c (jw_jobs w)))" by (rule distinct_map_filter [OF assms(2)])
  then have ids: "distinct (map job_id (job # jobs))"
    unfolding assms(1) [symmetric] queue_order_def distinct_map by simp
  have "queue_order q tasks (w\<lparr>jw_jobs := filter (\<lambda>j. job_id j \<noteq> job_id job) (jw_jobs w), jw_env := e\<rparr>) =
      sort_key claim_order (filter (\<lambda>j. job_id j \<noteq> job_id job) (filter ?c (jw_jobs w)))"
    unfolding queue_order_def claimable_def filter_filter by (simp add: conj_ac cong: filter_cong)
  also have "\<dots> = filter (\<lambda>j. job_id j \<noteq> job_id job) (job # jobs)"
    unfolding assms(1) [symmetric] queue_order_def by (rule filter_sort [symmetric])
  also have "\<dots> = jobs" using ids by (auto simp: filter_id_conv image_iff)
  finally show ?thesis .
qed

lemma try_run_loop_spec:
  assumes "leaves_queue_alone tasks" and "queue_order q tasks w = jobs" and "distinct (map job_id (jw_jobs w))"
    and "\<not> jw_in_atomic_block w" and "length jobs < fuel"
  shows "try_run_loop fuel undo q tasks [] w = (Inr (), run_until_failure undo q tasks jobs w)"
  using assms
proof (induction jobs arbitrary: w fuel)
  case Nil
  then obtain n where "fuel = Suc n" by (cases fuel) auto
  with Nil show ?case by (simp add: try_run_def run_once_def run_claimed_def dequeue_queue_order)
next
  case (Cons job jobs)
  then obtain n where fuel: "fuel = Suc n" "length jobs < n" by (cases fuel) auto
  let ?w1 = "w\<lparr>jw_jobs := filter (\<lambda>j. job_id j \<noteq> job_id job) (jw_jobs w)\<rparr>"
  obtain r w2 where run: "run_job tasks job ?w1 = (r, w2)" by fastforce
  have w2: "w2 = ?w1\<lparr>jw_env := jw_env w2\<rparr>" by (rule run_job_alone [OF Cons.prems(1) run])
  show ?case
  proof (cases r)
    case (Inl e)
    then show ?thesis using Cons.prems(2,4) run
      by (auto simp: fuel try_run_def run_once_def run_claimed_def dequeue_queue_order)
  next
    case (Inr u)
    have "queue_order q tasks w2 = jobs"
      using queue_order_rest [OF Cons.prems(2,3), of "jw_env w2"] w2 by simp
    moreover have "distinct (map job_id (jw_jobs w2))" "\<not> jw_in_atomic_block w2"
      using Cons.prems(3,4) by (subst w2, simp add: distinct_map_filter)+
    ultimately have "try_run_loop n undo q tasks [] w2 = (Inr (), run_until_failure undo q tasks jobs w2)"
      using Cons.IH [OF Cons.prems(1)] fuel(2) by blast
    then show ?thesis using Inr Cons.prems(2,4) run
      by (auto simp: fuel try_run_def run_once_def run_claimed_def dequeue_queue_order)
  qed
qed

section \<open>The heartbeat of a consumer\<close>

definition consumer_queue :: "string \<Rightarrow> string \<Rightarrow> BaseTenantQueue" where
  "consumer_queue tenant queue_name =
     \<lparr>bq_queue = queue_name, bq_tenant = tenant, bq_heartbeat = True, bq_at_most_once = True\<rparr>"

text \<open>
  The rows of a queue of heartbeats of one consumer: they have the identifier of the queue, which is
  unique, are due and not locked, and name the consumer.
\<close>

definition heartbeat_row :: "string \<Rightarrow> 'e jobs_world \<Rightarrow> TenantPostgresQueueJob \<Rightarrow> bool" where
  "heartbeat_row consumer_id w job \<longleftrightarrow>
     job_task job = ''consumer_heartbeat'' \<and> map_of (job_args job) ''consumer_id'' = Some (PStr consumer_id) \<and>
     job_execute_at job \<le> jw_now w \<and> job_id job \<notin> set (jw_locked w)"

definition heartbeat_rows :: "string \<Rightarrow> string \<Rightarrow> string \<Rightarrow> 'e jobs_world \<Rightarrow> bool" where
  "heartbeat_rows tenant queue_name consumer_id w \<longleftrightarrow>
     distinct (map job_id (jw_jobs w)) \<and> jw_next_id w \<notin> job_id ` set (jw_jobs w) \<union> set (jw_locked w) \<and>
     (\<forall>j \<in> set (jw_jobs w).
        (job_globally_unique_identifier j = Some (queue_name @ ''_consumer_heartbeat'')) =
          (job_queue j = queue_name \<and> job_tenant j = tenant) \<and>
        (job_queue j = queue_name \<and> job_tenant j = tenant \<longrightarrow> heartbeat_row consumer_id w j)) \<and>
     length (filter (\<lambda>j. job_queue j = queue_name \<and> job_tenant j = tenant) (jw_jobs w)) \<le> 1"

lemma heartbeat_task_alone:
  "leaves_queue_alone [(''consumer_heartbeat'', heartbeat_task fuel out proxy_url limit)]"
  by (auto simp: leaves_queue_alone_def heartbeat_task_def jobs_world.truncate_def split: option.splits pyval.splits prod.splits)

lemma enqueued_heartbeat:
  assumes rows: "heartbeat_rows tenant queue_name k w"
    and run: "enqueue (consumer_queue tenant queue_name) tasks ''consumer_heartbeat'' (Some [(''consumer_id'', PStr k)]) None None w = (r, w')"
    and tasks: "map fst tasks = [''consumer_heartbeat'']"
  shows "\<exists>x job. r = Inr x \<and> filter (\<lambda>j. job_queue j = queue_name \<and> job_tenant j = tenant) (jw_jobs w') = [job] \<and>
    heartbeat_row k w' job \<and> distinct (map job_id (jw_jobs w')) \<and> w' = w\<lparr>jw_jobs := jw_jobs w', jw_next_id := jw_next_id w'\<rparr>"
proof -
  let ?Q = "\<lambda>j. job_queue j = queue_name \<and> job_tenant j = tenant"
  let ?id = "Some (queue_name @ ''_consumer_heartbeat'')"
  have ident: "job_globally_unique_identifier j = ?id \<longleftrightarrow> ?Q j" if "j \<in> set (jw_jobs w)" for j
    using rows that by (simp add: heartbeat_rows_def)
  show ?thesis
  proof (cases "filter ?Q (jw_jobs w)")
    case Nil
    have none: "?id \<notin> job_globally_unique_identifier ` set (jw_jobs w)"
    proof (rule notI, erule imageE)
      fix j
      assume "?id = job_globally_unique_identifier j" "j \<in> set (jw_jobs w)"
      with ident [of j] Nil show False unfolding filter_empty_conv by metis
    qed
    let ?job = "\<lparr>job_id = jw_next_id w, job_tenant = tenant, job_queue = queue_name, job_task = ''consumer_heartbeat'',
        job_args = [(''consumer_id'', PStr k)], job_priority = 0, job_created_at = jw_now w, job_execute_at = jw_now w,
        job_globally_unique_identifier = ?id\<rparr>"
    have "enqueue (consumer_queue tenant queue_name) tasks ''consumer_heartbeat'' (Some [(''consumer_id'', PStr k)]) None None w =
        (Inr (Some ?job), w\<lparr>jw_jobs := jw_jobs w @ [?job], jw_next_id := jw_next_id w + 1\<rparr>)"
      using none by (auto simp: enqueue_def consumer_queue_def tasks create_job_def list_ex_iff image_iff Let_def)
    with run have w': "r = Inr (Some ?job)" "w' = w\<lparr>jw_jobs := jw_jobs w @ [?job], jw_next_id := jw_next_id w + 1\<rparr>" by auto
    show ?thesis using rows Nil unfolding w'
      by (intro exI [of _ "Some ?job"] exI [of _ ?job]) (auto simp: heartbeat_rows_def heartbeat_row_def)
  next
    case (Cons job js)
    then have one: "filter ?Q (jw_jobs w) = [job]" using rows by (auto simp: heartbeat_rows_def)
    then have "job \<in> set (filter ?Q (jw_jobs w))" by simp
    then have job: "job \<in> set (jw_jobs w)" "?Q job" by simp_all
    then have "list_ex (\<lambda>j. job_globally_unique_identifier j = ?id \<and> job_tenant j = tenant) (jw_jobs w)"
      using ident [of job] by (auto simp: list_ex_iff)
    then have "enqueue (consumer_queue tenant queue_name) tasks ''consumer_heartbeat'' (Some [(''consumer_id'', PStr k)]) None None w =
        (Inr None, w)"
      by (simp add: enqueue_def consumer_queue_def tasks Let_def)
    with run have w': "r = Inr None" "w' = w" by auto
    have "heartbeat_row k w job" using rows job by (auto simp: heartbeat_rows_def)
    then show ?thesis using rows one unfolding w' by (auto simp: heartbeat_rows_def)
  qed
qed

lemma one_job_claimed:
  assumes "filter (\<lambda>j. job_queue j = queue_name \<and> job_tenant j = tenant) (jw_jobs w) = [job]" and "heartbeat_row k w job"
    and "map fst tasks = [''consumer_heartbeat'']"
  shows "queue_order (consumer_queue tenant queue_name) tasks w = [job]"
proof -
  have "filter (claimable w [] (map fst tasks) queue_name tenant) (jw_jobs w) =
      filter (\<lambda>j. job_execute_at j \<le> jw_now w \<and> job_task j = ''consumer_heartbeat'' \<and> job_id j \<notin> set (jw_locked w))
        (filter (\<lambda>j. job_queue j = queue_name \<and> job_tenant j = tenant) (jw_jobs w))"
    unfolding claimable_def assms(3) by (auto intro!: filter_cong)
  also have "\<dots> = [job]" unfolding assms(1) using assms(2) by (simp add: heartbeat_row_def)
  finally show ?thesis by (simp add: queue_order_def consumer_queue_def)
qed

section \<open>Properties\<close>

text \<open>C37: All jobs of a queue that can be claimed run in the order of their priorities (greatest first) and
  ages, each once, until one fails, with which the round ends: later jobs wait for the next round.
  A job that fails is gone if the queue is at most once; otherwise it is back and what it did
  is undone. If the tasks do not add jobs, one round more than there are jobs is enough.\<close>

theorem try_run_all_in_order:
  assumes "leaves_queue_alone tasks" and "distinct (map job_id (jw_jobs w))" and "\<not> jw_in_atomic_block w"
    and "length (jw_jobs w) < fuel"
  shows "try_run_all fuel undo q tasks w = (Inr (), run_until_failure undo q tasks (queue_order q tasks w) w)"
proof -
  have "length (queue_order q tasks w) \<le> length (jw_jobs w)"
    unfolding queue_order_def length_sort by (rule length_filter_le)
  then show ?thesis
    unfolding try_run_all_def using try_run_loop_spec [OF assms(1) refl assms(2,3)] assms(4) by simp
qed

definition sample_job :: "nat \<Rightarrow> int \<Rightarrow> string \<Rightarrow> TenantPostgresQueueJob" where
  "sample_job i priority task =
     \<lparr>job_id = i, job_tenant = ''t'', job_queue = ''q'', job_task = task, job_args = [], job_priority = priority,
      job_created_at = int i, job_execute_at = 0, job_globally_unique_identifier = None\<rparr>"

text \<open>Tasks that note what runs; one of them fails.\<close>

definition sample_tasks :: "nat list task_functions" where
  "sample_tasks =
     [(''note'', \<lambda>job w. (Inr (), w\<lparr>jw_env := jw_env w @ [job_id job]\<rparr>)),
      (''fail'', \<lambda>job w. (Inl TypeError, w\<lparr>jw_env := jw_env w @ [job_id job]\<rparr>))]"

definition sample_jobs :: "nat list jobs_world" where
  "sample_jobs =
     \<lparr>jw_jobs = [sample_job 1 0 ''note'', sample_job 2 0 ''fail'', sample_job 3 5 ''note'', sample_job 4 0 ''note''], jw_next_id = 5,
      jw_now = 10, jw_locked = [], jw_in_atomic_block = False, jw_env = []\<rparr>"

definition sample_queue :: BaseTenantQueue where
  "sample_queue = \<lparr>bq_queue = ''q'', bq_tenant = ''t'', bq_heartbeat = False, bq_at_most_once = False\<rparr>"

lemma sample_round:
  "case run_until_failure (\<lambda>before after. before) sample_queue sample_tasks (queue_order sample_queue sample_tasks sample_jobs) sample_jobs of
     w' \<Rightarrow> jw_env w' = [3, 1] \<and> map job_id (jw_jobs w') = [2, 4]"
  by code_simp

theorem try_run_all_in_order_witness:
  "case try_run_all 5 (\<lambda>before after. before) sample_queue sample_tasks sample_jobs of (r, w') \<Rightarrow>
     r = Inr () \<and> jw_env w' = [3, 1] \<and> map job_id (jw_jobs w') = [2, 4]"
proof -
  have "leaves_queue_alone sample_tasks"
    by (simp add: leaves_queue_alone_def sample_tasks_def jobs_world.truncate_def)
  moreover have "distinct (map job_id (jw_jobs sample_jobs))" "\<not> jw_in_atomic_block sample_jobs" "length (jw_jobs sample_jobs) < 5"
    by (simp_all add: sample_jobs_def sample_job_def)
  ultimately show ?thesis
    using try_run_all_in_order [of sample_tasks sample_jobs 5 "\<lambda>before after. before" sample_queue] sample_round by simp
qed


definition sample_heartbeat_world :: "unit event_world jobs_world" where
  "sample_heartbeat_world =
     \<lparr>jw_jobs = [], jw_next_id = 1, jw_now = 10, jw_locked = [], jw_in_atomic_block = False, jw_env = sample_events 200\<rparr>"


end
