(* ===== verification/Server_Permissions.thy ===== *)
theory Server_Permissions
  imports Server_Encoding "HOL-Library.List_Lexorder" "HOL-Library.Char_ord" "HOL-Library.Product_Lexorder"
begin

text \<open>
  Who may do what: \<open>core/models/guardian.py\<close>, \<open>core/models/tenant.py\<close>, \<open>core/utils/permissions.py\<close>,
  the permission strings, the views that change permissions and \<open>dataseries/views/contract.py\<close>, which
  every request to the children of a data series goes through.

  The tables of Django's users and of django-guardian are the state; the functions of both
  libraries are the parameter \<open>guardian\<close>. An object is known by the number of its UUID.
\<close>

section \<open>Permission strings\<close>

definition PERMISSION_HTTP_VERBS :: "string list" where
  "PERMISSION_HTTP_VERBS = [''GET'', ''OPTIONS'', ''HEAD'', ''POST'', ''PUT'', ''PATCH'', ''DELETE'']"

definition ds_permission_for_rest_method :: "string \<Rightarrow> string \<Rightarrow> string" where
  "ds_permission_for_rest_method method action = ''ds_'' @ lower method @ ''_'' @ action"

definition get_permission_string_for_action_and_http_verb :: "string \<Rightarrow> string \<Rightarrow> string" where
  "get_permission_string_for_action_and_http_verb action http_verb =
     ''dataseries.'' @ ds_permission_for_rest_method http_verb action"

definition flow_permission_for_rest_method :: "string \<Rightarrow> string \<Rightarrow> string \<Rightarrow> string" where
  "flow_permission_for_rest_method entity method action = entity @ ''_'' @ lower method @ ''_'' @ action"

definition flow_permission_string :: "string \<Rightarrow> string \<Rightarrow> string \<Rightarrow> string" where
  "flow_permission_string entity action http_verb = ''flow.'' @ flow_permission_for_rest_method entity http_verb action"

definition ALL_AVAILABLE_PERMISSIONS_DATA_SERIES :: "string list" where
  "ALL_AVAILABLE_PERMISSIONS_DATA_SERIES =
     [''data_series'', ''data_point'', ''history_data_point'', ''structure_element'', ''create_view'', ''cube_sql'',
      ''data_point_bulk'', ''check_external_ids'', ''prune_history'', ''permission'', ''consumer'']"

text \<open>\<open>all_perms_without_prefix\<close> of the permission views, with the prefix.\<close>

record permission_area =
  perm_prefix :: string
  all_perms_without_prefix :: "string list"

definition data_series_area :: permission_area where
  "data_series_area =
     \<lparr>perm_prefix = ''dataseries'',
      all_perms_without_prefix = concat (map (\<lambda>action. map (\<lambda>http_verb. ds_permission_for_rest_method http_verb action)
        PERMISSION_HTTP_VERBS) ALL_AVAILABLE_PERMISSIONS_DATA_SERIES)\<rparr>"

definition flow_codenames :: "string \<Rightarrow> string list \<Rightarrow> string list" where
  "flow_codenames entity actions =
     concat (map (\<lambda>action. map (\<lambda>http_verb. flow_permission_for_rest_method entity http_verb action) PERMISSION_HTTP_VERBS) actions)"

definition engine_area :: permission_area where
  "engine_area =
     \<lparr>perm_prefix = ''flow'', all_perms_without_prefix = flow_codenames ''engine'' [''engine'', ''permission'', ''secret'', ''access'']\<rparr>"

definition http_endpoint_area :: permission_area where
  "http_endpoint_area =
     \<lparr>perm_prefix = ''flow'',
      all_perms_without_prefix = flow_codenames ''http_endpoint'' [''http_endpoint'', ''permission''] @ [''use'']\<rparr>"

text \<open>\<open>perm.split('.', 1)\<close>: the part behind the first dot, all of it without a dot.\<close>

definition codename_of :: "string \<Rightarrow> string" where
  "codename_of perm = (if CHR ''.'' \<in> set perm then tl (dropWhile (\<lambda>c. c \<noteq> CHR ''.'') perm) else perm)"

definition with_prefix :: "string \<Rightarrow> string \<Rightarrow> string" where
  "with_prefix prefix codename = prefix @ ''.'' @ codename"

section \<open>Users, groups and tenants\<close>

record auth_user =
  us_id :: nat
  us_is_anonymous :: bool
  us_is_superuser :: bool
  us_is_staff :: bool

record Tenant_User =
  tu_tenant :: nat
  tu_user :: nat
  tu_system :: bool
  tu_tenant_manager :: bool
  tu_deleted_at :: "int option"

datatype principal = As_user nat | As_group nat

text \<open>
  Rows of the object permissions are (user or group, object, codename), those of the global
  permissions (user or group, \<open>app_label.codename\<close>), those of the memberships (user, group).
\<close>

record auth_db =
  user_object_permissions :: "(nat \<times> nat \<times> string) list"
  group_object_permissions :: "(nat \<times> nat \<times> string) list"
  user_permissions :: "(nat \<times> string) list"
  group_permissions :: "(nat \<times> string) list"
  user_groups :: "(nat \<times> nat) list"
  tenant_users :: "Tenant_User list"

text \<open>The functions of Django and django-guardian.\<close>

record guardian =
  ga_has_perm :: "auth_db \<Rightarrow> auth_user \<Rightarrow> string \<Rightarrow> bool"
  ga_backends :: "(auth_db \<Rightarrow> auth_user \<Rightarrow> string list) list"
  ga_get_perms :: "auth_db \<Rightarrow> auth_user \<Rightarrow> nat \<Rightarrow> string list"
  ga_get_user_perms :: "auth_db \<Rightarrow> nat \<Rightarrow> nat \<Rightarrow> string list"
  ga_get_group_perms :: "auth_db \<Rightarrow> nat \<Rightarrow> nat \<Rightarrow> string list"
  ga_assign_perm :: "string \<Rightarrow> principal \<Rightarrow> nat option \<Rightarrow> (auth_db, unit) api"
  ga_remove_perm :: "string \<Rightarrow> principal \<Rightarrow> nat option \<Rightarrow> (auth_db, unit) api"
  ga_anonymous_user :: auth_user

text \<open>The manager \<open>Tenant_User.objects\<close> hides the rows that are softly deleted.\<close>

definition is_tenant_manager :: "auth_db \<Rightarrow> auth_user \<Rightarrow> nat option \<Rightarrow> bool result" where
  "is_tenant_manager db user tenant =
     (case tenant of
        None \<Rightarrow> Inl TypeError
      | Some t \<Rightarrow>
          if us_is_anonymous user then Inr False
          else (let tenant_user_query = filter (\<lambda>r. tu_deleted_at r = None \<and> tu_user r = us_id user \<and> tu_tenant r = t) (tenant_users db) in
            if 1 < length tenant_user_query then Inl AssertionError
            else Inr (tenant_user_query \<noteq> [] \<and> tu_tenant_manager (hd tenant_user_query))))"

section \<open>core/models/guardian.py\<close>

record visibility =
  vi_with_staff :: bool
  vi_app_label :: string
  vi_use_groups :: bool
  vi_any_perm :: bool
  vi_with_superuser :: bool
  vi_with_tenant_manager :: bool
  vi_accept_global_perms :: bool

text \<open>The arguments with their defaults.\<close>

definition default_visibility :: "bool \<Rightarrow> string \<Rightarrow> visibility" where
  "default_visibility with_staff app_label =
     \<lparr>vi_with_staff = with_staff, vi_app_label = app_label, vi_use_groups = True, vi_any_perm = False,
      vi_with_superuser = True, vi_with_tenant_manager = True, vi_accept_global_perms = False\<rparr>"

text \<open>\<open>itertools.groupby\<close> with the first component as key.\<close>

fun groupby :: "('k \<times> 'v) list \<Rightarrow> ('k \<times> 'v list) list" where
  "groupby [] = []"
| "groupby ((k, v) # rows) =
     (case groupby rows of
        [] \<Rightarrow> [(k, [v])]
      | (k', vs) # groups \<Rightarrow> if k = k' then (k, v # vs) # groups else (k, [v]) # (k', vs) # groups)"

definition complete_pks :: "string list \<Rightarrow> (nat \<times> string) list \<Rightarrow> nat list" where
  "complete_pks codenames data =
     map fst (filter (\<lambda>(pk, obj_codenames). set codenames \<subseteq> set obj_codenames) (groupby (sort_key fst data)))"

definition codename_filter :: "string list \<Rightarrow> (nat \<times> string) list \<Rightarrow> (nat \<times> string) list" where
  "codename_filter codenames rows = (if codenames \<noteq> [] then filter (\<lambda>(pk, c). c \<in> set codenames) rows else rows)"

definition user_obj_perms :: "auth_db \<Rightarrow> nat \<Rightarrow> (nat \<times> string) list" where
  "user_obj_perms db user = map snd (filter (\<lambda>r. fst r = user) (user_object_permissions db))"

definition groups_obj_perms :: "auth_db \<Rightarrow> nat \<Rightarrow> (nat \<times> string) list" where
  "groups_obj_perms db user =
     map snd (filter (\<lambda>r. (user, fst r) \<in> set (user_groups db)) (group_object_permissions db))"

definition get_objects_for_user_custom ::
  "guardian \<Rightarrow> auth_db \<Rightarrow> nat option \<Rightarrow> ('o \<Rightarrow> nat) \<Rightarrow> auth_user \<Rightarrow> string list \<Rightarrow> 'o list \<Rightarrow> visibility \<Rightarrow> 'o list result" where
  "get_objects_for_user_custom g db tenant pk_of user perms queryset v =
     (let codenames = remdups (map codename_of perms) in
      if vi_with_superuser v \<and> us_is_superuser user then Inr queryset
      else if vi_with_staff v \<and> us_is_staff user then Inr queryset
      else rbind (if vi_with_tenant_manager v then is_tenant_manager db user tenant else Inr False) (\<lambda>manager.
        if manager then Inr queryset
        else
          (let user1 = (if us_is_anonymous user then ga_anonymous_user g else user);
               global_perms = (if vi_accept_global_perms v \<and> vi_with_superuser v
                 then filter (\<lambda>code. ga_has_perm g db user1 (vi_app_label v @ ''.'' @ code)) codenames else []);
               codenames1 = filter (\<lambda>code. code \<notin> set global_perms) codenames in
           if global_perms \<noteq> [] \<and> (codenames1 = [] \<or> vi_any_perm v) then Inr queryset
           else
             (let has_global_perms = (global_perms \<noteq> [] \<and> codenames1 \<noteq> []);
                  user_rows = codename_filter codenames1 (user_obj_perms db (us_id user1));
                  group_rows = codename_filter codenames1 (groups_obj_perms db (us_id user1)) in
              if vi_use_groups v \<and> \<not> vi_any_perm v \<and> 1 < length codenames1 \<and> \<not> has_global_perms then
                (let pk_list = complete_pks codenames1 (user_rows @ group_rows) in
                 Inr (filter (\<lambda>obj. pk_of obj \<in> set pk_list) queryset))
              else
                (let user_pks = (if \<not> vi_any_perm v \<and> 1 < length codenames1
                       then filter (\<lambda>pk. length codenames1 \<le> count_list (map fst user_rows) pk) (map fst user_rows)
                       else map fst user_rows);
                     group_pks = (if vi_use_groups v then map fst group_rows else []) in
                 Inr (filter (\<lambda>obj. pk_of obj \<in> set user_pks \<or> pk_of obj \<in> set group_pks) queryset))))))"

section \<open>core/utils/permissions.py\<close>

definition get_permissions_of_user :: "guardian \<Rightarrow> auth_db \<Rightarrow> auth_user \<Rightarrow> string list" where
  "get_permissions_of_user g db user = concat (map (\<lambda>backend. backend db user) (ga_backends g))"

definition get_assignable_permissions :: "guardian \<Rightarrow> auth_db \<Rightarrow> auth_user \<Rightarrow> string list \<Rightarrow> string list result" where
  "get_assignable_permissions g db user relevant_perms =
     (if us_is_anonymous user then Inl AssertionError
      else Inr (filter (\<lambda>perm. perm \<in> set relevant_perms) (get_permissions_of_user g db user)))"

definition get_directly_assigned_permissions :: "principal \<Rightarrow> auth_db \<Rightarrow> string list \<Rightarrow> string list" where
  "get_directly_assigned_permissions instance db relevant_perms =
     (case instance of
        As_user u \<Rightarrow> filter (\<lambda>perm. perm \<in> set relevant_perms) (map snd (filter (\<lambda>r. fst r = u) (user_permissions db)))
      | As_group gr \<Rightarrow> filter (\<lambda>perm. perm \<in> set relevant_perms) (map snd (filter (\<lambda>r. fst r = gr) (group_permissions db))))"

definition perms_for_user :: "guardian \<Rightarrow> auth_db \<Rightarrow> permission_area \<Rightarrow> auth_user \<Rightarrow> nat \<Rightarrow> string list" where
  "perms_for_user g db area user model_obj =
     map (with_prefix (perm_prefix area))
       (filter (\<lambda>elem. elem \<in> set (all_perms_without_prefix area)) (ga_get_perms g db user model_obj))"

definition directly_assigned_perms :: "guardian \<Rightarrow> auth_db \<Rightarrow> permission_area \<Rightarrow> principal \<Rightarrow> nat \<Rightarrow> string list" where
  "directly_assigned_perms g db area instance model_obj =
     map (with_prefix (perm_prefix area)) (filter (\<lambda>elem. elem \<in> set (all_perms_without_prefix area))
       (case instance of
          As_user u \<Rightarrow> ga_get_user_perms g db u model_obj
        | As_group gr \<Rightarrow> ga_get_group_perms g db gr model_obj))"

section \<open>The views that change permissions\<close>

definition atomic_db :: "(auth_db, 'a) api \<Rightarrow> (auth_db, 'a) api" where
  "atomic_db m db = (case m db of (Inl e, _) \<Rightarrow> (Inl e, db) | (Inr x, db') \<Rightarrow> (Inr x, db'))"

definition perms_minus :: "string list \<Rightarrow> string list \<Rightarrow> string list" where
  "perms_minus xs ys = filter (\<lambda>p. p \<notin> set ys) xs"

text \<open>The loops over the sets of permissions to remove and to add.\<close>

definition replace_permissions ::
  "guardian \<Rightarrow> (string list \<Rightarrow> string list) \<Rightarrow> principal \<Rightarrow> nat option \<Rightarrow> string list \<Rightarrow> string list \<Rightarrow> (auth_db, unit) api" where
  "replace_permissions g ord instance obj to_remove to_add =
     api_bind (api_for (\<lambda>perm. ga_remove_perm g perm instance obj) (set_iter ord to_remove)) (\<lambda>_.
       api_for (\<lambda>perm. ga_assign_perm g perm instance obj) (set_iter ord to_add))"

text \<open>
  \<open>update\<close> of the serializers of object permissions (data series, engines and endpoints; of users and of
  groups): \<open>validated\<close> is \<open>validated_data\<close> at the key of the permissions.
\<close>

definition update_object_permissions ::
  "guardian \<Rightarrow> (string list \<Rightarrow> string list) \<Rightarrow> permission_area \<Rightarrow> auth_user \<Rightarrow> nat option \<Rightarrow> nat \<Rightarrow> string list \<Rightarrow>
     principal \<Rightarrow> string list option \<Rightarrow> (auth_db, unit) api" where
  "update_object_permissions g ord area requesting_user tenant obj assignable instance validated =
     atomic_db (\<lambda>db.
       case validated of
         None \<Rightarrow> (Inr (), db)
       | Some new_permissions \<Rightarrow>
           (let directly_assigned = directly_assigned_perms g db area instance obj;
                to_remove = perms_minus directly_assigned new_permissions;
                to_add = perms_minus new_permissions directly_assigned;
                permissions_we_dont_have = perms_minus to_remove assignable @ perms_minus to_add assignable in
            api_bind
              (if permissions_we_dont_have \<noteq> []
               then api_bind (api_lift (is_tenant_manager db requesting_user tenant)) (\<lambda>manager.
                 api_when (\<not> manager) (api_raise (PermissionDenied ''can not change permissions you do not have'')))
               else api_return ())
              (\<lambda>_. replace_permissions g ord instance (Some obj) to_remove to_add) db))"

definition put_object_permissions ::
  "guardian \<Rightarrow> (string list \<Rightarrow> string list) \<Rightarrow> permission_area \<Rightarrow> auth_user \<Rightarrow> nat option \<Rightarrow> nat \<Rightarrow>
     principal \<Rightarrow> string list option \<Rightarrow> (auth_db, unit) api" where
  "put_object_permissions g ord area user tenant obj instance validated =
     api_bind (api_get (\<lambda>db. get_assignable_permissions g db user
         (map (with_prefix (perm_prefix area)) (all_perms_without_prefix area)))) (\<lambda>r.
     api_bind (api_lift r) (\<lambda>held.
     api_bind (api_get (\<lambda>db. filter (\<lambda>p. p \<in> set (perms_for_user g db area user obj)) held)) (\<lambda>assignable.
     update_object_permissions g ord area user tenant obj assignable instance validated)))"

text \<open>The same for the global permissions, where managers of the tenant have no privilege.\<close>

definition update_global_permissions ::
  "guardian \<Rightarrow> (string list \<Rightarrow> string list) \<Rightarrow> string list \<Rightarrow> string list \<Rightarrow> principal \<Rightarrow> string list option \<Rightarrow> (auth_db, unit) api" where
  "update_global_permissions g ord relevant assignable instance validated =
     atomic_db (\<lambda>db.
       case validated of
         None \<Rightarrow> (Inr (), db)
       | Some new_permissions \<Rightarrow>
           (let directly_assigned = get_directly_assigned_permissions instance db relevant;
                to_remove = perms_minus directly_assigned new_permissions;
                to_add = perms_minus new_permissions directly_assigned;
                permissions_we_dont_have = perms_minus to_remove assignable @ perms_minus to_add assignable in
            if permissions_we_dont_have \<noteq> [] then (Inl (PermissionDenied ''can not change permissions you do not have''), db)
            else replace_permissions g ord instance None to_remove to_add db))"

definition put_global_permissions ::
  "guardian \<Rightarrow> (string list \<Rightarrow> string list) \<Rightarrow> string list \<Rightarrow> auth_user \<Rightarrow> principal \<Rightarrow> string list option \<Rightarrow> (auth_db, unit) api" where
  "put_global_permissions g ord relevant user instance validated =
     api_bind (api_get (\<lambda>db. get_assignable_permissions g db user relevant)) (\<lambda>r.
     api_bind (api_lift r) (\<lambda>assignable.
     update_global_permissions g ord relevant assignable instance validated))"

section \<open>UUIDs\<close>

text \<open>\<open>s.replace(pat, '')\<close> and the number that \<open>uuid.UUID(s)\<close> reads: \<open>int(hex, 16)\<close> of 32 characters, which may
  have a prefix \<open>0x\<close>, a sign, spaces around and single underscores.\<close>

function remove_all :: "string \<Rightarrow> string \<Rightarrow> string" where
  "remove_all pat [] = []"
| "remove_all pat (c # cs) =
     (if take (length pat) (c # cs) = pat then remove_all pat (drop (length pat - 1) cs) else c # remove_all pat cs)"
  by pat_completeness auto
termination by (relation "measure (\<lambda>(pat, s). length s)") auto

fun parse_hex_digits :: "nat \<Rightarrow> string \<Rightarrow> nat option" where
  "parse_hex_digits n [] = Some n"
| "parse_hex_digits n (c # cs) =
     (case hex_value c of
        Some d \<Rightarrow> parse_hex_digits (16 * n + d) cs
      | None \<Rightarrow> if c = CHR ''_'' \<and> cs \<noteq> [] \<and> hex_value (hd cs) \<noteq> None then parse_hex_digits n cs else None)"

definition parse_hex :: "string \<Rightarrow> nat option" where
  "parse_hex s =
     (let s1 = strip s;
          s2 = (if take 1 s1 = ''+'' then drop 1 s1 else s1);
          s3 = (if lower (take 2 s2) = ''0x'' then (if take 1 (drop 2 s2) = ''_'' then drop 3 s2 else drop 2 s2) else s2) in
      if s3 \<noteq> [] \<and> hex_value (hd s3) \<noteq> None then parse_hex_digits 0 s3 else None)"

definition parse_uuid :: "string \<Rightarrow> nat option" where
  "parse_uuid s =
     (let s1 = remove_all ''uuid:'' (remove_all ''urn:'' s);
          brace = (\<lambda>c. c \<in> {CHR 0x7B, CHR 0x7D});
          s2 = remove_all ''-'' (rev (dropWhile brace (rev (dropWhile brace s1)))) in
      if length s2 \<noteq> 32 then None else parse_hex s2)"

section \<open>dataseries/views/contract.py\<close>

text \<open>What the request is checked against; \<open>DataSeries.objects\<close> shows the live rows of the current tenant.\<close>

record DataSeries_row =
  dsr_id :: nat
  dsr_external_id :: string
  dsr_tenant :: nat
  dsr_deleted_at :: "int option"
  dsr_backend :: string
  dsr_locked :: bool

record maintenance =
  MAINTENANCE_MODE :: bool
  MAINTENANCE_USER_ID :: "nat option"

definition deprecated_backend_strings :: "string list" where
  "deprecated_backend_strings = [''DYNAMIC_SQL_V1'', ''DYNAMIC_SQL_MATERIALIZED'']"

definition backend_is_deprecated :: "string \<Rightarrow> bool" where
  "backend_is_deprecated backend \<longleftrightarrow> backend \<in> set deprecated_backend_strings"

definition DataSeries_objects :: "nat option \<Rightarrow> DataSeries_row list \<Rightarrow> DataSeries_row list" where
  "DataSeries_objects tenant rows =
     filter (\<lambda>ds. dsr_deleted_at ds = None \<and> (case tenant of None \<Rightarrow> True | Some t \<Rightarrow> dsr_tenant ds = t)) rows"

text \<open>The path of the request: by external id or by id, the latter still a string.\<close>

datatype series_key = By_external_id string | By_id string

definition get_object_or_404 :: "('a \<Rightarrow> bool) \<Rightarrow> 'a list \<Rightarrow> 'a result" where
  "get_object_or_404 P xs =
     (case filter P xs of [] \<Rightarrow> Inl Http404 | [x] \<Rightarrow> Inr x | _ \<Rightarrow> Inl MultipleObjectsReturned)"

text \<open>The id as a UUID; the string of a UUID denotes it.\<close>

definition get_data_series_id :: "nat option \<Rightarrow> DataSeries_row list \<Rightarrow> series_key \<Rightarrow> nat option result" where
  "get_data_series_id tenant rows kwargs =
     (case kwargs of
        By_external_id external_id \<Rightarrow>
          rbind (get_object_or_404 (\<lambda>ds. dsr_external_id ds = external_id) (DataSeries_objects tenant rows))
            (\<lambda>ds. Inr (Some (dsr_id ds)))
      | By_id s \<Rightarrow> Inr (parse_uuid s))"

definition ensure_http_method_globally_allowed :: "maintenance \<Rightarrow> DataSeries_row \<Rightarrow> auth_user \<Rightarrow> string \<Rightarrow> unit result" where
  "ensure_http_method_globally_allowed settings data_series user method =
     (if MAINTENANCE_MODE settings \<and> MAINTENANCE_USER_ID settings \<noteq> Some (us_id user)
      then Inl (PermissionDenied ''system is in maintenance mode'')
      else if backend_is_deprecated (dsr_backend data_series) \<and> method \<in> {''POST'', ''PUT'', ''PATCH'', ''DELETE''}
      then Inl (PermissionDenied ''dataseries backend is deprecated'')
      else if dsr_locked data_series \<and> method \<in> {''POST'', ''PUT'', ''PATCH'', ''DELETE''}
      then Inl (PermissionDenied ''dataseries is locked'')
      else Inr ())"

definition data_series_read_perm :: string where
  "data_series_read_perm = get_permission_string_for_action_and_http_verb ''data_series'' ''GET''"

definition data_series_exists_for_user ::
  "guardian \<Rightarrow> auth_db \<Rightarrow> nat option \<Rightarrow> auth_user \<Rightarrow> DataSeries_row list \<Rightarrow> bool result" where
  "data_series_exists_for_user g db tenant user data_series_queryset =
     rbind (get_objects_for_user_custom g db tenant dsr_id user [data_series_read_perm] data_series_queryset
       (default_visibility True ''dataseries'')) (\<lambda>objs. Inr (length objs = 1))"

definition get_data_series_object ::
  "guardian \<Rightarrow> maintenance \<Rightarrow> auth_db \<Rightarrow> DataSeries_row list \<Rightarrow> nat option \<Rightarrow> auth_user \<Rightarrow> series_key \<Rightarrow> string \<Rightarrow>
     string option \<Rightarrow> DataSeries_row option result" where
  "get_data_series_object g settings db rows tenant user kwargs action method =
     (case method of
        None \<Rightarrow> Inl (PermissionDenied ''could not safely determine HTTP method'')
      | Some m \<Rightarrow>
          (let action_perm = get_permission_string_for_action_and_http_verb action m in
           if \<not> ga_has_perm g db user data_series_read_perm then
             Inl (PermissionDenied ''you are globally not allowed to GET on dataseries'')
           else if \<not> ga_has_perm g db user action_perm then
             Inl (PermissionDenied ''you are globally not allowed to run the action'')
           else
             rbind (get_data_series_id tenant rows kwargs) (\<lambda>data_series_id.
             case data_series_id of
               None \<Rightarrow> Inl (NotFound ''no valid UUID'')
             | Some i \<Rightarrow>
                 (let data_series_queryset = filter (\<lambda>ds. dsr_id ds = i) (DataSeries_objects tenant rows) in
                  if data_series_queryset = [] then Inr None
                  else
                    rbind (get_objects_for_user_custom g db tenant dsr_id user [data_series_read_perm, action_perm]
                      data_series_queryset (default_visibility True ''dataseries'')) (\<lambda>data_series_objs.
                    case data_series_objs of
                      [] \<Rightarrow>
                        rbind (data_series_exists_for_user g db tenant user data_series_queryset) (\<lambda>visible.
                        if visible then Inl (PermissionDenied ''you do not have the permissions to run method'')
                        else Inl (PermissionDenied ''dataseries not found, do you have the correct permissions?''))
                    | ds # _ \<Rightarrow>
                        rbind (ensure_http_method_globally_allowed settings ds user m) (\<lambda>_. Inr (Some ds)))))))"

definition has_data_series_permission ::
  "guardian \<Rightarrow> maintenance \<Rightarrow> auth_db \<Rightarrow> DataSeries_row list \<Rightarrow> nat option \<Rightarrow> auth_user \<Rightarrow> series_key \<Rightarrow> string \<Rightarrow>
     string option \<Rightarrow> bool result" where
  "has_data_series_permission g settings db rows tenant user kwargs action method =
     (case get_data_series_object g settings db rows tenant user kwargs action method of
        Inl (PermissionDenied e) \<Rightarrow> Inr False
      | Inl e \<Rightarrow> Inl e
      | Inr ds \<Rightarrow> Inr (ds \<noteq> None))"

end
