(* ===== verification/Server_Flow.thy ===== *)
theory Server_Flow
  imports Server_Permissions Server_Text
begin

text \<open>
  Flows (\<open>skipper/skipper/flow\<close>): engines run the flows of a tenant, HTTP endpoints say which request
  goes to which engine. nginx asks \<open>flow_impl_view\<close>, \<open>flow_impl_public_view\<close> and \<open>engine access\<close> whether it
  may pass a request on; the answer holds the upstream and the secret of the engine. The
  other views administrate engines and endpoints.

  Python's \<open>re.match\<close> is a parameter, as the pattern comes from the user; the fixed patterns of the
  code are written out. A view runs in a transaction (\<open>ATOMIC_REQUESTS\<close>), so one that changes the tables is
  a function to the new tables or an exception.
\<close>

section \<open>The tables\<close>

record Tenant_row =
  tn_id :: nat
  tn_name :: string
  tn_deleted_at :: "int option"

record Engine_row =
  en_id :: nat
  en_tenant :: nat
  en_external_id :: string
  en_upstream :: string
  en_secret :: string
  en_deleted_at :: "int option"

record HttpEndpoint_row =
  ep_id :: nat
  ep_external_id :: string
  ep_tenant :: nat
  ep_path :: string
  ep_method :: string
  ep_public :: bool
  ep_engine_id :: "nat option"
  ep_system :: bool
  ep_deleted_at :: "int option"

record flow_db =
  tenants :: "Tenant_row list"
  engines :: "Engine_row list"
  http_endpoints :: "HttpEndpoint_row list"
  flow_auth :: auth_db

text \<open>What comes from the settings and from Python.\<close>

record flow_settings =
  SKIPPER_CONTAINER_UPSTREAM :: "string option"
  SKIPPER_DEFAULT_NODE_RED_UPSTREAM :: string
  SKIPPER_DEFAULT_SYSTEM_SECRET :: string
  SESSION_COOKIE_NAME :: string
  re_match :: "string \<Rightarrow> string \<Rightarrow> bool result"

text \<open>The managers \<open>objects\<close>: live rows, of the current tenant if there is one.\<close>

definition of_current :: "nat option \<Rightarrow> nat \<Rightarrow> bool" where
  "of_current current t = (case current of None \<Rightarrow> True | Some c \<Rightarrow> t = c)"

definition Engine_objects :: "nat option \<Rightarrow> flow_db \<Rightarrow> Engine_row list" where
  "Engine_objects current db = filter (\<lambda>e. en_deleted_at e = None \<and> of_current current (en_tenant e)) (engines db)"

definition HttpEndpoint_objects :: "nat option \<Rightarrow> flow_db \<Rightarrow> HttpEndpoint_row list" where
  "HttpEndpoint_objects current db =
     filter (\<lambda>e. ep_deleted_at e = None \<and> of_current current (ep_tenant e)) (http_endpoints db)"

section \<open>flow/models\<close>

definition Engine_qs ::
  "guardian \<Rightarrow> flow_db \<Rightarrow> nat option \<Rightarrow> auth_user \<Rightarrow> string \<Rightarrow> string \<Rightarrow> Engine_row list result" where
  "Engine_qs g db current user action method =
     get_objects_for_user_custom g (flow_auth db) current en_id user
       [flow_permission_string ''engine'' ''engine'' ''GET'', flow_permission_string ''engine'' action method]
       (Engine_objects current db) (default_visibility True ''flow'')"

definition HttpEndpoint_qs ::
  "guardian \<Rightarrow> flow_db \<Rightarrow> nat option \<Rightarrow> auth_user \<Rightarrow> string \<Rightarrow> string \<Rightarrow> HttpEndpoint_row list result" where
  "HttpEndpoint_qs g db current user action method =
     get_objects_for_user_custom g (flow_auth db) current ep_id user
       [flow_permission_string ''http_endpoint'' ''http_endpoint'' ''GET'', flow_permission_string ''http_endpoint'' action method]
       (filter (\<lambda>e. \<not> ep_system e) (HttpEndpoint_objects current db)) (default_visibility True ''flow'')"

text \<open>The join of \<open>TenantForeignKey\<close> compares the tenants as well. \<open>coll\<close> is the collation of PostgreSQL.\<close>

definition joined_engine :: "flow_db \<Rightarrow> HttpEndpoint_row \<Rightarrow> Engine_row option" where
  "joined_engine db e = find (\<lambda>en. ep_engine_id e = Some (en_id en) \<and> en_tenant en = ep_tenant e) (engines db)"

definition active_endpoints ::
  "(string \<Rightarrow> 'k::linorder) \<Rightarrow> flow_db \<Rightarrow> nat option \<Rightarrow> nat option \<Rightarrow> string \<Rightarrow> bool \<Rightarrow> HttpEndpoint_row list" where
  "active_endpoints coll db current tenant method public =
     sort_key (\<lambda>e. (ep_system e, coll (ep_external_id e)))
       (filter (\<lambda>e.
          ((ep_engine_id e \<noteq> None \<and> (case joined_engine db e of None \<Rightarrow> False | Some en \<Rightarrow> en_deleted_at en = None) \<and> \<not> ep_system e) \<or>
           (ep_engine_id e = None \<and> joined_engine db e = None \<and> ep_system e)) \<and>
          tenant = Some (ep_tenant e) \<and> ep_method e = method \<and> ep_public e = public)
        (HttpEndpoint_objects current db))"

text \<open>\<open>self.engine\<close>: any row, also a deleted one, but of the current tenant.\<close>

definition engine_of :: "flow_db \<Rightarrow> nat option \<Rightarrow> HttpEndpoint_row \<Rightarrow> Engine_row option" where
  "engine_of db current e = find (\<lambda>en. ep_engine_id e = Some (en_id en) \<and> of_current current (en_tenant en)) (engines db)"

definition engine_prop ::
  "flow_db \<Rightarrow> nat option \<Rightarrow> HttpEndpoint_row \<Rightarrow> bool \<Rightarrow> bool \<Rightarrow> (Engine_row \<Rightarrow> string) \<Rightarrow> string \<Rightarrow> string result" where
  "engine_prop db current self has_user has_request property system_property =
     (if ep_engine_id self = None \<and> \<not> ep_system self then Inl AssertionError
      else if ep_engine_id self \<noteq> None then
        (case engine_of db current self of
           None \<Rightarrow> Inl AssertionError
         | Some engine \<Rightarrow>
             if en_deleted_at engine \<noteq> None then Inl AssertionError
             else if en_tenant engine \<noteq> ep_tenant self then Inl AssertionError
             else Inr (property engine))
      else if ep_system self then
        (if ep_public self then (if \<not> has_request then Inl AssertionError else Inr system_property)
         else if \<not> has_user \<or> \<not> has_request then Inl AssertionError
         else Inr system_property)
      else Inl AssertionError)"

definition get_secret :: "flow_settings \<Rightarrow> flow_db \<Rightarrow> nat option \<Rightarrow> HttpEndpoint_row \<Rightarrow> bool \<Rightarrow> bool \<Rightarrow> string result" where
  "get_secret settings db current self has_user has_request =
     rbind (engine_prop db current self has_user has_request en_secret (SKIPPER_DEFAULT_SYSTEM_SECRET settings)) (\<lambda>secret.
       if secret = [] then Inl AssertionError else Inr secret)"

definition get_upstream :: "flow_settings \<Rightarrow> flow_db \<Rightarrow> nat option \<Rightarrow> HttpEndpoint_row \<Rightarrow> bool \<Rightarrow> bool \<Rightarrow> string result" where
  "get_upstream settings db current self has_user has_request =
     engine_prop db current self has_user has_request en_upstream (SKIPPER_DEFAULT_NODE_RED_UPSTREAM settings)"

section \<open>Requests and responses\<close>

text \<open>Fields of the request that the views read. The current tenant is that of the user, as the middleware sets it.\<close>

record flow_request =
  rq_user :: auth_user
  rq_username :: string
  rq_original_uri :: "string option"
  rq_original_method :: "string option"
  rq_cookies :: "(string \<times> string) list"

record flow_response =
  fr_status :: nat
  fr_headers :: "(string \<times> string) list"

text \<open>\<open>response[name] = value\<close>: Django refuses values with line breaks.\<close>

definition header_ok :: "string \<Rightarrow> bool" where
  "header_ok v \<longleftrightarrow> list_all (\<lambda>c. char_code c \<noteq> 10 \<and> char_code c \<noteq> 13) v"

definition ok_response :: "(string \<times> string) list \<Rightarrow> flow_response result" where
  "ok_response headers =
     (if list_all (\<lambda>(k, v). header_ok v) headers then Inr \<lparr>fr_status = 200, fr_headers = headers\<rparr>
      else Inl (ValueError ''Header values can not contain newlines''))"

definition forbidden :: flow_response where
  "forbidden = \<lparr>fr_status = 403, fr_headers = []\<rparr>"

definition sanitize_cookies :: "flow_settings \<Rightarrow> (string \<times> string) list \<Rightarrow> string" where
  "sanitize_cookies settings cookies =
     join ''; '' (map (\<lambda>(x, y). x @ ''='' @ y) (filter (\<lambda>(x, y). x \<noteq> SESSION_COOKIE_NAME settings) cookies))"

text \<open>\<open>str(urlparse(url).hostname)\<close>.\<close>

definition hostname_str :: "string \<Rightarrow> string result" where
  "hostname_str url = rbind (urlsplit_netloc url) (\<lambda>netloc.
     Inr (case urlsplit_hostname netloc of None \<Rightarrow> ''None'' | Some h \<Rightarrow> h))"

text \<open>\<open>urlparse(uri).path\<close>: without query, fragment and the parameters of the last segment.\<close>

definition uses_params :: "string list" where
  "uses_params = ['''', ''ftp'', ''hdl'', ''prospero'', ''http'', ''https'', ''shttp'', ''rtsp'', ''rtsps'', ''sip'', ''sips'',
     ''mms'', ''sftp'', ''tel'']"

definition without_params :: "string \<Rightarrow> string" where
  "without_params path =
     (let segment = rev (takeWhile (\<lambda>c. c \<noteq> CHR ''/'') (rev path)) in
      take (length path - length segment) path @ takeWhile (\<lambda>c. c \<noteq> CHR '';'') segment)"

definition path_from_uri :: "string \<Rightarrow> string result" where
  "path_from_uri uri =
     rbind (urlsplit_netloc uri) (\<lambda>netloc.
       (let url = filter (\<lambda>c. char_code c \<notin> {9, 10, 13}) (dropWhile (\<lambda>c. char_code c \<le> 32) uri);
            rest = after_scheme url;
            scheme = lower (take (length url - length rest - 1) url);
            rest1 = (if take 2 rest = ''//'' then dropWhile (\<lambda>c. c \<notin> set ''/?#'') (drop 2 rest) else rest);
            path = takeWhile (\<lambda>c. c \<noteq> CHR ''?'') (takeWhile (\<lambda>c. c \<noteq> CHR ''#'') rest1) in
        Inr (if scheme \<in> set uses_params then without_params path else path)))"

section \<open>flow_impl.py and flow_public_impl.py\<close>

definition outside_base_path :: string where
  "outside_base_path = ''/api/flow/impl''"

definition flow_base_path :: string where
  "flow_base_path = ''/api/flow/impl''"

definition base_path_public :: string where
  "base_path_public = ''/api/flow/public/impl/''"

text \<open>What \<open>(.*)$\<close> matches at the end of a pattern: up to a line break at the very end.\<close>

definition dot_to_end :: "string \<Rightarrow> (string \<times> string) option" where
  "dot_to_end s =
     (let line = takeWhile (\<lambda>c. char_code c \<noteq> 10) s; rest = dropWhile (\<lambda>c. char_code c \<noteq> 10) s in
      if length rest \<le> 1 then Some (line, rest) else None)"

definition strip_prefix :: "string \<Rightarrow> string \<Rightarrow> string option" where
  "strip_prefix p s = (if take (length p) s = p then Some (drop (length p) s) else None)"

text \<open>The patterns \<open>replace_pattern\<close> and \<open>replace_pattern_public\<close>.\<close>

definition sub_replace_pattern :: "string \<Rightarrow> string \<Rightarrow> string" where
  "sub_replace_pattern base uri =
     (case Option.bind (strip_prefix ''/api/flow/impl'' uri) dot_to_end of
        None \<Rightarrow> uri
      | Some (group1, rest) \<Rightarrow> base @ group1 @ rest)"

definition tenant_char :: "char \<Rightarrow> bool" where
  "tenant_char c \<longleftrightarrow> is_alpha c \<or> is_digit c \<or> c = CHR ''_'' \<or> c = CHR ''-''"

definition match_public :: "string \<Rightarrow> (string \<times> string \<times> string) option" where
  "match_public uri =
     Option.bind (strip_prefix ''/api/flow/public/impl/'' uri) (\<lambda>s.
       let group1 = takeWhile tenant_char s; s1 = dropWhile tenant_char s in
       if group1 = [] then None
       else Option.bind (strip_prefix ''/'' s1) (\<lambda>s2. map_option (\<lambda>(group2, rest). (group1, group2, rest)) (dot_to_end s2)))"

definition sub_replace_pattern_public :: "string \<Rightarrow> string \<Rightarrow> string" where
  "sub_replace_pattern_public base uri =
     (case match_public uri of None \<Rightarrow> uri | Some (_, group2, rest) \<Rightarrow> base @ ''/'' @ group2 @ rest)"

text \<open>The loop over the endpoints.\<close>

fun first_match :: "flow_settings \<Rightarrow> string \<Rightarrow> HttpEndpoint_row list \<Rightarrow> HttpEndpoint_row option result" where
  "first_match settings uri [] = Inr None"
| "first_match settings uri (endpoint # endpoints) =
     rbind (path_from_uri uri) (\<lambda>path.
     rbind (re_match settings (''^'' @ ep_path endpoint @ ''$'') path) (\<lambda>matched.
     if matched then Inr (Some endpoint) else first_match settings uri endpoints))"

definition can_use_endpoint_impl ::
  "flow_settings \<Rightarrow> (string \<Rightarrow> 'k::linorder) \<Rightarrow> guardian \<Rightarrow> flow_db \<Rightarrow> nat option \<Rightarrow> auth_user \<Rightarrow> string \<Rightarrow> string \<Rightarrow>
     HttpEndpoint_row option result" where
  "can_use_endpoint_impl settings coll g db tenant user uri method =
     (if us_is_anonymous user then Inr None
      else if ga_has_perm g (flow_auth db) user ''flow.use'' \<or> ga_has_perm g (flow_auth db) user ''flow.impl'' then
        rbind (get_objects_for_user_custom g (flow_auth db) tenant ep_id user [''flow.use'']
                 (active_endpoints coll db tenant tenant method False) (default_visibility False ''flow''))
          (first_match settings uri)
      else Inr None)"

text \<open>The answer to a preflight request.\<close>

definition options_response :: "flow_settings \<Rightarrow> string \<Rightarrow> flow_response result" where
  "options_response settings default_upstream =
     (let upstream = (case SKIPPER_CONTAINER_UPSTREAM settings of None \<Rightarrow> default_upstream | Some u \<Rightarrow> u) in
      rbind (hostname_str upstream) (\<lambda>hostname.
        ok_response [(''flowupstream'', upstream), (''flowhostname'', hostname), (''flowpath'', ''/api/flow/options/'')]))"

text \<open>\<open>get_upstream\<close> gets the tenant in place of the request.\<close>

definition flow_impl_view ::
  "flow_settings \<Rightarrow> (string \<Rightarrow> 'k::linorder) \<Rightarrow> guardian \<Rightarrow> flow_db \<Rightarrow> Tenant_row option \<Rightarrow> flow_request \<Rightarrow> flow_response result" where
  "flow_impl_view settings coll g db tenant request =
     (case (rq_original_uri request, rq_original_method request) of
        (Some original_uri, Some original_method) \<Rightarrow>
          (if original_method = ''OPTIONS'' then options_response settings ''http://skipper.local:8000''
           else
             rbind (can_use_endpoint_impl settings coll g db (map_option tn_id tenant) (rq_user request) original_uri original_method) (\<lambda>endpoint.
             case endpoint of
               None \<Rightarrow> Inr forbidden
             | Some e \<Rightarrow>
                 rbind (get_upstream settings db (map_option tn_id tenant) e True (tenant \<noteq> None)) (\<lambda>upstream.
                 rbind (hostname_str upstream) (\<lambda>flow_hostname.
                 rbind (get_secret settings db (map_option tn_id tenant) e True True) (\<lambda>secret.
                 case tenant of
                   None \<Rightarrow> Inl AttributeError
                 | Some t \<Rightarrow>
                     ok_response
                       [(''noderedproxy'', upstream), (''flowsecret'', secret), (''flowuser'', rq_username request),
                        (''flowtenant'', tn_name t), (''flowcookies'', sanitize_cookies settings (rq_cookies request)),
                        (''flowupstream'', upstream), (''flowhostname'', flow_hostname),
                        (''flowpath'', sub_replace_pattern flow_base_path original_uri),
                        (''flowbasepath'', ''/api/flow/impl/'')])))))
      | _ \<Rightarrow> Inr forbidden)"

text \<open>The manager of the endpoints still filters by the tenant of the user, \<open>current\<close>, who may be of
  another tenant than the one the URI names.\<close>

definition can_use_endpoint_public_impl ::
  "flow_settings \<Rightarrow> (string \<Rightarrow> 'k::linorder) \<Rightarrow> flow_db \<Rightarrow> nat option \<Rightarrow> nat \<Rightarrow> string \<Rightarrow> string \<Rightarrow> HttpEndpoint_row option result" where
  "can_use_endpoint_public_impl settings coll db current tenant uri method =
     first_match settings uri (active_endpoints coll db current (Some tenant) method True)"

definition tenants_of_uri :: "flow_db \<Rightarrow> string \<Rightarrow> Tenant_row list" where
  "tenants_of_uri db original_uri =
     (case match_public original_uri of
        None \<Rightarrow> []
      | Some (tenant_str, _) \<Rightarrow> filter (\<lambda>t. tn_deleted_at t = None \<and> tn_name t = tenant_str) (tenants db))"

definition flow_impl_public_view ::
  "flow_settings \<Rightarrow> (string \<Rightarrow> 'k::linorder) \<Rightarrow> flow_db \<Rightarrow> nat option \<Rightarrow> flow_request \<Rightarrow> flow_response result" where
  "flow_impl_public_view settings coll db current request =
     (case (rq_original_uri request, rq_original_method request) of
        (Some original_uri, Some original_method) \<Rightarrow>
          (if original_method = ''OPTIONS'' then options_response settings ''http://skipper''
           else
             (case tenants_of_uri db original_uri of
                [tenant] \<Rightarrow>
                  rbind (can_use_endpoint_public_impl settings coll db current (tn_id tenant)
                     (sub_replace_pattern_public outside_base_path original_uri) original_method) (\<lambda>endpoint.
                  case endpoint of
                    None \<Rightarrow> Inr forbidden
                  | Some e \<Rightarrow>
                      rbind (get_upstream settings db current e False True) (\<lambda>upstream.
                      rbind (get_secret settings db current e False True) (\<lambda>secret.
                      rbind (hostname_str upstream) (\<lambda>flow_hostname.
                        ok_response
                          [(''noderedproxy'', upstream), (''flowsecret'', secret), (''flowuser'', ''''),
                           (''flowtenant'', tn_name tenant), (''flowcookies'', ''''),
                           (''flowupstream'', upstream), (''flowhostname'', flow_hostname),
                           (''flowpath'', sub_replace_pattern_public flow_base_path original_uri),
                           (''flowbasepath'', base_path_public @ tn_name tenant @ ''/'')]))))
              | _ \<Rightarrow> Inr forbidden))
      | _ \<Rightarrow> Inr forbidden)"

section \<open>system_engine_access.py\<close>

definition can_use_system_flow_edit :: "guardian \<Rightarrow> auth_db \<Rightarrow> auth_user \<Rightarrow> bool" where
  "can_use_system_flow_edit g db user \<longleftrightarrow>
     \<not> us_is_anonymous user \<and> (us_is_superuser user \<or> us_is_staff user \<and> ga_has_perm g db user ''flow.system.edit'')"

definition system_engine_access_view :: "flow_settings \<Rightarrow> guardian \<Rightarrow> auth_db \<Rightarrow> flow_request \<Rightarrow> flow_response result" where
  "system_engine_access_view settings g db request =
     (if us_is_anonymous (rq_user request) then Inr forbidden
      else if can_use_system_flow_edit g db (rq_user request) then
        ok_response [(''noderedproxy'', SKIPPER_DEFAULT_NODE_RED_UPSTREAM settings),
          (''noderedcookies'', sanitize_cookies settings (rq_cookies request)), (''noderedsecret'', ''FIXME'')]
      else Inr forbidden)"

section \<open>engine_crud.py and http_endpoint_crud.py: who may see what\<close>

definition denied :: py_error where
  "denied = PermissionDenied ''You do not have permission to perform this action.''"

definition engine_base_perm_check :: "guardian \<Rightarrow> auth_db \<Rightarrow> auth_user \<Rightarrow> string \<Rightarrow> string \<Rightarrow> unit result" where
  "engine_base_perm_check g db user action method =
     (if \<not> ga_has_perm g db user (flow_permission_string ''engine'' ''engine'' ''GET'') then Inl denied
      else if \<not> ga_has_perm g db user (flow_permission_string ''engine'' action method) then Inl denied
      else Inr ())"

definition engine_get_queryset ::
  "guardian \<Rightarrow> flow_db \<Rightarrow> nat option \<Rightarrow> auth_user \<Rightarrow> string \<Rightarrow> string \<Rightarrow> string option \<Rightarrow> Engine_row list result" where
  "engine_get_queryset g db current user action method pk =
     rbind (Engine_qs g db current user action method) (\<lambda>qs.
     (let ret = sort_key en_id qs in
      case pk of
        None \<Rightarrow> Inr ret
      | Some s \<Rightarrow>
          (case parse_uuid s of
             None \<Rightarrow> Inl (NotFound ''no valid UUID'')
           | Some i \<Rightarrow>
               if ret = [] \<and> length (filter (\<lambda>e. en_id e = i) (Engine_objects current db)) = 1 then Inl denied else Inr ret)))"

definition http_endpoint_get_queryset ::
  "guardian \<Rightarrow> flow_db \<Rightarrow> nat option \<Rightarrow> auth_user \<Rightarrow> string \<Rightarrow> string \<Rightarrow> string option \<Rightarrow> HttpEndpoint_row list result" where
  "http_endpoint_get_queryset g db current user action method pk =
     rbind (HttpEndpoint_qs g db current user action method) (\<lambda>qs.
     (let ret = sort_key ep_id qs in
      case pk of
        None \<Rightarrow> Inr ret
      | Some s \<Rightarrow>
          (case parse_uuid s of
             None \<Rightarrow> Inl (NotFound ''no valid UUID'')
           | Some i \<Rightarrow>
               if ret = [] \<and> length (filter (\<lambda>e. ep_id e = i) (HttpEndpoint_objects current db)) = 1 then Inl denied else Inr ret)))"

text \<open>
  The permission classes of a view: a tenant has to be set; the class of Django's model permissions asks
  for a user who is logged in, evaluates the query set and asks for the global permission.
\<close>

definition view_permissions ::
  "guardian \<Rightarrow> auth_db \<Rightarrow> nat option \<Rightarrow> auth_user \<Rightarrow> string \<Rightarrow> 'a result \<Rightarrow> unit result" where
  "view_permissions g db current user perm queryset =
     (if current = None then Inl denied
      else if us_is_anonymous user then Inl denied
      else rbind queryset (\<lambda>_. if ga_has_perm g db user perm then Inr () else Inl denied))"

definition engine_permissions ::
  "guardian \<Rightarrow> flow_db \<Rightarrow> nat option \<Rightarrow> auth_user \<Rightarrow> string \<Rightarrow> string \<Rightarrow> string option \<Rightarrow> unit result" where
  "engine_permissions g db current user action method pk =
     view_permissions g (flow_auth db) current user (flow_permission_string ''engine'' action method)
       (engine_get_queryset g db current user action method pk)"

definition http_endpoint_permissions ::
  "guardian \<Rightarrow> flow_db \<Rightarrow> nat option \<Rightarrow> auth_user \<Rightarrow> string \<Rightarrow> string \<Rightarrow> string option \<Rightarrow> unit result" where
  "http_endpoint_permissions g db current user action method pk =
     view_permissions g (flow_auth db) current user (flow_permission_string ''http_endpoint'' action method)
       (http_endpoint_get_queryset g db current user action method pk)"

text \<open>\<open>get_object\<close>; \<open>external_id\<close> is the query parameter of the filter set, \<open>None\<close> if it is empty.\<close>

definition engine_get_object ::
  "guardian \<Rightarrow> flow_db \<Rightarrow> nat option \<Rightarrow> auth_user \<Rightarrow> string \<Rightarrow> string \<Rightarrow> string \<Rightarrow> string option \<Rightarrow> Engine_row result" where
  "engine_get_object g db current user action method pk external_id =
     rbind (engine_get_queryset g db current user action method (Some pk)) (\<lambda>qs.
       get_object_or_404 (\<lambda>e. Some (en_id e) = parse_uuid pk)
         (filter (\<lambda>e. external_id = None \<or> external_id = Some (en_external_id e)) qs))"

definition http_endpoint_get_object ::
  "guardian \<Rightarrow> flow_db \<Rightarrow> nat option \<Rightarrow> auth_user \<Rightarrow> string \<Rightarrow> string \<Rightarrow> string \<Rightarrow> string option \<Rightarrow> string option \<Rightarrow>
     HttpEndpoint_row result" where
  "http_endpoint_get_object g db current user action method pk external_id engine_id =
     rbind (http_endpoint_get_queryset g db current user action method (Some pk)) (\<lambda>qs.
     (let qs1 = filter (\<lambda>e. external_id = None \<or> external_id = Some (ep_external_id e)) qs in
      rbind (case engine_id of
          None \<Rightarrow> Inr qs1
        | Some s \<Rightarrow>
            (case parse_uuid s of
               None \<Rightarrow> Inl (ValidationError (PStr ''engine_id in query parameter is not a valid uuid''))
             | Some i \<Rightarrow> Inr (filter (\<lambda>e. ep_engine_id e = Some i) qs1)))
        (get_object_or_404 (\<lambda>e. Some (ep_id e) = parse_uuid pk))))"

section \<open>engine_access.py\<close>

fun hex_digits :: "nat \<Rightarrow> nat \<Rightarrow> string" where
  "hex_digits 0 n = []"
| "hex_digits (Suc k) n = hex_digits k (n div 16) @ [hex_digit (n mod 16)]"

definition uuid_str :: "nat \<Rightarrow> string" where
  "uuid_str n =
     (let h = hex_digits 32 n in
      join ''-'' [take 8 h, take 4 (drop 8 h), take 4 (drop 12 h), take 4 (drop 16 h), drop 20 h])"

text \<open>The body of the answer repeats the upstream.\<close>

definition engine_access ::
  "flow_settings \<Rightarrow> guardian \<Rightarrow> flow_db \<Rightarrow> nat option \<Rightarrow> flow_request \<Rightarrow> string \<Rightarrow> flow_response result" where
  "engine_access settings g db current request pk =
     rbind (engine_base_perm_check g (flow_auth db) (rq_user request) ''access'' ''GET'') (\<lambda>_.
       (case engine_get_object g db current (rq_user request) ''access'' ''GET'' pk None of
          Inl Http404 \<Rightarrow> Inr forbidden
        | Inl e \<Rightarrow> Inl e
        | Inr engine \<Rightarrow>
            rbind (hostname_str (en_upstream engine)) (\<lambda>engine_hostname.
              (case find (\<lambda>t. tn_id t = en_tenant engine) (tenants db) of
                 None \<Rightarrow> Inl DoesNotExist
               | Some t \<Rightarrow>
                   ok_response
                     [(''enginetenant'', tn_name t), (''engineupstream'', en_upstream engine),
                      (''enginesecret'', en_secret engine), (''enginehostname'', engine_hostname),
                      (''enginecookies'', sanitize_cookies settings (rq_cookies request)),
                      (''enginebasepath'', ''/api/flow/engine/'' @ uuid_str (en_id engine) @ ''/access/'')]))))"

definition EngineAccessView_get ::
  "flow_settings \<Rightarrow> guardian \<Rightarrow> flow_db \<Rightarrow> nat option \<Rightarrow> flow_request \<Rightarrow> string \<Rightarrow> flow_response result" where
  "EngineAccessView_get settings g db current request pk =
     rbind (engine_permissions g db current (rq_user request) ''access'' ''GET'' (Some pk)) (\<lambda>_.
       engine_access settings g db current request pk)"

text \<open>The pattern of the URI: a group without slash and dot, then \<open>/access\<close>.\<close>

definition match_engine_access :: "string \<Rightarrow> string option" where
  "match_engine_access uri =
     Option.bind (strip_prefix ''/api/flow/engine/'' uri) (\<lambda>s.
       let engine = takeWhile (\<lambda>c. c \<notin> set ''/.'') s in
       if engine = [] then None
       else Option.bind (strip_prefix ''/access'' (dropWhile (\<lambda>c. c \<notin> set ''/.'') s)) (\<lambda>rest.
         map_option (\<lambda>_. engine) (dot_to_end rest)))"

definition NginXEngineAccessView_get ::
  "flow_settings \<Rightarrow> guardian \<Rightarrow> flow_db \<Rightarrow> nat option \<Rightarrow> flow_request \<Rightarrow> flow_response result" where
  "NginXEngineAccessView_get settings g db current request =
     rbind (engine_permissions g db current (rq_user request) ''access'' ''GET'' None) (\<lambda>_.
       (case rq_original_uri request of
          None \<Rightarrow> Inr forbidden
        | Some uri \<Rightarrow>
            (case match_engine_access uri of
               None \<Rightarrow> Inr forbidden
             | Some engine_id \<Rightarrow> engine_access settings g db current request engine_id)))"

section \<open>Changing the tables\<close>

record flow_validators =
  validate_password :: "string \<Rightarrow> bool"
  validate_url :: "string \<Rightarrow> bool"
  re_compiles :: "string \<Rightarrow> bool"

definition update_engine_row :: "nat \<Rightarrow> (Engine_row \<Rightarrow> Engine_row) \<Rightarrow> flow_db \<Rightarrow> flow_db" where
  "update_engine_row i f db = db\<lparr>engines := map (\<lambda>e. if en_id e = i then f e else e) (engines db)\<rparr>"

definition update_endpoint_row :: "nat \<Rightarrow> (HttpEndpoint_row \<Rightarrow> HttpEndpoint_row) \<Rightarrow> flow_db \<Rightarrow> flow_db" where
  "update_endpoint_row i f db = db\<lparr>http_endpoints := map (\<lambda>e. if ep_id e = i then f e else e) (http_endpoints db)\<rparr>"

text \<open>\<open>Engine.save\<close>: an engine without a secret gets a new one, \<open>generated\<close>.\<close>

definition Engine_save :: "string \<Rightarrow> Engine_row \<Rightarrow> flow_db \<Rightarrow> flow_db" where
  "Engine_save generated engine =
     update_engine_row (en_id engine) (\<lambda>_. if en_secret engine = [] then engine\<lparr>en_secret := generated\<rparr> else engine)"

text \<open>\<open>HttpEndpoint.save\<close>: the engine has to be there; PostgreSQL refuses a path that is longer than its column.\<close>

definition HttpEndpoint_save_check :: "flow_db \<Rightarrow> nat option \<Rightarrow> HttpEndpoint_row \<Rightarrow> unit result" where
  "HttpEndpoint_save_check db current self =
     (if ep_engine_id self = None then
        (if \<not> ep_system self then Inl (ValidationError (PStr ''engine is required when system=False''))
         else if 256 < length (ep_path self) then Inl DataError else Inr ())
      else (case engine_of db current self of
          None \<Rightarrow> Inl DoesNotExist
        | Some _ \<Rightarrow> if 256 < length (ep_path self) then Inl DataError else Inr ()))"

definition HttpEndpoint_save :: "nat option \<Rightarrow> HttpEndpoint_row \<Rightarrow> flow_db \<Rightarrow> flow_db result" where
  "HttpEndpoint_save current self db =
     rbind (HttpEndpoint_save_check db current self) (\<lambda>_. Inr (update_endpoint_row (ep_id self) (\<lambda>_. self) db))"

text \<open>A \<open>CharField\<close>: trimmed, not blank, no null characters.\<close>

definition char_field :: "string \<Rightarrow> string result" where
  "char_field s =
     (let t = strip s in
      if t = [] then Inl (ValidationError (PStr ''This field may not be blank.''))
      else if list_ex (\<lambda>c. char_code c = 0) t then Inl (ValidationError (PStr ''Null characters are not allowed.''))
      else Inr t)"

definition validate_external_id_url_safe :: "string \<Rightarrow> bool" where
  "validate_external_id_url_safe s \<longleftrightarrow> list_all tenant_char s \<and> 1 \<le> length s \<and> length s \<le> 256"

definition not_url_safe :: py_error where
  "not_url_safe = ValidationError (PStr ''Only letters, numbers, -, and _ are allowed in external_ids, 1-50 chars'')"

subsection \<open>Engines\<close>

definition engine_validate_external_id :: "flow_db \<Rightarrow> nat option \<Rightarrow> nat option \<Rightarrow> string \<Rightarrow> string result" where
  "engine_validate_external_id db current pk external_id =
     rbind (case pk of
         None \<Rightarrow>
           if list_ex (\<lambda>e. en_external_id e = external_id) (Engine_objects current db)
           then Inl (ValidationError (PStr ''external id is already in use by another Engine'')) else Inr ()
       | Some i \<Rightarrow>
           rbind (get_object_or_404 (\<lambda>e. en_id e = i) (Engine_objects current db)) (\<lambda>engine.
             if external_id \<noteq> en_external_id engine
             then Inl (ValidationError (PStr ''changing of external_id is not supported!'')) else Inr ()))
       (\<lambda>_. if validate_external_id_url_safe external_id then Inr external_id else Inl not_url_safe)"

definition validate_upstream :: "flow_validators \<Rightarrow> string \<Rightarrow> string result" where
  "validate_upstream v upstream =
     rbind (char_field upstream) (\<lambda>u.
       if 256 < length u \<or> \<not> validate_url v u then Inl (ValidationError (PStr ''Enter a valid URL.'')) else Inr u)"

definition assign_all ::
  "guardian \<Rightarrow> string list \<Rightarrow> auth_user \<Rightarrow> nat \<Rightarrow> flow_db \<Rightarrow> flow_db result" where
  "assign_all g perms user obj db =
     (case api_for (\<lambda>perm. ga_assign_perm g perm (As_user (us_id user)) (Some obj)) perms (flow_auth db) of
        (Inl e, _) \<Rightarrow> Inl e
      | (Inr _, auth) \<Rightarrow> Inr (db\<lparr>flow_auth := auth\<rparr>))"

definition create_engine ::
  "flow_validators \<Rightarrow> guardian \<Rightarrow> nat option \<Rightarrow> auth_user \<Rightarrow> nat \<Rightarrow> string \<Rightarrow> string \<Rightarrow> string \<Rightarrow> flow_db \<Rightarrow> flow_db result" where
  "create_engine v g current user new_id generated external_id upstream db =
     rbind (engine_permissions g db current user ''engine'' ''POST'' None) (\<lambda>_.
     rbind (rbind (char_field external_id) (engine_validate_external_id db current None)) (\<lambda>external_id1.
     rbind (validate_upstream v upstream) (\<lambda>upstream1.
     (case current of
        None \<Rightarrow> Inl IntegrityError
      | Some t \<Rightarrow>
          (let created = \<lparr>en_id = new_id, en_tenant = t, en_external_id = external_id1, en_upstream = upstream1,
                          en_secret = generated, en_deleted_at = None\<rparr>;
               db1 = db\<lparr>engines := engines db @ [created]\<rparr> in
           if us_is_anonymous user then Inr db1
           else assign_all g (map (with_prefix ''flow'') (all_perms_without_prefix engine_area)) user new_id db1)))))"

text \<open>\<open>PUT\<close> and \<open>PATCH\<close>; only the latter may leave fields out. \<open>only\<close> is the query parameter.\<close>

definition or_keep :: "bool \<Rightarrow> 'a \<Rightarrow> 'b option \<Rightarrow> ('b \<Rightarrow> 'a result) \<Rightarrow> 'a result" where
  "or_keep partial_update old given validator =
     (case given of
        None \<Rightarrow> if partial_update then Inr old else Inl (ValidationError (PStr ''This field is required.''))
      | Some x \<Rightarrow> validator x)"

definition update_engine ::
  "flow_validators \<Rightarrow> guardian \<Rightarrow> nat option \<Rightarrow> auth_user \<Rightarrow> bool \<Rightarrow> string \<Rightarrow> string \<Rightarrow> string option \<Rightarrow> string option \<Rightarrow>
     string option \<Rightarrow> flow_db \<Rightarrow> flow_db result" where
  "update_engine v g current user partial_update generated pk only external_id upstream db =
     (let method = (if partial_update then ''PATCH'' else ''PUT'') in
      rbind (engine_permissions g db current user ''engine'' method (Some pk)) (\<lambda>_.
      rbind (engine_get_object g db current user ''engine'' method pk only) (\<lambda>engine.
      rbind (or_keep partial_update (en_external_id engine) external_id
               (\<lambda>s. rbind (char_field s) (engine_validate_external_id db current (Some (en_id engine))))) (\<lambda>external_id1.
      rbind (or_keep partial_update (en_upstream engine) upstream (validate_upstream v)) (\<lambda>upstream1.
      Inr (Engine_save generated (engine\<lparr>en_external_id := external_id1, en_upstream := upstream1\<rparr>) db))))))"

text \<open>\<open>filter(engine=instance)\<close> and the deletion of a query set.\<close>

definition endpoints_of :: "flow_db \<Rightarrow> nat option \<Rightarrow> Engine_row \<Rightarrow> HttpEndpoint_row list" where
  "endpoints_of db current engine = filter (\<lambda>e. ep_engine_id e = Some (en_id engine)) (HttpEndpoint_objects current db)"

definition delete_endpoints_of :: "int \<Rightarrow> nat option \<Rightarrow> Engine_row \<Rightarrow> flow_db \<Rightarrow> flow_db" where
  "delete_endpoints_of now current engine db =
     db\<lparr>http_endpoints := map (\<lambda>e.
       if ep_deleted_at e = None \<and> of_current current (ep_tenant e) \<and> ep_engine_id e = Some (en_id engine)
       then e\<lparr>ep_deleted_at := Some now\<rparr> else e) (http_endpoints db)\<rparr>"

definition delete_engine ::
  "guardian \<Rightarrow> nat option \<Rightarrow> auth_user \<Rightarrow> int \<Rightarrow> string \<Rightarrow> string \<Rightarrow> string option \<Rightarrow> string option \<Rightarrow> flow_db \<Rightarrow> flow_db result" where
  "delete_engine g current user now generated pk external_id cascade_delete db =
     rbind (engine_permissions g db current user ''engine'' ''DELETE'' (Some pk)) (\<lambda>_.
     rbind (engine_get_object g db current user ''engine'' ''DELETE'' pk external_id) (\<lambda>instance.
     rbind (if cascade_delete = Some [] \<or> cascade_delete = Some ''true''
            then Inr (delete_endpoints_of now current instance db)
            else if 0 < length (endpoints_of db current instance)
            then Inl (ValidationError (PStr ''can not delete Engines that are referenced in endpoints''))
            else Inr db) (\<lambda>db1.
     if en_deleted_at instance = None then Inr (Engine_save generated (instance\<lparr>en_deleted_at := Some now\<rparr>) db1) else Inr db1)))"

subsection \<open>Secrets of engines\<close>

definition EngineSecretView_get ::
  "guardian \<Rightarrow> nat option \<Rightarrow> auth_user \<Rightarrow> string \<Rightarrow> flow_db \<Rightarrow> string result" where
  "EngineSecretView_get g current user pk db =
     rbind (engine_permissions g db current user ''secret'' ''GET'' (Some pk)) (\<lambda>_.
     rbind (engine_base_perm_check g (flow_auth db) user ''secret'' ''GET'') (\<lambda>_.
     rbind (engine_get_object g db current user ''secret'' ''GET'' pk None) (\<lambda>engine. Inr (en_secret engine))))"

definition EngineSecretView_delete ::
  "guardian \<Rightarrow> nat option \<Rightarrow> auth_user \<Rightarrow> string \<Rightarrow> string \<Rightarrow> flow_db \<Rightarrow> flow_db result" where
  "EngineSecretView_delete g current user generated pk db =
     rbind (engine_permissions g db current user ''secret'' ''DELETE'' (Some pk)) (\<lambda>_.
     rbind (engine_base_perm_check g (flow_auth db) user ''secret'' ''DELETE'') (\<lambda>_.
     rbind (engine_get_object g db current user ''secret'' ''DELETE'' pk None) (\<lambda>engine.
     Inr (Engine_save generated (engine\<lparr>en_secret := generated\<rparr>) db))))"

definition EngineSecretView_put ::
  "flow_validators \<Rightarrow> guardian \<Rightarrow> nat option \<Rightarrow> auth_user \<Rightarrow> string \<Rightarrow> string \<Rightarrow> string \<Rightarrow> flow_db \<Rightarrow> flow_db result" where
  "EngineSecretView_put v g current user generated pk secret db =
     rbind (engine_permissions g db current user ''secret'' ''PUT'' (Some pk)) (\<lambda>_.
     rbind (engine_base_perm_check g (flow_auth db) user ''secret'' ''PUT'') (\<lambda>_.
     rbind (engine_get_object g db current user ''secret'' ''PUT'' pk None) (\<lambda>engine.
     rbind (rbind (char_field secret) (\<lambda>s.
       if length s < 32 \<or> \<not> validate_password v s then Inl (ValidationError (PStr ''secret'')) else Inr s)) (\<lambda>secret1.
     Inr (Engine_save generated (engine\<lparr>en_secret := secret1\<rparr>) db)))))"

subsection \<open>HTTP endpoints\<close>

definition http_methods :: "string list" where
  "http_methods = [''GET'', ''POST'', ''PUT'', ''PATCH'', ''DELETE'', ''HEAD'']"

definition endpoint_validate_external_id :: "flow_db \<Rightarrow> nat option \<Rightarrow> nat option \<Rightarrow> string \<Rightarrow> string result" where
  "endpoint_validate_external_id db current pk external_id =
     rbind (case pk of
         None \<Rightarrow>
           if list_ex (\<lambda>e. ep_external_id e = external_id) (HttpEndpoint_objects current db)
           then Inl (ValidationError (PStr ''external id is already in use by another HttpEndpoint'')) else Inr ()
       | Some i \<Rightarrow>
           rbind (get_object_or_404 (\<lambda>e. ep_id e = i) (HttpEndpoint_objects current db)) (\<lambda>endpoint.
             if external_id \<noteq> ep_external_id endpoint
             then Inl (ValidationError (PStr ''changing of external_id is not supported!'')) else Inr ()))
       (\<lambda>_. if validate_external_id_url_safe external_id then Inr external_id else Inl not_url_safe)"

text \<open>The field of the engine: the id that its URL names, looked up among the engines that the user sees.\<close>

definition engine_field :: "guardian \<Rightarrow> flow_db \<Rightarrow> nat option \<Rightarrow> auth_user \<Rightarrow> nat \<Rightarrow> nat result" where
  "engine_field g db current user i =
     rbind (Engine_qs g db current user ''engine'' ''GET'') (\<lambda>qs.
       if i \<in> en_id ` set qs then Inr i else Inl (ValidationError (PStr ''Invalid hyperlink - Object does not exist.'')))"

definition validate_path :: "flow_validators \<Rightarrow> string \<Rightarrow> string result" where
  "validate_path v path =
     rbind (char_field path) (\<lambda>p. if re_compiles v p then Inr p else Inl (ValidationError (PStr ''path regex invalid'')))"

definition validate_method :: "string \<Rightarrow> string result" where
  "validate_method m = (if m \<in> set http_methods then Inr m else Inl (ValidationError (PStr ''is not a valid choice'')))"

definition create_http_endpoint ::
  "flow_validators \<Rightarrow> guardian \<Rightarrow> nat option \<Rightarrow> auth_user \<Rightarrow> nat \<Rightarrow> nat \<Rightarrow> string \<Rightarrow> string \<Rightarrow> string \<Rightarrow> bool \<Rightarrow> flow_db \<Rightarrow>
     flow_db result" where
  "create_http_endpoint v g current user new_id engine external_id path method public db =
     rbind (http_endpoint_permissions g db current user ''http_endpoint'' ''POST'' None) (\<lambda>_.
     rbind (engine_field g db current user engine) (\<lambda>engine1.
     rbind (rbind (char_field external_id) (endpoint_validate_external_id db current None)) (\<lambda>external_id1.
     rbind (validate_path v path) (\<lambda>path1.
     rbind (validate_method method) (\<lambda>method1.
     (case current of
        None \<Rightarrow> Inl IntegrityError
      | Some t \<Rightarrow>
          (let created = \<lparr>ep_id = new_id, ep_external_id = external_id1, ep_tenant = t, ep_path = path1, ep_method = method1,
                          ep_public = public, ep_engine_id = Some engine1, ep_system = False, ep_deleted_at = None\<rparr>;
               db1 = db\<lparr>http_endpoints := http_endpoints db @ [created]\<rparr> in
           rbind (HttpEndpoint_save_check db current created) (\<lambda>_.
           if us_is_anonymous user then Inr db1
           else assign_all g (map (with_prefix ''flow'') (all_perms_without_prefix http_endpoint_area)) user new_id db1))))))))"

definition update_http_endpoint ::
  "flow_validators \<Rightarrow> guardian \<Rightarrow> nat option \<Rightarrow> auth_user \<Rightarrow> bool \<Rightarrow> string \<Rightarrow> string option \<Rightarrow> string option \<Rightarrow> nat option \<Rightarrow>
     string option \<Rightarrow> string option \<Rightarrow> string option \<Rightarrow> bool option \<Rightarrow> flow_db \<Rightarrow> flow_db result" where
  "update_http_endpoint v g current user partial_update pk only of_engine engine external_id path method public db =
     (let verb = (if partial_update then ''PATCH'' else ''PUT'') in
      rbind (http_endpoint_permissions g db current user ''http_endpoint'' verb (Some pk)) (\<lambda>_.
      rbind (http_endpoint_get_object g db current user ''http_endpoint'' verb pk only of_engine) (\<lambda>endpoint.
      rbind (or_keep partial_update (ep_engine_id endpoint) engine
               (\<lambda>i. rbind (engine_field g db current user i) (\<lambda>i1. Inr (Some i1)))) (\<lambda>engine1.
      rbind (or_keep partial_update (ep_external_id endpoint) external_id
               (\<lambda>s. rbind (char_field s) (endpoint_validate_external_id db current (Some (ep_id endpoint))))) (\<lambda>external_id1.
      rbind (or_keep partial_update (ep_path endpoint) path (validate_path v)) (\<lambda>path1.
      rbind (or_keep partial_update (ep_method endpoint) method validate_method) (\<lambda>method1.
      rbind (or_keep partial_update (ep_public endpoint) public Inr) (\<lambda>public1.
      HttpEndpoint_save current
        (endpoint\<lparr>ep_engine_id := engine1, ep_external_id := external_id1, ep_path := path1, ep_method := method1,
                  ep_public := public1, ep_system := False\<rparr>) db))))))))"

definition delete_http_endpoint ::
  "guardian \<Rightarrow> nat option \<Rightarrow> auth_user \<Rightarrow> int \<Rightarrow> string \<Rightarrow> string option \<Rightarrow> string option \<Rightarrow> flow_db \<Rightarrow> flow_db result" where
  "delete_http_endpoint g current user now pk external_id engine_id db =
     rbind (http_endpoint_permissions g db current user ''http_endpoint'' ''DELETE'' (Some pk)) (\<lambda>_.
     rbind (http_endpoint_get_object g db current user ''http_endpoint'' ''DELETE'' pk external_id engine_id) (\<lambda>instance.
     if ep_deleted_at instance = None then HttpEndpoint_save current (instance\<lparr>ep_deleted_at := Some now\<rparr>) db else Inr db))"

end
