(* ===== verification/Server_Permissions_Correct.thy ===== *)
theory Server_Permissions_Correct
  imports Server_Permissions
begin

text \<open>
  Which objects a user sees, what a change of permissions does, that permissions do not leak to
  users who do not hold them, and when a request is let through to a data series.
\<close>

section \<open>What is granted\<close>

text \<open>A grant is whom, on which object (or globally), and the name of the permission.\<close>

type_synonym grant = "principal \<times> nat option \<times> string"

definition grants :: "auth_db \<Rightarrow> grant set" where
  "grants db = set
     (map (\<lambda>(u, pk, c). (As_user u, Some pk, c)) (user_object_permissions db) @
      map (\<lambda>(gr, pk, c). (As_group gr, Some pk, c)) (group_object_permissions db) @
      map (\<lambda>(u, p). (As_user u, None, p)) (user_permissions db) @
      map (\<lambda>(gr, p). (As_group gr, None, p)) (group_permissions db))"

definition holds :: "auth_db \<Rightarrow> nat \<Rightarrow> nat option \<Rightarrow> string \<Rightarrow> bool" where
  "holds db u obj name \<longleftrightarrow>
     (As_user u, obj, name) \<in> grants db \<or> list_ex (\<lambda>(v, gr). v = u \<and> (As_group gr, obj, name) \<in> grants db) (user_groups db)"

definition auth_rest :: "auth_db \<Rightarrow> (nat \<times> nat) list \<times> Tenant_User list" where
  "auth_rest db = (user_groups db, tenant_users db)"

lemma grants_user: "(As_user u, Some pk, c) \<in> grants db \<longleftrightarrow> (u, pk, c) \<in> set (user_object_permissions db)"
  by (force simp: grants_def image_iff)+

lemma grants_group: "(As_group gr, Some pk, c) \<in> grants db \<longleftrightarrow> (gr, pk, c) \<in> set (group_object_permissions db)"
  by (force simp: grants_def image_iff)+

lemma grants_global:
  "(As_user u, None, p) \<in> grants db \<longleftrightarrow> (u, p) \<in> set (user_permissions db)"
  "(As_group gr, None, p) \<in> grants db \<longleftrightarrow> (gr, p) \<in> set (group_permissions db)"
  by (force simp: grants_def image_iff)+

lemmas grants_simps = grants_user grants_group grants_global

lemma holds_object:
  "holds db u (Some pk) c \<longleftrightarrow> (pk, c) \<in> set (user_obj_perms db u) \<or> (pk, c) \<in> set (groups_obj_perms db u)"
  by (force simp: holds_def grants_simps user_obj_perms_def groups_obj_perms_def list_ex_iff)

section \<open>Which objects a user sees\<close>

lemma groupby_Nil [simp]: "groupby rows = [] \<longleftrightarrow> rows = []"
  by (cases rows) (auto split: list.splits prod.splits if_splits)

lemma groupby_first: "groupby ((k, v) # rows) = (j, vs) # groups \<Longrightarrow> j = k"
  by (auto split: list.splits if_splits)

lemma groupby_sorted:
  fixes rows :: "('k :: linorder \<times> 'v) list"
  assumes "sorted (map fst rows)"
  shows "distinct (map fst (groupby rows)) \<and>
    map_of (groupby rows) k = (if k \<in> fst ` set rows then Some (map snd (filter (\<lambda>r. fst r = k) rows)) else None)"
  using assms
proof (induction rows arbitrary: k)
  case (Cons r rows)
  obtain j v where r: "r = (j, v)" by (cases r)
  from Cons.prems r have sorted: "sorted (map fst rows)" and least: "\<forall>x \<in> set rows. j \<le> fst x" by auto
  note IH = Cons.IH [OF sorted]
  show ?case
  proof (cases "groupby rows")
    case Nil
    then show ?thesis by (auto simp: r)
  next
    case (Cons p groups)
    obtain i ws where p: "p = (i, ws)" by (cases p)
    obtain s rows' where rows: "rows = s # rows'" using Cons by (cases rows) auto
    have i: "i = fst s" using groupby_first [of "fst s" "snd s" rows' i ws groups] Cons p rows by simp
    have at: "map_of ((i, ws) # groups) k' = (if k' \<in> fst ` set rows then Some (map snd (filter (\<lambda>r. fst r = k') rows)) else None)"
      and dist: "distinct (map fst ((i, ws) # groups))" for k'
      using IH [of k'] Cons p by simp_all
    have first: "ws = map snd (filter (\<lambda>r. fst r = i) rows)" using at [of i] rows i by auto
    show ?thesis
    proof (cases "j = i")
      case True
      have "map_of ((i, v # ws) # groups) k =
          (if k \<in> fst ` set (r # rows) then Some (map snd (filter (\<lambda>r. fst r = k) (r # rows))) else None)"
        using at [of k] first True r by (cases "k = i") auto
      then show ?thesis using Cons p r True dist by simp
    next
      case False
      have "j \<notin> fst ` set rows" using False least i sorted rows by fastforce
      then have "j \<notin> fst ` set ((i, ws) # groups)" using at [of j] by (metis map_of_eq_None_iff)
      moreover have "map_of ((j, [v]) # (i, ws) # groups) k =
          (if k \<in> fst ` set (r # rows) then Some (map snd (filter (\<lambda>r. fst r = k) (r # rows))) else None)"
        using at [of k] \<open>j \<notin> fst ` set rows\<close> r by (cases "k = j") (auto simp: filter_empty_conv)
      ultimately show ?thesis using Cons p r False dist by simp
    qed
  qed
qed simp

lemma complete_pks_set:
  "set (complete_pks codenames data) = {pk. pk \<in> fst ` set data \<and> (\<forall>c \<in> set codenames. (pk, c) \<in> set data)}"
proof -
  let ?rows = "sort_key fst data"
  have sorted: "sorted (map fst ?rows)" by simp
  have members: "(pk, c) \<in> set data \<longleftrightarrow> c \<in> snd ` set (filter (\<lambda>r. fst r = pk) ?rows)" for pk c by force
  have "pk \<in> set (complete_pks codenames data) \<longleftrightarrow>
      (\<exists>vs. map_of (groupby ?rows) pk = Some vs \<and> set codenames \<subseteq> set vs)" for pk
  proof -
    have d: "distinct (map fst (groupby ?rows))" using groupby_sorted [OF sorted] by blast
    show ?thesis unfolding complete_pks_def by (auto simp: map_of_eq_Some_iff [OF d] image_iff)
  qed
  moreover have "map_of (groupby ?rows) pk =
      (if pk \<in> fst ` set data then Some (map snd (filter (\<lambda>r. fst r = pk) ?rows)) else None)" for pk
    using groupby_sorted [OF sorted] by simp
  ultimately have "pk \<in> set (complete_pks codenames data) \<longleftrightarrow>
      pk \<in> fst ` set data \<and> set codenames \<subseteq> snd ` set (filter (\<lambda>r. fst r = pk) ?rows)" for pk
    by simp
  then show ?thesis unfolding members by blast
qed

definition privileged :: "bool \<Rightarrow> auth_user \<Rightarrow> bool" where
  "privileged with_staff user \<longleftrightarrow> us_is_superuser user \<or> with_staff \<and> us_is_staff user"

definition effective_id :: "guardian \<Rightarrow> auth_user \<Rightarrow> nat" where
  "effective_id g user = us_id (if us_is_anonymous user then ga_anonymous_user g else user)"

lemma visible_objects:
  assumes "perms \<noteq> []"
  shows "get_objects_for_user_custom g db tenant pk_of user perms queryset (default_visibility with_staff app) =
    (if privileged with_staff user then Inr queryset
     else rbind (is_tenant_manager db user tenant) (\<lambda>manager. Inr (if manager then queryset else
       filter (\<lambda>obj. \<forall>perm \<in> set perms. holds db (effective_id g user) (Some (pk_of obj)) (codename_of perm)) queryset)))"
proof -
  let ?cs = "remdups (map codename_of perms)" and ?u = "effective_id g user"
  let ?rows = "codename_filter ?cs (user_obj_perms db ?u) @ codename_filter ?cs (groups_obj_perms db ?u)"
  have rows: "(pk, c) \<in> set ?rows \<longleftrightarrow> c \<in> codename_of ` set perms \<and> holds db ?u (Some pk) c" for pk c
    using assms by (auto simp: codename_filter_def holds_object)
  let ?all = "\<lambda>pk. \<forall>perm \<in> set perms. holds db ?u (Some pk) (codename_of perm)"
  obtain perm where perm: "perm \<in> set perms" using assms by (cases perms) auto
  have all: "(\<forall>c \<in> set ?cs. (pk, c) \<in> set ?rows) \<longleftrightarrow> ?all pk" for pk
    unfolding rows by simp
  have some: "pk \<in> fst ` set ?rows" if "?all pk" for pk
  proof -
    have "(pk, codename_of perm) \<in> set ?rows" unfolding rows using that perm by blast
    then show ?thesis by (metis fst_conv imageI)
  qed
  have many: "pk \<in> set (complete_pks ?cs ?rows) \<longleftrightarrow> ?all pk" for pk
    unfolding complete_pks_set mem_Collect_eq all using some by blast
  have one: "pk \<in> fst ` set ?rows \<longleftrightarrow> ?all pk" if "length ?cs \<le> 1" for pk
  proof -
    have "set ?cs \<noteq> {}" using perm by auto
    moreover have "\<exists>c. xs = [c]" if "length xs \<le> 1" and "set xs \<noteq> {}" for xs :: "string list"
      using that by (cases xs) auto
    ultimately obtain c where "?cs = [c]" using \<open>length ?cs \<le> 1\<close> by blast
    then have "set ?cs = {c}" by simp
    then have named: "codename_of ` set perms = {codename_of perm}" using perm by auto
    have "?all pk \<longleftrightarrow> (\<forall>c \<in> codename_of ` set perms. holds db ?u (Some pk) c)" by blast
    then have same: "?all pk \<longleftrightarrow> holds db ?u (Some pk) (codename_of perm)" unfolding named by simp
    show ?thesis
    proof
      assume "pk \<in> fst ` set ?rows"
      then obtain row where "pk = fst row" and "row \<in> set ?rows" by (rule imageE)
      then have "(pk, snd row) \<in> set ?rows" by (simp only: prod.collapse)
      then show "?all pk" unfolding rows named same by auto
    qed (rule some)
  qed
  have nonempty: "perms = [] \<longleftrightarrow> False" using assms by simp
  let ?query = "if 1 < length ?cs then filter (\<lambda>obj. pk_of obj \<in> set (complete_pks ?cs ?rows)) queryset
    else filter (\<lambda>obj. pk_of obj \<in> fst ` set ?rows) queryset"
  have query: "?query = filter (\<lambda>obj. ?all (pk_of obj)) queryset"
    unfolding many by (cases "1 < length ?cs") (simp_all only: one not_less if_True if_False if_cancel)
  have run: "get_objects_for_user_custom g db tenant pk_of user perms queryset (default_visibility with_staff app) =
    (if privileged with_staff user then Inr queryset
     else rbind (is_tenant_manager db user tenant) (\<lambda>manager. if manager then Inr queryset else Inr ?query))"
  proof (cases "privileged with_staff user")
    case True
    then show ?thesis by (auto simp: get_objects_for_user_custom_def default_visibility_def privileged_def Let_def)
  next
    case False
    then have start: "get_objects_for_user_custom g db tenant pk_of user perms queryset (default_visibility with_staff app) =
        rbind (is_tenant_manager db user tenant) (\<lambda>manager. if manager then Inr queryset else Inr ?query)"
      by (cases "is_tenant_manager db user tenant"; cases "\<exists>m. is_tenant_manager db user tenant = Inr m \<and> m";
          cases "1 < length ?cs")
        (auto simp: get_objects_for_user_custom_def default_visibility_def privileged_def effective_id_def Let_def
          nonempty image_Un)
    with False show ?thesis by simp
  qed
  show ?thesis unfolding run query by (simp add: if_distrib [of Inr])
qed

section \<open>What the views need of Django and django-guardian\<close>

text \<open>The name under which a permission is recorded.\<close>

definition granted_name :: "nat option \<Rightarrow> string \<Rightarrow> string" where
  "granted_name obj perm = (case obj of None \<Rightarrow> perm | Some _ \<Rightarrow> codename_of perm)"

text \<open>
  The documented behaviour: the permissions directly assigned to a user or a group on an object, the
  permissions that a user has, who is no superuser, and what assigning and removing do.
\<close>

locale guardian_contract =
  fixes g :: guardian
  assumes user_perms: "set (ga_get_user_perms g db u pk) = {c. (As_user u, Some pk, c) \<in> grants db}"
    and group_perms: "set (ga_get_group_perms g db gr pk) = {c. (As_group gr, Some pk, c) \<in> grants db}"
    and object_perms: "\<not> us_is_superuser user \<Longrightarrow> c \<in> set (ga_get_perms g db user pk) \<Longrightarrow> holds db (us_id user) (Some pk) c"
    and global_perms: "\<not> us_is_superuser user \<Longrightarrow> p \<in> set (get_permissions_of_user g db user) \<Longrightarrow> holds db (us_id user) None p"
    and assign: "ga_assign_perm g perm who obj db = (Inr (), db') \<Longrightarrow>
      grants db' = insert (who, obj, granted_name obj perm) (grants db) \<and> auth_rest db' = auth_rest db"
    and remove: "ga_remove_perm g perm who obj db = (Inr (), db') \<Longrightarrow>
      grants db' = grants db - {(who, obj, granted_name obj perm)} \<and> auth_rest db' = auth_rest db"
begin

lemma remove_all_perms:
  "api_for (\<lambda>perm. ga_remove_perm g perm who obj) ps db = (Inr u, db') \<Longrightarrow>
    grants db' = grants db - (\<lambda>perm. (who, obj, granted_name obj perm)) ` set ps \<and> auth_rest db' = auth_rest db"
  by (induction ps arbitrary: db)
    (auto simp: api_return_def api_bind_def dest!: remove split: prod.splits sum.splits)

lemma assign_all_perms:
  "api_for (\<lambda>perm. ga_assign_perm g perm who obj) ps db = (Inr u, db') \<Longrightarrow>
    grants db' = grants db \<union> (\<lambda>perm. (who, obj, granted_name obj perm)) ` set ps \<and> auth_rest db' = auth_rest db"
  by (induction ps arbitrary: db)
    (auto simp: api_return_def api_bind_def dest!: assign split: prod.splits sum.splits)

lemma replaced:
  assumes "replace_permissions g ord who obj to_remove to_add db = (Inr u, db')"
  shows "grants db' = (grants db - (\<lambda>perm. (who, obj, granted_name obj perm)) ` set to_remove) \<union>
      (\<lambda>perm. (who, obj, granted_name obj perm)) ` set to_add \<and> auth_rest db' = auth_rest db"
proof -
  from assms obtain v db1
    where 1: "api_for (\<lambda>perm. ga_remove_perm g perm who obj) (set_iter ord to_remove) db = (Inr v, db1)"
      and 2: "api_for (\<lambda>perm. ga_assign_perm g perm who obj) (set_iter ord to_add) db1 = (Inr u, db')"
    by (auto simp: replace_permissions_def api_bind_def split: prod.splits sum.splits)
  show ?thesis using remove_all_perms [OF 1] assign_all_perms [OF 2] by (simp add: set_iter_facts)
qed

lemma direct_perms:
  "set (directly_assigned_perms g db area who pk) =
    with_prefix (perm_prefix area) ` {c \<in> set (all_perms_without_prefix area). (who, Some pk, c) \<in> grants db}"
  by (cases who) (auto simp: directly_assigned_perms_def user_perms group_perms)

end

lemma codename_with_prefix: "CHR ''.'' \<notin> set prefix \<Longrightarrow> codename_of (with_prefix prefix c) = c"
  by (induction prefix) (auto simp: codename_of_def with_prefix_def)

lemma with_prefix_eq [simp]: "with_prefix prefix c = with_prefix prefix c' \<longleftrightarrow> c = c'"
  by (simp add: with_prefix_def)

definition permission_choices :: "permission_area \<Rightarrow> string list" where
  "permission_choices area = map (with_prefix (perm_prefix area)) (all_perms_without_prefix area)"

text \<open>What \<open>MultipleChoiceField\<close> lets through.\<close>

definition chosen :: "string list \<Rightarrow> string list option \<Rightarrow> bool" where
  "chosen choices validated = (case validated of None \<Rightarrow> True | Some new \<Rightarrow> set new \<subseteq> set choices)"

definition changed_grants :: "auth_db \<Rightarrow> auth_db \<Rightarrow> grant set" where
  "changed_grants db db' = (grants db - grants db') \<union> (grants db' - grants db)"

text \<open>The grants after the permissions of \<open>who\<close> on \<open>obj\<close> named in \<open>relevant\<close> have been replaced by \<open>names\<close>.\<close>

definition regranted :: "principal \<Rightarrow> nat option \<Rightarrow> string set \<Rightarrow> string set \<Rightarrow> grant set \<Rightarrow> grant set" where
  "regranted who obj relevant names gs =
     {gr \<in> gs. \<not> (fst gr = who \<and> fst (snd gr) = obj \<and> snd (snd gr) \<in> relevant)} \<union> (\<lambda>c. (who, obj, c)) ` names"

lemma regranted_difference:
  assumes "names \<subseteq> relevant"
  shows "(gs - Pair who ` Pair obj ` ({c \<in> relevant. (who, obj, c) \<in> gs} - names)) \<union>
      Pair who ` Pair obj ` (names - {c \<in> relevant. (who, obj, c) \<in> gs}) = regranted who obj relevant names gs"
proof (rule set_eqI)
  fix gr :: grant
  obtain w o' c where "gr = (w, o', c)" by (cases gr)
  then show "gr \<in> (gs - Pair who ` Pair obj ` ({c \<in> relevant. (who, obj, c) \<in> gs} - names)) \<union>
      Pair who ` Pair obj ` (names - {c \<in> relevant. (who, obj, c) \<in> gs}) \<longleftrightarrow> gr \<in> regranted who obj relevant names gs"
    using assms by (auto simp: regranted_def image_iff)
qed

lemma atomic_db_Inr: "atomic_db m db = (Inr x, db') \<longleftrightarrow> m db = (Inr x, db')"
  by (auto simp: atomic_db_def split: prod.splits sum.splits)

lemma atomic_db_Inl: "atomic_db m db = (Inl e, db') \<Longrightarrow> db' = db"
  by (auto simp: atomic_db_def split: prod.splits sum.splits)

lemma guarded_Inr:
  "api_bind (if missing \<noteq> [] then api_bind (api_lift (is_tenant_manager d user tenant)) (\<lambda>manager.
       api_when (\<not> manager) (api_raise (PermissionDenied msg))) else api_return ()) (\<lambda>_. m) db = (Inr x, db') \<longleftrightarrow>
    (missing = [] \<or> is_tenant_manager d user tenant = Inr True) \<and> m db = (Inr x, db')"
proof (cases "missing = []")
  case True
  then show ?thesis by (simp add: api_bind_def api_return_def)
next
  case False
  then show ?thesis
    by (cases "is_tenant_manager d user tenant")
      (auto simp: api_bind_def api_lift_def api_when_def api_raise_def api_return_def)
qed

context guardian_contract
begin

lemma replaced_regranted:
  assumes "replace_permissions g ord who obj (perms_minus D new) (perms_minus new D) db = (Inr u, db')"
    and D: "granted_name obj ` set D = {c \<in> relevant. (who, obj, c) \<in> grants db}"
    and new: "granted_name obj ` set new \<subseteq> relevant" and inj: "inj_on (granted_name obj) (set D \<union> set new)"
  shows "grants db' = regranted who obj relevant (granted_name obj ` set new) (grants db)"
    and "auth_rest db' = auth_rest db"
    and "changed_grants db db' \<subseteq> (\<lambda>p. (who, obj, granted_name obj p)) ` ((set D - set new) \<union> (set new - set D))"
proof -
  let ?n = "granted_name obj"
  have minus: "?n ` (set D - set new) = ?n ` set D - ?n ` set new" "?n ` (set new - set D) = ?n ` set new - ?n ` set D"
    using inj by (auto simp: inj_on_def)
  have eq: "grants db' = (grants db - Pair who ` Pair obj ` ?n ` (set D - set new)) \<union> Pair who ` Pair obj ` ?n ` (set new - set D)"
    and "auth_rest db' = auth_rest db"
    using replaced [OF assms(1)] by (simp_all add: perms_minus_def image_image set_diff_eq)
  then show "auth_rest db' = auth_rest db" by simp
  show "grants db' = regranted who obj relevant (?n ` set new) (grants db)"
    unfolding eq minus D by (rule regranted_difference [OF new])
  show "changed_grants db db' \<subseteq> (\<lambda>p. (who, obj, ?n p)) ` ((set D - set new) \<union> (set new - set D))"
    unfolding changed_grants_def eq image_image by blast
qed

lemma updated_object:
  assumes prefix: "CHR ''.'' \<notin> set (perm_prefix area)" and new: "set new \<subseteq> set (permission_choices area)"
    and run: "update_object_permissions g ord area user tenant pk assignable who (Some new) db = (Inr u, db')"
  shows "grants db' = regranted who (Some pk) (set (all_perms_without_prefix area)) (codename_of ` set new) (grants db)"
    and "auth_rest db' = auth_rest db"
    and "is_tenant_manager db user tenant = Inr True \<or>
      changed_grants db db' \<subseteq> (\<lambda>p. (who, Some pk, codename_of p)) ` set assignable"
proof -
  let ?D = "directly_assigned_perms g db area who pk" and ?rel = "set (all_perms_without_prefix area)"
  let ?missing = "perms_minus (perms_minus ?D new) assignable @ perms_minus (perms_minus new ?D) assignable"
  have name: "granted_name (Some pk) = codename_of" by (simp add: granted_name_def fun_eq_iff)
  have D: "set ?D = with_prefix (perm_prefix area) ` {c \<in> ?rel. (who, Some pk, c) \<in> grants db}" by (rule direct_perms)
  from run have rep: "replace_permissions g ord who (Some pk) (perms_minus ?D new) (perms_minus new ?D) db = (Inr u, db')"
    and allowed: "is_tenant_manager db user tenant = Inr True \<or> ?missing = []"
    unfolding update_object_permissions_def atomic_db_Inr Let_def option.case guarded_Inr by blast+
  have names: "codename_of ` set ?D = {c \<in> ?rel. (who, Some pk, c) \<in> grants db}"
    unfolding D image_image by (simp add: codename_with_prefix [OF prefix])
  have sub: "codename_of ` set new \<subseteq> ?rel"
    using new by (auto simp: permission_choices_def codename_with_prefix [OF prefix])
  have "inj_on codename_of (range (with_prefix (perm_prefix area)))"
    by (auto simp: inj_on_def codename_with_prefix [OF prefix])
  moreover have "set ?D \<union> set new \<subseteq> range (with_prefix (perm_prefix area))"
    using new by (auto simp: D permission_choices_def)
  ultimately have inj: "inj_on codename_of (set ?D \<union> set new)" by (rule inj_on_subset)
  note res = replaced_regranted [OF rep, unfolded name, OF names sub inj]
  show "grants db' = regranted who (Some pk) ?rel (codename_of ` set new) (grants db)" and "auth_rest db' = auth_rest db"
    by (rule res)+
  show "is_tenant_manager db user tenant = Inr True \<or>
      changed_grants db db' \<subseteq> (\<lambda>p. (who, Some pk, codename_of p)) ` set assignable"
  proof (cases "?missing = []")
    case True
    then have "(set ?D - set new) \<union> (set new - set ?D) \<subseteq> set assignable"
      by (auto simp: perms_minus_def filter_empty_conv)
    then show ?thesis using res(3) by blast
  qed (use allowed in blast)
qed

lemma updated_global:
  assumes new: "set new \<subseteq> set relevant"
    and run: "update_global_permissions g ord relevant assignable who (Some new) db = (Inr u, db')"
  shows "grants db' = regranted who None (set relevant) (set new) (grants db)"
    and "auth_rest db' = auth_rest db"
    and "changed_grants db db' \<subseteq> (\<lambda>p. (who, None, p)) ` set assignable"
proof -
  let ?D = "get_directly_assigned_permissions who db relevant"
  have name: "granted_name None = (\<lambda>p. p)" by (simp add: granted_name_def fun_eq_iff)
  have D: "set ?D = {c \<in> set relevant. (who, None, c) \<in> grants db}"
    by (cases who) (force simp: get_directly_assigned_permissions_def grants_simps)+
  from run have rep: "replace_permissions g ord who None (perms_minus ?D new) (perms_minus new ?D) db = (Inr u, db')"
    and allowed: "perms_minus (perms_minus ?D new) assignable @ perms_minus (perms_minus new ?D) assignable = []"
    by (auto simp: update_global_permissions_def atomic_db_Inr Let_def split: if_splits)
  have names: "(\<lambda>p. p) ` set ?D = {c \<in> set relevant. (who, None, c) \<in> grants db}" using D by simp
  have sub: "(\<lambda>p. p) ` set new \<subseteq> set relevant" using new by simp
  note res = replaced_regranted [OF rep, unfolded name, OF names sub inj_on_id2]
  show "grants db' = regranted who None (set relevant) (set new) (grants db)" and "auth_rest db' = auth_rest db"
    using res by simp_all
  have "(set ?D - set new) \<union> (set new - set ?D) \<subseteq> set assignable"
    using allowed by (auto simp: perms_minus_def filter_empty_conv)
  then show "changed_grants db db' \<subseteq> (\<lambda>p. (who, None, p)) ` set assignable" using res(3) by blast
qed

end

text \<open>The requests that change permissions, with what they compute first.\<close>

definition may_grant :: "guardian \<Rightarrow> auth_db \<Rightarrow> permission_area \<Rightarrow> auth_user \<Rightarrow> nat \<Rightarrow> string \<Rightarrow> bool" where
  "may_grant g db area user pk c \<longleftrightarrow>
     c \<in> set (all_perms_without_prefix area) \<and> c \<in> set (ga_get_perms g db user pk) \<and>
     with_prefix (perm_prefix area) c \<in> set (get_permissions_of_user g db user)"

lemma put_object_run:
  "put_object_permissions g ord area user tenant pk who validated db =
    (if us_is_anonymous user then (Inl AssertionError, db)
     else update_object_permissions g ord area user tenant pk
       (filter (\<lambda>p. p \<in> set (perms_for_user g db area user pk))
         (filter (\<lambda>perm. perm \<in> set (permission_choices area)) (get_permissions_of_user g db user))) who validated db)"
  by (simp add: put_object_permissions_def get_assignable_permissions_def permission_choices_def api_bind_def api_get_def api_lift_def)

lemma put_global_run:
  "put_global_permissions g ord relevant user who validated db =
    (if us_is_anonymous user then (Inl AssertionError, db)
     else update_global_permissions g ord relevant
       (filter (\<lambda>perm. perm \<in> set relevant) (get_permissions_of_user g db user)) who validated db)"
  by (simp add: put_global_permissions_def get_assignable_permissions_def api_bind_def api_get_def api_lift_def)

lemma update_object_None: "update_object_permissions g ord area user tenant pk assignable who None db = (Inr (), db)"
  by (simp add: update_object_permissions_def atomic_db_def)

lemma update_global_None: "update_global_permissions g ord relevant assignable who None db = (Inr (), db)"
  by (simp add: update_global_permissions_def atomic_db_def)

lemma regranted_same: "changed_grants db db = {}"
  by (simp add: changed_grants_def)

lemma put_object_result:
  assumes g: "guardian_contract g" and prefix: "CHR ''.'' \<notin> set (perm_prefix area)" and ok: "chosen (permission_choices area) validated"
    and run: "put_object_permissions g ord area user tenant pk who validated db = (res, db')"
  shows "case res of Inl e \<Rightarrow> db' = db
    | Inr _ \<Rightarrow> auth_rest db' = auth_rest db \<and>
        grants db' = (case validated of None \<Rightarrow> grants db
          | Some new \<Rightarrow> regranted who (Some pk) (set (all_perms_without_prefix area)) (codename_of ` set new) (grants db)) \<and>
        (is_tenant_manager db user tenant = Inr True \<or>
         changed_grants db db' \<subseteq> (\<lambda>c. (who, Some pk, c)) ` Collect (may_grant g db area user pk))"
proof (cases "us_is_anonymous user")
  case True
  then show ?thesis using run by (auto simp: put_object_run)
next
  case False
  let ?held = "filter (\<lambda>p. p \<in> set (perms_for_user g db area user pk))
      (filter (\<lambda>perm. perm \<in> set (permission_choices area)) (get_permissions_of_user g db user))"
  have upd: "update_object_permissions g ord area user tenant pk ?held who validated db = (res, db')"
    using run False by (simp add: put_object_run)
  have held: "(\<lambda>p. (who, Some pk, codename_of p)) ` set ?held \<subseteq> (\<lambda>c. (who, Some pk, c)) ` Collect (may_grant g db area user pk)"
    by (auto simp: perms_for_user_def may_grant_def codename_with_prefix [OF prefix])
  show ?thesis
  proof (cases res)
    case Inl
    then show ?thesis using upd atomic_db_Inl unfolding update_object_permissions_def by auto
  next
    case (Inr u)
    show ?thesis
    proof (cases validated)
      case None
      then show ?thesis using upd Inr by (simp add: update_object_None regranted_same)
    next
      case (Some new)
      then have "set new \<subseteq> set (permission_choices area)" using ok by (simp add: chosen_def)
      note res = guardian_contract.updated_object [OF g prefix this upd [unfolded Inr Some]]
      show ?thesis using res held Inr Some by auto
    qed
  qed
qed

lemma put_global_result:
  assumes g: "guardian_contract g" and ok: "chosen relevant validated"
    and run: "put_global_permissions g ord relevant user who validated db = (res, db')"
  shows "case res of Inl e \<Rightarrow> db' = db
    | Inr _ \<Rightarrow> auth_rest db' = auth_rest db \<and>
        grants db' = (case validated of None \<Rightarrow> grants db
          | Some new \<Rightarrow> regranted who None (set relevant) (set new) (grants db)) \<and>
        changed_grants db db' \<subseteq> (\<lambda>p. (who, None, p)) ` set (get_permissions_of_user g db user)"
proof (cases "us_is_anonymous user")
  case True
  then show ?thesis using run by (auto simp: put_global_run)
next
  case False
  let ?held = "filter (\<lambda>perm. perm \<in> set relevant) (get_permissions_of_user g db user)"
  have upd: "update_global_permissions g ord relevant ?held who validated db = (res, db')"
    using run False by (simp add: put_global_run)
  show ?thesis
  proof (cases res)
    case Inl
    then show ?thesis using upd atomic_db_Inl unfolding update_global_permissions_def by auto
  next
    case (Inr u)
    show ?thesis
    proof (cases validated)
      case None
      then show ?thesis using upd Inr by (simp add: update_global_None regranted_same)
    next
      case (Some new)
      then have "set new \<subseteq> set relevant" using ok by (simp add: chosen_def)
      note res = guardian_contract.updated_global [OF g this upd [unfolded Inr Some]]
      show ?thesis using res Inr Some by auto
    qed
  qed
qed

section \<open>Sequences of changes\<close>

text \<open>The users of \<open>U\<close> change permissions, of whomever, in whatever order.\<close>

inductive permission_step :: "guardian \<Rightarrow> auth_user set \<Rightarrow> auth_db \<Rightarrow> auth_db \<Rightarrow> bool"
  for g U
  where
    object: "put_object_permissions g ord area user tenant pk who validated db = (res, db') \<Longrightarrow> user \<in> U \<Longrightarrow>
      CHR ''.'' \<notin> set (perm_prefix area) \<Longrightarrow> chosen (permission_choices area) validated \<Longrightarrow> permission_step g U db db'"
  | global: "put_global_permissions g ord relevant user who validated db = (res, db') \<Longrightarrow> user \<in> U \<Longrightarrow>
      chosen relevant validated \<Longrightarrow> permission_step g U db db'"

text \<open>A user who can not hand out the permission \<open>name\<close> on \<open>obj\<close>.\<close>

definition powerless :: "auth_db \<Rightarrow> nat option \<Rightarrow> string \<Rightarrow> auth_user \<Rightarrow> bool" where
  "powerless db obj name user \<longleftrightarrow>
     \<not> us_is_superuser user \<and> (\<forall>tenant. is_tenant_manager db user tenant \<noteq> Inr True) \<and> \<not> holds db (us_id user) obj name"

definition holders :: "auth_db \<Rightarrow> nat option \<Rightarrow> string \<Rightarrow> principal set" where
  "holders db obj name = {who. (who, obj, name) \<in> grants db}"

lemma powerless_cong:
  assumes "auth_rest db' = auth_rest db" and "holders db' obj name = holders db obj name"
  shows "powerless db' obj name user = powerless db obj name user"
proof -
  have rest: "tenant_users db' = tenant_users db" using assms(1) by (simp add: auth_rest_def)
  have "is_tenant_manager db' = is_tenant_manager db" unfolding is_tenant_manager_def rest fun_eq_iff by simp
  moreover have "(who, obj, name) \<in> grants db' \<longleftrightarrow> (who, obj, name) \<in> grants db" for who
    using assms(2) by (auto simp: holders_def)
  then have "holds db' u obj name = holds db u obj name" for u
    using assms(1) by (simp add: holds_def auth_rest_def)
  ultimately show ?thesis by (simp add: powerless_def)
qed

lemma unchanged_holders:
  "(\<And>who. (who, obj, name) \<notin> changed_grants db db') \<Longrightarrow> holders db' obj name = holders db obj name"
  by (auto simp: changed_grants_def holders_def)

lemma permission_step_keeps:
  assumes g: "guardian_contract g" and "permission_step g U db db'" and U: "\<And>u. u \<in> U \<Longrightarrow> powerless db obj name u"
  shows "auth_rest db' = auth_rest db \<and> holders db' obj name = holders db obj name"
  using assms(2)
proof cases
  case (object ord area user tenant pk who validated res)
  show ?thesis
  proof (cases res)
    case Inl
    then show ?thesis using put_object_result [OF g object(3,4,1)] by simp
  next
    case (Inr u)
    note put = put_object_result [OF g object(3,4,1), unfolded Inr sum.case]
    have p: "powerless db obj name user" using U object(2) .
    then have sub: "changed_grants db db' \<subseteq> (\<lambda>c. (who, Some pk, c)) ` Collect (may_grant g db area user pk)"
      using put by (auto simp: powerless_def)
    have "(who', obj, name) \<notin> changed_grants db db'" for who'
    proof
      assume "(who', obj, name) \<in> changed_grants db db'"
      with sub have "obj = Some pk" and "may_grant g db area user pk name" by auto
      then have "holds db (us_id user) obj name"
        using guardian_contract.object_perms [OF g] p by (auto simp: may_grant_def powerless_def)
      with p show False by (simp add: powerless_def)
    qed
    from unchanged_holders [OF this] put show ?thesis by simp
  qed
next
  case (global ord relevant user who validated res)
  show ?thesis
  proof (cases res)
    case Inl
    then show ?thesis using put_global_result [OF g global(3,1)] by simp
  next
    case (Inr u)
    note put = put_global_result [OF g global(3,1), unfolded Inr sum.case]
    have p: "powerless db obj name user" using U global(2) .
    have "(who', obj, name) \<notin> changed_grants db db'" for who'
    proof
      assume "(who', obj, name) \<in> changed_grants db db'"
      with put have "obj = None" and "name \<in> set (get_permissions_of_user g db user)" by auto
      then have "holds db (us_id user) obj name"
        using guardian_contract.global_perms [OF g] p by (auto simp: powerless_def)
      with p show False by (simp add: powerless_def)
    qed
    from unchanged_holders [OF this] put show ?thesis by simp
  qed
qed

lemma permission_steps_keep:
  assumes g: "guardian_contract g" and "(permission_step g U)\<^sup>*\<^sup>* db0 db" and U: "\<And>u. u \<in> U \<Longrightarrow> powerless db0 obj name u"
  shows "auth_rest db = auth_rest db0 \<and> holders db obj name = holders db0 obj name"
  using assms(2)
proof (induction rule: rtranclp_induct)
  case (step db db')
  then have "powerless db obj name u" if "u \<in> U" for u using powerless_cong U that by metis
  from permission_step_keeps [OF g step(2) this] step.IH show ?case by simp
qed simp

section \<open>Access to a data series\<close>

definition may_run :: "guardian \<Rightarrow> auth_db \<Rightarrow> nat option \<Rightarrow> auth_user \<Rightarrow> nat \<Rightarrow> string list \<Rightarrow> bool" where
  "may_run g db tenant user pk perms \<longleftrightarrow>
     (if privileged True user then True
      else case is_tenant_manager db user tenant of
          Inl _ \<Rightarrow> False
        | Inr manager \<Rightarrow> if manager then True
            else list_all (\<lambda>perm. holds db (effective_id g user) (Some pk) (codename_of perm)) perms)"

lemma visible_single:
  assumes "perms \<noteq> []" and "\<And>obj. obj \<in> set queryset \<Longrightarrow> pk_of obj = pk"
  shows "get_objects_for_user_custom g db tenant pk_of user perms queryset (default_visibility True app) = Inr objs \<longleftrightarrow>
    (privileged True user \<or> (\<exists>m. is_tenant_manager db user tenant = Inr m)) \<and>
    objs = (if may_run g db tenant user pk perms then queryset else [])"
proof -
  have "filter (\<lambda>obj. \<forall>perm \<in> set perms. holds db u (Some (pk_of obj)) (codename_of perm)) queryset =
      (if list_all (\<lambda>perm. holds db u (Some pk) (codename_of perm)) perms then queryset else [])" for u
    using assms(2) by (auto simp: list_all_iff filter_id_conv filter_empty_conv)
  then show ?thesis
    unfolding visible_objects [OF assms(1)] may_run_def by (cases "is_tenant_manager db user tenant") auto
qed

lemma ensure_allowed:
  "ensure_http_method_globally_allowed settings ds user m = Inr () \<longleftrightarrow>
    \<not> (MAINTENANCE_MODE settings \<and> MAINTENANCE_USER_ID settings \<noteq> Some (us_id user)) \<and>
    \<not> (m \<in> {''POST'', ''PUT'', ''PATCH'', ''DELETE''} \<and> (backend_is_deprecated (dsr_backend ds) \<or> dsr_locked ds))"
  by (auto simp: ensure_http_method_globally_allowed_def)

lemma find_filter: "find P xs = (case filter P xs of [] \<Rightarrow> None | x # _ \<Rightarrow> Some x)"
  by (induction xs) auto

lemma read_perm: "data_series_read_perm = ''dataseries.ds_get_data_series''"
  by code_simp

lemma access_decision:
  "(get_data_series_object g settings db rows tenant user kwargs action method = Inr (Some ds) \<longleftrightarrow>
     (case method of None \<Rightarrow> False
      | Some m \<Rightarrow>
          ga_has_perm g db user ''dataseries.ds_get_data_series'' \<and>
          ga_has_perm g db user (get_permission_string_for_action_and_http_verb action m) \<and>
          (case get_data_series_id tenant rows kwargs of
             Inr (Some i) \<Rightarrow> find (\<lambda>ds. dsr_id ds = i) (DataSeries_objects tenant rows) = Some ds
           | _ \<Rightarrow> False) \<and>
          may_run g db tenant user (dsr_id ds)
            [''dataseries.ds_get_data_series'', get_permission_string_for_action_and_http_verb action m] \<and>
          \<not> (MAINTENANCE_MODE settings \<and> MAINTENANCE_USER_ID settings \<noteq> Some (us_id user)) \<and>
          \<not> (m \<in> {''POST'', ''PUT'', ''PATCH'', ''DELETE''} \<and> (backend_is_deprecated (dsr_backend ds) \<or> dsr_locked ds)))) \<and>
   (get_data_series_object g settings db rows tenant user kwargs action method = Inr None \<longleftrightarrow>
     (case method of None \<Rightarrow> False
      | Some m \<Rightarrow>
          ga_has_perm g db user ''dataseries.ds_get_data_series'' \<and>
          ga_has_perm g db user (get_permission_string_for_action_and_http_verb action m) \<and>
          (case get_data_series_id tenant rows kwargs of
             Inr (Some i) \<Rightarrow> find (\<lambda>ds. dsr_id ds = i) (DataSeries_objects tenant rows) = None
           | _ \<Rightarrow> False)))"
proof (cases "\<exists>m i. method = Some m \<and> get_data_series_id tenant rows kwargs = Inr (Some i) \<and>
    ga_has_perm g db user data_series_read_perm \<and> ga_has_perm g db user (get_permission_string_for_action_and_http_verb action m)")
  case False
  then show ?thesis
    by (cases "get_data_series_id tenant rows kwargs")
      (auto simp: get_data_series_object_def Let_def read_perm split: option.splits)
next
  case True
  then obtain m i where m: "method = Some m" and i: "get_data_series_id tenant rows kwargs = Inr (Some i)"
    and perms: "ga_has_perm g db user data_series_read_perm"
      "ga_has_perm g db user (get_permission_string_for_action_and_http_verb action m)" by blast
  let ?q = "filter (\<lambda>ds. dsr_id ds = i) (DataSeries_objects tenant rows)"
  let ?perms = "[data_series_read_perm, get_permission_string_for_action_and_http_verb action m]"
  show ?thesis
  proof (cases ?q)
    case Nil
    then show ?thesis using m i perms by (simp add: get_data_series_object_def Let_def find_filter read_perm)
  next
    case (Cons x xs)
    have "x \<in> set ?q" using Cons by simp
    then have x: "dsr_id x = i" by simp
    have found: "find (\<lambda>ds. dsr_id ds = i) (DataSeries_objects tenant rows) = Some x" by (simp add: find_filter Cons)
    have "?perms \<noteq> []" by simp
    note seen = visible_single [OF this, where queryset = ?q and pk_of = dsr_id and pk = i]
    show ?thesis
    proof (cases "may_run g db tenant user i ?perms")
      case True
      then have "get_objects_for_user_custom g db tenant dsr_id user ?perms ?q (default_visibility True ''dataseries'') = Inr ?q"
        using seen [of g db tenant user "''dataseries''" ?q] by (auto simp: may_run_def split: if_splits sum.splits)
      then have "get_data_series_object g settings db rows tenant user kwargs action method =
          rbind (ensure_http_method_globally_allowed settings x user m) (\<lambda>_. Inr (Some x))"
        using m i perms Cons by (simp add: get_data_series_object_def Let_def)
      then show ?thesis
        using True m i perms found x by (auto simp: rbind_Inr_iff ensure_allowed read_perm)
    next
      case False
      then have "get_objects_for_user_custom g db tenant dsr_id user ?perms ?q (default_visibility True ''dataseries'') = Inr objs \<Longrightarrow>
          objs = []" for objs
        using seen [of g db tenant user "''dataseries''" objs] by simp
      then have "get_data_series_object g settings db rows tenant user kwargs action method \<noteq> Inr res" for res
        using m i perms Cons by (auto simp: get_data_series_object_def Let_def rbind_Inr_iff split: list.splits if_splits)
      then show ?thesis using False m i perms found x by (auto simp: read_perm)
    qed
  qed
qed

section \<open>The tables as an implementation of the contract\<close>

text \<open>The documented behaviour on the tables; \<open>universe\<close> are the permissions that exist.\<close>

definition assign_row :: "string \<Rightarrow> principal \<Rightarrow> nat option \<Rightarrow> auth_db \<Rightarrow> auth_db" where
  "assign_row perm who obj db =
     (case (who, obj) of
        (As_user u, Some pk) \<Rightarrow> db\<lparr>user_object_permissions := List.insert (u, pk, codename_of perm) (user_object_permissions db)\<rparr>
      | (As_group gr, Some pk) \<Rightarrow> db\<lparr>group_object_permissions := List.insert (gr, pk, codename_of perm) (group_object_permissions db)\<rparr>
      | (As_user u, None) \<Rightarrow> db\<lparr>user_permissions := List.insert (u, perm) (user_permissions db)\<rparr>
      | (As_group gr, None) \<Rightarrow> db\<lparr>group_permissions := List.insert (gr, perm) (group_permissions db)\<rparr>)"

definition remove_row :: "string \<Rightarrow> principal \<Rightarrow> nat option \<Rightarrow> auth_db \<Rightarrow> auth_db" where
  "remove_row perm who obj db =
     (case (who, obj) of
        (As_user u, Some pk) \<Rightarrow> db\<lparr>user_object_permissions := removeAll (u, pk, codename_of perm) (user_object_permissions db)\<rparr>
      | (As_group gr, Some pk) \<Rightarrow> db\<lparr>group_object_permissions := removeAll (gr, pk, codename_of perm) (group_object_permissions db)\<rparr>
      | (As_user u, None) \<Rightarrow> db\<lparr>user_permissions := removeAll (u, perm) (user_permissions db)\<rparr>
      | (As_group gr, None) \<Rightarrow> db\<lparr>group_permissions := removeAll (gr, perm) (group_permissions db)\<rparr>)"

definition rows_of :: "(nat \<times> nat \<times> string) list \<Rightarrow> nat \<Rightarrow> nat \<Rightarrow> string list" where
  "rows_of rows i pk = map (\<lambda>r. snd (snd r)) (filter (\<lambda>r. fst r = i \<and> fst (snd r) = pk) rows)"

definition table_guardian :: "string list \<Rightarrow> guardian" where
  "table_guardian universe =
     \<lparr>ga_has_perm = (\<lambda>db user p. us_is_superuser user \<or> holds db (us_id user) None p),
      ga_backends = [\<lambda>db user. filter (\<lambda>p. us_is_superuser user \<or> holds db (us_id user) None p) universe],
      ga_get_perms = (\<lambda>db user pk. filter (\<lambda>c. us_is_superuser user \<or> holds db (us_id user) (Some pk) c) (map codename_of universe)),
      ga_get_user_perms = (\<lambda>db. rows_of (user_object_permissions db)),
      ga_get_group_perms = (\<lambda>db. rows_of (group_object_permissions db)),
      ga_assign_perm = (\<lambda>perm who obj db. if perm \<in> set universe then (Inr (), assign_row perm who obj db) else (Inl DoesNotExist, db)),
      ga_remove_perm = (\<lambda>perm who obj db. if perm \<in> set universe then (Inr (), remove_row perm who obj db) else (Inl DoesNotExist, db)),
      ga_anonymous_user = \<lparr>us_id = 0, us_is_anonymous = False, us_is_superuser = False, us_is_staff = False\<rparr>\<rparr>"

lemma grants_cong:
  "(\<And>w obj name. (w, obj, name) \<in> grants db \<longleftrightarrow> (w, obj, name) \<in> G) \<Longrightarrow> grants db = G"
  by auto

lemma assign_row_grants: "grants (assign_row perm who obj db) = insert (who, obj, granted_name obj perm) (grants db)"
proof (rule grants_cong)
  fix w obj' name
  show "(w, obj', name) \<in> grants (assign_row perm who obj db) \<longleftrightarrow>
      (w, obj', name) \<in> insert (who, obj, granted_name obj perm) (grants db)"
    by (cases who; cases obj; cases w; cases obj') (auto simp: assign_row_def grants_simps granted_name_def)
qed

lemma remove_row_grants: "grants (remove_row perm who obj db) = grants db - {(who, obj, granted_name obj perm)}"
proof (rule grants_cong)
  fix w obj' name
  show "(w, obj', name) \<in> grants (remove_row perm who obj db) \<longleftrightarrow>
      (w, obj', name) \<in> grants db - {(who, obj, granted_name obj perm)}"
    by (cases who; cases obj; cases w; cases obj') (auto simp: remove_row_def grants_simps granted_name_def)
qed

lemma rows_keep_rest:
  "auth_rest (assign_row perm who obj db) = auth_rest db" "auth_rest (remove_row perm who obj db) = auth_rest db"
  by (cases who; cases obj; simp add: assign_row_def remove_row_def auth_rest_def)+

interpretation tables: guardian_contract "table_guardian universe" for universe
proof unfold_locales
  show "set (ga_get_user_perms (table_guardian universe) db u pk) = {c. (As_user u, Some pk, c) \<in> grants db}" for db u pk
    by (force simp: table_guardian_def rows_of_def grants_simps)
  show "set (ga_get_group_perms (table_guardian universe) db gr pk) = {c. (As_group gr, Some pk, c) \<in> grants db}" for db gr pk
    by (force simp: table_guardian_def rows_of_def grants_simps)
  show "holds db (us_id user) (Some pk) c"
    if "\<not> us_is_superuser user" "c \<in> set (ga_get_perms (table_guardian universe) db user pk)" for user c db pk
    using that by (simp add: table_guardian_def)
  show "holds db (us_id user) None p"
    if "\<not> us_is_superuser user" "p \<in> set (get_permissions_of_user (table_guardian universe) db user)" for user p db
    using that by (simp add: table_guardian_def get_permissions_of_user_def)
  show "grants db' = insert (who, obj, granted_name obj perm) (grants db) \<and> auth_rest db' = auth_rest db"
    if "ga_assign_perm (table_guardian universe) perm who obj db = (Inr (), db')" for perm who obj db db'
    using that by (auto simp: table_guardian_def assign_row_grants rows_keep_rest split: if_splits)
  show "grants db' = grants db - {(who, obj, granted_name obj perm)} \<and> auth_rest db' = auth_rest db"
    if "ga_remove_perm (table_guardian universe) perm who obj db = (Inr (), db')" for perm who obj db db'
    using that by (auto simp: table_guardian_def remove_row_grants rows_keep_rest split: if_splits)
qed

section \<open>Properties\<close>

text \<open>C16: Who sees an object: superusers, staff where the caller admits them, managers of the
  current tenant, and otherwise exactly the users who hold every asked for permission on it, directly or through a group, whether one
  or several permissions are asked for. The order of the query set is kept.\<close>

theorem objects_for_user_exactly_permitted:
  assumes "perms \<noteq> []"
  shows "get_objects_for_user_custom g db tenant pk_of user perms queryset (default_visibility with_staff app) =
    (if privileged with_staff user then Inr queryset
     else rbind (is_tenant_manager db user tenant) (\<lambda>manager. Inr (if manager then queryset else
       filter (\<lambda>obj. \<forall>perm \<in> set perms. holds db (effective_id g user) (Some (pk_of obj)) (codename_of perm)) queryset)))"
  by (rule visible_objects [OF assms])

definition demo_user :: "nat \<Rightarrow> auth_user" where
  "demo_user i = \<lparr>us_id = i, us_is_anonymous = False, us_is_superuser = False, us_is_staff = False\<rparr>"

text \<open>User 1 may read object 7 directly and change it through group 5; user 2 may do neither.\<close>

definition demo_auth :: auth_db where
  "demo_auth =
     \<lparr>user_object_permissions = [(1, 7, ''ds_get_data_series'')], group_object_permissions = [(5, 7, ''ds_put_data_series'')],
      user_permissions = [(1, ''dataseries.ds_get_data_series''), (2, ''dataseries.ds_put_data_series''), (1, ''dataseries.ds_put_data_series'')],
      group_permissions = [], user_groups = [(1, 5)],
      tenant_users = [\<lparr>tu_tenant = 3, tu_user = 1, tu_system = False, tu_tenant_manager = False, tu_deleted_at = None\<rparr>]\<rparr>"

definition demo_guardian :: guardian where
  "demo_guardian = table_guardian [''dataseries.ds_get_data_series'', ''dataseries.ds_put_data_series'', ''dataseries.ds_get_data_point'']"

theorem objects_for_user_exactly_permitted_witness:
  "get_objects_for_user_custom demo_guardian demo_auth (Some 3) (\<lambda>i. i) (demo_user 1)
     [''dataseries.ds_get_data_series'', ''dataseries.ds_put_data_series''] [6, 7, 8] (default_visibility True ''dataseries'') = Inr [7]"
proof -
  have "[''dataseries.ds_get_data_series'', ''dataseries.ds_put_data_series''] \<noteq> ([] :: string list)" by simp
  note run = objects_for_user_exactly_permitted [OF this]
  show ?thesis by (subst run) code_simp
qed

text \<open>C14: A change of the permissions of a user or group on an object either fails and changes
  nothing, or it replaces exactly their permissions on that object that the view knows by the chosen ones: all other
  grants, on other objects, to others and global ones, stay. Unless the requesting user manages the
  tenant, every permission that was given or taken is one that this user holds on the object and globally.\<close>

theorem permission_update_exact:
  assumes "guardian_contract g" and "CHR ''.'' \<notin> set (perm_prefix area)" and "chosen (permission_choices area) validated"
    and "put_object_permissions g ord area user tenant pk who validated db = (res, db')"
  shows "case res of Inl e \<Rightarrow> db' = db
    | Inr _ \<Rightarrow> auth_rest db' = auth_rest db \<and>
        grants db' = (case validated of None \<Rightarrow> grants db
          | Some new \<Rightarrow> regranted who (Some pk) (set (all_perms_without_prefix area)) (codename_of ` set new) (grants db)) \<and>
        (is_tenant_manager db user tenant = Inr True \<or>
         changed_grants db db' \<subseteq> (\<lambda>c. (who, Some pk, c)) ` Collect (may_grant g db area user pk))"
  by (rule put_object_result [OF assms])

text \<open>User 1 gives user 2 the right to read; user 2 may not take it back, as 2 does not hold it globally.\<close>

definition demo_put :: "nat \<Rightarrow> nat \<Rightarrow> string list \<Rightarrow> auth_db \<Rightarrow> unit result \<times> auth_db" where
  "demo_put i j new = put_object_permissions demo_guardian (\<lambda>xs. xs) data_series_area (demo_user i) (Some 3) 7 (As_user j) (Some new)"

lemma demo_put_results:
  "fst (demo_put 1 2 [''dataseries.ds_get_data_series''] demo_auth) = Inr ()"
  "fst (demo_put 2 1 [] demo_auth) = Inl (PermissionDenied ''can not change permissions you do not have'')"
  "CHR ''.'' \<notin> set (perm_prefix data_series_area)"
  "chosen (permission_choices data_series_area) (Some [''dataseries.ds_get_data_series''])"
  by code_simp+

theorem permission_update_exact_witness:
  "(As_user 2, Some 7, ''ds_get_data_series'') \<in> grants (snd (demo_put 1 2 [''dataseries.ds_get_data_series''] demo_auth)) \<and>
   (As_user 2, Some 7, ''ds_get_data_series'') \<notin> grants demo_auth"
proof -
  have g: "guardian_contract demo_guardian" unfolding demo_guardian_def by (rule tables.guardian_contract_axioms)
  obtain db' where run: "demo_put 1 2 [''dataseries.ds_get_data_series''] demo_auth = (Inr (), db')"
    using demo_put_results(1) by (metis prod.collapse)
  have "grants db' = regranted (As_user 2) (Some 7) (set (all_perms_without_prefix data_series_area))
      (codename_of ` set [''dataseries.ds_get_data_series'']) (grants demo_auth)"
    using permission_update_exact [OF g demo_put_results(3,4) run [unfolded demo_put_def]] by simp
  moreover have "codename_of ''dataseries.ds_get_data_series'' = ''ds_get_data_series''"
    "(As_user 2, Some 7, ''ds_get_data_series'') \<notin> grants demo_auth" by code_simp+
  ultimately show ?thesis using run by (simp add: regranted_def)
qed

text \<open>C15: Permissions do not leak: however often users change permissions, of whomever, in whatever
  order, a permission that none of them holds (and none of them manages the tenant or is a superuser) is
  held afterwards by exactly the users and groups that held it before.\<close>

theorem permissions_do_not_leak:
  assumes "guardian_contract g" and "(permission_step g U)\<^sup>*\<^sup>* db0 db" and "\<And>u. u \<in> U \<Longrightarrow> powerless db0 obj name u"
  shows "holders db obj name = holders db0 obj name"
  using permission_steps_keep [OF assms] by blast

text \<open>User 1 hands around what 1 holds; the right to read data points stays with nobody.\<close>

theorem permissions_do_not_leak_witness:
  "holders (snd (demo_put 1 2 [''dataseries.ds_get_data_series''] demo_auth)) (Some 7) ''ds_get_data_point'' =
   holders demo_auth (Some 7) ''ds_get_data_point''"
proof -
  have g: "guardian_contract demo_guardian" unfolding demo_guardian_def by (rule tables.guardian_contract_axioms)
  have "permission_step demo_guardian {demo_user 1} demo_auth (snd (demo_put 1 2 [''dataseries.ds_get_data_series''] demo_auth))"
    using demo_put_results(3,4) unfolding demo_put_def
    by (intro permission_step.object [OF surjective_pairing]) auto
  then have steps: "(permission_step demo_guardian {demo_user 1})\<^sup>*\<^sup>* demo_auth
      (snd (demo_put 1 2 [''dataseries.ds_get_data_series''] demo_auth))" by blast
  have "is_tenant_manager demo_auth (demo_user 1) tenant \<noteq> Inr True" for tenant
    by (simp add: is_tenant_manager_def demo_auth_def demo_user_def split: option.split)
  moreover have "\<not> us_is_superuser (demo_user 1)" "\<not> holds demo_auth (us_id (demo_user 1)) (Some 7) ''ds_get_data_point''" by code_simp+
  ultimately have "powerless demo_auth (Some 7) ''ds_get_data_point'' u" if "u \<in> {demo_user 1}" for u
    using that by (simp add: powerless_def)
  from permissions_do_not_leak [OF g steps this] show ?thesis .
qed

text \<open>C13: A request is let through to a data series exactly if the user may globally read data series
  and run the method on the action, the data series is alive and belongs to the current tenant, the user may do both
  on it (as superuser, staff, manager of the tenant or by permissions held on it), the system is not
  in maintenance for this user, and the method does not write to a locked or outdated data series. The result is
  empty exactly if only the data series is missing; everything else is an exception.\<close>

theorem data_series_access_decision:
  "(get_data_series_object g settings db rows tenant user kwargs action method = Inr (Some ds) \<longleftrightarrow>
     (case method of None \<Rightarrow> False
      | Some m \<Rightarrow>
          ga_has_perm g db user ''dataseries.ds_get_data_series'' \<and>
          ga_has_perm g db user (get_permission_string_for_action_and_http_verb action m) \<and>
          (case get_data_series_id tenant rows kwargs of
             Inr (Some i) \<Rightarrow> find (\<lambda>ds. dsr_id ds = i) (DataSeries_objects tenant rows) = Some ds
           | _ \<Rightarrow> False) \<and>
          may_run g db tenant user (dsr_id ds)
            [''dataseries.ds_get_data_series'', get_permission_string_for_action_and_http_verb action m] \<and>
          \<not> (MAINTENANCE_MODE settings \<and> MAINTENANCE_USER_ID settings \<noteq> Some (us_id user)) \<and>
          \<not> (m \<in> {''POST'', ''PUT'', ''PATCH'', ''DELETE''} \<and> (backend_is_deprecated (dsr_backend ds) \<or> dsr_locked ds)))) \<and>
   (get_data_series_object g settings db rows tenant user kwargs action method = Inr None \<longleftrightarrow>
     (case method of None \<Rightarrow> False
      | Some m \<Rightarrow>
          ga_has_perm g db user ''dataseries.ds_get_data_series'' \<and>
          ga_has_perm g db user (get_permission_string_for_action_and_http_verb action m) \<and>
          (case get_data_series_id tenant rows kwargs of
             Inr (Some i) \<Rightarrow> find (\<lambda>ds. dsr_id ds = i) (DataSeries_objects tenant rows) = None
           | _ \<Rightarrow> False)))"
  by (rule access_decision)

end
