(* ===== verification/Server_Flow_Correct.thy ===== *)
theory Server_Flow_Correct
  imports Server_Flow Server_Permissions_Correct
begin

text \<open>
  What the views of flows promise: which endpoint serves a request, whose secret is handed
  out, and that endpoints keep a live engine of their tenant whatever the views do.
\<close>

section \<open>Who may use an object\<close>

definition may_on :: "bool \<Rightarrow> guardian \<Rightarrow> auth_db \<Rightarrow> nat option \<Rightarrow> auth_user \<Rightarrow> nat \<Rightarrow> string list \<Rightarrow> bool" where
  "may_on with_staff g db tenant user pk perms \<longleftrightarrow>
     privileged with_staff user \<or> is_tenant_manager db user tenant = Inr True \<or>
     list_all (\<lambda>perm. holds db (effective_id g user) (Some pk) (codename_of perm)) perms"

lemma visible_iff:
  assumes "perms \<noteq> []"
  shows "get_objects_for_user_custom g db tenant pk_of user perms queryset (default_visibility with_staff app) = Inr objs \<longleftrightarrow>
    (privileged with_staff user \<or> (\<exists>m. is_tenant_manager db user tenant = Inr m)) \<and>
    objs = filter (\<lambda>obj. may_on with_staff g db tenant user (pk_of obj) perms) queryset"
  unfolding visible_objects [OF assms]
  by (cases "is_tenant_manager db user tenant") (auto simp: may_on_def list_all_iff)

lemma current_objects:
  "e \<in> set (Engine_objects current db) \<longleftrightarrow> e \<in> set (engines db) \<and> en_deleted_at e = None \<and> of_current current (en_tenant e)"
  "p \<in> set (HttpEndpoint_objects current db) \<longleftrightarrow>
    p \<in> set (http_endpoints db) \<and> ep_deleted_at p = None \<and> of_current current (ep_tenant p)"
  by (auto simp: Engine_objects_def HttpEndpoint_objects_def)

section \<open>Routes\<close>

text \<open>The tables are in order: ids are primary keys, live endpoints of users have a live engine of their tenant,
  live engines have a secret, and the external ids of live rows are unique in a tenant.\<close>

definition engine_for :: "flow_db \<Rightarrow> HttpEndpoint_row \<Rightarrow> Engine_row \<Rightarrow> bool" where
  "engine_for db e en \<longleftrightarrow> en \<in> set (engines db) \<and> ep_engine_id e = Some (en_id en) \<and> en_tenant en = ep_tenant e \<and>
     en_deleted_at en = None"

definition flow_ok :: "flow_db \<Rightarrow> bool" where
  "flow_ok db \<longleftrightarrow>
     distinct (map en_id (engines db)) \<and> distinct (map ep_id (http_endpoints db)) \<and>
     (\<forall>e \<in> set (http_endpoints db). ep_deleted_at e = None \<longrightarrow> \<not> ep_system e \<longrightarrow> (\<exists>en. engine_for db e en)) \<and>
     (\<forall>en \<in> set (engines db). en_deleted_at en = None \<longrightarrow> en_secret en \<noteq> []) \<and>
     (\<forall>e \<in> set (engines db). \<forall>e' \<in> set (engines db). en_deleted_at e = None \<and> en_deleted_at e' = None \<and>
        en_tenant e = en_tenant e' \<and> en_external_id e = en_external_id e' \<longrightarrow> e = e') \<and>
     (\<forall>e \<in> set (http_endpoints db). \<forall>e' \<in> set (http_endpoints db). ep_deleted_at e = None \<and> ep_deleted_at e' = None \<and>
        ep_tenant e = ep_tenant e' \<and> ep_external_id e = ep_external_id e' \<longrightarrow> e = e')"

text \<open>The endpoints of a tenant that serve requests, and where a request is sent to with which secret.\<close>

definition serves_requests :: "flow_db \<Rightarrow> nat \<Rightarrow> string \<Rightarrow> bool \<Rightarrow> HttpEndpoint_row \<Rightarrow> bool" where
  "serves_requests db t verb public e \<longleftrightarrow>
     e \<in> set (http_endpoints db) \<and> ep_deleted_at e = None \<and> ep_tenant e = t \<and> ep_method e = verb \<and> ep_public e = public \<and>
     (if ep_system e then ep_engine_id e = None else \<exists>en. engine_for db e en)"

definition sends_to :: "flow_settings \<Rightarrow> flow_db \<Rightarrow> HttpEndpoint_row \<Rightarrow> string \<Rightarrow> string \<Rightarrow> bool" where
  "sends_to settings db e upstream secret \<longleftrightarrow>
     (if ep_system e then upstream = SKIPPER_DEFAULT_NODE_RED_UPSTREAM settings \<and> secret = SKIPPER_DEFAULT_SYSTEM_SECRET settings
      else \<exists>en. engine_for db e en \<and> upstream = en_upstream en \<and> secret = en_secret en)"

text \<open>
  What the loop over the endpoints makes of one of them: the path is read from the URI and matched
  against the pattern of the endpoint. It goes on to the next endpoint only if the pattern does not match: a
  pattern that is no regular expression (which \<open>re.match\<close> raises for) ends it as well.
\<close>

definition match_outcome :: "flow_settings \<Rightarrow> string \<Rightarrow> HttpEndpoint_row \<Rightarrow> bool result" where
  "match_outcome settings uri e = rbind (path_from_uri uri) (re_match settings (''^'' @ ep_path e @ ''$''))"

definition stops :: "flow_settings \<Rightarrow> string \<Rightarrow> HttpEndpoint_row \<Rightarrow> bool" where
  "stops settings uri e \<longleftrightarrow> match_outcome settings uri e \<noteq> Inr False"

lemma flow_okD:
  assumes "flow_ok db"
  shows "distinct (map en_id (engines db))" and "distinct (map ep_id (http_endpoints db))"
    and "\<And>e. e \<in> set (http_endpoints db) \<Longrightarrow> ep_deleted_at e = None \<Longrightarrow> \<not> ep_system e \<Longrightarrow> \<exists>en. engine_for db e en"
    and "\<And>en. en \<in> set (engines db) \<Longrightarrow> en_deleted_at en = None \<Longrightarrow> en_secret en \<noteq> []"
    and "\<And>a b. a \<in> set (engines db) \<Longrightarrow> b \<in> set (engines db) \<Longrightarrow> en_deleted_at a = None \<Longrightarrow> en_deleted_at b = None \<Longrightarrow>
      en_tenant a = en_tenant b \<Longrightarrow> en_external_id a = en_external_id b \<Longrightarrow> a = b"
    and "\<And>a b. a \<in> set (http_endpoints db) \<Longrightarrow> b \<in> set (http_endpoints db) \<Longrightarrow> ep_deleted_at a = None \<Longrightarrow>
      ep_deleted_at b = None \<Longrightarrow> ep_tenant a = ep_tenant b \<Longrightarrow> ep_external_id a = ep_external_id b \<Longrightarrow> a = b"
  using assms by (simp_all add: flow_ok_def)

lemma find_unique_id:
  assumes "distinct (map f xs)" and "x \<in> set xs" and "P x" and "\<And>y. y \<in> set xs \<Longrightarrow> P y \<Longrightarrow> f y = f x"
  shows "find P xs = Some x"
proof -
  have "y = x" if "find P xs = Some y" for y
    using that assms by (metis find_Some_iff distinct_map inj_onD nth_mem)
  moreover have "find P xs \<noteq> None" using assms(2,3) by (auto simp: find_None_iff)
  ultimately show ?thesis by auto
qed

lemma joined_engine_iff:
  assumes "distinct (map en_id (engines db))"
  shows "joined_engine db e = Some en \<longleftrightarrow> en \<in> set (engines db) \<and> ep_engine_id e = Some (en_id en) \<and> en_tenant en = ep_tenant e"
proof
  assume "joined_engine db e = Some en"
  then show "en \<in> set (engines db) \<and> ep_engine_id e = Some (en_id en) \<and> en_tenant en = ep_tenant e"
    unfolding joined_engine_def by (auto dest: find_SomeD)
next
  assume "en \<in> set (engines db) \<and> ep_engine_id e = Some (en_id en) \<and> en_tenant en = ep_tenant e"
  then show "joined_engine db e = Some en"
    unfolding joined_engine_def by (intro find_unique_id [OF assms]) auto
qed

lemma engine_of_iff:
  assumes "distinct (map en_id (engines db))"
  shows "engine_of db current e = Some en \<longleftrightarrow>
    en \<in> set (engines db) \<and> ep_engine_id e = Some (en_id en) \<and> of_current current (en_tenant en)"
proof
  assume "engine_of db current e = Some en"
  then show "en \<in> set (engines db) \<and> ep_engine_id e = Some (en_id en) \<and> of_current current (en_tenant en)"
    unfolding engine_of_def by (auto dest: find_SomeD)
next
  assume "en \<in> set (engines db) \<and> ep_engine_id e = Some (en_id en) \<and> of_current current (en_tenant en)"
  then show "engine_of db current e = Some en"
    unfolding engine_of_def by (intro find_unique_id [OF assms]) auto
qed

lemma active_endpoints_set:
  assumes "distinct (map en_id (engines db))"
  shows "e \<in> set (active_endpoints coll db current (Some t) verb public) \<longleftrightarrow>
    of_current current t \<and> serves_requests db t verb public e"
proof -
  have "(case joined_engine db e of None \<Rightarrow> False | Some en \<Rightarrow> en_deleted_at en = None) \<longleftrightarrow>
      (\<exists>en. joined_engine db e = Some en \<and> en_deleted_at en = None)"
    by (simp split: option.split)
  also have "\<dots> \<longleftrightarrow> (\<exists>en. engine_for db e en)"
    by (auto simp: joined_engine_iff [OF assms] engine_for_def)
  finally have "(case joined_engine db e of None \<Rightarrow> False | Some en \<Rightarrow> en_deleted_at en = None) \<longleftrightarrow> (\<exists>en. engine_for db e en)" .
  moreover have "joined_engine db e = None" if "ep_engine_id e = None"
    using joined_engine_iff [OF assms, of e] that by (cases "joined_engine db e") auto
  moreover have "ep_engine_id e \<noteq> None" if "engine_for db e en" for en
    using that by (simp add: engine_for_def)
  ultimately show ?thesis
    unfolding active_endpoints_def serves_requests_def by (auto simp: current_objects)
qed

lemma active_endpoints_sorted:
  "sorted (map (\<lambda>e. (ep_system e, coll (ep_external_id e))) (active_endpoints coll db current tenant verb public))"
  unfolding active_endpoints_def by (rule sorted_sort_key)

text \<open>The loop ends at the first endpoint that stops it, with this endpoint or with an exception.\<close>

lemma first_match_run:
  "first_match settings uri es =
     (case find (stops settings uri) es of
        None \<Rightarrow> Inr None
      | Some e \<Rightarrow> rbind (match_outcome settings uri e) (\<lambda>_. Inr (Some e)))"
proof (induction es)
  case (Cons e es)
  have "first_match settings uri (e # es) =
      rbind (match_outcome settings uri e) (\<lambda>matched. if matched then Inr (Some e) else first_match settings uri es)"
    by (simp add: match_outcome_def rbind_assoc)
  with Cons show ?case by (cases "match_outcome settings uri e") (auto simp: stops_def)
qed simp

lemma find_sorted:
  assumes "sorted (map f xs)" and "find P xs = Some x" and "y \<in> set xs" and "P y"
  shows "f x \<le> f y"
proof -
  obtain i where i: "i < length xs" "P (xs ! i)" "x = xs ! i" "\<And>j. j < i \<Longrightarrow> \<not> P (xs ! j)"
    using assms(2) by (auto simp: find_Some_iff)
  obtain j where j: "j < length xs" "y = xs ! j" using assms(3) by (auto simp: in_set_conv_nth)
  have "i \<le> j" using i(4) j assms(4) by (meson not_le)
  then show ?thesis using sorted_nth_mono [OF assms(1)] i j by (metis length_map nth_map)
qed

lemma sends_to_prop:
  assumes "flow_ok db" and "SKIPPER_DEFAULT_SYSTEM_SECRET settings \<noteq> []"
    and "of_current current t" and "serves_requests db t verb public e"
    and "public \<or> has_user" and "has_request"
  shows "\<exists>upstream secret. sends_to settings db e upstream secret \<and>
    get_upstream settings db current e has_user has_request = Inr upstream \<and>
    get_secret settings db current e has_user has_request = Inr secret"
proof (cases "ep_system e")
  case True
  then show ?thesis using assms
    by (auto simp: sends_to_def get_upstream_def get_secret_def engine_prop_def serves_requests_def)
next
  case False
  then obtain en where en: "engine_for db e en" using assms(4) by (auto simp: serves_requests_def)
  have "engine_of db current e = Some en"
    using assms(1,3,4) en by (auto simp: flow_ok_def engine_of_iff engine_for_def serves_requests_def)
  then show ?thesis using False assms(1) en
    by (auto simp: sends_to_def get_upstream_def get_secret_def engine_prop_def engine_for_def flow_ok_def)
qed

section \<open>Which endpoint serves a request\<close>

definition endpoint_order :: "(string \<Rightarrow> 'k::linorder) \<Rightarrow> HttpEndpoint_row \<Rightarrow> bool \<times> 'k" where
  "endpoint_order coll e = (ep_system e, coll (ep_external_id e))"

definition admitted :: "guardian \<Rightarrow> flow_db \<Rightarrow> nat \<Rightarrow> auth_user \<Rightarrow> string \<Rightarrow> HttpEndpoint_row \<Rightarrow> bool" where
  "admitted g db t user verb e \<longleftrightarrow>
     \<not> us_is_anonymous user \<and> (ga_has_perm g (flow_auth db) user ''flow.use'' \<or> ga_has_perm g (flow_auth db) user ''flow.impl'') \<and>
     serves_requests db t verb False e \<and> may_on False g (flow_auth db) (Some t) user (ep_id e) [''flow.use'']"

text \<open>The least one that matches, if there is one.\<close>

definition chosen_endpoint :: "('a \<Rightarrow> 'o::linorder) \<Rightarrow> ('a \<Rightarrow> bool) \<Rightarrow> 'a option \<Rightarrow> bool" where
  "chosen_endpoint order P choice \<longleftrightarrow>
     (case choice of None \<Rightarrow> \<forall>e. \<not> P e | Some e \<Rightarrow> P e \<and> (\<forall>e'. P e' \<longrightarrow> order e \<le> order e'))"

lemma chosen_find:
  assumes "sorted (map order xs)" and "\<And>e. e \<in> set xs \<and> P e \<longleftrightarrow> Q e"
  shows "chosen_endpoint order Q (find P xs)"
proof (cases "find P xs")
  case None
  then have "\<not> Q e" for e using assms(2) by (auto simp: find_None_iff)
  with None show ?thesis by (simp add: chosen_endpoint_def)
next
  case (Some e)
  then have "Q e" using assms(2) by (auto dest: find_SomeD)
  moreover have "order e \<le> order e'" if "Q e'" for e'
    using find_sorted [OF assms(1) Some] that assms(2) by blast
  ultimately show ?thesis using Some by (simp add: chosen_endpoint_def)
qed

lemma sorted_filter_map: "sorted (map f xs) \<Longrightarrow> sorted (map f (filter P xs))"
  by (induction xs) (auto simp: sorted_wrt_append)

text \<open>What the loop gives for the endpoint that it ends at, or for none.\<close>

definition loop_result :: "flow_settings \<Rightarrow> string \<Rightarrow> HttpEndpoint_row option \<Rightarrow> HttpEndpoint_row option result" where
  "loop_result settings uri choice =
     (case choice of None \<Rightarrow> Inr None | Some e \<Rightarrow> rbind (match_outcome settings uri e) (\<lambda>_. Inr (Some e)))"

lemma can_use_endpoint_impl_run:
  assumes "distinct (map en_id (engines db))" and "is_tenant_manager (flow_auth db) user (Some t) = Inr m"
  shows "\<exists>choice. can_use_endpoint_impl settings coll g db (Some t) user uri verb = loop_result settings uri choice \<and>
    chosen_endpoint (endpoint_order coll) (\<lambda>e. admitted g db t user verb e \<and> stops settings uri e) choice"
proof (cases "\<not> us_is_anonymous user \<and> (ga_has_perm g (flow_auth db) user ''flow.use'' \<or> ga_has_perm g (flow_auth db) user ''flow.impl'')")
  case True
  let ?es = "filter (\<lambda>e. may_on False g (flow_auth db) (Some t) user (ep_id e) [''flow.use''])
    (active_endpoints coll db (Some t) (Some t) verb False)"
  have "get_objects_for_user_custom g (flow_auth db) (Some t) ep_id user [''flow.use'']
      (active_endpoints coll db (Some t) (Some t) verb False) (default_visibility False ''flow'') = Inr ?es"
    using assms(2) by (simp add: visible_iff)
  then have run: "can_use_endpoint_impl settings coll g db (Some t) user uri verb = loop_result settings uri (find (stops settings uri) ?es)"
    using True first_match_run [of settings uri ?es] by (auto simp: can_use_endpoint_impl_def loop_result_def)
  have "sorted (map (endpoint_order coll) ?es)"
    unfolding endpoint_order_def by (intro sorted_filter_map active_endpoints_sorted)
  then have "chosen_endpoint (endpoint_order coll) (\<lambda>e. admitted g db t user verb e \<and> stops settings uri e)
      (find (stops settings uri) ?es)"
    by (rule chosen_find) (use True in \<open>auto simp: admitted_def active_endpoints_set [OF assms(1)] of_current_def\<close>)
  with run show ?thesis by blast
next
  case False
  then have "can_use_endpoint_impl settings coll g db (Some t) user uri verb = loop_result settings uri None"
    by (auto simp: can_use_endpoint_impl_def loop_result_def)
  moreover have "chosen_endpoint (endpoint_order coll) (\<lambda>e. admitted g db t user verb e \<and> stops settings uri e) None"
    using False by (auto simp: chosen_endpoint_def admitted_def)
  ultimately show ?thesis by blast
qed

lemma can_use_endpoint_public_run:
  assumes "distinct (map en_id (engines db))"
  shows "\<exists>choice. can_use_endpoint_public_impl settings coll db current t uri verb = loop_result settings uri choice \<and>
    chosen_endpoint (endpoint_order coll)
      (\<lambda>e. of_current current t \<and> serves_requests db t verb True e \<and> stops settings uri e) choice"
proof -
  let ?es = "active_endpoints coll db current (Some t) verb True"
  have "can_use_endpoint_public_impl settings coll db current t uri verb = loop_result settings uri (find (stops settings uri) ?es)"
    by (simp add: can_use_endpoint_public_impl_def first_match_run loop_result_def)
  moreover have "chosen_endpoint (endpoint_order coll)
      (\<lambda>e. of_current current t \<and> serves_requests db t verb True e \<and> stops settings uri e) (find (stops settings uri) ?es)"
    unfolding endpoint_order_def
    by (rule chosen_find [OF active_endpoints_sorted]) (auto simp: active_endpoints_set [OF assms(1)])
  ultimately show ?thesis by blast
qed

text \<open>The headers with which nginx passes the request on.\<close>

definition routed :: "flow_settings \<Rightarrow> flow_db \<Rightarrow> HttpEndpoint_row \<Rightarrow> (string \<Rightarrow> string \<Rightarrow> (string \<times> string) list) \<Rightarrow> flow_response result \<Rightarrow> bool" where
  "routed settings db e headers response \<longleftrightarrow>
     (\<exists>upstream secret. sends_to settings db e upstream secret \<and>
        response = rbind (hostname_str upstream) (\<lambda>hostname.
          ok_response ([(''noderedproxy'', upstream), (''flowsecret'', secret)] @ headers upstream hostname)))"

definition secure :: "flow_settings \<Rightarrow> flow_db \<Rightarrow> bool" where
  "secure settings db \<longleftrightarrow> flow_ok db \<and> SKIPPER_DEFAULT_SYSTEM_SECRET settings \<noteq> []"

section \<open>What the views keep of the tables\<close>

lemma table_updates [simp]:
  "engine_for (db\<lparr>flow_auth := auth\<rparr>) = engine_for db"
  "engine_for (db\<lparr>http_endpoints := eps\<rparr>) = engine_for db"
  "flow_ok (db\<lparr>flow_auth := auth\<rparr>) = flow_ok db"
  by (simp_all add: fun_eq_iff engine_for_def flow_ok_def)

lemma engine_for_cong: "ep_engine_id e = ep_engine_id e' \<Longrightarrow> ep_tenant e = ep_tenant e' \<Longrightarrow> engine_for db e = engine_for db e'"
  by (simp add: fun_eq_iff engine_for_def)

text \<open>An engine is replaced by one with the same keys, or by a deleted one that no live endpoint names.\<close>

lemma Engine_save_ok:
  assumes ok: "flow_ok db" and en: "en \<in> set (engines db)" "en_deleted_at en = None"
    and same: "en_id r = en_id en" "en_tenant r = en_tenant en" "en_external_id r = en_external_id en"
    and generated: "generated \<noteq> []"
    and unnamed: "\<And>e. en_deleted_at r \<noteq> None \<Longrightarrow> e \<in> set (http_endpoints db) \<Longrightarrow> ep_deleted_at e = None \<Longrightarrow> \<not> ep_system e \<Longrightarrow>
      ep_engine_id e \<noteq> Some (en_id en)"
  shows "flow_ok (Engine_save generated r db)"
proof -
  let ?r = "if en_secret r = [] then r\<lparr>en_secret := generated\<rparr> else r"
  let ?db = "Engine_save generated r db"
  have r: "en_id ?r = en_id en" "en_tenant ?r = en_tenant en" "en_external_id ?r = en_external_id en"
      "en_deleted_at ?r = en_deleted_at r" "en_secret ?r \<noteq> []"
    using same generated by auto
  have rows: "engines ?db = map (\<lambda>e. if en_id e = en_id en then ?r else e) (engines db)" "http_endpoints ?db = http_endpoints db"
    using same(1) by (simp_all add: Engine_save_def update_engine_row_def)
  have d: "distinct (map en_id (engines db))" using ok by (simp add: flow_ok_def)
  have only: "x = en" if "x \<in> set (engines db)" "en_id x = en_id en" for x
    using same_key [OF d that(1) en(1) that(2)] .
  have old: "\<exists>y \<in> set (engines db). en_id y = en_id x \<and> en_tenant y = en_tenant x \<and> en_external_id y = en_external_id x \<and>
      (en_deleted_at x = None \<longrightarrow> en_deleted_at y = None \<and> en_secret x \<noteq> []) \<and> (y = en \<longrightarrow> x = ?r) \<and> (y \<noteq> en \<longrightarrow> x = y)"
    if "x \<in> set (engines ?db)" for x
  proof -
    from that obtain y where y: "y \<in> set (engines db)" "x = (if en_id y = en_id en then ?r else y)"
      unfolding rows set_map by blast
    show ?thesis
    proof (cases "y = en")
      case True
      then show ?thesis using y(2) r en by (intro bexI [of _ en]) simp_all
    next
      case False
      then have "x = y" using y only by auto
      then show ?thesis using False y(1) ok by (intro bexI [of _ y]) (simp_all add: flow_ok_def)
    qed
  qed
  have ids: "map en_id (engines ?db) = map en_id (engines db)"
    unfolding rows using same(1) by (auto simp: map_eq_conv)
  have uniq: "x = y" if two: "x \<in> set (engines ?db)" "y \<in> set (engines ?db)" "en_deleted_at x = None" "en_deleted_at y = None"
      "en_tenant x = en_tenant y" "en_external_id x = en_external_id y" for x y
  proof -
    from old [OF two(1)] obtain a where a: "a \<in> set (engines db)" "en_tenant a = en_tenant x" "en_external_id a = en_external_id x"
        "en_deleted_at a = None" "a = en \<longrightarrow> x = ?r" "a \<noteq> en \<longrightarrow> x = a" using two(3) by blast
    from old [OF two(2)] obtain b where b: "b \<in> set (engines db)" "en_tenant b = en_tenant y" "en_external_id b = en_external_id y"
        "en_deleted_at b = None" "b = en \<longrightarrow> y = ?r" "b \<noteq> en \<longrightarrow> y = b" using two(4) by blast
    have "a = b" using flow_okD(5) [OF ok a(1) b(1) a(4) b(4)] a(2,3) b(2,3) two(5,6) by simp
    show ?thesis
    proof (cases "a = en")
      case True
      then have "x = ?r" "y = ?r" using a(5) b(5) \<open>a = b\<close> by blast+
      then show ?thesis by (rule trans [OF _ sym])
    next
      case False
      then have "x = a" "y = a" using a(6) b(6) \<open>a = b\<close> by blast+
      then show ?thesis by (rule trans [OF _ sym])
    qed
  qed
  have endpoints: "\<exists>x. engine_for ?db e x" if e: "e \<in> set (http_endpoints db)" "ep_deleted_at e = None" "\<not> ep_system e" for e
  proof -
    obtain x where x: "engine_for db e x" using ok e by (auto simp: flow_ok_def)
    show ?thesis
    proof (cases "x = en")
      case True
      then have "ep_engine_id e = Some (en_id en)" using x by (simp add: engine_for_def)
      then have "en_deleted_at r = None" using unnamed [OF _ e] by blast
      moreover have "?r \<in> set (engines ?db)" unfolding rows using en(1) by auto
      ultimately show ?thesis using x True r by (intro exI [of _ ?r]) (simp add: engine_for_def)
    next
      case False
      then have "en_id x \<noteq> en_id en" using only x by (auto simp: engine_for_def)
      then have "x \<in> set (engines ?db)" unfolding rows using x by (force simp: engine_for_def)
      then show ?thesis using x by (auto simp: engine_for_def)
    qed
  qed
  show ?thesis unfolding flow_ok_def ids
    using d ok uniq endpoints old by (auto simp: rows(2) flow_ok_def)
qed

lemma endpoints_kept:
  assumes ok: "flow_ok db" and "http_endpoints db' = map f (http_endpoints db)" and "engines db' = engines db"
    and keeps: "\<And>e. e \<in> set (http_endpoints db) \<Longrightarrow> ep_id (f e) = ep_id e \<and> ep_tenant (f e) = ep_tenant e \<and>
      ep_external_id (f e) = ep_external_id e \<and> (ep_deleted_at (f e) = None \<longrightarrow> ep_deleted_at e = None \<and>
        (ep_system (f e) \<or> (\<exists>en. engine_for db (f e) en)))"
  shows "flow_ok db'"
proof -
  have ids: "map ep_id (http_endpoints db') = map ep_id (http_endpoints db)"
    using keeps by (simp add: assms(2))
  have for_same: "engine_for db' = engine_for db" by (simp add: fun_eq_iff engine_for_def assms(3))
  have uniq: "x = y" if two: "x \<in> set (http_endpoints db')" "y \<in> set (http_endpoints db')" "ep_deleted_at x = None" "ep_deleted_at y = None"
      "ep_tenant x = ep_tenant y" "ep_external_id x = ep_external_id y" for x y
  proof -
    obtain a b where "a \<in> set (http_endpoints db)" "b \<in> set (http_endpoints db)" "x = f a" "y = f b"
      using two(1,2) by (auto simp: assms(2))
    moreover from this have "a = b" using ok two(3-6) keeps [of a] keeps [of b] by (simp add: flow_ok_def)
    ultimately show ?thesis by simp
  qed
  have live: "\<exists>en. engine_for db e en" if "e \<in> set (http_endpoints db')" "ep_deleted_at e = None" "\<not> ep_system e" for e
    using that keeps by (auto simp: assms(2))
  show ?thesis unfolding flow_ok_def ids for_same
    using ok uniq live by (auto simp: flow_ok_def assms(3))
qed

lemma delete_endpoints_ok: "flow_ok db \<Longrightarrow> flow_ok (delete_endpoints_of now current engine db)"
  unfolding delete_endpoints_of_def
  by (rule endpoints_kept [of db _ "\<lambda>e. if ep_deleted_at e = None \<and> of_current current (ep_tenant e) \<and> ep_engine_id e = Some (en_id engine)
       then e\<lparr>ep_deleted_at := Some now\<rparr> else e"]) (auto simp: flow_ok_def)

lemma HttpEndpoint_save_ok:
  assumes ok: "flow_ok db" and p: "p \<in> set (http_endpoints db)" "ep_deleted_at p = None"
    and same: "ep_id r = ep_id p" "ep_tenant r = ep_tenant p" "ep_external_id r = ep_external_id p"
    and live: "ep_deleted_at r = None \<Longrightarrow> ep_system r \<or> (\<exists>en. engine_for db r en)"
    and run: "HttpEndpoint_save current r db = Inr db'"
  shows "flow_ok db'"
proof (rule endpoints_kept [OF ok])
  let ?f = "\<lambda>e. if ep_id e = ep_id r then r else e"
  show "http_endpoints db' = map ?f (http_endpoints db)" "engines db' = engines db"
    using run by (auto simp: HttpEndpoint_save_def rbind_Inr_iff update_endpoint_row_def)
  fix e assume e: "e \<in> set (http_endpoints db)"
  have "e = p" if "ep_id e = ep_id r"
    using ok same_key [of ep_id "http_endpoints db" e p] e p(1) that same(1) by (simp add: flow_ok_def)
  then show "ep_id (?f e) = ep_id e \<and> ep_tenant (?f e) = ep_tenant e \<and> ep_external_id (?f e) = ep_external_id e \<and>
      (ep_deleted_at (?f e) = None \<longrightarrow> ep_deleted_at e = None \<and> (ep_system (?f e) \<or> (\<exists>en. engine_for db (?f e) en)))"
    using same live p ok e by (auto simp: flow_ok_def)
qed

section \<open>The views, one after the other\<close>

lemma view_permissions_Inr:
  "view_permissions g db current user perm queryset = Inr () \<longleftrightarrow>
    current \<noteq> None \<and> \<not> us_is_anonymous user \<and> (\<exists>qs. queryset = Inr qs) \<and> ga_has_perm g db user perm"
  by (cases queryset) (auto simp: view_permissions_def)

lemma get_object_or_404_Inr: "get_object_or_404 P xs = Inr x \<longleftrightarrow> filter P xs = [x]"
  by (auto simp: get_object_or_404_def split: list.split)

text \<open>An engine or endpoint that a view got by its id.\<close>

definition engine_perms :: "string \<Rightarrow> string \<Rightarrow> string list" where
  "engine_perms action verb = [flow_permission_string ''engine'' ''engine'' ''GET'', flow_permission_string ''engine'' action verb]"

definition endpoint_perms :: "string \<Rightarrow> string \<Rightarrow> string list" where
  "endpoint_perms action verb =
     [flow_permission_string ''http_endpoint'' ''http_endpoint'' ''GET'', flow_permission_string ''http_endpoint'' action verb]"

definition sees_engine :: "guardian \<Rightarrow> flow_db \<Rightarrow> nat option \<Rightarrow> auth_user \<Rightarrow> string \<Rightarrow> string \<Rightarrow> Engine_row \<Rightarrow> bool" where
  "sees_engine g db current user action verb en \<longleftrightarrow>
     en \<in> set (engines db) \<and> en_deleted_at en = None \<and> of_current current (en_tenant en) \<and>
     may_on True g (flow_auth db) current user (en_id en) (engine_perms action verb)"

lemma Engine_qs_sees:
  "Engine_qs g db current user action verb = Inr qs \<Longrightarrow>
    en \<in> set qs \<longleftrightarrow> sees_engine g db current user action verb en"
  unfolding Engine_qs_def by (subst (asm) visible_iff) (auto simp: sees_engine_def current_objects engine_perms_def)

lemma HttpEndpoint_qs_sees:
  "HttpEndpoint_qs g db current user action verb = Inr qs \<Longrightarrow> e \<in> set qs \<longleftrightarrow>
    e \<in> set (http_endpoints db) \<and> ep_deleted_at e = None \<and> of_current current (ep_tenant e) \<and> \<not> ep_system e \<and>
    may_on True g (flow_auth db) current user (ep_id e) (endpoint_perms action verb)"
  unfolding HttpEndpoint_qs_def by (subst (asm) visible_iff) (auto simp: current_objects endpoint_perms_def)

lemma engine_queryset_sees:
  assumes "engine_get_queryset g db current user action verb pk = Inr qs"
  shows "en \<in> set qs \<longleftrightarrow> sees_engine g db current user action verb en"
proof -
  have "\<exists>ret. Engine_qs g db current user action verb = Inr ret \<and> qs = sort_key en_id ret"
    using assms by (cases "Engine_qs g db current user action verb"; cases pk; cases "parse_uuid (the pk)")
      (auto simp: engine_get_queryset_def Let_def split: if_splits)
  then show ?thesis using Engine_qs_sees by fastforce
qed

lemma endpoint_queryset_sees:
  assumes "http_endpoint_get_queryset g db current user action verb pk = Inr qs"
  shows "e \<in> set qs \<longleftrightarrow> e \<in> set (http_endpoints db) \<and> ep_deleted_at e = None \<and> of_current current (ep_tenant e) \<and>
    \<not> ep_system e \<and> may_on True g (flow_auth db) current user (ep_id e) (endpoint_perms action verb)"
proof -
  have "\<exists>ret. HttpEndpoint_qs g db current user action verb = Inr ret \<and> qs = sort_key ep_id ret"
    using assms by (cases "HttpEndpoint_qs g db current user action verb"; cases pk; cases "parse_uuid (the pk)")
      (auto simp: http_endpoint_get_queryset_def Let_def split: if_splits)
  then show ?thesis using HttpEndpoint_qs_sees by fastforce
qed

lemma filter_single: "filter P xs = [x] \<Longrightarrow> x \<in> set xs \<and> P x"
  by (metis list.set_intros(1) mem_Collect_eq set_filter)

lemma engine_get_object_sees:
  assumes "engine_get_object g db current user action verb pk only = Inr en"
  shows "sees_engine g db current user action verb en \<and> parse_uuid pk = Some (en_id en)"
proof -
  obtain qs where qs: "engine_get_queryset g db current user action verb (Some pk) = Inr qs"
      "filter (\<lambda>e. Some (en_id e) = parse_uuid pk) (filter (\<lambda>e. only = None \<or> only = Some (en_external_id e)) qs) = [en]"
    using assms by (auto simp: engine_get_object_def rbind_Inr_iff get_object_or_404_Inr)
  from filter_single [OF qs(2)] show ?thesis using engine_queryset_sees [OF qs(1)] by simp
qed

lemma endpoint_get_object_sees:
  assumes "http_endpoint_get_object g db current user action verb pk only of_engine = Inr e"
  shows "e \<in> set (http_endpoints db) \<and> ep_deleted_at e = None \<and> of_current current (ep_tenant e) \<and> \<not> ep_system e"
proof -
  obtain qs where qs: "http_endpoint_get_queryset g db current user action verb (Some pk) = Inr qs"
    using assms by (auto simp: http_endpoint_get_object_def rbind_Inr_iff)
  have "\<exists>qs1. set qs1 \<subseteq> set qs \<and> get_object_or_404 (\<lambda>e. Some (ep_id e) = parse_uuid pk) qs1 = Inr e"
  proof (cases of_engine)
    case None
    then show ?thesis using assms qs
      by (intro exI [of _ "filter (\<lambda>e. only = None \<or> only = Some (ep_external_id e)) qs"])
        (auto simp: http_endpoint_get_object_def Let_def)
  next
    case (Some s)
    then obtain i where "parse_uuid s = Some i" using assms qs
      by (cases "parse_uuid s") (auto simp: http_endpoint_get_object_def Let_def)
    then show ?thesis using assms qs Some
      by (intro exI [of _ "filter (\<lambda>e. ep_engine_id e = Some i) (filter (\<lambda>e. only = None \<or> only = Some (ep_external_id e)) qs)"])
        (auto simp: http_endpoint_get_object_def Let_def)
  qed
  then obtain qs1 where qs1: "set qs1 \<subseteq> set qs" "filter (\<lambda>e. Some (ep_id e) = parse_uuid pk) qs1 = [e]"
    by (auto simp: get_object_or_404_Inr)
  from filter_single [OF qs1(2)] show ?thesis using endpoint_queryset_sees [OF qs] qs1(1) by auto
qed

section \<open>Every view keeps the tables in order\<close>

inductive flow_step :: "flow_validators \<Rightarrow> guardian \<Rightarrow> flow_db \<Rightarrow> flow_db \<Rightarrow> bool" for v :: flow_validators and g :: guardian where
  engine_created: "create_engine v g current user new_id generated external_id upstream db = Inr db' \<Longrightarrow>
    new_id \<notin> en_id ` set (engines db) \<Longrightarrow> generated \<noteq> [] \<Longrightarrow> flow_step v g db db'"
| engine_updated: "update_engine v g current user partial_update generated pk only external_id upstream db = Inr db' \<Longrightarrow>
    generated \<noteq> [] \<Longrightarrow> flow_step v g db db'"
| engine_deleted: "delete_engine g current user now generated pk only cascade_delete db = Inr db' \<Longrightarrow>
    generated \<noteq> [] \<Longrightarrow> flow_step v g db db'"
| secret_deleted: "EngineSecretView_delete g current user generated pk db = Inr db' \<Longrightarrow> generated \<noteq> [] \<Longrightarrow> flow_step v g db db'"
| secret_put: "EngineSecretView_put v g current user generated pk secret db = Inr db' \<Longrightarrow> generated \<noteq> [] \<Longrightarrow> flow_step v g db db'"
| endpoint_created: "create_http_endpoint v g current user new_id engine external_id path verb public db = Inr db' \<Longrightarrow>
    new_id \<notin> ep_id ` set (http_endpoints db) \<Longrightarrow> flow_step v g db db'"
| endpoint_updated: "update_http_endpoint v g current user partial_update pk only of_engine engine external_id path verb public db =
    Inr db' \<Longrightarrow> flow_step v g db db'"
| endpoint_deleted: "delete_http_endpoint g current user now pk only of_engine db = Inr db' \<Longrightarrow> flow_step v g db db'"
| permissions_changed: "flow_step v g db (db\<lparr>flow_auth := auth\<rparr>)"

lemma permitted_view:
  "engine_permissions g db current user action verb pk = Inr () \<Longrightarrow> \<exists>t. current = Some t"
  "http_endpoint_permissions g db current user action verb pk = Inr () \<Longrightarrow> \<exists>t. current = Some t"
  by (auto simp: engine_permissions_def http_endpoint_permissions_def view_permissions_Inr)

lemma validated_external_id:
  "engine_validate_external_id db current None s = Inr s' \<Longrightarrow>
    s' = s \<and> (\<forall>e \<in> set (Engine_objects current db). en_external_id e \<noteq> s)"
  "endpoint_validate_external_id db current None s = Inr s' \<Longrightarrow>
    s' = s \<and> (\<forall>e \<in> set (HttpEndpoint_objects current db). ep_external_id e \<noteq> s)"
  by (auto simp: engine_validate_external_id_def endpoint_validate_external_id_def rbind_Inr_iff list_ex_iff split: if_splits)

lemma unchanged_external_id:
  assumes "flow_ok db" and "en \<in> set (engines db)" and "engine_validate_external_id db current (Some (en_id en)) s = Inr s'"
  shows "s' = en_external_id en"
proof -
  obtain x where x: "filter (\<lambda>e. en_id e = en_id en) (Engine_objects current db) = [x]" "s = en_external_id x" "s' = s"
    using assms(3) by (auto simp: engine_validate_external_id_def rbind_Inr_iff get_object_or_404_Inr split: if_splits)
  have "x \<in> set (engines db)" "en_id x = en_id en" using filter_single [OF x(1)] by (auto simp: current_objects)
  then have "x = en" using same_key [OF flow_okD(1) [OF assms(1)]] assms(2) by blast
  then show ?thesis using x by simp
qed

lemma unchanged_endpoint_external_id:
  assumes "flow_ok db" and "e \<in> set (http_endpoints db)" and "endpoint_validate_external_id db current (Some (ep_id e)) s = Inr s'"
  shows "s' = ep_external_id e"
proof -
  obtain x where x: "filter (\<lambda>p. ep_id p = ep_id e) (HttpEndpoint_objects current db) = [x]" "s = ep_external_id x" "s' = s"
    using assms(3) by (auto simp: endpoint_validate_external_id_def rbind_Inr_iff get_object_or_404_Inr split: if_splits)
  have "x \<in> set (http_endpoints db)" "ep_id x = ep_id e" using filter_single [OF x(1)] by (auto simp: current_objects)
  then have "x = e" using same_key [OF flow_okD(2) [OF assms(1)]] assms(2) by blast
  then show ?thesis using x by simp
qed

lemma assign_all_ok: "assign_all g perms user obj db = Inr db' \<Longrightarrow> flow_ok db \<Longrightarrow> flow_ok db'"
  by (auto simp: assign_all_def split: prod.splits sum.splits)

lemma or_keep_Inr:
  "or_keep p old given validator = Inr x \<longleftrightarrow>
    (case given of None \<Rightarrow> p \<and> x = old | Some y \<Rightarrow> validator y = Inr x)"
  by (auto simp: or_keep_def split: option.splits)

lemma create_engine_ok:
  assumes "flow_ok db" and "create_engine v g current user new_id generated external_id upstream db = Inr db'"
    and new: "new_id \<notin> en_id ` set (engines db)" and "generated \<noteq> []"
  shows "flow_ok db'"
proof -
  obtain t s s' u where t: "current = Some t" and s: "engine_validate_external_id db current None s = Inr s'"
    and db': "(let db1 = db\<lparr>engines := engines db @ [\<lparr>en_id = new_id, en_tenant = t, en_external_id = s', en_upstream = u,
          en_secret = generated, en_deleted_at = None\<rparr>]\<rparr> in if us_is_anonymous user then Inr db1
        else assign_all g (map (with_prefix ''flow'') (all_perms_without_prefix engine_area)) user new_id db1) = Inr db'"
    using assms(2) by (auto simp: create_engine_def rbind_Inr_iff Let_def split: option.splits)
  let ?e = "\<lparr>en_id = new_id, en_tenant = t, en_external_id = s', en_upstream = u, en_secret = generated, en_deleted_at = None\<rparr>"
  let ?db = "db\<lparr>engines := engines db @ [?e]\<rparr>"
  have fresh: "en_external_id x \<noteq> s'" if "x \<in> set (engines db)" "en_deleted_at x = None" "en_tenant x = t" for x
    using validated_external_id(1) [OF s] that by (auto simp: current_objects t of_current_def)
  have "\<exists>en. engine_for ?db e en" if "engine_for db e x" for e x
    using that by (auto simp: engine_for_def)
  then have "flow_ok ?db"
    using assms(1,4) new fresh unfolding flow_ok_def by (auto, (metis+)?)
  then show ?thesis using db' by (auto simp: Let_def dest: assign_all_ok split: if_splits)
qed

text \<open>What a view changes an engine to: the same keys, and alive.\<close>

lemma engine_changed_ok:
  assumes "flow_ok db" and "engine_get_object g db current user action verb pk only = Inr en" and "generated \<noteq> []"
    and "en_id r = en_id en" "en_tenant r = en_tenant en" "en_external_id r = en_external_id en" "en_deleted_at r = None"
  shows "flow_ok (Engine_save generated r db)"
proof -
  have "en \<in> set (engines db)" "en_deleted_at en = None"
    using engine_get_object_sees [OF assms(2)] by (auto simp: sees_engine_def)
  then show ?thesis using Engine_save_ok [OF assms(1) _ _ assms(4-6,3)] assms(7) by simp
qed

lemma update_engine_ok:
  assumes "flow_ok db" and "update_engine v g current user partial_update generated pk only external_id upstream db = Inr db'"
    and "generated \<noteq> []"
  shows "flow_ok db'"
proof -
  obtain en s u verb where en: "engine_get_object g db current user ''engine'' verb pk only = Inr en"
    and s: "or_keep partial_update (en_external_id en) external_id
         (\<lambda>s. rbind (char_field s) (engine_validate_external_id db current (Some (en_id en)))) = Inr s"
    and db': "db' = Engine_save generated (en\<lparr>en_external_id := s, en_upstream := u\<rparr>) db"
    using assms(2) by (auto simp: update_engine_def rbind_Inr_iff Let_def)
  have live: "en \<in> set (engines db)" "en_deleted_at en = None" using engine_get_object_sees [OF en] by (auto simp: sees_engine_def)
  have "s = en_external_id en"
    using s unchanged_external_id [OF assms(1) live(1)] by (auto simp: or_keep_Inr rbind_Inr_iff split: option.splits)
  then show ?thesis unfolding db' using live by (intro engine_changed_ok [OF assms(1) en assms(3)]) simp_all
qed

lemma secrets_ok:
  assumes "flow_ok db" and "generated \<noteq> []"
  shows "EngineSecretView_delete g current user generated pk db = Inr db' \<Longrightarrow> flow_ok db'"
    and "EngineSecretView_put v g current user generated pk secret db = Inr db' \<Longrightarrow> flow_ok db'"
  using assms
  by (auto simp: EngineSecretView_delete_def EngineSecretView_put_def rbind_Inr_iff sees_engine_def
      dest: engine_get_object_sees intro!: engine_changed_ok)

lemma live_endpoint_engine:
  assumes "flow_ok db" and "en \<in> set (engines db)" and "e \<in> set (http_endpoints db)" "ep_deleted_at e = None" "\<not> ep_system e"
    and "ep_engine_id e = Some (en_id en)"
  shows "ep_tenant e = en_tenant en"
proof -
  obtain x where x: "engine_for db e x" using flow_okD(3) [OF assms(1,3,4,5)] by blast
  then have "x = en" using same_key [OF flow_okD(1) [OF assms(1)] _ assms(2)] assms(6) by (simp add: engine_for_def)
  then show ?thesis using x by (simp add: engine_for_def)
qed

lemma delete_engine_ok:
  assumes "flow_ok db" and "delete_engine g current user now generated pk only cascade_delete db = Inr db'" and "generated \<noteq> []"
  shows "flow_ok db'"
proof -
  obtain en db1 where en: "engine_get_object g db current user ''engine'' ''DELETE'' pk only = Inr en"
    and db1: "(if cascade_delete = Some [] \<or> cascade_delete = Some ''true'' then Inr (delete_endpoints_of now current en db)
            else if 0 < length (endpoints_of db current en)
            then Inl (ValidationError (PStr ''can not delete Engines that are referenced in endpoints''))
            else Inr db) = Inr db1"
    and db': "(if en_deleted_at en = None then Inr (Engine_save generated (en\<lparr>en_deleted_at := Some now\<rparr>) db1) else Inr db1) =
      (Inr db' :: flow_db result)"
    using assms(2) unfolding delete_engine_def rbind_Inr_iff by (elim exE conjE) (rule that)
  have live: "en \<in> set (engines db)" "en_deleted_at en = None" "of_current current (en_tenant en)"
    using engine_get_object_sees [OF en] by (auto simp: sees_engine_def)
  have unnamed: "flow_ok db1 \<and> engines db1 = engines db \<and> (\<forall>e \<in> set (http_endpoints db1). ep_deleted_at e = None \<longrightarrow> \<not> ep_system e \<longrightarrow>
      ep_engine_id e \<noteq> Some (en_id en))"
  proof (cases "cascade_delete = Some [] \<or> cascade_delete = Some ''true''")
    case True
    then have "db1 = delete_endpoints_of now current en db" using db1 by auto
    then show ?thesis
      using delete_endpoints_ok [OF assms(1)] live_endpoint_engine [OF assms(1) live(1)] live(3)
      by (auto simp: delete_endpoints_of_def split: if_splits)
  next
    case False
    then have "db1 = db" "endpoints_of db current en = []" using db1 by (auto split: if_splits)
    then show ?thesis
      using assms(1) live_endpoint_engine [OF assms(1) live(1)] live(3)
      by (auto simp: endpoints_of_def filter_empty_conv current_objects)
  qed
  have "flow_ok (Engine_save generated (en\<lparr>en_deleted_at := Some now\<rparr>) db1)"
    by (rule Engine_save_ok [where en = en]) (use unnamed live assms(3) in auto)
  then show ?thesis using db' live by simp
qed

lemma engine_field_live:
  assumes "engine_field g db current user i = Inr i'"
  shows "\<exists>en \<in> set (engines db). i' = en_id en \<and> en_deleted_at en = None \<and> of_current current (en_tenant en)"
  using assms Engine_qs_sees by (fastforce simp: engine_field_def rbind_Inr_iff sees_engine_def split: if_splits)

lemma create_http_endpoint_ok:
  assumes "flow_ok db" and new: "new_id \<notin> ep_id ` set (http_endpoints db)"
    and "create_http_endpoint v g current user new_id engine external_id path verb public db = Inr db'"
  shows "flow_ok db'"
proof -
  obtain t i s s' p m where t: "current = Some t" and i: "engine_field g db current user engine = Inr i"
    and s: "endpoint_validate_external_id db current None s = Inr s'"
    and db': "(let db1 = db\<lparr>http_endpoints := http_endpoints db @ [\<lparr>ep_id = new_id, ep_external_id = s', ep_tenant = t, ep_path = p,
          ep_method = m, ep_public = public, ep_engine_id = Some i, ep_system = False, ep_deleted_at = None\<rparr>]\<rparr> in
        if us_is_anonymous user then Inr db1
        else assign_all g (map (with_prefix ''flow'') (all_perms_without_prefix http_endpoint_area)) user new_id db1) = Inr db'"
    using assms(3) by (auto simp: create_http_endpoint_def rbind_Inr_iff Let_def split: option.splits)
  let ?e = "\<lparr>ep_id = new_id, ep_external_id = s', ep_tenant = t, ep_path = p, ep_method = m, ep_public = public, ep_engine_id = Some i,
    ep_system = False, ep_deleted_at = None\<rparr>"
  have fresh: "ep_external_id x \<noteq> s'" if "x \<in> set (http_endpoints db)" "ep_deleted_at x = None" "ep_tenant x = t" for x
    using validated_external_id(2) [OF s] that by (auto simp: current_objects t of_current_def)
  have "\<exists>en. engine_for db ?e en"
    using engine_field_live [OF i] by (auto simp: engine_for_def t of_current_def)
  then have "flow_ok (db\<lparr>http_endpoints := http_endpoints db @ [?e]\<rparr>)"
    using assms(1) new fresh unfolding flow_ok_def by auto
  then show ?thesis using db' by (auto simp: Let_def dest: assign_all_ok split: if_splits)
qed

lemma update_http_endpoint_ok:
  assumes "flow_ok db"
    and "update_http_endpoint v g current user partial_update pk only of_engine engine external_id path verb public db = Inr db'"
  shows "flow_ok db'"
proof -
  obtain x e i s p m b where permitted: "http_endpoint_permissions g db current user ''http_endpoint''
       (if partial_update then ''PATCH'' else ''PUT'') (Some pk) = Inr x"
    and e: "http_endpoint_get_object g db current user ''http_endpoint'' (if partial_update then ''PATCH'' else ''PUT'') pk only of_engine =
      Inr e"
    and i: "or_keep partial_update (ep_engine_id e) engine (\<lambda>i. rbind (engine_field g db current user i) (\<lambda>i1. Inr (Some i1))) = Inr i"
    and s: "or_keep partial_update (ep_external_id e) external_id
         (\<lambda>s. rbind (char_field s) (endpoint_validate_external_id db current (Some (ep_id e)))) = Inr s"
    and run: "HttpEndpoint_save current (e\<lparr>ep_engine_id := i, ep_external_id := s, ep_path := p, ep_method := m, ep_public := b,
         ep_system := False\<rparr>) db = Inr db'"
    using assms(2) unfolding update_http_endpoint_def rbind_Inr_iff Let_def by (elim exE conjE) (rule that)
  obtain t where t: "current = Some t" using permitted by (auto dest: permitted_view(2))
  have live: "e \<in> set (http_endpoints db)" "ep_deleted_at e = None" "ep_tenant e = t" "\<not> ep_system e"
    using endpoint_get_object_sees [OF e] by (auto simp: t of_current_def)
  have same: "s = ep_external_id e"
    using s unchanged_endpoint_external_id [OF assms(1) live(1)] by (auto simp: or_keep_Inr rbind_Inr_iff split: option.splits)
  let ?r = "e\<lparr>ep_engine_id := i, ep_external_id := s, ep_path := p, ep_method := m, ep_public := b, ep_system := False\<rparr>"
  have "\<exists>en. engine_for db ?r en"
  proof (cases engine)
    case None
    then have "engine_for db ?r = engine_for db e" using i by (intro engine_for_cong) (simp_all add: or_keep_Inr)
    then show ?thesis using flow_okD(3) [OF assms(1) live(1,2,4)] by simp
  next
    case (Some x)
    then obtain i1 where "engine_field g db current user x = Inr i1" "i = Some i1"
      using i by (auto simp: or_keep_Inr rbind_Inr_iff)
    then show ?thesis using engine_field_live live(3) by (fastforce simp: engine_for_def t of_current_def)
  qed
  then show ?thesis using live same by (intro HttpEndpoint_save_ok [OF assms(1) live(1,2) _ _ _ _ run]) simp_all
qed

lemma delete_http_endpoint_ok:
  assumes "flow_ok db" and "delete_http_endpoint g current user now pk only of_engine db = Inr db'"
  shows "flow_ok db'"
proof -
  obtain e where e: "http_endpoint_get_object g db current user ''http_endpoint'' ''DELETE'' pk only of_engine = Inr e"
    and run: "HttpEndpoint_save current (e\<lparr>ep_deleted_at := Some now\<rparr>) db = Inr db'"
    using assms(2) endpoint_get_object_sees by (fastforce simp: delete_http_endpoint_def rbind_Inr_iff)
  show ?thesis using endpoint_get_object_sees [OF e] by (intro HttpEndpoint_save_ok [OF assms(1) _ _ _ _ _ _ run]) simp_all
qed

lemma flow_step_ok: "flow_step v g db db' \<Longrightarrow> flow_ok db \<Longrightarrow> flow_ok db'"
proof (induction rule: flow_step.induct)
  case engine_created then show ?case by (metis create_engine_ok)
next
  case engine_updated then show ?case by (metis update_engine_ok)
next
  case engine_deleted then show ?case by (metis delete_engine_ok)
next
  case secret_deleted then show ?case by (metis secrets_ok(1))
next
  case secret_put then show ?case by (metis secrets_ok(2))
next
  case endpoint_created then show ?case by (metis create_http_endpoint_ok)
next
  case endpoint_updated then show ?case by (metis update_http_endpoint_ok)
next
  case endpoint_deleted then show ?case by (metis delete_http_endpoint_ok)
qed simp

section \<open>Who gets the secret of an engine\<close>

definition reaches_engine :: "guardian \<Rightarrow> flow_db \<Rightarrow> nat option \<Rightarrow> auth_user \<Rightarrow> string \<Rightarrow> string \<Rightarrow> string \<Rightarrow> Engine_row \<Rightarrow> bool" where
  "reaches_engine g db current user action verb pk en \<longleftrightarrow>
     current = Some (en_tenant en) \<and> \<not> us_is_anonymous user \<and> parse_uuid pk = Some (en_id en) \<and>
     list_all (ga_has_perm g (flow_auth db) user) (engine_perms action verb) \<and>
     sees_engine g db current user action verb en"

lemma filter_unique_key: "distinct (map f xs) \<Longrightarrow> x \<in> set xs \<Longrightarrow> filter (\<lambda>y. Some (f y) = Some (f x)) xs = [x]"
  by (induction xs) (auto simp: filter_empty_conv, metis image_eqI)

lemma base_perm_check_Inr:
  "engine_base_perm_check g auth user action verb = Inr () \<longleftrightarrow> list_all (ga_has_perm g auth user) (engine_perms action verb)"
  by (auto simp: engine_base_perm_check_def engine_perms_def)

lemma engine_reached:
  assumes "engine_permissions g db current user action verb pk' = Inr ()"
    and "engine_base_perm_check g (flow_auth db) user action verb = Inr ()"
    and "engine_get_object g db current user action verb pk only = Inr en"
  shows "reaches_engine g db current user action verb pk en"
  using assms engine_get_object_sees [OF assms(3)]
  by (auto simp: reaches_engine_def engine_permissions_def view_permissions_Inr base_perm_check_Inr sees_engine_def of_current_def)

lemma reached_engine:
  assumes "distinct (map en_id (engines db))" and "reaches_engine g db current user action verb pk en"
    and "privileged True user \<or> (\<exists>m. is_tenant_manager (flow_auth db) user current = Inr m)"
  shows "engine_permissions g db current user action verb (Some pk) = Inr () \<and>
    engine_permissions g db current user action verb None = Inr () \<and>
    engine_base_perm_check g (flow_auth db) user action verb = Inr () \<and>
    engine_get_object g db current user action verb pk None = Inr en"
proof -
  define qs where "qs = filter (\<lambda>e. may_on True g (flow_auth db) current user (en_id e) (engine_perms action verb)) (Engine_objects current db)"
  have qs: "Engine_qs g db current user action verb = Inr qs"
    using assms(3) unfolding Engine_qs_def engine_perms_def qs_def by (subst visible_iff) auto
  have en: "en \<in> set qs" "parse_uuid pk = Some (en_id en)"
    using assms(2) Engine_qs_sees [OF qs, of en] unfolding reaches_engine_def by blast+
  then have "sort_key en_id qs \<noteq> []" by (metis empty_iff empty_set set_sort)
  then have ret: "engine_get_queryset g db current user action verb (Some pk) = Inr (sort_key en_id qs)"
    using qs en(2) by (simp add: engine_get_queryset_def)
  have "distinct (map en_id (sort_key en_id qs))"
    using assms(1) unfolding qs_def Engine_objects_def by (simp add: distinct_map inj_on_def)
  then have "filter (\<lambda>e. Some (en_id e) = Some (en_id en)) (sort_key en_id qs) = [en]"
    by (rule filter_unique_key) (simp add: en(1))
  then have "filter (\<lambda>e. Some (en_id e) = parse_uuid pk) (sort_key en_id qs) = [en]" by (simp only: en(2))
  then have "engine_get_object g db current user action verb pk None = Inr en"
    by (simp add: engine_get_object_def ret get_object_or_404_Inr)
  moreover have "engine_get_queryset g db current user action verb None = Inr (sort_key en_id qs)"
    using qs by (simp add: engine_get_queryset_def)
  ultimately show ?thesis using assms(2) ret
    by (simp add: engine_permissions_def view_permissions_Inr base_perm_check_Inr reaches_engine_def engine_perms_def)
qed

text \<open>
  The answer to nginx for the access to an engine: its upstream and secret, with the name of its tenant
  and the host of its upstream, without which there is an exception.
\<close>

definition access_answer :: "flow_settings \<Rightarrow> flow_db \<Rightarrow> flow_request \<Rightarrow> Engine_row \<Rightarrow> flow_response result" where
  "access_answer settings db request en =
     rbind (hostname_str (en_upstream en)) (\<lambda>hostname.
     rbind (case find (\<lambda>t. tn_id t = en_tenant en) (tenants db) of None \<Rightarrow> Inl DoesNotExist | Some t \<Rightarrow> Inr (tn_name t)) (\<lambda>tenant.
     ok_response
       [(''enginetenant'', tenant), (''engineupstream'', en_upstream en), (''enginesecret'', en_secret en),
        (''enginehostname'', hostname), (''enginecookies'', sanitize_cookies settings (rq_cookies request)),
        (''enginebasepath'', ''/api/flow/engine/'' @ uuid_str (en_id en) @ ''/access/'')]))"

definition refused :: "flow_response result \<Rightarrow> bool" where
  "refused r \<longleftrightarrow> (case r of Inl _ \<Rightarrow> True | Inr response \<Rightarrow> response = forbidden)"

lemma engine_access_reached:
  assumes "engine_base_perm_check g (flow_auth db) (rq_user request) ''access'' ''GET'' = Inr ()"
    and "engine_get_object g db current (rq_user request) ''access'' ''GET'' pk None = Inr en"
  shows "engine_access settings g db current request pk = access_answer settings db request en"
  using assms by (simp add: engine_access_def access_answer_def) (rule arg_cong [where f = "rbind _"], rule ext, simp split: option.split)

lemma engine_access_refused:
  assumes "\<And>en. engine_base_perm_check g (flow_auth db) (rq_user request) ''access'' ''GET'' = Inr () \<Longrightarrow>
    engine_get_object g db current (rq_user request) ''access'' ''GET'' pk None \<noteq> Inr en"
  shows "refused (engine_access settings g db current request pk)"
proof (cases "engine_base_perm_check g (flow_auth db) (rq_user request) ''access'' ''GET''")
  case (Inr u)
  with assms obtain e where "engine_get_object g db current (rq_user request) ''access'' ''GET'' pk None = Inl e"
    by (cases "engine_get_object g db current (rq_user request) ''access'' ''GET'' pk None") auto
  with Inr show ?thesis by (cases e) (simp_all add: engine_access_def refused_def)
qed (simp add: engine_access_def refused_def)

section \<open>Properties\<close>

lemma engine_secret_exact:
  assumes "flow_ok db" and "privileged True u \<or> (\<exists>m. is_tenant_manager (flow_auth db) u current = Inr m)"
  shows "EngineSecretView_get g current u pk db = Inr secret \<longleftrightarrow>
    (\<exists>en. reaches_engine g db current u ''secret'' ''GET'' pk en \<and> secret = en_secret en)"
proof
  assume "EngineSecretView_get g current u pk db = Inr secret"
  then show "\<exists>en. reaches_engine g db current u ''secret'' ''GET'' pk en \<and> secret = en_secret en"
    by (auto simp: EngineSecretView_get_def rbind_Inr_iff dest: engine_reached)
next
  assume "\<exists>en. reaches_engine g db current u ''secret'' ''GET'' pk en \<and> secret = en_secret en"
  then show "EngineSecretView_get g current u pk db = Inr secret"
    using reached_engine [OF flow_okD(1) [OF assms(1)] _ assms(2)] by (auto simp: EngineSecretView_get_def)
qed

text \<open>C17: A request to a flow goes to the first endpoint, user defined ones before those of the system and then in
  the order of the external ids, among the endpoints of the user's tenant that are alive, not public, serve the verb,
  have a live engine, match the path and that the user may use. nginx gets the upstream and the secret of
  that very engine, and the answer is 403 exactly if there is no such endpoint. If an endpoint that comes
  before it has a pattern that cannot be matched, the request ends with the exception of the first such pattern.\<close>

theorem flow_request_routed:
  assumes "secure settings db" and "rq_original_uri request = Some uri" and "rq_original_method request = Some verb"
    and "verb \<noteq> ''OPTIONS''" and "is_tenant_manager (flow_auth db) (rq_user request) (Some (tn_id t)) = Inr m"
  shows "\<exists>choice.
    chosen_endpoint (endpoint_order coll) (\<lambda>e. admitted g db (tn_id t) (rq_user request) verb e \<and> stops settings uri e) choice \<and>
    (case choice of
       None \<Rightarrow> flow_impl_view settings coll g db (Some t) request = Inr forbidden
     | Some e \<Rightarrow>
         (case match_outcome settings uri e of
            Inl error \<Rightarrow> flow_impl_view settings coll g db (Some t) request = Inl error
          | Inr _ \<Rightarrow> routed settings db e
              (\<lambda>upstream hostname. [(''flowuser'', rq_username request), (''flowtenant'', tn_name t),
                 (''flowcookies'', sanitize_cookies settings (rq_cookies request)), (''flowupstream'', upstream),
                 (''flowhostname'', hostname), (''flowpath'', sub_replace_pattern flow_base_path uri), (''flowbasepath'', ''/api/flow/impl/'')])
              (flow_impl_view settings coll g db (Some t) request)))"
proof -
  have d: "distinct (map en_id (engines db))" and ok: "flow_ok db" "SKIPPER_DEFAULT_SYSTEM_SECRET settings \<noteq> []"
    using assms(1) by (simp_all add: secure_def flow_ok_def)
  obtain choice where choice: "can_use_endpoint_impl settings coll g db (Some (tn_id t)) (rq_user request) uri verb = loop_result settings uri choice"
      "chosen_endpoint (endpoint_order coll) (\<lambda>e. admitted g db (tn_id t) (rq_user request) verb e \<and> stops settings uri e) choice"
    using can_use_endpoint_impl_run [OF d assms(5)] by blast
  show ?thesis
  proof (cases choice)
    case None
    then show ?thesis using choice assms(2-4) by (auto simp: flow_impl_view_def loop_result_def)
  next
    case (Some e)
    then have "serves_requests db (tn_id t) verb False e" using choice(2) by (simp add: chosen_endpoint_def admitted_def)
    then obtain upstream secret where "sends_to settings db e upstream secret"
        "get_upstream settings db (Some (tn_id t)) e True True = Inr upstream"
        "get_secret settings db (Some (tn_id t)) e True True = Inr secret"
      using sends_to_prop [OF ok, of "Some (tn_id t)" "tn_id t" verb False e True True] by (auto simp: of_current_def)
    then have "routed settings db e
         (\<lambda>upstream hostname. [(''flowuser'', rq_username request), (''flowtenant'', tn_name t),
            (''flowcookies'', sanitize_cookies settings (rq_cookies request)), (''flowupstream'', upstream),
            (''flowhostname'', hostname), (''flowpath'', sub_replace_pattern flow_base_path uri), (''flowbasepath'', ''/api/flow/impl/'')])
         (flow_impl_view settings coll g db (Some t) request)" if "\<not> isl (match_outcome settings uri e)"
      using choice(1) Some assms(2-4) that unfolding routed_def
      by (intro exI [of _ upstream] exI [of _ secret])
        (cases "match_outcome settings uri e"; simp add: flow_impl_view_def loop_result_def)
    moreover have "flow_impl_view settings coll g db (Some t) request = Inl error" if "match_outcome settings uri e = Inl error" for error
      using choice(1) Some assms(2-4) that by (simp add: flow_impl_view_def loop_result_def)
    ultimately show ?thesis using choice(2) Some by (intro exI [of _ choice]) (simp split: sum.split)
  qed
qed

definition demo_engine :: Engine_row where
  "demo_engine = \<lparr>en_id = 10, en_tenant = 3, en_external_id = ''e'', en_upstream = ''http://flows:1880'', en_secret = ''secret'',
     en_deleted_at = None\<rparr>"

definition demo_endpoint :: "bool \<Rightarrow> HttpEndpoint_row" where
  "demo_endpoint public = \<lparr>ep_id = (if public then 21 else 20), ep_external_id = (if public then ''q'' else ''p''), ep_tenant = 3,
     ep_path = ''/api/flow/impl/a'', ep_method = ''GET'', ep_public = public, ep_engine_id = Some 10, ep_system = False,
     ep_deleted_at = None\<rparr>"

definition demo_flow :: flow_db where
  "demo_flow = \<lparr>tenants = [\<lparr>tn_id = 3, tn_name = ''t'', tn_deleted_at = None\<rparr>], engines = [demo_engine],
     http_endpoints = [demo_endpoint True, demo_endpoint False],
     flow_auth = \<lparr>user_object_permissions = [(1, 20, ''use'')], group_object_permissions = [],
       user_permissions = [(1, ''flow.use'')], group_permissions = [], user_groups = [],
       tenant_users = [\<lparr>tu_tenant = 3, tu_user = 1, tu_system = False, tu_tenant_manager = False, tu_deleted_at = None\<rparr>]\<rparr>\<rparr>"

text \<open>
  \<open>re.match\<close> of a path of letters, digits, slashes, dashes and underscores between \<open>^\<close> and \<open>$\<close> (which
  also matches before a line break at the end); the samples use no other patterns, which it refuses here.
\<close>

definition literal_match :: "string \<Rightarrow> string \<Rightarrow> bool result" where
  "literal_match pat s =
     (let path = butlast (tl pat) in
      if pat = ''^'' @ path @ ''$'' \<and> list_all (\<lambda>c. is_alpha c \<or> is_digit c \<or> c \<in> set ''/-_'') path
      then Inr (s = path \<or> s = path @ ''\<newline>'')
      else Inl (ValueError ''unsupported pattern''))"

definition demo_settings :: flow_settings where
  "demo_settings = \<lparr>SKIPPER_CONTAINER_UPSTREAM = None, SKIPPER_DEFAULT_NODE_RED_UPSTREAM = ''http://nodered:1880'',
     SKIPPER_DEFAULT_SYSTEM_SECRET = ''system'', SESSION_COOKIE_NAME = ''skipper-session'',
     re_match = literal_match\<rparr>"

definition demo_request :: "string \<Rightarrow> flow_request" where
  "demo_request uri = \<lparr>rq_user = demo_user 1, rq_username = ''u'', rq_original_uri = Some uri, rq_original_method = Some ''GET'',
     rq_cookies = []\<rparr>"

definition demo_tenant :: Tenant_row where
  "demo_tenant = \<lparr>tn_id = 3, tn_name = ''t'', tn_deleted_at = None\<rparr>"

lemma demo_fields:
  "ep_deleted_at (demo_endpoint public) = None" "ep_tenant (demo_endpoint public) = 3" "ep_method (demo_endpoint public) = ''GET''"
  "ep_public (demo_endpoint public) = public" "\<not> ep_system (demo_endpoint public)"
  "demo_endpoint public \<in> set (http_endpoints demo_flow)" "engine_for demo_flow (demo_endpoint public) demo_engine"
  by (cases public; simp add: demo_endpoint_def demo_flow_def engine_for_def demo_engine_def)+

lemma demo_flow_ok: "flow_ok demo_flow"
proof -
  have "\<exists>en. engine_for demo_flow e en" if "e \<in> set (http_endpoints demo_flow)" for e
    using that demo_fields(7) by (auto simp: demo_flow_def)
  moreover have "distinct (map ep_id (http_endpoints demo_flow))" "distinct (map en_id (engines demo_flow))" by code_simp+
  ultimately show ?thesis
    unfolding flow_ok_def by (auto simp: demo_flow_def demo_engine_def demo_endpoint_def)
qed

lemma demo_serves: "serves_requests demo_flow 3 ''GET'' public (demo_endpoint public)"
  using demo_fields [of public] exI [of _ demo_engine] by (simp add: serves_requests_def)

lemma demo_facts:
  "path_from_uri ''/api/flow/impl/a?x=1'' = Inr ''/api/flow/impl/a''"
  "match_outcome demo_settings ''/api/flow/impl/a?x=1'' (demo_endpoint False) = Inr True"
  "is_tenant_manager (flow_auth demo_flow) (demo_user 1) (Some 3) = Inr False"
  "ga_has_perm demo_guardian (flow_auth demo_flow) (demo_user 1) ''flow.use''"
  "may_on False demo_guardian (flow_auth demo_flow) (Some 3) (demo_user 1) 20 [''flow.use'']"
  "sub_replace_pattern_public outside_base_path ''/api/flow/public/impl/t/a'' = ''/api/flow/impl/a''"
  "path_from_uri ''/api/flow/impl/a'' = Inr ''/api/flow/impl/a''"
  "match_outcome demo_settings ''/api/flow/impl/a'' (demo_endpoint True) = Inr True"
  "tenants_of_uri demo_flow ''/api/flow/public/impl/t/a'' = [demo_tenant]"
  "\<not> us_is_anonymous (demo_user 1) \<and> ep_id (demo_endpoint False) = 20"
  by code_simp+

lemma demo_secure: "secure demo_settings demo_flow"
  using demo_flow_ok by (simp add: secure_def demo_settings_def)

lemma demo_outcomes:
  assumes "e \<in> set (http_endpoints demo_flow)"
  shows "match_outcome demo_settings ''/api/flow/impl/a?x=1'' e = Inr True" "match_outcome demo_settings ''/api/flow/impl/a'' e = Inr True"
proof -
  have "ep_path e = ''/api/flow/impl/a''" using assms by (auto simp: demo_flow_def demo_endpoint_def)
  then show "match_outcome demo_settings ''/api/flow/impl/a?x=1'' e = Inr True" "match_outcome demo_settings ''/api/flow/impl/a'' e = Inr True"
    using demo_facts(2,8) by (simp_all add: match_outcome_def demo_endpoint_def)
qed

theorem flow_request_routed_witness:
  "\<exists>e headers. admitted demo_guardian demo_flow 3 (demo_user 1) ''GET'' e \<and>
     routed demo_settings demo_flow e headers
       (flow_impl_view demo_settings (\<lambda>s. s) demo_guardian demo_flow (Some demo_tenant) (demo_request ''/api/flow/impl/a?x=1''))"
proof -
  let ?uri = "''/api/flow/impl/a?x=1''"
  have "is_tenant_manager (flow_auth demo_flow) (rq_user (demo_request ?uri)) (Some (tn_id demo_tenant)) = Inr False"
    using demo_facts(3) by (simp add: demo_request_def demo_tenant_def)
  then obtain choice where choice: "chosen_endpoint (endpoint_order (\<lambda>s. s))
      (\<lambda>e. admitted demo_guardian demo_flow (tn_id demo_tenant) (rq_user (demo_request ?uri)) ''GET'' e \<and> stops demo_settings ?uri e) choice"
    and answer: "case choice of None \<Rightarrow> flow_impl_view demo_settings (\<lambda>s. s) demo_guardian demo_flow (Some demo_tenant) (demo_request ?uri) = Inr forbidden
     | Some e \<Rightarrow>
         (case match_outcome demo_settings ?uri e of
            Inl error \<Rightarrow> flow_impl_view demo_settings (\<lambda>s. s) demo_guardian demo_flow (Some demo_tenant) (demo_request ?uri) = Inl error
          | Inr _ \<Rightarrow> routed demo_settings demo_flow e
              (\<lambda>upstream hostname. [(''flowuser'', rq_username (demo_request ?uri)), (''flowtenant'', tn_name demo_tenant),
                 (''flowcookies'', sanitize_cookies demo_settings (rq_cookies (demo_request ?uri))), (''flowupstream'', upstream),
                 (''flowhostname'', hostname), (''flowpath'', sub_replace_pattern flow_base_path ?uri), (''flowbasepath'', ''/api/flow/impl/'')])
              (flow_impl_view demo_settings (\<lambda>s. s) demo_guardian demo_flow (Some demo_tenant) (demo_request ?uri)))"
    using flow_request_routed [OF demo_secure, of "demo_request ?uri" ?uri "''GET''" demo_tenant False "\<lambda>s. s" demo_guardian]
    by (auto simp: demo_request_def)
  have "admitted demo_guardian demo_flow 3 (demo_user 1) ''GET'' (demo_endpoint False)"
    using demo_serves demo_facts(4,5,10) by (simp add: admitted_def)
  moreover have "stops demo_settings ?uri (demo_endpoint False)" using demo_facts(2) by (simp add: stops_def)
  ultimately obtain e where e: "choice = Some e" using choice
    by (cases choice) (auto simp: chosen_endpoint_def demo_request_def demo_tenant_def)
  with choice have "admitted demo_guardian demo_flow 3 (demo_user 1) ''GET'' e"
    by (simp add: chosen_endpoint_def demo_request_def demo_tenant_def)
  moreover from this have "match_outcome demo_settings ?uri e = Inr True"
    by (intro demo_outcomes) (simp add: admitted_def serves_requests_def)
  ultimately show ?thesis using answer e by auto
qed

text \<open>C18: A request to a public flow names the tenant in its path and goes to the first public endpoint of that
  tenant that matches, without cookies and without a user; as for the other flows, an endpoint before it
  whose pattern cannot be matched ends the request with an exception. But a user who is logged in to another
  tenant gets 403 for every public flow: the manager of the endpoints filters by the tenant of the user.\<close>

theorem public_flow_routed:
  assumes "secure settings db" and "rq_original_uri request = Some uri" and "rq_original_method request = Some verb"
    and "verb \<noteq> ''OPTIONS''" and "tenants_of_uri db uri = [t]"
  shows "\<exists>choice.
    chosen_endpoint (endpoint_order coll) (\<lambda>e. of_current current (tn_id t) \<and> serves_requests db (tn_id t) verb True e \<and>
      stops settings (sub_replace_pattern_public outside_base_path uri) e) choice \<and>
    (case choice of
       None \<Rightarrow> flow_impl_public_view settings coll db current request = Inr forbidden
     | Some e \<Rightarrow>
         (case match_outcome settings (sub_replace_pattern_public outside_base_path uri) e of
            Inl error \<Rightarrow> flow_impl_public_view settings coll db current request = Inl error
          | Inr _ \<Rightarrow> routed settings db e
              (\<lambda>upstream hostname. [(''flowuser'', []), (''flowtenant'', tn_name t),
                 (''flowcookies'', []), (''flowupstream'', upstream),
                 (''flowhostname'', hostname), (''flowpath'', sub_replace_pattern_public flow_base_path uri),
                 (''flowbasepath'', base_path_public @ tn_name t @ ''/'')])
              (flow_impl_public_view settings coll db current request)))"
proof -
  let ?uri = "sub_replace_pattern_public outside_base_path uri"
  have d: "distinct (map en_id (engines db))" and ok: "flow_ok db" "SKIPPER_DEFAULT_SYSTEM_SECRET settings \<noteq> []"
    using assms(1) by (simp_all add: secure_def flow_ok_def)
  obtain choice where choice: "can_use_endpoint_public_impl settings coll db current (tn_id t) ?uri verb = loop_result settings ?uri choice"
      "chosen_endpoint (endpoint_order coll) (\<lambda>e. of_current current (tn_id t) \<and> serves_requests db (tn_id t) verb True e \<and>
        stops settings ?uri e) choice"
    using can_use_endpoint_public_run [OF d] by blast
  show ?thesis
  proof (cases choice)
    case None
    then show ?thesis using choice assms(2-5) by (auto simp: flow_impl_public_view_def loop_result_def)
  next
    case (Some e)
    then have "serves_requests db (tn_id t) verb True e" "of_current current (tn_id t)"
      using choice(2) by (simp_all add: chosen_endpoint_def)
    then obtain upstream secret where sends: "sends_to settings db e upstream secret"
        "get_upstream settings db current e False True = Inr upstream"
        "get_secret settings db current e False True = Inr secret"
      using sends_to_prop [OF ok, of current "tn_id t" verb True e False True] by auto
    show ?thesis
    proof (cases "match_outcome settings ?uri e")
      case (Inl error)
      then show ?thesis using choice Some assms(2-5)
        by (intro exI [of _ choice]) (simp add: flow_impl_public_view_def loop_result_def)
    next
      case (Inr b)
      then show ?thesis using choice Some assms(2-5) sends unfolding routed_def
        by (intro exI [of _ choice]) (auto simp: flow_impl_public_view_def loop_result_def)
    qed
  qed
qed

theorem public_flow_routed_witness:
  "flow_impl_public_view demo_settings (\<lambda>s. s) demo_flow (Some 4) (demo_request ''/api/flow/public/impl/t/a'') = Inr forbidden \<and>
   (\<exists>e headers. serves_requests demo_flow 3 ''GET'' True e \<and> routed demo_settings demo_flow e headers
     (flow_impl_public_view demo_settings (\<lambda>s. s) demo_flow None (demo_request ''/api/flow/public/impl/t/a'')))"
proof -
  let ?uri = "''/api/flow/public/impl/t/a''"
  note run = public_flow_routed [OF demo_secure, of "demo_request ?uri" ?uri "''GET''" demo_tenant "\<lambda>s. s",
      unfolded demo_facts(6), OF _ _ _ demo_facts(9)]
  have id: "tn_id demo_tenant = 3" by (simp add: demo_tenant_def)
  have other: "flow_impl_public_view demo_settings (\<lambda>s. s) demo_flow (Some 4) (demo_request ?uri) = Inr forbidden"
    using run [where current = "Some 4"]
    by (auto simp: chosen_endpoint_def demo_request_def id of_current_def split: option.splits)
  have "stops demo_settings ''/api/flow/impl/a'' (demo_endpoint True)" using demo_facts(8) by (simp add: stops_def)
  moreover have "serves_requests demo_flow 3 ''GET'' True e \<Longrightarrow> match_outcome demo_settings ''/api/flow/impl/a'' e = Inr True" for e
    by (intro demo_outcomes) (simp add: serves_requests_def)
  ultimately have "\<exists>e headers. serves_requests demo_flow 3 ''GET'' True e \<and> routed demo_settings demo_flow e headers
     (flow_impl_public_view demo_settings (\<lambda>s. s) demo_flow None (demo_request ?uri))"
    using run [where current = None] demo_serves [of True]
    by (fastforce simp: chosen_endpoint_def demo_request_def id of_current_def split: option.splits)
  with other show ?thesis by blast
qed

text \<open>C19: The views on engines hand out the secret of an engine exactly to a user of its tenant who holds the
  permissions for it, globally and on the engine (or is a superuser, staff or manager of the tenant): the
  view of the secret returns it to such a user and to no other; the two views for the access to an engine
  answer such a request with the access to the engine, its secret and upstream in it, and any other with
  403 or an exception. (The views of flows also give the secret of an engine to nginx, with the requests that
  are routed to one of its endpoints.)\<close>

theorem engine_secrets_need_permission:
  assumes "flow_ok db" and "privileged True (rq_user request) \<or> (\<exists>m. is_tenant_manager (flow_auth db) (rq_user request) current = Inr m)"
  shows "(EngineSecretView_get g current (rq_user request) pk db = Inr secret \<longleftrightarrow>
      (\<exists>en. reaches_engine g db current (rq_user request) ''secret'' ''GET'' pk en \<and> secret = en_secret en)) \<and>
    (if \<exists>en. reaches_engine g db current (rq_user request) ''access'' ''GET'' pk en
     then \<exists>en. reaches_engine g db current (rq_user request) ''access'' ''GET'' pk en \<and>
       EngineAccessView_get settings g db current request pk = access_answer settings db request en
     else refused (EngineAccessView_get settings g db current request pk)) \<and>
    (if \<exists>uri pk en. rq_original_uri request = Some uri \<and> match_engine_access uri = Some pk \<and>
       reaches_engine g db current (rq_user request) ''access'' ''GET'' pk en
     then \<exists>uri pk en. rq_original_uri request = Some uri \<and> match_engine_access uri = Some pk \<and>
       reaches_engine g db current (rq_user request) ''access'' ''GET'' pk en \<and>
       NginXEngineAccessView_get settings g db current request = access_answer settings db request en
     else refused (NginXEngineAccessView_get settings g db current request))"
proof (intro conjI)
  note reached = reached_engine [OF flow_okD(1) [OF assms(1)] _ assms(2)]
  show "EngineSecretView_get g current (rq_user request) pk db = Inr secret \<longleftrightarrow>
      (\<exists>en. reaches_engine g db current (rq_user request) ''secret'' ''GET'' pk en \<and> secret = en_secret en)"
    by (rule engine_secret_exact [OF assms])
  have answered: "engine_access settings g db current request pk = access_answer settings db request en"
    if "reaches_engine g db current (rq_user request) ''access'' ''GET'' pk en" for pk en
    using reached [OF that] by (intro engine_access_reached) simp_all
  have unreached: "refused (engine_access settings g db current request pk)"
    if "engine_permissions g db current (rq_user request) ''access'' ''GET'' pk' = Inr ()"
      and "\<nexists>en. reaches_engine g db current (rq_user request) ''access'' ''GET'' pk en" for pk pk'
    using engine_reached [OF that(1)] that(2) by (intro engine_access_refused) blast
  show "if \<exists>en. reaches_engine g db current (rq_user request) ''access'' ''GET'' pk en
     then \<exists>en. reaches_engine g db current (rq_user request) ''access'' ''GET'' pk en \<and>
       EngineAccessView_get settings g db current request pk = access_answer settings db request en
     else refused (EngineAccessView_get settings g db current request pk)"
  proof (cases "\<exists>en. reaches_engine g db current (rq_user request) ''access'' ''GET'' pk en")
    case True
    then show ?thesis using reached answered by (auto simp: EngineAccessView_get_def)
  next
    case False
    then show ?thesis using unreached [of "Some pk" pk]
      by (cases "engine_permissions g db current (rq_user request) ''access'' ''GET'' (Some pk)")
        (simp_all add: EngineAccessView_get_def, simp_all add: refused_def)
  qed
  show "if \<exists>uri pk en. rq_original_uri request = Some uri \<and> match_engine_access uri = Some pk \<and>
       reaches_engine g db current (rq_user request) ''access'' ''GET'' pk en
     then \<exists>uri pk en. rq_original_uri request = Some uri \<and> match_engine_access uri = Some pk \<and>
       reaches_engine g db current (rq_user request) ''access'' ''GET'' pk en \<and>
       NginXEngineAccessView_get settings g db current request = access_answer settings db request en
     else refused (NginXEngineAccessView_get settings g db current request)"
  proof (cases "\<exists>uri pk en. rq_original_uri request = Some uri \<and> match_engine_access uri = Some pk \<and>
       reaches_engine g db current (rq_user request) ''access'' ''GET'' pk en")
    case True
    then show ?thesis using reached answered by (auto simp: NginXEngineAccessView_get_def)
  next
    case False
    then have "refused (NginXEngineAccessView_get settings g db current request)"
      using unreached [of None]
      by (cases "engine_permissions g db current (rq_user request) ''access'' ''GET'' None")
        (auto simp: NginXEngineAccessView_get_def split: option.split, auto simp: refused_def)
    then show ?thesis using False by (simp only: if_False)
  qed
qed

text \<open>A superuser of the tenant reads the secret of the engine.\<close>

definition demo_super :: "auth_user \<Rightarrow> flow_request" where
  "demo_super user = (demo_request ''/api/flow/engine/0000000000000000000000000000000a/access/x'')\<lparr>rq_user := user\<rparr>"

theorem engine_secrets_need_permission_witness:
  "EngineSecretView_get demo_guardian (Some 3) ((demo_user 1)\<lparr>us_is_superuser := True\<rparr>) ''0000000000000000000000000000000a'' demo_flow =
   Inr ''secret''"
proof -
  let ?user = "(demo_user 1)\<lparr>us_is_superuser := True\<rparr>"
  have user: "privileged True ?user" "\<not> us_is_anonymous ?user" by (simp_all add: privileged_def demo_user_def)
  have pk: "parse_uuid ''0000000000000000000000000000000a'' = Some (en_id demo_engine)" by code_simp
  have "list_all (ga_has_perm demo_guardian (flow_auth demo_flow) ?user) (engine_perms ''secret'' ''GET'')"
    by (simp add: engine_perms_def demo_guardian_def table_guardian_def)
  moreover have "sees_engine demo_guardian demo_flow (Some 3) ?user ''secret'' ''GET'' demo_engine"
    using user(1) by (simp add: sees_engine_def may_on_def demo_flow_def demo_engine_def of_current_def)
  ultimately have "reaches_engine demo_guardian demo_flow (Some 3) ?user ''secret'' ''GET'' ''0000000000000000000000000000000a'' demo_engine"
    using user(2) pk by (simp add: reaches_engine_def demo_engine_def)
  moreover have "''secret'' = en_secret demo_engine" by (simp add: demo_engine_def)
  moreover have "rq_user (demo_super ?user) = ?user" by (simp add: demo_super_def)
  ultimately show ?thesis
    using conjunct1 [OF engine_secrets_need_permission [OF demo_flow_ok, of "demo_super ?user" "Some 3" demo_guardian
          "''0000000000000000000000000000000a''" "''secret''"]] user(1)
    by metis
qed

text \<open>C20: Whatever engines, secrets and endpoints users create, update and delete, in whatever order, every endpoint that
  is alive has a live engine of its own tenant, every live engine has a secret, and the external ids of
  live engines and endpoints stay unique in a tenant: deleting an engine deletes its endpoints or is refused.\<close>

theorem endpoints_keep_their_engine:
  assumes "(flow_step v g)\<^sup>*\<^sup>* db0 db" and "flow_ok db0"
  shows "flow_ok db"
  using assms by (induction rule: rtranclp_induct) (simp_all add: flow_step_ok)

definition demo_deleted :: "flow_db result" where
  "demo_deleted = delete_engine demo_guardian (Some 3) ((demo_user 1)\<lparr>us_is_superuser := True\<rparr>) 5 ''x''
     ''0000000000000000000000000000000a'' None (Some ''true'') demo_flow"

lemma returned: "(case x of Inl _ \<Rightarrow> False | Inr y \<Rightarrow> P y) \<Longrightarrow> \<exists>y. x = Inr y \<and> P y"
  by (cases x) auto

lemma demo_deleted_run:
  "\<exists>db. demo_deleted = Inr db \<and> map ep_deleted_at (http_endpoints db) = [Some 5, Some 5] \<and> map en_deleted_at (engines db) = [Some 5]"
proof -
  have "case demo_deleted of Inl _ \<Rightarrow> False
    | Inr db \<Rightarrow> map ep_deleted_at (http_endpoints db) = [Some 5, Some 5] \<and> map en_deleted_at (engines db) = [Some 5]"
    by code_simp
  then show ?thesis by (rule returned)
qed

theorem endpoints_keep_their_engine_witness:
  "\<exists>db. demo_deleted = Inr db \<and> flow_ok db \<and> map ep_deleted_at (http_endpoints db) = [Some 5, Some 5]"
proof -
  obtain db where db: "demo_deleted = Inr db" "map ep_deleted_at (http_endpoints db) = [Some 5, Some 5]"
    using demo_deleted_run by (elim exE conjE) (rule that)
  have "flow_step v demo_guardian demo_flow db" for v
    using db(1) unfolding demo_deleted_def by (rule flow_step.engine_deleted) simp
  then have "(flow_step v demo_guardian)\<^sup>*\<^sup>* demo_flow db" for v by (rule r_into_rtranclp)
  then have "flow_ok db" by (rule endpoints_keep_their_engine [OF _ demo_flow_ok])
  then show ?thesis by (intro exI conjI) (rule db(1), assumption, rule db(2))
qed

end
