(* ===== verification/Server_Metamodel.thy ===== *)
theory Server_Metamodel
  imports Server_Flow Server_Bulk Server_Jobs
begin

text \<open>
  The definition of data series and the life of their tables: \<open>serializers/metamodel/\<close>,
  \<open>views/metamodel/structure.py\<close>, \<open>views/metamodel/data_series.py\<close>, the triggers of
  \<open>migrations/custom_v1/helpers.py\<close>, \<open>tasks/ddl/\<close>, \<open>tasks/migrate/\<close> and the tasks of
  \<open>tasks/prune.py\<close> that remove definitions.

  A fact or dimension is one row that holds both the element and its relation to the data series,
  each with its own \<open>deleted_at\<close>: a request deletes the element and a trigger its relation; deleting
  a data series deletes the relations only. A table is known by its name, which contains the id of
  the data series; the schema of the tenant is left out, and so are the fixed indexes of a table,
  the grants for analytics users and the names and extra configuration of data series.
\<close>

section \<open>Rows and tables\<close>

abbreviation FLAT_HISTORY_BACKEND :: string where
  "FLAT_HISTORY_BACKEND \<equiv> ''DYNAMIC_SQL_MATERIALIZED_FLAT_HISTORY''"

abbreviation NO_HISTORY_BACKEND :: string where
  "NO_HISTORY_BACKEND \<equiv> ''DYNAMIC_SQL_NO_HISTORY''"

definition backend_from_string :: "string \<Rightarrow> StorageBackendType result" where
  "backend_from_string s =
     (if s = ''DYNAMIC_SQL_MATERIALIZED'' then Inr DYNAMIC_SQL_MATERIALIZED
      else if s = FLAT_HISTORY_BACKEND then Inr DYNAMIC_SQL_MATERIALIZED_FLAT_HISTORY
      else if s = ''DYNAMIC_SQL_V1'' then Inr DYNAMIC_SQL_V1
      else if s = NO_HISTORY_BACKEND then Inr DYNAMIC_SQL_NO_HISTORY
      else Inl AssertionError)"

definition selectable_storage_backend_types :: "string list" where
  "selectable_storage_backend_types =
     filter (\<lambda>b. \<not> backend_is_deprecated b) [FLAT_HISTORY_BACKEND, NO_HISTORY_BACKEND]"

definition default_backend :: string where
  "default_backend = FLAT_HISTORY_BACKEND"

record Child_row =
  ch_id :: nat
  ch_kind :: child_kind
  ch_data_series :: nat
  ch_external_id :: string
  ch_name :: string
  ch_optional :: bool
  ch_reference :: "nat option"
  ch_deleted_at :: "int option"
  ch_rel_deleted_at :: "int option"

record Index_row =
  ix_id :: nat
  ix_data_series :: nat
  ix_external_id :: string
  ix_name :: string
  ix_targets :: "(nat \<times> child_kind) list"
  ix_deleted_at :: "int option"
  ix_rel_deleted_at :: "int option"

record Consumer_relation =
  cr_data_series :: nat
  cr_consumer :: nat
  cr_deleted_at :: "int option"

datatype TargetTableType = MATERIALIZED | FLAT_HISTORY

record IndexByUUID =
  by_source :: nat
  by_db_name :: string
  by_target_table :: string
  by_target_table_type :: TargetTableType

text \<open>The message of the task that creates the indexes of the database.\<close>

record index_message =
  im_data_series :: nat
  im_external_id :: string
  im_targets :: "(nat \<times> child_kind) list"
  im_backend :: string
  im_index :: nat

text \<open>
  \<open>mm_tables\<close> holds the type of each column, \<open>mm_pg_indexes\<close> the name, table and columns of the
  indexes that users defined, \<open>mm_storage\<close> the rows of the tables, the registry of files and the
  events of the consumers.
\<close>

record 's metamodel =
  mm_series :: "DataSeries_row list"
  mm_children :: "Child_row list"
  mm_indexes :: "Index_row list"
  mm_consumers :: "Consumer_relation list"
  mm_registry :: "IndexByUUID list"
  mm_index_messages :: "index_message list"
  mm_tables :: "string \<Rightarrow> (string \<Rightarrow> string option) option"
  mm_pg_indexes :: "(string \<times> string \<times> string list) list"
  mm_auth :: auth_db
  mm_bulk :: "BulkInsertTaskData list"
  mm_storage :: "'s storage_world"

type_synonym ('s, 'a) metamodel_run = "('s metamodel, 'a) api"

definition api_asks :: "('w \<Rightarrow> 'a result) \<Rightarrow> ('w, 'a) api" where
  "api_asks f w = (f w, w)"

text \<open>\<open>transaction.atomic()\<close>: messages to Celery are not taken back.\<close>

definition undo_metamodel :: "'s metamodel \<Rightarrow> 's metamodel \<Rightarrow> 's metamodel" where
  "undo_metamodel db db1 = db\<lparr>mm_index_messages := mm_index_messages db1\<rparr>"

definition atomic_metamodel :: "('s, 'a) metamodel_run \<Rightarrow> ('s, 'a) metamodel_run" where
  "atomic_metamodel m db =
     (case m db of (Inl e, db1) \<Rightarrow> (Inl e, undo_metamodel db db1) | (Inr x, db1) \<Rightarrow> (Inr x, db1))"

section \<open>Statements that change tables\<close>

definition set_rows :: "string \<Rightarrow> (mat_row list \<Rightarrow> mat_row list) \<Rightarrow> (hist_row list \<Rightarrow> hist_row list) \<Rightarrow>
    's storage_world \<Rightarrow> 's storage_world" where
  "set_rows table f g w =
     w\<lparr>sw_mat := (sw_mat w)(table := f (sw_mat w table)), sw_hist := (sw_hist w)(table := g (sw_hist w table))\<rparr>"

definition no_rows :: "string \<Rightarrow> 's storage_world \<Rightarrow> 's storage_world" where
  "no_rows table = set_rows table (\<lambda>_. []) (\<lambda>_. [])"

definition null_column :: "string \<Rightarrow> string \<Rightarrow> 's storage_world \<Rightarrow> 's storage_world" where
  "null_column table column =
     set_rows table (map (\<lambda>r. r\<lparr>mr_columns := (mr_columns r)(column := SqlNull)\<rparr>))
       (map (\<lambda>h. h\<lparr>hr_columns := (hr_columns h)(column := SqlNull)\<rparr>))"

definition create_table :: "string \<Rightarrow> (string \<times> string) list \<Rightarrow> ('s, unit) metamodel_run" where
  "create_table table columns db =
     (Inr (), if mm_tables db table \<noteq> None then db
              else db\<lparr>mm_tables := (mm_tables db)(table \<mapsto> map_of columns), mm_storage := no_rows table (mm_storage db)\<rparr>)"

definition require_table :: "string \<Rightarrow> ('s, unit) metamodel_run" where
  "require_table table db = (if mm_tables db table = None then Inl ProgrammingError else Inr (), db)"

definition drop_table :: "string \<Rightarrow> ('s, unit) metamodel_run" where
  "drop_table table db =
     (Inr (), db\<lparr>mm_tables := (mm_tables db)(table := None), mm_storage := no_rows table (mm_storage db),
                mm_pg_indexes := filter (\<lambda>(_, t, _). t \<noteq> table) (mm_pg_indexes db)\<rparr>)"

definition add_column :: "string \<Rightarrow> string \<Rightarrow> string \<Rightarrow> ('s, unit) metamodel_run" where
  "add_column table column column_def db =
     (case mm_tables db table of
        None \<Rightarrow> (Inl ProgrammingError, db)
      | Some columns \<Rightarrow>
          (Inr (), if columns column \<noteq> None then db
                   else db\<lparr>mm_tables := (mm_tables db)(table \<mapsto> columns(column \<mapsto> column_def)),
                           mm_storage := null_column table column (mm_storage db)\<rparr>))"

text \<open>PostgreSQL drops the indexes on a column with the column.\<close>

definition drop_column :: "string \<Rightarrow> string \<Rightarrow> ('s, unit) metamodel_run" where
  "drop_column table column db =
     (case mm_tables db table of
        None \<Rightarrow> (Inl ProgrammingError, db)
      | Some columns \<Rightarrow>
          (Inr (), if columns column = None then db
                   else db\<lparr>mm_tables := (mm_tables db)(table \<mapsto> columns(column := None)),
                           mm_pg_indexes := filter (\<lambda>(_, t, cs). \<not> (t = table \<and> column \<in> set cs)) (mm_pg_indexes db),
                           mm_storage := null_column table column (mm_storage db)\<rparr>))"

definition create_index :: "string \<Rightarrow> string \<Rightarrow> string list \<Rightarrow> ('s, unit) metamodel_run" where
  "create_index name table columns db =
     (case mm_tables db table of
        None \<Rightarrow> (Inl ProgrammingError, db)
      | Some tc \<Rightarrow>
          if list_ex (\<lambda>c. tc c = None) columns then (Inl ProgrammingError, db)
          else (Inr (), if name \<in> fst ` set (mm_pg_indexes db) then db
                        else db\<lparr>mm_pg_indexes := mm_pg_indexes db @ [(name, table, columns)]\<rparr>))"

definition drop_index :: "string \<Rightarrow> ('s, unit) metamodel_run" where
  "drop_index name db =
     (if name \<in> fst ` set (mm_pg_indexes db)
      then (Inr (), db\<lparr>mm_pg_indexes := filter (\<lambda>i. fst i \<noteq> name) (mm_pg_indexes db)\<rparr>)
      else (Inl ProgrammingError, db))"

section \<open>tasks/ddl\<close>

definition data_point_id_column_def :: string where
  "data_point_id_column_def = ''character varying(512) COLLATE pg_catalog.'' @ [CHR 0x22] @ ''default'' @ [CHR 0x22]"

definition external_id_column_def :: string where
  "external_id_column_def = ''character varying(256) COLLATE pg_catalog.'' @ [CHR 0x22] @ ''default'' @ [CHR 0x22]"

definition mat_base_columns :: "(string \<times> string) list" where
  "mat_base_columns =
     [(''id'', data_point_id_column_def), (''external_id'', external_id_column_def),
      (''point_in_time'', ''timestamp with time zone''), (''inserted_at'', ''timestamp with time zone''),
      (''deleted_at'', ''timestamp with time zone''), (''sub_clock'', ''bigint'')]"

definition hist_base_columns :: "(string \<times> string) list" where
  "hist_base_columns =
     [(''id'', data_point_id_column_def), (''external_id'', external_id_column_def),
      (''point_in_time'', ''timestamp with time zone''), (''deleted'', ''boolean''),
      (''user_id'', ''varchar(256)''), (''record_source'', ''varchar(256)''), (''sub_clock'', ''bigint'')]"

definition row_mat_table :: "DataSeries_row \<Rightarrow> string" where
  "row_mat_table ds = materialized_table_name (uuid_str (dsr_id ds)) (dsr_external_id ds)"

definition row_hist_table :: "DataSeries_row \<Rightarrow> string" where
  "row_hist_table ds = materialized_flat_history_table_name (uuid_str (dsr_id ds)) (dsr_external_id ds)"

definition handle_create_data_series_materialized :: "DataSeries_row \<Rightarrow> ('s, unit) metamodel_run" where
  "handle_create_data_series_materialized ds = create_table (row_mat_table ds) mat_base_columns"

text \<open>The indexes of the table of current versions are created again, so that table has to exist.\<close>

definition handle_create_data_series_materialized_flat_history :: "DataSeries_row \<Rightarrow> ('s, unit) metamodel_run" where
  "handle_create_data_series_materialized_flat_history ds =
     api_bind (create_table (row_hist_table ds) hist_base_columns) (\<lambda>_. require_table (row_mat_table ds))"

definition materialized_backend :: "DataSeries_row \<Rightarrow> bool" where
  "materialized_backend ds \<longleftrightarrow> dsr_backend ds = FLAT_HISTORY_BACKEND \<or> dsr_backend ds = NO_HISTORY_BACKEND"

definition handle_create_data_series :: "DataSeries_row \<Rightarrow> ('s, unit) metamodel_run" where
  "handle_create_data_series ds =
     atomic_metamodel
       (api_bind (api_when (materialized_backend ds) (handle_create_data_series_materialized ds)) (\<lambda>_.
        api_when (dsr_backend ds = FLAT_HISTORY_BACKEND) (handle_create_data_series_materialized_flat_history ds)))"

definition value_column_def :: "child_kind \<Rightarrow> string" where
  "value_column_def kind =
     (let collated = '' COLLATE '' @ [CHR 0x22] @ ''pg_catalog'' @ [CHR 0x22, CHR ''.'', CHR 0x22] @ ''default'' @ [CHR 0x22] in
      case kind of
        float_facts \<Rightarrow> ''double precision''
      | string_facts \<Rightarrow> ''character varying(256)'' @ collated
      | text_facts \<Rightarrow> ''text''
      | timestamp_facts \<Rightarrow> ''timestamp with time zone''
      | image_facts \<Rightarrow> ''TEXT'' @ collated
      | json_facts \<Rightarrow> ''jsonb''
      | boolean_facts \<Rightarrow> ''BOOLEAN''
      | file_facts \<Rightarrow> ''TEXT'' @ collated
      | dimensions \<Rightarrow> data_point_id_column_def)"

definition child_column :: "Child_row \<Rightarrow> string" where
  "child_column c = materialized_column_name (uuid_str (ch_id c)) (ch_external_id c)"

definition handle_create_fact_in_materialized_table :: "string \<Rightarrow> Child_row \<Rightarrow> ('s, unit) metamodel_run" where
  "handle_create_fact_in_materialized_table table c = add_column table (child_column c) (value_column_def (ch_kind c))"

definition handle_create_dimension_in_materialized_table :: "string \<Rightarrow> Child_row \<Rightarrow> ('s, unit) metamodel_run" where
  "handle_create_dimension_in_materialized_table table c = add_column table (child_column c) data_point_id_column_def"

definition handle_create_fact :: "DataSeries_row \<Rightarrow> Child_row \<Rightarrow> ('s, unit) metamodel_run" where
  "handle_create_fact ds c =
     atomic_metamodel
       (api_bind (api_when (materialized_backend ds) (handle_create_fact_in_materialized_table (row_mat_table ds) c)) (\<lambda>_.
        api_when (dsr_backend ds = FLAT_HISTORY_BACKEND) (handle_create_fact_in_materialized_table (row_hist_table ds) c)))"

definition handle_create_dimension :: "DataSeries_row \<Rightarrow> Child_row \<Rightarrow> ('s, unit) metamodel_run" where
  "handle_create_dimension ds c =
     atomic_metamodel
       (api_bind (api_when (materialized_backend ds) (handle_create_dimension_in_materialized_table (row_mat_table ds) c)) (\<lambda>_.
        api_when (dsr_backend ds = FLAT_HISTORY_BACKEND) (handle_create_dimension_in_materialized_table (row_hist_table ds) c)))"

text \<open>The four functions that drop the column of a fact or dimension from one of the tables.\<close>

definition handle_drop_child_in_table :: "string \<Rightarrow> Child_row \<Rightarrow> ('s, unit) metamodel_run" where
  "handle_drop_child_in_table table c = drop_column table (child_column c)"

section \<open>tasks/ddl/user_defined_index.py\<close>

definition index_rel_name :: "nat \<Rightarrow> string" where
  "index_rel_name index_id = take 63 (''_mat_userindex_'' @ uuid_str index_id)"

definition index_rel_name_flat_history :: "nat \<Rightarrow> string" where
  "index_rel_name_flat_history index_id = take 63 (''_mfhist_userindex_'' @ uuid_str index_id)"

definition handle_create_user_defined_index_on_materialized_or_flat_table ::
  "string \<Rightarrow> TargetTableType \<Rightarrow> nat \<Rightarrow> string \<Rightarrow> string list \<Rightarrow> ('s, unit) metamodel_run" where
  "handle_create_user_defined_index_on_materialized_or_flat_table table table_type index_id rel_name columns =
     api_bind (create_index rel_name table columns) (\<lambda>_.
     api_bind (api_get mm_registry) (\<lambda>registry.
     if list_ex (\<lambda>r. by_source r = index_id \<and> by_target_table_type r = table_type) registry then api_return ()
     else if list_ex (\<lambda>r. by_db_name r = rel_name) registry then api_raise IntegrityError
     else api_modify (\<lambda>db. db\<lparr>mm_registry := mm_registry db @
       [\<lparr>by_source = index_id, by_db_name = rel_name, by_target_table = table, by_target_table_type = table_type\<rparr>]\<rparr>)))"

definition drop_registered_index :: "IndexByUUID \<Rightarrow> ('s, unit) metamodel_run" where
  "drop_registered_index index =
     api_bind (drop_index (by_db_name index)) (\<lambda>_.
       api_modify (\<lambda>db. db\<lparr>mm_registry := filter (\<lambda>r. by_db_name r \<noteq> by_db_name index) (mm_registry db)\<rparr>))"

text \<open>The rows of the registry that match have to be as many as expected.\<close>

definition drop_registered_indexes :: "(IndexByUUID \<Rightarrow> bool) \<Rightarrow> nat \<Rightarrow> ('s, unit) metamodel_run" where
  "drop_registered_indexes matching expected =
     api_bind (api_get (\<lambda>db. filter matching (mm_registry db))) (\<lambda>indexes.
     if length indexes \<noteq> expected then api_raise AssertionError else api_for drop_registered_index indexes)"

definition handle_drop_user_defined_index_materialized :: "nat \<Rightarrow> ('s, unit) metamodel_run" where
  "handle_drop_user_defined_index_materialized index_id = drop_registered_indexes (\<lambda>r. by_source r = index_id) 1"

definition handle_drop_user_defined_index_flat_history :: "nat \<Rightarrow> ('s, unit) metamodel_run" where
  "handle_drop_user_defined_index_flat_history index_id = drop_registered_indexes (\<lambda>r. by_source r = index_id) 2"

definition handle_drop_user_defined_index_by_target_table_type ::
  "nat \<Rightarrow> TargetTableType \<Rightarrow> ('s, unit) metamodel_run" where
  "handle_drop_user_defined_index_by_target_table_type index_id table_type =
     drop_registered_indexes (\<lambda>r. by_target_table_type r = table_type \<and> by_source r = index_id) 1"

text \<open>The related manager of a data series shows the relations that are not deleted.\<close>

definition relation_set :: "'s metamodel \<Rightarrow> nat \<Rightarrow> child_kind \<Rightarrow> Child_row list" where
  "relation_set db data_series kind =
     filter (\<lambda>c. ch_data_series c = data_series \<and> ch_kind c = kind \<and> ch_rel_deleted_at c = None) (mm_children db)"

definition target_column :: "'s metamodel \<Rightarrow> nat \<Rightarrow> nat \<times> child_kind \<Rightarrow> string result" where
  "target_column db data_series target =
     (case find (\<lambda>c. ch_id c = fst target) (relation_set db data_series (snd target)) of
        None \<Rightarrow> Inl AssertionError
      | Some c \<Rightarrow> Inr (child_column c))"

definition handle_create_user_defined_index :: "index_message \<Rightarrow> ('s, unit) metamodel_run" where
  "handle_create_user_defined_index message =
     api_modify (\<lambda>db. db\<lparr>mm_index_messages := mm_index_messages db @ [message]\<rparr>)"

definition handle_create_user_defined_index_actual :: "index_message \<Rightarrow> ('s, unit) metamodel_run" where
  "handle_create_user_defined_index_actual m =
     api_bind (api_asks (\<lambda>db.
       if list_ex (\<lambda>r. dsr_id r = im_data_series m) (DataSeries_objects None (mm_series db))
       then rmap (target_column db (im_data_series m)) (im_targets m) else Inl DoesNotExist)) (\<lambda>columns.
     atomic_metamodel
       (api_bind (api_when (im_backend m = FLAT_HISTORY_BACKEND \<or> im_backend m = NO_HISTORY_BACKEND)
          (handle_create_user_defined_index_on_materialized_or_flat_table
             (materialized_table_name (uuid_str (im_data_series m)) (im_external_id m)) MATERIALIZED (im_index m)
             (index_rel_name (im_index m)) columns)) (\<lambda>_.
        api_when (im_backend m = FLAT_HISTORY_BACKEND)
          (handle_create_user_defined_index_on_materialized_or_flat_table
             (materialized_flat_history_table_name (uuid_str (im_data_series m)) (im_external_id m)) FLAT_HISTORY (im_index m)
             (index_rel_name_flat_history (im_index m)) columns))))"

text \<open>A worker takes the first message; one that fails is gone.\<close>

definition run_index_message :: "('s, unit) metamodel_run" where
  "run_index_message =
     api_bind (api_get mm_index_messages) (\<lambda>messages.
     case messages of
       [] \<Rightarrow> api_return ()
     | m # rest \<Rightarrow> api_bind (api_modify (\<lambda>db. db\<lparr>mm_index_messages := rest\<rparr>)) (\<lambda>_.
         handle_create_user_defined_index_actual m))"

section \<open>Triggers\<close>

text \<open>\<open>add_simple_foreign_key_constraint_with_soft_delete\<close> from the data series to its relations \<dots>\<close>

definition sdel_data_series :: "nat \<Rightarrow> int \<Rightarrow> 's metamodel \<Rightarrow> 's metamodel" where
  "sdel_data_series data_series deleted_at db =
     db\<lparr>mm_children := map (\<lambda>c. if ch_data_series c = data_series \<and> ch_rel_deleted_at c = None
          then c\<lparr>ch_rel_deleted_at := Some deleted_at\<rparr> else c) (mm_children db),
        mm_indexes := map (\<lambda>i. if ix_data_series i = data_series \<and> ix_rel_deleted_at i = None
          then i\<lparr>ix_rel_deleted_at := Some deleted_at\<rparr> else i) (mm_indexes db),
        mm_consumers := map (\<lambda>r. if cr_data_series r = data_series \<and> cr_deleted_at r = None
          then r\<lparr>cr_deleted_at := Some deleted_at\<rparr> else r) (mm_consumers db)\<rparr>"

text \<open>\<dots> and from an element to its relation.\<close>

definition sdel_child :: "int \<Rightarrow> Child_row \<Rightarrow> Child_row" where
  "sdel_child now c =
     (if ch_deleted_at c \<noteq> None then c
      else c\<lparr>ch_deleted_at := Some now,
             ch_rel_deleted_at := (case ch_rel_deleted_at c of None \<Rightarrow> Some now | Some t \<Rightarrow> Some t)\<rparr>)"

definition sdel_index :: "int \<Rightarrow> Index_row \<Rightarrow> Index_row" where
  "sdel_index now i =
     (if ix_deleted_at i \<noteq> None then i
      else i\<lparr>ix_deleted_at := Some now,
             ix_rel_deleted_at := (case ix_rel_deleted_at i of None \<Rightarrow> Some now | Some t \<Rightarrow> Some t)\<rparr>)"

text \<open>Deleting a data series for good: the foreign keys delete the relations, \<open>declare_ownership_cascade_delete\<close> the elements.\<close>

definition del_data_series :: "nat \<Rightarrow> 's metamodel \<Rightarrow> 's metamodel" where
  "del_data_series data_series db =
     db\<lparr>mm_series := filter (\<lambda>r. dsr_id r \<noteq> data_series) (mm_series db),
        mm_children := filter (\<lambda>c. ch_data_series c \<noteq> data_series) (mm_children db),
        mm_indexes := filter (\<lambda>i. ix_data_series i \<noteq> data_series) (mm_indexes db),
        mm_consumers := filter (\<lambda>r. cr_data_series r \<noteq> data_series) (mm_consumers db),
        mm_storage := (mm_storage db)\<lparr>sw_events := (sw_events (mm_storage db))
          \<lparr>ew_consumers := filter (\<lambda>e. \<not> list_ex (\<lambda>r. cr_data_series r = data_series \<and> uuid_str (cr_consumer r) = con_id e)
             (mm_consumers db)) (ew_consumers (sw_events (mm_storage db)))\<rparr>\<rparr>\<rparr>"

section \<open>Requests\<close>

record request_context =
  cx_guardian :: guardian
  cx_maintenance :: maintenance
  cx_tenant :: "nat option"
  cx_user :: auth_user

text \<open>
  The permission classes of the views and the data series of the path; the refusals of both are
  raised in this order. A missing data series is an empty query set.
\<close>

definition metamodel_permissions ::
  "request_context \<Rightarrow> 's metamodel \<Rightarrow> string \<Rightarrow> string \<Rightarrow> 'a result \<Rightarrow> unit result" where
  "metamodel_permissions cx db action method queryset =
     rbind (view_permissions (cx_guardian cx) (mm_auth db) (cx_tenant cx) (cx_user cx) data_series_read_perm queryset) (\<lambda>_.
       view_permissions (cx_guardian cx) (mm_auth db) (cx_tenant cx) (cx_user cx)
         (get_permission_string_for_action_and_http_verb action method) queryset)"

definition series_of_request ::
  "request_context \<Rightarrow> series_key \<Rightarrow> string \<Rightarrow> string \<Rightarrow> 's metamodel \<Rightarrow> DataSeries_row result" where
  "series_of_request cx key action method db =
     (let found = get_data_series_object (cx_guardian cx) (cx_maintenance cx) (mm_auth db) (mm_series db) (cx_tenant cx)
        (cx_user cx) key action (Some method) in
      rbind (metamodel_permissions cx db action method found) (\<lambda>_.
      rbind found (\<lambda>ds. case ds of None \<Rightarrow> Inl Http404 | Some r \<Rightarrow> Inr r)))"

section \<open>Facts and dimensions\<close>

definition sql_safe_char :: "char \<Rightarrow> bool" where
  "sql_safe_char c \<longleftrightarrow> is_alpha c \<or> is_digit c \<or> c = CHR ''_''"

definition validate_external_id_sql_safe :: "string \<Rightarrow> bool" where
  "validate_external_id_sql_safe s \<longleftrightarrow> list_all sql_safe_char s \<and> 1 \<le> length s \<and> length s \<le> 50"

definition in_use :: py_error where
  "in_use = ValidationError (PStr ''external id is already in use'')"

definition not_sql_safe :: py_error where
  "not_sql_safe = ValidationError (PStr ''Only letters, numbers and _ are allowed in external_ids'')"

definition external_id_fixed :: py_error where
  "external_id_fixed = ValidationError (PStr ''changing of external_id is not supported!'')"

text \<open>The kinds whose relations are asked for the external id of a new element.\<close>

definition validated_kinds :: "child_kind list" where
  "validated_kinds =
     [dimensions, json_facts, image_facts, string_facts, text_facts, float_facts, boolean_facts, timestamp_facts]"

definition validate_new_external_id :: "'s metamodel \<Rightarrow> nat \<Rightarrow> string \<Rightarrow> unit result" where
  "validate_new_external_id db data_series external_id =
     (if list_ex (\<lambda>kind. list_ex (\<lambda>c. ch_external_id c = external_id) (relation_set db data_series kind)) validated_kinds
      then Inl in_use
      else if \<not> validate_external_id_sql_safe external_id then Inl not_sql_safe
      else Inr ())"

text \<open>Only dimensions have a reference, one of the data series the manager \<open>objects\<close> shows.\<close>

definition validate_reference :: "request_context \<Rightarrow> 's metamodel \<Rightarrow> child_kind \<Rightarrow> nat option \<Rightarrow> unit result" where
  "validate_reference cx db kind reference =
     (if kind \<noteq> dimensions then Inr ()
      else case reference of
        None \<Rightarrow> Inl (ValidationError (PStr ''This field is required.''))
      | Some i \<Rightarrow>
          if list_ex (\<lambda>r. dsr_id r = i) (DataSeries_objects (cx_tenant cx) (mm_series db)) then Inr ()
          else Inl (ValidationError (PStr ''Invalid hyperlink - Object does not exist.'')))"

text \<open>The element and its relation; the table of the relations has a unique index over the live ones.\<close>

definition insert_child :: "Child_row \<Rightarrow> ('s, unit) metamodel_run" where
  "insert_child c db =
     (if list_ex (\<lambda>d. ch_external_id d = ch_external_id c) (relation_set db (ch_data_series c) (ch_kind c))
      then (Inl IntegrityError, db)
      else (Inr (), db\<lparr>mm_children := mm_children db @ [c]\<rparr>))"

definition create_structure_element ::
  "request_context \<Rightarrow> series_key \<Rightarrow> child_kind \<Rightarrow> nat \<Rightarrow> string \<Rightarrow> string \<Rightarrow> bool \<Rightarrow> nat option \<Rightarrow> ('s, unit) metamodel_run" where
  "create_structure_element cx key kind new_id external_id name optional reference =
     api_bind (api_asks (series_of_request cx key ''structure_element'' ''POST'')) (\<lambda>ds.
     api_bind (api_asks (\<lambda>db. validate_new_external_id db (dsr_id ds) external_id)) (\<lambda>_.
     api_bind (api_asks (\<lambda>db. validate_reference cx db kind reference)) (\<lambda>_.
     (let c = \<lparr>ch_id = new_id, ch_kind = kind, ch_data_series = dsr_id ds, ch_external_id = external_id, ch_name = name,
               ch_optional = optional, ch_reference = (if kind = dimensions then reference else None),
               ch_deleted_at = None, ch_rel_deleted_at = None\<rparr> in
      atomic_metamodel (api_bind (insert_child c) (\<lambda>_.
        if kind = dimensions then handle_create_dimension ds c else handle_create_fact ds c))))))"

text \<open>\<open>get_object\<close>: the elements that are not deleted, of the data series of the path.\<close>

definition child_object :: "'s metamodel \<Rightarrow> nat \<Rightarrow> child_kind \<Rightarrow> nat \<Rightarrow> Child_row result" where
  "child_object db data_series kind pk =
     get_object_or_404 (\<lambda>c. ch_id c = pk)
       (filter (\<lambda>c. ch_kind c = kind \<and> ch_deleted_at c = None \<and> ch_data_series c = data_series) (mm_children db))"

definition update_structure_element ::
  "request_context \<Rightarrow> series_key \<Rightarrow> child_kind \<Rightarrow> bool \<Rightarrow> nat \<Rightarrow> string option \<Rightarrow> string option \<Rightarrow> bool option \<Rightarrow> nat option \<Rightarrow>
     ('s, unit) metamodel_run" where
  "update_structure_element cx key kind partial_update pk external_id name optional reference =
     api_bind (api_asks (series_of_request cx key ''structure_element'' (if partial_update then ''PATCH'' else ''PUT''))) (\<lambda>ds.
     api_bind (api_asks (\<lambda>db. child_object db (dsr_id ds) kind pk)) (\<lambda>c.
     api_bind (api_lift (or_keep partial_update (ch_external_id c) external_id
       (\<lambda>s. if s \<noteq> ch_external_id c then Inl external_id_fixed
            else if \<not> validate_external_id_sql_safe s then Inl not_sql_safe else Inr s))) (\<lambda>_.
     api_bind (api_asks (\<lambda>db. if kind \<noteq> dimensions then Inr None
       else or_keep partial_update (ch_reference c) reference (\<lambda>i.
         rbind (validate_reference cx db kind (Some i)) (\<lambda>_.
         if ch_reference c \<noteq> Some i then Inl (ValidationError (PStr ''a dimension can't change its referenced dataseries''))
         else Inr (Some i))))) (\<lambda>_.
     api_bind (api_lift (or_keep partial_update (ch_name c) name Inr)) (\<lambda>name1.
     api_bind (api_lift (or_keep partial_update (ch_optional c) optional Inr)) (\<lambda>optional1.
     api_modify (\<lambda>db. db\<lparr>mm_children :=
       map (\<lambda>d. if ch_id d = ch_id c then d\<lparr>ch_name := name1, ch_optional := optional1\<rparr> else d) (mm_children db)\<rparr>)))))))"

definition get_indexes_by_target_id :: "'s metamodel \<Rightarrow> nat \<Rightarrow> Index_row list" where
  "get_indexes_by_target_id db target_id =
     filter (\<lambda>i. ix_deleted_at i = None \<and> target_id \<in> fst ` set (ix_targets i)) (mm_indexes db)"

definition destroy_structure_element ::
  "request_context \<Rightarrow> series_key \<Rightarrow> child_kind \<Rightarrow> nat \<Rightarrow> int \<Rightarrow> ('s, unit) metamodel_run" where
  "destroy_structure_element cx key kind pk now =
     api_bind (api_asks (series_of_request cx key ''structure_element'' ''DELETE'')) (\<lambda>ds.
     api_bind (api_asks (\<lambda>db. child_object db (dsr_id ds) kind pk)) (\<lambda>c.
     api_bind (api_asks (\<lambda>db. if get_indexes_by_target_id db (ch_id c) \<noteq> []
       then Inl (ValidationError (PStr ''This object may not be deleted as long as an index is referencing it.''))
       else Inr ())) (\<lambda>_.
     api_modify (\<lambda>db. db\<lparr>mm_children :=
       map (\<lambda>d. if ch_id d = ch_id c then sdel_child now d else d) (mm_children db)\<rparr>))))"

section \<open>Indexes\<close>

text \<open>A target of a new index: its id, its external id, or both.\<close>

record index_target =
  it_id :: "nat option"
  it_external_id :: "string option"
  it_kind :: child_kind

definition get_indexable_child_or_fail ::
  "'s metamodel \<Rightarrow> nat \<Rightarrow> child_kind \<Rightarrow> (Child_row \<Rightarrow> bool) \<Rightarrow> Child_row result" where
  "get_indexable_child_or_fail db data_series kind p =
     (case filter p (relation_set db data_series kind) of
        [] \<Rightarrow> Inl (ValidationError (PStr ''Target of given type doesn't exist!''))
      | [c] \<Rightarrow> Inr c
      | _ \<Rightarrow> Inl IntegrityError)"

definition validate_target :: "'s metamodel \<Rightarrow> nat \<Rightarrow> index_target \<Rightarrow> (nat \<times> child_kind) result" where
  "validate_target db data_series t =
     (let by_id = (\<lambda>i. get_indexable_child_or_fail db data_series (it_kind t) (\<lambda>c. ch_id c = i));
          by_external_id = (\<lambda>s. get_indexable_child_or_fail db data_series (it_kind t) (\<lambda>c. ch_external_id c = s)) in
      case (it_id t, it_external_id t) of
        (None, None) \<Rightarrow> Inl (ValidationError (PStr ''At least one of target_id and target_external_id must be specified''))
      | (None, Some s) \<Rightarrow> rbind (by_external_id s) (\<lambda>c. Inr (ch_id c, it_kind t))
      | (Some i, None) \<Rightarrow> rbind (by_id i) (\<lambda>_. Inr (i, it_kind t))
      | (Some i, Some s) \<Rightarrow>
          rbind (by_id i) (\<lambda>c. rbind (by_external_id s) (\<lambda>d.
            if ch_id c \<noteq> ch_id d then Inl (ValidationError (PStr ''Given external_id and id point to different targets''))
            else Inr (i, it_kind t))))"

definition validate_targets :: "(nat \<times> child_kind) list \<Rightarrow> unit result" where
  "validate_targets targets =
     (if \<not> distinct (map fst targets) then Inl (ValidationError (PStr ''Field contains at least one duplicate''))
      else if targets = [] then Inl (ValidationError (PStr ''Indexes must have at least one target''))
      else Inr ())"

definition live_indexes :: "'s metamodel \<Rightarrow> nat \<Rightarrow> Index_row list" where
  "live_indexes db data_series =
     filter (\<lambda>i. ix_data_series i = data_series \<and> ix_rel_deleted_at i = None) (mm_indexes db)"

definition create_user_defined_index ::
  "request_context \<Rightarrow> series_key \<Rightarrow> nat \<Rightarrow> string \<Rightarrow> string \<Rightarrow> index_target list \<Rightarrow> ('s, unit) metamodel_run" where
  "create_user_defined_index cx key new_id external_id name given =
     api_bind (api_asks (series_of_request cx key ''structure_element'' ''POST'')) (\<lambda>ds.
     api_bind (api_asks (\<lambda>db.
       if list_ex (\<lambda>i. ix_external_id i = external_id) (live_indexes db (dsr_id ds)) then Inl in_use
       else if \<not> validate_external_id_sql_safe external_id then Inl not_sql_safe else Inr ())) (\<lambda>_.
     api_bind (api_asks (\<lambda>db. rmap (validate_target db (dsr_id ds)) given)) (\<lambda>targets.
     api_bind (api_lift (validate_targets targets)) (\<lambda>_.
     atomic_metamodel
       (api_bind (api_modify (\<lambda>db. db\<lparr>mm_indexes := mm_indexes db @
          [\<lparr>ix_id = new_id, ix_data_series = dsr_id ds, ix_external_id = external_id, ix_name = name, ix_targets = targets,
            ix_deleted_at = None, ix_rel_deleted_at = None\<rparr>]\<rparr>)) (\<lambda>_.
        handle_create_user_defined_index
          \<lparr>im_data_series = dsr_id ds, im_external_id = dsr_external_id ds, im_targets = targets,
           im_backend = dsr_backend ds, im_index = new_id\<rparr>))))))"

definition destroy_user_defined_index ::
  "request_context \<Rightarrow> series_key \<Rightarrow> nat \<Rightarrow> int \<Rightarrow> ('s, unit) metamodel_run" where
  "destroy_user_defined_index cx key pk now =
     api_bind (api_asks (series_of_request cx key ''structure_element'' ''DELETE'')) (\<lambda>ds.
     api_bind (api_asks (\<lambda>db. get_object_or_404 (\<lambda>i. ix_id i = pk)
       (filter (\<lambda>i. ix_deleted_at i = None \<and> ix_data_series i = dsr_id ds) (mm_indexes db)))) (\<lambda>index.
     api_modify (\<lambda>db. db\<lparr>mm_indexes := map (\<lambda>i. if ix_id i = ix_id index then sdel_index now i else i) (mm_indexes db)\<rparr>)))"

section \<open>Data series\<close>

type_synonym 's metamodel_world = "'s metamodel meta_model_world"

definition in_db :: "('s, 'a) metamodel_run \<Rightarrow> ('s metamodel_world, 'a) api" where
  "in_db m w = (case m (mw_env w) of (r, db) \<Rightarrow> (r, w\<lparr>mw_env := db\<rparr>))"

definition on_auth :: "(auth_db, 'a) api \<Rightarrow> ('s, 'a) metamodel_run" where
  "on_auth m db = (case m (mm_auth db) of (r, auth) \<Rightarrow> (r, db\<lparr>mm_auth := auth\<rparr>))"

definition validate_new_series :: "request_context \<Rightarrow> 's metamodel \<Rightarrow> string \<Rightarrow> string \<Rightarrow> unit result" where
  "validate_new_series cx db external_id backend =
     (if list_ex (\<lambda>r. dsr_external_id r = external_id) (DataSeries_objects (cx_tenant cx) (mm_series db)) then Inl in_use
      else if \<not> validate_external_id_sql_safe external_id then Inl not_sql_safe
      else if backend \<notin> set selectable_storage_backend_types then Inl (ValidationError (PStr ''not a valid choice''))
      else if backend_is_deprecated backend then Inl (ValidationError (PStr ''backend is deprecated''))
      else Inr ())"

definition insert_series :: "DataSeries_row \<Rightarrow> ('s, unit) metamodel_run" where
  "insert_series r db =
     (if list_ex (\<lambda>d. dsr_deleted_at d = None \<and> dsr_tenant d = dsr_tenant r \<and> dsr_external_id d = dsr_external_id r) (mm_series db)
      then (Inl IntegrityError, db)
      else (Inr (), db\<lparr>mm_series := mm_series db @ [r]\<rparr>))"

definition create_data_series ::
  "request_context \<Rightarrow> nat \<Rightarrow> string \<Rightarrow> string option \<Rightarrow> ('s, unit) metamodel_run" where
  "create_data_series cx new_id external_id backend =
     api_bind (api_asks (\<lambda>db. metamodel_permissions cx db ''data_series'' ''POST'' (Inr ()))) (\<lambda>_.
     (let backend1 = (case backend of None \<Rightarrow> default_backend | Some b \<Rightarrow> b) in
      api_bind (api_asks (\<lambda>db. validate_new_series cx db external_id backend1)) (\<lambda>_.
      (let ds = \<lparr>dsr_id = new_id, dsr_external_id = external_id, dsr_tenant = (case cx_tenant cx of None \<Rightarrow> 0 | Some t \<Rightarrow> t),
                 dsr_deleted_at = None, dsr_backend = backend1, dsr_locked = False\<rparr> in
       atomic_metamodel
         (api_bind (insert_series ds) (\<lambda>_.
          api_bind (api_when (\<not> us_is_anonymous (cx_user cx))
            (api_for (\<lambda>action. api_for (\<lambda>http_verb. on_auth (ga_assign_perm (cx_guardian cx)
                (get_permission_string_for_action_and_http_verb action http_verb) (As_user (us_id (cx_user cx))) (Some new_id)))
              PERMISSION_HTTP_VERBS) ALL_AVAILABLE_PERMISSIONS_DATA_SERIES)) (\<lambda>_.
          handle_create_data_series ds)))))))"

definition migration_allowed :: "string \<Rightarrow> string \<Rightarrow> bool" where
  "migration_allowed original_backend backend \<longleftrightarrow>
     original_backend = NO_HISTORY_BACKEND \<and> backend = FLAT_HISTORY_BACKEND \<or>
     original_backend = FLAT_HISTORY_BACKEND \<and> backend = NO_HISTORY_BACKEND"

definition validate_backend :: "string \<Rightarrow> string \<Rightarrow> string result" where
  "validate_backend original_backend backend =
     (if backend \<notin> set selectable_storage_backend_types then Inl (ValidationError (PStr ''not a valid choice''))
      else if original_backend = backend \<or> migration_allowed original_backend backend then Inr backend
      else Inl (ValidationError (PStr ''can't migrate'')))"

definition migration_task :: "string \<Rightarrow> string" where
  "migration_task backend =
     (if backend = FLAT_HISTORY_BACKEND then ''_3_dynamic_sql_migrate_no_history_to_flat_history''
      else ''_3_dynamic_sql_migrate_flat_history_to_no_history'')"

text \<open>
  A PUT without a backend has the default of the field, a PATCH none. The lock is set in the
  transaction of the update, the task is stored after it.
\<close>

definition given_backend :: "bool \<Rightarrow> string option \<Rightarrow> string option" where
  "given_backend partial_update backend =
     (case backend of Some b \<Rightarrow> Some b | None \<Rightarrow> if partial_update then None else Some default_backend)"

definition update_data_series ::
  "request_context \<Rightarrow> series_key \<Rightarrow> bool \<Rightarrow> string option \<Rightarrow> string option \<Rightarrow> string \<Rightarrow> ('s metamodel_world, unit) api" where
  "update_data_series cx key partial_update external_id backend task_id =
     api_bind (in_db (api_asks (series_of_request cx key ''data_series'' (if partial_update then ''PATCH'' else ''PUT'')))) (\<lambda>ds.
     api_bind (api_lift (or_keep partial_update (dsr_external_id ds) external_id
       (\<lambda>s. if s \<noteq> dsr_external_id ds then Inl external_id_fixed
            else if \<not> validate_external_id_sql_safe s then Inl not_sql_safe else Inr s))) (\<lambda>_.
     case given_backend partial_update backend of
       None \<Rightarrow> api_return ()
     | Some b \<Rightarrow>
         api_bind (api_lift (validate_backend (dsr_backend ds) b)) (\<lambda>_.
         if dsr_backend ds = b then api_return ()
         else api_bind (in_db (api_modify (\<lambda>db. db\<lparr>mm_series := map (\<lambda>r. if dsr_id r = dsr_id ds
                then r\<lparr>dsr_backend := b, dsr_locked := True\<rparr> else r) (mm_series db)\<rparr>))) (\<lambda>_.
              api_modify (\<lambda>w. w\<lparr>mw_tasks := mw_tasks w @
                [\<lparr>mt_id = task_id, mt_task = migration_task b, mt_data_series = uuid_str (dsr_id ds)\<rparr>]\<rparr>)))))"

text \<open>The live dimensions of other live data series that refer to this one; those of this one do not count.\<close>

definition references_to_this :: "request_context \<Rightarrow> 's metamodel \<Rightarrow> nat \<Rightarrow> DataSeries_row list" where
  "references_to_this cx db data_series =
     filter (\<lambda>r. dsr_id r \<noteq> data_series \<and>
       list_ex (\<lambda>c. ch_reference c = Some data_series) (relation_set db (dsr_id r) dimensions))
       (DataSeries_objects (cx_tenant cx) (mm_series db))"

definition destroy_data_series :: "request_context \<Rightarrow> series_key \<Rightarrow> int \<Rightarrow> ('s, unit) metamodel_run" where
  "destroy_data_series cx key now =
     api_bind (api_asks (series_of_request cx key ''data_series'' ''DELETE'')) (\<lambda>ds.
     api_bind (api_asks (\<lambda>db. if references_to_this cx db (dsr_id ds) \<noteq> []
       then Inl (ValidationError (PStr ''can't delete data_series, it is referenced in other data_series.'')) else Inr ())) (\<lambda>_.
     api_modify (\<lambda>db. sdel_data_series (dsr_id ds) now
       (db\<lparr>mm_series := map (\<lambda>r. if dsr_id r = dsr_id ds \<and> dsr_deleted_at r = None
          then r\<lparr>dsr_deleted_at := Some now\<rparr> else r) (mm_series db)\<rparr>))))"

section \<open>tasks/prune.py\<close>

definition expired :: "int \<Rightarrow> int option \<Rightarrow> bool" where
  "expired older_than deleted_at = (case deleted_at of None \<Rightarrow> False | Some t \<Rightarrow> t < older_than)"

definition dead_facts :: "'s metamodel \<Rightarrow> nat \<Rightarrow> int \<Rightarrow> Child_row list" where
  "dead_facts db data_series older_than =
     concat (map (\<lambda>kind. filter (\<lambda>c. ch_data_series c = data_series \<and> ch_kind c = kind \<and> expired older_than (ch_rel_deleted_at c))
         (mm_children db))
       [float_facts, string_facts, text_facts, timestamp_facts, image_facts, json_facts, boolean_facts, file_facts])"

definition dead_dimensions :: "'s metamodel \<Rightarrow> nat \<Rightarrow> int \<Rightarrow> Child_row list" where
  "dead_dimensions db data_series older_than =
     filter (\<lambda>c. ch_kind c = dimensions \<and> expired older_than (ch_rel_deleted_at c) \<and> ch_data_series c = data_series) (mm_children db)"

definition dead_indexes :: "'s metamodel \<Rightarrow> nat \<Rightarrow> int \<Rightarrow> Index_row list" where
  "dead_indexes db data_series older_than =
     filter (\<lambda>i. expired older_than (ix_rel_deleted_at i) \<and> ix_data_series i = data_series) (mm_indexes db)"

definition prune_index :: "DataSeries_row \<Rightarrow> Index_row \<Rightarrow> ('s, unit) metamodel_run" where
  "prune_index ds i =
     api_bind (api_when (dsr_backend ds = FLAT_HISTORY_BACKEND) (handle_drop_user_defined_index_flat_history (ix_id i))) (\<lambda>_.
     api_bind (api_when (materialized_backend ds) (handle_drop_user_defined_index_materialized (ix_id i))) (\<lambda>_.
     api_modify (\<lambda>db. db\<lparr>mm_indexes := filter (\<lambda>d. ix_id d \<noteq> ix_id i) (mm_indexes db)\<rparr>)))"

definition prune_child :: "DataSeries_row \<Rightarrow> ('s, unit) metamodel_run \<Rightarrow> Child_row \<Rightarrow> ('s, unit) metamodel_run" where
  "prune_child ds release_files c =
     api_bind (api_when (materialized_backend ds) (handle_drop_child_in_table (row_mat_table ds) c)) (\<lambda>_.
     api_bind (api_when (dsr_backend ds = FLAT_HISTORY_BACKEND) (handle_drop_child_in_table (row_hist_table ds) c)) (\<lambda>_.
     api_bind release_files (\<lambda>_.
     api_modify (\<lambda>db. db\<lparr>mm_children := filter (\<lambda>d. ch_id d \<noteq> ch_id c) (mm_children db)\<rparr>))))"

definition on_storage :: "('s storage_world \<Rightarrow> 's storage_world) \<Rightarrow> ('s, unit) metamodel_run" where
  "on_storage f = api_modify (\<lambda>db. db\<lparr>mm_storage := f (mm_storage db)\<rparr>)"

definition release_files_of :: "int \<Rightarrow> DataSeries_row \<Rightarrow> Child_row \<Rightarrow> ('s, unit) metamodel_run" where
  "release_files_of now ds c =
     on_storage (\<lambda>w. w\<lparr>sw_registry :=
       truncate_fact_data now (uuid_str (dsr_tenant ds)) (uuid_str (dsr_id ds)) (uuid_str (ch_id c)) (sw_registry w)\<rparr>)"

definition prune_consumer :: "Consumer_relation \<Rightarrow> ('s, unit) metamodel_run" where
  "prune_consumer r =
     api_bind (on_storage (\<lambda>w. w\<lparr>sw_events := fold hard_delete_consumer
         (filter (\<lambda>e. con_id e = uuid_str (cr_consumer r)) (ew_consumers (sw_events w))) (sw_events w)\<rparr>)) (\<lambda>_.
       api_modify (\<lambda>db. db\<lparr>mm_consumers := filter (\<lambda>d. cr_consumer d \<noteq> cr_consumer r) (mm_consumers db)\<rparr>))"

text \<open>The task has no transaction of its own: what was done before an error stays.\<close>

definition prune_meta_model :: "int \<Rightarrow> nat \<Rightarrow> int \<Rightarrow> ('s, unit) metamodel_run" where
  "prune_meta_model now data_series older_than =
     api_bind (api_asks (\<lambda>db. case find (\<lambda>r. dsr_id r = data_series) (mm_series db) of
       None \<Rightarrow> Inl DoesNotExist | Some r \<Rightarrow> Inr r)) (\<lambda>ds.
     api_bind (api_get (\<lambda>db. dead_indexes db data_series older_than)) (\<lambda>index_rels.
     api_bind (api_for (prune_index ds) index_rels) (\<lambda>_.
     api_bind (api_get (\<lambda>db. dead_facts db data_series older_than)) (\<lambda>fact_rels.
     api_bind (api_for (\<lambda>c. prune_child ds (release_files_of now ds c) c) fact_rels) (\<lambda>_.
     api_bind (api_get (\<lambda>db. dead_dimensions db data_series older_than)) (\<lambda>dim_rels.
     api_bind (api_for (prune_child ds (api_return ())) dim_rels) (\<lambda>_.
     api_bind (api_get (\<lambda>db. filter (\<lambda>r. expired older_than (cr_deleted_at r) \<and> cr_data_series r = data_series) (mm_consumers db))) (\<lambda>consumer_rels.
     api_for prune_consumer consumer_rels))))))))"

definition undo_world :: "'s metamodel_world \<Rightarrow> 's metamodel_world \<Rightarrow> 's metamodel_world" where
  "undo_world w w1 = w\<lparr>mw_env := undo_metamodel (mw_env w) (mw_env w1)\<rparr>"

text \<open>The last step: Django deletes the stored tasks of the data series with it.\<close>

definition nuke_data_series :: "int \<Rightarrow> nat \<Rightarrow> int \<Rightarrow> ('s metamodel_world, unit) api" where
  "nuke_data_series now data_series older_than w =
     (case api_bind (in_db (api_asks (\<lambda>db. case find (\<lambda>r. dsr_id r = data_series) (mm_series db) of
             None \<Rightarrow> Inl DoesNotExist
           | Some r \<Rightarrow> if dsr_deleted_at r = None then Inl AssertionError else Inr r))) (\<lambda>ds.
           api_bind (in_db (prune_meta_model now data_series older_than)) (\<lambda>_.
           api_bind (in_db (api_when (materialized_backend ds) (drop_table (row_mat_table ds)))) (\<lambda>_.
           api_bind (in_db (api_when (dsr_backend ds = FLAT_HISTORY_BACKEND) (drop_table (row_hist_table ds)))) (\<lambda>_.
           api_bind (in_db (api_modify (\<lambda>db. db\<lparr>mm_bulk := filter (\<lambda>t. bt_data_series t \<noteq> uuid_str data_series) (mm_bulk db)\<rparr>))) (\<lambda>_.
           api_modify (\<lambda>w. w\<lparr>mw_tasks := filter (\<lambda>t. mt_data_series t \<noteq> uuid_str data_series) (mw_tasks w),
                             mw_env := del_data_series data_series (mw_env w)\<rparr>)))))) w of
        (Inl e, w1) \<Rightarrow> (Inl e, undo_world w w1)
      | (Inr x, w1) \<Rightarrow> (Inr x, w1))"

text \<open>\<open>PruneDataSeriesView.post\<close> with \<open>accept\<close>: one task for each data series deleted long enough ago.\<close>

definition deleted_data_series :: "nat \<Rightarrow> int \<Rightarrow> 's metamodel \<Rightarrow> DataSeries_row list" where
  "deleted_data_series tenant older_than db =
     concat (map (\<lambda>backend. filter (\<lambda>r. dsr_tenant r = tenant \<and> expired older_than (dsr_deleted_at r) \<and> dsr_backend r = backend)
         (mm_series db))
       [FLAT_HISTORY_BACKEND, NO_HISTORY_BACKEND, ''DYNAMIC_SQL_MATERIALIZED'', ''DYNAMIC_SQL_V1''])"

section \<open>tasks/migrate\<close>

text \<open>The order in which the migration adds the columns of the history.\<close>

definition migrated_kinds :: "child_kind list" where
  "migrated_kinds =
     [float_facts, boolean_facts, image_facts, file_facts, json_facts, string_facts, text_facts, timestamp_facts]"

text \<open>What the storage works with (\<open>compute_data_series_query_info\<close>, \<open>data_point_serialization_keys\<close>).\<close>

definition storage_series :: "'s metamodel \<Rightarrow> DataSeries_row \<Rightarrow> DataSeries result" where
  "storage_series db ds =
     rbind (backend_from_string (dsr_backend ds)) (\<lambda>backend. Inr
       \<lparr>ds_id = uuid_str (dsr_id ds), ds_external_id = dsr_external_id ds, ds_backend = backend,
        ds_tenant_id = uuid_str (dsr_tenant ds),
        ds_keys = (\<lambda>kind. dict_comp ch_external_id (\<lambda>c. uuid_str (ch_id c)) (relation_set db (dsr_id ds) kind))\<rparr>)"

text \<open>
  The history starts with the current versions. The primary key of the history allows no row
  without \<open>sub_clock\<close> and none twice.
\<close>

definition migrated_row :: "mat_row \<Rightarrow> hist_row result" where
  "migrated_row r =
     (case mr_sub_clock r of
        None \<Rightarrow> Inl IntegrityError
      | Some clock \<Rightarrow> Inr ((insert_to_flat_history_query
            \<lparr>st_point_in_time = 0, st_sub_clock = clock, st_user_id = [], st_record_source = ''migration - no history to flat history''\<rparr>
            (mr_id r) (mr_external_id r) (mr_point_in_time r) (mr_deleted_at r) clock (mr_columns r))\<lparr>hr_user_id := None\<rparr>))"

fun insert_histories :: "hist_row list \<Rightarrow> hist_row list \<Rightarrow> hist_row list result" where
  "insert_histories [] rows = Inr rows"
| "insert_histories (h # hs) rows = rbind (insert_history (Some h) rows) (insert_histories hs)"

definition copy_to_history :: "DataSeries_row \<Rightarrow> ('s, unit) metamodel_run" where
  "copy_to_history ds db =
     (let w = mm_storage db in
      case rbind (rmap migrated_row (sw_mat w (row_mat_table ds))) (\<lambda>hs. insert_histories hs (sw_hist w (row_hist_table ds))) of
        Inl e \<Rightarrow> (Inl e, db)
      | Inr rows \<Rightarrow> (Inr (), db\<lparr>mm_storage := w\<lparr>sw_hist := (sw_hist w)(row_hist_table ds := rows)\<rparr>\<rparr>))"

definition series_to_migrate :: "string \<Rightarrow> 's metamodel \<Rightarrow> DataSeries_row result" where
  "series_to_migrate data_series db =
     (case find (\<lambda>r. uuid_str (dsr_id r) = data_series) (DataSeries_objects None (mm_series db)) of
        None \<Rightarrow> Inl DoesNotExist | Some r \<Rightarrow> Inr r)"

text \<open>\<open>data_series.save()\<close> writes the row that was read when the task began.\<close>

definition unlock_series :: "DataSeries_row \<Rightarrow> ('s, unit) metamodel_run" where
  "unlock_series ds =
     api_modify (\<lambda>db. db\<lparr>mm_series := map (\<lambda>r. if dsr_id r = dsr_id ds then ds\<lparr>dsr_locked := False\<rparr> else r) (mm_series db)\<rparr>)"

definition migrate_no_history_to_flat_history :: "MetaModelTaskData \<Rightarrow> ('s, unit) metamodel_run" where
  "migrate_no_history_to_flat_history task =
     api_bind (api_asks (series_to_migrate (mt_data_series task))) (\<lambda>ds.
     api_bind (atomic_metamodel
       (api_bind (handle_create_data_series_materialized_flat_history ds) (\<lambda>_.
        api_bind (api_for (\<lambda>kind. api_bind (api_get (\<lambda>db. relation_set db (dsr_id ds) kind))
            (api_for (handle_create_fact_in_materialized_table (row_hist_table ds)))) migrated_kinds) (\<lambda>_.
        api_bind (api_bind (api_get (\<lambda>db. relation_set db (dsr_id ds) dimensions))
            (api_for (handle_create_dimension_in_materialized_table (row_hist_table ds)))) (\<lambda>_.
        api_bind (copy_to_history ds) (\<lambda>_.
        api_bind (api_get (\<lambda>db. live_indexes db (dsr_id ds)))
          (api_for (\<lambda>i. handle_create_user_defined_index
            \<lparr>im_data_series = dsr_id ds, im_external_id = dsr_external_id ds, im_targets = ix_targets i,
             im_backend = dsr_backend ds, im_index = ix_id i\<rparr>)))))))) (\<lambda>_.
     unlock_series ds))"

text \<open>
  The first transaction prunes the history up to the year 4000, with the backend that the series
  has by now. \<open>all_objects\<close> gives the facts, deleted ones included.
\<close>

definition year_4000 :: int where "year_4000 = 64060592461000001"

definition prune_history_of :: "int \<Rightarrow> DataSeries_row \<Rightarrow> ('s, unit) metamodel_run" where
  "prune_history_of now ds db =
     (case storage_series db ds of
        Inl e \<Rightarrow> (Inl e, db)
      | Inr s \<Rightarrow>
          (case prune_history now year_4000
               (\<lambda>kind. map (\<lambda>c. uuid_str (ch_id c)) (filter (\<lambda>c. ch_data_series c = dsr_id ds \<and> ch_kind c = kind) (mm_children db)))
               s (mm_storage db) of
             (r, w) \<Rightarrow> (r, db\<lparr>mm_storage := w\<rparr>)))"

definition migrate_flat_history_to_no_history :: "int \<Rightarrow> MetaModelTaskData \<Rightarrow> ('s, unit) metamodel_run" where
  "migrate_flat_history_to_no_history now task =
     api_bind (api_asks (series_to_migrate (mt_data_series task))) (\<lambda>ds.
     api_bind (prune_history_of now ds) (\<lambda>_.
     api_bind (api_bind (api_get (\<lambda>db. live_indexes db (dsr_id ds)))
       (api_for (\<lambda>i. handle_drop_user_defined_index_by_target_table_type (ix_id i) FLAT_HISTORY))) (\<lambda>_.
     api_bind (drop_table (row_hist_table ds)) (\<lambda>_.
     unlock_series ds))))"

text \<open>The registry of \<open>tasks/migrate\<close>, and a worker that runs a stored task.\<close>

definition meta_model_task_registry :: "int \<Rightarrow> (string \<times> (MetaModelTaskData \<Rightarrow> ('s, unit) metamodel_run)) list" where
  "meta_model_task_registry now =
     [(''_3_dynamic_sql_migrate_no_history_to_flat_history'', migrate_no_history_to_flat_history),
      (''_3_dynamic_sql_migrate_flat_history_to_no_history'', migrate_flat_history_to_no_history now)]"

definition run_migration :: "int \<Rightarrow> bool \<Rightarrow> string \<Rightarrow> ('s metamodel_world, unit) api" where
  "run_migration now claimed task_id = run_meta_model_task undo_metamodel (meta_model_task_registry now) claimed task_id"

end
