(* ===== verification/Server_Metamodel_Correct.thy ===== *)
theory Server_Metamodel_Correct
  imports Server_Metamodel Server_Permissions_Correct
begin

text \<open>
  What holds of every state that requests on the metamodel reach: the ids of rows, what refers to what,
  the external ids, the locks and the tables. Each request keeps it, whether it succeeds or raises.
\<close>

section \<open>Names of tables and columns\<close>

definition uuid :: "nat \<Rightarrow> bool" where
  "uuid i \<longleftrightarrow> i < 16 ^ 32"

lemma length_hex_digits [simp]: "length (hex_digits k n) = k"
  by (induction k arbitrary: n) auto

lemma hex_digit_inj: "d < 16 \<Longrightarrow> e < 16 \<Longrightarrow> hex_digit d = hex_digit e \<Longrightarrow> d = e"
proof -
  have "distinct (map hex_digit [0..<16])" by code_simp
  then have "inj_on hex_digit (set [0..<16])" by (simp add: distinct_map)
  then show "d < 16 \<Longrightarrow> e < 16 \<Longrightarrow> hex_digit d = hex_digit e \<Longrightarrow> d = e"
    by (auto dest: inj_onD)
qed

lemma hex_digits_inj: "n < 16 ^ k \<Longrightarrow> m < 16 ^ k \<Longrightarrow> hex_digits k n = hex_digits k m \<Longrightarrow> n = m"
proof (induction k arbitrary: n m)
  case (Suc k)
  then have "n div 16 = m div 16"
    by (intro Suc.IH) (auto simp: less_mult_imp_div_less mult.commute)
  moreover have "n mod 16 = m mod 16"
    using Suc.prems(3) by (intro hex_digit_inj) auto
  ultimately show ?case by (metis div_mult_mod_eq)
qed simp

lemma length_uuid_str [simp]: "length (uuid_str n) = 36"
  by (simp add: uuid_str_def Let_def)

lemma uuid_str_inj:
  assumes "uuid n" and "uuid m" and "uuid_str n = uuid_str m"
  shows "n = m"
proof -
  define h where "h = hex_digits 32 n"
  define k where "k = hex_digits 32 m"
  have len: "length h = 32" "length k = 32" by (simp_all add: h_def k_def)
  from assms(3) have "take 8 h = take 8 k" and "take 4 (drop 8 h) = take 4 (drop 8 k)" and "take 4 (drop 12 h) = take 4 (drop 12 k)"
    and "take 4 (drop 16 h) = take 4 (drop 16 k)" and "drop 20 h = drop 20 k"
    using len by (auto simp: uuid_str_def Let_def h_def [symmetric] k_def [symmetric])
  then have "take 8 h @ take 4 (drop 8 h) @ take 4 (drop 12 h) @ take 4 (drop 16 h) @ drop 20 h =
      take 8 k @ take 4 (drop 8 k) @ take 4 (drop 12 k) @ take 4 (drop 16 k) @ drop 20 k" by simp
  moreover have "take 8 x @ take 4 (drop 8 x) @ take 4 (drop 12 x) @ take 4 (drop 16 x) @ drop 20 x = x" for x :: string
    using append_take_drop_id [of 8 x] append_take_drop_id [of 4 "drop 8 x"] append_take_drop_id [of 4 "drop 12 x"]
      append_take_drop_id [of 4 "drop 16 x"] by simp
  ultimately have "h = k" by simp
  then show ?thesis using assms(1,2) hex_digits_inj [of n 32 m] by (simp add: h_def k_def uuid_def)
qed


text \<open>A name begins with the id, so it tells the object; the prefixes tell the two tables apart.\<close>

lemma materialized_column_name_inj:
  "materialized_column_name (uuid_str i) a = materialized_column_name (uuid_str j) b \<Longrightarrow> uuid i \<Longrightarrow> uuid j \<Longrightarrow> i = j"
  by (rule uuid_str_inj) (auto simp: materialized_column_name_def)

lemma take_materialized_column_name [simp]: "take 36 (materialized_column_name (uuid_str i) a) = uuid_str i"
  by (simp add: materialized_column_name_def min_def)

lemma take_mat_name [simp]: "take 36 (drop 5 (materialized_table_name (uuid_str i) a)) = uuid_str i"
  by (simp add: materialized_table_name_def min_def drop_take)

lemma take_hist_name [simp]: "take 36 (drop 8 (materialized_flat_history_table_name (uuid_str i) a)) = uuid_str i"
  by (simp add: materialized_flat_history_table_name_def min_def drop_take)

lemma mat_name_inj:
  assumes "materialized_table_name (uuid_str i) a = materialized_table_name (uuid_str j) b" and "uuid i" and "uuid j"
  shows "i = j"
  using assms(2,3) by (rule uuid_str_inj) (metis assms(1) take_mat_name)

lemma hist_name_inj:
  assumes "materialized_flat_history_table_name (uuid_str i) a = materialized_flat_history_table_name (uuid_str j) b"
    and "uuid i" and "uuid j"
  shows "i = j"
  using assms(2,3) by (rule uuid_str_inj) (metis assms(1) take_hist_name)

lemma mat_name_not_hist [simp]:
  "materialized_table_name x a \<noteq> materialized_flat_history_table_name y b"
  "materialized_flat_history_table_name y b \<noteq> materialized_table_name x a"
  by (auto simp: materialized_table_name_def materialized_flat_history_table_name_def)

lemma length_column_name: "37 \<le> length (materialized_column_name (uuid_str i) a)"
  by (simp add: materialized_column_name_def)

lemma not_base_column [simp]:
  "map_of mat_base_columns (materialized_column_name (uuid_str i) a) = None"
  "map_of hist_base_columns (materialized_column_name (uuid_str i) a) = None"
proof -
  have "\<forall>c \<in> fst ` set mat_base_columns \<union> fst ` set hist_base_columns. length c < 37"
    by (simp add: mat_base_columns_def hist_base_columns_def)
  then have "materialized_column_name (uuid_str i) a \<notin> fst ` set mat_base_columns \<union> fst ` set hist_base_columns"
    using length_column_name [of i a] by (metis not_less)
  then show "map_of mat_base_columns (materialized_column_name (uuid_str i) a) = None"
    "map_of hist_base_columns (materialized_column_name (uuid_str i) a) = None"
    by (auto simp: map_of_eq_None_iff)
qed

lemma child_column_inj: "child_column c = child_column d \<Longrightarrow> uuid (ch_id c) \<Longrightarrow> uuid (ch_id d) \<Longrightarrow> ch_id c = ch_id d"
  unfolding child_column_def by (rule materialized_column_name_inj)

lemma row_table_inj:
  "row_mat_table r = row_mat_table q \<Longrightarrow> uuid (dsr_id r) \<Longrightarrow> uuid (dsr_id q) \<Longrightarrow> dsr_id r = dsr_id q"
  "row_hist_table r = row_hist_table q \<Longrightarrow> uuid (dsr_id r) \<Longrightarrow> uuid (dsr_id q) \<Longrightarrow> dsr_id r = dsr_id q"
  unfolding row_mat_table_def row_hist_table_def by (rule mat_name_inj hist_name_inj; assumption)+

lemma row_tables_differ [simp]: "row_mat_table r \<noteq> row_hist_table q" "row_hist_table q \<noteq> row_mat_table r"
  by (simp_all add: row_mat_table_def row_hist_table_def)

section \<open>What every reachable state satisfies\<close>

text \<open>The rows: their ids, what is deleted with what, and what refers to what.\<close>

definition ids_ok :: "DataSeries_row list \<Rightarrow> Child_row list \<Rightarrow> Index_row list \<Rightarrow> bool" where
  "ids_ok S C I \<longleftrightarrow>
     distinct (map dsr_id S) \<and> distinct (map ch_id C) \<and> distinct (map ix_id I) \<and>
     (\<forall>r \<in> set S. uuid (dsr_id r)) \<and> (\<forall>c \<in> set C. uuid (ch_id c)) \<and>
     (\<forall>c \<in> set C. ch_deleted_at c \<noteq> None \<longrightarrow> ch_rel_deleted_at c \<noteq> None) \<and>
     (\<forall>i \<in> set I. ix_deleted_at i \<noteq> None \<longrightarrow> ix_rel_deleted_at i \<noteq> None)"

definition live_series :: "DataSeries_row list \<Rightarrow> nat \<Rightarrow> DataSeries_row \<Rightarrow> bool" where
  "live_series S i r \<longleftrightarrow> r \<in> set S \<and> dsr_id r = i \<and> dsr_deleted_at r = None"

definition live_child :: "Child_row list \<Rightarrow> nat \<Rightarrow> Child_row \<Rightarrow> bool" where
  "live_child C i c \<longleftrightarrow> c \<in> set C \<and> ch_data_series c = i \<and> ch_rel_deleted_at c = None"

definition references_ok :: "DataSeries_row list \<Rightarrow> Child_row list \<Rightarrow> Index_row list \<Rightarrow> bool" where
  "references_ok S C I \<longleftrightarrow>
     (\<forall>i c. live_child C i c \<longrightarrow> (\<exists>r. live_series S i r \<and>
        (ch_kind c = dimensions \<longrightarrow> (\<exists>j q. ch_reference c = Some j \<and> live_series S j q \<and> dsr_tenant q = dsr_tenant r)))) \<and>
     (\<forall>x \<in> set I. ix_rel_deleted_at x = None \<longrightarrow> (\<forall>t \<in> set (ix_targets x).
        \<exists>c. live_child C (ix_data_series x) c \<and> ch_id c = fst t \<and> ch_kind c = snd t))"

text \<open>Two elements with one external id are of different kinds, and one of them is a file fact.\<close>

definition external_ids_ok :: "Child_row list \<Rightarrow> bool" where
  "external_ids_ok C \<longleftrightarrow>
     (\<forall>i c d. live_child C i c \<longrightarrow> live_child C i d \<longrightarrow> ch_external_id c = ch_external_id d \<longrightarrow> ch_id c \<noteq> ch_id d \<longrightarrow>
        ch_kind c \<noteq> ch_kind d \<and> (ch_kind c = file_facts \<or> ch_kind d = file_facts))"

text \<open>A live data series is locked exactly while the task that migrates it to its backend is stored.\<close>

definition locked_right :: "MetaModelTaskData list \<Rightarrow> nat \<Rightarrow> DataSeries_row \<Rightarrow> bool" where
  "locked_right T i r \<longleftrightarrow>
     (if dsr_locked r then materialized_backend r \<and>
        (\<exists>t \<in> set T. mt_data_series t = uuid_str i \<and> mt_task t = migration_task (dsr_backend r))
      else uuid_str i \<notin> mt_data_series ` set T)"

definition locks_ok :: "MetaModelTaskData list \<Rightarrow> DataSeries_row list \<Rightarrow> bool" where
  "locks_ok T S \<longleftrightarrow> distinct (map mt_id T) \<and> distinct (map mt_data_series T) \<and>
     mt_data_series ` set T \<subseteq> (\<lambda>r. uuid_str (dsr_id r)) ` set S \<and> (\<forall>i r. live_series S i r \<longrightarrow> locked_right T i r)"

text \<open>The tables: a column of a fact or dimension has its type, and a live one has its columns.\<close>

definition typed_columns :: "(string \<Rightarrow> (string \<Rightarrow> string option) option) \<Rightarrow> Child_row list \<Rightarrow> bool" where
  "typed_columns T C \<longleftrightarrow>
     (\<forall>t columns. T t = Some columns \<longrightarrow> (\<forall>c \<in> set C. columns (child_column c) \<in> {None, Some (value_column_def (ch_kind c))}))"

definition has_column :: "(string \<Rightarrow> (string \<Rightarrow> string option) option) \<Rightarrow> string \<Rightarrow> Child_row \<Rightarrow> bool" where
  "has_column T t c \<longleftrightarrow> (\<exists>columns. T t = Some columns \<and> columns (child_column c) = Some (value_column_def (ch_kind c)))"

definition table_of :: "(string \<Rightarrow> (string \<Rightarrow> string option) option) \<Rightarrow> Child_row list \<Rightarrow> nat \<Rightarrow> string \<Rightarrow> bool" where
  "table_of T C i t \<longleftrightarrow> T t \<noteq> None \<and> (\<forall>c. live_child C i c \<longrightarrow> has_column T t c)"

definition tables_ok :: "(string \<Rightarrow> (string \<Rightarrow> string option) option) \<Rightarrow> DataSeries_row list \<Rightarrow> Child_row list \<Rightarrow> bool" where
  "tables_ok T S C \<longleftrightarrow> typed_columns T C \<and>
     (\<forall>i r. live_series S i r \<longrightarrow> materialized_backend r \<longrightarrow>
        table_of T C i (row_mat_table r) \<and>
        (dsr_backend r = FLAT_HISTORY_BACKEND \<longrightarrow> \<not> dsr_locked r \<longrightarrow> table_of T C i (row_hist_table r)))"

definition metamodel_ok :: "MetaModelTaskData list \<Rightarrow> 's metamodel \<Rightarrow> bool" where
  "metamodel_ok T db \<longleftrightarrow>
     ids_ok (mm_series db) (mm_children db) (mm_indexes db) \<and>
     references_ok (mm_series db) (mm_children db) (mm_indexes db) \<and>
     external_ids_ok (mm_children db) \<and>
     locks_ok T (mm_series db) \<and>
     tables_ok (mm_tables db) (mm_series db) (mm_children db)"

definition world_ok :: "'s metamodel_world \<Rightarrow> bool" where
  "world_ok w \<longleftrightarrow> metamodel_ok (mw_tasks w) (mw_env w)"

text \<open>What an operation keeps, whether it raises or not.\<close>

definition keeps :: "('w \<Rightarrow> bool) \<Rightarrow> ('w, 'a) api \<Rightarrow> bool" where
  "keeps P m \<longleftrightarrow> (\<forall>w. P w \<longrightarrow> P (snd (m w)))"

lemma keepsD: "keeps P m \<Longrightarrow> P w \<Longrightarrow> P (snd (m w))"
  by (auto simp: keeps_def)

lemma keeps_bind: "keeps P m \<Longrightarrow> (\<And>x. keeps P (f x)) \<Longrightarrow> keeps P (api_bind m f)"
  unfolding keeps_def api_bind_def by (auto split: prod.splits sum.splits)

lemma keeps_return: "keeps P (api_return x)"
  by (simp add: keeps_def api_return_def)

lemma keeps_raise: "keeps P (api_raise e)"
  by (simp add: keeps_def api_raise_def)

lemma keeps_asks: "keeps P (api_asks f)"
  by (simp add: keeps_def api_asks_def)

lemma keeps_get: "keeps P (api_get f)"
  by (simp add: keeps_def api_get_def)

lemma keeps_lift: "keeps P (api_lift r)"
  by (simp add: keeps_def api_lift_def)

lemma keeps_modify: "(\<And>w. P w \<Longrightarrow> P (f w)) \<Longrightarrow> keeps P (api_modify f)"
  by (simp add: keeps_def api_modify_def)

lemma keeps_when: "(b \<Longrightarrow> keeps P m) \<Longrightarrow> keeps P (api_when b m)"
  by (simp add: api_when_def keeps_return)

lemma keeps_for: "(\<And>x. x \<in> set xs \<Longrightarrow> keeps P (f x)) \<Longrightarrow> keeps P (api_for f xs)"
  by (induction xs) (auto intro: keeps_return keeps_bind)

lemmas keeps_intros = keeps_return keeps_raise keeps_asks keeps_get keeps_lift keeps_modify keeps_when keeps_for keeps_bind

section \<open>Statements that build tables\<close>

definition same_rows :: "'s metamodel \<Rightarrow> 's metamodel \<Rightarrow> bool" where
  "same_rows db db1 \<longleftrightarrow>
     mm_series db1 = mm_series db \<and> mm_children db1 = mm_children db \<and> mm_indexes db1 = mm_indexes db"

definition grows ::
  "(string \<Rightarrow> (string \<Rightarrow> string option) option) \<Rightarrow> (string \<Rightarrow> (string \<Rightarrow> string option) option) \<Rightarrow> bool" where
  "grows T T1 \<longleftrightarrow> (\<forall>t columns. T t = Some columns \<longrightarrow> (\<exists>columns1. T1 t = Some columns1 \<and> columns \<subseteq>\<^sub>m columns1))"

definition builds :: "Child_row list \<Rightarrow> ('s, 'a) metamodel_run \<Rightarrow> bool" where
  "builds C m \<longleftrightarrow> (\<forall>db. same_rows db (snd (m db)) \<and> grows (mm_tables db) (mm_tables (snd (m db))) \<and>
     (typed_columns (mm_tables db) C \<longrightarrow> typed_columns (mm_tables (snd (m db))) C))"

lemma same_rows_trans: "same_rows a b \<Longrightarrow> same_rows b c \<Longrightarrow> same_rows a c"
  by (simp add: same_rows_def)

lemma grows_refl [simp]: "grows T T"
  by (simp add: grows_def)

lemma grows_trans: "grows T T1 \<Longrightarrow> grows T1 T2 \<Longrightarrow> grows T T2"
  unfolding grows_def by (meson map_le_trans)

lemma has_column_grows: "has_column T t c \<Longrightarrow> grows T T1 \<Longrightarrow> has_column T1 t c"
  unfolding has_column_def grows_def map_le_def by (metis domI)

lemma table_grows: "T t \<noteq> None \<Longrightarrow> grows T T1 \<Longrightarrow> T1 t \<noteq> None"
  unfolding grows_def by blast

lemma table_of_grows: "table_of T C i t \<Longrightarrow> grows T T1 \<Longrightarrow> table_of T1 C i t"
  unfolding table_of_def by (metis has_column_grows table_grows)

named_theorems build_rules \<open>statements that build tables\<close>

lemma builds_bind [build_rules]:
  assumes "builds C m" and "\<And>x. builds C (f x)"
  shows "builds C (api_bind m f)"
  unfolding builds_def
proof
  fix db
  show "same_rows db (snd (api_bind m f db)) \<and> grows (mm_tables db) (mm_tables (snd (api_bind m f db))) \<and>
    (typed_columns (mm_tables db) C \<longrightarrow> typed_columns (mm_tables (snd (api_bind m f db))) C)"
  proof (cases "m db")
    case (Pair r db1)
    with assms(1) have m: "same_rows db db1" "grows (mm_tables db) (mm_tables db1)"
      "typed_columns (mm_tables db) C \<Longrightarrow> typed_columns (mm_tables db1) C" unfolding builds_def by (metis snd_conv)+
    show ?thesis
    proof (cases r)
      case (Inl e)
      with Pair m show ?thesis by (simp add: api_bind_def)
    next
      case (Inr x)
      have "same_rows db1 (snd (f x db1))" "grows (mm_tables db1) (mm_tables (snd (f x db1)))"
        "typed_columns (mm_tables db1) C \<Longrightarrow> typed_columns (mm_tables (snd (f x db1))) C"
        using assms(2) [of x] unfolding builds_def by blast+
      with m Pair Inr show ?thesis by (auto simp: api_bind_def intro: same_rows_trans grows_trans)
    qed
  qed
qed

lemma builds_return [build_rules]: "builds C (api_return x)"
  by (simp add: builds_def api_return_def same_rows_def)

lemma builds_raise [build_rules]: "builds C (api_raise e)"
  by (simp add: builds_def api_raise_def same_rows_def)

lemma builds_get [build_rules]: "builds C (api_get f)"
  by (simp add: builds_def api_get_def same_rows_def)

lemma builds_asks [build_rules]: "builds C (api_asks f)"
  by (simp add: builds_def api_asks_def same_rows_def)

lemma builds_when [build_rules]: "(b \<Longrightarrow> builds C m) \<Longrightarrow> builds C (api_when b m)"
  by (simp add: api_when_def builds_return)

lemma builds_for [build_rules]: "(\<And>x. x \<in> set xs \<Longrightarrow> builds C (f x)) \<Longrightarrow> builds C (api_for f xs)"
  by (induction xs) (auto intro: builds_return builds_bind)

lemma builds_if [build_rules]: "(b \<Longrightarrow> builds C m) \<Longrightarrow> (\<not> b \<Longrightarrow> builds C n) \<Longrightarrow> builds C (if b then m else n)"
  by simp

lemma builds_atomic [build_rules]: "builds C m \<Longrightarrow> builds C (atomic_metamodel m)"
  unfolding builds_def atomic_metamodel_def
  by (auto simp: undo_metamodel_def same_rows_def split: prod.splits sum.splits) (metis snd_conv)+

lemma builds_create_index [build_rules]: "builds C (create_index name t cs)"
  by (auto simp: builds_def create_index_def same_rows_def split: option.splits)

lemma builds_drop_index [build_rules]: "builds C (drop_index name)"
  by (auto simp: builds_def drop_index_def same_rows_def)

lemma builds_require [build_rules]: "builds C (require_table t)"
  by (auto simp: builds_def require_table_def same_rows_def)

lemma builds_add_column:
  assumes "\<And>c. c \<in> set C \<Longrightarrow> child_column c = col \<Longrightarrow> ty = value_column_def (ch_kind c)"
  shows "builds C (add_column t col ty)"
  unfolding builds_def using assms
  by (auto simp: add_column_def same_rows_def grows_def map_le_def typed_columns_def split: option.splits)

definition base_columns :: "(string \<times> string) list \<Rightarrow> bool" where
  "base_columns cols \<longleftrightarrow> cols = mat_base_columns \<or> cols = hist_base_columns"

lemma builds_create_table: "base_columns cols \<Longrightarrow> builds C (create_table t cols)"
  by (auto simp: builds_def create_table_def same_rows_def grows_def map_le_def typed_columns_def base_columns_def
      child_column_def split: option.splits)

text \<open>The type of the column of a child, from any child with the same id.\<close>

definition column_names_ok :: "Child_row list \<Rightarrow> Child_row \<Rightarrow> bool" where
  "column_names_ok C c \<longleftrightarrow> (\<forall>d \<in> set C. child_column d = child_column c \<longrightarrow> ch_kind d = ch_kind c)"

lemma column_names: "distinct (map ch_id C) \<Longrightarrow> \<forall>c \<in> set C. uuid (ch_id c) \<Longrightarrow> c \<in> set C \<Longrightarrow> column_names_ok C c"
  unfolding column_names_ok_def by (metis child_column_inj distinct_map inj_onD)

lemma builds_fact_column:
  "column_names_ok C c \<Longrightarrow> builds C (handle_create_fact_in_materialized_table t c)"
  unfolding handle_create_fact_in_materialized_table_def column_names_ok_def by (rule builds_add_column) auto

lemma dimension_def: "ch_kind c = dimensions \<Longrightarrow>
    handle_create_dimension_in_materialized_table t c = handle_create_fact_in_materialized_table t c"
  by (simp add: handle_create_dimension_in_materialized_table_def handle_create_fact_in_materialized_table_def value_column_def_def)

lemma fact_column_added:
  "c \<in> set C \<Longrightarrow> achieves (\<lambda>db. typed_columns (mm_tables db) C) (handle_create_fact_in_materialized_table t c)
     (\<lambda>_ db. has_column (mm_tables db) t c)"
  unfolding achieves_def handle_create_fact_in_materialized_table_def add_column_def has_column_def typed_columns_def
  by (fastforce split: option.splits if_splits)

lemma builds_achieves:
  "builds C m \<Longrightarrow> achieves (\<lambda>db. typed_columns (mm_tables db) C) m (\<lambda>_ db. typed_columns (mm_tables db) C)"
  "builds C m \<Longrightarrow> achieves (\<lambda>db. has_column (mm_tables db) t c) m (\<lambda>_ db. has_column (mm_tables db) t c)"
  "builds C m \<Longrightarrow> achieves (\<lambda>db. mm_tables db t \<noteq> None) m (\<lambda>_ db. mm_tables db t \<noteq> None)"
  unfolding builds_def achieves_def by (metis snd_conv has_column_grows table_grows)+

lemma achieves_atomic_metamodel: "achieves P m Q \<Longrightarrow> achieves P (atomic_metamodel m) Q"
  by (auto simp: achieves_def atomic_metamodel_def split: prod.splits sum.splits)

lemma fact_columns_added:
  assumes "c \<in> set C" and "column_names_ok C c"
  shows "achieves (\<lambda>db. typed_columns (mm_tables db) C) (handle_create_fact ds c)
    (\<lambda>_ db. (materialized_backend ds \<longrightarrow> has_column (mm_tables db) (row_mat_table ds) c) \<and>
      (dsr_backend ds = FLAT_HISTORY_BACKEND \<longrightarrow> has_column (mm_tables db) (row_hist_table ds) c))"
proof -
  note add = fact_column_added [OF assms(1)] and builds = builds_fact_column [OF assms(2)]
  have 1: "achieves (\<lambda>db. typed_columns (mm_tables db) C)
      (api_when (materialized_backend ds) (handle_create_fact_in_materialized_table (row_mat_table ds) c))
      (\<lambda>_ db. typed_columns (mm_tables db) C \<and> (materialized_backend ds \<longrightarrow> has_column (mm_tables db) (row_mat_table ds) c))"
    using add [of "row_mat_table ds"] builds_achieves(1) [OF builds [of "row_mat_table ds"]]
    by (auto simp: achieves_def api_when_def api_return_def)
  have 2: "achieves (\<lambda>db. typed_columns (mm_tables db) C \<and> (materialized_backend ds \<longrightarrow> has_column (mm_tables db) (row_mat_table ds) c))
      (api_when (dsr_backend ds = FLAT_HISTORY_BACKEND) (handle_create_fact_in_materialized_table (row_hist_table ds) c))
      (\<lambda>_ db. (materialized_backend ds \<longrightarrow> has_column (mm_tables db) (row_mat_table ds) c) \<and>
        (dsr_backend ds = FLAT_HISTORY_BACKEND \<longrightarrow> has_column (mm_tables db) (row_hist_table ds) c))"
    using add [of "row_hist_table ds"] builds_achieves(2) [OF builds [of "row_hist_table ds"], of "row_mat_table ds" c]
    by (auto simp: achieves_def api_when_def api_return_def)
  show ?thesis
    unfolding handle_create_fact_def by (intro achieves_atomic_metamodel achieves_bind [OF 1] 2)
qed

lemma builds_fact: "column_names_ok C c \<Longrightarrow> builds C (handle_create_fact ds c)"
  unfolding handle_create_fact_def by (intro build_rules builds_fact_column)

lemma create_dimension: "ch_kind c = dimensions \<Longrightarrow> handle_create_dimension ds c = handle_create_fact ds c"
  by (simp add: handle_create_dimension_def handle_create_fact_def dimension_def)

lemma builds_series_table:
  "builds C (handle_create_data_series_materialized ds)" "builds C (handle_create_data_series_materialized_flat_history ds)"
  "builds C (handle_create_data_series ds)"
  unfolding handle_create_data_series_def handle_create_data_series_materialized_def
    handle_create_data_series_materialized_flat_history_def
  by (intro build_rules builds_create_table; simp add: base_columns_def)+

lemma table_created: "achieves (\<lambda>_. True) (create_table t cols) (\<lambda>_ db. mm_tables db t \<noteq> None)"
  by (auto simp: achieves_def create_table_def)

lemma hist_created:
  "achieves (\<lambda>_. True) (handle_create_data_series_materialized_flat_history ds) (\<lambda>_ db. mm_tables db (row_hist_table ds) \<noteq> None)"
  unfolding handle_create_data_series_materialized_flat_history_def
  by (intro achieves_bind [OF table_created] builds_achieves(3) builds_require)

lemma tables_created:
  "achieves (\<lambda>_. True) (handle_create_data_series ds)
     (\<lambda>_ db. (materialized_backend ds \<longrightarrow> mm_tables db (row_mat_table ds) \<noteq> None) \<and>
       (dsr_backend ds = FLAT_HISTORY_BACKEND \<longrightarrow> mm_tables db (row_hist_table ds) \<noteq> None))"
proof -
  have 1: "achieves (\<lambda>_. True) (api_when (materialized_backend ds) (handle_create_data_series_materialized ds))
      (\<lambda>_ db. materialized_backend ds \<longrightarrow> mm_tables db (row_mat_table ds) \<noteq> None)"
    using table_created [of "row_mat_table ds" mat_base_columns]
    by (auto simp: achieves_def api_when_def api_return_def handle_create_data_series_materialized_def)
  have 2: "achieves (\<lambda>db. materialized_backend ds \<longrightarrow> mm_tables db (row_mat_table ds) \<noteq> None)
      (api_when (dsr_backend ds = FLAT_HISTORY_BACKEND) (handle_create_data_series_materialized_flat_history ds))
      (\<lambda>_ db. (materialized_backend ds \<longrightarrow> mm_tables db (row_mat_table ds) \<noteq> None) \<and>
       (dsr_backend ds = FLAT_HISTORY_BACKEND \<longrightarrow> mm_tables db (row_hist_table ds) \<noteq> None))"
    using hist_created [of ds] builds_achieves(3) [OF builds_series_table(2), of "row_mat_table ds" ds]
    by (auto simp: achieves_def api_when_def api_return_def)
  show ?thesis
    unfolding handle_create_data_series_def by (intro achieves_atomic_metamodel achieves_bind [OF 1] 2)
qed

section \<open>Requests\<close>

definition writing :: "string \<Rightarrow> bool" where
  "writing verb \<longleftrightarrow> verb \<in> {''POST'', ''PUT'', ''PATCH'', ''DELETE''}"

lemma request_series:
  assumes "series_of_request cx key action verb db = Inr ds"
  shows "\<exists>t. cx_tenant cx = Some t \<and> dsr_tenant ds = t \<and> live_series (mm_series db) (dsr_id ds) ds \<and>
    (writing verb \<longrightarrow> \<not> dsr_locked ds)"
proof -
  from assms have found: "get_data_series_object (cx_guardian cx) (cx_maintenance cx) (mm_auth db) (mm_series db) (cx_tenant cx)
      (cx_user cx) key action (Some verb) = Inr (Some ds)"
    and "cx_tenant cx \<noteq> None"
    by (auto simp: series_of_request_def Let_def rbind_Inr_iff metamodel_permissions_def view_permissions_def
        split: option.splits if_splits)
  then obtain t i where t: "cx_tenant cx = Some t"
    and ds: "find (\<lambda>ds. dsr_id ds = i) (DataSeries_objects (Some t) (mm_series db)) = Some ds"
    and open1: "writing verb \<longrightarrow> \<not> dsr_locked ds"
    unfolding access_decision [THEN conjunct1] writing_def by (auto split: sum.splits option.splits)
  from find_SomeD [OF ds] t open1 show ?thesis by (auto simp: DataSeries_objects_def live_series_def)
qed

lemma ok_asks:
  "metamodel_ok T db \<Longrightarrow> (\<And>x. f db = Inr x \<Longrightarrow> metamodel_ok T (snd (g x db))) \<Longrightarrow>
     metamodel_ok T (snd (api_bind (api_asks f) g db))"
  by (simp add: api_bind_def api_asks_def split: sum.split)

lemma ok_lift:
  "metamodel_ok T db \<Longrightarrow> (\<And>x. r = Inr x \<Longrightarrow> metamodel_ok T (snd (g x db))) \<Longrightarrow>
     metamodel_ok T (snd (api_bind (api_lift r) g db))"
  by (simp add: api_bind_def api_lift_def split: sum.split)

lemma ok_modify: "metamodel_ok T (f db) \<Longrightarrow> metamodel_ok T (snd (api_modify f db))"
  by (simp add: api_modify_def)

lemmas ok_runs = ok_asks ok_lift

lemma metamodel_ok_undo [simp]: "metamodel_ok T (undo_metamodel db db1) = metamodel_ok T db"
  by (simp add: metamodel_ok_def undo_metamodel_def)

lemma atomic_ok:
  assumes "metamodel_ok T db" and "\<And>x db1. m db = (Inr x, db1) \<Longrightarrow> metamodel_ok T db1"
  shows "metamodel_ok T (snd (atomic_metamodel m db))"
  using assms by (auto simp: atomic_metamodel_def split: prod.splits sum.splits)

section \<open>Creating a fact or dimension\<close>

lemma live_child_append: "live_child (C @ [c]) i d \<longleftrightarrow> live_child C i d \<or> d = c \<and> ch_data_series c = i \<and> ch_rel_deleted_at c = None"
  by (auto simp: live_child_def)

lemma live_series_unique: "ids_ok S C I \<Longrightarrow> live_series S i r \<Longrightarrow> live_series S i q \<Longrightarrow> r = q"
  by (auto simp: ids_ok_def live_series_def intro: same_key)

lemma tables_ok_add:
  assumes ids: "ids_ok S C I" and ok: "tables_ok T S C" and T1: "grows T T1" "typed_columns T1 (C @ [c])"
    and ds: "live_series S (ch_data_series c) ds"
    and columns: "materialized_backend ds \<Longrightarrow> has_column T1 (row_mat_table ds) c"
      "dsr_backend ds = FLAT_HISTORY_BACKEND \<Longrightarrow> has_column T1 (row_hist_table ds) c"
  shows "tables_ok T1 S (C @ [c])"
proof -
  have "table_of T1 (C @ [c]) i t" if "table_of T C i t" and "ch_data_series c = i \<Longrightarrow> has_column T1 t c" for i t
    using table_of_grows [OF that(1) T1(1)] that(2) by (auto simp: table_of_def live_child_append)
  with ok T1(2) columns live_series_unique [OF ids ds] show ?thesis
    unfolding tables_ok_def by blast
qed

lemma external_ids_ok_add:
  assumes ok: "external_ids_ok C"
    and new: "\<And>d. live_child C (ch_data_series c) d \<Longrightarrow> ch_kind d \<noteq> file_facts \<or> ch_kind c = file_facts \<Longrightarrow>
      ch_external_id d \<noteq> ch_external_id c"
  shows "external_ids_ok (C @ [c])"
  unfolding external_ids_ok_def live_child_append
proof (intro allI impI)
  fix i a b
  assume "live_child C i a \<or> a = c \<and> ch_data_series c = i \<and> ch_rel_deleted_at c = None"
    and "live_child C i b \<or> b = c \<and> ch_data_series c = i \<and> ch_rel_deleted_at c = None"
    and "ch_external_id a = ch_external_id b" and "ch_id a \<noteq> ch_id b"
  then show "ch_kind a \<noteq> ch_kind b \<and> (ch_kind a = file_facts \<or> ch_kind b = file_facts)"
    using ok new unfolding external_ids_ok_def by metis
qed

lemma in_relation_set:
  "c \<in> set (relation_set db i kind) \<longleftrightarrow> live_child (mm_children db) i c \<and> ch_kind c = kind"
  by (auto simp: relation_set_def live_child_def)

lemma new_external_id_unused:
  assumes "validate_new_external_id db i s = Inr u" and "live_child (mm_children db) i d" and "ch_kind d \<noteq> file_facts"
  shows "ch_external_id d \<noteq> s"
proof -
  have "ch_kind d \<in> set validated_kinds" using assms(3) by (cases "ch_kind d") (auto simp: validated_kinds_def)
  with assms(1,2) show ?thesis
    by (auto simp: validate_new_external_id_def list_ex_iff in_relation_set split: if_splits)
qed

text \<open>An id no row has and no name of the database contains; what the generator of UUIDs gives.\<close>

definition fresh_uuid :: "nat \<Rightarrow> 's metamodel \<Rightarrow> bool" where
  "fresh_uuid i db \<longleftrightarrow> uuid i \<and> i \<notin> dsr_id ` set (mm_series db) \<and> i \<notin> ch_id ` set (mm_children db) \<and>
     i \<notin> ix_id ` set (mm_indexes db) \<and>
     (\<forall>t columns s. mm_tables db t = Some columns \<longrightarrow> columns (materialized_column_name (uuid_str i) s) = None)"

lemma typed_with_fresh:
  assumes "typed_columns (mm_tables db) C" and "fresh_uuid (ch_id c) db"
  shows "typed_columns (mm_tables db) (C @ [c])"
  using assms by (auto simp: typed_columns_def fresh_uuid_def child_column_def)

lemma child_added:
  assumes ok: "metamodel_ok T db" and ds: "live_series (mm_series db) (ch_data_series c) ds"
    and c: "fresh_uuid (ch_id c) db" "ch_deleted_at c = None" "ch_rel_deleted_at c = None"
    and used: "validate_new_external_id db (ch_data_series c) (ch_external_id c) = Inr ()"
    and reference: "ch_kind c = dimensions \<Longrightarrow>
      \<exists>j q. ch_reference c = Some j \<and> live_series (mm_series db) j q \<and> dsr_tenant q = dsr_tenant ds"
    and run: "api_bind (insert_child c) (\<lambda>_. handle_create_fact ds c) db = (Inr x, db1)"
  shows "metamodel_ok T db1"
proof -
  let ?C = "mm_children db @ [c]"
  from ok have ids: "ids_ok (mm_series db) (mm_children db) (mm_indexes db)" by (simp add: metamodel_ok_def)
  have distinct: "\<not> list_ex (\<lambda>d. ch_external_id d = ch_external_id c) (relation_set db (ch_data_series c) (ch_kind c))"
    and run1: "handle_create_fact ds c (db\<lparr>mm_children := ?C\<rparr>) = (Inr x, db1)"
    using run by (auto simp: api_bind_def insert_child_def split: if_splits)
  have ids1: "ids_ok (mm_series db) ?C (mm_indexes db)"
    using ids c by (auto simp: ids_ok_def fresh_uuid_def)
  then have names: "column_names_ok ?C c" by (intro column_names) (auto simp: ids_ok_def)
  have rows: "same_rows (db\<lparr>mm_children := ?C\<rparr>) db1" and grown: "grows (mm_tables db) (mm_tables db1)"
    and "typed_columns (mm_tables db) ?C \<longrightarrow> typed_columns (mm_tables db1) ?C"
    using builds_fact [OF names, of ds] run1 unfolding builds_def by (metis snd_conv metamodel.simps metamodel.surjective metamodel.update_convs)+
  moreover have typed: "typed_columns (mm_tables db) ?C"
    using ok c(1) by (intro typed_with_fresh) (auto simp: metamodel_ok_def tables_ok_def)
  ultimately have typed1: "typed_columns (mm_tables db1) ?C" by simp
  have columns: "materialized_backend ds \<Longrightarrow> has_column (mm_tables db1) (row_mat_table ds) c"
    "dsr_backend ds = FLAT_HISTORY_BACKEND \<Longrightarrow> has_column (mm_tables db1) (row_hist_table ds) c"
    using achievesD [OF fact_columns_added [OF _ names, of ds] run1] typed by auto
  have "tables_ok (mm_tables db1) (mm_series db) ?C"
    using ok by (intro tables_ok_add [OF ids _ grown typed1 ds]) (auto simp: metamodel_ok_def columns)
  moreover have "external_ids_ok ?C"
  proof (rule external_ids_ok_add)
    show "external_ids_ok (mm_children db)" using ok by (simp add: metamodel_ok_def)
    fix d
    assume d: "live_child (mm_children db) (ch_data_series c) d" "ch_kind d \<noteq> file_facts \<or> ch_kind c = file_facts"
    show "ch_external_id d \<noteq> ch_external_id c"
    proof (cases "ch_kind d = file_facts")
      case True
      with d distinct show ?thesis by (auto simp: list_ex_iff in_relation_set)
    next
      case False
      from new_external_id_unused [OF used d(1) False] show ?thesis .
    qed
  qed
  moreover have "references_ok (mm_series db) ?C (mm_indexes db)"
    using ok ds reference unfolding metamodel_ok_def references_ok_def live_child_append by blast
  ultimately show ?thesis
    using ok ids1 rows by (simp add: metamodel_ok_def same_rows_def)
qed

lemma reference_validated:
  assumes "validate_reference cx db kind reference = Inr ()" and "kind = dimensions" and "cx_tenant cx = Some t"
  shows "\<exists>j q. reference = Some j \<and> live_series (mm_series db) j q \<and> dsr_tenant q = t"
  using assms by (auto simp: validate_reference_def DataSeries_objects_def list_ex_iff live_series_def split: option.splits if_splits)

lemma create_structure_element_keeps:
  assumes ok: "metamodel_ok T db" and fresh: "fresh_uuid new_id db"
  shows "metamodel_ok T (snd (create_structure_element cx key kind new_id external_id name optional reference db))"
proof -
  have "metamodel_ok T (snd (atomic_metamodel (api_bind (insert_child c) (\<lambda>_.
      if kind = dimensions then handle_create_dimension ds c else handle_create_fact ds c)) db))"
    if ds: "series_of_request cx key ''structure_element'' ''POST'' db = Inr ds"
      and used: "validate_new_external_id db (dsr_id ds) external_id = Inr u"
      and reference: "validate_reference cx db kind reference = Inr v"
      and c: "c = \<lparr>ch_id = new_id, ch_kind = kind, ch_data_series = dsr_id ds, ch_external_id = external_id, ch_name = name,
               ch_optional = optional, ch_reference = (if kind = dimensions then reference else None),
               ch_deleted_at = None, ch_rel_deleted_at = None\<rparr>" for ds u v c
  proof (rule atomic_ok [OF ok])
    from request_series [OF ds] obtain t where t: "cx_tenant cx = Some t" "dsr_tenant ds = t"
      "live_series (mm_series db) (dsr_id ds) ds" by blast
    have create: "(if kind = dimensions then handle_create_dimension ds c else handle_create_fact ds c) = handle_create_fact ds c"
      using create_dimension [of c ds] c by auto
    fix x db1
    assume "api_bind (insert_child c) (\<lambda>_. if kind = dimensions then handle_create_dimension ds c else handle_create_fact ds c) db =
      (Inr x, db1)"
    then have run: "api_bind (insert_child c) (\<lambda>_. handle_create_fact ds c) db = (Inr x, db1)" unfolding create .
    show "metamodel_ok T db1"
      using ok _ _ _ _ _ _ run
      by (rule child_added) (use t c used fresh reference_validated [OF _ _ t(1)] reference in auto)
  qed
  then show ?thesis
    unfolding create_structure_element_def Let_def by (intro ok_runs ok) auto
qed

section \<open>Changing and deleting facts and dimensions\<close>

definition same_child :: "Child_row \<Rightarrow> Child_row \<Rightarrow> bool" where
  "same_child c d \<longleftrightarrow> ch_id d = ch_id c \<and> ch_kind d = ch_kind c \<and> ch_data_series d = ch_data_series c \<and>
     ch_external_id d = ch_external_id c \<and> ch_reference d = ch_reference c \<and>
     (ch_rel_deleted_at d = None \<longrightarrow> ch_rel_deleted_at c = None) \<and>
     (ch_deleted_at d \<noteq> None \<longrightarrow> ch_rel_deleted_at d \<noteq> None)"

lemma same_child_column: "same_child c d \<Longrightarrow> child_column d = child_column c"
  "same_child c d \<Longrightarrow> has_column T t d = has_column T t c"
  by (simp_all add: same_child_def child_column_def has_column_def)

lemma live_child_mapE:
  assumes "live_child (map f C) i d" and f: "\<And>c. c \<in> set C \<Longrightarrow> same_child c (f c)"
  shows "\<exists>c. live_child C i c \<and> same_child c d"
proof -
  from assms(1) obtain c where c: "c \<in> set C" "d = f c" and d: "ch_data_series d = i" "ch_rel_deleted_at d = None"
    by (auto simp: live_child_def)
  with f [OF c(1)] show ?thesis by (auto simp: same_child_def live_child_def)
qed

lemma children_changed:
  assumes ok: "metamodel_ok T db" and f: "\<And>c. c \<in> set (mm_children db) \<Longrightarrow> same_child c (f c)"
    and targets: "\<And>x t c. x \<in> set (mm_indexes db) \<Longrightarrow> ix_rel_deleted_at x = None \<Longrightarrow> t \<in> set (ix_targets x) \<Longrightarrow>
      live_child (mm_children db) (ix_data_series x) c \<Longrightarrow> ch_id c = fst t \<Longrightarrow> ch_rel_deleted_at (f c) = None"
  shows "metamodel_ok T (db\<lparr>mm_children := map f (mm_children db)\<rparr>)"
proof -
  let ?C = "mm_children db"
  have m: "map (ch_id \<circ> f) ?C = map ch_id ?C" using f by (simp add: same_child_def)
  have ids: "ids_ok (mm_series db) (map f ?C) (mm_indexes db)"
    using ok f unfolding metamodel_ok_def ids_ok_def map_map m by (auto simp: same_child_def)
  have "references_ok (mm_series db) (map f ?C) (mm_indexes db)"
    unfolding references_ok_def
  proof (intro conjI allI impI ballI)
    fix i d
    assume "live_child (map f ?C) i d"
    from live_child_mapE [OF this f] obtain c where c: "live_child ?C i c" "same_child c d" by blast
    then show "\<exists>r. live_series (mm_series db) i r \<and> (ch_kind d = dimensions \<longrightarrow>
        (\<exists>j q. ch_reference d = Some j \<and> live_series (mm_series db) j q \<and> dsr_tenant q = dsr_tenant r))"
      using ok unfolding metamodel_ok_def references_ok_def same_child_def by metis
  next
    fix x t
    assume x: "x \<in> set (mm_indexes db)" "ix_rel_deleted_at x = None" "t \<in> set (ix_targets x)"
    then obtain c where c: "live_child ?C (ix_data_series x) c" "ch_id c = fst t" "ch_kind c = snd t"
      using ok unfolding metamodel_ok_def references_ok_def by blast
    have "ch_rel_deleted_at (f c) = None" using targets [OF x c(1,2)] .
    moreover have "same_child c (f c)" using f c(1) by (simp add: live_child_def)
    ultimately have "live_child (map f ?C) (ix_data_series x) (f c)" and "same_child c (f c)"
      using c(1) by (auto simp: live_child_def same_child_def)
    then show "\<exists>c. live_child (map f ?C) (ix_data_series x) c \<and> ch_id c = fst t \<and> ch_kind c = snd t"
      using c by (auto simp: same_child_def)
  qed
  moreover have "external_ids_ok (map f ?C)"
    unfolding external_ids_ok_def
  proof (intro allI impI)
    fix i d e
    assume d: "live_child (map f ?C) i d" and e: "live_child (map f ?C) i e"
      and same: "ch_external_id d = ch_external_id e" "ch_id d \<noteq> ch_id e"
    from live_child_mapE [OF d f] obtain a where "live_child ?C i a" "same_child a d" by blast
    moreover from live_child_mapE [OF e f] obtain b where "live_child ?C i b" "same_child b e" by blast
    ultimately show "ch_kind d \<noteq> ch_kind e \<and> (ch_kind d = file_facts \<or> ch_kind e = file_facts)"
      using ok same unfolding metamodel_ok_def external_ids_ok_def same_child_def by metis
  qed
  moreover have "tables_ok (mm_tables db) (mm_series db) (map f ?C)"
  proof -
    have "table_of (mm_tables db) (map f ?C) i t" if "table_of (mm_tables db) ?C i t" for i t
      using that live_child_mapE [OF _ f] same_child_column(2) unfolding table_of_def by metis
    moreover have "typed_columns (mm_tables db) (map f ?C)"
      unfolding typed_columns_def
    proof (intro allI impI ballI)
      fix t columns d
      assume t: "mm_tables db t = Some columns" and "d \<in> set (map f ?C)"
      then obtain c where c: "c \<in> set ?C" "same_child c d" using f by auto
      with ok t have "columns (child_column c) \<in> {None, Some (value_column_def (ch_kind c))}"
        unfolding metamodel_ok_def tables_ok_def typed_columns_def by blast
      then show "columns (child_column d) \<in> {None, Some (value_column_def (ch_kind d))}"
        using c(2) by (simp add: same_child_column(1)) (simp add: same_child_def)
    qed
    ultimately show ?thesis using ok unfolding metamodel_ok_def tables_ok_def by blast
  qed
  ultimately show ?thesis using ok ids by (simp add: metamodel_ok_def)
qed

lemma same_child_refl: "metamodel_ok T db \<Longrightarrow> c \<in> set (mm_children db) \<Longrightarrow> same_child c c"
  by (auto simp: same_child_def metamodel_ok_def ids_ok_def)

lemma update_structure_element_keeps:
  assumes ok: "metamodel_ok T db"
  shows "metamodel_ok T (snd (update_structure_element cx key kind partial_update pk external_id name optional reference db))"
  unfolding update_structure_element_def
proof (intro ok_runs ok ok_modify children_changed)
  fix n p c d
  assume "c \<in> set (mm_children db)"
  from same_child_refl [OF ok this]
  show "same_child c (if ch_id c = ch_id d then c\<lparr>ch_name := n, ch_optional := p\<rparr> else c)" by (simp add: same_child_def)
qed (auto simp: live_child_def)

lemma destroy_structure_element_keeps:
  assumes ok: "metamodel_ok T db"
  shows "metamodel_ok T (snd (destroy_structure_element cx key kind pk now db))"
  unfolding destroy_structure_element_def
proof (intro ok_runs ok ok_modify children_changed)
  fix c d
  assume "c \<in> set (mm_children db)"
  from same_child_refl [OF ok this]
  show "same_child c (if ch_id c = ch_id d then sdel_child now c else c)"
    by (auto simp: same_child_def sdel_child_def split: option.splits)
next
  fix d u x t c
  assume "(if get_indexes_by_target_id db (ch_id d) \<noteq> [] then
      Inl (ValidationError (PStr ''This object may not be deleted as long as an index is referencing it.'')) else Inr ()) =
      Inr u"
    and x: "x \<in> set (mm_indexes db)" "ix_rel_deleted_at x = None" "t \<in> set (ix_targets x)" "ch_id c = fst t"
    and c: "live_child (mm_children db) (ix_data_series x) c"
  then have "\<not> (ix_deleted_at x = None \<and> ch_id d \<in> fst ` set (ix_targets x))"
    by (auto simp: get_indexes_by_target_id_def filter_empty_conv split: if_splits)
  moreover have "ix_deleted_at x = None" using ok x by (auto simp: metamodel_ok_def ids_ok_def)
  moreover have "fst t \<in> fst ` set (ix_targets x)" using x(3) by simp
  ultimately have "ch_id c \<noteq> ch_id d" using x(4) by metis
  then show "ch_rel_deleted_at (if ch_id c = ch_id d then sdel_child now c else c) = None"
    using c by (simp add: live_child_def)
qed

section \<open>Indexes\<close>

lemma indexable_child:
  "get_indexable_child_or_fail db i kind p = Inr c \<Longrightarrow> live_child (mm_children db) i c \<and> ch_kind c = kind \<and> p c"
proof -
  assume "get_indexable_child_or_fail db i kind p = Inr c"
  then have "filter p (relation_set db i kind) = [c]"
    by (simp add: get_indexable_child_or_fail_def split: list.splits)
  then have "c \<in> set (filter p (relation_set db i kind))" by simp
  then show ?thesis by (simp add: in_relation_set)
qed

lemma target_validated:
  "validate_target db i t = Inr target \<Longrightarrow> \<exists>c. live_child (mm_children db) i c \<and> ch_id c = fst target \<and> ch_kind c = snd target"
  by (auto simp: validate_target_def Let_def rbind_Inr_iff split: option.splits if_splits dest!: indexable_child)

lemma indexes_replaced:
  assumes ok: "metamodel_ok T db" and ids: "ids_ok (mm_series db) (mm_children db) I"
    and targets: "\<And>x t. x \<in> set I \<Longrightarrow> ix_rel_deleted_at x = None \<Longrightarrow> t \<in> set (ix_targets x) \<Longrightarrow>
      \<exists>c. live_child (mm_children db) (ix_data_series x) c \<and> ch_id c = fst t \<and> ch_kind c = snd t"
  shows "metamodel_ok T (db\<lparr>mm_indexes := I\<rparr>)"
proof -
  have "references_ok (mm_series db) (mm_children db) I"
    using ok targets unfolding metamodel_ok_def references_ok_def by blast
  with ok ids show ?thesis by (simp add: metamodel_ok_def)
qed

lemma index_targets_live:
  "metamodel_ok T db \<Longrightarrow> x \<in> set (mm_indexes db) \<Longrightarrow> ix_rel_deleted_at x = None \<Longrightarrow> t \<in> set (ix_targets x) \<Longrightarrow>
     \<exists>c. live_child (mm_children db) (ix_data_series x) c \<and> ch_id c = fst t \<and> ch_kind c = snd t"
  unfolding metamodel_ok_def references_ok_def by blast

lemma create_user_defined_index_keeps:
  assumes ok: "metamodel_ok T db" and fresh: "fresh_uuid new_id db"
  shows "metamodel_ok T (snd (create_user_defined_index cx key new_id external_id name given db))"
  unfolding create_user_defined_index_def
proof (intro ok_runs ok atomic_ok)
  fix ds targets u db1
  assume targets: "rmap (validate_target db (dsr_id ds)) given = Inr targets"
  define x where "x = \<lparr>ix_id = new_id, ix_data_series = dsr_id ds, ix_external_id = external_id, ix_name = name,
      ix_targets = targets, ix_deleted_at = None, ix_rel_deleted_at = None\<rparr>"
  assume "api_bind (api_modify (\<lambda>db. db\<lparr>mm_indexes := mm_indexes db @
          [\<lparr>ix_id = new_id, ix_data_series = dsr_id ds, ix_external_id = external_id, ix_name = name,
            ix_targets = targets, ix_deleted_at = None, ix_rel_deleted_at = None\<rparr>]\<rparr>))
      (\<lambda>_. handle_create_user_defined_index
        \<lparr>im_data_series = dsr_id ds, im_external_id = dsr_external_id ds, im_targets = targets,
         im_backend = dsr_backend ds, im_index = new_id\<rparr>) db = (Inr u, db1)"
  then have "\<exists>messages. db1 = db\<lparr>mm_indexes := mm_indexes db @ [x], mm_index_messages := messages\<rparr>"
    by (auto simp: api_bind_def api_modify_def handle_create_user_defined_index_def x_def)
  then obtain messages where db1: "db1 = (db\<lparr>mm_indexes := mm_indexes db @ [x]\<rparr>)\<lparr>mm_index_messages := messages\<rparr>" by blast
  have "metamodel_ok T (db\<lparr>mm_indexes := mm_indexes db @ [x]\<rparr>)"
  proof (rule indexes_replaced [OF ok])
    show "ids_ok (mm_series db) (mm_children db) (mm_indexes db @ [x])"
      using ok fresh by (auto simp: metamodel_ok_def ids_ok_def fresh_uuid_def x_def)
    fix y t
    assume y: "y \<in> set (mm_indexes db @ [x])" "ix_rel_deleted_at y = None" "t \<in> set (ix_targets y)"
    show "\<exists>c. live_child (mm_children db) (ix_data_series y) c \<and> ch_id c = fst t \<and> ch_kind c = snd t"
    proof (cases "y \<in> set (mm_indexes db)")
      case True
      from index_targets_live [OF ok this y(2,3)] show ?thesis .
    next
      case False
      with y have "y = x" by simp
      with y rmap_members [OF targets, of t] obtain g where "validate_target db (dsr_id ds) g = Inr t" by (auto simp: x_def)
      from target_validated [OF this] \<open>y = x\<close> show ?thesis by (simp add: x_def)
    qed
  qed
  then show "metamodel_ok T db1" by (simp add: db1 metamodel_ok_def)
qed

definition same_index :: "Index_row \<Rightarrow> Index_row \<Rightarrow> bool" where
  "same_index x y \<longleftrightarrow> ix_id y = ix_id x \<and> ix_data_series y = ix_data_series x \<and> ix_targets y = ix_targets x \<and>
     (ix_rel_deleted_at y = None \<longrightarrow> ix_rel_deleted_at x = None) \<and>
     (ix_deleted_at y \<noteq> None \<longrightarrow> ix_rel_deleted_at y \<noteq> None)"

lemma same_index_refl: "metamodel_ok T db \<Longrightarrow> x \<in> set (mm_indexes db) \<Longrightarrow> same_index x x"
  by (auto simp: same_index_def metamodel_ok_def ids_ok_def)

lemma indexes_changed:
  assumes ok: "metamodel_ok T db" and f: "\<And>x. x \<in> set (mm_indexes db) \<Longrightarrow> same_index x (f x)"
  shows "metamodel_ok T (db\<lparr>mm_indexes := map f (mm_indexes db)\<rparr>)"
proof (rule indexes_replaced [OF ok])
  have m: "map (ix_id \<circ> f) (mm_indexes db) = map ix_id (mm_indexes db)" using f by (simp add: same_index_def)
  show "ids_ok (mm_series db) (mm_children db) (map f (mm_indexes db))"
    using ok f unfolding metamodel_ok_def ids_ok_def map_map m by (auto simp: same_index_def)
  fix y t
  assume "y \<in> set (map f (mm_indexes db))" and y: "ix_rel_deleted_at y = None" "t \<in> set (ix_targets y)"
  then obtain x where x: "x \<in> set (mm_indexes db)" "y = f x" by auto
  with f have "same_index x y" by simp
  then show "\<exists>c. live_child (mm_children db) (ix_data_series y) c \<and> ch_id c = fst t \<and> ch_kind c = snd t"
    using index_targets_live [OF ok x(1), of t] y by (simp add: same_index_def)
qed

lemma destroy_user_defined_index_keeps:
  assumes ok: "metamodel_ok T db"
  shows "metamodel_ok T (snd (destroy_user_defined_index cx key pk now db))"
  unfolding destroy_user_defined_index_def
proof (intro ok_runs ok ok_modify indexes_changed)
  fix x index
  assume "x \<in> set (mm_indexes db)"
  from same_index_refl [OF ok this] show "same_index x (if ix_id x = ix_id index then sdel_index now x else x)"
    by (auto simp: same_index_def sdel_index_def split: option.splits)
qed

text \<open>What only builds tables keeps everything.\<close>

lemma same_rows_ok:
  assumes ok: "metamodel_ok T db" and rows: "same_rows db db1" and grown: "grows (mm_tables db) (mm_tables db1)"
    and typed: "typed_columns (mm_tables db1) (mm_children db)"
  shows "metamodel_ok T db1"
proof -
  have "tables_ok (mm_tables db1) (mm_series db) (mm_children db)"
    using ok typed table_of_grows [OF _ grown] unfolding metamodel_ok_def tables_ok_def by blast
  with ok rows show ?thesis by (simp add: metamodel_ok_def same_rows_def)
qed

lemma builds_keeps:
  fixes m :: "('s, 'a) metamodel_run"
  assumes m: "\<And>C. builds C m"
  shows "keeps (metamodel_ok T) m"
  unfolding keeps_def
proof (intro allI impI)
  fix db :: "'s metamodel"
  assume ok: "metamodel_ok T db"
  then have "typed_columns (mm_tables db) (mm_children db)" by (simp add: metamodel_ok_def tables_ok_def)
  with m [of "mm_children db"] ok show "metamodel_ok T (snd (m db))"
    unfolding builds_def by (blast intro: same_rows_ok)
qed

lemma builds_modify: "(\<And>db. same_rows db (f db) \<and> mm_tables (f db) = mm_tables db) \<Longrightarrow> builds C (api_modify f)"
  by (simp add: builds_def api_modify_def)

lemma builds_user_index:
  "builds C (handle_create_user_defined_index_on_materialized_or_flat_table t type i rel cs)"
  unfolding handle_create_user_defined_index_on_materialized_or_flat_table_def
  by (intro build_rules builds_modify) (simp add: same_rows_def)

lemma builds_run_index: "builds C run_index_message"
  unfolding run_index_message_def handle_create_user_defined_index_actual_def
  by (intro build_rules builds_user_index) (auto split: list.splits intro!: build_rules builds_user_index builds_modify simp: same_rows_def)

lemma builds_drop_registered: "builds C (drop_registered_indexes p n)"
  unfolding drop_registered_indexes_def drop_registered_index_def
  by (intro build_rules builds_modify) (simp add: same_rows_def)

lemma builds_message: "builds C (handle_create_user_defined_index m)"
  unfolding handle_create_user_defined_index_def by (intro builds_modify) (simp add: same_rows_def)

section \<open>Creating and updating data series\<close>

lemma live_series_append:
  "live_series (S @ [r]) i q \<longleftrightarrow> live_series S i q \<or> q = r \<and> dsr_id r = i \<and> dsr_deleted_at r = None"
  by (auto simp: live_series_def)

lemma live_child_series:
  "references_ok S C I \<Longrightarrow> live_child C i c \<Longrightarrow> \<exists>r. live_series S i r"
  unfolding references_ok_def by blast

lemma builds_assign: "builds C (on_auth m)"
  by (auto simp: builds_def on_auth_def same_rows_def split: prod.split)

lemma locks_ok_add:
  assumes ok: "locks_ok T S" and ids: "ids_ok S C I" and r: "uuid (dsr_id r)" "dsr_id r \<notin> dsr_id ` set S" "\<not> dsr_locked r"
  shows "locks_ok T (S @ [r])"
proof -
  have "uuid_str (dsr_id r) \<notin> mt_data_series ` set T"
  proof
    assume "uuid_str (dsr_id r) \<in> mt_data_series ` set T"
    then obtain q where "q \<in> set S" "uuid_str (dsr_id r) = uuid_str (dsr_id q)" using ok unfolding locks_ok_def by blast
    then have "dsr_id r = dsr_id q" using ids r(1) by (intro uuid_str_inj) (auto simp: ids_ok_def)
    with \<open>q \<in> set S\<close> r(2) show False by blast
  qed
  then have "locked_right T (dsr_id r) r" using r(3) by (simp add: locked_right_def)
  with ok show ?thesis unfolding locks_ok_def live_series_append by auto
qed

lemma create_data_series_keeps:
  assumes ok: "metamodel_ok T db" and fresh: "fresh_uuid new_id db"
  shows "metamodel_ok T (snd (create_data_series cx new_id external_id backend db))"
  unfolding create_data_series_def Let_def
proof (intro ok_runs ok atomic_ok)
  fix x db1
  let ?backend = "case backend of None \<Rightarrow> default_backend | Some b \<Rightarrow> b"
  let ?assign = "api_when (\<not> us_is_anonymous (cx_user cx)) (api_for (\<lambda>action. api_for (\<lambda>http_verb. on_auth
      (ga_assign_perm (cx_guardian cx) (get_permission_string_for_action_and_http_verb action http_verb)
        (As_user (us_id (cx_user cx))) (Some new_id))) PERMISSION_HTTP_VERBS) ALL_AVAILABLE_PERMISSIONS_DATA_SERIES)"
  define ds where "ds = \<lparr>dsr_id = new_id, dsr_external_id = external_id, dsr_tenant = (case cx_tenant cx of None \<Rightarrow> 0 | Some t \<Rightarrow> t),
      dsr_deleted_at = None, dsr_backend = ?backend, dsr_locked = False\<rparr>"
  let ?S = "mm_series db @ [ds]" and ?db = "db\<lparr>mm_series := mm_series db @ [ds]\<rparr>"
  assume "api_bind (insert_series \<lparr>dsr_id = new_id, dsr_external_id = external_id,
      dsr_tenant = (case cx_tenant cx of None \<Rightarrow> 0 | Some t \<Rightarrow> t), dsr_deleted_at = None, dsr_backend = ?backend, dsr_locked = False\<rparr>)
    (\<lambda>_. api_bind ?assign (\<lambda>_. handle_create_data_series \<lparr>dsr_id = new_id, dsr_external_id = external_id,
      dsr_tenant = (case cx_tenant cx of None \<Rightarrow> 0 | Some t \<Rightarrow> t), dsr_deleted_at = None, dsr_backend = ?backend, dsr_locked = False\<rparr>)) db =
    (Inr x, db1)"
  then have run: "api_bind ?assign (\<lambda>_. handle_create_data_series ds) ?db = (Inr x, db1)"
    unfolding ds_def [symmetric] by (auto simp: api_bind_def insert_series_def split: if_splits)
  have "builds C (api_bind ?assign (\<lambda>_. handle_create_data_series ds))" for C
    by (intro build_rules builds_assign builds_series_table)
  then have db1: "same_rows ?db db1" "grows (mm_tables ?db) (mm_tables db1)"
    "typed_columns (mm_tables ?db) (mm_children db) \<Longrightarrow> typed_columns (mm_tables db1) (mm_children db)"
    using run unfolding builds_def by (metis snd_conv)+
  have "achieves (\<lambda>_. True) (api_bind ?assign (\<lambda>_. handle_create_data_series ds))
      (\<lambda>_ db. (materialized_backend ds \<longrightarrow> mm_tables db (row_mat_table ds) \<noteq> None) \<and>
       (dsr_backend ds = FLAT_HISTORY_BACKEND \<longrightarrow> mm_tables db (row_hist_table ds) \<noteq> None))"
    by (rule achieves_bind [OF _ tables_created]) (simp add: achieves_def)
  from achievesD [OF this run] have tables: "materialized_backend ds \<Longrightarrow> mm_tables db1 (row_mat_table ds) \<noteq> None"
    "dsr_backend ds = FLAT_HISTORY_BACKEND \<Longrightarrow> mm_tables db1 (row_hist_table ds) \<noteq> None" by simp_all
  have id: "dsr_id ds = new_id" "dsr_deleted_at ds = None" by (simp_all add: ds_def)
  have ids: "ids_ok ?S (mm_children db) (mm_indexes db)"
    using ok fresh by (auto simp: metamodel_ok_def ids_ok_def fresh_uuid_def id)
  have none: "\<not> live_child (mm_children db) new_id c" for c
    using ok live_child_series [of "mm_series db" "mm_children db" "mm_indexes db" new_id c] fresh
    by (auto simp: metamodel_ok_def live_series_def fresh_uuid_def)
  have "references_ok ?S (mm_children db) (mm_indexes db)"
    using ok unfolding metamodel_ok_def references_ok_def live_series_append by metis
  moreover have "locks_ok T ?S"
    using ok fresh by (intro locks_ok_add) (auto simp: metamodel_ok_def fresh_uuid_def id ds_def)
  moreover have "tables_ok (mm_tables db1) ?S (mm_children db)"
  proof -
    have old: "table_of (mm_tables db1) (mm_children db) i t" if "table_of (mm_tables db) (mm_children db) i t" for i t
      using table_of_grows [OF that] db1(2) by simp
    have new: "table_of (mm_tables db1) (mm_children db) new_id t" if "mm_tables db1 t \<noteq> None" for t
      using that none by (simp add: table_of_def)
    have "typed_columns (mm_tables db1) (mm_children db)"
      using ok db1(3) by (simp add: metamodel_ok_def tables_ok_def)
    then show ?thesis
      using ok old new tables id unfolding metamodel_ok_def tables_ok_def live_series_append by metis
  qed
  ultimately show "metamodel_ok T db1"
    using ok ids db1(1) by (simp add: metamodel_ok_def same_rows_def)
qed

lemma series_mapped:
  assumes ok: "metamodel_ok T db"
    and f: "\<And>r. r \<in> set (mm_series db) \<Longrightarrow>
      dsr_id (f r) = dsr_id r \<and> dsr_tenant (f r) = dsr_tenant r \<and> dsr_deleted_at (f r) = dsr_deleted_at r"
    and locks: "locks_ok T' (map f (mm_series db))"
    and tables: "\<And>i r. live_series (mm_series db) i r \<Longrightarrow> materialized_backend (f r) \<Longrightarrow>
      table_of (mm_tables db) (mm_children db) i (row_mat_table (f r)) \<and>
      (dsr_backend (f r) = FLAT_HISTORY_BACKEND \<longrightarrow> \<not> dsr_locked (f r) \<longrightarrow>
        table_of (mm_tables db) (mm_children db) i (row_hist_table (f r)))"
  shows "metamodel_ok T' (db\<lparr>mm_series := map f (mm_series db)\<rparr>)"
proof -
  let ?S = "mm_series db"
  have live: "live_series (map f ?S) i q \<longleftrightarrow> (\<exists>r. live_series ?S i r \<and> q = f r)" for i q
    using f by (auto simp: live_series_def)
  have m: "map (dsr_id \<circ> f) ?S = map dsr_id ?S" using f by simp
  have "ids_ok (map f ?S) (mm_children db) (mm_indexes db)"
    using ok f unfolding metamodel_ok_def ids_ok_def map_map m by auto
  moreover have "references_ok (map f ?S) (mm_children db) (mm_indexes db)"
  proof -
    have tenant: "dsr_tenant (f r) = dsr_tenant r" if "live_series ?S i r" for i r using that f by (simp add: live_series_def)
    show ?thesis using ok tenant unfolding metamodel_ok_def references_ok_def live by metis
  qed
  moreover have "tables_ok (mm_tables db) (map f ?S) (mm_children db)"
    using ok tables unfolding metamodel_ok_def tables_ok_def live by blast
  ultimately show ?thesis using ok locks by (simp add: metamodel_ok_def)
qed

lemma live_uuid: "ids_ok S C I \<Longrightarrow> live_series S i r \<Longrightarrow> uuid i"
  by (auto simp: ids_ok_def live_series_def)

lemma locked_right_other:
  assumes "locked_right T i r" and "\<And>t. mt_data_series t = uuid_str i \<Longrightarrow> t \<in> set T1 \<longleftrightarrow> t \<in> set T"
  shows "locked_right T1 i r"
  using assms by (force simp: locked_right_def)

lemma locks_ok_lock:
  assumes ok: "locks_ok T S" and ids: "ids_ok S C I" and ds: "live_series S i ds" "\<not> dsr_locked ds"
    and b: "b = FLAT_HISTORY_BACKEND \<or> b = NO_HISTORY_BACKEND"
    and t: "mt_id t \<notin> mt_id ` set T" "mt_data_series t = uuid_str i" "mt_task t = migration_task b"
  shows "locks_ok (T @ [t]) (map (\<lambda>r. if dsr_id r = i then r\<lparr>dsr_backend := b, dsr_locked := True\<rparr> else r) S)"
proof -
  define f where "f = (\<lambda>r :: DataSeries_row. if dsr_id r = i then r\<lparr>dsr_backend := b, dsr_locked := True\<rparr> else r)"
  have f: "dsr_id (f r) = dsr_id r" "dsr_deleted_at (f r) = dsr_deleted_at r" for r by (simp_all add: f_def)
  have "locked_right T i ds" using ok ds unfolding locks_ok_def by blast
  then have free: "uuid_str i \<notin> mt_data_series ` set T" using ds by (simp add: locked_right_def)
  have "locked_right (T @ [t]) j q" if q: "live_series (map f S) j q" for j q
  proof -
    from q f obtain r where r: "live_series S j r" "q = f r" by (auto simp: live_series_def)
    show ?thesis
    proof (cases "j = i")
      case True
      with r have "dsr_locked q" "dsr_backend q = b" by (auto simp: f_def live_series_def)
      with True b t show ?thesis by (auto simp: locked_right_def materialized_backend_def)
    next
      case False
      with r have "q = r" by (simp add: f_def live_series_def)
      moreover have differ: "uuid_str j \<noteq> uuid_str i"
        using False uuid_str_inj live_uuid [OF ids r(1)] live_uuid [OF ids ds(1)] by blast
      moreover have "locked_right T j r" using ok r(1) unfolding locks_ok_def by blast
      moreover from t(2) differ have "u \<in> set (T @ [t]) \<longleftrightarrow> u \<in> set T"
        if "mt_data_series u = uuid_str j" for u using that by auto
      ultimately show ?thesis by (blast intro: locked_right_other)
    qed
  qed
  moreover have "mt_data_series ` set (T @ [t]) \<subseteq> (\<lambda>r. uuid_str (dsr_id r)) ` set (map f S)"
    using ok t(2) ds(1) f by (auto simp: locks_ok_def live_series_def image_image)
  ultimately have "locks_ok (T @ [t]) (map f S)" using ok t free unfolding locks_ok_def by simp
  then show ?thesis unfolding f_def .
qed

lemma locks_ok_unlock:
  assumes ok: "locks_ok T S" and ids: "ids_ok S C I" and ds: "live_series S i ds" and t: "t \<in> set T" "mt_data_series t = uuid_str i"
  shows "locks_ok (filter (\<lambda>u. mt_id u \<noteq> mt_id t) T) (map (\<lambda>r. if dsr_id r = i then ds\<lparr>dsr_locked := False\<rparr> else r) S)"
proof -
  let ?T = "filter (\<lambda>u. mt_id u \<noteq> mt_id t) T"
  define f where "f = (\<lambda>r :: DataSeries_row. if dsr_id r = i then ds\<lparr>dsr_locked := False\<rparr> else r)"
  have f: "dsr_id (f r) = dsr_id r" for r using ds by (simp add: f_def live_series_def)
  have distinct: "distinct (map mt_id T)" "distinct (map mt_data_series T)" using ok by (auto simp: locks_ok_def)
  have "locked_right ?T j q" if q: "live_series (map f S) j q" for j q
  proof (cases "j = i")
    case True
    from q f True have "q = ds\<lparr>dsr_locked := False\<rparr>" by (auto simp: f_def live_series_def)
    moreover have "uuid_str i \<notin> mt_data_series ` set ?T"
      using same_key [OF distinct(2) _ t(1)] t(2) by auto
    ultimately show ?thesis using True by (simp add: locked_right_def)
  next
    case False
    from q f obtain r where r: "r \<in> set S" "q = f r" "dsr_id r = j" "dsr_deleted_at (f r) = None" by (auto simp: live_series_def)
    with False have "q = r" by (simp add: f_def)
    with r have live: "live_series S j q" by (simp add: live_series_def)
    have differ: "uuid_str j \<noteq> uuid_str i" using False uuid_str_inj live_uuid [OF ids live] live_uuid [OF ids ds(1)] by blast
    have "u \<in> set ?T \<longleftrightarrow> u \<in> set T" if "mt_data_series u = uuid_str j" for u
      using same_key [OF distinct(1) _ t(1), of u] that differ t(2) by auto
    moreover have "locked_right T j q" using ok live unfolding locks_ok_def by blast
    ultimately show ?thesis by (blast intro: locked_right_other)
  qed
  moreover have "mt_data_series ` set ?T \<subseteq> (\<lambda>r. uuid_str (dsr_id r)) ` set (map f S)"
    using ok f by (auto simp: locks_ok_def image_image)
  ultimately have "locks_ok ?T (map f S)" using distinct by (simp add: locks_ok_def distinct_map_filter)
  then show ?thesis unfolding f_def .
qed

lemma world_asks:
  "world_ok w \<Longrightarrow> (\<And>x. f (mw_env w) = Inr x \<Longrightarrow> world_ok (snd (g x w))) \<Longrightarrow> world_ok (snd (api_bind (in_db (api_asks f)) g w))"
  by (auto simp: api_bind_def in_db_def api_asks_def split: sum.split)

lemma world_lift:
  "world_ok w \<Longrightarrow> (\<And>x. r = Inr x \<Longrightarrow> world_ok (snd (g x w))) \<Longrightarrow> world_ok (snd (api_bind (api_lift r) g w))"
  by (simp add: api_bind_def api_lift_def split: sum.split)

lemma update_data_series_keeps:
  assumes ok: "world_ok w" and fresh: "task_id \<notin> mt_id ` set (mw_tasks w)"
  shows "world_ok (snd (update_data_series cx key partial_update external_id backend task_id w))"
proof -
  let ?db = "mw_env w"
  have lock: "world_ok (snd (api_bind (in_db (api_modify (\<lambda>db. db\<lparr>mm_series := map (\<lambda>r. if dsr_id r = dsr_id ds
        then r\<lparr>dsr_backend := b, dsr_locked := True\<rparr> else r) (mm_series db)\<rparr>))) (\<lambda>_.
      api_modify (\<lambda>w. w\<lparr>mw_tasks := mw_tasks w @
        [\<lparr>mt_id = task_id, mt_task = migration_task b, mt_data_series = uuid_str (dsr_id ds)\<rparr>]\<rparr>)) w))"
    if ds: "live_series (mm_series ?db) (dsr_id ds) ds" "\<not> dsr_locked ds"
      and b: "validate_backend (dsr_backend ds) b = Inr u" "dsr_backend ds \<noteq> b" for ds b u
  proof -
    from b have "migration_allowed (dsr_backend ds) b" by (auto simp: validate_backend_def split: if_splits)
    then have backends: "materialized_backend ds" "b = FLAT_HISTORY_BACKEND \<or> b = NO_HISTORY_BACKEND"
      by (auto simp: migration_allowed_def materialized_backend_def)
    let ?f = "\<lambda>r. if dsr_id r = dsr_id ds then r\<lparr>dsr_backend := b, dsr_locked := True\<rparr> else r"
    let ?T = "mw_tasks w @ [\<lparr>mt_id = task_id, mt_task = migration_task b, mt_data_series = uuid_str (dsr_id ds)\<rparr>]"
    have env: "metamodel_ok (mw_tasks w) ?db" using ok by (simp add: world_ok_def)
    then have ids: "ids_ok (mm_series ?db) (mm_children ?db) (mm_indexes ?db)" by (simp add: metamodel_ok_def)
    have "metamodel_ok ?T (?db\<lparr>mm_series := map ?f (mm_series ?db)\<rparr>)"
    proof (rule series_mapped [OF env])
      show "locks_ok ?T (map ?f (mm_series ?db))"
        using env fresh backends by (intro locks_ok_lock [OF _ ids ds]) (auto simp: metamodel_ok_def)
      fix i r
      assume r: "live_series (mm_series ?db) i r" and m: "materialized_backend (?f r)"
      have "row_mat_table (?f r) = row_mat_table r" "row_hist_table (?f r) = row_hist_table r"
        by (simp_all add: row_mat_table_def row_hist_table_def)
      moreover have "materialized_backend r"
      proof (cases "dsr_id r = dsr_id ds")
        case True
        then show ?thesis using live_series_unique [OF ids _ ds(1), of r] r backends by (auto simp: live_series_def)
      qed (use m in simp)
      ultimately show "table_of (mm_tables ?db) (mm_children ?db) i (row_mat_table (?f r)) \<and>
          (dsr_backend (?f r) = FLAT_HISTORY_BACKEND \<longrightarrow> \<not> dsr_locked (?f r) \<longrightarrow>
            table_of (mm_tables ?db) (mm_children ?db) i (row_hist_table (?f r)))"
        using env r unfolding metamodel_ok_def tables_ok_def by auto
    qed auto
    then show ?thesis by (simp add: api_bind_def in_db_def api_modify_def world_ok_def)
  qed
  have "live_series (mm_series ?db) (dsr_id ds) ds \<and> \<not> dsr_locked ds"
    if "series_of_request cx key ''data_series'' (if partial_update then ''PATCH'' else ''PUT'') ?db = Inr ds" for ds
    using request_series [OF that] by (cases partial_update) (auto simp: writing_def)
  then show ?thesis
    unfolding update_data_series_def
    by (intro world_asks world_lift ok) (auto split: option.split intro!: world_lift ok lock simp: api_return_def)
qed

section \<open>Deleting data series\<close>

lemma ok_ids: "metamodel_ok T db \<Longrightarrow> ids_ok (mm_series db) (mm_children db) (mm_indexes db)"
  by (simp add: metamodel_ok_def)

lemma ok_unique:
  "metamodel_ok T db \<Longrightarrow> live_series (mm_series db) i r \<Longrightarrow> live_series (mm_series db) i q \<Longrightarrow> r = q"
  by (rule live_series_unique [OF ok_ids])

lemma series_deleted:
  assumes ok: "metamodel_ok T db" and i: "live_series (mm_series db) i ds"
    and children: "\<And>c. \<not> live_child (mm_children db) i c"
    and references: "\<And>k c. live_child (mm_children db) k c \<Longrightarrow> ch_kind c = dimensions \<Longrightarrow> ch_reference c \<noteq> Some i"
  shows "metamodel_ok T (db\<lparr>mm_series := map (\<lambda>r. if dsr_id r = i \<and> dsr_deleted_at r = None
    then r\<lparr>dsr_deleted_at := Some now\<rparr> else r) (mm_series db)\<rparr>)"
proof -
  let ?S = "mm_series db"
  define f where "f = (\<lambda>r :: DataSeries_row. if dsr_id r = i \<and> dsr_deleted_at r = None then r\<lparr>dsr_deleted_at := Some now\<rparr> else r)"
  have f: "dsr_id (f r) = dsr_id r" for r by (simp add: f_def)
  have live: "live_series (map f ?S) j r \<longleftrightarrow> live_series ?S j r \<and> j \<noteq> i" for j r
  proof
    assume "live_series (map f ?S) j r"
    then obtain q where "q \<in> set ?S" "r = f q" "dsr_id r = j" "dsr_deleted_at r = None" by (auto simp: live_series_def)
    moreover from this have "j \<noteq> i" "f q = q" by (auto simp: f_def split: if_splits)
    ultimately show "live_series ?S j r \<and> j \<noteq> i" by (simp add: live_series_def)
  next
    assume r: "live_series ?S j r \<and> j \<noteq> i"
    then have "f r = r" by (simp add: f_def live_series_def)
    with r show "live_series (map f ?S) j r" by (metis (mono_tags) image_eqI live_series_def set_map)
  qed
  have m: "map (dsr_id \<circ> f) ?S = map dsr_id ?S" by (simp add: f)
  have "ids_ok (map f ?S) (mm_children db) (mm_indexes db)"
    using ok unfolding metamodel_ok_def ids_ok_def map_map m by (auto simp: f)
  moreover have "references_ok (map f ?S) (mm_children db) (mm_indexes db)"
    using ok children references unfolding metamodel_ok_def references_ok_def live by metis
  moreover have "locks_ok T (map f ?S)"
    using ok f unfolding metamodel_ok_def locks_ok_def live by (simp add: image_image)
  moreover have "tables_ok (mm_tables db) (map f ?S) (mm_children db)"
    using ok unfolding metamodel_ok_def tables_ok_def live by blast
  ultimately have "metamodel_ok T (db\<lparr>mm_series := map f ?S\<rparr>)" using ok by (simp add: metamodel_ok_def)
  then show ?thesis unfolding f_def .
qed

lemma destroy_data_series_keeps:
  assumes ok: "metamodel_ok T db"
  shows "metamodel_ok T (snd (destroy_data_series cx key now db))"
  unfolding destroy_data_series_def
proof (intro ok_runs ok ok_modify)
  fix ds u
  assume ds: "series_of_request cx key ''data_series'' ''DELETE'' db = Inr ds"
    and unused: "(if references_to_this cx db (dsr_id ds) \<noteq> [] then
      Inl (ValidationError (PStr ''can't delete data_series, it is referenced in other data_series.'')) else Inr ()) = Inr u"
  let ?i = "dsr_id ds"
  define f where "f = (\<lambda>c :: Child_row. if ch_data_series c = ?i \<and> ch_rel_deleted_at c = None then c\<lparr>ch_rel_deleted_at := Some now\<rparr> else c)"
  define g where "g = (\<lambda>x :: Index_row. if ix_data_series x = ?i \<and> ix_rel_deleted_at x = None then x\<lparr>ix_rel_deleted_at := Some now\<rparr> else x)"
  define db1 where "db1 = db\<lparr>mm_indexes := map g (mm_indexes db)\<rparr>"
  define db2 where "db2 = db1\<lparr>mm_children := map f (mm_children db1)\<rparr>"
  from request_series [OF ds] obtain t where t: "cx_tenant cx = Some t" "dsr_tenant ds = t"
    "live_series (mm_series db) ?i ds" by blast
  have "same_index x (g x)" if "x \<in> set (mm_indexes db)" for x
    using same_index_refl [OF ok that] by (auto simp: same_index_def g_def)
  then have ok1: "metamodel_ok T db1" unfolding db1_def by (intro indexes_changed ok)
  have ok2: "metamodel_ok T db2"
    unfolding db2_def
  proof (rule children_changed [OF ok1])
    show "same_child c (f c)" if "c \<in> set (mm_children db1)" for c
      using same_child_refl [OF ok1 that] by (auto simp: same_child_def f_def)
    fix x t c
    assume "x \<in> set (mm_indexes db1)" "ix_rel_deleted_at x = None" "live_child (mm_children db1) (ix_data_series x) c"
    then show "ch_rel_deleted_at (f c) = None"
      by (auto simp: db1_def f_def g_def live_child_def split: if_splits)
  qed
  have live2: "live_child (mm_children db2) k c \<longleftrightarrow> live_child (mm_children db) k c \<and> k \<noteq> ?i" for k c
    by (auto simp: db2_def db1_def f_def live_child_def image_iff split: if_splits)
  have "ch_reference c \<noteq> Some ?i" if c: "live_child (mm_children db2) k c" "ch_kind c = dimensions" for k c
  proof
    assume r: "ch_reference c = Some ?i"
    from c have k: "live_child (mm_children db) k c" "k \<noteq> ?i" by (auto simp: live2)
    with c(2) r ok obtain p q where p: "live_series (mm_series db) k p" "live_series (mm_series db) ?i q" "dsr_tenant q = dsr_tenant p"
      unfolding metamodel_ok_def references_ok_def by (metis option.inject)
    have "q = ds" using ok_unique [OF ok p(2) t(3)] .
    with p t(2) have "dsr_tenant p = t" by simp
    then have "p \<in> set (DataSeries_objects (cx_tenant cx) (mm_series db))"
      using p(1) t(1) by (simp add: DataSeries_objects_def live_series_def)
    moreover have "list_ex (\<lambda>c. ch_reference c = Some ?i) (relation_set db (dsr_id p) dimensions)"
      using k c(2) r p(1) by (auto simp: list_ex_iff in_relation_set live_series_def)
    ultimately have "p \<in> set (references_to_this cx db ?i)" using k(2) p(1) by (simp add: references_to_this_def live_series_def)
    then show False using unused by (auto split: if_splits)
  qed
  then have "metamodel_ok T (db2\<lparr>mm_series := map (\<lambda>r. if dsr_id r = ?i \<and> dsr_deleted_at r = None
    then r\<lparr>dsr_deleted_at := Some now\<rparr> else r) (mm_series db2)\<rparr>)"
    using t(3) live2 by (intro series_deleted ok2) (auto simp: db2_def db1_def)
  then show "metamodel_ok T (sdel_data_series ?i now (db\<lparr>mm_series := map (\<lambda>r. if dsr_id r = ?i \<and> dsr_deleted_at r = None
    then r\<lparr>dsr_deleted_at := Some now\<rparr> else r) (mm_series db)\<rparr>))"
    by (simp add: metamodel_ok_def sdel_data_series_def db2_def db1_def f_def g_def)
qed

end
