(* ===== verification/Server_Metamodel_Steps.thy ===== *)
theory Server_Metamodel_Steps
  imports Server_Metamodel_Correct Server_Storage_Correct
begin

text \<open>
  Migrations, pruning and the end of a data series keep what \<open>Server_Metamodel_Correct\<close> states; then the
  states that any sequence of requests and tasks reaches, and what holds of all of them.
\<close>

section \<open>Migrations\<close>

lemma series_to_migrate_live:
  assumes "metamodel_ok T db" and "t \<in> set T" and "series_to_migrate (mt_data_series t) db = Inr ds"
  shows "live_series (mm_series db) (dsr_id ds) ds" and "mt_data_series t = uuid_str (dsr_id ds)"
    and "materialized_backend ds" and "mt_task t = migration_task (dsr_backend ds)"
proof -
  from assms(3) have ds: "find (\<lambda>r. uuid_str (dsr_id r) = mt_data_series t) (DataSeries_objects None (mm_series db)) = Some ds"
    by (simp add: series_to_migrate_def split: option.splits)
  from find_SomeD [OF ds] show live: "live_series (mm_series db) (dsr_id ds) ds" and t: "mt_data_series t = uuid_str (dsr_id ds)"
    by (auto simp: DataSeries_objects_def live_series_def)
  then have right: "locked_right T (dsr_id ds) ds" and distinct: "distinct (map mt_data_series T)"
    using assms(1) by (auto simp: metamodel_ok_def locks_ok_def)
  with t assms(2) have locked: "dsr_locked ds" by (force simp: locked_right_def split: if_splits)
  with right show "materialized_backend ds" by (simp add: locked_right_def)
  from right locked obtain u where u: "u \<in> set T" "mt_data_series u = uuid_str (dsr_id ds)"
    "mt_task u = migration_task (dsr_backend ds)" by (auto simp: locked_right_def)
  have "u = t" using same_key [OF distinct u(1) assms(2)] u(2) t by simp
  with u show "mt_task t = migration_task (dsr_backend ds)" by simp
qed

text \<open>While tables are built: the rows as before, and the columns of \<open>K\<close> in the table \<open>t\<close>.\<close>

definition building :: "'s metamodel \<Rightarrow> string \<Rightarrow> Child_row set \<Rightarrow> 's metamodel \<Rightarrow> bool" where
  "building db0 t K db \<longleftrightarrow> same_rows db0 db \<and> grows (mm_tables db0) (mm_tables db) \<and>
     typed_columns (mm_tables db) (mm_children db0) \<and>
     mm_tables db t \<noteq> None \<and> (\<forall>c \<in> K. has_column (mm_tables db) t c)"

lemma building_start:
  assumes ok: "metamodel_ok T db0"
  shows "achieves (\<lambda>db. db = db0) (handle_create_data_series_materialized_flat_history ds) (\<lambda>_. building db0 (row_hist_table ds) {})"
proof (rule achievesI)
  fix db x db1
  assume "db = db0" and "handle_create_data_series_materialized_flat_history ds db = (Inr x, db1)"
  then have run: "handle_create_data_series_materialized_flat_history ds db0 = (Inr x, db1)" by simp
  with builds_series_table(2) [of "mm_children db0" ds] have "same_rows db0 db1" "grows (mm_tables db0) (mm_tables db1)"
    "typed_columns (mm_tables db0) (mm_children db0) \<Longrightarrow> typed_columns (mm_tables db1) (mm_children db0)"
    unfolding builds_def by (metis snd_conv)+
  with ok achievesD [OF hist_created run] show "building db0 (row_hist_table ds) {} db1"
    by (simp add: building_def metamodel_ok_def tables_ok_def)
qed

lemma building_ok: "metamodel_ok T db0 \<Longrightarrow> building db0 t K db \<Longrightarrow> metamodel_ok T db"
  unfolding building_def by (blast intro: same_rows_ok)

lemma building_step:
  assumes "\<And>C. builds C m"
  shows "achieves (building db0 t K) m (\<lambda>_. building db0 t K)"
proof (rule achievesI)
  fix db x db1
  assume db: "building db0 t K db" and "m db = (Inr x, db1)"
  with assms [of "mm_children db0"] have "same_rows db db1" "grows (mm_tables db) (mm_tables db1)"
    "typed_columns (mm_tables db) (mm_children db0) \<Longrightarrow> typed_columns (mm_tables db1) (mm_children db0)"
    unfolding builds_def by (metis snd_conv)+
  with db show "building db0 t K db1"
    unfolding building_def using same_rows_trans grows_trans has_column_grows table_grows by blast
qed

lemma building_column:
  assumes ok: "metamodel_ok T db0" and c: "c \<in> set (mm_children db0)"
  shows "achieves (building db0 t K) (handle_create_fact_in_materialized_table t c) (\<lambda>_. building db0 t (insert c K))"
proof (rule achievesI)
  fix db x db1
  assume db: "building db0 t K db" and run: "handle_create_fact_in_materialized_table t c db = (Inr x, db1)"
  from ok c have "column_names_ok (mm_children db0) c" by (intro column_names) (auto simp: metamodel_ok_def ids_ok_def)
  from builds_fact_column [OF this, of t] run have "same_rows db db1" "grows (mm_tables db) (mm_tables db1)"
    "typed_columns (mm_tables db) (mm_children db0) \<Longrightarrow> typed_columns (mm_tables db1) (mm_children db0)"
    unfolding builds_def by (metis snd_conv)+
  moreover have "has_column (mm_tables db1) t c"
    using achievesD [OF fact_column_added [OF c] run] db by (simp add: building_def)
  ultimately show "building db0 t (insert c K) db1"
    using db unfolding building_def using same_rows_trans grows_trans has_column_grows table_grows by blast
qed

lemma building_columns:
  assumes ok: "metamodel_ok T db0" and cs: "set cs \<subseteq> set (mm_children db0)"
  shows "achieves (building db0 t K) (api_for (handle_create_fact_in_materialized_table t) cs) (\<lambda>_. building db0 t (K \<union> set cs))"
  using cs
proof (induction cs arbitrary: K)
  case (Cons c cs)
  have "achieves (building db0 t K) (handle_create_fact_in_materialized_table t c) (\<lambda>_. building db0 t (insert c K))"
    using Cons.prems by (intro building_column [OF ok]) simp
  from achieves_bind [OF this] Cons.IH [of "insert c K"] Cons.prems show ?case by (simp add: Un_insert_right)
qed (simp add: achieves_return)

lemma relation_set_same: "same_rows db0 db \<Longrightarrow> relation_set db = relation_set db0"
  by (simp add: same_rows_def relation_set_def fun_eq_iff)

lemma relation_set_children: "set (relation_set db i kind) \<subseteq> set (mm_children db)"
  by (auto simp: relation_set_def)

lemma building_kind:
  assumes ok: "metamodel_ok T db0"
  shows "achieves (building db0 t K)
    (api_bind (api_get (\<lambda>db. relation_set db i kind)) (api_for (handle_create_fact_in_materialized_table t)))
    (\<lambda>_. building db0 t (K \<union> set (relation_set db0 i kind)))"
proof (rule achieves_bind)
  show "achieves (building db0 t K) (api_get (\<lambda>db. relation_set db i kind))
      (\<lambda>cs db. building db0 t K db \<and> cs = relation_set db0 i kind)"
    by (auto simp: achieves_def api_get_def building_def dest: relation_set_same)
  show "achieves (\<lambda>db. building db0 t K db \<and> cs = relation_set db0 i kind) (api_for (handle_create_fact_in_materialized_table t) cs)
      (\<lambda>_. building db0 t (K \<union> set (relation_set db0 i kind)))" for cs
    using building_columns [OF ok relation_set_children, of t K i kind] by (auto simp: achieves_def)
qed

lemma building_kinds:
  assumes ok: "metamodel_ok T db0"
  shows "achieves (building db0 t K)
    (api_for (\<lambda>kind. api_bind (api_get (\<lambda>db. relation_set db i kind)) (api_for (handle_create_fact_in_materialized_table t))) kinds)
    (\<lambda>_. building db0 t (K \<union> (\<Union>kind \<in> set kinds. set (relation_set db0 i kind))))"
proof (induction kinds arbitrary: K)
  case (Cons kind kinds)
  from achieves_bind [OF building_kind [OF ok]] Cons.IH [of "K \<union> set (relation_set db0 i kind)"]
  show ?case by (simp add: Un_assoc)
qed (simp add: achieves_return)

lemma builds_copy: "builds C (copy_to_history ds)"
  by (auto simp: builds_def copy_to_history_def same_rows_def Let_def split: sum.splits)

lemma dimension_columns:
  "(\<And>c. c \<in> set cs \<Longrightarrow> ch_kind c = dimensions) \<Longrightarrow>
     api_for (handle_create_dimension_in_materialized_table t) cs = api_for (handle_create_fact_in_materialized_table t) cs"
  by (induction cs) (auto simp: dimension_def)

lemma dimension_loop:
  "api_bind (api_get (\<lambda>db. relation_set db i dimensions)) (api_for (handle_create_dimension_in_materialized_table t)) =
     api_bind (api_get (\<lambda>db. relation_set db i dimensions)) (api_for (handle_create_fact_in_materialized_table t))"
proof
  fix db :: "'a metamodel"
  have "api_for (handle_create_dimension_in_materialized_table t) (relation_set db i dimensions) db =
      api_for (handle_create_fact_in_materialized_table t) (relation_set db i dimensions) db"
    by (subst dimension_columns) (auto simp: relation_set_def)
  then show "api_bind (api_get (\<lambda>db. relation_set db i dimensions)) (api_for (handle_create_dimension_in_materialized_table t)) db =
      api_bind (api_get (\<lambda>db. relation_set db i dimensions)) (api_for (handle_create_fact_in_materialized_table t)) db"
    by (simp add: api_bind_def api_get_def)
qed

lemma all_kinds: "set migrated_kinds \<union> {dimensions} = UNIV"
proof -
  have "kind \<in> set migrated_kinds \<union> {dimensions}" for kind by (cases kind) (simp_all add: migrated_kinds_def)
  then show ?thesis by blast
qed

lemma all_relations: "(\<Union>kind \<in> set migrated_kinds. set (relation_set db i kind)) \<union> set (relation_set db i dimensions) =
    {c. live_child (mm_children db) i c}"
proof -
  have "(\<Union>kind \<in> set migrated_kinds. set (relation_set db i kind)) \<union> set (relation_set db i dimensions) =
      (\<Union>kind \<in> set migrated_kinds \<union> {dimensions}. set (relation_set db i kind))" by (simp add: Un_commute)
  also have "\<dots> = {c. live_child (mm_children db) i c}" unfolding all_kinds by (auto simp: in_relation_set)
  finally show ?thesis .
qed

text \<open>The transaction in which the history gets its columns.\<close>

lemma history_built:
  assumes ok: "metamodel_ok T db0"
  shows "achieves (\<lambda>db. db = db0)
    (atomic_metamodel
       (api_bind (handle_create_data_series_materialized_flat_history ds) (\<lambda>_.
        api_bind (api_for (\<lambda>kind. api_bind (api_get (\<lambda>db. relation_set db (dsr_id ds) kind))
            (api_for (handle_create_fact_in_materialized_table (row_hist_table ds)))) migrated_kinds) (\<lambda>_.
        api_bind (api_bind (api_get (\<lambda>db. relation_set db (dsr_id ds) dimensions))
            (api_for (handle_create_dimension_in_materialized_table (row_hist_table ds)))) (\<lambda>_.
        api_bind (copy_to_history ds) (\<lambda>_.
        api_bind (api_get (\<lambda>db. live_indexes db (dsr_id ds))) (api_for (\<lambda>i. handle_create_user_defined_index (message i)))))))))
    (\<lambda>_. building db0 (row_hist_table ds) {c. live_child (mm_children db0) (dsr_id ds) c})"
proof -
  let ?t = "row_hist_table ds" and ?i = "dsr_id ds"
  let ?K = "\<Union>kind \<in> set migrated_kinds. set (relation_set db0 ?i kind)"
  note facts = building_kinds [OF ok, of ?t "{}" ?i migrated_kinds]
    and dims = building_kind [OF ok, of ?t ?K ?i dimensions, unfolded all_relations]
  have rest: "achieves (building db0 ?t K) (api_bind (copy_to_history ds) (\<lambda>_.
      api_bind (api_get (\<lambda>db. live_indexes db ?i)) (api_for (\<lambda>i. handle_create_user_defined_index (message i)))))
      (\<lambda>_. building db0 ?t K)" for K
    by (intro building_step build_rules builds_copy builds_message)
  show ?thesis
    unfolding dimension_loop
    by (intro achieves_atomic_metamodel achieves_bind [OF building_start [OF ok]] achieves_bind [OF facts [unfolded Un_empty_left]]
        achieves_bind [OF dims] rest)
qed

lemma series_unlocked:
  assumes ok: "metamodel_ok T db" and t: "t \<in> set T" "mt_data_series t = uuid_str (dsr_id ds)"
    and ds: "live_series (mm_series db) (dsr_id ds) ds" "materialized_backend ds"
    and hist: "dsr_backend ds = FLAT_HISTORY_BACKEND \<Longrightarrow> table_of (mm_tables db) (mm_children db) (dsr_id ds) (row_hist_table ds)"
    and run: "unlock_series ds db = (r, db1)"
  shows "metamodel_ok (filter (\<lambda>u. mt_id u \<noteq> mt_id t) T) db1"
proof -
  let ?f = "\<lambda>r. if dsr_id r = dsr_id ds then ds\<lparr>dsr_locked := False\<rparr> else r"
  have same: "r = ds" if "r \<in> set (mm_series db)" "dsr_id r = dsr_id ds" for r
    using ok_ids [OF ok] that ds(1) by (auto simp: ids_ok_def live_series_def intro: same_key)
  have "metamodel_ok (filter (\<lambda>u. mt_id u \<noteq> mt_id t) T) (db\<lparr>mm_series := map ?f (mm_series db)\<rparr>)"
  proof (rule series_mapped [OF ok])
    show "dsr_id (?f r) = dsr_id r \<and> dsr_tenant (?f r) = dsr_tenant r \<and> dsr_deleted_at (?f r) = dsr_deleted_at r"
      if "r \<in> set (mm_series db)" for r using same [OF that] by auto
    show "locks_ok (filter (\<lambda>u. mt_id u \<noteq> mt_id t) T) (map ?f (mm_series db))"
      using ok by (intro locks_ok_unlock [OF _ ok_ids [OF ok] ds(1) t]) (simp add: metamodel_ok_def)
    fix i r
    assume r: "live_series (mm_series db) i r" and m: "materialized_backend (?f r)"
    have tables: "materialized_backend r \<Longrightarrow> table_of (mm_tables db) (mm_children db) i (row_mat_table r)"
      "materialized_backend r \<Longrightarrow> dsr_backend r = FLAT_HISTORY_BACKEND \<Longrightarrow> \<not> dsr_locked r \<Longrightarrow>
        table_of (mm_tables db) (mm_children db) i (row_hist_table r)"
      using ok r unfolding metamodel_ok_def tables_ok_def by blast+
    show "table_of (mm_tables db) (mm_children db) i (row_mat_table (?f r)) \<and>
        (dsr_backend (?f r) = FLAT_HISTORY_BACKEND \<longrightarrow> \<not> dsr_locked (?f r) \<longrightarrow>
          table_of (mm_tables db) (mm_children db) i (row_hist_table (?f r)))"
    proof (cases "dsr_id r = dsr_id ds")
      case True
      then have "r = ds" and i: "i = dsr_id ds" using same r by (auto simp: live_series_def)
      then show ?thesis using tables(1) ds(2) hist by (simp add: row_mat_table_def row_hist_table_def)
    next
      case False
      with m tables show ?thesis by simp
    qed
  qed
  with run show ?thesis by (auto simp: unlock_series_def api_modify_def)
qed

lemma table_dropped:
  assumes ok: "metamodel_ok T db"
    and free: "\<And>i r. live_series (mm_series db) i r \<Longrightarrow> materialized_backend r \<Longrightarrow>
      t \<noteq> row_mat_table r \<and> (dsr_backend r = FLAT_HISTORY_BACKEND \<longrightarrow> \<not> dsr_locked r \<longrightarrow> t \<noteq> row_hist_table r)"
  shows "metamodel_ok T (snd (drop_table t db))"
proof -
  have "table_of ((mm_tables db)(t := None)) C i u" if "table_of (mm_tables db) C i u" and "t \<noteq> u" for C i u
    using that by (simp add: table_of_def has_column_def)
  then have "tables_ok ((mm_tables db)(t := None)) (mm_series db) (mm_children db)"
    using ok free unfolding metamodel_ok_def tables_ok_def typed_columns_def by (simp del: not_None_eq)
  with ok show ?thesis by (simp add: metamodel_ok_def drop_table_def)
qed

lemma asks_success: "api_asks f w = (Inr x, w1) \<Longrightarrow> f w = Inr x \<and> w1 = w"
  by (auto simp: api_asks_def)

lemma bind_assoc: "api_bind (api_bind m f) g = api_bind m (\<lambda>x. api_bind (f x) g)"
  by (auto simp: api_bind_def fun_eq_iff split: prod.splits sum.splits)

lemma ok_success: "metamodel_ok T (snd (m db)) \<Longrightarrow> m db = (Inr x, db1) \<Longrightarrow> metamodel_ok T db1"
  by simp

lemma migrated_to_flat_history:
  assumes ok: "metamodel_ok T db" and t: "t \<in> set T" "mt_task t = ''_3_dynamic_sql_migrate_no_history_to_flat_history''"
    and run: "migrate_no_history_to_flat_history t db = (Inr x, db1)"
  shows "metamodel_ok (filter (\<lambda>u. mt_id u \<noteq> mt_id t) T) db1"
proof -
  define build :: "DataSeries_row \<Rightarrow> ('a, unit) metamodel_run" where "build = (\<lambda>ds. atomic_metamodel
       (api_bind (handle_create_data_series_materialized_flat_history ds) (\<lambda>_.
        api_bind (api_for (\<lambda>kind. api_bind (api_get (\<lambda>db. relation_set db (dsr_id ds) kind))
            (api_for (handle_create_fact_in_materialized_table (row_hist_table ds)))) migrated_kinds) (\<lambda>_.
        api_bind (api_bind (api_get (\<lambda>db. relation_set db (dsr_id ds) dimensions))
            (api_for (handle_create_dimension_in_materialized_table (row_hist_table ds)))) (\<lambda>_.
        api_bind (copy_to_history ds) (\<lambda>_.
        api_bind (api_get (\<lambda>db. live_indexes db (dsr_id ds)))
          (api_for (\<lambda>i. handle_create_user_defined_index
            \<lparr>im_data_series = dsr_id ds, im_external_id = dsr_external_id ds, im_targets = ix_targets i,
             im_backend = dsr_backend ds, im_index = ix_id i\<rparr>))))))))"
  have "migrate_no_history_to_flat_history t = api_bind (api_asks (series_to_migrate (mt_data_series t))) (\<lambda>ds.
      api_bind (build ds) (\<lambda>_. unlock_series ds))"
    by (simp add: migrate_no_history_to_flat_history_def build_def)
  with run obtain ds y db2 where ds: "series_to_migrate (mt_data_series t) db = Inr ds"
    and build: "build ds db = (Inr y, db2)" and unlock: "unlock_series ds db2 = (Inr x, db1)"
    by (auto elim!: api_bind_InrE dest!: asks_success)
  have "achieves (\<lambda>db1. db1 = db) (build ds) (\<lambda>_. building db (row_hist_table ds) {c. live_child (mm_children db) (dsr_id ds) c})"
    unfolding build_def by (rule history_built [OF ok])
  from achievesD [OF this build refl]
  have built: "building db (row_hist_table ds) {c. live_child (mm_children db) (dsr_id ds) c} db2" .
  then have rows: "same_rows db db2" and hist: "table_of (mm_tables db2) (mm_children db) (dsr_id ds) (row_hist_table ds)"
    by (auto simp: building_def table_of_def)
  note live = series_to_migrate_live [OF ok t(1) ds]
  show ?thesis
  proof (rule series_unlocked [OF building_ok [OF ok built] t(1) live(2) _ live(3) _ unlock])
    show "live_series (mm_series db2) (dsr_id ds) ds" using live(1) rows by (simp add: same_rows_def)
    show "table_of (mm_tables db2) (mm_children db2) (dsr_id ds) (row_hist_table ds)" using hist rows by (simp add: same_rows_def)
  qed
qed

lemma builds_prune_history: "builds C (prune_history_of now ds)"
  by (auto simp: builds_def prune_history_of_def same_rows_def split: sum.splits prod.splits)

lemma migrated_to_no_history:
  assumes ok: "metamodel_ok T db" and t: "t \<in> set T" "mt_task t \<noteq> ''_3_dynamic_sql_migrate_no_history_to_flat_history''"
    and run: "migrate_flat_history_to_no_history now t db = (Inr x, db1)"
  shows "metamodel_ok (filter (\<lambda>u. mt_id u \<noteq> mt_id t) T) db1"
proof -
  define prune :: "DataSeries_row \<Rightarrow> ('a, unit) metamodel_run" where "prune = (\<lambda>ds. api_bind (prune_history_of now ds) (\<lambda>_.
      api_bind (api_get (\<lambda>db. live_indexes db (dsr_id ds)))
       (api_for (\<lambda>i. handle_drop_user_defined_index_by_target_table_type (ix_id i) FLAT_HISTORY))))"
  have "migrate_flat_history_to_no_history now t = api_bind (api_asks (series_to_migrate (mt_data_series t))) (\<lambda>ds.
      api_bind (prune ds) (\<lambda>_. api_bind (drop_table (row_hist_table ds)) (\<lambda>_. unlock_series ds)))"
    by (simp add: migrate_flat_history_to_no_history_def prune_def bind_assoc)
  with run obtain ds y db2 where ds: "series_to_migrate (mt_data_series t) db = Inr ds"
    and prune: "prune ds db = (Inr y, db2)" and rest: "unlock_series ds (snd (drop_table (row_hist_table ds) db2)) = (Inr x, db1)"
    by (auto simp: drop_table_def elim!: api_bind_InrE dest!: asks_success)
  note live = series_to_migrate_live [OF ok t(1) ds]
  from live(3,4) t(2) have backend: "dsr_backend ds \<noteq> FLAT_HISTORY_BACKEND"
    by (auto simp: migration_task_def)
  have builds: "builds C (prune ds)" for C
    unfolding prune_def handle_drop_user_defined_index_by_target_table_type_def
    by (intro build_rules builds_prune_history builds_drop_registered)
  from keepsD [OF builds_keeps [OF builds] ok] prune have ok2: "metamodel_ok T db2" by simp
  from builds [of "mm_children db"] prune have rows: "same_rows db db2" unfolding builds_def by (metis snd_conv)
  have ds2: "live_series (mm_series db2) (dsr_id ds) ds" using live(1) rows by (simp add: same_rows_def)
  define db3 where "db3 = snd (drop_table (row_hist_table ds) db2)"
  have "metamodel_ok T db3"
    unfolding db3_def
  proof (rule table_dropped [OF ok2])
    fix i r
    assume r: "live_series (mm_series db2) i r"
    have "row_hist_table ds \<noteq> row_hist_table r" if "dsr_backend r = FLAT_HISTORY_BACKEND"
    proof
      assume "row_hist_table ds = row_hist_table r"
      then have "dsr_id ds = dsr_id r"
        using live_uuid [OF ok_ids [OF ok2] ds2] live_uuid [OF ok_ids [OF ok2] r] r
        by (intro row_table_inj) (auto simp: live_series_def)
      then have "r = ds" using ok_unique [OF ok2 r, of ds] ds2 r by (simp add: live_series_def)
      with that backend show False by simp
    qed
    then show "row_hist_table ds \<noteq> row_mat_table r \<and>
        (dsr_backend r = FLAT_HISTORY_BACKEND \<longrightarrow> \<not> dsr_locked r \<longrightarrow> row_hist_table ds \<noteq> row_hist_table r)" by simp
  qed
  moreover have "live_series (mm_series db3) (dsr_id ds) ds" using ds2 by (simp add: db3_def drop_table_def)
  moreover have "unlock_series ds db3 = (Inr x, db1)"
    using rest by (simp add: db3_def)
  ultimately show ?thesis
    using t(1) live(2,3) backend by (intro series_unlocked [of T db3 t ds]) auto
qed

lemma run_migration_keeps:
  assumes ok: "world_ok w"
  shows "world_ok (snd (run_migration now claimed task_id w))"
proof -
  have done1: "metamodel_ok (filter (\<lambda>u. mt_id u \<noteq> mt_id t) (mw_tasks w)) db1"
    if t: "find (\<lambda>t. mt_id t = task_id) (mw_tasks w) = Some t"
      and func: "map_of (meta_model_task_registry now) (mt_task t) = Some func" "func t (mw_env w) = (Inr x, db1)" for t func x db1
  proof -
    have env: "metamodel_ok (mw_tasks w) (mw_env w)" using ok by (simp add: world_ok_def)
    have member: "t \<in> set (mw_tasks w)" using find_SomeD [OF t] by simp
    show ?thesis
    proof (cases "mt_task t = ''_3_dynamic_sql_migrate_no_history_to_flat_history''")
      case True
      with func show ?thesis using migrated_to_flat_history [OF env member True]
        by (simp add: meta_model_task_registry_def)
    next
      case False
      with func show ?thesis using migrated_to_no_history [OF env member False, of now]
        by (auto simp: meta_model_task_registry_def split: if_splits)
    qed
  qed
  show ?thesis
    using ok done1 by (auto simp: run_migration_def run_meta_model_task_def world_ok_def split: option.split prod.split sum.split if_splits)
qed

section \<open>Pruning\<close>

text \<open>Pruning keeps the rows of the data series and acts on relations deleted before.\<close>

definition pruning :: "MetaModelTaskData list \<Rightarrow> DataSeries_row list \<Rightarrow> Child_row list \<Rightarrow> 's metamodel \<Rightarrow> bool" where
  "pruning T S cs db \<longleftrightarrow> metamodel_ok T db \<and> mm_series db = S \<and>
     (\<forall>c \<in> set cs. uuid (ch_id c) \<and> (\<forall>d \<in> set (mm_children db). ch_id d = ch_id c \<longrightarrow> ch_rel_deleted_at d \<noteq> None))"

lemma builds_pruning:
  fixes m :: "('s, 'a) metamodel_run"
  assumes "\<And>C. builds C m"
  shows "keeps (pruning T S cs) m"
  unfolding keeps_def
proof (intro allI impI)
  fix db :: "'s metamodel"
  assume db: "pruning T S cs db"
  have "metamodel_ok T (snd (m db))" using keepsD [OF builds_keeps [OF assms]] db by (simp add: pruning_def)
  moreover have "same_rows db (snd (m db))" using assms unfolding builds_def by blast
  ultimately show "pruning T S cs (snd (m db))" using db by (simp add: pruning_def same_rows_def)
qed

lemma prune_index_keeps: "keeps (pruning T S cs) (prune_index ds x)"
  unfolding prune_index_def
proof (intro keeps_intros)
  show "keeps (pruning T S cs) (handle_drop_user_defined_index_flat_history (ix_id x))"
    "keeps (pruning T S cs) (handle_drop_user_defined_index_materialized (ix_id x))"
    unfolding handle_drop_user_defined_index_flat_history_def handle_drop_user_defined_index_materialized_def
    by (intro builds_pruning builds_drop_registered)+
  fix db :: "'a metamodel"
  assume db: "pruning T S cs db"
  then have ok: "metamodel_ok T db" by (simp add: pruning_def)
  have "metamodel_ok T (db\<lparr>mm_indexes := filter (\<lambda>d. ix_id d \<noteq> ix_id x) (mm_indexes db)\<rparr>)"
    using ok_ids [OF ok] index_targets_live [OF ok] by (intro indexes_replaced [OF ok]) (auto simp: ids_ok_def distinct_map_filter)
  with db show "pruning T S cs (db\<lparr>mm_indexes := filter (\<lambda>d. ix_id d \<noteq> ix_id x) (mm_indexes db)\<rparr>)"
    by (simp add: pruning_def)
qed

lemma column_dropped:
  assumes c: "c \<in> set cs"
  shows "keeps (pruning T S cs) (handle_drop_child_in_table t c)"
  unfolding keeps_def
proof (intro allI impI)
  fix db :: "'a metamodel"
  assume db: "pruning T S cs db"
  then have ok: "metamodel_ok T db" by (simp add: pruning_def)
  show "pruning T S cs (snd (handle_drop_child_in_table t c db))"
  proof (cases "\<exists>columns. mm_tables db t = Some columns \<and> columns (child_column c) \<noteq> None")
    case False
    with db show ?thesis by (auto simp: handle_drop_child_in_table_def drop_column_def split: option.splits)
  next
    case True
    then obtain columns where columns: "mm_tables db t = Some columns" "columns (child_column c) \<noteq> None" by blast
    let ?T = "(mm_tables db)(t \<mapsto> columns(child_column c := None))"
    have other: "child_column d \<noteq> child_column c" if "live_child (mm_children db) i d" for d i
    proof
      assume "child_column d = child_column c"
      then have "ch_id d = ch_id c"
        using db that c ok_ids [OF ok] by (intro child_column_inj) (auto simp: pruning_def ids_ok_def live_child_def)
      then have "ch_rel_deleted_at d \<noteq> None" using db that c unfolding pruning_def live_child_def by blast
      with that show False by (simp add: live_child_def)
    qed
    have "table_of ?T (mm_children db) i u" if "table_of (mm_tables db) (mm_children db) i u" for i u
      using that other columns unfolding table_of_def has_column_def by auto
    moreover have "typed_columns ?T (mm_children db)"
      using ok columns unfolding metamodel_ok_def tables_ok_def typed_columns_def by auto
    ultimately have "tables_ok ?T (mm_series db) (mm_children db)"
      using ok unfolding metamodel_ok_def tables_ok_def by blast
    with ok db columns show ?thesis
      by (simp add: handle_drop_child_in_table_def drop_column_def pruning_def metamodel_ok_def)
  qed
qed

lemma child_removed:
  assumes ok: "metamodel_ok T db" and dead: "\<And>d. d \<in> set (mm_children db) \<Longrightarrow> \<not> P d \<Longrightarrow> ch_rel_deleted_at d \<noteq> None"
  shows "metamodel_ok T (db\<lparr>mm_children := filter P (mm_children db)\<rparr>)"
proof -
  have live: "live_child (filter P (mm_children db)) i d \<longleftrightarrow> live_child (mm_children db) i d" for i d
    using dead [of d] by (cases "P d") (auto simp: live_child_def)
  have "ids_ok (mm_series db) (filter P (mm_children db)) (mm_indexes db)"
    using ok_ids [OF ok] by (auto simp: ids_ok_def distinct_map_filter)
  moreover have "references_ok (mm_series db) (filter P (mm_children db)) (mm_indexes db)"
    and "external_ids_ok (filter P (mm_children db))"
    and "tables_ok (mm_tables db) (mm_series db) (filter P (mm_children db))"
    using ok unfolding metamodel_ok_def references_ok_def external_ids_ok_def tables_ok_def table_of_def typed_columns_def live
    by auto
  ultimately show ?thesis using ok by (simp add: metamodel_ok_def)
qed

lemma builds_on_storage: "builds C (on_storage f)"
  unfolding on_storage_def by (intro builds_modify) (simp add: same_rows_def)

lemma prune_child_keeps:
  assumes c: "c \<in> set cs" and release: "\<And>C. builds C release_files"
  shows "keeps (pruning T S cs) (prune_child ds release_files c)"
  unfolding prune_child_def
proof (intro keeps_intros column_dropped c builds_pruning release)
  fix db :: "'a metamodel"
  assume db: "pruning T S cs db"
  then have "metamodel_ok T (db\<lparr>mm_children := filter (\<lambda>d. ch_id d \<noteq> ch_id c) (mm_children db)\<rparr>)"
    using c by (intro child_removed) (auto simp: pruning_def)
  with db show "pruning T S cs (db\<lparr>mm_children := filter (\<lambda>d. ch_id d \<noteq> ch_id c) (mm_children db)\<rparr>)"
    by (simp add: pruning_def)
qed

lemma builds_prune_consumer: "builds C (prune_consumer r)"
  unfolding prune_consumer_def by (intro build_rules builds_on_storage builds_modify) (simp add: same_rows_def)

text \<open>A list read from the state and a loop over it.\<close>

lemma prune_children_keeps:
  fixes cs :: "'s metamodel \<Rightarrow> Child_row list" and release_files :: "Child_row \<Rightarrow> ('s, unit) metamodel_run"
  assumes dead: "\<And>db c. c \<in> set (cs db) \<Longrightarrow> c \<in> set (mm_children db) \<and> ch_rel_deleted_at c \<noteq> None"
    and release: "\<And>c C. builds C (release_files c)"
  shows "keeps (pruning T S []) (api_bind (api_get cs) (api_for (\<lambda>c. prune_child ds (release_files c) c)))"
  unfolding keeps_def
proof (intro allI impI)
  fix db :: "'s metamodel"
  assume db: "pruning T S [] db"
  then have ids: "ids_ok (mm_series db) (mm_children db) (mm_indexes db)" by (intro ok_ids [of T]) (simp add: pruning_def)
  have "uuid (ch_id c) \<and> (\<forall>d \<in> set (mm_children db). ch_id d = ch_id c \<longrightarrow> ch_rel_deleted_at d \<noteq> None)"
    if "c \<in> set (cs db)" for c
  proof -
    from dead [OF that] have c: "c \<in> set (mm_children db)" "ch_rel_deleted_at c \<noteq> None" by blast+
    have distinct: "distinct (map ch_id (mm_children db))" using ids by (simp add: ids_ok_def)
    have "d = c" if "d \<in> set (mm_children db)" "ch_id d = ch_id c" for d
      using same_key [OF distinct that(1) c(1) that(2)] .
    with c(2) have "\<forall>d \<in> set (mm_children db). ch_id d = ch_id c \<longrightarrow> ch_rel_deleted_at d \<noteq> None" by metis
    moreover have "uuid (ch_id c)" using ids c(1) by (simp add: ids_ok_def)
    ultimately show ?thesis by blast
  qed
  with db have "pruning T S (cs db) db" by (simp add: pruning_def)
  moreover have "keeps (pruning T S (cs db)) (api_for (\<lambda>c. prune_child ds (release_files c) c) (cs db))"
    by (intro keeps_for prune_child_keeps release)
  ultimately have "pruning T S (cs db) (snd (api_for (\<lambda>c. prune_child ds (release_files c) c) (cs db) db))"
    by (simp add: keepsD)
  then show "pruning T S [] (snd (api_bind (api_get cs) (api_for (\<lambda>c. prune_child ds (release_files c) c)) db))"
    by (simp add: api_bind_def api_get_def pruning_def)
qed

lemma dead_children:
  "c \<in> set (dead_facts db i older_than) \<Longrightarrow> c \<in> set (mm_children db) \<and> ch_rel_deleted_at c \<noteq> None"
  "c \<in> set (dead_dimensions db i older_than) \<Longrightarrow> c \<in> set (mm_children db) \<and> ch_rel_deleted_at c \<noteq> None"
  by (auto simp: dead_facts_def dead_dimensions_def expired_def split: option.splits)

lemma prune_meta_model_keeps: "keeps (pruning T S []) (prune_meta_model now i older_than :: ('s, unit) metamodel_run)"
proof -
  note facts = prune_children_keeps [OF dead_children(1), where release_files = "release_files_of now _"]
    and dims = prune_children_keeps [OF dead_children(2), where release_files = "\<lambda>_. api_return ()"]
  have run: "(prune_meta_model now i older_than :: ('s, unit) metamodel_run) =
     api_bind (api_asks (\<lambda>db. case find (\<lambda>r. dsr_id r = i) (mm_series db) of None \<Rightarrow> Inl DoesNotExist | Some r \<Rightarrow> Inr r)) (\<lambda>ds.
     api_bind (api_bind (api_get (\<lambda>db. dead_indexes db i older_than)) (api_for (prune_index ds))) (\<lambda>_.
     api_bind (api_bind (api_get (\<lambda>db. dead_facts db i older_than)) (api_for (\<lambda>c. prune_child ds (release_files_of now ds c) c))) (\<lambda>_.
     api_bind (api_bind (api_get (\<lambda>db. dead_dimensions db i older_than)) (api_for (\<lambda>c. prune_child ds (api_return ()) c))) (\<lambda>_.
     api_bind (api_get (\<lambda>db. filter (\<lambda>r. expired older_than (cr_deleted_at r) \<and> cr_data_series r = i) (mm_consumers db)))
       (api_for prune_consumer)))))"
    by (simp add: prune_meta_model_def bind_assoc)
  show ?thesis
    unfolding run
    by (intro keeps_bind keeps_asks keeps_get keeps_for prune_index_keeps facts dims builds_pruning builds_prune_consumer build_rules)
      (simp_all add: release_files_of_def builds_on_storage)
qed

section \<open>Nuking\<close>

lemma not_live: "ids_ok S C I \<Longrightarrow> r \<in> set S \<Longrightarrow> dsr_deleted_at r \<noteq> None \<Longrightarrow> \<not> live_series S (dsr_id r) q"
  by (auto simp: ids_ok_def live_series_def dest: same_key)

lemma dead_table_dropped:
  assumes ok: "metamodel_ok T db" and ds: "ds \<in> set (mm_series db)" "dsr_deleted_at ds \<noteq> None"
    and t: "t = row_mat_table ds \<or> t = row_hist_table ds"
  shows "metamodel_ok T (snd (drop_table t db))"
proof (rule table_dropped [OF ok])
  fix i r
  assume r: "live_series (mm_series db) i r"
  then have "dsr_id r \<noteq> dsr_id ds" using not_live [OF ok_ids [OF ok] ds, of r] by (auto simp: live_series_def)
  moreover have "uuid (dsr_id r)" "uuid (dsr_id ds)" using ok_ids [OF ok] ds r by (auto simp: ids_ok_def live_series_def)
  ultimately have "row_mat_table ds \<noteq> row_mat_table r" "row_hist_table ds \<noteq> row_hist_table r"
    by (metis row_table_inj(1)) (metis \<open>dsr_id r \<noteq> dsr_id ds\<close> \<open>uuid (dsr_id r)\<close> \<open>uuid (dsr_id ds)\<close> row_table_inj(2))
  then show "t \<noteq> row_mat_table r \<and> (dsr_backend r = FLAT_HISTORY_BACKEND \<longrightarrow> \<not> dsr_locked r \<longrightarrow> t \<noteq> row_hist_table r)"
    using t by auto
qed

lemma dead_series_removed:
  assumes ok: "metamodel_ok T db" and ds: "ds \<in> set (mm_series db)" "dsr_deleted_at ds \<noteq> None" and i: "i = dsr_id ds"
  shows "metamodel_ok (filter (\<lambda>t. mt_data_series t \<noteq> uuid_str i) T) (del_data_series i db)"
proof -
  let ?S = "filter (\<lambda>r. dsr_id r \<noteq> i) (mm_series db)" and ?C = "filter (\<lambda>c. ch_data_series c \<noteq> i) (mm_children db)"
    and ?I = "filter (\<lambda>x. ix_data_series x \<noteq> i) (mm_indexes db)" and ?T = "filter (\<lambda>t. mt_data_series t \<noteq> uuid_str i) T"
  have none: "\<not> live_series (mm_series db) i q" for q using not_live [OF ok_ids [OF ok] ds] i by simp
  have series: "live_series ?S j r \<longleftrightarrow> live_series (mm_series db) j r" for j r
    using none [of r] by (auto simp: live_series_def)
  have orphans: "\<not> live_child (mm_children db) i c" for c
    using live_child_series [of "mm_series db" "mm_children db" "mm_indexes db" i c] ok none by (auto simp: metamodel_ok_def)
  have children: "live_child ?C j c \<longleftrightarrow> live_child (mm_children db) j c" for j c
    using orphans [of c] by (auto simp: live_child_def)
  have "ids_ok ?S ?C ?I"
    using ok_ids [OF ok] by (auto simp: ids_ok_def distinct_map_filter)
  moreover have "references_ok ?S ?C ?I" and "external_ids_ok ?C" and "tables_ok (mm_tables db) ?S ?C"
    using ok unfolding metamodel_ok_def references_ok_def external_ids_ok_def tables_ok_def table_of_def typed_columns_def
      series children by auto
  moreover have "locks_ok ?T ?S"
  proof -
    have right: "locked_right ?T j r" if r: "live_series (mm_series db) j r" for j r
    proof (rule locked_right_other)
      show "locked_right T j r" using ok r unfolding metamodel_ok_def locks_ok_def by blast
      have "j \<noteq> i" using none r by blast
      then have "uuid_str j \<noteq> uuid_str i"
        using uuid_str_inj live_uuid [OF ok_ids [OF ok] r] ok_ids [OF ok] ds i by (auto simp: ids_ok_def)
      then show "t \<in> set ?T \<longleftrightarrow> t \<in> set T" if "mt_data_series t = uuid_str j" for t using that by auto
    qed
    have "mt_data_series ` set ?T \<subseteq> (\<lambda>r. uuid_str (dsr_id r)) ` set ?S"
    proof
      fix s
      assume "s \<in> mt_data_series ` set ?T"
      then have s: "s \<in> mt_data_series ` set T" "s \<noteq> uuid_str i" by auto
      then obtain r where "r \<in> set (mm_series db)" "s = uuid_str (dsr_id r)"
        using ok unfolding metamodel_ok_def locks_ok_def by blast
      with s(2) show "s \<in> (\<lambda>r. uuid_str (dsr_id r)) ` set ?S" by auto
    qed
    with ok right show ?thesis unfolding metamodel_ok_def locks_ok_def series by (simp add: distinct_map_filter)
  qed
  ultimately show ?thesis by (simp add: metamodel_ok_def del_data_series_def)
qed

text \<open>A state of the world in which the data series \<open>ds\<close> is a deleted one.\<close>

definition nuking :: "DataSeries_row \<Rightarrow> 's metamodel_world \<Rightarrow> bool" where
  "nuking ds w \<longleftrightarrow> world_ok w \<and> ds \<in> set (mm_series (mw_env w)) \<and> dsr_deleted_at ds \<noteq> None"

lemma nuking_in_db:
  fixes m :: "('s, 'a) metamodel_run"
  assumes "\<And>T db. metamodel_ok T db \<Longrightarrow> ds \<in> set (mm_series db) \<Longrightarrow> dsr_deleted_at ds \<noteq> None \<Longrightarrow>
    metamodel_ok T (snd (m db)) \<and> mm_series (snd (m db)) = mm_series db"
  shows "achieves (nuking ds) (in_db m) (\<lambda>_. nuking ds)"
proof (rule achievesI)
  fix w :: "'s metamodel_world" and x w1
  assume w: "nuking ds w" and "in_db m w = (Inr x, w1)"
  then have "w1 = w\<lparr>mw_env := snd (m (mw_env w))\<rparr>" by (auto simp: in_db_def split: prod.splits)
  with w assms [of "mw_tasks w" "mw_env w"] show "nuking ds w1" by (simp add: nuking_def world_ok_def)
qed

lemma nuking_prune: "achieves (nuking ds) (in_db (prune_meta_model now i older_than)) (\<lambda>_. nuking ds)"
proof (rule nuking_in_db)
  fix T and db :: "'a metamodel"
  assume "metamodel_ok T db"
  then have "pruning T (mm_series db) [] db" by (simp add: pruning_def)
  from keepsD [OF prune_meta_model_keeps this]
  show "metamodel_ok T (snd (prune_meta_model now i older_than db)) \<and>
    mm_series (snd (prune_meta_model now i older_than db)) = mm_series db" by (simp add: pruning_def)
qed

lemma nuking_drop:
  "t = row_mat_table ds \<or> t = row_hist_table ds \<Longrightarrow> achieves (nuking ds) (in_db (api_when b (drop_table t))) (\<lambda>_. nuking ds)"
proof (rule nuking_in_db)
  fix T and db :: "'a metamodel"
  assume "t = row_mat_table ds \<or> t = row_hist_table ds" "metamodel_ok T db" "ds \<in> set (mm_series db)" "dsr_deleted_at ds \<noteq> None"
  then have "metamodel_ok T (snd (drop_table t db))" by (intro dead_table_dropped)
  moreover have "mm_series (snd (drop_table t db)) = mm_series db" by (simp add: drop_table_def)
  ultimately show "metamodel_ok T (snd (api_when b (drop_table t) db)) \<and> mm_series (snd (api_when b (drop_table t) db)) = mm_series db"
    using \<open>metamodel_ok T db\<close> by (simp add: api_when_def api_return_def)
qed

lemma nuking_bulk: "achieves (nuking ds) (in_db (api_modify (\<lambda>db. db\<lparr>mm_bulk := f db\<rparr>))) (\<lambda>_. nuking ds)"
  by (intro nuking_in_db) (simp add: api_modify_def metamodel_ok_def)

lemma world_ok_undo: "world_ok w \<Longrightarrow> world_ok (undo_world w w1)"
  by (simp add: world_ok_def undo_world_def)

lemma nuke_data_series_keeps:
  assumes ok: "world_ok w"
  shows "world_ok (snd (nuke_data_series now i older_than w))"
proof -
  define final :: "('a metamodel_world, unit) api" where
    "final = api_modify (\<lambda>w. w\<lparr>mw_tasks := filter (\<lambda>t. mt_data_series t \<noteq> uuid_str i) (mw_tasks w),
                             mw_env := del_data_series i (mw_env w)\<rparr>)"
  have removed: "achieves (nuking ds) final (\<lambda>_. world_ok)" if "dsr_id ds = i" for ds
    using dead_series_removed [of _ _ ds] that
    by (auto simp: achieves_def final_def api_modify_def nuking_def world_ok_def)
  define read where "read = in_db (api_asks (\<lambda>db :: 'a metamodel. case find (\<lambda>r. dsr_id r = i) (mm_series db) of
      None \<Rightarrow> Inl DoesNotExist | Some r \<Rightarrow> if dsr_deleted_at r = None then Inl AssertionError else Inr r))"
  have found: "achieves world_ok read (\<lambda>ds w. nuking ds w \<and> dsr_id ds = i)"
    unfolding read_def achieves_def in_db_def api_asks_def nuking_def
    by (auto split: option.splits if_splits dest!: find_SomeD)
  define rest where "rest = (\<lambda>ds. api_bind (in_db (prune_meta_model now i older_than)) (\<lambda>_.
      api_bind (in_db (api_when (materialized_backend ds) (drop_table (row_mat_table ds)))) (\<lambda>_.
      api_bind (in_db (api_when (dsr_backend ds = FLAT_HISTORY_BACKEND) (drop_table (row_hist_table ds)))) (\<lambda>_.
      api_bind (in_db (api_modify (\<lambda>db. db\<lparr>mm_bulk := filter (\<lambda>t. bt_data_series t \<noteq> uuid_str i) (mm_bulk db)\<rparr>))) (\<lambda>_. final)))))"
  have "achieves (nuking ds) (rest ds) (\<lambda>_. world_ok)" if "dsr_id ds = i" for ds
    unfolding rest_def
    by (rule achieves_bind [OF nuking_prune], rule achieves_bind [OF nuking_drop], simp,
        rule achieves_bind [OF nuking_drop], simp, rule achieves_bind [OF nuking_bulk], rule removed [OF that])
  then have "achieves (\<lambda>w. nuking ds w \<and> dsr_id ds = i) (rest ds) (\<lambda>_. world_ok)" for ds
    by (auto simp: achieves_def)
  from achieves_bind [OF found this] have run: "achieves world_ok (api_bind read rest) (\<lambda>_. world_ok)" .
  have "nuke_data_series now i older_than w = (case api_bind read rest w of
      (Inl e, w1) \<Rightarrow> (Inl e, undo_world w w1) | (Inr x, w1) \<Rightarrow> (Inr x, w1))"
    by (simp add: nuke_data_series_def read_def rest_def final_def)
  with achievesD [OF run] ok world_ok_undo show ?thesis
    by (auto split: prod.splits sum.splits)
qed

section \<open>Steps\<close>

text \<open>
  One request or task; \<open>other\<close> is whatever leaves the definitions and tables alone: data points,
  permissions, bulk inserts, the settings of consumers. New ids are fresh, as UUIDs are.
\<close>

inductive metamodel_step :: "'s metamodel_world \<Rightarrow> 's metamodel_world \<Rightarrow> bool" where
  series_created: "fresh_uuid new_id (mw_env w) \<Longrightarrow>
    metamodel_step w (snd (in_db (create_data_series cx new_id external_id backend) w))"
| series_updated: "task_id \<notin> mt_id ` set (mw_tasks w) \<Longrightarrow>
    metamodel_step w (snd (update_data_series cx key partial_update given_id backend task_id w))"
| series_deleted: "metamodel_step w (snd (in_db (destroy_data_series cx key now) w))"
| element_created: "fresh_uuid new_id (mw_env w) \<Longrightarrow>
    metamodel_step w (snd (in_db (create_structure_element cx key kind new_id external_id name optional reference) w))"
| element_updated:
    "metamodel_step w (snd (in_db (update_structure_element cx key kind partial_update pk given_id given_name given_optional reference) w))"
| element_deleted: "metamodel_step w (snd (in_db (destroy_structure_element cx key kind pk now) w))"
| index_created: "fresh_uuid new_id (mw_env w) \<Longrightarrow>
    metamodel_step w (snd (in_db (create_user_defined_index cx key new_id external_id name given) w))"
| index_deleted: "metamodel_step w (snd (in_db (destroy_user_defined_index cx key pk now) w))"
| index_built: "metamodel_step w (snd (in_db run_index_message w))"
| migrated: "metamodel_step w (snd (run_migration now claimed task_id w))"
| pruned: "metamodel_step w (snd (in_db (prune_meta_model now i older_than) w))"
| nuked: "metamodel_step w (snd (nuke_data_series now i older_than w))"
| other: "metamodel_step w (w\<lparr>mw_env := (mw_env w)\<lparr>mm_consumers := consumers, mm_auth := auth, mm_bulk := bulk, mm_storage := storage\<rparr>\<rparr>)"

text \<open>Before the first data series: no rows and no task; other tables may exist.\<close>

definition no_metamodel :: "'s metamodel_world \<Rightarrow> bool" where
  "no_metamodel w \<longleftrightarrow> mw_tasks w = [] \<and> mm_series (mw_env w) = [] \<and> mm_children (mw_env w) = [] \<and> mm_indexes (mw_env w) = []"

definition metamodel_reachable :: "'s metamodel_world \<Rightarrow> bool" where
  "metamodel_reachable w \<longleftrightarrow> (\<exists>w0. no_metamodel w0 \<and> metamodel_step\<^sup>*\<^sup>* w0 w)"

lemma no_metamodel_ok: "no_metamodel w \<Longrightarrow> world_ok w"
  by (simp add: no_metamodel_def world_ok_def metamodel_ok_def ids_ok_def references_ok_def external_ids_ok_def locks_ok_def
      tables_ok_def typed_columns_def live_child_def live_series_def)

lemma in_db_keeps: "metamodel_ok (mw_tasks w) (snd (m (mw_env w))) \<Longrightarrow> world_ok (snd (in_db m w))"
  by (cases "m (mw_env w)") (simp add: in_db_def world_ok_def)

lemma metamodel_step_ok: "metamodel_step w w1 \<Longrightarrow> world_ok w \<Longrightarrow> world_ok w1"
proof (induction rule: metamodel_step.induct)
  case (pruned w now i older_than)
  then have "pruning (mw_tasks w) (mm_series (mw_env w)) [] (mw_env w)" by (simp add: pruning_def world_ok_def)
  from keepsD [OF prune_meta_model_keeps this] show ?case by (intro in_db_keeps) (simp add: pruning_def)
next
  case (index_built w)
  then show ?case by (intro in_db_keeps keepsD [OF builds_keeps [OF builds_run_index]]) (simp add: world_ok_def)
next
  case (other w)
  then show ?case by (simp add: world_ok_def metamodel_ok_def)
next
  case (migrated w)
  then show ?case by (rule run_migration_keeps)
next
  case (nuked w)
  then show ?case by (rule nuke_data_series_keeps)
next
  case (series_updated task_id w)
  then show ?case by (intro update_data_series_keeps)
next
  case (series_created new_id w)
  then show ?case by (intro in_db_keeps create_data_series_keeps) (simp add: world_ok_def)
next
  case (series_deleted w)
  then show ?case by (intro in_db_keeps destroy_data_series_keeps) (simp add: world_ok_def)
next
  case (element_created new_id w)
  then show ?case by (intro in_db_keeps create_structure_element_keeps) (simp add: world_ok_def)
next
  case (element_updated w)
  then show ?case by (intro in_db_keeps update_structure_element_keeps) (simp add: world_ok_def)
next
  case (element_deleted w)
  then show ?case by (intro in_db_keeps destroy_structure_element_keeps) (simp add: world_ok_def)
next
  case (index_created new_id w)
  then show ?case by (intro in_db_keeps create_user_defined_index_keeps) (simp add: world_ok_def)
next
  case (index_deleted w)
  then show ?case by (intro in_db_keeps destroy_user_defined_index_keeps) (simp add: world_ok_def)
qed

lemma reachable_ok: "metamodel_reachable w \<Longrightarrow> world_ok w"
  unfolding metamodel_reachable_def
proof (elim exE conjE)
  fix w0
  assume "metamodel_step\<^sup>*\<^sup>* w0 w" and "no_metamodel w0"
  then show "world_ok w" by (induction rule: rtranclp_induct) (auto simp: no_metamodel_ok metamodel_step_ok)
qed

section \<open>Indexes and pruning\<close>

lemma no_row_left:
  assumes "api_for drop_registered_index rows db = (Inr x, db1)" and "\<forall>r \<in> set (mm_registry db). by_source r = i \<longrightarrow> r \<in> set rows"
  shows "\<forall>r \<in> set (mm_registry db1). by_source r \<noteq> i"
proof -
  have "set (mm_registry db1) \<subseteq> {r \<in> set (mm_registry db). \<forall>q \<in> set rows. by_db_name r \<noteq> by_db_name q}"
    using assms(1)
  proof (induction rows arbitrary: db)
    case (Cons q rows)
    then obtain y db2 where q: "drop_registered_index q db = (Inr y, db2)" and rows: "api_for drop_registered_index rows db2 = (Inr x, db1)"
      by (auto elim: api_bind_InrE)
    from q have "mm_registry db2 = filter (\<lambda>r. by_db_name r \<noteq> by_db_name q) (mm_registry db)"
      by (auto simp: drop_registered_index_def drop_index_def api_modify_def elim!: api_bind_InrE split: if_splits)
    with Cons.IH [OF rows] show ?case by auto
  qed (simp add: api_return_def)
  with assms(2) show ?thesis by fastforce
qed

lemma prune_index_fails:
  assumes "dsr_backend ds = FLAT_HISTORY_BACKEND" and "prune_index ds x db = (Inr y, db1)"
  shows False
proof -
  from assms obtain db2 db3 where flat: "handle_drop_user_defined_index_flat_history (ix_id x) db = (Inr (), db2)"
    and mat: "handle_drop_user_defined_index_materialized (ix_id x) db2 = (Inr (), db3)"
    by (auto simp: prune_index_def api_when_def materialized_backend_def elim!: api_bind_InrE)
  from flat have "\<forall>r \<in> set (mm_registry db2). by_source r \<noteq> ix_id x"
    unfolding handle_drop_user_defined_index_flat_history_def drop_registered_indexes_def
    by (auto simp: api_get_def api_raise_def elim!: api_bind_InrE split: if_splits dest!: no_row_left [where i = "ix_id x"])
  then have "filter (\<lambda>r. by_source r = ix_id x) (mm_registry db2) = []" by (simp add: filter_empty_conv)
  with mat show False
    unfolding handle_drop_user_defined_index_materialized_def drop_registered_indexes_def
    by (simp add: api_bind_def api_get_def api_raise_def)
qed

lemma pruning_fails:
  assumes "find (\<lambda>r. dsr_id r = i) (mm_series db) = Some ds" and "dsr_backend ds = FLAT_HISTORY_BACKEND"
    and "dead_indexes db i older_than \<noteq> []"
  shows "prune_meta_model now i older_than db \<noteq> (Inr y, db1)"
proof -
  obtain x xs where dead: "dead_indexes db i older_than = x # xs" using assms(3) by (cases "dead_indexes db i older_than") auto
  show ?thesis
  proof
    assume "prune_meta_model now i older_than db = (Inr y, db1)"
    then have "\<exists>z db2. api_for (prune_index ds) (x # xs) db = (Inr z, db2)"
      using assms(1) dead by (auto simp: prune_meta_model_def api_asks_def api_get_def elim!: api_bind_InrE)
    then show False by (auto elim!: api_bind_InrE dest: prune_index_fails [OF assms(2)])
  qed
qed

end
