(* ===== verification/Server_Metamodel_Properties.thy ===== *)
theory Server_Metamodel_Properties
  imports Server_Metamodel_Steps
begin

text \<open>
  The properties of the metamodel: what holds of the tables and definitions of every reachable state
  (\<open>Server_Metamodel_Steps\<close>), what an expired index does to pruning, and that a migration keeps the data.
\<close>

section \<open>Migration and the data\<close>

lemma storage_columns:
  assumes "sw_hist (mm_storage db) t = []" and "handle_create_fact_in_materialized_table t c db = (Inr x, db1)" and "m \<noteq> t"
  shows "sw_hist (mm_storage db1) t = [] \<and> sw_mat (mm_storage db1) m = sw_mat (mm_storage db) m"
  using assms by (auto simp: handle_create_fact_in_materialized_table_def add_column_def null_column_def set_rows_def
      split: option.splits if_splits)

text \<open>The table of current versions \<open>m\<close> keeps its rows \<open>M\<close>, the table \<open>t\<close> has the history \<open>H\<close>.\<close>

definition data_are :: "string \<Rightarrow> mat_row list \<Rightarrow> string \<Rightarrow> hist_row list \<Rightarrow> 's metamodel \<Rightarrow> bool" where
  "data_are m M t H db \<longleftrightarrow> sw_mat (mm_storage db) m = M \<and> sw_hist (mm_storage db) t = H"

lemma data_column:
  "m \<noteq> t \<Longrightarrow> achieves (data_are m M t []) (handle_create_fact_in_materialized_table t c) (\<lambda>_. data_are m M t [])"
  unfolding data_are_def by (rule achievesI) (metis storage_columns)

lemma data_unchanged:
  "(\<And>db. mm_storage (snd (f db)) = mm_storage db) \<Longrightarrow> achieves (data_are m M t H) f (\<lambda>_. data_are m M t H)"
  unfolding data_are_def achieves_def by (metis snd_conv)

lemma get_unchanged: "achieves P (api_get f) (\<lambda>_. P)"
  by (simp add: achieves_def api_get_def)

lemma data_columns:
  "m \<noteq> t \<Longrightarrow> achieves (data_are m M t []) (api_bind (api_get f) (api_for (handle_create_fact_in_materialized_table t)))
     (\<lambda>_. data_are m M t [])"
  by (intro achieves_bind [OF get_unchanged] achieves_for data_column)

lemma data_table_created:
  "mm_tables db0 (row_hist_table ds) = None \<Longrightarrow>
     achieves (\<lambda>db. db = db0) (handle_create_data_series_materialized_flat_history ds)
       (\<lambda>_. data_are (row_mat_table ds) (sw_mat (mm_storage db0) (row_mat_table ds)) (row_hist_table ds) [])"
  by (auto simp: achieves_def data_are_def handle_create_data_series_materialized_flat_history_def create_table_def require_table_def
      no_rows_def set_rows_def elim!: api_bind_InrE split: if_splits)

lemma insert_histories_rows:
  "insert_histories hs rows = Inr rows1 \<Longrightarrow> rows1 = rows @ hs"
  "insert_histories hs rows = Inr rows1 \<Longrightarrow> distinct (map hr_key rows) \<Longrightarrow> distinct (map hr_key rows1)"
  by (induction hs arbitrary: rows) (force simp: rbind_Inr_iff insert_history_def split: if_splits)+

lemma data_copied:
  "achieves (data_are (row_mat_table ds) M (row_hist_table ds) []) (copy_to_history ds)
     (\<lambda>_ db. \<exists>H. rmap migrated_row M = Inr H \<and> distinct (map hr_key H) \<and> data_are (row_mat_table ds) M (row_hist_table ds) H db)"
proof (rule achievesI)
  fix db x db1
  assume db: "data_are (row_mat_table ds) M (row_hist_table ds) [] db" and run: "copy_to_history ds db = (Inr x, db1)"
  then obtain H rows where H: "rmap migrated_row M = Inr H" "insert_histories H [] = Inr rows"
    and "mm_storage db1 = (mm_storage db)\<lparr>sw_hist := (sw_hist (mm_storage db))(row_hist_table ds := rows)\<rparr>"
    by (auto simp: copy_to_history_def Let_def data_are_def rbind_Inr_iff split: sum.splits)
  with db insert_histories_rows [OF H(2)] show "\<exists>H. rmap migrated_row M = Inr H \<and> distinct (map hr_key H) \<and>
      data_are (row_mat_table ds) M (row_hist_table ds) H db1"
    by (auto simp: data_are_def)
qed

lemma migrated_row_content: "migrated_row r = Inr h \<Longrightarrow> same_content r h \<and> hr_id h = mr_id r"
  by (auto simp: migrated_row_def same_content_def insert_to_flat_history_query_def row_version_def hr_version_def split: option.splits)

lemma list_all2_partners:
  "list_all2 P xs ys \<Longrightarrow> (\<forall>y \<in> set ys. \<exists>x \<in> set xs. P x y) \<and> (\<forall>x \<in> set xs. \<exists>y \<in> set ys. P x y)"
  by (induction rule: list_all2_induct) auto

lemma migrated_reflects:
  assumes H: "rmap migrated_row M = Inr H" and keys: "distinct (map hr_key H)" and ids: "distinct (map mr_id M)"
  shows "reflects (M, H)"
proof -
  from H have rows: "list_all2 (\<lambda>r h. migrated_row r = Inr h) M H" by (simp add: rmap_Inr_iff)
  have to_row: "\<exists>r \<in> set M. migrated_row r = Inr h" if "h \<in> set H" for h
    using list_all2_partners [OF rows] that by blast
  have same_id: "h = g" if "h \<in> set H" "g \<in> set H" "hr_id h = hr_id g" for h g
  proof -
    from to_row [OF that(1)] to_row [OF that(2)] obtain r q where r: "r \<in> set M" "migrated_row r = Inr h"
      and q: "q \<in> set M" "migrated_row q = Inr g" by blast
    then have "mr_id r = mr_id q" using that(3) migrated_row_content [OF r(2)] migrated_row_content [OF q(2)] by simp
    then have "r = q" using same_key [OF ids r(1) q(1)] by simp
    with r q show ?thesis by simp
  qed
  have "\<exists>h. same_content r h \<and> newest h H" if "r \<in> set M" for r
  proof -
    from list_all2_partners [OF rows] that obtain h where h: "h \<in> set H" "migrated_row r = Inr h" by blast
    then have "newest h H" using same_id by (auto simp: newest_def)
    with migrated_row_content [OF h(2)] show ?thesis by blast
  qed
  moreover have "hr_id h \<in> mr_id ` set M" if "h \<in> set H" for h
    using to_row [OF that] migrated_row_content [of _ h] by force
  ultimately show ?thesis using keys by (auto simp: reflects_def)
qed

lemma migration_copies:
  assumes run: "migrate_no_history_to_flat_history t db = (Inr x, db1)" and ds: "series_to_migrate (mt_data_series t) db = Inr ds"
    and none: "mm_tables db (row_hist_table ds) = None"
  shows "\<exists>H. rmap migrated_row (sw_mat (mm_storage db) (row_mat_table ds)) = Inr H \<and> distinct (map hr_key H) \<and>
    data_are (row_mat_table ds) (sw_mat (mm_storage db) (row_mat_table ds)) (row_hist_table ds) H db1"
proof -
  let ?m = "row_mat_table ds" and ?t = "row_hist_table ds"
  let ?M = "sw_mat (mm_storage db) ?m"
  let ?Q = "\<lambda>(_ :: unit) db. \<exists>H. rmap migrated_row ?M = Inr H \<and> distinct (map hr_key H) \<and> data_are ?m ?M ?t H db"
  note created = data_table_created [OF none]
  have facts: "achieves (data_are ?m ?M ?t []) (api_for (\<lambda>kind. api_bind (api_get (\<lambda>db. relation_set db (dsr_id ds) kind))
            (api_for (handle_create_fact_in_materialized_table ?t))) migrated_kinds) (\<lambda>_. data_are ?m ?M ?t [])"
    by (intro achieves_for data_columns) simp
  have dims: "achieves (data_are ?m ?M ?t []) (api_bind (api_get (\<lambda>db. relation_set db (dsr_id ds) dimensions))
            (api_for (handle_create_fact_in_materialized_table ?t))) (\<lambda>_. data_are ?m ?M ?t [])"
    by (intro data_columns) simp
  have messages: "achieves (?Q ()) (api_bind (api_get (\<lambda>db. live_indexes db (dsr_id ds)))
      (api_for (\<lambda>i. handle_create_user_defined_index (message i)))) ?Q" for message :: "Index_row \<Rightarrow> index_message"
    by (intro achieves_bind [OF get_unchanged] achieves_for) (auto simp: achieves_def handle_create_user_defined_index_def api_modify_def data_are_def)
  have unlock: "achieves (?Q ()) (unlock_series ds) ?Q"
    by (auto simp: achieves_def unlock_series_def api_modify_def data_are_def)
  have all: "achieves (\<lambda>db1. db1 = db)
     (api_bind (atomic_metamodel
       (api_bind (handle_create_data_series_materialized_flat_history ds) (\<lambda>_.
        api_bind (api_for (\<lambda>kind. api_bind (api_get (\<lambda>db. relation_set db (dsr_id ds) kind))
            (api_for (handle_create_fact_in_materialized_table ?t))) migrated_kinds) (\<lambda>_.
        api_bind (api_bind (api_get (\<lambda>db. relation_set db (dsr_id ds) dimensions))
            (api_for (handle_create_fact_in_materialized_table ?t))) (\<lambda>_.
        api_bind (copy_to_history ds) (\<lambda>_.
        api_bind (api_get (\<lambda>db. live_indexes db (dsr_id ds)))
          (api_for (\<lambda>i. handle_create_user_defined_index (message i))))))))) (\<lambda>_. unlock_series ds)) ?Q"
    for message :: "Index_row \<Rightarrow> index_message"
    by (intro achieves_bind [OF achieves_atomic_metamodel unlock] achieves_bind [OF created] achieves_bind [OF facts]
        achieves_bind [OF dims] achieves_bind [OF data_copied] messages)
  have "api_bind (api_asks (series_to_migrate (mt_data_series t))) g db = g ds db" for g :: "DataSeries_row \<Rightarrow> ('a, unit) metamodel_run"
    using ds by (simp add: api_bind_def api_asks_def)
  with run show ?thesis
    unfolding migrate_no_history_to_flat_history_def dimension_loop by (auto dest: achievesD [OF all])
qed

section \<open>An example\<close>

text \<open>A superuser of tenant 3, who creates a data series and gives it a fact.\<close>

definition demo_cx :: request_context where
  "demo_cx =
     \<lparr>cx_guardian = (table_guardian [])\<lparr>ga_assign_perm := (\<lambda>perm who obj db. (Inr (), db))\<rparr>,
      cx_maintenance = \<lparr>MAINTENANCE_MODE = False, MAINTENANCE_USER_ID = None\<rparr>, cx_tenant = Some 3,
      cx_user = \<lparr>us_id = 1, us_is_anonymous = False, us_is_superuser = True, us_is_staff = False\<rparr>\<rparr>"

definition demo_ds :: "string \<Rightarrow> bool \<Rightarrow> DataSeries_row" where
  "demo_ds backend locked =
     \<lparr>dsr_id = 1, dsr_external_id = ''series'', dsr_tenant = 3, dsr_deleted_at = None, dsr_backend = backend, dsr_locked = locked\<rparr>"

definition demo_fact :: Child_row where
  "demo_fact =
     \<lparr>ch_id = 2, ch_kind = float_facts, ch_data_series = 1, ch_external_id = ''temp'', ch_name = ''T'', ch_optional = False,
      ch_reference = None, ch_deleted_at = None, ch_rel_deleted_at = None\<rparr>"

definition demo_db :: "DataSeries_row list \<Rightarrow> Child_row list \<Rightarrow> Index_row list \<Rightarrow>
    (string \<Rightarrow> (string \<Rightarrow> string option) option) \<Rightarrow> unit storage_world \<Rightarrow> unit metamodel" where
  "demo_db series children indexes tabs storage =
     \<lparr>mm_series = series, mm_children = children, mm_indexes = indexes, mm_consumers = [], mm_registry = [],
      mm_index_messages = [], mm_tables = tabs, mm_pg_indexes = [], mm_auth = demo_auth, mm_bulk = [], mm_storage = storage\<rparr>"

lemma demo_db_simps [simp]:
  "mm_series (demo_db S C I T w) = S" "mm_children (demo_db S C I T w) = C" "mm_indexes (demo_db S C I T w) = I"
  "mm_tables (demo_db S C I T w) = T" "mm_storage (demo_db S C I T w) = w" "dsr_id (demo_ds b l) = 1"
  "dsr_backend (demo_ds b l) = b" "dsr_tenant (demo_ds b l) = 3" "dsr_deleted_at (demo_ds b l) = None" "dsr_locked (demo_ds b l) = l"
  "(demo_db S C I T w)\<lparr>mm_series := S1\<rparr> = demo_db S1 C I T w" "(demo_db S C I T w)\<lparr>mm_children := C1\<rparr> = demo_db S C1 I T w"
  "(demo_db S C I T w)\<lparr>mm_tables := T1\<rparr> = demo_db S C I T1 w" "(demo_db S C I T w)\<lparr>mm_storage := w1\<rparr> = demo_db S C I T w1"
  "(demo_db S C I T w)\<lparr>mm_tables := T1, mm_storage := w1\<rparr> = demo_db S C I T1 w1"
  by (simp_all add: demo_db_def demo_ds_def)

lemma demo_permissions: "metamodel_permissions demo_cx db action verb (Inr x) = Inr ()"
  by (simp add: metamodel_permissions_def view_permissions_def demo_cx_def table_guardian_def)

lemma demo_series_of_request:
  assumes "mm_series db = [demo_ds backend False]" and "\<not> backend_is_deprecated backend"
  shows "series_of_request demo_cx (By_external_id ''series'') action verb db = Inr (demo_ds backend False)"
proof -
  have "get_data_series_object (cx_guardian demo_cx) (cx_maintenance demo_cx) (mm_auth db) (mm_series db) (cx_tenant demo_cx)
      (cx_user demo_cx) (By_external_id ''series'') action (Some verb) = Inr (Some (demo_ds backend False))"
    using assms
    by (simp add: get_data_series_object_def get_data_series_id_def get_object_or_404_def DataSeries_objects_def demo_ds_def
        get_objects_for_user_custom_def Let_def default_visibility_def ensure_http_method_globally_allowed_def demo_cx_def table_guardian_def)
  then show ?thesis by (simp add: series_of_request_def Let_def demo_permissions)
qed

lemma api_for_idle: "(\<And>x. x \<in> set xs \<Longrightarrow> f x w = (Inr (), w)) \<Longrightarrow> api_for f xs w = (Inr (), w)"
  by (induction xs) (simp_all add: api_return_def api_bind_def)

definition demo_world0 :: "unit metamodel_world" where
  "demo_world0 = \<lparr>mw_tasks = [], mw_env = demo_db [] [] [] Map.empty demo_start\<rparr>"

definition demo_world1 :: "unit metamodel_world" where
  "demo_world1 = snd (in_db (create_data_series demo_cx 1 ''series'' None) demo_world0)"

definition demo_world2 :: "unit metamodel_world" where
  "demo_world2 = snd (in_db (create_structure_element demo_cx (By_external_id ''series'') float_facts 2 ''temp'' ''T'' False None) demo_world1)"

lemma demo_assign:
  "api_for (\<lambda>action. api_for (\<lambda>http_verb. on_auth (ga_assign_perm (cx_guardian demo_cx) (p action http_verb) who obj)) verbs) actions db =
     (Inr (), db)"
  by (intro api_for_idle) (simp add: on_auth_def demo_cx_def)

lemma demo_world1:
  "\<exists>storage. demo_world1 = \<lparr>mw_tasks = [], mw_env = demo_db [demo_ds FLAT_HISTORY_BACKEND False] [] []
     [row_mat_table (demo_ds FLAT_HISTORY_BACKEND False) \<mapsto> map_of mat_base_columns,
      row_hist_table (demo_ds FLAT_HISTORY_BACKEND False) \<mapsto> map_of hist_base_columns] storage\<rparr>"
proof -
  have new: "validate_new_series demo_cx (mw_env demo_world0) ''series'' FLAT_HISTORY_BACKEND = Inr ()" by code_simp
  have anon: "\<not> us_is_anonymous (cx_user demo_cx)" "cx_tenant demo_cx = Some 3" by (simp_all add: demo_cx_def)
  show ?thesis
    using new anon
    by (simp add: demo_assign demo_world1_def in_db_def create_data_series_def api_bind_def api_asks_def Let_def default_backend_def
      demo_permissions atomic_metamodel_def insert_series_def api_when_def demo_world0_def demo_db_def demo_ds_def
      handle_create_data_series_def materialized_backend_def handle_create_data_series_materialized_def create_table_def
      handle_create_data_series_materialized_flat_history_def require_table_def)
qed

lemma demo_world2:
  "mw_tasks demo_world2 = []" "mm_series (mw_env demo_world2) = [demo_ds FLAT_HISTORY_BACKEND False]"
  "mm_children (mw_env demo_world2) = [demo_fact]" "mm_indexes (mw_env demo_world2) = []"
proof -
  obtain storage where w: "demo_world1 = \<lparr>mw_tasks = [], mw_env = demo_db [demo_ds FLAT_HISTORY_BACKEND False] [] []
     [row_mat_table (demo_ds FLAT_HISTORY_BACKEND False) \<mapsto> map_of mat_base_columns,
      row_hist_table (demo_ds FLAT_HISTORY_BACKEND False) \<mapsto> map_of hist_base_columns] storage\<rparr>"
    using demo_world1 by blast
  let ?db = "demo_db [demo_ds FLAT_HISTORY_BACKEND False] [] []
     [row_mat_table (demo_ds FLAT_HISTORY_BACKEND False) \<mapsto> map_of mat_base_columns,
      row_hist_table (demo_ds FLAT_HISTORY_BACKEND False) \<mapsto> map_of hist_base_columns] storage"
  have ds: "series_of_request demo_cx (By_external_id ''series'') ''structure_element'' ''POST'' ?db =
      Inr (demo_ds FLAT_HISTORY_BACKEND False)"
    by (intro demo_series_of_request) (simp_all add: demo_db_def backend_is_deprecated_def deprecated_backend_strings_def)
  have "validate_external_id_sql_safe ''temp''" by code_simp
  then have "create_structure_element demo_cx (By_external_id ''series'') float_facts 2 ''temp'' ''T'' False None ?db =
      atomic_metamodel (api_bind (insert_child demo_fact) (\<lambda>_. handle_create_fact (demo_ds FLAT_HISTORY_BACKEND False) demo_fact)) ?db"
    using ds by (simp add: create_structure_element_def api_bind_def [of "api_asks _"] api_asks_def Let_def demo_fact_def
      validate_new_external_id_def relation_set_def validate_reference_def validated_kinds_def)
  moreover have "\<exists>T w. atomic_metamodel (api_bind (insert_child demo_fact)
      (\<lambda>_. handle_create_fact (demo_ds FLAT_HISTORY_BACKEND False) demo_fact)) ?db =
      (Inr (), demo_db [demo_ds FLAT_HISTORY_BACKEND False] [demo_fact] [] T w)"
    by (simp add: atomic_metamodel_def insert_child_def api_bind_def relation_set_def handle_create_fact_def api_when_def
      handle_create_fact_in_materialized_table_def add_column_def materialized_backend_def child_column_def) (intro exI, rule refl)
  ultimately obtain T u where "create_structure_element demo_cx (By_external_id ''series'') float_facts 2 ''temp'' ''T'' False None ?db =
      (Inr (), demo_db [demo_ds FLAT_HISTORY_BACKEND False] [demo_fact] [] T u)" by auto
  then show "mw_tasks demo_world2 = []" "mm_series (mw_env demo_world2) = [demo_ds FLAT_HISTORY_BACKEND False]"
    "mm_children (mw_env demo_world2) = [demo_fact]" "mm_indexes (mw_env demo_world2) = []"
    by (simp_all add: demo_world2_def w in_db_def)
qed

lemma demo_reachable: "metamodel_reachable demo_world2"
proof -
  have "fresh_uuid 1 (mw_env demo_world0)"
    by (simp add: fresh_uuid_def demo_world0_def uuid_def)
  then have 1: "metamodel_step demo_world0 demo_world1"
    unfolding demo_world1_def by (rule series_created)
  have "fresh_uuid 2 (mw_env demo_world1)"
  proof -
    obtain storage where w: "demo_world1 = \<lparr>mw_tasks = [], mw_env = demo_db [demo_ds FLAT_HISTORY_BACKEND False] [] []
      [row_mat_table (demo_ds FLAT_HISTORY_BACKEND False) \<mapsto> map_of mat_base_columns,
       row_hist_table (demo_ds FLAT_HISTORY_BACKEND False) \<mapsto> map_of hist_base_columns] storage\<rparr>"
      using demo_world1 by blast
    show ?thesis unfolding w by (auto simp: fresh_uuid_def uuid_def split: if_splits)
  qed
  then have 2: "metamodel_step demo_world1 demo_world2"
    unfolding demo_world2_def by (rule element_created)
  have "no_metamodel demo_world0" by (simp add: no_metamodel_def demo_world0_def)
  with 1 2 show ?thesis unfolding metamodel_reachable_def by (meson r_into_rtranclp rtranclp.rtrancl_into_rtrancl)
qed

section \<open>Properties\<close>

definition column_type :: "(string \<Rightarrow> (string \<Rightarrow> string option) option) \<Rightarrow> string \<Rightarrow> string \<Rightarrow> string option" where
  "column_type T table column = (case T table of None \<Rightarrow> None | Some columns \<Rightarrow> columns column)"

lemma column_type_iff: "column_type T t (child_column c) = Some (value_column_def (ch_kind c)) \<longleftrightarrow> has_column T t c"
  by (auto simp: column_type_def has_column_def split: option.splits)

lemma storage_key_child:
  assumes "storage_series db r = Inr s" and "k \<in> set (data_keys (ds_keys s))"
  shows "\<exists>c. live_child (mm_children db) (dsr_id r) c \<and> fst k = ch_kind c \<and> key_column k = child_column c"
proof -
  from assms(1) have s: "ds_keys s = (\<lambda>kind. dict_comp ch_external_id (\<lambda>c. uuid_str (ch_id c)) (relation_set db (dsr_id r) kind))"
    by (auto simp: storage_series_def rbind_Inr_iff)
  from assms(2) obtain kind e u where k: "k = (kind, e, u)" and u: "(e, u) \<in> set (ds_keys s kind)"
    by (auto simp: data_keys_def)
  then have "map_of (dict_comp ch_external_id (\<lambda>c. uuid_str (ch_id c)) (relation_set db (dsr_id r) kind)) e = Some u"
    unfolding s by (intro map_of_is_SomeI dict_comp_distinct)
  then obtain c where "c \<in> set (relation_set db (dsr_id r) kind)" "ch_external_id c = e" "uuid_str (ch_id c) = u"
    by (auto simp: dict_simps dest!: find_SomeD)
  with k show ?thesis by (auto simp: in_relation_set key_column_def child_column_def)
qed


text \<open>C21: The storage follows the definitions: in every state that requests, tasks and failures of both reach, a live
  data series that is not being migrated has its table of current versions, with a column of the right type for
  every fact and dimension under the name the queries use; with the backend for histories the same holds of its history.\<close>

theorem storage_follows_metamodel:
  assumes "metamodel_reachable w" and "r \<in> set (mm_series (mw_env w))" and "dsr_deleted_at r = None"
    and "materialized_backend r" and "\<not> dsr_locked r"
  shows "case storage_series (mw_env w) r of Inl _ \<Rightarrow> False
    | Inr s \<Rightarrow> mm_tables (mw_env w) (mat_table s) \<noteq> None \<and>
        (ds_backend s = DYNAMIC_SQL_MATERIALIZED_FLAT_HISTORY \<longrightarrow> mm_tables (mw_env w) (hist_table s) \<noteq> None) \<and>
        (\<forall>k \<in> set (data_keys (ds_keys s)).
           column_type (mm_tables (mw_env w)) (mat_table s) (key_column k) = Some (value_column_def (fst k)) \<and>
           (ds_backend s = DYNAMIC_SQL_MATERIALIZED_FLAT_HISTORY \<longrightarrow>
              column_type (mm_tables (mw_env w)) (hist_table s) (key_column k) = Some (value_column_def (fst k))))"
proof -
  let ?db = "mw_env w"
  have live: "live_series (mm_series ?db) (dsr_id r) r" using assms(2,3) by (simp add: live_series_def)
  have mat: "table_of (mm_tables ?db) (mm_children ?db) (dsr_id r) (row_mat_table r)"
    and hist: "dsr_backend r = FLAT_HISTORY_BACKEND \<Longrightarrow> table_of (mm_tables ?db) (mm_children ?db) (dsr_id r) (row_hist_table r)"
    using reachable_ok [OF assms(1)] live assms(4,5) unfolding world_ok_def metamodel_ok_def tables_ok_def by blast+
  obtain s where s: "storage_series ?db r = Inr s" and names: "mat_table s = row_mat_table r" "hist_table s = row_hist_table r"
    and backend: "ds_backend s = DYNAMIC_SQL_MATERIALIZED_FLAT_HISTORY \<Longrightarrow> dsr_backend r = FLAT_HISTORY_BACKEND"
    using assms(4) by (auto simp: storage_series_def backend_from_string_def materialized_backend_def mat_table_def
      hist_table_def row_mat_table_def row_hist_table_def split: if_splits)
  have "\<exists>c. live_child (mm_children ?db) (dsr_id r) c \<and> fst k = ch_kind c \<and> key_column k = child_column c"
    if "k \<in> set (data_keys (ds_keys s))" for k
    using storage_key_child [OF s that] .
  then show ?thesis
    using mat hist backend by (simp add: s names table_of_def) (metis column_type_iff)
qed

theorem storage_follows_metamodel_witness:
  "column_type (mm_tables (mw_env demo_world2)) (row_hist_table (demo_ds FLAT_HISTORY_BACKEND False)) (child_column demo_fact) =
     Some ''double precision''"
proof -
  let ?ds = "demo_ds FLAT_HISTORY_BACKEND False"
  obtain s where s: "storage_series (mw_env demo_world2) ?ds = Inr s" "hist_table s = row_hist_table ?ds"
    "ds_backend s = DYNAMIC_SQL_MATERIALIZED_FLAT_HISTORY" "ds_keys s float_facts = [(''temp'', uuid_str 2)]"
    by (simp add: storage_series_def backend_from_string_def relation_set_def demo_world2 demo_fact_def hist_table_def
      row_hist_table_def dict_comp_def)
  have "?ds \<in> set (mm_series (mw_env demo_world2))" "materialized_backend ?ds"
    by (simp_all add: demo_world2 materialized_backend_def)
  note run = storage_follows_metamodel [OF demo_reachable this(1) _ this(2), unfolded s(1), simplified]
  have "(float_facts, ''temp'', uuid_str 2) \<in> set (data_keys (ds_keys s))"
    using s(4) by (simp add: data_keys_def FACT_DIM_ORDER_IN_SQL_def)
  moreover have "key_column (float_facts, ''temp'', uuid_str 2) = child_column demo_fact"
    by (simp add: key_column_def child_column_def demo_fact_def)
  ultimately show ?thesis using run s by (fastforce simp: value_column_def_def)
qed

text \<open>C22: Definitions stay connected: in every reachable state a live fact or dimension belongs to a live data series, a live
  dimension refers to a live data series of the same tenant, the targets of a live index are live elements of
  its data series, and two live facts or dimensions of a data series share an external id only if one is a file fact and
  the other is not (the code does not compare these two). About the external ids of data series and of indexes the
  property says nothing.\<close>

theorem definitions_stay_connected:
  assumes "metamodel_reachable w" and "c \<in> set (mm_children (mw_env w))" and "ch_rel_deleted_at c = None"
  shows "(\<exists>r \<in> set (mm_series (mw_env w)). dsr_id r = ch_data_series c \<and> dsr_deleted_at r = None \<and>
      (ch_kind c = dimensions \<longrightarrow> (\<exists>q \<in> set (mm_series (mw_env w)).
         ch_reference c = Some (dsr_id q) \<and> dsr_deleted_at q = None \<and> dsr_tenant q = dsr_tenant r))) \<and>
    (\<forall>d \<in> set (mm_children (mw_env w)). ch_rel_deleted_at d = None \<and> ch_data_series d = ch_data_series c \<and>
       ch_external_id d = ch_external_id c \<and> ch_id d \<noteq> ch_id c \<longrightarrow> (ch_kind d = file_facts) \<noteq> (ch_kind c = file_facts)) \<and>
    (\<forall>x \<in> set (mm_indexes (mw_env w)). ix_rel_deleted_at x = None \<longrightarrow> (\<forall>t \<in> set (ix_targets x).
       \<exists>e \<in> set (mm_children (mw_env w)). ch_rel_deleted_at e = None \<and> ch_data_series e = ix_data_series x \<and>
         ch_id e = fst t \<and> ch_kind e = snd t))"
proof -
  have ok: "metamodel_ok (mw_tasks w) (mw_env w)" using reachable_ok [OF assms(1)] by (simp add: world_ok_def)
  have c: "live_child (mm_children (mw_env w)) (ch_data_series c) c" using assms(2,3) by (simp add: live_child_def)
  show ?thesis
  proof (intro conjI ballI impI)
    show "\<exists>r \<in> set (mm_series (mw_env w)). dsr_id r = ch_data_series c \<and> dsr_deleted_at r = None \<and>
      (ch_kind c = dimensions \<longrightarrow> (\<exists>q \<in> set (mm_series (mw_env w)).
         ch_reference c = Some (dsr_id q) \<and> dsr_deleted_at q = None \<and> dsr_tenant q = dsr_tenant r))"
      using ok c unfolding metamodel_ok_def references_ok_def live_series_def by metis
    show "(ch_kind d = file_facts) \<noteq> (ch_kind c = file_facts)"
      if "d \<in> set (mm_children (mw_env w))" "ch_rel_deleted_at d = None \<and> ch_data_series d = ch_data_series c \<and>
       ch_external_id d = ch_external_id c \<and> ch_id d \<noteq> ch_id c" for d
      using ok c that unfolding metamodel_ok_def external_ids_ok_def live_child_def by metis
    show "\<exists>e \<in> set (mm_children (mw_env w)). ch_rel_deleted_at e = None \<and> ch_data_series e = ix_data_series x \<and>
         ch_id e = fst t \<and> ch_kind e = snd t"
      if "x \<in> set (mm_indexes (mw_env w))" "ix_rel_deleted_at x = None" "t \<in> set (ix_targets x)" for x t
      using index_targets_live [OF ok that] by (auto simp: live_child_def)
  qed
qed

theorem definitions_stay_connected_witness:
  "\<exists>r \<in> set (mm_series (mw_env demo_world2)). dsr_id r = 1 \<and> dsr_deleted_at r = None"
  using definitions_stay_connected [OF demo_reachable, of demo_fact] by (auto simp: demo_world2 demo_fact_def)

lemma prune_index_stops:
  assumes "dsr_backend ds = FLAT_HISTORY_BACKEND"
  shows "\<exists>e db1. prune_index ds x db = (Inl e, db1) \<and> same_rows db db1"
proof -
  define drop where "drop = (api_bind (api_when (dsr_backend ds = FLAT_HISTORY_BACKEND) (handle_drop_user_defined_index_flat_history (ix_id x)))
      (\<lambda>_. api_when (materialized_backend ds) (handle_drop_user_defined_index_materialized (ix_id x))) :: ('a, unit) metamodel_run)"
  define remove :: "('a, unit) metamodel_run" where "remove = api_modify (\<lambda>db. db\<lparr>mm_indexes := filter (\<lambda>d. ix_id d \<noteq> ix_id x) (mm_indexes db)\<rparr>)"
  have split: "prune_index ds x = api_bind drop (\<lambda>_. remove)" by (simp add: prune_index_def drop_def remove_def bind_assoc)
  have "builds C drop" for C
    unfolding drop_def handle_drop_user_defined_index_flat_history_def handle_drop_user_defined_index_materialized_def
    by (intro build_rules builds_drop_registered)
  then have rows: "same_rows db (snd (drop db))" unfolding builds_def by blast
  show ?thesis
  proof (cases "drop db")
    case (Pair r db1)
    show ?thesis
    proof (cases r)
      case (Inl e)
      with Pair rows show ?thesis by (simp add: split api_bind_def)
    next
      case (Inr y)
      with Pair have "prune_index ds x db = (Inr (), snd (remove db1))"
        by (simp add: split api_bind_def remove_def api_modify_def)
      then show ?thesis using prune_index_fails [OF assms] by blast
    qed
  qed
qed

lemma pruning_stops:
  assumes ds: "find (\<lambda>r. dsr_id r = i) (mm_series db) = Some ds" "dsr_backend ds = FLAT_HISTORY_BACKEND"
    and dead: "dead_indexes db i older_than = x # xs"
  shows "\<exists>e db1. prune_meta_model now i older_than db = (Inl e, db1) \<and> same_rows db db1 \<and> prune_index ds x db = (Inl e, db1)"
proof -
  from prune_index_stops [OF ds(2), of x db] obtain e db1 where x: "prune_index ds x db = (Inl e, db1)" and rows: "same_rows db db1"
    by blast
  have "prune_meta_model now i older_than db = (Inl e, db1)"
    using ds(1) dead x by (simp add: prune_meta_model_def api_bind_def api_asks_def api_get_def)
  with rows x show ?thesis by blast
qed

text \<open>What is lost when the index is registered as building it leaves it: once for each of the tables.\<close>

lemma prune_index_drops:
  fixes db :: "'s metamodel"
  assumes "dsr_backend ds = FLAT_HISTORY_BACKEND"
    and rows: "filter (\<lambda>r. by_source r = ix_id x) (mm_registry db) = [a, b]"
    and names: "by_db_name a \<noteq> by_db_name b" "by_db_name a \<in> fst ` set (mm_pg_indexes db)" "by_db_name b \<in> fst ` set (mm_pg_indexes db)"
  shows "prune_index ds x db = (Inl AssertionError, db
    \<lparr>mm_registry := filter (\<lambda>r. by_db_name r \<notin> {by_db_name a, by_db_name b}) (mm_registry db),
     mm_pg_indexes := filter (\<lambda>i. fst i \<notin> {by_db_name a, by_db_name b}) (mm_pg_indexes db)\<rparr>)"
proof -
  let ?R = "filter (\<lambda>r. by_db_name r \<notin> {by_db_name a, by_db_name b}) (mm_registry db)"
  have "by_source r \<noteq> ix_id x" if "r \<in> set ?R" for r
  proof
    assume "by_source r = ix_id x"
    with that have "r \<in> set (filter (\<lambda>r. by_source r = ix_id x) (mm_registry db))" by simp
    with rows that show False by auto
  qed
  then have none: "filter (\<lambda>r. by_source r = ix_id x) ?R = []" unfolding filter_empty_conv by blast
  let ?db1 = "db\<lparr>mm_pg_indexes := filter (\<lambda>i. fst i \<notin> {by_db_name a, by_db_name b}) (mm_pg_indexes db), mm_registry := ?R\<rparr>"
  have "by_db_name b \<in> fst ` set (filter (\<lambda>i. fst i \<noteq> by_db_name a) (mm_pg_indexes db))" using names by auto
  then have "handle_drop_user_defined_index_flat_history (ix_id x) db = (Inr (), ?db1)"
    using names(2) rows
    by (simp add: handle_drop_user_defined_index_flat_history_def drop_registered_indexes_def drop_registered_index_def
      drop_index_def api_bind_def api_get_def api_modify_def api_return_def conj_commute)
  moreover have "handle_drop_user_defined_index_materialized (ix_id x) ?db1 = (Inl AssertionError, ?db1)"
    using none by (simp add: handle_drop_user_defined_index_materialized_def drop_registered_indexes_def api_bind_def
      api_get_def api_raise_def)
  ultimately show ?thesis
    by (simp add: prune_index_def assms(1) materialized_backend_def api_bind_def api_when_def)
qed

text \<open>C24: An index blocks pruning: once an index of a data series with a history is due, pruning the definitions of the data
  series always raises and removes no row of a definition, so the elements that are due stay as well. But the
  work is lost halfway: if the first due index is registered as building it leaves it (once for each of the two
  tables), its entries in the registry and its database indexes are gone when the error comes. If the data series
  is deleted, the task that should remove it raises too and, being a transaction, leaves everything as it was.\<close>

theorem index_blocks_pruning:
  assumes "find (\<lambda>r. dsr_id r = i) (mm_series (mw_env w)) = Some ds" and "dsr_backend ds = FLAT_HISTORY_BACKEND"
    and "dead_indexes (mw_env w) i older_than = x # xs"
  shows "(case prune_meta_model now i older_than (mw_env w) of
      (Inl e, db) \<Rightarrow> mm_series db = mm_series (mw_env w) \<and> mm_children db = mm_children (mw_env w) \<and> mm_indexes db = mm_indexes (mw_env w) \<and>
        (\<forall>a b. filter (\<lambda>r. by_source r = ix_id x) (mm_registry (mw_env w)) = [a, b] \<and> by_db_name a \<noteq> by_db_name b \<and>
          {by_db_name a, by_db_name b} \<subseteq> fst ` set (mm_pg_indexes (mw_env w)) \<longrightarrow> e = AssertionError \<and>
          mm_registry db = filter (\<lambda>r. by_db_name r \<notin> {by_db_name a, by_db_name b}) (mm_registry (mw_env w)) \<and>
          mm_pg_indexes db = filter (\<lambda>p. fst p \<notin> {by_db_name a, by_db_name b}) (mm_pg_indexes (mw_env w)))
    | (Inr _, _) \<Rightarrow> False) \<and>
    (case nuke_data_series now i older_than w of
      (Inl _, w1) \<Rightarrow> mw_tasks w1 = mw_tasks w \<and>
        (\<exists>messages. mw_env w1 = mw_env w\<lparr>mm_index_messages := messages\<rparr>)
    | (Inr _, _) \<Rightarrow> False)"
proof -
  from pruning_stops [OF assms, of now] obtain e db1
    where run: "prune_meta_model now i older_than (mw_env w) = (Inl e, db1)" and rows: "same_rows (mw_env w) db1"
    and prune: "prune_index ds x (mw_env w) = (Inl e, db1)" by blast
  have same: "\<exists>messages. mw_env w = mw_env w\<lparr>mm_index_messages := messages\<rparr>"
    by (rule exI [of _ "mm_index_messages (mw_env w)"]) simp
  have "case nuke_data_series now i older_than w of
      (Inl _, w1) \<Rightarrow> mw_tasks w1 = mw_tasks w \<and> (\<exists>messages. mw_env w1 = mw_env w\<lparr>mm_index_messages := messages\<rparr>)
    | (Inr _, _) \<Rightarrow> False"
    using assms(1) run same
    by (cases "dsr_deleted_at ds")
      (auto simp: nuke_data_series_def api_bind_def in_db_def api_asks_def undo_world_def undo_metamodel_def)
  moreover have "e = AssertionError \<and>
      mm_registry db1 = filter (\<lambda>r. by_db_name r \<notin> {by_db_name a, by_db_name b}) (mm_registry (mw_env w)) \<and>
      mm_pg_indexes db1 = filter (\<lambda>p. fst p \<notin> {by_db_name a, by_db_name b}) (mm_pg_indexes (mw_env w))"
    if "filter (\<lambda>r. by_source r = ix_id x) (mm_registry (mw_env w)) = [a, b]" and "by_db_name a \<noteq> by_db_name b"
      and "{by_db_name a, by_db_name b} \<subseteq> fst ` set (mm_pg_indexes (mw_env w))" for a b
    using prune_index_drops [OF assms(2) that(1,2)] that(3) prune by auto
  ultimately show ?thesis unfolding run prod.case sum.case using rows by (auto simp: same_rows_def)
qed

definition demo_index :: Index_row where
  "demo_index = \<lparr>ix_id = 3, ix_data_series = 1, ix_external_id = ''by_temp'', ix_name = ''I'', ix_targets = [(2, float_facts)],
     ix_deleted_at = Some 5, ix_rel_deleted_at = Some 5\<rparr>"

text \<open>The registry as building the index leaves it: one row for each of the two tables.\<close>

definition demo_indexed :: "unit metamodel_world" where
  "demo_indexed =
     \<lparr>mw_tasks = [], mw_env = (demo_db [demo_ds FLAT_HISTORY_BACKEND False] [demo_fact] [demo_index] Map.empty demo_start)
       \<lparr>mm_registry := [\<lparr>by_source = 3, by_db_name = ''m'', by_target_table = ''t'', by_target_table_type = MATERIALIZED\<rparr>,
          \<lparr>by_source = 3, by_db_name = ''h'', by_target_table = ''u'', by_target_table_type = FLAT_HISTORY\<rparr>],
        mm_pg_indexes := [(''m'', ''t'', []), (''h'', ''u'', [])]\<rparr>\<rparr>"

theorem index_blocks_pruning_witness:
  "fst (prune_meta_model 20 1 10 (mw_env demo_indexed)) = Inl AssertionError \<and>
   mm_indexes (snd (prune_meta_model 20 1 10 (mw_env demo_indexed))) = [demo_index] \<and>
   mm_registry (snd (prune_meta_model 20 1 10 (mw_env demo_indexed))) = [] \<and>
   mm_pg_indexes (snd (prune_meta_model 20 1 10 (mw_env demo_indexed))) = []"
proof -
  have "find (\<lambda>r. dsr_id r = 1) (mm_series (mw_env demo_indexed)) = Some (demo_ds FLAT_HISTORY_BACKEND False)"
    "dead_indexes (mw_env demo_indexed) 1 10 = [demo_index]" "dsr_backend (demo_ds FLAT_HISTORY_BACKEND False) = FLAT_HISTORY_BACKEND"
    by (simp_all add: demo_indexed_def dead_indexes_def demo_index_def expired_def)
  note run = index_blocks_pruning [OF this(1,3,2), of 20]
  have "filter (\<lambda>r. by_source r = ix_id demo_index) (mm_registry (mw_env demo_indexed)) =
      [\<lparr>by_source = 3, by_db_name = ''m'', by_target_table = ''t'', by_target_table_type = MATERIALIZED\<rparr>,
       \<lparr>by_source = 3, by_db_name = ''h'', by_target_table = ''u'', by_target_table_type = FLAT_HISTORY\<rparr>]"
    "mm_pg_indexes (mw_env demo_indexed) = [(''m'', ''t'', []), (''h'', ''u'', [])]"
    "mm_registry (mw_env demo_indexed) =
      [\<lparr>by_source = 3, by_db_name = ''m'', by_target_table = ''t'', by_target_table_type = MATERIALIZED\<rparr>,
       \<lparr>by_source = 3, by_db_name = ''h'', by_target_table = ''u'', by_target_table_type = FLAT_HISTORY\<rparr>]"
    "mm_indexes (mw_env demo_indexed) = [demo_index]"
    by (simp_all add: demo_indexed_def demo_index_def)
  with run show ?thesis by (auto split: prod.splits sum.splits)
qed

text \<open>C23: Migrating to the backend with history keeps the data: if the task succeeds, the table of current versions is as
  before, and the new history shows exactly the current data points of that table, each once.\<close>

theorem migration_keeps_data:
  assumes "migrate_no_history_to_flat_history t db = (Inr x, db1)" and "series_to_migrate (mt_data_series t) db = Inr ds"
    and "mm_tables db (row_hist_table ds) = None" and "distinct (map mr_id (sw_mat (mm_storage db) (row_mat_table ds)))"
  shows "sw_mat (mm_storage db1) (row_mat_table ds) = sw_mat (mm_storage db) (row_mat_table ds) \<and>
    shown ` set (flat_history_rows None None (sw_hist (mm_storage db1) (row_hist_table ds))) =
      shown ` set (materialized_rows None (sw_mat (mm_storage db) (row_mat_table ds))) \<and>
    distinct (map dr_id (flat_history_rows None None (sw_hist (mm_storage db1) (row_hist_table ds))))"
proof -
  from migration_copies [OF assms(1-3)] obtain H where H: "rmap migrated_row (sw_mat (mm_storage db) (row_mat_table ds)) = Inr H"
    "distinct (map hr_key H)" and data: "sw_mat (mm_storage db1) (row_mat_table ds) = sw_mat (mm_storage db) (row_mat_table ds)"
    "sw_hist (mm_storage db1) (row_hist_table ds) = H" by (auto simp: data_are_def)
  from flat_history_shows_current [OF migrated_reflects [OF H assms(4)] assms(4)] data show ?thesis by simp
qed

definition demo_rows :: "mat_row list" where
  "demo_rows =
     [\<lparr>mr_id = ''p'', mr_external_id = ''x'', mr_point_in_time = 10, mr_inserted_at = 10, mr_deleted_at = None,
       mr_sub_clock = Some 1, mr_columns = (\<lambda>_. Sql (PInt 7))\<rparr>,
      \<lparr>mr_id = ''q'', mr_external_id = ''y'', mr_point_in_time = 10, mr_inserted_at = 10, mr_deleted_at = Some 12,
       mr_sub_clock = Some 2, mr_columns = (\<lambda>_. SqlNull)\<rparr>]"

definition demo_locked :: "unit metamodel" where
  "demo_locked =
     (let ds = demo_ds FLAT_HISTORY_BACKEND True; t = row_mat_table ds in
      demo_db [ds] [demo_fact] [] [t \<mapsto> (map_of mat_base_columns)(child_column demo_fact \<mapsto> ''double precision'')]
        (demo_start\<lparr>sw_mat := (sw_mat demo_start)(t := demo_rows)\<rparr>))"


definition demo_task :: MetaModelTaskData where
  "demo_task = \<lparr>mt_id = ''task'', mt_task = migration_task FLAT_HISTORY_BACKEND, mt_data_series = uuid_str 1\<rparr>"

lemma bind_run: "m w = (Inr x, w1) \<Longrightarrow> f x w1 = r \<Longrightarrow> api_bind m f w = r"
  by (simp add: api_bind_def)

lemma atomic_metamodel_success: "m db = (Inr x, db1) \<Longrightarrow> atomic_metamodel m db = (Inr x, db1)"
  by (simp add: atomic_metamodel_def)

lemma demo_migrates:
  "\<exists>db1. migrate_no_history_to_flat_history demo_task demo_locked = (Inr (), db1)"
proof -
  let ?ds = "demo_ds FLAT_HISTORY_BACKEND True"
  let ?T = "[row_mat_table ?ds \<mapsto> (map_of mat_base_columns)(child_column demo_fact \<mapsto> ''double precision''),
    row_hist_table ?ds \<mapsto> map_of hist_base_columns]"
  define storage where "storage = no_rows (row_hist_table ?ds) (demo_start\<lparr>sw_mat := (sw_mat demo_start)(row_mat_table ?ds := demo_rows)\<rparr>)"
  have rows: "sw_mat storage (row_mat_table ?ds) = demo_rows" "sw_hist storage (row_hist_table ?ds) = []"
    by (simp_all add: storage_def no_rows_def set_rows_def)
  have ds: "series_to_migrate (mt_data_series demo_task) demo_locked = Inr ?ds"
    by (simp add: series_to_migrate_def demo_locked_def demo_task_def DataSeries_objects_def Let_def)
  have start: "handle_create_data_series_materialized_flat_history ?ds demo_locked = (Inr (), demo_db [?ds] [demo_fact] [] ?T storage)"
    by (simp add: handle_create_data_series_materialized_flat_history_def create_table_def require_table_def demo_locked_def Let_def
      api_bind_def storage_def)
  have fact1: "ch_kind demo_fact = float_facts" "ch_data_series demo_fact = 1" "ch_rel_deleted_at demo_fact = None"
    by (simp_all add: demo_fact_def)
  have column: "map_of hist_base_columns (child_column demo_fact) = None" by (simp add: child_column_def)
  define storage1 where "storage1 = null_column (row_hist_table ?ds) (child_column demo_fact) storage"
  have rows1: "sw_mat storage1 (row_mat_table ?ds) = demo_rows" "sw_hist storage1 (row_hist_table ?ds) = []"
    by (simp_all add: storage1_def rows null_column_def set_rows_def)
  let ?T1 = "?T(row_hist_table ?ds \<mapsto> (map_of hist_base_columns)(child_column demo_fact \<mapsto> ''double precision''))"
  have facts: "api_for (\<lambda>kind. api_bind (api_get (\<lambda>db. relation_set db (dsr_id ?ds) kind))
      (api_for (handle_create_fact_in_materialized_table (row_hist_table ?ds)))) migrated_kinds (demo_db [?ds] [demo_fact] [] ?T storage) =
      (Inr (), demo_db [?ds] [demo_fact] [] ?T1 storage1)"
    by (simp add: migrated_kinds_def api_bind_def api_get_def relation_set_def fact1 api_return_def column
      handle_create_fact_in_materialized_table_def add_column_def value_column_def_def storage1_def)
  have dims: "api_bind (api_get (\<lambda>db. relation_set db (dsr_id ?ds) dimensions))
      (api_for (handle_create_dimension_in_materialized_table (row_hist_table ?ds))) (demo_db [?ds] [demo_fact] [] ?T1 storage1) =
      (Inr (), demo_db [?ds] [demo_fact] [] ?T1 storage1)"
    by (simp add: api_bind_def api_get_def relation_set_def fact1 api_return_def)
  have "\<exists>storage2. copy_to_history ?ds (demo_db [?ds] [demo_fact] [] ?T1 storage1) = (Inr (), demo_db [?ds] [demo_fact] [] ?T1 storage2)"
    by (simp add: copy_to_history_def rows1 demo_rows_def migrated_row_def insert_history_def hr_key_def insert_to_flat_history_query_def) (intro exI, rule refl)
  then obtain storage2 where copy: "copy_to_history ?ds (demo_db [?ds] [demo_fact] [] ?T1 storage1) =
      (Inr (), demo_db [?ds] [demo_fact] [] ?T1 storage2)" by blast
  have asks: "api_asks (series_to_migrate (mt_data_series demo_task)) demo_locked = (Inr ?ds, demo_locked)"
    by (simp add: api_asks_def ds)
  have rest: "api_bind (api_get (\<lambda>db. live_indexes db (dsr_id ?ds))) (api_for (\<lambda>i. handle_create_user_defined_index
      \<lparr>im_data_series = dsr_id ?ds, im_external_id = dsr_external_id ?ds, im_targets = ix_targets i,
       im_backend = dsr_backend ?ds, im_index = ix_id i\<rparr>)) (demo_db [?ds] [demo_fact] [] ?T1 storage2) =
      (Inr (), demo_db [?ds] [demo_fact] [] ?T1 storage2)"
    by (simp add: api_bind_def api_get_def live_indexes_def api_return_def)
  have unlock: "unlock_series ?ds (demo_db [?ds] [demo_fact] [] ?T1 storage2) = (Inr (), snd (unlock_series ?ds (demo_db [?ds] [demo_fact] [] ?T1 storage2)))"
    by (simp add: unlock_series_def api_modify_def)
  show ?thesis
    unfolding migrate_no_history_to_flat_history_def
    by (rule exI, rule bind_run, rule asks, rule bind_run, rule atomic_metamodel_success, rule bind_run, rule start,
      rule bind_run, rule facts, rule bind_run, rule dims, rule bind_run, rule copy, rule rest, rule unlock)
qed

theorem migration_keeps_data_witness:
  "\<exists>db1. migrate_no_history_to_flat_history demo_task demo_locked = (Inr (), db1) \<and>
     shown ` set (flat_history_rows None None (sw_hist (mm_storage db1) (row_hist_table (demo_ds FLAT_HISTORY_BACKEND True)))) =
       {(''p'', ''x'', 10, \<lambda>_. Sql (PInt 7))}"
proof -
  let ?ds = "demo_ds FLAT_HISTORY_BACKEND True"
  obtain db1 where run: "migrate_no_history_to_flat_history demo_task demo_locked = (Inr (), db1)" using demo_migrates by blast
  have "series_to_migrate (mt_data_series demo_task) demo_locked = Inr ?ds"
    by (simp add: series_to_migrate_def demo_locked_def demo_task_def DataSeries_objects_def Let_def)
  moreover have "mm_tables demo_locked (row_hist_table ?ds) = None" by (simp add: demo_locked_def Let_def)
  moreover have rows: "sw_mat (mm_storage demo_locked) (row_mat_table ?ds) = demo_rows" by (simp add: demo_locked_def Let_def)
  moreover have "distinct (map mr_id demo_rows)" by (simp add: demo_rows_def)
  moreover have "shown ` set (materialized_rows None demo_rows) = {(''p'', ''x'', 10, \<lambda>_. Sql (PInt 7))}"
    by (simp add: materialized_rows_def demo_rows_def since_ok_def shown_def display_mat_def)
  ultimately show ?thesis using migration_keeps_data [OF run] run by (auto simp: rows)
qed

end
