(* ===== verification/Spec2Isabelle.thy ===== *)
theory Spec2Isabelle
  imports Client_Cli_Correct Server_Types Server_Events_Correct
    Server_Filter_Correct Server_Pagination_Correct Server_Bulk_Correct
    Server_Jobs_Correct Server_Flow_Correct Server_Metamodel_Properties
begin

text \<open>
  A verification development for NF Compose (\<open>src/client\<close>, the command line client and its library,
  and \<open>src/skipper\<close>, the server). The server keeps data series: typed collections of data points that
  are written through a REST interface into tables of PostgreSQL, read back now or as of an earlier
  time, and announced to consumers. The client reads the definitions of one instance, computes
  the difference to another and sends the requests that remove it.

  \<^bold>\<open>How the code is modelled.\<close> A class is a record with the fields of the class, an enum a datatype, a
  dictionary an association list in insertion order (\<open>Prelude\<close>), a value of JSON a \<open>pyval\<close>. A function
  that may raise returns \<open>py_error + 'a\<close> (\<open>rbind\<close>); one that also has effects is a function from the
  state to such a result and the new state (\<open>api_bind\<close>, \<open>api_for\<close>, \<open>api_map\<close>), so what was done before
  an exception stays done unless the code says otherwise (\<open>atomic\<close>). Where Python iterates over a
  set, the order is a parameter (\<open>set_order\<close>). An SQL statement is what PostgreSQL does with the rows of
  the tables it names; the tables are lists of rows.

  \<^bold>\<open>Client\<close> (\<open>client/compose_client/library\<close>).
  \<^item> \<open>Client_Url\<close>: \<open>service/url.py\<close>, \<open>models/domain_aliases.py\<close>: replacing the domain of a URL.
  \<^item> \<open>Client_Models\<close>: \<open>models/raw\<close>, \<open>models/definition\<close>, \<open>models/operation\<close>, \<open>models/diff\<close>: raw objects,
    definitions, operations and diffs with their conversions.
  \<^item> \<open>Client_Diff\<close>, \<open>Client_Diff_Correct\<close>: \<open>service/diff.py\<close>. The specification is a map of resources on
    which an operation may be illegal; a diff is legal on its base, yields the target (as far as its
    options allow) and is empty exactly if the two agree.
  \<^item> \<open>Client_Api\<close>: \<open>connection/client.py\<close>, \<open>connection/read.py\<close>: the clients over a network that is a
    parameter, the cached token, reading pages. The loop over pages may never end on a hostile
    server; \<open>fuel\<close> bounds it, and it returns the elements of the pages exactly if the chain of pages
    ends within the fuel.
  \<^item> \<open>Client_Fetcher\<close>: \<open>service/fetcher.py\<close>: fetching definitions and data points; on an instance whose answers
    depend on the URL only, fetching gives exactly the definitions that the instance has.
  \<^item> \<open>Client_Pusher\<close>: \<open>service/pusher.py\<close>: the requests that a diff becomes, and their order.
  \<^item> \<open>Client_Cli\<close>, \<open>Client_Cli_Correct\<close>: the commands of \<open>cli/commands\<close>; \<open>Json_Roundtrip\<close>: what reading back
    the JSON of a document gives, for the file that goes from \<open>diff\<close> to \<open>apply\<close>.
  The REST calls a client may make are the locale \<open>traced_client\<close>, interpreted on each client class.

  \<^bold>\<open>Writing on the server\<close> (\<open>skipper/skipper/dataseries\<close>).
  \<^item> \<open>Server_Text\<close>, \<open>Server_Encoding\<close>: what the server uses of Python's library: \<open>int\<close>, \<open>urlsplit\<close>, base64, JSON.
  \<^item> \<open>Server_Validate\<close>, \<open>Server_Validate_Correct\<close>: \<open>storage/validate\<close>: a request is accepted exactly if it
    meets a declarative specification, and the values stored are the specified ones. The validators
    of single fields share the contract \<open>field_validation\<close>.
  \<^item> \<open>Server_Files\<close>: \<open>storage/contract/file_registry.py\<close>: which files are in use, and their collection.
  \<^item> \<open>Server_Storage\<close>: \<open>storage/dynamic_sql/queries/modification_materialized\<close> and the tasks that persist,
    truncate and prune: the tables of current versions and of the history, with what is written to
    the registry and to the events.
  \<^item> \<open>Server_Storage_Correct\<close>: invariants of the two tables (locale \<open>table_invariant\<close>): the newest entry of the
    history is the current version, reading at a time shows what was current then, and pruning
    changes neither. \<open>Server_Storage_Order\<close>: writes in any order, the greatest version wins; updates
    set their columns. \<open>Server_Types\<close>: every column holds NULL or a value of its type.
    \<open>Server_Storage_Files\<close>: files that data points name stay in the storage, through patches that send them
    again, and are lost by a patch that leaves one out.
  \<^item> \<open>Server_Semaphore\<close>, \<open>Server_Bulk\<close>, \<open>Server_Bulk_Correct\<close>: \<open>core/celery.py\<close>, \<open>create_bulk\<close> and the asynchronous
    workers: no accepted write is lost, whatever messages, workers and semaphores do.
  \<^item> \<open>Server_Events\<close>, \<open>Server_Events_Correct\<close>: \<open>models/event.py\<close>, \<open>tasks/event.py\<close>: delivery to consumers as a
    refinement of a queue. What holds of every attempt holds of every heartbeat (locale
    \<open>attempt_relation\<close>), hence order and retries for all steps of \<open>event_step\<close>: events of any point in
    time and changes of consumers included. Heartbeats end, and deliver what is due.
  \<^item> \<open>Server_Jobs\<close>: \<open>core/models/postgres_jobs.py\<close>, \<open>tasks/pgq.py\<close>: the queue of jobs in PostgreSQL.

  \<^bold>\<open>Reading on the server.\<close>
  \<^item> \<open>Server_Query\<close>: the queries of \<open>storage/dynamic_sql/queries\<close> and the reading half of
    \<open>storage_view_adapter.py\<close>: filters, start of a page, order, limit, counting.
  \<^item> \<open>Server_Filter\<close>, \<open>Server_Filter_Correct\<close>: \<open>queries/user_defined_filter.py\<close>: a JSON filter is translated into a
    condition that means the formula the JSON stands for, with values passed as parameters only.
  \<^item> \<open>Server_Pagination\<close>, \<open>Server_Pagination_Correct\<close>: \<open>pagination.py\<close>: following \<open>next\<close> enumerates the rows.
    First for any view with the laws of \<open>serves\<close>, then for the view of data points.

  \<^bold>\<open>Permissions\<close> (\<open>skipper/skipper/core\<close>, \<open>dataseries/views/contract.py\<close>).
  \<^item> \<open>Server_Permissions\<close>, \<open>Server_Permissions_Correct\<close>: \<open>core/models/guardian.py\<close>, \<open>core/utils/permissions.py\<close>,
    \<open>core/views/permission.py\<close>, \<open>dataseries/views/contract.py\<close>: who sees which objects, what a change of
    permissions changes, and when a request reaches a data series. The functions of Django and
    django-guardian are the parameter \<open>guardian\<close> with the laws \<open>guardian_contract\<close>, interpreted on functions that
    read and write the tables.

  \<^bold>\<open>Definitions\<close> (\<open>skipper/skipper/dataseries\<close>).
  \<^item> \<open>Server_Metamodel\<close>: \<open>serializers/metamodel\<close>, \<open>views/metamodel\<close>, \<open>tasks/ddl\<close>, \<open>tasks/migrate\<close> and the rest of
    \<open>tasks/prune.py\<close>: data series, facts, dimensions and indexes with the tables, columns and indexes that
    PostgreSQL keeps for them. A request or task is a program over \<open>metamodel\<close>, the tables of Django,
    the catalogue of PostgreSQL and the stored rows.
  \<^item> \<open>Server_Metamodel_Correct\<close>, \<open>Server_Metamodel_Steps\<close>: the invariant \<open>metamodel_ok\<close>, which every request and
    every task keeps, also when it fails half way; \<open>metamodel_step\<close> is one of them.
  \<^item> \<open>Server_Metamodel_Properties\<close>: the storage follows the definitions, definitions stay connected, a migration
    keeps the data, and an index that is due blocks pruning.

  \<^bold>\<open>Flows\<close> (\<open>skipper/skipper/flow\<close>).
  \<^item> \<open>Server_Flow\<close>, \<open>Server_Flow_Correct\<close>: \<open>flow/models\<close>, \<open>flow/views\<close>, \<open>flow/serializers\<close>: engines and HTTP endpoints,
    their administration, and the views that tell nginx where a request goes and with which secret.
    A view is a function to the new tables or an exception; \<open>flow_step\<close> is one successful request, \<open>flow_ok\<close>
    the invariant. Python's \<open>re.match\<close> is a parameter that may raise on a pattern.

  \<^bold>\<open>Bounds and fuel.\<close> Floats are exact (\<open>int_to_float\<close> rounds as IEEE double does and overflows). Python's
  integers are \<open>int\<close>. Reading JSON takes fuel twice the length of the text and two, more than it can
  consume; following links takes one step more than there are rows. The loop of a heartbeat has
  fuel as well, and it is shown how much is enough. The other loops are structural.

  \<^bold>\<open>What is assumed.\<close> Parameters stand for what is not in the repository: the network, the consumers, the
  file storage (S3), SHA-256, \<open>to_dict\<close> and \<open>from_dict\<close> of \<open>dataclasses_json\<close>, how floats and times are
  printed and read, what PostgreSQL compares (collation), the URL functions of the REST framework.
  Laws about them are hypotheses of the theorems that need them, and their witnesses have
  concrete instances. Transactions are atomic and one after the other, apart from the semaphores,
  whose commands interleave.

  \<^bold>\<open>What is not modelled.\<close> The deprecated storage backends and the text of the SQL; the versions of a data
  point and the columns of its payload; the indexes that every table has, updates of indexes, requests on
  consumers, names and extra configuration; grants and views for analytics users; Django's declarations
  (models, serializers, URL tables, admin, settings, migrations), which have no code of their own
  to verify; authentication (passwords, sessions, tokens); rendering. They are listed in the manifest.
\<close>

section \<open>From the diff to the requests\<close>

lemma diff_by_key_members:
  "diff_by_key ord key diff base target = Inr ds \<Longrightarrow> d \<in> set ds \<Longrightarrow> \<exists>b t. diff b t = Inr d"
  unfolding diff_by_key_def Let_def by (drule (1) rmap_members) blast

lemma engine_diff_no_delete:
  "diff_engine_definition ord cd b t False revoke = Inr d \<Longrightarrow>
    (\<forall>x. edd_engine d = Some x \<longrightarrow> eio_operation_type x \<noteq> DELETE) \<and>
    (\<forall>x. edd_secret d = Some x \<longrightarrow> op_operation_type x \<noteq> DELETE)"
  by (auto simp: diff_engine_definition_def rbind_Inr_iff operation_def split: option.splits if_splits)

lemma http_endpoint_diff_no_delete:
  "diff_http_endpoint_definition ord cd b t False revoke = Inr d \<Longrightarrow>
    hdd_http_endpoint d = Some x \<Longrightarrow> eio_operation_type x \<noteq> DELETE"
  by (auto simp: diff_http_endpoint_definition_def rbind_Inr_iff split: option.splits if_splits)

lemma group_diff_no_delete:
  "diff_group_definition cd b t False = Inr d \<Longrightarrow>
    gdd_group d = Some x \<Longrightarrow> no_operation_type x \<noteq> DELETE"
  by (auto simp: diff_group_definition_def split: option.splits if_splits)

text \<open>C6: Unless deletion was asked for, what comes out of diffing engines, HTTP endpoints or groups
  and pushing the diff never deletes anything: whatever base, target, iteration orders and
  answers of the server, the client sends no \<open>DELETE\<close> request.\<close>

theorem no_deletion_unless_asked:
  "(case diff_all_engine_definitions ord cd ebase etarget False revoke of
      Inl _ \<Rightarrow> True
    | Inr ds \<Rightarrow> emits wire_trace (calls_of {GET, POST, PATCH, PUT})
        (push_engines fuel (RequestsRestClient net testing cred) cv ds)) \<and>
   (case diff_all_http_endpoint_definitions ord cd hbase htarget False revoke of
      Inl _ \<Rightarrow> True
    | Inr ds \<Rightarrow> emits wire_trace (calls_of {GET, POST, PATCH, PUT})
        (push_http_endpoints fuel (RequestsRestClient net testing cred) cv ds)) \<and>
   (case diff_all_group_definitions ord cd gbase gtarget False of
      Inl _ \<Rightarrow> True
    | Inr ds \<Rightarrow> emits wire_trace (calls_of {GET, POST, PATCH, PUT})
        (push_groups (RequestsRestClient net testing cred) ds))"
proof (intro conjI)
  show "case diff_all_engine_definitions ord cd ebase etarget False revoke of
      Inl _ \<Rightarrow> True
    | Inr ds \<Rightarrow> emits wire_trace (calls_of {GET, POST, PATCH, PUT})
        (push_engines fuel (RequestsRestClient net testing cred) cv ds)"
    by (split sum.split, intro conjI allI impI TrueI, rule rest.emits_push_engines;
        simp add: diff_all_engine_definitions_def; drule (1) diff_by_key_members; blast dest: engine_diff_no_delete)
next
  show "case diff_all_http_endpoint_definitions ord cd hbase htarget False revoke of
      Inl _ \<Rightarrow> True
    | Inr ds \<Rightarrow> emits wire_trace (calls_of {GET, POST, PATCH, PUT})
        (push_http_endpoints fuel (RequestsRestClient net testing cred) cv ds)"
    by (split sum.split, intro conjI allI impI TrueI, rule rest.emits_push_http_endpoints;
        simp add: diff_all_http_endpoint_definitions_def; drule (1) diff_by_key_members; blast dest: http_endpoint_diff_no_delete)
next
  show "case diff_all_group_definitions ord cd gbase gtarget False of
      Inl _ \<Rightarrow> True
    | Inr ds \<Rightarrow> emits wire_trace (calls_of {GET, POST, PATCH, PUT})
        (push_groups (RequestsRestClient net testing cred) ds)"
    by (split sum.split, intro conjI allI impI TrueI, rule rest.emits_push_groups;
        simp add: diff_all_group_definitions_def; drule (1) diff_by_key_members; blast dest: group_diff_no_delete)
qed

end
